(* ===== verification/Kratos_Maps.thy ===== *)
theory Kratos_Maps
  imports Kratos_Prelude "HOL-Library.AList"
begin

text \<open>
  The two map types of the source.  A \<open>BTreeMap\<close> is an association list in increasing key
  order, which is also the order its iterators follow.  A \<open>HashMap\<close> is an association list
  with distinct keys; its iteration order is unspecified, so a definition of the development
  whose result could depend on it takes the order as an argument.  The interface both provide
  is the locale \<open>kv_map\<close>, whose lemmas (size and sums after an update) the components use.
\<close>

section \<open>The interface of a key/value map\<close>

locale kv_map =
  fixes get :: "'m \<Rightarrow> 'k \<Rightarrow> 'v option"
    and put :: "'k \<Rightarrow> 'v \<Rightarrow> 'm \<Rightarrow> 'm"
    and del :: "'k \<Rightarrow> 'm \<Rightarrow> 'm"
    and keys :: "'m \<Rightarrow> 'k list"
    and inv :: "'m \<Rightarrow> bool"
  assumes get_put: "inv m \<Longrightarrow> get (put k v m) = (get m)(k \<mapsto> v)"
    and get_del: "inv m \<Longrightarrow> get (del k m) = (get m)(k := None)"
    and inv_put: "inv m \<Longrightarrow> inv (put k v m)"
    and inv_del: "inv m \<Longrightarrow> inv (del k m)"
    and set_keys: "inv m \<Longrightarrow> set (keys m) = dom (get m)"
    and distinct_keys: "inv m \<Longrightarrow> distinct (keys m)"
begin

definition total :: "('v \<Rightarrow> nat) \<Rightarrow> 'm \<Rightarrow> nat" where
  "total f m = (\<Sum>k \<in> dom (get m). f (the (get m k)))"

lemma finite_dom: "inv m \<Longrightarrow> finite (dom (get m))"
  using set_keys by (metis List.finite_set)

lemma length_keys: "inv m \<Longrightarrow> length (keys m) = card (dom (get m))"
  using set_keys distinct_keys by (metis distinct_card)

lemma total_put:
  assumes "inv m"
  shows "total f (put k v m) + (case get m k of None \<Rightarrow> 0 | Some w \<Rightarrow> f w) = total f m + f v"
proof -
  have "total f (put k v m) = f v + (\<Sum>x \<in> dom (get m) - {k}. f (the (get m x)))"
    using finite_dom [OF assms]
    by (auto simp: total_def get_put [OF assms] sum.insert_remove intro!: sum.cong)
  then show ?thesis
  proof (cases "get m k")
    case None
    then have "dom (get m) - {k} = dom (get m)" by auto
    with None \<open>total f (put k v m) = _\<close> show ?thesis by (simp add: total_def)
  next
    case (Some w)
    then have "total f m = f w + (\<Sum>x \<in> dom (get m) - {k}. f (the (get m x)))"
      using sum.remove [OF finite_dom [OF assms], of k "\<lambda>x. f (the (get m x))"]
      by (simp add: total_def domI)
    with Some \<open>total f (put k v m) = _\<close> show ?thesis by simp
  qed
qed

lemma total_del:
  assumes "inv m"
  shows "total f (del k m) + (case get m k of None \<Rightarrow> 0 | Some w \<Rightarrow> f w) = total f m"
proof -
  have "total f (del k m) = (\<Sum>x \<in> dom (get m) - {k}. f (the (get m x)))"
    by (auto simp: total_def get_del [OF assms] intro!: sum.cong)
  then show ?thesis
    using sum.remove [OF finite_dom [OF assms], of k "\<lambda>x. f (the (get m x))"]
    by (cases "get m k") (auto simp: total_def domIff)
qed

lemma length_keys_put:
  "inv m \<Longrightarrow> length (keys (put k v m)) = (if get m k = None then Suc (length (keys m)) else length (keys m))"
  by (simp add: length_keys inv_put get_put finite_dom card_insert_if domIff)

lemma get_le_total: "inv m \<Longrightarrow> get m k = Some v \<Longrightarrow> f v \<le> total f m"
  unfolding total_def using finite_dom
  by (metis domI member_le_sum option.sel zero_le)

end

section \<open>HashMap\<close>

type_synonym ('k, 'v) hmap = "('k \<times> 'v) list"

abbreviation (input) hm_get :: "('k, 'v) hmap \<Rightarrow> 'k \<Rightarrow> 'v option" where "hm_get \<equiv> map_of"
abbreviation (input) hm_insert :: "'k \<Rightarrow> 'v \<Rightarrow> ('k, 'v) hmap \<Rightarrow> ('k, 'v) hmap" where "hm_insert \<equiv> AList.update"
abbreviation (input) hm_remove :: "'k \<Rightarrow> ('k, 'v) hmap \<Rightarrow> ('k, 'v) hmap" where "hm_remove \<equiv> AList.delete"
abbreviation (input) hm_keys :: "('k, 'v) hmap \<Rightarrow> 'k list" where "hm_keys m \<equiv> map fst m"

definition hm_inv :: "('k, 'v) hmap \<Rightarrow> bool" where
  "hm_inv m = distinct (map fst m)"

definition hm_contains :: "('k, 'v) hmap \<Rightarrow> 'k \<Rightarrow> bool" where
  "hm_contains m k = (hm_get m k \<noteq> None)"

definition hm_retain :: "('k \<Rightarrow> 'v \<Rightarrow> bool) \<Rightarrow> ('k, 'v) hmap \<Rightarrow> ('k, 'v) hmap" where
  "hm_retain P m = filter (\<lambda>(k, v). P k v) m"

interpretation hm: kv_map hm_get hm_insert hm_remove hm_keys hm_inv
proof
  fix m :: "('k, 'v) hmap" and k v
  show "hm_get (hm_insert k v m) = (hm_get m)(k \<mapsto> v)" by (rule update_conv')
  show "hm_get (hm_remove k m) = (hm_get m)(k := None)" by (rule delete_conv')
  show "hm_inv m \<Longrightarrow> hm_inv (hm_insert k v m)" by (simp add: hm_inv_def distinct_update)
  show "hm_inv m \<Longrightarrow> hm_inv (hm_remove k m)" by (simp add: hm_inv_def distinct_delete)
  show "set (hm_keys m) = dom (hm_get m)" by (simp add: dom_map_of_conv_image_fst)
  show "hm_inv m \<Longrightarrow> distinct (hm_keys m)" by (simp add: hm_inv_def)
qed

lemma hm_inv_Nil [simp]: "hm_inv []"
  by (simp add: hm_inv_def)

lemma hm_get_retain: "hm_inv m \<Longrightarrow>
  hm_get (hm_retain P m) k = (case hm_get m k of None \<Rightarrow> None | Some v \<Rightarrow> if P k v then Some v else None)"
  unfolding hm_retain_def hm_inv_def
  by (induction m) (auto split: option.splits simp: map_of_eq_None_iff rev_image_eqI)

lemma hm_inv_retain [simp]: "hm_inv m \<Longrightarrow> hm_inv (hm_retain P m)"
  unfolding hm_retain_def hm_inv_def by (simp add: distinct_map_filter)

section \<open>BTreeMap\<close>

type_synonym ('k, 'v) bmap = "('k \<times> 'v) list"

abbreviation (input) bm_get :: "('k, 'v) bmap \<Rightarrow> 'k \<Rightarrow> 'v option" where "bm_get \<equiv> map_of"
abbreviation (input) bm_keys :: "('k, 'v) bmap \<Rightarrow> 'k list" where "bm_keys m \<equiv> map fst m"
abbreviation (input) bm_values :: "('k, 'v) bmap \<Rightarrow> 'v list" where "bm_values m \<equiv> map snd m"

fun bm_insert :: "'k::linorder \<Rightarrow> 'v \<Rightarrow> ('k, 'v) bmap \<Rightarrow> ('k, 'v) bmap" where
  "bm_insert k v [] = [(k, v)]"
| "bm_insert k v ((k', v') # m) =
     (if k < k' then (k, v) # (k', v') # m
      else if k = k' then (k, v) # m
      else (k', v') # bm_insert k v m)"

definition bm_remove :: "'k \<Rightarrow> ('k, 'v) bmap \<Rightarrow> ('k, 'v) bmap" where
  "bm_remove k m = filter (\<lambda>(k', _). k' \<noteq> k) m"

definition bm_contains :: "('k, 'v) bmap \<Rightarrow> 'k \<Rightarrow> bool" where
  "bm_contains m k = (bm_get m k \<noteq> None)"

definition bm_inv :: "('k::linorder, 'v) bmap \<Rightarrow> bool" where
  "bm_inv m = sorted_wrt (<) (map fst m)"

lemma bm_inv_Nil [simp]: "bm_inv []"
  by (simp add: bm_inv_def)

lemma bm_keys_insert: "set (bm_keys (bm_insert k v m)) = insert k (set (bm_keys m))"
  by (induction k v m rule: bm_insert.induct) (simp_all, blast)

lemma bm_get_insert: "bm_get (bm_insert k v m) = (bm_get m)(k \<mapsto> v)"
  by (induction m) (auto simp: fun_eq_iff)

lemma bm_inv_insert: "bm_inv m \<Longrightarrow> bm_inv (bm_insert k v m)"
  unfolding bm_inv_def
proof (induction m)
  case Nil
  then show ?case by simp
next
  case (Cons a m)
  obtain k' v' where a: "a = (k', v')" by (cases a)
  show ?case
    using Cons bm_keys_insert [of k v m] by (auto simp: a)
qed

lemma bm_get_remove: "bm_get (bm_remove k m) = (bm_get m)(k := None)"
  unfolding bm_remove_def by (induction m) (auto simp: fun_eq_iff)

lemma bm_inv_remove: "bm_inv m \<Longrightarrow> bm_inv (bm_remove k m)"
  unfolding bm_inv_def bm_remove_def by (induction m) (auto split: if_splits)

lemma bm_inv_distinct: "bm_inv m \<Longrightarrow> distinct (bm_keys m)"
  unfolding bm_inv_def using strict_sorted_iff by blast

interpretation bm: kv_map bm_get bm_insert bm_remove bm_keys bm_inv
  by unfold_locales
    (simp_all add: bm_get_insert bm_get_remove bm_inv_insert bm_inv_remove bm_inv_distinct
      dom_map_of_conv_image_fst)

text \<open>The sum over the values, read off the list, is the total of the interface.\<close>

lemma sum_values_total:
  assumes "distinct (map fst m)"
  shows "sum_list (map (\<lambda>(k, v). f v) m) = (\<Sum>k \<in> dom (map_of m). f (the (map_of m k)))"
  using assms
proof (induction m)
  case Nil
  then show ?case by simp
next
  case (Cons a m)
  obtain k v where a: "a = (k, v)" by (cases a)
  have k: "k \<notin> dom (map_of m)"
    using Cons.prems by (simp add: a dom_map_of_conv_image_fst)
  have "(\<Sum>x \<in> dom (map_of m). f (the (((map_of m)(k \<mapsto> v)) x))) = (\<Sum>x \<in> dom (map_of m). f (the (map_of m x)))"
    using k by (intro sum.cong) auto
  with Cons k show ?case
    by (simp add: a finite_dom_map_of del: fun_upd_apply) (simp add: fun_upd_same)
qed

lemma bm_total_list: "bm_inv m \<Longrightarrow> bm.total f m = sum_list (map (\<lambda>(k, v). f v) m)"
  by (simp add: bm.total_def sum_values_total bm_inv_distinct)

lemma hm_total_list: "hm_inv m \<Longrightarrow> hm.total f m = sum_list (map (\<lambda>(k, v). f v) m)"
  by (simp add: hm.total_def sum_values_total hm_inv_def)

lemma map_of_Some_in: "map_of m k = Some v \<Longrightarrow> (k, v) \<in> set m"
  by (rule map_of_SomeD)

lemma bm_filter_keys: "bm_inv m \<Longrightarrow> k \<in> fst ` set (filter P m) \<longleftrightarrow> (\<exists>v. bm_get m k = Some v \<and> P (k, v))"
  using bm_inv_distinct by (force simp: image_iff)

end
