(* ===== verification/Kratos_Types.thy ===== *)
theory Kratos_Types
  imports Kratos_Maps
begin

text \<open>
  The base types of \<^verbatim>\<open>rust/kratos-core/src/types\<close>: \<^verbatim>\<open>primitives.rs\<close> (units), \<^verbatim>\<open>account.rs\<close>
  (\<open>AccountInfo\<close> and its reserve, unreserve and slash operations), \<^verbatim>\<open>signature.rs\<close> (the
  domain separators) and \<^verbatim>\<open>transaction.rs\<close> (calls, fees, hashing and signature checks).

  \<open>AccountId\<close> and \<open>Hash\<close> wrap \<^verbatim>\<open>[u8; 32]\<close>: they are 256-bit words whose numeric order is
  the derived (lexicographic) order of the byte array, most significant byte first.
  Blake3, Ed25519 and bincode are external crates: the record \<open>crypto\<close> carries them as
  parameters of every definition that calls them.
\<close>

section \<open>Bytes\<close>

definition le_bytes :: "nat \<Rightarrow> 'a::len word \<Rightarrow> bytes" where
  "le_bytes n w = map (\<lambda>i. ucast (drop_bit (8 * i) w)) [0..<n]"

definition be_bytes :: "nat \<Rightarrow> 'a::len word \<Rightarrow> bytes" where
  "be_bytes n w = rev (le_bytes n w)"

lemma length_le_bytes [simp]: "length (le_bytes n w) = n"
  by (simp add: le_bytes_def)

lemma length_be_bytes [simp]: "length (be_bytes n w) = n"
  by (simp add: be_bytes_def)

lemma bit_le_bytes:
  assumes "j < 8 * n"
  shows "bit (le_bytes n w ! (j div 8)) (j mod 8) = bit w j"
proof -
  have "j div 8 < n" using assms by (simp add: less_mult_imp_div_less)
  then show ?thesis
    by (simp add: le_bytes_def bit_simps)
qed

lemma le_bytes_inject:
  fixes a b :: "'a::len word"
  assumes "le_bytes n a = le_bytes n b" and "LENGTH('a) \<le> 8 * n"
  shows "a = b"
proof (rule bit_word_eqI)
  fix j
  assume "j < LENGTH('a)"
  then show "bit a j = bit b j"
    using bit_le_bytes [of j n a] bit_le_bytes [of j n b] assms by simp
qed

lemma be_bytes_inject:
  fixes a b :: "'a::len word"
  shows "be_bytes n a = be_bytes n b \<Longrightarrow> LENGTH('a) \<le> 8 * n \<Longrightarrow> a = b"
  by (simp add: be_bytes_def le_bytes_inject)

definition ascii :: "string \<Rightarrow> bytes" where
  "ascii s = map of_char s"

section \<open>Primitives\<close>

type_synonym hash = "256 word"
type_synonym account_id = "256 word"
type_synonym signature64 = "512 word"
type_synonym balance = u128
type_synonym block_number = u64
type_synonym epoch_number = u64
type_synonym slot_number = u64
type_synonym chain_id = u32

definition ZERO :: hash where [const_defs]: "ZERO = 0"
definition KRAT :: balance where [const_defs]: "KRAT = 1000000000000"
definition MILLIKRAT :: balance where [const_defs]: "MILLIKRAT = 1000000000"
definition MICROKRAT :: balance where [const_defs]: "MICROKRAT = 1000000"
definition INITIAL_SUPPLY :: balance where [const_defs]: "INITIAL_SUPPLY = 1000000000 * KRAT"
definition EXISTENTIAL_DEPOSIT :: balance where [const_defs]: "EXISTENTIAL_DEPOSIT = 1 * MILLIKRAT"
definition ROOT :: chain_id where [const_defs]: "ROOT = 0"

definition is_root :: "chain_id \<Rightarrow> bool" where
  "is_root c = (c = 0)"

definition account_bytes :: "account_id \<Rightarrow> bytes" where
  "account_bytes a = be_bytes 32 a"

definition hash_bytes :: "hash \<Rightarrow> bytes" where
  "hash_bytes h = be_bytes 32 h"

lemma account_bytes_inject [simp]: "account_bytes a = account_bytes b \<longleftrightarrow> a = b"
  by (auto simp: account_bytes_def dest: be_bytes_inject)

lemma hash_bytes_inject [simp]: "hash_bytes a = hash_bytes b \<longleftrightarrow> a = b"
  by (auto simp: hash_bytes_def dest: be_bytes_inject)

section \<open>Accounts\<close>

record account_info =
  ai_nonce :: u64
  ai_free :: balance
  ai_reserved :: balance
  ai_last_modified :: hash

datatype account_error = AE_InsufficientBalance | AE_InsufficientReserved | AE_NotFound
  | AE_BelowExistentialDeposit

definition account_new :: account_info where
  "account_new = \<lparr>ai_nonce = 0, ai_free = 0, ai_reserved = 0, ai_last_modified = ZERO\<rparr>"

definition account_total :: "account_info \<Rightarrow> balance" where
  "account_total a = sat_add (ai_free a) (ai_reserved a)"

definition can_transfer :: "account_info \<Rightarrow> balance \<Rightarrow> bool" where
  "can_transfer a amount = (amount \<le> ai_free a)"

definition reserve :: "balance \<Rightarrow> account_info \<Rightarrow> (account_error, unit) result \<times> account_info" where
  "reserve amount a =
     (if ai_free a < amount then (Err AE_InsufficientBalance, a)
      else (Ok (), a\<lparr>ai_free := sat_sub (ai_free a) amount,
                     ai_reserved := sat_add (ai_reserved a) amount\<rparr>))"

definition unreserve :: "balance \<Rightarrow> account_info \<Rightarrow> (account_error, unit) result \<times> account_info" where
  "unreserve amount a =
     (if ai_reserved a < amount then (Err AE_InsufficientReserved, a)
      else (Ok (), a\<lparr>ai_reserved := sat_sub (ai_reserved a) amount,
                     ai_free := sat_add (ai_free a) amount\<rparr>))"

definition slash_reserved :: "balance \<Rightarrow> account_info \<Rightarrow> balance \<times> account_info" where
  "slash_reserved amount a =
     (let slashed = min amount (ai_reserved a)
      in (slashed, a\<lparr>ai_reserved := sat_sub (ai_reserved a) slashed\<rparr>))"

text \<open>
  The funds of an account as an unbounded number.  \<open>funds_fit\<close> says the two parts together
  stay within \<open>u128\<close>, which is what makes the saturating additions of the code exact.
\<close>

definition funds :: "account_info \<Rightarrow> nat" where
  "funds a = unat (ai_free a) + unat (ai_reserved a)"

definition funds_fit :: "account_info \<Rightarrow> bool" where
  "funds_fit a = (funds a < 2 ^ 128)"

lemma unat_account_total: "funds_fit a \<Longrightarrow> unat (account_total a) = funds a"
  by (simp add: account_total_def funds_fit_def funds_def word_nat)

lemma reserve_funds:
  "funds_fit a \<Longrightarrow> reserve amount a = (Ok (), b) \<Longrightarrow>
     funds b = funds a \<and> unat (ai_reserved b) = unat (ai_reserved a) + unat amount"
  by (auto simp: reserve_def funds_def funds_fit_def word_nat split: if_splits)

lemma unreserve_funds:
  "funds_fit a \<Longrightarrow> unreserve amount a = (Ok (), b) \<Longrightarrow>
     funds b = funds a \<and> unat (ai_free b) = unat (ai_free a) + unat amount"
  by (auto simp: unreserve_def funds_def funds_fit_def word_nat split: if_splits)

section \<open>Domain separation\<close>

definition DOMAIN_BLOCK_HEADER :: bytes where "DOMAIN_BLOCK_HEADER = ascii ''KRATOS_BLOCK_HEADER_V1:''"
definition DOMAIN_TRANSACTION :: bytes where "DOMAIN_TRANSACTION = ascii ''KRATOS_TRANSACTION_V1:''"
definition DOMAIN_VRF_PROOF :: bytes where "DOMAIN_VRF_PROOF = ascii ''KRATOS_VRF_PROOF_V1:''"
definition DOMAIN_GOVERNANCE_VOTE :: bytes where "DOMAIN_GOVERNANCE_VOTE = ascii ''KRATOS_GOVERNANCE_V1:''"
definition DOMAIN_ARBITRATION :: bytes where "DOMAIN_ARBITRATION = ascii ''KRATOS_ARBITRATION_V1:''"
definition DOMAIN_STATE_ROOT :: bytes where "DOMAIN_STATE_ROOT = ascii ''KRATOS_STATE_ROOT_V1:''"
definition DOMAIN_MERKLE_PROOF :: bytes where "DOMAIN_MERKLE_PROOF = ascii ''KRATOS_MERKLE_PROOF_V1:''"
definition DOMAIN_EMERGENCY_EXIT :: bytes where "DOMAIN_EMERGENCY_EXIT = ascii ''KRATOS_EMERGENCY_EXIT_V1:''"
definition DOMAIN_SLASHING_EVIDENCE :: bytes where "DOMAIN_SLASHING_EVIDENCE = ascii ''KRATOS_SLASHING_V1:''"
definition DOMAIN_DISPUTE :: bytes where "DOMAIN_DISPUTE = ascii ''KRATOS_DISPUTE_V1:''"
definition DOMAIN_STAKING :: bytes where "DOMAIN_STAKING = ascii ''KRATOS_STAKING_V1:''"
definition DOMAIN_CROSS_CHAIN_MSG :: bytes where "DOMAIN_CROSS_CHAIN_MSG = ascii ''KRATOS_XCHAIN_MSG_V1:''"
definition DOMAIN_FINALITY :: bytes where "DOMAIN_FINALITY = ascii ''KRATOS_FINALITY_V1:''"

lemmas domain_defs =
  DOMAIN_BLOCK_HEADER_def DOMAIN_TRANSACTION_def DOMAIN_VRF_PROOF_def DOMAIN_GOVERNANCE_VOTE_def
  DOMAIN_ARBITRATION_def DOMAIN_STATE_ROOT_def DOMAIN_MERKLE_PROOF_def DOMAIN_EMERGENCY_EXIT_def
  DOMAIN_SLASHING_EVIDENCE_def DOMAIN_DISPUTE_def DOMAIN_STAKING_def DOMAIN_CROSS_CHAIN_MSG_def
  DOMAIN_FINALITY_def

definition all_domains :: "bytes list" where
  "all_domains = [DOMAIN_BLOCK_HEADER, DOMAIN_TRANSACTION, DOMAIN_VRF_PROOF, DOMAIN_GOVERNANCE_VOTE,
     DOMAIN_ARBITRATION, DOMAIN_STATE_ROOT, DOMAIN_MERKLE_PROOF, DOMAIN_EMERGENCY_EXIT,
     DOMAIN_SLASHING_EVIDENCE, DOMAIN_DISPUTE, DOMAIN_STAKING, DOMAIN_CROSS_CHAIN_MSG,
     DOMAIN_FINALITY]"

definition domain_separate :: "bytes \<Rightarrow> bytes \<Rightarrow> bytes" where
  "domain_separate domain message = domain @ message"

text \<open>
  The separators have no terminator of their own, so two of them are safe together when
  neither is a prefix of the other.  \<open>clash_free\<close> decides that for a list of strings: any two
  differ at a position both have.
\<close>

fun differ :: "'a list \<Rightarrow> 'a list \<Rightarrow> bool" where
  "differ (x # xs) (y # ys) = (x \<noteq> y \<or> differ xs ys)"
| "differ _ _ = False"

fun clash_free :: "'a list list \<Rightarrow> bool" where
  "clash_free [] = True"
| "clash_free (x # xs) = ((\<forall>y \<in> set xs. differ x y) \<and> clash_free xs)"

lemma differ_append: "differ x y \<Longrightarrow> x @ a \<noteq> y @ b"
  by (induction x y rule: differ.induct) auto

lemma differ_sym: "differ x y = differ y x"
  by (induction x y rule: differ.induct) (auto elim: differ.elims)

lemma clash_free_differ:
  "clash_free ds \<Longrightarrow> x \<in> set ds \<Longrightarrow> y \<in> set ds \<Longrightarrow> x = y \<or> differ x y"
  by (induction ds) (auto simp: differ_sym)

lemma clash_free_append:
  assumes "clash_free ds" and "x \<in> set ds" and "y \<in> set ds" and "x @ a = y @ b"
  shows "x = y \<and> a = b"
  using clash_free_differ [OF assms(1-3)] differ_append [of x y a b] assms(4) by auto

lemma of_char_inject [simp]: "(of_char c :: u8) = of_char d \<longleftrightarrow> c = d"
proof
  assume "(of_char c :: u8) = of_char d"
  then have "(of_nat (of_char c) :: u8) = of_nat (of_char d)" by (simp only: of_nat_of_char)
  then have "(of_char c :: nat) mod 256 = of_char d mod 256"
    by (simp add: word_of_nat_eq_iff take_bit_eq_mod)
  then show "c = d" by simp
qed simp

lemma differ_ascii: "differ (ascii s) (ascii t) = differ s t"
  unfolding ascii_def by (induction s t rule: differ.induct) auto

lemma all_domains_clash_free: "clash_free all_domains"
  by (simp add: all_domains_def domain_defs differ_ascii)

section \<open>External cryptography and codecs\<close>

record sidechain_metadata =
  sm_name :: "string option"
  sm_description :: "string option"
  sm_parent_chain :: "chain_id option"

datatype transaction_call =
    Transfer account_id balance
  | Stake balance
  | Unstake balance
  | WithdrawUnbonded
  | RegisterValidator balance
  | UnregisterValidator
  | CreateSidechain sidechain_metadata balance
  | ExitSidechain chain_id
  | SignalFork string string
  | ProposeEarlyValidator account_id
  | VoteEarlyValidator account_id

record transaction =
  tx_sender :: account_id
  tx_nonce :: u64
  tx_call :: transaction_call
  tx_timestamp :: u64

record signed_transaction =
  stx_transaction :: transaction
  stx_signature :: signature64
  stx_hash :: "hash option"

record crypto =
  blake3 :: "bytes \<Rightarrow> hash"
  key_from_bytes :: "bytes \<Rightarrow> bool"
  ed25519_verify :: "bytes \<Rightarrow> bytes \<Rightarrow> signature64 \<Rightarrow> bool"
  ser_transaction :: "transaction \<Rightarrow> bytes option"
  ser_header :: "block_number \<times> hash \<times> hash \<times> hash \<times> u64 \<times> epoch_number \<times> slot_number \<times> account_id \<Rightarrow> bytes"
  ser_finality :: "block_number \<times> hash \<times> epoch_number \<Rightarrow> bytes"
  ser_vote :: "u8 \<times> block_number \<times> hash \<times> u32 \<times> epoch_number \<Rightarrow> bytes"

text \<open>
  A concrete choice of these functions, used to evaluate definitions on examples: it accepts
  the signature 1 and no other, and its codecs are injective on what the examples use.
\<close>

definition demo_crypto :: crypto where
  "demo_crypto =
     \<lparr>blake3 = \<lambda>bs. of_nat (length bs), key_from_bytes = \<lambda>_. True, ed25519_verify = \<lambda>_ _ s. s = 1,
      ser_transaction = \<lambda>tx. Some (account_bytes (tx_sender tx) @ le_bytes 8 (tx_nonce tx)),
      ser_header = \<lambda>(n, p, t, s, ts, e, sl, a). le_bytes 8 n @ hash_bytes p @ le_bytes 8 ts @ le_bytes 8 sl,
      ser_finality = \<lambda>(n, h, e). le_bytes 8 n @ hash_bytes h @ le_bytes 8 e,
      ser_vote = \<lambda>(k, n, h, r, e). [k] @ le_bytes 8 n @ hash_bytes h @ le_bytes 4 r @ le_bytes 8 e\<rparr>"

definition account_verify :: "crypto \<Rightarrow> account_id \<Rightarrow> bytes \<Rightarrow> signature64 \<Rightarrow> bool" where
  "account_verify K a message sig =
     (if key_from_bytes K (account_bytes a)
      then ed25519_verify K (account_bytes a) message sig else False)"

section \<open>Transactions\<close>

fun base_fee :: "transaction_call \<Rightarrow> balance" where
  "base_fee (Transfer _ _) = 1000"
| "base_fee (Stake _) = 5000"
| "base_fee (Unstake _) = 5000"
| "base_fee WithdrawUnbonded = 2000"
| "base_fee (RegisterValidator _) = 100000"
| "base_fee UnregisterValidator = 50000"
| "base_fee (CreateSidechain _ _) = 1000000"
| "base_fee (ExitSidechain _) = 500000"
| "base_fee (SignalFork _ _) = 10000000"
| "base_fee (ProposeEarlyValidator _) = 50000"
| "base_fee (VoteEarlyValidator _) = 10000"

definition transaction_hash :: "crypto \<Rightarrow> transaction \<Rightarrow> hash" where
  "transaction_hash K tx =
     (case ser_transaction K tx of
        Some bs \<Rightarrow> blake3 K bs
      | None \<Rightarrow> blake3 K (account_bytes (tx_sender tx) @ le_bytes 8 (tx_nonce tx)
                          @ le_bytes 8 (tx_timestamp tx)))"

definition signed_new :: "crypto \<Rightarrow> transaction \<Rightarrow> signature64 \<Rightarrow> signed_transaction" where
  "signed_new K tx sig =
     \<lparr>stx_transaction = tx, stx_signature = sig, stx_hash = Some (transaction_hash K tx)\<rparr>"

definition signed_verify :: "crypto \<Rightarrow> signed_transaction \<Rightarrow> bool" where
  "signed_verify K stx =
     (case ser_transaction K (stx_transaction stx) of
        None \<Rightarrow> False
      | Some tx_bytes \<Rightarrow>
          account_verify K (tx_sender (stx_transaction stx))
            (domain_separate DOMAIN_TRANSACTION tx_bytes) (stx_signature stx))"

definition tx_signing_message :: "crypto \<Rightarrow> transaction \<Rightarrow> bytes option" where
  "tx_signing_message K tx = map_option (domain_separate DOMAIN_TRANSACTION) (ser_transaction K tx)"

definition signed_hash :: "crypto \<Rightarrow> signed_transaction \<Rightarrow> hash" where
  "signed_hash K stx =
     (case stx_hash stx of Some h \<Rightarrow> h | None \<Rightarrow> transaction_hash K (stx_transaction stx))"

lemma base_fee_bounds: "unat (base_fee c) \<in> {1000..10000000}"
  by (cases c) simp_all

section \<open>Properties\<close>

text \<open>
  The thirteen domain separators make signed messages unambiguous: two domain-separated messages
  are equal only if both the domain and the message are, so a signature made for one purpose
  (a transaction, a block header, a finality vote, ...) never verifies for another.
\<close>

theorem domain_separation_unambiguous:
  assumes "d1 \<in> set all_domains" and "d2 \<in> set all_domains"
    and "domain_separate d1 m1 = domain_separate d2 m2"
  shows "d1 = d2 \<and> m1 = m2"
  using clash_free_append [OF all_domains_clash_free assms(1,2)] assms(3) by (simp add: domain_separate_def)

theorem domain_separation_unambiguous_witness:
  "domain_separate DOMAIN_TRANSACTION [1, 2] \<noteq> domain_separate DOMAIN_BLOCK_HEADER [3]"
proof
  assume eq: "domain_separate DOMAIN_TRANSACTION [1, 2] = domain_separate DOMAIN_BLOCK_HEADER [3]"
  have "DOMAIN_TRANSACTION = DOMAIN_BLOCK_HEADER"
    using domain_separation_unambiguous [OF _ _ eq] by (simp add: all_domains_def)
  then show False by (simp add: DOMAIN_TRANSACTION_def DOMAIN_BLOCK_HEADER_def ascii_def)
qed

text \<open>
  Reserving and releasing funds only moves them between the free and the reserved part of an
  account: the sum is unchanged, a reservation followed by its release restores the account,
  and each fails, leaving the account as it is, exactly when the part it takes from is too small.
\<close>

theorem reserve_unreserve_roundtrip:
  assumes "funds_fit a"
  shows "(ai_free a < amount \<longrightarrow> reserve amount a = (Err AE_InsufficientBalance, a))
       \<and> (amount \<le> ai_free a \<longrightarrow>
            (\<exists>b. reserve amount a = (Ok (), b) \<and> funds b = funds a \<and> funds_fit b
                 \<and> unat (ai_reserved b) = unat (ai_reserved a) + unat amount
                 \<and> unreserve amount b = (Ok (), a)))"
proof (intro conjI impI)
  show "reserve amount a = (Err AE_InsufficientBalance, a)" if "ai_free a < amount"
    using that by (simp add: reserve_def)
next
  assume le: "amount \<le> ai_free a"
  let ?b = "a\<lparr>ai_free := sat_sub (ai_free a) amount, ai_reserved := sat_add (ai_reserved a) amount\<rparr>"
  have b: "reserve amount a = (Ok (), ?b)" using le by (simp add: reserve_def)
  have f: "unat (sat_sub (ai_free a) amount) + unat amount = unat (ai_free a)"
    and r: "unat (sat_add (ai_reserved a) amount) = unat (ai_reserved a) + unat amount"
    using assms le by (simp_all add: funds_fit_def funds_def word_nat)
  have "sat_add (sat_sub (ai_free a) amount) amount = ai_free a"
    "sat_sub (sat_add (ai_reserved a) amount) amount = ai_reserved a"
    using f r unat_lt128 [of "ai_free a"] by (simp_all add: word_unat_eq_iff unat_sat_add unat_sat_sub)
  then have "unreserve amount ?b = (Ok (), a)"
    using r by (simp add: unreserve_def word_less_nat_alt)
  then show "\<exists>b. reserve amount a = (Ok (), b) \<and> funds b = funds a \<and> funds_fit b
                 \<and> unat (ai_reserved b) = unat (ai_reserved a) + unat amount \<and> unreserve amount b = (Ok (), a)"
    using b f r assms by (intro exI [of _ ?b]) (simp add: funds_def funds_fit_def)
qed

theorem reserve_unreserve_roundtrip_witness:
  "\<exists>b. reserve 30 (account_new\<lparr>ai_free := 100\<rparr>) = (Ok (), b)
     \<and> unreserve 30 b = (Ok (), account_new\<lparr>ai_free := 100\<rparr>)"
  using reserve_unreserve_roundtrip [of "account_new\<lparr>ai_free := 100\<rparr>" 30]
  by (auto simp: funds_fit_def funds_def account_new_def word_le_nat_alt)

end
