(* ===== verification/Kratos_Gas.thy ===== *)
theory Kratos_Gas
  imports Kratos_Types
begin

text \<open>
  Gas metering, \<^verbatim>\<open>execution/gas.rs\<close>: the per-transaction \<open>GasMeter\<close> and the per-block
  \<open>BlockGasMeter\<close>.  Both are bounded counters; what they share is the locale
  \<open>bounded_meter\<close>, whose lemma on sequences of charges is interpreted on each of them.
\<close>

section \<open>Costs and limits\<close>

definition GAS_UNIT :: u64 where [const_defs]: "GAS_UNIT = 1000000"
definition DEFAULT_BLOCK_GAS_LIMIT :: u64 where [const_defs]: "DEFAULT_BLOCK_GAS_LIMIT = 10000000 * GAS_UNIT"
definition DEFAULT_TRANSACTION_GAS_LIMIT :: u64 where
  [const_defs]: "DEFAULT_TRANSACTION_GAS_LIMIT = 1000000 * GAS_UNIT"

datatype gas_error =
    OutOfGas u64 u64
  | BlockGasLimitExceeded u64 u64
  | GasOverflow
  | InvalidGasPrice
  | InvalidGasLimit

section \<open>Transaction gas meter\<close>

record gas_meter =
  gm_gas_limit :: u64
  gm_gas_used :: u64
  gm_gas_price :: u64

record gas_refund =
  gr_amount :: u64
  gr_meter :: gas_meter

definition gas_meter_new :: "u64 \<Rightarrow> u64 \<Rightarrow> gas_meter" where
  "gas_meter_new gas_limit gas_price =
     \<lparr>gm_gas_limit = gas_limit, gm_gas_used = 0, gm_gas_price = gas_price\<rparr>"

definition consume :: "u64 \<Rightarrow> gas_meter \<Rightarrow> (gas_error, unit) result \<times> gas_meter" where
  "consume amount m =
     (case checked_add (gm_gas_used m) amount of
        None \<Rightarrow> (Err GasOverflow, m)
      | Some new_used \<Rightarrow>
          if gm_gas_limit m < new_used
          then (Err (OutOfGas amount (gm_gas_limit m - gm_gas_used m)), m)
          else (Ok (), m\<lparr>gm_gas_used := new_used\<rparr>))"

definition consume_conditional :: "u64 \<Rightarrow> gas_meter \<Rightarrow> (gas_error, gas_refund) result \<times> gas_meter" where
  "consume_conditional amount m =
     (case consume amount m of
        (Inl e, m') \<Rightarrow> (Err e, m')
      | (Inr _, m') \<Rightarrow> (Ok \<lparr>gr_amount = amount, gr_meter = m'\<rparr>, m'))"

definition refund :: "u64 \<Rightarrow> gas_meter \<Rightarrow> gas_meter" where
  "refund amount m = m\<lparr>gm_gas_used := sat_sub (gm_gas_used m) amount\<rparr>"

definition gas_remaining :: "gas_meter \<Rightarrow> u64" where
  "gas_remaining m = sat_sub (gm_gas_limit m) (gm_gas_used m)"

definition total_cost :: "gas_meter \<Rightarrow> balance" where
  "total_cost m = ucast (gm_gas_used m) * ucast (gm_gas_price m)"

definition check_available :: "u64 \<Rightarrow> gas_meter \<Rightarrow> (gas_error, unit) result" where
  "check_available amount m =
     (if gas_remaining m < amount then Err (OutOfGas amount (gas_remaining m)) else Ok ())"

definition gas_reset :: "gas_meter \<Rightarrow> gas_meter" where
  "gas_reset m = m\<lparr>gm_gas_used := 0\<rparr>"

definition set_limit :: "u64 \<Rightarrow> gas_meter \<Rightarrow> gas_meter" where
  "set_limit new_limit m = m\<lparr>gm_gas_limit := new_limit\<rparr>"

text \<open>\<open>GasRefund::refund\<close> consumes the refund and gives the gas back to the meter it holds.\<close>

definition gas_refund_refund :: "gas_refund \<Rightarrow> gas_refund" where
  "gas_refund_refund r = r\<lparr>gr_meter := refund (gr_amount r) (gr_meter r)\<rparr>"

section \<open>Block gas meter\<close>

record block_gas_meter =
  bg_block_gas_limit :: u64
  bg_block_gas_used :: u64

definition block_gas_meter_new :: "u64 \<Rightarrow> block_gas_meter" where
  "block_gas_meter_new limit = \<lparr>bg_block_gas_limit = limit, bg_block_gas_used = 0\<rparr>"

definition can_fit_transaction :: "u64 \<Rightarrow> block_gas_meter \<Rightarrow> bool" where
  "can_fit_transaction tx_gas_limit m = (bg_block_gas_used m + tx_gas_limit \<le> bg_block_gas_limit m)"

definition record_transaction :: "u64 \<Rightarrow> block_gas_meter \<Rightarrow> (gas_error, unit) result \<times> block_gas_meter" where
  "record_transaction gas_used m =
     (case checked_add (bg_block_gas_used m) gas_used of
        None \<Rightarrow> (Err GasOverflow, m)
      | Some new_total \<Rightarrow>
          if bg_block_gas_limit m < new_total
          then (Err (BlockGasLimitExceeded (bg_block_gas_limit m) new_total), m)
          else (Ok (), m\<lparr>bg_block_gas_used := new_total\<rparr>))"

definition block_gas_remaining :: "block_gas_meter \<Rightarrow> u64" where
  "block_gas_remaining m = sat_sub (bg_block_gas_limit m) (bg_block_gas_used m)"

section \<open>The contract of a bounded meter\<close>

text \<open>A sequence of charges, keeping the amounts that were accepted.\<close>

fun charge_all :: "(u64 \<Rightarrow> 's \<Rightarrow> (gas_error, unit) result \<times> 's) \<Rightarrow> u64 list \<Rightarrow> 's \<Rightarrow> u64 list \<times> 's" where
  "charge_all charge [] s = ([], s)"
| "charge_all charge (a # as) s =
     (case charge a s of
        (Inl _, s') \<Rightarrow> charge_all charge as s'
      | (Inr _, s') \<Rightarrow> (let (acc, t) = charge_all charge as s' in (a # acc, t)))"

locale bounded_meter =
  fixes limit :: "'s \<Rightarrow> u64"
    and used :: "'s \<Rightarrow> u64"
    and charge :: "u64 \<Rightarrow> 's \<Rightarrow> (gas_error, unit) result \<times> 's"
  assumes charge_iff: "is_ok (fst (charge a s)) \<longleftrightarrow> unat (used s) + unat a \<le> unat (limit s)"
    and charge_ok: "charge a s = (Ok u, s') \<Longrightarrow> unat (used s') = unat (used s) + unat a"
    and charge_err: "charge a s = (Err e, s') \<Longrightarrow> s' = s"
    and charge_limit: "limit (snd (charge a s)) = limit s"
begin

lemma charge_bounded:
  assumes "used s \<le> limit s"
  shows "used (snd (charge a s)) \<le> limit (snd (charge a s))"
proof (cases "charge a s")
  case (Pair r s')
  show ?thesis
  proof (cases r)
    case (Inl e)
    with Pair assms show ?thesis using charge_err [of a s e s'] by simp
  next
    case (Inr u)
    with Pair have "is_ok (fst (charge a s))" by simp
    then show ?thesis
      using Pair Inr charge_ok [of a s u s'] charge_limit [of a s] charge_iff [of a s]
      by (simp add: word_nat)
  qed
qed

lemma charge_all_bounded:
  "used s \<le> limit s \<Longrightarrow> charge_all charge as s = (acc, t) \<Longrightarrow>
     used t \<le> limit t \<and> limit t = limit s \<and> unat (used t) = unat (used s) + sum_list (map unat acc)"
proof (induction as arbitrary: s acc)
  case Nil
  then show ?case by simp
next
  case (Cons a as)
  obtain r s' where c: "charge a s = (r, s')" by (cases "charge a s")
  have b: "used s' \<le> limit s'" "limit s' = limit s"
    using charge_bounded [OF Cons.prems(1), of a] charge_limit [of a s] c by simp_all
  show ?case
  proof (cases r)
    case (Inl e)
    with c have "s' = s" using charge_err by blast
    with Cons.prems c Inl have "charge_all charge as s = (acc, t)" by simp
    with Cons.prems(1) show ?thesis by (rule Cons.IH)
  next
    case (Inr u)
    obtain acc' where "charge_all charge as s' = (acc', t)" "acc = a # acc'"
      using Cons.prems(2) c Inr by (auto split: prod.splits)
    then show ?thesis
      using Cons.IH [OF b(1)] b charge_ok [of a s u s'] c Inr by auto
  qed
qed

end

lemma le_limit64: "\<not> unat (l :: u64) < n \<Longrightarrow> n < 18446744073709551616"
  using unat_lt64 [of l] by linarith

lemma add_le_limit64: "n \<le> unat (l :: u64) \<Longrightarrow> n < 18446744073709551616"
  using unat_lt64 [of l] by linarith

interpretation gm: bounded_meter gm_gas_limit gm_gas_used consume
  by unfold_locales
    (auto simp: consume_def checked_add_def word_nat unat_add_fits
      split: option.splits if_splits intro: le_limit64 add_le_limit64)

interpretation bg: bounded_meter bg_block_gas_limit bg_block_gas_used record_transaction
  by unfold_locales
    (auto simp: record_transaction_def checked_add_def word_nat unat_add_fits
      split: option.splits if_splits intro: le_limit64 add_le_limit64)

section \<open>Properties\<close>

lemma refund_bounded: "gm_gas_used m \<le> gm_gas_limit m \<Longrightarrow> gm_gas_used (refund a m) \<le> gm_gas_limit m"
  by (simp add: refund_def word_nat)

lemma total_cost_exact: "unat (total_cost m) = unat (gm_gas_used m) * unat (gm_gas_price m)"
proof -
  have "unat (gm_gas_used m) * unat (gm_gas_price m) < 2 ^ 64 * 2 ^ 64"
    using unsigned_less [of "gm_gas_used m", where 'a = nat] unsigned_less [of "gm_gas_price m", where 'a = nat]
    by (intro mult_strict_mono) auto
  then show ?thesis
    unfolding total_cost_def by (subst unat_mult_fits) simp_all
qed

lemma charge_all_price: "gm_gas_price (snd (charge_all consume amounts m)) = gm_gas_price m"
proof (induction amounts arbitrary: m)
  case (Cons a as)
  have "gm_gas_price (snd (consume a m)) = gm_gas_price m"
    by (simp add: consume_def split: option.splits)
  then show ?case
    using Cons by (auto split: prod.splits sum.splits simp: Let_def) (metis snd_conv)+
qed simp

text \<open>
  Starting from a fresh meter, after any sequence of \<open>consume\<close> calls the gas used is the sum of
  the accepted amounts, it never exceeds the gas limit, and the cost charged for it is that
  sum times the gas price, with no overflow of the 128-bit product.
\<close>

theorem consume_all_bounded:
  assumes "charge_all consume amounts (gas_meter_new gas_limit price) = (accepted, m)"
  shows "unat (gm_gas_used m) = sum_list (map unat accepted)
       \<and> sum_list (map unat accepted) \<le> unat gas_limit
       \<and> unat (total_cost m) = sum_list (map unat accepted) * unat price"
proof -
  have "gm_gas_price m = price"
    using charge_all_price [of amounts "gas_meter_new gas_limit price"] assms
    by (simp add: gas_meter_new_def)
  then show ?thesis
    using gm.charge_all_bounded [OF _ assms] total_cost_exact [of m]
    by (auto simp: gas_meter_new_def word_nat)
qed

theorem consume_all_bounded_witness:
  "charge_all consume [60, 50, 40] (gas_meter_new 100 7) =
     ([60, 40], \<lparr>gm_gas_limit = 100, gm_gas_used = 100, gm_gas_price = 7\<rparr>)
   \<and> unat (total_cost \<lparr>gm_gas_limit = 100, gm_gas_used = 100, gm_gas_price = 7\<rparr>) = 700"
proof -
  have run: "charge_all consume [60, 50, 40] (gas_meter_new 100 7) =
     ([60, 40], \<lparr>gm_gas_limit = 100, gm_gas_used = 100, gm_gas_price = 7\<rparr>)"
    by (simp add: consume_def gas_meter_new_def checked_add_def)
  show ?thesis
    using consume_all_bounded [OF run] run by simp
qed

text \<open>
  As long as the sum does not wrap around, \<open>can_fit_transaction\<close> answers exactly whether
  \<open>record_transaction\<close> will accept the same amount.
\<close>

theorem can_fit_iff_record:
  assumes "unat (bg_block_gas_used m) + unat g < 2 ^ 64"
  shows "can_fit_transaction g m \<longleftrightarrow> is_ok (fst (record_transaction g m))"
  using bg.charge_iff [of g m] assms by (simp add: can_fit_transaction_def word_nat unat_add_fits)

theorem can_fit_iff_record_witness:
  "can_fit_transaction 30 \<lparr>bg_block_gas_limit = 100, bg_block_gas_used = 70\<rparr>
   \<longleftrightarrow> is_ok (fst (record_transaction 30 \<lparr>bg_block_gas_limit = 100, bg_block_gas_used = 70\<rparr>))"
  by (rule can_fit_iff_record) simp

text \<open>
  The wrapping addition of \<open>can_fit_transaction\<close> accepts a gas limit close to \<^term>\<open>2 ^ 64 :: nat\<close>
  that \<open>record_transaction\<close> refuses.
\<close>

lemma can_fit_wraps:
  "can_fit_transaction (- 5) \<lparr>bg_block_gas_limit = 100, bg_block_gas_used = 70\<rparr>
   \<and> \<not> is_ok (fst (record_transaction (- 5) \<lparr>bg_block_gas_limit = 100, bg_block_gas_used = 70\<rparr>))"
  by (simp add: can_fit_transaction_def record_transaction_def checked_add_def)

text \<open>
  A conditional consumption that is refunded: the refund reaches the copy of the meter held
  by \<open>GasRefund\<close>, the meter itself keeps the gas as used.
\<close>

lemma refund_reaches_copy_only:
  assumes "consume_conditional a m = (Ok r, m')"
  shows "unat (gm_gas_used m') = unat (gm_gas_used m) + unat a
       \<and> gm_gas_used (gr_meter (gas_refund_refund r)) = gm_gas_used m"
proof -
  have c: "consume a m = (Ok (), m')" "r = \<lparr>gr_amount = a, gr_meter = m'\<rparr>"
    using assms by (auto simp: consume_conditional_def split: prod.splits sum.splits)
  then have "unat (gm_gas_used m') = unat (gm_gas_used m) + unat a" by (blast intro: gm.charge_ok)
  then show ?thesis
    by (simp add: c gas_refund_refund_def refund_def word_unat_eq_iff unat_sat_sub)
qed

end
