(* ===== verification/Kratos_Roles.thy ===== *)
theory Kratos_Roles
  imports Kratos_Types
begin

text \<open>
  Network roles, \<^verbatim>\<open>types/contributor.rs\<close>: the registry that maps accounts to their validator,
  juror and contributor roles (\<open>NetworkRoleRegistry\<close>), the treasury programs, and the life
  cycle of a contributor registration (\<open>RoleRegistration\<close>).  The registry keeps the role
  entries and, redundantly, a list of validator accounts and of jurors per dispute; its
  invariant \<open>reg_inv\<close> says the two agree.
\<close>

section \<open>Treasury programs and contributor roles\<close>

datatype treasury_program = BugBounty | SecurityAudit | CoreDevelopment | ContentCreation
  | AmbassadorProgram | ResearchGrant | Infrastructure | Translation | Education

definition all_programs :: "treasury_program list" where
  "all_programs = [BugBounty, SecurityAudit, CoreDevelopment, ContentCreation, AmbassadorProgram,
     ResearchGrant, Infrastructure, Translation, Education]"

fun budget_allocation_percent :: "treasury_program \<Rightarrow> u8" where
  "budget_allocation_percent BugBounty = 20"
| "budget_allocation_percent SecurityAudit = 15"
| "budget_allocation_percent CoreDevelopment = 25"
| "budget_allocation_percent ContentCreation = 10"
| "budget_allocation_percent AmbassadorProgram = 8"
| "budget_allocation_percent ResearchGrant = 10"
| "budget_allocation_percent Infrastructure = 5"
| "budget_allocation_percent Translation = 4"
| "budget_allocation_percent Education = 3"

fun approval_threshold_percent :: "treasury_program \<Rightarrow> u8" where
  "approval_threshold_percent SecurityAudit = 67"
| "approval_threshold_percent CoreDevelopment = 67"
| "approval_threshold_percent BugBounty = 51"
| "approval_threshold_percent ContentCreation = 51"
| "approval_threshold_percent AmbassadorProgram = 51"
| "approval_threshold_percent ResearchGrant = 51"
| "approval_threshold_percent Infrastructure = 51"
| "approval_threshold_percent Translation = 51"
| "approval_threshold_percent Education = 51"

fun max_payment_per_contribution :: "treasury_program \<Rightarrow> balance" where
  "max_payment_per_contribution BugBounty = 100000 * KRAT"
| "max_payment_per_contribution SecurityAudit = 50000 * KRAT"
| "max_payment_per_contribution CoreDevelopment = 25000 * KRAT"
| "max_payment_per_contribution ContentCreation = 5000 * KRAT"
| "max_payment_per_contribution AmbassadorProgram = 2000 * KRAT"
| "max_payment_per_contribution ResearchGrant = 50000 * KRAT"
| "max_payment_per_contribution Infrastructure = 10000 * KRAT"
| "max_payment_per_contribution Translation = 1000 * KRAT"
| "max_payment_per_contribution Education = 5000 * KRAT"

datatype contributor_role = BugHunter | SecurityAuditor | CoreDeveloper | ContentCreator
  | Ambassador | Researcher | InfrastructureProvider | Translator | Educator

fun role_program :: "contributor_role \<Rightarrow> treasury_program" where
  "role_program BugHunter = BugBounty"
| "role_program SecurityAuditor = SecurityAudit"
| "role_program CoreDeveloper = CoreDevelopment"
| "role_program ContentCreator = ContentCreation"
| "role_program Ambassador = AmbassadorProgram"
| "role_program Researcher = ResearchGrant"
| "role_program InfrastructureProvider = Infrastructure"
| "role_program Translator = Translation"
| "role_program Educator = Education"

fun role_as_u8 :: "contributor_role \<Rightarrow> u8" where
  "role_as_u8 BugHunter = 0"
| "role_as_u8 SecurityAuditor = 1"
| "role_as_u8 CoreDeveloper = 2"
| "role_as_u8 ContentCreator = 3"
| "role_as_u8 Ambassador = 4"
| "role_as_u8 Researcher = 5"
| "role_as_u8 InfrastructureProvider = 6"
| "role_as_u8 Translator = 7"
| "role_as_u8 Educator = 8"

section \<open>Contributor registrations\<close>

datatype role_status = RS_Pending | RS_Active | RS_Expired | RS_Suspended | RS_Revoked

definition can_receive_payment :: "role_status \<Rightarrow> bool" where
  "can_receive_payment s = (s = RS_Active)"

definition can_renew :: "role_status \<Rightarrow> bool" where
  "can_renew s = (s = RS_Active \<or> s = RS_Expired)"

definition DEFAULT_ROLE_DURATION :: block_number where [const_defs]: "DEFAULT_ROLE_DURATION = 2592000"
definition ROLE_GRACE_PERIOD :: block_number where [const_defs]: "ROLE_GRACE_PERIOD = 201600"

record role_registration =
  rr_registration_id :: hash
  rr_account :: account_id
  rr_role :: contributor_role
  rr_scope :: "chain_id option"
  rr_status :: role_status
  rr_granted_at :: block_number
  rr_expires_at :: block_number
  rr_granted_by_proposal :: hash
  rr_total_payments :: balance
  rr_contribution_count :: u32
  rr_last_activity :: block_number
  rr_alias :: "string option"

definition compute_registration_id :: "crypto \<Rightarrow> account_id \<Rightarrow> contributor_role \<Rightarrow> block_number \<Rightarrow> hash" where
  "compute_registration_id K account role block =
     blake3 K (account_bytes account @ [role_as_u8 role] @ le_bytes 8 block)"

definition role_registration_new ::
  "crypto \<Rightarrow> account_id \<Rightarrow> contributor_role \<Rightarrow> chain_id option \<Rightarrow> hash \<Rightarrow> block_number \<Rightarrow> string option
     \<Rightarrow> role_registration" where
  "role_registration_new K account role scope proposal current_block als =
     \<lparr>rr_registration_id = compute_registration_id K account role current_block,
      rr_account = account, rr_role = role, rr_scope = scope, rr_status = RS_Active,
      rr_granted_at = current_block, rr_expires_at = current_block + DEFAULT_ROLE_DURATION,
      rr_granted_by_proposal = proposal, rr_total_payments = 0, rr_contribution_count = 0,
      rr_last_activity = current_block, rr_alias = als\<rparr>"

definition role_is_expired :: "role_registration \<Rightarrow> block_number \<Rightarrow> bool" where
  "role_is_expired r current_block = (rr_expires_at r < current_block)"

definition role_is_active :: "role_registration \<Rightarrow> block_number \<Rightarrow> bool" where
  "role_is_active r current_block = (rr_status r = RS_Active \<and> \<not> role_is_expired r current_block)"

definition role_in_grace_period :: "role_registration \<Rightarrow> block_number \<Rightarrow> bool" where
  "role_in_grace_period r current_block =
     (rr_expires_at r < current_block \<and> current_block \<le> rr_expires_at r + ROLE_GRACE_PERIOD)"

definition role_renew :: "block_number \<Rightarrow> role_registration \<Rightarrow> bool \<times> role_registration" where
  "role_renew current_block r =
     (if \<not> can_renew (rr_status r) then (False, r)
      else (True, r\<lparr>rr_expires_at := current_block + DEFAULT_ROLE_DURATION, rr_status := RS_Active\<rparr>))"

definition record_contribution :: "balance \<Rightarrow> block_number \<Rightarrow> role_registration \<Rightarrow> role_registration" where
  "record_contribution payment current_block r =
     r\<lparr>rr_contribution_count := rr_contribution_count r + 1,
       rr_total_payments := sat_add (rr_total_payments r) payment,
       rr_last_activity := current_block\<rparr>"

definition role_suspend :: "role_registration \<Rightarrow> role_registration" where
  "role_suspend r = r\<lparr>rr_status := RS_Suspended\<rparr>"

definition role_revoke :: "role_registration \<Rightarrow> role_registration" where
  "role_revoke r = r\<lparr>rr_status := RS_Revoked\<rparr>"

definition role_reactivate :: "block_number \<Rightarrow> role_registration \<Rightarrow> bool \<times> role_registration" where
  "role_reactivate current_block r =
     (if rr_status r \<noteq> RS_Suspended then (False, r)
      else (True, r\<lparr>rr_status := RS_Active, rr_last_activity := current_block\<rparr>))"

section \<open>The role registry\<close>

datatype network_role = RoleValidator | RoleJuror | RoleContributor contributor_role

datatype role_metadata =
    MetaValidator balance bool
  | MetaJuror hash u32
  | MetaContributor hash hash

datatype role_registry_error = RR_AlreadyRegistered | RR_NotFound | RR_InvalidRole

record network_role_entry =
  ne_role :: network_role
  ne_account :: account_id
  ne_scope :: "chain_id option"
  ne_granted_at :: block_number
  ne_expires_at :: "block_number option"
  ne_active :: bool
  ne_metadata :: role_metadata

definition entry_new_validator :: "account_id \<Rightarrow> balance \<Rightarrow> bool \<Rightarrow> block_number \<Rightarrow> network_role_entry" where
  "entry_new_validator account stake is_bootstrap current_block =
     \<lparr>ne_role = RoleValidator, ne_account = account, ne_scope = None, ne_granted_at = current_block,
      ne_expires_at = None, ne_active = True, ne_metadata = MetaValidator stake is_bootstrap\<rparr>"

definition entry_new_juror :: "account_id \<Rightarrow> hash \<Rightarrow> u32 \<Rightarrow> block_number \<Rightarrow> network_role_entry" where
  "entry_new_juror account dispute_id credits current_block =
     \<lparr>ne_role = RoleJuror, ne_account = account, ne_scope = None, ne_granted_at = current_block,
      ne_expires_at = None, ne_active = True, ne_metadata = MetaJuror dispute_id credits\<rparr>"

definition from_contributor_registration :: "role_registration \<Rightarrow> network_role_entry" where
  "from_contributor_registration reg =
     \<lparr>ne_role = RoleContributor (rr_role reg), ne_account = rr_account reg, ne_scope = rr_scope reg,
      ne_granted_at = rr_granted_at reg, ne_expires_at = Some (rr_expires_at reg),
      ne_active = (rr_status reg = RS_Active),
      ne_metadata = MetaContributor (rr_registration_id reg) (rr_granted_by_proposal reg)\<rparr>"

definition entry_update_stake :: "balance \<Rightarrow> network_role_entry \<Rightarrow> network_role_entry" where
  "entry_update_stake new_stake e =
     (case ne_metadata e of
        MetaValidator _ b \<Rightarrow> e\<lparr>ne_metadata := MetaValidator new_stake b\<rparr>
      | _ \<Rightarrow> e)"

definition entry_deactivate :: "network_role_entry \<Rightarrow> network_role_entry" where
  "entry_deactivate e = e\<lparr>ne_active := False\<rparr>"

definition entry_is_active_at :: "network_role_entry \<Rightarrow> block_number \<Rightarrow> bool" where
  "entry_is_active_at e current_block =
     (if \<not> ne_active e then False
      else case ne_expires_at e of Some x \<Rightarrow> current_block \<le> x | None \<Rightarrow> True)"

record role_registry =
  rg_entries :: "(account_id, network_role_entry list) hmap"
  rg_validators :: "account_id list"
  rg_jurors_by_dispute :: "(hash, account_id list) hmap"

definition registry_new :: role_registry where
  "registry_new = \<lparr>rg_entries = [], rg_validators = [], rg_jurors_by_dispute = []\<rparr>"

definition entries_of :: "role_registry \<Rightarrow> account_id \<Rightarrow> network_role_entry list" where
  "entries_of R a = (case hm_get (rg_entries R) a of None \<Rightarrow> [] | Some es \<Rightarrow> es)"

definition push_entry :: "account_id \<Rightarrow> network_role_entry \<Rightarrow> role_registry \<Rightarrow> role_registry" where
  "push_entry a e R = R\<lparr>rg_entries := hm_insert a (entries_of R a @ [e]) (rg_entries R)\<rparr>"

definition is_validator :: "role_registry \<Rightarrow> account_id \<Rightarrow> bool" where
  "is_validator R account = (account \<in> set (rg_validators R))"

definition active_validator_entry :: "network_role_entry \<Rightarrow> bool" where
  "active_validator_entry e = (ne_role e = RoleValidator \<and> ne_active e)"

definition register_validator ::
  "account_id \<Rightarrow> balance \<Rightarrow> bool \<Rightarrow> block_number \<Rightarrow> role_registry \<Rightarrow> (role_registry_error, unit) result \<times> role_registry" where
  "register_validator account stake is_bootstrap current_block R =
     (if is_validator R account then (Err RR_AlreadyRegistered, R)
      else let R' = push_entry account (entry_new_validator account stake is_bootstrap current_block) R
           in (Ok (), R'\<lparr>rg_validators := rg_validators R' @ [account]\<rparr>))"

text \<open>The loop over the entries of one account that changes the first match.\<close>

definition modify_first_entry ::
  "account_id \<Rightarrow> (network_role_entry \<Rightarrow> bool) \<Rightarrow> (network_role_entry \<Rightarrow> network_role_entry) \<Rightarrow> role_registry
     \<Rightarrow> (role_registry_error, unit) result \<times> role_registry" where
  "modify_first_entry account P f R =
     (if list_ex P (entries_of R account)
      then (Ok (), R\<lparr>rg_entries := hm_insert account (update_first P f (entries_of R account)) (rg_entries R)\<rparr>)
      else (Err RR_NotFound, R))"

definition unregister_validator :: "account_id \<Rightarrow> role_registry \<Rightarrow> (role_registry_error, unit) result \<times> role_registry" where
  "unregister_validator account R =
     (case modify_first_entry account active_validator_entry entry_deactivate R of
        (Inl e, R') \<Rightarrow> (Err e, R')
      | (Inr _, R') \<Rightarrow> (Ok (), R'\<lparr>rg_validators := filter (\<lambda>a. a \<noteq> account) (rg_validators R')\<rparr>))"

definition registry_update_stake ::
  "account_id \<Rightarrow> balance \<Rightarrow> role_registry \<Rightarrow> (role_registry_error, unit) result \<times> role_registry" where
  "registry_update_stake account new_stake R =
     modify_first_entry account active_validator_entry (entry_update_stake new_stake) R"

definition get_validator_entry :: "role_registry \<Rightarrow> account_id \<Rightarrow> network_role_entry option" where
  "get_validator_entry R account = find active_validator_entry (entries_of R account)"

definition jurors_of :: "role_registry \<Rightarrow> hash \<Rightarrow> account_id list" where
  "jurors_of R d = (case hm_get (rg_jurors_by_dispute R) d of None \<Rightarrow> [] | Some js \<Rightarrow> js)"

definition register_juror ::
  "account_id \<Rightarrow> hash \<Rightarrow> u32 \<Rightarrow> block_number \<Rightarrow> role_registry \<Rightarrow> (role_registry_error, unit) result \<times> role_registry" where
  "register_juror account dispute_id credits current_block R =
     (if account \<in> set (jurors_of R dispute_id) then (Err RR_AlreadyRegistered, R)
      else let R' = push_entry account (entry_new_juror account dispute_id credits current_block) R
           in (Ok (), R'\<lparr>rg_jurors_by_dispute :=
                 hm_insert dispute_id (jurors_of R' dispute_id @ [account]) (rg_jurors_by_dispute R')\<rparr>))"

definition deactivate_juror :: "hash \<Rightarrow> network_role_entry \<Rightarrow> network_role_entry" where
  "deactivate_juror dispute_id e =
     (case ne_metadata e of
        MetaJuror did _ \<Rightarrow> if did = dispute_id then entry_deactivate e else e
      | _ \<Rightarrow> e)"

definition deactivate_jurors_of :: "hash \<Rightarrow> account_id \<Rightarrow> role_registry \<Rightarrow> role_registry" where
  "deactivate_jurors_of dispute_id account R =
     (case hm_get (rg_entries R) account of
        None \<Rightarrow> R
      | Some es \<Rightarrow> R\<lparr>rg_entries := hm_insert account (map (deactivate_juror dispute_id) es) (rg_entries R)\<rparr>)"

definition resolve_dispute_jurors :: "hash \<Rightarrow> role_registry \<Rightarrow> role_registry" where
  "resolve_dispute_jurors dispute_id R =
     (case hm_get (rg_jurors_by_dispute R) dispute_id of
        None \<Rightarrow> R
      | Some jurors \<Rightarrow>
          fold (deactivate_jurors_of dispute_id) jurors
            (R\<lparr>rg_jurors_by_dispute := hm_remove dispute_id (rg_jurors_by_dispute R)\<rparr>))"

definition register_contributor :: "role_registration \<Rightarrow> role_registry \<Rightarrow> (role_registry_error, unit) result \<times> role_registry" where
  "register_contributor reg R = (Ok (), push_entry (rr_account reg) (from_contributor_registration reg) R)"

definition is_contributor_entry :: "hash \<Rightarrow> network_role_entry \<Rightarrow> bool" where
  "is_contributor_entry registration_id e =
     (case ne_metadata e of MetaContributor rid _ \<Rightarrow> rid = registration_id | _ \<Rightarrow> False)"

definition update_contributor_status ::
  "account_id \<Rightarrow> hash \<Rightarrow> bool \<Rightarrow> role_registry \<Rightarrow> (role_registry_error, unit) result \<times> role_registry" where
  "update_contributor_status account registration_id active R =
     modify_first_entry account (is_contributor_entry registration_id) (\<lambda>e. e\<lparr>ne_active := active\<rparr>) R"

definition get_active_roles :: "role_registry \<Rightarrow> account_id \<Rightarrow> block_number \<Rightarrow> network_role_entry list" where
  "get_active_roles R account current_block =
     filter (\<lambda>e. entry_is_active_at e current_block) (entries_of R account)"

definition has_role :: "role_registry \<Rightarrow> account_id \<Rightarrow> network_role \<Rightarrow> block_number \<Rightarrow> bool" where
  "has_role R account role current_block =
     list_ex (\<lambda>e. ne_role e = role \<and> entry_is_active_at e current_block) (entries_of R account)"

definition validator_count :: "role_registry \<Rightarrow> nat" where
  "validator_count R = length (rg_validators R)"

section \<open>The registry invariant\<close>

text \<open>The metadata of an entry is of the kind its role says.\<close>

definition entry_wf :: "network_role_entry \<Rightarrow> bool" where
  "entry_wf e =
     (case ne_metadata e of
        MetaValidator _ _ \<Rightarrow> ne_role e = RoleValidator
      | MetaJuror _ _ \<Rightarrow> ne_role e = RoleJuror
      | MetaContributor _ _ \<Rightarrow> ne_role e \<noteq> RoleValidator \<and> ne_role e \<noteq> RoleJuror)"

definition av_count :: "network_role_entry list \<Rightarrow> nat" where
  "av_count es = length (filter active_validator_entry es)"

lemma av_count_simps [simp]:
  "av_count [] = 0" "av_count (e # es) = (if active_validator_entry e then 1 else 0) + av_count es"
  "av_count (es @ fs) = av_count es + av_count fs"
  by (simp_all add: av_count_def)

lemma av_count_pos: "list_ex active_validator_entry es \<longleftrightarrow> 0 < av_count es"
  by (induction es) auto

definition validator_entries :: "role_registry \<Rightarrow> account_id \<Rightarrow> nat" where
  "validator_entries R a = av_count (entries_of R a)"

definition reg_inv :: "role_registry \<Rightarrow> bool" where
  "reg_inv R =
     (distinct (rg_validators R)
      \<and> (\<forall>a. validator_entries R a = (if a \<in> set (rg_validators R) then 1 else 0))
      \<and> (\<forall>a. list_all entry_wf (entries_of R a)))"

lemma reg_invI:
  assumes "distinct (rg_validators R)"
    and "\<And>a. validator_entries R a = (if a \<in> set (rg_validators R) then 1 else 0)"
    and "\<And>a. list_all entry_wf (entries_of R a)"
  shows "reg_inv R"
  using assms by (simp add: reg_inv_def)

lemma reg_invD:
  assumes "reg_inv R"
  shows "distinct (rg_validators R)"
    and "validator_entries R a = (if a \<in> set (rg_validators R) then 1 else 0)"
    and "list_all entry_wf (entries_of R a)"
  using assms by (simp_all add: reg_inv_def)

lemma entries_of_push [simp]:
  "entries_of (push_entry a e R) b = (if b = a then entries_of R a @ [e] else entries_of R b)"
  by (simp add: push_entry_def entries_of_def update_conv')

lemma entries_of_upd [simp]:
  "entries_of (R\<lparr>rg_validators := vs\<rparr>) = entries_of R"
  "entries_of (R\<lparr>rg_jurors_by_dispute := js\<rparr>) = entries_of R"
  "entries_of (R\<lparr>rg_entries := hm_insert a es m\<rparr>) b = (if b = a then es else entries_of (R\<lparr>rg_entries := m\<rparr>) b)"
  "entries_of (R\<lparr>rg_entries := rg_entries R\<rparr>) = entries_of R"
  by (simp_all add: entries_of_def fun_eq_iff update_conv')

lemma push_entry_fields [simp]:
  "rg_validators (push_entry a e R) = rg_validators R"
  "rg_jurors_by_dispute (push_entry a e R) = rg_jurors_by_dispute R"
  by (simp_all add: push_entry_def)

lemma registry_new_inv: "reg_inv registry_new"
  by (simp add: reg_inv_def registry_new_def validator_entries_def entries_of_def)

lemma register_validator_inv:
  assumes "reg_inv R"
  shows "reg_inv (snd (register_validator account stake b n R))"
  using reg_invD [OF assms]
  by (auto simp: register_validator_def is_validator_def Let_def validator_entries_def
      entry_new_validator_def active_validator_entry_def entry_wf_def intro!: reg_invI split: if_splits)

text \<open>Adding or changing an entry that is no active validator entry before or after.\<close>

lemma push_other_inv:
  assumes "reg_inv R" and "\<not> active_validator_entry e" and "entry_wf e"
  shows "reg_inv (push_entry a e R)"
  using reg_invD [OF assms(1)] assms(2,3)
  by (auto simp: validator_entries_def intro!: reg_invI)

lemma set_entries_inv:
  assumes "reg_inv R" and "av_count es = validator_entries R a"
    and "list_all entry_wf es"
  shows "reg_inv (R\<lparr>rg_entries := hm_insert a es (rg_entries R)\<rparr>)"
  using reg_invD [OF assms(1)] assms(2,3)
  by (intro reg_invI) (simp_all add: validator_entries_def)

lemma modify_first_inv:
  assumes "reg_inv R" and "\<And>e. P e \<Longrightarrow> entry_wf e \<Longrightarrow> entry_wf (f e)"
    and "\<And>e. P e \<Longrightarrow> entry_wf e \<Longrightarrow> active_validator_entry (f e) = active_validator_entry e"
  shows "reg_inv (snd (modify_first_entry a P f R))"
proof -
  have *: "list_all entry_wf (update_first P f es) \<and>
      av_count (update_first P f es) = av_count es"
    if "list_all entry_wf es" for es
    using that assms(2,3) by (induction es) auto
  show ?thesis
    using * [OF reg_invD(3) [OF assms(1)], of a] assms(1)
    by (auto simp: modify_first_entry_def validator_entries_def intro!: set_entries_inv)
qed

lemma unregister_validator_inv:
  assumes "reg_inv R"
  shows "reg_inv (snd (unregister_validator account R))"
proof (cases "list_ex active_validator_entry (entries_of R account)")
  case True
  let ?es = "update_first active_validator_entry entry_deactivate (entries_of R account)"
  have n: "Suc (av_count ?es) = validator_entries R account"
    unfolding validator_entries_def av_count_def using True
    by (intro filter_update_first_drop) (auto simp: active_validator_entry_def entry_deactivate_def)
  have wf: "list_all entry_wf ?es"
    using reg_invD(3) [OF assms, of account]
    by (fastforce simp: list_all_iff entry_wf_def entry_deactivate_def dest: set_update_first
        split: role_metadata.splits)
  have "account \<in> set (rg_validators R)"
    using True reg_invD(2) [OF assms, of account] by (auto simp: validator_entries_def av_count_pos split: if_splits)
  then have "av_count ?es = 0" using n reg_invD(2) [OF assms, of account] by simp
  then show ?thesis
    using True wf reg_invD [OF assms]
    by (intro reg_invI) (simp_all add: unregister_validator_def modify_first_entry_def validator_entries_def)
next
  case False
  then show ?thesis using assms by (simp add: unregister_validator_def modify_first_entry_def)
qed

lemma registry_update_stake_inv: "reg_inv R \<Longrightarrow> reg_inv (snd (registry_update_stake a n R))"
  unfolding registry_update_stake_def
  by (rule modify_first_inv)
    (auto simp: entry_update_stake_def entry_wf_def active_validator_entry_def split: role_metadata.splits)

lemma update_contributor_status_inv: "reg_inv R \<Longrightarrow> reg_inv (snd (update_contributor_status a rid b R))"
  unfolding update_contributor_status_def
  by (rule modify_first_inv)
    (auto simp: is_contributor_entry_def entry_wf_def active_validator_entry_def split: role_metadata.splits)

lemma register_contributor_inv: "reg_inv R \<Longrightarrow> reg_inv (snd (register_contributor reg R))"
  by (simp add: register_contributor_def push_other_inv from_contributor_registration_def
      active_validator_entry_def entry_wf_def)

lemma reg_inv_jurors [simp]: "reg_inv (R\<lparr>rg_jurors_by_dispute := js\<rparr>) = reg_inv R"
  by (simp add: reg_inv_def validator_entries_def)

lemma register_juror_inv: "reg_inv R \<Longrightarrow> reg_inv (snd (register_juror a d c n R))"
  by (simp add: register_juror_def push_other_inv entry_new_juror_def active_validator_entry_def
      entry_wf_def Let_def)

lemma deactivate_jurors_of_inv:
  assumes "reg_inv R"
  shows "reg_inv (deactivate_jurors_of d a R)"
proof (cases "hm_get (rg_entries R) a")
  case (Some es)
  have "list_all entry_wf (map (deactivate_juror d) es) \<and>
      av_count (map (deactivate_juror d) es) = av_count es"
    if "list_all entry_wf es" for es
    using that
    by (induction es)
      (auto simp: deactivate_juror_def entry_wf_def entry_deactivate_def active_validator_entry_def
        split: role_metadata.splits)
  moreover have "entries_of R a = es" using Some by (simp add: entries_of_def)
  ultimately show ?thesis
    using Some assms reg_invD(3) [OF assms, of a]
    by (auto simp: deactivate_jurors_of_def validator_entries_def intro!: set_entries_inv)
qed (simp add: deactivate_jurors_of_def assms)

lemma resolve_dispute_jurors_inv:
  assumes "reg_inv R"
  shows "reg_inv (resolve_dispute_jurors d R)"
proof -
  have "reg_inv S \<Longrightarrow> reg_inv (fold (deactivate_jurors_of d) js S)" for js S
    by (induction js arbitrary: S) (simp_all add: deactivate_jurors_of_inv)
  then show ?thesis using assms by (simp add: resolve_dispute_jurors_def split: option.splits)
qed

section \<open>The interface the validator set relies on\<close>

text \<open>
  \<open>ValidatorSet\<close> mirrors its members in the registry through three calls.  The contract:
  the registered accounts grow by exactly the account registered, shrink by exactly the
  account unregistered, and a stake update leaves them alone.
\<close>

locale validator_registry =
  fixes members :: "'r \<Rightarrow> account_id set"
    and register :: "account_id \<Rightarrow> balance \<Rightarrow> bool \<Rightarrow> block_number \<Rightarrow> 'r \<Rightarrow> (role_registry_error, unit) result \<times> 'r"
    and unregister :: "account_id \<Rightarrow> 'r \<Rightarrow> (role_registry_error, unit) result \<times> 'r"
    and restake :: "account_id \<Rightarrow> balance \<Rightarrow> 'r \<Rightarrow> (role_registry_error, unit) result \<times> 'r"
    and inv :: "'r \<Rightarrow> bool"
  assumes register_ok: "inv R \<Longrightarrow> a \<notin> members R \<Longrightarrow>
      fst (register a st b n R) = Ok () \<and> members (snd (register a st b n R)) = insert a (members R)"
    and register_dup: "a \<in> members R \<Longrightarrow> register a st b n R = (Err RR_AlreadyRegistered, R)"
    and unregister_members: "inv R \<Longrightarrow> members (snd (unregister a R)) = members R - {a}"
    and restake_members: "members (snd (restake a st R)) = members R"
    and register_inv: "inv R \<Longrightarrow> inv (snd (register a st b n R))"
    and unregister_inv: "inv R \<Longrightarrow> inv (snd (unregister a R))"
    and restake_inv: "inv R \<Longrightarrow> inv (snd (restake a st R))"
begin

lemma register_members:
  "inv R \<Longrightarrow> members (snd (register a st b n R)) = insert a (members R)"
  using register_ok [of R a st b n] register_dup [of a R st b n] by (cases "a \<in> members R") auto

lemma register_fst:
  "inv R \<Longrightarrow> fst (register a st b n R) = (if a \<in> members R then Err RR_AlreadyRegistered else Ok ())"
  using register_ok [of R a st b n] register_dup [of a R st b n] by simp

lemma unregister_register:
  "inv R \<Longrightarrow> a \<notin> members R \<Longrightarrow> members (snd (unregister a (snd (register a st b n R)))) = members R"
  by (simp add: unregister_members register_inv register_members)

end

definition registry_members :: "role_registry \<Rightarrow> account_id set" where
  "registry_members R = set (rg_validators R)"

lemma modify_first_validators [simp]: "rg_validators (snd (modify_first_entry a P f R)) = rg_validators R"
  by (simp add: modify_first_entry_def)

lemma unregister_members:
  assumes "reg_inv R"
  shows "registry_members (snd (unregister_validator a R)) = registry_members R - {a}"
proof (cases "list_ex active_validator_entry (entries_of R a)")
  case True
  then show ?thesis
    by (auto simp: unregister_validator_def modify_first_entry_def registry_members_def)
next
  case False
  then have "validator_entries R a = 0" by (simp add: av_count_pos validator_entries_def)
  then have "a \<notin> set (rg_validators R)" using reg_invD(2) [OF assms, of a] by (simp split: if_splits)
  with False show ?thesis
    by (simp add: unregister_validator_def modify_first_entry_def registry_members_def)
qed

interpretation rg: validator_registry registry_members register_validator unregister_validator
  registry_update_stake reg_inv
proof unfold_locales
  show "reg_inv R \<Longrightarrow> a \<notin> registry_members R \<Longrightarrow> fst (register_validator a st b n R) = Ok () \<and>
      registry_members (snd (register_validator a st b n R)) = insert a (registry_members R)" for R a st b n
    by (simp add: register_validator_def is_validator_def registry_members_def Let_def)
  show "a \<in> registry_members R \<Longrightarrow> register_validator a st b n R = (Err RR_AlreadyRegistered, R)" for R a st b n
    by (simp add: register_validator_def is_validator_def registry_members_def)
  show "registry_members (snd (registry_update_stake a st R)) = registry_members R" for a st R
    by (simp add: registry_members_def registry_update_stake_def)
qed (simp_all add: unregister_members register_validator_inv unregister_validator_inv registry_update_stake_inv)

section \<open>Reachable registries\<close>

inductive role_reach :: "role_registry \<Rightarrow> bool" where
  new: "role_reach registry_new"
| register: "role_reach R \<Longrightarrow> role_reach (snd (register_validator a st b n R))"
| unregister: "role_reach R \<Longrightarrow> role_reach (snd (unregister_validator a R))"
| restake: "role_reach R \<Longrightarrow> role_reach (snd (registry_update_stake a st R))"
| juror: "role_reach R \<Longrightarrow> role_reach (snd (register_juror a d c n R))"
| resolve: "role_reach R \<Longrightarrow> role_reach (resolve_dispute_jurors d R)"
| contributor: "role_reach R \<Longrightarrow> role_reach (snd (register_contributor reg R))"
| status: "role_reach R \<Longrightarrow> role_reach (snd (update_contributor_status a rid act R))"

lemma role_reach_inv: "role_reach R \<Longrightarrow> reg_inv R"
  by (induction rule: role_reach.induct)
    (simp_all add: registry_new_inv register_validator_inv unregister_validator_inv registry_update_stake_inv
      register_juror_inv resolve_dispute_jurors_inv register_contributor_inv update_contributor_status_inv)

text \<open>
  In every registry reachable through its operations the quick-lookup list and the role
  entries agree: an account is listed as validator exactly when it has an active validator
  entry, no account has more than one, and
  \<open>validator_count\<close> counts these accounts.
\<close>

theorem registry_consistent:
  assumes "role_reach R"
  shows "(is_validator R a \<longleftrightarrow> get_validator_entry R a \<noteq> None)
       \<and> av_count (entries_of R a) \<le> 1
       \<and> validator_count R = card {x. get_validator_entry R x \<noteq> None}"
proof -
  have inv: "reg_inv R" using assms by (rule role_reach_inv)
  have eq: "get_validator_entry R x \<noteq> None \<longleftrightarrow> x \<in> set (rg_validators R)" for x
    using reg_invD(2) [OF inv, of x] av_count_pos [of "entries_of R x"]
    by (auto simp: get_validator_entry_def validator_entries_def find_None_iff list_ex_iff split: if_splits)
  have "card {x. get_validator_entry R x \<noteq> None} = length (rg_validators R)"
    unfolding eq using reg_invD(1) [OF inv] by (simp add: distinct_card)
  then show ?thesis
    using eq [of a] reg_invD(2) [OF inv, of a]
    by (auto simp: is_validator_def validator_count_def validator_entries_def)
qed

theorem registry_consistent_witness:
  "is_validator (snd (register_validator 7 100 True 1 registry_new)) 7
   \<and> get_validator_entry (snd (register_validator 7 100 True 1 registry_new)) 7 \<noteq> None"
proof -
  have "role_reach (snd (register_validator 7 100 True 1 registry_new))"
    by (intro role_reach.intros)
  from registry_consistent [OF this, of 7] show ?thesis
    by (simp add: register_validator_def is_validator_def registry_new_def push_entry_def Let_def)
qed

section \<open>Registrations and budgets\<close>

text \<open>The allocations of the nine treasury programs add up to 100 percent.\<close>

lemma budget_sums_to_100: "(\<Sum>p \<leftarrow> all_programs. unat (budget_allocation_percent p)) = 100"
  by (simp add: all_programs_def)

lemma all_programs_complete: "p \<in> set all_programs \<and> distinct all_programs"
  by (cases p) (simp_all add: all_programs_def)

text \<open>
  A revoked registration can neither be renewed nor reactivated directly; but \<open>suspend\<close> does not
  look at the current status, so suspending a revoked role and reactivating it makes the role
  active again.
\<close>

lemma revoked_not_renewable:
  "role_renew n (role_revoke r) = (False, role_revoke r) \<and> role_reactivate n (role_revoke r) = (False, role_revoke r)"
  by (simp add: role_renew_def role_revoke_def role_reactivate_def can_renew_def)

lemma revoked_role_comes_back:
  "fst (role_reactivate n (role_suspend (role_revoke r)))
   \<and> rr_status (snd (role_reactivate n (role_suspend (role_revoke r)))) = RS_Active"
  by (simp add: role_revoke_def role_suspend_def role_reactivate_def)

end
