(* ===== verification/Kratos_Validators.thy ===== *)
theory Kratos_Validators
  imports Kratos_Roles
begin

text \<open>
  The validator set, \<^verbatim>\<open>consensus/validator.rs\<close>: a validator's record and its operations
  (stake, reputation, slashing, unbonding, the bootstrap transition), the set with its cached
  total stake and its mirror in the role registry, and the voting by which validators are
  admitted during the bootstrap era.  \<open>BTreeSet<AccountId>\<close> is \<open>BTreeMap<AccountId, ()>\<close>, as in
  the standard library.
\<close>

section \<open>Constants and errors\<close>

definition MIN_VALIDATOR_STAKE :: balance where [const_defs]: "MIN_VALIDATOR_STAKE = 50000 * KRAT"
definition UNBONDING_PERIOD :: block_number where [const_defs]: "UNBONDING_PERIOD = 403200"
definition BOOTSTRAP_ERA_BLOCKS :: block_number where [const_defs]: "BOOTSTRAP_ERA_BLOCKS = 864000"
definition BOOTSTRAP_GRACE_PERIOD :: block_number where [const_defs]: "BOOTSTRAP_GRACE_PERIOD = 100800"
definition MAX_EARLY_VALIDATORS :: nat where [const_defs]: "MAX_EARLY_VALIDATORS = 21"
definition CANDIDACY_EXPIRATION :: block_number where [const_defs]: "CANDIDACY_EXPIRATION = 100800"

datatype validator_error = InsufficientStake | NotFound | AlreadyRegistered | CannotParticipate
  | UnbondingNotCompleted | BootstrapEnded | MaxValidatorsReached | NotValidator | CandidacyExists
  | CandidacyNotFound | CandidacyExpired | CandidacyNotPending | AlreadyVoted | InsufficientVotes

section \<open>Early validator candidates\<close>

datatype candidacy_status = CS_Pending | CS_Approved | CS_Rejected | CS_Expired

record early_candidate =
  ec_candidate :: account_id
  ec_proposer :: account_id
  ec_voters :: "(account_id, unit) bmap"
  ec_votes_required :: nat
  ec_created_at :: block_number
  ec_status :: candidacy_status
  ec_approved_at :: "block_number option"

definition candidate_new :: "account_id \<Rightarrow> account_id \<Rightarrow> nat \<Rightarrow> block_number \<Rightarrow> early_candidate" where
  "candidate_new candidate proposer votes_required created_at =
     \<lparr>ec_candidate = candidate, ec_proposer = proposer, ec_voters = bm_insert proposer () [],
      ec_votes_required = votes_required, ec_created_at = created_at, ec_status = CS_Pending,
      ec_approved_at = None\<rparr>"

definition add_vote :: "account_id \<Rightarrow> early_candidate \<Rightarrow> bool \<times> early_candidate" where
  "add_vote voter c =
     (\<not> bm_contains (ec_voters c) voter, c\<lparr>ec_voters := bm_insert voter () (ec_voters c)\<rparr>)"

definition vote_count :: "early_candidate \<Rightarrow> nat" where
  "vote_count c = length (ec_voters c)"

definition has_quorum :: "early_candidate \<Rightarrow> bool" where
  "has_quorum c = (ec_votes_required c \<le> length (ec_voters c))"

definition candidate_is_expired :: "early_candidate \<Rightarrow> block_number \<Rightarrow> bool" where
  "candidate_is_expired c current_block = (ec_created_at c + CANDIDACY_EXPIRATION < current_block)"

definition has_voted :: "early_candidate \<Rightarrow> account_id \<Rightarrow> bool" where
  "has_voted c voter = bm_contains (ec_voters c) voter"

section \<open>One validator\<close>

datatype validator_status = VS_Active | VS_Inactive | VS_Unbonding | VS_Slashed | VS_Jailed

record validator_info =
  vi_id :: account_id
  vi_stake :: balance
  vi_status :: validator_status
  vi_reputation :: u8
  vi_blocks_produced :: u64
  vi_blocks_missed :: u32
  vi_slash_count :: u32
  vi_total_slashed :: balance
  vi_registered_at :: block_number
  vi_unbonding_at :: "block_number option"
  vi_is_bootstrap :: bool

definition validator_new :: "account_id \<Rightarrow> balance \<Rightarrow> block_number \<Rightarrow> validator_info" where
  "validator_new i stake block =
     \<lparr>vi_id = i, vi_stake = stake, vi_status = VS_Active, vi_reputation = 100, vi_blocks_produced = 0,
      vi_blocks_missed = 0, vi_slash_count = 0, vi_total_slashed = 0, vi_registered_at = block,
      vi_unbonding_at = None, vi_is_bootstrap = False\<rparr>"

definition validator_new_bootstrap :: "account_id \<Rightarrow> block_number \<Rightarrow> validator_info" where
  "validator_new_bootstrap i block =
     \<lparr>vi_id = i, vi_stake = 0, vi_status = VS_Active, vi_reputation = 100, vi_blocks_produced = 0,
      vi_blocks_missed = 0, vi_slash_count = 0, vi_total_slashed = 0, vi_registered_at = block,
      vi_unbonding_at = None, vi_is_bootstrap = True\<rparr>"

definition can_participate :: "validator_info \<Rightarrow> bool" where
  "can_participate v =
     (vi_status v = VS_Active \<and> (MIN_VALIDATOR_STAKE \<le> vi_stake v \<or> vi_is_bootstrap v) \<and> 0 < vi_reputation v)"

definition can_participate_at :: "validator_info \<Rightarrow> block_number \<Rightarrow> bool" where
  "can_participate_at v current_block =
     (if vi_status v \<noteq> VS_Active \<or> vi_reputation v = 0 then False
      else if MIN_VALIDATOR_STAKE \<le> vi_stake v then True
      else if vi_is_bootstrap v then current_block < BOOTSTRAP_ERA_BLOCKS + BOOTSTRAP_GRACE_PERIOD
      else False)"

definition needs_bootstrap_transition :: "validator_info \<Rightarrow> block_number \<Rightarrow> bool" where
  "needs_bootstrap_transition v current_block =
     (vi_is_bootstrap v \<and> vi_stake v < MIN_VALIDATOR_STAKE \<and> BOOTSTRAP_ERA_BLOCKS \<le> current_block)"

definition is_in_grace_period :: "validator_info \<Rightarrow> block_number \<Rightarrow> bool" where
  "is_in_grace_period v current_block =
     (vi_is_bootstrap v \<and> vi_stake v < MIN_VALIDATOR_STAKE \<and> BOOTSTRAP_ERA_BLOCKS \<le> current_block
      \<and> current_block < BOOTSTRAP_ERA_BLOCKS + BOOTSTRAP_GRACE_PERIOD)"

definition exceeded_grace_period :: "validator_info \<Rightarrow> block_number \<Rightarrow> bool" where
  "exceeded_grace_period v current_block =
     (vi_is_bootstrap v \<and> vi_stake v < MIN_VALIDATOR_STAKE
      \<and> BOOTSTRAP_ERA_BLOCKS + BOOTSTRAP_GRACE_PERIOD \<le> current_block)"

definition transition_from_bootstrap :: "validator_info \<Rightarrow> validator_info" where
  "transition_from_bootstrap v =
     (if vi_is_bootstrap v \<and> MIN_VALIDATOR_STAKE \<le> vi_stake v then v\<lparr>vi_is_bootstrap := False\<rparr> else v)"

definition add_stake :: "balance \<Rightarrow> validator_info \<Rightarrow> validator_info" where
  "add_stake amount v =
     (let v' = v\<lparr>vi_stake := sat_add (vi_stake v) amount\<rparr>
      in if vi_is_bootstrap v' \<and> MIN_VALIDATOR_STAKE \<le> vi_stake v' then transition_from_bootstrap v' else v')"

definition record_block_produced :: "validator_info \<Rightarrow> validator_info" where
  "record_block_produced v =
     v\<lparr>vi_blocks_produced := vi_blocks_produced v + 1, vi_reputation := min (vi_reputation v + 1) 100\<rparr>"

definition record_block_missed :: "validator_info \<Rightarrow> validator_info" where
  "record_block_missed v =
     v\<lparr>vi_blocks_missed := vi_blocks_missed v + 1, vi_reputation := sat_sub (vi_reputation v) 1\<rparr>"

definition validator_slash :: "balance \<Rightarrow> validator_info \<Rightarrow> balance \<times> validator_info" where
  "validator_slash amount v =
     (let slashed = min amount (vi_stake v);
          v1 = v\<lparr>vi_stake := sat_sub (vi_stake v) slashed,
                 vi_total_slashed := sat_add (vi_total_slashed v) slashed,
                 vi_slash_count := vi_slash_count v + 1,
                 vi_reputation := sat_sub (vi_reputation v) 20\<rparr>;
          v2 = (if vi_stake v1 < MIN_VALIDATOR_STAKE then v1\<lparr>vi_status := VS_Slashed\<rparr> else v1)
      in (slashed, v2))"

definition start_unbonding :: "block_number \<Rightarrow> validator_info \<Rightarrow> validator_info" where
  "start_unbonding current_block v =
     v\<lparr>vi_status := VS_Unbonding, vi_unbonding_at := Some (current_block + UNBONDING_PERIOD)\<rparr>"

definition is_unbonding_completed :: "validator_info \<Rightarrow> block_number \<Rightarrow> bool" where
  "is_unbonding_completed v current_block =
     (case vi_unbonding_at v of Some t \<Rightarrow> t \<le> current_block | None \<Rightarrow> False)"

section \<open>The validator set\<close>

record validator_set =
  vs_validators :: "(account_id, validator_info) bmap"
  vs_total_stake :: balance
  vs_role_registry :: role_registry
  vs_early_candidates :: "(account_id, early_candidate) bmap"

definition validator_set_new :: validator_set where
  "validator_set_new =
     \<lparr>vs_validators = [], vs_total_stake = 0, vs_role_registry = registry_new, vs_early_candidates = []\<rparr>"

definition add_validator :: "validator_info \<Rightarrow> validator_set \<Rightarrow> (validator_error, unit) result \<times> validator_set" where
  "add_validator v V =
     (if vi_stake v < MIN_VALIDATOR_STAKE \<and> \<not> vi_is_bootstrap v then (Err InsufficientStake, V)
      else case register_validator (vi_id v) (vi_stake v) (vi_is_bootstrap v) (vi_registered_at v) (vs_role_registry V) of
        (Inl e, R) \<Rightarrow>
          (Err (if e = RR_AlreadyRegistered then AlreadyRegistered else CannotParticipate), V\<lparr>vs_role_registry := R\<rparr>)
      | (Inr _, R) \<Rightarrow>
          (Ok (), V\<lparr>vs_validators := bm_insert (vi_id v) v (vs_validators V),
                    vs_total_stake := sat_add (vs_total_stake V) (vi_stake v), vs_role_registry := R\<rparr>))"

definition remove_validator :: "account_id \<Rightarrow> validator_set \<Rightarrow> (validator_error, validator_info) result \<times> validator_set" where
  "remove_validator i V =
     (case bm_get (vs_validators V) i of
        None \<Rightarrow> (Err NotFound, V)
      | Some v \<Rightarrow>
          (Ok v, V\<lparr>vs_validators := bm_remove i (vs_validators V),
                   vs_role_registry := snd (unregister_validator i (vs_role_registry V)),
                   vs_total_stake := sat_sub (vs_total_stake V) (vi_stake v)\<rparr>))"

definition ensure_bootstrap_validator ::
  "account_id \<Rightarrow> block_number \<Rightarrow> validator_set \<Rightarrow> (validator_error, unit) result \<times> validator_set" where
  "ensure_bootstrap_validator i block V =
     (case bm_get (vs_validators V) i of
        Some e \<Rightarrow>
          (Ok (), if can_participate e then V
                  else V\<lparr>vs_validators := bm_insert i
                     (e\<lparr>vi_is_bootstrap := True, vi_status := VS_Active, vi_reputation := 100\<rparr>) (vs_validators V)\<rparr>)
      | None \<Rightarrow>
          let v = validator_new_bootstrap i block;
              (r, R) = register_validator (vi_id v) (vi_stake v) (vi_is_bootstrap v) (vi_registered_at v) (vs_role_registry V)
          in if r = Ok () \<or> r = Err RR_AlreadyRegistered
             then (Ok (), V\<lparr>vs_validators := bm_insert i v (vs_validators V),
                            vs_total_stake := sat_add (vs_total_stake V) (vi_stake v), vs_role_registry := R\<rparr>)
             else (Err CannotParticipate, V\<lparr>vs_role_registry := R\<rparr>))"

definition active_count :: "validator_set \<Rightarrow> nat" where
  "active_count V = length (filter can_participate (bm_values (vs_validators V)))"

definition active_count_at :: "validator_set \<Rightarrow> block_number \<Rightarrow> nat" where
  "active_count_at V current_block =
     length (filter (\<lambda>v. can_participate_at v current_block) (bm_values (vs_validators V)))"

definition active_validators :: "validator_set \<Rightarrow> validator_info list" where
  "active_validators V = filter can_participate (bm_values (vs_validators V))"

definition active_validators_at :: "validator_set \<Rightarrow> block_number \<Rightarrow> validator_info list" where
  "active_validators_at V current_block =
     filter (\<lambda>v. can_participate_at v current_block) (bm_values (vs_validators V))"

definition is_active :: "validator_set \<Rightarrow> account_id \<Rightarrow> bool" where
  "is_active V i = (case bm_get (vs_validators V) i of Some v \<Rightarrow> can_participate v | None \<Rightarrow> False)"

definition is_active_at :: "validator_set \<Rightarrow> account_id \<Rightarrow> block_number \<Rightarrow> bool" where
  "is_active_at V i current_block =
     (case bm_get (vs_validators V) i of Some v \<Rightarrow> can_participate_at v current_block | None \<Rightarrow> False)"

fun remove_each :: "account_id list \<Rightarrow> validator_set \<Rightarrow> account_id list \<times> validator_set" where
  "remove_each [] V = ([], V)"
| "remove_each (i # is) V =
     (case remove_validator i V of
        (Inl _, V') \<Rightarrow> remove_each is V'
      | (Inr _, V') \<Rightarrow> (let (removed, V'') = remove_each is V' in (i # removed, V'')))"

definition process_bootstrap_transitions :: "block_number \<Rightarrow> validator_set \<Rightarrow> account_id list \<times> validator_set" where
  "process_bootstrap_transitions current_block V =
     remove_each (map fst (filter (\<lambda>(_, v). exceeded_grace_period v current_block) (vs_validators V))) V"

definition bootstrap_validators_in_grace_period :: "validator_set \<Rightarrow> block_number \<Rightarrow> validator_info list" where
  "bootstrap_validators_in_grace_period V current_block =
     filter (\<lambda>v. is_in_grace_period v current_block) (bm_values (vs_validators V))"

definition is_bootstrap_era :: "block_number \<Rightarrow> bool" where
  "is_bootstrap_era current_block = (current_block < BOOTSTRAP_ERA_BLOCKS)"

definition bootstrap_validator_count :: "validator_set \<Rightarrow> nat" where
  "bootstrap_validator_count V = length (filter vi_is_bootstrap (bm_values (vs_validators V)))"

definition update_validator_stake ::
  "account_id \<Rightarrow> balance \<Rightarrow> validator_set \<Rightarrow> (validator_error, unit) result \<times> validator_set" where
  "update_validator_stake i amount V =
     (case bm_get (vs_validators V) i of
        None \<Rightarrow> (Err NotFound, V)
      | Some v \<Rightarrow>
          let v' = add_stake amount v
          in (Ok (), V\<lparr>vs_validators := bm_insert i v' (vs_validators V),
                       vs_total_stake := sat_add (sat_sub (vs_total_stake V) (vi_stake v)) (vi_stake v'),
                       vs_role_registry := snd (registry_update_stake i (vi_stake v') (vs_role_registry V))\<rparr>))"

section \<open>Voting on early validators\<close>

definition votes_required_for_new_validator :: "validator_set \<Rightarrow> nat" where
  "votes_required_for_new_validator V =
     (let n = active_count V in if n \<le> 2 then 1 else if n \<le> 5 then 3 else if n \<le> 10 then 4 else 5)"

definition propose_early_validator ::
  "account_id \<Rightarrow> account_id \<Rightarrow> block_number \<Rightarrow> validator_set \<Rightarrow> (validator_error, unit) result \<times> validator_set" where
  "propose_early_validator candidate proposer current_block V =
     (if \<not> is_bootstrap_era current_block then (Err BootstrapEnded, V)
      else if MAX_EARLY_VALIDATORS \<le> active_count V then (Err MaxValidatorsReached, V)
      else if \<not> is_active V proposer then (Err NotValidator, V)
      else if bm_contains (vs_validators V) candidate then (Err AlreadyRegistered, V)
      else if bm_contains (vs_early_candidates V) candidate then (Err CandidacyExists, V)
      else (Ok (), V\<lparr>vs_early_candidates := bm_insert candidate
              (candidate_new candidate proposer (votes_required_for_new_validator V) current_block)
              (vs_early_candidates V)\<rparr>))"

definition vote_early_validator ::
  "account_id \<Rightarrow> account_id \<Rightarrow> block_number \<Rightarrow> validator_set \<Rightarrow> (validator_error, bool) result \<times> validator_set" where
  "vote_early_validator candidate voter current_block V =
     (if \<not> is_bootstrap_era current_block then (Err BootstrapEnded, V)
      else if \<not> is_active V voter then (Err NotValidator, V)
      else case bm_get (vs_early_candidates V) candidate of
        None \<Rightarrow> (Err CandidacyNotFound, V)
      | Some c \<Rightarrow>
          if candidate_is_expired c current_block
          then (Err CandidacyExpired, V\<lparr>vs_early_candidates :=
                  bm_insert candidate (c\<lparr>ec_status := CS_Expired\<rparr>) (vs_early_candidates V)\<rparr>)
          else if ec_status c \<noteq> CS_Pending then (Err CandidacyNotPending, V)
          else if has_voted c voter then (Err AlreadyVoted, V)
          else let c' = snd (add_vote voter c)
               in (Ok (has_quorum c'), V\<lparr>vs_early_candidates := bm_insert candidate c' (vs_early_candidates V)\<rparr>))"

definition approve_early_validator ::
  "account_id \<Rightarrow> block_number \<Rightarrow> validator_set \<Rightarrow> (validator_error, unit) result \<times> validator_set" where
  "approve_early_validator candidate current_block V =
     (case bm_get (vs_early_candidates V) candidate of
        None \<Rightarrow> (Err CandidacyNotFound, V)
      | Some c \<Rightarrow>
          if \<not> has_quorum c then (Err InsufficientVotes, V)
          else if ec_status c \<noteq> CS_Pending then (Err CandidacyNotPending, V)
          else case add_validator (validator_new_bootstrap candidate current_block) V of
            (Inl e, V') \<Rightarrow> (Err e, V')
          | (Inr _, V') \<Rightarrow>
              (Ok (), case bm_get (vs_early_candidates V') candidate of
                        None \<Rightarrow> V'
                      | Some c' \<Rightarrow> V'\<lparr>vs_early_candidates := bm_insert candidate
                          (c'\<lparr>ec_status := CS_Approved, ec_approved_at := Some current_block\<rparr>)
                          (vs_early_candidates V')\<rparr>))"

definition pending_candidates :: "validator_set \<Rightarrow> early_candidate list" where
  "pending_candidates V = filter (\<lambda>c. ec_status c = CS_Pending) (bm_values (vs_early_candidates V))"

definition cleanup_expired_candidacies :: "block_number \<Rightarrow> validator_set \<Rightarrow> account_id list \<times> validator_set" where
  "cleanup_expired_candidacies current_block V =
     (let expired = map fst (filter (\<lambda>(_, c). candidate_is_expired c current_block \<and> ec_status c = CS_Pending)
                              (vs_early_candidates V));
          expire = (\<lambda>i cs. case bm_get cs i of
                             None \<Rightarrow> cs | Some c \<Rightarrow> bm_insert i (c\<lparr>ec_status := CS_Expired\<rparr>) cs)
      in (expired, V\<lparr>vs_early_candidates := fold expire expired (vs_early_candidates V)\<rparr>))"

definition is_early_validator :: "validator_set \<Rightarrow> account_id \<Rightarrow> bool" where
  "is_early_validator V account =
     ((case bm_get (vs_validators V) account of Some v \<Rightarrow> vi_is_bootstrap v | None \<Rightarrow> False)
      \<and> (case bm_get (vs_early_candidates V) account of Some c \<Rightarrow> ec_status c = CS_Approved | None \<Rightarrow> False))"

definition can_vote_early_validator :: "validator_set \<Rightarrow> account_id \<Rightarrow> block_number \<Rightarrow> bool" where
  "can_vote_early_validator V account current_block =
     (is_bootstrap_era current_block \<and> is_active_at V account current_block)"

section \<open>The invariant of the set\<close>

abbreviation stake_total :: "(account_id, validator_info) bmap \<Rightarrow> nat" where
  "stake_total m \<equiv> bm.total (\<lambda>v. unat (vi_stake v)) m"

definition validator_ok :: "account_id set \<Rightarrow> account_id \<Rightarrow> validator_info \<Rightarrow> bool" where
  "validator_ok L i v = (vi_id v = i \<and> (vi_is_bootstrap v \<or> i \<in> L \<or> MIN_VALIDATOR_STAKE \<le> vi_stake v))"

definition candidate_ok :: "account_id \<Rightarrow> early_candidate \<Rightarrow> bool" where
  "candidate_ok i c =
     (ec_candidate c = i \<and> bm_inv (ec_voters c) \<and> 1 \<le> ec_votes_required c
      \<and> (ec_status c = CS_Approved \<longrightarrow> has_quorum c))"

text \<open>
  Four parts: the map, the cached total, the mirror in the registry, the candidates.  What is
  required of each member is a parameter, \<open>validator_ok\<close> for the operations of the set itself.
\<close>

definition vset_inv_of :: "(account_id \<Rightarrow> validator_info \<Rightarrow> bool) \<Rightarrow> validator_set \<Rightarrow> bool" where
  "vset_inv_of Q V =
     ((bm_inv (vs_validators V) \<and> (\<forall>i v. bm_get (vs_validators V) i = Some v \<longrightarrow> Q i v))
      \<and> stake_total (vs_validators V) = unat (vs_total_stake V)
      \<and> (reg_inv (vs_role_registry V) \<and> registry_members (vs_role_registry V) = dom (bm_get (vs_validators V)))
      \<and> (bm_inv (vs_early_candidates V) \<and> (\<forall>i c. bm_get (vs_early_candidates V) i = Some c \<longrightarrow> candidate_ok i c)))"

abbreviation vset_inv :: "account_id set \<Rightarrow> validator_set \<Rightarrow> bool" where
  "vset_inv L \<equiv> vset_inv_of (validator_ok L)"

lemma vset_invI:
  assumes "bm_inv (vs_validators V)" and "\<And>i v. bm_get (vs_validators V) i = Some v \<Longrightarrow> Q i v"
    and "stake_total (vs_validators V) = unat (vs_total_stake V)"
    and "reg_inv (vs_role_registry V)" and "registry_members (vs_role_registry V) = dom (bm_get (vs_validators V))"
    and "bm_inv (vs_early_candidates V)" and "\<And>i c. bm_get (vs_early_candidates V) i = Some c \<Longrightarrow> candidate_ok i c"
  shows "vset_inv_of Q V"
  using assms by (simp add: vset_inv_of_def)

lemma vset_invD:
  assumes "vset_inv_of Q V"
  shows "bm_inv (vs_validators V)" and "bm_get (vs_validators V) i = Some v \<Longrightarrow> Q i v"
    and "stake_total (vs_validators V) = unat (vs_total_stake V)"
    and "reg_inv (vs_role_registry V)" and "registry_members (vs_role_registry V) = dom (bm_get (vs_validators V))"
    and "bm_inv (vs_early_candidates V)" and "bm_get (vs_early_candidates V) j = Some c \<Longrightarrow> candidate_ok j c"
  using assms by (simp_all add: vset_inv_of_def)

lemma validator_set_new_inv: "vset_inv_of Q validator_set_new"
  by (intro vset_invI)
    (simp_all add: validator_set_new_def registry_new_inv bm.total_def registry_members_def,
      simp add: registry_new_def)

text \<open>Putting a validator under its key, the three other parts adjusted accordingly.\<close>

lemma put_validator_inv:
  assumes V: "vset_inv_of Q V" and v: "Q i v"
    and total: "unat t + (case bm_get (vs_validators V) i of None \<Rightarrow> 0 | Some w \<Rightarrow> unat (vi_stake w))
                = unat (vs_total_stake V) + unat (vi_stake v)"
    and R: "reg_inv R" "registry_members R = insert i (registry_members (vs_role_registry V))"
  shows "vset_inv_of Q (V\<lparr>vs_validators := bm_insert i v (vs_validators V), vs_total_stake := t, vs_role_registry := R\<rparr>)"
proof (intro vset_invI)
  show "stake_total (vs_validators (V\<lparr>vs_validators := bm_insert i v (vs_validators V), vs_total_stake := t,
      vs_role_registry := R\<rparr>)) = unat (vs_total_stake (V\<lparr>vs_validators := bm_insert i v (vs_validators V),
      vs_total_stake := t, vs_role_registry := R\<rparr>))"
    using bm.total_put [OF vset_invD(1) [OF V], of "\<lambda>v. unat (vi_stake v)" i v] vset_invD(3) [OF V] total
    by (simp split: option.splits)
qed (use V v R vset_invD [OF V] in \<open>auto simp: bm_inv_insert bm_get_insert split: if_splits\<close>)

lemma set_candidate_inv:
  assumes "vset_inv L V" and "candidate_ok i c"
  shows "vset_inv L (V\<lparr>vs_early_candidates := bm_insert i c (vs_early_candidates V)\<rparr>)"
  using assms(2) vset_invD [OF assms(1)]
  by (intro vset_invI) (auto simp: bm_inv_insert bm_get_insert split: if_splits)

lemma sat_add_fits: "unat a + unat b < 2 ^ LENGTH('a) \<Longrightarrow> unat (sat_add a b :: 'a::len word) = unat a + unat b"
  by (simp add: unat_sat_add)

lemma add_validator_inv:
  assumes "vset_inv_of Q V" and "unat (vs_total_stake V) + unat (vi_stake v) < 2 ^ 128"
    and "validator_ok {} (vi_id v) v \<Longrightarrow> Q (vi_id v) v"
  shows "vset_inv_of Q (snd (add_validator v V))"
proof (cases "vi_id v \<in> registry_members (vs_role_registry V)")
  case True
  then show ?thesis using assms(1) by (simp add: add_validator_def rg.register_dup)
next
  case False
  obtain R where r: "register_validator (vi_id v) (vi_stake v) (vi_is_bootstrap v) (vi_registered_at v)
      (vs_role_registry V) = (Ok (), R)"
    and R: "reg_inv R" "registry_members R = insert (vi_id v) (registry_members (vs_role_registry V))"
    using rg.register_ok [OF vset_invD(4) [OF assms(1)] False] rg.register_inv [OF vset_invD(4) [OF assms(1)]]
    by (metis prod.collapse)
  have none: "bm_get (vs_validators V) (vi_id v) = None"
    using False vset_invD(5) [OF assms(1)] by (auto simp: domIff)
  have "vset_inv_of Q (V\<lparr>vs_validators := bm_insert (vi_id v) v (vs_validators V),
      vs_total_stake := sat_add (vs_total_stake V) (vi_stake v), vs_role_registry := R\<rparr>)"
    if "\<not> (vi_stake v < MIN_VALIDATOR_STAKE \<and> \<not> vi_is_bootstrap v)"
    using that assms none R by (intro put_validator_inv) (auto simp: validator_ok_def sat_add_fits not_less)
  then show ?thesis
    using assms(1) r by (simp add: add_validator_def)
qed

lemma remove_validator_inv:
  assumes "vset_inv_of Q V"
  shows "vset_inv_of Q (snd (remove_validator i V))"
proof (cases "bm_get (vs_validators V) i")
  case None
  with assms show ?thesis by (simp add: remove_validator_def)
next
  case (Some v)
  have "stake_total (bm_remove i (vs_validators V)) = unat (sat_sub (vs_total_stake V) (vi_stake v))"
    using bm.total_del [OF vset_invD(1) [OF assms], of "\<lambda>v. unat (vi_stake v)" i] vset_invD(3) [OF assms] Some
    by (simp add: unat_sat_sub)
  with Some show ?thesis
    using vset_invD [OF assms]
    by (intro vset_invI)
      (auto simp: remove_validator_def bm_inv_remove bm_get_remove rg.unregister_inv rg.unregister_members
        split: if_splits)
qed

lemma ensure_bootstrap_inv:
  assumes "vset_inv L V"
  shows "vset_inv L (snd (ensure_bootstrap_validator i n V))"
proof (cases "bm_get (vs_validators V) i")
  case None
  then have "i \<notin> registry_members (vs_role_registry V)" using vset_invD(5) [OF assms] by auto
  then have "fst (register_validator i 0 True n (vs_role_registry V)) = Ok ()"
    using rg.register_ok [OF vset_invD(4) [OF assms]] by blast
  moreover have "vset_inv L (V\<lparr>vs_validators := bm_insert i (validator_new_bootstrap i n) (vs_validators V),
      vs_total_stake := vs_total_stake V,
      vs_role_registry := snd (register_validator i 0 True n (vs_role_registry V))\<rparr>)"
    using assms None vset_invD(4) [OF assms]
    by (intro put_validator_inv)
      (auto simp: validator_ok_def validator_new_bootstrap_def rg.register_inv rg.register_members)
  ultimately show ?thesis
    using None by (simp add: ensure_bootstrap_validator_def validator_new_bootstrap_def Let_def split_beta)
next
  case (Some e)
  let ?e = "e\<lparr>vi_is_bootstrap := True, vi_status := VS_Active, vi_reputation := 100\<rparr>"
  have "vset_inv L (V\<lparr>vs_validators := bm_insert i ?e (vs_validators V), vs_total_stake := vs_total_stake V,
      vs_role_registry := vs_role_registry V\<rparr>)"
    using Some vset_invD [OF assms] assms
    by (intro put_validator_inv) (auto simp: validator_ok_def)
  with Some assms show ?thesis by (simp add: ensure_bootstrap_validator_def)
qed

lemma add_stake_fields [simp]: "vi_stake (add_stake a v) = sat_add (vi_stake v) a" "vi_id (add_stake a v) = vi_id v"
  by (simp_all add: add_stake_def transition_from_bootstrap_def Let_def)

lemma add_stake_ok: "validator_ok L i v \<Longrightarrow> validator_ok L i (add_stake a v)"
  using sat_add_ge [of "vi_stake v" a]
  by (auto simp: validator_ok_def add_stake_def transition_from_bootstrap_def Let_def)

lemma update_validator_stake_inv:
  assumes "vset_inv L V" and "unat (vs_total_stake V) + unat a < 2 ^ 128"
  shows "vset_inv L (snd (update_validator_stake i a V))"
proof (cases "bm_get (vs_validators V) i")
  case (Some v)
  have le: "unat (vi_stake v) \<le> unat (vs_total_stake V)"
    using bm.get_le_total [OF vset_invD(1) [OF assms(1)] Some, of "\<lambda>v. unat (vi_stake v)"] vset_invD(3) [OF assms(1)]
    by simp
  then have st: "unat (sat_add (vi_stake v) a) = unat (vi_stake v) + unat a"
    using assms(2) by (simp add: unat_sat_add)
  then have t: "unat (sat_add (sat_sub (vs_total_stake V) (vi_stake v)) (sat_add (vi_stake v) a))
      = unat (vs_total_stake V) + unat a"
    using le assms(2) by (simp add: unat_sat_add unat_sat_sub)
  have "vset_inv L (V\<lparr>vs_validators := bm_insert i (add_stake a v) (vs_validators V),
      vs_total_stake := sat_add (sat_sub (vs_total_stake V) (vi_stake v)) (sat_add (vi_stake v) a),
      vs_role_registry := snd (registry_update_stake i (sat_add (vi_stake v) a) (vs_role_registry V))\<rparr>)"
    using Some assms(1) vset_invD [OF assms(1)] st t
    by (intro put_validator_inv) (auto simp: add_stake_ok rg.restake_inv rg.restake_members)
  with Some show ?thesis by (simp add: update_validator_stake_def Let_def)
qed (simp add: update_validator_stake_def assms)

lemma candidate_status_ok: "candidate_ok i c \<Longrightarrow> s \<noteq> CS_Approved \<Longrightarrow> candidate_ok i (c\<lparr>ec_status := s\<rparr>)"
  by (simp add: candidate_ok_def)

lemma propose_inv:
  assumes "vset_inv L V"
  shows "vset_inv L (snd (propose_early_validator c p n V))"
proof -
  have "1 \<le> votes_required_for_new_validator V"
    by (simp add: votes_required_for_new_validator_def Let_def)
  then have "candidate_ok c (candidate_new c p (votes_required_for_new_validator V) n)"
    by (simp add: candidate_ok_def candidate_new_def bm_inv_def)
  then show ?thesis
    using assms by (simp add: propose_early_validator_def set_candidate_inv)
qed

lemma vote_inv:
  assumes "vset_inv L V"
  shows "vset_inv L (snd (vote_early_validator c v n V))"
  using assms vset_invD(7) [OF assms, of c]
  by (auto simp: vote_early_validator_def Let_def add_vote_def candidate_ok_def has_quorum_def bm_inv_insert
      intro!: set_candidate_inv split: option.splits)

lemma add_validator_candidates [simp]: "vs_early_candidates (snd (add_validator v V)) = vs_early_candidates V"
  by (auto simp: add_validator_def split: prod.splits sum.splits)

lemma approve_inv:
  assumes "vset_inv L V"
  shows "vset_inv L (snd (approve_early_validator c n V))"
proof -
  let ?a = "add_validator (validator_new_bootstrap c n) V"
  have "vset_inv L (snd ?a)"
    using assms unat_lt128 [of "vs_total_stake V"]
    by (intro add_validator_inv) (simp_all add: validator_new_bootstrap_def validator_ok_def)
  moreover have "vs_early_candidates (snd ?a) = vs_early_candidates V" by simp
  ultimately have put: "vset_inv L ((snd ?a)\<lparr>vs_early_candidates := bm_insert c d (vs_early_candidates V)\<rparr>)"
    if "candidate_ok c d" for d
    using set_candidate_inv [OF _ that] by metis
  show ?thesis
  proof (cases "bm_get (vs_early_candidates V) c")
    case (Some d)
    then have "candidate_ok c d" by (rule vset_invD(7) [OF assms])
    then show ?thesis
      using assms Some \<open>vset_inv L (snd ?a)\<close> \<open>vs_early_candidates (snd ?a) = _\<close>
        put [of "d\<lparr>ec_status := CS_Approved, ec_approved_at := Some n\<rparr>"]
      by (cases ?a; cases "fst ?a") (auto simp: approve_early_validator_def candidate_ok_def has_quorum_def)
  qed (simp add: approve_early_validator_def assms)
qed

lemma cleanup_inv:
  assumes "vset_inv L V"
  shows "vset_inv L (snd (cleanup_expired_candidacies n V))"
proof -
  define expire :: "account_id \<Rightarrow> (account_id, early_candidate) bmap \<Rightarrow> (account_id, early_candidate) bmap"
    where "expire = (\<lambda>i cs. case bm_get cs i of
      None \<Rightarrow> cs | Some c \<Rightarrow> bm_insert i (c\<lparr>ec_status := CS_Expired\<rparr>) cs)"
  have step: "vset_inv L (V\<lparr>vs_early_candidates := expire i cs\<rparr>)" if "vset_inv L (V\<lparr>vs_early_candidates := cs\<rparr>)" for i cs
  proof (cases "bm_get cs i")
    case (Some c)
    then have "candidate_ok i c" using vset_invD(7) [OF that, of i c] by simp
    then show ?thesis
      using set_candidate_inv [OF that, of i "c\<lparr>ec_status := CS_Expired\<rparr>"] Some
      by (simp add: expire_def candidate_ok_def has_quorum_def)
  qed (use that in \<open>simp add: expire_def\<close>)
  have "vset_inv L (V\<lparr>vs_early_candidates := fold expire is cs\<rparr>)" if "vset_inv L (V\<lparr>vs_early_candidates := cs\<rparr>)" for "is" cs
    using that by (induction "is" arbitrary: cs) (simp_all add: step)
  from this [of "vs_early_candidates V"] show ?thesis
    using assms by (simp add: cleanup_expired_candidacies_def Let_def expire_def)
qed

lemma remove_each_inv: "vset_inv L V \<Longrightarrow> vset_inv L (snd (remove_each is V))"
proof (induction "is" arbitrary: V)
  case (Cons i "is")
  have "vset_inv L (snd (remove_validator i V))" using Cons.prems by (rule remove_validator_inv)
  then show ?case
    using Cons.IH by (auto split: prod.splits sum.splits) (metis snd_conv)+
qed simp

lemma remove_each_spec:
  "bm_get (vs_validators (snd (remove_each is V))) k = (if k \<in> set is then None else bm_get (vs_validators V) k)"
proof (induction "is" arbitrary: V)
  case (Cons i "is")
  obtain r V' where rv: "remove_validator i V = (r, V')" by (cases "remove_validator i V")
  have "bm_get (vs_validators V') k = (if k = i then None else bm_get (vs_validators V) k)"
    using rv by (auto simp: remove_validator_def bm_get_remove split: option.splits)
  then show ?case
    using Cons [of V'] rv by (auto split: prod.splits sum.splits)
qed simp

text \<open>In-place updates through \<open>get_validator_mut\<close> that leave stake, identity and flag alone.\<close>

definition modify_validator :: "account_id \<Rightarrow> (validator_info \<Rightarrow> validator_info) \<Rightarrow> validator_set \<Rightarrow> validator_set" where
  "modify_validator i f V =
     (case bm_get (vs_validators V) i of
        None \<Rightarrow> V
      | Some v \<Rightarrow> V\<lparr>vs_validators := bm_insert i (f v) (vs_validators V)\<rparr>)"

lemma modify_validator_inv:
  assumes "vset_inv L V" and "\<And>v. vi_id (f v) = vi_id v \<and> vi_stake (f v) = vi_stake v \<and> vi_is_bootstrap (f v) = vi_is_bootstrap v"
  shows "vset_inv L (modify_validator i f V)"
proof (cases "bm_get (vs_validators V) i")
  case (Some v)
  have "vset_inv L (V\<lparr>vs_validators := bm_insert i (f v) (vs_validators V), vs_total_stake := vs_total_stake V,
      vs_role_registry := vs_role_registry V\<rparr>)"
    using Some assms vset_invD [OF assms(1)] by (intro put_validator_inv) (auto simp: validator_ok_def)
  with Some show ?thesis by (simp add: modify_validator_def)
qed (simp add: modify_validator_def assms)

text \<open>
  What the staking contract (\<^verbatim>\<open>contracts/staking.rs\<close>) does to the set inside \<open>add_stake\<close>,
  \<open>start_unbonding\<close> and \<open>slash_validator\<close>: the member's stake is changed through \<open>get_validator_mut\<close>
  and the cached total is adjusted; the role registry is not told.
\<close>

definition set_bond :: "account_id \<Rightarrow> balance \<Rightarrow> validator_set \<Rightarrow> validator_set" where
  "set_bond i amount V =
     (case bm_get (vs_validators V) i of
        None \<Rightarrow> V
      | Some v \<Rightarrow> V\<lparr>vs_validators := bm_insert i (v\<lparr>vi_stake := sat_add (vi_stake v) amount\<rparr>) (vs_validators V),
                    vs_total_stake := sat_add (vs_total_stake V) amount\<rparr>)"

definition set_unbond :: "account_id \<Rightarrow> balance \<Rightarrow> validator_set \<Rightarrow> validator_set" where
  "set_unbond i amount V =
     (case bm_get (vs_validators V) i of
        None \<Rightarrow> V
      | Some v \<Rightarrow>
          if vi_stake v < amount then V
          else V\<lparr>vs_validators := bm_insert i (v\<lparr>vi_stake := sat_sub (vi_stake v) amount\<rparr>) (vs_validators V),
                 vs_total_stake := sat_sub (vs_total_stake V) amount\<rparr>)"

definition set_slash :: "account_id \<Rightarrow> balance \<Rightarrow> validator_set \<Rightarrow> validator_set" where
  "set_slash i amount V =
     (case bm_get (vs_validators V) i of
        None \<Rightarrow> V
      | Some v \<Rightarrow>
          let (slashed, v') = validator_slash amount v
          in V\<lparr>vs_validators := bm_insert i v' (vs_validators V), vs_total_stake := sat_sub (vs_total_stake V) slashed\<rparr>)"

text \<open>Slashing a validator takes at most its stake and never creates any.\<close>

lemma validator_slash_bounds:
  "validator_slash amount v = (s, w) \<Longrightarrow>
     unat s = min (unat amount) (unat (vi_stake v)) \<and> unat (vi_stake w) + unat s = unat (vi_stake v)
     \<and> (vi_stake w < MIN_VALIDATOR_STAKE \<longrightarrow> \<not> can_participate w)"
  by (auto simp: validator_slash_def Let_def unat_sat_sub min_def word_le_nat_alt can_participate_def split: if_splits)

lemma vset_inv_mono: "vset_inv L V \<Longrightarrow> L \<subseteq> M \<Longrightarrow> vset_inv M V"
  by (auto simp: vset_inv_of_def validator_ok_def)

lemma member_stake_bound:
  assumes "vset_inv_of Q V" and "bm_get (vs_validators V) i = Some v"
  shows "unat (vi_stake v) \<le> unat (vs_total_stake V)"
  using bm.get_le_total [OF vset_invD(1) [OF assms(1)] assms(2), of "\<lambda>v. unat (vi_stake v)"] vset_invD(3) [OF assms(1)]
  by simp

text \<open>A member keeps its key and its books stay balanced when its stake is changed in place.\<close>

lemma restake_inv:
  assumes "vset_inv L V" "bm_get (vs_validators V) i = Some v" "validator_ok L i w"
    and "unat t + unat (vi_stake v) = unat (vs_total_stake V) + unat (vi_stake w)"
  shows "vset_inv L (V\<lparr>vs_validators := bm_insert i w (vs_validators V), vs_total_stake := t\<rparr>)"
proof -
  have "vset_inv L (V\<lparr>vs_validators := bm_insert i w (vs_validators V), vs_total_stake := t,
      vs_role_registry := vs_role_registry V\<rparr>)"
    using assms vset_invD [OF assms(1)] by (intro put_validator_inv) auto
  then show ?thesis by simp
qed

lemma set_bond_inv:
  assumes "vset_inv L V" and "unat (vs_total_stake V) + unat a < 2 ^ 128"
  shows "vset_inv L (set_bond i a V)"
proof (cases "bm_get (vs_validators V) i")
  case (Some v)
  note le = member_stake_bound [OF assms(1) Some]
  have "vset_inv L (V\<lparr>vs_validators := bm_insert i (v\<lparr>vi_stake := sat_add (vi_stake v) a\<rparr>) (vs_validators V),
      vs_total_stake := sat_add (vs_total_stake V) a\<rparr>)"
  proof (rule restake_inv [OF assms(1) Some])
    show "validator_ok L i (v\<lparr>vi_stake := sat_add (vi_stake v) a\<rparr>)"
      using vset_invD(2) [OF assms(1) Some] sat_add_ge [of "vi_stake v" a] by (auto simp: validator_ok_def)
  qed (use le assms(2) in \<open>simp add: unat_sat_add\<close>)
  then show ?thesis using Some by (simp add: set_bond_def)
qed (simp add: set_bond_def assms)

lemma set_unbond_inv:
  assumes "vset_inv L V"
  shows "vset_inv (insert i L) (set_unbond i a V)"
proof (cases "bm_get (vs_validators V) i")
  case (Some v)
  note inv = vset_inv_mono [OF assms, of "insert i L", OF subset_insertI]
  have "vset_inv (insert i L) (V\<lparr>vs_validators := bm_insert i (v\<lparr>vi_stake := sat_sub (vi_stake v) a\<rparr>) (vs_validators V),
      vs_total_stake := sat_sub (vs_total_stake V) a\<rparr>)" if "a \<le> vi_stake v"
    using that vset_invD(2) [OF assms Some] member_stake_bound [OF assms Some]
    by (intro restake_inv [OF inv Some]) (simp_all add: validator_ok_def unat_sat_sub word_le_nat_alt)
  then show ?thesis using Some inv by (simp add: set_unbond_def not_less)
qed (simp add: set_unbond_def vset_inv_mono [OF assms] subset_insertI)

lemma set_slash_inv:
  assumes "vset_inv L V"
  shows "vset_inv (insert i L) (set_slash i a V)"
proof (cases "bm_get (vs_validators V) i")
  case (Some v)
  note inv = vset_inv_mono [OF assms, of "insert i L", OF subset_insertI]
  obtain t w where sw: "validator_slash a v = (t, w)" by fastforce
  have "vi_id w = vi_id v" using sw by (auto simp: validator_slash_def Let_def split: if_splits)
  then have "vset_inv (insert i L) (V\<lparr>vs_validators := bm_insert i w (vs_validators V),
      vs_total_stake := sat_sub (vs_total_stake V) t\<rparr>)"
    using vset_invD(2) [OF assms Some] member_stake_bound [OF assms Some] validator_slash_bounds [OF sw]
    by (intro restake_inv [OF inv Some]) (auto simp: validator_ok_def unat_sat_sub)
  then show ?thesis using Some sw by (simp add: set_slash_def)
qed (simp add: set_slash_def vset_inv_mono [OF assms] subset_insertI)

section \<open>Reachable sets\<close>

text \<open>
  The sets that the operations of \<^verbatim>\<open>consensus/validator.rs\<close> and of the staking contract lead to, as long
  as the total stake fits into 128 bits.  The parameter \<open>L\<close> collects the accounts whose stake was ever
  lowered by unbonding or by a slash.
\<close>

inductive vset_reach :: "account_id set \<Rightarrow> validator_set \<Rightarrow> bool" where
  new: "vset_reach {} validator_set_new"
| add: "vset_reach L V \<Longrightarrow> unat (vs_total_stake V) + unat (vi_stake v) < 2 ^ 128 \<Longrightarrow> vset_reach L (snd (add_validator v V))"
| remove: "vset_reach L V \<Longrightarrow> vset_reach L (snd (remove_validator i V))"
| ensure: "vset_reach L V \<Longrightarrow> vset_reach L (snd (ensure_bootstrap_validator i n V))"
| transitions: "vset_reach L V \<Longrightarrow> vset_reach L (snd (process_bootstrap_transitions n V))"
| restake: "vset_reach L V \<Longrightarrow> unat (vs_total_stake V) + unat a < 2 ^ 128 \<Longrightarrow> vset_reach L (snd (update_validator_stake i a V))"
| produced: "vset_reach L V \<Longrightarrow> vset_reach L (modify_validator i record_block_produced V)"
| missed: "vset_reach L V \<Longrightarrow> vset_reach L (modify_validator i record_block_missed V)"
| unbond: "vset_reach L V \<Longrightarrow> vset_reach L (modify_validator i (start_unbonding n) V)"
| set_bond: "vset_reach L V \<Longrightarrow> unat (vs_total_stake V) + unat a < 2 ^ 128 \<Longrightarrow> vset_reach L (set_bond i a V)"
| set_unbond: "vset_reach L V \<Longrightarrow> vset_reach (insert i L) (set_unbond i a V)"
| set_slash: "vset_reach L V \<Longrightarrow> vset_reach (insert i L) (set_slash i a V)"
| propose: "vset_reach L V \<Longrightarrow> vset_reach L (snd (propose_early_validator c p n V))"
| vote: "vset_reach L V \<Longrightarrow> vset_reach L (snd (vote_early_validator c v n V))"
| approve: "vset_reach L V \<Longrightarrow> vset_reach L (snd (approve_early_validator c n V))"
| cleanup: "vset_reach L V \<Longrightarrow> vset_reach L (snd (cleanup_expired_candidacies n V))"

lemma vset_reach_inv: "vset_reach L V \<Longrightarrow> vset_inv L V"
proof (induction rule: vset_reach.induct)
  case (add L V v)
  then show ?case by (intro add_validator_inv) (auto simp: validator_ok_def)
qed (simp_all add: validator_set_new_inv remove_validator_inv ensure_bootstrap_inv remove_each_inv
      process_bootstrap_transitions_def update_validator_stake_inv modify_validator_inv propose_inv vote_inv
      approve_inv cleanup_inv record_block_produced_def record_block_missed_def start_unbonding_def
      set_bond_inv set_unbond_inv set_slash_inv)

section \<open>Properties\<close>

text \<open>
  C14: in every validator set reachable through the operations of the validator set and of the staking contract
  (registering, bonding, unbonding and slashing included) while the total stake stays below 2^128, the
  cached total stake is the sum of the members' stakes, an account is a member exactly when the role
  registry lists it as validator, every member is stored under its own id, and a member with less than
  the minimum stake is a bootstrap validator or an account whose stake was lowered by unbonding or by a slash.
\<close>

theorem validator_set_consistent:
  assumes "vset_reach L V"
  shows "unat (vs_total_stake V) = (\<Sum>(i, v) \<leftarrow> vs_validators V. unat (vi_stake v))
       \<and> (is_validator (vs_role_registry V) a \<longleftrightarrow> bm_contains (vs_validators V) a)
       \<and> (\<forall>(i, v) \<in> set (vs_validators V). vi_id v = i \<and> (vi_is_bootstrap v \<or> i \<in> L \<or> MIN_VALIDATOR_STAKE \<le> vi_stake v))"
proof -
  have inv: "vset_inv L V" using assms by (rule vset_reach_inv)
  have "validator_ok L i v" if "(i, v) \<in> set (vs_validators V)" for i v
    using vset_invD(2) [OF inv] that bm_inv_distinct [OF vset_invD(1) [OF inv]] by simp
  moreover have "is_validator (vs_role_registry V) a \<longleftrightarrow> bm_contains (vs_validators V) a"
    using vset_invD(5) [OF inv] by (auto simp: is_validator_def registry_members_def bm_contains_def)
  moreover have "unat (vs_total_stake V) = (\<Sum>(i, v) \<leftarrow> vs_validators V. unat (vi_stake v))"
    using vset_invD(3) [OF inv] bm_total_list [OF vset_invD(1) [OF inv]] by simp
  ultimately show ?thesis by (auto simp: validator_ok_def)
qed

theorem validator_set_consistent_witness:
  "unat (vs_total_stake (set_unbond 3 20 (snd (update_validator_stake 3 70 (snd (ensure_bootstrap_validator 3 1 validator_set_new)))))) = 50"
proof -
  have r: "vset_reach {3} (set_unbond 3 20 (snd (update_validator_stake 3 70 (snd (ensure_bootstrap_validator 3 1 validator_set_new)))))"
    by (intro vset_reach.intros)
      (simp add: ensure_bootstrap_validator_def validator_set_new_def validator_new_bootstrap_def Let_def
        register_validator_def is_validator_def registry_new_def)
  show ?thesis
    using validator_set_consistent [OF r, of 3]
    by (simp add: set_unbond_def update_validator_stake_def ensure_bootstrap_validator_def validator_set_new_def
        validator_new_bootstrap_def Let_def register_validator_def is_validator_def registry_new_def sat_add_def
        sat_sub_def const_defs add_stake_def)
qed

lemma bm_insert_length_new: "bm_inv m \<Longrightarrow> \<not> bm_contains m k \<Longrightarrow> length (bm_insert k v m) = Suc (length m)"
  using bm.length_keys_put [of m k v] by (simp add: bm_contains_def)

text \<open>
  A vote for an early validator is accepted exactly when it is cast in the bootstrap era by an
  active validator, for an existing candidacy that is pending and not expired, by someone who
  has not voted on it; it then adds exactly one voter and reports whether the quorum is reached.
\<close>

theorem vote_early_validator_spec:
  assumes "vset_reach L V"
  shows "((\<exists>q. fst (vote_early_validator c v n V) = Ok q) \<longleftrightarrow>
           n < BOOTSTRAP_ERA_BLOCKS \<and> is_active V v
           \<and> (\<exists>d. bm_get (vs_early_candidates V) c = Some d \<and> n \<le> ec_created_at d + CANDIDACY_EXPIRATION
                 \<and> ec_status d = CS_Pending \<and> \<not> has_voted d v))
       \<and> (\<forall>q. fst (vote_early_validator c v n V) = Ok q \<longrightarrow>
           (\<exists>d d'. bm_get (vs_early_candidates V) c = Some d
             \<and> bm_get (vs_early_candidates (snd (vote_early_validator c v n V))) c = Some d'
             \<and> vote_count d' = Suc (vote_count d) \<and> (q \<longleftrightarrow> ec_votes_required d \<le> vote_count d')
             \<and> dom (bm_get (ec_voters d')) = insert v (dom (bm_get (ec_voters d)))))"
    (is "?accepted \<and> (\<forall>q. ?ok q \<longrightarrow> ?effect q)")
proof (intro conjI allI impI)
  show ?accepted
    by (auto simp: vote_early_validator_def is_bootstrap_era_def candidate_is_expired_def Let_def not_le not_less
        split: option.splits)
next
  fix q
  assume ok: "?ok q"
  then obtain d where d: "bm_get (vs_early_candidates V) c = Some d" "\<not> bm_contains (ec_voters d) v"
    by (auto simp: vote_early_validator_def has_voted_def Let_def split: option.splits if_splits)
  then have "bm_inv (ec_voters d)"
    using vset_invD(7) [OF vset_reach_inv [OF assms]] by (auto simp: candidate_ok_def)
  with d ok show "?effect q"
    by (auto simp: vote_early_validator_def Let_def add_vote_def vote_count_def has_quorum_def bm_get_insert
        bm_insert_length_new split: if_splits)
qed

text \<open>A small set used in the examples: validators 1 and 2, and a candidacy of account 9.\<close>

definition demo_set :: validator_set where
  "demo_set = snd (propose_early_validator 9 1 5
     (snd (ensure_bootstrap_validator 2 0 (snd (ensure_bootstrap_validator 1 0 validator_set_new)))))"

lemmas vset_eval = ensure_bootstrap_validator_def validator_set_new_def validator_new_bootstrap_def Let_def
  register_validator_def is_validator_def registry_new_def push_entry_def entries_of_def const_defs
  propose_early_validator_def vote_early_validator_def is_bootstrap_era_def active_count_def can_participate_def
  is_active_def bm_contains_def candidate_new_def votes_required_for_new_validator_def candidate_is_expired_def
  has_voted_def add_vote_def has_quorum_def vote_count_def

lemma demo_set_candidates: "bm_get (vs_early_candidates demo_set) 9 = Some (candidate_new 9 1 1 5)"
  by (simp add: demo_set_def vset_eval)

lemma demo_set_active: "is_active demo_set 2"
  by (simp add: demo_set_def vset_eval)

lemma demo_set_reach: "vset_reach {} demo_set"
  unfolding demo_set_def by (intro vset_reach.intros)

theorem vote_early_validator_spec_witness:
  "fst (vote_early_validator 9 2 6 demo_set) = Ok True
   \<and> (\<exists>d'. bm_get (vs_early_candidates (snd (vote_early_validator 9 2 6 demo_set))) 9 = Some d' \<and> vote_count d' = 2)"
proof -
  have ok: "fst (vote_early_validator 9 2 6 demo_set) = Ok True"
    by (simp add: vote_early_validator_def demo_set_candidates demo_set_active is_bootstrap_era_def const_defs
        candidate_new_def candidate_is_expired_def has_voted_def bm_contains_def add_vote_def has_quorum_def Let_def)
  then show ?thesis
    using vote_early_validator_spec [OF demo_set_reach, of 9 2 6] demo_set_candidates
    by (auto simp: candidate_new_def vote_count_def)
qed

text \<open>
  The operation \<open>approve_early_validator\<close> succeeds exactly when the candidacy exists, is pending, has its quorum
  of distinct voters and the candidate is not yet a member; the candidate then is an active
  bootstrap validator without stake and nothing else in the set changes, the total stake
  included.  The number of active validators plays no part in the decision.
\<close>

theorem approve_early_validator_spec:
  assumes "vset_reach L V"
  shows "(fst (approve_early_validator c n V) = Ok () \<longleftrightarrow>
           (\<exists>d. bm_get (vs_early_candidates V) c = Some d \<and> ec_status d = CS_Pending
                \<and> ec_votes_required d \<le> card (dom (bm_get (ec_voters d))) \<and> \<not> bm_contains (vs_validators V) c))
       \<and> (fst (approve_early_validator c n V) = Ok () \<longrightarrow>
           bm_get (vs_validators (snd (approve_early_validator c n V)))
             = (bm_get (vs_validators V))(c \<mapsto> validator_new_bootstrap c n)
           \<and> vs_total_stake (snd (approve_early_validator c n V)) = vs_total_stake V
           \<and> is_early_validator (snd (approve_early_validator c n V)) c)"
proof -
  have inv: "vset_inv L V" using assms by (rule vset_reach_inv)
  have mem: "bm_contains (vs_validators V) c \<longleftrightarrow> c \<in> registry_members (vs_role_registry V)"
    using vset_invD(5) [OF inv] by (auto simp: bm_contains_def)
  have votes: "length (ec_voters d) = card (dom (bm_get (ec_voters d)))"
    if "bm_get (vs_early_candidates V) c = Some d" for d
    using vset_invD(7) [OF inv that] bm.length_keys [of "ec_voters d"] by (simp add: candidate_ok_def)
  obtain R where reg: "register_validator c 0 True n (vs_role_registry V)
      = (if bm_contains (vs_validators V) c then Err RR_AlreadyRegistered else Ok (), R)"
    unfolding mem using rg.register_fst [OF vset_invD(4) [OF inv], of c 0 True n] by (metis prod.collapse)
  show ?thesis
    using votes
    by (auto simp: approve_early_validator_def add_validator_def validator_new_bootstrap_def reg has_quorum_def
        is_early_validator_def bm_get_insert split: option.splits if_splits)
qed

theorem approve_early_validator_spec_witness:
  "fst (approve_early_validator 9 7 demo_set) = Ok ()
   \<and> bm_get (vs_validators (snd (approve_early_validator 9 7 demo_set))) 9 = Some (validator_new_bootstrap 9 7)"
proof -
  have "\<not> bm_contains (vs_validators demo_set) 9"
    by (simp add: demo_set_def vset_eval)
  then have "fst (approve_early_validator 9 7 demo_set) = Ok ()"
    using approve_early_validator_spec [OF demo_set_reach, of 9 7] demo_set_candidates
    by (simp add: candidate_new_def)
  then show ?thesis
    using approve_early_validator_spec [OF demo_set_reach, of 9 7] by simp
qed

lemma remove_each_list: "distinct is \<Longrightarrow> set is \<subseteq> dom (bm_get (vs_validators V)) \<Longrightarrow> fst (remove_each is V) = is"
proof (induction "is" arbitrary: V)
  case (Cons i "is")
  then obtain v where v: "bm_get (vs_validators V) i = Some v" by auto
  then obtain V' where V': "remove_validator i V = (Ok v, V')"
    and g: "bm_get (vs_validators V') = (bm_get (vs_validators V))(i := None)"
    by (auto simp: remove_validator_def bm_get_remove)
  have "fst (remove_each is V') = is"
    using Cons g by (intro Cons.IH) auto
  then show ?case using V' by (auto split: prod.splits)
qed simp

text \<open>
  At the end of the grace period \<open>process_bootstrap_transitions\<close> removes exactly the bootstrap
  validators that have not staked the minimum, and reports exactly those; every validator that
  remains after the grace period has at least the minimum stake, unless its stake was lowered by
  unbonding or a slash.
\<close>

theorem bootstrap_transition_complete:
  assumes "vset_reach L V" and "process_bootstrap_transitions n V = (removed, V')"
  shows "(\<forall>i. bm_get (vs_validators V') i =
             (case bm_get (vs_validators V) i of
                None \<Rightarrow> None | Some v \<Rightarrow> if exceeded_grace_period v n then None else Some v))
       \<and> set removed = {i. \<exists>v. bm_get (vs_validators V) i = Some v \<and> exceeded_grace_period v n}
       \<and> (BOOTSTRAP_ERA_BLOCKS + BOOTSTRAP_GRACE_PERIOD \<le> n \<longrightarrow>
            (\<forall>i v. bm_get (vs_validators V') i = Some v \<longrightarrow> i \<notin> L \<longrightarrow> MIN_VALIDATOR_STAKE \<le> vi_stake v))"
proof -
  let ?is = "map fst (filter (\<lambda>(_, v). exceeded_grace_period v n) (vs_validators V))"
  have inv: "bm_inv (vs_validators V)" using vset_invD(1) [OF vset_reach_inv [OF assms(1)]] .
  have mem: "i \<in> set ?is \<longleftrightarrow> (\<exists>v. bm_get (vs_validators V) i = Some v \<and> exceeded_grace_period v n)" for i
    using bm_filter_keys [OF inv, of i "\<lambda>(_, v). exceeded_grace_period v n"] by simp
  have "distinct ?is" using bm_inv_distinct [OF inv] by (rule distinct_map_filter)
  moreover have "set ?is \<subseteq> dom (bm_get (vs_validators V))" using mem by blast
  ultimately have removed: "removed = ?is"
    using remove_each_list assms(2) unfolding process_bootstrap_transitions_def by (metis fst_conv)
  have get: "bm_get (vs_validators V') i = (if i \<in> set ?is then None else bm_get (vs_validators V) i)" for i
    using remove_each_spec [of ?is V i] assms(2) by (simp add: process_bootstrap_transitions_def)
  have ok: "validator_ok L i v" if "bm_get (vs_validators V) i = Some v" for i v
    using vset_invD(2) [OF vset_reach_inv [OF assms(1)] that] .
  have "MIN_VALIDATOR_STAKE \<le> vi_stake v"
    if "BOOTSTRAP_ERA_BLOCKS + BOOTSTRAP_GRACE_PERIOD \<le> n" "bm_get (vs_validators V') i = Some v" "i \<notin> L" for i v
    using that get [of i] mem [of i] ok [of i v]
    by (auto simp: validator_ok_def exceeded_grace_period_def not_less split: if_splits)
  moreover have "\<forall>i. bm_get (vs_validators V') i = (case bm_get (vs_validators V) i of
      None \<Rightarrow> None | Some v \<Rightarrow> if exceeded_grace_period v n then None else Some v)"
    using get mem by (auto split: option.splits)
  moreover have "set removed = {i. \<exists>v. bm_get (vs_validators V) i = Some v \<and> exceeded_grace_period v n}"
    unfolding removed using mem by blast
  ultimately show ?thesis by blast
qed

theorem bootstrap_transition_complete_witness:
  "fst (process_bootstrap_transitions 964800 demo_set) = [1, 2]
   \<and> bm_get (vs_validators (snd (process_bootstrap_transitions 964800 demo_set))) 1 = None"
proof -
  have v: "vs_validators demo_set = [(1, validator_new_bootstrap 1 0), (2, validator_new_bootstrap 2 0)]"
    by (simp add: demo_set_def vset_eval)
  have "fst (process_bootstrap_transitions 964800 demo_set) = [1, 2]"
    by (simp add: process_bootstrap_transitions_def v exceeded_grace_period_def validator_new_bootstrap_def
        const_defs remove_validator_def bm_remove_def)
  then show ?thesis
    using bootstrap_transition_complete [OF demo_set_reach prod.collapse [symmetric], of 964800]
    by (auto simp: v validator_new_bootstrap_def exceeded_grace_period_def const_defs)
qed

end
