(* ===== verification/Kratos_F64.thy ===== *)
theory Kratos_F64
  imports Kratos_Types "HOL-Library.Log_Nat"
begin

text \<open>
  The part of \<open>f64\<close> the fee and emission code uses: finite values of the normal range as
  rationals, every operation followed by rounding to 53 significant bits, ties to even.
  The amounts and shares that occur lie between \<open>2 ^ (- 60)\<close> and \<open>2 ^ 130\<close> (or are zero), so
  neither overflow nor NaN arises; a decay factor too small to be a normal number is absorbed
  by the addition that follows it.  The casts \<^verbatim>\<open>as f64\<close> and \<^verbatim>\<open>as Balance\<close>
  round to nearest and truncate towards zero with saturation.
\<close>

type_synonym f64 = rat

definition pow2 :: "int \<Rightarrow> rat" where
  "pow2 k = (if 0 \<le> k then 2 ^ nat k else 1 / 2 ^ nat (- k))"

definition expo :: "rat \<Rightarrow> int" where
  "expo x = (let (p, q) = quotient_of x; k = bitlen p - bitlen q in if pow2 k \<le> x then k else k - 1)"

definition round_even :: "rat \<Rightarrow> int" where
  "round_even y =
     (let f = \<lfloor>y\<rfloor>; d = y - of_int f
      in if d < 1 / 2 then f else if 1 / 2 < d then f + 1 else if even f then f else f + 1)"

definition rnd :: "rat \<Rightarrow> f64" where
  "rnd x =
     (if x = 0 then 0
      else let u = pow2 (expo \<bar>x\<bar> - 52); r = of_int (round_even (\<bar>x\<bar> / u)) * u
           in if 0 < x then r else - r)"

definition fmul :: "f64 \<Rightarrow> f64 \<Rightarrow> f64" where "fmul a b = rnd (a * b)"
definition fdiv :: "f64 \<Rightarrow> f64 \<Rightarrow> f64" where "fdiv a b = rnd (a / b)"
definition fadd :: "f64 \<Rightarrow> f64 \<Rightarrow> f64" where "fadd a b = rnd (a + b)"
definition fsub :: "f64 \<Rightarrow> f64 \<Rightarrow> f64" where "fsub a b = rnd (a - b)"

definition f64_of_word :: "'a::len word \<Rightarrow> f64" where
  "f64_of_word w = rnd (of_nat (unat w))"

definition f64_to_word :: "f64 \<Rightarrow> 'a::len word" where
  "f64_to_word x =
     (if x < 0 then 0 else if 2 ^ LENGTH('a) \<le> \<lfloor>x\<rfloor> then - 1 else of_int \<lfloor>x\<rfloor>)"

section \<open>The rounding error\<close>

lemma pow2_powi: "pow2 k = 2 powi k"
  unfolding pow2_def power_int_def by (simp add: power_one_over inverse_eq_divide)

lemma pow2_pos [simp]: "0 < pow2 k"
  by (simp add: pow2_def)

lemma pow2_step: "pow2 (k - int n) = pow2 k / 2 ^ n"
  by (simp add: pow2_powi power_int_diff)

lemma round_even_error: "\<bar>of_int (round_even y) - y\<bar> \<le> 1 / 2"
proof -
  have "of_int \<lfloor>y\<rfloor> \<le> y" "y < of_int \<lfloor>y\<rfloor> + 1" by linarith+
  then show ?thesis unfolding round_even_def Let_def by (auto simp: abs_le_iff)
qed

lemma expo_le:
  assumes "0 < x"
  shows "pow2 (expo x) \<le> x"
proof -
  obtain p q where pq: "quotient_of x = (p, q)" by (cases "quotient_of x")
  have q: "0 < q" and x: "x = of_int p / of_int q"
    using quotient_of_denom_pos [OF pq] quotient_of_div [OF pq] by simp_all
  then have p: "0 < p" using assms by (simp add: zero_less_divide_iff)
  have "(2::int) ^ nat (bitlen p - 1) \<le> p" "q < 2 ^ nat (bitlen q)"
    using bitlen_bounds [OF p] bitlen_bounds [OF q] by simp_all
  then have "(of_int (2 ^ nat (bitlen p - 1)) :: rat) \<le> of_int p"
    "(of_int q :: rat) \<le> of_int (2 ^ nat (bitlen q))" by (simp_all only: of_int_le_iff less_imp_le)
  moreover have "0 < bitlen p" "0 < bitlen q"
    using p q by (simp_all add: bitlen_eq_zero_iff bitlen_nonneg order_le_neq_trans)
  ultimately have "pow2 (bitlen p - 1) \<le> of_int p" "of_int q \<le> pow2 (bitlen q)"
    by (simp_all add: pow2_def)
  then have "pow2 (bitlen p - 1) / pow2 (bitlen q) \<le> x"
    unfolding x using p q by (intro frac_le) simp_all
  moreover have "pow2 (bitlen p - bitlen q - 1) = pow2 (bitlen p - 1) / pow2 (bitlen q)"
    by (simp add: pow2_powi flip: power_int_diff) (simp add: algebra_simps)
  ultimately show ?thesis
    by (simp add: expo_def pq Let_def)
qed

lemma rnd_error_pos:
  assumes "0 < x"
  shows "\<bar>rnd x - x\<bar> \<le> x / 2 ^ 53"
proof -
  define u where "u = pow2 (expo x - 52)"
  have u: "0 < u" "u = pow2 (expo x) / 2 ^ 52"
    using pow2_step [of "expo x" 52] by (simp_all add: u_def)
  have "rnd x - x = (of_int (round_even (x / u)) - x / u) * u"
    using assms u(1) by (simp add: rnd_def Let_def left_diff_distrib flip: u_def)
  then have "\<bar>rnd x - x\<bar> = \<bar>of_int (round_even (x / u)) - x / u\<bar> * u"
    using u(1) by (simp add: abs_mult)
  also have "\<dots> \<le> 1 / 2 * u"
    using round_even_error u(1) by (intro mult_right_mono) simp_all
  also have "\<dots> \<le> x / 2 ^ 53"
    using u expo_le [OF assms] by simp
  finally show ?thesis .
qed

lemma rnd_zero [simp]: "rnd 0 = 0"
  by (simp add: rnd_def)

lemma rnd_bounds:
  assumes "0 \<le> x"
  shows "x * (1 - 1 / 2 ^ 53) \<le> rnd x" and "rnd x \<le> x * (1 + 1 / 2 ^ 53)"
proof -
  have "\<bar>rnd x - x\<bar> \<le> x / 2 ^ 53"
    using assms rnd_error_pos [of x] by (cases "x = 0") auto
  then have "rnd x - x \<le> x * (1 / 2 ^ 53)" "x - rnd x \<le> x * (1 / 2 ^ 53)"
    by (simp_all only: abs_le_iff minus_diff_eq times_divide_eq_right mult_1_right)
  then show "x * (1 - 1 / 2 ^ 53) \<le> rnd x" "rnd x \<le> x * (1 + 1 / 2 ^ 53)"
    unfolding right_diff_distrib distrib_left mult_1_right by linarith+
qed

lemma rnd_nonneg: "0 \<le> x \<Longrightarrow> 0 \<le> rnd x"
  by (rule order.trans [OF _ rnd_bounds(1)]) simp_all

text \<open>The product of an integer read as \<open>f64\<close> with a share, cast back.\<close>

lemma f64_to_word_le: "0 \<le> x \<Longrightarrow> of_nat (unat (f64_to_word x :: 'a::len word)) \<le> x"
proof -
  assume x: "0 \<le> x"
  show ?thesis
  proof (cases "2 ^ LENGTH('a) \<le> \<lfloor>x\<rfloor>")
    case True
    then have "of_int (2 ^ LENGTH('a)) \<le> x" by linarith
    then have "(of_nat (2 ^ LENGTH('a) - 1) :: rat) \<le> x" by (simp add: of_nat_diff)
    moreover have "(f64_to_word x :: 'a word) = - 1" using True x by (simp add: f64_to_word_def)
    ultimately show ?thesis by (simp only: unat_minus_one_max)
  next
    case False
    then have "unat (of_int \<lfloor>x\<rfloor> :: 'a word) = nat \<lfloor>x\<rfloor>"
      using x by (simp add: unsigned_of_int take_bit_int_eq_self)
    with False x show ?thesis by (simp add: f64_to_word_def)
  qed
qed

definition share_of :: "balance \<Rightarrow> f64 \<Rightarrow> balance" where
  "share_of amount s = f64_to_word (fmul (f64_of_word amount) s)"

lemma share_of_upper:
  assumes "0 \<le> s"
  shows "of_nat (unat (share_of amount s)) \<le> of_nat (unat amount) * s * (1 + 1 / 2 ^ 53) ^ 2"
proof -
  let ?t = "of_nat (unat amount) :: rat"
  have t: "0 \<le> rnd ?t" "rnd ?t \<le> ?t * (1 + 1 / 2 ^ 53)"
    by (rule rnd_nonneg [OF of_nat_0_le_iff], rule rnd_bounds(2) [OF of_nat_0_le_iff])
  then have p: "0 \<le> rnd ?t * s" using assms by simp
  have "of_nat (unat (share_of amount s)) \<le> rnd (rnd ?t * s)"
    unfolding share_of_def fmul_def f64_of_word_def by (rule f64_to_word_le [OF rnd_nonneg [OF p]])
  also have "\<dots> \<le> rnd ?t * s * (1 + 1 / 2 ^ 53)" by (rule rnd_bounds(2) [OF p])
  also have "\<dots> \<le> (?t * (1 + 1 / 2 ^ 53)) * s * (1 + 1 / 2 ^ 53)"
    using t assms by (intro mult_right_mono) simp_all
  finally show ?thesis unfolding power2_eq_square by (simp only: mult.assoc mult.commute mult.left_commute)
qed

end
