(* ===== verification/Kratos_Tokenomics.thy ===== *)
theory Kratos_Tokenomics
  imports Kratos_F64
begin

text \<open>
  The supply of the native token, \<^verbatim>\<open>contracts/krat.rs\<close> (emission, mint, burn, distribution of
  an emission), the split of transaction fees, \<open>FeeDistribution\<close> of
  \<^verbatim>\<open>consensus/economics.rs\<close>, the bootstrap configuration of the same file, and the epoch
  arithmetic of \<^verbatim>\<open>consensus/epoch.rs\<close>.  The exponential and logarithm of \<open>f64\<close> are platform
  functions of unspecified precision: they are the parameter record \<open>libm\<close>.
\<close>

section \<open>Epochs\<close>

definition EPOCH_DURATION_BLOCKS :: block_number where [const_defs]: "EPOCH_DURATION_BLOCKS = 600"
definition SLOT_DURATION_SECS :: u64 where [const_defs]: "SLOT_DURATION_SECS = 6"

record epoch_config =
  ep_number :: epoch_number
  ep_start_block :: block_number
  ep_end_block :: block_number
  ep_total_slots :: slot_number

definition epoch_new :: "epoch_number \<Rightarrow> epoch_config" where
  "epoch_new n =
     (let start_block = n * EPOCH_DURATION_BLOCKS
      in \<lparr>ep_number = n, ep_start_block = start_block,
          ep_end_block = start_block + EPOCH_DURATION_BLOCKS,
          ep_total_slots = EPOCH_DURATION_BLOCKS\<rparr>)"

definition from_block_number :: "block_number \<Rightarrow> epoch_number" where
  "from_block_number block = block div EPOCH_DURATION_BLOCKS"

definition slot_from_block :: "block_number \<Rightarrow> slot_number" where
  "slot_from_block block = block mod EPOCH_DURATION_BLOCKS"

definition contains_block :: "epoch_config \<Rightarrow> block_number \<Rightarrow> bool" where
  "contains_block c block = (ep_start_block c \<le> block \<and> block < ep_end_block c)"

definition next_epoch :: "epoch_config \<Rightarrow> epoch_config" where
  "next_epoch c = epoch_new (ep_number c + 1)"

section \<open>Token supply\<close>

record libm =
  lm_ln :: "f64 \<Rightarrow> f64"
  lm_exp :: "f64 \<Rightarrow> f64"
  lm_sqrt :: "f64 \<Rightarrow> f64"

definition INITIAL_EMISSION_RATE_BPS :: u32 where [const_defs]: "INITIAL_EMISSION_RATE_BPS = 500"
definition MIN_EMISSION_RATE_BPS :: u32 where [const_defs]: "MIN_EMISSION_RATE_BPS = 50"
definition INITIAL_BURN_RATE_BPS :: u32 where [const_defs]: "INITIAL_BURN_RATE_BPS = 100"
definition MAX_BURN_RATE_BPS :: u32 where [const_defs]: "MAX_BURN_RATE_BPS = 350"
definition EMISSION_PERIOD_BLOCKS :: block_number where [const_defs]: "EMISSION_PERIOD_BLOCKS = 432000"
definition EMISSION_HALF_LIFE_YEARS :: f64 where "EMISSION_HALF_LIFE_YEARS = 5"

record tokenomics_state =
  tk_total_supply :: balance
  tk_total_minted :: balance
  tk_total_burned :: balance
  tk_current_period :: u64
  tk_last_emission_block :: block_number

definition tokenomics_genesis :: tokenomics_state where
  "tokenomics_genesis =
     \<lparr>tk_total_supply = INITIAL_SUPPLY, tk_total_minted = 0, tk_total_burned = 0,
      tk_current_period = 0, tk_last_emission_block = 0\<rparr>"

definition years_elapsed :: "tokenomics_state \<Rightarrow> f64" where
  "years_elapsed s = fdiv (f64_of_word (tk_current_period s)) (fdiv (rnd (36525 / 100)) 30)"

definition current_emission_rate :: "libm \<Rightarrow> tokenomics_state \<Rightarrow> u32" where
  "current_emission_rate L s =
     (let years = years_elapsed s;
          decay_constant = fdiv (lm_ln L 2) EMISSION_HALF_LIFE_YEARS;
          decay_factor = lm_exp L (fmul (- decay_constant) years);
          rate = fadd (f64_of_word MIN_EMISSION_RATE_BPS)
                   (fmul (f64_of_word (INITIAL_EMISSION_RATE_BPS - MIN_EMISSION_RATE_BPS)) decay_factor)
      in f64_to_word (min (max rate (f64_of_word MIN_EMISSION_RATE_BPS)) (f64_of_word INITIAL_EMISSION_RATE_BPS)))"

definition current_burn_rate :: "libm \<Rightarrow> tokenomics_state \<Rightarrow> u32" where
  "current_burn_rate L s =
     (let years = years_elapsed s;
          growth_speed = rnd (1 / 4);
          growth_factor = lm_exp L (fmul (- growth_speed) years);
          rate = fsub (f64_of_word MAX_BURN_RATE_BPS)
                   (fmul (f64_of_word (MAX_BURN_RATE_BPS - INITIAL_BURN_RATE_BPS)) growth_factor)
      in f64_to_word (min (max rate (f64_of_word INITIAL_BURN_RATE_BPS)) (f64_of_word MAX_BURN_RATE_BPS)))"

definition should_emit :: "tokenomics_state \<Rightarrow> block_number \<Rightarrow> bool" where
  "should_emit s current_block = (tk_last_emission_block s + EMISSION_PERIOD_BLOCKS \<le> current_block)"

definition calculate_emission :: "libm \<Rightarrow> tokenomics_state \<Rightarrow> balance" where
  "calculate_emission L s =
     (let rate_bps = max (min (current_emission_rate L s) INITIAL_EMISSION_RATE_BPS) MIN_EMISSION_RATE_BPS;
          numerator = sat_mul (sat_mul (tk_total_supply s) (ucast rate_bps)) 30;
          denominator = 10000 * 365
      in if denominator = 0 then 0 else numerator div denominator)"

definition mint :: "balance \<Rightarrow> block_number \<Rightarrow> tokenomics_state \<Rightarrow> tokenomics_state" where
  "mint amount block s =
     s\<lparr>tk_total_supply := sat_add (tk_total_supply s) amount,
       tk_total_minted := sat_add (tk_total_minted s) amount,
       tk_last_emission_block := block,
       tk_current_period := tk_current_period s + 1\<rparr>"

definition burn :: "balance \<Rightarrow> tokenomics_state \<Rightarrow> tokenomics_state" where
  "burn amount s =
     s\<lparr>tk_total_supply := sat_sub (tk_total_supply s) amount,
       tk_total_burned := sat_add (tk_total_burned s) amount\<rparr>"

record emission_distribution =
  ed_to_validators :: balance
  ed_to_treasury :: balance
  ed_to_reserve :: balance

definition distribute_emission :: "balance \<Rightarrow> emission_distribution" where
  "distribute_emission minted =
     (let to_validators = sat_mul minted 70 div 100;
          to_treasury = sat_mul minted 20 div 100
      in \<lparr>ed_to_validators = to_validators, ed_to_treasury = to_treasury,
          ed_to_reserve = sat_sub (sat_sub minted to_validators) to_treasury\<rparr>)"

section \<open>Fees\<close>

record fee_distribution =
  fd_producer_share :: f64
  fd_finality_voters_share :: f64
  fd_burn_share :: f64
  fd_treasury_share :: f64

datatype fee_distribution_error = InvalidSum f64 | NegativeShare f64 f64 f64 f64

record fee_distribution_result =
  fr_producer :: balance
  fr_finality_voters :: balance
  fr_burn :: balance
  fr_treasury :: balance

definition default_distribution :: fee_distribution where
  "default_distribution =
     \<lparr>fd_producer_share = rnd (50 / 100), fd_finality_voters_share = rnd (10 / 100),
      fd_burn_share = rnd (30 / 100), fd_treasury_share = rnd (10 / 100)\<rparr>"

definition fee_distribution_new ::
  "f64 \<Rightarrow> f64 \<Rightarrow> f64 \<Rightarrow> f64 \<Rightarrow> (fee_distribution_error, fee_distribution) result" where
  "fee_distribution_new p f b t =
     (if p < 0 \<or> f < 0 \<or> b < 0 \<or> t < 0 then Err (NegativeShare p f b t)
      else let sm = fadd (fadd (fadd p f) b) t
           in if rnd (1 / 1000) \<le> \<bar>fsub sm 1\<bar> then Err (InvalidSum sm)
              else Ok \<lparr>fd_producer_share = p, fd_finality_voters_share = f, fd_burn_share = b,
                       fd_treasury_share = t\<rparr>)"

definition fee_validate :: "fee_distribution \<Rightarrow> bool" where
  "fee_validate d =
     (let sm = fadd (fadd (fadd (fd_producer_share d) (fd_finality_voters_share d)) (fd_burn_share d))
                 (fd_treasury_share d)
      in \<bar>fsub sm 1\<bar> < rnd (1 / 1000) \<and> 0 \<le> fd_producer_share d \<and> 0 \<le> fd_finality_voters_share d
         \<and> 0 \<le> fd_burn_share d \<and> 0 \<le> fd_treasury_share d)"

definition fee_distribute :: "fee_distribution \<Rightarrow> balance \<Rightarrow> fee_distribution_result" where
  "fee_distribute d total_fee =
     (let producer = share_of total_fee (fd_producer_share d);
          finality_voters = share_of total_fee (fd_finality_voters_share d);
          brn = share_of total_fee (fd_burn_share d)
      in \<lparr>fr_producer = producer, fr_finality_voters = finality_voters, fr_burn = brn,
          fr_treasury = sat_sub (sat_sub (sat_sub total_fee producer) finality_voters) brn\<rparr>)"

definition per_voter_share :: "fee_distribution_result \<Rightarrow> nat \<Rightarrow> balance" where
  "per_voter_share r num_voters = (if num_voters = 0 then 0 else fr_finality_voters r div of_nat num_voters)"

definition voter_remainder :: "fee_distribution_result \<Rightarrow> nat \<Rightarrow> balance" where
  "voter_remainder r num_voters =
     (if num_voters = 0 then fr_finality_voters r else fr_finality_voters r mod of_nat num_voters)"

section \<open>Bootstrap era\<close>

record bootstrap_config =
  bc_genesis_epoch :: epoch_number
  bc_end_epoch :: epoch_number
  bc_min_validators_exit :: u32
  bc_min_stake_total_exit :: balance
  bc_min_stake_bootstrap :: balance
  bc_min_stake_post_bootstrap :: balance
  bc_vc_vote_multiplier :: u32
  bc_vc_uptime_multiplier :: u32
  bc_vc_arbitration_multiplier :: u32
  bc_target_inflation :: f64

datatype bootstrap_status = BS_Active epoch_number u32 | BS_Extended epoch_number u32 | BS_Completed

definition mainnet_config :: bootstrap_config where
  "mainnet_config =
     \<lparr>bc_genesis_epoch = 0, bc_end_epoch = 1440, bc_min_validators_exit = 50,
      bc_min_stake_total_exit = 25000000 * KRAT, bc_min_stake_bootstrap = 50000 * KRAT,
      bc_min_stake_post_bootstrap = 25000 * KRAT, bc_vc_vote_multiplier = 2,
      bc_vc_uptime_multiplier = 2, bc_vc_arbitration_multiplier = 1,
      bc_target_inflation = rnd (65 / 1000)\<rparr>"

definition is_bootstrap :: "bootstrap_config \<Rightarrow> epoch_number \<Rightarrow> bool" where
  "is_bootstrap c e = (e < bc_end_epoch c)"

definition should_exit_bootstrap :: "bootstrap_config \<Rightarrow> epoch_number \<Rightarrow> u32 \<Rightarrow> balance \<Rightarrow> bool" where
  "should_exit_bootstrap c e active_validators total_stake =
     (if active_validators < bc_min_validators_exit c then False
      else bc_end_epoch c \<le> e \<or> bc_min_validators_exit c \<le> active_validators
           \<or> bc_min_stake_total_exit c \<le> total_stake)"

definition is_bootstrap_with_state :: "bootstrap_config \<Rightarrow> epoch_number \<Rightarrow> u32 \<Rightarrow> balance \<Rightarrow> bool" where
  "is_bootstrap_with_state c e v st = (\<not> should_exit_bootstrap c e v st)"

definition is_extended_bootstrap :: "bootstrap_config \<Rightarrow> epoch_number \<Rightarrow> u32 \<Rightarrow> bool" where
  "is_extended_bootstrap c e v = (bc_end_epoch c \<le> e \<and> v < bc_min_validators_exit c)"

definition get_bootstrap_status :: "bootstrap_config \<Rightarrow> epoch_number \<Rightarrow> u32 \<Rightarrow> balance \<Rightarrow> bootstrap_status" where
  "get_bootstrap_status c e v st =
     (if should_exit_bootstrap c e v st then BS_Completed
      else if is_extended_bootstrap c e v
      then BS_Extended (sat_sub e (bc_end_epoch c)) (sat_sub (bc_min_validators_exit c) v)
      else BS_Active (sat_sub (bc_end_epoch c) e) (sat_sub (bc_min_validators_exit c) v))"

definition get_min_stake :: "bootstrap_config \<Rightarrow> epoch_number \<Rightarrow> balance" where
  "get_min_stake c e = (if is_bootstrap c e then bc_min_stake_bootstrap c else bc_min_stake_post_bootstrap c)"

definition get_vote_multiplier :: "bootstrap_config \<Rightarrow> epoch_number \<Rightarrow> u32" where
  "get_vote_multiplier c e = (if is_bootstrap c e then bc_vc_vote_multiplier c else 1)"

definition get_uptime_multiplier :: "bootstrap_config \<Rightarrow> epoch_number \<Rightarrow> u32" where
  "get_uptime_multiplier c e = (if is_bootstrap c e then bc_vc_uptime_multiplier c else 1)"

definition get_arbitration_multiplier :: "bootstrap_config \<Rightarrow> epoch_number \<Rightarrow> u32" where
  "get_arbitration_multiplier c e = (if is_bootstrap c e then bc_vc_arbitration_multiplier c else 1)"

section \<open>Properties of the supply\<close>

lemma emission_parts:
  "unat (ed_to_validators (distribute_emission m)) = min (unat m * 70) (2 ^ 128 - 1) div 100"
  "unat (ed_to_treasury (distribute_emission m)) = min (unat m * 20) (2 ^ 128 - 1) div 100"
  "unat (ed_to_reserve (distribute_emission m)) =
     unat m - unat (ed_to_validators (distribute_emission m)) - unat (ed_to_treasury (distribute_emission m))"
  by (simp_all add: distribute_emission_def Let_def unat_div_distrib unat_sat_mul unat_sat_sub)

text \<open>
  The three parts of an emission add up to the amount minted, for every \<open>u128\<close> amount (also
  where the multiplications saturate); and where \<open>minted * 70\<close> fits into \<open>u128\<close> the validators
  get exactly 70 percent and the treasury 20 percent, rounded down.
\<close>

theorem distribute_emission_exact:
  fixes m :: balance
  defines "d \<equiv> distribute_emission m"
  shows "unat (ed_to_validators d) + unat (ed_to_treasury d) + unat (ed_to_reserve d) = unat m
       \<and> (unat m * 70 < 2 ^ 128 \<longrightarrow>
            unat (ed_to_validators d) = unat m * 70 div 100 \<and> unat (ed_to_treasury d) = unat m * 20 div 100)"
proof -
  have "min (unat m * 70) (2 ^ 128 - 1) div 100 + min (unat m * 20) (2 ^ 128 - 1) div 100 \<le> unat m"
    by simp
  then show ?thesis unfolding d_def emission_parts by auto
qed

theorem distribute_emission_exact_witness:
  "unat (ed_to_validators (distribute_emission 1001)) = 700 \<and>
   unat (ed_to_treasury (distribute_emission 1001)) = 200 \<and>
   unat (ed_to_reserve (distribute_emission 1001)) = 101"
  using distribute_emission_exact [of 1001] by simp

text \<open>
  Whatever the floating point functions return, one emission period mints between 0.5 and 5
  percent a year of the supply, prorated to 30 of 365 days, as long as the product with the
  rate fits into \<open>u128\<close>.
\<close>

theorem calculate_emission_bounds:
  assumes "unat (tk_total_supply s) * 15000 < 2 ^ 128"
  shows "unat (tk_total_supply s) * 1500 div 3650000 \<le> unat (calculate_emission L s)
       \<and> unat (calculate_emission L s) \<le> unat (tk_total_supply s) * 15000 div 3650000"
proof -
  define r where "r = unat (max (min (current_emission_rate L s) INITIAL_EMISSION_RATE_BPS) MIN_EMISSION_RATE_BPS)"
  have r: "50 \<le> r" "r \<le> 500"
    by (simp_all add: r_def unat_max unat_min const_defs)
  have le: "unat (tk_total_supply s) * r * 30 \<le> unat (tk_total_supply s) * 15000"
    and ge: "unat (tk_total_supply s) * 1500 \<le> unat (tk_total_supply s) * r * 30"
    using r by simp_all
  have x: "min (min x (2 ^ 128 - 1) * 30) (2 ^ 128 - 1) = x * 30" if "x * 30 < 2 ^ 128" for x :: nat
    using that by simp
  have "unat (calculate_emission L s)
      = min (min (unat (tk_total_supply s) * r) (2 ^ 128 - 1) * 30) (2 ^ 128 - 1) div 3650000"
    by (simp add: calculate_emission_def Let_def unat_div_distrib unat_sat_mul flip: r_def)
  also have "\<dots> = unat (tk_total_supply s) * r * 30 div 3650000"
    using le assms by (subst x) linarith+
  finally have "unat (calculate_emission L s) = unat (tk_total_supply s) * r * 30 div 3650000" .
  then show ?thesis using div_le_mono [OF le] div_le_mono [OF ge] by (simp only:)
qed

theorem calculate_emission_bounds_witness:
  "unat (tk_total_supply tokenomics_genesis) * 1500 div 3650000
     \<le> unat (calculate_emission \<lparr>lm_ln = id, lm_exp = id, lm_sqrt = id\<rparr> tokenomics_genesis)
   \<and> unat (calculate_emission \<lparr>lm_ln = id, lm_exp = id, lm_sqrt = id\<rparr> tokenomics_genesis)
     \<le> unat (tk_total_supply tokenomics_genesis) * 15000 div 3650000"
  by (rule calculate_emission_bounds) (simp add: tokenomics_genesis_def const_defs)

text \<open>
  The states the supply can reach from genesis by mints that do not overflow and by burns of
  at most the current supply.
\<close>

inductive supply_reach :: "tokenomics_state \<Rightarrow> bool" where
  genesis: "supply_reach tokenomics_genesis"
| mint: "supply_reach s \<Longrightarrow> unat (tk_total_supply s) + unat a + unat (tk_total_burned s) < 2 ^ 128 \<Longrightarrow>
           supply_reach (mint a b s)"
| burn: "supply_reach s \<Longrightarrow> a \<le> tk_total_supply s \<Longrightarrow> supply_reach (burn a s)"

text \<open>
  In every reachable state the books balance: the supply plus everything burned is the
  genesis supply plus everything minted.
\<close>

theorem supply_balance:
  assumes "supply_reach s"
  shows "unat (tk_total_supply s) + unat (tk_total_burned s) = unat INITIAL_SUPPLY + unat (tk_total_minted s)
       \<and> unat (tk_total_supply s) + unat (tk_total_burned s) < 2 ^ 128"
  using assms
proof induction
  case genesis
  show ?case by (simp add: tokenomics_genesis_def const_defs)
next
  case (mint s a b)
  then show ?case by (simp add: mint_def unat_sat_add)
next
  case (burn s a)
  then show ?case by (simp add: burn_def word_nat)
qed

theorem supply_balance_witness:
  "unat (tk_total_supply (burn 30 (mint 100 432000 tokenomics_genesis))) + 30 = unat INITIAL_SUPPLY + 100"
proof -
  have "supply_reach (burn 30 (mint 100 432000 tokenomics_genesis))"
    by (intro supply_reach.intros) (simp_all add: tokenomics_genesis_def mint_def sat_add_def const_defs)
  from supply_balance [OF this] show ?thesis
    by (simp add: burn_def mint_def sat_add_def tokenomics_genesis_def const_defs)
qed

section \<open>Properties of the fee split\<close>

lemma default_shares:
  "0 \<le> fd_producer_share default_distribution" "0 \<le> fd_finality_voters_share default_distribution"
  "0 \<le> fd_burn_share default_distribution"
  "fd_producer_share default_distribution + fd_finality_voters_share default_distribution
     + fd_burn_share default_distribution \<le> 9 / 10 * (1 + 1 / 2 ^ 53)"
proof -
  have "rnd (50 / 100) \<le> 50 / 100 * (1 + 1 / 2 ^ 53)" "rnd (10 / 100) \<le> 10 / 100 * (1 + 1 / 2 ^ 53)"
    "rnd (30 / 100) \<le> 30 / 100 * (1 + 1 / 2 ^ 53)"
    by (rule rnd_bounds(2); simp)+
  then show "fd_producer_share default_distribution + fd_finality_voters_share default_distribution
     + fd_burn_share default_distribution \<le> 9 / 10 * (1 + 1 / 2 ^ 53)"
    by (simp add: default_distribution_def)
qed (simp_all add: default_distribution_def rnd_nonneg)

text \<open>
  With the default 50/10/30/10 split, producer, finality voters, burn and treasury together
  get exactly the fee that was paid, for every \<open>u128\<close> fee and in spite of \<open>f64\<close> rounding; and
  what the finality voters get is the per-voter share times their number plus the remainder.
\<close>

theorem fee_distribute_conserves:
  fixes total_fee :: balance and n :: nat
  defines "r \<equiv> fee_distribute default_distribution total_fee"
  shows "unat (fr_producer r) + unat (fr_finality_voters r) + unat (fr_burn r) + unat (fr_treasury r)
           = unat total_fee
       \<and> (n < 2 ^ 64 \<longrightarrow>
            unat (per_voter_share r n) * n + unat (voter_remainder r n) = unat (fr_finality_voters r))"
proof -
  let ?d = default_distribution
  let ?t = "of_nat (unat total_fee) :: rat"
  let ?e = "(1 + 1 / 2 ^ 53) :: rat"
  let ?sum = "unat (fr_producer r) + unat (fr_finality_voters r) + unat (fr_burn r)"
  have "of_nat ?sum \<le> ?t * fd_producer_share ?d * ?e ^ 2 + ?t * fd_finality_voters_share ?d * ?e ^ 2
       + ?t * fd_burn_share ?d * ?e ^ 2"
    unfolding r_def fee_distribute_def Let_def fee_distribution_result.simps of_nat_add
    by (intro add_mono share_of_upper default_shares)
  also have "\<dots> = ?t * ((fd_producer_share ?d + fd_finality_voters_share ?d + fd_burn_share ?d) * ?e ^ 2)"
    by (simp only: distrib_left distrib_right mult.assoc)
  also have "\<dots> \<le> ?t * (9 / 10 * ?e * ?e ^ 2)"
    by (intro mult_left_mono mult_right_mono default_shares of_nat_0_le_iff) simp_all
  also have "\<dots> \<le> ?t * 1"
    by (intro mult_left_mono of_nat_0_le_iff) (simp_all add: power2_eq_square)
  finally have "?sum \<le> unat total_fee" by (simp only: mult_1_right of_nat_le_iff)
  then have "?sum + unat (fr_treasury r) = unat total_fee"
    by (simp add: r_def fee_distribute_def Let_def unat_sat_sub)
  moreover have "unat (per_voter_share r n) * n + unat (voter_remainder r n) = unat (fr_finality_voters r)"
    if "n < 2 ^ 64"
  proof -
    have "unat (of_nat n :: u128) = n"
      using that by (simp add: unsigned_of_nat take_bit_nat_eq_self)
    then show ?thesis
      by (simp add: per_voter_share_def voter_remainder_def unat_div_distrib unat_mod_distrib)
  qed
  ultimately show ?thesis by blast
qed

theorem fee_distribute_conserves_witness:
  "unat (per_voter_share (fee_distribute default_distribution 1000) 3) * 3
     + unat (voter_remainder (fee_distribute default_distribution 1000) 3)
   = unat (fr_finality_voters (fee_distribute default_distribution 1000))"
  using fee_distribute_conserves [of 1000 3] by simp

section \<open>Properties of epochs\<close>

text \<open>
  Every block belongs to the epoch \<open>from_block_number\<close> computes, at slot
  \<open>block - start_block\<close>, provided the end of that epoch is still a \<open>u64\<close>.
\<close>

theorem block_in_its_epoch:
  assumes "unat b + 600 < 2 ^ 64"
  shows "contains_block (epoch_new (from_block_number b)) b
       \<and> unat (ep_start_block (epoch_new (from_block_number b))) + unat (slot_from_block b) = unat b
       \<and> slot_from_block b < ep_total_slots (epoch_new (from_block_number b))"
proof -
  have q: "unat (from_block_number b) = unat b div 600" "unat (slot_from_block b) = unat b mod 600"
    by (simp_all add: from_block_number_def slot_from_block_def const_defs unat_div_distrib unat_mod_distrib)
  have "unat b div 600 * 600 + unat b mod 600 = unat b" by simp
  then have s: "unat (from_block_number b * 600) = unat b div 600 * 600"
    using assms by (subst unat_mult_fits) (simp_all add: q)
  then have "unat (from_block_number b * 600 + 600) = unat b div 600 * 600 + 600"
    using assms by (subst unat_add_fits) (simp_all add: q)
  with s q show ?thesis
    by (simp add: epoch_new_def contains_block_def const_defs word_nat Let_def)
qed

theorem block_in_its_epoch_witness:
  "contains_block (epoch_new (from_block_number 1234)) 1234 \<and> slot_from_block 1234 = 34"
  using block_in_its_epoch [of 1234] by (simp add: slot_from_block_def const_defs)

section \<open>Properties of the bootstrap era\<close>

text \<open>
  Bootstrap ends exactly when the minimum number of validators is reached, whatever the epoch
  and the stake, and the reported status says how many validators are missing: a positive
  number, whether the time limit has passed (extended) or not (active).
\<close>

theorem bootstrap_status_sound:
  "(should_exit_bootstrap c e v st \<longleftrightarrow> bc_min_validators_exit c \<le> v)
   \<and> (get_bootstrap_status c e v st = BS_Extended od need \<longleftrightarrow>
     v < bc_min_validators_exit c \<and> bc_end_epoch c \<le> e
     \<and> unat od = unat e - unat (bc_end_epoch c) \<and> unat need = unat (bc_min_validators_exit c) - unat v)
   \<and> (get_bootstrap_status c e v st = BS_Active rem need \<longleftrightarrow>
     v < bc_min_validators_exit c \<and> e < bc_end_epoch c
     \<and> unat rem = unat (bc_end_epoch c) - unat e \<and> unat need = unat (bc_min_validators_exit c) - unat v)"
  by (auto simp: get_bootstrap_status_def should_exit_bootstrap_def is_extended_bootstrap_def
      word_unat_eq_iff word_nat)

end
