(* ===== verification/Kratos_Staking.thy ===== *)
theory Kratos_Staking
  imports Kratos_Validators Kratos_Tokenomics
begin

text \<open>
  The staking contract, \<^verbatim>\<open>contracts/staking.rs\<close> (registration, bonding, unbonding, slashing on
  top of the validator set).
\<close>

section \<open>The staking registry\<close>

record unbonding_request =
  ur_account :: account_id
  ur_amount :: balance
  ur_requested_at :: block_number
  ur_ready_at :: block_number

datatype slash_reason = DoubleSign | ExtendedDowntime | InvalidAttestation | MaliciousBehavior
  | FailedEmergencyResponse

record slash_record =
  sr_validator :: account_id
  sr_amount :: balance
  sr_reason :: slash_reason
  sr_block :: block_number

datatype staking_error = SE_InsufficientStake | SE_ValidatorNotFound | SE_NoUnbondingRequest
  | SE_UnbondingNotReady | SE_UnbondingAlreadyActive | SE_ValidatorSetError validator_error

record staking_registry =
  st_validators :: validator_set
  st_unbonding_requests :: "(account_id, unbonding_request) hmap"
  st_slash_history :: "slash_record list"

definition staking_new :: staking_registry where
  "staking_new = \<lparr>st_validators = validator_set_new, st_unbonding_requests = [], st_slash_history = []\<rparr>"

definition staking_register ::
  "account_id \<Rightarrow> balance \<Rightarrow> block_number \<Rightarrow> staking_registry \<Rightarrow> (staking_error, unit) result \<times> staking_registry" where
  "staking_register i stake block S =
     (if stake < MIN_VALIDATOR_STAKE then (Err SE_InsufficientStake, S)
      else case add_validator (validator_new i stake block) (st_validators S) of
        (Inl e, V) \<Rightarrow> (Err (SE_ValidatorSetError e), S\<lparr>st_validators := V\<rparr>)
      | (Inr _, V) \<Rightarrow> (Ok (), S\<lparr>st_validators := V\<rparr>))"

definition staking_unregister :: "account_id \<Rightarrow> staking_registry \<Rightarrow> (staking_error, unit) result \<times> staking_registry" where
  "staking_unregister i S =
     (case remove_validator i (st_validators S) of
        (Inl e, V) \<Rightarrow> (Err (SE_ValidatorSetError e), S\<lparr>st_validators := V\<rparr>)
      | (Inr _, V) \<Rightarrow> (Ok (), S\<lparr>st_validators := V\<rparr>))"

definition staking_add_stake ::
  "account_id \<Rightarrow> balance \<Rightarrow> staking_registry \<Rightarrow> (staking_error, unit) result \<times> staking_registry" where
  "staking_add_stake i amount S =
     (case bm_get (vs_validators (st_validators S)) i of
        None \<Rightarrow> (Err SE_ValidatorNotFound, S)
      | Some v \<Rightarrow>
          let V = st_validators S;
              v' = v\<lparr>vi_stake := sat_add (vi_stake v) amount\<rparr>
          in (Ok (), S\<lparr>st_validators := V\<lparr>vs_validators := bm_insert i v' (vs_validators V),
                                          vs_total_stake := sat_add (vs_total_stake V) amount\<rparr>\<rparr>))"

definition staking_start_unbonding ::
  "account_id \<Rightarrow> balance \<Rightarrow> block_number \<Rightarrow> staking_registry \<Rightarrow> (staking_error, unit) result \<times> staking_registry" where
  "staking_start_unbonding i amount current_block S =
     (if hm_contains (st_unbonding_requests S) i then (Err SE_UnbondingAlreadyActive, S)
      else case bm_get (vs_validators (st_validators S)) i of
        None \<Rightarrow> (Err SE_ValidatorNotFound, S)
      | Some v \<Rightarrow>
          if vi_stake v < amount then (Err SE_InsufficientStake, S)
          else let V = st_validators S;
                   v' = v\<lparr>vi_stake := sat_sub (vi_stake v) amount\<rparr>;
                   request = \<lparr>ur_account = i, ur_amount = amount, ur_requested_at = current_block,
                              ur_ready_at = current_block + UNBONDING_PERIOD\<rparr>
               in (Ok (), S\<lparr>st_validators := V\<lparr>vs_validators := bm_insert i v' (vs_validators V),
                                               vs_total_stake := sat_sub (vs_total_stake V) amount\<rparr>,
                            st_unbonding_requests := hm_insert i request (st_unbonding_requests S)\<rparr>))"

definition staking_withdraw ::
  "account_id \<Rightarrow> block_number \<Rightarrow> staking_registry \<Rightarrow> (staking_error, balance) result \<times> staking_registry" where
  "staking_withdraw i current_block S =
     (case hm_get (st_unbonding_requests S) i of
        None \<Rightarrow> (Err SE_NoUnbondingRequest, S)
      | Some request \<Rightarrow>
          if current_block < ur_ready_at request then (Err SE_UnbondingNotReady, S)
          else (Ok (ur_amount request), S\<lparr>st_unbonding_requests := hm_remove i (st_unbonding_requests S)\<rparr>))"

definition staking_slash ::
  "account_id \<Rightarrow> balance \<Rightarrow> slash_reason \<Rightarrow> block_number \<Rightarrow> staking_registry
     \<Rightarrow> (staking_error, balance) result \<times> staking_registry" where
  "staking_slash i amount reason block S =
     (case bm_get (vs_validators (st_validators S)) i of
        None \<Rightarrow> (Err SE_ValidatorNotFound, S)
      | Some v \<Rightarrow>
          let V = st_validators S;
              (slashed, v') = validator_slash amount v;
              history = st_slash_history S @
                [\<lparr>sr_validator = i, sr_amount = slashed, sr_reason = reason, sr_block = block\<rparr>]
          in (Ok slashed,
              S\<lparr>st_validators := V\<lparr>vs_validators := bm_insert i v' (vs_validators V),
                                   vs_total_stake := sat_sub (vs_total_stake V) slashed\<rparr>,
                st_slash_history := (if 1000 < length history then tl history else history)\<rparr>))"

section \<open>Its invariant\<close>

definition stored_under_id :: "account_id \<Rightarrow> validator_info \<Rightarrow> bool" where
  "stored_under_id i v = (vi_id v = i)"

definition staking_inv :: "staking_registry \<Rightarrow> bool" where
  "staking_inv S =
     (vset_inv_of stored_under_id (st_validators S) \<and> hm_inv (st_unbonding_requests S)
      \<and> length (st_slash_history S) \<le> 1000)"

text \<open>Everything the registry holds for its users: bonded stake and requests not yet withdrawn.\<close>

definition unbonding_total :: "staking_registry \<Rightarrow> nat" where
  "unbonding_total S = hm.total (\<lambda>r. unat (ur_amount r)) (st_unbonding_requests S)"

definition locked :: "staking_registry \<Rightarrow> nat" where
  "locked S = unat (vs_total_stake (st_validators S)) + unbonding_total S"

lemma staking_new_inv: "staking_inv staking_new \<and> locked staking_new = 0"
proof
  show "staking_inv staking_new"
    by (simp add: staking_inv_def staking_new_def validator_set_new_inv)
  show "locked staking_new = 0"
    by (simp add: staking_new_def locked_def unbonding_total_def hm.total_def validator_set_new_def)
qed

lemma member_stake_le:
  assumes "staking_inv S" and "bm_get (vs_validators (st_validators S)) i = Some v"
  shows "unat (vi_stake v) \<le> unat (vs_total_stake (st_validators S))"
  using bm.get_le_total [OF vset_invD(1) assms(2), of stored_under_id "\<lambda>v. unat (vi_stake v)"]
    vset_invD(3) [of stored_under_id "st_validators S"] assms(1)
  by (simp add: staking_inv_def)

lemma put_member:
  assumes "staking_inv S" and "bm_get (vs_validators (st_validators S)) i = Some v"
    and "vi_id w = vi_id v" and "unat t + unat (vi_stake v) = unat (vs_total_stake (st_validators S)) + unat (vi_stake w)"
  shows "vset_inv_of stored_under_id ((st_validators S)\<lparr>vs_validators := bm_insert i w (vs_validators (st_validators S)),
           vs_total_stake := t\<rparr>)"
proof -
  let ?V = "st_validators S"
  have V: "vset_inv_of stored_under_id ?V" using assms(1) by (simp add: staking_inv_def)
  have "vset_inv_of stored_under_id (?V\<lparr>vs_validators := bm_insert i w (vs_validators ?V), vs_total_stake := t,
      vs_role_registry := vs_role_registry ?V\<rparr>)"
    using V vset_invD [OF V] assms(2-4)
    by (intro put_validator_inv) (auto simp: stored_under_id_def)
  then show ?thesis by simp
qed

lemma staking_register_step:
  assumes "staking_inv S" and "locked S + unat stake < 2 ^ 128" and "staking_register i stake n S = (r, S')"
  shows "staking_inv S' \<and> locked S' = locked S + (if is_ok r then unat stake else 0)"
proof -
  let ?a = "add_validator (validator_new i stake n) (st_validators S)"
  have "vset_inv_of stored_under_id (snd ?a)"
    using assms(1,2) by (intro add_validator_inv)
      (auto simp: staking_inv_def locked_def validator_new_def stored_under_id_def)
  moreover have "unat (vs_total_stake (snd ?a)) = unat (vs_total_stake (st_validators S)) + (if is_ok (fst ?a) then unat stake else 0)"
    using assms(2) unfolding add_validator_def locked_def
    by (auto simp: validator_new_def sat_add_fits split: prod.splits sum.splits)
  ultimately show ?thesis
    using assms(1,3)
    by (cases ?a) (auto simp: staking_register_def staking_inv_def locked_def unbonding_total_def
        split: if_splits sum.splits)
qed

lemma staking_unregister_step:
  assumes "staking_inv S" and "staking_unregister i S = (r, S')"
  shows "staking_inv S' \<and> unbonding_total S' = unbonding_total S \<and> locked S' \<le> locked S
       \<and> (r = Ok () \<longrightarrow> (\<exists>v. bm_get (vs_validators (st_validators S)) i = Some v
                             \<and> locked S' + unat (vi_stake v) = locked S))
       \<and> (r \<noteq> Ok () \<longrightarrow> locked S' = locked S)"
proof -
  let ?a = "remove_validator i (st_validators S)"
  have "vset_inv_of stored_under_id (snd ?a)"
    using assms(1) by (intro remove_validator_inv) (simp add: staking_inv_def)
  then show ?thesis
    using assms member_stake_le [OF assms(1), of i]
    by (auto simp: staking_unregister_def remove_validator_def staking_inv_def locked_def unbonding_total_def
        unat_sat_sub split: option.splits)
qed

lemma staking_add_stake_step:
  assumes "staking_inv S" and "locked S + unat a < 2 ^ 128" and "staking_add_stake i a S = (r, S')"
  shows "staking_inv S' \<and> locked S' = locked S + (if is_ok r then unat a else 0)"
proof (cases "bm_get (vs_validators (st_validators S)) i")
  case (Some v)
  have t: "unat (sat_add (vs_total_stake (st_validators S)) a) = unat (vs_total_stake (st_validators S)) + unat a"
    and v: "unat (sat_add (vi_stake v) a) = unat (vi_stake v) + unat a"
    using assms(2) member_stake_le [OF assms(1) Some] by (simp_all add: locked_def unat_sat_add)
  have "vset_inv_of stored_under_id ((st_validators S)\<lparr>vs_validators := bm_insert i
      (v\<lparr>vi_stake := sat_add (vi_stake v) a\<rparr>) (vs_validators (st_validators S)),
      vs_total_stake := sat_add (vs_total_stake (st_validators S)) a\<rparr>)"
    using t v by (intro put_member [OF assms(1) Some]) simp_all
  then show ?thesis
    using assms(1,3) Some t
    by (auto simp: staking_add_stake_def staking_inv_def locked_def unbonding_total_def Let_def)
qed (use assms in \<open>auto simp: staking_add_stake_def\<close>)

lemma staking_start_unbonding_step:
  assumes "staking_inv S" and "staking_start_unbonding i a n S = (r, S')"
  shows "staking_inv S' \<and> locked S' = locked S"
proof (cases "r = Ok ()")
  case True
  then obtain v where v: "bm_get (vs_validators (st_validators S)) i = Some v" "a \<le> vi_stake v"
    and none: "hm_get (st_unbonding_requests S) i = None"
    using assms(2) by (auto simp: staking_start_unbonding_def hm_contains_def not_less split: if_splits option.splits)
  have le: "unat a \<le> unat (vi_stake v)" "unat (vi_stake v) \<le> unat (vs_total_stake (st_validators S))"
    using v member_stake_le [OF assms(1) v(1)] by (simp_all add: word_le_nat_alt)
  have "vset_inv_of stored_under_id ((st_validators S)\<lparr>vs_validators := bm_insert i
      (v\<lparr>vi_stake := sat_sub (vi_stake v) a\<rparr>) (vs_validators (st_validators S)),
      vs_total_stake := sat_sub (vs_total_stake (st_validators S)) a\<rparr>)"
    using le by (intro put_member [OF assms(1) v(1)]) (simp_all add: unat_sat_sub)
  moreover have "hm.total (\<lambda>r. unat (ur_amount r)) (hm_insert i \<lparr>ur_account = i, ur_amount = a, ur_requested_at = n,
      ur_ready_at = n + UNBONDING_PERIOD\<rparr> (st_unbonding_requests S)) = unbonding_total S + unat a"
    using hm.total_put [of "st_unbonding_requests S" "\<lambda>r. unat (ur_amount r)" i] none assms(1)
    by (simp add: unbonding_total_def staking_inv_def)
  ultimately show ?thesis
    using assms v none le True
    by (auto simp: staking_start_unbonding_def staking_inv_def locked_def unbonding_total_def hm_contains_def Let_def
        unat_sat_sub hm.inv_put not_less split: if_splits)
next
  case False
  then show ?thesis
    using assms by (auto simp: staking_start_unbonding_def Let_def split: if_splits option.splits)
qed

lemma staking_withdraw_step:
  assumes "staking_inv S" and "staking_withdraw i n S = (r, S')"
  shows "staking_inv S' \<and> locked S' + (case r of Inl _ \<Rightarrow> 0 | Inr amount \<Rightarrow> unat amount) = locked S"
  using assms hm.total_del [of "st_unbonding_requests S" "\<lambda>r. unat (ur_amount r)" i]
  by (auto simp: staking_withdraw_def staking_inv_def locked_def unbonding_total_def hm.inv_del
      split: option.splits if_splits)

lemma staking_slash_step:
  assumes "staking_inv S" and "staking_slash i a why n S = (r, S')"
  shows "staking_inv S' \<and> unbonding_total S' = unbonding_total S
       \<and> locked S' + (case r of Inl _ \<Rightarrow> 0 | Inr slashed \<Rightarrow> unat slashed) = locked S"
proof (cases "bm_get (vs_validators (st_validators S)) i")
  case (Some v)
  obtain s w where sw: "validator_slash a v = (s, w)" by (cases "validator_slash a v")
  have b: "unat (vi_stake w) + unat s = unat (vi_stake v)" using validator_slash_bounds [OF sw] by blast
  have "vi_id w = vi_id v" using sw by (auto simp: validator_slash_def Let_def split: if_splits)
  then have "vset_inv_of stored_under_id ((st_validators S)\<lparr>vs_validators := bm_insert i w (vs_validators (st_validators S)),
      vs_total_stake := sat_sub (vs_total_stake (st_validators S)) s\<rparr>)"
    using b member_stake_le [OF assms(1) Some] by (intro put_member [OF assms(1) Some]) (simp_all add: unat_sat_sub)
  then show ?thesis
    using assms Some sw b member_stake_le [OF assms(1) Some]
    by (auto simp: staking_slash_def staking_inv_def locked_def unbonding_total_def unat_sat_sub Let_def)
qed (use assms in \<open>auto simp: staking_slash_def\<close>)

section \<open>Histories of the staking registry\<close>

text \<open>
  \<open>staking_run S paid released dropped\<close>: a history of calls has led to \<open>S\<close> in which the users paid
  in \<open>paid\<close>, \<open>released\<close> was handed out by withdrawals or taken by slashes, and \<open>dropped\<close> was
  still bonded by validators when they unregistered.
\<close>

inductive staking_run :: "staking_registry \<Rightarrow> nat \<Rightarrow> nat \<Rightarrow> nat \<Rightarrow> bool" where
  new: "staking_run staking_new 0 0 0"
| register: "staking_run S p rel d \<Longrightarrow> locked S + unat stake < 2 ^ 128 \<Longrightarrow> staking_register i stake n S = (r, S') \<Longrightarrow>
    staking_run S' (p + (if is_ok r then unat stake else 0)) rel d"
| bond: "staking_run S p rel d \<Longrightarrow> locked S + unat a < 2 ^ 128 \<Longrightarrow> staking_add_stake i a S = (r, S') \<Longrightarrow>
    staking_run S' (p + (if is_ok r then unat a else 0)) rel d"
| unbond: "staking_run S p rel d \<Longrightarrow> staking_start_unbonding i a n S = (r, S') \<Longrightarrow> staking_run S' p rel d"
| withdraw: "staking_run S p rel d \<Longrightarrow> staking_withdraw i n S = (r, S') \<Longrightarrow>
    staking_run S' p (rel + (case r of Inl _ \<Rightarrow> 0 | Inr amount \<Rightarrow> unat amount)) d"
| slash: "staking_run S p rel d \<Longrightarrow> staking_slash i a why n S = (r, S') \<Longrightarrow>
    staking_run S' p (rel + (case r of Inl _ \<Rightarrow> 0 | Inr slashed \<Rightarrow> unat slashed)) d"
| unregister: "staking_run S p rel d \<Longrightarrow> staking_unregister i S = (r, S') \<Longrightarrow>
    staking_run S' p rel (d + (case bm_get (vs_validators (st_validators S)) i of
                               None \<Rightarrow> 0 | Some v \<Rightarrow> unat (vi_stake v)))"

lemma staking_unregister_err: "staking_unregister i S = (r, S') \<Longrightarrow> r = Ok () \<longleftrightarrow> bm_get (vs_validators (st_validators S)) i \<noteq> None"
  by (auto simp: staking_unregister_def remove_validator_def split: option.splits)

lemma staking_run_balance:
  "staking_run S p rel d \<Longrightarrow> staking_inv S \<and> locked S + rel + d = p"
proof (induction rule: staking_run.induct)
  case (unregister S p rel d i r S')
  then show ?case
    using staking_unregister_step [of S i r S'] staking_unregister_err [of i S r S']
    by (auto split: option.splits)
qed (auto simp: staking_new_inv dest: staking_register_step staking_add_stake_step staking_start_unbonding_step
    staking_withdraw_step staking_slash_step)

text \<open>The contract changes its validator set only by the steps of \<open>vset_reach\<close>.\<close>

lemma staking_sets:
  "st_validators (snd (staking_register i stake n S)) =
     (if stake < MIN_VALIDATOR_STAKE then st_validators S else snd (add_validator (validator_new i stake n) (st_validators S)))"
  "st_validators (snd (staking_unregister i S)) = snd (remove_validator i (st_validators S))"
  "st_validators (snd (staking_add_stake i a S)) = set_bond i a (st_validators S)"
  "st_validators (snd (staking_start_unbonding i a n S)) =
     (if hm_contains (st_unbonding_requests S) i then st_validators S else set_unbond i a (st_validators S))"
  "st_validators (snd (staking_withdraw i n S)) = st_validators S"
  "st_validators (snd (staking_slash i a why n S)) = set_slash i a (st_validators S)"
  by (auto simp: staking_register_def staking_unregister_def staking_add_stake_def staking_start_unbonding_def
      staking_withdraw_def staking_slash_def set_bond_def set_unbond_def set_slash_def Let_def
      split: option.splits sum.splits prod.splits)

lemma staking_set_reach: "staking_run S paid released dropped \<Longrightarrow> \<exists>L. vset_reach L (st_validators S)"
proof (induction rule: staking_run.induct)
  case new
  then show ?case using vset_reach.new by (auto simp: staking_new_def)
next
  case (register S p rel d stake i n r S')
  then show ?case
    using staking_sets(1) [of i stake n S] vset_reach.add [of _ "st_validators S" "validator_new i stake n"]
    by (auto simp: locked_def validator_new_def split: if_splits)
next
  case (bond S p rel d a i r S')
  then show ?case using staking_sets(3) [of i a S] vset_reach.set_bond [of _ "st_validators S" a i] by (auto simp: locked_def)
next
  case (unbond S p rel d i a n r S')
  then show ?case using staking_sets(4) [of i a n S] vset_reach.set_unbond [of _ "st_validators S" i a] by (auto split: if_splits)
next
  case (withdraw S p rel d i n r S')
  then show ?case using staking_sets(5) [of i n S] by auto
next
  case (slash S p rel d i a why n r S')
  then show ?case using staking_sets(6) [of i a why n S] vset_reach.set_slash [of _ "st_validators S" i a] by auto
next
  case (unregister S p rel d i r S')
  then show ?case using staking_sets(2) [of i S] vset_reach.remove [of _ "st_validators S" i] by auto
qed

text \<open>
  C15: over every history of the staking contract, what users paid in equals the bonded stake (the
  sum over the validators, equal to the cached total) plus pending unbonding requests, plus what
  was withdrawn or slashed, plus the stake dropped by unregistering; the slash history never
  exceeds 1000 records.
\<close>

theorem staking_conservation:
  assumes "staking_run S paid released dropped"
  shows "(\<Sum>(i, v) \<leftarrow> vs_validators (st_validators S). unat (vi_stake v))
           + (\<Sum>(i, q) \<leftarrow> st_unbonding_requests S. unat (ur_amount q)) + released + dropped = paid
       \<and> unat (vs_total_stake (st_validators S)) = (\<Sum>(i, v) \<leftarrow> vs_validators (st_validators S). unat (vi_stake v))
       \<and> length (st_slash_history S) \<le> 1000"
proof -
  have inv: "staking_inv S" and bal: "locked S + released + dropped = paid"
    using staking_run_balance [OF assms] by simp_all
  have V: "vset_inv_of stored_under_id (st_validators S)" using inv by (simp add: staking_inv_def)
  show ?thesis
    using inv bal vset_invD(3) [OF V] bm_total_list [OF vset_invD(1) [OF V]]
    by (simp add: locked_def unbonding_total_def hm_total_list staking_inv_def)
qed

theorem staking_conservation_witness:
  "\<exists>S. staking_run S (60000 * unat KRAT) 0 0 \<and> unat (vs_total_stake (st_validators S)) = 50000 * unat KRAT
     \<and> (\<Sum>(i, q) \<leftarrow> st_unbonding_requests S. unat (ur_amount q)) = 10000 * unat KRAT"
proof -
  define S1 where "S1 = snd (staking_register 5 (60000 * KRAT) 1 staking_new)"
  define S2 where "S2 = snd (staking_start_unbonding 5 (10000 * KRAT) 2 S1)"
  have r1: "staking_register 5 (60000 * KRAT) 1 staking_new = (Ok (), S1)"
    by (simp add: S1_def staking_register_def staking_new_def add_validator_def vset_eval validator_new_def)
  have r2: "staking_start_unbonding 5 (10000 * KRAT) 2 S1 = (Ok (), S2)"
    by (simp add: S2_def S1_def staking_register_def staking_new_def add_validator_def vset_eval validator_new_def
        staking_start_unbonding_def hm_contains_def)
  have "staking_run S1 (60000 * unat KRAT) 0 0"
    using staking_run.register [OF staking_run.new _ r1] by (simp add: staking_new_inv const_defs)
  then have run: "staking_run S2 (60000 * unat KRAT) 0 0" using r2 by (rule staking_run.unbond)
  have "(\<Sum>(i, q) \<leftarrow> st_unbonding_requests S2. unat (ur_amount q)) = 10000 * unat KRAT"
    by (simp add: S2_def S1_def staking_register_def staking_new_def add_validator_def vset_eval validator_new_def
        staking_start_unbonding_def hm_contains_def)
  then show ?thesis
    using run staking_conservation [OF run] by (intro exI [of _ S2]) (simp add: const_defs)
qed

text \<open>
  C38: unbonded funds are paid out only after the full unbonding period, exactly once, and in full:
  a withdrawal right after \<open>start_unbonding\<close> at block \<open>n\<close> succeeds at block \<open>m\<close> exactly when
  \<open>m\<close> is at least \<open>n + 403200\<close>, it returns the amount, and a second one finds no request.
\<close>

theorem unbonding_period_enforced:
  assumes "staking_start_unbonding i a n S = (Ok (), S')" and "unat n + 403200 < 2 ^ 64"
  shows "(fst (staking_withdraw i m S') = Ok a \<longleftrightarrow> unat n + 403200 \<le> unat m)
       \<and> (unat m < unat n + 403200 \<longrightarrow> staking_withdraw i m S' = (Err SE_UnbondingNotReady, S'))
       \<and> (unat n + 403200 \<le> unat m \<longrightarrow>
            fst (staking_withdraw i k (snd (staking_withdraw i m S'))) = Err SE_NoUnbondingRequest)"
proof -
  have req: "hm_get (st_unbonding_requests S') i = Some \<lparr>ur_account = i, ur_amount = a, ur_requested_at = n,
      ur_ready_at = n + UNBONDING_PERIOD\<rparr>"
    using assms(1) by (auto simp: staking_start_unbonding_def Let_def update_conv' split: if_splits option.splits)
  have "unat (n + UNBONDING_PERIOD) = unat n + 403200"
    using assms(2) by (subst unat_add_fits) (simp_all add: const_defs)
  then show ?thesis
    by (auto simp: staking_withdraw_def req word_less_nat_alt delete_conv')
qed

theorem unbonding_period_enforced_witness:
  "\<exists>S S'. staking_start_unbonding 5 (10000 * KRAT) 2 S = (Ok (), S')
     \<and> fst (staking_withdraw 5 403202 S') = Ok (10000 * KRAT)
     \<and> fst (staking_withdraw 5 403201 S') = Err SE_UnbondingNotReady"
proof -
  define S1 where "S1 = snd (staking_register 5 (60000 * KRAT) 1 staking_new)"
  define S2 where "S2 = snd (staking_start_unbonding 5 (10000 * KRAT) 2 S1)"
  have r2: "staking_start_unbonding 5 (10000 * KRAT) 2 S1 = (Ok (), S2)"
    by (simp add: S2_def S1_def staking_register_def staking_new_def add_validator_def vset_eval validator_new_def
        staking_start_unbonding_def hm_contains_def)
  show ?thesis
    using unbonding_period_enforced [OF r2, of 403202] unbonding_period_enforced [OF r2, of 403201] r2
    by (intro exI [of _ S1] exI [of _ S2]) simp
qed

end
