(* ===== verification/Kratos_Selection.thy ===== *)
theory Kratos_Selection
  imports Kratos_Validators Kratos_Tokenomics
begin

text \<open>
  The stake-weighted choice of block producers, \<^verbatim>\<open>consensus/pos.rs\<close>: \<open>ValidatorSelector\<close> draws a
  point below the total stake from a hash and walks the cumulative stakes;
  \<open>RandomnessProvider\<close> keeps recent block hashes as the source of that hash.
\<close>

section \<open>Selecting a validator\<close>

datatype selection_error = NoValidatorsRegistered | ZeroTotalStake

definition u128_from_le_bytes :: "bytes \<Rightarrow> u128" where
  "u128_from_le_bytes bs = foldr (\<lambda>b acc. ucast b + 256 * acc) bs 0"

definition mix_randomness :: "crypto \<Rightarrow> hash \<Rightarrow> slot_number \<Rightarrow> hash" where
  "mix_randomness K randomness slot = blake3 K (hash_bytes randomness @ le_bytes 8 slot)"

text \<open>The loop over the validators: \<open>acc\<close> is the cumulative stake before the next one.\<close>

fun select_from :: "u128 \<Rightarrow> u128 \<Rightarrow> validator_info list \<Rightarrow> account_id option" where
  "select_from random_point acc [] = None"
| "select_from random_point acc (v # vs) =
     (let cumulative = acc + vi_stake v
      in if random_point < cumulative then Some (vi_id v) else select_from random_point cumulative vs)"

definition weighted_selection :: "validator_info list \<Rightarrow> hash \<Rightarrow> account_id option" where
  "weighted_selection vs seed =
     (if vs = [] then None
      else let total_stake = sum_list (map vi_stake vs)
           in if total_stake = 0 then None
              else let random_point = u128_from_le_bytes (take 16 (hash_bytes seed)) mod total_stake
                   in case select_from random_point 0 vs of
                        Some i \<Rightarrow> Some i
                      | None \<Rightarrow> map_option vi_id (Some (last vs)))"

definition select_validator_for_slot ::
  "crypto \<Rightarrow> validator_set \<Rightarrow> slot_number \<Rightarrow> hash \<Rightarrow> (selection_error, account_id) result" where
  "select_validator_for_slot K V slot randomness =
     (let vs = active_validators V
      in if vs = [] then Err NoValidatorsRegistered
         else case weighted_selection vs (mix_randomness K randomness slot) of
                None \<Rightarrow> Err ZeroTotalStake
              | Some i \<Rightarrow> Ok i)"

definition can_produce_block :: "crypto \<Rightarrow> validator_set \<Rightarrow> account_id \<Rightarrow> slot_number \<Rightarrow> hash \<Rightarrow> bool" where
  "can_produce_block K V validator slot randomness =
     (case select_validator_for_slot K V slot randomness of
        Inr selected \<Rightarrow> selected = validator
      | Inl _ \<Rightarrow> False)"

section \<open>Randomness\<close>

type_synonym randomness_provider = "(block_number, hash) hmap"

definition record_block_hash :: "block_number \<Rightarrow> hash \<Rightarrow> randomness_provider \<Rightarrow> randomness_provider" where
  "record_block_hash block_number block_hash m =
     (let m1 = hm_insert block_number block_hash m
      in if 1000 < length m1
         then case checked_sub block_number 1000 of
                Some oldest \<Rightarrow> hm_remove oldest m1
              | None \<Rightarrow> m1
         else m1)"

definition get_epoch_randomness :: "randomness_provider \<Rightarrow> epoch_number \<Rightarrow> hash" where
  "get_epoch_randomness m epoch =
     (if epoch = 0 then ZERO
      else let prev_epoch_start = (epoch - 1) * EPOCH_DURATION_BLOCKS
           in case hm_get m prev_epoch_start of Some h \<Rightarrow> h | None \<Rightarrow> ZERO)"

section \<open>The selection is proportional to stake\<close>

abbreviation stake_nat :: "validator_info list \<Rightarrow> nat" where
  "stake_nat vs \<equiv> sum_list (map (\<lambda>v. unat (vi_stake v)) vs)"

lemma unat_sum_stakes: "stake_nat vs < 2 ^ 128 \<Longrightarrow> unat (sum_list (map vi_stake vs)) = stake_nat vs"
proof (induction vs)
  case (Cons v vs)
  then have IH: "unat (sum_list (map vi_stake vs)) = stake_nat vs" by simp
  show ?case using Cons.prems by (simp add: IH unat_add_fits)
qed simp

lemma select_from_points:
  assumes "unat acc + stake_nat vs < 2 ^ 128" and "distinct (map vi_id vs)" and "v \<in> set vs"
  shows "\<exists>lo. {p. unat acc \<le> unat p \<and> select_from p acc vs = Some (vi_id v)}
           = {p. lo \<le> unat p \<and> unat p < lo + unat (vi_stake v)}
       \<and> unat acc \<le> lo \<and> lo + unat (vi_stake v) \<le> unat acc + stake_nat vs"
  using assms
proof (induction vs arbitrary: acc)
  case (Cons w vs)
  have acc: "unat (acc + vi_stake w) = unat acc + unat (vi_stake w)"
    using Cons.prems(1) by (simp add: unat_add_fits)
  show ?case
  proof (cases "v = w")
    case True
    have other: "select_from p c vs \<noteq> Some (vi_id v)" if "vi_id v \<notin> set (map vi_id vs)" for p c
      using that by (induction vs arbitrary: c) (auto simp: Let_def)
    have "vi_id v \<notin> set (map vi_id vs)" using Cons.prems(2) True by simp
    then have "{p. unat acc \<le> unat p \<and> select_from p acc (w # vs) = Some (vi_id v)}
        = {p. unat acc \<le> unat p \<and> unat p < unat acc + unat (vi_stake v)}"
      using other True by (auto simp: Let_def word_less_nat_alt acc)
    then show ?thesis using True by (intro exI [of _ "unat acc"]) simp
  next
    case False
    with Cons.prems have v: "v \<in> set vs" "vi_id w \<noteq> vi_id v" by force+
    obtain lo where lo: "{p. unat (acc + vi_stake w) \<le> unat p \<and> select_from p (acc + vi_stake w) vs = Some (vi_id v)}
        = {p. lo \<le> unat p \<and> unat p < lo + unat (vi_stake v)}" "unat (acc + vi_stake w) \<le> lo"
        "lo + unat (vi_stake v) \<le> unat (acc + vi_stake w) + stake_nat vs"
      using Cons.IH [of "acc + vi_stake w"] Cons.prems v acc by auto
    have "{p. unat acc \<le> unat p \<and> select_from p acc (w # vs) = Some (vi_id v)}
        = {p. unat (acc + vi_stake w) \<le> unat p \<and> select_from p (acc + vi_stake w) vs = Some (vi_id v)}"
      using v(2) acc by (auto simp: Let_def word_less_nat_alt)
    then show ?thesis using lo acc by (intro exI [of _ lo]) simp
  qed
qed simp

lemma card_word_interval:
  assumes "lo + n \<le> 2 ^ LENGTH('a)"
  shows "card {p :: 'a::len word. lo \<le> unat p \<and> unat p < lo + n} = n"
proof -
  have k: "unat (of_nat k :: 'a word) = k" if "k \<in> {lo..<lo + n}" for k
    using that assms by (simp add: unsigned_of_nat take_bit_nat_eq_self)
  then have "bij_betw (unat :: 'a word \<Rightarrow> nat) {p. lo \<le> unat p \<and> unat p < lo + n} {lo..<lo + n}"
    by (intro bij_betw_byWitness [of _ of_nat]) auto
  then show ?thesis using bij_betw_same_card by fastforce
qed

lemma select_from_total:
  "unat acc + stake_nat vs < 2 ^ 128 \<Longrightarrow> unat p < unat acc + stake_nat vs \<Longrightarrow> unat acc \<le> unat p \<Longrightarrow>
     \<exists>v \<in> set vs. select_from p acc vs = Some (vi_id v) \<and> 0 < vi_stake v"
proof (induction vs arbitrary: acc)
  case (Cons w vs)
  have acc: "unat (acc + vi_stake w) = unat acc + unat (vi_stake w)"
    using Cons.prems(1) by (simp add: unat_add_fits)
  show ?case
  proof (cases "p < acc + vi_stake w")
    case True
    then have "0 < vi_stake w" using Cons.prems(3) acc by (simp add: word_less_nat_alt)
    with True show ?thesis by (simp add: Let_def)
  next
    case False
    then show ?thesis
      using Cons.IH [of "acc + vi_stake w"] Cons.prems acc by (auto simp: Let_def word_less_nat_alt)
  qed
qed simp

text \<open>
  The choice is exactly proportional to stake: of the \<open>total_stake\<close> many random points, a
  validator with stake \<open>s\<close> is selected by exactly \<open>s\<close> of them (ids distinct, sum of stakes in
  \<open>u128\<close>).
\<close>

theorem selection_proportional:
  assumes "distinct (map vi_id vs)" and "stake_nat vs < 2 ^ 128" and "v \<in> set vs"
  shows "card {p. unat p < stake_nat vs \<and> select_from p 0 vs = Some (vi_id v)} = unat (vi_stake v)"
proof -
  obtain lo where lo: "{p. unat (0::u128) \<le> unat p \<and> select_from p 0 vs = Some (vi_id v)}
      = {p. lo \<le> unat p \<and> unat p < lo + unat (vi_stake v)}" "lo + unat (vi_stake v) \<le> stake_nat vs"
    using select_from_points [of 0 vs v] assms by auto
  then have "{p. unat p < stake_nat vs \<and> select_from p 0 vs = Some (vi_id v)}
      = {p. lo \<le> unat p \<and> unat p < lo + unat (vi_stake v)}" by auto
  then show ?thesis using lo(2) assms(2) by (simp add: card_word_interval)
qed

theorem selection_proportional_witness:
  "card {p. unat p < 5 \<and> select_from p 0 [validator_new 1 2 0, validator_new 2 3 0] = Some 2} = 3"
  using selection_proportional [of "[validator_new 1 2 0, validator_new 2 3 0]" "validator_new 2 3 0"]
  by (simp add: validator_new_def)

text \<open>
  For a reachable validator set, \<open>select_validator_for_slot\<close> fails only when no validator is
  active or all active ones have no stake; otherwise it returns an active validator with
  positive stake, for every hash function, slot and randomness.
\<close>

theorem select_validator_total:
  assumes "vset_reach L V"
  shows "case select_validator_for_slot K V slot r of
           Inl NoValidatorsRegistered \<Rightarrow> active_validators V = []
         | Inl ZeroTotalStake \<Rightarrow> (\<forall>v \<in> set (active_validators V). vi_stake v = 0)
         | Inr i \<Rightarrow> is_active V i \<and> (\<exists>v. bm_get (vs_validators V) i = Some v \<and> 0 < vi_stake v)"
proof -
  let ?vs = "active_validators V"
  have inv: "vset_inv L V" using assms by (rule vset_reach_inv)
  have "stake_nat (filter can_participate (map snd m)) \<le> (\<Sum>(i, v) \<leftarrow> m. unat (vi_stake v))"
    for m :: "(account_id, validator_info) bmap"
    by (induction m) (auto simp: split_beta)
  then have "stake_nat ?vs \<le> (\<Sum>(i, v) \<leftarrow> vs_validators V. unat (vi_stake v))"
    unfolding active_validators_def .
  also have "\<dots> = unat (vs_total_stake V)"
    using vset_invD(3) [OF inv] bm_total_list [OF vset_invD(1) [OF inv]] by simp
  also have "\<dots> < 2 ^ 128" using unat_lt128 [of "vs_total_stake V"] by simp
  finally have fits: "stake_nat ?vs < 2 ^ 128" .
  have mem: "is_active V (vi_id v) \<and> bm_get (vs_validators V) (vi_id v) = Some v" if v: "v \<in> set ?vs" for v
  proof -
    obtain i where i: "(i, v) \<in> set (vs_validators V)" "can_participate v"
      using v unfolding active_validators_def by force
    then have "bm_get (vs_validators V) i = Some v" using bm_inv_distinct [OF vset_invD(1) [OF inv]] by simp
    moreover from this have "vi_id v = i" using vset_invD(2) [OF inv] by (auto simp: validator_ok_def)
    ultimately show ?thesis using i by (simp add: is_active_def)
  qed
  define total where "total = sum_list (map vi_stake ?vs)"
  have total: "unat total = stake_nat ?vs" unfolding total_def by (rule unat_sum_stakes [OF fits])
  define p where "p = u128_from_le_bytes (take 16 (hash_bytes (mix_randomness K r slot))) mod total"
  have "\<exists>v \<in> set ?vs. select_from p 0 ?vs = Some (vi_id v) \<and> 0 < vi_stake v" if "total \<noteq> 0"
  proof (rule select_from_total)
    have "0 < unat total" using that by (simp add: unat_gt_0)
    then show "unat p < unat 0 + stake_nat ?vs" by (simp add: p_def unat_mod_distrib flip: total)
  qed (use fits in simp_all)
  moreover have "\<forall>v \<in> set ?vs. vi_stake v = 0" if "total = 0"
    using total that by (auto simp: sum_list_eq_0_iff unat_eq_zero)
  ultimately show ?thesis
    using mem
    by (auto simp: select_validator_for_slot_def weighted_selection_def Let_def split: option.splits
        simp flip: total_def p_def)
qed

theorem select_validator_total_witness:
  "case select_validator_for_slot demo_crypto demo_set 3 0 of
     Inl ZeroTotalStake \<Rightarrow> (\<forall>v \<in> set (active_validators demo_set). vi_stake v = 0) | _ \<Rightarrow> False"
proof -
  have a: "active_validators demo_set = [validator_new_bootstrap 1 0, validator_new_bootstrap 2 0]"
    by (simp add: demo_set_def active_validators_def vset_eval)
  have "select_validator_for_slot demo_crypto demo_set 3 0 = Err ZeroTotalStake"
    by (simp add: select_validator_for_slot_def a weighted_selection_def validator_new_bootstrap_def Let_def)
  then show ?thesis
    using select_validator_total [OF demo_set_reach, of demo_crypto 3 0] by simp
qed

section \<open>How long a block hash is kept\<close>

text \<open>The provider after the blocks \<open>0, ..., n - 1\<close> have been recorded in order.\<close>

definition record_chain :: "(nat \<Rightarrow> hash) \<Rightarrow> nat \<Rightarrow> randomness_provider" where
  "record_chain h n = fold (\<lambda>k. record_block_hash (of_nat k) (h k)) [0..<n] []"

definition window_inv :: "(nat \<Rightarrow> hash) \<Rightarrow> nat \<Rightarrow> randomness_provider \<Rightarrow> bool" where
  "window_inv h n m =
     (hm_inv m \<and> length m = min n 1000
      \<and> (\<forall>k < 2 ^ 64. hm_get m (of_nat k) = (if k < n \<and> n \<le> k + 1000 then Some (h k) else None)))"

lemma of_nat_u64_inject: "j < 2 ^ 64 \<Longrightarrow> k < 2 ^ 64 \<Longrightarrow> (of_nat j :: u64) = of_nat k \<longleftrightarrow> j = k"
  by (simp add: word_of_nat_eq_iff take_bit_nat_eq_self)

lemma window_step:
  assumes w: "window_inv h n m" and n: "n < 2 ^ 64"
  shows "window_inv h (Suc n) (record_block_hash (of_nat n) (h n) m)"
proof -
  let ?m1 = "hm_insert (of_nat n) (h n) m"
  have inv: "hm_inv m" and len: "length m = min n 1000" and none: "hm_get m (of_nat n) = None"
    using w n by (simp_all add: window_inv_def)
  have get: "hm_get m (of_nat k) = (if k < n \<and> n \<le> k + 1000 then Some (h k) else None)" if "k < 2 ^ 64" for k
    using w that by (simp add: window_inv_def)
  have len1: "length ?m1 = Suc (min n 1000)"
    using hm.length_keys_put [OF inv, of "of_nat n" "h n"] none len by simp
  have get1: "hm_get ?m1 (of_nat k) = (if k = n then Some (h n) else hm_get m (of_nat k))" if "k < 2 ^ 64" for k
    using that n by (simp add: update_conv' of_nat_u64_inject)
  show ?thesis
  proof (cases "n < 1000")
    case True
    then show ?thesis
      using inv len1 get1 get n
      by (auto simp: record_block_hash_def window_inv_def hm.inv_put Let_def)
  next
    case False
    have old: "checked_sub (of_nat n :: u64) 1000 = Some (of_nat (n - 1000))"
      using False n by (simp add: checked_sub_def word_le_nat_alt unsigned_of_nat take_bit_nat_eq_self of_nat_diff)
    let ?m2 = "hm_remove (of_nat (n - 1000)) ?m1"
    have get2: "hm_get ?m2 (of_nat k) = (if k = n - 1000 then None else hm_get ?m1 (of_nat k))" if "k < 2 ^ 64" for k
      using that n by (simp add: delete_conv' of_nat_u64_inject del: of_nat_diff)
    have "hm_get ?m1 (of_nat (n - 1000)) = Some (h (n - 1000))"
      using get1 [of "n - 1000"] get [of "n - 1000"] False n by simp
    then have "Suc (length ?m2) = length ?m1"
      using hm.length_keys [OF hm.inv_put [OF inv], of "of_nat n" "h n"]
        hm.length_keys [OF hm.inv_del [OF hm.inv_put [OF inv]], of "of_nat (n - 1000)" "of_nat n" "h n"]
        hm.finite_dom [OF hm.inv_put [OF inv], of "of_nat n" "h n"]
        len1
      by (simp add: delete_conv' domIff del: of_nat_diff)
    then show ?thesis
      using inv len1 get1 get get2 False n old
      by (auto simp: record_block_hash_def window_inv_def hm.inv_put hm.inv_del Let_def simp del: of_nat_diff)
  qed
qed

lemma window_get:
  "window_inv h n m \<Longrightarrow> k < 2 ^ 64 \<Longrightarrow> hm_get m (of_nat k) = (if k < n \<and> n \<le> k + 1000 then Some (h k) else None)"
  by (simp add: window_inv_def)

lemma record_chain_window: "n \<le> 2 ^ 64 \<Longrightarrow> window_inv h n (record_chain h n)"
proof (induction n)
  case 0
  show ?case by (simp add: record_chain_def window_inv_def)
next
  case (Suc n)
  then show ?case using window_step [of h n "record_chain h n"] by (simp add: record_chain_def)
qed

text \<open>
  With blocks recorded in order, the randomness of epoch \<open>e\<close> is the hash of the first block of
  epoch \<open>e - 1\<close> as long as at most 1000 blocks have been recorded from that block on; after
  that the hash has been evicted and the randomness is the zero hash, while an epoch lasts
  until 1200 blocks after it.
\<close>

theorem epoch_randomness_window:
  assumes "n \<le> 2 ^ 64" and "1 \<le> e" and "(e - 1) * 600 < n"
  shows "get_epoch_randomness (record_chain h n) (of_nat e) =
           (if n \<le> (e - 1) * 600 + 1000 then h ((e - 1) * 600) else ZERO)"
proof -
  have b: "(e - 1) * 600 < 2 ^ 64" using assms by simp
  then have e: "e < 2 ^ 64" using assms(2) by (cases e) simp_all
  have "(of_nat e :: u64) \<noteq> 0" using e assms(2) nat_dvd_not_less [of e "2 ^ 64"] by (simp add: word_of_nat_eq_0_iff)
  moreover have "((of_nat e :: u64) - 1) * EPOCH_DURATION_BLOCKS = of_nat ((e - 1) * 600)"
    using assms(2) by (simp add: const_defs of_nat_diff)
  moreover have "hm_get (record_chain h n) (of_nat ((e - 1) * 600))
      = (if n \<le> (e - 1) * 600 + 1000 then Some (h ((e - 1) * 600)) else None)"
    unfolding window_get [OF record_chain_window [OF assms(1)] b] using assms(3) by (simp only: simp_thms)
  ultimately show ?thesis by (simp add: get_epoch_randomness_def Let_def del: of_nat_mult)
qed

theorem epoch_randomness_window_witness:
  "get_epoch_randomness (record_chain (\<lambda>k. of_nat k + 1) 1001) 1 = ZERO
   \<and> get_epoch_randomness (record_chain (\<lambda>k. of_nat k + 1) 700) 1 = 1"
  using epoch_randomness_window [of 1001 1 "\<lambda>k. of_nat k + 1"] epoch_randomness_window [of 700 1 "\<lambda>k. of_nat k + 1"]
  by simp

end
