(* ===== verification/Kratos_Credits.thy ===== *)
theory Kratos_Credits
  imports Kratos_F64
begin

text \<open>
  Validator credits (VC): the record of non-transferable credits with its anti-spam limits and
  the manager over all validators, \<^verbatim>\<open>consensus/validator_credits.rs\<close>; the decay of inactive
  validators, \<^verbatim>\<open>consensus/vc_decay.rs\<close>; and the clock failure record of
  \<^verbatim>\<open>consensus/clock_health.rs\<close>.
\<close>

section \<open>The credits record\<close>

definition EPOCHS_PER_DAY :: u64 where [const_defs]: "EPOCHS_PER_DAY = 24"
definition EPOCHS_PER_MONTH :: u64 where [const_defs]: "EPOCHS_PER_MONTH = 720"
definition EPOCHS_PER_YEAR :: u64 where [const_defs]: "EPOCHS_PER_YEAR = 8760"

record vc_record =
  vc_vote_credits :: u32
  vc_uptime_credits :: u32
  vc_arbitration_credits :: u32
  vc_seniority_credits :: u32
  vc_last_update :: block_number
  vc_votes_today :: u32
  vc_votes_this_month :: u32
  vc_arbitrations_this_year :: u32
  vc_last_daily_reset_epoch :: epoch_number
  vc_last_monthly_reset_epoch :: epoch_number
  vc_last_yearly_reset_epoch :: epoch_number
  vc_active_epochs :: u32
  vc_activation_block :: block_number
  vc_last_seniority_credit_epoch :: epoch_number

datatype vc_error = VC_ValidatorNotFound | VC_DailyVoteLimitReached | VC_MonthlyVoteLimitReached
  | VC_YearlyArbitrationLimitReached | VC_InsufficientParticipation

definition vc_new :: "block_number \<Rightarrow> epoch_number \<Rightarrow> vc_record" where
  "vc_new block_number current_epoch =
     \<lparr>vc_vote_credits = 0, vc_uptime_credits = 0, vc_arbitration_credits = 0, vc_seniority_credits = 0,
      vc_last_update = block_number, vc_votes_today = 0, vc_votes_this_month = 0,
      vc_arbitrations_this_year = 0, vc_last_daily_reset_epoch = current_epoch,
      vc_last_monthly_reset_epoch = current_epoch, vc_last_yearly_reset_epoch = current_epoch,
      vc_active_epochs = 0, vc_activation_block = block_number,
      vc_last_seniority_credit_epoch = current_epoch\<rparr>"

definition total_vc :: "vc_record \<Rightarrow> u64" where
  "total_vc r = ucast (vc_vote_credits r) + ucast (vc_uptime_credits r)
     + ucast (vc_arbitration_credits r) + ucast (vc_seniority_credits r)"

definition maybe_reset_daily :: "epoch_number \<Rightarrow> vc_record \<Rightarrow> vc_record" where
  "maybe_reset_daily e r =
     (if vc_last_daily_reset_epoch r + EPOCHS_PER_DAY \<le> e
      then r\<lparr>vc_votes_today := 0, vc_last_daily_reset_epoch := e\<rparr> else r)"

definition maybe_reset_monthly :: "epoch_number \<Rightarrow> vc_record \<Rightarrow> vc_record" where
  "maybe_reset_monthly e r =
     (if vc_last_monthly_reset_epoch r + EPOCHS_PER_MONTH \<le> e
      then r\<lparr>vc_votes_this_month := 0, vc_last_monthly_reset_epoch := e\<rparr> else r)"

definition maybe_reset_yearly :: "epoch_number \<Rightarrow> vc_record \<Rightarrow> vc_record" where
  "maybe_reset_yearly e r =
     (if vc_last_yearly_reset_epoch r + EPOCHS_PER_YEAR \<le> e
      then r\<lparr>vc_arbitrations_this_year := 0, vc_last_yearly_reset_epoch := e\<rparr> else r)"

definition add_vote_credit_with_multiplier ::
  "block_number \<Rightarrow> epoch_number \<Rightarrow> u32 \<Rightarrow> vc_record \<Rightarrow> (vc_error, bool) result \<times> vc_record" where
  "add_vote_credit_with_multiplier block_number current_epoch multiplier r =
     (let r1 = maybe_reset_monthly current_epoch (maybe_reset_daily current_epoch r)
      in if 3 \<le> vc_votes_today r1 then (Ok False, r1)
         else if 50 \<le> vc_votes_this_month r1 then (Ok False, r1)
         else (Ok True, r1\<lparr>vc_vote_credits := sat_add (vc_vote_credits r1) (max multiplier 1),
                           vc_votes_today := vc_votes_today r1 + 1,
                           vc_votes_this_month := vc_votes_this_month r1 + 1,
                           vc_last_update := block_number\<rparr>))"

definition add_vote_credit :: "block_number \<Rightarrow> epoch_number \<Rightarrow> vc_record \<Rightarrow> (vc_error, bool) result \<times> vc_record" where
  "add_vote_credit block_number current_epoch r = add_vote_credit_with_multiplier block_number current_epoch 1 r"

definition add_uptime_credit_with_multiplier ::
  "block_number \<Rightarrow> f64 \<Rightarrow> u32 \<Rightarrow> vc_record \<Rightarrow> (vc_error, bool) result \<times> vc_record" where
  "add_uptime_credit_with_multiplier block_number participation_rate multiplier r =
     (if participation_rate < rnd (95 / 100) then (Ok False, r)
      else (Ok True, r\<lparr>vc_uptime_credits := sat_add (vc_uptime_credits r) (max multiplier 1),
                       vc_last_update := block_number\<rparr>))"

definition add_uptime_credit :: "block_number \<Rightarrow> f64 \<Rightarrow> vc_record \<Rightarrow> (vc_error, bool) result \<times> vc_record" where
  "add_uptime_credit block_number participation_rate r =
     add_uptime_credit_with_multiplier block_number participation_rate 1 r"

definition add_arbitration_credit :: "block_number \<Rightarrow> epoch_number \<Rightarrow> vc_record \<Rightarrow> (vc_error, bool) result \<times> vc_record" where
  "add_arbitration_credit block_number current_epoch r =
     (let r1 = maybe_reset_yearly current_epoch r
      in if 5 \<le> vc_arbitrations_this_year r1 then (Ok False, r1)
         else (Ok True, r1\<lparr>vc_arbitration_credits := vc_arbitration_credits r1 + 5,
                           vc_arbitrations_this_year := vc_arbitrations_this_year r1 + 1,
                           vc_last_update := block_number\<rparr>))"

definition add_seniority_credit :: "block_number \<Rightarrow> epoch_number \<Rightarrow> vc_record \<Rightarrow> (vc_error, bool) result \<times> vc_record" where
  "add_seniority_credit block_number current_epoch r =
     (if current_epoch < vc_last_seniority_credit_epoch r + EPOCHS_PER_MONTH then (Ok False, r)
      else (Ok True, r\<lparr>vc_seniority_credits := sat_add (vc_seniority_credits r) 5,
                       vc_active_epochs := sat_add (vc_active_epochs r) (ucast EPOCHS_PER_MONTH),
                       vc_last_seniority_credit_epoch := current_epoch,
                       vc_last_update := block_number\<rparr>))"

section \<open>The credits manager\<close>

type_synonym vc_manager = "(account_id, vc_record) hmap"

definition initialize_validator :: "account_id \<Rightarrow> block_number \<Rightarrow> epoch_number \<Rightarrow> vc_manager \<Rightarrow> vc_manager" where
  "initialize_validator i block_number current_epoch m = hm_insert i (vc_new block_number current_epoch) m"

definition manager_total_vc :: "vc_manager \<Rightarrow> account_id \<Rightarrow> u64" where
  "manager_total_vc m i = (case hm_get m i of Some r \<Rightarrow> total_vc r | None \<Rightarrow> 0)"

text \<open>The common shape of the manager's methods: find the record, run the operation on it.\<close>

definition with_record ::
  "account_id \<Rightarrow> (vc_record \<Rightarrow> (vc_error, bool) result \<times> vc_record) \<Rightarrow> vc_manager \<Rightarrow> (vc_error, bool) result \<times> vc_manager" where
  "with_record i f m =
     (case hm_get m i of
        None \<Rightarrow> (Err VC_ValidatorNotFound, m)
      | Some r \<Rightarrow> (let (res, r') = f r in (res, hm_insert i r' m)))"

definition record_governance_vote_with_multiplier ::
  "account_id \<Rightarrow> block_number \<Rightarrow> epoch_number \<Rightarrow> u32 \<Rightarrow> vc_manager \<Rightarrow> (vc_error, bool) result \<times> vc_manager" where
  "record_governance_vote_with_multiplier i b e k m = with_record i (add_vote_credit_with_multiplier b e k) m"

definition record_uptime_with_multiplier ::
  "account_id \<Rightarrow> block_number \<Rightarrow> f64 \<Rightarrow> u32 \<Rightarrow> vc_manager \<Rightarrow> (vc_error, bool) result \<times> vc_manager" where
  "record_uptime_with_multiplier i b rate k m = with_record i (add_uptime_credit_with_multiplier b rate k) m"

definition record_arbitration ::
  "account_id \<Rightarrow> block_number \<Rightarrow> epoch_number \<Rightarrow> vc_manager \<Rightarrow> (vc_error, bool) result \<times> vc_manager" where
  "record_arbitration i b e m = with_record i (add_arbitration_credit b e) m"

definition update_seniority ::
  "account_id \<Rightarrow> block_number \<Rightarrow> epoch_number \<Rightarrow> vc_manager \<Rightarrow> (vc_error, bool) result \<times> vc_manager" where
  "update_seniority i b e m = with_record i (add_seniority_credit b e) m"

definition update_all_seniority ::
  "block_number \<Rightarrow> epoch_number \<Rightarrow> vc_manager \<Rightarrow> (account_id \<times> bool) list \<times> vc_manager" where
  "update_all_seniority b e m =
     (map (\<lambda>(i, r). (i, case fst (add_seniority_credit b e r) of Inr a \<Rightarrow> a | Inl _ \<Rightarrow> False)) m,
      map (\<lambda>(i, r). (i, snd (add_seniority_credit b e r))) m)"

section \<open>Clock failures\<close>

definition CLOCK_FAILURE_VC_PENALTY :: u64 where [const_defs]: "CLOCK_FAILURE_VC_PENALTY = 1"

record clock_record =
  ck_clock_sync_failures :: u32
  ck_last_exclusion_epoch :: "epoch_number option"
  ck_total_excluded_slots :: u64

definition clock_record_new :: clock_record where
  "clock_record_new = \<lparr>ck_clock_sync_failures = 0, ck_last_exclusion_epoch = None, ck_total_excluded_slots = 0\<rparr>"

definition record_failure :: "epoch_number \<Rightarrow> clock_record \<Rightarrow> clock_record" where
  "record_failure epoch r =
     r\<lparr>ck_clock_sync_failures := ck_clock_sync_failures r + 1, ck_last_exclusion_epoch := Some epoch\<rparr>"

definition record_missed_slot :: "clock_record \<Rightarrow> clock_record" where
  "record_missed_slot r = r\<lparr>ck_total_excluded_slots := ck_total_excluded_slots r + 1\<rparr>"

definition vc_penalty :: "clock_record \<Rightarrow> u64" where
  "vc_penalty r = ucast (ck_clock_sync_failures r) * CLOCK_FAILURE_VC_PENALTY"

section \<open>Decay\<close>

record decay_config =
  dc_decay_rate :: f64
  dc_epochs_per_quarter :: u64
  dc_min_vc_threshold :: u64

definition decay_config_default :: decay_config where
  "decay_config_default = \<lparr>dc_decay_rate = rnd (10 / 100), dc_epochs_per_quarter = 13, dc_min_vc_threshold = 1\<rparr>"

record activity_tracker =
  at_validator_id :: account_id
  at_last_activity_epoch :: epoch_number
  at_has_governance_vote :: bool
  at_has_uptime_credit :: bool
  at_has_arbitration :: bool
  at_last_decay_quarter :: u64
  at_quarter_start_epoch :: epoch_number

datatype decay_error = DE_ValidatorNotFound | DE_InvalidConfig

record decay_manager =
  dm_config :: decay_config
  dm_trackers :: "(account_id, activity_tracker) hmap"

definition tracker_new :: "account_id \<Rightarrow> epoch_number \<Rightarrow> activity_tracker" where
  "tracker_new i e =
     \<lparr>at_validator_id = i, at_last_activity_epoch = e, at_has_governance_vote = False,
      at_has_uptime_credit = False, at_has_arbitration = False, at_last_decay_quarter = 0,
      at_quarter_start_epoch = e\<rparr>"

definition is_inactive :: "activity_tracker \<Rightarrow> bool" where
  "is_inactive t = (\<not> at_has_governance_vote t \<and> \<not> at_has_uptime_credit t \<and> \<not> at_has_arbitration t)"

definition tracker_governance_vote :: "epoch_number \<Rightarrow> activity_tracker \<Rightarrow> activity_tracker" where
  "tracker_governance_vote e t = t\<lparr>at_has_governance_vote := True, at_last_activity_epoch := e\<rparr>"

definition tracker_uptime_credit :: "epoch_number \<Rightarrow> activity_tracker \<Rightarrow> activity_tracker" where
  "tracker_uptime_credit e t = t\<lparr>at_has_uptime_credit := True, at_last_activity_epoch := e\<rparr>"

definition tracker_arbitration :: "epoch_number \<Rightarrow> activity_tracker \<Rightarrow> activity_tracker" where
  "tracker_arbitration e t = t\<lparr>at_has_arbitration := True, at_last_activity_epoch := e\<rparr>"

definition reset_quarter :: "epoch_number \<Rightarrow> activity_tracker \<Rightarrow> activity_tracker" where
  "reset_quarter start t =
     t\<lparr>at_has_governance_vote := False, at_has_uptime_credit := False, at_has_arbitration := False,
       at_quarter_start_epoch := start\<rparr>"

definition decay_initialize_validator :: "account_id \<Rightarrow> epoch_number \<Rightarrow> decay_manager \<Rightarrow> decay_manager" where
  "decay_initialize_validator i e D = D\<lparr>dm_trackers := hm_insert i (tracker_new i e) (dm_trackers D)\<rparr>"

definition record_activity ::
  "account_id \<Rightarrow> (activity_tracker \<Rightarrow> activity_tracker) \<Rightarrow> decay_manager \<Rightarrow> (decay_error, unit) result \<times> decay_manager" where
  "record_activity i f D =
     (case hm_get (dm_trackers D) i of
        None \<Rightarrow> (Err DE_ValidatorNotFound, D)
      | Some t \<Rightarrow> (Ok (), D\<lparr>dm_trackers := hm_insert i (f t) (dm_trackers D)\<rparr>))"

definition record_governance_activity ::
  "account_id \<Rightarrow> epoch_number \<Rightarrow> decay_manager \<Rightarrow> (decay_error, unit) result \<times> decay_manager" where
  "record_governance_activity i e D = record_activity i (tracker_governance_vote e) D"

definition record_uptime_activity ::
  "account_id \<Rightarrow> epoch_number \<Rightarrow> decay_manager \<Rightarrow> (decay_error, unit) result \<times> decay_manager" where
  "record_uptime_activity i e D = record_activity i (tracker_uptime_credit e) D"

definition record_arbitration_activity ::
  "account_id \<Rightarrow> epoch_number \<Rightarrow> decay_manager \<Rightarrow> (decay_error, unit) result \<times> decay_manager" where
  "record_arbitration_activity i e D = record_activity i (tracker_arbitration e) D"

text \<open>One category's part of an amount taken proportionally, \<open>(credits * amount) / total\<close> as \<open>u32\<close>.\<close>

definition proportional_part :: "u32 \<Rightarrow> u64 \<Rightarrow> u64 \<Rightarrow> u32" where
  "proportional_part credits amount tot = ucast (ucast credits * amount div tot)"

definition apply_proportional_decay :: "u64 \<Rightarrow> block_number \<Rightarrow> vc_record \<Rightarrow> vc_record" where
  "apply_proportional_decay decay_amount current_block r =
     (let tot = total_vc r
      in if tot = 0 then r
         else r\<lparr>vc_vote_credits := sat_sub (vc_vote_credits r) (proportional_part (vc_vote_credits r) decay_amount tot),
                vc_uptime_credits := sat_sub (vc_uptime_credits r) (proportional_part (vc_uptime_credits r) decay_amount tot),
                vc_arbitration_credits :=
                  sat_sub (vc_arbitration_credits r) (proportional_part (vc_arbitration_credits r) decay_amount tot),
                vc_seniority_credits :=
                  sat_sub (vc_seniority_credits r) (proportional_part (vc_seniority_credits r) decay_amount tot),
                vc_last_update := current_block\<rparr>)"

definition close_quarter :: "u64 \<Rightarrow> epoch_number \<Rightarrow> activity_tracker \<Rightarrow> activity_tracker" where
  "close_quarter quarter e t = reset_quarter e (t\<lparr>at_last_decay_quarter := quarter\<rparr>)"

definition apply_decay_if_needed ::
  "account_id \<Rightarrow> epoch_number \<Rightarrow> block_number \<Rightarrow> vc_record \<Rightarrow> decay_manager
     \<Rightarrow> (decay_error, bool) result \<times> vc_record \<times> decay_manager" where
  "apply_decay_if_needed i current_epoch current_block r D =
     (let current_quarter = current_epoch div dc_epochs_per_quarter (dm_config D)
      in case hm_get (dm_trackers D) i of
           None \<Rightarrow> (Err DE_ValidatorNotFound, r, D)
         | Some t \<Rightarrow>
             if current_quarter \<le> at_last_decay_quarter t then (Ok False, r, D)
             else let D' = D\<lparr>dm_trackers := hm_insert i (close_quarter current_quarter current_epoch t) (dm_trackers D)\<rparr>
                  in if is_inactive t
                     then if total_vc r \<le> dc_min_vc_threshold (dm_config D) then (Ok False, r, D')
                          else let decay_amount =
                                     max (f64_to_word (fmul (f64_of_word (total_vc r)) (dc_decay_rate (dm_config D)))) 1
                               in (Ok True, apply_proportional_decay decay_amount current_block r, D')
                     else (Ok False, r, D'))"

section \<open>Totals and proportional parts\<close>

definition vc_nat :: "vc_record \<Rightarrow> nat" where
  "vc_nat r = unat (vc_vote_credits r) + unat (vc_uptime_credits r)
     + unat (vc_arbitration_credits r) + unat (vc_seniority_credits r)"

lemma unat_lt32: "unat (x :: u32) < 4294967296"
  using unsigned_less [of x, where 'a = nat] by simp

lemma unat_total_vc: "unat (total_vc r) = vc_nat r"
proof -
  note b = unat_lt32 [of "vc_vote_credits r"] unat_lt32 [of "vc_uptime_credits r"]
    unat_lt32 [of "vc_arbitration_credits r"] unat_lt32 [of "vc_seniority_credits r"]
  show ?thesis
    unfolding total_vc_def vc_nat_def using b by (simp add: unat_add_fits)
qed

lemma proportional_parts_nat:
  fixes c1 c2 c3 c4 A T :: nat
  assumes T: "c1 + c2 + c3 + c4 = T" "0 < T"
  defines "p \<equiv> \<lambda>c. c * A div T"
  shows "p c1 + p c2 + p c3 + p c4 \<le> A" and "A \<le> p c1 + p c2 + p c3 + p c4 + 3"
proof -
  have lo: "p c * T \<le> c * A" and hi: "c * A < p c * T + T" for c
    using T(2) div_mult_mod_eq [of "c * A" T] mod_less_divisor [of T "c * A"] unfolding p_def by linarith+
  have "(p c1 + p c2 + p c3 + p c4) * T \<le> (c1 + c2 + c3 + c4) * A"
    using lo [of c1] lo [of c2] lo [of c3] lo [of c4] by (simp add: algebra_simps)
  then have "(p c1 + p c2 + p c3 + p c4) * T \<le> A * T" by (simp add: T(1) mult.commute)
  then show "p c1 + p c2 + p c3 + p c4 \<le> A" using T(2) by simp
  have "(c1 + c2 + c3 + c4) * A < (p c1 + p c2 + p c3 + p c4 + 4) * T"
    using hi [of c1] hi [of c2] hi [of c3] hi [of c4] by (simp add: algebra_simps)
  then have "A * T < (p c1 + p c2 + p c3 + p c4 + 4) * T" by (simp only: T(1) mult.commute [of A])
  then show "A \<le> p c1 + p c2 + p c3 + p c4 + 3" using T(2) by simp
qed

lemma proportional_part_nat:
  assumes "unat a \<le> unat t" and "unat t < 2 ^ 32" and "0 < unat t"
  shows "unat (proportional_part c a t) = unat c * unat a div unat t" and "unat c * unat a div unat t \<le> unat c"
proof -
  have "unat c * unat a < 2 ^ 32 * 2 ^ 32"
    using assms(1,2) unat_lt32 [of c] by (intro mult_strict_mono') simp_all
  then have fits: "unat (ucast c * a :: u64) = unat c * unat a"
    by (subst unat_mult_fits) simp_all
  have "unat c * unat a div unat t \<le> unat c * unat t div unat t"
    using assms(1) by (intro div_le_mono mult_le_mono2)
  then show le: "unat c * unat a div unat t \<le> unat c" using assms(3) by simp
  then have "unat c * unat a div unat t < 2 ^ 32" using unat_lt32 [of c] by simp
  then show "unat (proportional_part c a t) = unat c * unat a div unat t"
    by (simp add: proportional_part_def unsigned_ucast_eq unat_div_distrib fits take_bit_nat_eq_self)
qed

text \<open>
  The interval in which the sum of four proportional parts lies, for a record with total below
  \<open>2 ^ 32\<close>: never more than the amount asked for, and at most 3 less.
\<close>

lemma record_parts:
  assumes a: "unat a \<le> vc_nat r" and r: "0 < vc_nat r" "vc_nat r < 2 ^ 32"
  defines "part \<equiv> \<lambda>c. unat (proportional_part c a (total_vc r))"
  shows "part (vc_vote_credits r) + part (vc_uptime_credits r) + part (vc_arbitration_credits r)
           + part (vc_seniority_credits r) \<le> unat a"
    and "unat a \<le> part (vc_vote_credits r) + part (vc_uptime_credits r) + part (vc_arbitration_credits r)
           + part (vc_seniority_credits r) + 3"
    and "part c \<le> unat c"
proof -
  have p: "part c = unat c * unat a div vc_nat r" "part c \<le> unat c" for c
    using proportional_part_nat [of a "total_vc r" c] a r by (simp_all add: part_def unat_total_vc)
  show "part (vc_vote_credits r) + part (vc_uptime_credits r) + part (vc_arbitration_credits r)
           + part (vc_seniority_credits r) \<le> unat a"
    "unat a \<le> part (vc_vote_credits r) + part (vc_uptime_credits r) + part (vc_arbitration_credits r)
           + part (vc_seniority_credits r) + 3"
    unfolding p(1)
    using proportional_parts_nat [OF _ r(1), of "unat (vc_vote_credits r)" "unat (vc_uptime_credits r)"
        "unat (vc_arbitration_credits r)" "unat (vc_seniority_credits r)" "unat a"]
    by (simp_all add: vc_nat_def)
  show "part c \<le> unat c" by (rule p(2))
qed

text \<open>
  For a total below \<open>2 ^ 32\<close> the proportional decay of \<open>a\<close> credits takes at most \<open>a\<close> and at least
  \<open>a - 3\<close> of them, no category grows, and only the credit categories and the update block change.
\<close>

theorem decay_bounds:
  fixes a :: u64 and b :: block_number and r :: vc_record
  assumes "unat a \<le> vc_nat r" and "0 < vc_nat r" and "vc_nat r < 2 ^ 32"
  defines "r' \<equiv> apply_proportional_decay a b r"
  shows "vc_nat r \<le> vc_nat r' + unat a \<and> vc_nat r' + unat a \<le> vc_nat r + 3
       \<and> vc_vote_credits r' \<le> vc_vote_credits r \<and> vc_uptime_credits r' \<le> vc_uptime_credits r
       \<and> vc_arbitration_credits r' \<le> vc_arbitration_credits r \<and> vc_seniority_credits r' \<le> vc_seniority_credits r
       \<and> vc_votes_today r' = vc_votes_today r \<and> vc_last_update r' = b"
proof -
  have "total_vc r \<noteq> 0" using assms(2) unat_total_vc [of r] by auto
  then have r': "r' = r\<lparr>
      vc_vote_credits := sat_sub (vc_vote_credits r) (proportional_part (vc_vote_credits r) a (total_vc r)),
      vc_uptime_credits := sat_sub (vc_uptime_credits r) (proportional_part (vc_uptime_credits r) a (total_vc r)),
      vc_arbitration_credits :=
        sat_sub (vc_arbitration_credits r) (proportional_part (vc_arbitration_credits r) a (total_vc r)),
      vc_seniority_credits :=
        sat_sub (vc_seniority_credits r) (proportional_part (vc_seniority_credits r) a (total_vc r)),
      vc_last_update := b\<rparr>"
    by (simp add: r'_def apply_proportional_decay_def Let_def)
  have "unat (sat_sub c (proportional_part c a (total_vc r))) + unat (proportional_part c a (total_vc r)) = unat c" for c
    using record_parts(3) [OF assms(1-3), of c] by (simp add: unat_sat_sub)
  note parts = this [of "vc_vote_credits r"] this [of "vc_uptime_credits r"] this [of "vc_arbitration_credits r"]
    this [of "vc_seniority_credits r"]
  have "vc_nat r' = unat (sat_sub (vc_vote_credits r) (proportional_part (vc_vote_credits r) a (total_vc r)))
      + unat (sat_sub (vc_uptime_credits r) (proportional_part (vc_uptime_credits r) a (total_vc r)))
      + unat (sat_sub (vc_arbitration_credits r) (proportional_part (vc_arbitration_credits r) a (total_vc r)))
      + unat (sat_sub (vc_seniority_credits r) (proportional_part (vc_seniority_credits r) a (total_vc r)))"
    by (simp only: r' vc_nat_def) simp
  then have "vc_nat r \<le> vc_nat r' + unat a" "vc_nat r' + unat a \<le> vc_nat r + 3"
    using parts record_parts(1,2) [OF assms(1-3)] vc_nat_def [of r] by linarith+
  then show ?thesis by (simp add: r' sat_sub_le)
qed

theorem decay_bounds_witness:
  "vc_nat (apply_proportional_decay 2 9 ((vc_new 0 0)\<lparr>vc_vote_credits := 10, vc_uptime_credits := 10\<rparr>)) \<in> {18..21}"
proof -
  have "vc_nat ((vc_new 0 0)\<lparr>vc_vote_credits := 10, vc_uptime_credits := 10\<rparr>) = 20"
    by (simp add: vc_nat_def vc_new_def)
  then show ?thesis
    using decay_bounds [of 2 "(vc_new 0 0)\<lparr>vc_vote_credits := 10, vc_uptime_credits := 10\<rparr>" 9] by simp
qed

section \<open>Rate limits\<close>

definition limits_ok :: "vc_record \<Rightarrow> bool" where
  "limits_ok r = (vc_votes_today r \<le> 3 \<and> vc_votes_this_month r \<le> 50 \<and> vc_arbitrations_this_year r \<le> 5)"

lemma u32_Suc: "x < n \<Longrightarrow> unat (x + 1 :: u32) = Suc (unat x)"
  using unat_lt32 [of n] by (subst unat_add_fits) (simp_all add: word_less_nat_alt)

lemma limits_vc_new: "limits_ok (vc_new b e)"
  by (simp add: limits_ok_def vc_new_def)

lemma add_vote_credit_limits: "limits_ok r \<Longrightarrow> limits_ok (snd (add_vote_credit_with_multiplier b e k r))"
  by (auto simp: limits_ok_def add_vote_credit_with_multiplier_def maybe_reset_daily_def maybe_reset_monthly_def Let_def
      word_le_nat_alt u32_Suc [of _ 3] u32_Suc [of _ 50] word_less_nat_alt)

lemma add_arbitration_credit_limits: "limits_ok r \<Longrightarrow> limits_ok (snd (add_arbitration_credit b e r))"
  by (auto simp: limits_ok_def add_arbitration_credit_def maybe_reset_yearly_def Let_def
      word_le_nat_alt u32_Suc [of _ 5] word_less_nat_alt)

text \<open>A sequence of vote attempts, counting the accepted ones.\<close>

fun run_votes :: "(block_number \<times> epoch_number \<times> u32) list \<Rightarrow> vc_record \<Rightarrow> nat \<times> vc_record" where
  "run_votes [] r = (0, r)"
| "run_votes ((b, e, k) # ops) r =
     (let (res, r') = add_vote_credit_with_multiplier b e k r; (n, r'') = run_votes ops r'
      in ((if res = Ok True then Suc n else n), r''))"

lemma vote_attempt:
  assumes "limits_ok r" and "unat (vc_last_daily_reset_epoch r) + 24 < 2 ^ 64"
    and "add_vote_credit_with_multiplier b e k r = (res, r')"
  defines "vt \<equiv> if unat (vc_last_daily_reset_epoch r) + 24 \<le> unat e then 0 else unat (vc_votes_today r)"
  shows "vc_last_daily_reset_epoch r' =
           (if unat (vc_last_daily_reset_epoch r) + 24 \<le> unat e then e else vc_last_daily_reset_epoch r)"
    and "unat (vc_votes_today r') = vt + (if res = Ok True then 1 else 0)"
proof -
  have "vc_last_daily_reset_epoch r + 24 \<le> e \<longleftrightarrow> unat (vc_last_daily_reset_epoch r) + 24 \<le> unat e"
    using assms(2) by (simp add: word_le_nat_alt unat_add_fits)
  then show "vc_last_daily_reset_epoch r' =
           (if unat (vc_last_daily_reset_epoch r) + 24 \<le> unat e then e else vc_last_daily_reset_epoch r)"
    "unat (vc_votes_today r') = vt + (if res = Ok True then 1 else 0)"
    using assms(3)
    by (auto simp: add_vote_credit_with_multiplier_def maybe_reset_daily_def maybe_reset_monthly_def Let_def
        EPOCHS_PER_DAY_def vt_def not_le u32_Suc [of _ 3] split: if_splits)
qed

lemma run_votes_bound:
  assumes "limits_ok r" and "unat (vc_last_daily_reset_epoch r) + 24 < 2 ^ 64" and "s + 48 < 2 ^ 64"
    and "\<forall>(b, e, k) \<in> set ops. s \<le> unat e \<and> unat e < s + 24"
  shows "fst (run_votes ops r) + unat (vc_votes_today r) \<le> (if s \<le> unat (vc_last_daily_reset_epoch r) then 3 else 6)"
  using assms
proof (induction ops arbitrary: r)
  case Nil
  then show ?case by (simp add: limits_ok_def word_le_nat_alt)
next
  case (Cons op ops)
  obtain b e k where op: "op = (b, e, k)" by (cases op)
  obtain res r' where st: "add_vote_credit_with_multiplier b e k r = (res, r')"
    by (cases "add_vote_credit_with_multiplier b e k r")
  note v = vote_attempt [OF Cons.prems(1,2) st]
  have lim: "limits_ok r'" using add_vote_credit_limits [OF Cons.prems(1), of b e k] st by simp
  have e: "s \<le> unat e" "unat e < s + 24" using Cons.prems(4) op by auto
  have "unat (vc_last_daily_reset_epoch r') + 24 < 2 ^ 64"
    unfolding v(1) using Cons.prems(2,3) e by simp
  then have IH: "fst (run_votes ops r') + unat (vc_votes_today r')
      \<le> (if s \<le> unat (vc_last_daily_reset_epoch r') then 3 else 6)"
    using Cons.IH [OF lim] Cons.prems(3,4) by simp
  have today: "unat (vc_votes_today r) \<le> 3" using Cons.prems(1) by (simp add: limits_ok_def word_le_nat_alt)
  have "fst (run_votes (op # ops) r) = fst (run_votes ops r') + (if res = Ok True then 1 else 0)"
    by (simp add: op st split_beta Let_def)
  then show ?case
    using IH e today v by (auto split: if_splits)
qed

text \<open>
  In any 24 consecutive epochs (one day) a validator is credited for at most 6 governance votes,
  however the attempts are spread over the day; the daily counter resets at most once in it.
\<close>

theorem vote_rate_limit:
  assumes "limits_ok r" and "unat (vc_last_daily_reset_epoch r) + 24 < 2 ^ 64" and "s + 48 < 2 ^ 64"
    and "\<forall>(b, e, k) \<in> set ops. s \<le> unat e \<and> unat e < s + 24"
  shows "fst (run_votes ops r) \<le> 6"
  using run_votes_bound [OF assms] by (simp split: if_splits)

theorem vote_rate_limit_witness:
  "fst (run_votes [(1, 10, 1), (2, 11, 1), (3, 12, 1), (4, 13, 1)] (vc_new 0 0)) \<le> 6"
  by (rule vote_rate_limit [of _ 10]) (simp_all add: limits_vc_new, simp add: vc_new_def)

end
