(* ===== verification/Kratos_Slashing.thy ===== *)
theory Kratos_Slashing
  imports Kratos_Credits
begin

text \<open>
  Penalties, \<^verbatim>\<open>consensus/slashing.rs\<close>: the severity of a slashable event, how much of a
  validator's credits and stake it costs, the cooldown it starts, the ejection after repeated
  critical events, and the maintenance at epoch boundaries.
\<close>

section \<open>Severities and events\<close>

datatype severity = Critical | High | Medium | Low

fun vc_slash_percent :: "severity \<Rightarrow> f64" where
  "vc_slash_percent Critical = rnd (50 / 100)"
| "vc_slash_percent High = rnd (25 / 100)"
| "vc_slash_percent Medium = rnd (10 / 100)"
| "vc_slash_percent Low = rnd (5 / 100)"

fun stake_slash_percent :: "severity \<Rightarrow> f64" where
  "stake_slash_percent Critical = rnd (20 / 100)"
| "stake_slash_percent High = rnd (5 / 100)"
| "stake_slash_percent Medium = rnd (1 / 100)"
| "stake_slash_percent Low = 0"

definition requires_cooldown :: "severity \<Rightarrow> bool" where
  "requires_cooldown s = (s = Critical \<or> s = High)"

fun cooldown_epochs :: "severity \<Rightarrow> u64" where
  "cooldown_epochs Critical = 52"
| "cooldown_epochs High = 12"
| "cooldown_epochs _ = 0"

datatype slashable_event =
    DoubleSigning u64 epoch_number hash hash
  | Equivocation epoch_number bytes
  | ArbitrationMisconduct u64 string
  | InvalidGovernanceExecution u64 string
  | ExtendedDowntime u64
  | RepeatedLowParticipation "epoch_number list" f64

fun event_severity :: "slashable_event \<Rightarrow> severity" where
  "event_severity (DoubleSigning _ _ _ _) = Critical"
| "event_severity (Equivocation _ _) = Critical"
| "event_severity (ArbitrationMisconduct _ _) = High"
| "event_severity (InvalidGovernanceExecution _ _) = High"
| "event_severity (ExtendedDowntime epochs_offline) = (if 12 \<le> epochs_offline then Medium else Low)"
| "event_severity (RepeatedLowParticipation _ avg) = (if avg < rnd (50 / 100) then Medium else Low)"

section \<open>The slashing manager\<close>

record slashing_record =
  sl_validator_id :: account_id
  sl_event :: slashable_event
  sl_slash_epoch :: epoch_number
  sl_slash_block :: block_number
  sl_vc_slashed :: u64
  sl_stake_slashed :: balance
  sl_cooldown_until_epoch :: "epoch_number option"
  sl_ejected :: bool

record cooldown_state =
  cs_reason :: severity
  cs_start_epoch :: epoch_number
  cs_end_epoch :: epoch_number
  cs_critical_event_count :: u32

record critical_count_state =
  cc_count :: u32
  cc_last_critical_epoch :: epoch_number

record slashing_manager =
  sm_slashing_records :: "slashing_record list"
  sm_cooldown_states :: "(account_id, cooldown_state) hmap"
  sm_critical_counts :: "(account_id, critical_count_state) hmap"

definition MAX_SLASHING_RECORDS :: nat where [const_defs]: "MAX_SLASHING_RECORDS = 10000"
definition SLASHING_RECORD_RETENTION_EPOCHS :: u64 where [const_defs]: "SLASHING_RECORD_RETENTION_EPOCHS = 104"
definition CRITICAL_COUNT_DECAY_EPOCHS :: u64 where [const_defs]: "CRITICAL_COUNT_DECAY_EPOCHS = 26"

definition slashing_new :: slashing_manager where
  "slashing_new = \<lparr>sm_slashing_records = [], sm_cooldown_states = [], sm_critical_counts = []\<rparr>"

text \<open>\<open>f64::round\<close> on a non-negative value; the guards for NaN and infinity cannot fire on a finite one.\<close>

definition f64_round :: "f64 \<Rightarrow> f64" where
  "f64_round x = of_int \<lfloor>x + 1 / 2\<rfloor>"

definition percent_of :: "'a::len word \<Rightarrow> f64 \<Rightarrow> 'a word" where
  "percent_of amount percent =
     (let p = min (max percent 0) 1;
          slash_f64 = fmul (f64_of_word amount) p;
          slash_amount = (if slash_f64 < 0 then 0
                          else if f64_of_word (- 1 :: 'a word) < slash_f64 then - 1
                          else f64_to_word (f64_round slash_f64))
      in min slash_amount amount)"

definition calculate_vc_slash :: "vc_record \<Rightarrow> severity \<Rightarrow> u64" where
  "calculate_vc_slash r s = percent_of (total_vc r) (vc_slash_percent s)"

definition calculate_stake_slash :: "balance \<Rightarrow> severity \<Rightarrow> balance" where
  "calculate_stake_slash current_stake s = percent_of current_stake (stake_slash_percent s)"

definition max_category :: "vc_record \<Rightarrow> nat" where
  "max_category r =
     (case max_by_key fst [(vc_vote_credits r, 0), (vc_uptime_credits r, 1),
                           (vc_arbitration_credits r, 2), (vc_seniority_credits r, 3)] of
        Some (_, idx) \<Rightarrow> idx | None \<Rightarrow> 0)"

definition apply_vc_slash :: "u64 \<Rightarrow> block_number \<Rightarrow> vc_record \<Rightarrow> vc_record" where
  "apply_vc_slash slash_amount current_block r =
     (if slash_amount = 0 then r
      else let tot = total_vc r
           in if tot = 0 then r
              else let vote = proportional_part (vc_vote_credits r) slash_amount tot;
                       uptime = proportional_part (vc_uptime_credits r) slash_amount tot;
                       arbitration = proportional_part (vc_arbitration_credits r) slash_amount tot;
                       seniority = proportional_part (vc_seniority_credits r) slash_amount tot;
                       proportional_sum = (ucast vote + ucast uptime + ucast arbitration + ucast seniority :: u64);
                       residual = (if proportional_sum < slash_amount
                                   then ucast (slash_amount - proportional_sum) else 0 :: u32);
                       m = max_category r;
                       extra = (\<lambda>i. if m = i then residual else 0)
                   in r\<lparr>vc_vote_credits := sat_sub (vc_vote_credits r) (vote + extra 0),
                        vc_uptime_credits := sat_sub (vc_uptime_credits r) (uptime + extra 1),
                        vc_arbitration_credits := sat_sub (vc_arbitration_credits r) (arbitration + extra 2),
                        vc_seniority_credits := sat_sub (vc_seniority_credits r) (seniority + extra 3),
                        vc_last_update := current_block\<rparr>)"

definition critical_decay :: "epoch_number \<Rightarrow> critical_count_state \<Rightarrow> u32" where
  "critical_decay current_epoch c =
     (if 0 < CRITICAL_COUNT_DECAY_EPOCHS
      then ucast (sat_sub current_epoch (cc_last_critical_epoch c) div CRITICAL_COUNT_DECAY_EPOCHS) else 0)"

text \<open>The critical count after an event: decayed first, then incremented.\<close>

definition bump_critical :: "epoch_number \<Rightarrow> critical_count_state option \<Rightarrow> critical_count_state" where
  "bump_critical current_epoch entry =
     (let c = (case entry of Some c \<Rightarrow> c | None \<Rightarrow> \<lparr>cc_count = 0, cc_last_critical_epoch = current_epoch\<rparr>)
      in c\<lparr>cc_count := sat_sub (cc_count c) (critical_decay current_epoch c) + 1,
           cc_last_critical_epoch := current_epoch\<rparr>)"

definition determine_cooldown_ejection ::
  "account_id \<Rightarrow> severity \<Rightarrow> epoch_number \<Rightarrow> slashing_manager \<Rightarrow> (epoch_number option \<times> bool) \<times> slashing_manager" where
  "determine_cooldown_ejection i s current_epoch M =
     (let M1 = (if s = Critical
                then M\<lparr>sm_critical_counts := hm_insert i (bump_critical current_epoch (hm_get (sm_critical_counts M) i))
                                              (sm_critical_counts M)\<rparr>
                else M);
          critical_count = (case hm_get (sm_critical_counts M1) i of Some c \<Rightarrow> cc_count c | None \<Rightarrow> 0)
      in if s = Critical \<and> 3 \<le> critical_count then ((None, True), M1)
         else if requires_cooldown s
         then let end_epoch = current_epoch + cooldown_epochs s
              in ((Some end_epoch, False),
                  M1\<lparr>sm_cooldown_states := hm_insert i
                       \<lparr>cs_reason = s, cs_start_epoch = current_epoch, cs_end_epoch = end_epoch,
                        cs_critical_event_count = critical_count\<rparr> (sm_cooldown_states M1)\<rparr>)
         else ((None, False), M1))"

definition slash_validator ::
  "account_id \<Rightarrow> slashable_event \<Rightarrow> epoch_number \<Rightarrow> block_number \<Rightarrow> vc_record \<Rightarrow> balance \<Rightarrow> slashing_manager
     \<Rightarrow> slashing_record \<times> vc_record \<times> slashing_manager" where
  "slash_validator i event current_epoch current_block r current_stake M =
     (let s = event_severity event;
          vc_before = total_vc r;
          r' = apply_vc_slash (calculate_vc_slash r s) current_block r;
          vc_after = total_vc r';
          stake_slash_amount = (if vc_after = 0 \<or> s = Critical then calculate_stake_slash current_stake s else 0);
          ((cooldown_until, ejected), M1) = determine_cooldown_ejection i s current_epoch M;
          rec = \<lparr>sl_validator_id = i, sl_event = event, sl_slash_epoch = current_epoch, sl_slash_block = current_block,
                 sl_vc_slashed = vc_before - vc_after, sl_stake_slashed = stake_slash_amount,
                 sl_cooldown_until_epoch = cooldown_until, sl_ejected = ejected\<rparr>
      in (rec, r', M1\<lparr>sm_slashing_records := sm_slashing_records M1 @ [rec]\<rparr>))"

definition is_in_cooldown :: "slashing_manager \<Rightarrow> account_id \<Rightarrow> epoch_number \<Rightarrow> bool" where
  "is_in_cooldown M i current_epoch =
     (case hm_get (sm_cooldown_states M) i of Some c \<Rightarrow> current_epoch \<le> cs_end_epoch c | None \<Rightarrow> False)"

definition cleanup_expired_cooldowns :: "epoch_number \<Rightarrow> slashing_manager \<Rightarrow> slashing_manager" where
  "cleanup_expired_cooldowns current_epoch M =
     M\<lparr>sm_cooldown_states := hm_retain (\<lambda>_ c. current_epoch \<le> cs_end_epoch c) (sm_cooldown_states M)\<rparr>"

definition is_in_cooldown_with_cleanup :: "account_id \<Rightarrow> epoch_number \<Rightarrow> slashing_manager \<Rightarrow> bool \<times> slashing_manager" where
  "is_in_cooldown_with_cleanup i current_epoch M =
     (let M1 = cleanup_expired_cooldowns current_epoch M
      in (case hm_get (sm_cooldown_states M1) i of Some c \<Rightarrow> current_epoch \<le> cs_end_epoch c | None \<Rightarrow> False, M1))"

definition decay_critical_counts :: "epoch_number \<Rightarrow> slashing_manager \<Rightarrow> slashing_manager" where
  "decay_critical_counts current_epoch M =
     M\<lparr>sm_critical_counts :=
         filter (\<lambda>(i, c). 0 < cc_count c)
           (map (\<lambda>(i, c). (i, c\<lparr>cc_count := sat_sub (cc_count c) (critical_decay current_epoch c)\<rparr>))
             (sm_critical_counts M))\<rparr>"

definition prune_old_records :: "epoch_number \<Rightarrow> slashing_manager \<Rightarrow> slashing_manager" where
  "prune_old_records current_epoch M =
     (let min_epoch = sat_sub current_epoch SLASHING_RECORD_RETENTION_EPOCHS;
          kept = filter (\<lambda>r. min_epoch \<le> sl_slash_epoch r) (sm_slashing_records M)
      in M\<lparr>sm_slashing_records :=
             (if MAX_SLASHING_RECORDS < length kept
              then take MAX_SLASHING_RECORDS (sort_key (\<lambda>r. - int (unat (sl_slash_epoch r))) kept)
              else kept)\<rparr>)"

definition on_epoch_boundary :: "epoch_number \<Rightarrow> slashing_manager \<Rightarrow> slashing_manager" where
  "on_epoch_boundary current_epoch M =
     prune_old_records current_epoch (decay_critical_counts current_epoch (cleanup_expired_cooldowns current_epoch M))"

definition get_validator_slashes :: "slashing_manager \<Rightarrow> account_id \<Rightarrow> slashing_record list" where
  "get_validator_slashes M i = filter (\<lambda>r. sl_validator_id r = i) (sm_slashing_records M)"

section \<open>How much is taken\<close>

lemma unat_ucast_small: "unat (x :: u64) < 2 ^ 32 \<Longrightarrow> unat (ucast x :: u32) = unat x"
  by (simp add: unsigned_ucast_eq take_bit_nat_eq_self)

lemma sat_sub_interval:
  assumes "unat p \<le> unat c" and "unat x \<le> 3" and "unat c + 3 < 2 ^ 32"
  shows "unat c \<le> unat (sat_sub c (p + x :: u32)) + unat p + unat x"
    and "unat (sat_sub c (p + x)) + unat p \<le> unat c"
proof -
  have "unat (p + x) = unat p + unat x" using assms by (subst unat_add_fits) simp_all
  then show "unat c \<le> unat (sat_sub c (p + x)) + unat p + unat x" "unat (sat_sub c (p + x)) + unat p \<le> unat c"
    using assms(1) by (simp_all add: unat_sat_sub)
qed

lemma slash_sum:
  fixes v u a sn :: u32 and s :: u64
  assumes "unat v + unat u + unat a + unat sn \<le> unat s" and "unat s \<le> unat v + unat u + unat a + unat sn + 3"
  shows "unat (if (ucast v + ucast u + ucast a + ucast sn :: u64) < s
               then ucast (s - (ucast v + ucast u + ucast a + ucast sn)) else 0 :: u32)
         = unat s - (unat v + unat u + unat a + unat sn)"
proof -
  have sm: "unat (ucast v + ucast u + ucast a + ucast sn :: u64) = unat v + unat u + unat a + unat sn"
    using unat_lt32 [of v] unat_lt32 [of u] unat_lt32 [of a] unat_lt32 [of sn] by (simp add: unat_add_fits)
  have "unat (s - (ucast v + ucast u + ucast a + ucast sn)) = unat s - (unat v + unat u + unat a + unat sn)"
    if "(ucast v + ucast u + ucast a + ucast sn :: u64) < s"
    using that sm by (simp add: unat_sub)
  moreover have "unat s - (unat v + unat u + unat a + unat sn) < 2 ^ 32" using assms(2) by simp
  ultimately show ?thesis
    using sm by (auto simp: word_less_nat_alt unat_ucast_small)
qed

text \<open>
  Slashing \<open>s\<close> of a validator's credits takes at most \<open>s\<close> and at least \<open>s - 3\<close> of them (the
  residual given to the largest category can exceed what that category has), for every record
  whose total stays clear of \<open>2 ^ 32\<close>.
\<close>

theorem vc_slash_bounds:
  fixes s :: u64 and b :: block_number and r :: vc_record
  assumes "unat s \<le> vc_nat r" and "vc_nat r + 3 < 2 ^ 32"
  shows "vc_nat r \<le> vc_nat (apply_vc_slash s b r) + unat s
       \<and> vc_nat (apply_vc_slash s b r) + unat s \<le> vc_nat r + 3"
proof (cases "s = 0 \<or> total_vc r = 0")
  case True
  then show ?thesis
    using assms(1) unat_total_vc [of r] by (auto simp: apply_vc_slash_def)
next
  case False
  then have T: "0 < vc_nat r" "vc_nat r < 2 ^ 32"
    using assms(2) unat_total_vc [of r] by (auto simp flip: unat_gt_0)
  define pt where "pt = (\<lambda>c. proportional_part c s (total_vc r))"
  have pt: "proportional_part c s (total_vc r) = pt c" for c by (simp add: pt_def)
  note parts = record_parts [OF assms(1) T, unfolded pt]
  define res where "res = (if (ucast (pt (vc_vote_credits r)) + ucast (pt (vc_uptime_credits r))
      + ucast (pt (vc_arbitration_credits r)) + ucast (pt (vc_seniority_credits r)) :: u64) < s
      then ucast (s - (ucast (pt (vc_vote_credits r)) + ucast (pt (vc_uptime_credits r))
      + ucast (pt (vc_arbitration_credits r)) + ucast (pt (vc_seniority_credits r)))) else 0 :: u32)"
  have res: "unat res + (unat (pt (vc_vote_credits r)) + unat (pt (vc_uptime_credits r))
      + unat (pt (vc_arbitration_credits r)) + unat (pt (vc_seniority_credits r))) = unat s"
    unfolding res_def using parts(1,2) by (subst slash_sum) simp_all
  define ex where "ex = (\<lambda>i. if max_category r = i then res else 0)"
  have ex: "unat (ex i) \<le> 3" for i using res parts(2) by (simp add: ex_def)
  have sum: "unat (ex 0) + unat (ex 1) + unat (ex 2) + unat (ex 3) \<le> unat res" by (simp add: ex_def)
  have new: "apply_vc_slash s b r = r\<lparr>
      vc_vote_credits := sat_sub (vc_vote_credits r) (pt (vc_vote_credits r) + ex 0),
      vc_uptime_credits := sat_sub (vc_uptime_credits r) (pt (vc_uptime_credits r) + ex 1),
      vc_arbitration_credits := sat_sub (vc_arbitration_credits r) (pt (vc_arbitration_credits r) + ex 2),
      vc_seniority_credits := sat_sub (vc_seniority_credits r) (pt (vc_seniority_credits r) + ex 3),
      vc_last_update := b\<rparr>"
    using False by (simp add: apply_vc_slash_def Let_def pt_def res_def ex_def)
  have fit: "unat c + 3 < 2 ^ 32" if "unat c \<le> vc_nat r" for c :: u32 using that assms(2) by simp
  note iv = sat_sub_interval [OF parts(3) ex fit]
  have "unat (vc_vote_credits r) \<le> vc_nat r" "unat (vc_uptime_credits r) \<le> vc_nat r"
    "unat (vc_arbitration_credits r) \<le> vc_nat r" "unat (vc_seniority_credits r) \<le> vc_nat r"
    by (simp_all add: vc_nat_def)
  note c = iv [OF this(1), of 0] iv [OF this(2), of 1] iv [OF this(3), of 2] iv [OF this(4), of 3]
  have "vc_nat (apply_vc_slash s b r) = unat (sat_sub (vc_vote_credits r) (pt (vc_vote_credits r) + ex 0))
      + unat (sat_sub (vc_uptime_credits r) (pt (vc_uptime_credits r) + ex 1))
      + unat (sat_sub (vc_arbitration_credits r) (pt (vc_arbitration_credits r) + ex 2))
      + unat (sat_sub (vc_seniority_credits r) (pt (vc_seniority_credits r) + ex 3))"
    by (simp only: new vc_nat_def) simp
  then have "vc_nat r \<le> vc_nat (apply_vc_slash s b r) + unat s"
    "vc_nat (apply_vc_slash s b r) + unat s \<le> vc_nat r + 3"
    using c res sum parts(2) vc_nat_def [of r] by linarith+
  then show ?thesis by blast
qed

text \<open>
  Four categories of one credit each: slashing 2 removes only 1, because the whole residual goes
  to a category that has a single credit.
\<close>

definition even_record :: vc_record where
  "even_record = (vc_new 0 0)\<lparr>vc_vote_credits := 1, vc_uptime_credits := 1, vc_arbitration_credits := 1,
     vc_seniority_credits := 1\<rparr>"

lemma slash_not_exact: "vc_nat even_record = 4 \<and> vc_nat (apply_vc_slash 2 5 even_record) = 3"
  by (simp add: even_record_def vc_nat_def vc_new_def apply_vc_slash_def total_vc_def proportional_part_def Let_def
      max_category_def sat_sub_def word_le_nat_alt)

theorem vc_slash_bounds_witness:
  "vc_nat (apply_vc_slash 2 5 even_record) + 2 \<le> 7 \<and> vc_nat even_record \<le> vc_nat (apply_vc_slash 2 5 even_record) + 2"
proof -
  have "vc_nat even_record = 4" by (simp add: even_record_def vc_nat_def vc_new_def)
  then show ?thesis using vc_slash_bounds [of 2 even_record 5] by simp
qed

lemma percent_of_le: "percent_of a p \<le> a"
  by (simp add: percent_of_def Let_def)

text \<open>
  A percentage of an amount computed in double precision is the rounded exact value up to a relative error of
  three roundings.
\<close>

lemma percent_factors: "(1 + 1 / 2 ^ 53 :: rat) ^ 3 \<le> 1 + 1 / 2 ^ 51" "1 - 1 / 2 ^ 51 \<le> (1 - 1 / 2 ^ 53 :: rat) ^ 3"
  by (simp_all add: power3_eq_cube)

lemma percent_product:
  fixes A Q :: rat
  assumes "0 \<le> A" and "0 \<le> Q"
  defines "x \<equiv> rnd (rnd A * rnd Q)"
  shows "0 \<le> x" and "x \<le> A * Q * (1 + 1 / 2 ^ 51)" and "A * Q * (1 - 1 / 2 ^ 51) \<le> x"
proof -
  let ?u = "1 + 1 / 2 ^ 53 :: rat" and ?l = "1 - 1 / 2 ^ 53 :: rat"
  have l: "0 \<le> ?l" by simp
  note a = rnd_bounds [OF assms(1)] rnd_nonneg [OF assms(1)] and q = rnd_bounds [OF assms(2)] rnd_nonneg [OF assms(2)]
  have p: "0 \<le> rnd A * rnd Q" using a(3) q(3) by simp
  then show "0 \<le> x" unfolding x_def by (rule rnd_nonneg)
  have "x \<le> rnd A * rnd Q * ?u" unfolding x_def by (rule rnd_bounds(2) [OF p])
  also have "\<dots> \<le> (A * ?u) * (Q * ?u) * ?u"
    using a q assms by (intro mult_right_mono mult_mono) simp_all
  also have "\<dots> = A * Q * ?u ^ 3" by (simp only: power3_eq_cube ac_simps)
  also have "\<dots> \<le> A * Q * (1 + 1 / 2 ^ 51)" using percent_factors(1) assms by (intro mult_left_mono) simp_all
  finally show "x \<le> A * Q * (1 + 1 / 2 ^ 51)" .
  have "A * Q * (1 - 1 / 2 ^ 51) \<le> A * Q * ?l ^ 3" using percent_factors(2) assms by (intro mult_left_mono) simp_all
  also have "\<dots> = (A * ?l) * (Q * ?l) * ?l" by (simp only: power3_eq_cube ac_simps)
  also have "\<dots> \<le> rnd A * rnd Q * ?l"
    using a q assms l by (intro mult_right_mono mult_mono mult_nonneg_nonneg) simp_all
  also have "\<dots> \<le> x" unfolding x_def by (rule rnd_bounds(1) [OF p])
  finally show "A * Q * (1 - 1 / 2 ^ 51) \<le> x" .
qed

lemma percent_of_bounds:
  fixes a :: "'a::len word"
  assumes "q \<le> 50"
  defines "A \<equiv> of_nat (unat a) :: rat" and "S \<equiv> of_nat (unat (percent_of a (rnd (of_nat q / 100)))) :: rat"
  shows "100 * S \<le> of_nat q * A * (1 + 1 / 2 ^ 51) + 50" and "of_nat q * A * (1 - 1 / 2 ^ 51) \<le> 100 * S + 50"
proof -
  define Q where "Q = (of_nat q / 100 :: rat)"
  define x where "x = rnd (rnd A * rnd Q)"
  define M where "M = (of_nat (2 ^ LENGTH('a) - 1) :: rat)"
  define k where "k = \<lfloor>x + 1 / 2\<rfloor>"
  have Q: "0 \<le> Q" "Q \<le> 1 / 2" using assms(1) by (simp_all add: Q_def)
  have "unat a \<le> 2 ^ LENGTH('a) - 1" using unsigned_less [of a, where 'a = nat] by linarith
  then have "A \<le> M" unfolding A_def M_def by (rule of_nat_mono)
  moreover have "0 \<le> A" unfolding A_def by (rule of_nat_0_le_iff)
  ultimately have A: "0 \<le> A" "A \<le> M" by simp_all
  note x = percent_product [OF A(1) Q(1), folded x_def]
  have AQ: "0 \<le> A * Q" "A * Q \<le> A / 2" using A(1) Q mult_left_mono [of Q "1 / 2" A] by simp_all
  have up: "x \<le> 3 / 5 * A" using x(2) AQ by (simp add: algebra_simps)
  have "rnd Q \<le> 1" using rnd_bounds(2) [OF Q(1)] Q(2) by simp
  then have clamp: "min (max (rnd Q) 0) 1 = rnd Q" using rnd_nonneg [OF Q(1)] by simp
  have M: "f64_of_word (- 1 :: 'a word) = rnd M" by (simp add: f64_of_word_def M_def unat_minus_one_max)
  have "\<not> rnd M < x" using rnd_bounds(1) [of M] up A by simp
  moreover have fa: "f64_of_word a = rnd A" by (simp only: f64_of_word_def A_def)
  ultimately have pct: "percent_of a (rnd Q) = min (f64_to_word (f64_round x)) a"
    using x(1) by (simp add: percent_of_def clamp Let_def fmul_def fa M flip: x_def)
  have k: "0 \<le> k" "of_int k \<le> x + 1 / 2" "x - 1 / 2 < of_int k" using x(1) by (simp_all add: k_def) linarith+
  have top: "M = 2 ^ LENGTH('a) - 1" by (simp add: M_def of_nat_diff)
  have "(of_int k :: rat) < 2 ^ LENGTH('a)" using k(2) up A unfolding top by linarith
  then have "k < 2 ^ LENGTH('a)" by simp
  then have word: "unat (f64_to_word (f64_round x) :: 'a word) = nat k"
    using k(1) by (simp add: f64_round_def f64_to_word_def unsigned_of_int take_bit_int_eq_self flip: k_def)
  have "S = min (of_int k) A"
    unfolding S_def Q_def [symmetric] pct unat_min word A_def of_nat_min using k(1) by (simp only: of_nat_nat)
  then show "100 * S \<le> of_nat q * A * (1 + 1 / 2 ^ 51) + 50" "of_nat q * A * (1 - 1 / 2 ^ 51) \<le> 100 * S + 50"
    using k x AQ A(1) by (auto simp: Q_def min_def algebra_simps split: if_splits)
qed

text \<open>For amounts below \<open>2\<^sup>32\<close> the error disappears in the rounding to whole numbers.\<close>

lemma percent_of_exact:
  fixes a :: "'a::len word"
  assumes "q \<le> 50" and "unat a < 2 ^ 32"
  defines "s \<equiv> unat (percent_of a (rnd (of_nat q / 100)))"
  shows "100 * s \<le> q * unat a + 50" and "q * unat a \<le> 100 * s + 50"
proof -
  note b = percent_of_bounds [OF assms(1), of a, folded s_def]
  have "q * unat a \<le> 50 * 2 ^ 32" using assms(1,2) by (intro mult_le_mono) simp_all
  then have "(of_nat (q * unat a) :: rat) \<le> of_nat (50 * 2 ^ 32)" by (rule of_nat_mono)
  then have small: "of_nat q * of_nat (unat a) * (1 / 2 ^ 51) < (1 :: rat)" by simp
  have "(of_nat (100 * s) :: rat) < of_nat (q * unat a + 51)" using b(1) small by (simp add: algebra_simps)
  then show "100 * s \<le> q * unat a + 50" unfolding of_nat_less_iff by simp
  have "(of_nat (q * unat a) :: rat) < of_nat (100 * s + 51)" using b(2) small by (simp add: algebra_simps)
  then show "q * unat a \<le> 100 * s + 50" unfolding of_nat_less_iff by simp
qed

text \<open>The documented percentages.\<close>

fun vc_share :: "severity \<Rightarrow> nat" where
  "vc_share Critical = 50" | "vc_share High = 25" | "vc_share Medium = 10" | "vc_share Low = 5"

fun stake_share :: "severity \<Rightarrow> nat" where
  "stake_share Critical = 20" | "stake_share High = 5" | "stake_share Medium = 1" | "stake_share Low = 0"

lemma slash_percents:
  "vc_slash_percent s = rnd (of_nat (vc_share s) / 100)" "stake_slash_percent s = rnd (of_nat (stake_share s) / 100)"
  "vc_share s \<le> 50" "stake_share s \<le> 50"
  by (cases s; simp)+

text \<open>
  C39: an event costs credits before capital.  For a validator whose credits add up to less than 2^32 - 3, the credits
  taken are exactly the difference of the record before and after; they are at most 50, 25, 10 or 5 per cent (critical, high,
  medium, low) of the credits, rounded to the nearest whole number, and at most three credits less than
  that.  Stake is taken only when no credits are left or the event is critical, never more than the
  validator has, and then 20, 5, 1 or 0 per cent of it, up to rounding and a relative error of 2^-51.
  The event is appended to the history.
\<close>

theorem slash_validator_bounds:
  assumes "vc_nat r + 3 < 2 ^ 32" and "slash_validator i ev e b r stake M = (rec, r', M')"
  defines "taken \<equiv> of_nat (unat (sl_stake_slashed rec)) :: rat" and "due \<equiv> of_nat (stake_share (event_severity ev)) * of_nat (unat stake) :: rat"
  shows "unat (sl_vc_slashed rec) + vc_nat r' = vc_nat r
       \<and> 100 * unat (sl_vc_slashed rec) \<le> vc_share (event_severity ev) * vc_nat r + 50
       \<and> vc_share (event_severity ev) * vc_nat r \<le> 100 * (unat (sl_vc_slashed rec) + 3) + 50
       \<and> (if vc_nat r' = 0 \<or> event_severity ev = Critical
          then 100 * taken \<le> due * (1 + 1 / 2 ^ 51) + 50 \<and> due * (1 - 1 / 2 ^ 51) \<le> 100 * taken + 50 \<and> sl_stake_slashed rec \<le> stake
          else sl_stake_slashed rec = 0)
       \<and> sm_slashing_records M' = sm_slashing_records M @ [rec]"
proof -
  let ?s = "calculate_vc_slash r (event_severity ev)"
  obtain cu ej M1 where d: "determine_cooldown_ejection i (event_severity ev) e M = ((cu, ej), M1)"
    by (cases "determine_cooldown_ejection i (event_severity ev) e M") auto
  have r': "r' = apply_vc_slash ?s b r" and vc: "sl_vc_slashed rec = total_vc r - total_vc r'"
    and stake: "sl_stake_slashed rec = (if total_vc r' = 0 \<or> event_severity ev = Critical
                  then calculate_stake_slash stake (event_severity ev) else 0)"
    and M': "M' = M1\<lparr>sm_slashing_records := sm_slashing_records M1 @ [rec]\<rparr>"
    using assms(2) by (auto simp: slash_validator_def d Let_def)
  have "?s \<le> total_vc r" by (simp add: calculate_vc_slash_def percent_of_le)
  then have "unat ?s \<le> vc_nat r" by (simp add: word_le_nat_alt unat_total_vc)
  then have b: "vc_nat r \<le> vc_nat r' + unat ?s" "vc_nat r' + unat ?s \<le> vc_nat r + 3"
    using vc_slash_bounds [OF _ assms(1), of ?s b] r' by simp_all
  have mono: "vc_nat r' \<le> vc_nat r"
    unfolding r' by (simp add: apply_vc_slash_def Let_def vc_nat_def unat_sat_sub add_mono)
  then have slashed: "unat (sl_vc_slashed rec) = vc_nat r - vc_nat r'"
    by (simp add: vc unat_sub word_le_nat_alt unat_total_vc)
  have share: "100 * unat ?s \<le> vc_share (event_severity ev) * vc_nat r + 50" "vc_share (event_severity ev) * vc_nat r \<le> 100 * unat ?s + 50"
    using percent_of_exact [OF slash_percents(3), of "total_vc r" "event_severity ev"] assms(1)
    unfolding calculate_vc_slash_def slash_percents(1) unat_total_vc by simp_all
  have hist: "sm_slashing_records M1 = sm_slashing_records M"
    using d by (auto simp: determine_cooldown_ejection_def Let_def split: if_splits)
  have zero: "total_vc r' = 0 \<longleftrightarrow> vc_nat r' = 0" using unat_total_vc [of r'] by (simp add: unat_eq_0 flip: unat_total_vc)
  have "100 * taken \<le> due * (1 + 1 / 2 ^ 51) + 50 \<and> due * (1 - 1 / 2 ^ 51) \<le> 100 * taken + 50 \<and> sl_stake_slashed rec \<le> stake"
    if "vc_nat r' = 0 \<or> event_severity ev = Critical"
  proof -
    have t: "sl_stake_slashed rec = percent_of stake (rnd (of_nat (stake_share (event_severity ev)) / 100))"
      using that stake zero by (simp add: calculate_stake_slash_def slash_percents)
    show ?thesis using percent_of_bounds [where q = "stake_share (event_severity ev)" and a = stake, OF slash_percents(4)] percent_of_le [of stake]
      unfolding taken_def due_def t by blast
  qed
  moreover have "sl_stake_slashed rec = 0" if "\<not> (vc_nat r' = 0 \<or> event_severity ev = Critical)" using that stake zero by simp
  ultimately show ?thesis
    using slashed mono b share M' hist by auto
qed

definition rich_record :: vc_record where
  "rich_record = (vc_new 0 0)\<lparr>vc_vote_credits := 400, vc_uptime_credits := 300, vc_arbitration_credits := 200, vc_seniority_credits := 100\<rparr>"

text \<open>Double signing with 1000 credits and a stake of 1000: between 497 and 500 credits and exactly 200 of the stake are taken.\<close>

theorem slash_validator_bounds_witness:
  "unat (sl_vc_slashed (fst (slash_validator 1 (DoubleSigning 5 10 1 2) 10 99 rich_record 1000 slashing_new))) \<in> {497..500}
   \<and> unat (sl_stake_slashed (fst (slash_validator 1 (DoubleSigning 5 10 1 2) 10 99 rich_record 1000 slashing_new))) = 200"
proof -
  obtain rec r' M' where run: "slash_validator 1 (DoubleSigning 5 10 1 2) 10 99 rich_record 1000 slashing_new = (rec, r', M')"
    by (metis prod.collapse)
  have n: "vc_nat rich_record = 1000" by (simp add: rich_record_def vc_nat_def vc_new_def)
  then have fits: "vc_nat rich_record + 3 < 2 ^ 32" by simp
  note h = slash_validator_bounds [OF fits run, unfolded n]
  let ?t = "unat (sl_stake_slashed rec)"
  have "100 * (of_nat ?t :: rat) \<le> 20 * 1000 * (1 + 1 / 2 ^ 51) + 50" "20 * 1000 * (1 - 1 / 2 ^ 51) \<le> 100 * (of_nat ?t :: rat) + 50"
    using h by simp_all
  then have "(of_nat ?t :: rat) < of_nat 201" "(of_nat 199 :: rat) < of_nat ?t" by simp_all
  then have "?t = 200" unfolding of_nat_less_iff by simp
  then show ?thesis using h by (simp add: run)
qed

section \<open>Cooldown and ejection\<close>

lemma critical_decay_zero:
  assumes "unat e < unat (cc_last_critical_epoch c) + 26"
  shows "critical_decay e c = 0"
proof -
  have "unat (sat_sub e (cc_last_critical_epoch c) div 26) = 0"
    using assms by (simp add: unat_div_distrib unat_sat_sub)
  then have "sat_sub e (cc_last_critical_epoch c) div 26 = 0" by (metis unat_eq_zero)
  then show ?thesis by (simp add: critical_decay_def const_defs)
qed

text \<open>The answers to a sequence of critical events of one validator at the given epochs.\<close>

fun critical_run :: "account_id \<Rightarrow> epoch_number list \<Rightarrow> slashing_manager \<Rightarrow> (epoch_number option \<times> bool) list" where
  "critical_run i [] M = []"
| "critical_run i (e # es) M =
     (let (r, M') = determine_cooldown_ejection i Critical e M in r # critical_run i es M')"

lemma determine_critical:
  "determine_cooldown_ejection i Critical e M =
     (let c = bump_critical e (hm_get (sm_critical_counts M) i);
          M1 = M\<lparr>sm_critical_counts := hm_insert i c (sm_critical_counts M)\<rparr>
      in if 3 \<le> cc_count c then ((None, True), M1)
         else ((Some (e + 52), False), M1\<lparr>sm_cooldown_states := hm_insert i
             \<lparr>cs_reason = Critical, cs_start_epoch = e, cs_end_epoch = e + 52, cs_critical_event_count = cc_count c\<rparr>
             (sm_cooldown_states M1)\<rparr>))"
  by (simp add: determine_cooldown_ejection_def requires_cooldown_def Let_def update_conv')

text \<open>
  The third critical event of a validator, with fewer than 26 epochs between neighbouring
  ones, ejects it; the first two put it in cooldown for 52 epochs.
\<close>

theorem third_critical_event_ejects:
  assumes "hm_get (sm_critical_counts M) i = None"
    and "unat e2 < unat e1 + 26" and "unat e3 < unat e2 + 26"
  shows "critical_run i [e1, e2, e3] M = [(Some (e1 + 52), False), (Some (e2 + 52), False), (None, True)]"
proof -
  have 1: "bump_critical e1 None = \<lparr>cc_count = 1, cc_last_critical_epoch = e1\<rparr>"
    by (simp add: bump_critical_def critical_decay_zero)
  have 2: "bump_critical e2 (Some \<lparr>cc_count = 1, cc_last_critical_epoch = e1\<rparr>)
      = \<lparr>cc_count = 2, cc_last_critical_epoch = e2\<rparr>"
    using assms(2) by (simp add: bump_critical_def critical_decay_zero)
  have 3: "bump_critical e3 (Some \<lparr>cc_count = 2, cc_last_critical_epoch = e2\<rparr>)
      = \<lparr>cc_count = 3, cc_last_critical_epoch = e3\<rparr>"
    using assms(3) by (simp add: bump_critical_def critical_decay_zero)
  show ?thesis
    by (simp add: determine_critical assms(1) 1 2 3 Let_def update_conv' word_le_nat_alt)
qed

theorem third_critical_event_ejects_witness:
  "critical_run 7 [100, 110, 120] slashing_new = [(Some 152, False), (Some 162, False), (None, True)]"
  using third_critical_event_ejects [of slashing_new 7 110 100 120] by (simp add: slashing_new_def)

lemma cleanup_invisible:
  "hm_inv (sm_cooldown_states M) \<Longrightarrow> x \<le> y \<Longrightarrow> is_in_cooldown (cleanup_expired_cooldowns x M) i y = is_in_cooldown M i y"
  by (auto simp: is_in_cooldown_def cleanup_expired_cooldowns_def hm_get_retain split: option.splits)

text \<open>
  Epoch boundaries re-apply the decay of the critical count from the same last event: two
  boundaries at 26 and 27 epochs after it take 2 off the count, not 1.
\<close>

lemma critical_count_decays_twice:
  "sm_critical_counts (decay_critical_counts 127 (decay_critical_counts 126
     (slashing_new\<lparr>sm_critical_counts := [(7, \<lparr>cc_count = 2, cc_last_critical_epoch = 100\<rparr>)]\<rparr>))) = []"
  by (simp add: decay_critical_counts_def critical_decay_def slashing_new_def sat_sub_def const_defs
      word_le_nat_alt word_less_nat_alt unat_div_distrib)

end
