(* ===== verification/Kratos_Blocks.thy ===== *)
theory Kratos_Blocks
  imports Kratos_Validators Kratos_Tokenomics
begin

text \<open>
  Blocks, \<^verbatim>\<open>types/block.rs\<close> (header, body, hashing, signatures, finality justifications), and the
  validation of a block against its parent, \<open>BlockValidator\<close> of \<^verbatim>\<open>node/producer.rs\<close>.  The current
  time is an argument of the timestamp check.
\<close>

section \<open>Blocks and justifications\<close>

record block_header =
  bh_number :: block_number
  bh_parent_hash :: hash
  bh_transactions_root :: hash
  bh_state_root :: hash
  bh_timestamp :: u64
  bh_epoch :: epoch_number
  bh_slot :: slot_number
  bh_author :: account_id
  bh_signature :: signature64

record block_body =
  bb_transactions :: "signed_transaction list"

record block =
  bk_header :: block_header
  bk_body :: block_body

definition header_hash :: "crypto \<Rightarrow> block_header \<Rightarrow> hash" where
  "header_hash K h =
     blake3 K (ser_header K (bh_number h, bh_parent_hash h, bh_transactions_root h, bh_state_root h,
       bh_timestamp h, bh_epoch h, bh_slot h, bh_author h))"

definition header_signing_message :: "crypto \<Rightarrow> block_header \<Rightarrow> bytes" where
  "header_signing_message K h = domain_separate DOMAIN_BLOCK_HEADER (hash_bytes (header_hash K h))"

definition header_verify_signature :: "crypto \<Rightarrow> block_header \<Rightarrow> bool" where
  "header_verify_signature K h = account_verify K (bh_author h) (header_signing_message K h) (bh_signature h)"

definition block_hash :: "crypto \<Rightarrow> block \<Rightarrow> hash" where
  "block_hash K b = header_hash K (bk_header b)"

definition block_genesis :: "hash \<Rightarrow> account_id list \<Rightarrow> block" where
  "block_genesis state_root genesis_accounts =
     \<lparr>bk_header = \<lparr>bh_number = 0, bh_parent_hash = ZERO, bh_transactions_root = ZERO, bh_state_root = state_root,
                   bh_timestamp = 0, bh_epoch = 0, bh_slot = 0,
                   bh_author = (case genesis_accounts of [] \<Rightarrow> 0 | a # _ \<Rightarrow> a), bh_signature = 0\<rparr>,
      bk_body = \<lparr>bb_transactions = []\<rparr>\<rparr>"

record validator_signature =
  vg_validator :: account_id
  vg_signature :: signature64

record finality_justification =
  fj_block_number :: block_number
  fj_block_hash :: hash
  fj_signatures :: "validator_signature list"
  fj_epoch :: epoch_number

definition justification_message :: "crypto \<Rightarrow> finality_justification \<Rightarrow> bytes" where
  "justification_message K j =
     domain_separate DOMAIN_FINALITY (ser_finality K (fj_block_number j, fj_block_hash j, fj_epoch j))"

definition verify_signatures :: "crypto \<Rightarrow> finality_justification \<Rightarrow> nat \<times> nat" where
  "verify_signatures K j =
     (let message = justification_message K j
      in (length (filter (\<lambda>s. account_verify K (vg_validator s) message (vg_signature s)) (fj_signatures j)),
          length (fj_signatures j)))"

definition justification_supermajority :: "crypto \<Rightarrow> finality_justification \<Rightarrow> nat \<Rightarrow> bool" where
  "justification_supermajority K j total_validators =
     (let (valid_count, _) = verify_signatures K j in total_validators * 66 \<le> valid_count * 100)"

definition justification_is_valid :: "crypto \<Rightarrow> finality_justification \<Rightarrow> nat \<Rightarrow> bool" where
  "justification_is_valid K j total_validators =
     (if \<not> distinct (map vg_validator (fj_signatures j)) then False
      else justification_supermajority K j total_validators)"

section \<open>Block validation\<close>

definition MAX_FUTURE_DRIFT_SECS :: u64 where [const_defs]: "MAX_FUTURE_DRIFT_SECS = 10"
definition MIN_BLOCK_INTERVAL_SECS :: u64 where [const_defs]: "MIN_BLOCK_INTERVAL_SECS = sat_sub SLOT_DURATION_SECS 1"

datatype validation_error =
    InvalidBlockNumber block_number block_number
  | InvalidParentHash
  | TimestampNotAfterParent u64 u64
  | TimestampTooFarInFuture u64 u64 u64
  | TimestampTooCloseToParent u64 u64
  | TimestampSlotMismatch u64 u64 slot_number
  | InvalidEpoch
  | InvalidSlot
  | InvalidAuthor
  | InvalidAuthorKey
  | InvalidBlockSignature
  | InvalidTransactionsRoot
  | InvalidTransactionSignature nat
  | VE_StateError string

text \<open>
  \<open>i64\<close> values are integers; \<^verbatim>\<open>as i64\<close> reads the same 64 bits in two's complement,
  \<open>saturating_sub\<close> clamps, and \<open>abs\<close> of the least value wraps to itself.
\<close>

definition i64_clamp :: "int \<Rightarrow> int" where
  "i64_clamp x = max (- (2 ^ 63)) (min (2 ^ 63 - 1) x)"

definition i64_abs :: "int \<Rightarrow> int" where
  "i64_abs x = (if x = - (2 ^ 63) then x else \<bar>x\<bar>)"

definition interval_drift :: "u64 \<Rightarrow> u64 \<Rightarrow> int" where
  "interval_drift actual expected = i64_clamp (sint actual - sint expected)"

definition validate_timestamp :: "u64 \<Rightarrow> block \<Rightarrow> block \<Rightarrow> (validation_error, unit) result" where
  "validate_timestamp current_ts b parent =
     (let block_ts = bh_timestamp (bk_header b);
          parent_ts = bh_timestamp (bk_header parent)
      in if block_ts \<le> parent_ts then Err (TimestampNotAfterParent block_ts parent_ts)
         else if sat_add current_ts MAX_FUTURE_DRIFT_SECS < block_ts
         then Err (TimestampTooFarInFuture block_ts current_ts MAX_FUTURE_DRIFT_SECS)
         else let interval = sat_sub block_ts parent_ts
              in if interval < MIN_BLOCK_INTERVAL_SECS
                 then Err (TimestampTooCloseToParent interval MIN_BLOCK_INTERVAL_SECS)
                 else let slots_elapsed = sat_sub (bh_slot (bk_header b)) (bh_slot (bk_header parent));
                          expected_interval = sat_mul slots_elapsed SLOT_DURATION_SECS;
                          actual_interval = sat_sub block_ts parent_ts;
                          drift = interval_drift actual_interval expected_interval
                      in if sint SLOT_DURATION_SECS < i64_abs drift
                         then Err (TimestampSlotMismatch (sat_add parent_ts expected_interval) block_ts (bh_slot (bk_header b)))
                         else Ok ())"

definition compute_transactions_root :: "crypto \<Rightarrow> signed_transaction list \<Rightarrow> hash" where
  "compute_transactions_root K txs =
     (if txs = [] then ZERO else blake3 K (concat (map (\<lambda>tx. hash_bytes (signed_hash K tx)) txs)))"

definition validator_verify_signature :: "crypto \<Rightarrow> block \<Rightarrow> (validation_error, unit) result" where
  "validator_verify_signature K b =
     (let author_bytes = account_bytes (bh_author (bk_header b))
      in if \<not> key_from_bytes K author_bytes then Err InvalidAuthorKey
         else let message = domain_separate DOMAIN_BLOCK_HEADER (hash_bytes (header_hash K (bk_header b)))
              in if ed25519_verify K author_bytes message (bh_signature (bk_header b))
                 then Ok () else Err InvalidBlockSignature)"

text \<open>The loop over the transactions, reporting the index of the first bad signature.\<close>

fun check_tx_signatures :: "crypto \<Rightarrow> nat \<Rightarrow> signed_transaction list \<Rightarrow> (validation_error, unit) result" where
  "check_tx_signatures K i [] = Ok ()"
| "check_tx_signatures K i (tx # txs) =
     (if \<not> signed_verify K tx then Err (InvalidTransactionSignature i) else check_tx_signatures K (Suc i) txs)"

definition validate_block :: "crypto \<Rightarrow> u64 \<Rightarrow> block \<Rightarrow> block \<Rightarrow> validator_set \<Rightarrow> (validation_error, unit) result" where
  "validate_block K current_ts b parent V =
     (let h = bk_header b; ph = bk_header parent
      in if bh_number h \<noteq> bh_number ph + 1 then Err (InvalidBlockNumber (bh_number ph + 1) (bh_number h))
         else if bh_parent_hash h \<noteq> block_hash K parent then Err InvalidParentHash
         else case validate_timestamp current_ts b parent of
                Inl e \<Rightarrow> Err e
              | Inr _ \<Rightarrow>
                  if bh_epoch h < bh_epoch ph then Err InvalidEpoch
                  else if bh_epoch h = bh_epoch ph \<and> bh_slot h \<le> bh_slot ph then Err InvalidSlot
                  else if \<not> is_active V (bh_author h) then Err InvalidAuthor
                  else case validator_verify_signature K b of
                         Inl e \<Rightarrow> Err e
                       | Inr _ \<Rightarrow>
                           if bh_transactions_root h \<noteq> compute_transactions_root K (bb_transactions (bk_body b))
                           then Err InvalidTransactionsRoot
                           else check_tx_signatures K 0 (bb_transactions (bk_body b)))"

definition validate_standalone :: "crypto \<Rightarrow> block \<Rightarrow> (validation_error, unit) result" where
  "validate_standalone K b =
     (case validator_verify_signature K b of
        Inl e \<Rightarrow> Err e
      | Inr _ \<Rightarrow>
          if bh_transactions_root (bk_header b) \<noteq> compute_transactions_root K (bb_transactions (bk_body b))
          then Err InvalidTransactionsRoot else Ok ())"

section \<open>Properties\<close>

lemma check_tx_signatures_Ok: "check_tx_signatures K i txs = Ok () \<longleftrightarrow> (\<forall>tx \<in> set txs. signed_verify K tx)"
  by (induction txs arbitrary: i) auto

lemma sint_small: "unat (x :: u64) < 2 ^ 63 \<Longrightarrow> sint x = int (unat x)"
proof -
  assume "unat x < 2 ^ 63"
  then have "int (unat x) < 2 ^ 63" by (metis of_nat_less_iff of_nat_numeral of_nat_power)
  moreover have "0 \<le> uint x" by simp
  ultimately have "signed_take_bit 63 (uint x) = uint x"
    by (intro signed_take_bit_int_eq_self) (linarith, simp)
  then show ?thesis unfolding sint_uint by simp
qed

text \<open>The timestamp window, for intervals that stay below \<open>2 ^ 63\<close> seconds.\<close>

lemma validate_timestamp_window:
  assumes "validate_timestamp now b parent = Ok ()"
    and "6 * (unat (bh_slot (bk_header b)) - unat (bh_slot (bk_header parent))) < 2 ^ 63"
    and "unat (bh_timestamp (bk_header b)) < 2 ^ 63"
  defines "dt \<equiv> unat (bh_timestamp (bk_header b)) - unat (bh_timestamp (bk_header parent))"
    and "ds \<equiv> unat (bh_slot (bk_header b)) - unat (bh_slot (bk_header parent))"
  shows "unat (bh_timestamp (bk_header parent)) + 5 \<le> unat (bh_timestamp (bk_header b))
       \<and> unat (bh_timestamp (bk_header b)) \<le> unat now + 10
       \<and> \<bar>int dt - 6 * int ds\<bar> \<le> 6"
proof -
  let ?bt = "bh_timestamp (bk_header b)" and ?pt = "bh_timestamp (bk_header parent)"
  let ?a = "sat_sub ?bt ?pt" and ?x = "sat_mul (sat_sub (bh_slot (bk_header b)) (bh_slot (bk_header parent))) 6 :: u64"
  have a: "unat ?a = dt" and x: "unat ?x = 6 * ds"
    using assms(2) by (simp_all add: dt_def ds_def unat_sat_sub unat_sat_mul)
  have ok: "\<not> ?bt \<le> ?pt" "\<not> sat_add now 10 < ?bt" "\<not> ?a < 5"
    "\<not> sint (6 :: u64) < i64_abs (interval_drift ?a ?x)"
    using assms(1) by (auto simp: validate_timestamp_def Let_def const_defs sat_sub_def split: if_splits)
  have "unat ?a < 2 ^ 63" "unat ?x < 2 ^ 63" using assms(2,3) a x by (simp_all add: dt_def ds_def)
  then have "interval_drift ?a ?x = int dt - 6 * int ds"
    using a x by (simp add: interval_drift_def sint_small i64_clamp_def)
  moreover have "int dt - 6 * int ds \<noteq> - (2 ^ 63)" using \<open>unat ?x < 2 ^ 63\<close> x by simp
  ultimately have "\<bar>int dt - 6 * int ds\<bar> \<le> 6" using ok(4) by (simp add: i64_abs_def sint_small)
  moreover have "5 \<le> dt" "unat ?bt \<le> unat now + 10" using ok(2,3) a by (simp_all add: word_nat)
  ultimately show ?thesis by (auto simp: dt_def)
qed

text \<open>
  A block that passes validation extends its parent: its number follows, it names the parent's
  hash, its author is an active validator whose key signed the domain-separated header hash,
  its transactions match the root and are all signed; and with slot and time intervals below
  \<open>2 ^ 63\<close> its timestamp is at least 5 seconds after the parent's, at most 10 seconds ahead of
  the clock and within 6 seconds of what the slots say.
\<close>

theorem validate_block_sound:
  assumes "validate_block K now b parent V = Ok ()"
  defines "h \<equiv> bk_header b" and "ph \<equiv> bk_header parent"
  shows "bh_number h = bh_number ph + 1 \<and> bh_parent_hash h = block_hash K parent
       \<and> (bh_epoch ph < bh_epoch h \<or> bh_epoch ph = bh_epoch h \<and> bh_slot ph < bh_slot h)
       \<and> is_active V (bh_author h)
       \<and> account_verify K (bh_author h) (header_signing_message K h) (bh_signature h)
       \<and> bh_transactions_root h = compute_transactions_root K (bb_transactions (bk_body b))
       \<and> (\<forall>tx \<in> set (bb_transactions (bk_body b)). signed_verify K tx)
       \<and> (6 * (unat (bh_slot h) - unat (bh_slot ph)) < 2 ^ 63 \<and> unat (bh_timestamp h) < 2 ^ 63 \<longrightarrow>
            unat (bh_timestamp ph) + 5 \<le> unat (bh_timestamp h) \<and> unat (bh_timestamp h) \<le> unat now + 10
            \<and> \<bar>int (unat (bh_timestamp h) - unat (bh_timestamp ph)) - 6 * int (unat (bh_slot h) - unat (bh_slot ph))\<bar> \<le> 6)"
proof -
  have ts: "validate_timestamp now b parent = Ok ()"
    and sig: "validator_verify_signature K b = Ok ()"
    and txs: "check_tx_signatures K 0 (bb_transactions (bk_body b)) = Ok ()"
    using assms(1) by (auto simp: validate_block_def Let_def split: if_splits sum.splits)
  have "account_verify K (bh_author h) (header_signing_message K h) (bh_signature h)"
    using sig by (auto simp: validator_verify_signature_def account_verify_def header_signing_message_def h_def
        Let_def split: if_splits)
  moreover have "bh_number h = bh_number ph + 1" "bh_parent_hash h = block_hash K parent"
    "bh_epoch ph < bh_epoch h \<or> bh_epoch ph = bh_epoch h \<and> bh_slot ph < bh_slot h" "is_active V (bh_author h)"
    "bh_transactions_root h = compute_transactions_root K (bb_transactions (bk_body b))"
    using assms(1) by (auto simp: validate_block_def Let_def h_def ph_def not_less not_le split: if_splits sum.splits)
  ultimately show ?thesis
    using txs check_tx_signatures_Ok validate_timestamp_window [OF ts] unfolding h_def ph_def by blast
qed

definition demo_child :: block where
  "demo_child =
     \<lparr>bk_header = \<lparr>bh_number = 1, bh_parent_hash = 56, bh_transactions_root = ZERO, bh_state_root = 0,
        bh_timestamp = 6, bh_epoch = 0, bh_slot = 1, bh_author = 1, bh_signature = 1\<rparr>,
      bk_body = \<lparr>bb_transactions = []\<rparr>\<rparr>"

theorem validate_block_sound_witness:
  "validate_block demo_crypto 0 demo_child (block_genesis 0 []) demo_set = Ok ()
   \<and> is_active demo_set (bh_author (bk_header demo_child))"
proof -
  have "is_active demo_set 1" by (simp add: demo_set_def vset_eval)
  then have ok: "validate_block demo_crypto 0 demo_child (block_genesis 0 []) demo_set = Ok ()"
    by (simp add: validate_block_def demo_child_def block_genesis_def block_hash_def header_hash_def demo_crypto_def
        hash_bytes_def validate_timestamp_def const_defs Let_def interval_drift_def i64_clamp_def i64_abs_def
        sat_mul_def sat_sub_def sat_add_def word_le_nat_alt word_less_nat_alt validator_verify_signature_def
        compute_transactions_root_def)
  show ?thesis using validate_block_sound [OF ok] ok by simp
qed

text \<open>
  The saturated slot interval, read as \<open>i64\<close>, is -1: a block 5 seconds after its parent that
  claims to be more than \<open>2 ^ 61\<close> slots later passes the timestamp check.
\<close>

definition header_at :: "u64 \<Rightarrow> slot_number \<Rightarrow> block" where
  "header_at ts slot = (block_genesis 0 [])\<lparr>bk_header := (bk_header (block_genesis 0 []))\<lparr>bh_timestamp := ts, bh_slot := slot\<rparr>\<rparr>"

lemma far_future_slot_accepted: "validate_timestamp 1000 (header_at 1005 (- 1)) (header_at 1000 0) = Ok ()"
  by (simp add: validate_timestamp_def header_at_def block_genesis_def const_defs Let_def interval_drift_def
      i64_clamp_def i64_abs_def sat_mul_def sat_sub_def sat_add_def word_le_nat_alt word_less_nat_alt
      unsigned_minus_1_eq_mask mask_eq_exp_minus_1)

end
