(* ===== verification/Kratos_Merkle.thy ===== *)
theory Kratos_Merkle
  imports Kratos_Blocks
begin

text \<open>
  State roots and Merkle inclusion proofs (\<^verbatim>\<open>types/merkle.rs\<close>).  The tree itself is the
  external crate \<open>rs_merkle\<close>: a definition that builds one takes its root and its proof
  function as the record \<open>merkle_lib\<close>.  The verification of a proof is the program's own.
\<close>

record state_root =
  sr_root :: hash
  sr_block_number :: block_number
  sr_chain_id :: chain_id

definition state_root_new :: "hash \<Rightarrow> block_number \<Rightarrow> chain_id \<Rightarrow> state_root" where
  "state_root_new root_hash block_number chain_id =
     \<lparr>sr_root = root_hash, sr_block_number = block_number, sr_chain_id = chain_id\<rparr>"

definition state_root_zero :: "chain_id \<Rightarrow> state_root" where
  "state_root_zero chain_id = \<lparr>sr_root = ZERO, sr_block_number = 0, sr_chain_id = chain_id\<rparr>"

record merkle_proof =
  mp_leaf :: bytes
  mp_leaf_index :: nat
  mp_proof :: "hash list"
  mp_root :: hash
  mp_block_number :: block_number
  mp_chain_id :: chain_id

definition merkle_pair :: "nat \<Rightarrow> hash \<Rightarrow> hash \<Rightarrow> bytes" where
  "merkle_pair index current sibling =
     (if index mod 2 = 0 then hash_bytes current @ hash_bytes sibling
      else hash_bytes sibling @ hash_bytes current)"

fun compute_root_from_proof :: "crypto \<Rightarrow> nat \<Rightarrow> hash list \<Rightarrow> hash \<Rightarrow> hash" where
  "compute_root_from_proof K index [] current = current"
| "compute_root_from_proof K index (sibling # path) current =
     compute_root_from_proof K (index div 2) path (blake3 K (merkle_pair index current sibling))"

definition merkle_verify :: "crypto \<Rightarrow> merkle_proof \<Rightarrow> bool" where
  "merkle_verify K p =
     (compute_root_from_proof K (mp_leaf_index p) (mp_proof p) (blake3 K (mp_leaf p)) = mp_root p)"

text \<open>The tree of \<open>rs_merkle\<close>: its root over leaf hashes, and the sibling hashes of one leaf.\<close>

record merkle_lib =
  tree_root :: "hash list \<Rightarrow> hash option"
  tree_proof :: "hash list \<Rightarrow> nat \<Rightarrow> hash list"

definition state_tree_hashes :: "crypto \<Rightarrow> bytes list \<Rightarrow> hash list" where
  "state_tree_hashes K leaves = map (blake3 K) leaves"

definition state_tree_root :: "crypto \<Rightarrow> merkle_lib \<Rightarrow> bytes list \<Rightarrow> hash" where
  "state_tree_root K L leaves =
     (case tree_root L (state_tree_hashes K leaves) of Some root_hash \<Rightarrow> root_hash | None \<Rightarrow> ZERO)"

definition generate_proof ::
  "crypto \<Rightarrow> merkle_lib \<Rightarrow> bytes list \<Rightarrow> nat \<Rightarrow> block_number \<Rightarrow> chain_id \<Rightarrow> merkle_proof option" where
  "generate_proof K L leaves leaf_index block_number chain_id =
     (if length leaves \<le> leaf_index then None
      else Some \<lparr>mp_leaf = leaves ! leaf_index, mp_leaf_index = leaf_index,
                 mp_proof = tree_proof L (state_tree_hashes K leaves) leaf_index,
                 mp_root = state_tree_root K L leaves, mp_block_number = block_number, mp_chain_id = chain_id\<rparr>)"

definition verify_proof :: "crypto \<Rightarrow> merkle_lib \<Rightarrow> bytes list \<Rightarrow> merkle_proof \<Rightarrow> bool" where
  "verify_proof K L leaves p = (merkle_verify K p \<and> mp_root p = state_tree_root K L leaves)"

section \<open>Properties\<close>

text \<open>The byte strings that a verification hashes above the leaf, in order.\<close>

fun path_inputs :: "crypto \<Rightarrow> nat \<Rightarrow> hash list \<Rightarrow> hash \<Rightarrow> bytes list" where
  "path_inputs K index [] current = []"
| "path_inputs K index (sibling # path) current =
     merkle_pair index current sibling #
     path_inputs K (index div 2) path (blake3 K (merkle_pair index current sibling))"

definition hashed_inputs :: "crypto \<Rightarrow> merkle_proof \<Rightarrow> bytes list" where
  "hashed_inputs K p = mp_leaf p # path_inputs K (mp_leaf_index p) (mp_proof p) (blake3 K (mp_leaf p))"

lemma length_hash_bytes [simp]: "length (hash_bytes h) = 32"
  by (simp add: hash_bytes_def)

lemma merkle_pair_inject: "merkle_pair i a s = merkle_pair i b t \<longleftrightarrow> a = b \<and> s = t"
  by (auto simp: merkle_pair_def)

text \<open>Two paths of one length and index that end in the same root, with no collision among
  the strings they hash, start from the same hash and use the same siblings.\<close>

lemma compute_root_binding:
  assumes "length ps = length qs"
    and "compute_root_from_proof K i ps a = compute_root_from_proof K i qs b"
    and "\<And>x y. x \<in> set (path_inputs K i ps a) \<Longrightarrow> y \<in> set (path_inputs K i qs b) \<Longrightarrow>
           blake3 K x = blake3 K y \<Longrightarrow> x = y"
  shows "a = b \<and> ps = qs"
  using assms
proof (induction ps qs arbitrary: i a b rule: list_induct2)
  case Nil
  then show ?case by simp
next
  case (Cons p ps q qs)
  have "blake3 K (merkle_pair i a p) = blake3 K (merkle_pair i b q) \<and> ps = qs"
    using Cons.prems by (intro Cons.IH) auto
  then show ?case
    using Cons.prems(2) [of "merkle_pair i a p" "merkle_pair i b q"] by (simp add: merkle_pair_inject)
qed

text \<open>
  A Merkle proof binds its leaf: when two proofs for the same index, of the same depth and
  against the same root both verify but carry different leaves, the two verifications hash
  two different byte strings to the same blake3 value.
\<close>

theorem merkle_proof_binding:
  assumes "merkle_verify K p" and "merkle_verify K q" and "mp_root p = mp_root q"
    and "mp_leaf_index p = mp_leaf_index q" and "length (mp_proof p) = length (mp_proof q)"
    and "mp_leaf p \<noteq> mp_leaf q"
  shows "\<exists>x \<in> set (hashed_inputs K p). \<exists>y \<in> set (hashed_inputs K q). x \<noteq> y \<and> blake3 K x = blake3 K y"
proof (rule ccontr)
  assume no: "\<not> ?thesis"
  have "blake3 K (mp_leaf p) = blake3 K (mp_leaf q) \<and> mp_proof p = mp_proof q"
  proof (rule compute_root_binding [OF assms(5)])
    show "compute_root_from_proof K (mp_leaf_index p) (mp_proof p) (blake3 K (mp_leaf p)) =
          compute_root_from_proof K (mp_leaf_index p) (mp_proof q) (blake3 K (mp_leaf q))"
      using assms(1-4) by (simp add: merkle_verify_def)
  qed (use no assms(4) in \<open>auto simp: hashed_inputs_def\<close>)
  with no assms(6) show False by (auto simp: hashed_inputs_def)
qed

definition demo_proof :: "u8 \<Rightarrow> merkle_proof" where
  "demo_proof b = \<lparr>mp_leaf = [b], mp_leaf_index = 1, mp_proof = [7], mp_root = 64, mp_block_number = 0, mp_chain_id = 0\<rparr>"

lemma demo_proof_verifies: "merkle_verify demo_crypto (demo_proof b)"
  by (simp add: merkle_verify_def demo_proof_def demo_crypto_def merkle_pair_def)

theorem merkle_proof_binding_witness:
  "\<exists>x \<in> set (hashed_inputs demo_crypto (demo_proof 1)). \<exists>y \<in> set (hashed_inputs demo_crypto (demo_proof 2)).
     x \<noteq> y \<and> blake3 demo_crypto x = blake3 demo_crypto y"
  by (rule merkle_proof_binding [OF demo_proof_verifies demo_proof_verifies]) (simp_all add: demo_proof_def)

text \<open>
  The depth has to be fixed: leaves and inner nodes are hashed alike, so the 64 bytes of an
  inner node pass as a leaf of a proof that is one level shorter.
\<close>

lemma inner_node_passes_as_leaf:
  assumes "merkle_verify K p" and "mp_proof p = sibling # path"
  shows "merkle_verify K (p\<lparr>mp_leaf := merkle_pair (mp_leaf_index p) (blake3 K (mp_leaf p)) sibling,
                            mp_leaf_index := mp_leaf_index p div 2, mp_proof := path\<rparr>)"
  using assms by (simp add: merkle_verify_def)

end
