(* ===== verification/Kratos_Drift.thy ===== *)
theory Kratos_Drift
  imports Kratos_Blocks
begin

text \<open>
  Timestamp drift tracking, \<open>DriftTracker\<close> of \<^verbatim>\<open>storage/state.rs\<close>: the difference between the
  time and the slots that passed since the last block, limited per block and accumulated per
  epoch.
\<close>

definition MAX_CUMULATIVE_DRIFT_PER_EPOCH :: int where [const_defs]: "MAX_CUMULATIVE_DRIFT_PER_EPOCH = 1200"
definition MAX_SINGLE_BLOCK_DRIFT :: int where [const_defs]: "MAX_SINGLE_BLOCK_DRIFT = 5"
definition RESTART_GRACE_DRIFT :: u64 where [const_defs]: "RESTART_GRACE_DRIFT = 3600"

record drift_tracker =
  dt_epoch_drift :: int
  dt_current_epoch :: u64
  dt_genesis_timestamp :: u64
  dt_last_block :: block_number
  dt_last_timestamp :: u64
  dt_last_slot :: u64
  dt_restart_grace_active :: bool

datatype drift_error =
    SingleBlockDriftExceeded int int block_number
  | CumulativeDriftExceeded int int u64
  | DriftTimestampNotAfterParent u64 u64

definition drift_tracker_new :: "u64 \<Rightarrow> drift_tracker" where
  "drift_tracker_new genesis_timestamp =
     \<lparr>dt_epoch_drift = 0, dt_current_epoch = 0, dt_genesis_timestamp = genesis_timestamp, dt_last_block = 0,
      dt_last_timestamp = genesis_timestamp, dt_last_slot = 0, dt_restart_grace_active = False\<rparr>"

definition enter_epoch :: "u64 \<Rightarrow> drift_tracker \<Rightarrow> drift_tracker" where
  "enter_epoch block_epoch t =
     (if dt_current_epoch t < block_epoch then t\<lparr>dt_epoch_drift := 0, dt_current_epoch := block_epoch\<rparr> else t)"

definition advance_to :: "block_number \<Rightarrow> u64 \<Rightarrow> u64 \<Rightarrow> drift_tracker \<Rightarrow> drift_tracker" where
  "advance_to number timestamp slot t = t\<lparr>dt_last_block := number, dt_last_timestamp := timestamp, dt_last_slot := slot\<rparr>"

definition validate_and_update ::
  "block_number \<Rightarrow> u64 \<Rightarrow> u64 \<Rightarrow> u64 \<Rightarrow> u64 \<Rightarrow> drift_tracker \<Rightarrow> (drift_error, int) result \<times> drift_tracker" where
  "validate_and_update block_number block_timestamp block_epoch block_slot slot_duration_secs t =
     (if block_number = 0
      then (Ok 0, (advance_to 0 block_timestamp block_slot t)\<lparr>dt_current_epoch := block_epoch\<rparr>)
      else if block_timestamp \<le> dt_last_timestamp t
      then (Err (DriftTimestampNotAfterParent block_timestamp (dt_last_timestamp t)), t)
      else let slots_elapsed = sat_sub block_slot (dt_last_slot t);
               expected_interval = sat_mul slots_elapsed slot_duration_secs;
               actual_interval = sat_sub block_timestamp (dt_last_timestamp t);
               incremental_drift = interval_drift actual_interval expected_interval
           in if sat_add expected_interval RESTART_GRACE_DRIFT < actual_interval
              then (Ok 0, enter_epoch block_epoch
                      (advance_to block_number block_timestamp block_slot (t\<lparr>dt_restart_grace_active := True\<rparr>)))
              else let t1 = (if dt_restart_grace_active t then t\<lparr>dt_restart_grace_active := False\<rparr> else t)
                   in if MAX_SINGLE_BLOCK_DRIFT < i64_abs incremental_drift
                      then (Err (SingleBlockDriftExceeded incremental_drift MAX_SINGLE_BLOCK_DRIFT block_number), t1)
                      else let t2 = enter_epoch block_epoch t1;
                               t3 = t2\<lparr>dt_epoch_drift := i64_clamp (dt_epoch_drift t2 + incremental_drift)\<rparr>
                           in if MAX_CUMULATIVE_DRIFT_PER_EPOCH < i64_abs (dt_epoch_drift t3)
                              then (Err (CumulativeDriftExceeded (dt_epoch_drift t3) MAX_CUMULATIVE_DRIFT_PER_EPOCH block_epoch), t3)
                              else (Ok incremental_drift, advance_to block_number block_timestamp block_slot t3))"

definition drift_is_healthy :: "drift_tracker \<Rightarrow> bool" where
  "drift_is_healthy t = (i64_abs (dt_epoch_drift t) < MAX_CUMULATIVE_DRIFT_PER_EPOCH div 2)"

section \<open>Properties\<close>

text \<open>
  Blocks as the tracker sees them: number, timestamp, epoch, slot.  \<open>track\<close> feeds accepted blocks
  to the tracker one after another; a rejected block leaves the persisted tracker unchanged.
\<close>

type_synonym block_time = "block_number \<times> u64 \<times> u64 \<times> u64"

fun track :: "block_time list \<Rightarrow> drift_tracker \<Rightarrow> drift_tracker" where
  "track [] t = t"
| "track ((n, ts, e, s) # bs) t =
     (case validate_and_update n ts e s SLOT_DURATION_SECS t of
        (Inl _, _) \<Rightarrow> track bs t
      | (Inr _, t') \<Rightarrow> track bs t')"

definition drift_ok :: "drift_tracker \<Rightarrow> bool" where
  "drift_ok t = (\<bar>dt_epoch_drift t\<bar> \<le> 1200)"

text \<open>The drift of an accepted block, when the clock has not jumped by \<open>2 ^ 63\<close> seconds.\<close>

lemma interval_drift_not_min:
  assumes "unat actual < 2 ^ 63"
  shows "interval_drift actual expected \<noteq> - (2 ^ 63)"
proof -
  have "sint expected < 2 ^ 63" using sint_less [of expected] by simp
  moreover have "0 \<le> sint actual" using sint_small [OF assms] uint_ge_0 [of actual] by simp
  ultimately have "- (2 ^ 63) < sint actual - sint expected" by simp
  then show ?thesis by (simp add: interval_drift_def i64_clamp_def)
qed

lemma validate_and_update_ok:
  assumes "validate_and_update n ts e s d t = (Ok v, t')" and "drift_ok t" and "unat ts < 2 ^ 63"
  shows "drift_ok t' \<and> \<bar>v\<bar> \<le> 5 \<and> dt_last_timestamp t' = ts \<and> (n \<noteq> 0 \<longrightarrow> dt_last_timestamp t < ts)
       \<and> dt_last_slot t' = s \<and> dt_last_block t' = n"
proof (cases "n = 0")
  case True
  then show ?thesis using assms(1,2) by (auto simp: validate_and_update_def advance_to_def drift_ok_def)
next
  case False
  let ?a = "sat_sub ts (dt_last_timestamp t)" and ?x = "sat_mul (sat_sub s (dt_last_slot t)) d"
  have lt: "dt_last_timestamp t < ts"
    using assms(1) False by (auto simp: validate_and_update_def not_le split: if_splits)
  have nm: "interval_drift ?a ?x \<noteq> - (2 ^ 63)"
    using assms(3) by (intro interval_drift_not_min) (simp add: unat_sat_sub)
  show ?thesis
  proof (cases "sat_add ?x RESTART_GRACE_DRIFT < ?a")
    case True
    then show ?thesis
      using assms(1,2) False lt
      by (auto simp: validate_and_update_def advance_to_def enter_epoch_def drift_ok_def Let_def not_le[symmetric])
  next
    case False2: False
    define t1 where "t1 = (if dt_restart_grace_active t then t\<lparr>dt_restart_grace_active := False\<rparr> else t)"
    define t2 where "t2 = enter_epoch e t1"
    have t2: "\<bar>dt_epoch_drift t2\<bar> \<le> 1200" using assms(2) by (simp add: t2_def t1_def enter_epoch_def drift_ok_def)
    have v: "v = interval_drift ?a ?x" "\<not> 5 < i64_abs v"
      "\<not> 1200 < i64_abs (i64_clamp (dt_epoch_drift t2 + v))"
      "t' = advance_to n ts s (t2\<lparr>dt_epoch_drift := i64_clamp (dt_epoch_drift t2 + v)\<rparr>)"
      using assms(1) False False2 lt
      by (auto simp: validate_and_update_def Let_def t2_def t1_def const_defs split: if_splits)
    have v5: "\<bar>v\<bar> \<le> 5" using v(1,2) nm by (simp add: i64_abs_def)
    then have "i64_clamp (dt_epoch_drift t2 + v) = dt_epoch_drift t2 + v" using t2 by (simp add: i64_clamp_def)
    then have "\<bar>dt_epoch_drift t2 + v\<bar> \<le> 1200" using v(3) t2 v5 by (simp add: i64_abs_def split: if_splits)
    then show ?thesis using v v5 lt by (simp add: advance_to_def drift_ok_def i64_clamp_def)
  qed
qed

text \<open>
  For any sequence of blocks with timestamps below \<open>2 ^ 63\<close>, starting at genesis, the tracker's
  accumulated drift stays within 1200 seconds, the last accepted timestamp never goes back as
  long as no second block 0 is fed in, and each accepted block contributed at most 5 seconds.
\<close>

theorem drift_bounded:
  assumes "\<forall>(n, ts, e, s) \<in> set bs. n \<noteq> 0 \<and> unat ts < 2 ^ 63"
  shows "\<bar>dt_epoch_drift (track bs (drift_tracker_new g))\<bar> \<le> 1200
       \<and> g \<le> dt_last_timestamp (track bs (drift_tracker_new g))"
proof -
  have "drift_ok (track bs t) \<and> dt_last_timestamp t \<le> dt_last_timestamp (track bs t)" if "drift_ok t" for t
    using assms that
  proof (induction bs arbitrary: t)
    case Nil
    then show ?case by simp
  next
    case (Cons b bs)
    obtain n ts e s where b: "b = (n, ts, e, s)" by (cases b)
    obtain r t' where v: "validate_and_update n ts e s SLOT_DURATION_SECS t = (r, t')"
      by (cases "validate_and_update n ts e s SLOT_DURATION_SECS t")
    show ?case
    proof (cases r)
      case (Inl err)
      then show ?thesis using Cons b v by simp
    next
      case (Inr d)
      have "n \<noteq> 0" "unat ts < 2 ^ 63" using Cons.prems(1) b by auto
      then have "drift_ok t'" "dt_last_timestamp t < ts" "dt_last_timestamp t' = ts"
        using validate_and_update_ok [OF v [unfolded Inr] Cons.prems(2)] by auto
      then show ?thesis
        using Cons.IH [of t'] Cons.prems(1) b v Inr by (auto simp: less_imp_le intro: order.trans [OF less_imp_le])
    qed
  qed
  from this [of "drift_tracker_new g"] show ?thesis by (simp add: drift_ok_def drift_tracker_new_def)
qed

theorem drift_bounded_witness:
  "dt_epoch_drift (track [(1, 108, 0, 1), (2, 113, 0, 2)] (drift_tracker_new 100)) = 1
   \<and> 100 \<le> dt_last_timestamp (track [(1, 108, 0, 1), (2, 113, 0, 2)] (drift_tracker_new 100))"
proof -
  have "dt_epoch_drift (track [(1, 108, 0, 1), (2, 113, 0, 2)] (drift_tracker_new 100)) = 1"
    by (simp add: validate_and_update_def drift_tracker_new_def advance_to_def enter_epoch_def const_defs Let_def
        interval_drift_def i64_clamp_def i64_abs_def sat_mul_def sat_sub_def sat_add_def word_le_nat_alt word_less_nat_alt)
  then show ?thesis using drift_bounded [of "[(1, 108, 0, 1), (2, 113, 0, 2)]" 100] by simp
qed

end
