(* ===== verification/Kratos_Database.thy ===== *)
theory Kratos_Database
  imports Kratos_Merkle Kratos_Drift Kratos_Credits Kratos_Maps
begin

text \<open>
  The RocksDB wrapper (\<^verbatim>\<open>storage/db.rs\<close>), the key layout of the state database
  (\<^verbatim>\<open>storage/state.rs\<close>) and what the program relies on from the two crates underneath.

  RocksDB and bincode are not part of the repository.  The record \<open>storage_env\<close> carries them as
  parameters: the five calls made on the database handle of type \<open>'d\<close>, and one encoder and
  decoder per stored type.  \<open>storage_laws\<close> is what their documentation promises: a successful
  write changes exactly the keys written, a failed one changes nothing, a read returns what is
  stored, and decoding inverts encoding.  \<open>storage_total\<close> says in addition that no call fails.
\<close>

section \<open>Requests and errors\<close>

datatype write_op = Put bytes bytes | Delete bytes

datatype database_error = OpenFailed string | ReadFailed string | WriteFailed string | DbSerializationFailed string

text \<open>\<open>UnbondingRequest\<close> and \<open>UnbondingInfo\<close> of the state database.\<close>

record unbonding_entry =
  ue_amount :: balance
  ue_unbonding_started :: block_number
  ue_release_block :: block_number

type_synonym unbonding_info = "unbonding_entry list"

section \<open>The external crates\<close>

record 'a codec =
  serialize :: "'a \<Rightarrow> (string, bytes) result"
  deserialize :: "bytes \<Rightarrow> (string, 'a) result"

record 'd storage_env =
  rk_get :: "bytes \<Rightarrow> 'd \<Rightarrow> (string, bytes option) result"
  rk_put :: "bytes \<Rightarrow> bytes \<Rightarrow> 'd \<Rightarrow> (string, unit) result \<times> 'd"
  rk_delete :: "bytes \<Rightarrow> 'd \<Rightarrow> (string, unit) result \<times> 'd"
  rk_write :: "write_op list \<Rightarrow> 'd \<Rightarrow> (string, unit) result \<times> 'd"
  rk_prefix_iterator :: "bytes \<Rightarrow> 'd \<Rightarrow> (string, bytes \<times> bytes) result list"
  bc_account :: "account_info codec"
  bc_u64 :: "u64 codec"
  bc_block :: "block codec"
  bc_drift :: "drift_tracker codec"
  bc_state_root :: "state_root codec"
  bc_vc :: "vc_record codec"
  bc_unbonding :: "unbonding_info codec"
  bc_clock :: "clock_record codec"
  se_crypto :: crypto
  se_merkle :: merkle_lib

section \<open>Database\<close>

definition database_get :: "'d storage_env \<Rightarrow> bytes \<Rightarrow> 'd \<Rightarrow> (database_error, bytes option) result" where
  "database_get E key d = (case rk_get E key d of Inl e \<Rightarrow> Err (ReadFailed e) | Inr v \<Rightarrow> Ok v)"

definition database_put :: "'d storage_env \<Rightarrow> bytes \<Rightarrow> bytes \<Rightarrow> ('d, database_error, unit) action" where
  "database_put E key v = map_err WriteFailed (rk_put E key v)"

definition database_delete :: "'d storage_env \<Rightarrow> bytes \<Rightarrow> ('d, database_error, unit) action" where
  "database_delete E key = map_err WriteFailed (rk_delete E key)"

definition database_exists :: "'d storage_env \<Rightarrow> bytes \<Rightarrow> 'd \<Rightarrow> (database_error, bool) result" where
  "database_exists E key d =
     (case database_get E key d of Inl e \<Rightarrow> Err e | Inr v \<Rightarrow> Ok (v \<noteq> None))"

definition batch_write :: "'d storage_env \<Rightarrow> write_op list \<Rightarrow> ('d, database_error, unit) action" where
  "batch_write E ops =
     map_err WriteFailed (rk_write E (foldl (\<lambda>batch op. case op of Put k v \<Rightarrow> batch @ [Put k v]
                                                              | Delete k \<Rightarrow> batch @ [Delete k]) [] ops))"

definition starts_with :: "bytes \<Rightarrow> bytes \<Rightarrow> bool" where
  "starts_with key p = (take (length p) key = p)"

definition prefix_iterator :: "'d storage_env \<Rightarrow> bytes \<Rightarrow> 'd \<Rightarrow> (bytes \<times> bytes) list" where
  "prefix_iterator E p d =
     takeWhile (\<lambda>(key, _). starts_with key p)
       (List.map_filter (\<lambda>item. case item of Inl _ \<Rightarrow> None | Inr kv \<Rightarrow> Some kv) (rk_prefix_iterator E p d))"

definition prefix_iterator_with_errors ::
  "'d storage_env \<Rightarrow> bytes \<Rightarrow> 'd \<Rightarrow> (database_error, bytes \<times> bytes) result list" where
  "prefix_iterator_with_errors E p d =
     takeWhile (\<lambda>item. case item of Inl _ \<Rightarrow> True | Inr (key, _) \<Rightarrow> starts_with key p)
       (map (\<lambda>item. case item of Inl e \<Rightarrow> Err (ReadFailed e) | Inr kv \<Rightarrow> Ok kv) (rk_prefix_iterator E p d))"

section \<open>What the crates promise\<close>

fun apply_op :: "write_op \<Rightarrow> (bytes \<rightharpoonup> bytes) \<Rightarrow> (bytes \<rightharpoonup> bytes)" where
  "apply_op (Put k v) m = m(k \<mapsto> v)"
| "apply_op (Delete k) m = m(k := None)"

definition codec_ok :: "'a codec \<Rightarrow> bool" where
  "codec_ok C = (\<forall>x bs. serialize C x = Ok bs \<longrightarrow> deserialize C bs = Ok x)"

text \<open>
  The field \<open>hash\<close> of a signed transaction is marked \<^verbatim>\<open>#[serde(skip)]\<close>: it is not written, and reads back empty.
  Decoding a block therefore gives the block without these fields.
\<close>

definition unhashed :: "block \<Rightarrow> block" where
  "unhashed b = b\<lparr>bk_body := \<lparr>bb_transactions = map (\<lambda>tx. tx\<lparr>stx_hash := None\<rparr>) (bb_transactions (bk_body b))\<rparr>\<rparr>"

definition block_codec_ok :: "block codec \<Rightarrow> bool" where
  "block_codec_ok C = (\<forall>b bs. serialize C b = Ok bs \<longrightarrow> deserialize C bs = Ok (unhashed b))"

definition writes :: "('d \<Rightarrow> bytes \<rightharpoonup> bytes) \<Rightarrow> ('d \<Rightarrow> (string, unit) result \<times> 'd) \<Rightarrow> ((bytes \<rightharpoonup> bytes) \<Rightarrow> bytes \<rightharpoonup> bytes) \<Rightarrow> bool" where
  "writes content w f =
     (\<forall>d. case w d of (Inl _, d') \<Rightarrow> content d' = content d | (Inr _, d') \<Rightarrow> content d' = f (content d))"

definition storage_laws :: "'d storage_env \<Rightarrow> ('d \<Rightarrow> bytes \<rightharpoonup> bytes) \<Rightarrow> bool" where
  "storage_laws E content =
     ((\<forall>k d v. rk_get E k d = Ok v \<longrightarrow> v = content d k)
    \<and> (\<forall>k v. writes content (rk_put E k v) (\<lambda>m. m(k \<mapsto> v)))
    \<and> (\<forall>k. writes content (rk_delete E k) (\<lambda>m. m(k := None)))
    \<and> (\<forall>ops. writes content (rk_write E ops) (fold apply_op ops))
    \<and> codec_ok (bc_account E) \<and> codec_ok (bc_u64 E) \<and> block_codec_ok (bc_block E) \<and> codec_ok (bc_drift E)
    \<and> codec_ok (bc_state_root E) \<and> codec_ok (bc_vc E) \<and> codec_ok (bc_unbonding E) \<and> codec_ok (bc_clock E))"

definition storage_total :: "'d storage_env \<Rightarrow> bool" where
  "storage_total E =
     ((\<forall>k d. is_ok (rk_get E k d)) \<and> (\<forall>k v d. is_ok (fst (rk_put E k v d))) \<and> (\<forall>k d. is_ok (fst (rk_delete E k d)))
    \<and> (\<forall>x. is_ok (serialize (bc_account E) x)) \<and> (\<forall>x. is_ok (serialize (bc_unbonding E) x)))"

lemma laws_get: "storage_laws E content \<Longrightarrow> rk_get E k d = Ok v \<Longrightarrow> v = content d k"
  unfolding storage_laws_def by blast

lemma laws_codecs:
  assumes "storage_laws E content"
  shows "codec_ok (bc_account E)" "codec_ok (bc_u64 E)" "block_codec_ok (bc_block E)" "codec_ok (bc_drift E)"
    "codec_ok (bc_state_root E)" "codec_ok (bc_vc E)" "codec_ok (bc_unbonding E)" "codec_ok (bc_clock E)"
  using assms unfolding storage_laws_def by blast+

lemma writes_ok: "writes content w f \<Longrightarrow> map_err g w d = (Ok u, d') \<Longrightarrow> content d' = f (content d)"
  by (auto simp: writes_def map_err_def split: prod.splits sum.splits)

lemma writes_err: "writes content w f \<Longrightarrow> map_err g w d = (Err e, d') \<Longrightarrow> content d' = content d"
  by (auto simp: writes_def map_err_def split: prod.splits sum.splits)

lemma laws_writes:
  assumes "storage_laws E content"
  shows "writes content (rk_put E k v) (\<lambda>m. m(k \<mapsto> v))" "writes content (rk_delete E k) (\<lambda>m. m(k := None))"
    "writes content (rk_write E ops) (fold apply_op ops)"
  using assms unfolding storage_laws_def by blast+

section \<open>Keys\<close>

definition PREFIX_ACCOUNT :: bytes where "PREFIX_ACCOUNT = ascii ''account:''"
definition PREFIX_VC :: bytes where "PREFIX_VC = ascii ''vc:''"
definition PREFIX_UNBONDING :: bytes where "PREFIX_UNBONDING = ascii ''unbonding:''"
definition PREFIX_BLOCK_HASH :: bytes where "PREFIX_BLOCK_HASH = ascii ''block_hash:''"
definition PREFIX_BLOCK_BY_HASH :: bytes where "PREFIX_BLOCK_BY_HASH = ascii ''block_by_hash:''"
definition PREFIX_BLOCK_BY_NUMBER :: bytes where "PREFIX_BLOCK_BY_NUMBER = ascii ''block_by_num:''"
definition PREFIX_STATE_ROOT :: bytes where "PREFIX_STATE_ROOT = ascii ''state_root:''"
definition PREFIX_CLOCK_RECORD :: bytes where "PREFIX_CLOCK_RECORD = ascii ''clock_rec:''"
definition KEY_BEST_BLOCK :: bytes where "KEY_BEST_BLOCK = ascii ''best_block''"
definition KEY_GENESIS_HASH :: bytes where "KEY_GENESIS_HASH = ascii ''genesis_hash''"
definition KEY_DRIFT_TRACKER :: bytes where "KEY_DRIFT_TRACKER = ascii ''drift_tracker''"

lemmas key_defs =
  PREFIX_ACCOUNT_def PREFIX_VC_def PREFIX_UNBONDING_def PREFIX_BLOCK_HASH_def PREFIX_BLOCK_BY_HASH_def
  PREFIX_BLOCK_BY_NUMBER_def PREFIX_STATE_ROOT_def PREFIX_CLOCK_RECORD_def KEY_BEST_BLOCK_def
  KEY_GENESIS_HASH_def KEY_DRIFT_TRACKER_def

definition account_key :: "account_id \<Rightarrow> bytes" where "account_key i = PREFIX_ACCOUNT @ account_bytes i"
definition block_hash_key :: "block_number \<Rightarrow> bytes" where "block_hash_key n = PREFIX_BLOCK_HASH @ le_bytes 8 n"
definition state_root_key :: "block_number \<Rightarrow> bytes" where "state_root_key n = PREFIX_STATE_ROOT @ le_bytes 8 n"
definition vc_key :: "account_id \<Rightarrow> bytes" where "vc_key i = PREFIX_VC @ account_bytes i"
definition unbonding_key :: "account_id \<Rightarrow> bytes" where "unbonding_key i = PREFIX_UNBONDING @ account_bytes i"
definition clock_record_key :: "account_id \<Rightarrow> bytes" where "clock_record_key i = PREFIX_CLOCK_RECORD @ account_bytes i"
definition block_by_hash_key :: "hash \<Rightarrow> bytes" where "block_by_hash_key h = PREFIX_BLOCK_BY_HASH @ hash_bytes h"
definition block_by_number_key :: "block_number \<Rightarrow> bytes" where "block_by_number_key n = PREFIX_BLOCK_BY_NUMBER @ le_bytes 8 n"

text \<open>The records of the database and the key each one lives under.\<close>

datatype storage_key =
    KAccount account_id | KVc account_id | KUnbonding account_id | KClock account_id
  | KBlockHash block_number | KStateRoot block_number | KBlockByNumber block_number
  | KBlockByHash hash | KBestBlock | KGenesisHash | KDriftTracker

fun key_bytes :: "storage_key \<Rightarrow> bytes" where
  "key_bytes (KAccount i) = account_key i"
| "key_bytes (KVc i) = vc_key i"
| "key_bytes (KUnbonding i) = unbonding_key i"
| "key_bytes (KClock i) = clock_record_key i"
| "key_bytes (KBlockHash n) = block_hash_key n"
| "key_bytes (KStateRoot n) = state_root_key n"
| "key_bytes (KBlockByNumber n) = block_by_number_key n"
| "key_bytes (KBlockByHash h) = block_by_hash_key h"
| "key_bytes KBestBlock = KEY_BEST_BLOCK"
| "key_bytes KGenesisHash = KEY_GENESIS_HASH"
| "key_bytes KDriftTracker = KEY_DRIFT_TRACKER"

text \<open>A key as its prefix and what identifies the record under it.\<close>

fun key_parts :: "storage_key \<Rightarrow> bytes \<times> bytes" where
  "key_parts (KAccount i) = (PREFIX_ACCOUNT, account_bytes i)"
| "key_parts (KVc i) = (PREFIX_VC, account_bytes i)"
| "key_parts (KUnbonding i) = (PREFIX_UNBONDING, account_bytes i)"
| "key_parts (KClock i) = (PREFIX_CLOCK_RECORD, account_bytes i)"
| "key_parts (KBlockHash n) = (PREFIX_BLOCK_HASH, le_bytes 8 n)"
| "key_parts (KStateRoot n) = (PREFIX_STATE_ROOT, le_bytes 8 n)"
| "key_parts (KBlockByNumber n) = (PREFIX_BLOCK_BY_NUMBER, le_bytes 8 n)"
| "key_parts (KBlockByHash h) = (PREFIX_BLOCK_BY_HASH, hash_bytes h)"
| "key_parts KBestBlock = (KEY_BEST_BLOCK, [])"
| "key_parts KGenesisHash = (KEY_GENESIS_HASH, [])"
| "key_parts KDriftTracker = (KEY_DRIFT_TRACKER, [])"

lemma key_bytes_parts: "key_bytes k = fst (key_parts k) @ snd (key_parts k)"
  by (cases k) (simp_all add: account_key_def vc_key_def unbonding_key_def clock_record_key_def
      block_hash_key_def state_root_key_def block_by_number_key_def block_by_hash_key_def)

definition key_prefixes :: "bytes list" where
  "key_prefixes = [PREFIX_ACCOUNT, PREFIX_VC, PREFIX_UNBONDING, PREFIX_BLOCK_HASH, PREFIX_BLOCK_BY_HASH,
     PREFIX_BLOCK_BY_NUMBER, PREFIX_STATE_ROOT, PREFIX_CLOCK_RECORD, KEY_BEST_BLOCK, KEY_GENESIS_HASH,
     KEY_DRIFT_TRACKER]"

lemma key_prefixes_clash_free: "clash_free key_prefixes"
  by (simp add: key_prefixes_def key_defs differ_ascii)

lemma key_prefix_listed: "fst (key_parts k) \<in> set key_prefixes"
  by (cases k) (simp_all add: key_prefixes_def)

lemma ascii_inject [simp]: "ascii s = ascii t \<longleftrightarrow> s = t"
  unfolding ascii_def by (rule inj_map_eq_map) (auto intro: injI)

lemma le_bytes_8_inject [simp]: "le_bytes 8 (a :: u64) = le_bytes 8 b \<longleftrightarrow> a = b"
  using le_bytes_inject [of 8 a b] by auto

lemma key_parts_inject: "key_parts k = key_parts k' \<Longrightarrow> k = k'"
  by (cases k; cases k') (simp_all add: key_defs)

lemma key_bytes_eq [simp]: "key_bytes k = key_bytes k' \<longleftrightarrow> k = k'"
proof
  assume "key_bytes k = key_bytes k'"
  then have "fst (key_parts k) = fst (key_parts k') \<and> snd (key_parts k) = snd (key_parts k')"
    by (intro clash_free_append [OF key_prefixes_clash_free key_prefix_listed key_prefix_listed])
      (simp add: key_bytes_parts)
  then show "k = k'" by (intro key_parts_inject) (simp add: prod_eq_iff)
qed simp

text \<open>
  No two records of the state database share a key, whatever their kind: accounts, credits,
  unbonding and clock records, blocks by number and by hash, block hashes, state roots and the
  three singleton records.
\<close>

theorem storage_keys_distinct: "inj key_bytes"
  by (rule injI) simp

end
