(* ===== verification/Kratos_State.thy ===== *)
theory Kratos_State
  imports Kratos_Database "HOL-Library.List_Lexorder"
begin

text \<open>
  The state backend (\<^verbatim>\<open>storage/state.rs\<close>): accounts behind a write-through cache, blocks,
  drift tracker, state roots, validator credits, unbonding requests and clock records.

  Methods that take \<^verbatim>\<open>&self\<close> but write to the database change the backend's \<open>sb_db\<close>, so
  they are actions like the \<^verbatim>\<open>&mut self\<close> ones.  The debug-only flag \<open>in_atomic_operation\<close>
  is left out.  A decoded error message of an external crate is a \<open>string\<close>;
  \<open>DriftValidationFailed\<close> keeps the drift error itself in place of its text.
\<close>

datatype state_error =
    AccountNotFound account_id
  | InsufficientBalance account_id balance balance
  | DatabaseError database_error
  | SerializationFailed string
  | DeserializationFailed string
  | DriftTrackerNotInitialized
  | DriftValidationFailed drift_error

record 'd state_backend =
  sb_db :: 'd
  sb_account_cache :: "(account_id, account_info) hmap"
  sb_cache_generation :: u64

type_synonym ('d, 'a) state_action = "('d state_backend, state_error, 'a) action"

section \<open>Database access\<close>

text \<open>Calls on \<open>self.db\<close> with the database error converted by \<^verbatim>\<open>?\<close>, and bincode with its message.\<close>

definition st_get :: "'d storage_env \<Rightarrow> bytes \<Rightarrow> ('d, bytes option) state_action" where
  "st_get E key s = (case database_get E key (sb_db s) of Inl e \<Rightarrow> (Err (DatabaseError e), s) | Inr v \<Rightarrow> (Ok v, s))"

definition st_put :: "'d storage_env \<Rightarrow> bytes \<Rightarrow> bytes \<Rightarrow> ('d, unit) state_action" where
  "st_put E key v s =
     (case database_put E key v (sb_db s) of
        (Inl e, d) \<Rightarrow> (Err (DatabaseError e), s\<lparr>sb_db := d\<rparr>) | (Inr _, d) \<Rightarrow> (Ok (), s\<lparr>sb_db := d\<rparr>))"

definition st_delete :: "'d storage_env \<Rightarrow> bytes \<Rightarrow> ('d, unit) state_action" where
  "st_delete E key s =
     (case database_delete E key (sb_db s) of
        (Inl e, d) \<Rightarrow> (Err (DatabaseError e), s\<lparr>sb_db := d\<rparr>) | (Inr _, d) \<Rightarrow> (Ok (), s\<lparr>sb_db := d\<rparr>))"

definition load :: "'d storage_env \<Rightarrow> 'a codec \<Rightarrow> bytes \<Rightarrow> ('d, 'a option) state_action" where
  "load E C key =
     andThen (st_get E key) (\<lambda>r. case r of
        Some bs \<Rightarrow> (case deserialize C bs of Inl e \<Rightarrow> throw (DeserializationFailed e) | Inr x \<Rightarrow> ret (Some x))
      | None \<Rightarrow> ret None)"

definition save :: "'d storage_env \<Rightarrow> 'a codec \<Rightarrow> bytes \<Rightarrow> 'a \<Rightarrow> ('d, unit) state_action" where
  "save E C key x = (case serialize C x of Inl e \<Rightarrow> throw (SerializationFailed e) | Inr v \<Rightarrow> st_put E key v)"

section \<open>Accounts\<close>

definition backend_new :: "'d \<Rightarrow> 'd state_backend" where
  "backend_new d = \<lparr>sb_db = d, sb_account_cache = [], sb_cache_generation = 0\<rparr>"

definition invalidate_cache :: "'d state_backend \<Rightarrow> 'd state_backend" where
  "invalidate_cache s = s\<lparr>sb_account_cache := [], sb_cache_generation := sb_cache_generation s + 1\<rparr>"

definition execute_atomic :: "('d, 'a) state_action \<Rightarrow> ('d, 'a) state_action" where
  "execute_atomic f s = (let (r, s') = f s in (r, invalidate_cache s'))"

definition get_account :: "'d storage_env \<Rightarrow> account_id \<Rightarrow> ('d, account_info option) state_action" where
  "get_account E i s =
     (case hm_get (sb_account_cache s) i of
        Some info \<Rightarrow> (Ok (Some info), s)
      | None \<Rightarrow> andThen (load E (bc_account E) (account_key i)) (\<lambda>r s'. case r of
                  Some info \<Rightarrow> (Ok (Some info), s'\<lparr>sb_account_cache := hm_insert i info (sb_account_cache s')\<rparr>)
                | None \<Rightarrow> (Ok None, s')) s)"

definition set_account :: "'d storage_env \<Rightarrow> account_id \<Rightarrow> account_info \<Rightarrow> ('d, unit) state_action" where
  "set_account E i info =
     andThen (save E (bc_account E) (account_key i) info)
       (\<lambda>_ s'. (Ok (), s'\<lparr>sb_account_cache := hm_insert i info (sb_account_cache s')\<rparr>))"

definition delete_account :: "'d storage_env \<Rightarrow> account_id \<Rightarrow> ('d, unit) state_action" where
  "delete_account E i =
     andThen (st_delete E (account_key i))
       (\<lambda>_ s'. (Ok (), s'\<lparr>sb_account_cache := hm_remove i (sb_account_cache s')\<rparr>))"

definition transfer :: "'d storage_env \<Rightarrow> account_id \<Rightarrow> account_id \<Rightarrow> balance \<Rightarrow> ('d, unit) state_action" where
  "transfer E sender dest amount =
     execute_atomic
       (andThen (get_account E sender) (\<lambda>from_account. case from_account of
          None \<Rightarrow> throw (AccountNotFound sender)
        | Some f \<Rightarrow> andThen (get_account E dest) (\<lambda>to_account.
            let t = (case to_account of Some t \<Rightarrow> t | None \<Rightarrow> account_new)
            in if ai_free f < amount then throw (InsufficientBalance sender (ai_free f) amount)
               else andThen (set_account E sender (f\<lparr>ai_free := sat_sub (ai_free f) amount\<rparr>))
                      (\<lambda>_. set_account E dest (t\<lparr>ai_free := sat_add (ai_free t) amount\<rparr>)))))"

section \<open>Blocks\<close>

definition word_of_le :: "bytes \<Rightarrow> 'a::len word" where
  "word_of_le bs = foldr (\<lambda>b acc. or (ucast b) (push_bit 8 acc)) bs 0"

definition hash_of_bytes :: "bytes \<Rightarrow> hash" where
  "hash_of_bytes bs = word_of_le (rev bs)"

definition read_hash :: "'d storage_env \<Rightarrow> bytes \<Rightarrow> ('d, hash option) state_action" where
  "read_hash E key =
     andThen (st_get E key) (\<lambda>r. case r of
        Some bs \<Rightarrow> ret (if length bs = 32 then Some (hash_of_bytes bs) else None)
      | None \<Rightarrow> ret None)"

definition set_block_hash :: "'d storage_env \<Rightarrow> block_number \<Rightarrow> hash \<Rightarrow> ('d, unit) state_action" where
  "set_block_hash E n h = st_put E (block_hash_key n) (hash_bytes h)"

definition get_block_hash :: "'d storage_env \<Rightarrow> block_number \<Rightarrow> ('d, hash option) state_action" where
  "get_block_hash E n = read_hash E (block_hash_key n)"

definition set_best_block :: "'d storage_env \<Rightarrow> block_number \<Rightarrow> ('d, unit) state_action" where
  "set_best_block E n = save E (bc_u64 E) KEY_BEST_BLOCK n"

definition get_best_block :: "'d storage_env \<Rightarrow> ('d, block_number option) state_action" where
  "get_best_block E = load E (bc_u64 E) KEY_BEST_BLOCK"

definition store_block :: "'d storage_env \<Rightarrow> block \<Rightarrow> ('d, unit) state_action" where
  "store_block E b =
     (let h = block_hash (se_crypto E) b;
          n = bh_number (bk_header b)
      in case serialize (bc_block E) b of
           Inl e \<Rightarrow> throw (SerializationFailed e)
         | Inr bs \<Rightarrow> andThen (st_put E (block_by_hash_key h) bs)
                      (\<lambda>_. andThen (st_put E (block_by_number_key n) bs)
                      (\<lambda>_. set_block_hash E n h)))"

definition get_block_by_hash :: "'d storage_env \<Rightarrow> hash \<Rightarrow> ('d, block option) state_action" where
  "get_block_by_hash E h = load E (bc_block E) (block_by_hash_key h)"

definition get_block_by_number :: "'d storage_env \<Rightarrow> block_number \<Rightarrow> ('d, block option) state_action" where
  "get_block_by_number E n = load E (bc_block E) (block_by_number_key n)"

text \<open>The loop of \<open>get_blocks_range\<close> over \<open>n, n + 1, ..\<close>; the list holds the numbers of the range.\<close>

fun collect_blocks :: "'d storage_env \<Rightarrow> block_number list \<Rightarrow> ('d, block list) state_action" where
  "collect_blocks E [] = ret []"
| "collect_blocks E (n # ns) =
     andThen (get_block_by_number E n) (\<lambda>r. case r of
        Some b \<Rightarrow> andThen (collect_blocks E ns) (\<lambda>bs. ret (b # bs))
      | None \<Rightarrow> ret [])"

definition number_range :: "block_number \<Rightarrow> block_number \<Rightarrow> block_number list" where
  "number_range a b = map word_of_nat [unat a..<unat b]"

definition get_blocks_range :: "'d storage_env \<Rightarrow> block_number \<Rightarrow> u32 \<Rightarrow> ('d, block list) state_action" where
  "get_blocks_range E start max_count =
     andThen (get_best_block E) (\<lambda>r.
       let best = (case r of Some n \<Rightarrow> n | None \<Rightarrow> 0);
           end' = min (start + ucast max_count) (best + 1)
       in collect_blocks E (number_range start end'))"

definition set_genesis_hash :: "'d storage_env \<Rightarrow> hash \<Rightarrow> ('d, unit) state_action" where
  "set_genesis_hash E h = st_put E KEY_GENESIS_HASH (hash_bytes h)"

definition get_genesis_hash :: "'d storage_env \<Rightarrow> ('d, hash option) state_action" where
  "get_genesis_hash E = read_hash E KEY_GENESIS_HASH"

section \<open>Drift tracker\<close>

definition set_drift_tracker :: "'d storage_env \<Rightarrow> drift_tracker \<Rightarrow> ('d, unit) state_action" where
  "set_drift_tracker E t = save E (bc_drift E) KEY_DRIFT_TRACKER t"

definition get_drift_tracker :: "'d storage_env \<Rightarrow> ('d, drift_tracker option) state_action" where
  "get_drift_tracker E = load E (bc_drift E) KEY_DRIFT_TRACKER"

definition init_drift_tracker :: "'d storage_env \<Rightarrow> u64 \<Rightarrow> ('d, drift_tracker) state_action" where
  "init_drift_tracker E genesis_timestamp =
     (let t = drift_tracker_new genesis_timestamp in andThen (set_drift_tracker E t) (\<lambda>_. ret t))"

definition validate_block_drift :: "'d storage_env \<Rightarrow> block \<Rightarrow> u64 \<Rightarrow> ('d, int) state_action" where
  "validate_block_drift E b slot_duration_secs =
     andThen (get_drift_tracker E) (\<lambda>r. case r of
        None \<Rightarrow> throw DriftTrackerNotInitialized
      | Some t \<Rightarrow>
          (let h = bk_header b
           in case validate_and_update (bh_number h) (bh_timestamp h) (bh_epoch h) (bh_slot h) slot_duration_secs t of
                (Inl e, _) \<Rightarrow> throw (DriftValidationFailed e)
              | (Inr drift, t') \<Rightarrow> andThen (set_drift_tracker E t') (\<lambda>_. ret drift)))"

definition update_drift_tracker_for_sync :: "'d storage_env \<Rightarrow> block \<Rightarrow> ('d, unit) state_action" where
  "update_drift_tracker_for_sync E b =
     andThen (get_drift_tracker E) (\<lambda>r. case r of
        None \<Rightarrow> throw DriftTrackerNotInitialized
      | Some t \<Rightarrow> set_drift_tracker E
                  (t\<lparr>dt_last_block := bh_number (bk_header b), dt_last_timestamp := bh_timestamp (bk_header b),
                     dt_last_slot := bh_slot (bk_header b), dt_current_epoch := bh_epoch (bk_header b)\<rparr>))"

section \<open>State roots and batches\<close>

definition compute_state_root :: "'d storage_env \<Rightarrow> block_number \<Rightarrow> chain_id \<Rightarrow> 'd state_backend \<Rightarrow> state_root" where
  "compute_state_root E n chain s =
     (let account_entries = foldl (\<lambda>m (key, v). bm_insert key v m) [] (prefix_iterator E PREFIX_ACCOUNT (sb_db s))
      in if account_entries = [] then state_root_zero chain
         else state_root_new (state_tree_root (se_crypto E) (se_merkle E) (bm_values account_entries)) n chain)"

definition store_state_root :: "'d storage_env \<Rightarrow> block_number \<Rightarrow> state_root \<Rightarrow> ('d, unit) state_action" where
  "store_state_root E n r = save E (bc_state_root E) (state_root_key n) r"

definition get_state_root :: "'d storage_env \<Rightarrow> block_number \<Rightarrow> ('d, state_root option) state_action" where
  "get_state_root E n = load E (bc_state_root E) (state_root_key n)"

definition commit_batch :: "'d storage_env \<Rightarrow> write_op list \<Rightarrow> ('d, unit) state_action" where
  "commit_batch E ops s =
     (case batch_write E ops (sb_db s) of
        (Inl e, d) \<Rightarrow> (Err (DatabaseError e), s\<lparr>sb_db := d\<rparr>)
      | (Inr _, d) \<Rightarrow> (Ok (), invalidate_cache (s\<lparr>sb_db := d\<rparr>)))"

section \<open>Validator credits\<close>

definition get_vc_record :: "'d storage_env \<Rightarrow> account_id \<Rightarrow> ('d, vc_record option) state_action" where
  "get_vc_record E i = load E (bc_vc E) (vc_key i)"

definition set_vc_record :: "'d storage_env \<Rightarrow> account_id \<Rightarrow> vc_record \<Rightarrow> ('d, unit) state_action" where
  "set_vc_record E i r = save E (bc_vc E) (vc_key i) r"

definition delete_vc_record :: "'d storage_env \<Rightarrow> account_id \<Rightarrow> ('d, unit) state_action" where
  "delete_vc_record E i = st_delete E (vc_key i)"

definition state_total_vc :: "'d storage_env \<Rightarrow> account_id \<Rightarrow> ('d, u64) state_action" where
  "state_total_vc E i = andThen (get_vc_record E i) (\<lambda>r. ret (case r of Some c \<Rightarrow> total_vc c | None \<Rightarrow> 0))"

definition initialize_bootstrap_vc :: "'d storage_env \<Rightarrow> account_id \<Rightarrow> block_number \<Rightarrow> epoch_number \<Rightarrow> ('d, unit) state_action" where
  "initialize_bootstrap_vc E i n current_epoch =
     set_vc_record E i ((vc_new n current_epoch)\<lparr>vc_uptime_credits := 100\<rparr>)"

section \<open>Unbonding requests\<close>

definition get_unbonding_info :: "'d storage_env \<Rightarrow> account_id \<Rightarrow> ('d, unbonding_info option) state_action" where
  "get_unbonding_info E i = load E (bc_unbonding E) (unbonding_key i)"

definition set_unbonding_info :: "'d storage_env \<Rightarrow> account_id \<Rightarrow> unbonding_info \<Rightarrow> ('d, unit) state_action" where
  "set_unbonding_info E i info = save E (bc_unbonding E) (unbonding_key i) info"

definition add_unbonding_request ::
  "'d storage_env \<Rightarrow> account_id \<Rightarrow> balance \<Rightarrow> block_number \<Rightarrow> block_number \<Rightarrow> ('d, unit) state_action" where
  "add_unbonding_request E i amount current_block unbonding_period =
     andThen (get_unbonding_info E i) (\<lambda>r.
       let info = (case r of Some info \<Rightarrow> info | None \<Rightarrow> [])
       in set_unbonding_info E i
            (info @ [\<lparr>ue_amount = amount, ue_unbonding_started = current_block,
                      ue_release_block = sat_add current_block unbonding_period\<rparr>]))"

definition get_total_unbonding :: "'d storage_env \<Rightarrow> account_id \<Rightarrow> ('d, balance) state_action" where
  "get_total_unbonding E i =
     andThen (get_unbonding_info E i) (\<lambda>r. ret (case r of Some info \<Rightarrow> sum_list (map ue_amount info) | None \<Rightarrow> 0))"

definition withdraw_matured_unbonding :: "'d storage_env \<Rightarrow> account_id \<Rightarrow> block_number \<Rightarrow> ('d, balance) state_action" where
  "withdraw_matured_unbonding E i current_block =
     andThen (get_unbonding_info E i) (\<lambda>r. case r of
        None \<Rightarrow> ret 0
      | Some info \<Rightarrow>
          (let (matured, pending) = partition (\<lambda>u. ue_release_block u \<le> current_block) info;
               withdrawn = foldl (\<lambda>w u. sat_add w (ue_amount u)) 0 matured
           in andThen (if pending = [] then st_delete E (unbonding_key i) else set_unbonding_info E i pending)
                (\<lambda>_. ret withdrawn)))"

section \<open>Clock records\<close>

definition get_clock_record :: "'d storage_env \<Rightarrow> account_id \<Rightarrow> ('d, clock_record option) state_action" where
  "get_clock_record E i = load E (bc_clock E) (clock_record_key i)"

definition set_clock_record :: "'d storage_env \<Rightarrow> account_id \<Rightarrow> clock_record \<Rightarrow> ('d, unit) state_action" where
  "set_clock_record E i r = save E (bc_clock E) (clock_record_key i) r"

definition record_clock_failure :: "'d storage_env \<Rightarrow> account_id \<Rightarrow> epoch_number \<Rightarrow> ('d, unit) state_action" where
  "record_clock_failure E i epoch =
     andThen (get_clock_record E i) (\<lambda>r. let c = (case r of Some c \<Rightarrow> c | None \<Rightarrow> clock_record_new)
        in set_clock_record E i (record_failure epoch c))"

definition record_clock_missed_slot :: "'d storage_env \<Rightarrow> account_id \<Rightarrow> ('d, unit) state_action" where
  "record_clock_missed_slot E i =
     andThen (get_clock_record E i) (\<lambda>r. let c = (case r of Some c \<Rightarrow> c | None \<Rightarrow> clock_record_new)
        in set_clock_record E i (record_missed_slot c))"

definition get_clock_failures :: "'d storage_env \<Rightarrow> account_id \<Rightarrow> ('d, u32) state_action" where
  "get_clock_failures E i =
     andThen (get_clock_record E i) (\<lambda>r. ret (case r of Some c \<Rightarrow> ck_clock_sync_failures c | None \<Rightarrow> 0))"

definition get_clock_vc_penalty :: "'d storage_env \<Rightarrow> account_id \<Rightarrow> ('d, u64) state_action" where
  "get_clock_vc_penalty E i =
     andThen (get_clock_record E i) (\<lambda>r. ret (case r of Some c \<Rightarrow> vc_penalty c | None \<Rightarrow> 0))"

end
