(* ===== verification/Kratos_Ledger.thy ===== *)
theory Kratos_Ledger
  imports Kratos_State
begin

text \<open>
  What the state backend guarantees.  \<open>record_store\<close> is the interface its clients (the
  transaction executor and the reward code) rely on: reading returns the stored record, a
  successful write replaces exactly one record and a failed write none.  It is interpreted on
  the cached accounts, the credit records, the unbonding requests and the clock records of the
  backend, over any database that satisfies \<open>storage_laws\<close>.
\<close>

section \<open>The interface of a record store\<close>

locale record_store =
  fixes fetch :: "'k \<Rightarrow> ('s, 'e, 'v option) action"
    and update :: "'k \<Rightarrow> 'v \<Rightarrow> ('s, 'e, unit) action"
    and view :: "'s \<Rightarrow> 'k \<Rightarrow> 'v option"
    and good :: "'s \<Rightarrow> bool"
  assumes fetch_ok: "good s \<Longrightarrow> fetch k s = (Ok r, s') \<Longrightarrow> good s' \<and> view s' = view s \<and> r = view s k"
    and fetch_err: "good s \<Longrightarrow> fetch k s = (Err e, s') \<Longrightarrow> good s' \<and> view s' = view s"
    and update_ok: "good s \<Longrightarrow> update k v s = (Ok u, s') \<Longrightarrow> good s' \<and> view s' = (view s)(k \<mapsto> v)"
    and update_err: "good s \<Longrightarrow> update k v s = (Err e, s') \<Longrightarrow> good s' \<and> view s' = view s"
begin

lemma read_own_write:
  assumes "good s" and "andThen (update k v) (\<lambda>_. fetch k') s = (Ok r, s')"
  shows "r = ((view s)(k \<mapsto> v)) k'"
proof -
  obtain u t where t: "update k v s = (Ok u, t)" "fetch k' t = (Ok r, s')"
    using assms(2) by (rule andThen_okE)
  show ?thesis using update_ok [OF assms(1) t(1)] fetch_ok [OF _ t(2)] by simp
qed

lemma modify_ok:
  assumes "good s" and "andThen (fetch k) (\<lambda>r. update k (f r)) s = (Ok u, s')"
  shows "good s' \<and> view s' = (view s)(k \<mapsto> f (view s k))"
proof -
  obtain r t where t: "fetch k s = (Ok r, t)" "update k (f r) t = (Ok u, s')"
    using assms(2) by (rule andThen_okE)
  show ?thesis using fetch_ok [OF assms(1) t(1)] update_ok [OF _ t(2)] by simp
qed

lemma modify_err:
  assumes "good s" and "andThen (fetch k) (\<lambda>r. update k (f r)) s = (Err e, s')"
  shows "good s' \<and> view s' = view s"
proof (cases "fetch k s")
  case (Pair r t)
  show ?thesis
  proof (cases r)
    case (Inl e')
    then show ?thesis using assms Pair fetch_err [OF assms(1), of k e' t] by (simp add: andThen_def)
  next
    case (Inr v)
    then show ?thesis
      using assms Pair fetch_ok [OF assms(1), of k v t] update_err [of t k "f v" e s'] by (simp add: andThen_def)
  qed
qed

lemma fetch_good: "good s \<Longrightarrow> fetch k s = (r, s') \<Longrightarrow> good s'"
  by (cases r) (auto dest: fetch_ok fetch_err)

lemma update_good: "good s \<Longrightarrow> update k v s = (r, s') \<Longrightarrow> good s'"
  by (cases r) (auto dest: update_ok update_err)

lemma modify_good: "good s \<Longrightarrow> andThen (fetch k) (\<lambda>r. update k (f r)) s = (q, s') \<Longrightarrow> good s'"
  by (cases q) (auto dest: modify_ok modify_err)

end

text \<open>A store on which no call fails: \<open>well\<close> is the invariant under which that holds.\<close>

locale total_store = record_store fetch update view good
  for fetch :: "'k \<Rightarrow> ('s, 'e, 'v option) action" and update view good +
  fixes well :: "'s \<Rightarrow> bool"
  assumes well_good: "well s \<Longrightarrow> good s"
    and fetch_total: "well s \<Longrightarrow> \<exists>r s'. fetch k s = (Ok r, s') \<and> well s'"
    and update_total: "well s \<Longrightarrow> \<exists>s'. update k v s = (Ok (), s') \<and> well s'"
begin

lemma fetchE:
  assumes "well s"
  obtains s' where "fetch k s = (Ok (view s k), s')" "well s'" "view s' = view s"
  using fetch_total [OF assms] fetch_ok [OF well_good [OF assms]] by metis

lemma updateE:
  assumes "well s"
  obtains s' where "update k v s = (Ok (), s')" "well s'" "view s' = (view s)(k \<mapsto> v)"
  using update_total [OF assms] update_ok [OF well_good [OF assms]] by metis

end

section \<open>Reading and writing one key\<close>

definition stored :: "('d \<Rightarrow> bytes \<rightharpoonup> bytes) \<Rightarrow> 'a codec \<Rightarrow> 'd state_backend \<Rightarrow> bytes \<Rightarrow> 'a option" where
  "stored content C s key =
     (case content (sb_db s) key of
        None \<Rightarrow> None
      | Some bs \<Rightarrow> (case deserialize C bs of Inl _ \<Rightarrow> None | Inr x \<Rightarrow> Some x))"

lemma st_get_cases:
  assumes "storage_laws E content" and "st_get E key s = (r, s')"
  shows "s' = s \<and> (\<forall>v. r = Ok v \<longrightarrow> v = content (sb_db s) key)"
  using assms laws_get [OF assms(1)]
  by (auto simp: st_get_def database_get_def split: sum.splits)

lemma load_state: "storage_laws E content \<Longrightarrow> load E C key s = (r, s') \<Longrightarrow> s' = s"
  by (auto simp: load_def andThen_def ret_def throw_def dest!: st_get_cases
      split: prod.splits sum.splits option.splits)

lemma load_ok:
  assumes "storage_laws E content" and "load E C key s = (Ok r, s')"
  shows "s' = s \<and> r = stored content C s key"
proof -
  obtain v t where t: "st_get E key s = (Ok v, t)"
    "(case v of Some bs \<Rightarrow> (case deserialize C bs of Inl e \<Rightarrow> throw (DeserializationFailed e) | Inr x \<Rightarrow> ret (Some x))
      | None \<Rightarrow> ret None) t = (Ok r, s')"
    using assms(2) unfolding load_def by (rule andThen_okE)
  show ?thesis
    using st_get_cases [OF assms(1) t(1)] t(2) by (auto simp: stored_def split: option.splits sum.splits)
qed

lemma st_put_ok:
  assumes "storage_laws E content" and "st_put E key v s = (Ok u, s')"
  shows "content (sb_db s') = (content (sb_db s))(key \<mapsto> v) \<and> sb_account_cache s' = sb_account_cache s"
  using assms writes_ok [OF laws_writes(1) [OF assms(1)]]
  by (auto simp: st_put_def database_put_def split: prod.splits sum.splits)

lemma st_put_err:
  assumes "storage_laws E content" and "st_put E key v s = (Err e, s')"
  shows "content (sb_db s') = content (sb_db s) \<and> sb_account_cache s' = sb_account_cache s"
  using assms writes_err [OF laws_writes(1) [OF assms(1)]]
  by (auto simp: st_put_def database_put_def split: prod.splits sum.splits)

lemma st_delete_ok:
  assumes "storage_laws E content" and "st_delete E key s = (Ok u, s')"
  shows "content (sb_db s') = (content (sb_db s))(key := None) \<and> sb_account_cache s' = sb_account_cache s"
  using assms writes_ok [OF laws_writes(2) [OF assms(1)]]
  by (auto simp: st_delete_def database_delete_def split: prod.splits sum.splits)

lemma st_delete_err:
  assumes "storage_laws E content" and "st_delete E key s = (Err e, s')"
  shows "content (sb_db s') = content (sb_db s) \<and> sb_account_cache s' = sb_account_cache s"
  using assms writes_err [OF laws_writes(2) [OF assms(1)]]
  by (auto simp: st_delete_def database_delete_def split: prod.splits sum.splits)

lemma save_ok:
  assumes "storage_laws E content" and "codec_ok C" and "save E C key x s = (Ok u, s')"
  shows "\<exists>bs. deserialize C bs = Ok x \<and> content (sb_db s') = (content (sb_db s))(key \<mapsto> bs)
            \<and> sb_account_cache s' = sb_account_cache s"
proof -
  obtain bs where bs: "serialize C x = Ok bs" "st_put E key bs s = (Ok u, s')"
    using assms(3) by (auto simp: save_def split: sum.splits)
  then have "deserialize C bs = Ok x" using assms(2) by (simp add: codec_ok_def)
  then show ?thesis using st_put_ok [OF assms(1) bs(2)] by blast
qed

lemma save_err:
  assumes "storage_laws E content" and "save E C key x s = (Err e, s')"
  shows "content (sb_db s') = content (sb_db s) \<and> sb_account_cache s' = sb_account_cache s"
  using assms st_put_err [OF assms(1)] by (auto simp: save_def split: sum.splits)

section \<open>Accounts and their cache\<close>

definition accounts :: "'d storage_env \<Rightarrow> ('d \<Rightarrow> bytes \<rightharpoonup> bytes) \<Rightarrow> 'd state_backend \<Rightarrow> account_id \<rightharpoonup> account_info" where
  "accounts E content s i = stored content (bc_account E) s (account_key i)"

definition state_ok :: "'d storage_env \<Rightarrow> ('d \<Rightarrow> bytes \<rightharpoonup> bytes) \<Rightarrow> 'd state_backend \<Rightarrow> bool" where
  "state_ok E content s =
     (storage_laws E content
    \<and> (\<forall>i info. hm_get (sb_account_cache s) i = Some info \<longrightarrow> accounts E content s i = Some info))"

lemma state_ok_laws: "state_ok E content s \<Longrightarrow> storage_laws E content"
  by (simp add: state_ok_def)

lemma accounts_cong:
  "content (sb_db s') = content (sb_db s) \<Longrightarrow> accounts E content s' = accounts E content s"
  by (simp add: fun_eq_iff accounts_def stored_def)

text \<open>A change of the database outside the account keys.\<close>

lemma state_ok_frame:
  assumes "state_ok E content s" and "sb_account_cache s' = sb_account_cache s"
    and "\<And>i. content (sb_db s') (account_key i) = content (sb_db s) (account_key i)"
  shows "state_ok E content s' \<and> accounts E content s' = accounts E content s"
proof -
  have "accounts E content s' = accounts E content s"
    using assms(3) by (simp add: fun_eq_iff accounts_def stored_def)
  then show ?thesis using assms(1,2) by (simp add: state_ok_def)
qed

lemma get_account_ok:
  assumes "state_ok E content s" and "get_account E i s = (Ok r, s')"
  shows "state_ok E content s' \<and> accounts E content s' = accounts E content s \<and> r = accounts E content s i
       \<and> sb_db s' = sb_db s"
proof (cases "hm_get (sb_account_cache s) i")
  case (Some info)
  then have "s' = s" "r = Some info" using assms(2) by (simp_all add: get_account_def)
  with Some assms(1) show ?thesis by (simp add: state_ok_def)
next
  case None
  obtain v t where t: "load E (bc_account E) (account_key i) s = (Ok v, t)"
    "(case v of Some info \<Rightarrow> (Ok (Some info), t\<lparr>sb_account_cache := hm_insert i info (sb_account_cache t)\<rparr>)
       | None \<Rightarrow> (Ok None, t)) = (Ok r :: (state_error, account_info option) result, s')"
    using assms(2) None unfolding get_account_def by (auto elim: andThen_okE)
  have v: "t = s" "v = accounts E content s i"
    using load_ok [OF state_ok_laws [OF assms(1)] t(1)] by (simp_all add: accounts_def)
  have "accounts E content s' = accounts E content s"
    using t(2) v by (intro accounts_cong) (auto split: option.splits)
  then show ?thesis
    using assms(1) t(2) v by (auto simp: state_ok_def update_conv' split: option.splits if_splits)
qed

lemma get_account_err:
  assumes "state_ok E content s" and "get_account E i s = (Err e, s')"
  shows "s' = s"
  using assms load_state [OF state_ok_laws [OF assms(1)]]
  by (auto simp: get_account_def andThen_def split: option.splits prod.splits sum.splits)

lemma account_key_eq [simp]: "account_key i = account_key j \<longleftrightarrow> i = j"
  using key_bytes_eq [of "KAccount i" "KAccount j"] by simp

lemma set_account_ok:
  assumes "state_ok E content s" and "set_account E i info s = (Ok u, s')"
  shows "state_ok E content s' \<and> accounts E content s' = (accounts E content s)(i \<mapsto> info)"
proof -
  note L = state_ok_laws [OF assms(1)]
  obtain u' t where t: "save E (bc_account E) (account_key i) info s = (Ok u', t)"
    "s' = t\<lparr>sb_account_cache := hm_insert i info (sb_account_cache t)\<rparr>"
    using assms(2) unfolding set_account_def by (auto elim: andThen_okE)
  obtain bs where bs: "deserialize (bc_account E) bs = Ok info"
    "content (sb_db t) = (content (sb_db s))(account_key i \<mapsto> bs)" "sb_account_cache t = sb_account_cache s"
    using save_ok [OF L laws_codecs(1) [OF L] t(1)] by auto
  have a: "accounts E content s' = (accounts E content s)(i \<mapsto> info)"
    using bs t(2) by (auto simp: fun_eq_iff accounts_def stored_def)
  then show ?thesis using assms(1) bs(3) t(2) by (auto simp: state_ok_def update_conv')
qed

lemma set_account_err:
  assumes "state_ok E content s" and "set_account E i info s = (Err e, s')"
  shows "state_ok E content s' \<and> accounts E content s' = accounts E content s"
proof -
  have "save E (bc_account E) (account_key i) info s = (Err e, s')"
    using assms(2) by (auto simp: set_account_def andThen_def split: prod.splits sum.splits)
  from save_err [OF state_ok_laws [OF assms(1)] this] show ?thesis
    by (intro state_ok_frame [OF assms(1)]) simp_all
qed

interpretation acct: record_store "get_account E" "set_account E" "accounts E content" "state_ok E content"
  for E :: "'d storage_env" and content
  by unfold_locales
    (use get_account_ok get_account_err set_account_ok set_account_err in \<open>metis\<close>)+

section \<open>Credits, unbonding requests and clock records\<close>

text \<open>Records that are not cached, under keys of their own.\<close>

lemma plain_fetch:
  assumes "state_ok E content s" and "load E C key s = (r, s')"
  shows "state_ok E content s' \<and> (\<lambda>i. stored content C s' (keyf i)) = (\<lambda>i. stored content C s (keyf i))
       \<and> (\<forall>v. r = Ok v \<longrightarrow> v = stored content C s key)"
  using assms load_state [OF state_ok_laws [OF assms(1)] assms(2)]
  by (auto dest: load_ok [OF state_ok_laws [OF assms(1)]])

lemma plain_update_ok:
  assumes "state_ok E content s" and "save E C (keyf k) v s = (Ok u, s')" and "codec_ok C"
    and "inj keyf" and "\<And>i. account_key i \<noteq> keyf k"
  shows "state_ok E content s' \<and> (\<lambda>i. stored content C s' (keyf i)) = (\<lambda>i. stored content C s (keyf i))(k \<mapsto> v)
       \<and> accounts E content s' = accounts E content s"
proof -
  obtain bs where bs: "deserialize C bs = Ok v" "content (sb_db s') = (content (sb_db s))(keyf k \<mapsto> bs)"
    "sb_account_cache s' = sb_account_cache s"
    using save_ok [OF state_ok_laws [OF assms(1)] assms(3,2)] by auto
  have "(\<lambda>i. stored content C s' (keyf i)) = (\<lambda>i. stored content C s (keyf i))(k \<mapsto> v)"
    using bs assms(4) by (auto simp: fun_eq_iff stored_def inj_eq)
  then show ?thesis using state_ok_frame [OF assms(1) bs(3)] bs(2) assms(5) by simp
qed

lemma plain_update_err:
  assumes "state_ok E content s" and "save E C key v s = (Err e, s')"
  shows "state_ok E content s' \<and> (\<lambda>i. stored content C s' (keyf i)) = (\<lambda>i. stored content C s (keyf i))
       \<and> accounts E content s' = accounts E content s"
  using save_err [OF state_ok_laws [OF assms(1)] assms(2)] state_ok_frame [OF assms(1), of s']
  by (simp add: stored_def)

lemma inj_keys: "inj vc_key" "inj unbonding_key" "inj clock_record_key"
  using key_bytes_eq [of "KVc i" "KVc j" for i j] key_bytes_eq [of "KUnbonding i" "KUnbonding j" for i j]
    key_bytes_eq [of "KClock i" "KClock j" for i j]
  by (auto intro: injI)

lemma account_key_neq:
  "account_key i \<noteq> vc_key j" "account_key i \<noteq> unbonding_key j" "account_key i \<noteq> clock_record_key j"
  using key_bytes_eq [of "KAccount i" "KVc j"] key_bytes_eq [of "KAccount i" "KUnbonding j"]
    key_bytes_eq [of "KAccount i" "KClock j"]
  by auto

definition credits_of :: "'d storage_env \<Rightarrow> ('d \<Rightarrow> bytes \<rightharpoonup> bytes) \<Rightarrow> 'd state_backend \<Rightarrow> account_id \<rightharpoonup> vc_record" where
  "credits_of E content s = (\<lambda>i. stored content (bc_vc E) s (vc_key i))"

definition unbondings :: "'d storage_env \<Rightarrow> ('d \<Rightarrow> bytes \<rightharpoonup> bytes) \<Rightarrow> 'd state_backend \<Rightarrow> account_id \<rightharpoonup> unbonding_info" where
  "unbondings E content s = (\<lambda>i. stored content (bc_unbonding E) s (unbonding_key i))"

definition clock_records :: "'d storage_env \<Rightarrow> ('d \<Rightarrow> bytes \<rightharpoonup> bytes) \<Rightarrow> 'd state_backend \<Rightarrow> account_id \<rightharpoonup> clock_record" where
  "clock_records E content s = (\<lambda>i. stored content (bc_clock E) s (clock_record_key i))"

interpretation vcs: record_store "get_vc_record E" "set_vc_record E" "credits_of E content" "state_ok E content"
  for E :: "'d storage_env" and content
  unfolding get_vc_record_def set_vc_record_def credits_of_def
  by unfold_locales
    (use plain_fetch plain_update_ok [OF _ _ laws_codecs(6) [OF state_ok_laws] inj_keys(1) account_key_neq(1)]
      plain_update_err in \<open>metis\<close>)+

interpretation unb: record_store "get_unbonding_info E" "set_unbonding_info E" "unbondings E content" "state_ok E content"
  for E :: "'d storage_env" and content
  unfolding get_unbonding_info_def set_unbonding_info_def unbondings_def
  by unfold_locales
    (use plain_fetch plain_update_ok [OF _ _ laws_codecs(7) [OF state_ok_laws] inj_keys(2) account_key_neq(2)]
      plain_update_err in \<open>metis\<close>)+

interpretation clk: record_store "get_clock_record E" "set_clock_record E" "clock_records E content" "state_ok E content"
  for E :: "'d storage_env" and content
  unfolding get_clock_record_def set_clock_record_def clock_records_def
  by unfold_locales
    (use plain_fetch plain_update_ok [OF _ _ laws_codecs(8) [OF state_ok_laws] inj_keys(3) account_key_neq(3)]
      plain_update_err in \<open>metis\<close>)+

text \<open>Recording a clock failure counts one more failure, whatever was recorded before.\<close>

lemma record_clock_failure_ok:
  assumes "state_ok E content s" and "record_clock_failure E i epoch s = (Ok u, s')"
  shows "clock_records E content s' =
     (clock_records E content s)(i \<mapsto> record_failure epoch
        (case clock_records E content s i of Some c \<Rightarrow> c | None \<Rightarrow> clock_record_new))"
  using clk.modify_ok [OF assms(1), where f = "\<lambda>r. record_failure epoch (case r of Some c \<Rightarrow> c | None \<Rightarrow> clock_record_new)"]
    assms(2) by (simp add: record_clock_failure_def Let_def)

section \<open>A database on which no call fails\<close>

definition readable :: "'d storage_env \<Rightarrow> ('d \<Rightarrow> bytes \<rightharpoonup> bytes) \<Rightarrow> 'd state_backend \<Rightarrow> bool" where
  "readable E content s =
     ((\<forall>i bs. content (sb_db s) (account_key i) = Some bs \<longrightarrow> is_ok (deserialize (bc_account E) bs))
    \<and> (\<forall>i bs. content (sb_db s) (unbonding_key i) = Some bs \<longrightarrow> is_ok (deserialize (bc_unbonding E) bs)))"

definition healthy :: "'d storage_env \<Rightarrow> ('d \<Rightarrow> bytes \<rightharpoonup> bytes) \<Rightarrow> 'd state_backend \<Rightarrow> bool" where
  "healthy E content s = (storage_total E \<and> state_ok E content s \<and> readable E content s)"

lemma load_total:
  assumes "storage_total E" and "storage_laws E content"
    and "\<And>bs. content (sb_db s) key = Some bs \<Longrightarrow> is_ok (deserialize C bs)"
  shows "load E C key s = (Ok (stored content C s key), s)"
proof -
  obtain v where v: "rk_get E key (sb_db s) = Ok v"
    using assms(1) unfolding storage_total_def is_ok_iff by blast
  have "v = content (sb_db s) key" by (rule laws_get [OF assms(2) v])
  with v assms(3) show ?thesis
    by (auto simp: load_def st_get_def database_get_def andThen_def stored_def ret_def is_ok_iff split: option.splits)
qed

lemma save_total:
  assumes "storage_total E" and "is_ok (serialize C x)"
  shows "\<exists>s'. save E C key x s = (Ok (), s')"
proof -
  obtain bs where bs: "serialize C x = Ok bs" using assms(2) by (auto simp: is_ok_iff)
  have "is_ok (fst (rk_put E key bs (sb_db s)))" using assms(1) by (simp add: storage_total_def)
  then show ?thesis
    by (auto simp: save_def bs st_put_def database_put_def map_err_def is_ok_iff split: prod.splits sum.splits)
qed

text \<open>Saving a record keeps every stored record readable.\<close>

lemma readable_upd:
  assumes "readable E content s" and "content (sb_db s') = (content (sb_db s))(key \<mapsto> bs)"
    and "\<And>i. key = account_key i \<Longrightarrow> is_ok (deserialize (bc_account E) bs)"
    and "\<And>i. key = unbonding_key i \<Longrightarrow> is_ok (deserialize (bc_unbonding E) bs)"
  shows "readable E content s'"
  using assms by (auto simp: readable_def)

lemma get_account_healthy: "healthy E content s \<Longrightarrow> \<exists>r s'. get_account E i s = (Ok r, s') \<and> healthy E content s'"
proof -
  assume h: "healthy E content s"
  then have ok: "state_ok E content s" by (simp add: healthy_def)
  have "load E (bc_account E) (account_key i) s = (Ok (stored content (bc_account E) s (account_key i)), s)"
    using h by (intro load_total) (auto simp: healthy_def readable_def state_ok_def)
  then have "\<exists>r s'. get_account E i s = (Ok r, s')"
    by (simp add: get_account_def andThen_def split: option.splits)
  then obtain r s' where r: "get_account E i s = (Ok r, s')" by blast
  then have "state_ok E content s'" "sb_db s' = sb_db s" using get_account_ok [OF ok r] by auto
  with h r show ?thesis by (auto simp: healthy_def readable_def)
qed

lemma set_account_healthy: "healthy E content s \<Longrightarrow> \<exists>s'. set_account E i info s = (Ok (), s') \<and> healthy E content s'"
proof -
  assume h: "healthy E content s"
  then have ok: "state_ok E content s" and L: "storage_laws E content" by (simp_all add: healthy_def state_ok_def)
  obtain t where t: "save E (bc_account E) (account_key i) info s = (Ok (), t)"
    using save_total [of E "bc_account E" info "account_key i" s] h by (auto simp: healthy_def storage_total_def)
  define s' where "s' = t\<lparr>sb_account_cache := hm_insert i info (sb_account_cache t)\<rparr>"
  have e: "set_account E i info s = (Ok (), s')"
    using t by (simp add: set_account_def andThen_def s'_def)
  obtain bs where bs: "deserialize (bc_account E) bs = Ok info" "content (sb_db t) = (content (sb_db s))(account_key i \<mapsto> bs)"
    using save_ok [OF L laws_codecs(1) [OF L] t] by auto
  have "readable E content s'"
    using h bs by (intro readable_upd [of E content s s' "account_key i" bs]) (auto simp: healthy_def s'_def account_key_neq)
  with h set_account_ok [OF ok e] e show ?thesis by (auto simp: healthy_def)
qed

interpretation acct_total: total_store "get_account E" "set_account E" "accounts E content" "state_ok E content" "healthy E content"
  for E :: "'d storage_env" and content
  by unfold_locales (simp add: healthy_def, rule get_account_healthy, assumption, rule set_account_healthy, assumption)

lemma invalidate_cache_healthy:
  "healthy E content s \<Longrightarrow> healthy E content (invalidate_cache s)"
  "accounts E content (invalidate_cache s) = accounts E content s"
  "state_ok E content s \<Longrightarrow> state_ok E content (invalidate_cache s)"
  by (simp_all add: healthy_def readable_def state_ok_def invalidate_cache_def accounts_def stored_def fun_eq_iff)

section \<open>A database in memory\<close>

text \<open>
  A concrete environment, used to evaluate the definitions and to show that the laws can hold:
  a map in memory, and fixed-width codecs for the records the examples store.
\<close>

lemma le_bytes_Suc: "le_bytes (Suc n) (w :: 'a::len word) = ucast w # le_bytes n (drop_bit 8 w)"
proof -
  have "[0..<Suc n] = 0 # map Suc [0..<n]" by (simp add: upt_conv_Cons map_Suc_upt)
  then show ?thesis by (simp add: le_bytes_def comp_def add.commute del: upt_Suc)
qed

lemma word_of_le_Nil [simp]: "word_of_le [] = 0"
  by (simp add: word_of_le_def)

lemma word_of_le_Cons [simp]: "word_of_le (b # bs) = or (ucast b) (push_bit 8 (word_of_le bs))"
  by (simp add: word_of_le_def)

lemma bit_word_of_le: "bit (word_of_le (le_bytes n w) :: 'a::len word) j \<longleftrightarrow> j < 8 * n \<and> bit (w :: 'a word) j"
proof (induction n arbitrary: w j)
  case 0
  then show ?case by (simp add: le_bytes_def)
next
  case (Suc n)
  show ?case
    using bit_imp_le_length [of w j]
    by (cases "j < 8") (auto simp: le_bytes_Suc Suc.IH bit_simps)
qed

lemma word_of_le_bytes: "LENGTH('a) \<le> 8 * n \<Longrightarrow> word_of_le (le_bytes n (w :: 'a::len word)) = w"
  by (rule bit_word_eqI) (simp add: bit_word_of_le)

lemma hash_of_hash_bytes [simp]: "hash_of_bytes (hash_bytes h) = h"
  by (simp add: hash_of_bytes_def hash_bytes_def be_bytes_def word_of_le_bytes)

definition account_codec :: "account_info codec" where
  "account_codec =
     \<lparr>serialize = \<lambda>a. Ok (le_bytes 8 (ai_nonce a) @ le_bytes 16 (ai_free a) @ le_bytes 16 (ai_reserved a)
                           @ hash_bytes (ai_last_modified a)),
      deserialize = \<lambda>bs. Ok \<lparr>ai_nonce = word_of_le (take 8 bs), ai_free = word_of_le (take 16 (drop 8 bs)),
                              ai_reserved = word_of_le (take 16 (drop 24 bs)), ai_last_modified = hash_of_bytes (drop 40 bs)\<rparr>\<rparr>"

definition entry_bytes :: "unbonding_entry \<Rightarrow> bytes" where
  "entry_bytes u = le_bytes 16 (ue_amount u) @ le_bytes 8 (ue_unbonding_started u) @ le_bytes 8 (ue_release_block u)"

fun read_entries :: "nat \<Rightarrow> bytes \<Rightarrow> unbonding_info" where
  "read_entries 0 bs = []"
| "read_entries (Suc n) bs =
     \<lparr>ue_amount = word_of_le (take 16 bs), ue_unbonding_started = word_of_le (take 8 (drop 16 bs)),
      ue_release_block = word_of_le (take 8 (drop 24 bs))\<rparr> # read_entries n (drop 32 bs)"

definition unbonding_codec :: "unbonding_info codec" where
  "unbonding_codec = \<lparr>serialize = \<lambda>us. Ok (concat (map entry_bytes us)),
                      deserialize = \<lambda>bs. Ok (read_entries (length bs div 32) bs)\<rparr>"

definition no_codec :: "'a codec" where
  "no_codec = \<lparr>serialize = \<lambda>_. Err ''unsupported'', deserialize = \<lambda>_. Err ''unsupported''\<rparr>"

definition mem_env :: "(bytes \<rightharpoonup> bytes) storage_env" where
  "mem_env =
     \<lparr>rk_get = \<lambda>k d. Ok (d k), rk_put = \<lambda>k v d. (Ok (), d(k \<mapsto> v)), rk_delete = \<lambda>k d. (Ok (), d(k := None)),
      rk_write = \<lambda>ops d. (Ok (), fold apply_op ops d), rk_prefix_iterator = \<lambda>p d. [],
      bc_account = account_codec, bc_u64 = no_codec, bc_block = no_codec, bc_drift = no_codec,
      bc_state_root = no_codec, bc_vc = no_codec, bc_unbonding = unbonding_codec, bc_clock = no_codec,
      se_crypto = demo_crypto, se_merkle = \<lparr>tree_root = \<lambda>_. None, tree_proof = \<lambda>_ _. []\<rparr>\<rparr>"

lemma account_codec_ok: "codec_ok account_codec"
  by (simp add: codec_ok_def account_codec_def word_of_le_bytes)

lemma read_entries_concat:
  "read_entries (length us) (concat (map entry_bytes us)) = us"
  by (induction us) (simp_all add: entry_bytes_def word_of_le_bytes)

lemma length_entries: "length (concat (map entry_bytes us)) = 32 * length us"
  by (induction us) (simp_all add: entry_bytes_def)

lemma unbonding_codec_ok: "codec_ok unbonding_codec"
  unfolding codec_ok_def unbonding_codec_def
  by (auto simp: length_entries read_entries_concat simp del: length_concat)

lemma no_codec_ok: "codec_ok no_codec"
  by (simp add: codec_ok_def no_codec_def)

lemma no_block_codec_ok: "block_codec_ok no_codec"
  by (simp add: block_codec_ok_def no_codec_def)

lemma mem_env_laws: "storage_laws mem_env (\<lambda>d. d)"
  by (simp add: storage_laws_def mem_env_def writes_def account_codec_ok unbonding_codec_ok no_codec_ok no_block_codec_ok)

lemma mem_env_total: "storage_total mem_env"
  by (simp add: storage_total_def mem_env_def account_codec_def unbonding_codec_def)

lemma mem_env_healthy: "healthy mem_env (\<lambda>d. d) (backend_new d)"
  by (simp add: healthy_def mem_env_total mem_env_laws state_ok_def backend_new_def readable_def)
    (simp add: mem_env_def account_codec_def unbonding_codec_def)

section \<open>Transfers\<close>

text \<open>What a transfer does to the account map.  Both accounts are read before either is written.\<close>

definition spec_transfer ::
  "account_id \<Rightarrow> account_id \<Rightarrow> balance \<Rightarrow> (account_id \<rightharpoonup> account_info)
     \<Rightarrow> (state_error, unit) result \<times> (account_id \<rightharpoonup> account_info)" where
  "spec_transfer a b amount m =
     (case m a of
        None \<Rightarrow> (Err (AccountNotFound a), m)
      | Some f \<Rightarrow> if ai_free f < amount then (Err (InsufficientBalance a (ai_free f) amount), m)
                  else let t = (case m b of Some t \<Rightarrow> t | None \<Rightarrow> account_new)
                       in (Ok (), m(a \<mapsto> f\<lparr>ai_free := sat_sub (ai_free f) amount\<rparr>,
                                    b \<mapsto> t\<lparr>ai_free := sat_add (ai_free t) amount\<rparr>)))"

definition free_of :: "(account_id \<rightharpoonup> account_info) \<Rightarrow> account_id \<Rightarrow> nat" where
  "free_of m i = (case m i of Some a \<Rightarrow> unat (ai_free a) | None \<Rightarrow> 0)"

lemma spec_transfer_conserves:
  assumes "spec_transfer a b amount m = (Ok (), m')" and "a \<noteq> b" and "free_of m b + unat amount < 2 ^ 128"
  shows "free_of m' a + unat amount = free_of m a \<and> free_of m' b = free_of m b + unat amount"
  using assms
  by (auto simp: spec_transfer_def free_of_def unat_sat_sub unat_sat_add word_less_nat_alt account_new_def Let_def
      split: option.splits if_splits)

lemma transfer_healthy:
  assumes "healthy E content s"
  shows "\<exists>s'. transfer E a b amount s = (fst (spec_transfer a b amount (accounts E content s)), s')
           \<and> accounts E content s' = snd (spec_transfer a b amount (accounts E content s)) \<and> healthy E content s'"
proof -
  let ?m = "accounts E content s"
  obtain s1 where s1: "get_account E a s = (Ok (?m a), s1)" "healthy E content s1" "accounts E content s1 = ?m"
    using acct_total.fetchE [OF assms] by metis
  obtain s2 where s2: "get_account E b s1 = (Ok (?m b), s2)" "healthy E content s2" "accounts E content s2 = ?m"
    using acct_total.fetchE [OF s1(2)] s1(3) by metis
  show ?thesis
  proof (cases "?m a")
    case None
    then show ?thesis
      using s1 by (simp add: transfer_def execute_atomic_def andThen_def throw_def spec_transfer_def invalidate_cache_healthy)
  next
    case (Some f)
    define t where "t = (case ?m b of Some t \<Rightarrow> t | None \<Rightarrow> account_new)"
    obtain s3 where s3: "set_account E a (f\<lparr>ai_free := sat_sub (ai_free f) amount\<rparr>) s2 = (Ok (), s3)"
      "healthy E content s3" "accounts E content s3 = ?m(a \<mapsto> f\<lparr>ai_free := sat_sub (ai_free f) amount\<rparr>)"
      using acct_total.updateE [OF s2(2)] s2(3) by metis
    obtain s4 where s4: "set_account E b (t\<lparr>ai_free := sat_add (ai_free t) amount\<rparr>) s3 = (Ok (), s4)"
      "healthy E content s4"
      "accounts E content s4 = ?m(a \<mapsto> f\<lparr>ai_free := sat_sub (ai_free f) amount\<rparr>, b \<mapsto> t\<lparr>ai_free := sat_add (ai_free t) amount\<rparr>)"
      using acct_total.updateE [OF s3(2)] s3(3) by metis
    show ?thesis
      using s1 s2 s3 s4 Some
      by (cases "ai_free f < amount")
        (simp_all add: transfer_def execute_atomic_def andThen_def throw_def spec_transfer_def Let_def
          invalidate_cache_healthy t_def [symmetric])
  qed
qed

text \<open>
  C3: on a database whose calls succeed, \<open>transfer\<close> refines its specification on the account map:
  it reports a missing sender or a short balance and changes nothing then, and otherwise moves
  the amount; between different accounts, when the credit does not overflow, nothing is
  created or lost.  The account cache stays coherent with the database.
\<close>

theorem transfer_refines:
  assumes "healthy E content s" and "transfer E a b amount s = (r, s')"
  shows "(r, accounts E content s') = spec_transfer a b amount (accounts E content s)
       \<and> healthy E content s'
       \<and> (r = Ok () \<and> a \<noteq> b \<and> free_of (accounts E content s) b + unat amount < 2 ^ 128 \<longrightarrow>
            free_of (accounts E content s') a + free_of (accounts E content s') b
              = free_of (accounts E content s) a + free_of (accounts E content s) b)"
proof -
  have e: "(r, accounts E content s') = spec_transfer a b amount (accounts E content s)" and h: "healthy E content s'"
    using transfer_healthy [OF assms(1), of a b amount] assms(2) by auto
  then show ?thesis
    using spec_transfer_conserves [of a b amount "accounts E content s" "accounts E content s'"] by auto
qed

definition demo_state :: "(bytes \<rightharpoonup> bytes) state_backend" where
  "demo_state = backend_new [account_key 1 \<mapsto>
     (case serialize account_codec (account_new\<lparr>ai_free := 100\<rparr>) of Inr bs \<Rightarrow> bs | Inl _ \<Rightarrow> [])]"

lemma demo_accounts: "accounts mem_env (\<lambda>d. d) demo_state = [1 \<mapsto> account_new\<lparr>ai_free := 100\<rparr>]"
  by (auto simp: fun_eq_iff accounts_def stored_def demo_state_def backend_new_def mem_env_def account_codec_def
      word_of_le_bytes)

lemma demo_healthy: "healthy mem_env (\<lambda>d. d) demo_state"
  unfolding demo_state_def by (rule mem_env_healthy)

theorem transfer_refines_witness:
  "fst (transfer mem_env 1 2 30 demo_state) = Ok ()
 \<and> free_of (accounts mem_env (\<lambda>d. d) (snd (transfer mem_env 1 2 30 demo_state))) 1 = 70
 \<and> free_of (accounts mem_env (\<lambda>d. d) (snd (transfer mem_env 1 2 30 demo_state))) 2 = 30"
  using transfer_refines [OF demo_healthy, of 1 2 30]
  by (cases "transfer mem_env 1 2 30 demo_state")
    (simp add: demo_accounts spec_transfer_def free_of_def account_new_def sat_sub_def sat_add_def Let_def)

text \<open>Paying oneself adds the amount to the balance: the credit is computed from the balance read first.\<close>

lemma self_transfer_inflates:
  assumes "healthy E content s" and "accounts E content s a = Some f" and "amount \<le> ai_free f"
  shows "\<exists>s'. transfer E a a amount s = (Ok (), s')
            \<and> accounts E content s' a = Some (f\<lparr>ai_free := sat_add (ai_free f) amount\<rparr>)"
  using transfer_healthy [OF assms(1), of a a amount] assms(2,3)
  by (auto simp: spec_transfer_def not_less [symmetric])

text \<open>
  \<open>execute_atomic\<close> clears the cache but does not undo writes: when the debit is stored and the
  credit is not, the amount is gone.
\<close>

lemma transfer_failed_credit:
  assumes "state_ok E content s" and "transfer E a b amount s = (Err (DatabaseError e), s')"
    and "accounts E content s' \<noteq> accounts E content s"
  shows "\<exists>f. accounts E content s a = Some f
           \<and> accounts E content s' = (accounts E content s)(a \<mapsto> f\<lparr>ai_free := sat_sub (ai_free f) amount\<rparr>)"
proof -
  let ?m = "accounts E content s"
  obtain r1 s1 where s1: "get_account E a s = (r1, s1)" by fastforce
  have n1: "accounts E content s1 = ?m \<and> state_ok E content s1 \<and> (\<forall>v. r1 = Ok v \<longrightarrow> v = ?m a)"
    using s1 acct.fetch_ok [OF assms(1)] acct.fetch_err [OF assms(1)] by (cases r1) auto
  obtain f where f: "r1 = Ok (Some f)"
    using assms(2,3) s1 n1
    by (auto simp: transfer_def execute_atomic_def andThen_def throw_def invalidate_cache_healthy
        split: sum.splits option.splits prod.splits)
  obtain r2 s2 where s2: "get_account E b s1 = (r2, s2)" by fastforce
  have n2: "accounts E content s2 = ?m \<and> state_ok E content s2"
    using s2 n1 acct.fetch_ok [of E content s1 b _ s2] acct.fetch_err [of E content s1 b _ s2] by (cases r2) auto
  obtain r3 s3 where s3: "set_account E a (f\<lparr>ai_free := sat_sub (ai_free f) amount\<rparr>) s2 = (r3, s3)" by fastforce
  have n3: "accounts E content s3 = (if is_ok r3 then ?m(a \<mapsto> f\<lparr>ai_free := sat_sub (ai_free f) amount\<rparr>) else ?m)
      \<and> state_ok E content s3"
    using s3 n2 acct.update_ok [of E content s2 a _ _ s3] acct.update_err [of E content s2 a _ _ s3] by (cases r3) auto
  have "accounts E content s' = ?m(a \<mapsto> f\<lparr>ai_free := sat_sub (ai_free f) amount\<rparr>)"
    using assms(2,3) s1 s2 s3 n1 n2 n3 f
      acct.update_err [of E content s3 b _ "DatabaseError e"]
    by (auto simp: transfer_def execute_atomic_def andThen_def throw_def invalidate_cache_healthy Let_def
        split: sum.splits option.splits prod.splits if_splits)
  moreover have "?m a = Some f" using n1 f by simp
  ultimately show ?thesis by blast
qed

section \<open>Unbonding\<close>

lemma unat_foldl_sat_add:
  fixes f :: "'a \<Rightarrow> balance"
  assumes "unat a + sum_list (map (\<lambda>u. unat (f u)) us) < 2 ^ 128"
  shows "unat (foldl (\<lambda>w u. sat_add w (f u)) a us) = unat a + sum_list (map (\<lambda>u. unat (f u)) us)"
  using assms
proof (induction us arbitrary: a)
  case Nil
  then show ?case by simp
next
  case (Cons u us)
  have "unat (sat_add a (f u)) = unat a + unat (f u)" using Cons.prems by (simp add: unat_sat_add)
  then show ?case using Cons.IH [of "sat_add a (f u)"] Cons.prems by simp
qed

definition pending_of :: "(account_id \<rightharpoonup> unbonding_info) \<Rightarrow> account_id \<Rightarrow> unbonding_info" where
  "pending_of U i = (case U i of Some us \<Rightarrow> us | None \<Rightarrow> [])"

definition amounts :: "unbonding_info \<Rightarrow> nat" where
  "amounts us = sum_list (map (\<lambda>u. unat (ue_amount u)) us)"

lemma add_unbonding_ok:
  assumes "state_ok E content s" and "add_unbonding_request E i amount now period s = (Ok u, s')"
  shows "state_ok E content s' \<and> unbondings E content s' = (unbondings E content s)(i \<mapsto>
     pending_of (unbondings E content s) i @
       [\<lparr>ue_amount = amount, ue_unbonding_started = now, ue_release_block = sat_add now period\<rparr>])"
  using unb.modify_ok [OF assms(1), where f = "\<lambda>r. (case r of Some us \<Rightarrow> us | None \<Rightarrow> []) @
       [\<lparr>ue_amount = amount, ue_unbonding_started = now, ue_release_block = sat_add now period\<rparr>]"] assms(2)
  by (simp add: add_unbonding_request_def Let_def pending_of_def)

lemma st_delete_unbonding:
  assumes "state_ok E content s" and "st_delete E (unbonding_key i) s = (Ok u, s')"
  shows "state_ok E content s' \<and> unbondings E content s' = (unbondings E content s)(i := None)
       \<and> accounts E content s' = accounts E content s"
  using st_delete_ok [OF state_ok_laws [OF assms(1)] assms(2)] state_ok_frame [OF assms(1), of s'] inj_keys(2)
  by (auto simp: unbondings_def stored_def fun_eq_iff account_key_neq inj_eq)

lemma withdraw_matured_ok:
  assumes "state_ok E content s" and "withdraw_matured_unbonding E i now s = (Ok w, s')"
    and "amounts (pending_of (unbondings E content s) i) < 2 ^ 128"
  shows "unat w = amounts (filter (\<lambda>u. ue_release_block u \<le> now) (pending_of (unbondings E content s) i))
       \<and> pending_of (unbondings E content s') i = filter (\<lambda>u. now < ue_release_block u) (pending_of (unbondings E content s) i)
       \<and> unat w + amounts (pending_of (unbondings E content s') i) = amounts (pending_of (unbondings E content s) i)
       \<and> (\<forall>j. j \<noteq> i \<longrightarrow> unbondings E content s' j = unbondings E content s j)
       \<and> accounts E content s' = accounts E content s \<and> state_ok E content s'"
proof -
  obtain r t where t: "get_unbonding_info E i s = (Ok r, t)" and rest:
    "(case r of None \<Rightarrow> ret 0
      | Some info \<Rightarrow>
          (let (matured, pending) = partition (\<lambda>u. ue_release_block u \<le> now) info;
               withdrawn = foldl (\<lambda>w u. sat_add w (ue_amount u)) 0 matured
           in andThen (if pending = [] then st_delete E (unbonding_key i) else set_unbonding_info E i pending)
                (\<lambda>_. ret withdrawn))) t = (Ok w, s')"
    using assms(2) unfolding withdraw_matured_unbonding_def by (rule andThen_okE)
  have ts: "t = s" using t load_state [OF state_ok_laws [OF assms(1)]] by (simp add: get_unbonding_info_def)
  have r: "r = unbondings E content s i" using unb.fetch_ok [OF assms(1) t] by simp
  show ?thesis
  proof (cases r)
    case None
    then show ?thesis using rest r ts assms(1) by (simp add: pending_of_def amounts_def ret_def)
  next
    case (Some info)
    define ready rem where "ready = filter (\<lambda>u. ue_release_block u \<le> now) info"
      and "rem = filter (\<lambda>u. now < ue_release_block u) info"
    have split: "amounts ready + amounts rem = amounts info"
      unfolding amounts_def ready_def rem_def not_le [symmetric] by (rule sum_list_filter_split)
    have info: "pending_of (unbondings E content s) i = info" using Some by (simp add: pending_of_def flip: r)
    obtain u where u: "(if rem = [] then st_delete E (unbonding_key i) else set_unbonding_info E i rem) s = (Ok u, s')"
      and w: "w = foldl (\<lambda>w u. sat_add w (ue_amount u)) 0 ready"
      using rest Some ts by (auto simp: ready_def rem_def partition_filter_conv comp_def not_le elim!: andThen_okE split: if_splits)
    have "unat w = amounts ready"
      using unat_foldl_sat_add [of 0 ue_amount ready] split assms(3) info by (simp add: w amounts_def)
    moreover have "state_ok E content s' \<and> accounts E content s' = accounts E content s
        \<and> unbondings E content s' = (unbondings E content s)(i := (if rem = [] then None else Some rem))"
    proof (cases "rem = []")
      case True
      then show ?thesis using u st_delete_unbonding [OF assms(1), of i u s'] by simp
    next
      case False
      then show ?thesis
        using u unb.update_ok [OF assms(1), of i rem u s']
          plain_update_ok [OF assms(1), of "bc_unbonding E" unbonding_key i rem u s',
            OF _ laws_codecs(7) [OF state_ok_laws [OF assms(1)]] inj_keys(2) account_key_neq(2)]
        by (simp add: set_unbonding_info_def)
    qed
    ultimately show ?thesis using split info by (auto simp: pending_of_def ready_def rem_def)
  qed
qed

text \<open>
  A withdrawal pays exactly the requests whose release block has passed and keeps the others:
  the amount returned is the sum of the matured requests, what is left on record is the rest,
  nothing is lost between them, and no account balance changes.
\<close>

theorem withdraw_matured_exact:
  assumes "state_ok E content s" and "withdraw_matured_unbonding E i now s = (Ok w, s')"
    and "amounts (pending_of (unbondings E content s) i) < 2 ^ 128"
  shows "unat w = amounts (filter (\<lambda>u. ue_release_block u \<le> now) (pending_of (unbondings E content s) i))
       \<and> pending_of (unbondings E content s') i = filter (\<lambda>u. now < ue_release_block u) (pending_of (unbondings E content s) i)
       \<and> unat w + amounts (pending_of (unbondings E content s') i) = amounts (pending_of (unbondings E content s) i)
       \<and> (\<forall>j. j \<noteq> i \<longrightarrow> unbondings E content s' j = unbondings E content s j)
       \<and> accounts E content s' = accounts E content s \<and> state_ok E content s'"
  by (rule withdraw_matured_ok [OF assms])

definition demo_requests :: unbonding_info where
  "demo_requests = [\<lparr>ue_amount = 10, ue_unbonding_started = 0, ue_release_block = 5\<rparr>,
                    \<lparr>ue_amount = 20, ue_unbonding_started = 4, ue_release_block = 9\<rparr>]"

definition demo_unbonding :: "(bytes \<rightharpoonup> bytes) state_backend" where
  "demo_unbonding = backend_new [unbonding_key 1 \<mapsto> concat (map entry_bytes demo_requests)]"

lemma demo_unbonding_ok: "state_ok mem_env (\<lambda>d. d) demo_unbonding"
  using mem_env_healthy by (simp add: demo_unbonding_def healthy_def)

lemma demo_unbondings: "unbondings mem_env (\<lambda>d. d) demo_unbonding = [1 \<mapsto> demo_requests]"
proof -
  have "deserialize unbonding_codec (concat (map entry_bytes demo_requests)) = Ok demo_requests"
    using unbonding_codec_ok by (simp add: codec_ok_def unbonding_codec_def)
  then show ?thesis
    using inj_keys(2)
    by (auto simp: unbondings_def stored_def fun_eq_iff demo_unbonding_def backend_new_def mem_env_def inj_eq)
qed

lemma demo_withdraw: "\<exists>s'. withdraw_matured_unbonding mem_env 1 6 demo_unbonding = (Ok 10, s')"
proof -
  have "get_unbonding_info mem_env 1 demo_unbonding = (Ok (Some demo_requests), demo_unbonding)"
    unfolding get_unbonding_info_def
    using load_total [OF mem_env_total mem_env_laws, of demo_unbonding "unbonding_key 1" "bc_unbonding mem_env"]
      fun_cong [OF demo_unbondings, of 1]
    by (simp add: unbondings_def) (simp add: mem_env_def unbonding_codec_def)
  moreover have "\<exists>s'. set_unbonding_info mem_env 1 x demo_unbonding = (Ok (), s')" for x
    unfolding set_unbonding_info_def using mem_env_total by (intro save_total) (simp_all add: storage_total_def)
  ultimately show ?thesis
    by (auto simp: withdraw_matured_unbonding_def andThen_def demo_requests_def ret_def split: prod.splits sum.splits)
      (metis prod.inject sum.inject(2) sum.distinct(1))+
qed

theorem withdraw_matured_exact_witness:
  "\<exists>s'. withdraw_matured_unbonding mem_env 1 6 demo_unbonding = (Ok 10, s')
      \<and> amounts (pending_of (unbondings mem_env (\<lambda>d. d) s') 1) = 20"
proof -
  obtain s' where s': "withdraw_matured_unbonding mem_env 1 6 demo_unbonding = (Ok 10, s')"
    using demo_withdraw by blast
  show ?thesis
    using withdraw_matured_exact [OF demo_unbonding_ok s'] s'
    by (simp add: demo_unbondings pending_of_def) (simp add: demo_requests_def amounts_def)
qed

section \<open>Blocks\<close>

lemma block_keys_neq:
  "block_by_hash_key h \<noteq> block_by_number_key n" "block_by_hash_key h \<noteq> block_hash_key n"
  "block_by_number_key n \<noteq> block_hash_key m"
  "account_key i \<noteq> block_by_hash_key h" "account_key i \<noteq> block_by_number_key n" "account_key i \<noteq> block_hash_key n"
  using key_bytes_eq [of "KBlockByHash h" "KBlockByNumber n"] key_bytes_eq [of "KBlockByHash h" "KBlockHash n"]
    key_bytes_eq [of "KBlockByNumber n" "KBlockHash m"] key_bytes_eq [of "KAccount i" "KBlockByHash h"]
    key_bytes_eq [of "KAccount i" "KBlockByNumber n"] key_bytes_eq [of "KAccount i" "KBlockHash n"]
  by auto

text \<open>A stored block is found by hash and by number, its hash by its number, and no account changes.\<close>

lemma store_block_ok:
  assumes "state_ok E content s" and "store_block E b s = (Ok u, s')"
  shows "stored content (bc_block E) s' (block_by_hash_key (block_hash (se_crypto E) b)) = Some (unhashed b)
       \<and> stored content (bc_block E) s' (block_by_number_key (bh_number (bk_header b))) = Some (unhashed b)
       \<and> content (sb_db s') (block_hash_key (bh_number (bk_header b))) = Some (hash_bytes (block_hash (se_crypto E) b))
       \<and> state_ok E content s' \<and> accounts E content s' = accounts E content s"
proof -
  note L = state_ok_laws [OF assms(1)]
  obtain bs where bs: "serialize (bc_block E) b = Ok bs"
    using assms(2) by (auto simp: store_block_def Let_def split: sum.splits)
  then have d: "deserialize (bc_block E) bs = Ok (unhashed b)" using laws_codecs(3) [OF L] by (simp add: block_codec_ok_def)
  obtain t1 t2 where t: "st_put E (block_by_hash_key (block_hash (se_crypto E) b)) bs s = (Ok (), t1)"
    "st_put E (block_by_number_key (bh_number (bk_header b))) bs t1 = (Ok (), t2)"
    "st_put E (block_hash_key (bh_number (bk_header b))) (hash_bytes (block_hash (se_crypto E) b)) t2 = (Ok u, s')"
    using assms(2) bs by (auto simp: store_block_def Let_def set_block_hash_def elim!: andThen_okE)
  show ?thesis
    using st_put_ok [OF L t(1)] st_put_ok [OF L t(2)] st_put_ok [OF L t(3)] d state_ok_frame [OF assms(1), of s']
    by (simp add: stored_def block_keys_neq block_keys_neq [symmetric])
qed

lemma read_hash_ok:
  assumes "storage_laws E content" and "read_hash E key s = (Ok r, t)"
  shows "r = (case content (sb_db s) key of Some bs \<Rightarrow> if length bs = 32 then Some (hash_of_bytes bs) else None | None \<Rightarrow> None)"
proof -
  obtain v s1 where v: "st_get E key s = (Ok v, s1)"
    "(case v of Some bs \<Rightarrow> ret (if length bs = 32 then Some (hash_of_bytes bs) else None) | None \<Rightarrow> ret None) s1
       = (Ok r :: (state_error, hash option) result, t)"
    using assms(2) unfolding read_hash_def by (rule andThen_okE)
  then show ?thesis using st_get_cases [OF assms(1) v(1)] by (auto split: option.splits)
qed

text \<open>What a block without the stored hashes still determines.\<close>

lemma unhashed_header [simp]: "bk_header (unhashed b) = bk_header b"
  by (simp add: unhashed_def)

lemma unhashed_block_hash: "block_hash K (unhashed b) = block_hash K b"
  by (simp add: block_hash_def)

definition hashes_true :: "crypto \<Rightarrow> block \<Rightarrow> bool" where
  "hashes_true K b =
     list_all (\<lambda>tx. stx_hash tx = None \<or> stx_hash tx = Some (transaction_hash K (stx_transaction tx))) (bb_transactions (bk_body b))"

lemma unhashed_signed_hash: "hashes_true K b \<Longrightarrow> map (signed_hash K) (bb_transactions (bk_body (unhashed b))) = map (signed_hash K) (bb_transactions (bk_body b))"
  by (auto simp: unhashed_def hashes_true_def signed_hash_def list_all_iff)

lemma compute_transactions_root_cong:
  assumes "map (signed_hash K) xs = map (signed_hash K) ys"
  shows "compute_transactions_root K xs = compute_transactions_root K ys"
proof -
  have "map (hash_bytes \<circ> signed_hash K) xs = map (hash_bytes \<circ> signed_hash K) ys"
    using assms by (metis map_map)
  moreover have "xs = [] \<longleftrightarrow> ys = []" using assms by (metis map_is_Nil_conv)
  ultimately show ?thesis by (simp add: compute_transactions_root_def comp_def)
qed

text \<open>
  C40: a block that was stored is found again by number and by hash, as long as the reads themselves succeed, and its
  hash is found under its number.  What is read is the block without the hash fields of its transactions, which
  the encoding skips: same header, same transactions and signatures.  Its block hash is that of the stored block, and
  when the skipped fields held the true hashes so are the hash of every transaction, recomputed, and the
  transactions root.
\<close>

theorem block_store_roundtrip:
  assumes "state_ok E content s" and "store_block E b s = (Ok (), s')"
  shows "(\<forall>r t. get_block_by_number E (bh_number (bk_header b)) s' = (Ok r, t) \<longrightarrow> r = Some (unhashed b))
       \<and> (\<forall>r t. get_block_by_hash E (block_hash (se_crypto E) b) s' = (Ok r, t) \<longrightarrow> r = Some (unhashed b))
       \<and> (\<forall>r t. get_block_hash E (bh_number (bk_header b)) s' = (Ok r, t) \<longrightarrow> r = Some (block_hash (se_crypto E) b))
       \<and> block_hash (se_crypto E) (unhashed b) = block_hash (se_crypto E) b
       \<and> (hashes_true (se_crypto E) b \<longrightarrow>
            map (signed_hash (se_crypto E)) (bb_transactions (bk_body (unhashed b))) = map (signed_hash (se_crypto E)) (bb_transactions (bk_body b))
          \<and> compute_transactions_root (se_crypto E) (bb_transactions (bk_body (unhashed b)))
              = compute_transactions_root (se_crypto E) (bb_transactions (bk_body b)))"
proof -
  note st = store_block_ok [OF assms]
  then have L: "storage_laws E content" by (simp add: state_ok_def)
  have "r = Some (unhashed b)" if "get_block_by_number E (bh_number (bk_header b)) s' = (Ok r, t)" for r t
    using load_ok [OF L that [unfolded get_block_by_number_def]] st by simp
  moreover have "r = Some (unhashed b)" if "get_block_by_hash E (block_hash (se_crypto E) b) s' = (Ok r, t)" for r t
    using load_ok [OF L that [unfolded get_block_by_hash_def]] st by simp
  moreover have "r = Some (block_hash (se_crypto E) b)" if "get_block_hash E (bh_number (bk_header b)) s' = (Ok r, t)" for r t
    using read_hash_ok [OF L that [unfolded get_block_hash_def]] st by simp
  ultimately show ?thesis
    using unhashed_block_hash unhashed_signed_hash compute_transactions_root_cong by blast
qed

text \<open>A block with one transaction that carries its hash.\<close>

definition stored_tx :: signed_transaction where
  "stored_tx = signed_new demo_crypto \<lparr>tx_sender = 1, tx_nonce = 0, tx_call = Transfer 2 300, tx_timestamp = 0\<rparr> 1"

definition stored_block :: block where
  "stored_block = (block_genesis 7 [1])\<lparr>bk_body := \<lparr>bb_transactions = [stored_tx]\<rparr>\<rparr>"

definition block_env :: "(bytes \<rightharpoonup> bytes) storage_env" where
  "block_env = mem_env\<lparr>bc_block :=
     \<lparr>serialize = \<lambda>b. if b = stored_block then Ok [1] else Err ''unsupported'', deserialize = \<lambda>_. Ok (unhashed stored_block)\<rparr>\<rparr>"

lemma block_env_laws: "storage_laws block_env (\<lambda>d. d)"
  using mem_env_laws by (auto simp: storage_laws_def block_env_def block_codec_ok_def mem_env_def)

lemma block_env_simps [simp]:
  "rk_put block_env k v d = (Ok (), d(k \<mapsto> v))" "rk_get block_env k d = Ok (d k)"
  "serialize (bc_block block_env) stored_block = Ok [1]" "deserialize (bc_block block_env) bs = Ok (unhashed stored_block)"
  "se_crypto block_env = demo_crypto"
  by (simp_all add: block_env_def mem_env_def)

theorem block_store_roundtrip_witness:
  "\<exists>s' t. store_block block_env stored_block (backend_new (\<lambda>_. None)) = (Ok (), s')
        \<and> get_block_by_number block_env 0 s' = (Ok (Some (unhashed stored_block)), t)
        \<and> map (signed_hash demo_crypto) (bb_transactions (bk_body (unhashed stored_block))) = [signed_hash demo_crypto stored_tx]"
proof -
  obtain s' where s': "store_block block_env stored_block (backend_new (\<lambda>_. None)) = (Ok (), s')"
    by (simp add: store_block_def set_block_hash_def andThen_def st_put_def database_put_def map_err_def Let_def)
  have ok: "state_ok block_env (\<lambda>d. d) (backend_new (\<lambda>_. None))"
    by (simp add: state_ok_def block_env_laws backend_new_def)
  have n: "bh_number (bk_header stored_block) = 0" by (simp add: stored_block_def block_genesis_def)
  have h: "hashes_true demo_crypto stored_block"
    by (simp add: hashes_true_def stored_block_def stored_tx_def signed_new_def)
  have "\<exists>r t. get_block_by_number block_env 0 s' = (Ok r, t)"
    by (simp add: get_block_by_number_def load_def andThen_def st_get_def database_get_def ret_def split: option.splits)
  then obtain r t where r: "get_block_by_number block_env 0 s' = (Ok r, t)" by blast
  note R = block_store_roundtrip [OF ok s']
  have "r = Some (unhashed stored_block)" using R r by (auto simp: n)
  moreover have "map (signed_hash demo_crypto) (bb_transactions (bk_body (unhashed stored_block))) = [signed_hash demo_crypto stored_tx]"
    using R h by (simp add: stored_block_def)
  ultimately show ?thesis using r s' by auto
qed

section \<open>State roots\<close>

lemma bm_eqI:
  assumes "bm_inv m" and "bm_inv m'" and "bm_get m = bm_get m'"
  shows "m = m'"
proof -
  have "distinct (map fst m)" "distinct (map fst m')" using assms by (simp_all add: bm_inv_distinct)
  then have "set m = set m'" using assms(3) by (simp add: map_of_inject_set)
  then show ?thesis
    using assms(1,2) \<open>distinct (map fst m)\<close> \<open>distinct (map fst m')\<close>
    by (intro map_sorted_distinct_set_unique [of fst]) (auto simp: bm_inv_def strict_sorted_iff distinct_map)
qed

lemma foldl_bm_insert:
  fixes xs :: "(bytes \<times> bytes) list"
  assumes "bm_inv m"
  shows "bm_inv (foldl (\<lambda>m (key, v). bm_insert key v m) m xs)
       \<and> bm_get (foldl (\<lambda>m (key, v). bm_insert key v m) m xs) = map_of m ++ map_of (rev xs)"
  using assms
proof (induction xs arbitrary: m)
  case Nil
  then show ?case by simp
next
  case (Cons x xs)
  obtain k v where x: "x = (k, v)" by (cases x)
  show ?case
    using Cons.IH [of "bm_insert k v m"] Cons.prems
    by (auto simp: x bm_inv_insert bm_get_insert fun_eq_iff map_add_def split: option.splits)
qed

lemma state_root_same_entries:
  assumes "distinct (map fst (prefix_iterator E PREFIX_ACCOUNT (sb_db s)))"
    and "distinct (map fst (prefix_iterator E PREFIX_ACCOUNT (sb_db s')))"
    and "set (prefix_iterator E PREFIX_ACCOUNT (sb_db s)) = set (prefix_iterator E PREFIX_ACCOUNT (sb_db s'))"
  shows "compute_state_root E n chain s = compute_state_root E n chain s'"
proof -
  let ?ins = "foldl (\<lambda>m (key, v). bm_insert key v m) ([] :: (bytes, bytes) bmap)"
  let ?xs = "prefix_iterator E PREFIX_ACCOUNT (sb_db s)" and ?ys = "prefix_iterator E PREFIX_ACCOUNT (sb_db s')"
  have "map_of (rev ?xs) = map_of (rev ?ys)"
    using assms by (simp add: map_of_inject_set rev_map [symmetric])
  then have "?ins ?xs = ?ins ?ys"
    using foldl_bm_insert [of "[]" ?xs] foldl_bm_insert [of "[]" ?ys] by (intro bm_eqI) auto
  then show ?thesis by (simp add: compute_state_root_def)
qed

text \<open>
  The state root depends only on which account entries the database holds: two databases
  whose iterators list the same entries, each key once, in any order, have the same root.
\<close>

theorem state_root_order_independent:
  assumes "distinct (map fst (prefix_iterator E PREFIX_ACCOUNT (sb_db s)))"
    and "distinct (map fst (prefix_iterator E PREFIX_ACCOUNT (sb_db s')))"
    and "set (prefix_iterator E PREFIX_ACCOUNT (sb_db s)) = set (prefix_iterator E PREFIX_ACCOUNT (sb_db s'))"
  shows "compute_state_root E n chain s = compute_state_root E n chain s'"
  by (rule state_root_same_entries [OF assms])

definition shuffled_env :: "bool storage_env" where
  "shuffled_env =
     \<lparr>rk_get = \<lambda>k d. Ok None, rk_put = \<lambda>k v d. (Ok (), d), rk_delete = \<lambda>k d. (Ok (), d), rk_write = \<lambda>ops d. (Ok (), d),
      rk_prefix_iterator = \<lambda>p d. if d then [Ok (p @ [1], [10]), Ok (p @ [2], [20])] else [Ok (p @ [2], [20]), Ok (p @ [1], [10])],
      bc_account = no_codec, bc_u64 = no_codec, bc_block = no_codec, bc_drift = no_codec,
      bc_state_root = no_codec, bc_vc = no_codec, bc_unbonding = no_codec, bc_clock = no_codec,
      se_crypto = demo_crypto, se_merkle = \<lparr>tree_root = \<lambda>hs. Some (sum_list hs), tree_proof = \<lambda>_ _. []\<rparr>\<rparr>"

theorem state_root_order_independent_witness:
  "compute_state_root shuffled_env 3 0 (backend_new True) = compute_state_root shuffled_env 3 0 (backend_new False)"
  by (rule state_root_order_independent)
    (auto simp: prefix_iterator_def shuffled_env_def backend_new_def map_filter_simps starts_with_def)

end
