(* ===== verification/Kratos_Executor.thy ===== *)
theory Kratos_Executor
  imports Kratos_Ledger Kratos_Staking
begin

text \<open>
  The transaction executor (\<open>TransactionExecutor\<close> of \<^verbatim>\<open>node/producer.rs\<close>): every call of a
  transaction against the state backend, with the sender's record held in a local copy that is
  written back at the end.  Each \<open>Err(String)\<close> is a constructor that carries the values
  formatted into the message.

  The lemmas show what a transaction does to the money in the ledger: the accounts' free and
  reserved balances and the unbonding requests together.
\<close>

datatype exec_error =
    InvalidSignature
  | SenderNotFound
  | SenderStateError state_error
  | InvalidNonce u64 u64
  | InsufficientForFee balance balance
  | InsufficientForTransfer balance balance
  | RecipientStateError state_error
  | RecipientNotSaved state_error
  | InsufficientForStake balance balance
  | InsufficientStaked balance balance
  | UnbondingNotRecorded state_error
  | WithdrawFailed state_error
  | NothingMatured
  | InsufficientForDeposit balance balance
  | SenderNotSaved state_error

record execution_result =
  er_tx_hash :: hash
  er_success :: bool
  er_fee_paid :: balance
  er_error :: "exec_error option"

text \<open>The state a call works on: the backend and the local copy of the sender's record.\<close>

type_synonym ('d, 'a) call_action = "('d state_backend \<times> account_info, exec_error, 'a) action"

definition on_state :: "(state_error \<Rightarrow> exec_error) \<Rightarrow> ('d, 'a) state_action \<Rightarrow> ('d, 'a) call_action" where
  "on_state g m = (\<lambda>(s, a). case m s of (Inl e, s') \<Rightarrow> (Err (g e), (s', a)) | (Inr x, s') \<Rightarrow> (Ok x, (s', a)))"

definition set_sender :: "account_info \<Rightarrow> ('d, unit) call_action" where
  "set_sender a' = (\<lambda>(s, a). (Ok (), (s, a')))"

definition execute_transfer :: "'d storage_env \<Rightarrow> account_id \<Rightarrow> balance \<Rightarrow> ('d, unit) call_action" where
  "execute_transfer E dest amount = (\<lambda>(s, a).
     let total_needed = sat_add amount (base_fee (Transfer dest amount))
     in if ai_free a < total_needed then throw (InsufficientForTransfer total_needed (ai_free a)) (s, a)
        else andThen (set_sender (a\<lparr>ai_free := sat_sub (ai_free a) amount\<rparr>)) (\<lambda>_.
             andThen (on_state RecipientStateError (get_account E dest)) (\<lambda>r.
               let recipient = (case r of Some t \<Rightarrow> t
                                | None \<Rightarrow> \<lparr>ai_nonce = 0, ai_free = 0, ai_reserved = 0, ai_last_modified = ZERO\<rparr>)
               in on_state RecipientNotSaved
                    (set_account E dest (recipient\<lparr>ai_free := sat_add (ai_free recipient) amount\<rparr>)))) (s, a))"

definition execute_stake :: "balance \<Rightarrow> ('d, unit) call_action" where
  "execute_stake amount = (\<lambda>(s, a).
     let total_needed = sat_add amount (base_fee (Stake amount))
     in if ai_free a < total_needed then throw (InsufficientForStake total_needed (ai_free a)) (s, a)
        else set_sender (a\<lparr>ai_free := sat_sub (ai_free a) amount,
                           ai_reserved := sat_add (ai_reserved a) amount\<rparr>) (s, a))"

definition execute_unstake :: "'d storage_env \<Rightarrow> account_id \<Rightarrow> balance \<Rightarrow> block_number \<Rightarrow> ('d, unit) call_action" where
  "execute_unstake E sender amount current_block = (\<lambda>(s, a).
     if ai_reserved a < amount then throw (InsufficientStaked amount (ai_reserved a)) (s, a)
     else andThen (set_sender (a\<lparr>ai_reserved := sat_sub (ai_reserved a) amount\<rparr>)) (\<lambda>_.
          on_state UnbondingNotRecorded (add_unbonding_request E sender amount current_block UNBONDING_PERIOD)) (s, a))"

definition execute_withdraw_unbonded :: "'d storage_env \<Rightarrow> account_id \<Rightarrow> block_number \<Rightarrow> ('d, unit) call_action" where
  "execute_withdraw_unbonded E sender current_block = (\<lambda>(s, a).
     andThen (on_state WithdrawFailed (withdraw_matured_unbonding E sender current_block)) (\<lambda>withdrawn.
       if withdrawn = 0 then throw NothingMatured
       else set_sender (a\<lparr>ai_free := sat_add (ai_free a) withdrawn\<rparr>)) (s, a))"

definition execute_reserve :: "balance \<Rightarrow> ('d, unit) call_action" where
  "execute_reserve amount = (\<lambda>(s, a).
     let total_needed = sat_add amount
           (base_fee (CreateSidechain \<lparr>sm_name = None, sm_description = None, sm_parent_chain = None\<rparr> amount))
     in if ai_free a < total_needed then throw (InsufficientForDeposit total_needed (ai_free a)) (s, a)
        else set_sender (a\<lparr>ai_free := sat_sub (ai_free a) amount,
                           ai_reserved := sat_add (ai_reserved a) amount\<rparr>) (s, a))"

fun execute_call :: "'d storage_env \<Rightarrow> account_id \<Rightarrow> block_number \<Rightarrow> transaction_call \<Rightarrow> ('d, unit) call_action" where
  "execute_call E sender current_block (Transfer dest amount) = execute_transfer E dest amount"
| "execute_call E sender current_block (Stake amount) = execute_stake amount"
| "execute_call E sender current_block (Unstake amount) = execute_unstake E sender amount current_block"
| "execute_call E sender current_block WithdrawUnbonded = execute_withdraw_unbonded E sender current_block"
| "execute_call E sender current_block (RegisterValidator stake) = execute_stake stake"
| "execute_call E sender current_block UnregisterValidator = ret ()"
| "execute_call E sender current_block (CreateSidechain _ deposit) = execute_reserve deposit"
| "execute_call E sender current_block (ExitSidechain _) = ret ()"
| "execute_call E sender current_block (SignalFork _ _) = ret ()"
| "execute_call E sender current_block (ProposeEarlyValidator _) = ret ()"
| "execute_call E sender current_block (VoteEarlyValidator _) = ret ()"

definition failed :: "hash \<Rightarrow> exec_error \<Rightarrow> execution_result" where
  "failed tx_hash e = \<lparr>er_tx_hash = tx_hash, er_success = False, er_fee_paid = 0, er_error = Some e\<rparr>"

text \<open>The part of \<open>execute\<close> after the sender's record was read.\<close>

definition execute_with_sender :: "'d storage_env \<Rightarrow> signed_transaction \<Rightarrow> block_number \<Rightarrow> account_info
    \<Rightarrow> 'd state_backend \<Rightarrow> execution_result \<times> 'd state_backend" where
  "execute_with_sender E tx current_block a s =
     (let tx_hash = signed_hash (se_crypto E) tx;
          fee = base_fee (tx_call (stx_transaction tx));
          sender = tx_sender (stx_transaction tx)
      in if tx_nonce (stx_transaction tx) \<noteq> ai_nonce a
         then (failed tx_hash (InvalidNonce (ai_nonce a) (tx_nonce (stx_transaction tx))), s)
         else if ai_free a < fee then (failed tx_hash (InsufficientForFee fee (ai_free a)), s)
         else case execute_call E sender current_block (tx_call (stx_transaction tx)) (s, a) of
           (Inl e, (s2, _)) \<Rightarrow> (failed tx_hash e, s2)
         | (Inr _, (s2, a2)) \<Rightarrow>
             (case set_account E sender
                    (a2\<lparr>ai_free := sat_sub (ai_free a2) fee, ai_nonce := ai_nonce a2 + 1, ai_last_modified := tx_hash\<rparr>) s2 of
                (Inl e, s3) \<Rightarrow> (failed tx_hash (SenderNotSaved e), s3)
              | (Inr _, s3) \<Rightarrow>
                  (\<lparr>er_tx_hash = tx_hash, er_success = True, er_fee_paid = fee, er_error = None\<rparr>, s3)))"

definition execute :: "'d storage_env \<Rightarrow> signed_transaction \<Rightarrow> block_number \<Rightarrow> 'd state_backend
    \<Rightarrow> execution_result \<times> 'd state_backend" where
  "execute E tx current_block s =
     (let tx_hash = signed_hash (se_crypto E) tx
      in if \<not> signed_verify (se_crypto E) tx then (failed tx_hash InvalidSignature, s)
         else case get_account E (tx_sender (stx_transaction tx)) s of
           (Inl e, s1) \<Rightarrow> (failed tx_hash (SenderStateError e), s1)
         | (Inr None, s1) \<Rightarrow> (failed tx_hash SenderNotFound, s1)
         | (Inr (Some a), s1) \<Rightarrow> execute_with_sender E tx current_block a s1)"

section \<open>The ledger on a healthy database\<close>

lemma get_account_step:
  assumes "healthy E content s"
  obtains s' where "get_account E i s = (Ok (accounts E content s i), s')" "healthy E content s'"
    "accounts E content s' = accounts E content s" "unbondings E content s' = unbondings E content s"
proof -
  obtain s' where s': "get_account E i s = (Ok (accounts E content s i), s')" "healthy E content s'"
    "accounts E content s' = accounts E content s"
    using acct_total.fetchE [OF assms] by metis
  have "sb_db s' = sb_db s" using get_account_ok [of E content, OF _ s'(1)] assms by (simp add: healthy_def)
  then have "unbondings E content s' = unbondings E content s" by (simp add: unbondings_def stored_def)
  with s' that show ?thesis by blast
qed

lemma set_account_step:
  assumes "healthy E content s"
  obtains s' where "set_account E i info s = (Ok (), s')" "healthy E content s'"
    "accounts E content s' = (accounts E content s)(i \<mapsto> info)" "unbondings E content s' = unbondings E content s"
proof -
  obtain s' where s': "set_account E i info s = (Ok (), s')" "healthy E content s'"
    "accounts E content s' = (accounts E content s)(i \<mapsto> info)"
    using acct_total.updateE [OF assms] by metis
  have L: "storage_laws E content" using assms by (simp add: healthy_def state_ok_def)
  obtain u t where t: "save E (bc_account E) (account_key i) info s = (Ok u, t)" "sb_db s' = sb_db t"
    using s'(1) unfolding set_account_def by (auto elim!: andThen_okE)
  have "unbondings E content s' = unbondings E content s"
    using save_ok [OF L laws_codecs(1) [OF L] t(1)] t(2)
    by (auto simp: unbondings_def stored_def fun_eq_iff account_key_neq(2) [symmetric])
  with s' that show ?thesis by blast
qed

lemma get_unbonding_step:
  assumes "healthy E content s"
  shows "get_unbonding_info E i s = (Ok (unbondings E content s i), s)"
  unfolding get_unbonding_info_def unbondings_def
  using assms by (intro load_total) (auto simp: healthy_def readable_def state_ok_def)

lemma set_unbonding_step:
  assumes "healthy E content s"
  obtains s' where "set_unbonding_info E i info s = (Ok (), s')" "healthy E content s'"
    "accounts E content s' = accounts E content s" "unbondings E content s' = (unbondings E content s)(i \<mapsto> info)"
proof -
  have ok: "state_ok E content s" and L: "storage_laws E content" using assms by (simp_all add: healthy_def state_ok_def)
  obtain s' where s': "save E (bc_unbonding E) (unbonding_key i) info s = (Ok (), s')"
    using save_total [of E "bc_unbonding E" info "unbonding_key i" s] assms by (auto simp: healthy_def storage_total_def)
  obtain bs where bs: "deserialize (bc_unbonding E) bs = Ok info" "content (sb_db s') = (content (sb_db s))(unbonding_key i \<mapsto> bs)"
    using save_ok [OF L laws_codecs(7) [OF L] s'] by auto
  have "readable E content s'"
    using assms bs by (intro readable_upd [of E content s s' "unbonding_key i" bs])
      (auto simp: healthy_def account_key_neq account_key_neq [symmetric])
  moreover note plain_update_ok [OF ok s' laws_codecs(7) [OF L] inj_keys(2) account_key_neq(2)]
  ultimately show ?thesis
    using that [of s'] assms s' by (simp add: set_unbonding_info_def unbondings_def healthy_def)
qed

lemma delete_unbonding_step:
  assumes "healthy E content s"
  obtains s' where "st_delete E (unbonding_key i) s = (Ok (), s')" "healthy E content s'"
    "accounts E content s' = accounts E content s" "unbondings E content s' = (unbondings E content s)(i := None)"
proof -
  have ok: "state_ok E content s" and L: "storage_laws E content" using assms by (simp_all add: healthy_def state_ok_def)
  have "is_ok (fst (rk_delete E (unbonding_key i) (sb_db s)))" using assms by (simp add: healthy_def storage_total_def)
  then have "\<exists>s'. st_delete E (unbonding_key i) s = (Ok (), s')"
    by (auto simp: st_delete_def database_delete_def map_err_def is_ok_iff split: prod.splits sum.splits)
  then obtain s' where s': "st_delete E (unbonding_key i) s = (Ok (), s')" by blast
  have "readable E content s'"
    using st_delete_ok [OF L s'] assms by (simp add: readable_def healthy_def)
  with st_delete_unbonding [OF ok s'] that s' assms show ?thesis by (simp add: healthy_def)
qed

section \<open>The money in the ledger\<close>

definition msum :: "('v \<Rightarrow> nat) \<Rightarrow> ('k \<rightharpoonup> 'v) \<Rightarrow> nat" where
  "msum f m = (\<Sum>k \<in> dom m. f (the (m k)))"

definition opt_val :: "('v \<Rightarrow> nat) \<Rightarrow> 'v option \<Rightarrow> nat" where
  "opt_val f v = (case v of Some x \<Rightarrow> f x | None \<Rightarrow> 0)"

lemma opt_val_simps [simp]: "opt_val f (Some x) = f x" "opt_val f None = 0"
  by (simp_all add: opt_val_def)

lemma msum_upd:
  assumes "finite (dom m)"
  shows "msum f (m(k := v)) + opt_val f (m k) = msum f m + opt_val f v"
proof -
  have rest: "(\<Sum>x \<in> dom m - {k}. f (the ((m(k := v)) x))) = (\<Sum>x \<in> dom m - {k}. f (the (m x)))"
    by (intro sum.cong) auto
  have "msum f m = opt_val f (m k) + (\<Sum>x \<in> dom m - {k}. f (the (m x)))"
    using assms by (cases "m k") (auto simp: msum_def sum.remove [of "dom m" k] domIff)
  moreover have "msum f (m(k := v)) = opt_val f v + (\<Sum>x \<in> dom m - {k}. f (the (m x)))"
    using assms rest
    by (cases v) (auto simp: msum_def sum.insert_remove)
  ultimately show ?thesis by simp
qed

lemma opt_val_le_msum:
  assumes "finite (dom m)"
  shows "opt_val f (m k) \<le> msum f m"
proof (cases "m k")
  case (Some x)
  then show ?thesis
    using member_le_sum [of k "dom m" "\<lambda>k. f (the (m k))"] assms by (simp add: msum_def domI)
qed simp

definition wealth :: "(account_id \<rightharpoonup> account_info) \<Rightarrow> (account_id \<rightharpoonup> unbonding_info) \<Rightarrow> nat" where
  "wealth m U = msum funds m + msum amounts U"

definition ledger_wealth :: "'d storage_env \<Rightarrow> ('d \<Rightarrow> bytes \<rightharpoonup> bytes) \<Rightarrow> 'd state_backend \<Rightarrow> nat" where
  "ledger_wealth E content s = wealth (accounts E content s) (unbondings E content s)"

definition finite_ledger :: "'d storage_env \<Rightarrow> ('d \<Rightarrow> bytes \<rightharpoonup> bytes) \<Rightarrow> 'd state_backend \<Rightarrow> bool" where
  "finite_ledger E content s = (finite (dom (accounts E content s)) \<and> finite (dom (unbondings E content s)))"

lemma two_le_msum:
  assumes "finite (dom m)" and "i \<noteq> j"
  shows "opt_val f (m i) + opt_val f (m j) \<le> msum f m"
  using msum_upd [OF assms(1), of f j None] opt_val_le_msum [of "m(j := None)" f i] assms by simp

lemma ledger_wealth_set_account:
  assumes "finite_ledger E content s"
    and "accounts E content s' = (accounts E content s)(i \<mapsto> a)" and "unbondings E content s' = unbondings E content s"
  shows "ledger_wealth E content s' + opt_val funds (accounts E content s i) = ledger_wealth E content s + funds a
       \<and> finite_ledger E content s'"
  using msum_upd [of "accounts E content s" funds i "Some a"] assms
  by (simp add: ledger_wealth_def wealth_def finite_ledger_def)

lemma ledger_wealth_set_unbonding:
  assumes "finite_ledger E content s"
    and "accounts E content s' = accounts E content s" and "unbondings E content s' = (unbondings E content s)(i := v)"
  shows "ledger_wealth E content s' + opt_val amounts (unbondings E content s i) = ledger_wealth E content s + opt_val amounts v
       \<and> finite_ledger E content s'"
  using msum_upd [of "unbondings E content s" amounts i v] assms
  by (cases v) (auto simp: ledger_wealth_def wealth_def finite_ledger_def domIff)

text \<open>
  What a call must do to the ledger before the fee: \<open>s'\<close> with the local record \<open>a'\<close> holds the
  same money as \<open>s\<close> with the record \<open>a\<close>.
\<close>

definition neutral :: "'d storage_env \<Rightarrow> ('d \<Rightarrow> bytes \<rightharpoonup> bytes) \<Rightarrow> account_id
    \<Rightarrow> 'd state_backend \<Rightarrow> account_info \<Rightarrow> 'd state_backend \<Rightarrow> account_info \<Rightarrow> bool" where
  "neutral E content i s a s' a' =
     (healthy E content s' \<and> finite_ledger E content s' \<and> accounts E content s' i = Some a
    \<and> ledger_wealth E content s' + funds a' = ledger_wealth E content s + funds a \<and> ai_nonce a' = ai_nonce a)"

definition untouched :: "'d storage_env \<Rightarrow> ('d \<Rightarrow> bytes \<rightharpoonup> bytes) \<Rightarrow> account_id \<Rightarrow> 'd state_backend \<Rightarrow> 'd state_backend \<Rightarrow> bool" where
  "untouched E content i s s' =
     (healthy E content s' \<and> accounts E content s' = accounts E content s
    \<and> amounts (pending_of (unbondings E content s') i) = amounts (pending_of (unbondings E content s) i)
    \<and> (\<forall>j. j \<noteq> i \<longrightarrow> unbondings E content s' j = unbondings E content s j))"

definition ready :: "'d storage_env \<Rightarrow> ('d \<Rightarrow> bytes \<rightharpoonup> bytes) \<Rightarrow> account_id \<Rightarrow> balance \<Rightarrow> 'd state_backend \<Rightarrow> account_info \<Rightarrow> bool" where
  "ready E content i fee s a =
     (healthy E content s \<and> finite_ledger E content s \<and> accounts E content s i = Some a \<and> fee \<le> ai_free a
    \<and> 0 < fee \<and> ledger_wealth E content s + unat fee < 2 ^ 128)"

lemma ready_funds: "ready E content i fee s a \<Longrightarrow> funds a \<le> ledger_wealth E content s"
  using opt_val_le_msum [of "accounts E content s" funds i]
  by (simp add: ready_def ledger_wealth_def wealth_def finite_ledger_def)

lemma untouched_refl: "ready E content i fee s a \<Longrightarrow> untouched E content i s s"
  by (simp add: untouched_def ready_def)

text \<open>Checking \<open>amount + fee\<close> with saturation is exact as long as the whole ledger fits in \<open>u128\<close>.\<close>

lemma needed_exact:
  assumes "ready E content i fee' s a" and "\<not> ai_free a < sat_add amount fee" and "fee \<le> fee'" and "0 < fee"
  shows "unat amount + unat fee \<le> unat (ai_free a)"
proof -
  have "unat (ai_free a) + unat fee < 2 ^ 128"
    using ready_funds [OF assms(1)] assms(1,3) by (simp add: ready_def funds_def word_le_nat_alt)
  moreover have "0 < unat fee" using assms(4) by (simp add: word_less_nat_alt)
  ultimately show ?thesis using assms(2) by (simp add: word_less_nat_alt unat_sat_add)
qed

lemma transfer_neutral:
  assumes r: "ready E content i 1000 s a" and "dest \<noteq> i"
    and run: "execute_transfer E dest amount (s, a) = (res, (s', a'))"
  shows "case res of Inl _ \<Rightarrow> untouched E content i s s'
         | Inr _ \<Rightarrow> neutral E content i s a s' a' \<and> 1000 \<le> ai_free a'"
proof (cases "ai_free a < sat_add amount 1000")
  case True
  then have "res = Err (InsufficientForTransfer (sat_add amount 1000) (ai_free a)) \<and> s' = s"
    using run by (auto simp: execute_transfer_def Let_def throw_def)
  then show ?thesis using untouched_refl [OF r] by simp
next
  case False
  let ?m = "accounts E content s"
  have need: "unat amount + 1000 \<le> unat (ai_free a)" using needed_exact [OF r False] by simp
  have h: "healthy E content s" and fin: "finite_ledger E content s" and ma: "?m i = Some a"
    using r by (simp_all add: ready_def)
  obtain s1 where s1: "get_account E dest s = (Ok (?m dest), s1)" "healthy E content s1"
    "accounts E content s1 = ?m" "unbondings E content s1 = unbondings E content s"
    using get_account_step [OF h] by metis
  define t where "t = (case ?m dest of Some t \<Rightarrow> t
    | None \<Rightarrow> \<lparr>ai_nonce = 0, ai_free = 0, ai_reserved = 0, ai_last_modified = ZERO\<rparr>)"
  have ft: "opt_val funds (?m dest) = funds t" by (cases "?m dest") (simp_all add: t_def funds_def)
  obtain s2 where s2: "set_account E dest (t\<lparr>ai_free := sat_add (ai_free t) amount\<rparr>) s1 = (Ok (), s2)" "healthy E content s2"
    "accounts E content s2 = ?m(dest \<mapsto> t\<lparr>ai_free := sat_add (ai_free t) amount\<rparr>)"
    "unbondings E content s2 = unbondings E content s"
    using set_account_step [OF s1(2)] s1(3,4) by metis
  have res: "res = Ok ()" "s' = s2" "a' = a\<lparr>ai_free := sat_sub (ai_free a) amount\<rparr>"
    using run False s1(1) s2(1)
    by (simp_all add: execute_transfer_def andThen_def set_sender_def on_state_def t_def [symmetric])
  have "funds a + funds t \<le> ledger_wealth E content s"
    using two_le_msum [of ?m i dest funds] fin ma ft assms(2)
    by (simp add: ledger_wealth_def wealth_def finite_ledger_def)
  then have "funds (t\<lparr>ai_free := sat_add (ai_free t) amount\<rparr>) = funds t + unat amount"
    using need r by (simp add: funds_def unat_sat_add ready_def)
  then have "ledger_wealth E content s2 = ledger_wealth E content s + unat amount \<and> finite_ledger E content s2"
    using ledger_wealth_set_account [OF fin s2(3,4)] ft by simp
  then show ?thesis
    using need s2 ma assms(2)
    by (simp add: res neutral_def funds_def unat_sat_sub word_le_nat_alt)
qed

text \<open>Moving money from free to reserved, as staking and deposits do.\<close>

lemma reserve_neutral:
  assumes r: "ready E content i fee' s a" and need: "unat amount + unat fee \<le> unat (ai_free a)"
  defines "a' \<equiv> a\<lparr>ai_free := sat_sub (ai_free a) amount, ai_reserved := sat_add (ai_reserved a) amount\<rparr>"
  shows "neutral E content i s a s a' \<and> fee \<le> ai_free a'"
proof -
  have "funds a < 2 ^ 128" using ready_funds [OF r] r by (simp add: ready_def)
  then show ?thesis
    using r need by (simp add: neutral_def ready_def a'_def funds_def unat_sat_sub unat_sat_add word_le_nat_alt)
qed

lemma stake_neutral:
  assumes r: "ready E content i fee s a" and fee: "5000 \<le> fee"
    and run: "execute_stake amount (s, a) = (res, (s', a'))"
  shows "case res of Inl _ \<Rightarrow> untouched E content i s s'
         | Inr _ \<Rightarrow> neutral E content i s a s' a' \<and> unat (ai_free a') + unat amount = unat (ai_free a)"
proof (cases "ai_free a < sat_add amount 5000")
  case True
  then show ?thesis using run untouched_refl [OF r] by (auto simp: execute_stake_def Let_def throw_def)
next
  case False
  have need: "unat amount + 5000 \<le> unat (ai_free a)" using needed_exact [OF r False] fee by simp
  show ?thesis
    using run False reserve_neutral [OF r, of amount 5000] need
    by (auto simp: execute_stake_def Let_def set_sender_def unat_sat_sub)
qed

lemma deposit_neutral:
  assumes r: "ready E content i 1000000 s a"
    and run: "execute_reserve amount (s, a) = (res, (s', a'))"
  shows "case res of Inl _ \<Rightarrow> untouched E content i s s'
         | Inr _ \<Rightarrow> neutral E content i s a s' a' \<and> 1000000 \<le> ai_free a'"
proof (cases "ai_free a < sat_add amount 1000000")
  case True
  then show ?thesis using run untouched_refl [OF r] by (auto simp: execute_reserve_def Let_def throw_def)
next
  case False
  have need: "unat amount + 1000000 \<le> unat (ai_free a)" using needed_exact [OF r False] by simp
  show ?thesis
    using run False reserve_neutral [OF r, of amount 1000000] need
    by (auto simp: execute_reserve_def Let_def set_sender_def)
qed

lemma unstake_neutral:
  assumes r: "ready E content i fee s a"
    and run: "execute_unstake E i amount now (s, a) = (res, (s', a'))"
  shows "case res of Inl _ \<Rightarrow> untouched E content i s s'
         | Inr _ \<Rightarrow> neutral E content i s a s' a' \<and> fee \<le> ai_free a'"
proof (cases "ai_reserved a < amount")
  case True
  then show ?thesis using run untouched_refl [OF r] by (auto simp: execute_unstake_def throw_def)
next
  case False
  let ?U = "unbondings E content s"
  define u where "u = \<lparr>ue_amount = amount, ue_unbonding_started = now, ue_release_block = sat_add now UNBONDING_PERIOD\<rparr>"
  have h: "healthy E content s" and fin: "finite_ledger E content s" using r by (simp_all add: ready_def)
  obtain s1 where s1: "set_unbonding_info E i (pending_of ?U i @ [u]) s = (Ok (), s1)" "healthy E content s1"
    "accounts E content s1 = accounts E content s" "unbondings E content s1 = ?U(i \<mapsto> pending_of ?U i @ [u])"
    using set_unbonding_step [OF h] by metis
  have "add_unbonding_request E i amount now UNBONDING_PERIOD s = (Ok (), s1)"
    using s1(1) by (simp add: add_unbonding_request_def andThen_def get_unbonding_step [OF h] pending_of_def u_def)
  then have res: "res = Ok ()" "s' = s1" "a' = a\<lparr>ai_reserved := sat_sub (ai_reserved a) amount\<rparr>"
    using run False by (simp_all add: execute_unstake_def andThen_def set_sender_def on_state_def)
  have "opt_val amounts (Some (pending_of ?U i @ [u])) = opt_val amounts (?U i) + unat amount"
    by (cases "?U i") (simp_all add: amounts_def pending_of_def u_def)
  then have "ledger_wealth E content s1 = ledger_wealth E content s + unat amount \<and> finite_ledger E content s1"
    using ledger_wealth_set_unbonding [OF fin s1(3,4)] by simp
  then show ?thesis
    using False s1 r
    by (simp add: res neutral_def ready_def funds_def unat_sat_sub word_less_nat_alt not_less)
qed

lemma withdraw_step:
  assumes "healthy E content s"
  obtains w s' where "withdraw_matured_unbonding E i now s = (Ok w, s')" "healthy E content s'"
proof (cases "unbondings E content s i")
  case None
  then show ?thesis
    using that assms get_unbonding_step [OF assms, of i]
    by (simp add: withdraw_matured_unbonding_def andThen_def ret_def)
next
  case (Some info)
  define rem where "rem = filter (\<lambda>u. \<not> ue_release_block u \<le> now) info"
  obtain s1 where "(if rem = [] then st_delete E (unbonding_key i) else set_unbonding_info E i rem) s = (Ok (), s1)"
    "healthy E content s1"
  proof (cases "rem = []")
    case True
    then show ?thesis using delete_unbonding_step [OF assms, of i] that by auto
  next
    case False
    then show ?thesis using set_unbonding_step [OF assms, of i rem] that by auto
  qed
  then show ?thesis
    using that get_unbonding_step [OF assms, of i] Some
    by (auto simp: withdraw_matured_unbonding_def andThen_def ret_def rem_def comp_def split: if_splits)
qed

lemma pending_opt_val: "amounts (pending_of U i) = opt_val amounts (U i)"
  by (cases "U i") (simp_all add: pending_of_def amounts_def)

lemma withdraw_neutral:
  assumes r: "ready E content i fee s a"
    and run: "execute_withdraw_unbonded E i now (s, a) = (res, (s', a'))"
  shows "case res of Inl _ \<Rightarrow> untouched E content i s s'
         | Inr _ \<Rightarrow> neutral E content i s a s' a' \<and> fee \<le> ai_free a'"
proof -
  let ?U = "unbondings E content s"
  have h: "healthy E content s" and fin: "finite_ledger E content s" and ok: "state_ok E content s"
    using r by (simp_all add: ready_def healthy_def)
  obtain w s1 where s1: "withdraw_matured_unbonding E i now s = (Ok w, s1)" "healthy E content s1"
    using withdraw_step [OF h] by metis
  have le: "amounts (pending_of ?U i) \<le> msum amounts ?U"
    using opt_val_le_msum [of ?U amounts i] fin by (simp add: pending_opt_val finite_ledger_def)
  have lt: "amounts (pending_of ?U i) + funds a < 2 ^ 128"
    using le opt_val_le_msum [of "accounts E content s" funds i] r
    by (simp add: ready_def ledger_wealth_def wealth_def finite_ledger_def)
  have fits: "amounts (pending_of ?U i) < 2 ^ 128" using lt by simp
  have w: "unat w + amounts (pending_of (unbondings E content s1) i) = amounts (pending_of ?U i)"
    and oth: "\<forall>j. j \<noteq> i \<longrightarrow> unbondings E content s1 j = ?U j"
    and acc: "accounts E content s1 = accounts E content s"
    using withdraw_matured_ok [OF ok s1(1) fits] by auto
  have u: "unbondings E content s1 = ?U(i := unbondings E content s1 i)" using oth by auto
  have lw: "ledger_wealth E content s1 + unat w = ledger_wealth E content s \<and> finite_ledger E content s1"
    using ledger_wealth_set_unbonding [OF fin acc u] w by (simp add: pending_opt_val)
  show ?thesis
  proof (cases "w = 0")
    case True
    then have "res = Err NothingMatured \<and> s' = s1"
      using run s1(1) by (auto simp: execute_withdraw_unbonded_def andThen_def on_state_def throw_def)
    then show ?thesis using True w oth acc s1(2) by (simp add: untouched_def)
  next
    case False
    then have "res = Ok () \<and> s' = s1 \<and> a' = a\<lparr>ai_free := sat_add (ai_free a) w\<rparr>"
      using run s1(1) by (auto simp: execute_withdraw_unbonded_def andThen_def on_state_def set_sender_def)
    moreover have "unat (sat_add (ai_free a) w) = unat (ai_free a) + unat w"
      using lt w by (simp add: unat_sat_add funds_def)
    ultimately show ?thesis
      using r s1(2) lw acc by (auto simp: neutral_def ready_def funds_def word_le_nat_alt)
  qed
qed

text \<open>
  What a successful call costs its sender in all, with the fee.  It is the reported fee but for two calls: a
  transfer to oneself loses the amount as well, and a registration checks for the fee of staking and then pays
  what is left of the fee of registering.
\<close>

fun charged :: "account_id \<Rightarrow> account_info \<Rightarrow> transaction_call \<Rightarrow> nat" where
  "charged i a (Transfer dest amount) = 1000 + (if dest = i then unat amount else 0)"
| "charged i a (RegisterValidator stake) = min 100000 (unat (ai_free a) - unat stake)"
| "charged i a c = unat (base_fee c)"

text \<open>After a call: the ledger without the sender's old record, with the new one and the lost amount, is the old ledger.\<close>

definition settles :: "'d storage_env \<Rightarrow> ('d \<Rightarrow> bytes \<rightharpoonup> bytes) \<Rightarrow> account_id
    \<Rightarrow> 'd state_backend \<Rightarrow> account_info \<Rightarrow> 'd state_backend \<Rightarrow> account_info \<Rightarrow> nat \<Rightarrow> bool" where
  "settles E content i s a s' a' loss =
     (healthy E content s' \<and> finite_ledger E content s'
    \<and> (\<exists>x. accounts E content s' i = Some x \<and> ledger_wealth E content s' + funds a' + loss = ledger_wealth E content s + funds x))"

lemma neutral_settles: "neutral E content i s a s' a' \<Longrightarrow> settles E content i s a s' a' 0"
  by (auto simp: neutral_def settles_def)

lemma self_transfer_settles:
  assumes r: "ready E content i 1000 s a" and run: "execute_transfer E i amount (s, a) = (res, (s', a'))"
  shows "case res of Inl _ \<Rightarrow> untouched E content i s s'
         | Inr _ \<Rightarrow> settles E content i s a s' a' (unat amount) \<and> 1000 \<le> ai_free a'"
proof (cases "ai_free a < sat_add amount 1000")
  case True
  then have "res = Err (InsufficientForTransfer (sat_add amount 1000) (ai_free a)) \<and> s' = s"
    using run by (auto simp: execute_transfer_def Let_def throw_def)
  then show ?thesis using untouched_refl [OF r] by simp
next
  case False
  have need: "unat amount + 1000 \<le> unat (ai_free a)" using needed_exact [OF r False] by simp
  have h: "healthy E content s" and fin: "finite_ledger E content s" and ma: "accounts E content s i = Some a"
    using r by (simp_all add: ready_def)
  let ?x = "a\<lparr>ai_free := sat_add (ai_free a) amount\<rparr>"
  obtain s1 where s1: "get_account E i s = (Ok (Some a), s1)" "healthy E content s1"
    "accounts E content s1 = accounts E content s" "unbondings E content s1 = unbondings E content s"
    using get_account_step [OF h] ma by metis
  obtain s2 where s2: "set_account E i ?x s1 = (Ok (), s2)" "healthy E content s2"
    "accounts E content s2 = (accounts E content s)(i \<mapsto> ?x)" "unbondings E content s2 = unbondings E content s"
    using set_account_step [OF s1(2)] s1(3,4) by metis
  have res: "res = Ok ()" "s' = s2" "a' = a\<lparr>ai_free := sat_sub (ai_free a) amount\<rparr>"
    using run False s1(1) s2(1) by (simp_all add: execute_transfer_def andThen_def set_sender_def on_state_def)
  have "ledger_wealth E content s2 + funds a = ledger_wealth E content s + funds ?x \<and> finite_ledger E content s2"
    using ledger_wealth_set_account [OF fin s2(3,4)] ma by simp
  then show ?thesis
    using need s2 by (simp add: res settles_def funds_def unat_sat_sub word_le_nat_alt)
qed

lemma call_settles:
  assumes r: "ready E content i (base_fee c) s a" and run: "execute_call E i now c (s, a) = (res, (s', a'))"
  shows "case res of Inl _ \<Rightarrow> untouched E content i s s'
         | Inr _ \<Rightarrow> \<exists>loss. settles E content i s a s' a' loss \<and> charged i a c = loss + min (unat (base_fee c)) (unat (ai_free a'))"
proof (cases c)
  case (Transfer dest amount)
  show ?thesis
  proof (cases "dest = i")
    case True
    then show ?thesis
      using self_transfer_settles [of E content i s a amount res s' a'] assms Transfer by (cases res) (auto simp: word_le_nat_alt)
  next
    case False
    then show ?thesis
      using transfer_neutral [of E content i s a dest amount res s' a'] assms Transfer
      by (cases res) (auto simp: word_le_nat_alt dest!: neutral_settles)
  qed
next
  case (Stake amount)
  then show ?thesis
    using stake_neutral [of E content i 5000 s a amount res s' a'] assms
    by (cases res) (auto simp: execute_stake_def Let_def throw_def set_sender_def word_le_nat_alt word_less_nat_alt
        split: if_splits dest: needed_exact dest!: neutral_settles)
next
  case (Unstake amount)
  then show ?thesis
    using unstake_neutral [OF r, of amount now res s' a'] run by (cases res) (auto simp: word_le_nat_alt dest!: neutral_settles)
next
  case WithdrawUnbonded
  then show ?thesis
    using withdraw_neutral [OF r, of now res s' a'] run by (cases res) (auto simp: word_le_nat_alt dest!: neutral_settles)
next
  case (RegisterValidator stake)
  then show ?thesis
    using stake_neutral [of E content i 100000 s a stake res s' a'] assms
    by (cases res) (auto dest!: neutral_settles)
next
  case (CreateSidechain m d)
  then show ?thesis
    using deposit_neutral [of E content i s a d res s' a'] assms by (cases res) (auto simp: word_le_nat_alt dest!: neutral_settles)
qed (use run r in \<open>auto simp: ret_def settles_def ready_def word_le_nat_alt\<close>)

section \<open>Whole transactions\<close>

lemma base_fee_pos: "0 < base_fee c"
  by (cases c) simp_all

lemma untouched_wealth:
  assumes "untouched E content i s s'" and "finite_ledger E content s"
  shows "ledger_wealth E content s' = ledger_wealth E content s"
proof -
  have "unbondings E content s' = (unbondings E content s)(i := unbondings E content s' i)"
    using assms(1) by (auto simp: untouched_def)
  then show ?thesis
    using ledger_wealth_set_unbonding [OF assms(2), of s' i "unbondings E content s' i"] assms(1)
    by (simp add: untouched_def pending_opt_val)
qed

lemma failed_simps [simp]: "\<not> er_success (failed h e)" "er_fee_paid (failed h e) = 0"
  by (simp_all add: failed_def)

text \<open>Once the sender's record is known: the call, the fee and the nonce, or nothing at all.\<close>

lemma execute_with_sender_effect:
  fixes tx :: signed_transaction
  defines "i \<equiv> tx_sender (stx_transaction tx)" and "c \<equiv> tx_call (stx_transaction tx)"
  assumes h: "healthy E content s" and fin: "finite_ledger E content s" and a: "accounts E content s i = Some a"
    and bound: "ledger_wealth E content s + unat (base_fee c) < 2 ^ 128"
    and run: "execute_with_sender E tx n a s = (res, s')"
  shows "healthy E content s' \<and> ledger_wealth E content s' + (if er_success res then charged i a c else 0) = ledger_wealth E content s
       \<and> er_fee_paid res = (if er_success res then base_fee c else 0)
       \<and> (\<not> er_success res \<longrightarrow> accounts E content s' = accounts E content s)"
proof (cases "tx_nonce (stx_transaction tx) \<noteq> ai_nonce a \<or> ai_free a < base_fee c")
  case True
  then have "s' = s \<and> \<not> er_success res \<and> er_fee_paid res = 0"
    using run by (auto simp: execute_with_sender_def c_def Let_def split: if_splits)
  then show ?thesis using h by simp
next
  case False
  have r: "ready E content i (base_fee c) s a"
    using h fin a bound False base_fee_pos by (simp add: ready_def not_less)
  obtain q s2 a2 where call: "execute_call E i n c (s, a) = (q, (s2, a2))" by (metis surj_pair)
  note N = call_settles [OF r call]
  show ?thesis
  proof (cases q)
    case (Inl e)
    then have "res = failed (signed_hash (se_crypto E) tx) e \<and> s' = s2"
      using run False call by (auto simp: execute_with_sender_def i_def c_def Let_def)
    then show ?thesis
      using N Inl untouched_wealth [OF _ fin, of i s2] by (simp add: untouched_def)
  next
    case (Inr u)
    then obtain loss x where ne: "healthy E content s2" "finite_ledger E content s2" "accounts E content s2 i = Some x"
      "ledger_wealth E content s2 + funds a2 + loss = ledger_wealth E content s + funds x"
      and fee: "charged i a c = loss + min (unat (base_fee c)) (unat (ai_free a2))"
      using N by (auto simp: settles_def)
    define b where "b = a2\<lparr>ai_free := sat_sub (ai_free a2) (base_fee c), ai_nonce := ai_nonce a2 + 1,
                           ai_last_modified := signed_hash (se_crypto E) tx\<rparr>"
    obtain s3 where s3: "set_account E i b s2 = (Ok (), s3)" "healthy E content s3"
      "accounts E content s3 = (accounts E content s2)(i \<mapsto> b)" "unbondings E content s3 = unbondings E content s2"
      using set_account_step [of E content s2 i b] ne by auto
    have res: "er_success res" "er_fee_paid res = base_fee c" "s' = s3"
      using run False call Inr s3(1) by (auto simp: execute_with_sender_def i_def c_def Let_def b_def)
    have "funds b + min (unat (base_fee c)) (unat (ai_free a2)) = funds a2"
      by (simp add: b_def funds_def unat_sat_sub min_def)
    moreover have "ledger_wealth E content s3 + funds x = ledger_wealth E content s2 + funds b"
      using ledger_wealth_set_account [OF ne(2) s3(3,4)] ne by simp
    ultimately show ?thesis using ne s3(2) res fee by simp
  qed
qed

text \<open>
  C1: on a healthy ledger whose money fits in \<open>u128\<close>, executing any transaction moves or takes exactly what it is
  charged: free and reserved balances plus unbonding requests afterwards and the charge add up to what was there
  before.  The charge of a successful transaction is the fee it reports, with two exceptions that the theorem
  spells out: a transfer to oneself loses the amount as well, and registering a validator takes the
  smaller of its fee and what the stake leaves of the free balance.  A transaction that is not successful
  reports no fee, takes nothing and changes no account.
\<close>

theorem execute_conserves:
  assumes "healthy E content s" and "finite_ledger E content s"
    and "ledger_wealth E content s + unat (base_fee (tx_call (stx_transaction tx))) < 2 ^ 128"
    and run: "execute E tx n s = (res, s')"
  defines "sender \<equiv> tx_sender (stx_transaction tx)" and "call \<equiv> tx_call (stx_transaction tx)"
  shows "healthy E content s'
       \<and> er_fee_paid res = (if er_success res then base_fee call else 0)
       \<and> (\<not> er_success res \<longrightarrow> ledger_wealth E content s' = ledger_wealth E content s \<and> accounts E content s' = accounts E content s)
       \<and> (er_success res \<longrightarrow> (\<exists>a. accounts E content s sender = Some a
            \<and> ledger_wealth E content s' + charged sender a call = ledger_wealth E content s))"
proof -
  let ?i = "tx_sender (stx_transaction tx)"
  obtain s1 where s1: "get_account E ?i s = (Ok (accounts E content s ?i), s1)" "healthy E content s1"
    "accounts E content s1 = accounts E content s" "unbondings E content s1 = unbondings E content s"
    using get_account_step [OF assms(1)] by metis
  have same: "ledger_wealth E content s1 = ledger_wealth E content s" "finite_ledger E content s1"
    using s1 assms(2) by (simp_all add: ledger_wealth_def finite_ledger_def)
  show ?thesis
  proof (cases "signed_verify (se_crypto E) tx \<and> accounts E content s ?i \<noteq> None")
    case True
    then obtain a where a: "accounts E content s ?i = Some a" by auto
    then have "execute_with_sender E tx n a s1 = (res, s')"
      using run True s1(1) by (simp add: execute_def)
    from execute_with_sender_effect [OF s1(2) same(2) _ _ this] show ?thesis
      using a assms(3) s1(3) same(1) by (auto simp: sender_def call_def split: if_splits)
  next
    case False
    then have "(s' = s \<or> s' = s1) \<and> \<not> er_success res \<and> er_fee_paid res = 0"
      using run s1(1) by (auto simp: execute_def Let_def split: if_splits option.splits)
    then show ?thesis using s1 same assms(1) by auto
  qed
qed

text \<open>A transaction on the example ledger, signed for \<open>demo_crypto\<close>.\<close>

definition demo_tx :: "balance \<Rightarrow> account_id \<Rightarrow> signed_transaction" where
  "demo_tx amount dest = \<lparr>stx_transaction = \<lparr>tx_sender = 1, tx_nonce = 0, tx_call = Transfer dest amount, tx_timestamp = 0\<rparr>,
                          stx_signature = 1, stx_hash = None\<rparr>"

definition rich_state :: "(bytes \<rightharpoonup> bytes) state_backend" where
  "rich_state = snd (set_account mem_env 1 (account_new\<lparr>ai_free := 5000\<rparr>) (backend_new (\<lambda>_. None)))"

lemma rich_state_props:
  "healthy mem_env (\<lambda>d. d) rich_state" "accounts mem_env (\<lambda>d. d) rich_state = [1 \<mapsto> account_new\<lparr>ai_free := 5000\<rparr>]"
  "unbondings mem_env (\<lambda>d. d) rich_state = (\<lambda>_. None)"
proof -
  obtain s' where s': "set_account mem_env 1 (account_new\<lparr>ai_free := 5000\<rparr>) (backend_new (\<lambda>_. None)) = (Ok (), s')"
    "healthy mem_env (\<lambda>d. d) s'"
    "accounts mem_env (\<lambda>d. d) s' = (accounts mem_env (\<lambda>d. d) (backend_new (\<lambda>_. None)))(1 \<mapsto> account_new\<lparr>ai_free := 5000\<rparr>)"
    "unbondings mem_env (\<lambda>d. d) s' = unbondings mem_env (\<lambda>d. d) (backend_new (\<lambda>_. None))"
    using set_account_step [OF mem_env_healthy] by metis
  moreover have "accounts mem_env (\<lambda>d. d) (backend_new (\<lambda>_. None)) = (\<lambda>_. None)"
    "unbondings mem_env (\<lambda>d. d) (backend_new (\<lambda>_. None)) = (\<lambda>_. None)"
    by (simp_all add: fun_eq_iff accounts_def unbondings_def stored_def backend_new_def)
  ultimately show "healthy mem_env (\<lambda>d. d) rich_state"
    "accounts mem_env (\<lambda>d. d) rich_state = [1 \<mapsto> account_new\<lparr>ai_free := 5000\<rparr>]"
    "unbondings mem_env (\<lambda>d. d) rich_state = (\<lambda>_. None)"
    by (simp_all add: rich_state_def)
qed

lemma rich_wealth: "ledger_wealth mem_env (\<lambda>d. d) rich_state = 5000" "finite_ledger mem_env (\<lambda>d. d) rich_state"
  by (simp_all add: ledger_wealth_def wealth_def finite_ledger_def rich_state_props msum_def funds_def account_new_def)

lemma demo_tx_verifies: "signed_verify (se_crypto mem_env) (demo_tx amount dest)"
  by (simp add: signed_verify_def demo_tx_def account_verify_def demo_crypto_def mem_env_def)

lemma sat_add_commute: "sat_add a b = sat_add b a"
  by (simp add: sat_add_def add.commute)

lemma transfer_succeeds:
  assumes "healthy E content s" and "tx_call (stx_transaction tx) = Transfer dest amount"
  shows "er_success (fst (execute E tx n s)) \<longleftrightarrow>
     signed_verify (se_crypto E) tx
   \<and> (\<exists>a. accounts E content s (tx_sender (stx_transaction tx)) = Some a \<and> tx_nonce (stx_transaction tx) = ai_nonce a
        \<and> sat_add amount 1000 \<le> ai_free a)"
proof -
  let ?i = "tx_sender (stx_transaction tx)"
  obtain s1 where s1: "get_account E ?i s = (Ok (accounts E content s ?i), s1)" "healthy E content s1"
    using get_account_step [OF assms(1)] by metis
  have fee: "sat_add amount 1000 \<le> f \<Longrightarrow> 1000 \<le> f" for f :: balance
    using sat_add_ge [of 1000 amount] sat_add_commute [of amount 1000] by (simp add: order_trans)
  obtain s2 where s2: "get_account E dest s1 = (Ok (accounts E content s1 dest), s2)" "healthy E content s2"
    using get_account_step [OF s1(2)] by metis
  have set2: "\<exists>s3. set_account E dest t s2 = (Ok (), s3) \<and> healthy E content s3" for t
    by (rule set_account_step [OF s2(2), of dest t]) blast
  have set3: "\<exists>s4. set_account E ?i t s3 = (Ok (), s4)" if "healthy E content s3" for t s3
    by (rule set_account_step [OF that, of ?i t]) blast
  have "er_success (fst (execute_with_sender E tx n a s1)) \<longleftrightarrow>
      tx_nonce (stx_transaction tx) = ai_nonce a \<and> sat_add amount 1000 \<le> ai_free a" for a
  proof (cases "tx_nonce (stx_transaction tx) = ai_nonce a \<and> sat_add amount 1000 \<le> ai_free a")
    case True
    define t where "t = (case accounts E content s1 dest of Some t \<Rightarrow> t
      | None \<Rightarrow> \<lparr>ai_nonce = 0, ai_free = 0, ai_reserved = 0, ai_last_modified = ZERO\<rparr>)"
    define a2 where "a2 = a\<lparr>ai_free := sat_sub (ai_free a) amount\<rparr>"
    obtain s3 where s3: "set_account E dest (t\<lparr>ai_free := sat_add (ai_free t) amount\<rparr>) s2 = (Ok (), s3)" "healthy E content s3"
      using set2 by metis
    have "execute_transfer E dest amount (s1, a) = (Ok (), (s3, a2))"
      using True s2(1) s3(1)
      by (simp add: execute_transfer_def andThen_def set_sender_def on_state_def a2_def t_def [symmetric] not_less [symmetric])
    then show ?thesis
      using True fee set3 [OF s3(2)]
      by (auto simp: execute_with_sender_def assms(2) Let_def not_less [symmetric] split: prod.splits sum.splits)
        (metis Inl_Inr_False prod.inject)+
  next
    case False
    then show ?thesis
      using fee [of "ai_free a"]
      by (auto simp: execute_with_sender_def assms(2) execute_transfer_def Let_def throw_def not_le)
  qed
  then show ?thesis
    using s1(1) by (auto simp: execute_def Let_def split: option.splits)
qed

lemma demo_tx_succeeds: "er_success (fst (execute mem_env (demo_tx 300 2) 7 rich_state))"
  using transfer_succeeds [OF rich_state_props(1), of "demo_tx 300 2" 2 300]
  by (simp add: demo_tx_verifies rich_state_props) (simp add: demo_tx_def account_new_def sat_add_def)

theorem execute_conserves_witness:
  "\<exists>res s'. execute mem_env (demo_tx 300 2) 7 rich_state = (res, s') \<and> er_success res
     \<and> ledger_wealth mem_env (\<lambda>d. d) s' + 1000 = 5000"
proof -
  obtain res s' where run: "execute mem_env (demo_tx 300 2) 7 rich_state = (res, s')" by fastforce
  have "er_success res" using run demo_tx_succeeds by simp
  with execute_conserves [OF rich_state_props(1) rich_wealth(2) _ run] run show ?thesis
    by (auto simp: rich_wealth demo_tx_def)
qed

text \<open>
  A transfer succeeds exactly when its signature verifies, the sender exists, its nonce is the
  sender's next one and the free balance covers the amount and the fee, on a healthy ledger.
\<close>

theorem transfer_success_iff:
  assumes "healthy E content s" and "tx_call (stx_transaction tx) = Transfer dest amount"
  shows "er_success (fst (execute E tx n s)) \<longleftrightarrow>
     signed_verify (se_crypto E) tx
   \<and> (\<exists>a. accounts E content s (tx_sender (stx_transaction tx)) = Some a \<and> tx_nonce (stx_transaction tx) = ai_nonce a
        \<and> sat_add amount 1000 \<le> ai_free a)"
  by (rule transfer_succeeds [OF assms])

theorem transfer_success_iff_witness:
  "er_success (fst (execute mem_env (demo_tx 300 2) 7 rich_state)) \<and> \<not> er_success (fst (execute mem_env (demo_tx 4500 2) 7 rich_state))"
proof -
  have "tx_call (stx_transaction (demo_tx m 2)) = Transfer 2 m" for m by (simp add: demo_tx_def)
  from transfer_success_iff [OF rich_state_props(1) this] show ?thesis
    by (simp add: demo_tx_verifies rich_state_props) (simp add: demo_tx_def account_new_def sat_add_def)
qed

section \<open>Replay\<close>

text \<open>Whatever the database answers, a call keeps the cache coherent and the nonce of the local record.\<close>

lemma add_unbonding_keeps:
  "state_ok E content s \<Longrightarrow> add_unbonding_request E i amount n p s = (r, s') \<Longrightarrow> state_ok E content s'"
  by (rule unb.modify_good [where f = "\<lambda>r. (case r of Some info \<Rightarrow> info | None \<Rightarrow> []) @
        [\<lparr>ue_amount = amount, ue_unbonding_started = n, ue_release_block = sat_add n p\<rparr>]"])
    (simp_all add: add_unbonding_request_def)

lemma delete_unbonding_keeps:
  assumes "state_ok E content s" and "st_delete E (unbonding_key i) s = (r, s')"
  shows "state_ok E content s'"
proof (cases r)
  case (Inl e)
  then show ?thesis
    using assms st_delete_err [OF state_ok_laws [OF assms(1)], of "unbonding_key i" s e s'] state_ok_frame [OF assms(1), of s'] by simp
next
  case (Inr u)
  then show ?thesis using assms st_delete_unbonding [OF assms(1)] by simp
qed

lemma withdraw_keeps:
  assumes "state_ok E content s" and "withdraw_matured_unbonding E i n s = (r, s')"
  shows "state_ok E content s'"
proof -
  obtain q s1 where g: "get_unbonding_info E i s = (q, s1)" by fastforce
  then have "s1 = s" using load_state [OF state_ok_laws [OF assms(1)]] by (simp add: get_unbonding_info_def)
  then show ?thesis
    using assms g unb.update_good [OF assms(1), of i] delete_unbonding_keeps [OF assms(1), of i]
    by (auto simp: withdraw_matured_unbonding_def andThen_def ret_def Let_def
        split: sum.splits option.splits prod.splits if_splits)
qed

lemma execute_call_keeps:
  assumes "state_ok E content s" and "execute_call E i n c (s, a) = (r, (s', a'))"
  shows "state_ok E content s' \<and> ai_nonce a' = ai_nonce a"
proof (cases c)
  case (Transfer dest amount)
  then show ?thesis
    using assms
    by (auto simp: execute_transfer_def andThen_def throw_def set_sender_def on_state_def Let_def
        dest: acct.fetch_good acct.update_good split: if_splits prod.splits sum.splits)
next
  case (Unstake amount)
  then show ?thesis
    using assms
    by (auto simp: execute_unstake_def andThen_def throw_def set_sender_def on_state_def
        dest: add_unbonding_keeps split: if_splits prod.splits sum.splits)
next
  case WithdrawUnbonded
  then show ?thesis
    using assms
    by (auto simp: execute_withdraw_unbonded_def andThen_def throw_def set_sender_def on_state_def
        dest: withdraw_keeps split: if_splits prod.splits sum.splits)
qed (use assms in \<open>auto simp: execute_stake_def execute_reserve_def throw_def set_sender_def ret_def Let_def split: if_splits\<close>)

lemma execute_success_record:
  assumes ok: "state_ok E content s" and run: "execute E tx n s = (res, s')" and "er_success res"
  obtains a s1 s2 a2 where "accounts E content s (tx_sender (stx_transaction tx)) = Some a"
    "ai_nonce a2 = tx_nonce (stx_transaction tx)" "er_fee_paid res = base_fee (tx_call (stx_transaction tx))"
    "execute_call E (tx_sender (stx_transaction tx)) n (tx_call (stx_transaction tx)) (s1, a) = (Ok (), (s2, a2))"
    "state_ok E content s'"
    "accounts E content s' (tx_sender (stx_transaction tx)) = Some (a2\<lparr>
       ai_free := sat_sub (ai_free a2) (base_fee (tx_call (stx_transaction tx))),
       ai_nonce := ai_nonce a2 + 1, ai_last_modified := signed_hash (se_crypto E) tx\<rparr>)"
proof -
  let ?i = "tx_sender (stx_transaction tx)" and ?c = "tx_call (stx_transaction tx)"
  obtain a s1 where g: "get_account E ?i s = (Ok (Some a), s1)" and w: "execute_with_sender E tx n a s1 = (res, s')"
    using run assms(3) by (auto simp: execute_def Let_def split: if_splits prod.splits sum.splits option.splits)
  have ok1: "state_ok E content s1" and a: "accounts E content s ?i = Some a" using acct.fetch_ok [OF ok g] by simp_all
  obtain q s2 a2 where call: "execute_call E ?i n ?c (s1, a) = (q, (s2, a2))" by (metis surj_pair)
  note k = execute_call_keeps [OF ok1 call]
  define b where "b = a2\<lparr>ai_free := sat_sub (ai_free a2) (base_fee ?c),
    ai_nonce := ai_nonce a2 + 1, ai_last_modified := signed_hash (se_crypto E) tx\<rparr>"
  have *: "q = Ok ()" "tx_nonce (stx_transaction tx) = ai_nonce a" "set_account E ?i b s2 = (Ok (), s')"
    "er_fee_paid res = base_fee ?c"
    using w assms(3) call
    by (auto simp: execute_with_sender_def Let_def b_def split: if_splits prod.splits sum.splits)
  then show ?thesis
    using that [of a a2 s1 s2] a call k acct.update_ok [of E content s2 ?i b "()" s'] by (simp add: b_def)
qed

lemma execute_success_nonce:
  assumes "state_ok E content s" and "execute E tx n s = (res, s')" and "er_success res"
  shows "state_ok E content s' \<and> (\<exists>a. accounts E content s' (tx_sender (stx_transaction tx)) = Some a
           \<and> ai_nonce a = tx_nonce (stx_transaction tx) + 1)"
  by (rule execute_success_record [OF assms]) simp

text \<open>
  C2: a transaction cannot be replayed: after it was executed successfully, executing it again on
  the resulting state, at any block, is refused.  This holds for any database that keeps the
  storage laws, also one whose calls may fail.
\<close>

theorem execute_no_replay:
  assumes "state_ok E content s" and "execute E tx n s = (res, s')" and "er_success res"
  shows "\<not> er_success (fst (execute E tx n' s'))"
proof
  assume again: "er_success (fst (execute E tx n' s'))"
  let ?i = "tx_sender (stx_transaction tx)"
  have ok: "state_ok E content s'" and nn: "\<exists>a. accounts E content s' ?i = Some a \<and> ai_nonce a = tx_nonce (stx_transaction tx) + 1"
    using execute_success_nonce [OF assms] by auto
  obtain a s1 where g: "get_account E ?i s' = (Ok (Some a), s1)"
    and "er_success (fst (execute_with_sender E tx n' a s1))"
    using again by (auto simp: execute_def Let_def split: if_splits prod.splits sum.splits option.splits)
  then have "ai_nonce a = tx_nonce (stx_transaction tx)"
    by (auto simp: execute_with_sender_def Let_def split: if_splits)
  moreover have "accounts E content s' ?i = Some a" using acct.fetch_ok [OF ok g] by simp
  ultimately show False using nn by simp
qed

theorem execute_no_replay_witness:
  "er_success (fst (execute mem_env (demo_tx 300 2) 7 rich_state)) \<and>
   \<not> er_success (fst (execute mem_env (demo_tx 300 2) 8 (snd (execute mem_env (demo_tx 300 2) 7 rich_state))))"
proof -
  have c: "tx_call (stx_transaction (demo_tx 300 2)) = Transfer 2 300" by (simp add: demo_tx_def)
  have ok: "er_success (fst (execute mem_env (demo_tx 300 2) 7 rich_state))"
    using transfer_succeeds [OF rich_state_props(1) c]
    by (simp add: demo_tx_verifies rich_state_props) (simp add: demo_tx_def account_new_def sat_add_def)
  then show ?thesis
    using execute_no_replay [of mem_env "\<lambda>d. d" rich_state "demo_tx 300 2" 7] rich_state_props(1)
    by (simp add: healthy_def) (metis prod.collapse)
qed

section \<open>Where the fee check does not cover the call\<close>

text \<open>Paying oneself loses the amount: the credited record is overwritten by the debited copy.\<close>

lemma self_transfer_loses_amount:
  assumes "state_ok E content s" and "execute E tx n s = (res, s')" and "er_success res"
    and "tx_call (stx_transaction tx) = Transfer (tx_sender (stx_transaction tx)) amount"
  shows "\<exists>a b. accounts E content s (tx_sender (stx_transaction tx)) = Some a
           \<and> accounts E content s' (tx_sender (stx_transaction tx)) = Some b
           \<and> ai_free b = sat_sub (sat_sub (ai_free a) amount) 1000 \<and> ai_reserved b = ai_reserved a"
  by (rule execute_success_record [OF assms(1-3)])
    (auto simp: assms(4) execute_transfer_def andThen_def throw_def set_sender_def on_state_def Let_def
      split: if_splits prod.splits sum.splits)

text \<open>Registering a validator reports the full fee of 100000 but checks only for 5000.\<close>

lemma register_undercharged:
  assumes "state_ok E content s" and "execute E tx n s = (res, s')" and "er_success res"
    and "tx_call (stx_transaction tx) = RegisterValidator stake"
  shows "er_fee_paid res = 100000
       \<and> (\<exists>a b. accounts E content s (tx_sender (stx_transaction tx)) = Some a
           \<and> accounts E content s' (tx_sender (stx_transaction tx)) = Some b
           \<and> sat_add stake 5000 \<le> ai_free a \<and> ai_free b = sat_sub (sat_sub (ai_free a) stake) 100000)"
  by (rule execute_success_record [OF assms(1-3)])
    (auto simp: assms(4) execute_stake_def throw_def set_sender_def Let_def not_less split: if_splits)

end
