(* ===== verification/Kratos_Votes.thy ===== *)
theory Kratos_Votes
  imports Kratos_Blocks Kratos_Maps
begin

text \<open>
  Finality votes and the vote collector of one round (\<^verbatim>\<open>consensus/finality/mod.rs\<close>,
  \<^verbatim>\<open>types.rs\<close> and \<^verbatim>\<open>votes.rs\<close>).

  The collector keeps its votes in hash maps and walks them to find the target with most votes.
  The order of that walk is not specified, so the definitions that depend on it take it as the
  argument \<open>iter\<close>; \<open>iteration iter\<close> says it lists exactly the entries of the map.  The clock
  that stamps a vote is an argument too.
\<close>

section \<open>Thresholds\<close>

definition MIN_VALIDATORS_FOR_FINALITY :: nat where [const_defs]: "MIN_VALIDATORS_FOR_FINALITY = 3"
definition SUPERMAJORITY_THRESHOLD :: nat where [const_defs]: "SUPERMAJORITY_THRESHOLD = 66"
definition ROUND_TIMEOUT_MS :: nat where [const_defs]: "ROUND_TIMEOUT_MS = 6000"

definition has_supermajority :: "nat \<Rightarrow> nat \<Rightarrow> bool" where
  "has_supermajority cnt all_votes =
     (if all_votes = 0 then False else all_votes * SUPERMAJORITY_THRESHOLD \<le> cnt * 100)"

definition supermajority_threshold :: "nat \<Rightarrow> nat" where
  "supermajority_threshold all_votes = (all_votes * 2 + 2) div 3"

section \<open>Votes\<close>

datatype vote_type = Prevote | Precommit

record finality_vote =
  fv_vote_type :: vote_type
  fv_target_number :: block_number
  fv_target_hash :: hash
  fv_round :: u32
  fv_epoch :: epoch_number
  fv_voter :: account_id
  fv_signature :: signature64
  fv_timestamp :: u64

definition vote_new :: "u64 \<Rightarrow> vote_type \<Rightarrow> block_number \<Rightarrow> hash \<Rightarrow> u32 \<Rightarrow> epoch_number \<Rightarrow> account_id \<Rightarrow> finality_vote" where
  "vote_new now vote_type target_number target_hash round_no epoch voter =
     \<lparr>fv_vote_type = vote_type, fv_target_number = target_number, fv_target_hash = target_hash, fv_round = round_no,
      fv_epoch = epoch, fv_voter = voter, fv_signature = 0, fv_timestamp = now\<rparr>"

definition vote_signing_message :: "crypto \<Rightarrow> finality_vote \<Rightarrow> bytes" where
  "vote_signing_message K v =
     (let vote_type_byte = (case fv_vote_type v of Prevote \<Rightarrow> 0 | Precommit \<Rightarrow> 1)
      in domain_separate DOMAIN_FINALITY
           (ser_vote K (vote_type_byte, fv_target_number v, fv_target_hash v, fv_round v, fv_epoch v)))"

definition vote_verify :: "crypto \<Rightarrow> finality_vote \<Rightarrow> bool" where
  "vote_verify K v = account_verify K (fv_voter v) (vote_signing_message K v) (fv_signature v)"

datatype round_state = Prevoting | Precommitting | Completed | Failed

record equivocation_proof =
  eq_validator :: account_id
  eq_vote1 :: finality_vote
  eq_vote2 :: finality_vote
  eq_round :: u32
  eq_epoch :: epoch_number

definition equivocation_is_valid :: "crypto \<Rightarrow> equivocation_proof \<Rightarrow> bool" where
  "equivocation_is_valid K p =
     (if fv_voter (eq_vote1 p) \<noteq> fv_voter (eq_vote2 p) then False
      else if fv_round (eq_vote1 p) \<noteq> fv_round (eq_vote2 p) \<or> fv_epoch (eq_vote1 p) \<noteq> fv_epoch (eq_vote2 p) then False
      else if fv_vote_type (eq_vote1 p) \<noteq> fv_vote_type (eq_vote2 p) then False
      else if fv_target_hash (eq_vote1 p) = fv_target_hash (eq_vote2 p) then False
      else vote_verify K (eq_vote1 p) \<and> vote_verify K (eq_vote2 p))"

section \<open>Vote collector\<close>

type_synonym target = "block_number \<times> hash"
type_synonym votes_by_target = "(target, finality_vote list) hmap"

record vote_collector =
  co_epoch :: epoch_number
  co_round :: u32
  co_validators :: "account_id list"
  co_prevotes :: votes_by_target
  co_precommits :: votes_by_target
  co_prevoted :: "(account_id, target) hmap"
  co_precommitted :: "(account_id, target) hmap"
  co_equivocations :: "equivocation_proof list"
  co_state :: round_state
  co_best_prevote_target :: "target option"
  co_best_precommit_target :: "target option"

datatype vote_error =
    WrongRound epoch_number u32 epoch_number u32
  | NotValidator account_id
  | VoteInvalidSignature account_id
  | Equivocation account_id
  | NotInPrecommitPhase

definition collector_new :: "epoch_number \<Rightarrow> u32 \<Rightarrow> account_id list \<Rightarrow> vote_collector" where
  "collector_new epoch round_no validators =
     \<lparr>co_epoch = epoch, co_round = round_no, co_validators = validators, co_prevotes = [], co_precommits = [],
      co_prevoted = [], co_precommitted = [], co_equivocations = [], co_state = Prevoting,
      co_best_prevote_target = None, co_best_precommit_target = None\<rparr>"

definition vote_target :: "finality_vote \<Rightarrow> target" where
  "vote_target v = (fv_target_number v, fv_target_hash v)"

definition push_vote :: "target \<Rightarrow> finality_vote \<Rightarrow> votes_by_target \<Rightarrow> votes_by_target" where
  "push_vote t v m = hm_insert t ((case hm_get m t of Some vs \<Rightarrow> vs | None \<Rightarrow> []) @ [v]) m"

definition count_for :: "votes_by_target \<Rightarrow> target \<Rightarrow> nat" where
  "count_for m t = (case hm_get m t of Some vs \<Rightarrow> length vs | None \<Rightarrow> 0)"

definition find_vote :: "votes_by_target \<Rightarrow> target \<Rightarrow> account_id \<Rightarrow> finality_vote option" where
  "find_vote m t voter = (case hm_get m t of Some vs \<Rightarrow> find (\<lambda>v. fv_voter v = voter) vs | None \<Rightarrow> None)"

fun best_step :: "(target \<times> nat) option \<Rightarrow> target \<times> finality_vote list \<Rightarrow> (target \<times> nat) option" where
  "best_step None (t, vs) = Some (t, length vs)"
| "best_step (Some (best_target, best_count)) (t, vs) =
     (if best_count < length vs then Some (t, length vs)
      else if length vs = best_count then (if fst best_target < fst t then Some (t, length vs) else Some (best_target, best_count))
      else Some (best_target, best_count))"

definition find_best :: "(votes_by_target \<Rightarrow> votes_by_target) \<Rightarrow> votes_by_target \<Rightarrow> target option" where
  "find_best iter m = map_option fst (foldl best_step None (iter m))"

definition check_prevote_threshold :: "vote_collector \<Rightarrow> vote_collector" where
  "check_prevote_threshold c =
     (if co_state c \<noteq> Prevoting then c
      else case co_best_prevote_target c of
             Some t \<Rightarrow> if has_supermajority (count_for (co_prevotes c) t) (length (co_validators c))
                       then c\<lparr>co_state := Precommitting\<rparr> else c
           | None \<Rightarrow> c)"

definition check_precommit_threshold :: "vote_collector \<Rightarrow> vote_collector" where
  "check_precommit_threshold c =
     (if co_state c \<noteq> Precommitting then c
      else case co_best_precommit_target c of
             Some t \<Rightarrow> if has_supermajority (count_for (co_precommits c) t) (length (co_validators c))
                       then c\<lparr>co_state := Completed\<rparr> else c
           | None \<Rightarrow> c)"

definition report_equivocation :: "finality_vote \<Rightarrow> finality_vote \<Rightarrow> vote_collector \<Rightarrow> vote_collector" where
  "report_equivocation old v c =
     c\<lparr>co_equivocations := co_equivocations c @
         [\<lparr>eq_validator = fv_voter v, eq_vote1 = old, eq_vote2 = v, eq_round = co_round c, eq_epoch = co_epoch c\<rparr>]\<rparr>"

definition add_prevote ::
  "(votes_by_target \<Rightarrow> votes_by_target) \<Rightarrow> finality_vote \<Rightarrow> vote_collector \<Rightarrow> (vote_error, bool) result \<times> vote_collector" where
  "add_prevote iter v c =
     (let t = vote_target v; voter = fv_voter v
      in case hm_get (co_prevoted c) voter of
           Some existing_target \<Rightarrow>
             (if existing_target \<noteq> t
              then case find_vote (co_prevotes c) existing_target voter of
                     Some existing \<Rightarrow> (Err (Equivocation voter), report_equivocation existing v c)
                   | None \<Rightarrow> (Ok False, c)
              else (Ok False, c))
         | None \<Rightarrow>
             (let c1 = c\<lparr>co_prevoted := hm_insert voter t (co_prevoted c), co_prevotes := push_vote t v (co_prevotes c)\<rparr>;
                  c2 = c1\<lparr>co_best_prevote_target := find_best iter (co_prevotes c1)\<rparr>
              in (Ok True, check_prevote_threshold c2)))"

definition add_precommit ::
  "(votes_by_target \<Rightarrow> votes_by_target) \<Rightarrow> finality_vote \<Rightarrow> vote_collector \<Rightarrow> (vote_error, bool) result \<times> vote_collector" where
  "add_precommit iter v c =
     (let t = vote_target v; voter = fv_voter v
      in case hm_get (co_precommitted c) voter of
           Some existing_target \<Rightarrow>
             (if existing_target \<noteq> t
              then case find_vote (co_precommits c) existing_target voter of
                     Some existing \<Rightarrow> (Err (Equivocation voter), report_equivocation existing v c)
                   | None \<Rightarrow> (Ok False, c)
              else (Ok False, c))
         | None \<Rightarrow>
             (let c1 = c\<lparr>co_precommitted := hm_insert voter t (co_precommitted c), co_precommits := push_vote t v (co_precommits c)\<rparr>;
                  c2 = c1\<lparr>co_best_precommit_target := find_best iter (co_precommits c1)\<rparr>
              in (Ok True, check_precommit_threshold c2)))"

definition collector_add_vote ::
  "crypto \<Rightarrow> (votes_by_target \<Rightarrow> votes_by_target) \<Rightarrow> finality_vote \<Rightarrow> vote_collector \<Rightarrow> (vote_error, bool) result \<times> vote_collector" where
  "collector_add_vote K iter v c =
     (if fv_epoch v \<noteq> co_epoch c \<or> fv_round v \<noteq> co_round c
      then (Err (WrongRound (co_epoch c) (co_round c) (fv_epoch v) (fv_round v)), c)
      else if fv_voter v \<notin> set (co_validators c) then (Err (NotValidator (fv_voter v)), c)
      else if fv_vote_type v = Precommit \<and> co_state c = Prevoting then (Err NotInPrecommitPhase, c)
      else if \<not> vote_verify K v then (Err (VoteInvalidSignature (fv_voter v)), c)
      else case fv_vote_type v of Prevote \<Rightarrow> add_prevote iter v c | Precommit \<Rightarrow> add_precommit iter v c)"

definition collector_finalized_target :: "vote_collector \<Rightarrow> target option" where
  "collector_finalized_target c = (if co_state c = Completed then co_best_precommit_target c else None)"

definition precommits_for_best :: "vote_collector \<Rightarrow> finality_vote list" where
  "precommits_for_best c =
     (case co_best_precommit_target c of
        Some t \<Rightarrow> (case hm_get (co_precommits c) t of Some vs \<Rightarrow> vs | None \<Rightarrow> [])
      | None \<Rightarrow> [])"

definition prevotes_for_best :: "vote_collector \<Rightarrow> finality_vote list" where
  "prevotes_for_best c =
     (case co_best_prevote_target c of
        Some t \<Rightarrow> (case hm_get (co_prevotes c) t of Some vs \<Rightarrow> vs | None \<Rightarrow> [])
      | None \<Rightarrow> [])"

definition collector_all_votes :: "(votes_by_target \<Rightarrow> votes_by_target) \<Rightarrow> vote_collector \<Rightarrow> finality_vote list" where
  "collector_all_votes iter c = concat (map snd (iter (co_prevotes c))) @ concat (map snd (iter (co_precommits c)))"

definition collector_mark_failed :: "vote_collector \<Rightarrow> vote_collector" where
  "collector_mark_failed c = (if co_state c \<noteq> Completed then c\<lparr>co_state := Failed\<rparr> else c)"

definition collector_is_done :: "vote_collector \<Rightarrow> bool" where
  "collector_is_done c = (co_state c = Completed \<or> co_state c = Failed)"

section \<open>The best target\<close>

definition iteration :: "(votes_by_target \<Rightarrow> votes_by_target) \<Rightarrow> bool" where
  "iteration iter = (\<forall>m. set (iter m) = set m)"

lemma best_step_Some:
  "\<exists>t0 n0. best_step b (t, vs) = Some (t0, n0) \<and> length vs \<le> n0 \<and> (b = Some (t0, n0) \<or> (t0, n0) = (t, length vs))
     \<and> (\<forall>t' n'. b = Some (t', n') \<longrightarrow> n' \<le> n0)"
  by (cases t; cases "(b, (t, vs))" rule: best_step.cases) auto

lemma best_step_foldl:
  "foldl best_step b xs = r \<Longrightarrow>
     (r = None \<longleftrightarrow> b = None \<and> xs = [])
   \<and> (\<forall>t n. r = Some (t, n) \<longrightarrow> (b = Some (t, n) \<or> (\<exists>vs. (t, vs) \<in> set xs \<and> n = length vs))
        \<and> (\<forall>(t', vs) \<in> set xs. length vs \<le> n) \<and> (\<forall>t' n'. b = Some (t', n') \<longrightarrow> n' \<le> n))"
proof (induction xs arbitrary: b)
  case Nil
  then show ?case by auto
next
  case (Cons x xs)
  obtain t vs where x: "x = (t, vs)" by (cases x)
  define b' where "b' = best_step b x"
  obtain t0 n0 where b': "b' = Some (t0, n0)" "length vs \<le> n0" "b = Some (t0, n0) \<or> (t0, n0) = (t, length vs)"
    "\<And>t' n'. b = Some (t', n') \<Longrightarrow> n' \<le> n0"
    using best_step_Some [of b t vs] by (auto simp: b'_def x)
  have r: "foldl best_step b' xs = r" using Cons.prems by (simp add: b'_def)
  show ?case
    using Cons.IH [OF r] b' by (fastforce simp: x)
qed

lemma find_best_Some:
  assumes "iteration iter" and "hm_inv m" and "find_best iter m = Some t"
  shows "\<exists>vs. hm_get m t = Some vs \<and> (\<forall>t'. count_for m t' \<le> length vs)"
proof -
  obtain n where r: "foldl best_step None (iter m) = Some (t, n)"
    using assms(3) by (auto simp: find_best_def)
  note B = best_step_foldl [OF r]
  have it: "set (iter m) = set m" using assms(1) by (simp add: iteration_def)
  obtain vs where vs: "(t, vs) \<in> set m" "n = length vs" using B it by auto
  have "hm_get m t = Some vs" using vs(1) assms(2) by (simp add: hm_inv_def)
  moreover have "count_for m t' \<le> length vs" for t'
    using B it vs(2) by (auto simp: count_for_def split: option.splits dest!: map_of_SomeD)
  ultimately show ?thesis by blast
qed

lemma find_best_total:
  assumes "iteration iter" and "m \<noteq> []"
  shows "\<exists>t. find_best iter m = Some t"
proof -
  have "iter m \<noteq> []" using assms by (metis iteration_def set_empty)
  then show ?thesis using best_step_foldl [OF refl, of None "iter m"] by (auto simp: find_best_def)
qed

lemma count_push: "count_for (push_vote t v m) t' = (if t' = t then Suc (count_for m t) else count_for m t')"
  by (auto simp: count_for_def push_vote_def update_conv' split: option.splits)

lemma supermajority_mono: "has_supermajority a n \<Longrightarrow> a \<le> b \<Longrightarrow> has_supermajority b n"
  by (auto simp: has_supermajority_def split: if_splits)

section \<open>The invariant of a collector\<close>

definition vote_ok :: "crypto \<Rightarrow> vote_type \<Rightarrow> epoch_number \<Rightarrow> u32 \<Rightarrow> account_id list \<Rightarrow> finality_vote \<Rightarrow> bool" where
  "vote_ok K ty ep rd vals v =
     (vote_verify K v \<and> fv_vote_type v = ty \<and> fv_epoch v = ep \<and> fv_round v = rd \<and> fv_voter v \<in> set vals)"

definition votes_ok ::
  "crypto \<Rightarrow> vote_type \<Rightarrow> epoch_number \<Rightarrow> u32 \<Rightarrow> account_id list \<Rightarrow> votes_by_target \<Rightarrow> (account_id, target) hmap \<Rightarrow> bool" where
  "votes_ok K ty ep rd vals m voted =
     (hm_inv m
    \<and> (\<forall>t vs. hm_get m t = Some vs \<longrightarrow> distinct (map fv_voter vs)
         \<and> (\<forall>v \<in> set vs. vote_ok K ty ep rd vals v \<and> vote_target v = t \<and> hm_get voted (fv_voter v) = Some t))
    \<and> (\<forall>i t. hm_get voted i = Some t \<longrightarrow> find_vote m t i \<noteq> None))"

definition proof_ok :: "crypto \<Rightarrow> equivocation_proof \<Rightarrow> bool" where
  "proof_ok K p =
     (fv_voter (eq_vote1 p) = eq_validator p \<and> fv_voter (eq_vote2 p) = eq_validator p
    \<and> vote_target (eq_vote1 p) \<noteq> vote_target (eq_vote2 p)
    \<and> (fv_target_hash (eq_vote1 p) \<noteq> fv_target_hash (eq_vote2 p) \<longrightarrow> equivocation_is_valid K p))"

definition collector_ok :: "crypto \<Rightarrow> vote_collector \<Rightarrow> bool" where
  "collector_ok K c =
     (distinct (co_validators c)
    \<and> votes_ok K Prevote (co_epoch c) (co_round c) (co_validators c) (co_prevotes c) (co_prevoted c)
    \<and> votes_ok K Precommit (co_epoch c) (co_round c) (co_validators c) (co_precommits c) (co_precommitted c)
    \<and> (\<forall>p \<in> set (co_equivocations c). proof_ok K p)
    \<and> (co_state c \<in> {Precommitting, Completed} \<longrightarrow>
         (\<exists>t. co_best_prevote_target c = Some t \<and> has_supermajority (count_for (co_prevotes c) t) (length (co_validators c))))
    \<and> (co_state c = Completed \<longrightarrow>
         (\<exists>t. co_best_precommit_target c = Some t \<and> has_supermajority (count_for (co_precommits c) t) (length (co_validators c)))))"

lemma collector_new_ok: "distinct vals \<Longrightarrow> collector_ok K (collector_new e r vals)"
  by (simp add: collector_ok_def collector_new_def votes_ok_def)

lemma find_vote_Some: "find_vote m t i = Some v \<Longrightarrow> \<exists>vs. hm_get m t = Some vs \<and> v \<in> set vs \<and> fv_voter v = i"
  by (auto simp: find_vote_def find_Some_iff split: option.splits)

lemma find_vote_ex: "find_vote m t i \<noteq> None \<longleftrightarrow> (\<exists>vs. hm_get m t = Some vs \<and> i \<in> fv_voter ` set vs)"
proof -
  have "find P xs \<noteq> None \<longleftrightarrow> (\<exists>x \<in> set xs. P x)" for P and xs :: "finality_vote list"
    by (induction xs) auto
  then show ?thesis by (cases "hm_get m t") (auto simp: find_vote_def image_iff simp del: not_None_eq)
qed

lemma find_vote_push: "find_vote m t' i \<noteq> None \<or> (t' = t \<and> i = fv_voter v) \<Longrightarrow> find_vote (push_vote t v m) t' i \<noteq> None"
  unfolding find_vote_ex by (auto simp: push_vote_def update_conv')

lemma votes_ok_get:
  assumes "votes_ok K ty ep rd vals m voted" and "hm_get m t = Some vs"
  shows "distinct (map fv_voter vs)"
    and "v \<in> set vs \<Longrightarrow> vote_ok K ty ep rd vals v \<and> vote_target v = t \<and> hm_get voted (fv_voter v) = Some t"
  using assms unfolding votes_ok_def by blast+

lemma votes_ok_push:
  assumes "votes_ok K ty ep rd vals m voted" and "hm_get voted (fv_voter v) = None" and "vote_ok K ty ep rd vals v"
  shows "votes_ok K ty ep rd vals (push_vote (vote_target v) v m) (hm_insert (fv_voter v) (vote_target v) voted)"
proof -
  let ?t = "vote_target v" and ?i = "fv_voter v"
  have inv: "hm_inv (push_vote ?t v m)"
    using assms(1) by (simp add: push_vote_def votes_ok_def hm.inv_put)
  have fresh: "?i \<notin> fv_voter ` set vs" if "hm_get m t = Some vs" for t vs
    using votes_ok_get(2) [OF assms(1) that] assms(2) by fastforce
  have m: "distinct (map fv_voter vs) \<and> (\<forall>w \<in> set vs. vote_ok K ty ep rd vals w \<and> vote_target w = t
      \<and> hm_get (hm_insert ?i ?t voted) (fv_voter w) = Some t)"
    if g: "hm_get (push_vote ?t v m) t = Some vs" for t vs
  proof (cases "t = ?t")
    case True
    define old where "old = (case hm_get m ?t of Some vs \<Rightarrow> vs | None \<Rightarrow> [])"
    have vs: "vs = old @ [v]" using g True by (simp add: push_vote_def update_conv' old_def)
    have "distinct (map fv_voter old) \<and> ?i \<notin> fv_voter ` set old
        \<and> (\<forall>w \<in> set old. vote_ok K ty ep rd vals w \<and> vote_target w = ?t \<and> hm_get voted (fv_voter w) = Some ?t)"
      using votes_ok_get [OF assms(1)] fresh by (cases "hm_get m ?t") (simp_all add: old_def)
    then show ?thesis using True assms(3) by (auto simp: vs update_conv')
  next
    case False
    then have "hm_get m t = Some vs" using g by (simp add: push_vote_def update_conv')
    moreover from this have "\<forall>w \<in> set vs. fv_voter w \<noteq> ?i" using fresh [of t vs] by (metis imageI)
    ultimately show ?thesis using votes_ok_get [OF assms(1)] by (simp add: update_conv')
  qed
  have voted: "find_vote m t i \<noteq> None" if "hm_get voted i = Some t" for i t
    using that assms(1) unfolding votes_ok_def by blast
  have "find_vote (push_vote ?t v m) t i \<noteq> None" if "hm_get (hm_insert ?i ?t voted) i = Some t" for i t
  proof (cases "i = ?i")
    case True
    then show ?thesis using that by (intro find_vote_push) (simp add: update_conv')
  next
    case False
    then have "hm_get voted i = Some t" using that by (simp add: update_conv')
    then show ?thesis using voted find_vote_push by blast
  qed
  with inv m show ?thesis unfolding votes_ok_def by blast
qed

lemma proof_ok_report:
  assumes "collector_ok K c" and "vote_ok K ty (co_epoch c) (co_round c) (co_validators c) v"
    and "vote_ok K ty (co_epoch c) (co_round c) (co_validators c) old" and "fv_voter old = fv_voter v"
    and "vote_target old \<noteq> vote_target v"
  shows "collector_ok K (report_equivocation old v c)"
  using assms by (auto simp: collector_ok_def report_equivocation_def proof_ok_def equivocation_is_valid_def vote_ok_def)

text \<open>A supermajority of the best target survives one more vote.\<close>

lemma best_after_push:
  assumes "iteration iter" and "hm_inv (push_vote t v m)"
  obtains b where "find_best iter (push_vote t v m) = Some b"
    "\<And>t'. count_for m t' \<le> count_for (push_vote t v m) b"
proof -
  have "push_vote t v m \<noteq> []" unfolding push_vote_def by (metis map_of.simps(1) option.distinct(1) update_Some_unfold)
  then obtain b where b: "find_best iter (push_vote t v m) = Some b" using find_best_total [OF assms(1)] by blast
  obtain vs where "hm_get (push_vote t v m) b = Some vs" "\<And>t'. count_for (push_vote t v m) t' \<le> length vs"
    using find_best_Some [OF assms b] by blast
  moreover have "count_for m t' \<le> count_for (push_vote t v m) t'" for t' by (simp add: count_push)
  ultimately have "count_for m t' \<le> count_for (push_vote t v m) b" for t'
    by (metis count_for_def le_trans option.case(2))
  with b that show ?thesis by blast
qed

lemma check_threshold_ok:
  "collector_ok K c \<Longrightarrow> collector_ok K (check_prevote_threshold c)"
  "collector_ok K c \<Longrightarrow> collector_ok K (check_precommit_threshold c)"
  by (simp_all add: collector_ok_def check_prevote_threshold_def check_precommit_threshold_def split: option.split)

lemma add_prevote_ok:
  assumes it: "iteration iter" and ok: "collector_ok K c"
    and v: "vote_ok K Prevote (co_epoch c) (co_round c) (co_validators c) v" and run: "add_prevote iter v c = (r, c')"
  shows "collector_ok K c'"
proof (cases "hm_get (co_prevoted c) (fv_voter v)")
  case (Some t)
  show ?thesis
  proof (cases "t \<noteq> vote_target v \<and> find_vote (co_prevotes c) t (fv_voter v) \<noteq> None")
    case True
    then obtain old where old: "find_vote (co_prevotes c) t (fv_voter v) = Some old" by auto
    then obtain vs where "hm_get (co_prevotes c) t = Some vs" "old \<in> set vs" "fv_voter old = fv_voter v"
      using find_vote_Some by blast
    then have "vote_ok K Prevote (co_epoch c) (co_round c) (co_validators c) old \<and> vote_target old = t"
      using ok votes_ok_get(2) unfolding collector_ok_def by blast
    then show ?thesis
      using run Some True old proof_ok_report [OF ok v, of old] \<open>fv_voter old = fv_voter v\<close>
      by (auto simp: add_prevote_def Let_def)
  next
    case False
    then show ?thesis using run Some ok by (auto simp: add_prevote_def Let_def split: option.splits if_splits)
  qed
next
  case None
  define m where "m = push_vote (vote_target v) v (co_prevotes c)"
  have m: "votes_ok K Prevote (co_epoch c) (co_round c) (co_validators c) m (hm_insert (fv_voter v) (vote_target v) (co_prevoted c))"
    unfolding m_def using ok None v by (intro votes_ok_push) (simp_all add: collector_ok_def)
  obtain b where b: "find_best iter m = Some b" "\<And>t'. count_for (co_prevotes c) t' \<le> count_for m b"
    using best_after_push [OF it] m unfolding m_def votes_ok_def by metis
  define c1 where "c1 = c\<lparr>co_prevoted := hm_insert (fv_voter v) (vote_target v) (co_prevoted c),
      co_prevotes := m, co_best_prevote_target := Some b\<rparr>"
  have c': "c' = check_prevote_threshold c1"
    using run None by (simp add: add_prevote_def Let_def c1_def m_def b(1) [unfolded m_def])
  have "has_supermajority (count_for m b) (length (co_validators c))"
    if "has_supermajority (count_for (co_prevotes c) t) (length (co_validators c))" for t
    using supermajority_mono [OF that b(2)] .
  then have "collector_ok K c1"
    using ok m unfolding collector_ok_def c1_def by simp blast
  then show ?thesis unfolding c' by (rule check_threshold_ok)
qed

lemma add_precommit_ok:
  assumes it: "iteration iter" and ok: "collector_ok K c"
    and v: "vote_ok K Precommit (co_epoch c) (co_round c) (co_validators c) v" and run: "add_precommit iter v c = (r, c')"
  shows "collector_ok K c'"
proof (cases "hm_get (co_precommitted c) (fv_voter v)")
  case (Some t)
  show ?thesis
  proof (cases "t \<noteq> vote_target v \<and> find_vote (co_precommits c) t (fv_voter v) \<noteq> None")
    case True
    then obtain old where old: "find_vote (co_precommits c) t (fv_voter v) = Some old" by auto
    then obtain vs where "hm_get (co_precommits c) t = Some vs" "old \<in> set vs" "fv_voter old = fv_voter v"
      using find_vote_Some by blast
    then have "vote_ok K Precommit (co_epoch c) (co_round c) (co_validators c) old \<and> vote_target old = t"
      using ok votes_ok_get(2) unfolding collector_ok_def by blast
    then show ?thesis
      using run Some True old proof_ok_report [OF ok v, of old] \<open>fv_voter old = fv_voter v\<close>
      by (auto simp: add_precommit_def Let_def)
  next
    case False
    then show ?thesis using run Some ok by (auto simp: add_precommit_def Let_def split: option.splits if_splits)
  qed
next
  case None
  define m where "m = push_vote (vote_target v) v (co_precommits c)"
  have m: "votes_ok K Precommit (co_epoch c) (co_round c) (co_validators c) m (hm_insert (fv_voter v) (vote_target v) (co_precommitted c))"
    unfolding m_def using ok None v by (intro votes_ok_push) (simp_all add: collector_ok_def)
  obtain b where b: "find_best iter m = Some b" "\<And>t'. count_for (co_precommits c) t' \<le> count_for m b"
    using best_after_push [OF it] m unfolding m_def votes_ok_def by metis
  define c1 where "c1 = c\<lparr>co_precommitted := hm_insert (fv_voter v) (vote_target v) (co_precommitted c),
      co_precommits := m, co_best_precommit_target := Some b\<rparr>"
  have c': "c' = check_precommit_threshold c1"
    using run None by (simp add: add_precommit_def Let_def c1_def m_def b(1) [unfolded m_def])
  have "has_supermajority (count_for m b) (length (co_validators c))"
    if "has_supermajority (count_for (co_precommits c) t) (length (co_validators c))" for t
    using supermajority_mono [OF that b(2)] .
  then have "collector_ok K c1"
    using ok m unfolding collector_ok_def c1_def by simp blast
  then show ?thesis unfolding c' by (rule check_threshold_ok)
qed

lemma collector_add_vote_ok:
  assumes "iteration iter" and "collector_ok K c" and "collector_add_vote K iter v c = (r, c')"
  shows "collector_ok K c'"
proof (cases "fv_epoch v \<noteq> co_epoch c \<or> fv_round v \<noteq> co_round c \<or> fv_voter v \<notin> set (co_validators c)
    \<or> (fv_vote_type v = Precommit \<and> co_state c = Prevoting) \<or> \<not> vote_verify K v")
  case True
  then show ?thesis using assms(2,3) by (auto simp: collector_add_vote_def split: if_splits)
next
  case False
  then have "vote_ok K (fv_vote_type v) (co_epoch c) (co_round c) (co_validators c) v" by (simp add: vote_ok_def)
  then show ?thesis
    using False assms add_prevote_ok [OF assms(1,2)] add_precommit_ok [OF assms(1,2)]
    by (cases "fv_vote_type v") (auto simp: collector_add_vote_def)
qed

lemma collector_mark_failed_ok: "collector_ok K c \<Longrightarrow> collector_ok K (collector_mark_failed c)"
  by (auto simp: collector_ok_def collector_mark_failed_def)

lemma collector_add_vote_fixed:
  "collector_add_vote K iter v c = (r, c') \<Longrightarrow>
     co_epoch c' = co_epoch c \<and> co_round c' = co_round c \<and> co_validators c' = co_validators c"
  by (auto simp: collector_add_vote_def add_prevote_def add_precommit_def check_prevote_threshold_def
      check_precommit_threshold_def report_equivocation_def Let_def split: if_splits option.splits vote_type.splits)

section \<open>Safety of a round\<close>

text \<open>A node's collector after it was offered a list of votes.\<close>

definition collect :: "crypto \<Rightarrow> (votes_by_target \<Rightarrow> votes_by_target) \<Rightarrow> finality_vote list \<Rightarrow> vote_collector \<Rightarrow> vote_collector" where
  "collect K iter vs c = foldl (\<lambda>c v. snd (collector_add_vote K iter v c)) c vs"

lemma collect_ok:
  assumes "iteration iter" and "collector_ok K c"
  shows "collector_ok K (collect K iter vs c) \<and> co_epoch (collect K iter vs c) = co_epoch c
       \<and> co_round (collect K iter vs c) = co_round c \<and> co_validators (collect K iter vs c) = co_validators c"
  unfolding collect_def using assms(2)
proof (induction vs arbitrary: c)
  case Nil
  then show ?case by simp
next
  case (Cons v vs)
  obtain r c' where c': "collector_add_vote K iter v c = (r, c')" by fastforce
  show ?case
    using Cons.IH [of c'] collector_add_vote_ok [OF assms(1) Cons.prems c'] collector_add_vote_fixed [OF c'] c' by simp
qed

text \<open>The validators whose precommit for a target the collector holds.\<close>

definition precommitters :: "vote_collector \<Rightarrow> target \<Rightarrow> account_id set" where
  "precommitters c t = (case hm_get (co_precommits c) t of Some vs \<Rightarrow> fv_voter ` set vs | None \<Rightarrow> {})"

lemma precommitters_ok:
  assumes "collector_ok K c"
  shows "precommitters c t \<subseteq> set (co_validators c)" and "card (precommitters c t) = count_for (co_precommits c) t"
    and "i \<in> precommitters c t \<Longrightarrow> \<exists>v. vote_ok K Precommit (co_epoch c) (co_round c) (co_validators c) v
           \<and> fv_voter v = i \<and> vote_target v = t"
proof -
  have ok: "votes_ok K Precommit (co_epoch c) (co_round c) (co_validators c) (co_precommits c) (co_precommitted c)"
    using assms by (simp add: collector_ok_def)
  show "precommitters c t \<subseteq> set (co_validators c)"
    using votes_ok_get(2) [OF ok] by (fastforce simp: precommitters_def vote_ok_def split: option.splits)
  show "card (precommitters c t) = count_for (co_precommits c) t"
    using votes_ok_get(1) [OF ok, of t]
    by (simp add: precommitters_def count_for_def split: option.splits)
      (metis distinct_card length_map list.set_map)
  show "\<exists>v. vote_ok K Precommit (co_epoch c) (co_round c) (co_validators c) v \<and> fv_voter v = i \<and> vote_target v = t"
    if i: "i \<in> precommitters c t"
  proof -
    obtain vs v where "hm_get (co_precommits c) t = Some vs" "v \<in> set vs" "fv_voter v = i"
      using i by (auto simp: precommitters_def split: option.splits)
    then show ?thesis using votes_ok_get(2) [OF ok] by blast
  qed
qed

text \<open>Two quorums of at least 66 in 100 share at least 32 in 100.\<close>

lemma quorum_intersection:
  assumes "A \<subseteq> set vals" and "B \<subseteq> set vals" and "distinct vals"
    and "has_supermajority (card A) (length vals)" and "has_supermajority (card B) (length vals)"
  shows "32 * length vals \<le> 100 * card (A \<inter> B)"
proof -
  have fin: "finite A" "finite B" using assms(1,2) by (auto intro: finite_subset)
  have "card (A \<union> B) \<le> length vals"
    using assms(1,2) distinct_card [OF assms(3)] card_mono [of "set vals" "A \<union> B"] by simp
  moreover have "card A + card B = card (A \<union> B) + card (A \<inter> B)" by (rule card_Un_Int [OF fin])
  ultimately show ?thesis using assms(4,5) by (simp add: has_supermajority_def SUPERMAJORITY_THRESHOLD_def split: if_splits)
qed

lemma finalized_quorum:
  assumes "collector_ok K c" and "collector_finalized_target c = Some t"
  shows "has_supermajority (card (precommitters c t)) (length (co_validators c))"
  using assms precommitters_ok(2) [OF assms(1), of t]
  by (auto simp: collector_ok_def collector_finalized_target_def split: if_splits)

text \<open>
  C6: finality is accountable: when two nodes finalize different blocks in the same round of the same
  epoch, from whatever votes they received and in whatever order, at least 32 percent of the
  validators have signed valid precommits for both blocks.
\<close>

theorem finality_accountable:
  assumes "iteration iter1" and "iteration iter2" and "distinct vals"
    and "collector_finalized_target (collect K iter1 votes1 (collector_new e r vals)) = Some t1"
    and "collector_finalized_target (collect K iter2 votes2 (collector_new e r vals)) = Some t2"
    and "t1 \<noteq> t2"
  shows "\<exists>Q \<subseteq> set vals. 32 * length vals \<le> 100 * card Q
       \<and> (\<forall>i \<in> Q. \<exists>v1 v2. vote_verify K v1 \<and> vote_verify K v2 \<and> fv_voter v1 = i \<and> fv_voter v2 = i
            \<and> fv_vote_type v1 = Precommit \<and> fv_vote_type v2 = Precommit \<and> fv_epoch v1 = e \<and> fv_epoch v2 = e
            \<and> fv_round v1 = r \<and> fv_round v2 = r \<and> vote_target v1 = t1 \<and> vote_target v2 = t2)"
proof -
  define c1 c2 where "c1 = collect K iter1 votes1 (collector_new e r vals)"
    and "c2 = collect K iter2 votes2 (collector_new e r vals)"
  have c1: "collector_ok K c1" "co_epoch c1 = e" "co_round c1 = r" "co_validators c1 = vals"
    using collect_ok [OF assms(1) collector_new_ok [OF assms(3)]] by (auto simp: c1_def collector_new_def)
  have c2: "collector_ok K c2" "co_epoch c2 = e" "co_round c2 = r" "co_validators c2 = vals"
    using collect_ok [OF assms(2) collector_new_ok [OF assms(3)]] by (auto simp: c2_def collector_new_def)
  let ?Q = "precommitters c1 t1 \<inter> precommitters c2 t2"
  have "32 * length vals \<le> 100 * card ?Q"
    using quorum_intersection [OF precommitters_ok(1) [OF c1(1), of t1] precommitters_ok(1) [OF c2(1), of t2, unfolded c2(4), folded c1(4)]]
      finalized_quorum [OF c1(1)] finalized_quorum [OF c2(1)] assms(3-5) c1(4) c2(4) by (simp add: c1_def c2_def)
  moreover have "?Q \<subseteq> set vals" using precommitters_ok(1) [OF c1(1), of t1] c1(4) by auto
  moreover have "\<exists>v1 v2. vote_verify K v1 \<and> vote_verify K v2 \<and> fv_voter v1 = i \<and> fv_voter v2 = i
            \<and> fv_vote_type v1 = Precommit \<and> fv_vote_type v2 = Precommit \<and> fv_epoch v1 = e \<and> fv_epoch v2 = e
            \<and> fv_round v1 = r \<and> fv_round v2 = r \<and> vote_target v1 = t1 \<and> vote_target v2 = t2" if "i \<in> ?Q" for i
    using that precommitters_ok(3) [OF c1(1), of i t1] precommitters_ok(3) [OF c2(1), of i t2] c1 c2
    by (simp add: vote_ok_def) blast
  ultimately show ?thesis by blast
qed

definition demo_vote :: "vote_type \<Rightarrow> account_id \<Rightarrow> hash \<Rightarrow> finality_vote" where
  "demo_vote ty i h = (vote_new 0 ty 5 h 0 0 i)\<lparr>fv_signature := 1\<rparr>"

definition demo_votes :: "account_id \<Rightarrow> account_id \<Rightarrow> hash \<Rightarrow> finality_vote list" where
  "demo_votes i j h = [demo_vote Prevote i h, demo_vote Prevote j h, demo_vote Precommit i h, demo_vote Precommit j h]"

lemma demo_vote_verifies: "vote_verify demo_crypto (demo_vote ty i h)"
  by (simp add: vote_verify_def demo_vote_def vote_new_def account_verify_def demo_crypto_def)

lemmas collector_eval =
  collect_def demo_votes_def collector_add_vote_def demo_vote_verifies add_prevote_def add_precommit_def
  push_vote_def find_best_def check_prevote_threshold_def check_precommit_threshold_def count_for_def
  has_supermajority_def SUPERMAJORITY_THRESHOLD_def collector_finalized_target_def collector_new_def Let_def

lemma demo_vote_sel [simp]:
  "fv_epoch (demo_vote ty i h) = 0" "fv_round (demo_vote ty i h) = 0" "fv_voter (demo_vote ty i h) = i"
  "fv_vote_type (demo_vote ty i h) = ty" "vote_target (demo_vote ty i h) = (5, h)"
  by (simp_all add: demo_vote_def vote_new_def vote_target_def)

lemma demo_round_completes:
  "collector_finalized_target (collect demo_crypto (\<lambda>m. m) (demo_votes 1 2 h) (collector_new 0 0 [1, 2, 3])) = Some (5, h)"
  "collector_finalized_target (collect demo_crypto (\<lambda>m. m) (demo_votes 2 3 h) (collector_new 0 0 [1, 2, 3])) = Some (5, h)"
  by (simp_all add: collector_eval)

theorem finality_accountable_witness:
  "\<exists>Q \<subseteq> set [1, 2, 3 :: account_id]. 32 * length [1, 2, 3 :: account_id] \<le> 100 * card Q
     \<and> (\<forall>i \<in> Q. \<exists>v1 v2. vote_verify demo_crypto v1 \<and> vote_verify demo_crypto v2 \<and> fv_voter v1 = i \<and> fv_voter v2 = i
          \<and> fv_vote_type v1 = Precommit \<and> fv_vote_type v2 = Precommit \<and> fv_epoch v1 = 0 \<and> fv_epoch v2 = 0
          \<and> fv_round v1 = 0 \<and> fv_round v2 = 0 \<and> vote_target v1 = (5, 7) \<and> vote_target v2 = (5, 8))"
  by (rule finality_accountable [where ?iter1.0 = "\<lambda>m. m" and ?iter2.0 = "\<lambda>m. m"
        and ?votes1.0 = "demo_votes 1 2 7" and ?votes2.0 = "demo_votes 2 3 8"])
    (simp_all add: iteration_def demo_round_completes)

text \<open>
  The threshold of 66 percent is below two thirds: 33 of 50 validators are enough to finalize
  while \<open>supermajority_threshold\<close> asks for 34, and two sets of 33 may share only 16, which is
  less than a third of 50.
\<close>

lemma supermajority_below_two_thirds:
  "has_supermajority 33 50 \<and> 33 < supermajority_threshold 50"
  "\<exists>A B :: nat set. A \<subseteq> {..<50} \<and> B \<subseteq> {..<50} \<and> has_supermajority (card A) 50 \<and> has_supermajority (card B) 50
     \<and> 3 * card (A \<inter> B) < 50"
proof -
  show "has_supermajority 33 50 \<and> 33 < supermajority_threshold 50"
    by (simp add: has_supermajority_def SUPERMAJORITY_THRESHOLD_def supermajority_threshold_def)
  have "{..<33} \<inter> {17..<50} = {17..<33 :: nat}" by (rule set_eqI) (simp, arith)
  then show "\<exists>A B :: nat set. A \<subseteq> {..<50} \<and> B \<subseteq> {..<50} \<and> has_supermajority (card A) 50 \<and> has_supermajority (card B) 50
     \<and> 3 * card (A \<inter> B) < 50"
    by (intro exI [of _ "{..<33}"] exI [of _ "{17..<50}"])
      (simp add: has_supermajority_def SUPERMAJORITY_THRESHOLD_def ivl_subset subset_iff)
qed

text \<open>In one collector a second block never overtakes a finalized one.\<close>

lemma one_quorum_per_collector:
  assumes "collector_ok K c" and "has_supermajority (count_for (co_precommits c) t1) (length (co_validators c))"
    and "has_supermajority (count_for (co_precommits c) t2) (length (co_validators c))"
  shows "t1 = t2"
proof (rule ccontr)
  assume "t1 \<noteq> t2"
  have ok: "votes_ok K Precommit (co_epoch c) (co_round c) (co_validators c) (co_precommits c) (co_precommitted c)"
    and d: "distinct (co_validators c)" using assms(1) by (simp_all add: collector_ok_def)
  have "hm_get (co_precommitted c) i = Some t" if "i \<in> precommitters c t" for i t
    using that votes_ok_get(2) [OF ok, of t] by (auto simp: precommitters_def split: option.splits)
  then have "precommitters c t1 \<inter> precommitters c t2 = {}" using \<open>t1 \<noteq> t2\<close> by (metis disjoint_iff option.inject)
  moreover have "32 * length (co_validators c) \<le> 100 * card (precommitters c t1 \<inter> precommitters c t2)"
    by (rule quorum_intersection [OF precommitters_ok(1) [OF assms(1)] precommitters_ok(1) [OF assms(1)] d])
      (simp_all add: precommitters_ok(2) [OF assms(1)] assms(2,3))
  moreover have "length (co_validators c) \<noteq> 0" using assms(2) unfolding has_supermajority_def by (metis (full_types))
  ultimately show False by simp
qed

end
