(* ===== verification/Kratos_Finality.thy ===== *)
theory Kratos_Finality
  imports Kratos_Votes
begin

text \<open>
  Finality rounds, the round manager, the gadget that drives them and its integration into the
  node (\<^verbatim>\<open>consensus/finality/rounds.rs\<close>, \<^verbatim>\<open>gadget.rs\<close> and
  \<^verbatim>\<open>node/finality_integration.rs\<close>).

  The signer, the broadcaster and the clocks are outside the module: \<open>finality_env\<close> carries the
  signing function and our identity, a step takes the monotonic time in milliseconds and the
  wall-clock seconds it reads as \<open>now\<close>, and broadcast messages are collected in \<open>fg_sent\<close>.
\<close>

section \<open>One round\<close>

record finality_round =
  rd_collector :: vote_collector
  rd_started_at :: nat
  rd_timeout :: nat
  rd_our_validator :: "account_id option"
  rd_have_prevoted :: bool
  rd_have_precommitted :: bool

record round_summary =
  rs_round :: u32
  rs_epoch :: epoch_number
  rs_state :: round_state
  rs_prevote_count :: nat
  rs_precommit_count :: nat
  rs_target_block :: "target option"
  rs_total_validators :: nat

type_synonym clock = "nat \<times> u64"

definition round_new :: "clock \<Rightarrow> epoch_number \<Rightarrow> u32 \<Rightarrow> account_id list \<Rightarrow> account_id option \<Rightarrow> finality_round" where
  "round_new now epoch round_no validators our_validator =
     \<lparr>rd_collector = collector_new epoch round_no validators, rd_started_at = fst now, rd_timeout = ROUND_TIMEOUT_MS,
      rd_our_validator = our_validator, rd_have_prevoted = False, rd_have_precommitted = False\<rparr>"

definition is_timed_out :: "clock \<Rightarrow> finality_round \<Rightarrow> bool" where
  "is_timed_out now R = (rd_timeout R < fst now - rd_started_at R)"

definition round_is_done :: "clock \<Rightarrow> finality_round \<Rightarrow> bool" where
  "round_is_done now R = (collector_is_done (rd_collector R) \<or> is_timed_out now R)"

definition round_add_vote ::
  "crypto \<Rightarrow> (votes_by_target \<Rightarrow> votes_by_target) \<Rightarrow> finality_vote \<Rightarrow> finality_round \<Rightarrow> (vote_error, bool) result \<times> finality_round" where
  "round_add_vote K iter v R =
     (let (r, c) = collector_add_vote K iter v (rd_collector R) in (r, R\<lparr>rd_collector := c\<rparr>))"

definition create_prevote ::
  "crypto \<Rightarrow> (bytes \<Rightarrow> signature64) \<Rightarrow> clock \<Rightarrow> block_number \<Rightarrow> hash \<Rightarrow> finality_round \<Rightarrow> finality_vote option \<times> finality_round" where
  "create_prevote K sign now target_number target_hash R =
     (case rd_our_validator R of
        None \<Rightarrow> (None, R)
      | Some our_validator \<Rightarrow>
          if rd_have_prevoted R then (None, R)
          else if co_state (rd_collector R) \<noteq> Prevoting then (None, R)
          else let vote = vote_new (snd now) Prevote target_number target_hash (co_round (rd_collector R))
                            (co_epoch (rd_collector R)) our_validator
               in (Some (vote\<lparr>fv_signature := sign (vote_signing_message K vote)\<rparr>), R\<lparr>rd_have_prevoted := True\<rparr>))"

definition create_precommit ::
  "crypto \<Rightarrow> (bytes \<Rightarrow> signature64) \<Rightarrow> clock \<Rightarrow> finality_round \<Rightarrow> finality_vote option \<times> finality_round" where
  "create_precommit K sign now R =
     (case rd_our_validator R of
        None \<Rightarrow> (None, R)
      | Some our_validator \<Rightarrow>
          if rd_have_precommitted R then (None, R)
          else if co_state (rd_collector R) \<noteq> Precommitting then (None, R)
          else case co_best_prevote_target (rd_collector R) of
                 None \<Rightarrow> (None, R)
               | Some (target_number, target_hash) \<Rightarrow>
                   let vote = vote_new (snd now) Precommit target_number target_hash (co_round (rd_collector R))
                                (co_epoch (rd_collector R)) our_validator
                   in (Some (vote\<lparr>fv_signature := sign (vote_signing_message K vote)\<rparr>), R\<lparr>rd_have_precommitted := True\<rparr>))"

definition create_justification :: "finality_round \<Rightarrow> finality_justification option" where
  "create_justification R =
     (if co_state (rd_collector R) \<noteq> Completed then None
      else case collector_finalized_target (rd_collector R) of
             None \<Rightarrow> None
           | Some (block_no, block_h) \<Rightarrow>
               Some \<lparr>fj_block_number = block_no, fj_block_hash = block_h,
                     fj_signatures = map (\<lambda>vote. \<lparr>vg_validator = fv_voter vote, vg_signature = fv_signature vote\<rparr>)
                                       (precommits_for_best (rd_collector R)),
                     fj_epoch = co_epoch (rd_collector R)\<rparr>)"

definition round_summary_of :: "finality_round \<Rightarrow> round_summary" where
  "round_summary_of R =
     (let c = rd_collector R
      in \<lparr>rs_round = co_round c, rs_epoch = co_epoch c, rs_state = co_state c, rs_prevote_count = length (co_prevoted c),
          rs_precommit_count = length (co_precommitted c), rs_target_block = co_best_prevote_target c,
          rs_total_validators = length (co_validators c)\<rparr>)"

definition round_mark_failed :: "finality_round \<Rightarrow> finality_round" where
  "round_mark_failed R = R\<lparr>rd_collector := collector_mark_failed (rd_collector R)\<rparr>"

definition should_precommit :: "finality_round \<Rightarrow> bool" where
  "should_precommit R =
     (co_state (rd_collector R) = Precommitting \<and> \<not> rd_have_precommitted R \<and> rd_our_validator R \<noteq> None)"

section \<open>The round manager\<close>

record round_manager =
  rm_current_epoch :: epoch_number
  rm_current_round :: u32
  rm_active_round :: "finality_round option"
  rm_completed_rounds :: "round_summary list"
  rm_last_finalized :: target
  rm_our_validator :: "account_id option"
  rm_validators :: "account_id list"

definition manager_new :: "account_id option \<Rightarrow> account_id list \<Rightarrow> target \<Rightarrow> round_manager" where
  "manager_new our_validator validators last_finalized =
     \<lparr>rm_current_epoch = 0, rm_current_round = 0, rm_active_round = None, rm_completed_rounds = [],
      rm_last_finalized = last_finalized, rm_our_validator = our_validator, rm_validators = validators\<rparr>"

definition start_round :: "clock \<Rightarrow> epoch_number \<Rightarrow> u32 \<Rightarrow> round_manager \<Rightarrow> round_manager" where
  "start_round now epoch round_no M =
     M\<lparr>rm_current_epoch := epoch, rm_current_round := round_no,
       rm_active_round := Some (round_new now epoch round_no (rm_validators M) (rm_our_validator M))\<rparr>"

definition complete_round :: "target option \<Rightarrow> round_manager \<Rightarrow> round_manager" where
  "complete_round finalized M =
     (case rm_active_round M of
        None \<Rightarrow> M
      | Some R \<Rightarrow>
          let rounds = rm_completed_rounds M @ [round_summary_of R];
              kept = (if 100 < length rounds then tl rounds else rounds);
              M1 = M\<lparr>rm_active_round := None, rm_completed_rounds := kept\<rparr>
          in case finalized of Some t \<Rightarrow> M1\<lparr>rm_last_finalized := t\<rparr> | None \<Rightarrow> M1)"

definition next_round :: "clock \<Rightarrow> round_manager \<Rightarrow> round_manager" where
  "next_round now M =
     (let M1 = M\<lparr>rm_current_round := rm_current_round M + 1\<rparr>
      in start_round now (rm_current_epoch M1) (rm_current_round M1) M1)"

definition manager_new_epoch :: "epoch_number \<Rightarrow> round_manager \<Rightarrow> round_manager" where
  "manager_new_epoch epoch M = M\<lparr>rm_current_epoch := epoch, rm_current_round := 0\<rparr>"

definition manager_update_validators :: "account_id list \<Rightarrow> account_id \<Rightarrow> round_manager \<Rightarrow> round_manager" where
  "manager_update_validators validators our_validator_id M =
     M\<lparr>rm_our_validator := (if our_validator_id \<in> set validators then Some our_validator_id else None),
       rm_validators := validators\<rparr>"

section \<open>The gadget\<close>

datatype finality_message =
    MVote finality_vote
  | MRequestVotes epoch_number u32
  | MFinalized block_number hash epoch_number u32
  | MCatchUpRequest u32 u32 epoch_number
  | MCatchUpResponse "finality_vote list" epoch_number

datatype vote_result =
    VAccepted
  | VStateChanged round_state
  | VFinalized block_number hash
  | VRejected vote_error

record finality_env =
  fe_crypto :: crypto
  fe_iter :: "votes_by_target \<Rightarrow> votes_by_target"
  fe_sign :: "bytes \<Rightarrow> signature64"
  fe_validator_id :: account_id

record finality_gadget =
  fg_rounds :: round_manager
  fg_outbound_queue :: "finality_message list"
  fg_justifications :: "finality_justification list"
  fg_equivocations :: "equivocation_proof list"
  fg_is_validator :: bool
  fg_last_block :: target
  fg_pending_blocks :: "target list"
  fg_sent :: "finality_message list"

definition gadget_new :: "finality_env \<Rightarrow> account_id list \<Rightarrow> hash \<Rightarrow> finality_gadget" where
  "gadget_new F validators genesis_hash =
     (let is_validator = (fe_validator_id F \<in> set validators)
      in \<lparr>fg_rounds = manager_new (if is_validator then Some (fe_validator_id F) else None) validators (0, genesis_hash),
          fg_outbound_queue = [], fg_justifications = [], fg_equivocations = [], fg_is_validator = is_validator,
          fg_last_block = (0, genesis_hash), fg_pending_blocks = [], fg_sent = []\<rparr>)"

definition broadcast :: "finality_message \<Rightarrow> finality_gadget \<Rightarrow> finality_gadget" where
  "broadcast m G = G\<lparr>fg_sent := fg_sent G @ [m]\<rparr>"

definition set_active_round :: "finality_round \<Rightarrow> finality_gadget \<Rightarrow> finality_gadget" where
  "set_active_round R G = G\<lparr>fg_rounds := (fg_rounds G)\<lparr>rm_active_round := Some R\<rparr>\<rparr>"

definition send_own_vote :: "finality_vote option \<Rightarrow> finality_gadget \<Rightarrow> finality_gadget" where
  "send_own_vote v G =
     (case v of None \<Rightarrow> G
      | Some vote \<Rightarrow> (broadcast (MVote vote) G)\<lparr>fg_outbound_queue := fg_outbound_queue G @ [MVote vote]\<rparr>)"

definition create_and_broadcast_prevote :: "finality_env \<Rightarrow> clock \<Rightarrow> block_number \<Rightarrow> hash \<Rightarrow> finality_gadget \<Rightarrow> finality_gadget" where
  "create_and_broadcast_prevote F now target_number target_hash G =
     (case rm_active_round (fg_rounds G) of
        None \<Rightarrow> G
      | Some R \<Rightarrow> let (v, R') = create_prevote (fe_crypto F) (fe_sign F) now target_number target_hash R
                  in send_own_vote v (set_active_round R' G))"

definition create_and_broadcast_precommit :: "finality_env \<Rightarrow> clock \<Rightarrow> finality_gadget \<Rightarrow> finality_gadget" where
  "create_and_broadcast_precommit F now G =
     (case rm_active_round (fg_rounds G) of
        None \<Rightarrow> G
      | Some R \<Rightarrow> let (v, R') = create_precommit (fe_crypto F) (fe_sign F) now R
                  in send_own_vote v (set_active_round R' G))"

definition start_finality_round :: "finality_env \<Rightarrow> clock \<Rightarrow> finality_gadget \<Rightarrow> finality_gadget" where
  "start_finality_round F now G =
     (case max_by_key fst (fg_pending_blocks G) of
        None \<Rightarrow> G
      | Some (target_number, target_hash) \<Rightarrow>
          let G1 = G\<lparr>fg_rounds := start_round now (rm_current_epoch (fg_rounds G)) (rm_current_round (fg_rounds G)) (fg_rounds G)\<rparr>
          in if fg_is_validator G1 then create_and_broadcast_prevote F now target_number target_hash G1 else G1)"

definition on_block_imported :: "finality_env \<Rightarrow> clock \<Rightarrow> block_number \<Rightarrow> hash \<Rightarrow> finality_gadget \<Rightarrow> finality_gadget" where
  "on_block_imported F now number h G =
     (let G1 = G\<lparr>fg_last_block := (number, h), fg_pending_blocks := fg_pending_blocks G @ [(number, h)]\<rparr>
      in if rm_active_round (fg_rounds G1) = None \<and> 1 \<le> length (fg_pending_blocks G1) then start_finality_round F now G1 else G1)"

definition complete_current_round :: "finality_env \<Rightarrow> clock \<Rightarrow> target option \<Rightarrow> finality_gadget \<Rightarrow> finality_gadget" where
  "complete_current_round F now finalized G =
     (let G1 = G\<lparr>fg_rounds := complete_round finalized (fg_rounds G)\<rparr>;
          G2 = (case finalized of Some (block_num, _) \<Rightarrow>
                   G1\<lparr>fg_pending_blocks := filter (\<lambda>(n, _). block_num < n) (fg_pending_blocks G1)\<rparr>
                | None \<Rightarrow> G1)
      in if fg_pending_blocks G2 \<noteq> []
         then start_finality_round F now (G2\<lparr>fg_rounds := next_round now (fg_rounds G2)\<rparr>) else G2)"

definition on_vote :: "finality_env \<Rightarrow> clock \<Rightarrow> finality_vote \<Rightarrow> finality_gadget \<Rightarrow> vote_result option \<times> finality_gadget" where
  "on_vote F now v G =
     (case rm_active_round (fg_rounds G) of
        None \<Rightarrow> (None, G)
      | Some R \<Rightarrow>
          if fv_epoch v \<noteq> co_epoch (rd_collector R) \<or> fv_round v \<noteq> co_round (rd_collector R) then (None, G)
          else case round_add_vote (fe_crypto F) (fe_iter F) v R of
            (Inl e, R1) \<Rightarrow> (Some (VRejected e), set_active_round R1 G)
          | (Inr False, R1) \<Rightarrow> (Some VAccepted, set_active_round R1 G)
          | (Inr True, R1) \<Rightarrow>
              let G1 = set_active_round R1 G;
                  new_state = co_state (rd_collector R1)
              in if new_state \<noteq> co_state (rd_collector R)
                 then case new_state of
                        Precommitting \<Rightarrow>
                          (Some (VStateChanged new_state),
                           if fg_is_validator G1 then create_and_broadcast_precommit F now G1 else G1)
                      | Completed \<Rightarrow>
                          (case collector_finalized_target (rd_collector R1) of
                             Some (b, h) \<Rightarrow>
                               let G2 = (case create_justification R1 of
                                           Some j \<Rightarrow> G1\<lparr>fg_justifications := fg_justifications G1 @ [j]\<rparr> | None \<Rightarrow> G1);
                                   G3 = broadcast (MFinalized b h (co_epoch (rd_collector R1)) (co_round (rd_collector R1))) G2
                               in (Some (VFinalized b h), complete_current_round F now (Some (b, h)) G3)
                           | None \<Rightarrow> (Some VAccepted, G1))
                      | _ \<Rightarrow> (Some VAccepted, G1)
                 else (Some VAccepted, G1))"

definition handle_vote_request :: "finality_env \<Rightarrow> epoch_number \<Rightarrow> u32 \<Rightarrow> finality_gadget \<Rightarrow> finality_gadget" where
  "handle_vote_request F epoch round_no G =
     (case rm_active_round (fg_rounds G) of
        None \<Rightarrow> G
      | Some R \<Rightarrow>
          let votes = collector_all_votes (fe_iter F) (rd_collector R)
          in if co_epoch (rd_collector R) = epoch \<and> co_round (rd_collector R) = round_no \<and> votes \<noteq> []
             then broadcast (MCatchUpResponse votes epoch) G else G)"

definition handle_finalized_announcement ::
  "finality_env \<Rightarrow> clock \<Rightarrow> block_number \<Rightarrow> hash \<Rightarrow> finality_gadget \<Rightarrow> finality_gadget" where
  "handle_finalized_announcement F now block_no h G =
     (if fst (rm_last_finalized (fg_rounds G)) < block_no
      then let G1 = complete_current_round F now (Some (block_no, h)) G
           in G1\<lparr>fg_pending_blocks := filter (\<lambda>(n, _). block_no < n) (fg_pending_blocks G1)\<rparr>
      else G)"

definition handle_catchup_request :: "finality_env \<Rightarrow> u32 \<Rightarrow> u32 \<Rightarrow> epoch_number \<Rightarrow> finality_gadget \<Rightarrow> finality_gadget" where
  "handle_catchup_request F from_round to_round epoch G =
     (case rm_active_round (fg_rounds G) of
        None \<Rightarrow> G
      | Some R \<Rightarrow>
          let votes = collector_all_votes (fe_iter F) (rd_collector R)
          in if co_epoch (rd_collector R) = epoch \<and> from_round \<le> co_round (rd_collector R) \<and> co_round (rd_collector R) \<le> to_round
               \<and> votes \<noteq> []
             then broadcast (MCatchUpResponse votes epoch) G else G)"

definition handle_catchup_response :: "finality_env \<Rightarrow> clock \<Rightarrow> finality_vote list \<Rightarrow> finality_gadget \<Rightarrow> finality_gadget" where
  "handle_catchup_response F now votes G = foldl (\<lambda>G v. snd (on_vote F now v G)) G votes"

fun on_message :: "finality_env \<Rightarrow> clock \<Rightarrow> finality_message \<Rightarrow> finality_gadget \<Rightarrow> vote_result option \<times> finality_gadget" where
  "on_message F now (MVote v) G = on_vote F now v G"
| "on_message F now (MRequestVotes epoch round_no) G = (None, handle_vote_request F epoch round_no G)"
| "on_message F now (MFinalized b h epoch round_no) G = (None, handle_finalized_announcement F now b h G)"
| "on_message F now (MCatchUpRequest from_round to_round epoch) G = (None, handle_catchup_request F from_round to_round epoch G)"
| "on_message F now (MCatchUpResponse votes epoch) G = (None, handle_catchup_response F now votes G)"

definition tick :: "finality_env \<Rightarrow> clock \<Rightarrow> finality_gadget \<Rightarrow> bool \<times> finality_gadget" where
  "tick F now G =
     (case rm_active_round (fg_rounds G) of
        None \<Rightarrow> (False, G)
      | Some R \<Rightarrow>
          if is_timed_out now R \<and> \<not> round_is_done now R
          then (True, complete_current_round F now None (set_active_round (round_mark_failed R) G))
          else if should_precommit R \<and> fg_is_validator G then (False, create_and_broadcast_precommit F now G)
          else (False, G))"

definition get_justification :: "finality_gadget \<Rightarrow> block_number \<Rightarrow> finality_justification option" where
  "get_justification G block_no = find (\<lambda>j. fj_block_number j = block_no) (fg_justifications G)"

definition gadget_update_validators :: "finality_env \<Rightarrow> account_id list \<Rightarrow> finality_gadget \<Rightarrow> finality_gadget" where
  "gadget_update_validators F validators G =
     G\<lparr>fg_is_validator := fe_validator_id F \<in> set validators,
       fg_rounds := manager_update_validators validators (fe_validator_id F) (fg_rounds G)\<rparr>"

definition gadget_new_epoch :: "epoch_number \<Rightarrow> finality_gadget \<Rightarrow> finality_gadget" where
  "gadget_new_epoch epoch G = G\<lparr>fg_rounds := manager_new_epoch epoch (fg_rounds G)\<rparr>"

definition drain_outbound :: "finality_gadget \<Rightarrow> finality_message list \<times> finality_gadget" where
  "drain_outbound G = (fg_outbound_queue G, G\<lparr>fg_outbound_queue := []\<rparr>)"

section \<open>Integration into the node\<close>

record finality_integration =
  fi_gadget :: finality_gadget
  fi_last_finality_voters :: "account_id list"
  fi_last_finalized :: block_number
  fi_is_active :: bool

definition integration_new :: "finality_env \<Rightarrow> account_id list \<Rightarrow> hash \<Rightarrow> finality_integration" where
  "integration_new F validators genesis_hash =
     \<lparr>fi_gadget = gadget_new F validators genesis_hash, fi_last_finality_voters = [], fi_last_finalized = 0,
      fi_is_active = (MIN_VALIDATORS_FOR_FINALITY \<le> length validators)\<rparr>"

definition integration_block_imported :: "finality_env \<Rightarrow> clock \<Rightarrow> block_number \<Rightarrow> hash \<Rightarrow> finality_integration \<Rightarrow> finality_integration" where
  "integration_block_imported F now number h I =
     (if \<not> fi_is_active I then I else I\<lparr>fi_gadget := on_block_imported F now number h (fi_gadget I)\<rparr>)"

definition on_finality_vote :: "finality_env \<Rightarrow> clock \<Rightarrow> finality_vote \<Rightarrow> finality_integration \<Rightarrow> account_id list option \<times> finality_integration" where
  "on_finality_vote F now v I =
     (if \<not> fi_is_active I then (None, I)
      else let (r, G) = on_message F now (MVote v) (fi_gadget I); I1 = I\<lparr>fi_gadget := G\<rparr>
           in case r of
                Some (VFinalized block_no _) \<Rightarrow>
                  (case get_justification G block_no of
                     Some j \<Rightarrow> (let voters = map vg_validator (fj_signatures j)
                                in (Some voters, I1\<lparr>fi_last_finality_voters := voters, fi_last_finalized := block_no\<rparr>))
                   | None \<Rightarrow> (None, I1))
              | _ \<Rightarrow> (None, I1))"

definition on_finality_message :: "finality_env \<Rightarrow> clock \<Rightarrow> finality_message \<Rightarrow> finality_integration \<Rightarrow> account_id list option \<times> finality_integration" where
  "on_finality_message F now m I =
     (case m of MVote v \<Rightarrow> on_finality_vote F now v I
      | _ \<Rightarrow> (None, I\<lparr>fi_gadget := snd (on_message F now m (fi_gadget I))\<rparr>))"

definition integration_tick :: "finality_env \<Rightarrow> clock \<Rightarrow> finality_integration \<Rightarrow> bool \<times> finality_integration" where
  "integration_tick F now I =
     (if \<not> fi_is_active I then (False, I)
      else let (r, G) = tick F now (fi_gadget I) in (r, I\<lparr>fi_gadget := G\<rparr>))"

definition integration_update_validators :: "finality_env \<Rightarrow> account_id list \<Rightarrow> finality_integration \<Rightarrow> finality_integration" where
  "integration_update_validators F validators I =
     I\<lparr>fi_is_active := (MIN_VALIDATORS_FOR_FINALITY \<le> length validators),
       fi_gadget := gadget_update_validators F validators (fi_gadget I)\<rparr>"

definition integration_new_epoch :: "epoch_number \<Rightarrow> finality_integration \<Rightarrow> finality_integration" where
  "integration_new_epoch epoch I = I\<lparr>fi_gadget := gadget_new_epoch epoch (fi_gadget I)\<rparr>"

section \<open>Reachable gadgets\<close>

text \<open>The list \<open>Vs\<close> holds the validator sets this gadget was given, newest first: the one of its
  creation and those of every later \<open>update_validators\<close>.\<close>

inductive gadget_reach :: "finality_env \<Rightarrow> account_id list list \<Rightarrow> finality_gadget \<Rightarrow> bool" for F where
  reach_new: "distinct vals \<Longrightarrow> gadget_reach F [vals] (gadget_new F vals genesis)"
| reach_import: "gadget_reach F Vs G \<Longrightarrow> gadget_reach F Vs (on_block_imported F now n h G)"
| reach_message: "gadget_reach F Vs G \<Longrightarrow> gadget_reach F Vs (snd (on_message F now m G))"
| reach_tick: "gadget_reach F Vs G \<Longrightarrow> gadget_reach F Vs (snd (tick F now G))"
| reach_validators: "gadget_reach F Vs G \<Longrightarrow> distinct vals \<Longrightarrow> gadget_reach F (vals # Vs) (gadget_update_validators F vals G)"
| reach_epoch: "gadget_reach F Vs G \<Longrightarrow> gadget_reach F Vs (gadget_new_epoch e G)"
| reach_drain: "gadget_reach F Vs G \<Longrightarrow> gadget_reach F Vs (snd (drain_outbound G))"

text \<open>What a justification must contain: signatures of distinct validators, at least 66 per cent of
  one of the given validator sets and all of them members of it, each on a precommit for the block.\<close>

definition justified :: "crypto \<Rightarrow> account_id list list \<Rightarrow> finality_justification \<Rightarrow> bool" where
  "justified K Vs j =
     (distinct (map vg_validator (fj_signatures j))
    \<and> (\<exists>vals \<in> set Vs. vals \<noteq> [] \<and> vg_validator ` set (fj_signatures j) \<subseteq> set vals
         \<and> 66 * card (set vals) \<le> 100 * card (vg_validator ` set (fj_signatures j)))
    \<and> (\<forall>s \<in> set (fj_signatures j). \<exists>v. vote_verify K v \<and> fv_vote_type v = Precommit \<and> fv_voter v = vg_validator s
         \<and> fv_signature v = vg_signature s \<and> vote_target v = (fj_block_number j, fj_block_hash j) \<and> fv_epoch v = fj_epoch j))"

text \<open>The gadget always works with the newest set, and a round under way keeps the set it was started with.\<close>

definition gadget_ok :: "crypto \<Rightarrow> account_id list list \<Rightarrow> finality_gadget \<Rightarrow> bool" where
  "gadget_ok K Vs G =
     (Vs \<noteq> [] \<and> rm_validators (fg_rounds G) = hd Vs \<and> distinct (hd Vs)
    \<and> (\<forall>R. rm_active_round (fg_rounds G) = Some R \<longrightarrow>
         collector_ok K (rd_collector R) \<and> co_validators (rd_collector R) \<in> set Vs)
    \<and> (\<forall>j \<in> set (fg_justifications G). justified K Vs j))"

lemma collector_new_validators: "co_validators (collector_new e r vals) = vals"
  by (simp add: collector_new_def)

lemma mark_failed_validators [simp]: "co_validators (collector_mark_failed c) = co_validators c"
  by (simp add: collector_mark_failed_def)

lemma justified_mono: "justified K Vs j \<Longrightarrow> set Vs \<subseteq> set Ws \<Longrightarrow> justified K Ws j"
  unfolding justified_def by (blast dest: subsetD)

lemma justification_justified:
  assumes "collector_ok K (rd_collector R)" and "create_justification R = Some j"
    and "co_validators (rd_collector R) \<in> set Vs"
  shows "justified K Vs j"
proof -
  let ?c = "rd_collector R"
  obtain t where t: "co_state ?c = Completed" "co_best_precommit_target ?c = Some t" and
    j: "j = \<lparr>fj_block_number = fst t, fj_block_hash = snd t,
             fj_signatures = map (\<lambda>vote. \<lparr>vg_validator = fv_voter vote, vg_signature = fv_signature vote\<rparr>) (precommits_for_best ?c),
             fj_epoch = co_epoch ?c\<rparr>"
    using assms(2) by (auto simp: create_justification_def collector_finalized_target_def split: if_splits option.splits)
  have q: "has_supermajority (count_for (co_precommits ?c) t) (length (co_validators ?c))"
    using assms(1) t by (auto simp: collector_ok_def)
  then obtain vs where vs: "hm_get (co_precommits ?c) t = Some vs" "precommits_for_best ?c = vs" "length vs = count_for (co_precommits ?c) t"
    using t by (auto simp: count_for_def precommits_for_best_def has_supermajority_def SUPERMAJORITY_THRESHOLD_def split: option.splits if_splits)
  have ok: "votes_ok K Precommit (co_epoch ?c) (co_round ?c) (co_validators ?c) (co_precommits ?c) (co_precommitted ?c)"
    and d: "distinct (co_validators ?c)" using assms(1) by (simp_all add: collector_ok_def)
  note g = votes_ok_get [OF ok vs(1)]
  have "distinct (map vg_validator (fj_signatures j))" using g(1) by (simp add: j vs(2) comp_def)
  moreover have "vg_validator ` set (fj_signatures j) \<subseteq> set (co_validators ?c)"
    using g(2) by (auto simp: j vs(2) vote_ok_def)
  moreover have "\<exists>v. vote_verify K v \<and> fv_vote_type v = Precommit \<and> fv_voter v = vg_validator s
         \<and> fv_signature v = vg_signature s \<and> vote_target v = (fj_block_number j, fj_block_hash j) \<and> fv_epoch v = fj_epoch j"
    if "s \<in> set (fj_signatures j)" for s
    using that g(2) by (auto simp: j vs(2) vote_ok_def) blast
  moreover have "card (vg_validator ` set (fj_signatures j)) = length vs"
    using g(1) distinct_card [of "map fv_voter vs"] by (simp add: j vs(2) image_image)
  moreover have "co_validators ?c \<noteq> [] \<and> 66 * card (set (co_validators ?c)) \<le> 100 * length vs"
    using q d vs(3) by (auto simp: has_supermajority_def SUPERMAJORITY_THRESHOLD_def distinct_card split: if_splits)
  ultimately show ?thesis using assms(3) unfolding justified_def by metis
qed

text \<open>Steps that only touch the round manager, its flags and the outgoing messages.\<close>

lemma own_vote_ok:
  assumes "gadget_ok K Vs G"
  shows "gadget_ok K Vs (create_and_broadcast_prevote F now n h G)" and "gadget_ok K Vs (create_and_broadcast_precommit F now G)"
  using assms
  by (auto simp: gadget_ok_def create_and_broadcast_prevote_def create_and_broadcast_precommit_def create_prevote_def
      create_precommit_def send_own_vote_def set_active_round_def broadcast_def Let_def
      split: option.splits prod.splits if_splits)

lemma start_round_ok: "gadget_ok K Vs G \<Longrightarrow> gadget_ok K Vs (G\<lparr>fg_rounds := start_round now e r (fg_rounds G)\<rparr>)"
  by (auto simp: gadget_ok_def start_round_def round_new_def collector_new_ok collector_new_validators)

lemma start_finality_round_ok: "gadget_ok K Vs G \<Longrightarrow> gadget_ok K Vs (start_finality_round F now G)"
  unfolding start_finality_round_def Let_def
  by (auto split: option.splits intro: own_vote_ok start_round_ok)

lemma complete_current_round_ok:
  assumes "gadget_ok K Vs G"
  shows "gadget_ok K Vs (complete_current_round F now t G)"
proof -
  define G2 where "G2 = (let G1 = G\<lparr>fg_rounds := complete_round t (fg_rounds G)\<rparr>
    in case t of Some (b, _) \<Rightarrow> G1\<lparr>fg_pending_blocks := filter (\<lambda>(n, _). b < n) (fg_pending_blocks G1)\<rparr> | None \<Rightarrow> G1)"
  have "gadget_ok K Vs G2"
    using assms by (auto simp: G2_def gadget_ok_def complete_round_def Let_def split: option.splits)
  moreover from this have "gadget_ok K Vs (G2\<lparr>fg_rounds := next_round now (fg_rounds G2)\<rparr>)"
    by (simp add: next_round_def gadget_ok_def start_round_def round_new_def collector_new_ok collector_new_validators Let_def)
  ultimately show ?thesis
    by (simp add: complete_current_round_def Let_def G2_def [unfolded Let_def, symmetric] start_finality_round_ok)
qed

lemma set_active_round_ok: "gadget_ok K Vs G \<Longrightarrow> collector_ok K (rd_collector R) \<Longrightarrow> co_validators (rd_collector R) \<in> set Vs \<Longrightarrow> gadget_ok K Vs (set_active_round R G)"
  by (simp add: gadget_ok_def set_active_round_def)

lemma broadcast_ok [simp]: "gadget_ok K Vs (broadcast m G) = gadget_ok K Vs G"
  by (simp add: gadget_ok_def broadcast_def)

text \<open>The shapes of the gadget after a vote: rejected or recorded, followed by our own precommit,
  or finalized with the justification of the completed round.\<close>

lemma on_vote_cases:
  assumes "on_vote F now v G = (r, G')"
  obtains (ignored) "G' = G" "r = None"
  | (recorded) R c where "rm_active_round (fg_rounds G) = Some R"
      "c = snd (collector_add_vote (fe_crypto F) (fe_iter F) v (rd_collector R))"
      "G' = set_active_round (R\<lparr>rd_collector := c\<rparr>) G \<or>
       G' = create_and_broadcast_precommit F now (set_active_round (R\<lparr>rd_collector := c\<rparr>) G)"
      "\<And>b h. r \<noteq> Some (VFinalized b h)"
  | (finalized) R c b h j where "rm_active_round (fg_rounds G) = Some R"
      "c = snd (collector_add_vote (fe_crypto F) (fe_iter F) v (rd_collector R))"
      "collector_finalized_target c = Some (b, h)" "create_justification (R\<lparr>rd_collector := c\<rparr>) = Some j"
      "G' = complete_current_round F now (Some (b, h)) (broadcast (MFinalized b h (co_epoch c) (co_round c))
              ((set_active_round (R\<lparr>rd_collector := c\<rparr>) G)\<lparr>fg_justifications := fg_justifications G @ [j]\<rparr>))"
      "r = Some (VFinalized b h)"
proof (cases "rm_active_round (fg_rounds G)")
  case None
  then show ?thesis using assms ignored by (simp add: on_vote_def)
next
  case (Some R)
  obtain q c where c: "collector_add_vote (fe_crypto F) (fe_iter F) v (rd_collector R) = (q, c)" by fastforce
  show ?thesis
  proof (cases "fv_epoch v \<noteq> co_epoch (rd_collector R) \<or> fv_round v \<noteq> co_round (rd_collector R)")
    case True
    then show ?thesis using assms Some ignored by (simp add: on_vote_def)
  next
    case False
    show ?thesis
    proof (cases "q = Ok True \<and> co_state c \<noteq> co_state (rd_collector R) \<and> co_state c = Completed \<and> co_best_precommit_target c \<noteq> None")
      case True
      then obtain b h where t: "co_best_precommit_target c = Some (b, h)" by auto
      then obtain j where j: "create_justification (R\<lparr>rd_collector := c\<rparr>) = Some j"
        using True by (simp add: create_justification_def collector_finalized_target_def)
      show ?thesis
        by (rule finalized [OF Some])
          (use assms Some False True c t j in \<open>auto simp: on_vote_def round_add_vote_def collector_finalized_target_def
             set_active_round_def Let_def\<close>)
    next
      case other: False
      show ?thesis
        by (rule recorded [OF Some refl])
          (use assms Some False other c in \<open>auto simp: on_vote_def round_add_vote_def collector_finalized_target_def Let_def
             split: sum.splits bool.splits round_state.splits if_splits option.splits\<close>)
    qed
  qed
qed

lemma on_vote_ok:
  assumes it: "iteration (fe_iter F)" and ok: "gadget_ok (fe_crypto F) Vs G"
  shows "gadget_ok (fe_crypto F) Vs (snd (on_vote F now v G))"
proof -
  obtain r G' where run: "on_vote F now v G = (r, G')" by fastforce
  have col: "collector_ok (fe_crypto F) (snd (collector_add_vote (fe_crypto F) (fe_iter F) v (rd_collector R)))
      \<and> co_validators (snd (collector_add_vote (fe_crypto F) (fe_iter F) v (rd_collector R))) \<in> set Vs"
    if "rm_active_round (fg_rounds G) = Some R" for R
  proof -
    obtain q c where c: "collector_add_vote (fe_crypto F) (fe_iter F) v (rd_collector R) = (q, c)" by fastforce
    have "collector_ok (fe_crypto F) (rd_collector R)" "co_validators (rd_collector R) \<in> set Vs"
      using ok that by (simp_all add: gadget_ok_def)
    then show ?thesis using collector_add_vote_ok [OF it _ c] collector_add_vote_fixed [OF c] c by simp
  qed
  from run show ?thesis
  proof (cases rule: on_vote_cases)
    case ignored
    then show ?thesis using run ok by simp
  next
    case (recorded R c)
    then have "gadget_ok (fe_crypto F) Vs (set_active_round (R\<lparr>rd_collector := c\<rparr>) G)"
      using ok col by (intro set_active_round_ok) simp_all
    then show ?thesis using recorded(3) run by (auto intro: own_vote_ok(2))
  next
    case (finalized R c b h j)
    have "justified (fe_crypto F) Vs j"
      using justification_justified [OF _ finalized(4)] col [OF finalized(1)] finalized(2) by simp
    then have "gadget_ok (fe_crypto F) Vs ((set_active_round (R\<lparr>rd_collector := c\<rparr>) G)\<lparr>fg_justifications := fg_justifications G @ [j]\<rparr>)"
      using ok col [OF finalized(1)] finalized(2) by (auto simp: gadget_ok_def set_active_round_def)
    then show ?thesis using run finalized(5) complete_current_round_ok by simp
  qed
qed

lemma on_message_ok:
  assumes "iteration (fe_iter F)" and "gadget_ok (fe_crypto F) Vs G"
  shows "gadget_ok (fe_crypto F) Vs (snd (on_message F now m G))"
proof (cases m)
  case (MFinalized b h e r)
  have "gadget_ok (fe_crypto F) Vs (G'\<lparr>fg_pending_blocks := p\<rparr>) = gadget_ok (fe_crypto F) Vs G'" for G' p
    by (simp add: gadget_ok_def)
  then show ?thesis
    using MFinalized assms(2) complete_current_round_ok by (simp add: handle_finalized_announcement_def Let_def)
next
  case (MCatchUpResponse vs e)
  have "gadget_ok (fe_crypto F) Vs (foldl (\<lambda>G v. snd (on_vote F now v G)) G vs)"
    using assms(2) by (induction vs arbitrary: G) (simp_all add: on_vote_ok [OF assms(1)])
  then show ?thesis using MCatchUpResponse by (simp add: handle_catchup_response_def)
qed (use assms on_vote_ok in \<open>auto simp: handle_vote_request_def handle_catchup_request_def Let_def split: option.splits\<close>)

lemma tick_ok:
  assumes "gadget_ok K Vs G"
  shows "gadget_ok K Vs (snd (tick F now G))"
proof (cases "rm_active_round (fg_rounds G)")
  case (Some R)
  then have "gadget_ok K Vs (set_active_round (round_mark_failed R) G)"
    using assms by (intro set_active_round_ok) (simp_all add: gadget_ok_def round_mark_failed_def collector_mark_failed_ok)
  then show ?thesis using assms Some by (simp add: tick_def complete_current_round_ok own_vote_ok)
qed (simp add: tick_def assms)

lemma gadget_reach_ok:
  assumes "iteration (fe_iter F)" and "gadget_reach F Vs G"
  shows "gadget_ok (fe_crypto F) Vs G"
  using assms(2)
proof induction
  case (reach_new vals genesis)
  then show ?case by (simp add: gadget_ok_def gadget_new_def manager_new_def Let_def)
next
  case (reach_import Vs G now n h)
  then have "gadget_ok (fe_crypto F) Vs (G\<lparr>fg_last_block := (n, h), fg_pending_blocks := fg_pending_blocks G @ [(n, h)]\<rparr>)"
    by (simp add: gadget_ok_def)
  then show ?case by (simp add: on_block_imported_def Let_def start_finality_round_ok)
next
  case (reach_message Vs G now m)
  then show ?case by (intro on_message_ok [OF assms(1)])
next
  case (reach_tick Vs G now)
  then show ?case by (intro tick_ok)
next
  case (reach_validators Vs G vals)
  then show ?case
    using justified_mono [of "fe_crypto F" Vs _ "vals # Vs"]
    by (auto simp: gadget_ok_def gadget_update_validators_def manager_update_validators_def)
qed (auto simp: gadget_ok_def gadget_new_epoch_def manager_new_epoch_def drain_outbound_def)

text \<open>
  C9: every justification that a gadget ever stores, whatever blocks, votes, announcements, ticks and
  validator changes it saw, is signed by distinct validators that belong to one of the validator sets
  this gadget was given, at its creation or by a later update, and that are at least 66 per cent of that set
  (the code's threshold; the documents say two thirds), each
  with a valid precommit for exactly that block and epoch; the set the gadget uses for its next rounds
  is the last one it was given.
\<close>

theorem justifications_sound:
  assumes "iteration (fe_iter F)" and "gadget_reach F Vs G" and "j \<in> set (fg_justifications G)"
  shows "justified (fe_crypto F) Vs j \<and> rm_validators (fg_rounds G) = hd Vs"
  using gadget_reach_ok [OF assms(1,2)] assms(3) by (simp add: gadget_ok_def)

definition demo_finality :: "account_id \<Rightarrow> finality_env" where
  "demo_finality i = \<lparr>fe_crypto = demo_crypto, fe_iter = \<lambda>m. m, fe_sign = \<lambda>_. 1, fe_validator_id = i\<rparr>"

lemmas gadget_eval =
  gadget_new_def manager_new_def on_block_imported_def start_finality_round_def start_round_def round_new_def
  on_vote_def round_add_vote_def set_active_round_def complete_current_round_def complete_round_def next_round_def
  create_justification_def precommits_for_best_def create_and_broadcast_prevote_def create_and_broadcast_precommit_def
  create_prevote_def create_precommit_def send_own_vote_def broadcast_def demo_finality_def

definition demo_gadget :: finality_gadget where
  "demo_gadget = on_block_imported (demo_finality 9) (0, 0) 5 7 (gadget_new (demo_finality 9) [1, 2, 3] 0)"

definition demo_finalized :: finality_gadget where
  "demo_finalized = foldl (\<lambda>G v. snd (on_message (demo_finality 9) (0, 0) (MVote v) G)) demo_gadget (demo_votes 1 2 7)"

lemma demo_finalized_justification:
  "fg_justifications demo_finalized =
     [\<lparr>fj_block_number = 5, fj_block_hash = 7,
       fj_signatures = [\<lparr>vg_validator = 1, vg_signature = 1\<rparr>, \<lparr>vg_validator = 2, vg_signature = 1\<rparr>], fj_epoch = 0\<rparr>]"
  unfolding demo_finalized_def demo_gadget_def
  by (simp add: gadget_eval collector_eval) (simp add: demo_vote_def vote_new_def)

lemma demo_finalized_reach: "gadget_reach (demo_finality 9) [[1, 2, 3]] demo_finalized"
proof -
  have "gadget_reach (demo_finality 9) [[1, 2, 3]] demo_gadget"
    unfolding demo_gadget_def by (intro reach_import reach_new) simp
  then show ?thesis unfolding demo_finalized_def demo_votes_def by (auto intro!: reach_message simp del: on_message.simps)
qed

theorem justifications_sound_witness:
  "justified demo_crypto [[1, 2, 3]]
     \<lparr>fj_block_number = 5, fj_block_hash = 7,
      fj_signatures = [\<lparr>vg_validator = 1, vg_signature = 1\<rparr>, \<lparr>vg_validator = 2, vg_signature = 1\<rparr>], fj_epoch = 0\<rparr>"
  using justifications_sound [OF _ demo_finalized_reach] demo_finalized_justification
  by (simp add: iteration_def demo_finality_def)

section \<open>What can move the finalized block\<close>

lemma rounds_same_finalized [simp]:
  "rm_last_finalized (fg_rounds (create_and_broadcast_prevote F now n h G)) = rm_last_finalized (fg_rounds G)"
  "rm_last_finalized (fg_rounds (create_and_broadcast_precommit F now G)) = rm_last_finalized (fg_rounds G)"
  "rm_last_finalized (fg_rounds (set_active_round R G)) = rm_last_finalized (fg_rounds G)"
  "rm_last_finalized (fg_rounds (broadcast m G)) = rm_last_finalized (fg_rounds G)"
  "rm_last_finalized (start_round now e r M) = rm_last_finalized M"
  by (simp_all add: create_and_broadcast_prevote_def create_and_broadcast_precommit_def send_own_vote_def
      set_active_round_def broadcast_def start_round_def split: option.splits prod.splits)

lemma start_finality_round_finalized [simp]:
  "rm_last_finalized (fg_rounds (start_finality_round F now G)) = rm_last_finalized (fg_rounds G)"
  by (simp add: start_finality_round_def Let_def split: option.splits prod.splits)

lemma complete_current_round_finalized:
  "rm_last_finalized (fg_rounds (complete_current_round F now t G)) =
     (case (t, rm_active_round (fg_rounds G)) of (Some x, Some _) \<Rightarrow> x | _ \<Rightarrow> rm_last_finalized (fg_rounds G))"
  by (simp add: complete_current_round_def complete_round_def next_round_def Let_def split: option.splits prod.splits)

lemma complete_current_round_justs [simp]:
  "fg_justifications (complete_current_round F now t G) = fg_justifications G"
  by (simp add: complete_current_round_def start_finality_round_def create_and_broadcast_prevote_def send_own_vote_def
      set_active_round_def broadcast_def Let_def split: option.splits prod.splits)

lemma own_precommit_justs [simp]: "fg_justifications (create_and_broadcast_precommit F now G) = fg_justifications G"
  by (simp add: create_and_broadcast_precommit_def send_own_vote_def set_active_round_def broadcast_def
      split: option.splits prod.splits)

definition has_justification :: "finality_gadget \<Rightarrow> target \<Rightarrow> bool" where
  "has_justification G t = (\<exists>j \<in> set (fg_justifications G). (fj_block_number j, fj_block_hash j) = t)"

lemma on_vote_finalized:
  assumes "on_vote F now v G = (r, G')"
  shows "(rm_last_finalized (fg_rounds G') = rm_last_finalized (fg_rounds G) \<or> has_justification G' (rm_last_finalized (fg_rounds G')))
       \<and> set (fg_justifications G) \<subseteq> set (fg_justifications G')"
  using assms
proof (cases rule: on_vote_cases)
  case ignored
  then show ?thesis by simp
next
  case (recorded R c)
  then show ?thesis by (auto simp: set_active_round_def)
next
  case (finalized R c b h j)
  have j: "(fj_block_number j, fj_block_hash j) = (b, h)"
    using finalized(3,4) by (auto simp: create_justification_def split: if_splits option.splits)
  have js: "fg_justifications G' = fg_justifications G @ [j]"
    and t: "rm_last_finalized (fg_rounds G') = (b, h)"
    by (simp_all add: finalized(5) complete_current_round_finalized) (simp_all add: broadcast_def set_active_round_def)
  show ?thesis using j unfolding has_justification_def js t by auto
qed

lemma has_justification_mono:
  "has_justification G t \<Longrightarrow> set (fg_justifications G) \<subseteq> set (fg_justifications G') \<Longrightarrow> has_justification G' t"
  by (auto simp: has_justification_def)

lemma catchup_finalized:
  "(rm_last_finalized (fg_rounds (handle_catchup_response F now vs G)) = rm_last_finalized (fg_rounds G)
    \<or> has_justification (handle_catchup_response F now vs G) (rm_last_finalized (fg_rounds (handle_catchup_response F now vs G))))
   \<and> set (fg_justifications G) \<subseteq> set (fg_justifications (handle_catchup_response F now vs G))"
  unfolding handle_catchup_response_def
proof (induction vs arbitrary: G)
  case Nil
  then show ?case by simp
next
  case (Cons v vs)
  obtain r G1 where G1: "on_vote F now v G = (r, G1)" by fastforce
  show ?case
    using Cons.IH [of G1] on_vote_finalized [OF G1] G1 has_justification_mono [of G1 "rm_last_finalized (fg_rounds G1)"] by auto
qed

text \<open>
  C10: a network message moves the last finalized block only to a block for which the gadget has
  stored a justification, or, on a \<open>Finalized\<close> announcement, to the announced block when its
  number is higher.  A tick or an imported block never moves it.
\<close>

theorem finalized_block_origin:
  "(rm_last_finalized (fg_rounds (snd (on_message F now m G))) = rm_last_finalized (fg_rounds G)
    \<or> has_justification (snd (on_message F now m G)) (rm_last_finalized (fg_rounds (snd (on_message F now m G))))
    \<or> (\<exists>b h e r. m = MFinalized b h e r \<and> fst (rm_last_finalized (fg_rounds G)) < b
         \<and> rm_last_finalized (fg_rounds (snd (on_message F now m G))) = (b, h)))
   \<and> rm_last_finalized (fg_rounds (snd (tick F now G))) = rm_last_finalized (fg_rounds G)
   \<and> rm_last_finalized (fg_rounds (on_block_imported F now n h G)) = rm_last_finalized (fg_rounds G)"
proof -
  have "rm_last_finalized (fg_rounds (snd (on_message F now m G))) = rm_last_finalized (fg_rounds G)
    \<or> has_justification (snd (on_message F now m G)) (rm_last_finalized (fg_rounds (snd (on_message F now m G))))
    \<or> (\<exists>b h e r. m = MFinalized b h e r \<and> fst (rm_last_finalized (fg_rounds G)) < b
         \<and> rm_last_finalized (fg_rounds (snd (on_message F now m G))) = (b, h))"
  proof (cases m)
    case (MVote v)
    then show ?thesis using on_vote_finalized [of F now v G] by (cases "on_vote F now v G") auto
  next
    case (MCatchUpResponse vs e)
    then show ?thesis using catchup_finalized [of F now vs G] by auto
  next
    case (MFinalized b h e r)
    then show ?thesis
      by (auto simp: handle_finalized_announcement_def Let_def complete_current_round_finalized split: option.splits)
  qed (auto simp: handle_vote_request_def handle_catchup_request_def Let_def split: option.splits)
  moreover have "rm_last_finalized (fg_rounds (snd (tick F now G))) = rm_last_finalized (fg_rounds G)"
    by (simp add: tick_def complete_current_round_finalized split: option.splits)
  moreover have "rm_last_finalized (fg_rounds (on_block_imported F now n h G)) = rm_last_finalized (fg_rounds G)"
    by (simp add: on_block_imported_def Let_def)
  ultimately show ?thesis by blast
qed

section \<open>Where the protocol is weaker than its description\<close>

text \<open>An announcement carries no signatures and is believed: any peer can move the finalized block.\<close>

lemma announcement_is_believed:
  assumes "rm_active_round (fg_rounds G) = Some R" and "fst (rm_last_finalized (fg_rounds G)) < b"
  shows "rm_last_finalized (fg_rounds (snd (on_message F now (MFinalized b h e r) G))) = (b, h)"
  using assms by (simp add: handle_finalized_announcement_def Let_def complete_current_round_finalized)

text \<open>A round that timed out counts as done, so \<open>tick\<close> never advances it.\<close>

lemma tick_never_advances: "\<not> fst (tick F now G)"
  by (cases "rm_active_round (fg_rounds G)") (auto simp: tick_def round_is_done_def)

text \<open>
  After a round that leaves no pending block the round number stays, so the next block is voted on
  in the same round: an honest validator signs two prevotes that make a valid equivocation proof.
\<close>

definition honest_run :: finality_gadget where
  "honest_run =
     on_block_imported (demo_finality 1) (0, 0) 6 8
       (snd (on_message (demo_finality 1) (0, 0) (MFinalized 5 7 0 0)
         (on_block_imported (demo_finality 1) (0, 0) 5 7 (gadget_new (demo_finality 1) [1, 2, 3] 0))))"

lemma honest_validator_equivocates:
  "\<exists>v1 v2. fg_sent honest_run = [MVote v1, MVote v2]
     \<and> equivocation_is_valid demo_crypto \<lparr>eq_validator = 1, eq_vote1 = v1, eq_vote2 = v2, eq_round = 0, eq_epoch = 0\<rparr>"
  unfolding honest_run_def
  by (simp add: gadget_eval collector_new_def handle_finalized_announcement_def Let_def vote_new_def)
    (simp add: equivocation_is_valid_def vote_verify_def account_verify_def demo_crypto_def)

end
