(* ===== verification/Kratos_Mempool.thy ===== *)
theory Kratos_Mempool
  imports Kratos_Ledger "HOL-Library.Multiset" "HOL-Library.Product_Lexorder"
begin

text \<open>
  The transaction pool (\<^verbatim>\<open>node/mempool.rs\<close>): admission with rate limits, signatures and state
  checks, replacement by fee, eviction, selection for a block and cleanup.

  An \<open>Instant\<close> is a number of milliseconds passed as \<open>now\<close>. Two orders are not fixed by Rust's
  library and are parameters: \<open>iter\<close>, in which a \<open>HashMap\<close> is walked, and \<open>drain\<close>, in which
  the clone of the \<open>BinaryHeap\<close> is popped; \<open>pop_order\<close> states what the library promises of the
  latter. The theorems hold for every choice.
\<close>

section \<open>Configuration, entries and errors\<close>

definition MAX_NONCE_GAP :: u64 where [const_defs]: "MAX_NONCE_GAP = 2"
definition MAX_TOTAL_PENDING :: nat where [const_defs]: "MAX_TOTAL_PENDING = 500"
definition MAX_ABSOLUTE_NONCE :: u64 where [const_defs]: "MAX_ABSOLUTE_NONCE = 500000000"

record mempool_config =
  mc_max_size :: nat
  mc_max_per_account :: nat
  mc_min_fee :: balance
  mc_rbf_min_increase_pct :: u8
  mc_tx_expiration :: nat
  mc_rate_limit_per_account :: nat
  mc_rate_limit_window :: nat
  mc_verify_signatures :: bool
  mc_max_nonce_gap :: u64
  mc_max_total_pending :: nat

definition default_mempool_config :: mempool_config where
  "default_mempool_config =
     \<lparr>mc_max_size = 10000, mc_max_per_account = 100, mc_min_fee = 1000, mc_rbf_min_increase_pct = 10,
      mc_tx_expiration = 3600000, mc_rate_limit_per_account = 50, mc_rate_limit_window = 60000,
      mc_verify_signatures = True, mc_max_nonce_gap = MAX_NONCE_GAP, mc_max_total_pending = MAX_TOTAL_PENDING\<rparr>"

record prioritized_tx =
  pt_hash :: hash
  pt_fee :: balance
  pt_added_at :: nat
  pt_sender :: account_id
  pt_nonce :: u64

definition prioritized_new :: "crypto \<Rightarrow> nat \<Rightarrow> signed_transaction \<Rightarrow> balance \<Rightarrow> prioritized_tx" where
  "prioritized_new K now tx fee =
     \<lparr>pt_hash = signed_hash K tx, pt_fee = fee, pt_added_at = now, pt_sender = tx_sender (stx_transaction tx),
      pt_nonce = tx_nonce (stx_transaction tx)\<rparr>"

definition prioritized_less :: "prioritized_tx \<Rightarrow> prioritized_tx \<Rightarrow> bool" where
  "prioritized_less a b =
     (pt_fee a < pt_fee b \<or> (pt_fee a = pt_fee b \<and> pt_added_at b < pt_added_at a))"

record pool_stats =
  ps_total_added :: u64
  ps_total_removed :: u64
  ps_total_evicted :: u64
  ps_total_rejected :: u64
  ps_total_replaced :: u64

datatype pool_error =
    NoHash
  | AlreadyExists
  | PoolFull
  | FeeTooLow balance balance
  | PoolInvalidSignature
  | PoolInvalidNonce u64 u64
  | NonceTooOld u64 u64
  | PoolInsufficientBalance balance balance
  | TooManyPerAccount nat nat
  | RateLimitExceeded
  | TooManyPendingGlobal nat nat
  | NonceTooHigh u64 u64
  | RbfFeeInsufficient u8
  | Expired
  | PoolValidation string

section \<open>The rate limiter\<close>

type_synonym rate_limiter = "(account_id, nat \<times> nat) hmap"

definition limiter_check :: "nat \<Rightarrow> account_id \<Rightarrow> nat \<Rightarrow> nat \<Rightarrow> rate_limiter \<Rightarrow> bool \<times> rate_limiter" where
  "limiter_check now account limit window m =
     (case hm_get m account of
        Some (submitted, window_start) \<Rightarrow>
          if window < now - window_start then (True, hm_insert account (1, now) m)
          else if limit \<le> submitted then (False, m)
          else (True, hm_insert account (submitted + 1, window_start) m)
      | None \<Rightarrow> (True, hm_insert account (1, now) m))"

definition limiter_cleanup :: "nat \<Rightarrow> nat \<Rightarrow> rate_limiter \<Rightarrow> rate_limiter" where
  "limiter_cleanup now window m = hm_retain (\<lambda>_ (_, start). now - start \<le> window) m"

section \<open>One account's queue\<close>

record account_queue =
  aq_by_nonce :: "(u64, hash) bmap"
  aq_total_fees :: balance
  aq_last_submission :: "nat option"

definition queue_default :: account_queue where
  "queue_default = \<lparr>aq_by_nonce = [], aq_total_fees = 0, aq_last_submission = None\<rparr>"

definition queue_add :: "nat \<Rightarrow> u64 \<Rightarrow> hash \<Rightarrow> balance \<Rightarrow> account_queue \<Rightarrow> account_queue" where
  "queue_add now nonce h fee q =
     q\<lparr>aq_by_nonce := bm_insert nonce h (aq_by_nonce q), aq_total_fees := sat_add (aq_total_fees q) fee,
       aq_last_submission := Some now\<rparr>"

definition queue_remove :: "u64 \<Rightarrow> balance \<Rightarrow> account_queue \<Rightarrow> hash option \<times> account_queue" where
  "queue_remove nonce fee q =
     (case bm_get (aq_by_nonce q) nonce of
        None \<Rightarrow> (None, q)
      | Some h \<Rightarrow> (Some h, q\<lparr>aq_by_nonce := bm_remove nonce (aq_by_nonce q),
                            aq_total_fees := sat_sub (aq_total_fees q) fee\<rparr>))"

fun ready_from :: "u64 \<Rightarrow> (u64 \<times> hash) list \<Rightarrow> hash list" where
  "ready_from next_nonce [] = []"
| "ready_from next_nonce ((nonce, h) # rest) =
     (if nonce < next_nonce then ready_from next_nonce rest
      else if nonce \<noteq> next_nonce then []
      else h # ready_from (next_nonce + 1) rest)"

definition ready_hashes :: "u64 \<Rightarrow> account_queue \<Rightarrow> hash list" where
  "ready_hashes expected_nonce q = ready_from expected_nonce (aq_by_nonce q)"

definition has_gap :: "u64 \<Rightarrow> account_queue \<Rightarrow> bool" where
  "has_gap expected_nonce q = (case aq_by_nonce q of [] \<Rightarrow> False | (first_nonce, _) # _ \<Rightarrow> expected_nonce < first_nonce)"

fun count_after_gap :: "u64 option \<Rightarrow> bool \<Rightarrow> u64 list \<Rightarrow> nat" where
  "count_after_gap prev_nonce found_gap [] = 0"
| "count_after_gap prev_nonce found_gap (nonce # rest) =
     (let gap = (found_gap \<or> (case prev_nonce of Some prev \<Rightarrow> prev + 1 < nonce | None \<Rightarrow> False))
      in (if gap then 1 else 0) + count_after_gap (Some nonce) gap rest)"

definition queue_pending_count :: "account_queue \<Rightarrow> nat" where
  "queue_pending_count q = count_after_gap None False (bm_keys (aq_by_nonce q))"

section \<open>The pool\<close>

record transaction_pool =
  tp_config :: mempool_config
  tp_transactions :: "(hash, signed_transaction) hmap"
  tp_fees :: "(hash, balance) hmap"
  tp_priority_queue :: "prioritized_tx list"
  tp_account_queues :: "(account_id, account_queue) hmap"
  tp_rate_limiter :: rate_limiter
  tp_pending :: "hash list"
  tp_stats :: pool_stats

definition pool_with_config :: "mempool_config \<Rightarrow> transaction_pool" where
  "pool_with_config config =
     \<lparr>tp_config = config, tp_transactions = [], tp_fees = [], tp_priority_queue = [], tp_account_queues = [],
      tp_rate_limiter = [], tp_pending = [], tp_stats = \<lparr>ps_total_added = 0, ps_total_removed = 0, ps_total_evicted = 0,
        ps_total_rejected = 0, ps_total_replaced = 0\<rparr>\<rparr>"

definition pool_new :: "nat \<Rightarrow> transaction_pool" where
  "pool_new max_size = pool_with_config (default_mempool_config\<lparr>mc_max_size := max_size\<rparr>)"

definition count_rejected :: "transaction_pool \<Rightarrow> transaction_pool" where
  "count_rejected P = P\<lparr>tp_stats := (tp_stats P)\<lparr>ps_total_rejected := ps_total_rejected (tp_stats P) + 1\<rparr>\<rparr>"

definition count_evicted :: "transaction_pool \<Rightarrow> transaction_pool" where
  "count_evicted P = P\<lparr>tp_stats := (tp_stats P)\<lparr>ps_total_evicted := ps_total_evicted (tp_stats P) + 1\<rparr>\<rparr>"

definition queue_of :: "transaction_pool \<Rightarrow> account_id \<Rightarrow> account_queue" where
  "queue_of P a = (case hm_get (tp_account_queues P) a of Some q \<Rightarrow> q | None \<Rightarrow> queue_default)"

definition insert_transaction :: "crypto \<Rightarrow> nat \<Rightarrow> signed_transaction \<Rightarrow> balance \<Rightarrow> transaction_pool \<Rightarrow> transaction_pool" where
  "insert_transaction K now tx fee P =
     (let h = signed_hash K tx; sender = tx_sender (stx_transaction tx); nonce = tx_nonce (stx_transaction tx)
      in P\<lparr>tp_transactions := hm_insert h tx (tp_transactions P), tp_fees := hm_insert h fee (tp_fees P),
           tp_priority_queue := prioritized_new K now tx fee # tp_priority_queue P,
           tp_account_queues := hm_insert sender (queue_add now nonce h fee (queue_of P sender)) (tp_account_queues P)\<rparr>)"

definition remove_internal :: "hash \<Rightarrow> transaction_pool \<Rightarrow> signed_transaction option \<times> transaction_pool" where
  "remove_internal h P =
     (case hm_get (tp_transactions P) h of
        None \<Rightarrow> (None, P)
      | Some tx \<Rightarrow>
          let fee = (case hm_get (tp_fees P) h of Some f \<Rightarrow> f | None \<Rightarrow> 0);
              sender = tx_sender (stx_transaction tx); nonce = tx_nonce (stx_transaction tx);
              queues = (case hm_get (tp_account_queues P) sender of
                          None \<Rightarrow> tp_account_queues P
                        | Some q \<Rightarrow> let q' = snd (queue_remove nonce fee q)
                                    in if aq_by_nonce q' = [] then hm_remove sender (tp_account_queues P)
                                       else hm_insert sender q' (tp_account_queues P))
          in (Some tx, P\<lparr>tp_transactions := hm_remove h (tp_transactions P), tp_fees := hm_remove h (tp_fees P),
                         tp_account_queues := queues, tp_pending := removeAll h (tp_pending P)\<rparr>))"

definition pool_remove :: "hash \<Rightarrow> transaction_pool \<Rightarrow> signed_transaction option \<times> transaction_pool" where
  "pool_remove h P =
     (case remove_internal h P of
        (None, P1) \<Rightarrow> (None, P1)
      | (Some tx, P1) \<Rightarrow> (Some tx, P1\<lparr>tp_stats := (tp_stats P1)\<lparr>ps_total_removed := ps_total_removed (tp_stats P1) + 1\<rparr>\<rparr>))"

definition lowest_step :: "hash option \<times> balance \<Rightarrow> hash \<times> balance \<Rightarrow> hash option \<times> balance" where
  "lowest_step best entry =
     (if snd entry < snd best then (Some (fst entry), snd entry) else best)"

definition evict_lowest_fee ::
  "((hash, balance) hmap \<Rightarrow> (hash, balance) hmap) \<Rightarrow> balance \<Rightarrow> transaction_pool \<Rightarrow> bool \<times> transaction_pool" where
  "evict_lowest_fee iter new_fee P =
     (case fst (foldl lowest_step (None, new_fee) (iter (tp_fees P))) of
        None \<Rightarrow> (False, P)
      | Some h \<Rightarrow> (True, count_evicted (snd (remove_internal h P))))"

definition try_replace ::
  "crypto \<Rightarrow> nat \<Rightarrow> signed_transaction \<Rightarrow> hash \<Rightarrow> transaction_pool \<Rightarrow> (pool_error, unit) result \<times> transaction_pool" where
  "try_replace K now new_tx existing_hash P =
     (let existing_fee = (case hm_get (tp_fees P) existing_hash of Some f \<Rightarrow> f | None \<Rightarrow> 0);
          new_fee = base_fee (tx_call (stx_transaction new_tx));
          pct = mc_rbf_min_increase_pct (tp_config P);
          min_increase = sat_mul existing_fee (ucast pct) div 100;
          required_fee = sat_add existing_fee min_increase
      in if new_fee < required_fee then (Err (RbfFeeInsufficient pct), count_rejected P)
         else let P1 = insert_transaction K now new_tx new_fee (snd (remove_internal existing_hash P))
              in (Ok (), P1\<lparr>tp_stats := (tp_stats P1)\<lparr>ps_total_replaced := ps_total_replaced (tp_stats P1) + 1\<rparr>\<rparr>))"

fun call_value :: "transaction_call \<Rightarrow> balance" where
  "call_value (Transfer _ amount) = amount"
| "call_value (Stake amount) = amount"
| "call_value (CreateSidechain _ deposit) = deposit"
| "call_value (RegisterValidator stake) = stake"
| "call_value _ = 0"

definition account_or_zero :: "(state_error, account_info option) result \<Rightarrow> account_info" where
  "account_or_zero r =
     (case r of Inr (Some a) \<Rightarrow> a | _ \<Rightarrow> \<lparr>ai_nonce = 0, ai_free = 0, ai_reserved = 0, ai_last_modified = ZERO\<rparr>)"

definition validate_against_state ::
  "'d storage_env \<Rightarrow> signed_transaction \<Rightarrow> transaction_pool \<Rightarrow> 'd state_backend \<Rightarrow> (pool_error, unit) result \<times> 'd state_backend" where
  "validate_against_state E tx P s =
     (let sender = tx_sender (stx_transaction tx); n = tx_nonce (stx_transaction tx);
          fee = base_fee (tx_call (stx_transaction tx));
          (r, s') = get_account E sender s;
          account = account_or_zero r;
          expected_nonce = ai_nonce account;
          pool_nonce = (case max_by_key id (bm_keys (aq_by_nonce (queue_of P sender))) of
                          Some m \<Rightarrow> m + 1 | None \<Rightarrow> expected_nonce);
          effective_expected = max pool_nonce expected_nonce;
          total_pending = sum_list (map (\<lambda>(_, q). queue_pending_count q) (tp_account_queues P));
          total_cost = sat_add fee (call_value (tx_call (stx_transaction tx)))
      in (if n < expected_nonce then Err (NonceTooOld n expected_nonce)
          else if effective_expected + mc_max_nonce_gap (tp_config P) < n then Err (PoolInvalidNonce effective_expected n)
          else if mc_max_total_pending (tp_config P) \<le> total_pending \<and> effective_expected < n
            then Err (TooManyPendingGlobal total_pending (mc_max_total_pending (tp_config P)))
          else if ai_free account < total_cost then Err (PoolInsufficientBalance total_cost (ai_free account))
          else Ok (), s'))"

definition admit ::
  "crypto \<Rightarrow> ((hash, balance) hmap \<Rightarrow> (hash, balance) hmap) \<Rightarrow> nat \<Rightarrow> signed_transaction \<Rightarrow> transaction_pool
     \<Rightarrow> (pool_error, unit) result \<times> transaction_pool" where
  "admit K iter now tx P =
     (let sender = tx_sender (stx_transaction tx); nonce = tx_nonce (stx_transaction tx);
          fee = base_fee (tx_call (stx_transaction tx))
      in case bm_get (aq_by_nonce (queue_of P sender)) nonce of
           Some existing_hash \<Rightarrow> try_replace K now tx existing_hash P
         | None \<Rightarrow>
             let (room, P1) = (if mc_max_size (tp_config P) \<le> length (tp_transactions P) then evict_lowest_fee iter fee P
                               else (True, P))
             in if \<not> room then (Err PoolFull, count_rejected P1)
                else let P2 = insert_transaction K now tx fee P1
                     in (Ok (), P2\<lparr>tp_stats := (tp_stats P2)\<lparr>ps_total_added := ps_total_added (tp_stats P2) + 1\<rparr>\<rparr>))"

definition add_checked ::
  "crypto \<Rightarrow> 'd storage_env \<Rightarrow> ((hash, balance) hmap \<Rightarrow> (hash, balance) hmap) \<Rightarrow> nat \<Rightarrow> signed_transaction
     \<Rightarrow> 'd state_backend option \<Rightarrow> transaction_pool \<Rightarrow> (pool_error, unit) result \<times> 'd state_backend option \<times> transaction_pool" where
  "add_checked K E iter now tx st P =
     (let sender = tx_sender (stx_transaction tx); nonce = tx_nonce (stx_transaction tx);
          q = queue_of P sender;
          P1 = P\<lparr>tp_account_queues := hm_insert sender q (tp_account_queues P)\<rparr>
      in if mc_max_per_account (tp_config P1) \<le> length (aq_by_nonce q)
         then case bm_get (aq_by_nonce q) nonce of
                Some existing_hash \<Rightarrow> (let (r, P2) = try_replace K now tx existing_hash P1 in (r, st, P2))
              | None \<Rightarrow> (Err (TooManyPerAccount (length (aq_by_nonce q)) (mc_max_per_account (tp_config P1))), st, count_rejected P1)
         else case st of
                None \<Rightarrow> (let (r, P2) = admit K iter now tx P1 in (r, None, P2))
              | Some s \<Rightarrow>
                  (case validate_against_state E tx P1 s of
                     (Inl e, s') \<Rightarrow> (Err e, Some s', P1)
                   | (Inr _, s') \<Rightarrow> let (r, P2) = admit K iter now tx P1 in (r, Some s', P2)))"

definition add_with_validation ::
  "crypto \<Rightarrow> 'd storage_env \<Rightarrow> ((hash, balance) hmap \<Rightarrow> (hash, balance) hmap) \<Rightarrow> nat \<Rightarrow> signed_transaction
     \<Rightarrow> 'd state_backend option \<Rightarrow> transaction_pool \<Rightarrow> (pool_error, unit) result \<times> 'd state_backend option \<times> transaction_pool" where
  "add_with_validation K E iter now tx st P =
     (case stx_hash tx of
        None \<Rightarrow> (Err NoHash, st, P)
      | Some h \<Rightarrow>
          let sender = tx_sender (stx_transaction tx); nonce = tx_nonce (stx_transaction tx);
              fee = base_fee (tx_call (stx_transaction tx)); c = tp_config P
          in if hm_contains (tp_transactions P) h then (Err AlreadyExists, st, P)
             else if MAX_ABSOLUTE_NONCE < nonce then (Err (NonceTooHigh nonce MAX_ABSOLUTE_NONCE), st, count_rejected P)
             else if fee < mc_min_fee c then (Err (FeeTooLow fee (mc_min_fee c)), st, count_rejected P)
             else let (allowed, limiter) = limiter_check now sender (mc_rate_limit_per_account c) (mc_rate_limit_window c) (tp_rate_limiter P);
                      P1 = P\<lparr>tp_rate_limiter := limiter\<rparr>
                  in if \<not> allowed then (Err RateLimitExceeded, st, count_rejected P1)
                     else if \<not> signed_verify K tx then (Err PoolInvalidSignature, st, count_rejected P1)
                     else add_checked K E iter now tx st P1)"

section \<open>Selecting transactions for a block\<close>

definition ready_transactions :: "account_id \<Rightarrow> u64 \<Rightarrow> transaction_pool \<Rightarrow> signed_transaction list" where
  "ready_transactions account current_nonce P =
     (case hm_get (tp_account_queues P) account of
        None \<Rightarrow> []
      | Some q \<Rightarrow> List.map_filter (hm_get (tp_transactions P)) (ready_hashes current_nonce q))"

fun select_loop ::
  "(hash, signed_transaction) hmap \<Rightarrow> nat \<Rightarrow> prioritized_tx list \<Rightarrow> hash list \<Rightarrow> (account_id, u64) hmap
     \<Rightarrow> signed_transaction list \<Rightarrow> signed_transaction list" where
  "select_loop txs max_count [] seen nonces selected = selected"
| "select_loop txs max_count (entry # heap) seen nonces selected =
     (if max_count \<le> length selected then selected
      else if pt_hash entry \<in> set seen then select_loop txs max_count heap seen nonces selected
      else case hm_get txs (pt_hash entry) of
             None \<Rightarrow> select_loop txs max_count heap seen nonces selected
           | Some tx \<Rightarrow>
               let expected_nonce = (case hm_get nonces (pt_sender entry) of Some n \<Rightarrow> n | None \<Rightarrow> 0)
               in if pt_nonce entry < expected_nonce then select_loop txs max_count heap seen nonces selected
                  else if expected_nonce < pt_nonce entry then select_loop txs max_count heap seen nonces selected
                  else select_loop txs max_count heap (pt_hash entry # seen)
                         (hm_insert (pt_sender entry) (pt_nonce entry + 1) nonces) (selected @ [tx]))"

definition select_transactions ::
  "(prioritized_tx list \<Rightarrow> prioritized_tx list) \<Rightarrow> nat \<Rightarrow> transaction_pool \<Rightarrow> signed_transaction list" where
  "select_transactions drain max_count P =
     select_loop (tp_transactions P) max_count (drain (tp_priority_queue P)) [] [] []"

fun select_state_loop ::
  "'d storage_env \<Rightarrow> (hash, signed_transaction) hmap \<Rightarrow> nat \<Rightarrow> prioritized_tx list \<Rightarrow> hash list \<Rightarrow> (account_id, u64) hmap
     \<Rightarrow> signed_transaction list \<Rightarrow> 'd state_backend \<Rightarrow> signed_transaction list \<times> 'd state_backend" where
  "select_state_loop E txs max_count [] seen nonces selected s = (selected, s)"
| "select_state_loop E txs max_count (entry # heap) seen nonces selected s =
     (if max_count \<le> length selected then (selected, s)
      else if pt_hash entry \<in> set seen then select_state_loop E txs max_count heap seen nonces selected s
      else case hm_get txs (pt_hash entry) of
             None \<Rightarrow> select_state_loop E txs max_count heap seen nonces selected s
           | Some tx \<Rightarrow>
               let (expected_nonce, nonces1, s1) =
                     (case hm_get nonces (pt_sender entry) of
                        Some n \<Rightarrow> (n, nonces, s)
                      | None \<Rightarrow> let (r, s') = get_account E (pt_sender entry) s; n = ai_nonce (account_or_zero r)
                                in (n, hm_insert (pt_sender entry) n nonces, s'))
               in if pt_nonce entry \<noteq> expected_nonce then select_state_loop E txs max_count heap seen nonces1 selected s1
                  else select_state_loop E txs max_count heap (pt_hash entry # seen)
                         (hm_insert (pt_sender entry) (pt_nonce entry + 1) nonces1) (selected @ [tx]) s1)"

definition select_transactions_with_state ::
  "'d storage_env \<Rightarrow> (prioritized_tx list \<Rightarrow> prioritized_tx list) \<Rightarrow> nat \<Rightarrow> transaction_pool \<Rightarrow> 'd state_backend
     \<Rightarrow> signed_transaction list \<times> 'd state_backend" where
  "select_transactions_with_state E drain max_count P s =
     select_state_loop E (tp_transactions P) max_count (drain (tp_priority_queue P)) [] [] [] s"

section \<open>Removal and cleanup\<close>

definition remove_included :: "signed_transaction list \<Rightarrow> transaction_pool \<Rightarrow> transaction_pool" where
  "remove_included block_txs P =
     foldl (\<lambda>P tx. case stx_hash tx of Some h \<Rightarrow> snd (pool_remove h P) | None \<Rightarrow> P) P block_txs"

definition remove_stale :: "account_id \<Rightarrow> u64 \<Rightarrow> transaction_pool \<Rightarrow> transaction_pool" where
  "remove_stale account current_nonce P =
     foldl (\<lambda>P h. count_evicted (snd (remove_internal h P))) P
       (map snd (filter (\<lambda>(n, _). n < current_nonce) (aq_by_nonce (queue_of P account))))"

definition cleanup_expired :: "nat \<Rightarrow> transaction_pool \<Rightarrow> transaction_pool" where
  "cleanup_expired now P =
     (let expired = map pt_hash (filter (\<lambda>e. mc_tx_expiration (tp_config P) < now - pt_added_at e) (tp_priority_queue P));
          P1 = foldl (\<lambda>P h. case remove_internal h P of (Some _, P') \<Rightarrow> count_evicted P' | (None, P') \<Rightarrow> P') P expired
      in P1\<lparr>tp_rate_limiter := limiter_cleanup now (mc_rate_limit_window (tp_config P1)) (tp_rate_limiter P1)\<rparr>)"

definition prune :: "nat \<Rightarrow> transaction_pool \<Rightarrow> transaction_pool" where
  "prune now P =
     (let P1 = cleanup_expired now P
      in P1\<lparr>tp_priority_queue := filter (\<lambda>e. hm_contains (tp_transactions P1) (pt_hash e)) (tp_priority_queue P1)\<rparr>)"

definition pool_pending_count :: "account_id \<Rightarrow> transaction_pool \<Rightarrow> nat" where
  "pool_pending_count account P = length (aq_by_nonce (queue_of P account))"

definition pool_total_fees :: "transaction_pool \<Rightarrow> balance" where
  "pool_total_fees P = sum_list (map snd (tp_fees P))"

fun remove_each_hash :: "hash list \<Rightarrow> transaction_pool \<Rightarrow> signed_transaction list \<times> transaction_pool" where
  "remove_each_hash [] P = ([], P)"
| "remove_each_hash (h # hs) P =
     (let (r, P1) = pool_remove h P; (txs, P2) = remove_each_hash hs P1
      in (case r of Some tx \<Rightarrow> tx # txs | None \<Rightarrow> txs, P2))"

definition remove_account_transactions :: "account_id \<Rightarrow> transaction_pool \<Rightarrow> signed_transaction list \<times> transaction_pool" where
  "remove_account_transactions account P = remove_each_hash (bm_values (aq_by_nonce (queue_of P account))) P"

section \<open>Consistency of the indexes\<close>

definition slot :: "transaction_pool \<Rightarrow> account_id \<Rightarrow> u64 \<Rightarrow> hash option" where
  "slot P a n = bm_get (aq_by_nonce (queue_of P a)) n"

definition tx_ok :: "crypto \<Rightarrow> transaction_pool \<Rightarrow> hash \<Rightarrow> signed_transaction \<Rightarrow> bool" where
  "tx_ok K P h tx =
     (stx_hash tx = Some h \<and> signed_verify K tx
      \<and> hm_get (tp_fees P) h = Some (base_fee (tx_call (stx_transaction tx)))
      \<and> mc_min_fee (tp_config P) \<le> base_fee (tx_call (stx_transaction tx))
      \<and> slot P (tx_sender (stx_transaction tx)) (tx_nonce (stx_transaction tx)) = Some h
      \<and> (\<exists>e \<in> set (tp_priority_queue P). \<exists>now. e = prioritized_new K now tx (base_fee (tx_call (stx_transaction tx)))))"

definition pool_ok :: "crypto \<Rightarrow> transaction_pool \<Rightarrow> bool" where
  "pool_ok K P =
     (hm_inv (tp_transactions P) \<and> hm_inv (tp_fees P)
      \<and> (\<forall>h tx. hm_get (tp_transactions P) h = Some tx \<longrightarrow> tx_ok K P h tx)
      \<and> dom (hm_get (tp_fees P)) = dom (hm_get (tp_transactions P))
      \<and> (\<forall>a n h. slot P a n = Some h \<longrightarrow>
           (\<exists>tx. hm_get (tp_transactions P) h = Some tx \<and> tx_sender (stx_transaction tx) = a \<and> tx_nonce (stx_transaction tx) = n))
      \<and> (\<forall>a. bm_inv (aq_by_nonce (queue_of P a)) \<and> length (aq_by_nonce (queue_of P a)) \<le> mc_max_per_account (tp_config P))
      \<and> length (tp_transactions P) \<le> mc_max_size (tp_config P))"

lemmas pool_unfold = pool_ok_def tx_ok_def slot_def queue_of_def

lemma pool_ok_ignores [simp]:
  "pool_ok K (P\<lparr>tp_stats := x\<rparr>) = pool_ok K P"
  "pool_ok K (P\<lparr>tp_rate_limiter := l\<rparr>) = pool_ok K P"
  "pool_ok K (P\<lparr>tp_pending := p\<rparr>) = pool_ok K P"
  "pool_ok K (count_rejected P) = pool_ok K P"
  "pool_ok K (count_evicted P) = pool_ok K P"
  by (simp_all add: pool_unfold count_rejected_def count_evicted_def)

lemma queue_of_ignores [simp]:
  "queue_of (P\<lparr>tp_stats := x\<rparr>) = queue_of P" "queue_of (P\<lparr>tp_rate_limiter := l\<rparr>) = queue_of P"
  "queue_of (count_rejected P) = queue_of P" "queue_of (count_evicted P) = queue_of P"
  by (simp_all add: queue_of_def fun_eq_iff count_rejected_def count_evicted_def)

lemma slot_ignores [simp]: "slot (P\<lparr>tp_rate_limiter := l\<rparr>) = slot P" "slot (P\<lparr>tp_stats := x\<rparr>) = slot P"
  by (simp_all add: slot_def fun_eq_iff)

lemma pool_okD:
  assumes "pool_ok K P"
  shows "hm_inv (tp_transactions P)" "hm_inv (tp_fees P)" "dom (hm_get (tp_fees P)) = dom (hm_get (tp_transactions P))"
    "bm_inv (aq_by_nonce (queue_of P a))" "length (aq_by_nonce (queue_of P a)) \<le> mc_max_per_account (tp_config P)"
    "length (tp_transactions P) \<le> mc_max_size (tp_config P)"
  using assms by (simp_all add: pool_ok_def)

lemma pool_ok_tx: "pool_ok K P \<Longrightarrow> hm_get (tp_transactions P) h = Some tx \<Longrightarrow> tx_ok K P h tx"
  by (simp add: pool_ok_def)

lemma pool_ok_slot:
  "pool_ok K P \<Longrightarrow> slot P a n = Some h \<Longrightarrow>
     \<exists>tx. hm_get (tp_transactions P) h = Some tx \<and> tx_sender (stx_transaction tx) = a \<and> tx_nonce (stx_transaction tx) = n"
  by (simp add: pool_ok_def)

lemma pool_ok_new: "pool_ok K (pool_with_config c)"
  by (simp add: pool_unfold pool_with_config_def queue_default_def)

text \<open>The effect of the two index updates on every index.\<close>

lemma bm_remove_absent: "bm_get m k = None \<Longrightarrow> bm_remove k m = m"
  unfolding bm_remove_def by (induction m) (auto split: if_splits)

lemma bm_remove_length: "length (bm_remove k m) \<le> length m"
  by (simp add: bm_remove_def)

lemma bm_insert_length: "bm_inv m \<Longrightarrow> bm_get m k = None \<Longrightarrow> length (bm_insert k v m) = Suc (length m)"
  using bm.length_keys_put [of m k v] by simp

lemma hm_insert_length: "hm_inv m \<Longrightarrow> hm_get m k = None \<Longrightarrow> length (hm_insert k v m) = Suc (length m)"
  using hm.length_keys_put [of m k v] by simp

lemma hm_remove_length:
  assumes "hm_inv m" "hm_get m k = Some v"
  shows "Suc (length (hm_remove k m)) = length m"
proof -
  have "Suc (card (dom (hm_get m) - {k})) = card (dom (hm_get m))"
    using assms hm.finite_dom [OF assms(1)] by (intro card_Suc_Diff1) auto
  moreover have "dom (hm_get (hm_remove k m)) = dom (hm_get m) - {k}"
    by (auto simp: delete_conv' split: if_splits)
  ultimately show ?thesis
    using hm.length_keys [OF assms(1)] hm.length_keys [OF hm.inv_del [OF assms(1)], of k] by simp
qed

lemma insert_effect:
  fixes tx :: signed_transaction and K :: crypto and now :: nat and fee :: balance and P :: transaction_pool
  defines "a \<equiv> tx_sender (stx_transaction tx)" and "n \<equiv> tx_nonce (stx_transaction tx)"
  assumes h: "stx_hash tx = Some h"
  defines "P' \<equiv> insert_transaction K now tx fee P"
  shows "hm_get (tp_transactions P') = (hm_get (tp_transactions P))(h \<mapsto> tx)"
    "hm_get (tp_fees P') = (hm_get (tp_fees P))(h \<mapsto> fee)"
    "tp_priority_queue P' = prioritized_new K now tx fee # tp_priority_queue P"
    "aq_by_nonce (queue_of P' b) = (if b = a then bm_insert n h (aq_by_nonce (queue_of P a)) else aq_by_nonce (queue_of P b))"
    "tp_config P' = tp_config P"
    "tp_transactions P' = hm_insert h tx (tp_transactions P)" "tp_fees P' = hm_insert h fee (tp_fees P)"
  using h by (simp_all add: P'_def a_def n_def insert_transaction_def Let_def signed_hash_def update_conv'
      queue_of_def queue_add_def split: option.splits)

lemma remove_none: "hm_get (tp_transactions P) h = None \<Longrightarrow> remove_internal h P = (None, P)"
  by (simp add: remove_internal_def)

lemma remove_effect:
  fixes P :: transaction_pool and h :: hash
  assumes tx: "hm_get (tp_transactions P) h = Some tx"
  defines "P' \<equiv> snd (remove_internal h P)"
  shows "hm_get (tp_transactions P') = (hm_get (tp_transactions P))(h := None)"
    "hm_get (tp_fees P') = (hm_get (tp_fees P))(h := None)"
    "aq_by_nonce (queue_of P' b) =
       (if b = tx_sender (stx_transaction tx) then bm_remove (tx_nonce (stx_transaction tx)) (aq_by_nonce (queue_of P b))
        else aq_by_nonce (queue_of P b))"
    "tp_transactions P' = hm_remove h (tp_transactions P)" "tp_fees P' = hm_remove h (tp_fees P)"
    "fst (remove_internal h P) = Some tx"
  using tx by (simp_all add: P'_def remove_internal_def Let_def delete_conv' queue_of_def queue_remove_def
      queue_default_def bm_remove_absent update_conv' split: option.splits)

lemma remove_keeps [simp]:
  "tp_config (snd (remove_internal h P)) = tp_config P"
  "tp_priority_queue (snd (remove_internal h P)) = tp_priority_queue P"
  by (simp_all add: remove_internal_def Let_def split: option.splits)

lemma remove_preserves:
  assumes ok: "pool_ok K P"
  shows "pool_ok K (snd (remove_internal h P))"
proof (cases "hm_get (tp_transactions P) h")
  case None
  then show ?thesis using ok by (simp add: remove_none)
next
  case (Some tx)
  note eff = remove_effect [OF Some] and inv = pool_okD [OF ok]
  have other: "tx_ok K (snd (remove_internal h P)) h' tx'"
    if get: "hm_get (tp_transactions P) h' = Some tx'" and ne: "h' \<noteq> h" for h' tx'
  proof -
    have old: "tx_ok K P h' tx'" "tx_ok K P h tx"
      using pool_ok_tx [OF ok] get Some by auto
    then have "\<not> (tx_sender (stx_transaction tx') = tx_sender (stx_transaction tx)
                  \<and> tx_nonce (stx_transaction tx') = tx_nonce (stx_transaction tx))"
      using ne by (auto simp: tx_ok_def)
    then have "slot (snd (remove_internal h P)) (tx_sender (stx_transaction tx')) (tx_nonce (stx_transaction tx')) = Some h'"
      using old(1) by (auto simp: tx_ok_def slot_def eff(3) bm_get_remove)
    then show ?thesis
      using old(1) ne by (simp add: tx_ok_def eff(2))
  qed
  have owner: "\<exists>tx'. hm_get (tp_transactions (snd (remove_internal h P))) h' = Some tx'
                \<and> tx_sender (stx_transaction tx') = a \<and> tx_nonce (stx_transaction tx') = n"
    if "slot (snd (remove_internal h P)) a n = Some h'" for a n h'
  proof -
    have here: "slot P a n = Some h'" and "\<not> (a = tx_sender (stx_transaction tx) \<and> n = tx_nonce (stx_transaction tx))"
      using that by (auto simp: slot_def eff(3) bm_get_remove split: if_splits)
    with pool_ok_slot [OF ok here] Some show ?thesis
      by (auto simp: eff(1))
  qed
  have queues: "bm_inv (aq_by_nonce (queue_of (snd (remove_internal h P)) a))
      \<and> length (aq_by_nonce (queue_of (snd (remove_internal h P)) a)) \<le> mc_max_per_account (tp_config P)" for a
    using inv(4,5) [of a] bm_remove_length [of "tx_nonce (stx_transaction tx)" "aq_by_nonce (queue_of P a)"]
    by (auto simp: eff(3) bm_inv_remove intro: order_trans)
  have "length (tp_transactions (snd (remove_internal h P))) \<le> mc_max_size (tp_config P)"
    using hm_remove_length [OF inv(1) Some] inv(6) by (simp add: eff(4))
  moreover have "dom (hm_get (tp_fees (snd (remove_internal h P)))) = dom (hm_get (tp_transactions (snd (remove_internal h P))))"
    using inv(3) by (simp add: eff(1,2))
  ultimately show ?thesis
    unfolding pool_ok_def
    using queues owner other inv(1,2) by (auto simp: eff(4,5) delete_conv' hm.inv_del split: if_splits)
qed

lemma insert_preserves:
  assumes ok: "pool_ok K P" and h: "stx_hash tx = Some h" and fresh: "hm_get (tp_transactions P) h = None"
    and sig: "signed_verify K tx" and fee: "fee = base_fee (tx_call (stx_transaction tx))" "mc_min_fee (tp_config P) \<le> fee"
    and free: "slot P (tx_sender (stx_transaction tx)) (tx_nonce (stx_transaction tx)) = None"
    and room: "length (tp_transactions P) < mc_max_size (tp_config P)"
    and quota: "length (aq_by_nonce (queue_of P (tx_sender (stx_transaction tx)))) < mc_max_per_account (tp_config P)"
  shows "pool_ok K (insert_transaction K now tx fee P)"
proof -
  let ?P = "insert_transaction K now tx fee P"
  note eff = insert_effect [OF h, of K now fee P] and inv = pool_okD [OF ok]
  have slots: "slot ?P a n = (if a = tx_sender (stx_transaction tx) \<and> n = tx_nonce (stx_transaction tx) then Some h else slot P a n)" for a n
    by (simp add: slot_def eff(4) bm_get_insert)
  have "tx_ok K ?P h' tx'" if get: "hm_get (tp_transactions ?P) h' = Some tx'" for h' tx'
  proof (cases "h' = h")
    case True
    with get have "tx' = tx" by (simp add: eff(1))
    with True show ?thesis
      using h sig fee(2) by (auto simp: tx_ok_def eff(1-5) slots fee(1) [symmetric])
  next
    case False
    with get have "tx_ok K P h' tx'" by (simp add: eff(1) pool_ok_tx [OF ok])
    with False free show ?thesis by (auto simp: tx_ok_def eff(1-5) slots)
  qed
  moreover have "\<exists>tx'. hm_get (tp_transactions ?P) h' = Some tx' \<and> tx_sender (stx_transaction tx') = a \<and> tx_nonce (stx_transaction tx') = n"
    if "slot ?P a n = Some h'" for a n h'
    using that pool_ok_slot [OF ok, of a n h'] fresh by (auto simp: eff(1) slots split: if_splits)
  moreover have "bm_inv (aq_by_nonce (queue_of ?P a)) \<and> length (aq_by_nonce (queue_of ?P a)) \<le> mc_max_per_account (tp_config ?P)" for a
    using inv(4,5) [of a] quota free by (auto simp: eff(4,5) bm_inv_insert bm_insert_length slot_def)
  moreover have "length (tp_transactions ?P) \<le> mc_max_size (tp_config ?P)"
    using room by (simp add: eff(5,6) hm_insert_length [OF inv(1) fresh])
  moreover have "dom (hm_get (tp_fees ?P)) = dom (hm_get (tp_transactions ?P))"
    using inv(3) by (simp add: eff(1,2))
  ultimately show ?thesis
    unfolding pool_ok_def using inv(1,2) by (simp add: eff(6,7) hm.inv_put)
qed

text \<open>Replacing the queue of an account by itself, as \<open>entry(sender).or_default()\<close> does, changes no index.\<close>

definition touch :: "account_id \<Rightarrow> transaction_pool \<Rightarrow> transaction_pool" where
  "touch a P = P\<lparr>tp_account_queues := hm_insert a (queue_of P a) (tp_account_queues P)\<rparr>"

lemma touch_simps [simp]:
  "tp_transactions (touch a P) = tp_transactions P" "tp_fees (touch a P) = tp_fees P"
  "tp_priority_queue (touch a P) = tp_priority_queue P" "tp_config (touch a P) = tp_config P"
  "queue_of (touch a P) = queue_of P" "slot (touch a P) = slot P"
  by (auto simp: touch_def slot_def queue_of_def update_conv' fun_eq_iff split: option.splits)

lemma touch_ok [simp]: "pool_ok K (touch a P) = pool_ok K P"
  by (simp add: pool_ok_def tx_ok_def)

definition walk :: "((hash, balance) hmap \<Rightarrow> (hash, balance) hmap) \<Rightarrow> bool" where
  "walk iter = (\<forall>m. mset (iter m) = mset m)"

lemma lowest_found:
  "fst (foldl lowest_step (None, f) m) = Some h \<Longrightarrow> \<exists>g. (h, g) \<in> set m \<and> g < f"
proof -
  have "fst (foldl lowest_step (b, g) m) = Some h \<Longrightarrow> b = Some h \<or> (\<exists>g'. (h, g') \<in> set m \<and> g' < g)" for b g
  proof (induction m arbitrary: b g)
    case (Cons e m)
    obtain h' g' where e: "e = (h', g')" by (cases e)
    show ?case
    proof (cases "g' < g")
      case True
      with Cons.prems Cons.IH [of "Some h'" g'] show ?thesis by (auto simp: e lowest_step_def intro: order.strict_trans)
    next
      case False
      with Cons.prems Cons.IH [of b g] show ?thesis by (auto simp: e lowest_step_def)
    qed
  qed simp
  from this [of None f] show "fst (foldl lowest_step (None, f) m) = Some h \<Longrightarrow> \<exists>g. (h, g) \<in> set m \<and> g < f" by simp
qed

lemma lowest_none: "fst (foldl lowest_step (None, f) m) = None \<Longrightarrow> \<forall>(h, g) \<in> set m. f \<le> g"
proof -
  have some: "fst (foldl lowest_step (Some h, g) m) \<noteq> None" for h g m
    by (induction m arbitrary: h g) (auto simp: lowest_step_def)
  show "fst (foldl lowest_step (None, f) m) = None \<Longrightarrow> \<forall>(h, g) \<in> set m. f \<le> g"
    by (induction m) (auto simp: lowest_step_def some split: if_splits)
qed

lemma evict_victim:
  assumes "walk iter" "pool_ok K P" "evict_lowest_fee iter f P = (True, P')"
  obtains h tx where "hm_get (tp_transactions P) h = Some tx" "P' = count_evicted (snd (remove_internal h P))"
    "base_fee (tx_call (stx_transaction tx)) < f"
proof -
  obtain h where h: "fst (foldl lowest_step (None, f) (iter (tp_fees P))) = Some h"
    and P': "P' = count_evicted (snd (remove_internal h P))"
    using assms(3) by (auto simp: evict_lowest_fee_def split: option.splits)
  from lowest_found [OF h] obtain g where g: "(h, g) \<in> set (tp_fees P)" "g < f"
    using assms(1) mset_eq_setD [of "iter (tp_fees P)" "tp_fees P"] by (auto simp: walk_def)
  then have fee: "hm_get (tp_fees P) h = Some g"
    using pool_okD(2) [OF assms(2)] by (simp add: hm_inv_def)
  then obtain tx where tx: "hm_get (tp_transactions P) h = Some tx"
    using pool_okD(3) [OF assms(2)] by blast
  with fee g(2) have "base_fee (tx_call (stx_transaction tx)) < f"
    using pool_ok_tx [OF assms(2) tx] by (simp add: tx_ok_def)
  with that tx P' show thesis by blast
qed

lemma evict_none: "evict_lowest_fee iter f P = (False, P') \<Longrightarrow> P' = P"
  by (auto simp: evict_lowest_fee_def split: option.splits)

lemma replace_preserves:
  assumes ok: "pool_ok K P" and h: "stx_hash tx = Some h" and fresh: "hm_get (tp_transactions P) h = None"
    and sig: "signed_verify K tx" and fee: "mc_min_fee (tp_config P) \<le> base_fee (tx_call (stx_transaction tx))"
    and old: "slot P (tx_sender (stx_transaction tx)) (tx_nonce (stx_transaction tx)) = Some old"
    and res: "try_replace K now tx old P = (r, P')"
  shows "pool_ok K P'"
proof -
  let ?R = "snd (remove_internal old P)"
  from pool_ok_slot [OF ok old] obtain otx where otx: "hm_get (tp_transactions P) old = Some otx"
    and same: "tx_sender (stx_transaction otx) = tx_sender (stx_transaction tx)" "tx_nonce (stx_transaction otx) = tx_nonce (stx_transaction tx)"
    by blast
  note eff = remove_effect [OF otx] and inv = pool_okD [OF ok]
  let ?q = "aq_by_nonce (queue_of P (tx_sender (stx_transaction tx)))"
  have "Suc (length (bm_remove (tx_nonce (stx_transaction tx)) ?q)) \<le> length ?q"
  proof -
    have "(tx_nonce (stx_transaction tx), old) \<in> set ?q"
      using old by (simp add: slot_def map_of_SomeD)
    then have "length (filter (\<lambda>(k, _). k \<noteq> tx_nonce (stx_transaction tx)) ?q) < length ?q"
      by (intro length_filter_less) auto
    then show ?thesis by (simp add: bm_remove_def)
  qed
  then have "pool_ok K (insert_transaction K now tx (base_fee (tx_call (stx_transaction tx))) ?R)"
    using fresh h sig fee hm_remove_length [OF inv(1) otx] inv(6) inv(5) [of "tx_sender (stx_transaction tx)"]
    by (intro insert_preserves [OF remove_preserves [OF ok] h]) (auto simp: eff same slot_def bm_get_remove delete_conv')
  then show ?thesis
    using res ok by (auto simp: try_replace_def Let_def split: if_splits)
qed

lemma admit_preserves:
  assumes w: "walk iter" and ok: "pool_ok K P" and h: "stx_hash tx = Some h" and fresh: "hm_get (tp_transactions P) h = None"
    and sig: "signed_verify K tx" and fee: "mc_min_fee (tp_config P) \<le> base_fee (tx_call (stx_transaction tx))"
    and quota: "length (aq_by_nonce (queue_of P (tx_sender (stx_transaction tx)))) < mc_max_per_account (tp_config P)"
    and res: "admit K iter now tx P = (r, P')"
  shows "pool_ok K P'"
proof (cases "slot P (tx_sender (stx_transaction tx)) (tx_nonce (stx_transaction tx))")
  case (Some old)
  then show ?thesis
    using res replace_preserves [OF ok h fresh sig fee Some] by (simp add: admit_def slot_def Let_def)
next
  case None
  note ins = insert_preserves [OF _ h _ sig refl]
  show ?thesis
  proof (cases "mc_max_size (tp_config P) \<le> length (tp_transactions P)")
    case False
    then have "pool_ok K (insert_transaction K now tx (base_fee (tx_call (stx_transaction tx))) P)"
      using ok fresh fee quota None by (intro ins) auto
    with res None False show ?thesis by (auto simp: admit_def slot_def Let_def)
  next
    case full: True
    obtain room P1 where ev: "evict_lowest_fee iter (base_fee (tx_call (stx_transaction tx))) P = (room, P1)" by fastforce
    show ?thesis
    proof (cases room)
      case False
      with ev have "P1 = P" by (simp add: evict_none)
      with res None full ev False ok show ?thesis
        by (auto simp: admit_def slot_def Let_def)
    next
      case True
      then obtain v vtx where v: "hm_get (tp_transactions P) v = Some vtx" "P1 = count_evicted (snd (remove_internal v P))"
        using evict_victim [OF w ok] ev by metis
      note eff = remove_effect [OF v(1)] and inv = pool_okD [OF ok]
      have "pool_ok K (insert_transaction K now tx (base_fee (tx_call (stx_transaction tx))) (snd (remove_internal v P)))"
        using fresh fee quota None hm_remove_length [OF inv(1) v(1)] inv(6)
          bm_remove_length [of "tx_nonce (stx_transaction vtx)" "aq_by_nonce (queue_of P (tx_sender (stx_transaction tx)))"]
        by (intro ins remove_preserves [OF ok]) (auto simp: eff slot_def bm_get_remove delete_conv' split: if_splits)
      then have "pool_ok K (insert_transaction K now tx (base_fee (tx_call (stx_transaction tx))) P1)"
        by (simp add: v(2) count_evicted_def insert_transaction_def Let_def pool_unfold)
      with res None full ev True show ?thesis by (auto simp: admit_def slot_def Let_def)
    qed
  qed
qed

lemma add_cases:
  assumes "add_with_validation K E iter now tx st P = (r, st', P')"
  obtains (rejected) e where "r = Err e" "P' = P \<or> (\<exists>l. P' = count_rejected (P\<lparr>tp_rate_limiter := l\<rparr>))"
  | (checked) h l where "stx_hash tx = Some h" "hm_get (tp_transactions P) h = None" "signed_verify K tx"
      "mc_min_fee (tp_config P) \<le> base_fee (tx_call (stx_transaction tx))"
      "add_checked K E iter now tx st (P\<lparr>tp_rate_limiter := l\<rparr>) = (r, st', P')"
proof -
  have l: "count_rejected P = count_rejected (P\<lparr>tp_rate_limiter := tp_rate_limiter P\<rparr>)" by simp
  from assms rejected checked show thesis
    unfolding add_with_validation_def
    by (auto simp: Let_def hm_contains_def split: option.splits if_splits prod.splits dest: l [THEN trans] intro: l)
qed

lemma checked_cases:
  fixes P :: transaction_pool and tx :: signed_transaction
  defines "q \<equiv> aq_by_nonce (queue_of P (tx_sender (stx_transaction tx)))"
    and "P1 \<equiv> touch (tx_sender (stx_transaction tx)) P"
  assumes "add_checked K E iter now tx st P = (r, st', P')"
  obtains (rejected) e where "r = Err e" "P' = P1 \<or> P' = count_rejected P1"
  | (replaced) old where "bm_get q (tx_nonce (stx_transaction tx)) = Some old" "try_replace K now tx old P1 = (r, P')"
  | (admitted) "length q < mc_max_per_account (tp_config P)" "admit K iter now tx P1 = (r, P')"
  using assms(3) rejected replaced admitted
  unfolding add_checked_def q_def P1_def touch_def
  by (auto simp: Let_def split: option.splits if_splits prod.splits sum.splits)

lemma add_preserves:
  assumes w: "walk iter" and ok: "pool_ok K P" and res: "add_with_validation K E iter now tx st P = (r, st', P')"
  shows "pool_ok K P'"
  using res
proof (cases rule: add_cases)
  case (rejected e)
  then show ?thesis using ok by auto
next
  case (checked h l)
  let ?P = "P\<lparr>tp_rate_limiter := l\<rparr>"
  have ok1: "pool_ok K (touch (tx_sender (stx_transaction tx)) ?P)" using ok by simp
  from checked(5) show ?thesis
  proof (cases rule: checked_cases)
    case (rejected e)
    then show ?thesis using ok1 by auto
  next
    case (replaced old)
    then show ?thesis
      using replace_preserves [OF ok1 checked(1)] checked by (simp add: slot_def)
  next
    case admitted
    then show ?thesis
      using admit_preserves [OF w ok1 checked(1)] checked by simp
  qed
qed

lemma pool_remove_preserves: "pool_ok K P \<Longrightarrow> pool_ok K (snd (pool_remove h P))"
  using remove_preserves [of K P h] by (auto simp: pool_remove_def split: prod.splits option.splits)

lemma remove_included_preserves: "pool_ok K P \<Longrightarrow> pool_ok K (remove_included txs P)"
  unfolding remove_included_def
  by (induction txs arbitrary: P) (auto simp: pool_remove_preserves split: option.splits)

lemma remove_stale_preserves: "pool_ok K P \<Longrightarrow> pool_ok K (remove_stale a n P)"
proof -
  have "pool_ok K P \<Longrightarrow> pool_ok K (foldl (\<lambda>P h. count_evicted (snd (remove_internal h P))) P hs)" for hs P
    by (induction hs arbitrary: P) (simp_all add: remove_preserves)
  then show "pool_ok K P \<Longrightarrow> pool_ok K (remove_stale a n P)" by (simp add: remove_stale_def)
qed

definition expire_step :: "transaction_pool \<Rightarrow> hash \<Rightarrow> transaction_pool" where
  "expire_step P h = (case remove_internal h P of (Some _, P') \<Rightarrow> count_evicted P' | (None, P') \<Rightarrow> P')"

lemma expire_preserves: "pool_ok K P \<Longrightarrow> pool_ok K (foldl expire_step P hs)"
proof (induction hs arbitrary: P)
  case (Cons h hs)
  have "pool_ok K (expire_step P h)"
    using remove_preserves [OF Cons.prems, of h] by (auto simp: expire_step_def split: prod.splits option.splits)
  with Cons.IH show ?case by simp
qed simp

lemma cleanup_preserves: "pool_ok K P \<Longrightarrow> pool_ok K (cleanup_expired now P)"
  unfolding cleanup_expired_def Let_def expire_step_def [symmetric] by (simp add: expire_preserves)

lemma prune_preserves:
  assumes "pool_ok K P"
  shows "pool_ok K (prune now P)"
proof -
  have "pool_ok K (P'\<lparr>tp_priority_queue := filter (\<lambda>e. hm_contains (tp_transactions P') (pt_hash e)) (tp_priority_queue P')\<rparr>)"
    (is "pool_ok K ?P") if ok: "pool_ok K P'" for P'
  proof -
    have same: "slot (P'\<lparr>tp_priority_queue := pq\<rparr>) = slot P'" "queue_of (P'\<lparr>tp_priority_queue := pq\<rparr>) = queue_of P'" for pq
      by (simp_all add: slot_def queue_of_def fun_eq_iff)
    have "tx_ok K ?P h tx" if get: "hm_get (tp_transactions P') h = Some tx" for h tx
    proof -
      have old: "tx_ok K P' h tx" by (rule pool_ok_tx [OF ok get])
      then obtain t where "prioritized_new K t tx (base_fee (tx_call (stx_transaction tx))) \<in> set (tp_priority_queue P')"
        by (auto simp: tx_ok_def)
      moreover have "pt_hash (prioritized_new K t tx f) = h" for t f
        using old by (simp add: tx_ok_def prioritized_new_def signed_hash_def)
      ultimately show ?thesis using old get by (auto simp: tx_ok_def same hm_contains_def)
    qed
    with ok show ?thesis by (simp add: pool_ok_def same)
  qed
  with cleanup_preserves [OF assms] show ?thesis by (simp add: prune_def Let_def)
qed

lemma remove_each_hash_preserves: "pool_ok K P \<Longrightarrow> pool_ok K (snd (remove_each_hash hs P))"
proof (induction hs arbitrary: P)
  case (Cons h hs)
  have "pool_ok K (snd (remove_each_hash hs (snd (pool_remove h P))))"
    by (rule Cons.IH [OF pool_remove_preserves [OF Cons.prems]])
  then show ?case by (simp add: Let_def split_beta)
qed simp

section \<open>Reachable pools\<close>

text \<open>A pool reached from an empty one by any sequence of operations in which every submitted transaction satisfies \<open>S\<close>.\<close>

inductive pool_reach ::
  "crypto \<Rightarrow> 'd storage_env \<Rightarrow> ((hash, balance) hmap \<Rightarrow> (hash, balance) hmap) \<Rightarrow> (signed_transaction \<Rightarrow> bool) \<Rightarrow> transaction_pool \<Rightarrow> bool"
  for K E iter S where
  created: "pool_reach K E iter S (pool_with_config c)"
| added: "pool_reach K E iter S P \<Longrightarrow> S tx \<Longrightarrow> pool_reach K E iter S (snd (snd (add_with_validation K E iter now tx st P)))"
| removed: "pool_reach K E iter S P \<Longrightarrow> pool_reach K E iter S (snd (pool_remove h P))"
| included: "pool_reach K E iter S P \<Longrightarrow> pool_reach K E iter S (remove_included txs P)"
| staled: "pool_reach K E iter S P \<Longrightarrow> pool_reach K E iter S (remove_stale a n P)"
| cleaned: "pool_reach K E iter S P \<Longrightarrow> pool_reach K E iter S (cleanup_expired now P)"
| pruned: "pool_reach K E iter S P \<Longrightarrow> pool_reach K E iter S (prune now P)"
| account_removed: "pool_reach K E iter S P \<Longrightarrow> pool_reach K E iter S (snd (remove_account_transactions a P))"

lemma reach_ok: "pool_reach K E iter S P \<Longrightarrow> walk iter \<Longrightarrow> pool_ok K P"
proof (induction rule: pool_reach.induct)
  case (added P tx now st)
  then show ?case by (metis add_preserves prod.collapse)
qed (auto simp: pool_ok_new pool_remove_preserves remove_included_preserves remove_stale_preserves cleanup_preserves
    prune_preserves remove_account_transactions_def remove_each_hash_preserves)

section \<open>The outcome of a submission\<close>

definition same_index :: "transaction_pool \<Rightarrow> transaction_pool \<Rightarrow> bool" where
  "same_index P P' = (tp_transactions P' = tp_transactions P \<and> tp_fees P' = tp_fees P
     \<and> tp_priority_queue P' = tp_priority_queue P \<and> slot P' = slot P)"

text \<open>What an accepted transaction takes the place of: nothing, the one in its slot, or a cheaper one.\<close>

definition displaces :: "signed_transaction \<Rightarrow> transaction_pool \<Rightarrow> hash option \<Rightarrow> bool" where
  "displaces tx P gone =
     (let f = base_fee (tx_call (stx_transaction tx));
          here = slot P (tx_sender (stx_transaction tx)) (tx_nonce (stx_transaction tx))
      in case gone of
           None \<Rightarrow> here = None \<and> length (tp_transactions P) < mc_max_size (tp_config P)
         | Some g \<Rightarrow>
             (case hm_get (tp_transactions P) g of
                None \<Rightarrow> False
              | Some old \<Rightarrow>
                  let f' = base_fee (tx_call (stx_transaction old))
                  in if here = Some g
                     then unat f' + unat f' * unat (mc_rbf_min_increase_pct (tp_config P)) div 100 \<le> unat f
                     else here = None \<and> mc_max_size (tp_config P) \<le> length (tp_transactions P) \<and> f' < f))"

definition without :: "('a \<Rightarrow> 'b option) \<Rightarrow> 'a option \<Rightarrow> 'a \<Rightarrow> 'b option" where
  "without m gone = (case gone of None \<Rightarrow> m | Some g \<Rightarrow> m(g := None))"

lemma same_index_simps [simp]:
  "same_index P P" "same_index P (count_rejected P')= same_index P P'" "same_index P (P'\<lparr>tp_rate_limiter := l\<rparr>) = same_index P P'"
  "same_index P (touch a P') = same_index P P'"
  by (simp_all add: same_index_def slot_def count_rejected_def queue_of_def fun_eq_iff)

lemma rbf_required:
  fixes pct :: u8
  shows "unat (sat_add (base_fee c) (sat_mul (base_fee c) (ucast pct) div 100))
           = unat (base_fee c) + unat (base_fee c) * unat pct div 100"
proof -
  have f: "unat (base_fee c) \<le> 10000000" using base_fee_bounds [of c] by simp
  have p: "unat (ucast pct :: u128) = unat pct" by (simp add: unat_ucast_up)
  have "unat pct < 256" using unsigned_less [of pct, where ?'a = nat] by simp
  then have "unat (base_fee c) * unat pct \<le> 10000000 * 256"
    using f by (intro mult_mono) auto
  then have m: "unat (sat_mul (base_fee c) (ucast pct)) = unat (base_fee c) * unat pct"
    by (simp add: unat_sat_mul p)
  then have "unat (sat_mul (base_fee c) (ucast pct) div 100) = unat (base_fee c) * unat pct div 100"
    by (simp add: unat_div)
  moreover have "unat (base_fee c) * unat pct div 100 \<le> 25600000"
    using \<open>unat (base_fee c) * unat pct \<le> 10000000 * 256\<close> by simp
  ultimately show ?thesis using f by (simp add: unat_sat_add)
qed

definition accepted_as :: "signed_transaction \<Rightarrow> transaction_pool \<Rightarrow> transaction_pool \<Rightarrow> hash \<Rightarrow> hash option \<Rightarrow> bool" where
  "accepted_as tx P P' h gone =
     (stx_hash tx = Some h \<and> hm_get (tp_transactions P) h = None \<and> displaces tx P gone
      \<and> hm_get (tp_transactions P') = (without (hm_get (tp_transactions P)) gone)(h \<mapsto> tx)
      \<and> slot P' (tx_sender (stx_transaction tx)) (tx_nonce (stx_transaction tx)) = Some h)"

lemma accepted_as_ignores [simp]:
  "accepted_as tx (P\<lparr>tp_rate_limiter := l\<rparr>) P' h gone = accepted_as tx P P' h gone"
  "accepted_as tx (touch a P) P' h gone = accepted_as tx P P' h gone"
  "accepted_as tx P (P'\<lparr>tp_stats := x\<rparr>) h gone = accepted_as tx P P' h gone"
  by (simp_all add: accepted_as_def displaces_def slot_def Let_def cong: option.case_cong)

lemma replace_outcome:
  assumes ok: "pool_ok K P" and h: "stx_hash tx = Some h" and fresh: "hm_get (tp_transactions P) h = None"
    and old: "slot P (tx_sender (stx_transaction tx)) (tx_nonce (stx_transaction tx)) = Some old"
    and res: "try_replace K now tx old P = (r, P')"
  shows "case r of Inl e \<Rightarrow> same_index P P' | Inr _ \<Rightarrow> accepted_as tx P P' h (Some old)"
proof -
  from pool_ok_slot [OF ok old] obtain otx where otx: "hm_get (tp_transactions P) old = Some otx" by blast
  then have fee: "hm_get (tp_fees P) old = Some (base_fee (tx_call (stx_transaction otx)))"
    using pool_ok_tx [OF ok] by (simp add: tx_ok_def)
  have "accepted_as tx P (insert_transaction K now tx f (snd (remove_internal old P))) h (Some old)"
    if "\<not> base_fee (tx_call (stx_transaction tx)) < sat_add (base_fee (tx_call (stx_transaction otx)))
            (sat_mul (base_fee (tx_call (stx_transaction otx))) (ucast (mc_rbf_min_increase_pct (tp_config P))) div 100)" for f
    using that fresh old otx h
    by (simp add: accepted_as_def displaces_def Let_def without_def insert_effect(1,4) [OF h] remove_effect(1) [OF otx]
        slot_def bm_get_insert word_less_nat_alt rbf_required)
  with res fee show ?thesis
    by (auto simp: try_replace_def Let_def split: if_splits)
qed

lemma admit_outcome:
  assumes w: "walk iter" and ok: "pool_ok K P" and h: "stx_hash tx = Some h" and fresh: "hm_get (tp_transactions P) h = None"
    and res: "admit K iter now tx P = (r, P')"
  shows "case r of Inl e \<Rightarrow> same_index P P' | Inr _ \<Rightarrow> \<exists>gone. accepted_as tx P P' h gone"
proof (cases "slot P (tx_sender (stx_transaction tx)) (tx_nonce (stx_transaction tx))")
  case (Some old)
  then show ?thesis
    using res replace_outcome [OF ok h fresh Some, of now r P'] by (auto simp: admit_def slot_def Let_def split: sum.splits)
next
  case None
  show ?thesis
  proof (cases "mc_max_size (tp_config P) \<le> length (tp_transactions P)")
    case False
    then have "accepted_as tx P (insert_transaction K now tx f P) h None" for f
      using fresh None h
      by (simp add: accepted_as_def displaces_def Let_def without_def insert_effect(1,4) [OF h] slot_def bm_get_insert)
    with res None False show ?thesis by (auto simp: admit_def slot_def Let_def intro!: exI [of _ None])
  next
    case full: True
    obtain room P1 where ev: "evict_lowest_fee iter (base_fee (tx_call (stx_transaction tx))) P = (room, P1)" by fastforce
    show ?thesis
    proof (cases room)
      case False
      with ev have "P1 = P" by (simp add: evict_none)
      with res None full ev False show ?thesis by (auto simp: admit_def slot_def Let_def)
    next
      case True
      then obtain v vtx where v: "hm_get (tp_transactions P) v = Some vtx" "P1 = count_evicted (snd (remove_internal v P))"
        "base_fee (tx_call (stx_transaction vtx)) < base_fee (tx_call (stx_transaction tx))"
        using evict_victim [OF w ok] ev by metis
      have "accepted_as tx P (insert_transaction K now tx f P1) h (Some v)" for f
        using fresh None h v full
        by (simp add: accepted_as_def displaces_def Let_def without_def insert_effect(1,4) [OF h] slot_def bm_get_insert)
          (simp add: count_evicted_def remove_effect(1) [OF v(1)])
      with res None full ev True show ?thesis by (auto simp: admit_def slot_def Let_def intro!: exI [of _ "Some v"])
    qed
  qed
qed

lemma add_outcome_lemma:
  assumes w: "walk iter" and ok: "pool_ok K P" and res: "add_with_validation K E iter now tx st P = (r, st', P')"
  shows "case r of Inl e \<Rightarrow> same_index P P' | Inr _ \<Rightarrow> \<exists>h gone. accepted_as tx P P' h gone"
  using res
proof (cases rule: add_cases)
  case (rejected e)
  then show ?thesis by auto
next
  case (checked h l)
  let ?P = "P\<lparr>tp_rate_limiter := l\<rparr>"
  have ok1: "pool_ok K (touch (tx_sender (stx_transaction tx)) ?P)" using ok by simp
  have index: "same_index (touch a ?P) P' = same_index P P'" for a
    by (simp add: same_index_def)
  from checked(5) show ?thesis
  proof (cases rule: checked_cases)
    case (rejected e)
    then show ?thesis by auto
  next
    case (replaced old)
    then show ?thesis
      using replace_outcome [OF ok1 checked(1)] checked index by (fastforce simp: slot_def split: sum.splits)
  next
    case admitted
    then show ?thesis
      using admit_outcome [OF w ok1 checked(1)] checked index by (fastforce split: sum.splits)
  qed
qed

section \<open>What a selection contains\<close>

text \<open>\<open>BinaryHeap::pop\<close> returns a greatest remaining entry; among equal ones the order is unspecified.\<close>

definition pop_order :: "(prioritized_tx list \<Rightarrow> prioritized_tx list) \<Rightarrow> bool" where
  "pop_order drain = (\<forall>xs. mset (drain xs) = mset xs \<and> sorted_wrt (\<lambda>a b. \<not> prioritized_less a b) (drain xs))"

definition account_nonce :: "'d storage_env \<Rightarrow> 'd state_backend \<Rightarrow> account_id \<Rightarrow> u64" where
  "account_nonce E s a = ai_nonce (account_or_zero (fst (get_account E a s)))"

definition of_sender :: "account_id \<Rightarrow> signed_transaction list \<Rightarrow> signed_transaction list" where
  "of_sender a txs = filter (\<lambda>tx. tx_sender (stx_transaction tx) = a) txs"

definition consecutive :: "u64 \<Rightarrow> signed_transaction list \<Rightarrow> bool" where
  "consecutive n txs = (map (\<lambda>tx. tx_nonce (stx_transaction tx)) txs = map (\<lambda>i. n + of_nat i) [0..<length txs])"

abbreviation fee_of :: "signed_transaction \<Rightarrow> balance" where
  "fee_of tx \<equiv> base_fee (tx_call (stx_transaction tx))"

lemma get_account_keeps: "fst (get_account E a (snd (get_account E b s))) = fst (get_account E a s)"
proof (cases "hm_get (sb_account_cache s) b")
  case (Some info)
  then show ?thesis by (simp add: get_account_def)
next
  case None
  then show ?thesis
    by (auto simp: get_account_def andThen_def load_def st_get_def update_conv' split: prod.splits sum.splits option.splits)
qed

lemma account_nonce_keeps [simp]: "account_nonce E (snd (get_account E b s)) = account_nonce E s"
  by (simp add: account_nonce_def get_account_keeps fun_eq_iff)

lemma account_nonce_after: "get_account E b s = (r, s') \<Longrightarrow> account_nonce E s' = account_nonce E s"
  by (metis account_nonce_keeps snd_conv)

definition entries_ok :: "(hash, signed_transaction) hmap \<Rightarrow> prioritized_tx list \<Rightarrow> bool" where
  "entries_ok txs heap =
     (\<forall>e \<in> set heap. \<forall>tx. hm_get txs (pt_hash e) = Some tx \<longrightarrow>
        pt_sender e = tx_sender (stx_transaction tx) \<and> pt_nonce e = tx_nonce (stx_transaction tx) \<and> pt_fee e = fee_of tx)"

definition run_ok ::
  "(account_id \<Rightarrow> u64) \<Rightarrow> (hash, signed_transaction) hmap \<Rightarrow> nat \<Rightarrow> hash list \<Rightarrow> (account_id, u64) hmap \<Rightarrow> signed_transaction list \<Rightarrow> bool" where
  "run_ok base txs max_count seen nonces selected =
     (length selected \<le> max_count \<and> distinct seen \<and> map (hm_get txs) (rev seen) = map Some selected
      \<and> (\<forall>a. consecutive (base a) (of_sender a selected)
           \<and> (case hm_get nonces a of None \<Rightarrow> of_sender a selected = []
              | Some n \<Rightarrow> n = base a + of_nat (length (of_sender a selected)))))"

lemma consecutive_snoc:
  "consecutive n txs \<Longrightarrow> tx_nonce (stx_transaction tx) = n + of_nat (length txs) \<Longrightarrow> consecutive n (txs @ [tx])"
  by (simp add: consecutive_def)

lemma run_ok_expected:
  "run_ok base txs m seen nonces selected \<Longrightarrow>
     (case hm_get nonces a of Some n \<Rightarrow> n | None \<Rightarrow> base a) = base a + of_nat (length (of_sender a selected))"
  unfolding run_ok_def by (cases "hm_get nonces a") (auto dest: spec [of _ a])

lemma run_ok_read:
  "run_ok base txs m seen nonces selected \<Longrightarrow> hm_get nonces a = None \<Longrightarrow>
     run_ok base txs m seen (hm_insert a (base a) nonces) selected"
  unfolding run_ok_def by (auto simp: update_conv' dest: spec [of _ a])

lemma run_ok_select:
  assumes run: "run_ok base txs m seen nonces selected" and room: "length selected < m" and new: "h \<notin> set seen"
    and get: "hm_get txs h = Some tx"
    and next_nonce: "tx_nonce (stx_transaction tx) = base (tx_sender (stx_transaction tx)) + of_nat (length (of_sender (tx_sender (stx_transaction tx)) selected))"
  shows "run_ok base txs m (h # seen) (hm_insert (tx_sender (stx_transaction tx)) (tx_nonce (stx_transaction tx) + 1) nonces) (selected @ [tx])"
proof -
  have "consecutive (base a) (of_sender a (selected @ [tx]))" for a
    using run next_nonce consecutive_snoc [of "base a" "of_sender a selected" tx]
    by (cases "a = tx_sender (stx_transaction tx)") (simp_all add: run_ok_def of_sender_def)
  moreover have "case hm_get (hm_insert (tx_sender (stx_transaction tx)) (tx_nonce (stx_transaction tx) + 1) nonces) a of
        None \<Rightarrow> of_sender a (selected @ [tx]) = []
      | Some n \<Rightarrow> n = base a + of_nat (length (of_sender a (selected @ [tx])))" for a
  proof (cases "a = tx_sender (stx_transaction tx)")
    case True
    with next_nonce show ?thesis by (simp add: of_sender_def update_conv')
  next
    case False
    then have "of_sender a (selected @ [tx]) = of_sender a selected" by (simp add: of_sender_def)
    with run False show ?thesis
      by (cases "hm_get nonces a") (auto simp: run_ok_def update_conv' dest!: spec [of _ a])
  qed
  ultimately show ?thesis
    using run room new get by (simp add: run_ok_def)
qed

lemma select_step:
  assumes run: "run_ok base txs m seen nonces selected" and base: "base = account_nonce E s"
    and entries: "entries_ok txs (e # heap)"
  obtains (stop) "select_state_loop E txs m (e # heap) seen nonces selected s = (selected, s)" "m \<le> length selected"
  | (skip) nonces' s' where "select_state_loop E txs m (e # heap) seen nonces selected s = select_state_loop E txs m heap seen nonces' selected s'"
      "run_ok base txs m seen nonces' selected" "base = account_nonce E s'"
      "\<And>tx. hm_get txs (pt_hash e) = Some tx \<Longrightarrow> pt_hash e \<in> set seen
         \<or> tx_nonce (stx_transaction tx) \<noteq> base (tx_sender (stx_transaction tx)) + of_nat (length (of_sender (tx_sender (stx_transaction tx)) selected))"
  | (take) tx nonces' s' where "select_state_loop E txs m (e # heap) seen nonces selected s
        = select_state_loop E txs m heap (pt_hash e # seen) nonces' (selected @ [tx]) s'"
      "run_ok base txs m (pt_hash e # seen) nonces' (selected @ [tx])" "base = account_nonce E s'"
      "hm_get txs (pt_hash e) = Some tx" "pt_fee e = fee_of tx"
proof (cases "m \<le> length selected")
  case True
  then show thesis by (intro stop) simp_all
next
  case room: False
  show thesis
  proof (cases "pt_hash e \<in> set seen \<or> hm_get txs (pt_hash e) = None")
    case True
    with room show thesis by (intro skip [OF _ run base]) auto
  next
    case False
    then obtain tx where new: "pt_hash e \<notin> set seen" and get: "hm_get txs (pt_hash e) = Some tx" by auto
    let ?a = "pt_sender e"
    have e: "tx_sender (stx_transaction tx) = ?a" "pt_nonce e = tx_nonce (stx_transaction tx)" "pt_fee e = fee_of tx"
      using entries get by (simp_all add: entries_ok_def)
    obtain n nonces' s' where rd: "(case hm_get nonces ?a of Some n \<Rightarrow> (n, nonces, s)
          | None \<Rightarrow> let (r, s') = get_account E ?a s; n = ai_nonce (account_or_zero r) in (n, hm_insert ?a n nonces, s')) = (n, nonces', s')"
      by (rule prod_cases3)
    have n: "n = base ?a + of_nat (length (of_sender ?a selected))" and run': "run_ok base txs m seen nonces' selected"
      and base': "base = account_nonce E s'"
    proof -
      have "n = (case hm_get nonces ?a of Some n \<Rightarrow> n | None \<Rightarrow> base ?a)"
        using rd by (auto simp: base account_nonce_def Let_def split: option.splits prod.splits)
      with run_ok_expected [OF run] show "n = base ?a + of_nat (length (of_sender ?a selected))" by simp
      show "run_ok base txs m seen nonces' selected"
        using rd run run_ok_read [OF run, of ?a] by (auto simp: base account_nonce_def Let_def split: option.splits prod.splits)
      show "base = account_nonce E s'"
        using rd account_nonce_after [of E ?a s] by (auto simp: base Let_def split: option.splits prod.splits)
    qed
    show thesis
    proof (cases "tx_nonce (stx_transaction tx) = n")
      case True
      have "select_state_loop E txs m (e # heap) seen nonces selected s = select_state_loop E txs m heap (pt_hash e # seen)
          (hm_insert ?a (tx_nonce (stx_transaction tx) + 1) nonces') (selected @ [tx]) s'"
        using room new get rd True by (simp add: e(2))
      with take [of "hm_insert ?a (tx_nonce (stx_transaction tx) + 1) nonces'" tx s'] run_ok_select [OF run' _ new get] base' get e(3) show thesis
        using room True n by (simp add: e(1))
    next
      case False
      then have "select_state_loop E txs m (e # heap) seen nonces selected s = select_state_loop E txs m heap seen nonces' selected s'"
        using room new get rd by (simp add: e(2))
      with skip [OF this run' base'] False n get show thesis by (auto simp: e(1))
    qed
  qed
qed

lemma entries_ok_tl: "entries_ok txs (e # heap) \<Longrightarrow> entries_ok txs heap"
  by (simp add: entries_ok_def)

lemma select_run:
  assumes "run_ok base txs m seen nonces selected" "base = account_nonce E s" "entries_ok txs heap"
  obtains seen' nonces' rest s' where "select_state_loop E txs m heap seen nonces selected s = (selected @ rest, s')"
    "run_ok base txs m seen' nonces' (selected @ rest)" "base = account_nonce E s'"
  using assms
proof (induction heap arbitrary: seen nonces selected s thesis)
  case Nil
  from Nil(1) [of "[]" s seen nonces] Nil(2,3) show ?case by simp
next
  case (Cons e heap)
  note tl = entries_ok_tl [OF Cons.prems(4)]
  from Cons.prems(2-4) show ?case
  proof (cases rule: select_step)
    case stop
    with Cons.prems(1) [of "[]" s seen nonces] Cons.prems(2,3) show ?thesis by simp
  next
    case (skip nonces' s')
    from Cons.IH [OF _ skip(2,3) tl] obtain seen'' nonces'' rest s'' where
      "select_state_loop E txs m heap seen nonces' selected s' = (selected @ rest, s'')"
      "run_ok base txs m seen'' nonces'' (selected @ rest)" "base = account_nonce E s''" by blast
    with skip(1) Cons.prems(1) show ?thesis by simp
  next
    case (take tx nonces' s')
    from Cons.IH [OF _ take(2,3) tl] obtain seen'' nonces'' rest s'' where
      "select_state_loop E txs m heap (pt_hash e # seen) nonces' (selected @ [tx]) s' = ((selected @ [tx]) @ rest, s'')"
      "run_ok base txs m seen'' nonces'' ((selected @ [tx]) @ rest)" "base = account_nonce E s''" by blast
    with take(1) Cons.prems(1) [of "tx # rest" s'' seen'' nonces''] show ?thesis by simp
  qed
qed

lemma select_sorted:
  assumes "run_ok base txs m seen nonces selected" "base = account_nonce E s" "entries_ok txs heap"
    and "sorted_wrt (\<lambda>a b. pt_fee b \<le> pt_fee a) heap"
    and "sorted_wrt (\<lambda>a b. fee_of b \<le> fee_of a) selected"
    and "\<forall>tx \<in> set selected. \<forall>e \<in> set heap. pt_fee e \<le> fee_of tx"
  shows "sorted_wrt (\<lambda>a b. fee_of b \<le> fee_of a) (fst (select_state_loop E txs m heap seen nonces selected s))"
  using assms
proof (induction heap arbitrary: seen nonces selected s)
  case Nil
  then show ?case by simp
next
  case (Cons e heap)
  note tl = entries_ok_tl [OF Cons.prems(3)]
  from Cons.prems(1-3) show ?case
  proof (cases rule: select_step)
    case stop
    then show ?thesis using Cons.prems by simp
  next
    case (skip nonces' s')
    then show ?thesis using Cons.IH [OF skip(2,3) tl] Cons.prems by simp
  next
    case (take tx nonces' s')
    then show ?thesis using Cons.IH [OF take(2,3) tl] Cons.prems by (auto simp: sorted_wrt_append)
  qed
qed

lemma select_head:
  assumes "run_ok base txs m seen nonces selected" "base = account_nonce E s" "entries_ok txs heap"
    and "length selected + length heap \<le> m"
    and "hm_get txs h = Some tx" "tx_nonce (stx_transaction tx) = base (tx_sender (stx_transaction tx))"
    and "\<forall>tx' \<in> ran (hm_get txs). tx_sender (stx_transaction tx') = tx_sender (stx_transaction tx)
           \<and> tx_nonce (stx_transaction tx') = tx_nonce (stx_transaction tx) \<longrightarrow> tx' = tx"
    and "tx \<in> set selected \<or> h \<in> pt_hash ` set heap"
  shows "tx \<in> set (fst (select_state_loop E txs m heap seen nonces selected s))"
  using assms
proof (induction heap arbitrary: seen nonces selected s)
  case Nil
  then show ?case by simp
next
  case (Cons e heap)
  note tl = entries_ok_tl [OF Cons.prems(3)]
  note rec = Cons.IH [OF _ _ tl _ Cons.prems(5,6,7)]
  have chosen: "map (hm_get txs) (rev seen) = map Some selected"
    and cons: "consecutive (base a) (of_sender a selected)" for a
    using Cons.prems(1) by (simp_all add: run_ok_def)
  have already: "tx \<in> set selected" if "h \<in> set seen"
  proof -
    from that have "hm_get txs h \<in> set (map Some selected)"
      unfolding chosen [symmetric] by simp
    then show ?thesis using Cons.prems(5) by auto
  qed
  have first: "tx \<in> set selected" if "of_sender (tx_sender (stx_transaction tx)) selected \<noteq> []"
  proof -
    from that obtain tx' rest where tx': "of_sender (tx_sender (stx_transaction tx)) selected = tx' # rest"
      by (cases "of_sender (tx_sender (stx_transaction tx)) selected") auto
    then have "tx_nonce (stx_transaction tx') = base (tx_sender (stx_transaction tx))"
      using cons [of "tx_sender (stx_transaction tx)"] by (simp add: consecutive_def upt_rec)
    moreover have mem: "tx' \<in> set selected" "tx_sender (stx_transaction tx') = tx_sender (stx_transaction tx)"
      using tx' list_all_hd_filter [of "\<lambda>x. tx_sender (stx_transaction x) = tx_sender (stx_transaction tx)" selected tx' rest]
      by (simp_all add: of_sender_def)
    moreover have "Some tx' \<in> set (map (hm_get txs) (rev seen))"
      unfolding chosen using mem(1) by simp
    then have "tx' \<in> ran (hm_get txs)" by (auto simp: ran_def)
    ultimately show ?thesis using Cons.prems(6,7) by metis
  qed
  from Cons.prems(1-3) show ?case
  proof (cases rule: select_step)
    case stop
    then show ?thesis using Cons.prems(4) by simp
  next
    case (skip nonces' s')
    have "tx \<in> set selected \<or> h \<in> pt_hash ` set heap"
    proof (cases "pt_hash e = h")
      case True
      with skip(4) [of tx] Cons.prems(5) have "h \<in> set seen \<or> tx_nonce (stx_transaction tx) \<noteq>
          base (tx_sender (stx_transaction tx)) + of_nat (length (of_sender (tx_sender (stx_transaction tx)) selected))" by simp
      then have "h \<in> set seen \<or> of_sender (tx_sender (stx_transaction tx)) selected \<noteq> []"
        using Cons.prems(6) by (elim disjE) (simp, fastforce)
      with already first show ?thesis by blast
    next
      case False
      then show ?thesis using Cons.prems(8) by auto
    qed
    then show ?thesis using rec [OF skip(2,3)] skip(1) Cons.prems(4) by simp
  next
    case (take tx' nonces' s')
    have "tx \<in> set (selected @ [tx']) \<or> h \<in> pt_hash ` set heap"
      using Cons.prems(5,8) take(4) by (cases "pt_hash e = h") auto
    then show ?thesis using rec [OF take(2,3)] take(1) Cons.prems(4) by simp
  qed
qed

section \<open>Where the entries of the queue come from\<close>

definition hash_binding :: "(signed_transaction \<Rightarrow> bool) \<Rightarrow> bool" where
  "hash_binding S = (\<forall>tx tx'. S tx \<and> S tx' \<and> stx_hash tx = stx_hash tx' \<longrightarrow> stx_transaction tx = stx_transaction tx')"

definition submitted_only :: "crypto \<Rightarrow> (signed_transaction \<Rightarrow> bool) \<Rightarrow> transaction_pool \<Rightarrow> bool" where
  "submitted_only K S P =
     ((\<forall>e \<in> set (tp_priority_queue P). \<exists>tx now. S tx \<and> stx_hash tx \<noteq> None \<and> e = prioritized_new K now tx (fee_of tx))
      \<and> ran (hm_get (tp_transactions P)) \<subseteq> Collect S)"

definition shrinks :: "transaction_pool \<Rightarrow> transaction_pool \<Rightarrow> bool" where
  "shrinks P P' = (set (tp_priority_queue P') \<subseteq> set (tp_priority_queue P) \<and> hm_get (tp_transactions P') \<subseteq>\<^sub>m hm_get (tp_transactions P))"

lemma shrinks_refl [simp]: "shrinks P P"
  and shrinks_trans: "shrinks P Q \<Longrightarrow> shrinks Q R \<Longrightarrow> shrinks P R"
  and shrinks_ignores [simp]: "shrinks P (count_evicted P') = shrinks P P'" "shrinks P (P'\<lparr>tp_stats := x\<rparr>) = shrinks P P'"
    "shrinks P (P'\<lparr>tp_rate_limiter := l\<rparr>) = shrinks P P'"
  by (auto simp: shrinks_def count_evicted_def intro: map_le_trans)

lemma shrinks_submitted: "shrinks P P' \<Longrightarrow> submitted_only K S P \<Longrightarrow> submitted_only K S P'"
  unfolding shrinks_def submitted_only_def by (auto simp: map_le_def ran_def) (metis (mono_tags) domI mem_Collect_eq subsetD)

lemma remove_shrinks [simp]: "shrinks P (snd (remove_internal h P))"
  by (cases "hm_get (tp_transactions P) h") (simp_all add: remove_none shrinks_def remove_effect(1) map_le_def)

lemma remove_shrinks_eq: "remove_internal h P = (r, P') \<Longrightarrow> shrinks P P'"
  by (metis remove_shrinks snd_conv)

lemma foldl_shrinks: "(\<And>P h. shrinks P (f P h)) \<Longrightarrow> shrinks P (foldl f P hs)"
  by (induction hs arbitrary: P) (auto intro: shrinks_trans)

lemma removals_shrink:
  "shrinks P (snd (pool_remove h P))" "shrinks P (remove_included txs P)" "shrinks P (remove_stale a n P)"
  "shrinks P (cleanup_expired now P)" "shrinks P (prune now P)" "shrinks P (snd (remove_each_hash hs P))"
proof -
  show one: "shrinks P (snd (pool_remove h P))" for P h
    by (auto simp: pool_remove_def dest: remove_shrinks_eq split: prod.splits option.splits)
  show "shrinks P (remove_included txs P)"
    unfolding remove_included_def by (rule foldl_shrinks) (simp add: one split: option.splits)
  show "shrinks P (remove_stale a n P)"
    unfolding remove_stale_def by (rule foldl_shrinks) simp
  have "shrinks P (expire_step P h)" for P h
    by (auto simp: expire_step_def dest: remove_shrinks_eq split: prod.splits option.splits)
  then show clean: "shrinks P (cleanup_expired now P)"
    unfolding cleanup_expired_def Let_def expire_step_def [symmetric] by (simp add: foldl_shrinks)
  show "shrinks P (prune now P)"
    by (rule shrinks_trans [OF clean]) (auto simp: prune_def Let_def shrinks_def)
  show "shrinks P (snd (remove_each_hash hs P))"
  proof (induction hs arbitrary: P)
    case (Cons h hs)
    from shrinks_trans [OF one [of P h] Cons] show ?case by (simp add: Let_def split_beta)
  qed simp
qed

lemma insert_submitted:
  "submitted_only K S P \<Longrightarrow> S tx \<Longrightarrow> stx_hash tx \<noteq> None \<Longrightarrow> submitted_only K S (insert_transaction K now tx (fee_of tx) P)"
  unfolding submitted_only_def
proof (intro conjI ballI; elim conjE)
  assume S: "S tx" "stx_hash tx \<noteq> None"
  then obtain h where h: "stx_hash tx = Some h" by blast
  fix e assume "e \<in> set (tp_priority_queue (insert_transaction K now tx (fee_of tx) P))"
    and "\<forall>e \<in> set (tp_priority_queue P). \<exists>tx now. S tx \<and> stx_hash tx \<noteq> None \<and> e = prioritized_new K now tx (fee_of tx)"
  with S h show "\<exists>tx now. S tx \<and> stx_hash tx \<noteq> None \<and> e = prioritized_new K now tx (fee_of tx)"
    by (auto simp: insert_effect(3) [OF h] simp del: not_None_eq)
next
  assume S: "S tx" "stx_hash tx \<noteq> None" and old: "ran (hm_get (tp_transactions P)) \<subseteq> Collect S"
  then obtain h where h: "stx_hash tx = Some h" by blast
  show "ran (hm_get (tp_transactions (insert_transaction K now tx (fee_of tx) P))) \<subseteq> Collect S"
    using S(1) old by (auto simp: insert_effect(1) [OF h] ran_def split: if_splits)
qed

lemma submitted_ignores [simp]:
  "submitted_only K S (P\<lparr>tp_stats := x\<rparr>) = submitted_only K S P" "submitted_only K S (count_rejected P) = submitted_only K S P"
  "submitted_only K S (P\<lparr>tp_rate_limiter := l\<rparr>) = submitted_only K S P" "submitted_only K S (touch a P) = submitted_only K S P"
  by (simp_all add: submitted_only_def count_rejected_def)

lemma replace_submitted:
  assumes "submitted_only K S P" "S tx" "stx_hash tx \<noteq> None" "try_replace K now tx old P = (r, P')"
  shows "submitted_only K S P'"
  using assms(4) assms(1) insert_submitted [OF shrinks_submitted [OF remove_shrinks assms(1)] assms(2,3)]
  by (auto simp: try_replace_def Let_def split: if_splits)

lemma admit_submitted:
  assumes sub: "submitted_only K S P" and S: "S tx" "stx_hash tx \<noteq> None" and res: "admit K iter now tx P = (r, P')"
  shows "submitted_only K S P'"
proof -
  obtain room P1 where ev: "(if mc_max_size (tp_config P) \<le> length (tp_transactions P) then evict_lowest_fee iter (fee_of tx) P else (True, P)) = (room, P1)"
    by (rule prod.exhaust)
  have "shrinks P P1"
    using ev by (auto simp: evict_lowest_fee_def split: if_splits option.splits)
  then have sub1: "submitted_only K S P1" using sub by (rule shrinks_submitted)
  show ?thesis
    using res ev sub1 insert_submitted [OF sub1 S, of now] replace_submitted [OF sub S]
    by (auto simp: admit_def Let_def split: option.splits if_splits)
qed

lemma add_submitted:
  assumes sub: "submitted_only K S P" and S: "S tx" and res: "add_with_validation K E iter now tx st P = (r, st', P')"
  shows "submitted_only K S P'"
  using res
proof (cases rule: add_cases)
  case (rejected e)
  then show ?thesis using sub by auto
next
  case (checked h l)
  have "submitted_only K S (touch a (P\<lparr>tp_rate_limiter := l\<rparr>))" for a using sub by simp
  note rules = replace_submitted [OF this S] admit_submitted [OF this S]
  from checked(5) show ?thesis
    by (cases rule: checked_cases) (use sub rules checked(1) in auto)
qed

lemma reach_submitted: "pool_reach K E iter S P \<Longrightarrow> submitted_only K S P"
proof (induction rule: pool_reach.induct)
  case (created c)
  then show ?case by (simp add: submitted_only_def pool_with_config_def)
next
  case (added P tx now st)
  then show ?case by (metis add_submitted prod.collapse)
qed (auto intro: shrinks_submitted removals_shrink simp: remove_account_transactions_def)

lemma reach_entries:
  assumes "pool_reach K E iter S P" "walk iter" "hash_binding S" "set heap \<subseteq> set (tp_priority_queue P)"
  shows "entries_ok (tp_transactions P) heap"
  unfolding entries_ok_def
proof (intro ballI allI impI)
  fix e tx assume e: "e \<in> set heap" and get: "hm_get (tp_transactions P) (pt_hash e) = Some tx"
  from reach_submitted [OF assms(1)] e assms(4) obtain tx' now where
    tx': "S tx'" "stx_hash tx' \<noteq> None" "e = prioritized_new K now tx' (fee_of tx')"
    unfolding submitted_only_def by blast
  have "stx_hash tx = Some (pt_hash e)"
    using pool_ok_tx [OF reach_ok [OF assms(1,2)] get] by (simp add: tx_ok_def)
  moreover have "stx_hash tx' = Some (pt_hash e)"
    using tx'(2) by (auto simp: tx'(3) prioritized_new_def signed_hash_def)
  moreover have "S tx"
    using reach_submitted [OF assms(1)] get by (auto simp: submitted_only_def ran_def)
  ultimately have "stx_transaction tx' = stx_transaction tx"
    using assms(3) tx'(1) unfolding hash_binding_def by metis
  then show "pt_sender e = tx_sender (stx_transaction tx) \<and> pt_nonce e = tx_nonce (stx_transaction tx) \<and> pt_fee e = fee_of tx"
    by (simp add: tx'(3) prioritized_new_def)
qed

lemma run_ok_start: "run_ok base txs m [] [] []"
  by (simp add: run_ok_def of_sender_def consecutive_def)

lemma pop_order_sorted:
  assumes "pop_order drain"
  shows "sorted_wrt (\<lambda>a b. pt_fee b \<le> pt_fee a) (drain xs)" "set (drain xs) = set xs" "length (drain xs) = length xs"
proof -
  have "sorted_wrt (\<lambda>a b. \<not> prioritized_less a b) (drain xs)" and perm: "mset (drain xs) = mset xs"
    using assms by (simp_all add: pop_order_def)
  then show "sorted_wrt (\<lambda>a b. pt_fee b \<le> pt_fee a) (drain xs)"
    by (elim sorted_wrt_mono_rel [rotated]) (auto simp: prioritized_less_def)
  show "set (drain xs) = set xs" "length (drain xs) = length xs"
    using perm mset_eq_setD mset_eq_length by blast+
qed

lemma run_ok_distinct:
  assumes "run_ok base txs m seen nonces selected" "\<And>h tx. hm_get txs h = Some tx \<Longrightarrow> stx_hash tx = Some h"
  shows "distinct selected" "set selected \<subseteq> ran (hm_get txs)"
proof -
  have map: "map (hm_get txs) (rev seen) = map Some selected" and d: "distinct seen"
    using assms(1) by (simp_all add: run_ok_def)
  have "set (map (hm_get txs) (rev seen)) = Some ` set selected" unfolding map by simp
  then have some: "\<exists>tx. hm_get txs h = Some tx" if "h \<in> set seen" for h
    using that by auto
  have "inj_on (hm_get txs) (set (rev seen))"
    using some assms(2) by (intro inj_onI) (metis option.inject set_rev)
  then have "distinct (map Some selected)"
    unfolding map [symmetric] using d by (simp add: distinct_map)
  then show "distinct selected" by (simp add: distinct_map)
  have "\<exists>h. hm_get txs h = Some tx" if "tx \<in> set selected" for tx
  proof -
    from that have "Some tx \<in> set (map (hm_get txs) (rev seen))" unfolding map by simp
    then show ?thesis by auto
  qed
  then show "set selected \<subseteq> ran (hm_get txs)" by (auto simp: ran_def)
qed

section \<open>Properties\<close>

text \<open>
  C7: after any sequence of submissions, removals, cleanups and prunings the indexes of the pool
  agree: every pooled transaction carries a valid signature, is stored under its hash, pays the
  recorded fee, which is at least the minimum, owns the slot of its sender and nonce and has an
  entry in the priority queue; every slot points to such a transaction; and neither the pool nor
  any account's queue exceeds its limit.
\<close>

theorem mempool_consistent:
  assumes "pool_reach K E iter S P" "walk iter"
  shows "pool_ok K P"
  using assms by (rule reach_ok)

text \<open>
  C11: a submission that returns an error leaves the transactions, their fees, the priority queue and
  all slots as they were. One that succeeds stores the new transaction under its hash and in its
  slot and removes at most one other: the one in the same slot, if the new fee exceeds its fee
  by the required percentage, or, when the pool is full, one with a strictly lower fee.
\<close>

theorem add_outcome:
  assumes "walk iter" "pool_ok K P" "add_with_validation K E iter now tx st P = (r, st', P')"
  shows "case r of Inl e \<Rightarrow> same_index P P' | Inr _ \<Rightarrow> \<exists>h gone. accepted_as tx P P' h gone"
  using assms by (rule add_outcome_lemma)

text \<open>
  C8: the transactions selected for a block are distinct members of the pool, at most as many as
  asked for, in non-increasing order of fee, and those of each account carry exactly the nonces
  that follow the account's nonce in the state, in order, so each is executable after the ones
  before it. This holds for every order in which the heap returns equal entries, provided the
  hash fields of the submitted transactions identify them.
\<close>

theorem selection_executable:
  assumes "pool_reach K E iter S P" "walk iter" "hash_binding S" "pop_order drain"
    and "select_transactions_with_state E drain m P s = (txs, s')"
  shows "length txs \<le> m \<and> distinct txs \<and> set txs \<subseteq> ran (hm_get (tp_transactions P))
       \<and> sorted_wrt (\<lambda>a b. fee_of b \<le> fee_of a) txs
       \<and> (\<forall>a. consecutive (account_nonce E s a) (of_sender a txs))"
proof -
  have entries: "entries_ok (tp_transactions P) (drain (tp_priority_queue P))"
    using reach_entries [OF assms(1-3)] pop_order_sorted(2) [OF assms(4)] by simp
  from select_run [OF run_ok_start refl entries] obtain seen nonces where
    run: "run_ok (account_nonce E s) (tp_transactions P) m seen nonces txs"
    using assms(5) unfolding select_transactions_with_state_def
    by (metis append_Nil fst_conv)
  have hashes: "hm_get (tp_transactions P) h = Some tx \<Longrightarrow> stx_hash tx = Some h" for h tx
    using pool_ok_tx [OF reach_ok [OF assms(1,2)]] by (simp add: tx_ok_def)
  have "sorted_wrt (\<lambda>a b. fee_of b \<le> fee_of a) (fst (txs, s'))"
    unfolding assms(5) [symmetric] select_transactions_with_state_def
    using pop_order_sorted(1) [OF assms(4)] by (intro select_sorted [OF run_ok_start refl entries]) simp_all
  with run run_ok_distinct [OF run hashes] show ?thesis by (simp add: run_ok_def)
qed

text \<open>
  C12: selection makes progress for every account: if the block has room for the whole queue, the pooled
  transaction that carries the account's current nonce is selected. This holds for every order in which the
  heap returns equal entries, provided the hash fields of the submitted transactions identify them.
\<close>

theorem selection_progress:
  assumes "pool_reach K E iter S P" "walk iter" "hash_binding S" "pop_order drain"
    and "length (tp_priority_queue P) \<le> m" "hm_get (tp_transactions P) h = Some tx"
    and "tx_nonce (stx_transaction tx) = account_nonce E s (tx_sender (stx_transaction tx))"
  shows "tx \<in> set (fst (select_transactions_with_state E drain m P s))"
proof -
  note ok = reach_ok [OF assms(1,2)]
  have entries: "entries_ok (tp_transactions P) (drain (tp_priority_queue P))"
    using reach_entries [OF assms(1-3)] pop_order_sorted(2) [OF assms(4)] by simp
  have unique: "\<forall>tx' \<in> ran (hm_get (tp_transactions P)). tx_sender (stx_transaction tx') = tx_sender (stx_transaction tx)
           \<and> tx_nonce (stx_transaction tx') = tx_nonce (stx_transaction tx) \<longrightarrow> tx' = tx"
  proof (intro ballI impI)
    fix tx' assume "tx' \<in> ran (hm_get (tp_transactions P))"
    then obtain h' where h': "hm_get (tp_transactions P) h' = Some tx'" by (auto simp: ran_def)
    assume "tx_sender (stx_transaction tx') = tx_sender (stx_transaction tx) \<and> tx_nonce (stx_transaction tx') = tx_nonce (stx_transaction tx)"
    then have "h' = h"
      using pool_ok_tx [OF ok h'] pool_ok_tx [OF ok assms(6)] by (simp add: tx_ok_def)
    with h' assms(6) show "tx' = tx" by simp
  qed
  obtain e where e: "e \<in> set (tp_priority_queue P)" "pt_hash e = h"
    using pool_ok_tx [OF ok assms(6)] by (auto simp: tx_ok_def prioritized_new_def signed_hash_def)
  show ?thesis
    unfolding select_transactions_with_state_def
    using e pop_order_sorted(2,3) [OF assms(4)] assms(5)
    by (intro select_head [OF run_ok_start refl entries _ assms(6,7) unique]) auto
qed

section \<open>Examples\<close>

definition by_priority :: "prioritized_tx list \<Rightarrow> prioritized_tx list" where
  "by_priority = sort_key (\<lambda>e. (- uint (pt_fee e), int (pt_added_at e)))"

lemma by_priority_ok: "pop_order by_priority"
  unfolding pop_order_def
proof (intro allI conjI)
  fix xs :: "prioritized_tx list"
  show "mset (by_priority xs) = mset xs" by (simp add: by_priority_def)
  have "sorted (map (\<lambda>e. (- uint (pt_fee e), int (pt_added_at e))) (by_priority xs))"
    unfolding by_priority_def by (rule sorted_sort_key)
  then have "sorted_wrt (\<lambda>a b. (- uint (pt_fee a), int (pt_added_at a)) \<le> (- uint (pt_fee b), int (pt_added_at b))) (by_priority xs)"
    by (simp add: sorted_map)
  then show "sorted_wrt (\<lambda>a b. \<not> prioritized_less a b) (by_priority xs)"
    by (elim sorted_wrt_mono_rel [rotated]) (auto simp: prioritized_less_def less_eq_prod_def word_less_def)
qed

definition pooled :: "u64 \<Rightarrow> transaction_call \<Rightarrow> hash \<Rightarrow> signed_transaction" where
  "pooled n c h = \<lparr>stx_transaction = \<lparr>tx_sender = 1, tx_nonce = n, tx_call = c, tx_timestamp = 0\<rparr>, stx_signature = 1, stx_hash = Some h\<rparr>"

definition submit :: "nat \<Rightarrow> signed_transaction \<Rightarrow> transaction_pool \<Rightarrow> (pool_error, unit) result \<times> transaction_pool" where
  "submit now tx P = (let (r, _, P') = add_with_validation demo_crypto mem_env id now tx None P in (r, P'))"

lemma walk_id: "walk id"
  by (simp add: walk_def)

definition empty_ledger :: "(bytes \<rightharpoonup> bytes) state_backend" where
  "empty_ledger = backend_new (\<lambda>_. None)"

lemma empty_ledger_account: "get_account mem_env a empty_ledger = (Ok None, empty_ledger)"
  by (simp add: get_account_def empty_ledger_def backend_new_def load_def andThen_def st_get_def database_get_def mem_env_def ret_def)

lemma empty_ledger_nonce: "account_nonce mem_env empty_ledger a = 0"
  by (simp add: account_nonce_def empty_ledger_account account_or_zero_def)

lemmas pool_eval = submit_def add_with_validation_def add_checked_def admit_def try_replace_def insert_transaction_def
  limiter_check_def queue_of_def queue_default_def queue_add_def touch_def hm_contains_def pooled_def signed_verify_def
  account_verify_def prioritized_new_def signed_hash_def pool_new_def pool_with_config_def default_mempool_config_def
  evict_lowest_fee_def remove_internal_def queue_remove_def lowest_step_def count_evicted_def count_rejected_def
  Let_def const_defs

definition two_in_pool :: "transaction_call \<Rightarrow> transaction_call \<Rightarrow> transaction_pool" where
  "two_in_pool c0 c1 = snd (submit 1 (pooled 1 c1 11) (snd (submit 0 (pooled 0 c0 10) (pool_new 10))))"

definition demo_submitted :: "transaction_call \<Rightarrow> transaction_call \<Rightarrow> signed_transaction \<Rightarrow> bool" where
  "demo_submitted c0 c1 tx = (tx = pooled 0 c0 10 \<or> tx = pooled 1 c1 11)"

lemma demo_binding: "hash_binding (demo_submitted c0 c1)"
  by (auto simp: hash_binding_def demo_submitted_def pooled_def)

lemma two_in_pool_reach: "pool_reach demo_crypto mem_env id (demo_submitted c0 c1) (two_in_pool c0 c1)"
proof -
  let ?R = "pool_reach demo_crypto mem_env id (demo_submitted c0 c1)"
  have step: "?R P \<Longrightarrow> demo_submitted c0 c1 tx \<Longrightarrow> ?R (snd (submit now tx P))" for P tx now
    using pool_reach.added [of demo_crypto mem_env id "demo_submitted c0 c1" P tx now None]
    by (simp add: submit_def split_beta Let_def)
  have "?R (pool_new 10)" unfolding pool_new_def by (rule pool_reach.created)
  then show ?thesis
    unfolding two_in_pool_def by (intro step) (simp_all add: demo_submitted_def)
qed

theorem mempool_consistent_witness:
  "length (tp_transactions (two_in_pool (Transfer 2 5) (Transfer 2 5))) = 2
   \<and> pool_ok demo_crypto (two_in_pool (Transfer 2 5) (Transfer 2 5))"
proof -
  have "length (tp_transactions (two_in_pool (Transfer 2 5) (Transfer 2 5))) = 2"
    by (simp add: two_in_pool_def pool_eval demo_crypto_def)
  then show ?thesis using mempool_consistent [OF two_in_pool_reach walk_id] by simp
qed

text \<open>A stake (fee 5000) takes the slot of a transfer (fee 1000) with the same nonce.\<close>

theorem add_outcome_witness:
  "fst (submit 2 (pooled 1 (Stake 7) 12) (two_in_pool (Transfer 2 5) (Transfer 2 5))) = Ok ()
   \<and> (\<exists>h gone. accepted_as (pooled 1 (Stake 7) 12) (two_in_pool (Transfer 2 5) (Transfer 2 5))
        (snd (submit 2 (pooled 1 (Stake 7) 12) (two_in_pool (Transfer 2 5) (Transfer 2 5)))) h gone)"
proof -
  let ?P = "two_in_pool (Transfer 2 5) (Transfer 2 5)" and ?tx = "pooled 1 (Stake 7) 12"
  have ok: "fst (submit 2 ?tx ?P) = Ok ()"
    by (simp add: two_in_pool_def pool_eval demo_crypto_def sat_mul_def sat_add_def)
  obtain st' P' where res: "add_with_validation demo_crypto mem_env id 2 ?tx None ?P = (Ok (), st', P')"
    using ok by (cases "add_with_validation demo_crypto mem_env id 2 ?tx None ?P") (auto simp: submit_def)
  from add_outcome [OF walk_id reach_ok [OF two_in_pool_reach walk_id] res] ok show ?thesis
    by (simp add: submit_def res)
qed

lemma two_selected:
  "select_transactions_with_state mem_env by_priority 5 (two_in_pool (Transfer 2 5) (Transfer 2 5)) empty_ledger
     = ([pooled 0 (Transfer 2 5) 10, pooled 1 (Transfer 2 5) 11], empty_ledger)"
  by (simp add: select_transactions_with_state_def two_in_pool_def pool_eval demo_crypto_def by_priority_def
      empty_ledger_account account_or_zero_def)

theorem selection_executable_witness:
  "fst (select_transactions_with_state mem_env by_priority 5 (two_in_pool (Transfer 2 5) (Transfer 2 5)) empty_ledger)
     = [pooled 0 (Transfer 2 5) 10, pooled 1 (Transfer 2 5) 11]
   \<and> consecutive 0 (of_sender 1 [pooled 0 (Transfer 2 5) 10, pooled 1 (Transfer 2 5) 11])"
  using selection_executable [OF two_in_pool_reach walk_id demo_binding by_priority_ok two_selected]
  by (simp add: two_selected empty_ledger_nonce)

theorem selection_progress_witness:
  "pooled 0 (Transfer 2 5) 10 \<in> set (fst (select_transactions_with_state mem_env by_priority 5
     (two_in_pool (Transfer 2 5) (Transfer 2 5)) empty_ledger))"
proof (rule selection_progress [OF two_in_pool_reach walk_id demo_binding by_priority_ok])
  show "length (tp_priority_queue (two_in_pool (Transfer 2 5) (Transfer 2 5))) \<le> 5"
    "hm_get (tp_transactions (two_in_pool (Transfer 2 5) (Transfer 2 5))) 10 = Some (pooled 0 (Transfer 2 5) 10)"
    by (simp_all add: two_in_pool_def pool_eval demo_crypto_def)
  show "tx_nonce (stx_transaction (pooled 0 (Transfer 2 5) 10))
      = account_nonce mem_env empty_ledger (tx_sender (stx_transaction (pooled 0 (Transfer 2 5) 10)))"
    by (simp add: empty_ledger_nonce pooled_def)
qed

text \<open>
  A better paying transaction that is popped before the one with the preceding nonce is skipped for
  good, although both would fit: the loop never returns to a skipped entry.
\<close>

lemma skipped_entry_is_lost:
  "fst (select_transactions_with_state mem_env by_priority 5 (two_in_pool (Transfer 2 5) (Stake 7)) empty_ledger)
     = [pooled 0 (Transfer 2 5) 10]"
  by (simp add: select_transactions_with_state_def two_in_pool_def pool_eval demo_crypto_def by_priority_def
      empty_ledger_account account_or_zero_def)

text \<open>
  The hash field of a transaction is taken from the sender unchecked. A second transaction sent with
  the hash of a removed one is selected through the removed one's entry, with a nonce (5) that the
  account (0) has not reached.
\<close>

lemma forged_hash_misleads_selection:
  "fst (select_transactions_with_state mem_env by_priority 5
      (snd (submit 1 (pooled 5 (Transfer 2 5) 10) (snd (pool_remove 10 (snd (submit 0 (pooled 0 (Transfer 2 5) 10) (pool_new 10)))))))
      empty_ledger)
     = [pooled 5 (Transfer 2 5) 10]"
  by (simp add: select_transactions_with_state_def pool_remove_def pool_eval demo_crypto_def by_priority_def
      bm_remove_def empty_ledger_account account_or_zero_def)

text \<open>
  The fee is fixed by the kind of call, so replacement by fee cannot raise the fee of a call: the same kind
  of call in the same slot is always refused.
\<close>

lemma same_call_never_replaces:
  assumes "pool_ok K P" "slot P (tx_sender (stx_transaction tx)) (tx_nonce (stx_transaction tx)) = Some old"
    and "hm_get (tp_transactions P) old = Some otx" "fee_of otx = fee_of tx" "1 \<le> mc_rbf_min_increase_pct (tp_config P)"
  shows "try_replace K now tx old P = (Err (RbfFeeInsufficient (mc_rbf_min_increase_pct (tp_config P))), count_rejected P)"
proof -
  let ?p = "mc_rbf_min_increase_pct (tp_config P)"
  have f: "1000 \<le> unat (fee_of tx)" using base_fee_bounds [of "tx_call (stx_transaction tx)"] by simp
  have p: "1 \<le> unat ?p" using assms(5) by (simp add: word_le_nat_alt)
  have "1000 * 1 \<le> unat (fee_of tx) * unat ?p" using f p by (intro mult_mono) auto
  then have "0 < unat (fee_of tx) * unat ?p div 100" by simp
  then have "fee_of tx < sat_add (fee_of tx) (sat_mul (fee_of tx) (ucast ?p) div 100)"
    by (simp add: word_less_nat_alt rbf_required)
  moreover have "hm_get (tp_fees P) old = Some (fee_of tx)"
    using pool_ok_tx [OF assms(1,3)] assms(4) by (simp add: tx_ok_def)
  ultimately show ?thesis by (simp add: try_replace_def Let_def)
qed

end
