(* ===== verification/Kratos_Sync.thy ===== *)
theory Kratos_Sync
  imports Kratos_Executor
begin

text \<open>
  Two nodes that hold the same accounts stay in step. \<open>synced\<close> relates the states of two nodes on
  healthy databases: the account entries agree byte for byte, the credit records agree, and so do
  the unbonding requests, except for requests over amount zero, which no operation can tell from
  absent ones. The transaction executor is shown to give the same result on related states, and
  a failing transaction to leave the state related to what it was.
\<close>

section \<open>Pairs of runs\<close>

definition sim :: "('s \<Rightarrow> 's \<Rightarrow> bool) \<Rightarrow> ('s, 'e, 'a) action \<Rightarrow> bool" where
  "sim R m = (\<forall>s t. R s t \<longrightarrow> (\<exists>r s' t'. m s = (r, s') \<and> m t = (r, t') \<and> R s' t'))"

lemma simI: "(\<And>s t. R s t \<Longrightarrow> \<exists>r s' t'. m s = (r, s') \<and> m t = (r, t') \<and> R s' t') \<Longrightarrow> sim R m"
  by (simp add: sim_def)

lemma simE:
  assumes "sim R m" "R s t"
  obtains r s' t' where "m s = (r, s')" "m t = (r, t')" "R s' t'"
  using assms unfolding sim_def by blast

lemma sim_ret: "sim R (ret a)" and sim_throw: "sim R (throw e)"
  by (auto simp: sim_def ret_def throw_def)

lemma sim_andThen:
  assumes "sim R m" "\<And>a. sim R (f a)"
  shows "sim R (andThen m f)"
proof (rule simI)
  fix s t assume "R s t"
  with assms(1) obtain r s' t' where m: "m s = (r, s')" "m t = (r, t')" "R s' t'" by (rule simE)
  show "\<exists>r s' t'. andThen m f s = (r, s') \<and> andThen m f t = (r, t') \<and> R s' t'"
  proof (cases r)
    case (Inl e)
    then show ?thesis using m by (simp add: andThen_def)
  next
    case (Inr a)
    obtain r2 s2 t2 where "f a s' = (r2, s2)" "f a t' = (r2, t2)" "R s2 t2" by (rule simE [OF assms(2) m(3)])
    then show ?thesis using m Inr by (simp add: andThen_def)
  qed
qed

lemma sim_if:
  assumes "P \<Longrightarrow> sim R m" "\<not> P \<Longrightarrow> sim R n"
  shows "sim R (if P then m else n)" "sim R (\<lambda>s. if P then m s else n s)"
  using assms by (cases P; simp)+

lemma sim_option: "sim R m \<Longrightarrow> (\<And>x. sim R (f x)) \<Longrightarrow> sim R (case r of None \<Rightarrow> m | Some x \<Rightarrow> f x)"
  by (cases r) simp_all

section \<open>Related states\<close>

definition real_requests :: "unbonding_info \<Rightarrow> unbonding_info" where
  "real_requests us = filter (\<lambda>u. ue_amount u \<noteq> 0) us"

definition agree :: "'d storage_env \<Rightarrow> ('d \<Rightarrow> bytes \<rightharpoonup> bytes) \<Rightarrow> 'd state_backend \<Rightarrow> 'd state_backend \<Rightarrow> bool" where
  "agree E content s t =
     ((\<forall>k. starts_with k PREFIX_ACCOUNT \<longrightarrow> content (sb_db s) k = content (sb_db t) k)
    \<and> (\<forall>i. content (sb_db s) (vc_key i) = content (sb_db t) (vc_key i))
    \<and> (\<forall>i. real_requests (pending_of (unbondings E content s) i) = real_requests (pending_of (unbondings E content t) i)))"

definition synced :: "'d storage_env \<Rightarrow> ('d \<Rightarrow> bytes \<rightharpoonup> bytes) \<Rightarrow> 'd state_backend \<Rightarrow> 'd state_backend \<Rightarrow> bool" where
  "synced E content s t = (healthy E content s \<and> healthy E content t \<and> agree E content s t)"

lemma synced_refl: "healthy E content s \<Longrightarrow> synced E content s s"
  and synced_sym: "synced E content s t \<Longrightarrow> synced E content t s"
  and synced_trans: "synced E content s t \<Longrightarrow> synced E content t u \<Longrightarrow> synced E content s u"
  by (simp_all add: synced_def agree_def)

lemma account_key_prefix: "starts_with (account_key i) PREFIX_ACCOUNT"
  by (simp add: account_key_def starts_with_def)

lemma synced_accounts: "synced E content s t \<Longrightarrow> accounts E content s = accounts E content t"
  using account_key_prefix by (simp add: synced_def agree_def accounts_def stored_def fun_eq_iff)

lemma foreign_keys:
  "\<not> starts_with (unbonding_key i) PREFIX_ACCOUNT" "\<not> starts_with (vc_key i) PREFIX_ACCOUNT"
  "account_key i \<noteq> vc_key j" "unbonding_key i \<noteq> vc_key j"
  using account_key_neq(1) key_bytes_eq [of "KUnbonding i" "KVc j"]
  by (simp_all add: unbonding_key_def vc_key_def starts_with_def PREFIX_ACCOUNT_def PREFIX_UNBONDING_def PREFIX_VC_def ascii_def)

section \<open>Storage operations on related states\<close>

lemma save_exact:
  assumes "storage_total E" "storage_laws E content" "serialize C x = Ok bs"
  obtains s' where "save E C key x s = (Ok (), s')" "content (sb_db s') = (content (sb_db s))(key \<mapsto> bs)"
    "sb_account_cache s' = sb_account_cache s"
proof -
  obtain s' where s': "save E C key x s = (Ok (), s')"
    using save_total [OF assms(1), of C x key s] assms(3) by auto
  then have "st_put E key bs s = (Ok (), s')" using assms(3) by (simp add: save_def)
  from st_put_ok [OF assms(2) this] s' that show ?thesis by blast
qed

lemma healthyD: "healthy E content s \<Longrightarrow> storage_total E" "healthy E content s \<Longrightarrow> storage_laws E content"
  by (simp_all add: healthy_def state_ok_def)

lemma healthy_serialize:
  assumes "healthy E content s"
  shows "\<exists>bs. serialize (bc_account E) info = Ok bs" "\<exists>bs. serialize (bc_unbonding E) us = Ok bs"
  using healthyD(1) [OF assms] unfolding storage_total_def is_ok_iff by blast+

lemma set_account_exact:
  assumes h: "healthy E content s" and bs: "serialize (bc_account E) info = Ok bs"
  obtains s' where "set_account E i info s = (Ok (), s')" "healthy E content s'"
    "content (sb_db s') = (content (sb_db s))(account_key i \<mapsto> bs)"
proof -
  obtain t where t: "save E (bc_account E) (account_key i) info s = (Ok (), t)"
    "content (sb_db t) = (content (sb_db s))(account_key i \<mapsto> bs)" by (rule save_exact [OF healthyD [OF h] bs])
  let ?s = "t\<lparr>sb_account_cache := hm_insert i info (sb_account_cache t)\<rparr>"
  have e: "set_account E i info s = (Ok (), ?s)" using t by (simp add: set_account_def andThen_def)
  with set_account_healthy [OF h, of i info] have "healthy E content ?s" by simp
  with that [OF e] t(2) show ?thesis by simp
qed

lemma set_unbonding_exact:
  assumes h: "healthy E content s" and bs: "serialize (bc_unbonding E) info = Ok bs"
  obtains s' where "set_unbonding_info E i info s = (Ok (), s')" "healthy E content s'"
    "content (sb_db s') = (content (sb_db s))(unbonding_key i \<mapsto> bs)"
    "unbondings E content s' = (unbondings E content s)(i \<mapsto> info)"
proof -
  obtain t where t: "save E (bc_unbonding E) (unbonding_key i) info s = (Ok (), t)"
    "content (sb_db t) = (content (sb_db s))(unbonding_key i \<mapsto> bs)" by (rule save_exact [OF healthyD [OF h] bs])
  obtain s' where s': "set_unbonding_info E i info s = (Ok (), s')" "healthy E content s'"
    "unbondings E content s' = (unbondings E content s)(i \<mapsto> info)"
    using set_unbonding_step [OF h, of i info] by metis
  have "s' = t" using s'(1) t(1) by (simp add: set_unbonding_info_def)
  with s' t that show ?thesis by blast
qed

lemma delete_unbonding_exact:
  assumes h: "healthy E content s"
  obtains s' where "st_delete E (unbonding_key i) s = (Ok (), s')" "healthy E content s'"
    "content (sb_db s') = (content (sb_db s))(unbonding_key i := None)"
    "unbondings E content s' = (unbondings E content s)(i := None)"
proof -
  obtain s' where s': "st_delete E (unbonding_key i) s = (Ok (), s')" "healthy E content s'"
    "unbondings E content s' = (unbondings E content s)(i := None)"
    using delete_unbonding_step [OF h, of i] by metis
  have "storage_laws E content" using h by (simp add: healthy_def state_ok_def)
  from st_delete_ok [OF this s'(1)] s' that show ?thesis by blast
qed

lemma pending_upd [simp]:
  "pending_of (U(i \<mapsto> us)) j = (if j = i then us else pending_of U j)"
  "pending_of (U(i := None)) j = (if j = i then [] else pending_of U j)"
  by (simp_all add: pending_of_def)

text \<open>The requests of one account are rewritten, whichever way, in both of two related states.\<close>

lemma agree_unbondings:
  assumes ag: "agree E content s t"
    and s': "content (sb_db s') = (content (sb_db s))(unbonding_key i := x)" "unbondings E content s' = (unbondings E content s)(i := v)"
    and t': "content (sb_db t') = (content (sb_db t))(unbonding_key i := y)" "unbondings E content t' = (unbondings E content t)(i := w)"
    and same: "real_requests (case v of Some us \<Rightarrow> us | None \<Rightarrow> []) = real_requests (case w of Some us \<Rightarrow> us | None \<Rightarrow> [])"
  shows "agree E content s' t'"
  unfolding agree_def
proof (intro conjI allI impI)
  fix k assume "starts_with k PREFIX_ACCOUNT"
  then show "content (sb_db s') k = content (sb_db t') k"
    using ag foreign_keys(1) [of i] by (auto simp: agree_def s'(1) t'(1))
next
  fix j show "content (sb_db s') (vc_key j) = content (sb_db t') (vc_key j)"
    using ag foreign_keys(4) [of i j] by (auto simp: agree_def s'(1) t'(1))
next
  fix j show "real_requests (pending_of (unbondings E content s') j) = real_requests (pending_of (unbondings E content t') j)"
    using ag same by (simp add: agree_def pending_of_def s'(2) t'(2))
qed

lemma synced_get_account: "sim (synced E content) (get_account E i)"
proof (rule simI)
  fix s t assume st: "synced E content s t"
  then have "healthy E content s" "healthy E content t" by (simp_all add: synced_def)
  then obtain s' t' where
    s': "get_account E i s = (Ok (accounts E content s i), s')" "healthy E content s'" and
    t': "get_account E i t = (Ok (accounts E content t i), t')" "healthy E content t'"
    by (metis get_account_step)
  have "sb_db s' = sb_db s" "sb_db t' = sb_db t"
    using get_account_ok [of E content s i] get_account_ok [of E content t i] s' t' st by (auto simp: synced_def healthy_def)
  then have "synced E content s' t'"
    using st s'(2) t'(2) by (simp add: synced_def agree_def unbondings_def stored_def)
  then show "\<exists>r s' t'. get_account E i s = (r, s') \<and> get_account E i t = (r, t') \<and> synced E content s' t'"
    using s'(1) t'(1) synced_accounts [OF st] by metis
qed

lemma synced_set_account: "sim (synced E content) (set_account E i info)"
proof (rule simI)
  fix s t assume st: "synced E content s t"
  then have h: "healthy E content s" "healthy E content t" by (simp_all add: synced_def)
  then obtain bs where bs: "serialize (bc_account E) info = Ok bs"
    using healthy_serialize(1) by blast
  obtain s' where s': "set_account E i info s = (Ok (), s')" "healthy E content s'"
    "content (sb_db s') = (content (sb_db s))(account_key i \<mapsto> bs)" by (rule set_account_exact [OF h(1) bs])
  obtain t' where t': "set_account E i info t = (Ok (), t')" "healthy E content t'"
    "content (sb_db t') = (content (sb_db t))(account_key i \<mapsto> bs)" by (rule set_account_exact [OF h(2) bs])
  have u: "unbondings E content s' = unbondings E content s" "unbondings E content t' = unbondings E content t"
    using s'(3) t'(3) by (auto simp: unbondings_def stored_def fun_eq_iff account_key_neq(2) [symmetric])
  have "agree E content s' t'"
    using st foreign_keys(3) [of i] unfolding synced_def agree_def u s'(3) t'(3) by (auto simp: eq_commute [of "account_key i"])
  with s' t' show "\<exists>r s' t'. set_account E i info s = (r, s') \<and> set_account E i info t = (r, t') \<and> synced E content s' t'"
    by (auto simp: synced_def)
qed

lemma synced_add_unbonding: "sim (synced E content) (add_unbonding_request E i amount now period)"
proof (rule simI)
  fix s t assume st: "synced E content s t"
  then have h: "healthy E content s" "healthy E content t" and ag: "agree E content s t" by (simp_all add: synced_def)
  let ?new = "\<lparr>ue_amount = amount, ue_unbonding_started = now, ue_release_block = sat_add now period\<rparr>"
  let ?us = "\<lambda>x. pending_of (unbondings E content x) i @ [?new]"
  have run: "add_unbonding_request E i amount now period x = set_unbonding_info E i (?us x) x" if "healthy E content x" for x
    using get_unbonding_step [OF that, of i] by (simp add: add_unbonding_request_def andThen_def Let_def pending_of_def)
  obtain bs bt where b: "serialize (bc_unbonding E) (?us s) = Ok bs" "serialize (bc_unbonding E) (?us t) = Ok bt"
    using healthy_serialize(2) [OF h(1)] by metis
  obtain s' where s': "set_unbonding_info E i (?us s) s = (Ok (), s')" "healthy E content s'"
    "content (sb_db s') = (content (sb_db s))(unbonding_key i \<mapsto> bs)"
    "unbondings E content s' = (unbondings E content s)(i \<mapsto> ?us s)" by (rule set_unbonding_exact [OF h(1) b(1)])
  obtain t' where t': "set_unbonding_info E i (?us t) t = (Ok (), t')" "healthy E content t'"
    "content (sb_db t') = (content (sb_db t))(unbonding_key i \<mapsto> bt)"
    "unbondings E content t' = (unbondings E content t)(i \<mapsto> ?us t)" by (rule set_unbonding_exact [OF h(2) b(2)])
  have same: "real_requests (?us s) = real_requests (?us t)"
    using ag by (simp add: agree_def real_requests_def)
  have "agree E content s' t'"
    using same by (intro agree_unbondings [OF ag s'(3,4) t'(3,4)]) simp
  with s' t' run h show "\<exists>r s' t'. add_unbonding_request E i amount now period s = (r, s')
      \<and> add_unbonding_request E i amount now period t = (r, t') \<and> synced E content s' t'"
    by (auto simp: synced_def)
qed

lemma foldl_real: "foldl (\<lambda>w u. sat_add w (ue_amount u)) a us = foldl (\<lambda>w u. sat_add w (ue_amount u)) a (real_requests us)"
  by (induction us arbitrary: a) (simp_all add: real_requests_def)

lemma foldl_zero:
  "foldl (\<lambda>w u. sat_add w (ue_amount u)) a us = 0 \<Longrightarrow> a = 0 \<and> real_requests us = []"
proof (induction us arbitrary: a)
  case (Cons u us)
  then have "sat_add a (ue_amount u) = 0" and rest: "real_requests us = []" by auto
  then have "unat (sat_add a (ue_amount u)) = 0" by simp
  then have "unat a = 0" "unat (ue_amount u) = 0" by (simp_all add: unat_sat_add min_def split: if_splits)
  then show ?case using rest by (simp add: real_requests_def unat_eq_zero)
qed (simp add: real_requests_def)

lemma real_filter: "real_requests (filter P us) = filter P (real_requests us)"
  by (induction us) (simp_all add: real_requests_def)

lemma withdraw_exact:
  fixes i :: account_id
  assumes h: "healthy E content s"
  defines "us \<equiv> pending_of (unbondings E content s) i"
  obtains s' x v where "withdraw_matured_unbonding E i now s
      = (Ok (foldl (\<lambda>w u. sat_add w (ue_amount u)) 0 (filter (\<lambda>u. ue_release_block u \<le> now) us)), s')"
    "healthy E content s'" "content (sb_db s') = (content (sb_db s))(unbonding_key i := x)"
    "unbondings E content s' = (unbondings E content s)(i := v)"
    "(case v of Some us' \<Rightarrow> us' | None \<Rightarrow> []) = filter (\<lambda>u. \<not> ue_release_block u \<le> now) us"
proof (cases "unbondings E content s i")
  case None
  then have "(unbondings E content s)(i := None) = unbondings E content s" by auto
  then show thesis
    using None get_unbonding_step [OF h, of i] h
    by (intro that [of s "content (sb_db s) (unbonding_key i)" None])
      (simp_all add: withdraw_matured_unbonding_def andThen_def ret_def us_def pending_of_def)
next
  case (Some info)
  then have us: "us = info" by (simp add: us_def pending_of_def)
  let ?rem = "filter (\<lambda>u. \<not> ue_release_block u \<le> now) info"
  have run: "withdraw_matured_unbonding E i now s = andThen (if ?rem = [] then st_delete E (unbonding_key i) else set_unbonding_info E i ?rem)
      (\<lambda>_. ret (foldl (\<lambda>w u. sat_add w (ue_amount u)) 0 (filter (\<lambda>u. ue_release_block u \<le> now) us))) s"
    using get_unbonding_step [OF h, of i] Some by (simp add: withdraw_matured_unbonding_def andThen_def us comp_def)
  show thesis
  proof (cases "?rem = []")
    case True
    obtain s' where "st_delete E (unbonding_key i) s = (Ok (), s')" "healthy E content s'"
      "content (sb_db s') = (content (sb_db s))(unbonding_key i := None)"
      "unbondings E content s' = (unbondings E content s)(i := None)" by (rule delete_unbonding_exact [OF h])
    with True run us show thesis by (intro that [of s' None None]) (simp_all add: andThen_def ret_def)
  next
    case False
    obtain bs where bs: "serialize (bc_unbonding E) ?rem = Ok bs" using healthy_serialize(2) [OF h] by blast
    obtain s' where "set_unbonding_info E i ?rem s = (Ok (), s')" "healthy E content s'"
      "content (sb_db s') = (content (sb_db s))(unbonding_key i \<mapsto> bs)"
      "unbondings E content s' = (unbondings E content s)(i \<mapsto> ?rem)" by (rule set_unbonding_exact [OF h bs])
    with False run us show thesis by (intro that [of s' "Some bs" "Some ?rem"]) (simp_all add: andThen_def ret_def)
  qed
qed

lemma synced_withdraw: "sim (synced E content) (withdraw_matured_unbonding E i now)"
proof (rule simI)
  fix s t assume st: "synced E content s t"
  then have h: "healthy E content s" "healthy E content t" and ag: "agree E content s t" by (simp_all add: synced_def)
  let ?ps = "pending_of (unbondings E content s) i" and ?pt = "pending_of (unbondings E content t) i"
  let ?due = "filter (\<lambda>u. ue_release_block u \<le> now)" and ?late = "filter (\<lambda>u. \<not> ue_release_block u \<le> now)"
  let ?pay = "\<lambda>us. foldl (\<lambda>w u. sat_add w (ue_amount u)) (0 :: balance) us"
  obtain s' x v where s': "withdraw_matured_unbonding E i now s = (Ok (?pay (?due ?ps)), s')" "healthy E content s'"
    "content (sb_db s') = (content (sb_db s))(unbonding_key i := x)" "unbondings E content s' = (unbondings E content s)(i := v)"
    "(case v of Some us' \<Rightarrow> us' | None \<Rightarrow> []) = ?late ?ps" by (rule withdraw_exact [OF h(1)])
  obtain t' y w where t': "withdraw_matured_unbonding E i now t = (Ok (?pay (?due ?pt)), t')" "healthy E content t'"
    "content (sb_db t') = (content (sb_db t))(unbonding_key i := y)" "unbondings E content t' = (unbondings E content t)(i := w)"
    "(case w of Some us' \<Rightarrow> us' | None \<Rightarrow> []) = ?late ?pt" by (rule withdraw_exact [OF h(2)])
  have req: "real_requests ?ps = real_requests ?pt" using ag by (simp add: agree_def)
  then have pay: "?pay (?due ?ps) = ?pay (?due ?pt)"
    using foldl_real [of 0 "?due ?ps"] foldl_real [of 0 "?due ?pt"] by (simp add: real_filter)
  have "agree E content s' t'"
    using req by (intro agree_unbondings [OF ag s'(3,4) t'(3,4)]) (simp add: s'(5) t'(5) real_filter)
  with s' t' pay show "\<exists>r s' t'. withdraw_matured_unbonding E i now s = (r, s')
      \<and> withdraw_matured_unbonding E i now t = (r, t') \<and> synced E content s' t'"
    by (auto simp: synced_def)
qed

text \<open>A withdrawal that finds nothing to pay removes at most requests over amount zero.\<close>

lemma empty_withdrawal:
  assumes h: "healthy E content s" and w: "withdraw_matured_unbonding E i now s = (Ok 0, s')"
  shows "synced E content s s'"
proof -
  let ?ps = "pending_of (unbondings E content s) i"
  obtain t x v where t: "withdraw_matured_unbonding E i now s = (Ok (foldl (\<lambda>w u. sat_add w (ue_amount u)) 0 (filter (\<lambda>u. ue_release_block u \<le> now) ?ps)), t)"
    "healthy E content t" "content (sb_db t) = (content (sb_db s))(unbonding_key i := x)"
    "unbondings E content t = (unbondings E content s)(i := v)"
    "(case v of Some us' \<Rightarrow> us' | None \<Rightarrow> []) = filter (\<lambda>u. \<not> ue_release_block u \<le> now) ?ps" by (rule withdraw_exact [OF h])
  have s': "s' = t" and zero: "foldl (\<lambda>w u. sat_add w (ue_amount u)) 0 (filter (\<lambda>u. ue_release_block u \<le> now) ?ps) = 0"
    using w t(1) by simp_all
  have "real_requests (filter (\<lambda>u. ue_release_block u \<le> now) ?ps) = []"
    using foldl_zero [OF zero] by simp
  then have "real_requests (filter (\<lambda>u. \<not> ue_release_block u \<le> now) ?ps) = real_requests ?ps"
    unfolding real_filter by (simp add: filter_empty_conv filter_id_conv)
  then have "agree E content t s"
    using t(3-5) by (intro agree_unbondings [of E content s s t i x v s "content (sb_db s) (unbonding_key i)" "unbondings E content s i"])
      (simp_all add: agree_def pending_of_def)
  then have "synced E content t s" using t(2) h by (simp add: synced_def)
  then show ?thesis unfolding s' by (rule synced_sym)
qed

section \<open>Execution on related states\<close>

definition both :: "('s \<Rightarrow> 's \<Rightarrow> bool) \<Rightarrow> 's \<times> 'a \<Rightarrow> 's \<times> 'a \<Rightarrow> bool" where
  "both R x y = (R (fst x) (fst y) \<and> snd x = snd y)"

lemma sim_on_state:
  fixes R :: "'d state_backend \<Rightarrow> 'd state_backend \<Rightarrow> bool" and m :: "('d, 'a) state_action"
  assumes "sim R m"
  shows "sim (both R) (on_state g m)"
proof (rule simI, clarify)
  fix s t :: "'d state_backend" and a b :: account_info
  assume xy: "both R (s, a) (t, b)"
  then obtain r s' t' where "m s = (r, s')" "m t = (r, t')" "R s' t'"
    using assms by (auto simp: both_def elim: simE)
  then show "\<exists>r s' t'. on_state g m (s, a) = (r, s') \<and> on_state g m (t, b) = (r, t') \<and> both R s' t'"
    using xy by (cases r) (auto simp: on_state_def both_def)
qed

lemma sim_set_sender: "sim (both R) (set_sender a)"
  by (auto simp: sim_def set_sender_def both_def)

lemma sim_with_sender: "(\<And>a. sim (both R) (f a)) \<Longrightarrow> sim (both R) (\<lambda>(s, a). f a (s, a))"
  by (auto simp: sim_def both_def)

lemma synced_execute_call: "sim (both (synced E content)) (execute_call E sender n c)"
proof -
  note rules = sim_with_sender sim_if sim_throw sim_ret sim_andThen sim_set_sender sim_on_state
    synced_get_account synced_set_account synced_add_unbonding synced_withdraw
  have stake: "sim (both (synced E content)) (execute_stake amount)" for amount
    unfolding execute_stake_def Let_def by (rule sim_with_sender) (intro rules)
  show ?thesis
  proof (cases c)
    case (Transfer dest amount)
    show ?thesis unfolding Transfer execute_call.simps execute_transfer_def Let_def
      by (rule sim_with_sender) (intro rules)
  next
    case (Unstake amount)
    show ?thesis unfolding Unstake execute_call.simps execute_unstake_def Let_def
      by (rule sim_with_sender) (intro rules)
  next
    case WithdrawUnbonded
    show ?thesis unfolding WithdrawUnbonded execute_call.simps execute_withdraw_unbonded_def Let_def
      by (rule sim_with_sender) (intro rules)
  next
    case (CreateSidechain m deposit)
    show ?thesis unfolding CreateSidechain execute_call.simps execute_reserve_def Let_def
      by (rule sim_with_sender) (intro rules)
  qed (simp_all add: stake sim_ret)
qed

lemma synced_execute:
  assumes st: "synced E content s t" and run: "execute E tx n s = (r, s')"
  obtains t' where "execute E tx n t = (r, t')" "synced E content s' t'"
proof (cases "signed_verify (se_crypto E) tx")
  case False
  with run st that [of t] show thesis by (simp add: execute_def)
next
  case True
  let ?i = "tx_sender (stx_transaction tx)"
  obtain q s1 t1 where get: "get_account E ?i s = (q, s1)" "get_account E ?i t = (q, t1)" "synced E content s1 t1"
    by (rule simE [OF synced_get_account st])
  show thesis
  proof (cases "\<exists>a. q = Ok (Some a)")
    case False
    then show thesis
      using that [of t1] run True get by (cases q) (auto simp: execute_def split: option.splits)
  next
    case True
    then obtain a where q: "q = Ok (Some a)" by blast
    have ws: "execute_with_sender E tx n a s1 = (r, s')"
      and wt: "execute E tx n t = execute_with_sender E tx n a t1"
      using run \<open>signed_verify (se_crypto E) tx\<close> get q by (simp_all add: execute_def)
    have "both (synced E content) (s1, a) (t1, a)" using get(3) by (simp add: both_def)
    with synced_execute_call obtain c s2 t2 where
      call: "execute_call E ?i n (tx_call (stx_transaction tx)) (s1, a) = (c, s2)"
        "execute_call E ?i n (tx_call (stx_transaction tx)) (t1, a) = (c, t2)" "both (synced E content) s2 t2"
      by (rule simE)
    obtain s2' t2' a2 where s2: "s2 = (s2', a2)" "t2 = (t2', a2)" "synced E content s2' t2'"
      using call(3) by (cases s2, cases t2) (auto simp: both_def)
    let ?info = "a2\<lparr>ai_free := sat_sub (ai_free a2) (base_fee (tx_call (stx_transaction tx))), ai_nonce := ai_nonce a2 + 1,
                     ai_last_modified := signed_hash (se_crypto E) tx\<rparr>"
    obtain u s3 t3 where set: "set_account E ?i ?info s2' = (u, s3)" "set_account E ?i ?info t2' = (u, t3)" "synced E content s3 t3"
      by (rule simE [OF synced_set_account s2(3)])
    show thesis
      using that ws wt call(1,2) s2 set get(3)
      by (auto simp: execute_with_sender_def Let_def split: if_splits sum.splits)
  qed
qed

text \<open>A failing transaction changes nothing that another node could observe.\<close>

lemma failed_call:
  assumes h: "healthy E content s" and run: "execute_call E i n c (s, a) = (Inl e, (s', a'))"
  shows "synced E content s s'"
proof -
  note refl = synced_refl [OF h]
  have stake: "execute_stake amount (s, a) = (Inl e, (s', a')) \<Longrightarrow> s' = s" for amount
    by (auto simp: execute_stake_def Let_def throw_def set_sender_def split: if_splits)
  show ?thesis
  proof (cases c)
    case (Transfer dest amount)
    obtain s1 where s1: "get_account E dest s = (Ok (accounts E content s dest), s1)" "healthy E content s1"
      using get_account_step [OF h] by metis
    have "fst (set_account E dest info s1) = Ok ()" for info
      using set_account_step [OF s1(2), of dest info] by (metis fst_conv)
    then show ?thesis
      using run Transfer s1(1) refl
      by (auto simp: execute_transfer_def Let_def throw_def andThen_def set_sender_def on_state_def
          split: if_splits prod.splits sum.splits) (metis Inl_Inr_False fst_conv)+
  next
    case (Unstake amount)
    have "\<exists>r s1. add_unbonding_request E i amount n UNBONDING_PERIOD s = (Ok r, s1)"
      using get_unbonding_step [OF h, of i] set_unbonding_step [OF h, of i]
      by (auto simp: add_unbonding_request_def andThen_def Let_def)
    then show ?thesis
      using run Unstake refl
      by (auto simp: execute_unstake_def throw_def andThen_def set_sender_def on_state_def split: if_splits)
  next
    case WithdrawUnbonded
    obtain w s1 where w: "withdraw_matured_unbonding E i n s = (Ok w, s1)" by (rule withdraw_step [OF h])
    then show ?thesis
      using run WithdrawUnbonded empty_withdrawal [OF h]
      by (auto simp: execute_withdraw_unbonded_def throw_def andThen_def set_sender_def on_state_def split: if_splits)
  next
    case (CreateSidechain m deposit)
    then show ?thesis
      using run refl by (auto simp: execute_reserve_def Let_def throw_def set_sender_def split: if_splits)
  qed (use run refl stake in \<open>auto simp: ret_def\<close>)
qed

lemma failed_execute:
  assumes h: "healthy E content s" and run: "execute E tx n s = (r, s')" and fail: "\<not> er_success r"
  shows "synced E content s s'"
proof (cases "signed_verify (se_crypto E) tx")
  case False
  with run synced_refl [OF h] show ?thesis by (simp add: execute_def)
next
  case True
  let ?i = "tx_sender (stx_transaction tx)"
  obtain s1 where get: "get_account E ?i s = (Ok (accounts E content s ?i), s1)" "healthy E content s1"
    using get_account_step [OF h] by metis
  have "sb_db s1 = sb_db s" using get_account_ok [of E content s ?i] get h by (auto simp: healthy_def)
  then have s1: "synced E content s s1"
    using h get(2) by (simp add: synced_def agree_def unbondings_def stored_def)
  show ?thesis
  proof (cases "accounts E content s ?i")
    case None
    then show ?thesis using run True get(1) s1 by (simp add: execute_def)
  next
    case (Some a)
    have ws: "execute_with_sender E tx n a s1 = (r, s')"
      using run True get(1) Some by (simp add: execute_def)
    obtain c s2 a2 where call: "execute_call E ?i n (tx_call (stx_transaction tx)) (s1, a) = (c, (s2, a2))"
      by (metis prod_cases3)
    show ?thesis
    proof (cases c)
      case (Inl e)
      then have "synced E content s1 s2" using failed_call [OF get(2)] call by simp
      then show ?thesis using ws call Inl s1 synced_trans
        by (auto simp: execute_with_sender_def Let_def split: if_splits)
    next
      case (Inr u)
      have "both (synced E content) (s1, a) (s1, a)" using synced_refl [OF get(2)] by (simp add: both_def)
      then have "healthy E content s2"
        using simE [OF synced_execute_call, of E content "(s1, a)" "(s1, a)" ?i n "tx_call (stx_transaction tx)"] call
        by (auto simp: both_def synced_def)
      then have "fst (set_account E ?i info s2) = Ok ()" for info
        using set_account_step [of E content s2 ?i info] by (metis fst_conv)
      then show ?thesis using ws call Inr s1 fail
        by (auto simp: execute_with_sender_def Let_def split: if_splits prod.splits sum.splits)
          (metis Inl_Inr_False fst_conv)
    qed
  qed
qed

end
