(* ===== verification/Kratos_Economics.thy ===== *)
theory Kratos_Economics
  imports Kratos_Tokenomics
begin

text \<open>
  Adaptive inflation, the stake requirement and the economics manager
  (\<^verbatim>\<open>consensus/economics.rs\<close>). The square root and the logarithm of \<open>f64\<close> are the
  fields of \<open>libm\<close>.
\<close>

section \<open>Stake requirement\<close>

record stake_requirement_config =
  sr_nominal_stake :: balance
  sr_vc_target :: u64
  sr_max_reduction_bootstrap :: f64
  sr_max_reduction_post_bootstrap :: f64

definition default_stake_requirement :: stake_requirement_config where
  "default_stake_requirement =
     \<lparr>sr_nominal_stake = 500000 * KRAT, sr_vc_target = 5000, sr_max_reduction_bootstrap = rnd (99 / 100),
      sr_max_reduction_post_bootstrap = rnd (95 / 100)\<rparr>"

definition calculate_required_stake :: "stake_requirement_config \<Rightarrow> u64 \<Rightarrow> epoch_number \<Rightarrow> bootstrap_config \<Rightarrow> balance" where
  "calculate_required_stake c vc current_epoch bc =
     (let max_reduction = (if is_bootstrap bc current_epoch then sr_max_reduction_bootstrap c
                           else sr_max_reduction_post_bootstrap c);
          vc_norm = min (fdiv (f64_of_word vc) (f64_of_word (sr_vc_target c))) 1;
          stake_reduction = fmul max_reduction vc_norm;
          required_stake = fmul (f64_of_word (sr_nominal_stake c)) (fsub 1 stake_reduction);
          stake_floor = get_min_stake bc current_epoch
      in max (f64_to_word required_stake) stake_floor)"

definition meets_requirement :: "stake_requirement_config \<Rightarrow> balance \<Rightarrow> u64 \<Rightarrow> epoch_number \<Rightarrow> bootstrap_config \<Rightarrow> bool" where
  "meets_requirement c validator_stake vc current_epoch bc =
     (calculate_required_stake c vc current_epoch bc \<le> validator_stake)"

definition stake_deficiency ::
  "stake_requirement_config \<Rightarrow> balance \<Rightarrow> u64 \<Rightarrow> epoch_number \<Rightarrow> bootstrap_config \<Rightarrow> balance option" where
  "stake_deficiency c validator_stake vc current_epoch bc =
     (let required = calculate_required_stake c vc current_epoch bc
      in if validator_stake < required then Some (required - validator_stake) else None)"

section \<open>Inflation\<close>

record inflation_config =
  ic_target_validators :: u32
  ic_avg_validator_cost :: balance
  ic_target_stake_ratio :: f64
  ic_target_active_users :: u64
  ic_min_inflation :: f64
  ic_max_inflation :: f64

definition default_inflation_config :: inflation_config where
  "default_inflation_config =
     \<lparr>ic_target_validators = 100, ic_avg_validator_cost = 10000 * KRAT, ic_target_stake_ratio = rnd (30 / 100),
      ic_target_active_users = 10000, ic_min_inflation = rnd (5 / 1000), ic_max_inflation = rnd (10 / 100)\<rparr>"

record network_metrics =
  nm_total_supply :: balance
  nm_total_staked :: balance
  nm_active_validators :: u32
  nm_active_users :: u64
  nm_transactions_count :: u64

definition base_security_budget :: "inflation_config \<Rightarrow> balance" where
  "base_security_budget c = ucast (ic_target_validators c) * ic_avg_validator_cost c"

definition clamp :: "'a::linorder \<Rightarrow> 'a \<Rightarrow> 'a \<Rightarrow> 'a" where
  "clamp lo hi x = (if x < lo then lo else if hi < x then hi else x)"

definition security_gap_factor :: "inflation_config \<Rightarrow> network_metrics \<Rightarrow> f64" where
  "security_gap_factor c m =
     (if nm_total_staked m = 0 then 3 / 2
      else let actual_stake_ratio = fdiv (f64_of_word (nm_total_staked m)) (f64_of_word (nm_total_supply m))
           in clamp (rnd (3 / 10)) (3 / 2) (fdiv (ic_target_stake_ratio c) actual_stake_ratio))"

definition activity_factor :: "libm \<Rightarrow> inflation_config \<Rightarrow> network_metrics \<Rightarrow> f64" where
  "activity_factor L c m =
     (let activity_ratio = fdiv (f64_of_word (nm_active_users m)) (f64_of_word (ic_target_active_users c))
      in clamp (1 / 2) (rnd (12 / 10)) (lm_sqrt L activity_ratio))"

definition calculate_annual_emission :: "libm \<Rightarrow> inflation_config \<Rightarrow> network_metrics \<Rightarrow> balance" where
  "calculate_annual_emission L c m =
     (let raw_emission = f64_to_word (fmul (fmul (f64_of_word (base_security_budget c)) (security_gap_factor c m)) (activity_factor L c m));
          min_emission = share_of (nm_total_supply m) (ic_min_inflation c);
          max_emission = share_of (nm_total_supply m) (ic_max_inflation c)
      in clamp min_emission max_emission raw_emission)"

definition calculate_inflation_rate :: "libm \<Rightarrow> inflation_config \<Rightarrow> network_metrics \<Rightarrow> f64" where
  "calculate_inflation_rate L c m = fdiv (f64_of_word (calculate_annual_emission L c m)) (f64_of_word (nm_total_supply m))"

definition calculate_epoch_emission :: "libm \<Rightarrow> inflation_config \<Rightarrow> network_metrics \<Rightarrow> balance" where
  "calculate_epoch_emission L c m = calculate_annual_emission L c m div 52"

section \<open>The economics manager\<close>

record economics_manager =
  em_bootstrap_config :: bootstrap_config
  em_stake_requirement_config :: stake_requirement_config
  em_inflation_config :: inflation_config
  em_fee_distribution :: fee_distribution

definition economics_new :: economics_manager where
  "economics_new =
     \<lparr>em_bootstrap_config = mainnet_config, em_stake_requirement_config = default_stake_requirement,
      em_inflation_config = default_inflation_config, em_fee_distribution = default_distribution\<rparr>"

definition apply_vote_multiplier :: "u32 \<Rightarrow> epoch_number \<Rightarrow> economics_manager \<Rightarrow> u32" where
  "apply_vote_multiplier base_credits current_epoch m = base_credits * get_vote_multiplier (em_bootstrap_config m) current_epoch"

definition apply_uptime_multiplier :: "u32 \<Rightarrow> epoch_number \<Rightarrow> economics_manager \<Rightarrow> u32" where
  "apply_uptime_multiplier base_credits current_epoch m = base_credits * get_uptime_multiplier (em_bootstrap_config m) current_epoch"

definition manager_required_stake :: "u64 \<Rightarrow> epoch_number \<Rightarrow> economics_manager \<Rightarrow> balance" where
  "manager_required_stake vc current_epoch m =
     calculate_required_stake (em_stake_requirement_config m) vc current_epoch (em_bootstrap_config m)"

definition meets_stake_requirement :: "balance \<Rightarrow> u64 \<Rightarrow> epoch_number \<Rightarrow> economics_manager \<Rightarrow> bool" where
  "meets_stake_requirement validator_stake vc current_epoch m =
     meets_requirement (em_stake_requirement_config m) validator_stake vc current_epoch (em_bootstrap_config m)"

definition get_stake_deficiency :: "balance \<Rightarrow> u64 \<Rightarrow> epoch_number \<Rightarrow> economics_manager \<Rightarrow> balance option" where
  "get_stake_deficiency validator_stake vc current_epoch m =
     stake_deficiency (em_stake_requirement_config m) validator_stake vc current_epoch (em_bootstrap_config m)"

end
