(* ===== verification/Kratos_Producer.thy ===== *)
theory Kratos_Producer
  imports Kratos_Sync Kratos_Mempool Kratos_Economics Kratos_Slashing
begin

text \<open>
  Block production (\<^verbatim>\<open>node/producer.rs\<close>): the confirmation-depth finality tracker, double-sign
  detection and protection, block rewards, \<open>produce_block\<close>, \<open>validate_and_import\<close> and the reward
  function used when a block is imported; and the selection of the slot leader
  (\<^verbatim>\<open>consensus/vrf_selection.rs\<close>).
\<close>

section \<open>Slot leaders\<close>

definition STAKE_CAP :: u64 where [const_defs]: "STAKE_CAP = 1000000"
definition MIN_EFFECTIVE_VC :: u64 where [const_defs]: "MIN_EFFECTIVE_VC = 1"
definition BOOTSTRAP_STAKE_COMPONENT :: f64 where "BOOTSTRAP_STAKE_COMPONENT = 10"
definition BOOTSTRAP_MIN_VC_REQUIREMENT :: u64 where [const_defs]: "BOOTSTRAP_MIN_VC_REQUIREMENT = 100"

definition compute_vrf_weight :: "libm \<Rightarrow> balance \<Rightarrow> u64 \<Rightarrow> f64" where
  "compute_vrf_weight L stake vc =
     (if stake = 0 \<and> vc < BOOTSTRAP_MIN_VC_REQUIREMENT then 0
      else let stake_component = (if stake = 0 then BOOTSTRAP_STAKE_COMPONENT
                                  else min (lm_sqrt L (f64_of_word stake)) (lm_sqrt L (f64_of_word STAKE_CAP)));
               effective_vc = max vc MIN_EFFECTIVE_VC;
               vc_component = lm_ln L (fadd 1 (f64_of_word effective_vc))
           in fmul stake_component vc_component)"

definition is_bootstrap_eligible :: "balance \<Rightarrow> u64 \<Rightarrow> bool" where
  "is_bootstrap_eligible stake vc = (if stake = 0 then BOOTSTRAP_MIN_VC_REQUIREMENT \<le> vc else True)"

datatype vrf_error = VrfNoKeypair | VrfInvalidProof | VrfInvalidOutput | VrfVerificationFailed | VrfNoCandidates

definition slot_randomness :: "crypto \<Rightarrow> u64 \<Rightarrow> u64 \<Rightarrow> account_id \<Rightarrow> f64" where
  "slot_randomness K sl epoch i =
     (let h = blake3 K (account_bytes i @ le_bytes 8 sl @ le_bytes 8 epoch);
          random_u64 = (word_of_le (take 8 (hash_bytes h)) :: u64)
      in fdiv (f64_of_word random_u64) (fadd (f64_of_word (- 1 :: u64)) 1))"

definition select_slot_leader :: "libm \<Rightarrow> crypto \<Rightarrow> u64 \<Rightarrow> u64 \<Rightarrow> (account_id \<times> balance \<times> u64) list \<Rightarrow> (vrf_error, account_id) result" where
  "select_slot_leader L K sl epoch candidates =
     (if candidates = [] then Err VrfNoCandidates
      else let weighted_scores = map (\<lambda>(i, stake, vc). (i, fmul (compute_vrf_weight L stake vc) (slot_randomness K sl epoch i))) candidates
           in case sort_key (\<lambda>x. - snd x) weighted_scores of
                [] \<Rightarrow> Err VrfNoCandidates
              | x # _ \<Rightarrow> Ok (fst x))"

section \<open>Configuration\<close>

definition BLOCK_REWARD :: balance where [const_defs]: "BLOCK_REWARD = 10 * KRAT"
definition SLOTS_PER_EPOCH :: u64 where [const_defs]: "SLOTS_PER_EPOCH = 600"
definition PRODUCER_EPOCHS_PER_YEAR :: u64 where [const_defs]: "PRODUCER_EPOCHS_PER_YEAR = 8760"

definition TREASURY_ACCOUNT :: account_id where
  "TREASURY_ACCOUNT = hash_of_bytes ([0xFE, 0xED, 0xC0, 0xDE] @ replicate 24 0 @ [0x54, 0x52, 0x45, 0x41])"

record producer_config =
  pc_max_transactions_per_block :: nat
  pc_max_block_size :: nat
  pc_execute_transactions :: bool
  pc_min_inclusion_fee :: balance
  pc_block_reward :: balance
  pc_use_dynamic_rewards :: bool
  pc_fee_distribution :: fee_distribution
  pc_enable_vc_bonus :: bool
  pc_treasury_account :: account_id

definition default_producer_config :: producer_config where
  "default_producer_config =
     \<lparr>pc_max_transactions_per_block = 1000, pc_max_block_size = 5 * 1024 * 1024, pc_execute_transactions = True,
      pc_min_inclusion_fee = 1000, pc_block_reward = BLOCK_REWARD, pc_use_dynamic_rewards = True,
      pc_fee_distribution = default_distribution, pc_enable_vc_bonus = True, pc_treasury_account = TREASURY_ACCOUNT\<rparr>"

definition with_fixed_rewards :: producer_config where
  "with_fixed_rewards = default_producer_config\<lparr>pc_use_dynamic_rewards := False, pc_enable_vc_bonus := False\<rparr>"

section \<open>Finality by confirmations\<close>

record finality_tracker =
  ft_finalized_block :: block_number
  ft_finalized_hash :: hash
  ft_pending_finality :: "(block_number, hash) bmap"
  ft_confirmations_required :: u32

definition tracker_start :: "hash \<Rightarrow> u32 \<Rightarrow> finality_tracker" where
  "tracker_start genesis_hash confirmations =
     \<lparr>ft_finalized_block = 0, ft_finalized_hash = genesis_hash, ft_pending_finality = [], ft_confirmations_required = confirmations\<rparr>"

definition finalize_step :: "finality_tracker \<Rightarrow> block_number \<times> hash \<Rightarrow> finality_tracker" where
  "finalize_step T b =
     (if ft_finalized_block T < fst b then T\<lparr>ft_finalized_block := fst b, ft_finalized_hash := snd b\<rparr> else T)"

definition update_finality :: "finality_tracker \<Rightarrow> finality_tracker" where
  "update_finality T =
     (case rev (bm_keys (ft_pending_finality T)) of
        [] \<Rightarrow> T
      | latest # _ \<Rightarrow>
          let finality_threshold = sat_sub latest (ucast (ft_confirmations_required T));
              to_finalize = filter (\<lambda>(n, _). n \<le> finality_threshold) (ft_pending_finality T);
              T1 = foldl finalize_step T to_finalize
          in T1\<lparr>ft_pending_finality := foldl (\<lambda>m (n, _). bm_remove n m) (ft_pending_finality T1) to_finalize\<rparr>)"

definition tracker_add_block :: "block_number \<Rightarrow> hash \<Rightarrow> finality_tracker \<Rightarrow> finality_tracker" where
  "tracker_add_block n h T = update_finality (T\<lparr>ft_pending_finality := bm_insert n h (ft_pending_finality T)\<rparr>)"

definition tracker_is_finalized :: "finality_tracker \<Rightarrow> block_number \<Rightarrow> bool" where
  "tracker_is_finalized T n = (n \<le> ft_finalized_block T)"

section \<open>The producer\<close>

record 'd block_producer =
  bp_config :: producer_config
  bp_validator_key :: "(bytes \<Rightarrow> signature64) option"
  bp_db :: 'd
  bp_finality :: finality_tracker
  bp_inflation_config :: inflation_config
  bp_bootstrap_config :: bootstrap_config
  bp_double_sign_evidence :: "(epoch_number \<times> slot_number, (hash \<times> account_id) list) bmap"

definition producer_new :: "(bytes \<Rightarrow> signature64) option \<Rightarrow> 'd \<Rightarrow> 'd block_producer" where
  "producer_new validator_key db =
     \<lparr>bp_config = default_producer_config, bp_validator_key = validator_key, bp_db = db,
      bp_finality = tracker_start ZERO 6, bp_inflation_config = default_inflation_config,
      bp_bootstrap_config = mainnet_config, bp_double_sign_evidence = []\<rparr>"

definition record_block_for_double_sign_detection :: "crypto \<Rightarrow> block \<Rightarrow> 'd block_producer \<Rightarrow> slashable_event option \<times> 'd block_producer" where
  "record_block_for_double_sign_detection K b B =
     (let h = bk_header b; bhash = block_hash K b; key = (bh_epoch h, bh_slot h);
          blocks_at_slot = (case bm_get (bp_double_sign_evidence B) key of Some bs \<Rightarrow> bs | None \<Rightarrow> [])
      in case find (\<lambda>(existing_hash, existing_author). existing_author = bh_author h \<and> existing_hash \<noteq> bhash) blocks_at_slot of
           Some (existing_hash, _) \<Rightarrow>
             (Some (DoubleSigning (bh_slot h) (bh_epoch h) existing_hash bhash),
              B\<lparr>bp_double_sign_evidence := bm_insert key blocks_at_slot (bp_double_sign_evidence B)\<rparr>)
         | None \<Rightarrow> (None, B\<lparr>bp_double_sign_evidence := bm_insert key (blocks_at_slot @ [(bhash, bh_author h)]) (bp_double_sign_evidence B)\<rparr>))"

definition get_default_metrics :: network_metrics where
  "get_default_metrics =
     \<lparr>nm_total_supply = 1000000000 * KRAT, nm_total_staked = 100000000 * KRAT, nm_active_validators = 100,
      nm_active_users = 10000, nm_transactions_count = 100000\<rparr>"

definition annual_emission :: "libm \<Rightarrow> bootstrap_config \<Rightarrow> inflation_config \<Rightarrow> network_metrics \<Rightarrow> epoch_number \<Rightarrow> balance" where
  "annual_emission L bc ic metrics epoch =
     (if is_bootstrap bc epoch then share_of (nm_total_supply metrics) (bc_target_inflation bc)
      else calculate_annual_emission L ic metrics)"

definition calculate_block_reward :: "libm \<Rightarrow> network_metrics \<Rightarrow> epoch_number \<Rightarrow> 'd block_producer \<Rightarrow> balance" where
  "calculate_block_reward L metrics epoch B =
     (if \<not> pc_use_dynamic_rewards (bp_config B) then pc_block_reward (bp_config B)
      else let blocks_per_year = PRODUCER_EPOCHS_PER_YEAR * SLOTS_PER_EPOCH;
               block_reward = annual_emission L (bp_bootstrap_config B) (bp_inflation_config B) metrics epoch div ucast blocks_per_year
           in max block_reward (1 * KRAT))"

definition vc_bonus :: "libm \<Rightarrow> balance \<Rightarrow> u64 \<Rightarrow> balance" where
  "vc_bonus L base_reward vc =
     (let vc_factor = fadd 1 (fdiv (lm_ln L (fadd 1 (f64_of_word vc))) 10)
      in f64_to_word (fmul (f64_of_word base_reward) vc_factor))"

definition apply_vc_bonus :: "libm \<Rightarrow> balance \<Rightarrow> u64 \<Rightarrow> 'd block_producer \<Rightarrow> balance" where
  "apply_vc_bonus L base_reward vc B =
     (if \<not> pc_enable_vc_bonus (bp_config B) \<or> vc = 0 then base_reward else vc_bonus L base_reward vc)"

datatype production_error =
    NoValidatorKey
  | NotSlotLeader
  | AlreadySignedThisSlot
  | ExecutionError "exec_error option"
  | ProductionStateError state_error
  | ProductionDatabaseError database_error
  | ProductionValidationError validation_error
  | ProductionVrfError vrf_error
  | StateRootMismatch hash hash

section \<open>Protection against double signing\<close>

fun decimal :: "nat \<Rightarrow> bytes" where
  "decimal n = (if n < 10 then [of_nat (48 + n)] else decimal (n div 10) @ [of_nat (48 + n mod 10)])"

declare decimal.simps [simp del]

definition signed_slot_key :: "epoch_number \<Rightarrow> slot_number \<Rightarrow> bytes" where
  "signed_slot_key epoch sl = ascii ''signed_slot:'' @ decimal (unat epoch) @ ascii '':'' @ decimal (unat sl)"

definition has_signed_slot :: "'d storage_env \<Rightarrow> epoch_number \<Rightarrow> slot_number \<Rightarrow> 'd block_producer \<Rightarrow> (production_error, bool) result" where
  "has_signed_slot E epoch sl B =
     (case database_get E (signed_slot_key epoch sl) (bp_db B) of
        Inl e \<Rightarrow> Err (ProductionDatabaseError e)
      | Inr v \<Rightarrow> Ok (v \<noteq> None))"

definition mark_slot_as_signed ::
  "'d storage_env \<Rightarrow> epoch_number \<Rightarrow> slot_number \<Rightarrow> hash \<Rightarrow> 'd block_producer \<Rightarrow> (production_error, unit) result \<times> 'd block_producer" where
  "mark_slot_as_signed E epoch sl bhash B =
     (case database_put E (signed_slot_key epoch sl) (hash_bytes bhash) (bp_db B) of
        (Inl e, d) \<Rightarrow> (Err (ProductionDatabaseError e), B\<lparr>bp_db := d\<rparr>)
      | (Inr _, d) \<Rightarrow> (Ok (), B\<lparr>bp_db := d\<rparr>))"

fun collect_candidates ::
  "'d storage_env \<Rightarrow> (account_id \<times> validator_info) list \<Rightarrow> ('d, (account_id \<times> balance \<times> u64) list) state_action" where
  "collect_candidates E [] = ret []"
| "collect_candidates E ((_, v) # vs) =
     andThen (state_total_vc E (vi_id v)) (\<lambda>vc.
     andThen (collect_candidates E vs) (\<lambda>cs. ret ((vi_id v, vi_stake v, vc) # cs)))"

definition is_slot_leader ::
  "libm \<Rightarrow> 'd storage_env \<Rightarrow> slot_number \<Rightarrow> epoch_number \<Rightarrow> validator_set \<Rightarrow> account_id \<Rightarrow> 'd state_backend \<Rightarrow> (production_error, bool) result" where
  "is_slot_leader L E sl epoch V validator_id s =
     (if vs_validators V = [] then Ok False
      else case fst (collect_candidates E (vs_validators V) s) of
             Inl e \<Rightarrow> Err (ProductionStateError e)
           | Inr candidates \<Rightarrow>
               (case select_slot_leader L (se_crypto E) sl epoch candidates of
                  Inr selected_id \<Rightarrow> Ok (selected_id = validator_id)
                | Inl VrfNoCandidates \<Rightarrow> Ok False
                | Inl e \<Rightarrow> Err (ProductionVrfError e)))"

section \<open>Rewards\<close>

definition credit :: "'d storage_env \<Rightarrow> account_id \<Rightarrow> balance \<Rightarrow> ('d, unit) state_action" where
  "credit E i amount =
     andThen (get_account E i) (\<lambda>r.
       let a = (case r of Some a \<Rightarrow> a | None \<Rightarrow> account_new)
       in set_account E i (a\<lparr>ai_free := sat_add (ai_free a) amount\<rparr>))"

definition validator_credits :: "'d storage_env \<Rightarrow> account_id \<Rightarrow> 'd state_backend \<Rightarrow> u64" where
  "validator_credits E i s = (case fst (state_total_vc E i s) of Inr vc \<Rightarrow> vc | Inl _ \<Rightarrow> 0)"

definition produce_rewards :: "libm \<Rightarrow> 'd storage_env \<Rightarrow> account_id \<Rightarrow> epoch_number \<Rightarrow> balance \<Rightarrow> 'd block_producer \<Rightarrow> ('d, unit) state_action" where
  "produce_rewards L E validator_id epoch total_fees B s =
     (let base_block_reward = calculate_block_reward L get_default_metrics epoch B;
          block_reward_with_bonus = apply_vc_bonus L base_block_reward (validator_credits E validator_id s) B;
          fee_result = fee_distribute (pc_fee_distribution (bp_config B)) total_fees;
          total_producer_reward = sat_add block_reward_with_bonus (fr_producer fee_result);
          treasury_amount = sat_add (fr_treasury fee_result) (fr_finality_voters fee_result)
      in if 0 < total_producer_reward \<or> 0 < treasury_amount
         then andThen (credit E validator_id total_producer_reward) (\<lambda>_.
                if 0 < treasury_amount then credit E (pc_treasury_account (bp_config B)) treasury_amount else ret ()) s
         else (Ok (), s))"

fun credit_voters :: "'d storage_env \<Rightarrow> account_id \<Rightarrow> balance \<Rightarrow> account_id list \<Rightarrow> ('d, unit) state_action" where
  "credit_voters E author share [] = ret ()"
| "credit_voters E author share (voter # voters) =
     (if voter = author then credit_voters E author share voters
      else andThen (credit E voter share) (\<lambda>_. credit_voters E author share voters))"

definition import_block_reward :: "libm \<Rightarrow> epoch_number \<Rightarrow> balance" where
  "import_block_reward L epoch =
     max (annual_emission L mainnet_config default_inflation_config get_default_metrics epoch
            div ucast (PRODUCER_EPOCHS_PER_YEAR * SLOTS_PER_EPOCH)) (1 * KRAT)"

definition apply_block_rewards_with_finality ::
  "libm \<Rightarrow> 'd storage_env \<Rightarrow> account_id \<Rightarrow> epoch_number \<Rightarrow> balance \<Rightarrow> account_id list \<Rightarrow> ('d, balance) state_action" where
  "apply_block_rewards_with_finality L E author epoch total_fees finality_voters s =
     (let block_reward = import_block_reward L epoch;
          vc = validator_credits E author s;
          block_reward_with_bonus = (if 0 < vc then vc_bonus L block_reward vc else block_reward);
          fee_result = fee_distribute default_distribution total_fees;
          total_producer_reward = sat_add block_reward_with_bonus (fr_producer fee_result);
          num_voters = length finality_voters
      in andThen (if 0 < total_producer_reward then credit E author total_producer_reward else ret ()) (\<lambda>_.
         andThen
           (if 0 < num_voters \<and> 0 < fr_finality_voters fee_result
            then andThen (credit_voters E author (per_voter_share fee_result num_voters) finality_voters) (\<lambda>_.
                   let remainder = voter_remainder fee_result num_voters
                   in if 0 < remainder
                      then andThen (get_account E TREASURY_ACCOUNT) (\<lambda>r.
                             let t = (case r of Some a \<Rightarrow> a | None \<Rightarrow> account_new)
                             in set_account E TREASURY_ACCOUNT
                                  (t\<lparr>ai_free := sat_add (sat_add (ai_free t) (fr_treasury fee_result)) remainder\<rparr>))
                      else ret ())
            else let treasury_amount = sat_add (fr_treasury fee_result) (fr_finality_voters fee_result)
                 in if 0 < treasury_amount then credit E TREASURY_ACCOUNT treasury_amount else ret ()) (\<lambda>_.
         andThen
           (if 0 < num_voters \<and> 0 < fr_treasury fee_result then credit E TREASURY_ACCOUNT (fr_treasury fee_result) else ret ()) (\<lambda>_.
         ret total_producer_reward))) s)"

definition apply_block_rewards_for_import :: "libm \<Rightarrow> 'd storage_env \<Rightarrow> account_id \<Rightarrow> epoch_number \<Rightarrow> balance \<Rightarrow> ('d, balance) state_action" where
  "apply_block_rewards_for_import L E author epoch total_fees = apply_block_rewards_with_finality L E author epoch total_fees []"

section \<open>Producing a block\<close>

fun run_selected ::
  "'d storage_env \<Rightarrow> block_number \<Rightarrow> signed_transaction list \<Rightarrow> 'd state_backend
     \<Rightarrow> signed_transaction list \<times> execution_result list \<times> 'd state_backend" where
  "run_selected E n [] s = ([], [], s)"
| "run_selected E n (tx # txs) s =
     (let (r, s1) = execute E tx n s; (executed, results, s2) = run_selected E n txs s1
      in (if er_success r then tx # executed else executed, r # results, s2))"

definition produce_state ::
  "libm \<Rightarrow> 'd storage_env \<Rightarrow> block_number \<Rightarrow> account_id \<Rightarrow> epoch_number \<Rightarrow> signed_transaction list \<Rightarrow> 'd block_producer \<Rightarrow> 'd state_backend
     \<Rightarrow> (state_error, signed_transaction list \<times> state_root) result \<times> 'd state_backend" where
  "produce_state L E n validator_id epoch transactions B s =
     (let (executed, results, s1) = (if pc_execute_transactions (bp_config B) then run_selected E n transactions s else (transactions, [], s));
          total_fees = sum_list (map er_fee_paid results)
      in andThen (produce_rewards L E validator_id epoch total_fees B) (\<lambda>_ s2.
           let rt = compute_state_root E n 0 s2
           in andThen (store_state_root E n rt) (\<lambda>_. ret (executed, rt)) s2) s1)"

definition seal_block :: "crypto \<Rightarrow> (bytes \<Rightarrow> signature64) \<Rightarrow> block_header \<Rightarrow> signed_transaction list \<Rightarrow> block" where
  "seal_block K sign header txs =
     \<lparr>bk_header = header\<lparr>bh_signature := sign (domain_separate DOMAIN_BLOCK_HEADER (hash_bytes (header_hash K header)))\<rparr>,
      bk_body = \<lparr>bb_transactions = txs\<rparr>\<rparr>"

definition produce_block ::
  "libm \<Rightarrow> 'd storage_env \<Rightarrow> (prioritized_tx list \<Rightarrow> prioritized_tx list) \<Rightarrow> u64 \<Rightarrow> block \<Rightarrow> account_id \<Rightarrow> epoch_number \<Rightarrow> slot_number
     \<Rightarrow> 'd block_producer \<times> transaction_pool \<times> 'd state_backend
     \<Rightarrow> (production_error, block) result \<times> 'd block_producer \<times> transaction_pool \<times> 'd state_backend" where
  "produce_block L E drain now parent validator_id epoch sl = (\<lambda>(B, P, s).
     let n = bh_number (bk_header parent) + 1; K = se_crypto E
     in case has_signed_slot E epoch sl B of
          Inl e \<Rightarrow> (Err e, B, P, s)
        | Inr True \<Rightarrow> (Err AlreadySignedThisSlot, B, P, s)
        | Inr False \<Rightarrow>
            (case bp_validator_key B of
               None \<Rightarrow> (Err NoValidatorKey, B, P, s)
             | Some sign \<Rightarrow>
                 let (transactions, s1) = select_transactions_with_state E drain (pc_max_transactions_per_block (bp_config B)) P s
                 in case produce_state L E n validator_id epoch transactions B s1 of
                      (Inl e, s2) \<Rightarrow> (Err (ProductionStateError e), B, P, s2)
                    | (Inr (executed, rt), s2) \<Rightarrow>
                        (case get_drift_tracker E s2 of
                           (Inl e, s3) \<Rightarrow> (Err (ProductionStateError e), B, P, s3)
                         | (Inr tracker, s3) \<Rightarrow>
                             let genesis_timestamp = (case tracker of Some t \<Rightarrow> dt_genesis_timestamp t | None \<Rightarrow> now);
                                 header = \<lparr>bh_number = n, bh_parent_hash = block_hash K parent,
                                           bh_transactions_root = compute_transactions_root K executed, bh_state_root = sr_root rt,
                                           bh_timestamp = sat_add genesis_timestamp (sat_mul sl SLOT_DURATION_SECS),
                                           bh_epoch = epoch, bh_slot = sl, bh_author = validator_id, bh_signature = 0\<rparr>;
                                 b = seal_block K sign header executed
                             in case mark_slot_as_signed E epoch sl (block_hash K b) B of
                                  (Inl e, B1) \<Rightarrow> (Err e, B1, P, s3)
                                | (Inr _, B1) \<Rightarrow>
                                    (Ok b, B1\<lparr>bp_finality := tracker_add_block n (block_hash K b) (bp_finality B1)\<rparr>,
                                     remove_included executed P, s3))))"

section \<open>Importing a block\<close>

fun run_block :: "'d storage_env \<Rightarrow> block_number \<Rightarrow> signed_transaction list \<Rightarrow> 'd state_backend \<Rightarrow> exec_error option option \<times> 'd state_backend" where
  "run_block E n [] s = (None, s)"
| "run_block E n (tx # txs) s =
     (let (r, s1) = execute E tx n s
      in if er_success r then run_block E n txs s1 else (Some (er_error r), s1))"

definition validate_and_import ::
  "'d storage_env \<Rightarrow> u64 \<Rightarrow> block \<Rightarrow> block \<Rightarrow> validator_set
     \<Rightarrow> 'd block_producer \<times> transaction_pool \<times> 'd state_backend
     \<Rightarrow> (production_error, unit) result \<times> 'd block_producer \<times> transaction_pool \<times> 'd state_backend" where
  "validate_and_import E now b parent V = (\<lambda>(B, P, s).
     let n = bh_number (bk_header b); K = se_crypto E;
         finish = (\<lambda>s'. (Ok (), B\<lparr>bp_finality := tracker_add_block n (block_hash K b) (bp_finality B)\<rparr>,
                         remove_included (bb_transactions (bk_body b)) P, s'))
     in case validate_block K now b parent V of
          Inl e \<Rightarrow> (Err (ProductionValidationError e), B, P, s)
        | Inr _ \<Rightarrow>
            if \<not> pc_execute_transactions (bp_config B) then finish s
            else case run_block E n (bb_transactions (bk_body b)) s of
                   (Some e, s1) \<Rightarrow> (Err (ExecutionError e), B, P, s1)
                 | (None, s1) \<Rightarrow>
                     let rt = compute_state_root E n 0 s1
                     in case store_state_root E n rt s1 of
                          (Inl e, s2) \<Rightarrow> (Err (ProductionStateError e), B, P, s2)
                        | (Inr _, s2) \<Rightarrow>
                            if sr_root rt \<noteq> bh_state_root (bk_header b)
                            then (Err (StateRootMismatch (bh_state_root (bk_header b)) (sr_root rt)), B, P, s2)
                            else finish s2)"

end
