(* ===== verification/Kratos_Clock.thy ===== *)
theory Kratos_Clock
  imports Kratos_Blocks Kratos_F64
begin

text \<open>
  Clock health of the local node (\<^verbatim>\<open>consensus/clock_health.rs\<close>): the moving average of the
  measured drift, the state machine Healthy, Degraded, Excluded, Recovering with its sustained
  improvement periods, and the expansion of the thresholds in emergency mode. The per-validator
  clock record of the same file is part of the theory of validator credits. \<open>now\<close> is the Unix
  time each operation reads. The shares that occur are far from the ends of the \<open>f64\<close> range.
\<close>

section \<open>Thresholds\<close>

definition HEALTHY_MAX_DRIFT_MS :: int where [const_defs]: "HEALTHY_MAX_DRIFT_MS = 1000"
definition DEGRADED_MAX_DRIFT_MS :: int where [const_defs]: "DEGRADED_MAX_DRIFT_MS = 1500"
definition RECOVERY_DRIFT_MS :: int where [const_defs]: "RECOVERY_DRIFT_MS = 1300"
definition HEALTHY_DRIFT_MS :: int where [const_defs]: "HEALTHY_DRIFT_MS = 800"
definition MEASUREMENT_WINDOW_SECS :: u64 where [const_defs]: "MEASUREMENT_WINDOW_SECS = 120"
definition EXCLUDED_TO_RECOVERING_SECS :: u64 where [const_defs]: "EXCLUDED_TO_RECOVERING_SECS = 120"
definition DEGRADED_TO_HEALTHY_SECS :: u64 where [const_defs]: "DEGRADED_TO_HEALTHY_SECS = 240"
definition RECOVERING_TO_HEALTHY_SECS :: u64 where [const_defs]: "RECOVERING_TO_HEALTHY_SECS = 240"
definition EMA_ALPHA :: f64 where "EMA_ALPHA = rnd (1 / 10)"
definition MAX_SAMPLES :: nat where [const_defs]: "MAX_SAMPLES = 120"

section \<open>Status\<close>

datatype clock_status = Healthy | Degraded | Excluded | Recovering

definition status_can_produce_blocks :: "clock_status \<Rightarrow> bool" where
  "status_can_produce_blocks s = (s = Healthy \<or> s = Degraded)"

definition is_warning :: "clock_status \<Rightarrow> bool" where
  "is_warning s = (s \<noteq> Healthy)"

definition log_level :: "clock_status \<Rightarrow> string" where
  "log_level s = (case s of Healthy \<Rightarrow> ''DEBUG'' | Degraded \<Rightarrow> ''WARN'' | Excluded \<Rightarrow> ''ERROR'' | Recovering \<Rightarrow> ''INFO'')"

record drift_sample =
  sm_timestamp :: u64
  sm_drift_ms :: int

record local_clock_health =
  ch_status :: clock_status
  ch_ema_drift_ms :: f64
  ch_samples :: "drift_sample list"
  ch_status_since :: u64
  ch_improvement_since :: "u64 option"
  ch_lifetime_excluded_count :: u32
  ch_lifetime_degraded_seconds :: u64
  ch_emergency_mode :: bool
  ch_emergency_recovery_since :: "u64 option"

definition clock_health_new :: "u64 \<Rightarrow> local_clock_health" where
  "clock_health_new now =
     \<lparr>ch_status = Healthy, ch_ema_drift_ms = 0, ch_samples = [], ch_status_since = now, ch_improvement_since = None,
      ch_lifetime_excluded_count = 0, ch_lifetime_degraded_seconds = 0, ch_emergency_mode = False,
      ch_emergency_recovery_since = None\<rparr>"

section \<open>The state machine\<close>

text \<open>The cast \<^verbatim>\<open>f64 as i64\<close> truncates towards zero and saturates.\<close>

definition f64_to_i64 :: "f64 \<Rightarrow> int" where
  "f64_to_i64 x = i64_clamp (if 0 \<le> x then \<lfloor>x\<rfloor> else \<lceil>x\<rceil>)"

definition get_effective_thresholds :: "local_clock_health \<Rightarrow> int \<times> int \<times> int \<times> int" where
  "get_effective_thresholds h =
     (if ch_emergency_mode h then (1500, 2000, 1800, 1200)
      else (HEALTHY_MAX_DRIFT_MS, DEGRADED_MAX_DRIFT_MS, RECOVERY_DRIFT_MS, HEALTHY_DRIFT_MS))"

definition compute_new_status :: "u64 \<Rightarrow> int \<times> int \<times> int \<times> int \<Rightarrow> local_clock_health \<Rightarrow> clock_status \<times> local_clock_health" where
  "compute_new_status now = (\<lambda>(healthy_max, degraded_max, recovery_max, healthy_target) h.
     let drift = f64_to_i64 (ch_ema_drift_ms h);
         reset = h\<lparr>ch_improvement_since := None\<rparr>;
         sustain = (\<lambda>secs target. case ch_improvement_since h of
                      Some since \<Rightarrow> if secs \<le> sat_sub now since then (target, reset) else (ch_status h, h)
                    | None \<Rightarrow> (ch_status h, h\<lparr>ch_improvement_since := Some now\<rparr>))
     in case ch_status h of
          Healthy \<Rightarrow> (if degraded_max < drift then Excluded else if healthy_max < drift then Degraded else Healthy, h)
        | Degraded \<Rightarrow> if degraded_max < drift then (Excluded, h)
                      else if drift < healthy_target then sustain DEGRADED_TO_HEALTHY_SECS Healthy
                      else (Degraded, reset)
        | Excluded \<Rightarrow> if drift < recovery_max then sustain EXCLUDED_TO_RECOVERING_SECS Recovering
                      else (Excluded, reset)
        | Recovering \<Rightarrow> if degraded_max < drift then (Excluded, h)
                        else if drift < healthy_target then sustain RECOVERING_TO_HEALTHY_SECS Healthy
                        else if healthy_max < drift then (Degraded, reset)
                        else (Recovering, reset))"

definition handle_status_change :: "clock_status \<Rightarrow> clock_status \<Rightarrow> u64 \<Rightarrow> local_clock_health \<Rightarrow> local_clock_health" where
  "handle_status_change old new now h =
     (let h1 = (if old = Degraded
                then h\<lparr>ch_lifetime_degraded_seconds := sat_add (ch_lifetime_degraded_seconds h) (sat_sub now (ch_status_since h))\<rparr>
                else h);
          h2 = (if new = Excluded \<and> old \<noteq> Excluded
                then h1\<lparr>ch_lifetime_excluded_count := ch_lifetime_excluded_count h1 + 1\<rparr> else h1)
      in h2\<lparr>ch_status := new, ch_status_since := now, ch_improvement_since := None\<rparr>)"

definition trim_samples :: "u64 \<Rightarrow> drift_sample list \<Rightarrow> drift_sample list" where
  "trim_samples now samples =
     (let window_start = sat_sub now MEASUREMENT_WINDOW_SECS;
          recent = dropWhile (\<lambda>x. sm_timestamp x < window_start) samples
      in drop (length recent - MAX_SAMPLES) recent)"

definition ema_next :: "int \<Rightarrow> f64 \<Rightarrow> f64" where
  "ema_next drift_ms ema = fadd (fmul EMA_ALPHA (rnd (of_int (i64_abs drift_ms)))) (fmul (fsub 1 EMA_ALPHA) ema)"

definition record_drift :: "u64 \<Rightarrow> int \<Rightarrow> local_clock_health \<Rightarrow> (clock_status \<times> bool) \<times> local_clock_health" where
  "record_drift now drift_ms h =
     (let old_status = ch_status h;
          h1 = h\<lparr>ch_samples := trim_samples now (ch_samples h @ [\<lparr>sm_timestamp = now, sm_drift_ms = drift_ms\<rparr>]),
                 ch_ema_drift_ms := ema_next drift_ms (ch_ema_drift_ms h)\<rparr>;
          (new_status, h2) = compute_new_status now (get_effective_thresholds h1) h1;
          changed = (new_status \<noteq> old_status)
      in ((new_status, changed), if changed then handle_status_change old_status new_status now h2 else h2))"


definition can_produce_blocks :: "local_clock_health \<Rightarrow> bool" where
  "can_produce_blocks h = status_can_produce_blocks (ch_status h)"

definition priority_modifier :: "local_clock_health \<Rightarrow> f64" where
  "priority_modifier h = (case ch_status h of Healthy \<Rightarrow> 1 | Degraded \<Rightarrow> 1 / 2 | Excluded \<Rightarrow> 0 | Recovering \<Rightarrow> 0)"

section \<open>The network's clocks\<close>

record network_clock_status =
  nc_healthy_count :: u32
  nc_degraded_count :: u32
  nc_excluded_count :: u32
  nc_recovering_count :: u32
  nc_total_validators :: u32
  nc_is_emergency_mode :: bool
  nc_network_avg_drift_ms :: f64


section \<open>Exclusion lasts\<close>







lemma handle_status_change_simps [simp]:
  "ch_status (handle_status_change old new now h) = new"
  "ch_status_since (handle_status_change old new now h) = now"
  "ch_improvement_since (handle_status_change old new now h) = None"
  by (simp_all add: handle_status_change_def Let_def)










text \<open>
  A recovering node that gets worse, but not as bad as the exclusion threshold, becomes Degraded
  at once and may produce blocks again, while one that holds its drift keeps waiting.
\<close>

lemma recovering_resumes_when_worse:
  "ch_status h = Recovering \<Longrightarrow> \<not> ch_emergency_mode h \<Longrightarrow> 1000 < f64_to_i64 (ema_next d (ch_ema_drift_ms h))
     \<Longrightarrow> f64_to_i64 (ema_next d (ch_ema_drift_ms h)) \<le> 1500 \<Longrightarrow> can_produce_blocks (snd (record_drift now d h))"
  by (simp add: record_drift_def compute_new_status_def get_effective_thresholds_def const_defs Let_def
      can_produce_blocks_def status_can_produce_blocks_def)

section \<open>The sample window\<close>

lemma trim_samples_length: "length (trim_samples now xs) \<le> 120"
  by (simp add: trim_samples_def Let_def const_defs)

lemma compute_new_status_samples:
  "ch_samples (snd (compute_new_status now th h)) = ch_samples h"
  by (cases th) (auto simp: compute_new_status_def Let_def split: clock_status.splits option.splits)

lemma record_drift_samples: "length (ch_samples (snd (record_drift now d h))) \<le> 120"
proof -
  have "ch_samples (handle_status_change a b now x) = ch_samples x" for a b x
    by (simp add: handle_status_change_def Let_def)
  then show ?thesis
    using trim_samples_length compute_new_status_samples
    by (auto simp: record_drift_def Let_def split: prod.splits) (metis compute_new_status_samples local_clock_health.select_convs(3) local_clock_health.surjective local_clock_health.update_convs(2,3) snd_conv)+
qed

section \<open>A good clock\<close>

fun measurements :: "(u64 \<times> int) list \<Rightarrow> local_clock_health \<Rightarrow> local_clock_health" where
  "measurements [] h = h"
| "measurements ((now, d) # ms) h = measurements ms (snd (record_drift now d h))"

lemma rnd_upper: "0 \<le> x \<Longrightarrow> x \<le> b \<Longrightarrow> rnd x \<le> b * (1 + 1 / 2 ^ 53)"
  using rnd_bounds(2) [of x] mult_right_mono [of x b "1 + 1 / 2 ^ 53 :: rat"] by fastforce

lemma EMA_weights:
  "0 \<le> EMA_ALPHA" "EMA_ALPHA \<le> 1 / 10 + 1 / 10 ^ 9" "0 \<le> fsub 1 EMA_ALPHA" "fsub 1 EMA_ALPHA \<le> 9 / 10 + 1 / 10 ^ 9"
  by code_simp+

lemma fmul_upper:
  assumes "0 \<le> a" "a \<le> A" "0 \<le> b" "b \<le> B"
  shows "0 \<le> fmul a b \<and> fmul a b \<le> A * B * (1 + 1 / 2 ^ 53)"
proof -
  have "0 \<le> a * b" "a * b \<le> A * B" using assms by (simp, intro mult_mono) simp_all
  then show ?thesis unfolding fmul_def by (intro conjI rnd_nonneg rnd_upper)
qed

lemma ema_next_bound:
  assumes d: "\<bar>d\<bar> \<le> 1000" and e: "0 \<le> e" "e \<le> 1000 + 1 / 2"
  shows "0 \<le> ema_next d e \<and> ema_next d e \<le> 1000 + 1 / 2"
proof -
  let ?r = "rnd (of_int (i64_abs d))"
  have "i64_abs d = \<bar>d\<bar>" using d by (simp add: i64_abs_def)
  then have a: "0 \<le> ?r" "?r \<le> 1000 * (1 + 1 / 2 ^ 53)"
    using d by (simp add: rnd_nonneg, intro rnd_upper) simp_all
  let ?x = "fmul EMA_ALPHA ?r" and ?y = "fmul (fsub 1 EMA_ALPHA) e"
  have x: "0 \<le> ?x" "?x \<le> (1 / 10 + 1 / 10 ^ 9) * (1000 * (1 + 1 / 2 ^ 53)) * (1 + 1 / 2 ^ 53)"
    using fmul_upper [OF EMA_weights(1,2) a] by simp_all
  have y: "0 \<le> ?y" "?y \<le> (9 / 10 + 1 / 10 ^ 9) * (1000 + 1 / 2) * (1 + 1 / 2 ^ 53)"
    using fmul_upper [OF EMA_weights(3,4) e] by simp_all
  have sum: "0 \<le> ?x + ?y" "?x + ?y \<le> 1000 + 46 / 100"
    using x y by simp_all
  have "ema_next d e \<le> (1000 + 46 / 100) * (1 + 1 / 2 ^ 53)"
    unfolding ema_next_def fadd_def by (rule rnd_upper [OF sum])
  then show ?thesis using sum(1) by (simp add: ema_next_def fadd_def rnd_nonneg)
qed

lemma compute_new_status_frame: "ch_ema_drift_ms (snd (compute_new_status now th h)) = ch_ema_drift_ms h"
  by (cases th) (auto simp: compute_new_status_def Let_def split: clock_status.splits option.splits)

lemma record_drift_healthy:
  fixes now :: u64
  assumes h: "ch_status h = Healthy" "0 \<le> ch_ema_drift_ms h" "ch_ema_drift_ms h \<le> 1000 + 1 / 2" and d: "\<bar>d\<bar> \<le> 1000"
  defines "h' \<equiv> snd (record_drift now d h)"
  shows "ch_status h' = Healthy \<and> 0 \<le> ch_ema_drift_ms h' \<and> ch_ema_drift_ms h' \<le> 1000 + 1 / 2"
proof -
  note e = ema_next_bound [OF d h(2,3)]
  then have "\<lfloor>ema_next d (ch_ema_drift_ms h)\<rfloor> \<le> 1000" by linarith
  then have "f64_to_i64 (ema_next d (ch_ema_drift_ms h)) \<le> 1000" using e by (simp add: f64_to_i64_def i64_clamp_def)
  then show ?thesis
    using h(1) e by (auto simp: h'_def record_drift_def compute_new_status_def get_effective_thresholds_def const_defs Let_def)
qed

text \<open>
  A node whose measured drifts never exceed one second stays Healthy: the rounding of the
  moving average cannot push it over the threshold, in any number of measurements.
\<close>

theorem steady_clock_stays_healthy:
  assumes "\<forall>(now, d) \<in> set ms. \<bar>d\<bar> \<le> 1000"
  shows "ch_status (measurements ms (clock_health_new t0)) = Healthy \<and> can_produce_blocks (measurements ms (clock_health_new t0))"
proof -
  have "ch_status (measurements ms h) = Healthy"
    if "ch_status h = Healthy" "0 \<le> ch_ema_drift_ms h" "ch_ema_drift_ms h \<le> 1000 + 1 / 2" for h
    using assms that
  proof (induction ms arbitrary: h)
    case (Cons m ms)
    obtain now d where m: "m = (now, d)" by (cases m)
    from Cons.prems have "\<bar>d\<bar> \<le> 1000" by (auto simp: m)
    from record_drift_healthy [OF Cons.prems(2-4) this, of now] Cons.prems(1) show ?case
      unfolding m measurements.simps by (intro Cons.IH) auto
  qed simp
  from this [of "clock_health_new t0"] show ?thesis
    by (simp add: clock_health_new_def can_produce_blocks_def status_can_produce_blocks_def)
qed

theorem steady_clock_stays_healthy_witness:
  "ch_status (measurements [(5, 900), (10, -1000), (15, 1000)] (clock_health_new 0)) = Healthy"
  using steady_clock_stays_healthy [of "[(5, 900), (10, -1000), (15, 1000)]" 0] by simp

section \<open>An exclusion, end to end\<close>







end
