(* ===== verification/Kratos_Node.thy ===== *)
theory Kratos_Node
  imports Kratos_Producer Kratos_Finality Kratos_Clock
begin

text \<open>
  The node (\<^verbatim>\<open>node/service.rs\<close>): importing a block received from the network, producing
  one in our slot and storing it, submitting a transaction, and the wiring of the finality
  gadget. Locks are taken and released within one operation, so an operation is a function on
  the record of the shared state. Messages handed to the network are collected in \<open>nd_sent\<close>;
  \<open>publish\<close> says which of them gossipsub accepts.
\<close>

section \<open>The node\<close>

datatype net_message =
    NetBlock block
  | NetTransaction signed_transaction
  | NetFinality finality_message

record 'd node =
  nd_storage :: "'d state_backend"
  nd_mempool :: transaction_pool
  nd_validators :: validator_set
  nd_current_block :: "block option"
  nd_chain_height :: block_number
  nd_producer_db :: 'd
  nd_finality :: "finality_integration option"
  nd_clock_health :: local_clock_health
  nd_local_state :: "block_number \<times> hash"
  nd_sent :: "net_message list"

text \<open>The outside of a node: the clocks, the finality signer, the heap order of the pool, the network.\<close>

record 'd node_env =
  ne_libm :: libm
  ne_store :: "'d storage_env"
  ne_finality :: finality_env
  ne_drain :: "prioritized_tx list \<Rightarrow> prioritized_tx list"
  ne_iter :: "(hash, balance) hmap \<Rightarrow> (hash, balance) hmap"
  ne_publish :: "net_message \<Rightarrow> bool"

datatype consensus_failure =
    BlockNumberMismatch block_number block_number
  | NoParentBlock
  | ParentHashMismatch hash hash
  | BlockValidationFailed validation_error
  | DriftCheckFailed state_error
  | TransactionFailed nat "exec_error option"
  | RewardFailed state_error
  | ImportStateRootMismatch hash hash
  | ProductionFailed production_error

datatype node_error =
    NodeStorage state_error
  | NodeNetwork
  | NodeTransaction pool_error
  | NodeConsensus consensus_failure

section \<open>Finality wiring\<close>

definition update_finality_validators :: "'d node_env \<Rightarrow> 'd node \<Rightarrow> 'd node" where
  "update_finality_validators W N =
     (case nd_finality N of
        None \<Rightarrow> N
      | Some I \<Rightarrow> N\<lparr>nd_finality := Some (integration_update_validators (ne_finality W) (map vi_id (active_validators (nd_validators N))) I)\<rparr>)"

definition notify_finality_block_imported :: "'d node_env \<Rightarrow> clock \<Rightarrow> block_number \<Rightarrow> hash \<Rightarrow> 'd node \<Rightarrow> 'd node" where
  "notify_finality_block_imported W now n h N =
     (case nd_finality N of
        None \<Rightarrow> N
      | Some I \<Rightarrow> N\<lparr>nd_finality := Some (integration_block_imported (ne_finality W) now n h I)\<rparr>)"

definition process_finality_vote :: "'d node_env \<Rightarrow> clock \<Rightarrow> finality_vote \<Rightarrow> 'd node \<Rightarrow> account_id list option \<times> 'd node" where
  "process_finality_vote W now v N =
     (case nd_finality N of
        None \<Rightarrow> (None, N)
      | Some I \<Rightarrow> let (r, I') = on_finality_vote (ne_finality W) now v I in (r, N\<lparr>nd_finality := Some I'\<rparr>))"

definition process_finality_message :: "'d node_env \<Rightarrow> clock \<Rightarrow> finality_message \<Rightarrow> 'd node \<Rightarrow> account_id list option \<times> 'd node" where
  "process_finality_message W now m N =
     (case nd_finality N of
        None \<Rightarrow> (None, N)
      | Some I \<Rightarrow> let (r, I') = on_finality_message (ne_finality W) now m I in (r, N\<lparr>nd_finality := Some I'\<rparr>))"

definition tick_finality :: "'d node_env \<Rightarrow> clock \<Rightarrow> 'd node \<Rightarrow> bool \<times> 'd node" where
  "tick_finality W now N =
     (case nd_finality N of
        None \<Rightarrow> (False, N)
      | Some I \<Rightarrow> let (r, I') = integration_tick (ne_finality W) now I in (r, N\<lparr>nd_finality := Some I'\<rparr>))"

definition get_last_finality_voters :: "'d node \<Rightarrow> account_id list" where
  "get_last_finality_voters N = (case nd_finality N of None \<Rightarrow> [] | Some I \<Rightarrow> fi_last_finality_voters I)"

definition is_finality_active :: "'d node \<Rightarrow> bool" where
  "is_finality_active N = (case nd_finality N of None \<Rightarrow> False | Some I \<Rightarrow> fi_is_active I)"

text \<open>
  The messages sent through the broadcaster (\<open>fg_sent\<close>) sit in the node's channel until they are
  taken from it; those of the outbound queue follow.
\<close>

definition broadcast_finality_messages :: "'d node_env \<Rightarrow> 'd node \<Rightarrow> 'd node" where
  "broadcast_finality_messages W N =
     (case nd_finality N of
        None \<Rightarrow> N
      | Some I \<Rightarrow>
          let (messages, G) = drain_outbound (fi_gadget I);
              channel = fg_sent G
          in N\<lparr>nd_finality := Some (I\<lparr>fi_gadget := G\<lparr>fg_sent := []\<rparr>\<rparr>),
               nd_sent := nd_sent N @ filter (ne_publish W) (map NetFinality (channel @ messages))\<rparr>)"

section \<open>Early validator votes in a block\<close>

definition approve_and_credit ::
  "'d storage_env \<Rightarrow> account_id \<Rightarrow> block_number \<Rightarrow> validator_set \<times> 'd state_backend \<Rightarrow> bool \<times> validator_set \<times> 'd state_backend" where
  "approve_and_credit E candidate n = (\<lambda>(V, s).
     case approve_early_validator candidate n V of
       (Inr _, V1) \<Rightarrow> (True, V1, snd (initialize_bootstrap_vc E candidate n (n div 600) s))
     | (Inl _, V1) \<Rightarrow> (False, V1, s))"

definition process_early_vote ::
  "'d storage_env \<Rightarrow> block_number \<Rightarrow> signed_transaction \<Rightarrow> validator_set \<times> 'd state_backend \<Rightarrow> bool \<times> validator_set \<times> 'd state_backend" where
  "process_early_vote E n tx = (\<lambda>(V, s).
     let sender = tx_sender (stx_transaction tx)
     in case tx_call (stx_transaction tx) of
          ProposeEarlyValidator candidate \<Rightarrow>
            (case propose_early_validator candidate sender n V of
               (Inr _, V1) \<Rightarrow>
                 (case bm_get (vs_early_candidates V1) candidate of
                    Some c \<Rightarrow> if has_quorum c then approve_and_credit E candidate n (V1, s) else (False, V1, s)
                  | None \<Rightarrow> (False, V1, s))
             | (Inl _, V1) \<Rightarrow> (False, V1, s))
        | VoteEarlyValidator candidate \<Rightarrow>
            (case vote_early_validator candidate sender n V of
               (Inr has_q, V1) \<Rightarrow> if has_q then approve_and_credit E candidate n (V1, s) else (False, V1, s)
             | (Inl _, V1) \<Rightarrow> (False, V1, s))
        | _ \<Rightarrow> (False, V, s))"

fun process_early_votes ::
  "'d storage_env \<Rightarrow> block_number \<Rightarrow> signed_transaction list \<Rightarrow> validator_set \<times> 'd state_backend \<Rightarrow> bool \<times> validator_set \<times> 'd state_backend" where
  "process_early_votes E n [] = (\<lambda>(V, s). (False, V, s))"
| "process_early_votes E n (tx # txs) = (\<lambda>(V, s).
     let (changed, V1, s1) = process_early_vote E n tx (V, s);
         (changed', V2, s2) = process_early_votes E n txs (V1, s1)
     in (changed \<or> changed', V2, s2))"

section \<open>Importing a block\<close>

fun run_import :: "'d storage_env \<Rightarrow> block_number \<Rightarrow> nat \<Rightarrow> balance \<Rightarrow> signed_transaction list \<Rightarrow> 'd state_backend
     \<Rightarrow> (consensus_failure, balance) result \<times> 'd state_backend" where
  "run_import E n idx total_fees [] s = (Ok total_fees, s)"
| "run_import E n idx total_fees (tx # txs) s =
     (let (r, s1) = execute E tx n s
      in if \<not> er_success r then (Err (TransactionFailed idx (er_error r)), s1)
         else run_import E n (idx + 1) (sat_add total_fees (er_fee_paid r)) txs s1)"

definition trust_early_author :: "block_number \<Rightarrow> account_id \<Rightarrow> validator_set \<Rightarrow> bool \<times> validator_set" where
  "trust_early_author n author V =
     (if \<not> is_active V author \<and> n \<le> 100
      then (case ensure_bootstrap_validator author 0 V of (Inl _, V1) \<Rightarrow> (False, V1) | (Inr _, V1) \<Rightarrow> (True, V1))
      else (False, V))"

definition check_drift :: "'d storage_env \<Rightarrow> block_number \<Rightarrow> block \<Rightarrow> ('d, unit) state_action" where
  "check_drift E current_height b =
     (if bh_number (bk_header b) \<le> 100 \<and> current_height = 0 then update_drift_tracker_for_sync E b
      else andThen (validate_block_drift E b SLOT_DURATION_SECS) (\<lambda>_. ret ()))"

definition import_state ::
  "libm \<Rightarrow> 'd storage_env \<Rightarrow> block \<Rightarrow> validator_set \<times> 'd state_backend \<Rightarrow> (node_error, bool) result \<times> validator_set \<times> 'd state_backend" where
  "import_state L E b = (\<lambda>(V, s).
     let h = bk_header b; n = bh_number h
     in case run_import E n 0 0 (bb_transactions (bk_body b)) s of
          (Inl e, s1) \<Rightarrow> (Err (NodeConsensus e), V, s1)
        | (Inr total_fees, s1) \<Rightarrow>
            let (changed, V1, s2) = process_early_votes E n (bb_transactions (bk_body b)) (V, s1)
            in case apply_block_rewards_for_import L E (bh_author h) (bh_epoch h) total_fees s2 of
                 (Inl e, s3) \<Rightarrow> (Err (NodeConsensus (RewardFailed e)), V1, s3)
               | (Inr _, s3) \<Rightarrow>
                   let rt = compute_state_root E n 0 s3
                   in if sr_root rt \<noteq> bh_state_root h
                      then (Err (NodeConsensus (ImportStateRootMismatch (bh_state_root h) (sr_root rt))), V1, s3)
                      else case andThen (store_state_root E n rt) (\<lambda>_. andThen (store_block E b) (\<lambda>_. set_best_block E n)) s3 of
                             (Inl e, s4) \<Rightarrow> (Err (NodeStorage e), V1, s4)
                           | (Inr _, s4) \<Rightarrow> (Ok changed, V1, s4))"

definition import_block :: "'d node_env \<Rightarrow> clock \<Rightarrow> block \<Rightarrow> 'd node \<Rightarrow> (node_error, unit) result \<times> 'd node" where
  "import_block W now b N =
     (let E = ne_store W; K = se_crypto E; h = bk_header b; n = bh_number h; bhash = block_hash K b;
          current_height = nd_chain_height N
      in if n \<noteq> current_height + 1 then (Err (NodeConsensus (BlockNumberMismatch (current_height + 1) n)), N)
         else if (case fst (get_block_by_number E n (nd_storage N)) of
                    Inr (Some existing) \<Rightarrow> block_hash K existing = bhash | _ \<Rightarrow> False) then (Ok (), N)
         else case nd_current_block N of
           None \<Rightarrow> (Err (NodeConsensus NoParentBlock), N)
         | Some parent \<Rightarrow>
             if bh_parent_hash h \<noteq> block_hash K parent
             then (Err (NodeConsensus (ParentHashMismatch (block_hash K parent) (bh_parent_hash h))), N)
             else let (trusted, V) = trust_early_author n (bh_author h) (nd_validators N); N1 = N\<lparr>nd_validators := V\<rparr>
                  in case validate_block K (snd now) b parent V of
                       Inl e \<Rightarrow> (Err (NodeConsensus (BlockValidationFailed e)), N1)
                     | Inr _ \<Rightarrow>
                         case check_drift E current_height b (nd_storage N1) of
                           (Inl e, s1) \<Rightarrow> (Err (NodeConsensus (DriftCheckFailed e)), N1\<lparr>nd_storage := s1\<rparr>)
                         | (Inr _, s1) \<Rightarrow>
                             case import_state (ne_libm W) E b (V, s1) of
                               (Inl e, V2, s2) \<Rightarrow> (Err e, N1\<lparr>nd_validators := V2, nd_storage := s2\<rparr>)
                             | (Inr changed, V2, s2) \<Rightarrow>
                                 let N2 = N1\<lparr>nd_validators := V2, nd_storage := s2\<rparr>;
                                     N3 = (if trusted \<or> changed then update_finality_validators W N2 else N2);
                                     N4 = N3\<lparr>nd_mempool := remove_included (bb_transactions (bk_body b)) (nd_mempool N3),
                                             nd_current_block := Some b, nd_chain_height := n, nd_local_state := (n, bhash)\<rparr>
                                 in (Ok (), notify_finality_block_imported W now n bhash N4))"

section \<open>Producing a block\<close>

fun store_early_votes :: "'d node_env \<Rightarrow> block_number \<Rightarrow> signed_transaction list \<Rightarrow> 'd node \<Rightarrow> 'd node" where
  "store_early_votes W n [] N = N"
| "store_early_votes W n (tx # txs) N =
     (let (changed, V, s) = process_early_vote (ne_store W) n tx (nd_validators N, nd_storage N);
          N1 = N\<lparr>nd_validators := V, nd_storage := s\<rparr>
      in store_early_votes W n txs (if changed then update_finality_validators W N1 else N1))"

definition store_produced_block :: "'d node_env \<Rightarrow> clock \<Rightarrow> block \<Rightarrow> 'd node \<Rightarrow> (node_error, unit) result \<times> 'd node" where
  "store_produced_block W now b N =
     (let E = ne_store W; n = bh_number (bk_header b); bhash = block_hash (se_crypto E) b
      in case andThen (store_block E b) (\<lambda>_. set_best_block E n) (nd_storage N) of
           (Inl e, s1) \<Rightarrow> (Err (NodeStorage e), N\<lparr>nd_storage := s1\<rparr>)
         | (Inr _, s1) \<Rightarrow>
             let N1 = N\<lparr>nd_storage := s1, nd_mempool := remove_included (bb_transactions (bk_body b)) (nd_mempool N)\<rparr>;
                 N2 = store_early_votes W n (bb_transactions (bk_body b)) N1;
                 N3 = N2\<lparr>nd_current_block := Some b, nd_chain_height := n, nd_local_state := (n, bhash),
                         nd_sent := nd_sent N2 @ filter (ne_publish W) [NetBlock b]\<rparr>
             in (Ok (), broadcast_finality_messages W (notify_finality_block_imported W now n bhash N3)))"

definition record_clock_miss :: "'d storage_env \<Rightarrow> account_id \<Rightarrow> epoch_number \<Rightarrow> clock_status \<Rightarrow> 'd state_backend \<Rightarrow> 'd state_backend" where
  "record_clock_miss E i epoch status s =
     (let s1 = snd (record_clock_missed_slot E i s)
      in if status = Excluded then snd (record_clock_failure E i epoch s1) else s1)"

definition try_produce_block ::
  "'d node_env \<Rightarrow> clock \<Rightarrow> account_id \<times> (bytes \<Rightarrow> signature64) \<Rightarrow> epoch_number \<Rightarrow> slot_number \<Rightarrow> 'd node
     \<Rightarrow> (node_error, block option) result \<times> 'd node" where
  "try_produce_block W now validator_key epoch sl N =
     (let (validator_id, sign) = validator_key; E = ne_store W; L = ne_libm W
      in if \<not> can_produce_blocks (nd_clock_health N)
         then (Ok None, N\<lparr>nd_storage := record_clock_miss E validator_id epoch (ch_status (nd_clock_health N)) (nd_storage N)\<rparr>)
         else if \<not> is_active (nd_validators N) validator_id then (Ok None, N)
         else case nd_current_block N of
                None \<Rightarrow> (Err (NodeConsensus NoParentBlock), N)
              | Some parent \<Rightarrow>
                  if sl \<le> bh_slot (bk_header parent) \<and> epoch \<le> bh_epoch (bk_header parent) then (Ok None, N)
                  else if is_slot_leader L E sl epoch (nd_validators N) validator_id (nd_storage N) \<noteq> Ok True then (Ok None, N)
                  else case produce_block L E (ne_drain W) (snd now) parent validator_id epoch sl
                              (producer_new (Some sign) (nd_producer_db N), nd_mempool N, nd_storage N) of
                         (r, B, P, s) \<Rightarrow>
                           let N1 = N\<lparr>nd_producer_db := bp_db B, nd_mempool := P, nd_storage := s\<rparr>
                           in case r of
                                Inr b \<Rightarrow> (case store_produced_block W now b N1 of
                                            (Inl e, N2) \<Rightarrow> (Err e, N2)
                                          | (Inr _, N2) \<Rightarrow> (Ok (Some b), N2))
                              | Inl AlreadySignedThisSlot \<Rightarrow> (Ok None, N1)
                              | Inl e \<Rightarrow> (Err (NodeConsensus (ProductionFailed e)), N1))"

section \<open>Submitting a transaction\<close>

definition submit_transaction :: "'d node_env \<Rightarrow> nat \<Rightarrow> signed_transaction \<Rightarrow> 'd node \<Rightarrow> (node_error, hash) result \<times> 'd node" where
  "submit_transaction W now tx N =
     (let K = se_crypto (ne_store W);
          h = (case stx_hash tx of Some h \<Rightarrow> h | None \<Rightarrow> transaction_hash K (stx_transaction tx));
          tx' = tx\<lparr>stx_hash := Some h\<rparr>
      in case add_with_validation K (ne_store W) (ne_iter W) now tx' None (nd_mempool N) of
           (Inl e, _, P) \<Rightarrow> (Err (NodeTransaction e), N\<lparr>nd_mempool := P\<rparr>)
         | (Inr _, _, P) \<Rightarrow>
             if ne_publish W (NetTransaction tx') then (Ok h, N\<lparr>nd_mempool := P, nd_sent := nd_sent N @ [NetTransaction tx']\<rparr>)
             else (Err NodeNetwork, N\<lparr>nd_mempool := P\<rparr>))"

definition node_record_clock_drift :: "u64 \<Rightarrow> int \<Rightarrow> 'd node \<Rightarrow> (clock_status \<times> bool) \<times> 'd node" where
  "node_record_clock_drift now d N =
     (let (r, h) = record_drift now d (nd_clock_health N) in (r, N\<lparr>nd_clock_health := h\<rparr>))"

definition node_get_balance :: "'d storage_env \<Rightarrow> account_id \<Rightarrow> 'd node \<Rightarrow> (node_error, balance) result \<times> 'd node" where
  "node_get_balance E i N =
     (case get_account E i (nd_storage N) of
        (Inl e, s) \<Rightarrow> (Err (NodeStorage e), N\<lparr>nd_storage := s\<rparr>)
      | (Inr r, s) \<Rightarrow> (Ok (case r of Some a \<Rightarrow> ai_free a | None \<Rightarrow> 0), N\<lparr>nd_storage := s\<rparr>))"

definition node_get_nonce :: "'d storage_env \<Rightarrow> account_id \<Rightarrow> 'd node \<Rightarrow> (node_error, u64) result \<times> 'd node" where
  "node_get_nonce E i N =
     (case get_account E i (nd_storage N) of
        (Inl e, s) \<Rightarrow> (Err (NodeStorage e), N\<lparr>nd_storage := s\<rparr>)
      | (Inr r, s) \<Rightarrow> (Ok (case r of Some a \<Rightarrow> ai_nonce a | None \<Rightarrow> 0), N\<lparr>nd_storage := s\<rparr>))"

end
