(* ===== verification/Kratos_Agreement.thy ===== *)
theory Kratos_Agreement
  imports Kratos_Node
begin

text \<open>
  What one node produces, another accepts: re-executing a produced block on a synchronised node
  gives the same results, rewards and state root, and leaves the two nodes synchronised. The
  theory relates the two paths of the code through a block: \<open>produce_block\<close> followed by
  \<open>store_produced_block\<close> on the author, \<open>import_block\<close> on the other node.
\<close>

section \<open>Writes beside the accounts\<close>

definition bookkeeping :: "(bytes \<rightharpoonup> bytes) \<Rightarrow> bool" where
  "bookkeeping U = (\<forall>k \<in> dom U. \<not> starts_with k PREFIX_ACCOUNT \<and> (\<forall>i. k \<noteq> unbonding_key i))"

definition overlay ::
  "'d storage_env \<Rightarrow> ('d \<Rightarrow> bytes \<rightharpoonup> bytes) \<Rightarrow> (bytes \<rightharpoonup> bytes) \<Rightarrow> 'd state_backend \<Rightarrow> 'd state_backend \<Rightarrow> bool" where
  "overlay E content U s t = (healthy E content s \<and> healthy E content t \<and> content (sb_db t) = content (sb_db s) ++ U)"

lemma bookkeeping_simps [simp]:
  "bookkeeping Map.empty"
  "bookkeeping U \<Longrightarrow> U (account_key i) = None" "bookkeeping U \<Longrightarrow> U (unbonding_key i) = None"
  "bookkeeping U \<Longrightarrow> starts_with k PREFIX_ACCOUNT \<Longrightarrow> U k = None"
  using account_key_prefix by (auto simp: bookkeeping_def dom_def)

lemma bookkeeping_add: "bookkeeping U \<Longrightarrow> bookkeeping V \<Longrightarrow> bookkeeping (U ++ V)"
  by (auto simp: bookkeeping_def)

lemma bookkeeping_single:
  "(\<forall>i. k \<noteq> unbonding_key i) \<Longrightarrow> \<not> starts_with k PREFIX_ACCOUNT \<Longrightarrow> bookkeeping [k \<mapsto> v]"
  by (simp add: bookkeeping_def)

lemma map_add_frame: "U k = None \<Longrightarrow> (m ++ U) k = m k"
  by (simp add: map_add_def)

lemma map_add_upd_frame: "U k = None \<Longrightarrow> (m ++ U)(k \<mapsto> v) = m(k \<mapsto> v) ++ U"
  by (auto simp: map_add_def fun_eq_iff split: option.splits)

lemma overlay_trans: "overlay E content U s t \<Longrightarrow> overlay E content V t u \<Longrightarrow> overlay E content (U ++ V) s u"
  by (simp add: overlay_def)

lemma overlay_refl: "healthy E content s \<Longrightarrow> overlay E content Map.empty s s"
  by (simp add: overlay_def)

lemma overlay_accounts:
  "overlay E content U s t \<Longrightarrow> bookkeeping U \<Longrightarrow> accounts E content t = accounts E content s"
  by (simp add: overlay_def accounts_def stored_def map_add_frame fun_eq_iff)

lemma overlay_unbondings:
  "overlay E content U s t \<Longrightarrow> bookkeeping U \<Longrightarrow> unbondings E content t = unbondings E content s"
  by (simp add: overlay_def unbondings_def stored_def map_add_frame fun_eq_iff)

text \<open>Two synchronised states with bookkeeping on top that agrees on the credit records.\<close>

lemma synced_overlay:
  assumes st: "synced E content s t" and s: "overlay E content U s s'" and t: "overlay E content V t t'"
    and "bookkeeping U" "bookkeeping V" and vc: "\<And>i. U (vc_key i) = V (vc_key i)"
  shows "synced E content s' t'"
proof -
  have "content (sb_db s') k = content (sb_db t') k" if "starts_with k PREFIX_ACCOUNT" for k
    using st s t assms(4,5) that by (simp add: synced_def agree_def overlay_def map_add_frame)
  moreover have "content (sb_db s') (vc_key i) = content (sb_db t') (vc_key i)" for i
    using st s t vc [of i] by (simp add: synced_def agree_def overlay_def map_add_def split: option.splits)
  moreover have "real_requests (pending_of (unbondings E content s') i) = real_requests (pending_of (unbondings E content t') i)" for i
    using st by (simp add: overlay_unbondings [OF s assms(4)] overlay_unbondings [OF t assms(5)] synced_def agree_def)
  ultimately show ?thesis using s t by (simp add: synced_def agree_def overlay_def)
qed

lemma get_account_db: "healthy E content s \<Longrightarrow> get_account E i s = (r, s') \<Longrightarrow> sb_db s' = sb_db s \<and> healthy E content s'"
proof -
  assume h: "healthy E content s" and g: "get_account E i s = (r, s')"
  obtain t where t: "get_account E i s = (Ok (accounts E content s i), t)" "healthy E content t"
    using get_account_step [OF h] by metis
  with g get_account_ok [of E content s i] h show ?thesis by (auto simp: healthy_def)
qed

lemma overlay_get_account: "bookkeeping U \<Longrightarrow> sim (overlay E content U) (get_account E i)"
proof (rule simI)
  fix s t assume u: "bookkeeping U" and o: "overlay E content U s t"
  then have h: "healthy E content s" "healthy E content t" by (simp_all add: overlay_def)
  obtain s' where s': "get_account E i s = (Ok (accounts E content s i), s')" using get_account_step [OF h(1)] by metis
  obtain t' where t': "get_account E i t = (Ok (accounts E content s i), t')"
    using get_account_step [OF h(2)] overlay_accounts [OF o u] by metis
  have "overlay E content U s' t'"
    using o get_account_db [OF h(1) s'] get_account_db [OF h(2) t'] by (simp add: overlay_def)
  with s' t' show "\<exists>r s' t'. get_account E i s = (r, s') \<and> get_account E i t = (r, t') \<and> overlay E content U s' t'" by blast
qed

lemma overlay_set_account: "bookkeeping U \<Longrightarrow> sim (overlay E content U) (set_account E i info)"
proof (rule simI)
  fix s t assume u: "bookkeeping U" and o: "overlay E content U s t"
  then have h: "healthy E content s" "healthy E content t" by (simp_all add: overlay_def)
  obtain bs where bs: "serialize (bc_account E) info = Ok bs" using healthy_serialize(1) [OF h(1)] by blast
  obtain s' where s': "set_account E i info s = (Ok (), s')" "healthy E content s'"
    "content (sb_db s') = (content (sb_db s))(account_key i \<mapsto> bs)" by (rule set_account_exact [OF h(1) bs])
  obtain t' where t': "set_account E i info t = (Ok (), t')" "healthy E content t'"
    "content (sb_db t') = (content (sb_db t))(account_key i \<mapsto> bs)" by (rule set_account_exact [OF h(2) bs])
  have "overlay E content U s' t'"
    using o s' t' u by (simp add: overlay_def map_add_upd_frame)
  with s'(1) t'(1) show "\<exists>r s' t'. set_account E i info s = (r, s') \<and> set_account E i info t = (r, t') \<and> overlay E content U s' t'"
    by blast
qed

lemma overlay_credit: "bookkeeping U \<Longrightarrow> sim (overlay E content U) (credit E i amount)"
  unfolding credit_def Let_def by (intro sim_andThen overlay_get_account overlay_set_account)

lemma synced_credit: "sim (synced E content) (credit E i amount)"
  unfolding credit_def Let_def by (intro sim_andThen synced_get_account synced_set_account)

lemma credit_ok: "healthy E content s \<Longrightarrow> \<exists>s'. credit E i amount s = (Ok (), s') \<and> healthy E content s'"
proof -
  assume h: "healthy E content s"
  obtain s1 where s1: "get_account E i s = (Ok (accounts E content s i), s1)" "healthy E content s1"
    using get_account_step [OF h] by metis
  with set_account_healthy [OF s1(2)] show ?thesis by (simp add: credit_def andThen_def Let_def)
qed

lemma save_overlay:
  assumes h: "healthy E content s" and bs: "serialize C x = Ok bs"
    and k: "\<not> starts_with key PREFIX_ACCOUNT" "\<And>i. key \<noteq> unbonding_key i"
  obtains s' where "save E C key x s = (Ok (), s')" "overlay E content [key \<mapsto> bs] s s'"
proof -
  obtain s' where s': "save E C key x s = (Ok (), s')" "content (sb_db s') = (content (sb_db s))(key \<mapsto> bs)"
    "sb_account_cache s' = sb_account_cache s" by (rule save_exact [OF healthyD [OF h] bs])
  have na: "key \<noteq> account_key i" for i using k(1) account_key_prefix by blast
  have "readable E content s'"
    using h na k(2) by (intro readable_upd [OF _ s'(2)]) (auto simp: healthy_def)
  moreover have "state_ok E content s'"
  proof -
    have "account_key i \<noteq> key" for i using na [of i] by simp
    then show ?thesis using h s' state_ok_frame [of E content s s'] by (simp add: healthy_def)
  qed
  ultimately have "healthy E content s'" using h by (simp add: healthy_def)
  with that [OF s'(1)] h s'(2) show ?thesis by (simp add: overlay_def)
qed

section \<open>Executing the transactions\<close>

lemma execute_failed_fee: "execute E tx n s = (r, s') \<Longrightarrow> \<not> er_success r \<Longrightarrow> er_fee_paid r = 0"
  by (auto simp: execute_def execute_with_sender_def Let_def split: if_splits prod.splits sum.splits option.splits)

lemma execute_fee_bound: "execute E tx n s = (r, s') \<Longrightarrow> unat (er_fee_paid r) \<le> 10 ^ 7"
proof -
  assume run: "execute E tx n s = (r, s')"
  have "unat (base_fee c) \<le> 10 ^ 7" for c by (cases c) simp_all
  with run show ?thesis
    by (auto simp: execute_def execute_with_sender_def Let_def split: if_splits prod.splits sum.splits option.splits)
qed

lemma synced_healthy: "synced E content s t \<Longrightarrow> healthy E content s" "synced E content s t \<Longrightarrow> healthy E content t"
  by (simp_all add: synced_def)

lemma run_selected_length: "run_selected E n txs s = (executed, results, s') \<Longrightarrow> length results = length txs"
  by (induction txs arbitrary: s executed results s') (auto simp: Let_def split: prod.splits)

lemma run_selected_fees:
  "run_selected E n txs s = (executed, results, s') \<Longrightarrow> \<forall>r \<in> set results. unat (er_fee_paid r) \<le> 10 ^ 7"
proof (induction txs arbitrary: s executed results s')
  case (Cons tx txs)
  obtain r s1 where e: "execute E tx n s = (r, s1)" by (cases "execute E tx n s")
  obtain ex rs s2 where t: "run_selected E n txs s1 = (ex, rs, s2)" by (rule prod_cases3)
  from Cons.IH [OF t] execute_fee_bound [OF e] Cons.prems show ?case by (auto simp: e t)
qed simp

text \<open>
  The importer executes only the transactions that succeeded on the producer. The failed ones
  left the producer's state related to what it was, so the results are the same.
\<close>

lemma run_import_selected:
  assumes "synced E content s t" "run_selected E n txs s = (executed, results, s')"
  shows "\<exists>t'. run_import E n idx fees executed t = (Ok (foldl sat_add fees (map er_fee_paid results)), t') \<and> synced E content s' t'"
  using assms
proof (induction txs arbitrary: s t executed results s' idx fees)
  case Nil
  then show ?case by auto
next
  case (Cons tx txs)
  obtain r s1 where e: "execute E tx n s = (r, s1)" by (cases "execute E tx n s")
  obtain ex rs s2 where sel: "run_selected E n txs s1 = (ex, rs, s2)" by (rule prod_cases3)
  have out: "executed = (if er_success r then tx # ex else ex)" "results = r # rs" "s' = s2"
    using Cons.prems(2) by (simp_all add: e sel split: if_splits)
  show ?case
  proof (cases "er_success r")
    case True
    obtain t1 where t1: "execute E tx n t = (r, t1)" "synced E content s1 t1" by (rule synced_execute [OF Cons.prems(1) e])
    from Cons.IH [OF t1(2) sel, of "idx + 1" "sat_add fees (er_fee_paid r)"] show ?thesis by (simp add: out True t1)
  next
    case False
    have "synced E content s1 t"
      using failed_execute [OF synced_healthy(1) [OF Cons.prems(1)] e False] Cons.prems(1) by (blast intro: synced_trans synced_sym)
    from Cons.IH [OF this sel, of idx fees] execute_failed_fee [OF e False] show ?thesis by (simp add: out False)
  qed
qed

lemma foldl_sat_add_sum:
  fixes fs :: "u128 list"
  assumes "\<forall>f \<in> set fs. unat f \<le> b" "unat a + b * length fs < 2 ^ 128"
  shows "foldl sat_add a fs = a + sum_list fs"
  using assms
proof (induction fs arbitrary: a)
  case (Cons f fs)
  then have le: "unat f \<le> b" by simp
  with Cons.prems have fit: "unat a + unat f < 2 ^ 128" by (simp add: algebra_simps)
  then have "sat_add a f = a + f" "unat (a + f) = unat a + unat f" by (simp_all add: sat_add_def unat_add_fits)
  then show ?case using Cons.IH [of "a + f"] Cons.prems le by (simp add: algebra_simps)
qed simp

lemma run_selected_total:
  assumes "run_selected E n txs s = (executed, results, s')" "length txs \<le> 1000"
  shows "foldl sat_add 0 (map er_fee_paid results) = sum_list (map er_fee_paid results)"
  using foldl_sat_add_sum [of "map er_fee_paid results" "10 ^ 7" 0] run_selected_fees [OF assms(1)]
    run_selected_length [OF assms(1)] assms(2) by simp

lemma run_selected_healthy:
  "healthy E content s \<Longrightarrow> run_selected E n txs s = (executed, results, s') \<Longrightarrow> healthy E content s'"
  using run_import_selected [OF synced_refl] synced_healthy(1) by blast

section \<open>Votes on early validators\<close>

definition vc_total :: "'d storage_env \<Rightarrow> bool" where
  "vc_total E = (\<forall>n ep. is_ok (serialize (bc_vc E) ((vc_new n ep)\<lparr>vc_uptime_credits := 100\<rparr>)))"

definition named :: "signed_transaction \<Rightarrow> account_id set" where
  "named tx = (case tx_call (stx_transaction tx) of ProposeEarlyValidator c \<Rightarrow> {c} | VoteEarlyValidator c \<Rightarrow> {c} | _ \<Rightarrow> {})"

text \<open>
  An action on the validator set and the storage whose outcome depends on the set alone and which
  writes the same credit records whatever else the storage holds.
\<close>

definition credit_writes ::
  "'d storage_env \<Rightarrow> ('d \<Rightarrow> bytes \<rightharpoonup> bytes) \<Rightarrow> account_id set \<Rightarrow> validator_set
     \<Rightarrow> (validator_set \<times> 'd state_backend \<Rightarrow> bool \<times> validator_set \<times> 'd state_backend) \<Rightarrow> bool" where
  "credit_writes E content A V f =
     (\<exists>ch V' U. dom U \<subseteq> vc_key ` A \<and> (\<forall>s. healthy E content s \<longrightarrow> (\<exists>s'. f (V, s) = (ch, V', s') \<and> overlay E content U s s')))"

lemma credit_writesI:
  "dom U \<subseteq> vc_key ` A \<Longrightarrow> (\<And>s. healthy E content s \<Longrightarrow> \<exists>s'. f (V, s) = (ch, V', s') \<and> overlay E content U s s') \<Longrightarrow> credit_writes E content A V f"
  unfolding credit_writes_def by blast

lemma credit_writesE:
  assumes "credit_writes E content A V f"
  obtains ch V' U where "dom U \<subseteq> vc_key ` A" "\<And>s. healthy E content s \<Longrightarrow> \<exists>s'. f (V, s) = (ch, V', s') \<and> overlay E content U s s'"
  using assms unfolding credit_writes_def by blast

lemma credit_writes_none: "(\<And>s. f (V, s) = (False, V', s)) \<Longrightarrow> credit_writes E content A V f"
  by (rule credit_writesI [of Map.empty _ _ _ _ _ False V']) (simp_all add: overlay_refl)

lemma credit_writes_same: "(\<And>s. f (V, s) = g (V1, s)) \<Longrightarrow> credit_writes E content A V1 g \<Longrightarrow> credit_writes E content A V f"
  unfolding credit_writes_def by simp

lemma vc_key_book: "\<not> starts_with (vc_key i) PREFIX_ACCOUNT" "vc_key i \<noteq> unbonding_key j"
  using foreign_keys(2) foreign_keys(4) [of j i] by auto

lemma vc_book: "dom U \<subseteq> vc_key ` A \<Longrightarrow> bookkeeping U"
  unfolding bookkeeping_def
proof (intro ballI)
  fix k assume "dom U \<subseteq> vc_key ` A" "k \<in> dom U"
  then obtain i where "k = vc_key i" by blast
  then show "\<not> starts_with k PREFIX_ACCOUNT \<and> (\<forall>i. k \<noteq> unbonding_key i)" using vc_key_book by simp
qed

lemma initialize_vc_overlay:
  assumes "healthy E content s" "serialize (bc_vc E) ((vc_new n ep)\<lparr>vc_uptime_credits := 100\<rparr>) = Ok bs"
  shows "overlay E content [vc_key i \<mapsto> bs] s (snd (initialize_bootstrap_vc E i n ep s))"
proof -
  obtain s' where "save E (bc_vc E) (vc_key i) ((vc_new n ep)\<lparr>vc_uptime_credits := 100\<rparr>) s = (Ok (), s')"
    "overlay E content [vc_key i \<mapsto> bs] s s'"
    by (rule save_overlay [OF assms vc_key_book(1) vc_key_book(2)])
  then show ?thesis by (simp add: initialize_bootstrap_vc_def set_vc_record_def)
qed

lemma approve_writes:
  assumes "vc_total E"
  shows "credit_writes E content {c} V (approve_and_credit E c n)"
proof -
  obtain bs where bs: "serialize (bc_vc E) ((vc_new n (n div 600))\<lparr>vc_uptime_credits := 100\<rparr>) = Ok bs"
    using assms unfolding vc_total_def is_ok_iff by blast
  obtain r V1 where a: "approve_early_validator c n V = (r, V1)" by (cases "approve_early_validator c n V")
  show ?thesis
  proof (cases r)
    case Inl
    then show ?thesis by (intro credit_writes_none [where V' = V1]) (simp add: approve_and_credit_def a)
  next
    case Inr
    then show ?thesis
      by (intro credit_writesI [of "[vc_key c \<mapsto> bs]"])
        (simp_all add: approve_and_credit_def a initialize_vc_overlay [OF _ bs])
  qed
qed

lemma early_vote_writes:
  assumes "vc_total E"
  shows "credit_writes E content (named tx) V (process_early_vote E n tx)"
proof (cases "tx_call (stx_transaction tx)")
  case (ProposeEarlyValidator c)
  obtain r V1 where p: "propose_early_validator c (tx_sender (stx_transaction tx)) n V = (r, V1)" by fastforce
  consider e where "r = Inl e" | "r = Ok ()" "bm_get (vs_early_candidates V1) c = None"
    | q where "r = Ok ()" "bm_get (vs_early_candidates V1) c = Some q" by (cases r; cases "bm_get (vs_early_candidates V1) c") auto
  then show ?thesis
  proof cases
    case 1
    then show ?thesis by (intro credit_writes_none [where V' = V1]) (simp add: process_early_vote_def ProposeEarlyValidator p)
  next
    case 2
    then show ?thesis by (intro credit_writes_none [where V' = V1]) (simp add: process_early_vote_def ProposeEarlyValidator p)
  next
    case 3
    then show ?thesis
      using approve_writes [OF assms, of content c V1 n]
      by (cases "has_quorum q")
        (auto intro: credit_writes_none [where V' = V1] credit_writes_same simp: process_early_vote_def ProposeEarlyValidator p named_def)
  qed
next
  case (VoteEarlyValidator c)
  obtain r V1 where p: "vote_early_validator c (tx_sender (stx_transaction tx)) n V = (r, V1)" by fastforce
  show ?thesis
  proof (cases "r = Ok True")
    case True
    then show ?thesis
      using approve_writes [OF assms, of content c V1 n]
      by (auto intro: credit_writes_same simp: process_early_vote_def VoteEarlyValidator p named_def)
  next
    case False
    then show ?thesis
      by (intro credit_writes_none [where V' = V1]) (cases r; simp add: process_early_vote_def VoteEarlyValidator p)
  qed
qed (auto intro: credit_writes_none [where V' = V] simp: process_early_vote_def)

lemma early_votes_writes:
  assumes "vc_total E"
  shows "credit_writes E content (\<Union> (named ` set txs)) V (process_early_votes E n txs)"
proof (induction txs arbitrary: V)
  case Nil
  show ?case by (rule credit_writes_none [where V' = V]) simp
next
  case (Cons tx txs)
  obtain ch V1 U where h: "dom U \<subseteq> vc_key ` named tx"
    "\<And>s. healthy E content s \<Longrightarrow> \<exists>s'. process_early_vote E n tx (V, s) = (ch, V1, s') \<and> overlay E content U s s'"
    by (rule credit_writesE [OF early_vote_writes [OF assms]]) blast
  obtain ch' V2 U' where t: "dom U' \<subseteq> vc_key ` \<Union> (named ` set txs)"
    "\<And>s. healthy E content s \<Longrightarrow> \<exists>s'. process_early_votes E n txs (V1, s) = (ch', V2, s') \<and> overlay E content U' s s'"
    by (rule credit_writesE [OF Cons.IH]) blast
  show ?case
  proof (rule credit_writesI [of "U ++ U'"])
    show "dom (U ++ U') \<subseteq> vc_key ` \<Union> (named ` set (tx # txs))"
      using h(1) t(1) by (simp add: image_Un) blast
    fix s assume s: "healthy E content s"
    obtain s1 where s1: "process_early_vote E n tx (V, s) = (ch, V1, s1)" "overlay E content U s s1" using h(2) s by blast
    then have "healthy E content s1" by (simp add: overlay_def)
    then obtain s2 where "process_early_votes E n txs (V1, s1) = (ch', V2, s2)" "overlay E content U' s1 s2" using t(2) by blast
    with s1 show "\<exists>s'. process_early_votes E n (tx # txs) (V, s) = (ch \<or> ch', V2, s') \<and> overlay E content (U ++ U') s s'"
      by (auto intro: overlay_trans)
  qed
qed

section \<open>Rewards\<close>

definition ln_ok :: "libm \<Rightarrow> bool" where
  "ln_ok L = (\<forall>x. 1 \<le> x \<longrightarrow> 0 \<le> lm_ln L x)"

definition author_reward :: "libm \<Rightarrow> epoch_number \<Rightarrow> balance \<Rightarrow> u64 \<Rightarrow> balance" where
  "author_reward L epoch fees vc =
     sat_add (if 0 < vc then vc_bonus L (import_block_reward L epoch) vc else import_block_reward L epoch)
       (fr_producer (fee_distribute default_distribution fees))"

definition treasury_share :: "balance \<Rightarrow> balance" where
  "treasury_share fees =
     (let r = fee_distribute default_distribution fees in sat_add (fr_treasury r) (fr_finality_voters r))"

definition pay :: "'d storage_env \<Rightarrow> account_id \<Rightarrow> balance \<Rightarrow> balance \<Rightarrow> ('d, unit) state_action" where
  "pay E author reward treasury =
     andThen (credit E author reward) (\<lambda>_. if 0 < treasury then credit E TREASURY_ACCOUNT treasury else ret ())"

lemma rnd_half: "0 \<le> x \<Longrightarrow> x / 2 \<le> rnd x"
  using rnd_bounds(1) [of x] mult_left_mono [of "1 / 2 :: rat" "1 - 1 / 2 ^ 53" x] by simp

lemma f64_to_word_pos:
  assumes "1 \<le> x"
  shows "(0 :: 'a::len word) < f64_to_word x"
proof (cases "2 ^ LENGTH('a) \<le> \<lfloor>x\<rfloor>")
  case True
  then show ?thesis using assms by (simp add: f64_to_word_def word_gt_0)
next
  case False
  have "1 \<le> \<lfloor>x\<rfloor>" using assms by simp
  with False have "uint (of_int \<lfloor>x\<rfloor> :: 'a word) = \<lfloor>x\<rfloor>" by (simp add: unsigned_of_int take_bit_int_eq_self)
  with \<open>1 \<le> \<lfloor>x\<rfloor>\<close> have "(of_int \<lfloor>x\<rfloor> :: 'a word) \<noteq> 0" by (metis not_one_le_zero unsigned_0)
  with False assms show ?thesis by (simp add: f64_to_word_def word_gt_0)
qed

lemma vc_bonus_pos:
  assumes "ln_ok L" "KRAT \<le> base" "0 < vc"
  shows "0 < vc_bonus L base vc"
proof -
  have "1 \<le> unat vc" using assms(3) by (simp add: word_less_nat_alt)
  then have v: "(1 :: rat) \<le> of_nat (unat vc)" by (metis of_nat_1 of_nat_le_iff)
  have "1 / 2 \<le> f64_of_word vc" using rnd_half [of "of_nat (unat vc)"] v by (simp add: f64_of_word_def)
  then have "1 + f64_of_word vc \<ge> 3 / 2" by simp
  then have "1 \<le> fadd 1 (f64_of_word vc)"
    using rnd_bounds(1) [of "1 + f64_of_word vc"] by (simp add: fadd_def)
  then have "0 \<le> lm_ln L (fadd 1 (f64_of_word vc))" using assms(1) by (simp add: ln_ok_def)
  then have "0 \<le> fdiv (lm_ln L (fadd 1 (f64_of_word vc))) 10" by (simp add: fdiv_def rnd_nonneg)
  then have f: "1 / 2 \<le> fadd 1 (fdiv (lm_ln L (fadd 1 (f64_of_word vc))) 10)" (is "_ \<le> ?f")
    using rnd_half [of "1 + fdiv (lm_ln L (fadd 1 (f64_of_word vc))) 10"] by (simp add: fadd_def)
  have "10 ^ 12 \<le> unat base" using assms(2) by (simp add: word_le_nat_alt const_defs)
  then have "(of_nat (10 ^ 12) :: rat) \<le> of_nat (unat base)" by (rule of_nat_mono)
  then have b: "8 \<le> f64_of_word base" using rnd_half [of "of_nat (unat base)"] by (simp add: f64_of_word_def)
  have "8 * (1 / 2) \<le> f64_of_word base * ?f" using b f by (intro mult_mono) simp_all
  then have "1 \<le> fmul (f64_of_word base) ?f"
    using rnd_half [of "f64_of_word base * ?f"] by (simp add: fmul_def)
  then show ?thesis unfolding vc_bonus_def Let_def by (rule f64_to_word_pos)
qed

lemma author_reward_pos:
  assumes "ln_ok L"
  shows "0 < author_reward L epoch fees vc"
proof -
  have k: "KRAT \<le> import_block_reward L epoch" by (simp add: import_block_reward_def)
  moreover have "0 < KRAT" by (simp add: const_defs)
  ultimately have "0 < import_block_reward L epoch" by (rule order.strict_trans2 [rotated])
  then show ?thesis
    using vc_bonus_pos [OF assms k, of vc] sat_add_ge unfolding author_reward_def
    by (smt (verit, ccfv_SIG) order.strict_trans2)
qed

lemma produce_rewards_pay:
  assumes "ln_ok L"
  shows "produce_rewards L E v epoch fees (producer_new key d) s
       = pay E v (author_reward L epoch fees (validator_credits E v s)) (treasury_share fees) s"
proof -
  have "calculate_block_reward L get_default_metrics epoch (producer_new key d) = import_block_reward L epoch"
    by (simp add: calculate_block_reward_def producer_new_def default_producer_config_def import_block_reward_def Let_def)
  moreover have "apply_vc_bonus L b vc (producer_new key d) = (if 0 < vc then vc_bonus L b vc else b)" for b vc
    by (simp add: apply_vc_bonus_def producer_new_def default_producer_config_def word_gt_0)
  ultimately show ?thesis
    using author_reward_pos [OF assms, of epoch fees "validator_credits E v s"]
    by (simp add: produce_rewards_def Let_def author_reward_def treasury_share_def pay_def producer_new_def default_producer_config_def)
qed

lemma import_rewards_pay:
  assumes "ln_ok L"
  shows "apply_block_rewards_for_import L E v epoch fees s
       = andThen (pay E v (author_reward L epoch fees (validator_credits E v s)) (treasury_share fees))
           (\<lambda>_. ret (author_reward L epoch fees (validator_credits E v s))) s"
  using author_reward_pos [OF assms, of epoch fees "validator_credits E v s"]
  by (auto simp: apply_block_rewards_for_import_def apply_block_rewards_with_finality_def Let_def author_reward_def
      treasury_share_def pay_def andThen_def ret_def split: prod.splits sum.splits)

lemma synced_pay: "sim (synced E content) (pay E v r t)"
  unfolding pay_def by (intro sim_andThen sim_if synced_credit sim_ret)

lemma overlay_pay: "bookkeeping U \<Longrightarrow> sim (overlay E content U) (pay E v r t)"
  unfolding pay_def by (intro sim_andThen sim_if overlay_credit sim_ret)

lemma pay_ok: "healthy E content s \<Longrightarrow> \<exists>s'. pay E v r t s = (Ok (), s') \<and> healthy E content s'"
proof -
  assume h: "healthy E content s"
  obtain s1 where s1: "credit E v r s = (Ok (), s1)" "healthy E content s1" using credit_ok [OF h] by metis
  then show ?thesis
    using credit_ok [OF s1(2), of TREASURY_ACCOUNT t] by (auto simp: pay_def andThen_def ret_def)
qed

text \<open>The credits the bonus is computed from.\<close>

lemma validator_credits_content:
  assumes "healthy E content s"
  shows "validator_credits E i s =
    (case content (sb_db s) (vc_key i) of None \<Rightarrow> 0
     | Some bs \<Rightarrow> (case deserialize (bc_vc E) bs of Inl _ \<Rightarrow> 0 | Inr c \<Rightarrow> total_vc c))"
proof -
  obtain v where v: "rk_get E (vc_key i) (sb_db s) = Ok v"
    using healthyD(1) [OF assms] unfolding storage_total_def is_ok_iff by blast
  have "v = content (sb_db s) (vc_key i)" by (rule laws_get [OF healthyD(2) [OF assms] v])
  with v show ?thesis
    by (auto simp: validator_credits_def state_total_vc_def get_vc_record_def load_def st_get_def database_get_def
        andThen_def ret_def throw_def split: option.splits sum.splits)
qed

section \<open>State roots of synchronised nodes\<close>

text \<open>
  RocksDB's iterator starts at the first key not below the prefix and continues in key order to
  the end of the database; the wrapper cuts it where the prefix ends.
\<close>

definition iterator_law :: "'d storage_env \<Rightarrow> ('d \<Rightarrow> bytes \<rightharpoonup> bytes) \<Rightarrow> bool" where
  "iterator_law E content =
     (\<forall>p d. \<exists>xs. rk_prefix_iterator E p d = map Ok xs \<and> sorted (map fst xs) \<and> distinct (map fst xs)
         \<and> set xs = {(k, v). content d k = Some v \<and> p \<le> k})"

lemma starts_with_le: "starts_with k p \<Longrightarrow> p \<le> (k :: bytes)"
proof (induction p arbitrary: k)
  case (Cons a p)
  then show ?case by (cases k) (auto simp: starts_with_def)
qed simp

lemma past_prefix:
  "(p :: bytes) \<le> k \<Longrightarrow> \<not> starts_with k p \<Longrightarrow> k \<le> k' \<Longrightarrow> \<not> starts_with k' p"
proof (induction p arbitrary: k k')
  case (Cons a p)
  then show ?case by (cases k; cases k') (auto simp: starts_with_def)
qed (simp add: starts_with_def)

lemma takeWhile_prefix:
  assumes "sorted (map fst xs)" "\<forall>(k, v) \<in> set xs. p \<le> (k :: bytes)"
  shows "takeWhile (\<lambda>(key, _). starts_with key p) xs = filter (\<lambda>(key, _). starts_with key p) xs"
  using assms
proof (induction xs)
  case (Cons x xs)
  obtain k v where x: "x = (k, v)" by (cases x)
  show ?case
  proof (cases "starts_with k p")
    case True
    then show ?thesis using Cons x by simp
  next
    case False
    then have "\<forall>(k', v') \<in> set xs. \<not> starts_with k' p"
      using Cons.prems past_prefix [of p k] by (fastforce simp: x)
    then show ?thesis using False x by (simp add: filter_empty_conv case_prod_unfold)
  qed
qed simp

lemma map_filter_Ok: "List.map_filter (\<lambda>item. case item of Inl _ \<Rightarrow> None | Inr kv \<Rightarrow> Some kv) (map Ok xs) = xs"
  by (induction xs) (simp_all add: map_filter_simps)

lemma prefix_iterator_exact:
  assumes "iterator_law E content"
  shows "distinct (map fst (prefix_iterator E p d))"
    "set (prefix_iterator E p d) = {(k, v). content d k = Some v \<and> starts_with k p}"
proof -
  obtain xs where xs: "rk_prefix_iterator E p d = map Ok xs" "sorted (map fst xs)" "distinct (map fst xs)"
    "set xs = {(k, v). content d k = Some v \<and> p \<le> k}"
    using assms unfolding iterator_law_def by blast
  have it: "prefix_iterator E p d = filter (\<lambda>(key, _). starts_with key p) xs"
    using xs takeWhile_prefix [of xs p] by (simp add: prefix_iterator_def map_filter_Ok case_prod_unfold)
  show "distinct (map fst (prefix_iterator E p d))"
    using xs(3) by (simp add: it distinct_map_filter)
  show "set (prefix_iterator E p d) = {(k, v). content d k = Some v \<and> starts_with k p}"
    using xs(4) starts_with_le by (auto simp: it)
qed

lemma agree_state_root:
  assumes "iterator_law E content"
    and same: "\<And>k. starts_with k PREFIX_ACCOUNT \<Longrightarrow> content (sb_db s) k = content (sb_db t) k"
  shows "compute_state_root E n chain s = compute_state_root E n chain t"
  by (rule state_root_same_entries) (auto simp: prefix_iterator_exact [OF assms(1)] same)

lemma synced_state_root:
  "iterator_law E content \<Longrightarrow> synced E content s t \<Longrightarrow> compute_state_root E n chain s = compute_state_root E n chain t"
  by (rule agree_state_root [of E content]) (simp_all add: synced_def agree_def)

lemma overlay_state_root:
  "iterator_law E content \<Longrightarrow> overlay E content U s t \<Longrightarrow> bookkeeping U \<Longrightarrow> compute_state_root E n chain t = compute_state_root E n chain s"
  by (rule agree_state_root [of E content]) (simp_all add: overlay_def map_add_frame)

section \<open>Storing a block\<close>

definition node_store_ok :: "'d storage_env \<Rightarrow> ('d \<Rightarrow> bytes \<rightharpoonup> bytes) \<Rightarrow> bool" where
  "node_store_ok E content =
     (iterator_law E content \<and> vc_total E \<and> (\<forall>x. is_ok (serialize (bc_state_root E) x)) \<and> (\<forall>x. is_ok (serialize (bc_u64 E) x)))"

definition quiet_map :: "(bytes \<rightharpoonup> bytes) \<Rightarrow> bool" where
  "quiet_map U = (bookkeeping U \<and> (\<forall>i. U (vc_key i) = None))"

definition quiet :: "'d storage_env \<Rightarrow> ('d \<Rightarrow> bytes \<rightharpoonup> bytes) \<Rightarrow> ('d, 'a) state_action \<Rightarrow> bool" where
  "quiet E content m = (\<forall>s. healthy E content s \<longrightarrow> (\<exists>a s' U. m s = (Ok a, s') \<and> overlay E content U s s' \<and> quiet_map U))"

lemma quietE:
  assumes "quiet E content m" "healthy E content s"
  obtains a s' U where "m s = (Ok a, s')" "overlay E content U s s'" "quiet_map U"
  using assms unfolding quiet_def by blast

lemma quiet_map_add: "quiet_map U \<Longrightarrow> quiet_map V \<Longrightarrow> quiet_map (U ++ V)"
  using bookkeeping_add by (auto simp: quiet_map_def)

lemma quiet_andThen:
  assumes "quiet E content m" "\<And>a. quiet E content (f a)"
  shows "quiet E content (andThen m f)"
  unfolding quiet_def
proof (intro allI impI)
  fix s assume "healthy E content s"
  then obtain a s1 U where m: "m s = (Ok a, s1)" "overlay E content U s s1" "quiet_map U" by (rule quietE [OF assms(1)])
  have "healthy E content s1" using m(2) by (simp add: overlay_def)
  then obtain b s2 V where f: "f a s1 = (Ok b, s2)" "overlay E content V s1 s2" "quiet_map V" by (rule quietE [OF assms(2)])
  have "andThen m f s = (Ok b, s2)" using m(1) f(1) by (simp add: andThen_def)
  with overlay_trans [OF m(2) f(2)] quiet_map_add [OF m(3) f(3)]
  show "\<exists>b s' W. andThen m f s = (Ok b, s') \<and> overlay E content W s s' \<and> quiet_map W" by blast
qed

definition plain_key :: "bytes \<Rightarrow> bool" where
  "plain_key k = (\<not> starts_with k PREFIX_ACCOUNT \<and> (\<forall>i. k \<noteq> unbonding_key i) \<and> (\<forall>i. k \<noteq> vc_key i))"

lemma plain_key_other:
  assumes "\<forall>i. k \<noteq> KAccount i \<and> k \<noteq> KUnbonding i \<and> k \<noteq> KVc i"
  shows "plain_key (key_bytes k)"
proof -
  have "fst (key_parts k) \<noteq> PREFIX_ACCOUNT" using assms by (cases k) (simp_all add: key_defs)
  moreover have "fst (key_parts k) = PREFIX_ACCOUNT" if "starts_with (key_bytes k) PREFIX_ACCOUNT"
  proof -
    have "key_bytes k = PREFIX_ACCOUNT @ drop (length PREFIX_ACCOUNT) (key_bytes k)"
      using that by (metis append_take_drop_id starts_with_def)
    then have "fst (key_parts k) @ snd (key_parts k) = PREFIX_ACCOUNT @ drop (length PREFIX_ACCOUNT) (key_bytes k)"
      by (simp add: key_bytes_parts)
    then show ?thesis
      using clash_free_append [OF key_prefixes_clash_free key_prefix_listed [of k]]
      by (metis insert_iff key_prefixes_def list.simps(15))
  qed
  moreover have "key_bytes k \<noteq> unbonding_key i" "key_bytes k \<noteq> vc_key i" for i
    using assms key_bytes_eq [of k "KUnbonding i"] key_bytes_eq [of k "KVc i"] by simp_all
  ultimately show ?thesis unfolding plain_key_def by blast
qed

lemma plain_keys: "plain_key (state_root_key n)" "plain_key (block_by_hash_key h)" "plain_key (block_by_number_key n)"
  "plain_key (block_hash_key n)" "plain_key KEY_BEST_BLOCK" "plain_key KEY_DRIFT_TRACKER"
  using plain_key_other [of "KStateRoot n"] plain_key_other [of "KBlockByHash h"] plain_key_other [of "KBlockByNumber n"]
    plain_key_other [of "KBlockHash n"] plain_key_other [of KBestBlock] plain_key_other [of KDriftTracker] by simp_all

lemma save_quiet:
  assumes "plain_key key" "is_ok (serialize C x)"
  shows "quiet E content (save E C key x)"
  unfolding quiet_def
proof (intro allI impI)
  fix s assume h: "healthy E content s"
  obtain bs where bs: "serialize C x = Ok bs" using assms(2) unfolding is_ok_iff by blast
  have k: "\<not> starts_with key PREFIX_ACCOUNT" "\<And>i. key \<noteq> unbonding_key i" "\<And>i. vc_key i \<noteq> key"
    using assms(1) by (auto simp: plain_key_def)
  obtain s' where s': "save E C key x s = (Ok (), s')" "overlay E content [key \<mapsto> bs] s s'" by (rule save_overlay [OF h bs k(1,2)])
  moreover have "quiet_map [key \<mapsto> bs]" using k by (simp add: quiet_map_def bookkeeping_single)
  ultimately show "\<exists>a s' U. save E C key x s = (Ok a, s') \<and> overlay E content U s s' \<and> quiet_map U" by blast
qed

lemma st_put_save: "st_put E key bs = save E \<lparr>serialize = Ok, deserialize = Ok\<rparr> key bs"
  by (simp add: save_def)

lemma st_put_quiet: "plain_key key \<Longrightarrow> quiet E content (st_put E key bs)"
  unfolding st_put_save by (rule save_quiet) simp_all

lemma store_block_quiet: "is_ok (serialize (bc_block E) b) \<Longrightarrow> quiet E content (store_block E b)"
proof -
  assume "is_ok (serialize (bc_block E) b)"
  then obtain bs where "serialize (bc_block E) b = Ok bs" unfolding is_ok_iff by blast
  then show ?thesis
    unfolding store_block_def Let_def set_block_hash_def by (simp add: quiet_andThen st_put_quiet plain_keys)
qed

lemma store_quiet:
  assumes "node_store_ok E content"
  shows "quiet E content (store_state_root E n rt)" "quiet E content (set_best_block E n)"
  using assms unfolding node_store_ok_def store_state_root_def set_best_block_def by (simp_all add: save_quiet plain_keys)

lemma quiet_synced:
  "synced E content s t \<Longrightarrow> overlay E content U t t' \<Longrightarrow> quiet_map U \<Longrightarrow> synced E content s t'"
  by (rule synced_overlay [of E content s t Map.empty _ U]) (auto simp: quiet_map_def overlay_refl synced_def)

section \<open>The producer's side\<close>

lemma select_loop_frame:
  assumes "healthy E content s" "length selected \<le> m"
    and "select_state_loop E txs m heap seen nonces selected s = (out, s')"
  shows "length out \<le> m \<and> sb_db s' = sb_db s \<and> healthy E content s'"
  using assms
proof (induction heap arbitrary: seen nonces selected s)
  case (Cons entry heap)
  note h = Cons.prems(1)
  show ?case
  proof (cases "m \<le> length selected \<or> pt_hash entry \<in> set seen \<or> hm_get txs (pt_hash entry) = None")
    case True
    then show ?thesis using Cons.prems Cons.IH [OF h] by (auto split: if_splits)
  next
    case False
    then obtain tx where tx: "hm_get txs (pt_hash entry) = Some tx" by auto
    obtain n nonces1 s1 where rd: "(case hm_get nonces (pt_sender entry) of Some n \<Rightarrow> (n, nonces, s)
        | None \<Rightarrow> let (r, s') = get_account E (pt_sender entry) s; n = ai_nonce (account_or_zero r)
                  in (n, hm_insert (pt_sender entry) n nonces, s')) = (n, nonces1, s1)"
      by (rule prod_cases3)
    have s1: "sb_db s1 = sb_db s \<and> healthy E content s1"
    proof (cases "hm_get nonces (pt_sender entry)")
      case None
      then show ?thesis using rd get_account_db [OF h] by (auto simp: Let_def split: prod.splits)
    qed (use rd h in simp)
    then show ?thesis
      using Cons.IH [of s1 selected seen nonces1]
        Cons.IH [of s1 "selected @ [tx]" "pt_hash entry # seen" "hm_insert (pt_sender entry) (pt_nonce entry + 1) nonces1"]
        Cons.prems(2,3) False by (simp add: tx rd split: if_splits)
  qed
qed simp

lemma same_db_synced: "healthy E content s \<Longrightarrow> healthy E content s' \<Longrightarrow> sb_db s' = sb_db s \<Longrightarrow> synced E content s s'"
  by (simp add: synced_def agree_def unbondings_def stored_def)

lemma producer_new_simps [simp]:
  "bp_config (producer_new k d) = default_producer_config" "bp_validator_key (producer_new k d) = k"
  "pc_execute_transactions default_producer_config" "pc_max_transactions_per_block default_producer_config = 1000"
  by (simp_all add: producer_new_def default_producer_config_def)

lemma seal_block_simps [simp]:
  "bb_transactions (bk_body (seal_block K sign h txs)) = txs"
  "bh_number (bk_header (seal_block K sign h txs)) = bh_number h" "bh_parent_hash (bk_header (seal_block K sign h txs)) = bh_parent_hash h"
  "bh_state_root (bk_header (seal_block K sign h txs)) = bh_state_root h" "bh_author (bk_header (seal_block K sign h txs)) = bh_author h"
  "bh_epoch (bk_header (seal_block K sign h txs)) = bh_epoch h"
  by (simp_all add: seal_block_def)

lemma produce_state_ok:
  assumes st: "node_store_ok E content" "ln_ok L" and h: "healthy E content s"
    and run: "produce_state L E n v epoch txs (producer_new key d) s = (Ok (executed, rt), s')"
  obtains results s1 s2 where "run_selected E n txs s = (executed, results, s1)"
    "pay E v (author_reward L epoch (sum_list (map er_fee_paid results)) (validator_credits E v s1))
       (treasury_share (sum_list (map er_fee_paid results))) s1 = (Ok (), s2)"
    "rt = compute_state_root E n 0 s2" "synced E content s2 s'"
proof -
  obtain ex results s1 where sel: "run_selected E n txs s = (ex, results, s1)" by (rule prod_cases3)
  have h1: "healthy E content s1" by (rule run_selected_healthy [OF h sel])
  let ?f = "sum_list (map er_fee_paid results)"
  obtain s2 where pay: "pay E v (author_reward L epoch ?f (validator_credits E v s1)) (treasury_share ?f) s1 = (Ok (), s2)"
    "healthy E content s2" using pay_ok [OF h1] by metis
  obtain a s3 U where root: "store_state_root E n (compute_state_root E n 0 s2) s2 = (Ok a, s3)" "overlay E content U s2 s3" "quiet_map U"
    by (rule quietE [OF store_quiet(1) [OF st(1)] pay(2)])
  have "executed = ex" "rt = compute_state_root E n 0 s2" "s' = s3"
    using run by (simp_all add: produce_state_def sel andThen_def produce_rewards_pay [OF st(2)] pay root ret_def Let_def)
  with that [OF sel [folded \<open>executed = ex\<close>] pay(1)] quiet_synced [OF synced_refl [OF pay(2)] root(2,3)] show ?thesis
    using sel pay(1) by simp
qed

lemma produce_block_ok:
  assumes st: "node_store_ok E content" "ln_ok L" and h: "healthy E content s"
    and run: "produce_block L E drain now parent v epoch sl (producer_new (Some sign) d, P, s) = (Ok b, B, P', s')"
  obtains txs s0 results s1 s2 where "synced E content s s0" "length txs \<le> 1000"
    "run_selected E (bh_number (bk_header b)) txs s0 = (bb_transactions (bk_body b), results, s1)"
    "pay E v (author_reward L epoch (sum_list (map er_fee_paid results)) (validator_credits E v s1))
       (treasury_share (sum_list (map er_fee_paid results))) s1 = (Ok (), s2)"
    "bh_state_root (bk_header b) = sr_root (compute_state_root E (bh_number (bk_header b)) 0 s2)" "synced E content s2 s'"
    "bh_number (bk_header b) = bh_number (bk_header parent) + 1" "bh_parent_hash (bk_header b) = block_hash (se_crypto E) parent"
    "bh_author (bk_header b) = v" "bh_epoch (bk_header b) = epoch"
proof -
  let ?n = "bh_number (bk_header parent) + 1"
  obtain txs s0 where sel: "select_transactions_with_state E drain 1000 P s = (txs, s0)"
    by (cases "select_transactions_with_state E drain 1000 P s")
  have s0: "length txs \<le> 1000" "sb_db s0 = sb_db s" "healthy E content s0"
    using select_loop_frame [OF h, of "[]"] sel by (auto simp: select_transactions_with_state_def)
  have signed: "has_signed_slot E epoch sl (producer_new (Some sign) d) = Ok False"
    using run by (auto simp: produce_block_def Let_def split: sum.splits bool.splits)
  obtain r s3 where ps: "produce_state L E ?n v epoch txs (producer_new (Some sign) d) s0 = (r, s3)"
    by (cases "produce_state L E ?n v epoch txs (producer_new (Some sign) d) s0")
  obtain executed rt where r: "r = Ok (executed, rt)"
    using run by (auto simp: produce_block_def Let_def signed sel ps split: sum.splits)
  obtain results s1 s2 where p: "run_selected E ?n txs s0 = (executed, results, s1)"
    "pay E v (author_reward L epoch (sum_list (map er_fee_paid results)) (validator_credits E v s1))
       (treasury_share (sum_list (map er_fee_paid results))) s1 = (Ok (), s2)"
    "rt = compute_state_root E ?n 0 s2" "synced E content s2 s3"
    by (rule produce_state_ok [OF st s0(3) ps [unfolded r]])
  obtain q s4 where dt: "get_drift_tracker E s3 = (q, s4)" by (cases "get_drift_tracker E s3")
  have "s4 = s3" using load_state [OF healthyD(2) [OF synced_healthy(2) [OF p(4)]]] dt by (simp add: get_drift_tracker_def)
  then have b: "s' = s3" "bb_transactions (bk_body b) = executed" "bh_state_root (bk_header b) = sr_root rt"
    "bh_number (bk_header b) = ?n" "bh_parent_hash (bk_header b) = block_hash (se_crypto E) parent"
    "bh_author (bk_header b) = v" "bh_epoch (bk_header b) = epoch"
    using run by (auto simp: produce_block_def Let_def signed sel ps r dt split: sum.splits prod.splits)
  from that [OF same_db_synced [OF h s0(3,2)] s0(1), of results s1 s2] p b show ?thesis by simp
qed

section \<open>The importer's side\<close>

lemma store_all_quiet:
  assumes "node_store_ok E content" "is_ok (serialize (bc_block E) b)"
  shows "quiet E content (andThen (store_state_root E n rt) (\<lambda>_. andThen (store_block E b) (\<lambda>_. set_best_block E n)))"
    "quiet E content (andThen (store_block E b) (\<lambda>_. set_best_block E n))"
  by (intro quiet_andThen store_quiet [OF assms(1)] store_block_quiet [OF assms(2)])+

lemma import_state_accepts:
  assumes st: "node_store_ok E content" "ln_ok L" and enc: "is_ok (serialize (bc_block E) b)" and syn: "synced E content s t"
    and run: "run_selected E n txs s = (bb_transactions (bk_body b), results, s1)" and len: "length txs \<le> 1000"
    and pay: "pay E v (author_reward L epoch (sum_list (map er_fee_paid results)) (validator_credits E v s1))
       (treasury_share (sum_list (map er_fee_paid results))) s1 = (Ok (), s2)"
    and b: "bh_number (bk_header b) = n" "bh_author (bk_header b) = v" "bh_epoch (bk_header b) = epoch"
    "bh_state_root (bk_header b) = sr_root (compute_state_root E n 0 s2)"
    and votes: "\<forall>tx \<in> set (bb_transactions (bk_body b)). v \<notin> named tx"
  obtains ch V' U t' where "import_state L E b (V, t) = (Ok ch, V', t')" "dom U \<subseteq> range vc_key"
    "\<And>x. healthy E content x \<Longrightarrow> \<exists>x'. process_early_votes E n (bb_transactions (bk_body b)) (V, x) = (ch, V', x') \<and> overlay E content U x x'"
    "\<And>x x'. synced E content s2 x \<Longrightarrow> overlay E content U x x' \<Longrightarrow> synced E content x' t'"
proof -
  let ?txs = "bb_transactions (bk_body b)" and ?f = "sum_list (map er_fee_paid results)"
  obtain t1 where t1: "run_import E n 0 0 ?txs t = (Ok ?f, t1)" "synced E content s1 t1"
    using run_import_selected [OF syn run, of 0 0] run_selected_total [OF run len] by auto
  obtain ch V' U where U: "dom U \<subseteq> vc_key ` \<Union> (named ` set ?txs)"
    and ev: "\<And>x. healthy E content x \<Longrightarrow> \<exists>x'. process_early_votes E n ?txs (V, x) = (ch, V', x') \<and> overlay E content U x x'"
    by (rule credit_writesE [OF early_votes_writes]) (use st(1) in \<open>auto simp: node_store_ok_def\<close>)
  note book = vc_book [OF U]
  obtain t2 where t2: "process_early_votes E n ?txs (V, t1) = (ch, V', t2)" "overlay E content U t1 t2"
    using ev [OF synced_healthy(2) [OF t1(2)]] by blast
  have "vc_key v \<notin> dom U" using U votes inj_keys(1) by (auto dest: injD)
  then have same_vc: "validator_credits E v t2 = validator_credits E v s1"
    using t2(2) t1(2) unfolding overlay_def synced_def agree_def
    by (simp add: validator_credits_content [of E content] domIff map_add_frame)
  let ?pay = "pay E v (author_reward L epoch ?f (validator_credits E v s1)) (treasury_share ?f)"
  obtain t3 where t3: "?pay t1 = (Ok (), t3)" "synced E content s2 t3"
    using pay by (auto intro: simE [OF synced_pay t1(2), of v "author_reward L epoch ?f (validator_credits E v s1)" "treasury_share ?f"])
  obtain t4 where t4: "?pay t2 = (Ok (), t4)" "overlay E content U t3 t4"
    using t3(1) by (auto intro: simE [OF overlay_pay [OF book] t2(2), of v "author_reward L epoch ?f (validator_credits E v s1)" "treasury_share ?f"])
  have root: "compute_state_root E n 0 t4 = compute_state_root E n 0 s2"
    using overlay_state_root [OF _ t4(2) book] synced_state_root [OF _ t3(2)] st(1) by (simp add: node_store_ok_def)
  have h4: "healthy E content t4" using t4(2) by (simp add: overlay_def)
  obtain a t5 W where t5: "andThen (store_state_root E n (compute_state_root E n 0 t4)) (\<lambda>_. andThen (store_block E b) (\<lambda>_. set_best_block E n)) t4 = (Ok a, t5)"
    "overlay E content W t4 t5" "quiet_map W"
    by (rule quietE [OF store_all_quiet(1) [OF st(1) enc] h4])
  have imp: "import_state L E b (V, t) = (Ok ch, V', t5)"
    using t1(1) t2(1) t4(1) t5(1)
    by (simp add: import_state_def Let_def b import_rewards_pay [OF st(2)] same_vc andThen_def ret_def root)
  have fin: "synced E content x' t5" if "synced E content s2 x" "overlay E content U x x'" for x x'
  proof -
    have "synced E content x t3" using that(1) t3(2) by (blast intro: synced_sym synced_trans)
    moreover have "overlay E content (U ++ W) t3 t5" by (rule overlay_trans [OF t4(2) t5(2)])
    ultimately show ?thesis
      using that(2) book t5(3) by (intro synced_overlay [of E content x t3 U x' "U ++ W" t5]) (auto simp: quiet_map_def bookkeeping_add map_add_frame)
  qed
  have "dom U \<subseteq> range vc_key" using U by blast
  from that [OF imp this] ev fin show ?thesis by blast
qed

section \<open>Two nodes\<close>

definition nodes_synced :: "'d storage_env \<Rightarrow> ('d \<Rightarrow> bytes \<rightharpoonup> bytes) \<Rightarrow> 'd node \<Rightarrow> 'd node \<Rightarrow> bool" where
  "nodes_synced E content A B =
     (synced E content (nd_storage A) (nd_storage B) \<and> nd_validators A = nd_validators B
      \<and> nd_current_block A = nd_current_block B \<and> nd_chain_height A = nd_chain_height B)"

lemma finality_frame [simp]:
  "nd_storage (update_finality_validators W N) = nd_storage N" "nd_validators (update_finality_validators W N) = nd_validators N"
  "nd_storage (notify_finality_block_imported W now n h N) = nd_storage N"
  "nd_validators (notify_finality_block_imported W now n h N) = nd_validators N"
  "nd_current_block (notify_finality_block_imported W now n h N) = nd_current_block N"
  "nd_chain_height (notify_finality_block_imported W now n h N) = nd_chain_height N"
  "nd_storage (broadcast_finality_messages W N) = nd_storage N" "nd_validators (broadcast_finality_messages W N) = nd_validators N"
  "nd_current_block (broadcast_finality_messages W N) = nd_current_block N"
  "nd_chain_height (broadcast_finality_messages W N) = nd_chain_height N"
  by (auto simp: update_finality_validators_def notify_finality_block_imported_def broadcast_finality_messages_def
      split: option.splits prod.splits)

lemma store_early_votes_process:
  "process_early_votes (ne_store W) n txs (nd_validators N, nd_storage N) = (ch, V, s) \<Longrightarrow>
     nd_validators (store_early_votes W n txs N) = V \<and> nd_storage (store_early_votes W n txs N) = s"
proof (induction txs arbitrary: N ch V s)
  case (Cons tx txs)
  obtain c1 V1 s1 where one: "process_early_vote (ne_store W) n tx (nd_validators N, nd_storage N) = (c1, V1, s1)" by (rule prod_cases3)
  obtain c2 where two: "process_early_votes (ne_store W) n txs (V1, s1) = (c2, V, s)"
    using Cons.prems by (auto simp: one split: prod.splits)
  show ?case
    using two Cons.IH [of "N\<lparr>nd_validators := V1, nd_storage := s1\<rparr>"]
      Cons.IH [of "update_finality_validators W (N\<lparr>nd_validators := V1, nd_storage := s1\<rparr>)"] by (simp add: one Let_def)
qed simp

lemma check_drift_quiet:
  assumes h: "healthy E content s" and run: "check_drift E height b s = (Ok u, s')"
  shows "synced E content s s'"
proof -
  have save: "synced E content s s''" if d: "set_drift_tracker E t s = (Ok a, s'')" for t a s''
  proof -
    obtain bs where bs: "serialize (bc_drift E) t = Ok bs"
      using d by (auto simp: set_drift_tracker_def save_def split: sum.splits)
    then have q: "quiet E content (save E (bc_drift E) KEY_DRIFT_TRACKER t)" by (intro save_quiet plain_keys) simp
    obtain a' t' U where "save E (bc_drift E) KEY_DRIFT_TRACKER t s = (Ok a', t')" "overlay E content U s t'" "quiet_map U"
      by (rule quietE [OF q h])
    then show ?thesis using d quiet_synced [OF synced_refl [OF h]] by (simp add: set_drift_tracker_def)
  qed
  have get: "s1 = s" if "get_drift_tracker E s = (r, s1)" for r s1
    using load_state [OF healthyD(2) [OF h]] that by (simp add: get_drift_tracker_def)
  have "\<exists>t. set_drift_tracker E t s = (Ok (), s')"
    using run
    by (auto simp: check_drift_def update_drift_tracker_for_sync_def validate_block_drift_def Let_def throw_def
        elim!: andThen_okE dest!: get split: if_splits option.splits prod.splits sum.splits) blast+
  then show ?thesis using save by blast
qed

lemma try_produce_ok:
  assumes "try_produce_block W now (v, sign) epoch sl A = (Ok (Some b), A')" "nd_current_block A = Some parent"
  obtains Bp P s where "is_active (nd_validators A) v"
    "produce_block (ne_libm W) (ne_store W) (ne_drain W) (snd now) parent v epoch sl
       (producer_new (Some sign) (nd_producer_db A), nd_mempool A, nd_storage A) = (Ok b, Bp, P, s)"
    "store_produced_block W now b (A\<lparr>nd_producer_db := bp_db Bp, nd_mempool := P, nd_storage := s\<rparr>) = (Ok (), A')"
proof -
  obtain r Bp P s where p: "produce_block (ne_libm W) (ne_store W) (ne_drain W) (snd now) parent v epoch sl
       (producer_new (Some sign) (nd_producer_db A), nd_mempool A, nd_storage A) = (r, Bp, P, s)" by (rule prod_cases4)
  let ?N = "A\<lparr>nd_producer_db := bp_db Bp, nd_mempool := P, nd_storage := s\<rparr>"
  have act: "is_active (nd_validators A) v"
    using assms by (auto simp: try_produce_block_def Let_def split: if_splits)
  obtain b' where r: "r = Ok b'"
    using assms by (auto simp: try_produce_block_def Let_def p split: if_splits sum.splits production_error.splits)
  obtain q N2 where st: "store_produced_block W now b' ?N = (q, N2)" by (cases "store_produced_block W now b' ?N")
  have "q = Ok () \<and> b' = b \<and> N2 = A'"
    using assms by (auto simp: try_produce_block_def Let_def p r st split: if_splits sum.splits)
  with that [OF act] p r st show ?thesis by simp
qed

lemma store_produced_ok:
  assumes st: "node_store_ok (ne_store W) content" and enc: "is_ok (serialize (bc_block (ne_store W)) b)" and h: "healthy (ne_store W) content (nd_storage N)"
    and run: "store_produced_block W now b N = (Ok (), A')"
    and votes: "\<And>x. healthy (ne_store W) content x \<Longrightarrow>
      \<exists>x'. process_early_votes (ne_store W) (bh_number (bk_header b)) (bb_transactions (bk_body b)) (nd_validators N, x) = (ch, V', x')
         \<and> overlay (ne_store W) content U x x'"
  obtains s1 where "synced (ne_store W) content (nd_storage N) s1" "overlay (ne_store W) content U s1 (nd_storage A')"
    "nd_validators A' = V'" "nd_current_block A' = Some b" "nd_chain_height A' = bh_number (bk_header b)"
proof -
  let ?E = "ne_store W" and ?n = "bh_number (bk_header b)" and ?txs = "bb_transactions (bk_body b)"
  obtain a s1 D where s1: "andThen (store_block ?E b) (\<lambda>_. set_best_block ?E ?n) (nd_storage N) = (Ok a, s1)"
    "overlay ?E content D (nd_storage N) s1" "quiet_map D"
    by (rule quietE [OF store_all_quiet(2) [OF st enc] h])
  have "healthy ?E content s1" using s1(2) by (simp add: overlay_def)
  then obtain s2 where s2: "process_early_votes ?E ?n ?txs (nd_validators N, s1) = (ch, V', s2)" "overlay ?E content U s1 s2"
    using votes by blast
  let ?N1 = "N\<lparr>nd_storage := s1, nd_mempool := remove_included ?txs (nd_mempool N)\<rparr>"
  have v: "nd_validators (store_early_votes W ?n ?txs ?N1) = V'" "nd_storage (store_early_votes W ?n ?txs ?N1) = s2"
    using store_early_votes_process [of W ?n ?txs ?N1] s2(1) by simp_all
  have "nd_storage A' = s2" "nd_validators A' = V'" "nd_current_block A' = Some b" "nd_chain_height A' = ?n"
    using run s1(1) v by (auto simp: store_produced_block_def Let_def)
  with that [OF quiet_synced [OF synced_refl [OF h] s1(2,3)]] s2(2) show ?thesis by simp
qed

text \<open>
  C4: a block that one node produces is accepted by any node synchronised with it: when the block
  passes the structural validation and the drift check of the importing node, its transactions
  execute again with the same results, the rewards and the votes on early validators give the
  same state root, the import succeeds, and the two nodes are synchronised after it: same
  accounts, credits, pending withdrawals, validators, chain head and height. The two nodes may
  differ in everything else, in particular in their mempools and in the clock they read. The
  databases must not fail, and no vote of the block may name the author.
\<close>

theorem import_accepts_produced:
  assumes env: "ne_store W = E" "ne_store W' = E" "ne_libm W' = ne_libm W" "node_store_ok E content" "ln_ok (ne_libm W)"
    and syn: "nodes_synced E content A B" and parent: "nd_current_block A = Some parent" "nd_chain_height A = bh_number (bk_header parent)"
    and prod: "try_produce_block W now (v, sign) epoch sl A = (Ok (Some b), A')"
    and enc: "is_ok (serialize (bc_block E) b)"
    and fresh: "fst (get_block_by_number E (bh_number (bk_header b)) (nd_storage B)) = Ok None"
    and valid: "validate_block (se_crypto E) (snd now') b parent (nd_validators B) = Ok ()"
    and drift: "fst (check_drift E (nd_chain_height B) b (nd_storage B)) = Ok ()"
    and votes: "\<forall>tx \<in> set (bb_transactions (bk_body b)). v \<notin> named tx"
  shows "\<exists>B'. import_block W' now' b B = (Ok (), B') \<and> nodes_synced E content A' B'"
proof -
  have B: "synced E content (nd_storage A) (nd_storage B)" "nd_validators B = nd_validators A"
    "nd_current_block B = Some parent" "nd_chain_height B = bh_number (bk_header parent)"
    using syn parent by (simp_all add: nodes_synced_def)
  note store = env(4)
  obtain Bp P s where act: "is_active (nd_validators A) v"
    and pb: "produce_block (ne_libm W) E (ne_drain W) (snd now) parent v epoch sl
       (producer_new (Some sign) (nd_producer_db A), nd_mempool A, nd_storage A) = (Ok b, Bp, P, s)"
    and sp: "store_produced_block W now b (A\<lparr>nd_producer_db := bp_db Bp, nd_mempool := P, nd_storage := s\<rparr>) = (Ok (), A')"
    using try_produce_ok [OF prod parent(1)] env(1) by metis
  obtain txs s0 results s1 s2 where s0: "synced E content (nd_storage A) s0" "length txs \<le> 1000"
    and sel: "run_selected E (bh_number (bk_header b)) txs s0 = (bb_transactions (bk_body b), results, s1)"
    and pay: "pay E v (author_reward (ne_libm W) epoch (sum_list (map er_fee_paid results)) (validator_credits E v s1))
       (treasury_share (sum_list (map er_fee_paid results))) s1 = (Ok (), s2)"
    and hd: "bh_state_root (bk_header b) = sr_root (compute_state_root E (bh_number (bk_header b)) 0 s2)" "synced E content s2 s"
    "bh_number (bk_header b) = bh_number (bk_header parent) + 1" "bh_parent_hash (bk_header b) = block_hash (se_crypto E) parent"
    "bh_author (bk_header b) = v" "bh_epoch (bk_header b) = epoch"
    by (rule produce_block_ok [OF store env(5) synced_healthy(1) [OF B(1)] pb])
  obtain t0 where t0: "check_drift E (nd_chain_height B) b (nd_storage B) = (Ok (), t0)"
    using drift by (cases "check_drift E (nd_chain_height B) b (nd_storage B)") simp
  have "synced E content s0 t0"
    using check_drift_quiet [OF synced_healthy(2) [OF B(1)] t0] B(1) s0(1) by (blast intro: synced_sym synced_trans)
  then obtain ch V' U t' where imp: "import_state (ne_libm W) E b (nd_validators A, t0) = (Ok ch, V', t')"
    and ev: "\<And>x. healthy E content x \<Longrightarrow> \<exists>x'. process_early_votes E (bh_number (bk_header b)) (bb_transactions (bk_body b))
       (nd_validators A, x) = (ch, V', x') \<and> overlay E content U x x'"
    and fin: "\<And>x x'. synced E content s2 x \<Longrightarrow> overlay E content U x x' \<Longrightarrow> synced E content x' t'"
    by (rule import_state_accepts [OF store env(5) enc _ sel s0(2) pay refl hd(5,6,1) votes]) blast
  obtain sA where sA: "synced E content s sA" "overlay E content U sA (nd_storage A')" and A': "nd_validators A' = V'"
    "nd_current_block A' = Some b" "nd_chain_height A' = bh_number (bk_header b)"
    by (rule store_produced_ok [OF _ _ _ sp, of content ch V' U])
      (use env(1) store enc ev synced_healthy(2) [OF hd(2)] in simp_all)
  have final: "synced E content (nd_storage A') t'"
    by (rule fin [OF synced_trans [OF hd(2) sA(1)] sA(2)])
  have trust: "trust_early_author (bh_number (bk_header b)) v (nd_validators A) = (False, nd_validators A)"
    using act by (simp add: trust_early_author_def)
  show ?thesis
    using final A' imp t0 valid fresh trust B(2-4)
    by (simp add: import_block_def Let_def env hd(3-6) nodes_synced_def)
qed

end
