(* ===== verification/Kratos_Exchange.thy ===== *)
theory Kratos_Exchange
  imports Kratos_Agreement
begin

text \<open>
  An exchange between two example nodes: a database in memory that keeps the storage and
  iterator laws, with fixed-width codecs, and a node that produces block 1 which another imports.
\<close>

section \<open>Codecs\<close>

definition header_bytes :: "block_header \<Rightarrow> bytes" where
  "header_bytes h = le_bytes 8 (bh_number h) @ le_bytes 32 (bh_parent_hash h) @ le_bytes 32 (bh_transactions_root h)
     @ le_bytes 32 (bh_state_root h) @ le_bytes 8 (bh_timestamp h) @ le_bytes 8 (bh_epoch h) @ le_bytes 8 (bh_slot h)
     @ le_bytes 32 (bh_author h) @ le_bytes 64 (bh_signature h)"

definition read_header :: "bytes \<Rightarrow> block_header" where
  "read_header bs =
     \<lparr>bh_number = word_of_le (take 8 bs), bh_parent_hash = word_of_le (take 32 (drop 8 bs)),
      bh_transactions_root = word_of_le (take 32 (drop 40 bs)), bh_state_root = word_of_le (take 32 (drop 72 bs)),
      bh_timestamp = word_of_le (take 8 (drop 104 bs)), bh_epoch = word_of_le (take 8 (drop 112 bs)),
      bh_slot = word_of_le (take 8 (drop 120 bs)), bh_author = word_of_le (take 32 (drop 128 bs)),
      bh_signature = word_of_le (take 64 (drop 160 bs))\<rparr>"

lemma read_header_bytes: "read_header (header_bytes h) = h"
  by (simp add: read_header_def header_bytes_def word_of_le_bytes)

definition empty_block_codec :: "block codec" where
  "empty_block_codec =
     \<lparr>serialize = \<lambda>b. if bb_transactions (bk_body b) = [] then Ok (header_bytes (bk_header b)) else Err ''unsupported'',
      deserialize = \<lambda>bs. Ok \<lparr>bk_header = read_header bs, bk_body = \<lparr>bb_transactions = []\<rparr>\<rparr>\<rparr>"

definition u64_codec :: "u64 codec" where
  "u64_codec = \<lparr>serialize = \<lambda>n. Ok (le_bytes 8 n), deserialize = \<lambda>bs. Ok (word_of_le bs)\<rparr>"

definition root_codec :: "state_root codec" where
  "root_codec =
     \<lparr>serialize = \<lambda>r. Ok (le_bytes 32 (sr_root r) @ le_bytes 8 (sr_block_number r) @ le_bytes 8 (sr_chain_id r)),
      deserialize = \<lambda>bs. Ok \<lparr>sr_root = word_of_le (take 32 bs), sr_block_number = word_of_le (take 8 (drop 32 bs)),
                              sr_chain_id = word_of_le (drop 40 bs)\<rparr>\<rparr>"

definition first_record :: "block_number \<Rightarrow> epoch_number \<Rightarrow> vc_record" where
  "first_record n ep = (vc_new n ep)\<lparr>vc_uptime_credits := 100\<rparr>"

definition first_vc_codec :: "vc_record codec" where
  "first_vc_codec =
     \<lparr>serialize = \<lambda>r. let n = vc_activation_block r; ep = vc_last_seniority_credit_epoch r
                      in if r = first_record n ep then Ok (le_bytes 8 n @ le_bytes 8 ep) else Err ''unsupported'',
      deserialize = \<lambda>bs. Ok (first_record (word_of_le (take 8 bs)) (word_of_le (drop 8 bs)))\<rparr>"

definition drift_codec :: "drift_tracker codec" where
  "drift_codec =
     \<lparr>serialize = \<lambda>t. if dt_epoch_drift t = 0 \<and> \<not> dt_restart_grace_active t
        then Ok (le_bytes 8 (dt_current_epoch t) @ le_bytes 8 (dt_genesis_timestamp t) @ le_bytes 8 (dt_last_block t)
                 @ le_bytes 8 (dt_last_timestamp t) @ le_bytes 8 (dt_last_slot t)) else Err ''unsupported'',
      deserialize = \<lambda>bs. Ok \<lparr>dt_epoch_drift = 0, dt_current_epoch = word_of_le (take 8 bs),
        dt_genesis_timestamp = word_of_le (take 8 (drop 8 bs)), dt_last_block = word_of_le (take 8 (drop 16 bs)),
        dt_last_timestamp = word_of_le (take 8 (drop 24 bs)), dt_last_slot = word_of_le (take 8 (drop 32 bs)),
        dt_restart_grace_active = False\<rparr>\<rparr>"

lemma small_codecs_ok: "codec_ok u64_codec" "codec_ok root_codec" "codec_ok first_vc_codec" "codec_ok drift_codec" "block_codec_ok empty_block_codec"
  by (auto simp: codec_ok_def block_codec_ok_def unhashed_def u64_codec_def root_codec_def first_vc_codec_def drift_codec_def empty_block_codec_def
      Let_def word_of_le_bytes read_header_bytes split: if_splits)

section \<open>The database\<close>

type_synonym mem_db = "(bytes \<times> bytes) list"

fun mem_op :: "write_op \<Rightarrow> mem_db \<Rightarrow> mem_db" where
  "mem_op (Put k v) d = (k, v) # d"
| "mem_op (Delete k) d = filter (\<lambda>(k', _). k' \<noteq> k) d"

definition mem_index :: "mem_db \<Rightarrow> (bytes, bytes) bmap" where
  "mem_index d = foldl (\<lambda>m (key, v). bm_insert key v m) [] (rev d)"

definition list_env :: "mem_db storage_env" where
  "list_env =
     \<lparr>rk_get = \<lambda>k d. Ok (map_of d k), rk_put = \<lambda>k v d. (Ok (), (k, v) # d), rk_delete = \<lambda>k d. (Ok (), mem_op (Delete k) d),
      rk_write = \<lambda>ops d. (Ok (), fold mem_op ops d), rk_prefix_iterator = \<lambda>p d. map Ok (filter (\<lambda>(k, _). p \<le> k) (mem_index d)),
      bc_account = account_codec, bc_u64 = u64_codec, bc_block = empty_block_codec, bc_drift = drift_codec,
      bc_state_root = root_codec, bc_vc = first_vc_codec, bc_unbonding = unbonding_codec, bc_clock = no_codec,
      se_crypto = demo_crypto, se_merkle = \<lparr>tree_root = \<lambda>hs. Some (sum_list hs), tree_proof = \<lambda>_ _. []\<rparr>\<rparr>"

lemma map_of_mem_op: "map_of (mem_op op d) = apply_op op (map_of d)"
proof (cases op)
  case (Delete k)
  have "map_of (filter (\<lambda>(k', _). k' \<noteq> k) d) = (map_of d)(k := None)"
    by (induction d) (auto simp: fun_eq_iff)
  then show ?thesis by (simp add: Delete)
qed simp

lemma map_of_mem_ops: "map_of (fold mem_op ops d) = fold apply_op ops (map_of d)"
  by (induction ops arbitrary: d) (simp_all add: map_of_mem_op)

lemma list_env_laws: "storage_laws list_env map_of"
  by (auto simp: storage_laws_def list_env_def writes_def account_codec_ok unbonding_codec_ok no_codec_ok small_codecs_ok
      map_of_mem_ops map_of_mem_op simp del: mem_op.simps)

lemma list_env_total: "storage_total list_env"
  by (simp add: storage_total_def list_env_def account_codec_def unbonding_codec_def)

lemma list_env_healthy: "healthy list_env map_of (backend_new d)"
  by (simp add: healthy_def list_env_total list_env_laws state_ok_def backend_new_def readable_def)
    (simp add: list_env_def account_codec_def unbonding_codec_def)

lemma mem_index_props: "bm_inv (mem_index d)" "map_of (mem_index d) = map_of d"
  using foldl_bm_insert [of "[]" "rev d"] by (simp_all add: mem_index_def)

lemma list_env_iterator: "iterator_law list_env map_of"
  unfolding iterator_law_def
proof (intro allI)
  fix p and d :: mem_db
  let ?xs = "filter (\<lambda>(k, _). p \<le> k) (mem_index d)"
  have inv: "sorted (map fst (mem_index d))" "distinct (map fst (mem_index d))"
    using mem_index_props(1) [of d] by (auto simp: bm_inv_def strict_sorted_iff bm_inv_distinct)
  have "map fst ?xs = filter (\<lambda>k. p \<le> k) (map fst (mem_index d))"
    by (simp add: filter_map comp_def case_prod_unfold)
  then have "sorted (map fst ?xs)" "distinct (map fst ?xs)" using inv by (simp_all add: sorted_filter [of id, simplified])
  moreover have "set ?xs = {(k, v). map_of d k = Some v \<and> p \<le> k}"
    using mem_index_props(2) [of d] inv(2) by (auto simp flip: map_of_eq_Some_iff)
  ultimately show "\<exists>xs. rk_prefix_iterator list_env p d = map Ok xs \<and> sorted (map fst xs) \<and> distinct (map fst xs)
      \<and> set xs = {(k, v). map_of d k = Some v \<and> p \<le> k}"
    by (intro exI [of _ ?xs]) (simp add: list_env_def)
qed

lemma list_env_store: "node_store_ok list_env map_of"
  by (simp add: node_store_ok_def list_env_iterator vc_total_def)
    (simp add: list_env_def first_vc_codec_def root_codec_def u64_codec_def first_record_def vc_new_def Let_def)

section \<open>A block without transactions\<close>

lemma credit_frame:
  assumes h: "healthy E content s" and k: "\<not> starts_with k PREFIX_ACCOUNT"
  obtains s' where "credit E i amount s = (Ok (), s')" "healthy E content s'" "content (sb_db s') k = content (sb_db s) k"
proof -
  obtain s1 where s1: "get_account E i s = (Ok (accounts E content s i), s1)" using get_account_step [OF h] by metis
  have db: "sb_db s1 = sb_db s" "healthy E content s1" using get_account_db [OF h s1] by simp_all
  let ?a = "case accounts E content s i of Some a \<Rightarrow> a | None \<Rightarrow> account_new"
  let ?info = "?a\<lparr>ai_free := sat_add (ai_free ?a) amount\<rparr>"
  obtain bs where bs: "serialize (bc_account E) ?info = Ok bs" using healthy_serialize(1) [OF h] by blast
  obtain s2 where s2: "set_account E i ?info s1 = (Ok (), s2)" "healthy E content s2"
    "content (sb_db s2) = (content (sb_db s1))(account_key i \<mapsto> bs)" by (rule set_account_exact [OF db(2) bs])
  have "k \<noteq> account_key i" using k account_key_prefix by blast
  then have "content (sb_db s2) k = content (sb_db s) k" using s2(3) db(1) by simp
  moreover have "credit E i amount s = (Ok (), s2)" using s1 s2(1) by (simp add: credit_def andThen_def Let_def)
  ultimately show ?thesis using that s2(2) by blast
qed

lemma pay_frame:
  assumes h: "healthy E content s" and k: "\<not> starts_with k PREFIX_ACCOUNT"
  obtains s' where "pay E v r t s = (Ok (), s')" "healthy E content s'" "content (sb_db s') k = content (sb_db s) k"
proof -
  obtain s1 where s1: "credit E v r s = (Ok (), s1)" "healthy E content s1" "content (sb_db s1) k = content (sb_db s) k"
    by (rule credit_frame [OF h k])
  show ?thesis
  proof (cases "0 < t")
    case True
    obtain s2 where "credit E TREASURY_ACCOUNT t s1 = (Ok (), s2)" "healthy E content s2" "content (sb_db s2) k = content (sb_db s1) k"
      by (rule credit_frame [OF s1(2) k])
    with that [of s2] True s1 show ?thesis by (simp add: pay_def andThen_def)
  qed (use that [of s1] s1 in \<open>simp add: pay_def andThen_def ret_def\<close>)
qed

lemma produce_state_empty:
  assumes "healthy E content s" "node_store_ok E content" "ln_ok L"
  obtains rt s' where "produce_state L E n v epoch [] (producer_new key d) s = (Ok ([], rt), s')" "healthy E content s'"
    "content (sb_db s') KEY_DRIFT_TRACKER = content (sb_db s) KEY_DRIFT_TRACKER"
proof -
  have k: "\<not> starts_with KEY_DRIFT_TRACKER PREFIX_ACCOUNT" using plain_keys(6) by (simp add: plain_key_def)
  let ?r = "author_reward L epoch 0 (validator_credits E v s)"
  obtain s1 where s1: "pay E v ?r (treasury_share 0) s = (Ok (), s1)" "healthy E content s1"
    "content (sb_db s1) KEY_DRIFT_TRACKER = content (sb_db s) KEY_DRIFT_TRACKER" by (rule pay_frame [OF assms(1) k])
  let ?rt = "compute_state_root E n 0 s1"
  obtain bs where bs: "serialize (bc_state_root E) ?rt = Ok bs" using assms(2) unfolding node_store_ok_def is_ok_iff by blast
  have key: "\<not> starts_with (state_root_key n) PREFIX_ACCOUNT" "\<And>i. state_root_key n \<noteq> unbonding_key i"
    "KEY_DRIFT_TRACKER \<noteq> state_root_key n"
    using plain_keys(1) [of n] key_bytes_eq [of KDriftTracker "KStateRoot n"] by (simp_all add: plain_key_def)
  obtain s2 where s2: "save E (bc_state_root E) (state_root_key n) ?rt s1 = (Ok (), s2)" "overlay E content [state_root_key n \<mapsto> bs] s1 s2"
    by (rule save_overlay [OF s1(2) bs key(1,2)])
  have "produce_state L E n v epoch [] (producer_new key d) s = (Ok ([], ?rt), s2)"
    using s1(1) s2(1) by (simp add: produce_state_def produce_rewards_pay [OF assms(3)] andThen_def ret_def store_state_root_def Let_def)
  with that [of ?rt s2] s2(2) s1(3) key(3) show ?thesis by (simp add: overlay_def)
qed

section \<open>The nodes\<close>

definition solo_set :: validator_set where
  "solo_set = snd (ensure_bootstrap_validator 1 0 validator_set_new)"

definition demo_world :: "mem_db node_env" where
  "demo_world =
     \<lparr>ne_libm = \<lparr>lm_ln = id, lm_exp = id, lm_sqrt = id\<rparr>, ne_store = list_env, ne_finality = demo_finality 1,
      ne_drain = id, ne_iter = id, ne_publish = \<lambda>_. True\<rparr>"

definition demo_node :: "mem_db node" where
  "demo_node =
     \<lparr>nd_storage = backend_new [(KEY_DRIFT_TRACKER, le_bytes 8 (0 :: u64) @ le_bytes 8 (0 :: u64) @ le_bytes 8 (0 :: u64)
                                   @ le_bytes 8 (0 :: u64) @ le_bytes 8 (0 :: u64))],
      nd_mempool = pool_new 100, nd_validators = solo_set, nd_current_block = Some (block_genesis 0 []), nd_chain_height = 0,
      nd_producer_db = [], nd_finality = None, nd_clock_health = clock_health_new 0, nd_local_state = (0, 0), nd_sent = []\<rparr>"

lemma demo_tracker:
  assumes "healthy list_env map_of s" "map_of (sb_db s) KEY_DRIFT_TRACKER = map_of (sb_db (nd_storage demo_node)) KEY_DRIFT_TRACKER"
  shows "get_drift_tracker list_env s = (Ok (Some (drift_tracker_new 0)), s)"
proof -
  have "load list_env (bc_drift list_env) KEY_DRIFT_TRACKER s = (Ok (stored map_of (bc_drift list_env) s KEY_DRIFT_TRACKER), s)"
    by (rule load_total [OF list_env_total list_env_laws]) (simp add: list_env_def drift_codec_def)
  then show ?thesis
    using assms(2)
    by (simp add: get_drift_tracker_def stored_def demo_node_def backend_new_def list_env_def drift_codec_def
        drift_tracker_new_def word_of_le_bytes)
qed

lemma solo_active: "is_active solo_set 1"
  by (simp add: solo_set_def vset_eval)

lemma solo_leader: "is_slot_leader L list_env 1 0 solo_set 1 (nd_storage demo_node) = Ok True"
proof -
  have "\<exists>v. vs_validators solo_set = [(1, v)] \<and> vi_id v = 1" by (simp add: solo_set_def vset_eval)
  then obtain v where v: "vs_validators solo_set = [(1, v)]" "vi_id v = 1" by blast
  have "vc_key 1 \<noteq> KEY_DRIFT_TRACKER" using key_bytes_eq [of "KVc 1" KDriftTracker] by simp
  then show ?thesis
    by (simp add: is_slot_leader_def v state_total_vc_def get_vc_record_def load_def st_get_def database_get_def andThen_def
        ret_def demo_node_def backend_new_def list_env_def select_slot_leader_def)
qed

lemma demo_ln: "ln_ok (ne_libm demo_world)"
  by (simp add: ln_ok_def demo_world_def)

lemma demo_healthy_node: "healthy list_env map_of (nd_storage demo_node)"
  using list_env_healthy by (simp add: demo_node_def)

text \<open>Block 1 of the example node, up to its state root.\<close>

definition first_block :: "hash \<Rightarrow> block" where
  "first_block rt =
     \<lparr>bk_header = \<lparr>bh_number = 1, bh_parent_hash = block_hash demo_crypto (block_genesis 0 []), bh_transactions_root = ZERO,
        bh_state_root = rt, bh_timestamp = 6, bh_epoch = 0, bh_slot = 1, bh_author = 1, bh_signature = 1\<rparr>,
      bk_body = \<lparr>bb_transactions = []\<rparr>\<rparr>"

lemma demo_env_simps [simp]:
  "ne_store demo_world = list_env" "se_crypto list_env = demo_crypto" "ne_drain demo_world = id"
  by (simp_all add: demo_world_def list_env_def)

lemma demo_node_simps [simp]:
  "nd_current_block demo_node = Some (block_genesis 0 [])" "nd_validators demo_node = solo_set" "nd_chain_height demo_node = 0"
  "nd_producer_db demo_node = []" "nd_mempool demo_node = pool_new 100" "can_produce_blocks (nd_clock_health demo_node)"
  by (simp_all add: demo_node_def can_produce_blocks_def status_can_produce_blocks_def clock_health_new_def)

lemma genesis_simps [simp]:
  "bh_number (bk_header (block_genesis 0 [])) = 0" "bh_slot (bk_header (block_genesis 0 [])) = 0"
  "bh_epoch (bk_header (block_genesis 0 [])) = 0" "bh_timestamp (bk_header (block_genesis 0 [])) = 0"
  by (simp_all add: block_genesis_def)

lemma demo_block:
  "\<exists>rt B P s. produce_block (ne_libm demo_world) list_env id 6 (block_genesis 0 []) 1 0 1
     (producer_new (Some (\<lambda>_. 1)) [], pool_new 100, nd_storage demo_node) = (Ok (first_block rt), B, P, s) \<and> healthy list_env map_of s"
proof -
  obtain rt s where p: "produce_state (ne_libm demo_world) list_env 1 1 0 [] (producer_new (Some (\<lambda>_. 1)) []) (nd_storage demo_node) = (Ok ([], rt), s)"
    and s: "healthy list_env map_of s" "map_of (sb_db s) KEY_DRIFT_TRACKER = map_of (sb_db (nd_storage demo_node)) KEY_DRIFT_TRACKER"
    by (rule produce_state_empty [OF demo_healthy_node list_env_store demo_ln])
  have "has_signed_slot list_env 0 1 (producer_new (Some (\<lambda>_. 1)) []) = Ok False"
    by (simp add: has_signed_slot_def database_get_def list_env_def producer_new_def)
  moreover have "select_transactions_with_state list_env id 1000 (pool_new 100) (nd_storage demo_node) = ([], nd_storage demo_node)"
    by (simp add: select_transactions_with_state_def pool_new_def pool_with_config_def)
  ultimately show ?thesis
    using p s(1) demo_tracker [OF s]
    by (simp add: produce_block_def Let_def drift_tracker_new_def mark_slot_as_signed_def database_put_def map_err_def seal_block_def
        first_block_def compute_transactions_root_def sat_add_def sat_mul_def const_defs list_env_def)
qed

lemma demo_produces: "\<exists>rt A'. try_produce_block demo_world (0, 6) (1, \<lambda>_. 1) 0 1 demo_node = (Ok (Some (first_block rt)), A')"
proof -
  obtain rt B P s where pb: "produce_block (ne_libm demo_world) list_env id 6 (block_genesis 0 []) 1 0 1
     (producer_new (Some (\<lambda>_. 1)) [], pool_new 100, nd_storage demo_node) = (Ok (first_block rt), B, P, s)"
    and s: "healthy list_env map_of s" using demo_block by blast
  let ?N = "demo_node\<lparr>nd_producer_db := bp_db B, nd_mempool := P, nd_storage := s\<rparr>"
  have enc: "is_ok (serialize (bc_block list_env) (first_block rt))" by (simp add: list_env_def empty_block_codec_def first_block_def)
  obtain a s1 U where "andThen (store_block list_env (first_block rt)) (\<lambda>_. set_best_block list_env 1) s = (Ok a, s1)"
    by (rule quietE [OF store_all_quiet(2) [OF list_env_store enc] s])
  then have "\<exists>A'. store_produced_block demo_world (0, 6) (first_block rt) ?N = (Ok (), A')"
    by (simp add: store_produced_block_def Let_def first_block_def)
  then show ?thesis
    using pb solo_leader solo_active by (auto simp: try_produce_block_def Let_def)
qed

lemma demo_valid: "validate_block demo_crypto 6 (first_block rt) (block_genesis 0 []) solo_set = Ok ()"
  using solo_active
  by (simp add: validate_block_def first_block_def validate_timestamp_def const_defs Let_def interval_drift_def i64_clamp_def
      i64_abs_def sat_mul_def sat_sub_def sat_add_def word_le_nat_alt word_less_nat_alt validator_verify_signature_def
      compute_transactions_root_def) (simp add: demo_crypto_def)

lemma demo_drift: "fst (check_drift list_env 0 (first_block rt) (nd_storage demo_node)) = Ok ()"
  using demo_tracker [OF demo_healthy_node refl]
  by (simp add: check_drift_def first_block_def update_drift_tracker_for_sync_def andThen_def set_drift_tracker_def save_def
      drift_tracker_new_def) (simp add: list_env_def drift_codec_def st_put_def database_put_def map_err_def)

lemma demo_fresh: "fst (get_block_by_number list_env 1 (nd_storage demo_node)) = Ok None"
proof -
  have "block_by_number_key 1 \<noteq> KEY_DRIFT_TRACKER" using key_bytes_eq [of "KBlockByNumber 1" KDriftTracker] by simp
  then show ?thesis
    by (simp add: get_block_by_number_def load_def st_get_def database_get_def andThen_def ret_def demo_node_def backend_new_def list_env_def)
qed

theorem import_accepts_produced_witness:
  "\<exists>rt A' B'. try_produce_block demo_world (0, 6) (1, \<lambda>_. 1) 0 1 demo_node = (Ok (Some (first_block rt)), A')
      \<and> import_block demo_world (100, 6) (first_block rt) demo_node = (Ok (), B') \<and> nodes_synced list_env map_of A' B'"
proof -
  obtain rt A' where p: "try_produce_block demo_world (0, 6) (1, \<lambda>_. 1) 0 1 demo_node = (Ok (Some (first_block rt)), A')"
    using demo_produces by blast
  have "nodes_synced list_env map_of demo_node demo_node"
    by (simp add: nodes_synced_def synced_refl demo_healthy_node)
  moreover have "is_ok (serialize (bc_block list_env) (first_block rt))" by (simp add: list_env_def empty_block_codec_def first_block_def)
  ultimately show ?thesis
    using import_accepts_produced [of demo_world list_env demo_world map_of demo_node demo_node "block_genesis 0 []" "(0, 6)" 1 "\<lambda>_. 1"
        0 1 "first_block rt" A' "(100, 6)"] p list_env_store demo_ln demo_valid [of rt] demo_drift [of rt] demo_fresh
    by (auto simp: first_block_def)
qed

end
