(* ===== verification/Kratos_Production.thy ===== *)
theory Kratos_Production
  imports Kratos_Exchange
begin

text \<open>
  What block production guarantees: a node signs at most one block per slot, over any
  interleaving of its operations; the confirmation tracker finalizes exactly the blocks deep
  enough; and what the reward function does with the voters' share.
\<close>

section \<open>One signature per slot\<close>

datatype node_event =
    EvImport clock block
  | EvProduce clock "account_id \<times> (bytes \<Rightarrow> signature64)" epoch_number slot_number
  | EvSubmit nat signed_transaction
  | EvVote clock finality_vote
  | EvMessage clock finality_message
  | EvTick clock
  | EvDrift u64 int
  | EvBroadcast

fun node_step :: "'d node_env \<Rightarrow> node_event \<Rightarrow> 'd node \<Rightarrow> (epoch_number \<times> slot_number) list \<times> 'd node" where
  "node_step W (EvImport now b) N = ([], snd (import_block W now b N))"
| "node_step W (EvProduce now key epoch sl) N =
     (case try_produce_block W now key epoch sl N of
        (Inr (Some b), N') \<Rightarrow> ([(epoch, sl)], N') | (_, N') \<Rightarrow> ([], N'))"
| "node_step W (EvSubmit now tx) N = ([], snd (submit_transaction W now tx N))"
| "node_step W (EvVote now v) N = ([], snd (process_finality_vote W now v N))"
| "node_step W (EvMessage now m) N = ([], snd (process_finality_message W now m N))"
| "node_step W (EvTick now) N = ([], snd (tick_finality W now N))"
| "node_step W (EvDrift now d) N = ([], snd (node_record_clock_drift now d N))"
| "node_step W EvBroadcast N = ([], broadcast_finality_messages W N)"

text \<open>The slots for which a node returned a signed block, in the course of a list of events.\<close>

fun node_run :: "'d node_env \<Rightarrow> node_event list \<Rightarrow> 'd node \<Rightarrow> (epoch_number \<times> slot_number) list \<times> 'd node" where
  "node_run W [] N = ([], N)"
| "node_run W (e # es) N = (let (xs, N1) = node_step W e N; (ys, N2) = node_run W es N1 in (xs @ ys, N2))"

definition signed_in :: "('d \<Rightarrow> bytes \<rightharpoonup> bytes) \<Rightarrow> 'd \<Rightarrow> (epoch_number \<times> slot_number) set" where
  "signed_in content d = {(epoch, sl). content d (signed_slot_key epoch sl) \<noteq> None}"

lemma mark_slot_effect:
  assumes L: "storage_laws E content" and run: "mark_slot_as_signed E epoch sl h B = (r, B')"
  shows "signed_in content (bp_db B) \<subseteq> signed_in content (bp_db B')" "is_ok r \<Longrightarrow> (epoch, sl) \<in> signed_in content (bp_db B')"
proof -
  note w = laws_writes(1) [OF L, of "signed_slot_key epoch sl" "hash_bytes h"]
  obtain q d where p: "database_put E (signed_slot_key epoch sl) (hash_bytes h) (bp_db B) = (q, d)" by fastforce
  have m: "map_err WriteFailed (rk_put E (signed_slot_key epoch sl) (hash_bytes h)) (bp_db B) = (q, d)"
    using p by (simp add: database_put_def)
  have ok: "content d = (content (bp_db B))(signed_slot_key epoch sl \<mapsto> hash_bytes h)" if "q = Ok ()"
    using writes_ok [OF w m [unfolded that]] .
  have "content d = content (bp_db B) \<or> content d = (content (bp_db B))(signed_slot_key epoch sl \<mapsto> hash_bytes h)"
    using m writes_ok [OF w] writes_err [OF w] by (cases q) auto
  moreover have "bp_db B' = d" using run by (auto simp: mark_slot_as_signed_def p split: sum.splits)
  ultimately show "signed_in content (bp_db B) \<subseteq> signed_in content (bp_db B')" by (auto simp: signed_in_def)
  show "(epoch, sl) \<in> signed_in content (bp_db B')" if "is_ok r"
    using run that ok by (auto simp: mark_slot_as_signed_def p signed_in_def split: sum.splits)
qed

lemma produce_block_signs:
  assumes L: "storage_laws E content"
    and run: "produce_block LM E drain now parent v epoch sl (B, P, s) = (r, B', P', s')"
  shows "signed_in content (bp_db B) \<subseteq> signed_in content (bp_db B')"
    "is_ok r \<Longrightarrow> (epoch, sl) \<in> signed_in content (bp_db B') - signed_in content (bp_db B)"
proof -
  have fresh: "(epoch, sl) \<notin> signed_in content (bp_db B)" if "has_signed_slot E epoch sl B = Ok False"
    using that laws_get [OF L, of "signed_slot_key epoch sl" "bp_db B"]
    by (auto simp: has_signed_slot_def database_get_def signed_in_def split: sum.splits)
  have "signed_in content (bp_db B) \<subseteq> signed_in content (bp_db B')
      \<and> (is_ok r \<longrightarrow> (epoch, sl) \<in> signed_in content (bp_db B') - signed_in content (bp_db B))"
    using run
    by (auto simp: produce_block_def Let_def fresh split: sum.splits bool.splits option.splits prod.splits
        dest: mark_slot_effect [OF L] intro: mark_slot_effect(1) [OF L, THEN subsetD])
  then show "signed_in content (bp_db B) \<subseteq> signed_in content (bp_db B')"
    "is_ok r \<Longrightarrow> (epoch, sl) \<in> signed_in content (bp_db B') - signed_in content (bp_db B)" by blast+
qed

lemma finality_db [simp]:
  "nd_producer_db (update_finality_validators W N) = nd_producer_db N"
  "nd_producer_db (notify_finality_block_imported W now n h N) = nd_producer_db N"
  "nd_producer_db (broadcast_finality_messages W N) = nd_producer_db N"
  "nd_producer_db (snd (process_finality_vote W now v N)) = nd_producer_db N"
  "nd_producer_db (snd (process_finality_message W now m N)) = nd_producer_db N"
  "nd_producer_db (snd (tick_finality W now N)) = nd_producer_db N"
  "nd_producer_db (snd (node_record_clock_drift t d N)) = nd_producer_db N"
  by (auto simp: update_finality_validators_def notify_finality_block_imported_def broadcast_finality_messages_def
      process_finality_vote_def process_finality_message_def tick_finality_def node_record_clock_drift_def
      split: option.splits prod.splits)

lemma store_early_votes_db [simp]: "nd_producer_db (store_early_votes W n txs N) = nd_producer_db N"
  by (induction txs arbitrary: N) (simp_all add: Let_def split: prod.splits)

lemma import_block_db: "nd_producer_db (snd (import_block W now b N)) = nd_producer_db N"
  by (auto simp: import_block_def Let_def split: option.splits sum.splits prod.splits)

lemma store_produced_db: "nd_producer_db (snd (store_produced_block W now b N)) = nd_producer_db N"
  by (auto simp: store_produced_block_def Let_def split: sum.splits prod.splits)

lemma submit_db: "nd_producer_db (snd (submit_transaction W now tx N)) = nd_producer_db N"
  by (auto simp: submit_transaction_def Let_def split: sum.splits prod.splits)

lemma try_produce_signs:
  assumes L: "storage_laws (ne_store W) content" and run: "try_produce_block W now key epoch sl N = (r, N')"
  shows "signed_in content (nd_producer_db N) \<subseteq> signed_in content (nd_producer_db N')"
    "r = Ok (Some b) \<Longrightarrow> (epoch, sl) \<in> signed_in content (nd_producer_db N') - signed_in content (nd_producer_db N)"
proof -
  obtain v sign where key: "key = (v, sign)" by (cases key)
  let ?go = "can_produce_blocks (nd_clock_health N) \<and> is_active (nd_validators N) v \<and> (\<exists>parent. nd_current_block N = Some parent
    \<and> \<not> (sl \<le> bh_slot (bk_header parent) \<and> epoch \<le> bh_epoch (bk_header parent))
    \<and> is_slot_leader (ne_libm W) (ne_store W) sl epoch (nd_validators N) v (nd_storage N) = Ok True)"
  have "signed_in content (nd_producer_db N) \<subseteq> signed_in content (nd_producer_db N')
      \<and> (r = Ok (Some b) \<longrightarrow> (epoch, sl) \<in> signed_in content (nd_producer_db N') - signed_in content (nd_producer_db N))"
  proof (cases ?go)
    case False
    then have "nd_producer_db N' = nd_producer_db N \<and> r \<noteq> Ok (Some b)"
      using run by (auto simp: try_produce_block_def Let_def key split: option.splits if_splits)
    then show ?thesis by simp
  next
    case True
    then obtain parent where parent: "nd_current_block N = Some parent" by blast
    obtain q B P s where p: "produce_block (ne_libm W) (ne_store W) (ne_drain W) (snd now) parent v epoch sl
        (producer_new (Some sign) (nd_producer_db N), nd_mempool N, nd_storage N) = (q, B, P, s)" by (rule prod_cases4)
    let ?N1 = "N\<lparr>nd_producer_db := bp_db B, nd_mempool := P, nd_storage := s\<rparr>"
    have "nd_producer_db N' = bp_db B \<and> (r = Ok (Some b) \<longrightarrow> is_ok q)"
    proof (cases q)
      case (Inl e)
      then show ?thesis
        using run True parent by (auto simp: try_produce_block_def Let_def key p split: production_error.splits)
    next
      case (Inr b')
      obtain q2 N2 where st: "store_produced_block W now b' ?N1 = (q2, N2)" by fastforce
      then have "nd_producer_db N2 = bp_db B" using store_produced_db [of W now b' ?N1] by simp
      then show ?thesis
        using run True parent Inr by (auto simp: try_produce_block_def Let_def key p st split: sum.splits)
    qed
    then show ?thesis using produce_block_signs [OF L p] by (auto simp: producer_new_def)
  qed
  then show "signed_in content (nd_producer_db N) \<subseteq> signed_in content (nd_producer_db N')"
    "r = Ok (Some b) \<Longrightarrow> (epoch, sl) \<in> signed_in content (nd_producer_db N') - signed_in content (nd_producer_db N)" by blast+
qed

lemma node_step_signs:
  assumes L: "storage_laws (ne_store W) content" and run: "node_step W e N = (xs, N')"
  shows "signed_in content (nd_producer_db N) \<subseteq> signed_in content (nd_producer_db N')
       \<and> set xs \<subseteq> signed_in content (nd_producer_db N') - signed_in content (nd_producer_db N) \<and> distinct xs"
proof (cases e)
  case (EvProduce now key epoch sl)
  obtain r N1 where t: "try_produce_block W now key epoch sl N = (r, N1)" by fastforce
  show ?thesis
    using run try_produce_signs [OF L t] by (auto simp: EvProduce t split: sum.splits option.splits)
qed (use run in \<open>auto simp: import_block_db submit_db\<close>)

lemma node_run_signs:
  assumes L: "storage_laws (ne_store W) content" and run: "node_run W es N = (xs, N')"
  shows "set xs \<inter> signed_in content (nd_producer_db N) = {} \<and> distinct xs
       \<and> signed_in content (nd_producer_db N) \<union> set xs \<subseteq> signed_in content (nd_producer_db N')"
  using run
proof (induction es arbitrary: N xs)
  case (Cons e es)
  obtain ys N1 where s: "node_step W e N = (ys, N1)" by fastforce
  obtain zs where r: "node_run W es N1 = (zs, N')" "xs = ys @ zs" using Cons.prems by (auto simp: s split: prod.splits)
  show ?case using Cons.IH [OF r(1)] node_step_signs [OF L s] by (auto simp: r(2))
qed simp

text \<open>
  C5: a node never signs two blocks for one slot: over any sequence of imports, production attempts
  (by whatever keys and at whatever times), submissions, finality messages, ticks and clock
  measurements, the slots for which it returned a signed block are pairwise distinct, and none
  of them had been marked in its database before. The database may fail at any call.
\<close>

theorem no_double_signing:
  assumes "storage_laws (ne_store W) content"
  shows "distinct (fst (node_run W es N)) \<and> set (fst (node_run W es N)) \<inter> signed_in content (nd_producer_db N) = {}"
  using node_run_signs [OF assms, of es N "fst (node_run W es N)" "snd (node_run W es N)"] by simp

theorem no_double_signing_witness:
  "distinct (fst (node_run demo_world [EvProduce (0, 6) (1, \<lambda>_. 1) 0 1, EvProduce (1, 7) (1, \<lambda>_. 1) 0 1] demo_node))
   \<and> (0, 1) \<in> set (fst (node_run demo_world [EvProduce (0, 6) (1, \<lambda>_. 1) 0 1, EvProduce (1, 7) (1, \<lambda>_. 1) 0 1] demo_node))"
proof -
  obtain rt A' where "try_produce_block demo_world (0, 6) (1, \<lambda>_. 1) 0 1 demo_node = (Ok (Some (first_block rt)), A')"
    using demo_produces by blast
  then have "(0, 1) \<in> set (fst (node_run demo_world [EvProduce (0, 6) (1, \<lambda>_. 1) 0 1, EvProduce (1, 7) (1, \<lambda>_. 1) 0 1] demo_node))"
    by (simp split: prod.splits)
  moreover have "storage_laws (ne_store demo_world) map_of" using list_env_laws by simp
  note no_double_signing [OF this, of "[EvProduce (0, 6) (1, \<lambda>_. 1) 0 1, EvProduce (1, 7) (1, \<lambda>_. 1) 0 1]" demo_node]
  ultimately show ?thesis by blast
qed

section \<open>Slots have keys of their own\<close>

lemma unat_digit: "m < 10 \<Longrightarrow> unat (of_nat (48 + m) :: u8) = 48 + m"
  by (subst unat_of_nat) simp

lemma decimal_digits: "x \<in> set (decimal n) \<Longrightarrow> unat x < 58"
proof (induction n rule: decimal.induct)
  case (1 n)
  show ?case
  proof (cases "n < 10")
    case True
    then show ?thesis using 1(2) unat_digit [of n] by (subst (asm) decimal.simps) auto
  next
    case False
    then show ?thesis using 1 unat_digit [of "n mod 10"] by (subst (asm) decimal.simps) auto
  qed
qed

lemma decimal_value: "foldl (\<lambda>a x. 10 * a + (unat x - 48)) 0 (decimal n) = n"
proof (induction n rule: decimal.induct)
  case (1 n)
  show ?case
  proof (cases "n < 10")
    case True
    then show ?thesis using unat_digit [of n] by (subst decimal.simps) simp
  next
    case False
    then show ?thesis using 1 unat_digit [of "n mod 10"] by (subst decimal.simps) simp
  qed
qed

lemma decimal_inject: "decimal n = decimal m \<Longrightarrow> n = m"
  using decimal_value by metis

lemma split_at_colon:
  fixes c :: "8 word"
  assumes "xs @ c # ys = xs' @ c # ys'" "c \<notin> set xs" "c \<notin> set xs'"
  shows "xs = xs' \<and> ys = ys'"
  using assms
proof (induction xs arbitrary: xs')
  case Nil
  then show ?case by (cases xs') auto
next
  case (Cons x xs)
  then show ?case by (cases xs') auto
qed

text \<open>The key under which a signed slot is kept identifies its epoch and slot.\<close>

lemma signed_slot_key_inject: "signed_slot_key e sl = signed_slot_key e' sl' \<longleftrightarrow> e = e' \<and> sl = sl'"
proof
  assume eq: "signed_slot_key e sl = signed_slot_key e' sl'"
  have colon: "ascii '':'' = [58]" by (simp add: ascii_def)
  have no: "58 \<notin> set (decimal n)" for n using decimal_digits [of 58 n] by auto
  have "decimal (unat e) @ 58 # decimal (unat sl) = decimal (unat e') @ 58 # decimal (unat sl')"
    using eq by (simp add: signed_slot_key_def colon)
  then have "decimal (unat e) = decimal (unat e') \<and> decimal (unat sl) = decimal (unat sl')"
    by (rule split_at_colon [OF _ no no])
  then show "e = e' \<and> sl = sl'" by (auto dest!: decimal_inject simp: word_unat_eq_iff)
qed simp

section \<open>Confirmations\<close>

lemma foldl_finalize:
  "ft_finalized_block (foldl finalize_step T xs) = Max (insert (ft_finalized_block T) (fst ` set xs))
   \<and> ft_pending_finality (foldl finalize_step T xs) = ft_pending_finality T
   \<and> ft_confirmations_required (foldl finalize_step T xs) = ft_confirmations_required T"
proof (induction xs arbitrary: T)
  case (Cons x xs)
  have f: "ft_finalized_block (finalize_step T x) = max (ft_finalized_block T) (fst x)"
    "ft_pending_finality (finalize_step T x) = ft_pending_finality T"
    "ft_confirmations_required (finalize_step T x) = ft_confirmations_required T"
    by (auto simp: finalize_step_def)
  have "Max (insert (max a (fst x)) (fst ` set xs)) = Max (insert a (insert (fst x) (fst ` set xs)))" for a :: block_number
    by (cases "set xs = {}") (simp_all add: max.assoc)
  then show ?case using Cons.IH [of "finalize_step T x"] by (simp add: f)
qed simp

lemma last_key_Max: "bm_inv m \<Longrightarrow> m \<noteq> [] \<Longrightarrow> rev (bm_keys m) = Max (fst ` set m) # rev (butlast (bm_keys m))"
proof -
  assume m: "bm_inv m" "m \<noteq> []"
  have "sorted (bm_keys m)" using m(1) by (simp add: bm_inv_def strict_sorted_iff)
  then have "last (bm_keys m) = Max (set (bm_keys m))"
    using m(2) by (metis List.finite_set Max_eqI in_set_conv_nth last_conv_nth last_in_set length_0_conv length_map
        sorted_nth_mono Suc_pred' less_Suc_eq_le length_greater_0_conv diff_Suc_1 lessI)
  moreover have "rev (bm_keys m) = last (bm_keys m) # rev (butlast (bm_keys m))"
    using m(2) by (metis append_butlast_last_id list.map_disc_iff rev.simps(2) rev_rev_ident)
  ultimately show ?thesis by simp
qed

lemma remove_all_keys:
  "bm_inv m \<Longrightarrow> bm_inv (foldl (\<lambda>m (n, _). bm_remove n m) m xs)
     \<and> set (foldl (\<lambda>m (n, _). bm_remove n m) m xs) = {x \<in> set m. fst x \<notin> fst ` set xs}"
proof (induction xs arbitrary: m)
  case (Cons x xs)
  have "set (bm_remove (fst x) m) = {y \<in> set m. fst y \<noteq> fst x}" by (auto simp: bm_remove_def)
  then show ?case
    using Cons.IH [OF bm_inv_remove [OF Cons.prems], of "fst x"] by (cases x) auto
qed simp

text \<open>The tracker after the blocks with the numbers \<open>ns\<close> were added.\<close>

definition depth_limit :: "block_number set \<Rightarrow> u32 \<Rightarrow> block_number" where
  "depth_limit ns c = sat_sub (Max (insert 0 ns)) (ucast c)"

definition tracked :: "block_number set \<Rightarrow> finality_tracker \<Rightarrow> bool" where
  "tracked ns T =
     (finite ns \<and> bm_inv (ft_pending_finality T) \<and> 1 \<le> ft_confirmations_required T
      \<and> fst ` set (ft_pending_finality T) = {n \<in> ns. depth_limit ns (ft_confirmations_required T) < n}
      \<and> ft_finalized_block T = Max (insert 0 {n \<in> ns. n \<le> depth_limit ns (ft_confirmations_required T)}))"

lemma sat_sub_less: "(0 :: 'a::len word) < a \<Longrightarrow> 0 < b \<Longrightarrow> sat_sub a b < a"
  by (simp add: word_nat)

lemma sat_sub_mono: "(a :: 'a::len word) \<le> a' \<Longrightarrow> sat_sub a b \<le> sat_sub a' b"
  by (simp add: word_nat)

lemma tracked_latest:
  assumes T: "tracked ns T"
  shows "Max (insert n (fst ` set (ft_pending_finality T))) = Max (insert 0 (insert n ns))"
proof (cases "Max (insert 0 ns) = 0")
  case True
  have fin: "finite ns" using T by (simp add: tracked_def)
  then have "\<forall>x \<in> ns. x = 0" using True by (metis Max_ge finite.insertI insertI2 word_le_0_iff)
  then have "fst ` set (ft_pending_finality T) = {}" using T by (auto simp: tracked_def)
  moreover have "Max (insert 0 (insert n ns)) = n"
    using fin \<open>\<forall>x \<in> ns. x = 0\<close> by (intro Max_eqI) auto
  ultimately show ?thesis by simp
next
  case False
  let ?M = "Max (insert 0 ns)" and ?K = "fst ` set (ft_pending_finality T)"
  have fin: "finite ns" using T by (simp add: tracked_def)
  have c: "0 < (ucast (ft_confirmations_required T) :: u64)"
  proof -
    have "1 \<le> unat (ft_confirmations_required T)" using T by (simp add: tracked_def word_le_nat_alt)
    then show ?thesis by (simp add: word_less_nat_alt)
  qed
  have "?M \<in> insert 0 ns" using fin by (intro Max_in) auto
  then have "?M \<in> ns" using False by auto
  then have M: "?M \<in> ?K"
    using T False c sat_sub_less [of ?M] by (simp add: tracked_def depth_limit_def word_gt_0)
  have le: "x \<le> ?M" if "x \<in> ?K" for x using T that fin by (auto simp: tracked_def)
  have finK: "finite ?K" by simp
  have "Max ?K = ?M" using M le by (intro Max_eqI) auto
  then have "Max (insert n ?K) = max n ?M" using M finK by (metis Max_insert empty_iff)
  also have "\<dots> = Max (insert n (insert 0 ns))" using fin by (simp add: Max_insert)
  finally show ?thesis by (simp add: insert_commute)
qed

lemma tracked_add:
  assumes T: "tracked ns T"
  shows "tracked (insert n ns) (tracker_add_block n h T) \<and> ft_confirmations_required (tracker_add_block n h T) = ft_confirmations_required T"
proof -
  let ?c = "ft_confirmations_required T"
  define m where "m = bm_insert n h (ft_pending_finality T)"
  define T1 where "T1 = T\<lparr>ft_pending_finality := m\<rparr>"
  have inv: "bm_inv m" using T by (simp add: m_def tracked_def bm_inv_insert)
  have keys: "fst ` set m = insert n (fst ` set (ft_pending_finality T))"
    using bm_keys_insert [of n h "ft_pending_finality T"] by (simp add: m_def)
  then have ne: "m \<noteq> []" by auto
  have fin: "finite ns" using T by (simp add: tracked_def)
  let ?lim = "depth_limit (insert n ns) ?c"
  have lim: "sat_sub (Max (fst ` set m)) (ucast ?c) = ?lim"
    using tracked_latest [OF T, of n] by (simp add: keys depth_limit_def)
  have mono: "depth_limit ns ?c \<le> ?lim"
    unfolding depth_limit_def using fin by (intro sat_sub_mono Max_mono) auto
  define F where "F = filter (\<lambda>(k, _). k \<le> ?lim) m"
  define T2 where "T2 = foldl finalize_step T1 F"
  have add: "tracker_add_block n h T = T2\<lparr>ft_pending_finality := foldl (\<lambda>m (n, _). bm_remove n m) (ft_pending_finality T2) F\<rparr>"
  proof -
    have "ft_pending_finality T1 = m" "ft_confirmations_required T1 = ?c" by (simp_all add: T1_def)
    then show ?thesis
      unfolding tracker_add_block_def m_def [symmetric] T1_def [symmetric] update_finality_def
      by (simp add: last_key_Max [OF inv ne] Let_def lim T2_def F_def)
  qed
  have T2: "ft_finalized_block T2 = Max (insert (ft_finalized_block T) (fst ` set F))" "ft_pending_finality T2 = m"
    "ft_confirmations_required T2 = ?c"
    using foldl_finalize [of T1 F] by (simp_all add: T2_def T1_def)
  have Fk: "fst ` set F = {x \<in> fst ` set m. x \<le> ?lim}" by (auto simp: F_def)
  have old: "fst ` set m = insert n {x \<in> ns. depth_limit ns ?c < x}" using T by (simp add: keys tracked_def)
  have rem: "bm_inv (foldl (\<lambda>m (n, _). bm_remove n m) m F)"
    "fst ` set (foldl (\<lambda>m (n, _). bm_remove n m) m F) = {x \<in> insert n ns. ?lim < x}"
  proof -
    show "bm_inv (foldl (\<lambda>m (n, _). bm_remove n m) m F)" using remove_all_keys [OF inv] by blast
    have "fst ` set (foldl (\<lambda>m (n, _). bm_remove n m) m F) = {x \<in> fst ` set m. x \<notin> fst ` set F}"
      using remove_all_keys [OF inv, of F] by auto
    also have "\<dots> = {x \<in> insert n ns. ?lim < x}" unfolding Fk old using mono by auto
    finally show "fst ` set (foldl (\<lambda>m (n, _). bm_remove n m) m F) = {x \<in> insert n ns. ?lim < x}" .
  qed
  have "Max (insert (ft_finalized_block T) (fst ` set F)) = Max (insert 0 {x \<in> ns. x \<le> depth_limit ns ?c} \<union> fst ` set F)"
  proof (cases "fst ` set F = {}")
    case False
    then show ?thesis using T fin by (subst Max_Un) (simp_all add: tracked_def)
  qed (use T in \<open>simp add: tracked_def\<close>)
  also have "insert 0 {x \<in> ns. x \<le> depth_limit ns ?c} \<union> fst ` set F = insert 0 {x \<in> insert n ns. x \<le> ?lim}"
    unfolding Fk old using mono by auto
  finally have "ft_finalized_block T2 = Max (insert 0 {x \<in> insert n ns. x \<le> ?lim})" using T2(1) by simp
  then show ?thesis using T rem T2(2,3) by (simp add: add tracked_def)
qed

text \<open>
  The confirmation tracker finalizes exactly by depth: after blocks with any numbers were added
  in any order, the finalized number is the largest added number that lies at least the required
  number of confirmations (one or more) below the highest block, or 0 when there is none.
\<close>

theorem finalized_by_depth:
  fixes bs :: "(block_number \<times> hash) list" and g :: hash
  assumes "1 \<le> c"
  defines "T \<equiv> foldl (\<lambda>T (n, h). tracker_add_block n h T) (tracker_start g c) bs"
  shows "ft_finalized_block T = Max (insert 0 {n \<in> fst ` set bs. n \<le> sat_sub (Max (insert 0 (fst ` set bs))) (ucast c)})"
proof -
  have "tracked (ns \<union> fst ` set bs) (foldl (\<lambda>T (n, h). tracker_add_block n h T) T0 bs)
      \<and> ft_confirmations_required (foldl (\<lambda>T (n, h). tracker_add_block n h T) T0 bs) = ft_confirmations_required T0"
    if "tracked ns T0" for ns T0
    using that
  proof (induction bs arbitrary: ns T0)
    case (Cons b bs)
    obtain n h where b: "b = (n, h)" by (cases b)
    from Cons.IH [of "insert n ns" "tracker_add_block n h T0"] tracked_add [OF Cons.prems, of n h] show ?case by (simp add: b)
  qed simp
  moreover have "tracked {} (tracker_start g c)" using assms(1) by (simp add: tracked_def tracker_start_def)
  ultimately have "tracked (fst ` set bs) T" "ft_confirmations_required T = c"
    by (fastforce simp: T_def tracker_start_def)+
  then show ?thesis by (simp add: tracked_def depth_limit_def)
qed

theorem finalized_by_depth_witness:
  "ft_finalized_block (foldl (\<lambda>T (n, h). tracker_add_block n h T) (tracker_start 0 6) [(1, 11), (2, 12), (9, 19)]) = 2"
proof -
  have s: "sat_sub 9 6 = (3 :: block_number)" by (simp add: sat_sub_def word_le_nat_alt)
  have "{n \<in> {1, 2, 9}. n \<le> (3 :: block_number)} = {1, 2}" by (auto simp: word_le_nat_alt)
  then show ?thesis
    using finalized_by_depth [of 6 0 "[(1, 11), (2, 12), (9, 19)]"] by (simp add: s max_def word_le_nat_alt)
qed

section \<open>A rejected block leaves its effects behind\<close>

lemma credit_creates:
  assumes "healthy E content s"
  obtains s' where "credit E i amount s = (Ok (), s')" "healthy E content s'" "accounts E content s' i \<noteq> None"
proof -
  obtain s1 where s1: "get_account E i s = (Ok (accounts E content s i), s1)" "healthy E content s1"
    using get_account_step [OF assms] by metis
  let ?a = "case accounts E content s i of Some a \<Rightarrow> a | None \<Rightarrow> account_new"
  obtain s2 where s2: "set_account E i (?a\<lparr>ai_free := sat_add (ai_free ?a) amount\<rparr>) s1 = (Ok (), s2)" "healthy E content s2"
    "accounts E content s2 = (accounts E content s1)(i \<mapsto> ?a\<lparr>ai_free := sat_add (ai_free ?a) amount\<rparr>)"
    using set_account_step [OF s1(2)] by metis
  with s1 that show ?thesis by (simp add: credit_def andThen_def Let_def)
qed

lemma credit_keeps:
  assumes "healthy E content s" "accounts E content s j \<noteq> None"
  obtains s' where "credit E i amount s = (Ok (), s')" "accounts E content s' j \<noteq> None"
proof -
  obtain s1 where s1: "get_account E i s = (Ok (accounts E content s i), s1)" "healthy E content s1"
    "accounts E content s1 = accounts E content s" using get_account_step [OF assms(1)] by metis
  let ?a = "case accounts E content s i of Some a \<Rightarrow> a | None \<Rightarrow> account_new"
  obtain s2 where s2: "set_account E i (?a\<lparr>ai_free := sat_add (ai_free ?a) amount\<rparr>) s1 = (Ok (), s2)"
    "accounts E content s2 = (accounts E content s1)(i \<mapsto> ?a\<lparr>ai_free := sat_add (ai_free ?a) amount\<rparr>)"
    using set_account_step [OF s1(2)] by metis
  with s1 that [of s2] assms(2) show ?thesis by (simp add: credit_def andThen_def Let_def)
qed

lemma pay_creates:
  assumes "healthy E content s"
  obtains s' where "pay E v r t s = (Ok (), s')" "accounts E content s' v \<noteq> None"
proof -
  obtain s1 where s1: "credit E v r s = (Ok (), s1)" "healthy E content s1" "accounts E content s1 v \<noteq> None"
    by (rule credit_creates [OF assms])
  obtain s2 where "credit E TREASURY_ACCOUNT t s1 = (Ok (), s2)" "accounts E content s2 v \<noteq> None"
    by (rule credit_keeps [OF s1(2,3)])
  with s1 that show ?thesis by (cases "0 < t") (simp_all add: pay_def andThen_def ret_def)
qed

text \<open>
  A block whose state root does not match is rejected after its transactions ran and its author
  was paid; nothing undoes this. The example node has no account for the author before it
  rejects the block, and one after.
\<close>

lemma rejected_block_still_pays:
  "\<exists>rt B' e. import_block demo_world (0, 6) (first_block rt) demo_node = (Err e, B')
     \<and> accounts list_env map_of (nd_storage demo_node) 1 = None \<and> accounts list_env map_of (nd_storage B') 1 \<noteq> None"
proof -
  define s1 where "s1 rt = snd (check_drift list_env 0 (first_block rt) (nd_storage demo_node))" for rt
  have d: "check_drift list_env 0 (first_block rt) (nd_storage demo_node) = (Ok (), s1 rt)" for rt
    using demo_drift [of rt] by (simp add: s1_def prod_eq_iff)
  have h: "healthy list_env map_of (s1 rt)" for rt
    using check_drift_quiet [OF demo_healthy_node d] by (rule synced_healthy(2))
  have eq: "s1 rt = s1 0" for rt
    unfolding s1_def by (simp add: check_drift_def first_block_def update_drift_tracker_for_sync_def cong: option.case_cong)
  let ?r = "author_reward (ne_libm demo_world) 0 0 (validator_credits list_env 1 (s1 0))"
  obtain s2 where pay: "pay list_env 1 ?r (treasury_share 0) (s1 0) = (Ok (), s2)" "accounts list_env map_of s2 1 \<noteq> None"
    by (rule pay_creates [OF h])
  let ?rt = "sr_root (compute_state_root list_env 1 0 s2) + 1"
  have "import_state (ne_libm demo_world) list_env (first_block ?rt) (solo_set, s1 0)
      = (Err (NodeConsensus (ImportStateRootMismatch ?rt (sr_root (compute_state_root list_env 1 0 s2)))), solo_set, s2)"
    using pay(1) by (simp add: import_state_def first_block_def import_rewards_pay [OF demo_ln] andThen_def ret_def Let_def)
  moreover have "trust_early_author 1 1 solo_set = (False, solo_set)" using solo_active by (simp add: trust_early_author_def)
  ultimately have "import_block demo_world (0, 6) (first_block ?rt) demo_node
      = (Err (NodeConsensus (ImportStateRootMismatch ?rt (sr_root (compute_state_root list_env 1 0 s2)))),
         demo_node\<lparr>nd_validators := solo_set, nd_storage := s2\<rparr>)"
    using d [of ?rt] eq [of ?rt] demo_fresh demo_valid [of ?rt]
    by (simp add: import_block_def Let_def) (simp add: first_block_def)
  moreover have "account_key 1 \<noteq> KEY_DRIFT_TRACKER" using key_bytes_eq [of "KAccount 1" KDriftTracker] by simp
  then have "accounts list_env map_of (nd_storage demo_node) 1 = None"
    by (simp add: accounts_def stored_def demo_node_def backend_new_def)
  ultimately show ?thesis using pay(2) by fastforce
qed

end
