(* ===== verification/Kratos_Chains.thy ===== *)
theory Kratos_Chains
  imports Kratos_Merkle
begin

text \<open>
  Sidechains and hostchains (\<^verbatim>\<open>types/chain.rs\<close>, \<^verbatim>\<open>types/fraud.rs\<close> and
  \<^verbatim>\<open>contracts/sidechains.rs\<close>): the records, the registry with all its operations, the purge
  state machine, fraud proofs and withdrawals.  A \<open>BTreeSet\<close> or \<open>HashSet\<close> is a set, its
  \<open>len\<close> the cardinality.  The order in which the registry's \<open>HashMap\<close>s are walked is the
  argument \<open>walk\<close>, a rearrangement of the keys.
\<close>

section \<open>Chains\<close>

datatype chain_status = CS_Active | CS_Inactive | CS_PendingPurge | CS_Frozen | CS_Snapshot | CS_WithdrawalWindow | CS_Purged

datatype purge_trigger = PT_Inactivity | PT_GovernanceFailure | PT_ValidatorFraud | PT_SecurityInsolvency | PT_StateDivergence

datatype security_mode = Inherited | Shared | Sovereign

definition MAX_VALIDATORS_PER_CHAIN :: nat where [const_defs]: "MAX_VALIDATORS_PER_CHAIN = 100"
definition MAX_MEMBERS_PER_HOST :: nat where [const_defs]: "MAX_MEMBERS_PER_HOST = 100"
definition MAX_VALIDATORS_PER_HOST :: nat where [const_defs]: "MAX_VALIDATORS_PER_HOST = 200"
definition INACTIVITY_THRESHOLD_V3_1 :: block_number where [const_defs]: "INACTIVITY_THRESHOLD_V3_1 = 1296000"
definition INACTIVITY_THRESHOLD :: block_number where [const_defs]: "INACTIVITY_THRESHOLD = 1296000"
definition PURGE_CHECK_INTERVAL :: block_number where [const_defs]: "PURGE_CHECK_INTERVAL = 3600"
definition PURGE_WARNING_PERIOD :: block_number where [const_defs]: "PURGE_WARNING_PERIOD = 432000"
definition WITHDRAWAL_WINDOW_DURATION :: block_number where [const_defs]: "WITHDRAWAL_WINDOW_DURATION = 432000"
definition GOVERNANCE_FAILURE_THRESHOLD :: u32 where [const_defs]: "GOVERNANCE_FAILURE_THRESHOLD = 3"
definition VALIDATOR_FRAUD_THRESHOLD_PERCENT :: u64 where [const_defs]: "VALIDATOR_FRAUD_THRESHOLD_PERCENT = 33"
definition BASE_DEPOSIT :: balance where [const_defs]: "BASE_DEPOSIT = 1000"
definition SOVEREIGN_DEPOSIT :: balance where [const_defs]: "SOVEREIGN_DEPOSIT = 10000"
definition FRAUD_PROOF_VALIDITY_PERIOD :: block_number where [const_defs]: "FRAUD_PROOF_VALIDITY_PERIOD = 432000"

datatype chain_type_error =
    TooManyValidators | CT_ValidatorNotFound | TooManyMembers | MemberNotFound | CT_NotFound | AlreadyPurged | CT_Unauthorized

record sidechain_info =
  sci_id :: chain_id
  sci_parent :: "chain_id option"
  sci_owner :: account_id
  sci_name :: "string option"
  sci_description :: "string option"
  sci_security_mode :: security_mode
  sci_validators :: "account_id set"
  sci_status :: chain_status
  sci_created_at :: block_number
  sci_last_activity :: block_number
  sci_deposit :: balance
  sci_purge_triggered_at :: "block_number option"
  sci_purge_trigger :: "purge_trigger option"
  sci_frozen_at :: "block_number option"
  sci_snapshot_at :: "block_number option"
  sci_withdrawal_window_start :: "block_number option"
  sci_governance_failures :: u32
  sci_slashed_validators_count :: u64
  sci_last_verified_state_root :: "hash option"
  sci_state_divergence_detected_at :: "block_number option"
  sci_snapshot_state_root :: "hash option"
  sci_withdrawn_accounts :: "account_id set"

definition sidechain_new ::
  "chain_id \<Rightarrow> chain_id option \<Rightarrow> account_id \<Rightarrow> string option \<Rightarrow> string option \<Rightarrow> security_mode \<Rightarrow> balance \<Rightarrow> block_number \<Rightarrow> sidechain_info" where
  "sidechain_new cid parent owner name description security_mode deposit created_at =
     \<lparr>sci_id = cid, sci_parent = parent, sci_owner = owner, sci_name = name, sci_description = description,
      sci_security_mode = security_mode, sci_validators = {}, sci_status = CS_Active, sci_created_at = created_at,
      sci_last_activity = created_at, sci_deposit = deposit, sci_purge_triggered_at = None, sci_purge_trigger = None,
      sci_frozen_at = None, sci_snapshot_at = None, sci_withdrawal_window_start = None, sci_governance_failures = 0,
      sci_slashed_validators_count = 0, sci_last_verified_state_root = None, sci_state_divergence_detected_at = None,
      sci_snapshot_state_root = None, sci_withdrawn_accounts = {}\<rparr>"

definition chain_is_inactive :: "block_number \<Rightarrow> block_number \<Rightarrow> sidechain_info \<Rightarrow> bool" where
  "chain_is_inactive current_block threshold c = (threshold < sat_sub current_block (sci_last_activity c))"

definition sidechain_record_activity :: "block_number \<Rightarrow> sidechain_info \<Rightarrow> sidechain_info" where
  "sidechain_record_activity b c =
     (let c' = c\<lparr>sci_last_activity := b\<rparr>
      in if sci_status c' = CS_Inactive then c'\<lparr>sci_status := CS_Active\<rparr> else c')"

definition sidechain_add_validator :: "account_id \<Rightarrow> sidechain_info \<Rightarrow> (chain_type_error, sidechain_info) result" where
  "sidechain_add_validator v c =
     (if MAX_VALIDATORS_PER_CHAIN \<le> card (sci_validators c) then Err TooManyValidators
      else Ok (c\<lparr>sci_validators := insert v (sci_validators c)\<rparr>))"

definition sidechain_remove_validator :: "account_id \<Rightarrow> sidechain_info \<Rightarrow> (chain_type_error, sidechain_info) result" where
  "sidechain_remove_validator v c =
     (if v \<in> sci_validators c then Ok (c\<lparr>sci_validators := sci_validators c - {v}\<rparr>) else Err CT_ValidatorNotFound)"

record hostchain_info =
  hci_id :: chain_id
  hci_creator :: account_id
  hci_member_chains :: "chain_id set"
  hci_validator_pool :: "account_id set"
  hci_created_at :: block_number

definition hostchain_new :: "chain_id \<Rightarrow> account_id \<Rightarrow> block_number \<Rightarrow> hostchain_info" where
  "hostchain_new cid creator created_at =
     \<lparr>hci_id = cid, hci_creator = creator, hci_member_chains = {}, hci_validator_pool = {}, hci_created_at = created_at\<rparr>"

definition host_add_member :: "chain_id \<Rightarrow> hostchain_info \<Rightarrow> (chain_type_error, hostchain_info) result" where
  "host_add_member c h =
     (if MAX_MEMBERS_PER_HOST \<le> card (hci_member_chains h) then Err TooManyMembers
      else Ok (h\<lparr>hci_member_chains := insert c (hci_member_chains h)\<rparr>))"

definition host_remove_member :: "chain_id \<Rightarrow> hostchain_info \<Rightarrow> (chain_type_error, hostchain_info) result" where
  "host_remove_member c h =
     (if c \<in> hci_member_chains h then Ok (h\<lparr>hci_member_chains := hci_member_chains h - {c}\<rparr>) else Err MemberNotFound)"

definition host_add_validator :: "account_id \<Rightarrow> hostchain_info \<Rightarrow> (chain_type_error, hostchain_info) result" where
  "host_add_validator v h =
     (if MAX_VALIDATORS_PER_HOST \<le> card (hci_validator_pool h) then Err TooManyValidators
      else Ok (h\<lparr>hci_validator_pool := insert v (hci_validator_pool h)\<rparr>))"

definition host_remove_validator :: "account_id \<Rightarrow> hostchain_info \<Rightarrow> (chain_type_error, hostchain_info) result" where
  "host_remove_validator v h =
     (if v \<in> hci_validator_pool h then Ok (h\<lparr>hci_validator_pool := hci_validator_pool h - {v}\<rparr>) else Err CT_ValidatorNotFound)"

definition calculate_deposit :: "security_mode \<Rightarrow> nat \<Rightarrow> balance" where
  "calculate_deposit security_mode hostchain_members =
     (case security_mode of
        Inherited \<Rightarrow> BASE_DEPOSIT
      | Shared \<Rightarrow> BASE_DEPOSIT * of_nat hostchain_members
      | Sovereign \<Rightarrow> SOVEREIGN_DEPOSIT)"

section \<open>Fraud proofs\<close>

datatype exit_violation =
    PrematureExit block_number block_number
  | ExpiredWithdrawal block_number block_number
  | InflatedBalance u128 u128
  | InvalidChainState string

datatype fraud_proof =
    InvalidStateTransition account_id account_info account_info merkle_proof merkle_proof block_number account_id
  | DoubleFinalization account_id block_header block_header signature64 signature64
  | InvalidExit chain_id sidechain_info exit_violation merkle_proof block_number

datatype fraud_proof_error =
    FP_InvalidMerkleProof | FP_InvalidSignature | BlocksNotConflicting | NoViolationDetected
  | FP_ValidatorNotFound account_id | FP_ChainNotFound chain_id | ExitViolationNotProven | FP_ProofExpired
  | InvalidProofStructure

datatype fraud_severity = FS_Minor | FS_Moderate | FS_Severe | FS_Critical

record fraud_proof_verification =
  fv_is_valid :: bool
  fv_accused :: account_id
  fv_severity :: fraud_severity
  fv_fraud_block :: block_number

fun accused_validator :: "fraud_proof \<Rightarrow> account_id" where
  "accused_validator (InvalidStateTransition _ _ _ _ _ _ validator) = validator"
| "accused_validator (DoubleFinalization validator _ _ _ _) = validator"
| "accused_validator (InvalidExit _ _ _ _ _) = 0"

fun fraud_block_number :: "fraud_proof \<Rightarrow> block_number" where
  "fraud_block_number (InvalidStateTransition _ _ _ _ _ n _) = n"
| "fraud_block_number (DoubleFinalization _ block_a _ _ _) = bh_number block_a"
| "fraud_block_number (InvalidExit _ _ _ _ n) = n"

fun affected_chain :: "fraud_proof \<Rightarrow> chain_id option" where
  "affected_chain (InvalidExit c _ _ _ _) = Some c"
| "affected_chain _ = None"

definition is_state_transition_invalid :: "account_info \<Rightarrow> account_info \<Rightarrow> bool" where
  "is_state_transition_invalid before after =
     (if ai_free before + 1000000000 < ai_free after then True
      else if ai_nonce after < ai_nonce before then True
      else if ai_nonce before + 1 < ai_nonce after then True
      else False)"

definition verify_invalid_state_transition ::
  "crypto \<Rightarrow> account_info \<Rightarrow> account_info \<Rightarrow> merkle_proof \<Rightarrow> merkle_proof \<Rightarrow> (fraud_proof_error, unit) result" where
  "verify_invalid_state_transition K before after p q =
     (if \<not> merkle_verify K p then Err FP_InvalidMerkleProof
      else if \<not> merkle_verify K q then Err FP_InvalidMerkleProof
      else if mp_block_number q \<noteq> mp_block_number p + 1 then Err InvalidProofStructure
      else if \<not> is_state_transition_invalid before after then Err NoViolationDetected
      else Ok ())"

definition verify_double_finalization ::
  "crypto \<Rightarrow> account_id \<Rightarrow> block_header \<Rightarrow> block_header \<Rightarrow> signature64 \<Rightarrow> signature64 \<Rightarrow> (fraud_proof_error, unit) result" where
  "verify_double_finalization K validator a b sig_a sig_b =
     (if bh_number a \<noteq> bh_number b then Err BlocksNotConflicting
      else if header_hash K a = header_hash K b then Err BlocksNotConflicting
      else if \<not> account_verify K validator (hash_bytes (header_hash K a)) sig_a then Err FP_InvalidSignature
      else if \<not> account_verify K validator (hash_bytes (header_hash K b)) sig_b then Err FP_InvalidSignature
      else Ok ())"

definition verify_invalid_exit :: "crypto \<Rightarrow> exit_violation \<Rightarrow> merkle_proof \<Rightarrow> (fraud_proof_error, unit) result" where
  "verify_invalid_exit K violation p =
     (if \<not> merkle_verify K p then Err FP_InvalidMerkleProof
      else case violation of
          PrematureExit actual_start claimed_start \<Rightarrow> if claimed_start < actual_start then Ok () else Err ExitViolationNotProven
        | ExpiredWithdrawal window_end attempt \<Rightarrow> if window_end < attempt then Ok () else Err ExitViolationNotProven
        | InflatedBalance actual claimed \<Rightarrow> if actual < claimed then Ok () else Err ExitViolationNotProven
        | InvalidChainState _ \<Rightarrow> Ok ())"

fun fraud_verify :: "crypto \<Rightarrow> fraud_proof \<Rightarrow> (fraud_proof_error, unit) result" where
  "fraud_verify K (InvalidStateTransition _ before after p q _ _) = verify_invalid_state_transition K before after p q"
| "fraud_verify K (DoubleFinalization v a b sa sb) = verify_double_finalization K v a b sa sb"
| "fraud_verify K (InvalidExit _ _ violation p _) = verify_invalid_exit K violation p"

fun slash_percentage :: "fraud_severity \<Rightarrow> u8" where
  "slash_percentage FS_Minor = 5"
| "slash_percentage FS_Moderate = 15"
| "slash_percentage FS_Severe = 33"
| "slash_percentage FS_Critical = 100"

fun from_fraud_proof :: "fraud_proof \<Rightarrow> fraud_severity" where
  "from_fraud_proof (DoubleFinalization _ _ _ _ _) = FS_Critical"
| "from_fraud_proof (InvalidStateTransition _ _ _ _ _ _ _) = FS_Severe"
| "from_fraud_proof (InvalidExit _ _ (InflatedBalance _ _) _ _) = FS_Critical"
| "from_fraud_proof (InvalidExit _ _ (InvalidChainState _) _ _) = FS_Severe"
| "from_fraud_proof (InvalidExit _ _ (PrematureExit _ _) _ _) = FS_Moderate"
| "from_fraud_proof (InvalidExit _ _ (ExpiredWithdrawal _ _) _ _) = FS_Minor"

section \<open>The registry\<close>

datatype withdrawal_type = OwnerDeposit | UserBalance | EmergencyOwner | Emergency

record withdrawal_result =
  wd_chain_id :: chain_id
  wd_recipient :: account_id
  wd_amount :: balance
  wd_withdrawal_type :: withdrawal_type

datatype chain_error =
    InsufficientDeposit | ChainNotFound | ParentNotFound | HostNotFound | ChainNotInactive | NotAffiliated
  | InvalidSecurityMode | InvalidState | FraudProofInvalid fraud_proof_error | FraudProofExpired | ChainUnauthorized
  | AlreadyWithdrawn | RequiresMerkleProof | NoSnapshotStateRoot | InvalidMerkleProof | ChainTypeError chain_type_error

record chain_registry =
  chr_sidechains :: "(chain_id, sidechain_info) hmap"
  chr_hostchains :: "(chain_id, hostchain_info) hmap"
  chr_sidechain_to_host :: "(chain_id, chain_id) hmap"
  chr_next_chain_id :: u32
  chr_last_purge_check :: block_number

type_synonym 'a chain_action = "(chain_registry, chain_error, 'a) action"

definition chain_registry_new :: chain_registry where
  "chain_registry_new =
     \<lparr>chr_sidechains = [], chr_hostchains = [], chr_sidechain_to_host = [], chr_next_chain_id = 1, chr_last_purge_check = 0\<rparr>"

definition put_chain :: "chain_id \<Rightarrow> sidechain_info \<Rightarrow> chain_registry \<Rightarrow> chain_registry" where
  "put_chain cid c R = R\<lparr>chr_sidechains := hm_insert cid c (chr_sidechains R)\<rparr>"

definition put_host :: "chain_id \<Rightarrow> hostchain_info \<Rightarrow> chain_registry \<Rightarrow> chain_registry" where
  "put_host cid h R = R\<lparr>chr_hostchains := hm_insert cid h (chr_hostchains R)\<rparr>"

abbreviation chain_of :: "chain_registry \<Rightarrow> chain_id \<Rightarrow> sidechain_info option" where
  "chain_of R \<equiv> hm_get (chr_sidechains R)"

abbreviation hostchain_of :: "chain_registry \<Rightarrow> chain_id \<Rightarrow> hostchain_info option" where
  "hostchain_of R \<equiv> hm_get (chr_hostchains R)"

abbreviation affiliation :: "chain_registry \<Rightarrow> chain_id \<Rightarrow> chain_id option" where
  "affiliation R \<equiv> hm_get (chr_sidechain_to_host R)"

text \<open>\<open>get_mut(&cid).ok_or(ChainNotFound)?\<close> followed by a change of the entry.\<close>

definition modify_chain :: "chain_id \<Rightarrow> (sidechain_info \<Rightarrow> sidechain_info) \<Rightarrow> unit chain_action" where
  "modify_chain cid f R =
     (case chain_of R cid of None \<Rightarrow> (Err ChainNotFound, R) | Some c \<Rightarrow> (Ok (), put_chain cid (f c) R))"

definition affiliate_sidechain :: "chain_id \<Rightarrow> chain_id \<Rightarrow> unit chain_action" where
  "affiliate_sidechain sidechain_id host_id R =
     (if \<not> hm_contains (chr_sidechains R) sidechain_id then (Err ChainNotFound, R)
      else case hostchain_of R host_id of
          None \<Rightarrow> (Err HostNotFound, R)
        | Some h \<Rightarrow>
            (case host_add_member sidechain_id h of
               Inl e \<Rightarrow> (Err (ChainTypeError e), R)
             | Inr h' \<Rightarrow> (Ok (), (put_host host_id h' R)\<lparr>chr_sidechain_to_host :=
                  hm_insert sidechain_id host_id (chr_sidechain_to_host R)\<rparr>)))"

definition leave_host :: "chain_id \<Rightarrow> unit chain_action" where
  "leave_host sidechain_id R =
     (case affiliation R sidechain_id of
        None \<Rightarrow> (Err NotAffiliated, R)
      | Some host_id \<Rightarrow>
          let R' = R\<lparr>chr_sidechain_to_host := hm_remove sidechain_id (chr_sidechain_to_host R)\<rparr>
          in case hostchain_of R' host_id of
               None \<Rightarrow> (Err HostNotFound, R')
             | Some h \<Rightarrow>
                 (case host_remove_member sidechain_id h of
                    Inl e \<Rightarrow> (Err (ChainTypeError e), R')
                  | Inr h' \<Rightarrow> (Ok (), put_host host_id h' R')))"

definition assign_validators :: "chain_id \<Rightarrow> account_id list chain_action" where
  "assign_validators cid R =
     (case chain_of R cid of
        None \<Rightarrow> (Err ChainNotFound, R)
      | Some c \<Rightarrow>
          (case sci_security_mode c of
             Inherited \<Rightarrow>
               (case sci_parent c of
                  None \<Rightarrow> (Err ParentNotFound, R)
                | Some parent_id \<Rightarrow>
                    (case chain_of R parent_id of
                       None \<Rightarrow> (Err ParentNotFound, R)
                     | Some p \<Rightarrow> (Ok (sorted_list_of_set (sci_validators p)),
                         put_chain cid (c\<lparr>sci_validators := sci_validators p\<rparr>) R)))
           | Shared \<Rightarrow>
               (case Option.bind (affiliation R cid) (hostchain_of R) of
                  None \<Rightarrow> (Err HostNotFound, R)
                | Some h \<Rightarrow> (Ok (sorted_list_of_set (hci_validator_pool h)),
                    put_chain cid (c\<lparr>sci_validators := hci_validator_pool h\<rparr>) R))
           | Sovereign \<Rightarrow> (Ok (sorted_list_of_set (sci_validators c)), R)))"

definition required_deposit :: "security_mode \<Rightarrow> chain_id option \<Rightarrow> chain_registry \<Rightarrow> (chain_error, balance) result" where
  "required_deposit security_mode host_id R =
     (case security_mode of
        Inherited \<Rightarrow> Ok BASE_DEPOSIT
      | Shared \<Rightarrow>
          (case Option.bind host_id (hostchain_of R) of
             None \<Rightarrow> Err HostNotFound
           | Some h \<Rightarrow> Ok (calculate_deposit security_mode (card (hci_member_chains h))))
      | Sovereign \<Rightarrow> Ok SOVEREIGN_DEPOSIT)"

definition create_sidechain ::
  "account_id \<Rightarrow> string option \<Rightarrow> string option \<Rightarrow> chain_id option \<Rightarrow> security_mode \<Rightarrow> chain_id option \<Rightarrow> balance \<Rightarrow> block_number \<Rightarrow> chain_id chain_action" where
  "create_sidechain owner name description parent security_mode host_id deposit b R =
     (case required_deposit security_mode host_id R of
        Inl e \<Rightarrow> (Err e, R)
      | Inr required \<Rightarrow>
          if deposit < required then (Err InsufficientDeposit, R)
          else if (case parent of None \<Rightarrow> False | Some p \<Rightarrow> \<not> hm_contains (chr_sidechains R) p) then (Err ParentNotFound, R)
          else
            let cid = chr_next_chain_id R;
                R1 = put_chain cid (sidechain_new cid parent owner name description security_mode deposit b)
                       (R\<lparr>chr_next_chain_id := chr_next_chain_id R + 1\<rparr>)
            in andThen
                 (if security_mode = Shared then (case host_id of None \<Rightarrow> ret () | Some host \<Rightarrow> affiliate_sidechain cid host) else ret ())
                 (\<lambda>_. andThen (if security_mode \<noteq> Sovereign then assign_validators cid else ret []) (\<lambda>_. ret cid)) R1)"

definition record_chain_activity :: "chain_id \<Rightarrow> block_number \<Rightarrow> unit chain_action" where
  "record_chain_activity cid b = modify_chain cid (sidechain_record_activity b)"

definition remove_from_host :: "chain_id \<Rightarrow> chain_registry \<Rightarrow> chain_registry" where
  "remove_from_host cid R =
     (case affiliation R cid of
        None \<Rightarrow> R
      | Some host_id \<Rightarrow>
          let R' = R\<lparr>chr_sidechain_to_host := hm_remove cid (chr_sidechain_to_host R)\<rparr>
          in case hostchain_of R' host_id of
               None \<Rightarrow> R'
             | Some h \<Rightarrow> (case host_remove_member cid h of Inl _ \<Rightarrow> R' | Inr h' \<Rightarrow> put_host host_id h' R'))"

definition purge_sidechain :: "chain_id \<Rightarrow> block_number \<Rightarrow> balance chain_action" where
  "purge_sidechain cid current_block R =
     (case chain_of R cid of
        None \<Rightarrow> (Err ChainNotFound, R)
      | Some c \<Rightarrow>
          if \<not> chain_is_inactive current_block INACTIVITY_THRESHOLD c then (Err ChainNotInactive, R)
          else (Ok (sci_deposit c), remove_from_host cid (put_chain cid (c\<lparr>sci_status := CS_Purged\<rparr>) R)))"

fun purge_each :: "block_number \<Rightarrow> chain_id list \<Rightarrow> chain_registry \<Rightarrow> chain_id list \<times> chain_registry" where
  "purge_each b [] R = ([], R)"
| "purge_each b (cid # cids) R =
     (let (r, R') = purge_sidechain cid b R; (purged, R'') = purge_each b cids R'
      in (if is_ok r then cid # purged else purged, R''))"

definition auto_purge_inactive :: "(chain_id list \<Rightarrow> chain_id list) \<Rightarrow> block_number \<Rightarrow> chain_registry \<Rightarrow> chain_id list \<times> chain_registry" where
  "auto_purge_inactive walk current_block R =
     (if current_block < chr_last_purge_check R + PURGE_CHECK_INTERVAL then ([], R)
      else
        let R1 = R\<lparr>chr_last_purge_check := current_block\<rparr>
        in purge_each current_block
             (filter (\<lambda>cid. case chain_of R1 cid of None \<Rightarrow> False
                | Some c \<Rightarrow> sci_status c = CS_Active \<and> chain_is_inactive current_block INACTIVITY_THRESHOLD c)
               (walk (hm_keys (chr_sidechains R1)))) R1)"

definition create_hostchain :: "account_id \<Rightarrow> block_number \<Rightarrow> chain_registry \<Rightarrow> chain_id \<times> chain_registry" where
  "create_hostchain creator b R =
     (let cid = chr_next_chain_id R
      in (cid, put_host cid (hostchain_new cid creator b) (R\<lparr>chr_next_chain_id := chr_next_chain_id R + 1\<rparr>)))"

definition add_validator_to_chain :: "chain_id \<Rightarrow> account_id \<Rightarrow> unit chain_action" where
  "add_validator_to_chain cid validator R =
     (case chain_of R cid of
        None \<Rightarrow> (Err ChainNotFound, R)
      | Some c \<Rightarrow>
          if sci_security_mode c \<noteq> Sovereign then (Err InvalidSecurityMode, R)
          else case sidechain_add_validator validator c of
                 Inl e \<Rightarrow> (Err (ChainTypeError e), R) | Inr c' \<Rightarrow> (Ok (), put_chain cid c' R))"

definition remove_validator_from_chain :: "chain_id \<Rightarrow> account_id \<Rightarrow> unit chain_action" where
  "remove_validator_from_chain cid validator R =
     (case chain_of R cid of
        None \<Rightarrow> (Err ChainNotFound, R)
      | Some c \<Rightarrow>
          if sci_security_mode c \<noteq> Sovereign then (Err InvalidSecurityMode, R)
          else case sidechain_remove_validator validator c of
                 Inl e \<Rightarrow> (Err (ChainTypeError e), R) | Inr c' \<Rightarrow> (Ok (), put_chain cid c' R))"

fun assign_each :: "chain_id list \<Rightarrow> unit chain_action" where
  "assign_each [] = ret ()"
| "assign_each (cid # cids) = andThen (assign_validators cid) (\<lambda>_. assign_each cids)"

definition affiliated_chains :: "(chain_id list \<Rightarrow> chain_id list) \<Rightarrow> chain_id \<Rightarrow> chain_registry \<Rightarrow> chain_id list" where
  "affiliated_chains walk host_id R =
     filter (\<lambda>c. affiliation R c = Some host_id) (walk (hm_keys (chr_sidechain_to_host R)))"

definition add_validator_to_hostchain :: "(chain_id list \<Rightarrow> chain_id list) \<Rightarrow> chain_id \<Rightarrow> account_id \<Rightarrow> unit chain_action" where
  "add_validator_to_hostchain walk host_id validator R =
     (case hostchain_of R host_id of
        None \<Rightarrow> (Err HostNotFound, R)
      | Some h \<Rightarrow>
          (case host_add_validator validator h of
             Inl e \<Rightarrow> (Err (ChainTypeError e), R)
           | Inr h' \<Rightarrow> let R1 = put_host host_id h' R in assign_each (affiliated_chains walk host_id R1) R1))"

definition remove_validator_from_hostchain :: "(chain_id list \<Rightarrow> chain_id list) \<Rightarrow> chain_id \<Rightarrow> account_id \<Rightarrow> unit chain_action" where
  "remove_validator_from_hostchain walk host_id validator R =
     (case hostchain_of R host_id of
        None \<Rightarrow> (Err HostNotFound, R)
      | Some h \<Rightarrow>
          (case host_remove_validator validator h of
             Inl e \<Rightarrow> (Err (ChainTypeError e), R)
           | Inr h' \<Rightarrow> let R1 = put_host host_id h' R in assign_each (affiliated_chains walk host_id R1) R1))"

section \<open>The purge state machine\<close>

definition check_purge_triggers :: "chain_id \<Rightarrow> block_number \<Rightarrow> chain_registry \<Rightarrow> purge_trigger option" where
  "check_purge_triggers cid current_block R =
     (case chain_of R cid of
        None \<Rightarrow> None
      | Some c \<Rightarrow>
          if chain_is_inactive current_block INACTIVITY_THRESHOLD_V3_1 c then Some PT_Inactivity
          else if GOVERNANCE_FAILURE_THRESHOLD \<le> sci_governance_failures c then Some PT_GovernanceFailure
          else if sci_validators c \<noteq> {} \<and>
            sat_mul (of_nat (card (sci_validators c))) VALIDATOR_FRAUD_THRESHOLD_PERCENT
              \<le> sat_mul (sci_slashed_validators_count c) 100 then Some PT_ValidatorFraud
          else if sci_state_divergence_detected_at c \<noteq> None then Some PT_StateDivergence
          else None)"

definition trigger_purge :: "chain_id \<Rightarrow> purge_trigger \<Rightarrow> block_number \<Rightarrow> unit chain_action" where
  "trigger_purge cid trigger current_block R =
     (case chain_of R cid of
        None \<Rightarrow> (Err ChainNotFound, R)
      | Some c \<Rightarrow>
          if \<not> (sci_status c = CS_Active \<or> sci_status c = CS_Inactive) then (Err InvalidState, R)
          else (Ok (), put_chain cid (c\<lparr>sci_status := CS_PendingPurge, sci_purge_triggered_at := Some current_block,
                  sci_purge_trigger := Some trigger\<rparr>) R))"

definition advance_purge_state :: "chain_id \<Rightarrow> block_number \<Rightarrow> chain_status chain_action" where
  "advance_purge_state cid current_block R =
     (case chain_of R cid of
        None \<Rightarrow> (Err ChainNotFound, R)
      | Some c \<Rightarrow>
          (case sci_status c of
             CS_PendingPurge \<Rightarrow>
               (case sci_purge_triggered_at c of
                  None \<Rightarrow> (Ok CS_PendingPurge, R)
                | Some triggered_at \<Rightarrow>
                    if triggered_at + PURGE_WARNING_PERIOD \<le> current_block
                    then (Ok CS_Frozen, put_chain cid (c\<lparr>sci_status := CS_Frozen, sci_frozen_at := Some current_block\<rparr>) R)
                    else (Ok CS_PendingPurge, R))
           | CS_Frozen \<Rightarrow>
               let final_root = (case sci_snapshot_state_root c of
                                   None \<Rightarrow> sci_last_verified_state_root c | Some r \<Rightarrow> Some r)
               in (Ok CS_Snapshot, put_chain cid (c\<lparr>sci_snapshot_state_root := final_root, sci_status := CS_Snapshot,
                     sci_snapshot_at := Some current_block\<rparr>) R)
           | CS_Snapshot \<Rightarrow>
               (Ok CS_WithdrawalWindow, put_chain cid (c\<lparr>sci_status := CS_WithdrawalWindow,
                  sci_withdrawal_window_start := Some current_block\<rparr>) R)
           | CS_WithdrawalWindow \<Rightarrow>
               (case sci_withdrawal_window_start c of
                  None \<Rightarrow> (Ok CS_WithdrawalWindow, R)
                | Some window_start \<Rightarrow>
                    if window_start + WITHDRAWAL_WINDOW_DURATION \<le> current_block
                    then (Ok CS_Purged, remove_from_host cid (put_chain cid (c\<lparr>sci_status := CS_Purged\<rparr>) R))
                    else (Ok CS_WithdrawalWindow, R))
           | status \<Rightarrow> (Ok status, R)))"

fun advance_loop :: "nat \<Rightarrow> chain_id \<Rightarrow> block_number \<Rightarrow> chain_registry \<Rightarrow> chain_registry" where
  "advance_loop 0 cid b R = R"
| "advance_loop (Suc n) cid b R =
     (case chain_of R cid of
        None \<Rightarrow> R
      | Some c \<Rightarrow>
          (case advance_purge_state cid b R of
             (Inl _, R') \<Rightarrow> R'
           | (Inr _, R') \<Rightarrow>
               (case chain_of R' cid of
                  None \<Rightarrow> R'
                | Some c' \<Rightarrow> if sci_status c = sci_status c' then R' else advance_loop n cid b R')))"

definition purge_one :: "block_number \<Rightarrow> chain_id \<Rightarrow> chain_registry \<Rightarrow> (chain_id \<times> purge_trigger) list \<times> chain_registry" where
  "purge_one b cid R =
     (let (triggered, R1) =
        (case chain_of R cid of
           None \<Rightarrow> ([], R)
         | Some c \<Rightarrow>
             if sci_status c = CS_Active \<or> sci_status c = CS_Inactive
             then (case check_purge_triggers cid b R of
                     None \<Rightarrow> ([], R)
                   | Some trigger \<Rightarrow>
                       let (r, R') = trigger_purge cid trigger b R in (if is_ok r then [(cid, trigger)] else [], R'))
             else ([], R))
      in (triggered, advance_loop 5 cid b R1))"

fun purge_all :: "block_number \<Rightarrow> chain_id list \<Rightarrow> chain_registry \<Rightarrow> (chain_id \<times> purge_trigger) list \<times> chain_registry" where
  "purge_all b [] R = ([], R)"
| "purge_all b (cid # cids) R =
     (let (new, R') = purge_one b cid R; (more, R'') = purge_all b cids R' in (new @ more, R''))"

definition auto_purge_v3_1 ::
  "(chain_id list \<Rightarrow> chain_id list) \<Rightarrow> block_number \<Rightarrow> chain_registry \<Rightarrow> (chain_id \<times> purge_trigger) list \<times> chain_registry" where
  "auto_purge_v3_1 walk current_block R =
     (if current_block < chr_last_purge_check R + PURGE_CHECK_INTERVAL then ([], R)
      else
        let R1 = R\<lparr>chr_last_purge_check := current_block\<rparr>
        in purge_all current_block (walk (hm_keys (chr_sidechains R1))) R1)"

section \<open>Reports, fraud and withdrawals\<close>

definition record_governance_failure :: "chain_id \<Rightarrow> unit chain_action" where
  "record_governance_failure cid =
     modify_chain cid (\<lambda>c. c\<lparr>sci_governance_failures := sci_governance_failures c + 1\<rparr>)"

definition reset_governance_failures :: "chain_id \<Rightarrow> unit chain_action" where
  "reset_governance_failures cid = modify_chain cid (\<lambda>c. c\<lparr>sci_governance_failures := 0\<rparr>)"

definition chain_slash_validator :: "chain_id \<Rightarrow> account_id \<Rightarrow> unit chain_action" where
  "chain_slash_validator cid validator =
     modify_chain cid (\<lambda>c. c\<lparr>sci_slashed_validators_count := sci_slashed_validators_count c + 1\<rparr>)"

definition update_verified_state_root :: "chain_id \<Rightarrow> hash \<Rightarrow> unit chain_action" where
  "update_verified_state_root cid state_root =
     modify_chain cid (\<lambda>c. c\<lparr>sci_last_verified_state_root := Some state_root\<rparr>)"

definition report_state_divergence :: "chain_id \<Rightarrow> block_number \<Rightarrow> account_id \<Rightarrow> unit chain_action" where
  "report_state_divergence cid block_number reporter R =
     (case chain_of R cid of
        None \<Rightarrow> (Err ChainNotFound, R)
      | Some c \<Rightarrow>
          let is_parent_validator = (case Option.bind (sci_parent c) (chain_of R) of
                None \<Rightarrow> False | Some p \<Rightarrow> reporter \<in> sci_validators p)
          in if \<not> (reporter \<in> sci_validators c \<or> is_parent_validator \<or> sci_owner c = reporter) then (Err ChainUnauthorized, R)
             else (Ok (), put_chain cid (if sci_state_divergence_detected_at c = None
                     then c\<lparr>sci_state_divergence_detected_at := Some block_number\<rparr> else c) R))"

definition set_snapshot_state_root :: "chain_id \<Rightarrow> hash \<Rightarrow> unit chain_action" where
  "set_snapshot_state_root cid state_root_hash R =
     (case chain_of R cid of
        None \<Rightarrow> (Err ChainNotFound, R)
      | Some c \<Rightarrow>
          if sci_status c \<noteq> CS_Snapshot then (Err InvalidState, R)
          else (Ok (), put_chain cid (c\<lparr>sci_snapshot_state_root := Some state_root_hash\<rparr>) R))"

definition verify_fraud_proof :: "crypto \<Rightarrow> fraud_proof \<Rightarrow> block_number \<Rightarrow> fraud_proof_verification chain_action" where
  "verify_fraud_proof K proof current_block R =
     (case fraud_verify K proof of
        Inl e \<Rightarrow> (Err (FraudProofInvalid e), R)
      | Inr _ \<Rightarrow>
          if fraud_block_number proof + FRAUD_PROOF_VALIDITY_PERIOD < current_block then (Err FraudProofExpired, R)
          else andThen
                 (case affected_chain proof of None \<Rightarrow> ret () | Some cid \<Rightarrow> chain_slash_validator cid (accused_validator proof))
                 (\<lambda>_. ret \<lparr>fv_is_valid = True, fv_accused = accused_validator proof, fv_severity = from_fraud_proof proof,
                    fv_fraud_block = fraud_block_number proof\<rparr>) R)"

definition apply_fraud_proof :: "crypto \<Rightarrow> fraud_proof \<Rightarrow> block_number \<Rightarrow> bool chain_action" where
  "apply_fraud_proof K proof current_block =
     andThen (verify_fraud_proof K proof current_block) (\<lambda>_.
       case affected_chain proof of
         None \<Rightarrow> ret False
       | Some cid \<Rightarrow> (\<lambda>R.
           case chain_of R cid of
             None \<Rightarrow> (Err ChainNotFound, R)
           | Some c \<Rightarrow>
               if card (sci_validators c) = 0 then (Ok False, R)
               else if VALIDATOR_FRAUD_THRESHOLD_PERCENT
                    \<le> (sci_slashed_validators_count c * 100) div of_nat (card (sci_validators c))
               then andThen (trigger_purge cid PT_ValidatorFraud current_block) (\<lambda>_. ret True) R
               else (Ok False, R)))"

definition withdraw_from_purged_chain :: "chain_id \<Rightarrow> account_id \<Rightarrow> withdrawal_result chain_action" where
  "withdraw_from_purged_chain cid owner R =
     (case chain_of R cid of
        None \<Rightarrow> (Err ChainNotFound, R)
      | Some c \<Rightarrow>
          if sci_status c \<noteq> CS_WithdrawalWindow then (Err InvalidState, R)
          else if owner \<in> sci_withdrawn_accounts c then (Err AlreadyWithdrawn, R)
          else if owner \<noteq> sci_owner c then (Err RequiresMerkleProof, R)
          else (Ok \<lparr>wd_chain_id = cid, wd_recipient = owner, wd_amount = sci_deposit c, wd_withdrawal_type = OwnerDeposit\<rparr>,
                put_chain cid (c\<lparr>sci_withdrawn_accounts := insert owner (sci_withdrawn_accounts c)\<rparr>) R))"

definition withdraw_with_proof :: "crypto \<Rightarrow> chain_id \<Rightarrow> account_id \<Rightarrow> balance \<Rightarrow> merkle_proof \<Rightarrow> withdrawal_result chain_action" where
  "withdraw_with_proof K cid account amount proof R =
     (case chain_of R cid of
        None \<Rightarrow> (Err ChainNotFound, R)
      | Some c \<Rightarrow>
          if sci_status c \<noteq> CS_WithdrawalWindow then (Err InvalidState, R)
          else if account \<in> sci_withdrawn_accounts c then (Err AlreadyWithdrawn, R)
          else case sci_snapshot_state_root c of
                 None \<Rightarrow> (Err NoSnapshotStateRoot, R)
               | Some snapshot_root \<Rightarrow>
                   if \<not> merkle_verify K proof \<or> mp_root proof \<noteq> snapshot_root then (Err InvalidMerkleProof, R)
                   else (Ok \<lparr>wd_chain_id = cid, wd_recipient = account, wd_amount = amount, wd_withdrawal_type = UserBalance\<rparr>,
                         put_chain cid (c\<lparr>sci_withdrawn_accounts := insert account (sci_withdrawn_accounts c)\<rparr>) R))"

definition emergency_amount :: "crypto \<Rightarrow> balance \<Rightarrow> merkle_proof option \<Rightarrow> sidechain_info \<Rightarrow> balance" where
  "emergency_amount K amount proof c =
     (case proof of
        None \<Rightarrow> amount div 2
      | Some p \<Rightarrow>
          (case sci_snapshot_state_root c of
             None \<Rightarrow> amount
           | Some snapshot_root \<Rightarrow> if merkle_verify K p \<and> mp_root p = snapshot_root then amount else amount div 2))"

definition emergency_exit :: "crypto \<Rightarrow> chain_id \<Rightarrow> account_id \<Rightarrow> balance \<Rightarrow> merkle_proof option \<Rightarrow> withdrawal_result chain_action" where
  "emergency_exit K cid account amount proof R =
     (case chain_of R cid of
        None \<Rightarrow> (Err ChainNotFound, R)
      | Some c \<Rightarrow>
          if account \<in> sci_withdrawn_accounts c then (Err AlreadyWithdrawn, R)
          else
            let R' = put_chain cid (c\<lparr>sci_withdrawn_accounts := insert account (sci_withdrawn_accounts c)\<rparr>) R
            in if account = sci_owner c
               then (Ok \<lparr>wd_chain_id = cid, wd_recipient = account, wd_amount = sci_deposit c, wd_withdrawal_type = EmergencyOwner\<rparr>, R')
               else (Ok \<lparr>wd_chain_id = cid, wd_recipient = account, wd_amount = emergency_amount K amount proof c,
                        wd_withdrawal_type = Emergency\<rparr>, R'))"

end
