(* ===== verification/Kratos_Purge.thy ===== *)
theory Kratos_Purge
  imports Kratos_Chains
begin

text \<open>
  Correctness of the chain registry of \<^verbatim>\<open>contracts/sidechains.rs\<close> over whole histories of
  operations: its well-formedness, the notice a chain gets before it is purged, the purge loop,
  and withdrawals.  Every operation is a sequence of changes to one chain or one host; the
  relation \<open>keeps\<close> says what all of them respect and is transitive.
\<close>

section \<open>Sequences of operations\<close>

datatype chain_op =
    Op_CreateSidechain account_id "string option" "string option" "chain_id option" security_mode "chain_id option" balance
  | Op_RecordActivity chain_id
  | Op_PurgeSidechain chain_id
  | Op_AutoPurgeInactive
  | Op_CreateHostchain account_id
  | Op_Affiliate chain_id chain_id
  | Op_LeaveHost chain_id
  | Op_AssignValidators chain_id
  | Op_AddValidator chain_id account_id
  | Op_RemoveValidator chain_id account_id
  | Op_AddHostValidator chain_id account_id
  | Op_RemoveHostValidator chain_id account_id
  | Op_TriggerPurge chain_id purge_trigger
  | Op_AdvancePurge chain_id
  | Op_AutoPurge
  | Op_GovernanceFailure chain_id
  | Op_GovernanceReset chain_id
  | Op_SlashValidator chain_id account_id
  | Op_VerifiedRoot chain_id hash
  | Op_ReportDivergence chain_id block_number account_id
  | Op_SnapshotRoot chain_id hash
  | Op_VerifyFraud fraud_proof
  | Op_ApplyFraud fraud_proof
  | Op_Withdraw chain_id account_id
  | Op_WithdrawProof chain_id account_id balance merkle_proof
  | Op_EmergencyExit chain_id account_id balance "merkle_proof option"

text \<open>What an operation hands to its caller: the result of a withdrawal, or the deposit that
  \<open>purge_sidechain\<close> returns.\<close>

datatype payout = Withdrawn withdrawal_result | DepositReturned chain_id balance

fun withdrawal_of :: "payout \<Rightarrow> withdrawal_result option" where
  "withdrawal_of (Withdrawn w) = Some w"
| "withdrawal_of (DepositReturned i amount) = None"

definition paid :: "('a \<Rightarrow> payout) \<Rightarrow> (chain_error, 'a) result \<times> chain_registry \<Rightarrow> payout option \<times> chain_registry" where
  "paid f r = (case fst r of Inl _ \<Rightarrow> None | Inr w \<Rightarrow> Some (f w), snd r)"

fun chain_exec ::
  "crypto \<Rightarrow> (chain_id list \<Rightarrow> chain_id list) \<Rightarrow> block_number \<Rightarrow> chain_op \<Rightarrow> chain_registry \<Rightarrow> payout option \<times> chain_registry" where
  "chain_exec K walk b (Op_CreateSidechain a n d p m h dep) R = (None, snd (create_sidechain a n d p m h dep b R))"
| "chain_exec K walk b (Op_RecordActivity i) R = (None, snd (record_chain_activity i b R))"
| "chain_exec K walk b (Op_PurgeSidechain i) R = paid (DepositReturned i) (purge_sidechain i b R)"
| "chain_exec K walk b Op_AutoPurgeInactive R = (None, snd (auto_purge_inactive walk b R))"
| "chain_exec K walk b (Op_CreateHostchain a) R = (None, snd (create_hostchain a b R))"
| "chain_exec K walk b (Op_Affiliate i h) R = (None, snd (affiliate_sidechain i h R))"
| "chain_exec K walk b (Op_LeaveHost i) R = (None, snd (leave_host i R))"
| "chain_exec K walk b (Op_AssignValidators i) R = (None, snd (assign_validators i R))"
| "chain_exec K walk b (Op_AddValidator i v) R = (None, snd (add_validator_to_chain i v R))"
| "chain_exec K walk b (Op_RemoveValidator i v) R = (None, snd (remove_validator_from_chain i v R))"
| "chain_exec K walk b (Op_AddHostValidator h v) R = (None, snd (add_validator_to_hostchain walk h v R))"
| "chain_exec K walk b (Op_RemoveHostValidator h v) R = (None, snd (remove_validator_from_hostchain walk h v R))"
| "chain_exec K walk b (Op_TriggerPurge i t) R = (None, snd (trigger_purge i t b R))"
| "chain_exec K walk b (Op_AdvancePurge i) R = (None, snd (advance_purge_state i b R))"
| "chain_exec K walk b Op_AutoPurge R = (None, snd (auto_purge_v3_1 walk b R))"
| "chain_exec K walk b (Op_GovernanceFailure i) R = (None, snd (record_governance_failure i R))"
| "chain_exec K walk b (Op_GovernanceReset i) R = (None, snd (reset_governance_failures i R))"
| "chain_exec K walk b (Op_SlashValidator i v) R = (None, snd (chain_slash_validator i v R))"
| "chain_exec K walk b (Op_VerifiedRoot i r) R = (None, snd (update_verified_state_root i r R))"
| "chain_exec K walk b (Op_ReportDivergence i n a) R = (None, snd (report_state_divergence i n a R))"
| "chain_exec K walk b (Op_SnapshotRoot i r) R = (None, snd (set_snapshot_state_root i r R))"
| "chain_exec K walk b (Op_VerifyFraud p) R = (None, snd (verify_fraud_proof K p b R))"
| "chain_exec K walk b (Op_ApplyFraud p) R = (None, snd (apply_fraud_proof K p b R))"
| "chain_exec K walk b (Op_Withdraw i a) R = paid Withdrawn (withdraw_from_purged_chain i a R)"
| "chain_exec K walk b (Op_WithdrawProof i a x p) R = paid Withdrawn (withdraw_with_proof K i a x p R)"
| "chain_exec K walk b (Op_EmergencyExit i a x p) R = paid Withdrawn (emergency_exit K i a x p R)"

text \<open>A history: operations with the block in which each runs; the payouts it makes and the final registry.\<close>

fun chain_run ::
  "crypto \<Rightarrow> (chain_id list \<Rightarrow> chain_id list) \<Rightarrow> (block_number \<times> chain_op) list \<Rightarrow> chain_registry \<Rightarrow> payout list \<times> chain_registry" where
  "chain_run K walk [] R = ([], R)"
| "chain_run K walk ((b, op) # ops) R =
     (let (w, R') = chain_exec K walk b op R; (ws, R'') = chain_run K walk ops R'
      in ((case w of None \<Rightarrow> [] | Some x \<Rightarrow> [x]) @ ws, R''))"

section \<open>What every operation keeps\<close>

text \<open>The documented limit of a sidechain is 100 validators; the code enforces it for sovereign chains
  only, the others take over the validators of their parent or host.\<close>

definition validator_limit :: "sidechain_info \<Rightarrow> nat" where
  "validator_limit c = (if sci_security_mode c = Sovereign then MAX_VALIDATORS_PER_CHAIN else MAX_VALIDATORS_PER_HOST)"

lemma validator_limit_le: "validator_limit c \<le> MAX_VALIDATORS_PER_HOST"
  by (simp add: validator_limit_def const_defs)

lemma validator_limit_cong: "sci_security_mode c' = sci_security_mode c \<Longrightarrow> validator_limit c' = validator_limit c"
  by (simp add: validator_limit_def)

definition chain_entry_ok :: "chain_registry \<Rightarrow> chain_id \<Rightarrow> sidechain_info \<Rightarrow> bool" where
  "chain_entry_ok R i c \<longleftrightarrow>
     sci_id c = i \<and> 0 < i \<and> i < chr_next_chain_id R \<and> finite (sci_validators c) \<and> card (sci_validators c) \<le> validator_limit c \<and>
     (\<forall>p. sci_parent c = Some p \<longrightarrow> p < i \<and> chain_of R p \<noteq> None)"

definition host_entry_ok :: "chain_registry \<Rightarrow> chain_id \<Rightarrow> hostchain_info \<Rightarrow> bool" where
  "host_entry_ok R i h \<longleftrightarrow>
     hci_id h = i \<and> 0 < i \<and> i < chr_next_chain_id R \<and> chain_of R i = None \<and>
     finite (hci_validator_pool h) \<and> card (hci_validator_pool h) \<le> MAX_VALIDATORS_PER_HOST \<and>
     finite (hci_member_chains h) \<and> card (hci_member_chains h) \<le> MAX_MEMBERS_PER_HOST \<and>
     (\<forall>i \<in> hci_member_chains h. chain_of R i \<noteq> None)"

definition chains_ok :: "chain_registry \<Rightarrow> bool" where
  "chains_ok R \<longleftrightarrow>
     0 < chr_next_chain_id R \<and>
     (\<forall>i c. chain_of R i = Some c \<longrightarrow> chain_entry_ok R i c) \<and>
     (\<forall>i h. hostchain_of R i = Some h \<longrightarrow> host_entry_ok R i h) \<and>
     (\<forall>i j. affiliation R i = Some j \<longrightarrow> (\<exists>h. hostchain_of R j = Some h \<and> i \<in> hci_member_chains h))"

definition noticed :: "block_number \<Rightarrow> sidechain_info \<Rightarrow> bool" where
  "noticed b c \<longleftrightarrow>
     chain_is_inactive b INACTIVITY_THRESHOLD c \<or>
     (\<exists>t. sci_purge_triggered_at c = Some t \<and>
        unat t + unat PURGE_WARNING_PERIOD + unat WITHDRAWAL_WINDOW_DURATION \<le> unat b)"

definition timeline_ok :: "block_number \<Rightarrow> sidechain_info \<Rightarrow> bool" where
  "timeline_ok b c \<longleftrightarrow>
     (case sci_status c of
        CS_PendingPurge \<Rightarrow> \<exists>t. sci_purge_triggered_at c = Some t \<and> t \<le> b
      | CS_Frozen \<Rightarrow> \<exists>t. sci_purge_triggered_at c = Some t \<and> unat t + unat PURGE_WARNING_PERIOD \<le> unat b
      | CS_Snapshot \<Rightarrow> \<exists>t. sci_purge_triggered_at c = Some t \<and> unat t + unat PURGE_WARNING_PERIOD \<le> unat b
      | CS_WithdrawalWindow \<Rightarrow>
          \<exists>t w. sci_purge_triggered_at c = Some t \<and> sci_withdrawal_window_start c = Some w \<and>
            unat t + unat PURGE_WARNING_PERIOD \<le> unat w \<and> w \<le> b
      | _ \<Rightarrow> True)"

definition moves :: "block_number \<Rightarrow> sidechain_info \<Rightarrow> sidechain_info \<Rightarrow> bool" where
  "moves b c c' \<longleftrightarrow>
     sci_withdrawn_accounts c \<subseteq> sci_withdrawn_accounts c' \<and>
     sci_last_activity c' \<in> {sci_last_activity c, b} \<and> sci_purge_triggered_at c' \<in> {sci_purge_triggered_at c, Some b} \<and>
     (timeline_ok b c \<longrightarrow>
        timeline_ok b c' \<and> (sci_status c \<noteq> CS_Purged \<and> sci_status c' = CS_Purged \<longrightarrow> noticed b c))"

definition keeps :: "block_number \<Rightarrow> chain_registry \<Rightarrow> chain_registry \<Rightarrow> bool" where
  "keeps b R R' \<longleftrightarrow>
     chains_ok R' \<and> chr_next_chain_id R' = chr_next_chain_id R \<and>
     (\<forall>i. rel_option (moves b) (chain_of R i) (chain_of R' i))"

lemmas hm_lookups [simp] = update_conv' delete_conv'

lemma put_simps [simp]:
  "chain_of (put_chain i c R) = (chain_of R)(i \<mapsto> c)" "hostchain_of (put_chain i c R) = hostchain_of R"
  "affiliation (put_chain i c R) = affiliation R" "chr_next_chain_id (put_chain i c R) = chr_next_chain_id R"
  "chain_of (put_host i h R) = chain_of R" "hostchain_of (put_host i h R) = (hostchain_of R)(i \<mapsto> h)"
  "affiliation (put_host i h R) = affiliation R" "chr_next_chain_id (put_host i h R) = chr_next_chain_id R"
  by (simp_all add: put_chain_def put_host_def)

lemma moves_refl: "moves b c c"
  by (auto simp: moves_def)

lemma noticed_back:
  assumes "sci_last_activity c' \<in> {sci_last_activity c, b}" and "sci_purge_triggered_at c' \<in> {sci_purge_triggered_at c, Some b}"
    and "noticed b c'"
  shows "noticed b c"
  using assms by (auto simp: noticed_def chain_is_inactive_def const_defs)

lemma moves_trans:
  assumes "moves b c c'" and "moves b c' c''"
  shows "moves b c c''"
proof -
  note m = assms [unfolded moves_def]
  have n: "noticed b c' \<Longrightarrow> noticed b c" using noticed_back m by blast
  have w: "sci_withdrawn_accounts c \<subseteq> sci_withdrawn_accounts c''" using m by (meson subset_trans)
  have l: "sci_last_activity c'' \<in> {sci_last_activity c, b}" using m by auto
  have t: "sci_purge_triggered_at c'' \<in> {sci_purge_triggered_at c, Some b}" using m by auto
  have "timeline_ok b c'' \<and> (sci_status c \<noteq> CS_Purged \<and> sci_status c'' = CS_Purged \<longrightarrow> noticed b c)" if "timeline_ok b c"
    using m n that by (cases "sci_status c' = CS_Purged") simp_all
  then show ?thesis using w l t by (simp add: moves_def)
qed

lemma keeps_refl: "chains_ok R \<Longrightarrow> keeps b R R"
  by (simp add: keeps_def option.rel_refl moves_refl)

lemma keeps_trans:
  assumes "keeps b R R'" and "keeps b R' R''"
  shows "keeps b R R''"
  unfolding keeps_def
proof (intro conjI allI)
  fix i
  have "rel_option (moves b) (chain_of R i) (chain_of R' i)" "rel_option (moves b) (chain_of R' i) (chain_of R'' i)"
    using assms by (simp_all add: keeps_def)
  then show "rel_option (moves b) (chain_of R i) (chain_of R'' i)"
    by (cases "chain_of R i"; cases "chain_of R' i"; cases "chain_of R'' i") (auto intro: moves_trans)
qed (use assms in \<open>simp_all add: keeps_def\<close>)

lemma entry_ok_cong:
  assumes "\<And>j. chain_of R' j = None \<longleftrightarrow> chain_of R j = None" and "chr_next_chain_id R' = chr_next_chain_id R"
  shows "chain_entry_ok R' i c = chain_entry_ok R i c" and "host_entry_ok R' i h = host_entry_ok R i h"
  using assms by (simp_all add: chain_entry_ok_def host_entry_ok_def)

lemma chains_okD:
  assumes "chains_ok R"
  shows "chain_of R i = Some c \<Longrightarrow> chain_entry_ok R i c"
    and "hostchain_of R i = Some h \<Longrightarrow> host_entry_ok R i h"
    and "affiliation R i = Some j \<Longrightarrow> \<exists>h. hostchain_of R j = Some h \<and> i \<in> hci_member_chains h"
  using assms by (simp_all add: chains_ok_def)

lemma put_chain_keeps:
  assumes ok: "chains_ok R" and c: "chain_of R i = Some c" and m: "moves b c c'"
    and same: "sci_id c' = sci_id c" "sci_parent c' = sci_parent c" "sci_security_mode c' = sci_security_mode c"
    and v: "finite (sci_validators c')" "card (sci_validators c') \<le> validator_limit c"
  shows "keeps b R (put_chain i c' R)"
proof -
  have dom: "chain_of (put_chain i c' R) j = None \<longleftrightarrow> chain_of R j = None" for j by (simp add: c)
  note cong = entry_ok_cong [of "put_chain i c' R" R, OF dom, simplified]
  have "chain_entry_ok R i c'" using chains_okD(1) [OF ok c] same v validator_limit_cong [OF same(3)] by (simp add: chain_entry_ok_def)
  then have "chains_ok (put_chain i c' R)"
    using ok unfolding chains_ok_def cong by simp
  then show ?thesis using c m by (simp add: keeps_def moves_refl option.rel_refl)
qed

lemma host_keeps:
  assumes ok: "chains_ok R" and h: "host_entry_ok R i h'"
    and R': "chain_of R' = chain_of R" "hostchain_of R' = (hostchain_of R)(i \<mapsto> h')" "chr_next_chain_id R' = chr_next_chain_id R"
    and aff: "\<And>j k. affiliation R' j = Some k \<Longrightarrow> \<exists>h''. hostchain_of R' k = Some h'' \<and> j \<in> hci_member_chains h''"
  shows "keeps b R R'"
proof -
  note cong = entry_ok_cong [of R' R, unfolded R', simplified]
  have "chains_ok R'"
    using ok h aff unfolding chains_ok_def R' cong by simp
  then show ?thesis by (simp add: keeps_def R' option.rel_refl moves_refl)
qed


lemma put_chain_same:
  assumes ok: "chains_ok R" and c: "chain_of R i = Some c" and "moves b c c'"
    and "sci_id c' = sci_id c" "sci_parent c' = sci_parent c" "sci_security_mode c' = sci_security_mode c"
      "sci_validators c' = sci_validators c"
  shows "keeps b R (put_chain i c' R)"
  using assms chains_okD(1) [OF ok c] by (intro put_chain_keeps [OF ok c]) (simp_all add: chain_entry_ok_def)

lemma moves_frame:
  assumes "sci_withdrawn_accounts c \<subseteq> sci_withdrawn_accounts c'" and "sci_last_activity c' \<in> {sci_last_activity c, b}"
    and "sci_status c' = sci_status c" and "sci_purge_triggered_at c' = sci_purge_triggered_at c"
    and "sci_withdrawal_window_start c' = sci_withdrawal_window_start c"
  shows "moves b c c'"
  using assms by (cases "sci_status c") (simp_all add: moves_def timeline_ok_def)

lemma modify_chain_keeps:
  assumes "chains_ok R"
    and "\<And>c. chain_of R i = Some c \<Longrightarrow>
      moves b c (f c) \<and> sci_id (f c) = sci_id c \<and> sci_parent (f c) = sci_parent c \<and> sci_security_mode (f c) = sci_security_mode c \<and>
      sci_validators (f c) = sci_validators c"
  shows "keeps b R (snd (modify_chain i f R))"
  using assms by (auto simp: modify_chain_def keeps_refl intro!: put_chain_same split: option.split)

lemma remove_from_host_keeps:
  assumes ok: "chains_ok R"
  shows "keeps b R (remove_from_host i R)"
proof (cases "affiliation R i")
  case None
  then show ?thesis by (simp add: remove_from_host_def keeps_refl ok)
next
  case (Some j)
  then obtain h where h: "hostchain_of R j = Some h" and i: "i \<in> hci_member_chains h"
    using chains_okD(3) [OF ok] by blast
  define h' where "h' = h\<lparr>hci_member_chains := hci_member_chains h - {i}\<rparr>"
  define R' where "R' = put_host j h' (R\<lparr>chr_sidechain_to_host := hm_remove i (chr_sidechain_to_host R)\<rparr>)"
  have "remove_from_host i R = R'"
    by (simp add: remove_from_host_def Some h host_remove_member_def i R'_def h'_def)
  moreover have "keeps b R R'"
  proof (rule host_keeps [OF ok])
    have "card (hci_member_chains h - {i}) \<le> card (hci_member_chains h)" by (rule card_Diff1_le)
    then show "host_entry_ok R j h'" using chains_okD(2) [OF ok h] by (auto simp: host_entry_ok_def h'_def)
    fix k l assume "affiliation R' k = Some l"
    then have "k \<noteq> i" "affiliation R k = Some l" by (auto simp: R'_def split: if_splits)
    then show "\<exists>h''. hostchain_of R' l = Some h'' \<and> k \<in> hci_member_chains h''"
      using chains_okD(3) [OF ok, of k l] h by (auto simp: R'_def h'_def)
  qed (simp_all add: R'_def put_host_def)
  ultimately show ?thesis by simp
qed

lemma leave_host_removes: "snd (leave_host i R) = remove_from_host i R"
  by (simp add: leave_host_def remove_from_host_def Let_def split: option.split sum.split)

lemma affiliate_keeps:
  assumes ok: "chains_ok R"
  shows "keeps b R (snd (affiliate_sidechain i j R))"
proof (cases "chain_of R i = None \<or> hostchain_of R j = None")
  case True
  then show ?thesis by (auto simp: affiliate_sidechain_def hm_contains_def keeps_refl ok)
next
  case False
  then obtain c h where c: "chain_of R i = Some c" and h: "hostchain_of R j = Some h" by auto
  show ?thesis
  proof (cases "host_add_member i h")
    case (Inl e)
    then show ?thesis by (simp add: affiliate_sidechain_def hm_contains_def c h keeps_refl ok)
  next
    case (Inr h')
    define R' where "R' = (put_host j h' R)\<lparr>chr_sidechain_to_host := hm_insert i j (chr_sidechain_to_host R)\<rparr>"
    have h': "h' = h\<lparr>hci_member_chains := insert i (hci_member_chains h)\<rparr>" "card (hci_member_chains h) < MAX_MEMBERS_PER_HOST"
      using Inr by (auto simp: host_add_member_def split: if_splits)
    have "keeps b R R'"
    proof (rule host_keeps [OF ok])
      have "card (insert i (hci_member_chains h)) \<le> Suc (card (hci_member_chains h))" by (rule card_insert_le_m1) simp_all
      then show "host_entry_ok R j h'" using chains_okD(2) [OF ok h] h' c by (auto simp: host_entry_ok_def)
      show "hostchain_of R' = (hostchain_of R)(j \<mapsto> h')" by (simp add: R'_def put_host_def)
      fix k l assume "affiliation R' k = Some l"
      then show "\<exists>h''. hostchain_of R' l = Some h'' \<and> k \<in> hci_member_chains h''"
        using chains_okD(3) [OF ok, of k l] h h' by (auto simp: R'_def put_host_def split: if_splits)
    qed (simp_all add: R'_def put_host_def)
    then show ?thesis by (simp add: affiliate_sidechain_def hm_contains_def c h Inr R'_def)
  qed
qed

lemma assign_keeps:
  assumes ok: "chains_ok R"
  shows "keeps b R (snd (assign_validators i R))"
proof -
  have put: "keeps b R (put_chain i (c\<lparr>sci_validators := V\<rparr>) R)"
    if "chain_of R i = Some c" "sci_security_mode c \<noteq> Sovereign" "finite V" "card V \<le> MAX_VALIDATORS_PER_HOST" for c V
    using that by (intro put_chain_keeps [OF ok]) (auto simp: validator_limit_def intro: moves_frame)
  have "finite (sci_validators c) \<and> card (sci_validators c) \<le> MAX_VALIDATORS_PER_HOST" if "chain_of R j = Some c" for j c
    using chains_okD(1) [OF ok that] validator_limit_le [of c] by (auto simp: chain_entry_ok_def)
  moreover have "finite (hci_validator_pool h) \<and> card (hci_validator_pool h) \<le> MAX_VALIDATORS_PER_HOST"
    if "hostchain_of R j = Some h" for j h using chains_okD(2) [OF ok that] by (simp add: host_entry_ok_def)
  ultimately show ?thesis
    using put by (auto simp: assign_validators_def keeps_refl ok Option.bind_eq_Some_conv
        split: option.split security_mode.split)
qed

lemma keeps_ok: "keeps b R R' \<Longrightarrow> chains_ok R'"
  by (simp add: keeps_def)

lemma andThen_keeps:
  assumes "keeps b R (snd (m R))" and "\<And>a R'. keeps b R R' \<Longrightarrow> keeps b R (snd (f a R'))"
  shows "keeps b R (snd (andThen m f R))"
  using assms by (auto simp: andThen_def split: prod.splits sum.splits)

lemma keeps_after: "keeps b R R' \<Longrightarrow> (chains_ok R' \<Longrightarrow> keeps b R' (snd (m R'))) \<Longrightarrow> keeps b R (snd (m R'))"
  by (meson keeps_ok keeps_trans)

lemma assign_each_keeps: "chains_ok R \<Longrightarrow> keeps b R (snd (assign_each cids R))"
proof (induction cids arbitrary: R)
  case Nil
  then show ?case by (simp add: ret_def keeps_refl)
next
  case (Cons i cids)
  then show ?case by (auto intro!: andThen_keeps assign_keeps intro: keeps_after)
qed


lemma record_activity_keeps: "chains_ok R \<Longrightarrow> keeps b R (snd (record_chain_activity i b R))"
  unfolding record_chain_activity_def
  by (rule modify_chain_keeps) (auto simp: sidechain_record_activity_def Let_def moves_def timeline_ok_def split: chain_status.splits)

lemma purge_sidechain_keeps:
  assumes ok: "chains_ok R"
  shows "keeps b R (snd (purge_sidechain i b R))"
proof (cases "\<exists>c. chain_of R i = Some c \<and> chain_is_inactive b INACTIVITY_THRESHOLD c")
  case True
  then obtain c where c: "chain_of R i = Some c" and old: "chain_is_inactive b INACTIVITY_THRESHOLD c" by blast
  have "moves b c (c\<lparr>sci_status := CS_Purged\<rparr>)" using old by (auto simp: moves_def timeline_ok_def noticed_def)
  then have k: "keeps b R (put_chain i (c\<lparr>sci_status := CS_Purged\<rparr>) R)" by (rule put_chain_same [OF ok c]) simp_all
  show ?thesis using keeps_trans [OF k remove_from_host_keeps [OF keeps_ok [OF k]]] c old by (simp add: purge_sidechain_def)
next
  case False
  then show ?thesis by (auto simp: purge_sidechain_def keeps_refl ok split: option.split)
qed

lemma purge_each_keeps: "chains_ok R \<Longrightarrow> keeps b R (snd (purge_each b cids R))"
proof (induction cids arbitrary: R)
  case (Cons i cids)
  note k = purge_sidechain_keeps [OF Cons.prems, of b i]
  then show ?case using keeps_trans [OF k Cons.IH [OF keeps_ok [OF k]]] by (simp add: case_prod_beta Let_def)
qed (simp add: keeps_refl)

lemma check_time_keeps: "chains_ok R \<Longrightarrow> keeps b R (R\<lparr>chr_last_purge_check := x\<rparr>)"
  by (simp add: keeps_def chains_ok_def chain_entry_ok_def host_entry_ok_def option.rel_refl moves_refl)

lemma auto_purge_inactive_keeps:
  assumes "chains_ok R"
  shows "keeps b R (snd (auto_purge_inactive walk b R))"
  using keeps_trans [OF check_time_keeps [OF assms] purge_each_keeps [OF keeps_ok [OF check_time_keeps [OF assms]]]] assms
  by (simp add: auto_purge_inactive_def Let_def keeps_refl)

lemma chain_validator_keeps:
  assumes ok: "chains_ok R"
  shows "keeps b R (snd (add_validator_to_chain i v R))" "keeps b R (snd (remove_validator_from_chain i v R))"
proof -
  have "keeps b R (put_chain i (c\<lparr>sci_validators := V\<rparr>) R)"
    if "chain_of R i = Some c" "finite V" "card V \<le> validator_limit c" for c V
    using that by (intro put_chain_keeps [OF ok]) (auto intro: moves_frame)
  moreover have "finite (sci_validators c) \<and> card (sci_validators c) \<le> validator_limit c" if "chain_of R i = Some c" for c
    using chains_okD(1) [OF ok that] by (simp add: chain_entry_ok_def)
  moreover have "card (insert v V) \<le> validator_limit c"
    if "card V < MAX_VALIDATORS_PER_CHAIN" "sci_security_mode c = Sovereign" for V c
    using card_insert_le_m1 [of "Suc (card V)" V v] that by (simp add: validator_limit_def)
  moreover have "card (V - {v}) \<le> validator_limit c" if "card V \<le> validator_limit c" for V c
    using card_Diff1_le [of V v] that by linarith
  ultimately show "keeps b R (snd (add_validator_to_chain i v R))" "keeps b R (snd (remove_validator_from_chain i v R))"
    by (auto simp: add_validator_to_chain_def remove_validator_from_chain_def sidechain_add_validator_def
        sidechain_remove_validator_def keeps_refl ok split: option.split)
qed

lemma put_pool_keeps:
  assumes ok: "chains_ok R" and h: "hostchain_of R j = Some h" and V: "finite V" "card V \<le> MAX_VALIDATORS_PER_HOST"
  shows "keeps b R (put_host j (h\<lparr>hci_validator_pool := V\<rparr>) R)"
proof (rule host_keeps [OF ok])
  show "host_entry_ok R j (h\<lparr>hci_validator_pool := V\<rparr>)" using chains_okD(2) [OF ok h] V by (simp add: host_entry_ok_def)
  fix k l assume "affiliation (put_host j (h\<lparr>hci_validator_pool := V\<rparr>) R) k = Some l"
  then show "\<exists>h''. hostchain_of (put_host j (h\<lparr>hci_validator_pool := V\<rparr>) R) l = Some h'' \<and> k \<in> hci_member_chains h''"
    using chains_okD(3) [OF ok, of k l] h by auto
qed simp_all

lemma reassign_keeps:
  assumes "keeps b R R'"
  shows "keeps b R (snd (assign_each cids R'))"
  by (rule keeps_after [OF assms]) (rule assign_each_keeps)

lemma host_validator_keeps:
  assumes ok: "chains_ok R"
  shows "keeps b R (snd (add_validator_to_hostchain walk j v R))" "keeps b R (snd (remove_validator_from_hostchain walk j v R))"
proof -
  have fits: "finite (hci_validator_pool h) \<and> card (hci_validator_pool h) \<le> MAX_VALIDATORS_PER_HOST" if "hostchain_of R j = Some h" for h
    using chains_okD(2) [OF ok that] by (simp add: host_entry_ok_def)
  have add: "keeps b R (put_host j (h\<lparr>hci_validator_pool := insert v (hci_validator_pool h)\<rparr>) R)"
    if h: "hostchain_of R j = Some h" "card (hci_validator_pool h) < MAX_VALIDATORS_PER_HOST" for h
    using card_insert_le_m1 [of "Suc (card (hci_validator_pool h))" "hci_validator_pool h" v] fits [OF h(1)] h
    by (intro put_pool_keeps [OF ok h(1)]) simp_all
  have del: "keeps b R (put_host j (h\<lparr>hci_validator_pool := hci_validator_pool h - {v}\<rparr>) R)" if h: "hostchain_of R j = Some h" for h
    using card_Diff1_le [of "hci_validator_pool h" v] fits [OF h] by (intro put_pool_keeps [OF ok h]) (blast, linarith)
  show "keeps b R (snd (add_validator_to_hostchain walk j v R))"
    using add by (auto simp: add_validator_to_hostchain_def host_add_validator_def Let_def keeps_refl ok
        intro!: reassign_keeps split: option.split)
  show "keeps b R (snd (remove_validator_from_hostchain walk j v R))"
    using del by (auto simp: remove_validator_from_hostchain_def host_remove_validator_def Let_def keeps_refl ok
        intro!: reassign_keeps split: option.split)
qed


lemma trigger_keeps:
  assumes ok: "chains_ok R"
  shows "keeps b R (snd (trigger_purge i t b R))"
proof -
  have "moves b c (c\<lparr>sci_status := CS_PendingPurge, sci_purge_triggered_at := Some b, sci_purge_trigger := Some t\<rparr>)" for c
    by (simp add: moves_def timeline_ok_def)
  then show ?thesis by (auto simp: trigger_purge_def keeps_refl ok intro!: put_chain_same split: option.split)
qed

definition height_ok :: "block_number \<Rightarrow> bool" where
  "height_ok b = (unat b < 2 ^ 63)"

lemma period_elapsed:
  assumes "t + p \<le> b" and "t \<le> b" and "height_ok b" and "unat p \<le> 432000"
  shows "unat t + unat p \<le> unat b"
proof -
  have "unat t + unat p < 2 ^ LENGTH(64)" using assms by (simp add: height_ok_def word_le_nat_alt)
  then show ?thesis using assms(1) unat_add_fits [of t p] by (simp add: word_le_nat_alt)
qed

lemma moves_frozen:
  assumes "sci_status c = CS_PendingPurge" and "sci_purge_triggered_at c = Some t" and "t + PURGE_WARNING_PERIOD \<le> b" and "height_ok b"
  shows "moves b c (c\<lparr>sci_status := CS_Frozen, sci_frozen_at := Some b\<rparr>)"
  using assms period_elapsed [of t PURGE_WARNING_PERIOD b] by (auto simp: moves_def timeline_ok_def const_defs)

lemma moves_snapshot:
  assumes "sci_status c = CS_Frozen"
  shows "moves b c (c\<lparr>sci_snapshot_state_root := r, sci_status := CS_Snapshot, sci_snapshot_at := Some b\<rparr>)"
  using assms by (auto simp: moves_def timeline_ok_def)

lemma moves_window:
  assumes "sci_status c = CS_Snapshot"
  shows "moves b c (c\<lparr>sci_status := CS_WithdrawalWindow, sci_withdrawal_window_start := Some b\<rparr>)"
  using assms by (auto simp: moves_def timeline_ok_def)

lemma moves_purged:
  assumes "sci_status c = CS_WithdrawalWindow" and "sci_withdrawal_window_start c = Some w"
    and "w + WITHDRAWAL_WINDOW_DURATION \<le> b" and "height_ok b"
  shows "moves b c (c\<lparr>sci_status := CS_Purged\<rparr>)"
  using assms period_elapsed [of w WITHDRAWAL_WINDOW_DURATION b] by (auto simp: moves_def timeline_ok_def noticed_def const_defs)

lemma advance_keeps:
  assumes ok: "chains_ok R" and b: "height_ok b"
  shows "keeps b R (snd (advance_purge_state i b R))"
proof (cases "chain_of R i")
  case None
  then show ?thesis by (simp add: advance_purge_state_def keeps_refl ok)
next
  case c: (Some c)
  have put: "keeps b R (put_chain i c' R)"
    if "moves b c c'" "sci_id c' = sci_id c" "sci_parent c' = sci_parent c" "sci_security_mode c' = sci_security_mode c"
      "sci_validators c' = sci_validators c" for c'
    using put_chain_same [OF ok c] that by blast
  have out: "keeps b R (remove_from_host i (put_chain i c' R))"
    if "moves b c c'" "sci_id c' = sci_id c" "sci_parent c' = sci_parent c" "sci_security_mode c' = sci_security_mode c"
      "sci_validators c' = sci_validators c" for c'
    using put [OF that] remove_from_host_keeps keeps_ok keeps_trans by blast
  show ?thesis
  proof (cases "sci_status c")
    case CS_PendingPurge
    then show ?thesis using b
      by (auto simp: advance_purge_state_def c keeps_refl ok intro!: put moves_frozen split: option.split)
  next
    case CS_Frozen
    then show ?thesis by (auto simp: advance_purge_state_def c Let_def intro!: put moves_snapshot)
  next
    case CS_Snapshot
    then show ?thesis by (auto simp: advance_purge_state_def c intro!: put moves_window)
  next
    case CS_WithdrawalWindow
    then show ?thesis using b
      by (auto simp: advance_purge_state_def c keeps_refl ok intro!: out moves_purged split: option.split)
  qed (simp_all add: advance_purge_state_def c keeps_refl ok)
qed

lemma advance_loop_keeps:
  assumes b: "height_ok b"
  shows "chains_ok R \<Longrightarrow> keeps b R (advance_loop n i b R)"
proof (induction n arbitrary: R)
  case (Suc n)
  obtain r R' where a: "advance_purge_state i b R = (r, R')" by fastforce
  then have k: "keeps b R R'" using advance_keeps [OF Suc.prems b, of i] by simp
  then show ?case using keeps_trans [OF k Suc.IH [OF keeps_ok [OF k]]] Suc.prems
    by (cases r) (auto simp: a keeps_refl split: option.split)
qed (simp add: keeps_refl)

lemma purge_one_keeps:
  assumes ok: "chains_ok R" and b: "height_ok b"
  shows "keeps b R (snd (purge_one b i R))"
proof -
  have loop: "keeps b R (advance_loop 5 i b R')" if "keeps b R R'" for R'
    using that advance_loop_keeps [OF b keeps_ok] keeps_trans by blast
  show ?thesis
    using loop [OF trigger_keeps [OF ok]] loop [OF keeps_refl [OF ok]]
    by (auto simp: purge_one_def Let_def case_prod_beta split: option.split)
qed

lemma purge_all_keeps:
  assumes b: "height_ok b"
  shows "chains_ok R \<Longrightarrow> keeps b R (snd (purge_all b cids R))"
proof (induction cids arbitrary: R)
  case (Cons i cids)
  note k = purge_one_keeps [OF Cons.prems b, of i]
  then show ?case using keeps_trans [OF k Cons.IH [OF keeps_ok [OF k]]] by (simp add: case_prod_beta Let_def)
qed (simp add: keeps_refl)

lemma auto_purge_keeps:
  assumes ok: "chains_ok R" and b: "height_ok b"
  shows "keeps b R (snd (auto_purge_v3_1 walk b R))"
  using keeps_trans [OF check_time_keeps [OF ok] purge_all_keeps [OF b keeps_ok [OF check_time_keeps [OF ok]]]] ok
  by (simp add: auto_purge_v3_1_def Let_def keeps_refl)

lemma slash_keeps: "chains_ok R \<Longrightarrow> keeps b R (snd (chain_slash_validator i v R))"
  unfolding chain_slash_validator_def by (rule modify_chain_keeps) (auto intro: moves_frame)

lemma ret_keeps: "keeps b R R' \<Longrightarrow> keeps b R (snd (ret a R'))"
  by (simp add: ret_def)

lemma verify_fraud_keeps: "chains_ok R \<Longrightarrow> keeps b R (snd (verify_fraud_proof K p b R))"
  by (auto simp: verify_fraud_proof_def keeps_refl intro!: andThen_keeps ret_keeps slash_keeps split: sum.split option.split)

lemma apply_fraud_keeps: "chains_ok R \<Longrightarrow> keeps b R (snd (apply_fraud_proof K p b R))"
  unfolding apply_fraud_proof_def
  by (rule andThen_keeps [OF verify_fraud_keeps])
    (auto split: option.split intro!: ret_keeps andThen_keeps intro: keeps_after trigger_keeps)

lemma plain_keeps:
  assumes ok: "chains_ok R"
  shows "keeps b R (snd (record_governance_failure i R))" "keeps b R (snd (reset_governance_failures i R))"
    "keeps b R (snd (update_verified_state_root i r R))" "keeps b R (snd (report_state_divergence i n a R))"
    "keeps b R (snd (set_snapshot_state_root i r R))"
  using ok unfolding record_governance_failure_def reset_governance_failures_def update_verified_state_root_def
  by (auto simp: report_state_divergence_def set_snapshot_state_root_def Let_def keeps_refl
      intro!: modify_chain_keeps put_chain_same moves_frame split: option.split)

lemma paid_registry [simp]: "snd (paid f r) = snd r"
  by (simp add: paid_def)

lemma withdraw_keeps_marks:
  assumes ok: "chains_ok R"
  shows "keeps b R (snd (withdraw_from_purged_chain i a R))" "keeps b R (snd (withdraw_with_proof K i a x p R))"
    "keeps b R (snd (emergency_exit K i a x q R))"
  using ok by (auto simp: withdraw_from_purged_chain_def withdraw_with_proof_def emergency_exit_def Let_def keeps_refl
      intro!: put_chain_same moves_frame split: option.split)


text \<open>New chains and hosts take the next identifier, which is fresh as long as the 32-bit counter has not wrapped.\<close>

definition advances :: "block_number \<Rightarrow> chain_registry \<Rightarrow> chain_registry \<Rightarrow> bool" where
  "advances b R R' \<longleftrightarrow>
     chains_ok R' \<and> unat (chr_next_chain_id R') \<le> Suc (unat (chr_next_chain_id R)) \<and>
     (\<forall>i c. chain_of R i = Some c \<longrightarrow> (\<exists>c'. chain_of R' i = Some c' \<and> moves b c c')) \<and>
     (\<forall>i c'. chain_of R i = None \<longrightarrow> chain_of R' i = Some c' \<longrightarrow> timeline_ok b c')"

lemma keeps_advances: "keeps b R R' \<Longrightarrow> advances b R R'"
  unfolding keeps_def advances_def
proof (intro conjI allI impI; elim conjE)
  fix i c assume "\<forall>i. rel_option (moves b) (chain_of R i) (chain_of R' i)" and c: "chain_of R i = Some c"
  then have "rel_option (moves b) (Some c) (chain_of R' i)" by metis
  then show "\<exists>c'. chain_of R' i = Some c' \<and> moves b c c'" by (simp add: option_rel_Some1)
next
  fix i c' assume "\<forall>i. rel_option (moves b) (chain_of R i) (chain_of R' i)" and "chain_of R i = None" and "chain_of R' i = Some c'"
  then have "rel_option (moves b) None (Some c')" by metis
  then show "timeline_ok b c'" by simp
qed simp_all

lemma advances_then_keeps:
  assumes "advances b R R'" and "keeps b R' R''"
  shows "advances b R R''"
  unfolding advances_def
proof (intro conjI allI impI)
  have rel: "rel_option (moves b) (chain_of R' i) (chain_of R'' i)" for i using assms(2) by (simp add: keeps_def)
  fix i c assume "chain_of R i = Some c"
  then obtain c' where c': "chain_of R' i = Some c'" "moves b c c'" using assms(1) unfolding advances_def by blast
  then obtain c'' where "chain_of R'' i = Some c''" "moves b c' c''" using rel [of i] by (auto simp: option_rel_Some1)
  then show "\<exists>c'. chain_of R'' i = Some c' \<and> moves b c c'" using c' moves_trans by blast
next
  fix i c'' assume new: "chain_of R i = None" and c'': "chain_of R'' i = Some c''"
  have "rel_option (moves b) (chain_of R' i) (Some c'')" using assms(2) c'' by (metis keeps_def)
  then obtain c' where "chain_of R' i = Some c'" "moves b c' c''" by (auto simp: option_rel_Some2)
  then show "timeline_ok b c''" using new assms(1) unfolding advances_def moves_def by blast
qed (use assms in \<open>simp_all add: keeps_def advances_def\<close>)

lemma fresh_id:
  assumes ok: "chains_ok R" and fits: "unat (chr_next_chain_id R) + 1 < 2 ^ 32"
  shows "chain_of R (chr_next_chain_id R) = None" "hostchain_of R (chr_next_chain_id R) = None"
    "i < chr_next_chain_id R \<Longrightarrow> i < chr_next_chain_id R + 1" "chr_next_chain_id R < chr_next_chain_id R + 1"
    "unat (chr_next_chain_id R + 1) = Suc (unat (chr_next_chain_id R))"
proof -
  show nx: "unat (chr_next_chain_id R + 1) = Suc (unat (chr_next_chain_id R))"
    using unat_add_fits [of "chr_next_chain_id R" 1] fits by simp
  then show "i < chr_next_chain_id R \<Longrightarrow> i < chr_next_chain_id R + 1" "chr_next_chain_id R < chr_next_chain_id R + 1"
    by (simp_all add: word_less_nat_alt)
  have "\<not> chr_next_chain_id R < chr_next_chain_id R" by simp
  then show "chain_of R (chr_next_chain_id R) = None" "hostchain_of R (chr_next_chain_id R) = None"
    using chains_okD(1,2) [OF ok] by (meson chain_entry_ok_def host_entry_ok_def not_Some_eq)+
qed

lemma bump_next_ok:
  assumes ok: "chains_ok R" and fits: "unat (chr_next_chain_id R) + 1 < 2 ^ 32"
  shows "chains_ok (R\<lparr>chr_next_chain_id := chr_next_chain_id R + 1\<rparr>)"
proof -
  let ?R = "R\<lparr>chr_next_chain_id := chr_next_chain_id R + 1\<rparr>"
  note less = fresh_id(3) [OF ok fits]
  have "chain_entry_ok R i c \<Longrightarrow> chain_entry_ok ?R i c" for i c using less by (simp add: chain_entry_ok_def)
  moreover have "host_entry_ok R i h \<Longrightarrow> host_entry_ok ?R i h" for i h using less by (simp add: host_entry_ok_def)
  ultimately show ?thesis using ok less [of 0] unfolding chains_ok_def by simp
qed

lemma new_chain_advances:
  assumes ok: "chains_ok R" and fits: "unat (chr_next_chain_id R) + 1 < 2 ^ 32"
    and parent: "\<And>p. parent = Some p \<Longrightarrow> chain_of R p \<noteq> None"
  shows "advances b R (put_chain (chr_next_chain_id R) (sidechain_new (chr_next_chain_id R) parent a n d m dep b)
           (R\<lparr>chr_next_chain_id := chr_next_chain_id R + 1\<rparr>))"
proof -
  let ?i = "chr_next_chain_id R" and ?R = "R\<lparr>chr_next_chain_id := chr_next_chain_id R + 1\<rparr>"
  let ?c = "sidechain_new ?i parent a n d m dep b"
  note fresh = fresh_id [OF ok fits]
  have okR: "chains_ok ?R" using bump_next_ok [OF ok fits] .
  have mem: "chain_of (put_chain ?i ?c ?R) j = None \<longleftrightarrow> j \<noteq> ?i \<and> chain_of ?R j = None" for j by simp
  have old: "chain_entry_ok (put_chain ?i ?c ?R) j c" if "chain_of R j = Some c" for j c
    using chains_okD(1) [OF okR, of j c] that unfolding chain_entry_ok_def by (simp add: mem)
  have hosts: "host_entry_ok (put_chain ?i ?c ?R) j h" if "hostchain_of R j = Some h" for j h
    using chains_okD(2) [OF okR, of j h] that fresh(2) unfolding host_entry_ok_def by (auto simp: mem)
  have below: "p < ?i" if "chain_of R p \<noteq> None" for p using that chains_okD(1) [OF ok] by (auto simp: chain_entry_ok_def)
  have "0 < ?i" using ok by (simp add: chains_ok_def)
  then have "chain_entry_ok (put_chain ?i ?c ?R) ?i ?c"
    using parent below fresh(4) by (auto simp: chain_entry_ok_def sidechain_new_def)
  then have "chains_ok (put_chain ?i ?c ?R)"
    using old hosts okR unfolding chains_ok_def by simp
  then show ?thesis using fresh(1,5) by (simp add: advances_def moves_refl timeline_ok_def sidechain_new_def)
qed

lemma create_sidechain_advances:
  assumes ok: "chains_ok R" and fits: "unat (chr_next_chain_id R) + 1 < 2 ^ 32"
  shows "advances b R (snd (create_sidechain a n d parent m host dep b R))"
proof (cases "required_deposit m host R")
  case (Inl e)
  then show ?thesis by (simp add: create_sidechain_def keeps_advances keeps_refl ok)
next
  case (Inr req)
  let ?R = "put_chain (chr_next_chain_id R) (sidechain_new (chr_next_chain_id R) parent a n d m dep b)
           (R\<lparr>chr_next_chain_id := chr_next_chain_id R + 1\<rparr>)"
  show ?thesis
  proof (cases "dep < req \<or> (case parent of None \<Rightarrow> False | Some p \<Rightarrow> \<not> hm_contains (chr_sidechains R) p)")
    case True
    then show ?thesis by (auto simp: create_sidechain_def Inr keeps_advances keeps_refl ok)
  next
    case False
    then have "advances b R ?R"
      by (intro new_chain_advances [OF ok fits]) (auto simp: hm_contains_def split: option.splits)
    moreover have "chains_ok ?R" using calculation by (simp add: advances_def)
    then have "keeps b ?R (snd (create_sidechain a n d parent m host dep b R))"
      using False unfolding create_sidechain_def Inr
      by (auto simp: Let_def intro!: andThen_keeps ret_keeps split: option.split
          intro: keeps_after affiliate_keeps assign_keeps keeps_refl)
    ultimately show ?thesis by (rule advances_then_keeps)
  qed
qed

lemma create_hostchain_advances:
  assumes ok: "chains_ok R" and fits: "unat (chr_next_chain_id R) + 1 < 2 ^ 32"
  shows "advances b R (snd (create_hostchain a b R))"
proof -
  let ?i = "chr_next_chain_id R" and ?R = "R\<lparr>chr_next_chain_id := chr_next_chain_id R + 1\<rparr>"
  let ?h = "hostchain_new ?i a b"
  note fresh = fresh_id [OF ok fits]
  have okR: "chains_ok ?R" using bump_next_ok [OF ok fits] .
  have "0 < ?i" using ok by (simp add: chains_ok_def)
  then have h: "host_entry_ok ?R ?i ?h" using fresh(1,4) by (simp add: host_entry_ok_def hostchain_new_def)
  have "keeps b ?R (put_host ?i ?h ?R)"
  proof (rule host_keeps [OF okR h])
    fix k l assume "affiliation (put_host ?i ?h ?R) k = Some l"
    then show "\<exists>h''. hostchain_of (put_host ?i ?h ?R) l = Some h'' \<and> k \<in> hci_member_chains h''"
      using chains_okD(3) [OF ok, of k l] fresh(2) by auto
  qed simp_all
  moreover have "advances b R ?R" using okR fresh(5) by (simp add: advances_def moves_refl)
  ultimately show ?thesis using advances_then_keeps by (simp add: create_hostchain_def Let_def)
qed

lemma chain_exec_advances:
  assumes ok: "chains_ok R" and fits: "unat (chr_next_chain_id R) + 1 < 2 ^ 32" and b: "height_ok b"
  shows "advances b R (snd (chain_exec K walk b op R))"
  by (cases op)
    (simp_all add: create_sidechain_advances [OF ok fits] create_hostchain_advances [OF ok fits] keeps_advances record_activity_keeps purge_sidechain_keeps
      auto_purge_inactive_keeps affiliate_keeps leave_host_removes remove_from_host_keeps assign_keeps chain_validator_keeps
      host_validator_keeps trigger_keeps advance_keeps auto_purge_keeps plain_keeps slash_keeps verify_fraud_keeps
      apply_fraud_keeps withdraw_keeps_marks ok b)


section \<open>Histories\<close>

lemma chains_ok_new: "chains_ok chain_registry_new"
  by (simp add: chains_ok_def chain_registry_new_def)

lemma timeline_later: "timeline_ok b c \<Longrightarrow> b \<le> b' \<Longrightarrow> timeline_ok b' c"
  by (auto simp: timeline_ok_def word_le_nat_alt split: chain_status.splits)

lemma run_cons:
  "chain_run K walk ((b, op) # ops) R =
     (let r = chain_exec K walk b op R; r' = chain_run K walk ops (snd r)
      in ((case fst r of None \<Rightarrow> [] | Some x \<Rightarrow> [x]) @ fst r', snd r'))"
  by (simp add: Let_def case_prod_beta)

lemma run_state:
  assumes "chains_ok R" and "unat (chr_next_chain_id R) + length ops < 2 ^ 32" and "\<forall>x \<in> set ops. height_ok (fst x)"
    and "sorted (map fst ops)" and "\<forall>x \<in> set ops. b \<le> fst x" and "\<And>i c. chain_of R i = Some c \<Longrightarrow> timeline_ok b c"
    and "b \<le> b'" and "\<forall>x \<in> set ops. fst x \<le> b'"
  shows "chains_ok (snd (chain_run K walk ops R)) \<and>
    unat (chr_next_chain_id (snd (chain_run K walk ops R))) \<le> unat (chr_next_chain_id R) + length ops \<and>
    (\<forall>i c. chain_of (snd (chain_run K walk ops R)) i = Some c \<longrightarrow> timeline_ok b' c)"
  using assms
proof (induction ops arbitrary: R b)
  case Nil
  then have "timeline_ok b' c" if "chain_of R i = Some c" for i c using that timeline_later by blast
  then show ?case using Nil.prems(1) by simp
next
  case (Cons x ops)
  obtain n op where x: "x = (n, op)" by (cases x)
  let ?R = "snd (chain_exec K walk n op R)"
  have fits: "unat (chr_next_chain_id R) + 1 < 2 ^ 32" using Cons.prems(2) by simp
  have adv: "advances n R ?R" using chain_exec_advances [OF Cons.prems(1) fits] Cons.prems(3) x by simp
  have times: "timeline_ok n c'" if c': "chain_of ?R i = Some c'" for i c'
  proof (cases "chain_of R i")
    case None
    then show ?thesis using adv c' unfolding advances_def by blast
  next
    case (Some c)
    then have "timeline_ok n c" using Cons.prems(5,6) x timeline_later by fastforce
    moreover obtain c'' where "chain_of ?R i = Some c''" "moves n c c''" using adv Some unfolding advances_def by blast
    ultimately show ?thesis using c' by (simp add: moves_def)
  qed
  have "chains_ok ?R" "unat (chr_next_chain_id ?R) \<le> Suc (unat (chr_next_chain_id R))" using adv by (simp_all add: advances_def)
  then show ?case using Cons.IH [of ?R n] times Cons.prems(2,3,4,7,8) unfolding x run_cons by (fastforce simp: Let_def)
qed

lemma history_state:
  assumes "length ops < 2 ^ 32 - 1" and "\<forall>x \<in> set ops. height_ok (fst x)" and "sorted (map fst ops)" and "\<forall>x \<in> set ops. fst x \<le> b'"
  shows "chains_ok (snd (chain_run K walk ops chain_registry_new))"
    and "unat (chr_next_chain_id (snd (chain_run K walk ops chain_registry_new))) \<le> 1 + length ops"
    and "chain_of (snd (chain_run K walk ops chain_registry_new)) i = Some c \<Longrightarrow> timeline_ok b' c"
  using run_state [of chain_registry_new ops 0 b' K walk] assms chains_ok_new by (simp_all add: chain_registry_new_def)

definition withdrawn :: "chain_registry \<Rightarrow> (chain_id \<times> account_id) set" where
  "withdrawn R = {(i, a). \<exists>c. chain_of R i = Some c \<and> a \<in> sci_withdrawn_accounts c}"

definition payee :: "withdrawal_result \<Rightarrow> chain_id \<times> account_id" where
  "payee w = (wd_chain_id w, wd_recipient w)"

text \<open>The withdrawals among the payouts of a history.\<close>

definition withdrawals :: "payout list \<Rightarrow> withdrawal_result list" where
  "withdrawals ps = List.map_filter withdrawal_of ps"

lemma withdrawals_simps [simp]:
  "withdrawals [] = []" "withdrawals (Withdrawn w # ps) = w # withdrawals ps"
  "withdrawals (DepositReturned i x # ps) = withdrawals ps"
  by (simp_all add: withdrawals_def map_filter_simps)

lemma paid_Withdrawn [simp]:
  "fst (paid Withdrawn r) = Some (Withdrawn w) \<longleftrightarrow> fst r = Ok w" "fst (paid (DepositReturned i) d) \<noteq> Some (Withdrawn w)"
  by (simp_all add: paid_def split: sum.split)

lemma withdrawal_marks:
  "fst (withdraw_from_purged_chain i a R) = Ok w \<Longrightarrow>
     payee w \<notin> withdrawn R \<and> payee w \<in> withdrawn (snd (withdraw_from_purged_chain i a R))"
  "fst (withdraw_with_proof K i a x p R) = Ok w \<Longrightarrow>
     payee w \<notin> withdrawn R \<and> payee w \<in> withdrawn (snd (withdraw_with_proof K i a x p R))"
  "fst (emergency_exit K i a x q R) = Ok w \<Longrightarrow>
     payee w \<notin> withdrawn R \<and> payee w \<in> withdrawn (snd (emergency_exit K i a x q R))"
  by (cases "chain_of R i"; auto simp: withdraw_from_purged_chain_def withdraw_with_proof_def emergency_exit_def Let_def payee_def
      withdrawn_def split: option.splits if_splits)+

lemma exec_pays:
  assumes "fst (chain_exec K walk b op R) = Some (Withdrawn w)"
  shows "payee w \<notin> withdrawn R \<and> payee w \<in> withdrawn (snd (chain_exec K walk b op R))"
  using assms by (cases op) (simp_all add: withdrawal_marks)

lemma advances_withdrawn: "advances b R R' \<Longrightarrow> withdrawn R \<subseteq> withdrawn R'"
  unfolding advances_def withdrawn_def moves_def by fastforce

lemma run_pays:
  assumes "chains_ok R" and "unat (chr_next_chain_id R) + length ops < 2 ^ 32" and "\<forall>x \<in> set ops. height_ok (fst x)"
  shows "distinct (map payee (withdrawals (fst (chain_run K walk ops R))))
       \<and> payee ` set (withdrawals (fst (chain_run K walk ops R))) \<inter> withdrawn R = {}"
  using assms
proof (induction ops arbitrary: R)
  case (Cons x ops)
  obtain n op where x: "x = (n, op)" by (cases x)
  let ?r = "chain_exec K walk n op R"
  have fits: "unat (chr_next_chain_id R) + 1 < 2 ^ 32" using Cons.prems(2) by simp
  have adv: "advances n R (snd ?r)" using chain_exec_advances [OF Cons.prems(1) fits] Cons.prems(3) x by simp
  have ih: "distinct (map payee (withdrawals (fst (chain_run K walk ops (snd ?r)))))"
    "payee ` set (withdrawals (fst (chain_run K walk ops (snd ?r)))) \<inter> withdrawn (snd ?r) = {}"
    using Cons.IH [of "snd ?r"] adv Cons.prems(2,3) by (auto simp: advances_def)
  moreover have "withdrawn R \<subseteq> withdrawn (snd ?r)" using adv by (rule advances_withdrawn)
  moreover have "payee w \<notin> withdrawn R" "payee w \<in> withdrawn (snd ?r)" if "fst ?r = Some (Withdrawn w)" for w
    using exec_pays that by blast+
  ultimately show ?case unfolding x run_cons
    by (cases "fst ?r"; cases "the (fst ?r)") (auto simp: Let_def)
qed simp

section \<open>The purge loop\<close>

definition stuck :: "block_number \<Rightarrow> sidechain_info \<Rightarrow> bool" where
  "stuck b c \<longleftrightarrow>
     (case sci_status c of
        CS_PendingPurge \<Rightarrow> (\<forall>t. sci_purge_triggered_at c = Some t \<longrightarrow> b < t + PURGE_WARNING_PERIOD)
      | CS_WithdrawalWindow \<Rightarrow> (\<forall>w. sci_withdrawal_window_start c = Some w \<longrightarrow> b < w + WITHDRAWAL_WINDOW_DURATION)
      | CS_Frozen \<Rightarrow> False | CS_Snapshot \<Rightarrow> False | _ \<Rightarrow> True)"

fun stages_left :: "chain_status \<Rightarrow> nat" where
  "stages_left CS_PendingPurge = 4"
| "stages_left CS_Frozen = 3"
| "stages_left CS_Snapshot = 2"
| "stages_left CS_WithdrawalWindow = 1"
| "stages_left _ = 0"

lemma remove_from_host_chains [simp]: "chain_of (remove_from_host i R) = chain_of R"
  by (simp add: remove_from_host_def Let_def split: option.split sum.split)

lemma stuck_advance:
  assumes "chain_of R i = Some c" and "stuck b c"
  shows "advance_purge_state i b R = (Ok (sci_status c), R)"
  using assms by (auto simp: advance_purge_state_def stuck_def split: chain_status.splits option.splits)

lemma advance_progress:
  assumes "chain_of R i = Some c" and "\<not> stuck b c"
  obtains r R' c' where "advance_purge_state i b R = (Ok r, R')" and "chain_of R' = (chain_of R)(i \<mapsto> c')"
    and "stages_left (sci_status c') < stages_left (sci_status c)"
  using assms by (cases "sci_status c") (auto simp: advance_purge_state_def stuck_def Let_def not_less)

lemma advance_loop_settles:
  assumes "chain_of R i = Some c" and "stages_left (sci_status c) < n"
  shows "\<exists>c'. chain_of (advance_loop n i b R) = (chain_of R)(i \<mapsto> c') \<and> stuck b c'"
  using assms
proof (induction n arbitrary: R c)
  case (Suc n)
  show ?case
  proof (cases "stuck b c")
    case True
    then have "advance_loop (Suc n) i b R = R" using Suc.prems(1) by (simp add: stuck_advance)
    then show ?thesis using True Suc.prems(1) by (metis fun_upd_triv)
  next
    case False
    then obtain r R' c' where a: "advance_purge_state i b R = (Ok r, R')" and R': "chain_of R' = (chain_of R)(i \<mapsto> c')"
      and less: "stages_left (sci_status c') < stages_left (sci_status c)" using advance_progress [OF Suc.prems(1)] by metis
    have "sci_status c \<noteq> sci_status c'" using less by auto
    then have "advance_loop (Suc n) i b R = advance_loop n i b R'" using Suc.prems(1) a R' by simp
    moreover have "chain_of R' i = Some c'" using R' by simp
    moreover have "stages_left (sci_status c') < n" using less Suc.prems(2) by simp
    then obtain d where "chain_of (advance_loop n i b R') = (chain_of R')(i \<mapsto> d)" "stuck b d"
      using Suc.IH [OF calculation(2)] by blast
    ultimately show ?thesis using R' by (metis fun_upd_upd)
  qed
qed simp

lemma purge_one_settles:
  assumes "chain_of R i = Some c"
  shows "\<exists>c'. chain_of (snd (purge_one b i R)) = (chain_of R)(i \<mapsto> c') \<and> stuck b c'"
proof -
  have five: "stages_left x < 5" for x by (cases x) simp_all
  have loop: "\<exists>c''. chain_of (advance_loop 5 i b R') = (chain_of R)(i \<mapsto> c'') \<and> stuck b c''"
    if R': "chain_of R' = (chain_of R)(i \<mapsto> c')" for R' c'
    using advance_loop_settles [of R' i c' 5 b] five R' by simp
  have trig: "\<exists>c'. chain_of (snd (trigger_purge i t b R)) = (chain_of R)(i \<mapsto> c')" for t
    using assms fun_upd_triv [of "chain_of R" i] by (auto simp: trigger_purge_def) metis+
  have same: "chain_of R = (chain_of R)(i \<mapsto> c)" using assms by (metis fun_upd_triv)
  have "snd (purge_one b i R) = advance_loop 5 i b R \<or>
      (\<exists>t. snd (purge_one b i R) = advance_loop 5 i b (snd (trigger_purge i t b R)))"
    using assms by (auto simp: purge_one_def Let_def case_prod_beta split: option.split)
  then show ?thesis using loop [OF same] trig loop by metis
qed

lemma purge_all_settles:
  assumes "set cids \<subseteq> dom (chain_of R)" and "\<And>i c. i \<in> S \<Longrightarrow> chain_of R i = Some c \<Longrightarrow> stuck b c"
    and "chain_of (snd (purge_all b cids R)) i = Some c" and "i \<in> S \<union> set cids"
  shows "stuck b c"
  using assms
proof (induction cids arbitrary: R S)
  case (Cons j cids)
  then obtain c0 where "chain_of R j = Some c0" by auto
  then obtain c' where R': "chain_of (snd (purge_one b j R)) = (chain_of R)(j \<mapsto> c')" and st: "stuck b c'"
    using purge_one_settles by blast
  show ?case
  proof (rule Cons.IH [of "snd (purge_one b j R)" "insert j S"])
    show "set cids \<subseteq> dom (chain_of (snd (purge_one b j R)))" using Cons.prems(1) by (auto simp: R')
    show "stuck b d" if "k \<in> insert j S" "chain_of (snd (purge_one b j R)) k = Some d" for k d
      using that st Cons.prems(2) by (auto simp: R' split: if_splits)
    show "chain_of (snd (purge_all b cids (snd (purge_one b j R)))) i = Some c"
      using Cons.prems(3) by (simp add: case_prod_beta Let_def)
    show "i \<in> insert j S \<union> set cids" using Cons.prems(4) by auto
  qed
qed simp


lemma purge_all_dom:
  assumes "set cids \<subseteq> dom (chain_of R)"
  shows "dom (chain_of (snd (purge_all b cids R))) = dom (chain_of R)"
  using assms
proof (induction cids arbitrary: R)
  case (Cons j cids)
  then obtain c0 where j: "chain_of R j = Some c0" by auto
  then obtain c' where "chain_of (snd (purge_one b j R)) = (chain_of R)(j \<mapsto> c')" using purge_one_settles by blast
  then have "dom (chain_of (snd (purge_one b j R))) = dom (chain_of R)" using j by auto
  then show ?case using Cons.IH [of "snd (purge_one b j R)"] Cons.prems by (simp add: case_prod_beta Let_def)
qed simp

section \<open>Properties of the registry\<close>


text \<open>
  C21: no sudden purge.  Whenever an operation in block b turns a chain into a purged one, either
  nothing has happened on the chain for more than 90 days (1,296,000 blocks), or its purge was
  triggered at least 60 days (the 432,000 blocks of warning and the 432,000 of the withdrawal
  window) before b.
\<close>

theorem purge_notice:
  fixes K walk ops
  defines "R \<equiv> snd (chain_run K walk ops chain_registry_new)"
  assumes "length ops < 2 ^ 32 - 2" and "sorted (map fst ops)" and "\<forall>x \<in> set ops. fst x \<le> b" and "unat b < 2 ^ 63"
    and "chain_of R i = Some c" and "sci_status c \<noteq> CS_Purged"
    and "chain_of (snd (chain_exec K walk b op R)) i = Some c'" and "sci_status c' = CS_Purged"
  shows "chain_is_inactive b INACTIVITY_THRESHOLD c \<or> (\<exists>t. sci_purge_triggered_at c = Some t \<and> unat t + 864000 \<le> unat b)"
proof -
  have heights: "\<forall>x \<in> set ops. height_ok (fst x)" using assms(4,5) by (auto simp: height_ok_def word_le_nat_alt)
  note h = history_state [of ops b K walk, OF _ heights assms(3,4), folded R_def]
  have "chains_ok R" "timeline_ok b c" using h assms(2,6) by simp_all
  moreover have "unat (chr_next_chain_id R) + 1 < 2 ^ 32" using h(2) assms(2) by simp
  ultimately have "advances b R (snd (chain_exec K walk b op R))" using assms(5) by (intro chain_exec_advances) (simp_all add: height_ok_def)
  then obtain c'' where "chain_of (snd (chain_exec K walk b op R)) i = Some c''" "moves b c c''"
    using assms(6) unfolding advances_def by blast
  then have "noticed b c" using assms(7-9) \<open>timeline_ok b c\<close> by (simp add: moves_def)
  then show ?thesis by (auto simp: noticed_def const_defs)
qed

text \<open>
  C31: the purge loop ends at a fixed point.  \<open>auto_purge_v3_1\<close> advances each chain at most five
  times "to prevent infinite loops"; that bound never cuts a chain short: when the check has run in
  block b, advancing any chain once more in b changes nothing.
\<close>

theorem purge_loop_settles:
  assumes "chr_last_purge_check R + PURGE_CHECK_INTERVAL \<le> b"
    and "set (walk (hm_keys (chr_sidechains R))) = set (hm_keys (chr_sidechains R))"
    and "chain_of (snd (auto_purge_v3_1 walk b R)) i = Some c"
  shows "advance_purge_state i b (snd (auto_purge_v3_1 walk b R)) = (Ok (sci_status c), snd (auto_purge_v3_1 walk b R))"
proof -
  let ?R = "R\<lparr>chr_last_purge_check := b\<rparr>" and ?ids = "walk (hm_keys (chr_sidechains R))"
  have run: "snd (auto_purge_v3_1 walk b R) = snd (purge_all b ?ids ?R)"
    using assms(1) by (simp add: auto_purge_v3_1_def Let_def)
  have ids: "set ?ids = dom (chain_of ?R)" using assms(2) by (simp add: dom_map_of_conv_image_fst)
  have "i \<in> set ?ids" using assms(3) purge_all_dom [of ?ids ?R b] ids unfolding run by auto
  then have "stuck b c" using purge_all_settles [of ?ids ?R "{}" b i c] assms(3) ids unfolding run by simp
  then show ?thesis using stuck_advance [OF assms(3)] by blast
qed

text \<open>
  C16: no account withdraws twice.  In any history of fewer than 2^32 - 1 operations, in blocks below 2^63, each
  account withdraws from each chain at most once, over the three ways to withdraw (the owner's deposit,
  a balance with a Merkle proof, the emergency exit) and over all states the chain goes through.
  The deposit that \<open>purge_sidechain\<close> returns to its caller is no withdrawal and is not bounded by
  this: it is returned by every call on an inactive chain, also after the owner has withdrawn it.
\<close>

theorem withdraw_once:
  assumes "length ops < 2 ^ 32 - 1" and "\<forall>x \<in> set ops. unat (fst x) < 2 ^ 63"
  shows "distinct (map (\<lambda>w. (wd_chain_id w, wd_recipient w)) (withdrawals (fst (chain_run K walk ops chain_registry_new))))"
  using run_pays [of chain_registry_new ops K walk] assms chains_ok_new
  by (simp add: height_ok_def chain_registry_new_def payee_def [abs_def])

section \<open>A concrete history\<close>

definition demo_history :: "(block_number \<times> chain_op) list" where
  "demo_history =
     [(10, Op_CreateSidechain 7 None None None Sovereign None 10000), (20, Op_TriggerPurge 1 PT_GovernanceFailure),
      (500000, Op_AutoPurge), (500001, Op_Withdraw 1 7), (500002, Op_EmergencyExit 1 7 5 None)]"

lemma loop_five: "advance_loop 5 i b R = advance_loop (Suc (Suc (Suc (Suc (Suc 0))))) i b R"
  by (simp add: numeral_eq_Suc)

lemmas demo_run_simps = create_sidechain_def required_deposit_def Let_def andThen_def ret_def put_chain_def sidechain_new_def
  chain_registry_new_def const_defs trigger_purge_def auto_purge_v3_1_def purge_one_def check_purge_triggers_def loop_five
  advance_purge_state_def withdraw_from_purged_chain_def emergency_exit_def paid_def chain_is_inactive_def sat_sub_def

lemma demo_window:
  "fst (chain_run demo_crypto id demo_history chain_registry_new) =
     [Withdrawn \<lparr>wd_chain_id = 1, wd_recipient = 7, wd_amount = 10000, wd_withdrawal_type = OwnerDeposit\<rparr>]"
  "map_option sci_status (chain_of (snd (chain_run demo_crypto id demo_history chain_registry_new)) 1) = Some CS_WithdrawalWindow"
  unfolding demo_history_def by (simp_all add: demo_run_simps)


lemma demo_purged:
  "map_option sci_status (chain_of (snd (chain_exec demo_crypto id 1000000 Op_AutoPurge
     (snd (chain_run demo_crypto id demo_history chain_registry_new)))) 1) = Some CS_Purged"
  unfolding demo_history_def by (simp add: demo_run_simps remove_from_host_def)


theorem purge_notice_witness:
  "\<exists>c c'. chain_of (snd (chain_run demo_crypto id demo_history chain_registry_new)) 1 = Some c \<and> sci_status c = CS_WithdrawalWindow \<and>
     chain_of (snd (chain_exec demo_crypto id 1000000 Op_AutoPurge (snd (chain_run demo_crypto id demo_history chain_registry_new)))) 1 = Some c' \<and>
     sci_status c' = CS_Purged \<and>
     (chain_is_inactive 1000000 INACTIVITY_THRESHOLD c \<or> (\<exists>t. sci_purge_triggered_at c = Some t \<and> unat t + 864000 \<le> unat (1000000 :: u64)))"
proof -
  obtain c where c: "chain_of (snd (chain_run demo_crypto id demo_history chain_registry_new)) 1 = Some c" "sci_status c = CS_WithdrawalWindow"
    using demo_window(2) by (auto simp: map_option_eq_Some)
  obtain c' where c': "chain_of (snd (chain_exec demo_crypto id 1000000 Op_AutoPurge
      (snd (chain_run demo_crypto id demo_history chain_registry_new)))) 1 = Some c'" "sci_status c' = CS_Purged"
    using demo_purged unfolding map_option_eq_Some by blast
  have "length demo_history < 2 ^ 32 - 2" "sorted (map fst demo_history)" "\<forall>x \<in> set demo_history. fst x \<le> 1000000"
    "unat (1000000 :: u64) < 2 ^ 63" by (simp_all add: demo_history_def)
  then show ?thesis using purge_notice [of demo_history 1000000 demo_crypto id 1 c Op_AutoPurge c'] c c' by auto
qed

definition demo_pending :: chain_registry where
  "demo_pending = snd (chain_run demo_crypto id (take 2 demo_history) chain_registry_new)"

lemma demo_settled:
  "chr_last_purge_check demo_pending = 0"
  "map_option sci_status (chain_of (snd (auto_purge_v3_1 id 500000 demo_pending)) 1) = Some CS_WithdrawalWindow"
  unfolding demo_pending_def demo_history_def by (simp_all add: demo_run_simps)

theorem purge_loop_settles_witness:
  "\<exists>c. chain_of (snd (auto_purge_v3_1 id 500000 demo_pending)) 1 = Some c \<and> sci_status c = CS_WithdrawalWindow \<and>
     advance_purge_state 1 500000 (snd (auto_purge_v3_1 id 500000 demo_pending)) =
       (Ok CS_WithdrawalWindow, snd (auto_purge_v3_1 id 500000 demo_pending))"
proof -
  obtain c where c: "chain_of (snd (auto_purge_v3_1 id 500000 demo_pending)) 1 = Some c" "sci_status c = CS_WithdrawalWindow"
    using demo_settled(2) unfolding map_option_eq_Some by blast
  then show ?thesis using purge_loop_settles [of demo_pending 500000 id 1 c] demo_settled(1) by (simp add: PURGE_CHECK_INTERVAL_def)
qed

theorem withdraw_once_witness:
  "distinct (map (\<lambda>w. (wd_chain_id w, wd_recipient w)) (withdrawals (fst (chain_run demo_crypto id demo_history chain_registry_new)))) \<and>
   withdrawals (fst (chain_run demo_crypto id demo_history chain_registry_new)) =
     [\<lparr>wd_chain_id = 1, wd_recipient = 7, wd_amount = 10000, wd_withdrawal_type = OwnerDeposit\<rparr>]"
  using withdraw_once [of demo_history demo_crypto id] demo_window(1) by (simp add: demo_history_def)

section \<open>Gaps\<close>

text \<open>
  \<open>purge_sidechain\<close> looks neither at the status of the chain nor at the accounts that have withdrawn, and it
  leaves the deposit in place: after the owner has withdrawn the deposit of 10,000, two calls on the
  inactive chain return it twice more.
\<close>

lemma deposit_returned_again:
  "fst (chain_run demo_crypto id (take 4 demo_history @ [(1296011, Op_PurgeSidechain 1), (1296012, Op_PurgeSidechain 1)]) chain_registry_new) =
     [Withdrawn \<lparr>wd_chain_id = 1, wd_recipient = 7, wd_amount = 10000, wd_withdrawal_type = OwnerDeposit\<rparr>,
      DepositReturned 1 10000, DepositReturned 1 10000]"
  unfolding demo_history_def by (simp add: demo_run_simps purge_sidechain_def remove_from_host_def)

text \<open>
  The limit of 100 validators per sidechain is checked only when a validator is added to a sovereign
  chain; a shared chain receives the whole pool of its host, which may have 200.
\<close>

lemma shared_chain_exceeds_limit:
  assumes "chain_of R i = Some c" and "sci_security_mode c = Shared" and "affiliation R i = Some j"
    and "hostchain_of R j = Some h" and "MAX_VALIDATORS_PER_CHAIN < card (hci_validator_pool h)"
  shows "\<exists>c'. chain_of (snd (assign_validators i R)) i = Some c' \<and> MAX_VALIDATORS_PER_CHAIN < card (sci_validators c')"
  using assms by (simp add: assign_validators_def)

text \<open>
  \<open>withdraw_with_proof\<close> checks that the proof verifies and ends in the snapshot root, but not that
  its leaf says anything about the account or the amount: one valid proof lets every account that
  has not withdrawn yet take any amount.
\<close>

lemma proof_not_bound_to_account:
  assumes "chain_of R i = Some c" and "sci_status c = CS_WithdrawalWindow" and "sci_snapshot_state_root c = Some r"
    and "merkle_verify K p" and "mp_root p = r" and "a \<notin> sci_withdrawn_accounts c"
  shows "fst (withdraw_with_proof K i a amount p R) =
    Ok \<lparr>wd_chain_id = i, wd_recipient = a, wd_amount = amount, wd_withdrawal_type = UserBalance\<rparr>"
  using assms by (simp add: withdraw_with_proof_def)

text \<open>The emergency exit pays half of whatever the caller asks for, without any proof and in every state.\<close>

lemma emergency_exit_unbacked:
  assumes "chain_of R i = Some c" and "a \<notin> sci_withdrawn_accounts c" and "a \<noteq> sci_owner c"
  shows "fst (emergency_exit K i a amount None R) =
    Ok \<lparr>wd_chain_id = i, wd_recipient = a, wd_amount = amount div 2, wd_withdrawal_type = Emergency\<rparr>"
  using assms by (simp add: emergency_exit_def emergency_amount_def Let_def)

text \<open>
  A Merkle proof carries its own root, so anybody can write an \<open>InvalidExit\<close> proof that verifies;
  nothing in it is compared with the chain it accuses.  One such proof starts the purge of any active
  chain with at most three validators.
\<close>

definition forged_proof :: "crypto \<Rightarrow> chain_id \<Rightarrow> sidechain_info \<Rightarrow> block_number \<Rightarrow> fraud_proof" where
  "forged_proof K i c b =
     InvalidExit i c (InvalidChainState []) \<lparr>mp_leaf = [], mp_leaf_index = 0, mp_proof = [], mp_root = blake3 K [],
       mp_block_number = b, mp_chain_id = i\<rparr> b"

lemma forged_fraud_proof_purges:
  assumes c: "chain_of R i = Some c" and active: "sci_status c = CS_Active" and n: "card (sci_validators c) \<in> {1, 2, 3}"
    and "sci_slashed_validators_count c = 0" and "unat b < 2 ^ 63"
  shows "fst (apply_fraud_proof K (forged_proof K i c b) b R) = Ok True"
    and "map_option sci_status (chain_of (snd (apply_fraud_proof K (forged_proof K i c b) b R)) i) = Some CS_PendingPurge"
proof -
  have "\<not> b + FRAUD_PROOF_VALIDITY_PERIOD < b"
    using assms(5) unat_add_fits [of b FRAUD_PROOF_VALIDITY_PERIOD] by (simp add: const_defs word_less_nat_alt)
  moreover have "VALIDATOR_FRAUD_THRESHOLD_PERCENT \<le> 100 div of_nat (card (sci_validators c))" "card (sci_validators c) \<noteq> 0"
    using n by (auto simp: const_defs)
  ultimately show "fst (apply_fraud_proof K (forged_proof K i c b) b R) = Ok True"
    "map_option sci_status (chain_of (snd (apply_fraud_proof K (forged_proof K i c b) b R)) i) = Some CS_PendingPurge"
    using assms by (simp_all add: apply_fraud_proof_def verify_fraud_proof_def forged_proof_def verify_invalid_exit_def merkle_verify_def
        andThen_def ret_def chain_slash_validator_def modify_chain_def trigger_purge_def)
qed

text \<open>An inherited chain without a parent is refused with an error, but stays in the registry.\<close>

lemma failed_creation_registers_chain:
  "fst (create_sidechain a None None None Inherited None 1000 b chain_registry_new) = Err ParentNotFound"
  "chain_of (snd (create_sidechain a None None None Inherited None 1000 b chain_registry_new)) 1 \<noteq> None"
  by (simp_all add: create_sidechain_def required_deposit_def const_defs chain_registry_new_def andThen_def ret_def Let_def
      assign_validators_def sidechain_new_def put_chain_def)

text \<open>A chain that moves to a second host remains a member of the first one.\<close>

lemma second_host_leaves_first:
  assumes "chain_of R i = Some c" and "hostchain_of R j = Some h" and "hostchain_of R k = Some h'" and "j \<noteq> k"
    and "card (hci_member_chains h) < 100" and "card (hci_member_chains h') < 100"
  defines "R' \<equiv> snd (affiliate_sidechain i k (snd (affiliate_sidechain i j R)))"
  shows "affiliation R' i = Some k" and "\<exists>g. hostchain_of R' j = Some g \<and> i \<in> hci_member_chains g"
  using assms by (simp_all add: affiliate_sidechain_def hm_contains_def host_add_member_def put_host_def const_defs)

end
