(* ===== verification/Kratos_Security.thy ===== *)
theory Kratos_Security
  imports Kratos_Economics
begin

text \<open>
  The security state machine of the network (\<^verbatim>\<open>SecurityStateTracker\<close> in
  \<^verbatim>\<open>consensus/economics.rs\<close>): from bootstrap through normal operation to the degraded,
  restricted and emergency states and back, driven once per epoch by the number of active
  validators.  The variants \<open>DegradedSecurityMode\<close>, \<open>SafetyHaltMode\<close>, \<open>TerminalMode\<close> and
  \<open>BootstrapRecoveryMode\<close> are \<open>NS_Degraded\<close>, \<open>NS_Restricted\<close>, \<open>NS_Emergency\<close> and
  \<open>NS_Recovery\<close>, the names SPEC v7.1 gives them.  The formatted texts of the audit log and of the
  health report are data types with the values the texts show.
\<close>

section \<open>Thresholds and configuration\<close>

definition BOOTSTRAP_MIN_VALIDATORS :: u32 where [const_defs]: "BOOTSTRAP_MIN_VALIDATORS = 1"
definition POST_BOOTSTRAP_MIN_VALIDATORS :: u32 where [const_defs]: "POST_BOOTSTRAP_MIN_VALIDATORS = 50"
definition SAFE_VALIDATORS :: u32 where [const_defs]: "SAFE_VALIDATORS = 75"
definition OPTIMAL_VALIDATORS :: u32 where [const_defs]: "OPTIMAL_VALIDATORS = 101"
definition EMERGENCY_VALIDATORS :: u32 where [const_defs]: "EMERGENCY_VALIDATORS = 25"
definition V_MIN_ABSOLUTE :: u32 where [const_defs]: "V_MIN_ABSOLUTE = EMERGENCY_VALIDATORS"
definition MIN_PARTICIPATION_PERCENT :: u32 where [const_defs]: "MIN_PARTICIPATION_PERCENT = 90"
definition PARTICIPATION_WINDOW :: epoch_number where [const_defs]: "PARTICIPATION_WINDOW = 100"
definition NORMAL_RECOVERY_EPOCHS :: epoch_number where [const_defs]: "NORMAL_RECOVERY_EPOCHS = 100"
definition COLLAPSE_DETECTION_EPOCHS :: epoch_number where [const_defs]: "COLLAPSE_DETECTION_EPOCHS = 10"
definition TERMINAL_NO_FINALITY_EPOCHS :: epoch_number where [const_defs]: "TERMINAL_NO_FINALITY_EPOCHS = 24"

datatype network_security_state =
    NS_Bootstrap
  | NS_Normal
  | NS_Degraded (ns_entered_at: epoch_number) (ns_epochs_in_state: epoch_number) (ns_current_validators: u32)
      (ns_validators_needed: u32) (ns_consecutive_epochs_above_safe: epoch_number)
  | NS_Restricted (ns_entered_at: epoch_number) (ns_epochs_in_state: epoch_number) (ns_current_validators: u32)
      (ns_epochs_without_finality: epoch_number)
  | NS_Emergency (ns_entered_at: epoch_number) (ns_epochs_in_state: epoch_number) (ns_current_validators: u32)
      (ns_terminal_state_root: "hash option")
  | NS_Recovery (ns_entered_at: epoch_number) (ns_epochs_in_state: epoch_number) (ns_current_validators: u32)
      (ns_validators_needed: u32)

record degraded_security_config =
  dc_degraded_inflation_boost_percent :: u32
  dc_degraded_governance_timelock_multiplier :: u32
  dc_degraded_sidechains_paused :: bool
  dc_restricted_governance_frozen :: bool
  dc_restricted_validator_incentives_boosted :: bool
  dc_restricted_emergency_armed :: bool
  dc_emergency_auto_trigger :: bool
  dc_emergency_fork_allowed :: bool
  dc_emergency_exit_always_allowed :: bool
  dc_emergency_no_slashing_escalation :: bool
  dc_emergency_no_identity_freeze :: bool
  dc_emergency_no_fork_suppression :: bool
  dc_normal_recovery_epochs :: epoch_number
  dc_collapse_detection_epochs :: epoch_number
  dc_min_participation_percent :: u32
  dc_participation_window :: epoch_number
  dc_dsm_block_time_multiplier :: u32
  dc_dsm_epoch_duration_multiplier :: u32
  dc_dsm_governance_timelock_multiplier :: u32
  dc_dsm_slashing_tightened :: bool
  dc_dsm_inflation_capped :: bool
  dc_dsm_emergency_disabled :: bool
  dc_critical_block_time_multiplier :: u32
  dc_critical_governance_frozen :: bool
  dc_critical_fork_enabled :: bool
  dc_critical_fork_threshold_reduction_percent :: u32
  dc_shm_no_slashing :: bool
  dc_shm_exits_allowed :: bool
  dc_shm_fork_allowed :: bool
  dc_terminal_no_finality_epochs :: epoch_number
  dc_terminal_read_only :: bool
  dc_terminal_fork_mandatory :: bool
  dc_terminal_fork_threshold_reduction_percent :: u32
  dc_dsm_recovery_epochs :: epoch_number
  dc_shm_recovery_epochs :: epoch_number
  dc_bootstrap_reentry_epochs :: epoch_number
  dc_dsm_stake_reduction_percent :: u32
  dc_inflation_redirect_to_validators_percent :: u32
  dc_floor_grace_epochs :: epoch_number
  dc_shm_block_halted :: bool
  dc_shm_no_governance :: bool

definition default_degraded_config :: degraded_security_config where
  "default_degraded_config =
     \<lparr>dc_degraded_inflation_boost_percent = 1, dc_degraded_governance_timelock_multiplier = 2,
      dc_degraded_sidechains_paused = True, dc_restricted_governance_frozen = True,
      dc_restricted_validator_incentives_boosted = True, dc_restricted_emergency_armed = True,
      dc_emergency_auto_trigger = True, dc_emergency_fork_allowed = True, dc_emergency_exit_always_allowed = True,
      dc_emergency_no_slashing_escalation = True, dc_emergency_no_identity_freeze = True,
      dc_emergency_no_fork_suppression = True, dc_normal_recovery_epochs = NORMAL_RECOVERY_EPOCHS,
      dc_collapse_detection_epochs = COLLAPSE_DETECTION_EPOCHS,
      dc_min_participation_percent = MIN_PARTICIPATION_PERCENT, dc_participation_window = PARTICIPATION_WINDOW,
      dc_dsm_block_time_multiplier = 2, dc_dsm_epoch_duration_multiplier = 2,
      dc_dsm_governance_timelock_multiplier = 2, dc_dsm_slashing_tightened = True, dc_dsm_inflation_capped = False,
      dc_dsm_emergency_disabled = True, dc_critical_block_time_multiplier = 4, dc_critical_governance_frozen = True,
      dc_critical_fork_enabled = True, dc_critical_fork_threshold_reduction_percent = 25, dc_shm_no_slashing = True,
      dc_shm_exits_allowed = True, dc_shm_fork_allowed = True,
      dc_terminal_no_finality_epochs = TERMINAL_NO_FINALITY_EPOCHS, dc_terminal_read_only = True,
      dc_terminal_fork_mandatory = True, dc_terminal_fork_threshold_reduction_percent = 25,
      dc_dsm_recovery_epochs = NORMAL_RECOVERY_EPOCHS, dc_shm_recovery_epochs = 1,
      dc_bootstrap_reentry_epochs = COLLAPSE_DETECTION_EPOCHS, dc_dsm_stake_reduction_percent = 30,
      dc_inflation_redirect_to_validators_percent = 100, dc_floor_grace_epochs = 1, dc_shm_block_halted = False,
      dc_shm_no_governance = True\<rparr>"

definition lenient_degraded_config :: degraded_security_config where
  "lenient_degraded_config =
     \<lparr>dc_degraded_inflation_boost_percent = 0, dc_degraded_governance_timelock_multiplier = 1,
      dc_degraded_sidechains_paused = False, dc_restricted_governance_frozen = False,
      dc_restricted_validator_incentives_boosted = True, dc_restricted_emergency_armed = False,
      dc_emergency_auto_trigger = True, dc_emergency_fork_allowed = True, dc_emergency_exit_always_allowed = True,
      dc_emergency_no_slashing_escalation = True, dc_emergency_no_identity_freeze = True,
      dc_emergency_no_fork_suppression = True, dc_normal_recovery_epochs = 20, dc_collapse_detection_epochs = 3,
      dc_min_participation_percent = 80, dc_participation_window = 50, dc_dsm_block_time_multiplier = 1,
      dc_dsm_epoch_duration_multiplier = 1, dc_dsm_governance_timelock_multiplier = 1,
      dc_dsm_slashing_tightened = False, dc_dsm_inflation_capped = False, dc_dsm_emergency_disabled = False,
      dc_critical_block_time_multiplier = 2, dc_critical_governance_frozen = False, dc_critical_fork_enabled = True,
      dc_critical_fork_threshold_reduction_percent = 10, dc_shm_no_slashing = True, dc_shm_exits_allowed = True,
      dc_shm_fork_allowed = True, dc_terminal_no_finality_epochs = 12, dc_terminal_read_only = True,
      dc_terminal_fork_mandatory = True, dc_terminal_fork_threshold_reduction_percent = 10,
      dc_dsm_recovery_epochs = 20, dc_shm_recovery_epochs = 1, dc_bootstrap_reentry_epochs = 3,
      dc_dsm_stake_reduction_percent = 20, dc_inflation_redirect_to_validators_percent = 100,
      dc_floor_grace_epochs = 1, dc_shm_block_halted = False, dc_shm_no_governance = False\<rparr>"

definition strict_degraded_config :: degraded_security_config where
  "strict_degraded_config =
     \<lparr>dc_degraded_inflation_boost_percent = 2, dc_degraded_governance_timelock_multiplier = 3,
      dc_degraded_sidechains_paused = True, dc_restricted_governance_frozen = True,
      dc_restricted_validator_incentives_boosted = True, dc_restricted_emergency_armed = True,
      dc_emergency_auto_trigger = True, dc_emergency_fork_allowed = True, dc_emergency_exit_always_allowed = True,
      dc_emergency_no_slashing_escalation = True, dc_emergency_no_identity_freeze = True,
      dc_emergency_no_fork_suppression = True, dc_normal_recovery_epochs = 150, dc_collapse_detection_epochs = 5,
      dc_min_participation_percent = 95, dc_participation_window = 100, dc_dsm_block_time_multiplier = 3,
      dc_dsm_epoch_duration_multiplier = 3, dc_dsm_governance_timelock_multiplier = 3,
      dc_dsm_slashing_tightened = True, dc_dsm_inflation_capped = False, dc_dsm_emergency_disabled = True,
      dc_critical_block_time_multiplier = 6, dc_critical_governance_frozen = True, dc_critical_fork_enabled = True,
      dc_critical_fork_threshold_reduction_percent = 30, dc_shm_no_slashing = True, dc_shm_exits_allowed = True,
      dc_shm_fork_allowed = True, dc_terminal_no_finality_epochs = 12, dc_terminal_read_only = True,
      dc_terminal_fork_mandatory = True, dc_terminal_fork_threshold_reduction_percent = 30,
      dc_dsm_recovery_epochs = 150, dc_shm_recovery_epochs = 2, dc_bootstrap_reentry_epochs = 5,
      dc_dsm_stake_reduction_percent = 40, dc_inflation_redirect_to_validators_percent = 100,
      dc_floor_grace_epochs = 1, dc_shm_block_halted = False, dc_shm_no_governance = True\<rparr>"

definition inflation_boost :: "degraded_security_config \<Rightarrow> f64" where
  "inflation_boost C = fdiv (f64_of_word (dc_degraded_inflation_boost_percent C)) 100"

definition rewards_multiplier :: "degraded_security_config \<Rightarrow> f64" where
  "rewards_multiplier C = (if dc_restricted_validator_incentives_boosted C then 5 / 4 else 1)"

definition should_auto_trigger_emergency :: "u32 \<Rightarrow> degraded_security_config \<Rightarrow> bool" where
  "should_auto_trigger_emergency active_validators C =
     (dc_emergency_auto_trigger C \<and> active_validators < EMERGENCY_VALIDATORS)"

section \<open>The tracker\<close>

datatype transition_reason =
    BootstrapCompleted epoch_number epoch_number u32 u32
  | EnteredCritical u32 u32
  | EnteredDegraded u32 u32
  | EnteredEmergency u32 u32
  | EnteredRestricted u32 u32
  | EnteredRecovery epoch_number
  | RecoveredToNormal u32 u32 epoch_number
  | LeftRestricted u32 u32
  | LeftEmergency u32 u32
  | RecoveryToEmergency u32 u32
  | RecoveryToRestricted u32 u32
  | LeftRecovery u32 u32
  | BootstrapCompletedText

record state_transition =
  st_from_state :: string
  st_to_state :: string
  st_epoch :: epoch_number
  st_validator_count :: u32
  st_reason :: transition_reason

record security_tracker =
  tk_state :: network_security_state
  tk_config :: degraded_security_config
  tk_epochs_below_minimum :: epoch_number
  tk_epochs_above_minimum_in_dsm :: epoch_number
  tk_bootstrap_completed :: bool
  tk_min_validators :: u32
  tk_absolute_min_validators :: u32
  tk_shm_active :: bool
  tk_terminal_active :: bool
  tk_bootstrap_recovery_active :: bool
  tk_bootstrap_extensions :: u32
  tk_state_transitions :: "state_transition list"

definition tracker_with_absolute_min :: "u32 \<Rightarrow> u32 \<Rightarrow> degraded_security_config \<Rightarrow> security_tracker" where
  "tracker_with_absolute_min min_validators absolute_min_validators config =
     \<lparr>tk_state = NS_Bootstrap, tk_config = config, tk_epochs_below_minimum = 0, tk_epochs_above_minimum_in_dsm = 0,
      tk_bootstrap_completed = False, tk_min_validators = min_validators, tk_absolute_min_validators = absolute_min_validators,
      tk_shm_active = False, tk_terminal_active = False, tk_bootstrap_recovery_active = False, tk_bootstrap_extensions = 0,
      tk_state_transitions = []\<rparr>"

definition security_tracker_new :: "u32 \<Rightarrow> degraded_security_config \<Rightarrow> security_tracker" where
  "security_tracker_new min_validators config = tracker_with_absolute_min min_validators V_MIN_ABSOLUTE config"

definition post_bootstrap :: "u32 \<Rightarrow> degraded_security_config \<Rightarrow> security_tracker" where
  "post_bootstrap min_validators config =
     (security_tracker_new min_validators config)\<lparr>tk_state := NS_Normal, tk_bootstrap_completed := True,
        tk_state_transitions := [\<lparr>st_from_state = ''Bootstrap'', st_to_state = ''Normal'', st_epoch = 0,
          st_validator_count = min_validators, st_reason = BootstrapCompletedText\<rparr>]\<rparr>"

fun state_name :: "network_security_state \<Rightarrow> string" where
  "state_name NS_Bootstrap = ''Bootstrap''"
| "state_name NS_Normal = ''Healthy''"
| "state_name (NS_Degraded _ _ _ _ _) = ''Degraded''"
| "state_name (NS_Restricted _ _ _ _) = ''Critical''"
| "state_name (NS_Emergency _ _ _ _) = ''Terminal''"
| "state_name (NS_Recovery _ _ _ _) = ''BootstrapRecovery''"

definition record_transition ::
  "network_security_state \<Rightarrow> epoch_number \<Rightarrow> u32 \<Rightarrow> transition_reason \<Rightarrow> security_tracker \<Rightarrow> security_tracker" where
  "record_transition from epoch validator_count reason T =
     (let log = tk_state_transitions T @ [\<lparr>st_from_state = state_name from, st_to_state = state_name (tk_state T),
            st_epoch = epoch, st_validator_count = validator_count, st_reason = reason\<rparr>]
      in T\<lparr>tk_state_transitions := (if 100 < length log then tl log else log)\<rparr>)"

text \<open>One branch of \<open>update\<close> per state; each returns the new state when there was a transition.\<close>

type_synonym tracker_step = "security_tracker \<Rightarrow> network_security_state option \<times> security_tracker"

definition moved :: "network_security_state \<Rightarrow> epoch_number \<Rightarrow> u32 \<Rightarrow> transition_reason \<Rightarrow> security_tracker \<Rightarrow> network_security_state option \<times> security_tracker" where
  "moved previous epoch validators reason T =
     (let T' = record_transition previous epoch validators reason T in (Some (tk_state T'), T'))"

definition update_bootstrap :: "epoch_number \<Rightarrow> u32 \<Rightarrow> bootstrap_config \<Rightarrow> tracker_step" where
  "update_bootstrap epoch active B T =
     (if bc_end_epoch B \<le> epoch \<and> tk_min_validators T \<le> active
      then moved (tk_state T) epoch active (BootstrapCompleted epoch (bc_end_epoch B) active (tk_min_validators T))
             (T\<lparr>tk_bootstrap_completed := True, tk_state := NS_Normal\<rparr>)
      else (None, T))"

definition update_normal :: "epoch_number \<Rightarrow> u32 \<Rightarrow> tracker_step" where
  "update_normal epoch active T =
     (if active < tk_min_validators T
      then
        let T1 = T\<lparr>tk_epochs_below_minimum := tk_epochs_below_minimum T + 1\<rparr>
        in if dc_floor_grace_epochs (tk_config T1) \<le> tk_epochs_below_minimum T1
           then if active < tk_absolute_min_validators T1
                then moved (tk_state T) epoch active (EnteredCritical active (tk_absolute_min_validators T1))
                       (T1\<lparr>tk_state := NS_Restricted epoch 0 active 0, tk_shm_active := True, tk_epochs_below_minimum := 0\<rparr>)
                else moved (tk_state T) epoch active (EnteredDegraded active SAFE_VALIDATORS)
                       (T1\<lparr>tk_state := NS_Degraded epoch 0 active (tk_min_validators T1 - active) 0, tk_epochs_below_minimum := 0\<rparr>)
           else (None, T1)
      else (None, T\<lparr>tk_epochs_below_minimum := 0\<rparr>))"

definition update_degraded :: "epoch_number \<Rightarrow> epoch_number \<Rightarrow> epoch_number \<Rightarrow> epoch_number \<Rightarrow> u32 \<Rightarrow> tracker_step" where
  "update_degraded entered in_dsm consecutive epoch active T =
     (if active < EMERGENCY_VALIDATORS
      then moved (tk_state T) epoch active (EnteredEmergency active EMERGENCY_VALIDATORS)
             (T\<lparr>tk_state := NS_Emergency epoch 0 active None, tk_terminal_active := True, tk_shm_active := False,
                tk_epochs_above_minimum_in_dsm := 0\<rparr>)
      else if active < POST_BOOTSTRAP_MIN_VALIDATORS
      then moved (tk_state T) epoch active (EnteredRestricted active POST_BOOTSTRAP_MIN_VALIDATORS)
             (T\<lparr>tk_state := NS_Restricted epoch 0 active 0, tk_shm_active := True, tk_epochs_above_minimum_in_dsm := 0\<rparr>)
      else if dc_collapse_detection_epochs (tk_config T) \<le> in_dsm \<and> active < SAFE_VALIDATORS
      then moved (tk_state T) epoch active (EnteredRecovery in_dsm)
             (T\<lparr>tk_state := NS_Recovery epoch 0 active (SAFE_VALIDATORS - active), tk_bootstrap_recovery_active := True,
                tk_epochs_above_minimum_in_dsm := 0\<rparr>)
      else if SAFE_VALIDATORS \<le> active
      then if dc_normal_recovery_epochs (tk_config T) \<le> consecutive + 1
           then moved (tk_state T) epoch active (RecoveredToNormal active SAFE_VALIDATORS (dc_normal_recovery_epochs (tk_config T)))
                  (T\<lparr>tk_state := NS_Normal, tk_epochs_above_minimum_in_dsm := 0\<rparr>)
           else (None, T\<lparr>tk_epochs_above_minimum_in_dsm := consecutive + 1,
                    tk_state := NS_Degraded entered (in_dsm + 1) active 0 (consecutive + 1)\<rparr>)
      else (None, T\<lparr>tk_epochs_above_minimum_in_dsm := 0,
               tk_state := NS_Degraded entered (in_dsm + 1) active (SAFE_VALIDATORS - active) 0\<rparr>))"

definition update_restricted :: "epoch_number \<Rightarrow> epoch_number \<Rightarrow> epoch_number \<Rightarrow> epoch_number \<Rightarrow> u32 \<Rightarrow> tracker_step" where
  "update_restricted entered in_shm no_finality epoch active T =
     (if active < EMERGENCY_VALIDATORS
      then moved (tk_state T) epoch active (EnteredEmergency active EMERGENCY_VALIDATORS)
             (T\<lparr>tk_state := NS_Emergency epoch 0 active None, tk_terminal_active := True, tk_shm_active := False\<rparr>)
      else if POST_BOOTSTRAP_MIN_VALIDATORS \<le> active \<and> dc_shm_recovery_epochs (tk_config T) \<le> in_shm
      then moved (tk_state T) epoch active (LeftRestricted active POST_BOOTSTRAP_MIN_VALIDATORS)
             ((if SAFE_VALIDATORS \<le> active
               then T\<lparr>tk_state := NS_Degraded epoch 0 active 0 1, tk_epochs_above_minimum_in_dsm := 1\<rparr>
               else T\<lparr>tk_state := NS_Degraded epoch 0 active (SAFE_VALIDATORS - active) 0,
                      tk_epochs_above_minimum_in_dsm := 0\<rparr>)\<lparr>tk_shm_active := False\<rparr>)
      else (None, T\<lparr>tk_state := NS_Restricted entered (in_shm + 1) active (no_finality + 1)\<rparr>))"

definition update_emergency :: "epoch_number \<Rightarrow> epoch_number \<Rightarrow> hash option \<Rightarrow> epoch_number \<Rightarrow> u32 \<Rightarrow> tracker_step" where
  "update_emergency entered in_terminal state_root epoch active T =
     (if EMERGENCY_VALIDATORS \<le> active
      then moved (tk_state T) epoch active (LeftEmergency active EMERGENCY_VALIDATORS)
             (T\<lparr>tk_state := NS_Restricted epoch 0 active 0, tk_shm_active := True, tk_terminal_active := False\<rparr>)
      else (None, T\<lparr>tk_state := NS_Emergency entered (in_terminal + 1) active state_root\<rparr>))"

definition update_recovery :: "epoch_number \<Rightarrow> epoch_number \<Rightarrow> epoch_number \<Rightarrow> u32 \<Rightarrow> tracker_step" where
  "update_recovery entered in_recovery epoch active T =
     (if active < EMERGENCY_VALIDATORS
      then moved (tk_state T) epoch active (RecoveryToEmergency active EMERGENCY_VALIDATORS)
             (T\<lparr>tk_state := NS_Emergency epoch 0 active None, tk_terminal_active := True, tk_bootstrap_recovery_active := False\<rparr>)
      else if active < POST_BOOTSTRAP_MIN_VALIDATORS
      then moved (tk_state T) epoch active (RecoveryToRestricted active POST_BOOTSTRAP_MIN_VALIDATORS)
             (T\<lparr>tk_state := NS_Restricted epoch 0 active 0, tk_shm_active := True, tk_bootstrap_recovery_active := False\<rparr>)
      else if SAFE_VALIDATORS \<le> active
      then moved (tk_state T) epoch active (LeftRecovery active SAFE_VALIDATORS)
             (T\<lparr>tk_state := NS_Degraded epoch 0 active 0 1, tk_epochs_above_minimum_in_dsm := 1,
                tk_bootstrap_recovery_active := False\<rparr>)
      else (None, T\<lparr>tk_state := NS_Recovery entered (in_recovery + 1) active (SAFE_VALIDATORS - active)\<rparr>))"

definition tracker_update :: "epoch_number \<Rightarrow> u32 \<Rightarrow> bootstrap_config \<Rightarrow> balance \<Rightarrow> tracker_step" where
  "tracker_update epoch active B total_stake T =
     (case tk_state T of
        NS_Bootstrap \<Rightarrow> update_bootstrap epoch active B T
      | NS_Normal \<Rightarrow> update_normal epoch active T
      | NS_Degraded entered in_dsm _ _ consecutive \<Rightarrow> update_degraded entered in_dsm consecutive epoch active T
      | NS_Restricted entered in_shm _ no_finality \<Rightarrow> update_restricted entered in_shm no_finality epoch active T
      | NS_Emergency entered in_terminal _ state_root \<Rightarrow> update_emergency entered in_terminal state_root epoch active T
      | NS_Recovery entered in_recovery _ _ \<Rightarrow> update_recovery entered in_recovery epoch active T)"

section \<open>Effects of the states\<close>

definition is_dsm :: "security_tracker \<Rightarrow> bool" where
  "is_dsm T = (case tk_state T of NS_Degraded _ _ _ _ _ \<Rightarrow> True | _ \<Rightarrow> False)"
definition is_shm :: "security_tracker \<Rightarrow> bool" where
  "is_shm T = (case tk_state T of NS_Restricted _ _ _ _ \<Rightarrow> True | _ \<Rightarrow> False)"
definition is_terminal :: "security_tracker \<Rightarrow> bool" where
  "is_terminal T = (case tk_state T of NS_Emergency _ _ _ _ \<Rightarrow> True | _ \<Rightarrow> False)"
definition is_bootstrap_recovery_mode :: "security_tracker \<Rightarrow> bool" where
  "is_bootstrap_recovery_mode T = (case tk_state T of NS_Recovery _ _ _ _ \<Rightarrow> True | _ \<Rightarrow> False)"
definition is_degraded :: "security_tracker \<Rightarrow> bool" where
  "is_degraded T = (is_dsm T \<or> is_shm T \<or> is_terminal T \<or> is_bootstrap_recovery_mode T)"
definition is_halted :: "security_tracker \<Rightarrow> bool" where
  "is_halted T = (is_terminal T \<and> dc_terminal_read_only (tk_config T))"
definition is_emergency_mode :: "security_tracker \<Rightarrow> bool" where
  "is_emergency_mode T = (is_shm T \<or> is_terminal T)"

definition get_block_time_multiplier :: "security_tracker \<Rightarrow> u32" where
  "get_block_time_multiplier T =
     (case tk_state T of
        NS_Degraded _ _ _ _ _ \<Rightarrow> dc_dsm_block_time_multiplier (tk_config T)
      | NS_Recovery _ _ _ _ \<Rightarrow> dc_dsm_block_time_multiplier (tk_config T)
      | NS_Restricted _ _ _ _ \<Rightarrow> dc_critical_block_time_multiplier (tk_config T)
      | NS_Emergency _ _ _ _ \<Rightarrow> 0
      | _ \<Rightarrow> 1)"

definition get_governance_timelock_multiplier :: "security_tracker \<Rightarrow> u32" where
  "get_governance_timelock_multiplier T =
     (case tk_state T of
        NS_Degraded _ _ _ _ _ \<Rightarrow> dc_dsm_governance_timelock_multiplier (tk_config T)
      | NS_Recovery _ _ _ _ \<Rightarrow> dc_dsm_governance_timelock_multiplier (tk_config T)
      | NS_Restricted _ _ _ _ \<Rightarrow> 0
      | NS_Emergency _ _ _ _ \<Rightarrow> 0
      | _ \<Rightarrow> 1)"

definition get_block_time_increase_percent :: "security_tracker \<Rightarrow> u32" where
  "get_block_time_increase_percent T = sat_sub (get_block_time_multiplier T) 1 * 100"

definition get_validator_reward_boost :: "security_tracker \<Rightarrow> u32" where
  "get_validator_reward_boost T = (case tk_state T of NS_Recovery _ _ _ _ \<Rightarrow> 25 | _ \<Rightarrow> 0)"

definition get_slashing_reduction :: "security_tracker \<Rightarrow> u32" where
  "get_slashing_reduction T =
     (case tk_state T of NS_Restricted _ _ _ _ \<Rightarrow> if dc_shm_no_slashing (tk_config T) then 100 else 0 | _ \<Rightarrow> 0)"

definition is_fast_track_onboarding :: "security_tracker \<Rightarrow> bool" where
  "is_fast_track_onboarding T =
     (case tk_state T of NS_Degraded _ _ _ _ _ \<Rightarrow> True | NS_Restricted _ _ _ _ \<Rightarrow> True | NS_Recovery _ _ _ _ \<Rightarrow> True | _ \<Rightarrow> False)"

definition get_inflation_cap_increase_x10 :: "security_tracker \<Rightarrow> u32" where
  "get_inflation_cap_increase_x10 T = (case tk_state T of NS_Recovery _ _ _ _ \<Rightarrow> 10 | _ \<Rightarrow> 0)"

definition get_vc_multiplier :: "security_tracker \<Rightarrow> f64" where
  "get_vc_multiplier T = (case tk_state T of NS_Recovery _ _ _ _ \<Rightarrow> 2 | _ \<Rightarrow> 1)"

definition is_inflation_change_allowed :: "security_tracker \<Rightarrow> bool" where
  "is_inflation_change_allowed T =
     (case tk_state T of NS_Degraded _ _ _ _ _ \<Rightarrow> False | NS_Restricted _ _ _ _ \<Rightarrow> False | NS_Emergency _ _ _ _ \<Rightarrow> False | _ \<Rightarrow> True)"

definition is_governance_allowed :: "bool \<Rightarrow> security_tracker \<Rightarrow> bool" where
  "is_governance_allowed is_constitutional T =
     (case tk_state T of
        NS_Restricted _ _ _ _ \<Rightarrow> \<not> dc_critical_governance_frozen (tk_config T)
      | NS_Emergency _ _ _ _ \<Rightarrow> False
      | _ \<Rightarrow> True)"

definition is_parameter_change_allowed :: "security_tracker \<Rightarrow> bool" where
  "is_parameter_change_allowed T = (case tk_state T of NS_Bootstrap \<Rightarrow> True | NS_Normal \<Rightarrow> True | _ \<Rightarrow> False)"

definition is_slashing_allowed :: "security_tracker \<Rightarrow> bool" where
  "is_slashing_allowed T =
     (case tk_state T of
        NS_Restricted _ _ _ _ \<Rightarrow> \<not> dc_shm_no_slashing (tk_config T)
      | NS_Emergency _ _ _ _ \<Rightarrow> \<not> dc_shm_no_slashing (tk_config T)
      | _ \<Rightarrow> True)"

definition get_validator_rewards_multiplier :: "security_tracker \<Rightarrow> f64" where
  "get_validator_rewards_multiplier T = (case tk_state T of NS_Recovery _ _ _ _ \<Rightarrow> 5 / 4 | _ \<Rightarrow> 1)"

definition get_inflation_redirect_to_validators_percent :: "security_tracker \<Rightarrow> u32" where
  "get_inflation_redirect_to_validators_percent T =
     (case tk_state T of
        NS_Degraded _ _ _ _ _ \<Rightarrow> dc_inflation_redirect_to_validators_percent (tk_config T)
      | NS_Restricted _ _ _ _ \<Rightarrow> dc_inflation_redirect_to_validators_percent (tk_config T)
      | NS_Recovery _ _ _ _ \<Rightarrow> dc_inflation_redirect_to_validators_percent (tk_config T)
      | _ \<Rightarrow> 0)"

definition get_inflation_boost :: "security_tracker \<Rightarrow> f64" where
  "get_inflation_boost T = (case tk_state T of NS_Recovery _ _ _ _ \<Rightarrow> 1 | _ \<Rightarrow> 0)"

definition get_stake_reduction :: "security_tracker \<Rightarrow> u32" where
  "get_stake_reduction T =
     (case tk_state T of
        NS_Degraded _ _ _ _ _ \<Rightarrow> dc_dsm_stake_reduction_percent (tk_config T)
      | NS_Restricted _ _ _ _ \<Rightarrow> dc_dsm_stake_reduction_percent (tk_config T)
      | NS_Recovery _ _ _ _ \<Rightarrow> dc_dsm_stake_reduction_percent (tk_config T)
      | _ \<Rightarrow> 0)"

definition is_fork_allowed :: "security_tracker \<Rightarrow> bool" where "is_fork_allowed T = True"
definition is_exit_allowed :: "security_tracker \<Rightarrow> bool" where "is_exit_allowed T = True"

definition get_recovery_progress :: "security_tracker \<Rightarrow> (epoch_number \<times> epoch_number) option" where
  "get_recovery_progress T =
     (case tk_state T of NS_Degraded _ _ _ _ c \<Rightarrow> Some (c, dc_normal_recovery_epochs (tk_config T)) | _ \<Rightarrow> None)"

section \<open>Reports\<close>

datatype security_severity = SS_Warning | SS_Elevated | SS_Critical | SS_Emergency

datatype health_note =
    BlockTimeTimes u32 | EpochDurationTimes u32 | TimelocksTimes u32 | SlashingTightened | InflationCapped
  | StakeMinimumReduced u32 | BootstrapIncentives | VcBoost

datatype network_health_status =
    NH_Healthy
  | NH_Bootstrapping u32 u32 epoch_number "epoch_number option"
  | NH_Degraded security_severity u32 u32 epoch_number "epoch_number \<times> epoch_number" "health_note list"
  | NH_Recovering epoch_number epoch_number u32
  | NH_SafetyHalt epoch_number u32 u32 bool bool
  | NH_BootstrapRecovery epoch_number u32 u32 "health_note list"
  | NH_Critical epoch_number u32 u32 bool u32 epoch_number
  | NH_Terminal epoch_number u32 bool bool

definition calculate_severity :: "u32 \<Rightarrow> epoch_number \<Rightarrow> security_tracker \<Rightarrow> security_severity" where
  "calculate_severity current_validators epochs_in_state T =
     (if tk_shm_active T then SS_Emergency
      else if current_validators < tk_absolute_min_validators T then SS_Critical
      else if current_validators < tk_min_validators T div 2 then SS_Elevated
      else if 50 < epochs_in_state then SS_Elevated
      else SS_Warning)"

definition degraded_effects :: "degraded_security_config \<Rightarrow> health_note list" where
  "degraded_effects C =
     [BlockTimeTimes (dc_dsm_block_time_multiplier C), EpochDurationTimes (dc_dsm_epoch_duration_multiplier C),
      TimelocksTimes (dc_dsm_governance_timelock_multiplier C)] @
     (if dc_dsm_slashing_tightened C then [SlashingTightened] else []) @
     (if dc_dsm_inflation_capped C then [InflationCapped] else []) @
     [StakeMinimumReduced (dc_dsm_stake_reduction_percent C)]"

definition get_health_status :: "epoch_number \<Rightarrow> security_tracker \<Rightarrow> network_health_status" where
  "get_health_status current_epoch T =
     (let C = tk_config T
      in case tk_state T of
           NS_Bootstrap \<Rightarrow> NH_Bootstrapping 0 (tk_min_validators T) current_epoch None
         | NS_Normal \<Rightarrow> NH_Healthy
         | NS_Degraded _ in_dsm current needed consecutive \<Rightarrow>
             if needed = 0 then NH_Recovering (sat_sub (dc_normal_recovery_epochs C) consecutive) consecutive current
             else NH_Degraded (calculate_severity current in_dsm T) current needed in_dsm
                    (consecutive, dc_normal_recovery_epochs C) (degraded_effects C)
         | NS_Restricted _ in_shm current no_finality \<Rightarrow>
             NH_Critical in_shm current (tk_absolute_min_validators T) (dc_critical_fork_enabled C)
               (dc_critical_fork_threshold_reduction_percent C) no_finality
         | NS_Emergency _ in_terminal current state_root \<Rightarrow>
             NH_Terminal in_terminal current (dc_terminal_fork_mandatory C) (state_root \<noteq> None)
         | NS_Recovery _ in_recovery current needed \<Rightarrow>
             NH_BootstrapRecovery in_recovery current needed
               [BootstrapIncentives, StakeMinimumReduced (dc_dsm_stake_reduction_percent C), VcBoost])"

datatype degraded_mode =
    DM_Degraded | DM_SafetyHalt | DM_Terminal | DM_BootstrapRecoveryMode | DM_ValidatorDegraded | DM_Survival
  | DM_ValidatorScarcity | DM_EmergencySafety | DM_SafetyMode | DM_BootstrapRecovery | DM_Critical

record degraded_info =
  di_mode :: degraded_mode
  di_entered_at :: epoch_number
  di_epochs_in_state :: epoch_number
  di_current_validators :: u32
  di_validators_needed :: u32
  di_consecutive_epochs_above_min :: epoch_number
  di_epochs_until_recovery :: "epoch_number option"
  di_emergency_active :: bool

definition get_degraded_info :: "security_tracker \<Rightarrow> degraded_info option" where
  "get_degraded_info T =
     (case tk_state T of
        NS_Degraded entered in_dsm current needed consecutive \<Rightarrow>
          Some \<lparr>di_mode = DM_Degraded, di_entered_at = entered, di_epochs_in_state = in_dsm, di_current_validators = current,
                di_validators_needed = needed, di_consecutive_epochs_above_min = consecutive,
                di_epochs_until_recovery = (if needed = 0 then Some (sat_sub (dc_normal_recovery_epochs (tk_config T)) consecutive) else None),
                di_emergency_active = tk_shm_active T\<rparr>
      | NS_Restricted entered in_shm current _ \<Rightarrow>
          Some \<lparr>di_mode = DM_SafetyHalt, di_entered_at = entered, di_epochs_in_state = in_shm, di_current_validators = current,
                di_validators_needed = sat_sub (tk_absolute_min_validators T) current, di_consecutive_epochs_above_min = 0,
                di_epochs_until_recovery = None, di_emergency_active = True\<rparr>
      | NS_Emergency entered in_terminal current _ \<Rightarrow>
          Some \<lparr>di_mode = DM_Terminal, di_entered_at = entered, di_epochs_in_state = in_terminal, di_current_validators = current,
                di_validators_needed = tk_min_validators T, di_consecutive_epochs_above_min = 0,
                di_epochs_until_recovery = None, di_emergency_active = True\<rparr>
      | _ \<Rightarrow> None)"


section \<open>Histories of the tracker\<close>

text \<open>
  One update per epoch: \<open>epochs\<close> is the history, oldest first, of the epoch numbers and the
  active validators that were passed to \<open>update\<close>.
\<close>

fun tracker_run :: "bootstrap_config \<Rightarrow> (epoch_number \<times> u32) list \<Rightarrow> security_tracker \<Rightarrow> security_tracker" where
  "tracker_run B [] T = T"
| "tracker_run B ((e, v) # epochs) T = tracker_run B epochs (snd (tracker_update e v B 0 T))"

lemma tracker_run_snoc: "tracker_run B (xs @ [(e, v)]) T = snd (tracker_update e v B 0 (tracker_run B xs T))"
  by (induction xs arbitrary: T) auto

lemma moved_simps [simp]:
  "tk_state (snd (moved p e v r T)) = tk_state T" "tk_config (snd (moved p e v r T)) = tk_config T"
  "tk_min_validators (snd (moved p e v r T)) = tk_min_validators T"
  "tk_absolute_min_validators (snd (moved p e v r T)) = tk_absolute_min_validators T"
  "tk_shm_active (snd (moved p e v r T)) = tk_shm_active T" "tk_terminal_active (snd (moved p e v r T)) = tk_terminal_active T"
  "tk_bootstrap_recovery_active (snd (moved p e v r T)) = tk_bootstrap_recovery_active T"
  "tk_bootstrap_completed (snd (moved p e v r T)) = tk_bootstrap_completed T"
  "tk_epochs_below_minimum (snd (moved p e v r T)) = tk_epochs_below_minimum T"
  "tk_epochs_above_minimum_in_dsm (snd (moved p e v r T)) = tk_epochs_above_minimum_in_dsm T"
  "fst (moved p e v r T) = Some (tk_state T)"
  by (simp_all add: moved_def record_transition_def Let_def)

lemma moved_log: "length (tk_state_transitions T) \<le> 100 \<Longrightarrow> length (tk_state_transitions (snd (moved p e v r T))) \<le> 100"
  by (simp add: moved_def record_transition_def Let_def)

lemmas update_defs = tracker_update_def update_bootstrap_def update_normal_def update_degraded_def update_restricted_def
  update_emergency_def update_recovery_def Let_def

lemma tracker_fixed [simp]:
  "tk_config (snd (tracker_update e v B s T)) = tk_config T"
  "tk_min_validators (snd (tracker_update e v B s T)) = tk_min_validators T"
  "tk_absolute_min_validators (snd (tracker_update e v B s T)) = tk_absolute_min_validators T"
  by (cases "tk_state T"; simp add: update_defs)+

lemma tracker_run_fixed [simp]:
  "tk_config (tracker_run B xs T) = tk_config T" "tk_min_validators (tracker_run B xs T) = tk_min_validators T"
  "tk_absolute_min_validators (tracker_run B xs T) = tk_absolute_min_validators T"
  by (induction xs arbitrary: T) auto

subsection \<open>The flags mirror the state\<close>

definition flags_ok :: "security_tracker \<Rightarrow> bool" where
  "flags_ok T \<longleftrightarrow>
     tk_shm_active T = is_shm T \<and> tk_terminal_active T = is_terminal T \<and>
     tk_bootstrap_recovery_active T = is_bootstrap_recovery_mode T \<and>
     tk_bootstrap_completed T = (tk_state T \<noteq> NS_Bootstrap) \<and>
     tk_epochs_above_minimum_in_dsm T = (case tk_state T of NS_Degraded _ _ _ _ c \<Rightarrow> c | _ \<Rightarrow> 0) \<and>
     length (tk_state_transitions T) \<le> 100"

lemmas flag_defs = flags_ok_def is_shm_def is_terminal_def is_bootstrap_recovery_mode_def

lemma flags_ok_update:
  assumes "flags_ok T"
  shows "flags_ok (snd (tracker_update e v B s T))"
  using assms moved_log by (cases "tk_state T") (simp_all add: update_defs flag_defs moved_log)


lemma flags_ok_new: "flags_ok (security_tracker_new m C)"
  by (simp add: flag_defs security_tracker_new_def tracker_with_absolute_min_def)

lemma flags_ok_run: "flags_ok T \<Longrightarrow> flags_ok (tracker_run B xs T)"
  by (induction xs arbitrary: T) (auto simp: flags_ok_update)

subsection \<open>Degradation is immediate, recovery is slow\<close>

text \<open>The last \<open>n\<close> epochs of a history all had at least 75 active validators.\<close>

definition safe_streak :: "nat \<Rightarrow> (epoch_number \<times> u32) list \<Rightarrow> bool" where
  "safe_streak n xs \<longleftrightarrow> n \<le> length xs \<and> (\<forall>x \<in> set (drop (length xs - n) xs). SAFE_VALIDATORS \<le> snd x)"

lemma safe_streak_snoc:
  assumes "safe_streak n xs" and "SAFE_VALIDATORS \<le> v" and "m \<le> Suc n"
  shows "safe_streak m (xs @ [(e, v)])"
proof (cases m)
  case 0
  then show ?thesis by (simp add: safe_streak_def)
next
  case (Suc k)
  then have k: "k \<le> n" "n \<le> length xs" using assms by (simp_all add: safe_streak_def)
  then have "drop (length xs - k) xs = drop (n - k) (drop (length xs - n) xs)" by simp
  then have "set (drop (length xs - k) xs) \<subseteq> set (drop (length xs - n) xs)" by (metis set_drop_subset)
  then show ?thesis using assms k by (auto simp: safe_streak_def Suc)
qed

lemma safe_streak_0 [simp]: "safe_streak 0 xs"
  by (simp add: safe_streak_def)

lemma streak_counter:
  assumes "tk_state T0 = NS_Bootstrap" and "tk_state (tracker_run B xs T0) = NS_Degraded en n v m c"
  shows "safe_streak (unat c) xs"
  using assms(2)
proof (induction xs arbitrary: en n v m c rule: rev_induct)
  case Nil
  then show ?case using assms(1) by simp
next
  case (snoc x xs)
  obtain e w where x: "x = (e, w)" by (cases x)
  let ?T = "tracker_run B xs T0"
  have st: "tk_state (snd (tracker_update e w B 0 ?T)) = NS_Degraded en n v m c"
    using snoc.prems by (simp add: x tracker_run_snoc)
  have one: "safe_streak 1 (xs @ [(e, w)])" if "SAFE_VALIDATORS \<le> w"
    using safe_streak_snoc [of 0 xs w 1 e] that by simp
  have Suc: "unat (d + 1 :: u64) \<le> Suc (unat d)" for d
    using mod_less_eq_dividend [of "unat d + 1" "2 ^ 64"] by (simp add: unat_word_ariths)
  show ?case
  proof (cases "tk_state ?T")
    case (NS_Degraded en' n' v' m' c')
    then have ih: "safe_streak (unat c') xs" by (rule snoc.IH)
    have "c = 0 \<or> SAFE_VALIDATORS \<le> w \<and> c = c' + 1"
      using st NS_Degraded by (auto simp: update_defs split: if_splits)
    then show ?thesis using safe_streak_snoc [OF ih _ Suc, of w e] x by auto
  next
    case NS_Normal
    then show ?thesis using st by (auto simp: update_defs split: if_splits)
  next
    case (NS_Restricted en' n' v' f')
    then show ?thesis using st one x by (auto simp: update_defs split: if_splits)
  next
    case (NS_Recovery en' n' v' m')
    then show ?thesis using st one x by (auto simp: update_defs split: if_splits)
  qed (use st in \<open>simp_all add: update_defs split: if_splits\<close>)
qed


lemma word_le_Suc: "n \<le> c + 1 \<Longrightarrow> unat n \<le> Suc (unat (c :: u64))"
  using mod_less_eq_dividend [of "unat c + 1" "2 ^ 64"] by (simp add: unat_word_ariths word_le_nat_alt)

text \<open>
  C28: recovery has hysteresis.  Whenever the tracker returns to normal operation from any of the
  degraded states, the number of active validators has been at least 75 in each of the last
  \<open>normal_recovery_epochs\<close> (by default 100) epochs; a single epoch below that starts the count again.  The comment on
  \<open>update\<close> promises recovery after 3 epochs at the operational minimum and the one on its counter after 30; the code asks
  for more.
\<close>

theorem recovery_needs_streak:
  assumes "tk_state T0 = NS_Bootstrap" and "tk_state (tracker_run B xs T0) \<notin> {NS_Bootstrap, NS_Normal}"
    and "tk_state (tracker_run B (xs @ [(e, v)]) T0) = NS_Normal"
  shows "unat (dc_normal_recovery_epochs (tk_config T0)) \<le> length (xs @ [(e, v)]) \<and>
    (\<forall>x \<in> set (drop (length (xs @ [(e, v)]) - unat (dc_normal_recovery_epochs (tk_config T0))) (xs @ [(e, v)])). 75 \<le> snd x)"
proof -
  let ?T = "tracker_run B xs T0" and ?N = "dc_normal_recovery_epochs (tk_config T0)"
  have st: "tk_state (snd (tracker_update e v B 0 ?T)) = NS_Normal" using assms(3) by (simp add: tracker_run_snoc)
  then obtain en n w m c where d: "tk_state ?T = NS_Degraded en n w m c" and v: "SAFE_VALIDATORS \<le> v" and N: "?N \<le> c + 1"
    using assms(2) by (cases "tk_state ?T") (auto simp: update_defs split: if_splits)
  have "safe_streak (unat ?N) (xs @ [(e, v)])"
    using safe_streak_snoc [OF streak_counter [OF assms(1) d] v word_le_Suc [OF N]] .
  then show ?thesis by (simp add: safe_streak_def SAFE_VALIDATORS_def)
qed

text \<open>Epochs still needed to be back to normal when the network stays at 75 validators or more.\<close>

fun epochs_to_normal :: "network_security_state \<Rightarrow> nat" where
  "epochs_to_normal (NS_Degraded _ _ _ _ c) = 100 - unat c"
| "epochs_to_normal (NS_Restricted _ n _ _) = (if n = 0 then 101 else 100)"
| "epochs_to_normal (NS_Emergency _ _ _ _) = 102"
| "epochs_to_normal (NS_Recovery _ _ _ _) = 100"
| "epochs_to_normal _ = 0"

definition recovering :: "security_tracker \<Rightarrow> bool" where
  "recovering T \<longleftrightarrow>
     tk_config T = default_degraded_config \<and> tk_min_validators T \<le> 75 \<and> tk_state T \<noteq> NS_Bootstrap \<and>
     (\<forall>e n v m c. tk_state T = NS_Degraded e n v m c \<longrightarrow> c < 100)"

lemma default_recovery [simp]:
  "dc_normal_recovery_epochs default_degraded_config = 100" "dc_shm_recovery_epochs default_degraded_config = 1"
  "dc_collapse_detection_epochs default_degraded_config = 10" "dc_floor_grace_epochs default_degraded_config = 1"
  by (simp_all add: default_degraded_config_def const_defs)

lemma safe_not_low: "75 \<le> v \<Longrightarrow> \<not> v < EMERGENCY_VALIDATORS \<and> \<not> v < POST_BOOTSTRAP_MIN_VALIDATORS \<and> SAFE_VALIDATORS \<le> v \<and> \<not> v < SAFE_VALIDATORS"
  by (simp add: const_defs word_le_nat_alt word_less_nat_alt)

lemma u64_less_Suc: "(c :: u64) < 100 \<Longrightarrow> \<not> 100 \<le> c + 1 \<Longrightarrow> unat (c + 1) = Suc (unat c) \<and> c + 1 < 100"
  by (simp add: word_le_nat_alt word_less_nat_alt unat_word_ariths)

lemma recovery_step:
  assumes "recovering T" and "75 \<le> v"
  shows "recovering (snd (tracker_update e v B s T)) \<and>
    epochs_to_normal (tk_state (snd (tracker_update e v B s T))) = epochs_to_normal (tk_state T) - 1"
proof (cases "tk_state T")
  case (NS_Degraded en n w m c)
  then show ?thesis using assms safe_not_low [OF assms(2)] u64_less_Suc [of c] word_le_Suc [of 100 c]
    by (auto simp: update_defs recovering_def word_le_nat_alt word_less_nat_alt)
next
  case (NS_Restricted en n w f)
  have "n = 0 \<or> 1 \<le> n" by (metis word_gt_0 linorder_le_cases word_le_0_iff word_le_sub1 word_less_1 linorder_not_le)
  then show ?thesis using NS_Restricted assms safe_not_low [OF assms(2)] by (auto simp: update_defs recovering_def)
qed (use assms safe_not_low [OF assms(2)] in \<open>auto simp: update_defs recovering_def\<close>)


lemma recovery_run:
  assumes "recovering T" and "\<forall>x \<in> set xs. 75 \<le> snd x"
  shows "recovering (tracker_run B xs T) \<and>
    epochs_to_normal (tk_state (tracker_run B xs T)) = epochs_to_normal (tk_state T) - length xs"
  using assms
proof (induction xs arbitrary: T)
  case (Cons x xs)
  then show ?case using recovery_step [of T "snd x" "fst x" B 0] by (cases x) simp
qed simp

lemma recovering_reachable:
  assumes "tk_state T0 = NS_Bootstrap" and "tk_config T0 = default_degraded_config" and "tk_min_validators T0 \<le> 75"
    and "tk_state (tracker_run B xs T0) \<noteq> NS_Bootstrap"
  shows "recovering (tracker_run B xs T0)"
proof -
  have "c < 100" if "tk_state (tracker_run B xs T0) = NS_Degraded e n v m c" for e n v m c
    using that
  proof (induction xs arbitrary: e n v m c rule: rev_induct)
    case Nil
    then show ?case using assms(1) by simp
  next
    case (snoc x xs)
    obtain en w where x: "x = (en, w)" by (cases x)
    show ?case
      using snoc assms(2) u64_less_Suc by (cases "tk_state (tracker_run B xs T0)") (auto simp: x tracker_run_snoc update_defs split: if_splits)
  qed
  then show ?thesis using assms by (simp add: recovering_def)
qed

lemma one_left: "epochs_to_normal S = 0 \<Longrightarrow> S \<noteq> NS_Bootstrap \<Longrightarrow> (\<forall>e n v m c. S = NS_Degraded e n v m c \<longrightarrow> c < 100) \<Longrightarrow> S = NS_Normal"
  by (cases S) (auto simp: word_less_nat_alt split: if_splits)

lemma worst_recovery: "epochs_to_normal S \<le> 102"
  by (cases S) auto

text \<open>
  C29: recovery is certain.  With the default configuration, whatever state the network has fallen
  into since the end of the bootstrap, 102 epochs in a row with at least 75 active validators bring
  it back to normal operation, and it stays there while the validators do.
\<close>

theorem recovery_certain:
  assumes "tk_state T0 = NS_Bootstrap" and "tk_config T0 = default_degraded_config" and "tk_min_validators T0 \<le> 75"
    and "tk_state (tracker_run B past T0) \<noteq> NS_Bootstrap"
    and "102 \<le> length xs" and "\<forall>x \<in> set xs. 75 \<le> snd x"
  shows "tk_state (tracker_run B xs (tracker_run B past T0)) = NS_Normal"
proof -
  have r: "recovering (tracker_run B past T0)" using recovering_reachable assms(1-4) by blast
  note run = recovery_run [OF r assms(6), of B]
  have "epochs_to_normal (tk_state (tracker_run B xs (tracker_run B past T0))) = 0"
    using run worst_recovery [of "tk_state (tracker_run B past T0)"] assms(5) by simp
  then show ?thesis using one_left run by (simp add: recovering_def)
qed

text \<open>Too few validators for two epochs stop the chain, whatever state it was in after the bootstrap.\<close>

lemma emergency_within_two:
  assumes "tk_config T = default_degraded_config" and "tk_min_validators T = 50" and "tk_absolute_min_validators T = 25"
    and "tk_state T \<noteq> NS_Bootstrap" and "v < 25" and "v' < 25" and "tk_epochs_below_minimum T = 0"
  shows "is_halted (tracker_run B [(e, v), (e', v')] T)"
proof -
  have "v < 50" using assms(5) by (simp add: word_less_nat_alt)
  moreover have "dc_terminal_read_only default_degraded_config" by (simp add: default_degraded_config_def)
  ultimately show ?thesis
    using assms by (cases "tk_state T") (simp_all add: update_defs is_halted_def is_terminal_def const_defs linorder_not_le [symmetric])
qed

section \<open>Concrete histories\<close>

definition quick_tracker :: security_tracker where
  "quick_tracker = security_tracker_new 50 (default_degraded_config\<lparr>dc_normal_recovery_epochs := 2\<rparr>)"

lemma quick_run:
  "tk_state quick_tracker = NS_Bootstrap" "dc_normal_recovery_epochs (tk_config quick_tracker) = 2"
  "tk_state (tracker_run mainnet_config [(1440, 50), (1441, 30), (1442, 80)] quick_tracker) = NS_Degraded 1441 1 80 0 1"
  "tk_state (tracker_run mainnet_config ([(1440, 50), (1441, 30), (1442, 80)] @ [(1443, 80)]) quick_tracker) = NS_Normal"
  by (simp_all add: quick_tracker_def security_tracker_new_def tracker_with_absolute_min_def mainnet_config_def
      update_defs moved_def record_transition_def const_defs word_le_nat_alt)

theorem recovery_needs_streak_witness:
  "tk_state (tracker_run mainnet_config ([(1440, 50), (1441, 30), (1442, 80)] @ [(1443, 80)]) quick_tracker) = NS_Normal \<and>
   unat (2 :: u64) \<le> length ([(1440, 50), (1441, 30), (1442, 80)] @ [(1443, 80)] :: (u64 \<times> u32) list)"
  using recovery_needs_streak [OF quick_run(1), of mainnet_config "[(1440, 50), (1441, 30), (1442, 80)]" 1443 80] quick_run by simp

lemma fallen_run:
  "tk_state (tracker_run mainnet_config [(1440, 50), (1441, 10)] (security_tracker_new 50 default_degraded_config)) = NS_Restricted 1441 0 10 0"
  by (simp add: security_tracker_new_def tracker_with_absolute_min_def mainnet_config_def update_defs moved_def
      record_transition_def const_defs)

theorem recovery_certain_witness:
  "tk_state (tracker_run mainnet_config (replicate 102 (2000, 80))
     (tracker_run mainnet_config [(1440, 50), (1441, 10)] (security_tracker_new 50 default_degraded_config))) = NS_Normal"
  using recovery_certain [of "security_tracker_new 50 default_degraded_config" mainnet_config "[(1440, 50), (1441, 10)]"
      "replicate 102 (2000, 80)"] fallen_run
  by (simp add: security_tracker_new_def tracker_with_absolute_min_def)

section \<open>Where the code and its description differ\<close>

text \<open>
  The state table says that fewer than 75 validators mean the degraded state and fewer than 25 the
  emergency state.  In normal operation only the bound of 50 is looked at, and a sudden fall below 25
  leads to the restricted state first.
\<close>

lemma normal_between_50_and_75:
  assumes "tk_state T = NS_Normal" and "tk_min_validators T = 50" and "50 \<le> v" and "v < 75"
  shows "tk_state (snd (tracker_update e v B s T)) = NS_Normal"
  using assms by (simp add: update_defs linorder_not_less)

lemma collapse_is_restricted_first:
  assumes "tk_state T = NS_Normal" and "tk_config T = default_degraded_config" and "tk_min_validators T = 50"
    and "tk_absolute_min_validators T = 25" and "tk_epochs_below_minimum T = 0"
  shows "tk_state (snd (tracker_update e 0 B s T)) = NS_Restricted e 0 0 0"
  using assms by (simp add: update_defs)

end
