(* ===== verification/Kratos_Governance.thy ===== *)
theory Kratos_Governance
  imports Kratos_Types Kratos_Maps
begin

text \<open>
  On-chain governance of sidechains (\<^verbatim>\<open>contracts/governance.rs\<close>): proposals, votes weighted
  by voting power, timelocks, execution and expiry.  The order in which the proposal map is walked
  is the argument \<open>walk\<close>.
\<close>

section \<open>Proposals\<close>

type_synonym proposal_id = u64

definition EXIT_SUPERMAJORITY_THRESHOLD :: u8 where [const_defs]: "EXIT_SUPERMAJORITY_THRESHOLD = 66"
definition STANDARD_THRESHOLD :: u8 where [const_defs]: "STANDARD_THRESHOLD = 51"
definition MIN_QUORUM_PERCENT :: u8 where [const_defs]: "MIN_QUORUM_PERCENT = 30"
definition EXIT_TIMELOCK :: block_number where [const_defs]: "EXIT_TIMELOCK = 432000"
definition STANDARD_TIMELOCK :: block_number where [const_defs]: "STANDARD_TIMELOCK = 172800"
definition VOTING_PERIOD :: block_number where [const_defs]: "VOTING_PERIOD = 100800"
definition GRACE_PERIOD :: block_number where [const_defs]: "GRACE_PERIOD = 28800"
definition PROPOSAL_DEPOSIT :: balance where [const_defs]: "PROPOSAL_DEPOSIT = 100"

datatype proposal_type =
    ParameterChange string string string
  | AddValidator account_id
  | RemoveValidator account_id
  | ExitDissolve
  | ExitMerge chain_id
  | ExitReattachRoot
  | ExitJoinHost chain_id
  | LeaveHost
  | RequestAffiliation chain_id
  | TreasurySpend account_id balance string
  | CustomProposal string string bytes

fun is_exit_proposal :: "proposal_type \<Rightarrow> bool" where
  "is_exit_proposal ExitDissolve = True"
| "is_exit_proposal (ExitMerge _) = True"
| "is_exit_proposal ExitReattachRoot = True"
| "is_exit_proposal (ExitJoinHost _) = True"
| "is_exit_proposal _ = False"

definition required_threshold :: "proposal_type \<Rightarrow> u8" where
  "required_threshold t = (if is_exit_proposal t then EXIT_SUPERMAJORITY_THRESHOLD else STANDARD_THRESHOLD)"

definition timelock_period :: "proposal_type \<Rightarrow> block_number" where
  "timelock_period t = (if is_exit_proposal t then EXIT_TIMELOCK else STANDARD_TIMELOCK)"

datatype proposal_status = PS_Active | PS_Passed | PS_Rejected | PS_ReadyToExecute | PS_Executed | PS_Cancelled | PS_Expired

datatype gov_vote = Vote_Yes | Vote_No | Vote_Abstain

record vote_record =
  vr_voter :: account_id
  vr_vote :: gov_vote
  vr_weight :: balance
  vr_timestamp :: block_number

record proposal =
  pr_id :: proposal_id
  pr_chain_id :: chain_id
  pr_proposer :: account_id
  pr_proposal_type :: proposal_type
  pr_description :: "string option"
  pr_status :: proposal_status
  pr_created_at :: block_number
  pr_voting_ends_at :: block_number
  pr_timelock_ends_at :: "block_number option"
  pr_votes :: "vote_record list"
  pr_yes_votes :: balance
  pr_no_votes :: balance
  pr_abstain_votes :: balance
  pr_deposit :: balance
  pr_deposit_returned :: bool
  pr_executed_at :: "block_number option"

definition proposal_new ::
  "proposal_id \<Rightarrow> chain_id \<Rightarrow> account_id \<Rightarrow> proposal_type \<Rightarrow> string option \<Rightarrow> balance \<Rightarrow> block_number \<Rightarrow> proposal" where
  "proposal_new pid cid proposer ptype description deposit created_at =
     \<lparr>pr_id = pid, pr_chain_id = cid, pr_proposer = proposer, pr_proposal_type = ptype, pr_description = description,
      pr_status = PS_Active, pr_created_at = created_at, pr_voting_ends_at = created_at + VOTING_PERIOD,
      pr_timelock_ends_at = None, pr_votes = [], pr_yes_votes = 0, pr_no_votes = 0, pr_abstain_votes = 0,
      pr_deposit = deposit, pr_deposit_returned = False, pr_executed_at = None\<rparr>"

definition is_voting_open :: "block_number \<Rightarrow> proposal \<Rightarrow> bool" where
  "is_voting_open current_block p = (pr_status p = PS_Active \<and> current_block \<le> pr_voting_ends_at p)"

definition proposal_has_voted :: "account_id \<Rightarrow> proposal \<Rightarrow> bool" where
  "proposal_has_voted voter p = list_ex (\<lambda>v. vr_voter v = voter) (pr_votes p)"

definition total_votes :: "proposal \<Rightarrow> balance" where
  "total_votes p = pr_yes_votes p + pr_no_votes p + pr_abstain_votes p"

definition approval_percentage :: "proposal \<Rightarrow> u8" where
  "approval_percentage p =
     (let deciding_votes = sat_add (pr_yes_votes p) (pr_no_votes p)
      in if deciding_votes = 0 then 0 else ucast (sat_mul (pr_yes_votes p) 100 div deciding_votes))"

definition quorum_reached :: "balance \<Rightarrow> proposal \<Rightarrow> bool" where
  "quorum_reached total_eligible_votes p =
     (if total_eligible_votes = 0 then False
      else ucast MIN_QUORUM_PERCENT \<le> sat_mul (total_votes p) 100 div total_eligible_votes)"

definition proposal_passed :: "balance \<Rightarrow> proposal \<Rightarrow> bool" where
  "proposal_passed total_eligible_votes p =
     (quorum_reached total_eligible_votes p \<and> required_threshold (pr_proposal_type p) \<le> approval_percentage p)"

section \<open>The contract\<close>

datatype governance_error =
    ProposalNotFound | NoVotingPower | VotingClosed | AlreadyVoted | VotingStillOpen | AlreadyFinalized
  | ExitAlreadyInProgress | ActiveDisputeExists | NotReadyToExecute | NotProposer | GE_InsufficientDeposit

record governance =
  gv_proposals :: "(proposal_id, proposal) hmap"
  gv_proposals_by_chain :: "(chain_id, proposal_id list) hmap"
  gv_next_proposal_id :: proposal_id
  gv_voting_power :: "(chain_id \<times> account_id, balance) hmap"
  gv_total_voting_power :: "(chain_id, balance) hmap"
  gv_active_exit_proposals :: "(chain_id, proposal_id) hmap"
  gv_chains_with_disputes :: "chain_id set"

type_synonym 'a gov_action = "(governance, governance_error, 'a) action"

definition governance_new :: governance where
  "governance_new =
     \<lparr>gv_proposals = [], gv_proposals_by_chain = [], gv_next_proposal_id = 1, gv_voting_power = [],
      gv_total_voting_power = [], gv_active_exit_proposals = [], gv_chains_with_disputes = {}\<rparr>"

definition or_zero :: "balance option \<Rightarrow> balance" where
  "or_zero x = (case x of None \<Rightarrow> 0 | Some v \<Rightarrow> v)"

definition set_voting_power :: "chain_id \<Rightarrow> account_id \<Rightarrow> balance \<Rightarrow> governance \<Rightarrow> governance" where
  "set_voting_power cid account new_power G =
     (let old_power = or_zero (hm_get (gv_voting_power G) (cid, account));
          total = or_zero (hm_get (gv_total_voting_power G) cid)
      in G\<lparr>gv_total_voting_power := hm_insert cid (sat_add (sat_sub total old_power) new_power) (gv_total_voting_power G),
           gv_voting_power := (if 0 < new_power then hm_insert (cid, account) new_power (gv_voting_power G)
                               else hm_remove (cid, account) (gv_voting_power G))\<rparr>)"

definition get_voting_power :: "governance \<Rightarrow> chain_id \<Rightarrow> account_id \<Rightarrow> balance" where
  "get_voting_power G cid account = or_zero (hm_get (gv_voting_power G) (cid, account))"

definition get_total_voting_power :: "governance \<Rightarrow> chain_id \<Rightarrow> balance" where
  "get_total_voting_power G cid = or_zero (hm_get (gv_total_voting_power G) cid)"

definition gov_add_dispute :: "chain_id \<Rightarrow> governance \<Rightarrow> governance" where
  "gov_add_dispute cid G = G\<lparr>gv_chains_with_disputes := insert cid (gv_chains_with_disputes G)\<rparr>"

definition gov_remove_dispute :: "chain_id \<Rightarrow> governance \<Rightarrow> governance" where
  "gov_remove_dispute cid G = G\<lparr>gv_chains_with_disputes := gv_chains_with_disputes G - {cid}\<rparr>"

definition has_dispute :: "governance \<Rightarrow> chain_id \<Rightarrow> bool" where
  "has_dispute G cid = (cid \<in> gv_chains_with_disputes G)"

abbreviation proposal_of :: "governance \<Rightarrow> proposal_id \<Rightarrow> proposal option" where
  "proposal_of G \<equiv> hm_get (gv_proposals G)"

definition put_proposal :: "proposal_id \<Rightarrow> proposal \<Rightarrow> governance \<Rightarrow> governance" where
  "put_proposal pid p G = G\<lparr>gv_proposals := hm_insert pid p (gv_proposals G)\<rparr>"

definition release_exit :: "proposal \<Rightarrow> governance \<Rightarrow> governance" where
  "release_exit p G =
     (if is_exit_proposal (pr_proposal_type p)
      then G\<lparr>gv_active_exit_proposals := hm_remove (pr_chain_id p) (gv_active_exit_proposals G)\<rparr> else G)"

definition create_proposal ::
  "chain_id \<Rightarrow> account_id \<Rightarrow> proposal_type \<Rightarrow> string option \<Rightarrow> block_number \<Rightarrow> proposal_id gov_action" where
  "create_proposal cid proposer ptype description current_block G =
     (if get_voting_power G cid proposer = 0 then (Err NoVotingPower, G)
      else if is_exit_proposal ptype \<and> hm_contains (gv_active_exit_proposals G) cid then (Err ExitAlreadyInProgress, G)
      else if is_exit_proposal ptype \<and> has_dispute G cid then (Err ActiveDisputeExists, G)
      else
        let pid = gv_next_proposal_id G;
            p = proposal_new pid cid proposer ptype description PROPOSAL_DEPOSIT current_block;
            ids = (case hm_get (gv_proposals_by_chain G) cid of None \<Rightarrow> [] | Some l \<Rightarrow> l)
        in (Ok pid, G\<lparr>gv_next_proposal_id := gv_next_proposal_id G + 1,
              gv_active_exit_proposals := (if is_exit_proposal ptype then hm_insert cid pid (gv_active_exit_proposals G)
                                           else gv_active_exit_proposals G),
              gv_proposals := hm_insert pid p (gv_proposals G),
              gv_proposals_by_chain := hm_insert cid (ids @ [pid]) (gv_proposals_by_chain G)\<rparr>))"

definition count_vote :: "account_id \<Rightarrow> gov_vote \<Rightarrow> balance \<Rightarrow> block_number \<Rightarrow> proposal \<Rightarrow> proposal" where
  "count_vote voter v weight current_block p =
     (let p' = (case v of
                  Vote_Yes \<Rightarrow> p\<lparr>pr_yes_votes := pr_yes_votes p + weight\<rparr>
                | Vote_No \<Rightarrow> p\<lparr>pr_no_votes := pr_no_votes p + weight\<rparr>
                | Vote_Abstain \<Rightarrow> p\<lparr>pr_abstain_votes := pr_abstain_votes p + weight\<rparr>)
      in p'\<lparr>pr_votes := pr_votes p' @ [\<lparr>vr_voter = voter, vr_vote = v, vr_weight = weight, vr_timestamp = current_block\<rparr>]\<rparr>)"

definition cast_vote :: "proposal_id \<Rightarrow> account_id \<Rightarrow> gov_vote \<Rightarrow> block_number \<Rightarrow> unit gov_action" where
  "cast_vote pid voter v current_block G =
     (case proposal_of G pid of
        None \<Rightarrow> (Err ProposalNotFound, G)
      | Some p \<Rightarrow>
          if \<not> is_voting_open current_block p then (Err VotingClosed, G)
          else if proposal_has_voted voter p then (Err AlreadyVoted, G)
          else
            let weight = get_voting_power G (pr_chain_id p) voter
            in if weight = 0 then (Err NoVotingPower, G)
               else (Ok (), put_proposal pid (count_vote voter v weight current_block p) G))"

definition finalize_voting :: "proposal_id \<Rightarrow> block_number \<Rightarrow> proposal_status gov_action" where
  "finalize_voting pid current_block G =
     (case proposal_of G pid of
        None \<Rightarrow> (Err ProposalNotFound, G)
      | Some p \<Rightarrow>
          if current_block < pr_voting_ends_at p then (Err VotingStillOpen, G)
          else if pr_status p \<noteq> PS_Active then (Err AlreadyFinalized, G)
          else if proposal_passed (get_total_voting_power G (pr_chain_id p)) p
          then (Ok PS_Passed, put_proposal pid (p\<lparr>pr_status := PS_Passed,
                  pr_timelock_ends_at := Some (current_block + timelock_period (pr_proposal_type p))\<rparr>) G)
          else (Ok PS_Rejected, release_exit p (put_proposal pid (p\<lparr>pr_status := PS_Rejected\<rparr>) G)))"

definition check_execution_ready :: "proposal_id \<Rightarrow> block_number \<Rightarrow> bool gov_action" where
  "check_execution_ready pid current_block G =
     (case proposal_of G pid of
        None \<Rightarrow> (Err ProposalNotFound, G)
      | Some p \<Rightarrow>
          if pr_status p \<noteq> PS_Passed then (Ok False, G)
          else case pr_timelock_ends_at p of
                 None \<Rightarrow> (Ok False, G)
               | Some timelock_end \<Rightarrow>
                   if timelock_end \<le> current_block then (Ok True, put_proposal pid (p\<lparr>pr_status := PS_ReadyToExecute\<rparr>) G)
                   else (Ok False, G))"

definition mark_executed :: "proposal_id \<Rightarrow> block_number \<Rightarrow> unit gov_action" where
  "mark_executed pid current_block G =
     (case proposal_of G pid of
        None \<Rightarrow> (Err ProposalNotFound, G)
      | Some p \<Rightarrow>
          if pr_status p \<noteq> PS_ReadyToExecute then (Err NotReadyToExecute, G)
          else (Ok (), release_exit p (put_proposal pid (p\<lparr>pr_status := PS_Executed, pr_executed_at := Some current_block\<rparr>) G)))"

definition cancel_proposal :: "proposal_id \<Rightarrow> account_id \<Rightarrow> block_number \<Rightarrow> unit gov_action" where
  "cancel_proposal pid caller current_block G =
     (case proposal_of G pid of
        None \<Rightarrow> (Err ProposalNotFound, G)
      | Some p \<Rightarrow>
          if pr_proposer p \<noteq> caller then (Err NotProposer, G)
          else if \<not> is_voting_open current_block p then (Err VotingClosed, G)
          else (Ok (), release_exit p (put_proposal pid (p\<lparr>pr_status := PS_Cancelled\<rparr>) G)))"

definition get_proposals_for_chain :: "governance \<Rightarrow> chain_id \<Rightarrow> proposal list" where
  "get_proposals_for_chain G cid =
     (case hm_get (gv_proposals_by_chain G) cid of None \<Rightarrow> [] | Some ids \<Rightarrow> List.map_filter (proposal_of G) ids)"

definition get_active_proposals :: "governance \<Rightarrow> chain_id \<Rightarrow> proposal list" where
  "get_active_proposals G cid =
     filter (\<lambda>p. pr_status p \<in> {PS_Active, PS_Passed, PS_ReadyToExecute}) (get_proposals_for_chain G cid)"

definition has_active_exit_proposal :: "governance \<Rightarrow> chain_id \<Rightarrow> bool" where
  "has_active_exit_proposal G cid = hm_contains (gv_active_exit_proposals G) cid"

definition gov_record_failure :: "chain_id \<Rightarrow> proposal_id \<Rightarrow> governance \<Rightarrow> bool" where
  "gov_record_failure cid pid G =
     (case proposal_of G pid of None \<Rightarrow> False | Some p \<Rightarrow> pr_chain_id p = cid \<and> pr_status p = PS_Rejected)"

definition record_success :: "chain_id \<Rightarrow> proposal_id \<Rightarrow> governance \<Rightarrow> bool" where
  "record_success cid pid G =
     (case proposal_of G pid of None \<Rightarrow> False | Some p \<Rightarrow> pr_chain_id p = cid \<and> pr_status p = PS_Passed)"

definition get_finalization_result :: "proposal_id \<Rightarrow> governance \<Rightarrow> (bool \<times> chain_id) option" where
  "get_finalization_result pid G = map_option (\<lambda>p. (pr_status p = PS_Passed, pr_chain_id p)) (proposal_of G pid)"

definition is_stale :: "block_number \<Rightarrow> proposal \<Rightarrow> bool" where
  "is_stale current_block p =
     (pr_status p = PS_ReadyToExecute \<and>
      (case pr_timelock_ends_at p of None \<Rightarrow> False | Some timelock_end \<Rightarrow> timelock_end + GRACE_PERIOD \<le> current_block))"

definition stale_ids :: "(proposal_id list \<Rightarrow> proposal_id list) \<Rightarrow> block_number \<Rightarrow> governance \<Rightarrow> proposal_id list" where
  "stale_ids walk current_block G =
     filter (\<lambda>pid. case proposal_of G pid of None \<Rightarrow> False | Some p \<Rightarrow> is_stale current_block p) (walk (hm_keys (gv_proposals G)))"

definition expire_proposal_one :: "governance \<Rightarrow> proposal_id \<Rightarrow> governance" where
  "expire_proposal_one G pid = (case proposal_of G pid of None \<Rightarrow> G | Some p \<Rightarrow> put_proposal pid (p\<lparr>pr_status := PS_Expired\<rparr>) G)"

definition release_one :: "governance \<Rightarrow> proposal_id \<Rightarrow> governance" where
  "release_one G pid = (case proposal_of G pid of None \<Rightarrow> G | Some p \<Rightarrow> release_exit p G)"

definition expire_stale_proposals ::
  "(proposal_id list \<Rightarrow> proposal_id list) \<Rightarrow> block_number \<Rightarrow> governance \<Rightarrow> proposal_id list \<times> governance" where
  "expire_stale_proposals walk current_block G =
     (let expired = stale_ids walk current_block G
      in (expired, foldl release_one (foldl expire_proposal_one G expired) expired))"

definition is_over :: "proposal \<Rightarrow> bool" where
  "is_over p = (pr_status p \<in> {PS_Executed, PS_Expired, PS_Cancelled, PS_Rejected})"

definition drop_proposal :: "governance \<Rightarrow> proposal_id \<Rightarrow> governance" where
  "drop_proposal G pid =
     (case proposal_of G pid of
        None \<Rightarrow> G
      | Some p \<Rightarrow>
          let G' = G\<lparr>gv_proposals := hm_remove pid (gv_proposals G)\<rparr>
          in case hm_get (gv_proposals_by_chain G') (pr_chain_id p) of
               None \<Rightarrow> G'
             | Some ids \<Rightarrow> G'\<lparr>gv_proposals_by_chain :=
                 hm_insert (pr_chain_id p) (filter (\<lambda>i. i \<noteq> pid) ids) (gv_proposals_by_chain G')\<rparr>)"

definition cleanup_old_proposals ::
  "(proposal_id list \<Rightarrow> proposal_id list) \<Rightarrow> block_number \<Rightarrow> block_number \<Rightarrow> governance \<Rightarrow> governance" where
  "cleanup_old_proposals walk current_block max_age G =
     (let min_block = sat_sub current_block max_age
      in foldl drop_proposal G
           (filter (\<lambda>pid. case proposal_of G pid of None \<Rightarrow> False | Some p \<Rightarrow> is_over p \<and> pr_created_at p < min_block)
             (walk (hm_keys (gv_proposals G)))))"


section \<open>Histories\<close>

datatype gov_op =
    Gov_SetPower chain_id account_id balance
  | Gov_AddDispute chain_id
  | Gov_RemoveDispute chain_id
  | Gov_Create chain_id account_id proposal_type "string option"
  | Gov_Vote proposal_id account_id gov_vote
  | Gov_Finalize proposal_id
  | Gov_CheckReady proposal_id
  | Gov_MarkExecuted proposal_id
  | Gov_Cancel proposal_id account_id
  | Gov_Expire
  | Gov_Cleanup block_number

fun gov_exec :: "(proposal_id list \<Rightarrow> proposal_id list) \<Rightarrow> block_number \<Rightarrow> gov_op \<Rightarrow> governance \<Rightarrow> governance" where
  "gov_exec walk b (Gov_SetPower c a w) G = set_voting_power c a w G"
| "gov_exec walk b (Gov_AddDispute c) G = gov_add_dispute c G"
| "gov_exec walk b (Gov_RemoveDispute c) G = gov_remove_dispute c G"
| "gov_exec walk b (Gov_Create c a t d) G = snd (create_proposal c a t d b G)"
| "gov_exec walk b (Gov_Vote i a v) G = snd (cast_vote i a v b G)"
| "gov_exec walk b (Gov_Finalize i) G = snd (finalize_voting i b G)"
| "gov_exec walk b (Gov_CheckReady i) G = snd (check_execution_ready i b G)"
| "gov_exec walk b (Gov_MarkExecuted i) G = snd (mark_executed i b G)"
| "gov_exec walk b (Gov_Cancel i a) G = snd (cancel_proposal i a b G)"
| "gov_exec walk b Gov_Expire G = snd (expire_stale_proposals walk b G)"
| "gov_exec walk b (Gov_Cleanup m) G = cleanup_old_proposals walk b m G"

inductive gov_reach :: "(proposal_id list \<Rightarrow> proposal_id list) \<Rightarrow> block_number \<Rightarrow> nat \<Rightarrow> governance \<Rightarrow> bool" for walk where
  start: "gov_reach walk 0 0 governance_new"
| step: "gov_reach walk b n G \<Longrightarrow> b \<le> b' \<Longrightarrow> gov_reach walk b' (Suc n) (gov_exec walk b' op G)"

definition tally :: "gov_vote \<Rightarrow> proposal \<Rightarrow> nat" where
  "tally v p = sum_list (map (\<lambda>r. unat (vr_weight r)) (filter (\<lambda>r. vr_vote r = v) (pr_votes p)))"

definition is_live :: "proposal \<Rightarrow> bool" where
  "is_live p = (pr_status p \<in> {PS_Active, PS_Passed, PS_ReadyToExecute})"

definition approved :: "proposal \<Rightarrow> bool" where
  "approved p = (required_threshold (pr_proposal_type p) \<le> approval_percentage p)"

definition waited :: "proposal \<Rightarrow> block_number \<Rightarrow> bool" where
  "waited p t = (unat (pr_created_at p) + unat VOTING_PERIOD + unat (timelock_period (pr_proposal_type p)) \<le> unat t)"

definition status_ok :: "block_number \<Rightarrow> proposal \<Rightarrow> bool" where
  "status_ok b p \<longleftrightarrow>
     (case pr_status p of
        PS_Passed \<Rightarrow> approved p \<and> (\<exists>t. pr_timelock_ends_at p = Some t \<and> waited p t)
      | PS_ReadyToExecute \<Rightarrow> approved p \<and> (\<exists>t. pr_timelock_ends_at p = Some t \<and> waited p t \<and> t \<le> b)
      | PS_Executed \<Rightarrow> approved p \<and> (\<exists>x. pr_executed_at p = Some x \<and> waited p x)
      | _ \<Rightarrow> True)"

definition proposal_ok :: "block_number \<Rightarrow> proposal \<Rightarrow> bool" where
  "proposal_ok b p \<longleftrightarrow>
     distinct (map vr_voter (pr_votes p)) \<and>
     pr_yes_votes p = of_nat (tally Vote_Yes p) \<and> pr_no_votes p = of_nat (tally Vote_No p) \<and>
     pr_abstain_votes p = of_nat (tally Vote_Abstain p) \<and>
     pr_created_at p \<le> b \<and> pr_voting_ends_at p = pr_created_at p + VOTING_PERIOD \<and> status_ok b p"

definition exits_ok :: "governance \<Rightarrow> bool" where
  "exits_ok G \<longleftrightarrow>
     (\<forall>c i. hm_get (gv_active_exit_proposals G) c = Some i \<longleftrightarrow>
       (\<exists>p. proposal_of G i = Some p \<and> pr_chain_id p = c \<and> is_exit_proposal (pr_proposal_type p) \<and> is_live p))"

definition gov_ok :: "block_number \<Rightarrow> governance \<Rightarrow> bool" where
  "gov_ok b G \<longleftrightarrow>
     (\<forall>i p. proposal_of G i = Some p \<longrightarrow> proposal_ok b p \<and> i < gv_next_proposal_id G) \<and> exits_ok G"

lemmas hm_lookups [simp] = update_conv' delete_conv'

lemma put_proposal_simps [simp]:
  "proposal_of (put_proposal i p G) = (proposal_of G)(i \<mapsto> p)"
  "gv_active_exit_proposals (put_proposal i p G) = gv_active_exit_proposals G"
  "gv_next_proposal_id (put_proposal i p G) = gv_next_proposal_id G"
  by (simp_all add: put_proposal_def)

lemma release_exit_simps [simp]:
  "proposal_of (release_exit p G) = proposal_of G" "gv_next_proposal_id (release_exit p G) = gv_next_proposal_id G"
  "hm_get (gv_active_exit_proposals (release_exit p G)) =
     (if is_exit_proposal (pr_proposal_type p) then (hm_get (gv_active_exit_proposals G))(pr_chain_id p := None)
      else hm_get (gv_active_exit_proposals G))"
  by (simp_all add: release_exit_def)

lemma gov_ok_new: "gov_ok 0 governance_new"
  by (simp add: gov_ok_def governance_new_def exits_ok_def)

lemma status_ok_later: "status_ok b p \<Longrightarrow> b \<le> b' \<Longrightarrow> status_ok b' p"
  by (auto simp: status_ok_def split: proposal_status.splits)

lemma gov_ok_later: "gov_ok b G \<Longrightarrow> b \<le> b' \<Longrightarrow> gov_ok b' G"
  unfolding gov_ok_def proposal_ok_def using status_ok_later order.trans by blast

lemma gov_ok_frame:
  assumes "gov_ok b G" and "proposal_of G' = proposal_of G" and "gv_next_proposal_id G' = gv_next_proposal_id G"
    and "hm_get (gv_active_exit_proposals G') = hm_get (gv_active_exit_proposals G)"
  shows "gov_ok b G'"
  using assms by (simp add: gov_ok_def exits_ok_def)

text \<open>A change of one proposal that keeps its chain and type: live stays live, or the exit slot is released.\<close>

lemma put_live:
  assumes ok: "gov_ok b G" and p: "proposal_of G i = Some p" and p': "proposal_ok b p'"
    and same: "pr_chain_id p' = pr_chain_id p" "pr_proposal_type p' = pr_proposal_type p" "is_live p' = is_live p"
  shows "gov_ok b (put_proposal i p' G)"
proof -
  have "exits_ok (put_proposal i p' G)"
    using ok p same by (auto simp: gov_ok_def exits_ok_def)
  then show ?thesis using ok p p' by (auto simp: gov_ok_def)
qed

lemma put_closed:
  assumes ok: "gov_ok b G" and p: "proposal_of G i = Some p" and p': "proposal_ok b p'" and live: "is_live p"
    and same: "pr_chain_id p' = pr_chain_id p" "pr_proposal_type p' = pr_proposal_type p" "\<not> is_live p'"
  shows "gov_ok b (release_exit p (put_proposal i p' G))"
proof -
  have ex: "hm_get (gv_active_exit_proposals G) c = Some j \<longleftrightarrow>
      (\<exists>q. proposal_of G j = Some q \<and> pr_chain_id q = c \<and> is_exit_proposal (pr_proposal_type q) \<and> is_live q)" for c j
    using ok by (simp add: gov_ok_def exits_ok_def)
  have only: "j = i" if "is_exit_proposal (pr_proposal_type p)" "proposal_of G j = Some q" "pr_chain_id q = pr_chain_id p"
      "is_exit_proposal (pr_proposal_type q)" "is_live q" for j q
    using ex [of "pr_chain_id p" i] ex [of "pr_chain_id p" j] that p live by auto
  have "exits_ok (release_exit p (put_proposal i p' G))"
    unfolding exits_ok_def using only same p ex by (auto split: if_splits)
  then show ?thesis using ok p p' by (auto simp: gov_ok_def)
qed


text \<open>Heights far below the end of the 64-bit range, so that sums of a height and a period do not wrap.\<close>

definition gov_height :: "block_number \<Rightarrow> bool" where
  "gov_height b = (unat b < 2 ^ 63)"

lemma tally_upd [simp]:
  "tally v (p\<lparr>pr_status := st\<rparr>) = tally v p" "tally v (p\<lparr>pr_timelock_ends_at := t\<rparr>) = tally v p"
  "tally v (p\<lparr>pr_executed_at := x\<rparr>) = tally v p"
  by (simp_all add: tally_def)

lemma approved_upd [simp]:
  "approved (p\<lparr>pr_status := st\<rparr>) = approved p" "approved (p\<lparr>pr_timelock_ends_at := t\<rparr>) = approved p"
  "approved (p\<lparr>pr_executed_at := x\<rparr>) = approved p"
  by (simp_all add: approved_def approval_percentage_def Let_def)

lemma waited_upd [simp]:
  "waited (p\<lparr>pr_status := st\<rparr>) = waited p" "waited (p\<lparr>pr_timelock_ends_at := t\<rparr>) = waited p"
  "waited (p\<lparr>pr_executed_at := x\<rparr>) = waited p"
  by (simp_all add: waited_def fun_eq_iff)

lemma timelock_small: "unat (timelock_period t) \<le> 432000"
  by (simp add: timelock_period_def const_defs)

lemma create_ok:
  assumes ok: "gov_ok b G" and room: "unat (gv_next_proposal_id G) + 1 < 2 ^ 64"
  shows "gov_ok b (snd (create_proposal c a t d b G))"
proof -
  have nx: "unat (gv_next_proposal_id G + 1) = Suc (unat (gv_next_proposal_id G))"
    using unat_add_fits [of "gv_next_proposal_id G" 1] assms(2) by simp
  have up: "i < gv_next_proposal_id G \<Longrightarrow> i < gv_next_proposal_id G + 1" "gv_next_proposal_id G < gv_next_proposal_id G + 1" for i
    using nx by (simp_all add: word_less_nat_alt)
  have below: "i < gv_next_proposal_id G" if "proposal_of G i = Some p" for i p using ok that by (auto simp: gov_ok_def)
  have fresh: "proposal_of G (gv_next_proposal_id G) = None" using below by fastforce
  let ?p = "proposal_new (gv_next_proposal_id G) c a t d PROPOSAL_DEPOSIT b"
  have new: "proposal_ok b ?p" "is_live ?p" "pr_chain_id ?p = c" "pr_proposal_type ?p = t"
    by (simp_all add: proposal_ok_def proposal_new_def tally_def status_ok_def is_live_def)
  have ex: "hm_get (gv_active_exit_proposals G) k = Some j \<longleftrightarrow>
      (\<exists>q. proposal_of G j = Some q \<and> pr_chain_id q = k \<and> is_exit_proposal (pr_proposal_type q) \<and> is_live q)" for k j
    using ok by (simp add: gov_ok_def exits_ok_def)
  show ?thesis
  proof (cases "get_voting_power G c a = 0 \<or> is_exit_proposal t \<and> (hm_contains (gv_active_exit_proposals G) c \<or> has_dispute G c)")
    case True
    then show ?thesis using ok by (auto simp: create_proposal_def)
  next
    case False
    let ?G = "snd (create_proposal c a t d b G)"
    have G': "proposal_of ?G = (proposal_of G)(gv_next_proposal_id G \<mapsto> ?p)" "gv_next_proposal_id ?G = gv_next_proposal_id G + 1"
      "hm_get (gv_active_exit_proposals ?G) =
        (if is_exit_proposal t then (hm_get (gv_active_exit_proposals G))(c \<mapsto> gv_next_proposal_id G) else hm_get (gv_active_exit_proposals G))"
      using False by (auto simp: create_proposal_def Let_def)
    have free: "is_exit_proposal t \<Longrightarrow> hm_get (gv_active_exit_proposals G) c = None" using False by (simp add: hm_contains_def)
    have none: "\<not> (is_exit_proposal t \<and> proposal_of G j = Some q \<and> pr_chain_id q = c \<and> is_exit_proposal (pr_proposal_type q) \<and> is_live q)" for j q
      using ex [of c j] free by auto
    have "exits_ok ?G"
      unfolding exits_ok_def G' using ex fresh new free none by (auto split: if_splits)
    moreover have "proposal_ok b q \<and> i < gv_next_proposal_id ?G" if "proposal_of ?G i = Some q" for i q
      using that ok new(1) up unfolding G' by (auto simp: gov_ok_def split: if_splits)
    ultimately show ?thesis by (simp add: gov_ok_def)
  qed
qed

lemma count_vote_ok:
  assumes "proposal_ok b p" and "is_voting_open b p" and "\<not> proposal_has_voted a p"
  shows "proposal_ok b (count_vote a v w b p)" "is_live (count_vote a v w b p) = is_live p"
    "pr_chain_id (count_vote a v w b p) = pr_chain_id p" "pr_proposal_type (count_vote a v w b p) = pr_proposal_type p"
  using assms by (auto simp: count_vote_def proposal_ok_def is_voting_open_def proposal_has_voted_def tally_def status_ok_def is_live_def
      list_ex_iff split: gov_vote.splits)

lemma vote_ok:
  assumes "gov_ok b G"
  shows "gov_ok b (snd (cast_vote i a v b G))"
proof -
  have "gov_ok b (put_proposal i (count_vote a v w b p) G)"
    if p: "proposal_of G i = Some p" and "is_voting_open b p" "\<not> proposal_has_voted a p" for p w
  proof -
    have "proposal_ok b p" using assms p by (simp add: gov_ok_def)
    then show ?thesis using count_vote_ok that by (intro put_live [OF assms p]) auto
  qed
  then show ?thesis using assms by (auto simp: cast_vote_def Let_def split: option.splits)
qed

lemma finalize_ok:
  assumes ok: "gov_ok b G" and b: "gov_height b"
  shows "gov_ok b (snd (finalize_voting i b G))"
proof (cases "\<exists>p. proposal_of G i = Some p \<and> pr_voting_ends_at p \<le> b \<and> pr_status p = PS_Active")
  case False
  then show ?thesis using ok by (auto simp: finalize_voting_def not_less split: option.splits)
next
  case True
  then obtain p where p: "proposal_of G i = Some p" and ended: "pr_voting_ends_at p \<le> b" and act: "pr_status p = PS_Active" by blast
  have pok: "proposal_ok b p" using ok p by (simp add: gov_ok_def)
  let ?t = "b + timelock_period (pr_proposal_type p)"
  have "unat (pr_created_at p) + unat VOTING_PERIOD \<le> unat b"
    using pok ended b unat_add_fits [of "pr_created_at p" VOTING_PERIOD]
    by (simp add: proposal_ok_def gov_height_def const_defs word_le_nat_alt)
  moreover have "unat ?t = unat b + unat (timelock_period (pr_proposal_type p))"
    using b timelock_small [of "pr_proposal_type p"] by (intro unat_add_fits) (simp add: gov_height_def)
  ultimately have w: "waited p ?t" by (simp add: waited_def)
  have "gov_ok b (put_proposal i (p\<lparr>pr_status := PS_Passed, pr_timelock_ends_at := Some ?t\<rparr>) G)" if "approved p"
    using pok act w that by (intro put_live [OF ok p]) (simp_all add: proposal_ok_def status_ok_def is_live_def)
  moreover have "gov_ok b (release_exit p (put_proposal i (p\<lparr>pr_status := PS_Rejected\<rparr>) G))"
    using pok act by (intro put_closed [OF ok p]) (simp_all add: proposal_ok_def status_ok_def is_live_def)
  ultimately show ?thesis using p ended act by (auto simp: finalize_voting_def proposal_passed_def approved_def)
qed

lemma ready_ok:
  assumes ok: "gov_ok b G"
  shows "gov_ok b (snd (check_execution_ready i b G))"
proof -
  have "gov_ok b (put_proposal i (p\<lparr>pr_status := PS_ReadyToExecute\<rparr>) G)"
    if p: "proposal_of G i = Some p" and "pr_status p = PS_Passed" "pr_timelock_ends_at p = Some t" "t \<le> b" for p t
  proof (rule put_live [OF ok p])
    have "proposal_ok b p" using ok p by (simp add: gov_ok_def)
    then show "proposal_ok b (p\<lparr>pr_status := PS_ReadyToExecute\<rparr>)"
      using that by (simp add: proposal_ok_def status_ok_def)
  qed (use that in \<open>simp_all add: is_live_def\<close>)
  then show ?thesis using ok by (auto simp: check_execution_ready_def split: option.splits)
qed

lemma executed_ok:
  assumes ok: "gov_ok b G"
  shows "gov_ok b (snd (mark_executed i b G))"
proof -
  have "gov_ok b (release_exit p (put_proposal i (p\<lparr>pr_status := PS_Executed, pr_executed_at := Some b\<rparr>) G))"
    if p: "proposal_of G i = Some p" and "pr_status p = PS_ReadyToExecute" for p
  proof (rule put_closed [OF ok p])
    have "proposal_ok b p" using ok p by (simp add: gov_ok_def)
    then show "proposal_ok b (p\<lparr>pr_status := PS_Executed, pr_executed_at := Some b\<rparr>)"
      using that by (auto simp: proposal_ok_def status_ok_def waited_def word_le_nat_alt)
  qed (use that in \<open>simp_all add: is_live_def\<close>)
  then show ?thesis using ok by (auto simp: mark_executed_def split: option.splits)
qed

lemma cancel_ok:
  assumes ok: "gov_ok b G"
  shows "gov_ok b (snd (cancel_proposal i a b G))"
proof -
  have "gov_ok b (release_exit p (put_proposal i (p\<lparr>pr_status := PS_Cancelled\<rparr>) G))"
    if p: "proposal_of G i = Some p" and "is_voting_open b p" for p
  proof (rule put_closed [OF ok p])
    have "proposal_ok b p" using ok p by (simp add: gov_ok_def)
    then show "proposal_ok b (p\<lparr>pr_status := PS_Cancelled\<rparr>)" by (simp add: proposal_ok_def status_ok_def)
  qed (use that in \<open>simp_all add: is_live_def is_voting_open_def\<close>)
  then show ?thesis using ok by (auto simp: cancel_proposal_def split: option.splits)
qed


lemma expire_proposal_one_ok:
  assumes ok: "gov_ok b G" and st: "\<And>p. proposal_of G i = Some p \<Longrightarrow> is_live p"
  shows "gov_ok b (release_one (expire_proposal_one G i) i)"
proof (cases "proposal_of G i")
  case None
  then show ?thesis using ok by (simp add: expire_proposal_one_def release_one_def)
next
  case (Some p)
  have "proposal_ok b p" using ok Some by (simp add: gov_ok_def)
  then have "gov_ok b (release_exit p (put_proposal i (p\<lparr>pr_status := PS_Expired\<rparr>) G))"
    using st [OF Some] by (intro put_closed [OF ok Some]) (simp_all add: proposal_ok_def status_ok_def is_live_def)
  moreover have "release_exit (p\<lparr>pr_status := PS_Expired\<rparr>) H = release_exit p H" for H by (simp add: release_exit_def)
  ultimately show ?thesis by (simp add: expire_proposal_one_def release_one_def Some)
qed

text \<open>Expiring all stale proposals first and releasing them afterwards is the same as doing both one by one.\<close>

lemma expire_release_commute:
  assumes "i \<noteq> j"
  shows "expire_proposal_one (release_one G j) i = release_one (expire_proposal_one G i) j"
proof -
  have "put_proposal i q (release_exit p G) = release_exit p (put_proposal i q G)" for p q
    by (simp add: release_exit_def put_proposal_def)
  then show ?thesis using assms by (auto simp: expire_proposal_one_def release_one_def split: option.split)
qed

lemma expire_release_foldl:
  assumes "distinct ids"
  shows "foldl release_one (foldl expire_proposal_one G ids) ids = foldl (\<lambda>G i. release_one (expire_proposal_one G i) i) G ids"
proof -
  have swap: "foldl expire_proposal_one (release_one G j) xs = release_one (foldl expire_proposal_one G xs) j" if "j \<notin> set xs" for G j xs
    using that by (induction xs arbitrary: G) (auto simp: expire_release_commute)
  show ?thesis using assms
  proof (induction ids arbitrary: G)
    case (Cons j ids)
    have "j \<notin> set ids" using Cons.prems by simp
    then show ?case using swap [of j ids "expire_proposal_one G j", symmetric] Cons.IH Cons.prems by simp
  qed simp
qed

lemma expire_ok:
  assumes ok: "gov_ok b G" and walk: "\<And>ks. distinct ks \<Longrightarrow> distinct (walk ks)" and keys: "hm_inv (gv_proposals G)"
  shows "gov_ok b (snd (expire_stale_proposals walk b G))"
proof -
  let ?ids = "stale_ids walk b G"
  have d: "distinct ?ids" using walk keys by (simp add: stale_ids_def hm_inv_def)
  have live: "is_live p" if "i \<in> set ?ids" "proposal_of G i = Some p" for i p
    using that by (auto simp: stale_ids_def is_stale_def is_live_def)
  have "gov_ok b (foldl (\<lambda>G i. release_one (expire_proposal_one G i) i) H ids)"
    if "gov_ok b H" "distinct ids" "\<And>i p. i \<in> set ids \<Longrightarrow> proposal_of H i = Some p \<Longrightarrow> is_live p" for H ids
    using that
  proof (induction ids arbitrary: H)
    case (Cons i ids)
    have "proposal_of (release_one (expire_proposal_one H i) i) j = proposal_of H j" if "j \<noteq> i" for j
      using that by (simp add: expire_proposal_one_def release_one_def split: option.split)
    then have live': "is_live p" if "j \<in> set ids" "proposal_of (release_one (expire_proposal_one H i) i) j = Some p" for j p
      using that Cons.prems by (metis distinct.simps(2) list.set_intros(2))
    have "gov_ok b (foldl (\<lambda>G i. release_one (expire_proposal_one G i) i) (release_one (expire_proposal_one H i) i) ids)"
    proof (rule Cons.IH)
      show "gov_ok b (release_one (expire_proposal_one H i) i)"
        by (rule expire_proposal_one_ok [OF Cons.prems(1)]) (auto intro: Cons.prems(3))
    qed (use Cons.prems(2) live' in auto)
    then show ?case by simp
  qed simp
  then show ?thesis using ok d live by (simp add: expire_stale_proposals_def Let_def expire_release_foldl)
qed

lemma drop_ok:
  assumes ok: "gov_ok b G" and "\<And>p. proposal_of G i = Some p \<Longrightarrow> is_over p"
  shows "gov_ok b (drop_proposal G i)"
proof (cases "proposal_of G i")
  case (Some p)
  let ?G = "drop_proposal G i"
  have G': "proposal_of ?G = (proposal_of G)(i := None)" "gv_next_proposal_id ?G = gv_next_proposal_id G"
    "gv_active_exit_proposals ?G = gv_active_exit_proposals G"
    by (simp_all add: drop_proposal_def Some Let_def split: option.split)
  have "\<not> is_live p" using assms(2) [OF Some] by (auto simp: is_over_def is_live_def)
  then show ?thesis using ok Some unfolding gov_ok_def exits_ok_def G' by (auto split: if_splits)
qed (use ok in \<open>simp add: drop_proposal_def\<close>)

lemma drop_other: "j \<noteq> i \<Longrightarrow> proposal_of (drop_proposal G i) j = proposal_of G j" and drop_same: "proposal_of (drop_proposal G i) i = None"
  by (simp_all add: drop_proposal_def Let_def split: option.split)

lemma cleanup_ok:
  assumes ok: "gov_ok b G"
  shows "gov_ok b (cleanup_old_proposals walk b' m G)"
proof -
  have all: "gov_ok b (foldl drop_proposal H ids)"
    if "gov_ok b H" "\<And>i p. i \<in> set ids \<Longrightarrow> proposal_of H i = Some p \<Longrightarrow> is_over p" for H ids
    using that
  proof (induction ids arbitrary: H)
    case (Cons i ids)
    have "is_over p" if "j \<in> set ids" "proposal_of (drop_proposal H i) j = Some p" for j p
      using that Cons.prems(2) drop_other [of j i H] drop_same [of H i] by (cases "j = i") auto
    moreover have "gov_ok b (drop_proposal H i)" by (rule drop_ok [OF Cons.prems(1)]) (auto intro: Cons.prems(2))
    ultimately show ?case using Cons.IH by simp
  qed simp
  show ?thesis unfolding cleanup_old_proposals_def Let_def by (rule all [OF ok]) (auto split: option.splits)
qed


lemma gov_exec_keys:
  assumes "hm_inv (gv_proposals G)"
  shows "hm_inv (gv_proposals (gov_exec walk b op G))"
proof -
  have put: "hm_inv (gv_proposals (put_proposal i p H))" if "hm_inv (gv_proposals H)" for i p H
    using that by (simp add: put_proposal_def hm.inv_put)
  have rel: "gv_proposals (release_exit p H) = gv_proposals H" for p H by (simp add: release_exit_def)
  have "hm_inv (gv_proposals (drop_proposal H i))" if "hm_inv (gv_proposals H)" for H i
    using that by (simp add: drop_proposal_def Let_def hm.inv_del split: option.split)
  then have drop: "hm_inv (gv_proposals (foldl drop_proposal H ids))" if "hm_inv (gv_proposals H)" for H ids
    using that by (induction ids arbitrary: H) auto
  have "gv_proposals (foldl release_one H ids) = gv_proposals H" for H ids
    by (induction ids arbitrary: H) (simp_all add: release_one_def rel split: option.split)
  moreover have "hm_inv (gv_proposals (foldl expire_proposal_one H ids))" if "hm_inv (gv_proposals H)" for H ids
    using that by (induction ids arbitrary: H) (simp_all add: expire_proposal_one_def put split: option.split)
  ultimately show ?thesis using assms put drop
    by (cases op) (simp_all add: set_voting_power_def gov_add_dispute_def gov_remove_dispute_def create_proposal_def cast_vote_def
        finalize_voting_def check_execution_ready_def mark_executed_def cancel_proposal_def expire_stale_proposals_def
        cleanup_old_proposals_def Let_def rel hm.inv_put split: option.split)
qed

lemma gov_exec_next: "unat (gv_next_proposal_id (gov_exec walk b op G)) \<le> Suc (unat (gv_next_proposal_id G))"
proof -
  have "gv_next_proposal_id (foldl drop_proposal H ids) = gv_next_proposal_id H" for H ids
    by (induction ids arbitrary: H) (simp_all add: drop_proposal_def Let_def split: option.split)
  moreover have "gv_next_proposal_id (foldl release_one H ids) = gv_next_proposal_id H" for H ids
    by (induction ids arbitrary: H) (simp_all add: release_one_def split: option.split)
  moreover have "gv_next_proposal_id (foldl expire_proposal_one H ids) = gv_next_proposal_id H" for H ids
    by (induction ids arbitrary: H) (simp_all add: expire_proposal_one_def split: option.split)
  moreover have "unat (x + 1 :: u64) \<le> Suc (unat x)" for x
    using mod_less_eq_dividend [of "unat x + 1" "2 ^ 64"] by (simp add: unat_word_ariths)
  ultimately show ?thesis
    by (cases op) (simp_all add: set_voting_power_def gov_add_dispute_def gov_remove_dispute_def create_proposal_def cast_vote_def
        finalize_voting_def check_execution_ready_def mark_executed_def cancel_proposal_def expire_stale_proposals_def
        cleanup_old_proposals_def Let_def split: option.split)
qed

lemma gov_reach_ok:
  assumes "gov_reach walk b n G" and "gov_height b" and "n + 2 < 2 ^ 64" and walk: "\<And>ks. distinct ks \<Longrightarrow> distinct (walk ks)"
  shows "gov_ok b G \<and> hm_inv (gv_proposals G) \<and> unat (gv_next_proposal_id G) \<le> Suc n"
  using assms(1-3)
proof (induction rule: gov_reach.induct)
  case start
  then show ?case by (simp add: gov_ok_new) (simp add: governance_new_def)
next
  case (step b n G b' op)
  have "gov_height b" using step.hyps(2) step.prems(1) by (simp add: gov_height_def word_le_nat_alt)
  then have ih: "gov_ok b G" "hm_inv (gv_proposals G)" "unat (gv_next_proposal_id G) \<le> Suc n" using step.IH step.prems(2) by simp_all
  have ok: "gov_ok b' G" using gov_ok_later [OF ih(1) step.hyps(2)] .
  have "unat (gv_next_proposal_id G) + 1 < 2 ^ 64" using ih(3) step.prems(2) by simp
  then have "gov_ok b' (gov_exec walk b' op G)"
    using ok step.prems(1) ih(2) walk
    by (cases op) (simp_all add: create_ok vote_ok finalize_ok ready_ok executed_ok cancel_ok expire_ok cleanup_ok
        gov_ok_frame [OF ok] set_voting_power_def gov_add_dispute_def gov_remove_dispute_def Let_def)
  then show ?case using gov_exec_keys [OF ih(2)] gov_exec_next [of walk b' op G] ih(3) by auto
qed


section \<open>Properties of the contract\<close>




text \<open>
  One exit at a time.  In every reachable state a chain has at most one exit proposal that is
  still alive (open for votes, in its timelock or ready to execute), and \<open>has_active_exit_proposal\<close>
  tells exactly whether it has one.
\<close>

theorem exit_proposal_unique:
  fixes G :: governance and c :: chain_id
  assumes "gov_reach walk b n G" and "unat b < 2 ^ 63" and "n < 2 ^ 64 - 2" and "\<forall>ks. distinct ks \<longrightarrow> distinct (walk ks)"
  defines "exits \<equiv> {i. \<exists>p. proposal_of G i = Some p \<and> pr_chain_id p = c \<and> is_exit_proposal (pr_proposal_type p) \<and>
    pr_status p \<in> {PS_Active, PS_Passed, PS_ReadyToExecute}}"
  shows "(\<forall>i j. i \<in> exits \<and> j \<in> exits \<longrightarrow> i = j) \<and> has_active_exit_proposal G c = (exits \<noteq> {})"
proof -
  have "gov_ok b G" using gov_reach_ok [OF assms(1)] assms(2-4) by (simp add: gov_height_def)
  then have mem: "hm_get (gv_active_exit_proposals G) c = Some i \<longleftrightarrow> i \<in> exits" for i
    unfolding gov_ok_def exits_ok_def exits_def is_live_def by simp
  then show ?thesis
    by (auto simp: has_active_exit_proposal_def hm_contains_def) (metis option.inject)+
qed

section \<open>A concrete history\<close>

definition demo_gov :: governance where
  "demo_gov = foldl (\<lambda>G (b, op). gov_exec id b op G) governance_new
     [(10, Gov_SetPower 3 7 60), (10, Gov_SetPower 3 8 30), (11, Gov_Create 3 7 ExitDissolve None), (12, Gov_Vote 1 7 Vote_Yes),
      (13, Gov_Vote 1 8 Vote_No), (100900, Gov_Finalize 1), (600000, Gov_CheckReady 1), (600001, Gov_MarkExecuted 1)]"

lemma demo_gov_reach: "gov_reach id 600001 8 demo_gov"
proof -
  have step: "gov_reach id b n G \<Longrightarrow> b \<le> b' \<Longrightarrow> m = Suc n \<Longrightarrow> gov_reach id b' m (gov_exec id b' op G)" for b n m G b' op
    using gov_reach.step by blast
  show ?thesis unfolding demo_gov_def foldl.simps prod.case
    by (rule step, rule step, rule step, rule step, rule step, rule step, rule step, rule step, rule gov_reach.start)
      (simp_all add: word_le_nat_alt)
qed





theorem exit_proposal_unique_witness:
  "has_active_exit_proposal demo_gov 3 \<longleftrightarrow>
     {i. \<exists>p. proposal_of demo_gov i = Some p \<and> pr_chain_id p = 3 \<and> is_exit_proposal (pr_proposal_type p) \<and>
        pr_status p \<in> {PS_Active, PS_Passed, PS_ReadyToExecute}} \<noteq> {}"
  using exit_proposal_unique [OF demo_gov_reach, of 3] by simp

end
