(* ===== verification/Kratos_Arbitration.thy ===== *)
theory Kratos_Arbitration
  imports Kratos_Producer Kratos_Chains
begin

text \<open>
  Cross-chain arbitration (\<^verbatim>\<open>types/dispute.rs\<close>, \<^verbatim>\<open>contracts/arbitration.rs\<close>): disputes,
  evidence, juries drawn with the slot-leader lottery of \<^verbatim>\<open>vrf_selection.rs\<close>, votes, verdicts,
  appeals and expiry.  Every operation also writes the dispute to the database; the JSON codec of
  \<open>serde_json\<close> is the parameter \<open>J\<close>, the database the parameter \<open>E\<close>, and \<open>visit\<close> the order in
  which a \<open>HashMap\<close> is visited.
\<close>

section \<open>Disputes\<close>

type_synonym dispute_id = u64

definition MIN_JURY_SIZE :: nat where [const_defs]: "MIN_JURY_SIZE = 7"
definition MAX_JURY_SIZE :: nat where [const_defs]: "MAX_JURY_SIZE = 21"
definition DEFAULT_JURY_SIZE :: nat where [const_defs]: "DEFAULT_JURY_SIZE = 13"
definition MAX_EVIDENCE_COUNT :: nat where [const_defs]: "MAX_EVIDENCE_COUNT = 50"
definition EVIDENCE_WINDOW :: block_number where [const_defs]: "EVIDENCE_WINDOW = 100800"
definition DELIBERATION_PERIOD :: block_number where [const_defs]: "DELIBERATION_PERIOD = 201600"
definition MAX_DISPUTE_DURATION :: block_number where [const_defs]: "MAX_DISPUTE_DURATION = 835200"

datatype dispute_type = ValidatorMisconduct | CrossChainTreatyViolation | FraudulentExit | StateRootDispute

datatype jurisdiction = Local chain_id | Host chain_id | Root

datatype dispute_status = DS_Open | DS_EvidenceComplete | DS_Deliberating | DS_Resolved | DS_Appealed | DS_Dismissed | DS_Expired

datatype evidence =
    FraudEvidence fraud_proof
  | StateProof merkle_proof string
  | BlockHeaders "block_header list" string
  | TextEvidence string account_id block_number

datatype verdict = Guilty | NotGuilty | Abstain

record jury_vote =
  jv_juror :: account_id
  jv_verdict :: verdict
  jv_justification :: "string option"
  jv_timestamp :: block_number

datatype enforcement =
    SlashValidator account_id u128 fraud_severity
  | SlashValidatorCredits account_id u32
  | ForceExit chain_id
  | InvalidateStateRoot chain_id hash
  | SlashAccuser account_id u128
  | NoEnforcement

record jury_decision =
  jd_dispute_id :: dispute_id
  jd_votes :: "jury_vote list"
  jd_verdict :: verdict
  jd_conviction_percentage :: u8
  jd_decided_at :: block_number
  jd_enforcement :: "enforcement option"

record dispute =
  dp_id :: dispute_id
  dp_chain_id :: chain_id
  dp_dispute_type :: dispute_type
  dp_raised_by :: account_id
  dp_raised_at :: block_number
  dp_evidence :: "evidence list"
  dp_status :: dispute_status
  dp_jurisdiction :: jurisdiction
  dp_jury_members :: "account_id list"
  dp_jury_votes :: "jury_vote list"
  dp_decision :: "jury_decision option"
  dp_evidence_deadline :: block_number
  dp_deliberation_deadline :: "block_number option"

datatype arbitration_error =
    DisputeNotFound dispute_id | EvidenceWindowClosed | DeliberationClosed | NotJuryMember | AE_AlreadyVoted
  | InsufficientJury nat | AE_InvalidState | VRFSelectionFailed | AlreadyResolved | InvalidJurisdiction | EvidenceLimitReached
  | AE_DatabaseError database_error | AE_SerializationError string | DeliberationNotComplete | DuplicateDispute dispute_id
  | AE_Unauthorized | MaxDisputesReached

definition dispute_new ::
  "dispute_id \<Rightarrow> chain_id \<Rightarrow> dispute_type \<Rightarrow> account_id \<Rightarrow> block_number \<Rightarrow> jurisdiction \<Rightarrow> dispute" where
  "dispute_new did cid dtype raised_by raised_at jur =
     \<lparr>dp_id = did, dp_chain_id = cid, dp_dispute_type = dtype, dp_raised_by = raised_by, dp_raised_at = raised_at,
      dp_evidence = [], dp_status = DS_Open, dp_jurisdiction = jur, dp_jury_members = [], dp_jury_votes = [],
      dp_decision = None, dp_evidence_deadline = raised_at + EVIDENCE_WINDOW, dp_deliberation_deadline = None\<rparr>"

definition can_submit_evidence :: "block_number \<Rightarrow> dispute \<Rightarrow> bool" where
  "can_submit_evidence b d = (b \<le> dp_evidence_deadline d \<and> dp_status d = DS_Open)"

definition can_vote :: "block_number \<Rightarrow> dispute \<Rightarrow> bool" where
  "can_vote b d =
     (dp_status d = DS_Deliberating \<and> (case dp_deliberation_deadline d of None \<Rightarrow> False | Some deadline \<Rightarrow> b \<le> deadline))"

fun accused_in :: "evidence list \<Rightarrow> account_id option" where
  "accused_in [] = None"
| "accused_in (FraudEvidence fp # es) = Some (accused_validator fp)"
| "accused_in (_ # es) = accused_in es"

definition accused :: "dispute \<Rightarrow> account_id option" where
  "accused d = accused_in (dp_evidence d)"

definition is_expired :: "block_number \<Rightarrow> dispute \<Rightarrow> bool" where
  "is_expired b d =
     (if dp_status d \<in> {DS_Resolved, DS_Dismissed, DS_Expired} then False else dp_raised_at d + MAX_DISPUTE_DURATION < b)"

definition absolute_deadline :: "dispute \<Rightarrow> block_number" where
  "absolute_deadline d = dp_raised_at d + MAX_DISPUTE_DURATION"

fun is_valid_transition :: "dispute_status \<Rightarrow> dispute_status \<Rightarrow> bool" where
  "is_valid_transition DS_Open new = (new \<in> {DS_EvidenceComplete, DS_Deliberating, DS_Dismissed, DS_Expired, DS_Open})"
| "is_valid_transition DS_EvidenceComplete new = (new \<in> {DS_Deliberating, DS_Dismissed, DS_Expired, DS_EvidenceComplete})"
| "is_valid_transition DS_Deliberating new = (new \<in> {DS_Resolved, DS_Dismissed, DS_Expired, DS_Deliberating})"
| "is_valid_transition DS_Resolved new = (new \<in> {DS_Appealed, DS_Resolved})"
| "is_valid_transition _ new = False"

definition try_transition :: "dispute_status \<Rightarrow> dispute \<Rightarrow> (arbitration_error, unit) result \<times> dispute" where
  "try_transition new d =
     (if \<not> is_valid_transition (dp_status d) new then (Err AE_InvalidState, d) else (Ok (), d\<lparr>dp_status := new\<rparr>))"

definition dispute_is_stale :: "block_number \<Rightarrow> dispute \<Rightarrow> bool" where
  "dispute_is_stale b d =
     (if is_expired b d then True
      else case dp_status d of
          DS_Open \<Rightarrow> dp_evidence_deadline d < b \<and> dp_evidence d = []
        | DS_EvidenceComplete \<Rightarrow> dp_evidence_deadline d + 100800 < b \<and> dp_jury_members d = []
        | DS_Deliberating \<Rightarrow>
            (case dp_deliberation_deadline d of
               None \<Rightarrow> False
             | Some deadline \<Rightarrow> deadline < b \<and> length (dp_jury_votes d) < length (dp_jury_members d) div 2 + 1)
        | _ \<Rightarrow> False)"

definition count_verdicts :: "verdict \<Rightarrow> jury_vote list \<Rightarrow> nat" where
  "count_verdicts v votes = length (filter (\<lambda>x. jv_verdict x = v) votes)"

definition decision_of_votes :: "jury_vote list \<Rightarrow> block_number \<Rightarrow> dispute_id \<Rightarrow> jury_decision" where
  "decision_of_votes votes decided_at did =
     (let total_votes = (of_nat (length votes) :: u8)
      in if total_votes = 0
         then \<lparr>jd_dispute_id = did, jd_votes = votes, jd_verdict = NotGuilty, jd_conviction_percentage = 0,
               jd_decided_at = decided_at, jd_enforcement = None\<rparr>
         else let guilty_votes = (of_nat (count_verdicts Guilty votes) :: u8);
                  not_guilty_votes = (of_nat (count_verdicts NotGuilty votes) :: u8);
                  percentage = ((ucast guilty_votes * 100) div ucast total_votes :: 16 word)
              in \<lparr>jd_dispute_id = did, jd_votes = votes,
                  jd_verdict = (if not_guilty_votes < guilty_votes then Guilty else NotGuilty),
                  jd_conviction_percentage = ucast percentage, jd_decided_at = decided_at, jd_enforcement = None\<rparr>)"

section \<open>The contract\<close>

record jury_candidate =
  jc_account :: account_id
  jc_stake :: balance
  jc_vc :: u64

record 'd arbitration =
  ar_db :: 'd
  ar_disputes :: "(dispute_id, dispute) hmap"
  ar_validators :: "(account_id, jury_candidate) hmap"
  ar_validator_credits :: vc_manager
  ar_next_dispute_id :: dispute_id
  ar_current_block :: block_number

type_synonym ('d, 'a) arb_action = "('d arbitration, arbitration_error, 'a) action"

definition arbitration_new :: "'d \<Rightarrow> vc_manager \<Rightarrow> 'd arbitration" where
  "arbitration_new db credits =
     \<lparr>ar_db = db, ar_disputes = [], ar_validators = [], ar_validator_credits = credits, ar_next_dispute_id = 1,
      ar_current_block = 0\<rparr>"

definition arb_register_validator :: "account_id \<Rightarrow> balance \<Rightarrow> u64 \<Rightarrow> 'd arbitration \<Rightarrow> 'd arbitration" where
  "arb_register_validator a stake vc A =
     A\<lparr>ar_validators := hm_insert a \<lparr>jc_account = a, jc_stake = stake, jc_vc = vc\<rparr> (ar_validators A)\<rparr>"

definition set_current_block :: "block_number \<Rightarrow> 'd arbitration \<Rightarrow> 'd arbitration" where
  "set_current_block b A = A\<lparr>ar_current_block := b\<rparr>"

definition dispute_key :: "dispute_id \<Rightarrow> bytes" where
  "dispute_key did = ascii ''dispute:'' @ decimal (unat did)"

definition persist_dispute :: "dispute codec \<Rightarrow> 'd storage_env \<Rightarrow> dispute \<Rightarrow> ('d, unit) arb_action" where
  "persist_dispute J E d A =
     (case serialize J d of
        Inl e \<Rightarrow> (Err (AE_SerializationError e), A)
      | Inr v \<Rightarrow>
          let (r, db) = database_put E (dispute_key (dp_id d)) v (ar_db A); A' = A\<lparr>ar_db := db\<rparr>
          in case r of Inl e \<Rightarrow> (Err (AE_DatabaseError e), A') | Inr _ \<Rightarrow> (Ok (), A'))"

definition put_dispute :: "dispute \<Rightarrow> dispute_id \<Rightarrow> 'd arbitration \<Rightarrow> 'd arbitration" where
  "put_dispute d did A = A\<lparr>ar_disputes := hm_insert did d (ar_disputes A)\<rparr>"

abbreviation dispute_of :: "'d arbitration \<Rightarrow> dispute_id \<Rightarrow> dispute option" where
  "dispute_of A \<equiv> hm_get (ar_disputes A)"

text \<open>\<open>get_dispute_mut\<close>, a change of the dispute, and \<open>persist_dispute\<close> of the changed dispute.\<close>

definition change_dispute :: "dispute codec \<Rightarrow> 'd storage_env \<Rightarrow> dispute_id \<Rightarrow> (dispute \<Rightarrow> dispute) \<Rightarrow> ('d, unit) arb_action" where
  "change_dispute J E did f A =
     (case dispute_of A did of
        None \<Rightarrow> (Err (DisputeNotFound did), A)
      | Some d \<Rightarrow> persist_dispute J E (f d) (put_dispute (f d) did A))"

definition validate_jurisdiction :: "jurisdiction \<Rightarrow> chain_id \<Rightarrow> (arbitration_error, unit) result" where
  "validate_jurisdiction jur cid =
     (case jur of Local jc \<Rightarrow> if jc \<noteq> cid then Err InvalidJurisdiction else Ok () | _ \<Rightarrow> Ok ())"

fun is_higher_jurisdiction :: "jurisdiction \<Rightarrow> jurisdiction \<Rightarrow> bool" where
  "is_higher_jurisdiction (Host _) (Local _) = True"
| "is_higher_jurisdiction Root (Local _) = True"
| "is_higher_jurisdiction Root (Host _) = True"
| "is_higher_jurisdiction _ _ = False"

definition raise_dispute ::
  "dispute codec \<Rightarrow> 'd storage_env \<Rightarrow> chain_id \<Rightarrow> dispute_type \<Rightarrow> account_id \<Rightarrow> jurisdiction \<Rightarrow> evidence option \<Rightarrow> ('d, dispute_id) arb_action" where
  "raise_dispute J E cid dtype raised_by jur initial_evidence A =
     (case validate_jurisdiction jur cid of
        Inl e \<Rightarrow> (Err e, A)
      | Inr _ \<Rightarrow>
          if ar_next_dispute_id A = - 1 then (Err MaxDisputesReached, A)
          else if hm_contains (ar_disputes A) (ar_next_dispute_id A) then (Err (DuplicateDispute (ar_next_dispute_id A)), A)
          else
            let did = ar_next_dispute_id A;
                d = (dispute_new did cid dtype raised_by (ar_current_block A) jur)
                      \<lparr>dp_evidence := (case initial_evidence of None \<Rightarrow> [] | Some e \<Rightarrow> [e])\<rparr>
            in andThen (persist_dispute J E d) (\<lambda>_. ret did)
                 (put_dispute d did (A\<lparr>ar_next_dispute_id := ar_next_dispute_id A + 1\<rparr>)))"

definition submit_evidence :: "dispute codec \<Rightarrow> 'd storage_env \<Rightarrow> dispute_id \<Rightarrow> evidence \<Rightarrow> account_id \<Rightarrow> ('d, unit) arb_action" where
  "submit_evidence J E did ev submitter A =
     (case dispute_of A did of
        None \<Rightarrow> (Err (DisputeNotFound did), A)
      | Some d \<Rightarrow>
          if \<not> can_submit_evidence (ar_current_block A) d then (Err EvidenceWindowClosed, A)
          else if submitter \<noteq> dp_raised_by d \<and> accused d \<noteq> Some submitter \<and> \<not> hm_contains (ar_validators A) submitter
          then (Err AE_Unauthorized, A)
          else if MAX_EVIDENCE_COUNT \<le> length (dp_evidence d) then (Err EvidenceLimitReached, A)
          else change_dispute J E did (\<lambda>d. d\<lparr>dp_evidence := dp_evidence d @ [ev]\<rparr>) A)"

definition jury_candidates ::
  "(account_id list \<Rightarrow> account_id list) \<Rightarrow> account_id option \<Rightarrow> account_id \<Rightarrow> 'd arbitration \<Rightarrow> (account_id \<times> balance \<times> u64) list" where
  "jury_candidates visit excluded raiser A =
     map (\<lambda>v. (jc_account v, jc_stake v, jc_vc v))
       (filter (\<lambda>v. excluded \<noteq> Some (jc_account v) \<and> jc_account v \<noteq> raiser)
         (List.map_filter (hm_get (ar_validators A)) (visit (hm_keys (ar_validators A)))))"

text \<open>The drawing of \<open>n\<close> further jurors, starting with the given round.\<close>

fun draw_jurors ::
  "libm \<Rightarrow> crypto \<Rightarrow> dispute_id \<Rightarrow> nat \<Rightarrow> nat \<Rightarrow> (account_id \<times> balance \<times> u64) list \<Rightarrow> account_id list \<Rightarrow> (arbitration_error, account_id list) result" where
  "draw_jurors L K did turn 0 candidates drawn = Ok drawn"
| "draw_jurors L K did turn (Suc n) candidates drawn =
     (let available = filter (\<lambda>(a, _, _). a \<notin> set drawn) candidates
      in if available = [] then Ok drawn
         else case select_slot_leader L K (of_nat turn) (did + of_nat turn) available of
                Inl _ \<Rightarrow> Err VRFSelectionFailed
              | Inr a \<Rightarrow> draw_jurors L K did (Suc turn) n candidates (drawn @ [a]))"

definition select_jury ::
  "libm \<Rightarrow> crypto \<Rightarrow> dispute codec \<Rightarrow> 'd storage_env \<Rightarrow> (account_id list \<Rightarrow> account_id list) \<Rightarrow> dispute_id \<Rightarrow> nat option \<Rightarrow> ('d, account_id list) arb_action" where
  "select_jury L K J E visit did jury_size A =
     (case dispute_of A did of
        None \<Rightarrow> (Err (DisputeNotFound did), A)
      | Some d \<Rightarrow>
          if dp_status d \<noteq> DS_Open then (Err AE_InvalidState, A)
          else if dp_evidence d = [] then (Err AE_InvalidState, A)
          else
            let n = (case jury_size of None \<Rightarrow> DEFAULT_JURY_SIZE | Some k \<Rightarrow> k);
                candidates = jury_candidates visit (accused d) (dp_raised_by d) A
            in if candidates = [] then (Err (InsufficientJury 0), A)
               else case draw_jurors L K did 0 n candidates [] of
                      Inl e \<Rightarrow> (Err e, A)
                    | Inr jury \<Rightarrow>
                        if length jury < MIN_JURY_SIZE then (Err (InsufficientJury (length jury)), A)
                        else andThen
                               (change_dispute J E did (\<lambda>d. d\<lparr>dp_status := DS_Deliberating, dp_jury_members := jury,
                                  dp_deliberation_deadline := Some (ar_current_block A + DELIBERATION_PERIOD)\<rparr>))
                               (\<lambda>_. ret jury) A)"

definition submit_jury_vote ::
  "dispute codec \<Rightarrow> 'd storage_env \<Rightarrow> dispute_id \<Rightarrow> account_id \<Rightarrow> verdict \<Rightarrow> string option \<Rightarrow> ('d, unit) arb_action" where
  "submit_jury_vote J E did juror v justification A =
     (case dispute_of A did of
        None \<Rightarrow> (Err (DisputeNotFound did), A)
      | Some d \<Rightarrow>
          if \<not> can_vote (ar_current_block A) d then (Err DeliberationClosed, A)
          else if juror \<notin> set (dp_jury_members d) then (Err NotJuryMember, A)
          else if list_ex (\<lambda>x. jv_juror x = juror) (dp_jury_votes d) then (Err AE_AlreadyVoted, A)
          else change_dispute J E did (\<lambda>d. d\<lparr>dp_jury_votes := dp_jury_votes d @
                 [\<lparr>jv_juror = juror, jv_verdict = v, jv_justification = justification, jv_timestamp = ar_current_block A\<rparr>]\<rparr>) A)"

fun reward_jury_members :: "account_id list \<Rightarrow> ('d, unit) arb_action" where
  "reward_jury_members [] A = (Ok (), A)"
| "reward_jury_members (juror # jurors) A =
     (let b = ar_current_block A; (r, m) = record_arbitration juror b (b div 600) (ar_validator_credits A);
          A' = A\<lparr>ar_validator_credits := m\<rparr>
      in case r of Inl _ \<Rightarrow> (Err VRFSelectionFailed, A') | Inr _ \<Rightarrow> reward_jury_members jurors A')"

definition tally_votes :: "dispute codec \<Rightarrow> 'd storage_env \<Rightarrow> dispute_id \<Rightarrow> ('d, jury_decision) arb_action" where
  "tally_votes J E did A =
     (case dispute_of A did of
        None \<Rightarrow> (Err (DisputeNotFound did), A)
      | Some d \<Rightarrow>
          let deadline_passed = (case dp_deliberation_deadline d of None \<Rightarrow> False | Some deadline \<Rightarrow> deadline \<le> ar_current_block A)
          in if dp_status d \<noteq> DS_Deliberating then (Err AE_InvalidState, A)
             else if \<not> length (dp_jury_members d) \<le> length (dp_jury_votes d) \<and> \<not> deadline_passed then (Err DeliberationNotComplete, A)
             else if dp_jury_votes d = [] then (Err AE_InvalidState, A)
             else
               let decision = decision_of_votes (dp_jury_votes d) (ar_current_block A) did
               in andThen (change_dispute J E did (\<lambda>d. d\<lparr>dp_decision := Some decision, dp_status := DS_Resolved\<rparr>))
                    (\<lambda>_. andThen (reward_jury_members (dp_jury_members d)) (\<lambda>_. ret decision)) A)"

definition enforce_verdict :: "dispute codec \<Rightarrow> 'd storage_env \<Rightarrow> dispute_id \<Rightarrow> enforcement \<Rightarrow> account_id \<Rightarrow> ('d, unit) arb_action" where
  "enforce_verdict J E did enf caller A =
     (if \<not> hm_contains (ar_validators A) caller then (Err AE_Unauthorized, A)
      else case dispute_of A did of
          None \<Rightarrow> (Err (DisputeNotFound did), A)
        | Some d \<Rightarrow>
            if dp_status d \<noteq> DS_Resolved then (Err AE_InvalidState, A)
            else if Option.bind (dp_decision d) jd_enforcement \<noteq> None then (Err AlreadyResolved, A)
            else change_dispute J E did
                   (\<lambda>d. d\<lparr>dp_decision := map_option (\<lambda>x. x\<lparr>jd_enforcement := Some enf\<rparr>) (dp_decision d)\<rparr>) A)"

definition appeal_decision :: "dispute codec \<Rightarrow> 'd storage_env \<Rightarrow> dispute_id \<Rightarrow> account_id \<Rightarrow> jurisdiction \<Rightarrow> ('d, dispute_id) arb_action" where
  "appeal_decision J E did appealed_by new_jurisdiction A =
     (case dispute_of A did of
        None \<Rightarrow> (Err (DisputeNotFound did), A)
      | Some d \<Rightarrow>
          if dp_status d \<noteq> DS_Resolved then (Err AE_InvalidState, A)
          else if \<not> is_higher_jurisdiction new_jurisdiction (dp_jurisdiction d) then (Err InvalidJurisdiction, A)
          else
            andThen (raise_dispute J E (dp_chain_id d) (dp_dispute_type d) appealed_by new_jurisdiction None) (\<lambda>new_id.
              andThen (change_dispute J E new_id (\<lambda>x. x\<lparr>dp_evidence := dp_evidence d\<rparr>)) (\<lambda>_.
                andThen (change_dispute J E did (\<lambda>x. x\<lparr>dp_status := DS_Appealed\<rparr>)) (\<lambda>_. ret new_id))) A)"

definition get_disputes_for_chain :: "(dispute_id list \<Rightarrow> dispute_id list) \<Rightarrow> chain_id \<Rightarrow> 'd arbitration \<Rightarrow> dispute list" where
  "get_disputes_for_chain visit cid A =
     filter (\<lambda>d. dp_chain_id d = cid) (List.map_filter (dispute_of A) (visit (hm_keys (ar_disputes A))))"

definition get_active_disputes :: "(dispute_id list \<Rightarrow> dispute_id list) \<Rightarrow> 'd arbitration \<Rightarrow> dispute list" where
  "get_active_disputes visit A =
     filter (\<lambda>d. dp_status d \<in> {DS_Open, DS_Deliberating}) (List.map_filter (dispute_of A) (visit (hm_keys (ar_disputes A))))"

definition is_jury_member :: "account_id \<Rightarrow> 'd arbitration \<Rightarrow> bool" where
  "is_jury_member a A = list_ex (\<lambda>(_, d). dp_status d = DS_Deliberating \<and> a \<in> set (dp_jury_members d)) (ar_disputes A)"

definition expire_dispute :: "dispute codec \<Rightarrow> 'd storage_env \<Rightarrow> 'd arbitration \<Rightarrow> dispute_id \<Rightarrow> 'd arbitration" where
  "expire_dispute J E A did = snd (change_dispute J E did (\<lambda>d. d\<lparr>dp_status := DS_Expired\<rparr>) A)"

definition expire_stale_disputes ::
  "dispute codec \<Rightarrow> 'd storage_env \<Rightarrow> (dispute_id list \<Rightarrow> dispute_id list) \<Rightarrow> 'd arbitration \<Rightarrow> dispute_id list \<times> 'd arbitration" where
  "expire_stale_disputes J E visit A =
     (let b = ar_current_block A;
          expired = filter (\<lambda>did. case dispute_of A did of None \<Rightarrow> False | Some d \<Rightarrow> dispute_is_stale b d \<or> is_expired b d)
                      (visit (hm_keys (ar_disputes A)))
      in (expired, foldl (expire_dispute J E) A expired))"

definition dismiss_dispute :: "dispute codec \<Rightarrow> 'd storage_env \<Rightarrow> dispute_id \<Rightarrow> account_id \<Rightarrow> ('d, unit) arb_action" where
  "dismiss_dispute J E did caller A =
     (if \<not> hm_contains (ar_validators A) caller then (Err AE_Unauthorized, A)
      else case dispute_of A did of
          None \<Rightarrow> (Err (DisputeNotFound did), A)
        | Some d \<Rightarrow>
            if \<not> (dp_status d = DS_Open \<or> dp_status d = DS_EvidenceComplete) then (Err AE_InvalidState, A)
            else change_dispute J E did (\<lambda>d. d\<lparr>dp_status := DS_Dismissed\<rparr>) A)"

definition has_blocking_disputes :: "chain_id \<Rightarrow> 'd arbitration \<Rightarrow> bool" where
  "has_blocking_disputes cid A =
     list_ex (\<lambda>(_, d). dp_chain_id d = cid \<and> dp_status d \<in> {DS_Open, DS_EvidenceComplete, DS_Deliberating}) (ar_disputes A)"

definition time_until_expiry :: "dispute_id \<Rightarrow> 'd arbitration \<Rightarrow> block_number option" where
  "time_until_expiry did A =
     (case dispute_of A did of
        None \<Rightarrow> None
      | Some d \<Rightarrow>
          if ar_current_block A < absolute_deadline d then Some (absolute_deadline d - ar_current_block A) else Some 0)"

definition load_dispute :: "dispute codec \<Rightarrow> 'd storage_env \<Rightarrow> dispute_id \<Rightarrow> ('d, unit) arb_action" where
  "load_dispute J E did A =
     (case database_get E (dispute_key did) (ar_db A) of
        Inl e \<Rightarrow> (Err (AE_DatabaseError e), A)
      | Inr None \<Rightarrow> (Err (DisputeNotFound did), A)
      | Inr (Some v) \<Rightarrow>
          (case deserialize J v of
             Inl e \<Rightarrow> (Err (AE_SerializationError e), A)
           | Inr d \<Rightarrow> (Ok (), put_dispute d did A)))"

fun load_each :: "dispute codec \<Rightarrow> (bytes \<times> bytes) list \<Rightarrow> nat \<Rightarrow> ('d, nat) arb_action" where
  "load_each J [] n A = (Ok n, A)"
| "load_each J ((_, v) # items) n A =
     (case deserialize J v of
        Inl e \<Rightarrow> (Err (AE_SerializationError e), A)
      | Inr d \<Rightarrow> load_each J items (Suc n) (put_dispute d (dp_id d) A))"

definition load_all_disputes :: "dispute codec \<Rightarrow> 'd storage_env \<Rightarrow> ('d, nat) arb_action" where
  "load_all_disputes J E A = load_each J (prefix_iterator E (ascii ''dispute:'') (ar_db A)) 0 A"

section \<open>Juries\<close>

lemma select_slot_leader_total_in:
  assumes "cs \<noteq> []"
  shows "\<exists>a \<in> fst ` set cs. select_slot_leader L K sl ep cs = Ok a"
proof -
  define W where "W = map (\<lambda>(i, stake, vc). (i, fmul (compute_vrf_weight L stake vc) (slot_randomness K sl ep i))) cs"
  have names: "fst ` set W = fst ` set cs" by (force simp: W_def)
  have "length (sort_key (\<lambda>x. - snd x) W) = length cs" by (simp add: W_def)
  then obtain x xs where x: "sort_key (\<lambda>x. - snd x) W = x # xs"
    using assms by (cases "sort_key (\<lambda>x. - snd x) W") auto
  then have "x \<in> set (sort_key (\<lambda>x. - snd x) W)" by simp
  then have "fst x \<in> fst ` set cs" using names by auto
  moreover have "select_slot_leader L K sl ep cs = Ok (fst x)"
    using assms x by (simp add: select_slot_leader_def W_def)
  ultimately show ?thesis by blast
qed

text \<open>The lottery never draws an account twice and, while candidates remain, always draws one.\<close>

lemma draw_jurors_sound:
  assumes "draw_jurors L K did turn n cs drawn = Ok jury" and "distinct drawn" and "set drawn \<subseteq> fst ` set cs"
  shows "distinct jury \<and> set jury \<subseteq> fst ` set cs"
  using assms
proof (induction n arbitrary: turn drawn)
  case (Suc n)
  let ?av = "filter (\<lambda>(a, _, _). a \<notin> set drawn) cs"
  show ?case
  proof (cases "?av = []")
    case False
    then obtain a where a: "select_slot_leader L K (of_nat turn) (did + of_nat turn) ?av = Ok a" and "a \<in> fst ` set ?av"
      using select_slot_leader_total_in [OF False, of L K "of_nat turn" "did + of_nat turn"] by blast
    from \<open>a \<in> fst ` set ?av\<close> have fresh: "a \<notin> set drawn" "a \<in> fst ` set cs" by auto
    have "draw_jurors L K did (Suc turn) n cs (drawn @ [a]) = Ok jury"
      using Suc.prems(1) False a by (simp add: Let_def)
    then show ?thesis using Suc.IH [of "Suc turn" "drawn @ [a]"] Suc.prems fresh by auto
  qed (use Suc.prems in \<open>simp add: Let_def\<close>)
qed simp

lemma draw_jurors_total:
  assumes "distinct drawn" and "set drawn \<subseteq> fst ` set cs"
  shows "\<exists>jury. draw_jurors L K did turn n cs drawn = Ok jury
    \<and> length jury = min (length drawn + n) (card (fst ` set cs))"
  using assms
proof (induction n arbitrary: turn drawn)
  case 0
  then have "length drawn \<le> card (fst ` set cs)"
    by (metis card_mono distinct_card finite_imageI finite_set)
  then show ?case by simp
next
  case (Suc n)
  let ?av = "filter (\<lambda>(a, _, _). a \<notin> set drawn) cs"
  show ?case
  proof (cases "?av = []")
    case True
    then have "set drawn = fst ` set cs" using Suc.prems by (force simp: filter_empty_conv)
    then have "length drawn = card (fst ` set cs)" using Suc.prems(1) by (metis distinct_card)
    with True show ?thesis by (simp add: Let_def)
  next
    case False
    then obtain a where a: "select_slot_leader L K (of_nat turn) (did + of_nat turn) ?av = Ok a" and "a \<in> fst ` set ?av"
      using select_slot_leader_total_in [OF False, of L K "of_nat turn" "did + of_nat turn"] by blast
    from \<open>a \<in> fst ` set ?av\<close> have fresh: "a \<notin> set drawn" "a \<in> fst ` set cs" by auto
    from Suc.IH [of "drawn @ [a]" "Suc turn"] Suc.prems fresh a False show ?thesis by (simp add: Let_def)
  qed
qed

lemma jury_candidates_exclude:
  "a \<in> fst ` set (jury_candidates visit excluded raiser A) \<Longrightarrow> excluded \<noteq> Some a \<and> a \<noteq> raiser"
  by (auto simp: jury_candidates_def)

section \<open>What every dispute satisfies\<close>

definition jury_ok :: "dispute \<Rightarrow> bool" where
  "jury_ok d \<longleftrightarrow>
     distinct (dp_jury_members d) \<and> dp_raised_by d \<notin> set (dp_jury_members d) \<and> (\<forall>a. accused d = Some a \<longrightarrow> a \<notin> set (dp_jury_members d))
     \<and> (dp_jury_members d = [] \<or> MIN_JURY_SIZE \<le> length (dp_jury_members d))"

definition jury_votes_ok :: "dispute \<Rightarrow> bool" where
  "jury_votes_ok d \<longleftrightarrow> distinct (map jv_juror (dp_jury_votes d)) \<and> jv_juror ` set (dp_jury_votes d) \<subseteq> set (dp_jury_members d)"

definition decision_ok :: "dispute \<Rightarrow> bool" where
  "decision_ok d \<longleftrightarrow>
     (case dp_decision d of
        None \<Rightarrow> dp_status d \<noteq> DS_Resolved
      | Some x \<Rightarrow> dp_status d \<in> {DS_Resolved, DS_Appealed, DS_Expired} \<and> dp_jury_votes d \<noteq> []
          \<and> x\<lparr>jd_enforcement := None\<rparr> = decision_of_votes (dp_jury_votes d) (jd_decided_at x) (jd_dispute_id x))"

definition dispute_ok :: "dispute \<Rightarrow> bool" where
  "dispute_ok d \<longleftrightarrow>
     jury_ok d \<and> jury_votes_ok d \<and> decision_ok d \<and> (dp_status d \<in> {DS_Open, DS_EvidenceComplete} \<longrightarrow> dp_jury_members d = [])"

lemmas dispute_ok_defs = dispute_ok_def jury_ok_def jury_votes_ok_def decision_ok_def

definition arb_ok :: "'d arbitration \<Rightarrow> bool" where
  "arb_ok A \<longleftrightarrow> (\<forall>did d. dispute_of A did = Some d \<longrightarrow> dispute_ok d)"

lemma persist_disputes [simp]: "ar_disputes (snd (persist_dispute J E d A)) = ar_disputes A"
  by (simp add: persist_dispute_def Let_def split: sum.split prod.split)

lemma reward_disputes [simp]: "ar_disputes (snd (reward_jury_members js A)) = ar_disputes A"
  by (induction js A rule: reward_jury_members.induct) (auto simp: Let_def split: sum.split prod.split)

lemma arb_ok_cong: "ar_disputes A' = ar_disputes A \<Longrightarrow> arb_ok A' = arb_ok A"
  by (simp add: arb_ok_def)

lemma change_disputes:
  "ar_disputes (snd (change_dispute J E did f A)) =
     (case dispute_of A did of None \<Rightarrow> ar_disputes A | Some d \<Rightarrow> hm_insert did (f d) (ar_disputes A))"
  by (simp add: change_dispute_def put_dispute_def split: option.split)

lemma change_dispute_ok:
  assumes "arb_ok A" and "\<And>d. dispute_of A did = Some d \<Longrightarrow> dispute_ok d \<Longrightarrow> dispute_ok (f d)"
  shows "arb_ok (snd (change_dispute J E did f A))"
  using assms by (auto simp: arb_ok_def change_disputes update_conv' split: option.split if_splits)

lemma andThen_ok: "arb_ok (snd (m A)) \<Longrightarrow> (\<And>a B. m A = (Ok a, B) \<Longrightarrow> arb_ok B \<Longrightarrow> arb_ok (snd (f a B))) \<Longrightarrow> arb_ok (snd (andThen m f A))"
  by (cases "m A") (auto simp: andThen_def split: sum.split)

lemma ret_ok: "arb_ok A \<Longrightarrow> arb_ok (snd (ret a A))"
  by (simp add: ret_def)

section \<open>Every operation keeps it\<close>

lemma dispute_new_ok: "dispute_ok ((dispute_new did cid ty a b jur)\<lparr>dp_evidence := es\<rparr>)"
  by (simp add: dispute_ok_defs dispute_new_def)

lemma raise_dispute_ok: "arb_ok A \<Longrightarrow> arb_ok (snd (raise_dispute J E cid ty a jur ev A))"
  unfolding raise_dispute_def
  by (auto simp: Let_def split: sum.split intro!: andThen_ok ret_ok)
     (auto simp: arb_ok_def put_dispute_def update_conv' dispute_new_ok split: if_splits)

lemma submit_evidence_ok: "arb_ok A \<Longrightarrow> arb_ok (snd (submit_evidence J E did ev a A))"
  unfolding submit_evidence_def
  by (auto split: option.split intro!: change_dispute_ok)
     (auto simp: dispute_ok_defs can_submit_evidence_def split: option.splits)

lemma select_jury_ok: "arb_ok A \<Longrightarrow> arb_ok (snd (select_jury L K J E visit did sz A))"
proof (cases "dispute_of A did")
  case (Some d)
  assume ok: "arb_ok A"
  then have d: "dispute_ok d" using Some by (auto simp: arb_ok_def)
  show ?thesis
  proof (cases "draw_jurors L K did 0 (case sz of None \<Rightarrow> DEFAULT_JURY_SIZE | Some k \<Rightarrow> k)
      (jury_candidates visit (accused d) (dp_raised_by d) A) []")
    case (Inr jury)
    then have "distinct jury" and "set jury \<subseteq> fst ` set (jury_candidates visit (accused d) (dp_raised_by d) A)"
      using draw_jurors_sound [OF Inr] by auto
    then have "jury_ok (d\<lparr>dp_jury_members := jury\<rparr>)" if "MIN_JURY_SIZE \<le> length jury"
      using that jury_candidates_exclude [of _ visit "accused d" "dp_raised_by d" A]
      by (auto simp: jury_ok_def accused_def)
    then have "dispute_ok (d\<lparr>dp_status := DS_Deliberating, dp_jury_members := jury, dp_deliberation_deadline := D\<rparr>)"
      if "MIN_JURY_SIZE \<le> length jury" "dp_status d = DS_Open" for D
      using that d by (auto simp: dispute_ok_defs accused_def split: option.splits)
    then show ?thesis using ok Some Inr
      by (auto simp: select_jury_def Let_def intro!: andThen_ok ret_ok change_dispute_ok)
  qed (use ok Some in \<open>auto simp: select_jury_def Let_def\<close>)
qed (simp add: select_jury_def)

lemma submit_jury_vote_ok: "arb_ok A \<Longrightarrow> arb_ok (snd (submit_jury_vote J E did a v t A))"
  unfolding submit_jury_vote_def
  by (auto split: option.split intro!: change_dispute_ok)
     (auto simp: dispute_ok_defs can_vote_def list_ex_iff accused_def split: option.splits)

lemma tally_votes_ok: "arb_ok A \<Longrightarrow> arb_ok (snd (tally_votes J E did A))"
  unfolding tally_votes_def
  by (auto simp: Let_def arb_ok_cong [OF reward_disputes] split: option.split intro!: andThen_ok ret_ok change_dispute_ok)
     (simp_all add: dispute_ok_defs accused_def decision_of_votes_def Let_def)

lemma enforce_verdict_ok: "arb_ok A \<Longrightarrow> arb_ok (snd (enforce_verdict J E did enf a A))"
  unfolding enforce_verdict_def
  by (auto split: option.split intro!: change_dispute_ok)
     (auto simp: dispute_ok_defs accused_def split: option.splits)

lemma dismiss_dispute_ok: "arb_ok A \<Longrightarrow> arb_ok (snd (dismiss_dispute J E did a A))"
  unfolding dismiss_dispute_def
  by (auto split: option.split intro!: change_dispute_ok)
     (auto simp: dispute_ok_defs accused_def split: option.splits)

lemma expire_dispute_ok: "arb_ok A \<Longrightarrow> arb_ok (expire_dispute J E A did)"
  unfolding expire_dispute_def
  by (rule change_dispute_ok) (auto simp: dispute_ok_defs accused_def split: option.splits)

lemma expire_all_ok: "arb_ok A \<Longrightarrow> arb_ok (foldl (expire_dispute J E) A ids)"
  by (induction ids arbitrary: A) (simp_all add: expire_dispute_ok)

lemma appeal_decision_ok:
  assumes "arb_ok A"
  shows "arb_ok (snd (appeal_decision J E did a jur A))"
proof (cases "dispute_of A did")
  case (Some d)
  have fresh: "dispute_of B i = Some e \<Longrightarrow> dp_status e = DS_Open"
    if "raise_dispute J E (dp_chain_id d) (dp_dispute_type d) a jur None A = (Ok i, B)" for i B e
  proof -
    from that have "snd (raise_dispute J E (dp_chain_id d) (dp_dispute_type d) a jur None A) = B" by simp
    moreover from that have "i = ar_next_dispute_id A"
      by (auto simp: raise_dispute_def Let_def elim!: andThen_okE split: sum.splits if_splits)
    moreover have "ar_disputes B = ar_disputes (snd (persist_dispute J E d' (put_dispute d' (ar_next_dispute_id A) A')))
      \<Longrightarrow> dispute_of B (ar_next_dispute_id A) = Some d'" for d' A' by (simp add: put_dispute_def update_conv')
    ultimately show "dispute_of B i = Some e \<Longrightarrow> dp_status e = DS_Open"
      using that
      by (auto simp: raise_dispute_def Let_def andThen_def ret_def put_dispute_def update_conv' dispute_new_def
          persist_dispute_def split: sum.splits if_splits prod.splits)
  qed
  show ?thesis
    unfolding appeal_decision_def using assms Some
    by (auto intro!: andThen_ok ret_ok change_dispute_ok raise_dispute_ok)
       (auto dest: fresh simp: dispute_ok_defs accused_def split: option.splits)
qed (simp add: appeal_decision_def assms)

text \<open>
  Everything that can happen to the contract while it runs.  The order in which a map is visited is
  chosen anew at each step.
\<close>

inductive arb_reachable :: "libm \<Rightarrow> crypto \<Rightarrow> dispute codec \<Rightarrow> 'd storage_env \<Rightarrow> 'd arbitration \<Rightarrow> bool"
  for L K J E where
  start: "arb_reachable L K J E (arbitration_new db credits)"
| register: "arb_reachable L K J E A \<Longrightarrow> arb_reachable L K J E (arb_register_validator a stake vc A)"
| block: "arb_reachable L K J E A \<Longrightarrow> arb_reachable L K J E (set_current_block b A)"
| raise: "arb_reachable L K J E A \<Longrightarrow> arb_reachable L K J E (snd (raise_dispute J E cid ty a jur ev A))"
| evidence: "arb_reachable L K J E A \<Longrightarrow> arb_reachable L K J E (snd (submit_evidence J E did e a A))"
| jury: "arb_reachable L K J E A \<Longrightarrow> arb_reachable L K J E (snd (select_jury L K J E visit did sz A))"
| vote: "arb_reachable L K J E A \<Longrightarrow> arb_reachable L K J E (snd (submit_jury_vote J E did a v t A))"
| tally: "arb_reachable L K J E A \<Longrightarrow> arb_reachable L K J E (snd (tally_votes J E did A))"
| enforce: "arb_reachable L K J E A \<Longrightarrow> arb_reachable L K J E (snd (enforce_verdict J E did enf a A))"
| appeal: "arb_reachable L K J E A \<Longrightarrow> arb_reachable L K J E (snd (appeal_decision J E did a jur A))"
| expire: "arb_reachable L K J E A \<Longrightarrow> arb_reachable L K J E (snd (expire_stale_disputes J E visit' A))"
| dismiss: "arb_reachable L K J E A \<Longrightarrow> arb_reachable L K J E (snd (dismiss_dispute J E did a A))"

lemma arb_reachable_ok: "arb_reachable L K J E A \<Longrightarrow> arb_ok A"
proof (induction rule: arb_reachable.induct)
  case (expire A visit')
  then show ?case by (simp add: expire_stale_disputes_def Let_def expire_all_ok)
next
  case (start db credits)
  show ?case by (simp add: arb_ok_def arbitration_new_def)
qed (simp_all add: raise_dispute_ok submit_evidence_ok select_jury_ok submit_jury_vote_ok tally_votes_ok enforce_verdict_ok
      appeal_decision_ok dismiss_dispute_ok,
    simp_all add: arb_ok_def arb_register_validator_def set_current_block_def)

lemma count_verdicts_le: "count_verdicts v votes \<le> length votes"
  by (simp add: count_verdicts_def)

text \<open>The vote counters are eight bits wide; up to 255 votes they are exact.\<close>

lemma decision_verdict:
  assumes "votes \<noteq> []" and "length votes < 256"
  shows "jd_verdict (decision_of_votes votes b did) = Guilty \<longleftrightarrow> count_verdicts NotGuilty votes < count_verdicts Guilty votes"
proof -
  have fits: "n \<le> length votes \<Longrightarrow> unat (of_nat n :: u8) = n" for n
    using assms(2) by (simp add: unat_of_nat)
  then have "(of_nat (length votes) :: u8) \<noteq> 0" using assms(1) by (metis le_refl length_0_conv unat_0)
  then show ?thesis
    by (simp add: decision_of_votes_def Let_def word_less_nat_alt fits count_verdicts_le)
qed

text \<open>
  C22: in every state the arbitration contract can reach without reading disputes back from the
  database, a dispute that has a verdict was decided by a proper jury: at least seven different accounts
  without the raiser and the accused, each vote of the tally cast by a different one of them, the verdict
  the one those votes give (with fewer than 256 jurors, the range of the code's counters).
\<close>

theorem jury_verdict_sound:
  assumes "arb_reachable L K J E A" and "hm_get (ar_disputes A) did = Some d" and "dp_decision d = Some x"
    and "length (dp_jury_members d) < 256"
  shows "distinct (dp_jury_members d) \<and> 7 \<le> length (dp_jury_members d)
    \<and> dp_raised_by d \<notin> set (dp_jury_members d) \<and> (\<forall>a. accused d = Some a \<longrightarrow> a \<notin> set (dp_jury_members d))
    \<and> jd_votes x = dp_jury_votes d \<and> distinct (map jv_juror (jd_votes x)) \<and> jv_juror ` set (jd_votes x) \<subseteq> set (dp_jury_members d)
    \<and> (jd_verdict x = Guilty \<longleftrightarrow> count_verdicts NotGuilty (jd_votes x) < count_verdicts Guilty (jd_votes x))"
proof -
  have "dispute_ok d" using arb_reachable_ok [OF assms(1)] assms(2) by (simp add: arb_ok_def)
  then have j: "jury_ok d" and v: "jury_votes_ok d" and ne: "dp_jury_votes d \<noteq> []"
    and x: "x\<lparr>jd_enforcement := None\<rparr> = decision_of_votes (dp_jury_votes d) (jd_decided_at x) (jd_dispute_id x)"
    using assms(3) by (auto simp: dispute_ok_def decision_ok_def)
  have votes: "jd_votes x = dp_jury_votes d"
    using arg_cong [OF x, of jd_votes] by (simp add: decision_of_votes_def Let_def split: if_splits)
  have "length (dp_jury_votes d) \<le> length (dp_jury_members d)"
    using v card_mono [of "set (dp_jury_members d)" "jv_juror ` set (dp_jury_votes d)"] j
      distinct_card [of "map jv_juror (dp_jury_votes d)"] distinct_card [of "dp_jury_members d"]
    by (simp add: jury_votes_ok_def jury_ok_def)
  then have "jd_verdict x = Guilty \<longleftrightarrow> count_verdicts NotGuilty (jd_votes x) < count_verdicts Guilty (jd_votes x)"
    using decision_verdict [OF ne] arg_cong [OF x, of jd_verdict] assms(4) votes by simp
  moreover have "dp_jury_members d \<noteq> []" using v ne by (auto simp: jury_votes_ok_def)
  ultimately show ?thesis
    using j v votes unfolding jury_ok_def jury_votes_ok_def by (simp add: const_defs)
qed

text \<open>
  A run that ends with a verdict: eight accounts register, account 100 raises a dispute, seven jurors are
  drawn, the first of them votes and the votes are counted when the deliberation period is over.
\<close>

definition demo_registered :: "unit arbitration" where
  "demo_registered = foldl (\<lambda>A a. arb_register_validator a 1000 10 A) (arbitration_new () []) [1, 2, 3, 4, 5, 6, 7, 8]"

definition demo_raised :: "dispute codec \<Rightarrow> unit storage_env \<Rightarrow> unit arbitration" where
  "demo_raised J E = snd (raise_dispute J E 1 ValidatorMisconduct 100 Root (Some (TextEvidence [] 100 0)) demo_registered)"

definition demo_verdict ::
  "libm \<Rightarrow> crypto \<Rightarrow> dispute codec \<Rightarrow> unit storage_env \<Rightarrow> account_id \<Rightarrow> unit arbitration" where
  "demo_verdict L K J E juror =
     snd (tally_votes J E 1 (set_current_block 300000
       (snd (submit_jury_vote J E 1 juror Guilty None (snd (select_jury L K J E id 1 (Some 7) (demo_raised J E)))))))"

lemma demo_registered_reachable: "arb_reachable L K J E demo_registered"
proof -
  have "arb_reachable L K J E A \<Longrightarrow> arb_reachable L K J E (foldl (\<lambda>A a. arb_register_validator a 1000 10 A) A as)" for A as
    by (induction as arbitrary: A) (simp_all add: arb_reachable.register)
  from this [OF arb_reachable.start] show ?thesis by (simp only: demo_registered_def)
qed

lemma demo_verdict_reachable: "arb_reachable L K J E (demo_verdict L K J E juror)"
  unfolding demo_verdict_def demo_raised_def
  by (intro arb_reachable.intros demo_registered_reachable)

lemma raise_disputes:
  assumes "validate_jurisdiction jur cid = Ok ()" and "ar_next_dispute_id A \<noteq> - 1" and "\<not> hm_contains (ar_disputes A) (ar_next_dispute_id A)"
  shows "dispute_of (snd (raise_dispute J E cid ty a jur (Some e) A)) (ar_next_dispute_id A) =
      Some ((dispute_new (ar_next_dispute_id A) cid ty a (ar_current_block A) jur)\<lparr>dp_evidence := [e]\<rparr>)"
    and "ar_validators (snd (raise_dispute J E cid ty a jur (Some e) A)) = ar_validators A"
    and "ar_current_block (snd (raise_dispute J E cid ty a jur (Some e) A)) = ar_current_block A"
  using assms
  by (simp_all add: raise_dispute_def Let_def andThen_def ret_def put_dispute_def persist_dispute_def update_conv' split: sum.split prod.split)

lemma snd_andThen_ret [simp]: "snd (andThen m (\<lambda>_. ret x) A) = snd (m A)"
  by (cases "m A") (simp add: andThen_def ret_def split: sum.split)

lemma change_keeps [simp]:
  "ar_current_block (snd (change_dispute J E did f A)) = ar_current_block A"
  "ar_validators (snd (change_dispute J E did f A)) = ar_validators A"
  by (simp_all add: change_dispute_def persist_dispute_def put_dispute_def Let_def split: option.split sum.split prod.split)

lemma select_jury_effect:
  assumes "dispute_of A did = Some d" and "dp_status d = DS_Open" and "dp_evidence d \<noteq> []"
    and "jury_candidates visit (accused d) (dp_raised_by d) A \<noteq> []"
    and "draw_jurors L K did 0 n (jury_candidates visit (accused d) (dp_raised_by d) A) [] = Ok jury" and "MIN_JURY_SIZE \<le> length jury"
  shows "snd (select_jury L K J E visit did (Some n) A) =
    snd (change_dispute J E did (\<lambda>d. d\<lparr>dp_status := DS_Deliberating, dp_jury_members := jury,
      dp_deliberation_deadline := Some (ar_current_block A + DELIBERATION_PERIOD)\<rparr>) A)"
  using assms by (simp add: select_jury_def Let_def)

lemma submit_jury_vote_effect:
  assumes "dispute_of A did = Some d" and "can_vote (ar_current_block A) d" and "juror \<in> set (dp_jury_members d)" and "dp_jury_votes d = []"
  shows "snd (submit_jury_vote J E did juror v t A) =
    snd (change_dispute J E did (\<lambda>d. d\<lparr>dp_jury_votes := dp_jury_votes d @
      [\<lparr>jv_juror = juror, jv_verdict = v, jv_justification = t, jv_timestamp = ar_current_block A\<rparr>]\<rparr>) A)"
  using assms by (simp add: submit_jury_vote_def)

lemma tally_votes_effect:
  assumes "dispute_of A did = Some d" and "dp_status d = DS_Deliberating" and "dp_jury_votes d \<noteq> []"
    and "dp_deliberation_deadline d = Some deadline" and "deadline \<le> ar_current_block A"
  shows "ar_disputes (snd (tally_votes J E did A)) =
    hm_insert did (d\<lparr>dp_decision := Some (decision_of_votes (dp_jury_votes d) (ar_current_block A) did), dp_status := DS_Resolved\<rparr>) (ar_disputes A)"
proof -
  have "ar_disputes (snd (andThen m (\<lambda>_. andThen (reward_jury_members js) (\<lambda>_. ret y)) A)) = ar_disputes (snd (m A))" for m js y
    by (cases "m A") (simp add: andThen_def [of m] split: sum.split)
  note rewards = this
  have "tally_votes J E did A =
      andThen (change_dispute J E did (\<lambda>d'. d'\<lparr>dp_decision := Some (decision_of_votes (dp_jury_votes d) (ar_current_block A) did), dp_status := DS_Resolved\<rparr>))
        (\<lambda>_. andThen (reward_jury_members (dp_jury_members d)) (\<lambda>_. ret (decision_of_votes (dp_jury_votes d) (ar_current_block A) did))) A"
    using assms by (simp add: tally_votes_def Let_def)
  then show ?thesis using assms(1) by (simp only: rewards change_disputes option.case)
qed

lemma demo_verdict_exists:
  "\<exists>juror d x. dispute_of (demo_verdict L K J E juror) 1 = Some d \<and> dp_decision d = Some x \<and> length (dp_jury_members d) < 256"
proof -
  let ?cs = "jury_candidates id None 100 demo_registered"
  obtain jury where jury: "draw_jurors L K 1 0 7 ?cs [] = Ok jury" and len: "length jury = 7"
    using draw_jurors_total [of "[]" ?cs L K 1 0 7]
    by (auto simp: jury_candidates_def demo_registered_def arb_register_validator_def arbitration_new_def List.map_filter_def)
  let ?R = "demo_raised J E"
  have raised: "dispute_of ?R 1 = Some ((dispute_new 1 1 ValidatorMisconduct 100 0 Root)\<lparr>dp_evidence := [TextEvidence [] 100 0]\<rparr>)"
    "ar_validators ?R = ar_validators demo_registered" "ar_current_block ?R = 0"
    using raise_disputes [of Root 1 demo_registered J E ValidatorMisconduct 100 "TextEvidence [] 100 0"]
    by (simp_all add: demo_raised_def validate_jurisdiction_def demo_registered_def arb_register_validator_def arbitration_new_def hm_contains_def)
  let ?d = "(dispute_new 1 1 ValidatorMisconduct 100 0 Root)\<lparr>dp_evidence := [TextEvidence [] 100 0], dp_status := DS_Deliberating,
    dp_jury_members := jury, dp_deliberation_deadline := Some DELIBERATION_PERIOD\<rparr>"
  let ?S = "snd (select_jury L K J E id 1 (Some 7) ?R)"
  have cs: "jury_candidates id None 100 ?R = ?cs" by (simp add: jury_candidates_def raised)
  have "?cs \<noteq> []" using jury len by (auto simp: eval_nat_numeral)
  then have "?S = snd (change_dispute J E 1 (\<lambda>d. d\<lparr>dp_status := DS_Deliberating, dp_jury_members := jury,
      dp_deliberation_deadline := Some (0 + DELIBERATION_PERIOD)\<rparr>) ?R)"
    using select_jury_effect [OF raised(1), where visit = id and jury = jury and n = 7 and L = L and K = K and J = J and E = E]
      jury len cs raised(3) by (simp add: dispute_new_def accused_def const_defs)
  then have S: "dispute_of ?S 1 = Some ?d" "ar_current_block ?S = 0"
    by (simp_all add: change_disputes raised update_conv')
  obtain juror where juror: "juror \<in> set jury" using len by (cases jury) auto
  let ?V = "snd (submit_jury_vote J E 1 juror Guilty None ?S)"
  have "?V = snd (change_dispute J E 1 (\<lambda>d. d\<lparr>dp_jury_votes := dp_jury_votes d @
      [\<lparr>jv_juror = juror, jv_verdict = Guilty, jv_justification = None, jv_timestamp = 0\<rparr>]\<rparr>) ?S)"
    using submit_jury_vote_effect [OF S(1)] juror S(2) by (simp add: can_vote_def dispute_new_def)
  then have V: "dispute_of ?V 1 = Some (?d\<lparr>dp_jury_votes := [\<lparr>jv_juror = juror, jv_verdict = Guilty, jv_justification = None, jv_timestamp = 0\<rparr>]\<rparr>)"
    by (simp add: change_disputes S update_conv' dispute_new_def)
  have "dispute_of (set_current_block 300000 ?V) 1 = dispute_of ?V 1" by (simp add: set_current_block_def)
  from tally_votes_effect [OF this [unfolded V], of DELIBERATION_PERIOD J E]
  have "\<exists>d x. dispute_of (demo_verdict L K J E juror) 1 = Some d \<and> dp_decision d = Some x \<and> dp_jury_members d = jury"
    by (simp add: demo_verdict_def set_current_block_def update_conv' const_defs)
  then show ?thesis using len by force
qed

theorem jury_verdict_sound_witness:
  "\<forall>L K J E. \<exists>juror d x. hm_get (ar_disputes (demo_verdict L K J E juror)) 1 = Some d \<and> dp_decision d = Some x
     \<and> 7 \<le> length (dp_jury_members d)
     \<and> (jd_verdict x = Guilty \<longleftrightarrow> count_verdicts NotGuilty (jd_votes x) < count_verdicts Guilty (jd_votes x))"
proof (intro allI)
  fix L K J E
  obtain juror d x where d: "hm_get (ar_disputes (demo_verdict L K J E juror)) 1 = Some d" "dp_decision d = Some x" "length (dp_jury_members d) < 256"
    using demo_verdict_exists by blast
  show "\<exists>juror d x. hm_get (ar_disputes (demo_verdict L K J E juror)) 1 = Some d \<and> dp_decision d = Some x
     \<and> 7 \<le> length (dp_jury_members d)
     \<and> (jd_verdict x = Guilty \<longleftrightarrow> count_verdicts NotGuilty (jd_votes x) < count_verdicts Guilty (jd_votes x))"
    using jury_verdict_sound [OF demo_verdict_reachable d] d(1,2) by blast
qed

section \<open>Expiry\<close>

lemma stale_if_expired: "is_expired b d \<Longrightarrow> dispute_is_stale b d"
  by (simp add: dispute_is_stale_def)

lemma expire_disputes:
  "dispute_of (expire_dispute J E A i) did =
     (if did = i then map_option (\<lambda>d. d\<lparr>dp_status := DS_Expired\<rparr>) (dispute_of A did) else dispute_of A did)"
  by (auto simp: expire_dispute_def change_disputes update_conv' split: option.split)

lemma expire_all_disputes:
  "dispute_of (foldl (expire_dispute J E) A ids) did =
     (if did \<in> set ids then map_option (\<lambda>d. d\<lparr>dp_status := DS_Expired\<rparr>) (dispute_of A did) else dispute_of A did)"
  by (induction ids arbitrary: A) (auto simp: expire_disputes option.map_comp comp_def)

lemma expire_all_keys: "map fst (ar_disputes (foldl (expire_dispute J E) A ids)) = map fst (ar_disputes A)"
proof (induction ids arbitrary: A)
  case (Cons i ids)
  have "map fst (ar_disputes (expire_dispute J E A i)) = map fst (ar_disputes A)"
    by (auto simp: expire_dispute_def change_disputes update_keys map_of_eq_None_iff [symmetric] split: option.split)
  with Cons show ?case by simp
qed simp

text \<open>
  C32: the clean-up ends exactly the stale disputes and changes no other, and after it no dispute
  older than \<open>MAX_DISPUTE_DURATION\<close> blocks a chain: a dispute that still blocks was raised within it.
\<close>

theorem disputes_expire:
  fixes A :: "'d arbitration"
    and J :: "dispute codec" and E :: "'d storage_env" and visit :: "dispute_id list \<Rightarrow> dispute_id list" and cid :: chain_id
  assumes "hm_inv (ar_disputes A)" and "\<And>ks. set (visit ks) = set ks"
  defines "A' \<equiv> snd (expire_stale_disputes J E visit A)" and "b \<equiv> ar_current_block A"
  shows "(\<forall>did. hm_get (ar_disputes A') did =
      map_option (\<lambda>d. if dispute_is_stale b d then d\<lparr>dp_status := DS_Expired\<rparr> else d) (hm_get (ar_disputes A) did))
    \<and> (has_blocking_disputes cid A' \<longrightarrow>
        (\<exists>did d. hm_get (ar_disputes A) did = Some d \<and> dp_chain_id d = cid \<and> b \<le> dp_raised_at d + MAX_DISPUTE_DURATION))"
proof -
  let ?ids = "filter (\<lambda>did. case dispute_of A did of None \<Rightarrow> False | Some d \<Rightarrow> dispute_is_stale b d \<or> is_expired b d)
    (visit (hm_keys (ar_disputes A)))"
  have A': "A' = foldl (expire_dispute J E) A ?ids"
    unfolding A'_def b_def by (simp add: expire_stale_disputes_def Let_def)
  have exact: "dispute_of A' did =
      map_option (\<lambda>d. if dispute_is_stale b d then d\<lparr>dp_status := DS_Expired\<rparr> else d) (dispute_of A did)" for did
    using assms(2) stale_if_expired
    by (cases "dispute_of A did") (auto simp: A' expire_all_disputes domI dom_map_of_conv_image_fst [symmetric])
  moreover have "\<exists>did d. dispute_of A did = Some d \<and> dp_chain_id d = cid \<and> b \<le> dp_raised_at d + MAX_DISPUTE_DURATION"
    if "has_blocking_disputes cid A'"
  proof -
    from that obtain did e where "(did, e) \<in> set (ar_disputes A')" and e: "dp_chain_id e = cid"
      "dp_status e \<in> {DS_Open, DS_EvidenceComplete, DS_Deliberating}" by (auto simp: has_blocking_disputes_def list_ex_iff)
    moreover have "distinct (map fst (ar_disputes A'))" using assms(1) by (simp add: A' expire_all_keys hm_inv_def)
    ultimately have "dispute_of A' did = Some e" by simp
    then obtain d where d: "dispute_of A did = Some d" "e = (if dispute_is_stale b d then d\<lparr>dp_status := DS_Expired\<rparr> else d)"
      using exact by auto
    have fresh: "\<not> dispute_is_stale b d"
    proof
      assume "dispute_is_stale b d"
      with d(2) e(2) show False by simp
    qed
    then have "\<not> is_expired b d" and "e = d" using stale_if_expired [of b d] d(2) by auto
    then have "b \<le> dp_raised_at d + MAX_DISPUTE_DURATION"
      using e(2) unfolding is_expired_def by (cases "dp_status d") simp_all
    with d(1) e(1) \<open>e = d\<close> show ?thesis by blast
  qed
  ultimately show ?thesis by blast
qed

theorem disputes_expire_witness:
  "\<forall>J (E :: unit storage_env).
     hm_get (ar_disputes (snd (expire_stale_disputes J E id
       ((arbitration_new () [])\<lparr>ar_current_block := 900000, ar_disputes := [(1, dispute_new 1 7 StateRootDispute 5 0 Root)]\<rparr>)))) 1 =
     Some ((dispute_new 1 7 StateRootDispute 5 0 Root)\<lparr>dp_status := DS_Expired\<rparr>)"
proof (intro allI)
  fix J and E :: "unit storage_env"
  let ?A = "(arbitration_new () [])\<lparr>ar_current_block := 900000, ar_disputes := [(1, dispute_new 1 7 StateRootDispute 5 0 Root)]\<rparr>"
  have "hm_inv (ar_disputes ?A)" by (simp add: hm_inv_def)
  then show "hm_get (ar_disputes (snd (expire_stale_disputes J E id ?A))) 1 =
     Some ((dispute_new 1 7 StateRootDispute 5 0 Root)\<lparr>dp_status := DS_Expired\<rparr>)"
    using disputes_expire [of ?A id J E 7]
    by (simp add: dispute_is_stale_def is_expired_def dispute_new_def const_defs)
qed

section \<open>Behaviour that differs from the documentation\<close>

text \<open>
  \<open>load_all_disputes\<close> restores the disputes but not \<open>next_dispute_id\<close>: after a restart with dispute 1 on
  disk, raising a dispute fails, and fails again whenever it is retried.
\<close>

lemma restart_blocks_disputes:
  assumes "load_all_disputes J E (arbitration_new db credits) = (Ok n, A)" and "dispute_of A 1 \<noteq> None"
    and "validate_jurisdiction jur cid = Ok ()"
  shows "raise_dispute J E cid ty a jur ev A = (Err (DuplicateDispute 1), A)"
proof -
  have "load_each J items n B = (Ok m, A) \<Longrightarrow> ar_next_dispute_id A = ar_next_dispute_id B" for items n m B
    by (induction J items n B rule: load_each.induct) (auto simp: put_dispute_def split: sum.splits)
  then have "ar_next_dispute_id A = 1"
    using assms(1) by (fastforce simp: load_all_disputes_def arbitration_new_def)
  with assms(2,3) show ?thesis by (auto simp: raise_dispute_def hm_contains_def)
qed

text \<open>A verdict of not guilty can be enforced with a slashing: the enforcement is not compared with the verdict.\<close>

lemma acquitted_can_be_slashed:
  assumes "hm_contains (ar_validators A) caller" and "dispute_of A did = Some d" and "dp_status d = DS_Resolved"
    and "dp_decision d = Some x" and "jd_verdict x = NotGuilty" and "jd_enforcement x = None"
  shows "\<exists>e y. dispute_of (snd (enforce_verdict J E did (SlashValidator v amount FS_Critical) caller A)) did = Some e
    \<and> dp_decision e = Some y \<and> jd_verdict y = NotGuilty \<and> jd_enforcement y = Some (SlashValidator v amount FS_Critical)"
  using assms by (simp add: enforce_verdict_def change_disputes update_conv')

text \<open>With 256 votes the eight-bit counters wrap around: a unanimous jury of 256 acquits.\<close>

lemma unanimous_jury_acquits:
  assumes "length votes = 256" and "\<forall>v \<in> set votes. jv_verdict v = Guilty"
  shows "jd_verdict (decision_of_votes votes b did) = NotGuilty"
proof -
  have "(of_nat (length votes) :: u8) = 0" using assms(1) by simp
  then show ?thesis by (simp add: decision_of_votes_def)
qed

end
