(* ===== verification/Kratos_Emergency.thy ===== *)
theory Kratos_Emergency
  imports Kratos_Types Kratos_Maps
begin

text \<open>
  Emergency powers (\<^verbatim>\<open>types/emergency.rs\<close>, \<^verbatim>\<open>contracts/emergency.rs\<close>): declaration by
  vote, by failure signals or by a circuit breaker, the actions allowed while an emergency lasts, its
  expiry, circuit breakers, recovery and checkpoints.  \<open>visit\<close> is the order in which the map of
  breakers is walked.
\<close>

section \<open>Types\<close>

definition EMERGENCY_APPROVAL_THRESHOLD :: u8 where [const_defs]: "EMERGENCY_APPROVAL_THRESHOLD = 75"
definition EMERGENCY_MAX_DURATION :: block_number where [const_defs]: "EMERGENCY_MAX_DURATION = 100800"
definition MIN_SIGNALS_FOR_EMERGENCY :: nat where [const_defs]: "MIN_SIGNALS_FOR_EMERGENCY = 2"
definition MIN_SEVERITY_FOR_EMERGENCY :: u8 where [const_defs]: "MIN_SEVERITY_FOR_EMERGENCY = 15"
definition DEFAULT_BREAKER_DURATION :: block_number where [const_defs]: "DEFAULT_BREAKER_DURATION = 14400"
definition EMERGENCY_COOLDOWN :: block_number where [const_defs]: "EMERGENCY_COOLDOWN = 14400"
definition MAX_ACTIVE_BREAKERS :: nat where [const_defs]: "MAX_ACTIVE_BREAKERS = 10"
definition CHECKPOINT_INTERVAL :: block_number where [const_defs]: "CHECKPOINT_INTERVAL = 1000"
definition MAX_CHECKPOINTS :: nat where [const_defs]: "MAX_CHECKPOINTS = 100"

datatype consensus_failure_type =
    FinalityStall u64
  | ConflictingFinality hash hash
  | CF_StateRootDivergence hash hash
  | CF_InsufficientValidators u32 u32

datatype failure_signal =
    ConsensusStall u64
  | ValidatorMassOffline u32 u32
  | GovernanceQuorumFailure u8 chain_id
  | SG_NetworkPartition u8 u32
  | SG_StateRootDivergence "chain_id list"
  | EconomicAnomaly string u8
  | SG_SlashingSpike u32 u32

datatype emergency_trigger =
    ValidatorVote u8 u32
  | ConsensusFailure consensus_failure_type hash
  | CriticalBug hash string
  | MultipleSignals "failure_signal list"
  | CircuitBreakerTriggered string

record parameter_tightening =
  pt_parameter :: string
  pt_original :: u64
  pt_tightened :: u64

datatype emergency_action =
    PauseBlockProduction block_number block_number
  | FreezeGovernance "chain_id list"
  | TightenParameters "parameter_tightening list"
  | HaltSlashing string
  | HaltSidechainCreation
  | EA_ExtendTimelocks u8
  | IncreaseQuorum u8

record emergency_state =
  es_active :: bool
  es_declared_at :: "block_number option"
  es_trigger :: "emergency_trigger option"
  es_expires_at :: "block_number option"
  es_actions_taken :: "emergency_action list"
  es_declaring_validators :: "account_id set"
  es_approval_power :: u64
  es_total_power :: u64

definition emergency_state_new :: emergency_state where
  "emergency_state_new =
     \<lparr>es_active = False, es_declared_at = None, es_trigger = None, es_expires_at = None, es_actions_taken = [],
      es_declaring_validators = {}, es_approval_power = 0, es_total_power = 0\<rparr>"

definition emergency_is_expired :: "block_number \<Rightarrow> emergency_state \<Rightarrow> bool" where
  "emergency_is_expired b s = (case es_expires_at s of Some expires \<Rightarrow> expires \<le> b | None \<Rightarrow> False)"

definition approval_percent :: "emergency_state \<Rightarrow> u8" where
  "approval_percent s =
     (if es_total_power s = 0 then 0 else ucast (es_approval_power s * 100 div es_total_power s))"

fun signal_severity :: "failure_signal \<Rightarrow> u8" where
  "signal_severity (ConsensusStall epochs_stalled) =
     (if 10 < epochs_stalled then 10 else if 5 < epochs_stalled then 8 else if 2 < epochs_stalled then 5 else 3)"
| "signal_severity (ValidatorMassOffline offline_count total_validators) =
     (let offline_percent = offline_count * 100 div max total_validators 1
      in if 50 < offline_percent then 10 else if 33 < offline_percent then 8 else if 20 < offline_percent then 5 else 3)"
| "signal_severity (GovernanceQuorumFailure consecutive_failures _) =
     (if 5 \<le> consecutive_failures then 7 else if 3 \<le> consecutive_failures then 5 else 3)"
| "signal_severity (SG_NetworkPartition partition_count _) = (if 2 < partition_count then 9 else 7)"
| "signal_severity (SG_StateRootDivergence affected_chains) =
     (if 3 < length affected_chains then 10 else if 1 < length affected_chains then 8 else 6)"
| "signal_severity (EconomicAnomaly _ severity) = severity"
| "signal_severity (SG_SlashingSpike events_count expected_count) =
     (let ratio = events_count div max expected_count 1
      in if 10 < ratio then 8 else if 5 < ratio then 6 else 4)"

datatype breaker_condition =
    FinalityDelay u64
  | ValidatorParticipation u8
  | StateRootMismatch
  | BC_NetworkPartition u32
  | BC_SlashingSpike u32
  | GovernanceDeadlock u8

datatype breaker_action =
    SlowBlockTime u8
  | IncreaseConfirmations u64
  | SuspendRiskyOperations "string list"
  | BA_ExtendTimelocks u8
  | RaiseQuorum u8
  | TriggerEmergency

record circuit_breaker =
  cb_id :: string
  cb_name :: string
  cb_condition :: breaker_condition
  cb_action :: breaker_action
  cb_duration :: block_number
  cb_is_active :: bool
  cb_triggered_at :: "block_number option"
  cb_enabled :: bool

definition circuit_breaker_new ::
  "string \<Rightarrow> string \<Rightarrow> breaker_condition \<Rightarrow> breaker_action \<Rightarrow> block_number \<Rightarrow> circuit_breaker" where
  "circuit_breaker_new i nam cond act duration =
     \<lparr>cb_id = i, cb_name = nam, cb_condition = cond, cb_action = act, cb_duration = duration, cb_is_active = False,
      cb_triggered_at = None, cb_enabled = True\<rparr>"

definition breaker_is_expired :: "block_number \<Rightarrow> circuit_breaker \<Rightarrow> bool" where
  "breaker_is_expired b c = (case cb_triggered_at c of Some triggered \<Rightarrow> triggered + cb_duration c \<le> b | None \<Rightarrow> False)"

definition breaker_trigger :: "block_number \<Rightarrow> circuit_breaker \<Rightarrow> circuit_breaker" where
  "breaker_trigger b c = c\<lparr>cb_is_active := True, cb_triggered_at := Some b\<rparr>"

definition breaker_reset :: "circuit_breaker \<Rightarrow> circuit_breaker" where
  "breaker_reset c = c\<lparr>cb_is_active := False, cb_triggered_at := None\<rparr>"

datatype recovery_step = RS_Halt | RS_StateAudit | RS_ValidatorReconfirmation | RS_ForkDecision | RS_GradualRestart u8 u8 | RS_Complete

record checkpoint =
  cp_block_number :: block_number
  cp_state_root :: hash
  cp_validator_set_hash :: hash
  cp_created_at :: block_number
  cp_chain_id :: chain_id

record recovery_process =
  rp_current_step :: recovery_step
  rp_started_at :: block_number
  rp_target_checkpoint :: "checkpoint option"
  rp_confirmations :: "account_id set"
  rp_required_confirmations :: u32

datatype emergency_outcome = EO_Expired | EO_Resolved | EO_Recovery | EO_Fork

record emergency_record =
  er_declared_at :: block_number
  er_ended_at :: block_number
  er_trigger :: emergency_trigger
  er_actions :: "emergency_action list"
  er_outcome :: emergency_outcome

datatype emergency_event =
    EmergencyDeclared block_number emergency_trigger block_number
  | EmergencyEnded block_number emergency_outcome
  | ActionTaken block_number emergency_action
  | BreakerTriggered block_number string
  | BreakerReset block_number string
  | SignalDetected block_number failure_signal u8
  | EV_RecoveryStarted block_number "block_number option"
  | RecoveryStepCompleted block_number recovery_step
  | CheckpointCreated block_number hash
  | EmergencyVoteCast account_id u64 bool

datatype emergency_error =
    EE_AlreadyActive | EE_NotActive | EE_InsufficientApproval u8 u8 | EE_InCooldown block_number | EE_AlreadyVoted | EE_NoVotingPower
  | EE_InvalidAction string | EE_ForbiddenAction string | EE_BreakerNotFound string | EE_TooManyBreakers
  | EE_BreakerAlreadyActive string | EE_RecoveryInProgress | EE_NoRecoveryInProgress | EE_InvalidRecoveryStep
  | EE_CheckpointNotFound | EE_InsufficientConfirmations u32 u32

section \<open>The contract\<close>

record emergency_contract =
  em_state :: emergency_state
  em_breakers :: "(string, circuit_breaker) hmap"
  em_signals :: "(block_number \<times> failure_signal) list"
  em_recovery :: "recovery_process option"
  em_checkpoints :: "checkpoint list"
  em_voting_power :: "(account_id, u64) hmap"
  em_last_emergency_ended :: "block_number option"
  em_history :: "emergency_record list"
  em_events :: "emergency_event list"

type_synonym 'a em_action = "(emergency_contract, emergency_error, 'a) action"

definition default_breakers :: "circuit_breaker list" where
  "default_breakers =
     [circuit_breaker_new ''finality_delay'' ''Finality Delay Breaker'' (FinalityDelay 3) (SlowBlockTime 2) DEFAULT_BREAKER_DURATION,
      circuit_breaker_new ''validator_participation'' ''Validator Participation Breaker'' (ValidatorParticipation 50)
        (BA_ExtendTimelocks 2) DEFAULT_BREAKER_DURATION,
      circuit_breaker_new ''state_mismatch'' ''State Root Mismatch Breaker'' StateRootMismatch TriggerEmergency (DEFAULT_BREAKER_DURATION * 2),
      circuit_breaker_new ''slashing_spike'' ''Slashing Spike Breaker'' (BC_SlashingSpike 10) (SuspendRiskyOperations [''unstake''])
        DEFAULT_BREAKER_DURATION,
      circuit_breaker_new ''governance_deadlock'' ''Governance Deadlock Breaker'' (GovernanceDeadlock 3) (RaiseQuorum 10) DEFAULT_BREAKER_DURATION]"

definition register_default_breakers :: "(string, circuit_breaker) hmap \<Rightarrow> (string, circuit_breaker) hmap" where
  "register_default_breakers m = foldl (\<lambda>m c. hm_insert (cb_id c) c m) m default_breakers"

definition emergency_new :: emergency_contract where
  "emergency_new =
     \<lparr>em_state = emergency_state_new, em_breakers = register_default_breakers [], em_signals = [], em_recovery = None, em_checkpoints = [],
      em_voting_power = [], em_last_emergency_ended = None, em_history = [], em_events = []\<rparr>"

definition emit :: "emergency_event \<Rightarrow> emergency_contract \<Rightarrow> emergency_contract" where
  "emit ev C = C\<lparr>em_events := em_events C @ [ev]\<rparr>"

definition update_total_power :: "emergency_contract \<Rightarrow> emergency_contract" where
  "update_total_power C = C\<lparr>em_state := (em_state C)\<lparr>es_total_power := sum_list (map snd (em_voting_power C))\<rparr>\<rparr>"

definition em_set_voting_power :: "account_id \<Rightarrow> u64 \<Rightarrow> emergency_contract \<Rightarrow> emergency_contract" where
  "em_set_voting_power a pow C =
     update_total_power (C\<lparr>em_voting_power := (if 0 < pow then hm_insert a pow (em_voting_power C) else hm_remove a (em_voting_power C))\<rparr>)"

definition in_cooldown :: "block_number \<Rightarrow> emergency_contract \<Rightarrow> block_number option" where
  "in_cooldown b C =
     (case em_last_emergency_ended C of
        Some ended \<Rightarrow> if b < ended + EMERGENCY_COOLDOWN then Some (ended + EMERGENCY_COOLDOWN) else None
      | None \<Rightarrow> None)"

definition declare_emergency :: "emergency_trigger \<Rightarrow> block_number \<Rightarrow> unit em_action" where
  "declare_emergency tr b C =
     (if es_active (em_state C) then (Err EE_AlreadyActive, C)
      else let expires_at = b + EMERGENCY_MAX_DURATION
           in (Ok (), emit (EmergencyDeclared b tr expires_at)
                 (C\<lparr>em_state := (em_state C)\<lparr>es_active := True, es_declared_at := Some b, es_trigger := Some tr,
                      es_expires_at := Some expires_at\<rparr>\<rparr>)))"

definition vote_emergency :: "account_id \<Rightarrow> bool \<Rightarrow> block_number \<Rightarrow> unit em_action" where
  "vote_emergency voter approve b C =
     (case in_cooldown b C of
        Some ends \<Rightarrow> (Err (EE_InCooldown ends), C)
      | None \<Rightarrow>
          if es_active (em_state C) then (Err EE_AlreadyActive, C)
          else case hm_get (em_voting_power C) voter of
              None \<Rightarrow> (Err EE_NoVotingPower, C)
            | Some pow \<Rightarrow>
                if voter \<in> es_declaring_validators (em_state C) then (Err EE_AlreadyVoted, C)
                else
                  let s = em_state C;
                      s' = (if approve then s\<lparr>es_declaring_validators := insert voter (es_declaring_validators s),
                                              es_approval_power := es_approval_power s + pow\<rparr> else s);
                      C' = emit (EmergencyVoteCast voter pow approve) (C\<lparr>em_state := s'\<rparr>)
                  in if EMERGENCY_APPROVAL_THRESHOLD \<le> approval_percent s'
                     then declare_emergency (ValidatorVote (approval_percent s') (of_nat (card (es_declaring_validators s')))) b C'
                     else (Ok (), C'))"

definition declare_automatic_emergency :: "emergency_trigger \<Rightarrow> block_number \<Rightarrow> unit em_action" where
  "declare_automatic_emergency tr b C =
     (case in_cooldown b C of
        Some ends \<Rightarrow> (Err (EE_InCooldown ends), C)
      | None \<Rightarrow> declare_emergency tr b C)"

fun validate_action :: "emergency_action \<Rightarrow> (emergency_error, unit) result" where
  "validate_action (PauseBlockProduction _ max_duration) =
     (if EMERGENCY_MAX_DURATION < max_duration then Err (EE_InvalidAction ''Pause duration exceeds maximum'') else Ok ())"
| "validate_action (IncreaseQuorum new_quorum) =
     (if 80 < new_quorum then Err (EE_InvalidAction ''Quorum cannot exceed 80%'') else Ok ())"
| "validate_action _ = Ok ()"

definition take_action :: "emergency_action \<Rightarrow> block_number \<Rightarrow> unit em_action" where
  "take_action act b C =
     (if \<not> es_active (em_state C) then (Err EE_NotActive, C)
      else case validate_action act of
          Inl e \<Rightarrow> (Err e, C)
        | Inr _ \<Rightarrow> (Ok (), emit (ActionTaken b act)
                       (C\<lparr>em_state := (em_state C)\<lparr>es_actions_taken := es_actions_taken (em_state C) @ [act]\<rparr>\<rparr>)))"

definition end_emergency :: "emergency_outcome \<Rightarrow> block_number \<Rightarrow> unit em_action" where
  "end_emergency outcome b C =
     (if \<not> es_active (em_state C) then (Err EE_NotActive, C)
      else
        let s = em_state C;
            h = (case (es_declared_at s, es_trigger s) of
                   (Some d, Some tr) \<Rightarrow> em_history C @
                     [\<lparr>er_declared_at = d, er_ended_at = b, er_trigger = tr, er_actions = es_actions_taken s, er_outcome = outcome\<rparr>]
                 | _ \<Rightarrow> em_history C);
            C' = emit (EmergencyEnded b outcome) (C\<lparr>em_history := h\<rparr>)
        in (Ok (), update_total_power (C'\<lparr>em_state := emergency_state_new, em_last_emergency_ended := Some b\<rparr>)))"

definition check_expiration :: "block_number \<Rightarrow> bool em_action" where
  "check_expiration b C =
     (if es_active (em_state C) \<and> emergency_is_expired b (em_state C)
      then andThen (end_emergency EO_Expired b) (\<lambda>_. ret True) C
      else (Ok False, C))"

section \<open>Circuit breakers\<close>

definition register_breaker :: "circuit_breaker \<Rightarrow> unit em_action" where
  "register_breaker c C =
     (if MAX_ACTIVE_BREAKERS \<le> length (em_breakers C) then (Err EE_TooManyBreakers, C)
      else (Ok (), C\<lparr>em_breakers := hm_insert (cb_id c) c (em_breakers C)\<rparr>))"

definition trigger_breaker :: "string \<Rightarrow> block_number \<Rightarrow> unit em_action" where
  "trigger_breaker i b C =
     (case hm_get (em_breakers C) i of
        None \<Rightarrow> (Err (EE_BreakerNotFound i), C)
      | Some c \<Rightarrow>
          if \<not> cb_enabled c then (Ok (), C)
          else if cb_is_active c then (Err (EE_BreakerAlreadyActive i), C)
          else
            let C' = emit (BreakerTriggered b i) (C\<lparr>em_breakers := hm_insert i (breaker_trigger b c) (em_breakers C)\<rparr>)
            in (Ok (), if cb_action c = TriggerEmergency
                       then snd (declare_automatic_emergency (CircuitBreakerTriggered i) b C') else C'))"

definition reset_breaker :: "string \<Rightarrow> block_number \<Rightarrow> unit em_action" where
  "reset_breaker i b C =
     (case hm_get (em_breakers C) i of
        None \<Rightarrow> (Err (EE_BreakerNotFound i), C)
      | Some c \<Rightarrow> (Ok (), emit (BreakerReset b i) (C\<lparr>em_breakers := hm_insert i (breaker_reset c) (em_breakers C)\<rparr>)))"

definition breaker_ids_where ::
  "(string list \<Rightarrow> string list) \<Rightarrow> (circuit_breaker \<Rightarrow> bool) \<Rightarrow> emergency_contract \<Rightarrow> string list" where
  "breaker_ids_where visit P C =
     filter (\<lambda>i. case hm_get (em_breakers C) i of None \<Rightarrow> False | Some c \<Rightarrow> P c) (visit (hm_keys (em_breakers C)))"

definition check_breaker_expirations :: "(string list \<Rightarrow> string list) \<Rightarrow> block_number \<Rightarrow> emergency_contract \<Rightarrow> emergency_contract" where
  "check_breaker_expirations visit b C =
     foldl (\<lambda>C i. snd (reset_breaker i b C)) C (breaker_ids_where visit (\<lambda>c. cb_is_active c \<and> breaker_is_expired b c) C)"

definition active_breakers :: "(string list \<Rightarrow> string list) \<Rightarrow> emergency_contract \<Rightarrow> circuit_breaker list" where
  "active_breakers visit C = List.map_filter (hm_get (em_breakers C)) (breaker_ids_where visit cb_is_active C)"

section \<open>Failure signals\<close>

fun signal_matches_condition :: "failure_signal \<Rightarrow> breaker_condition \<Rightarrow> bool" where
  "signal_matches_condition (ConsensusStall epochs_stalled) (FinalityDelay epochs_threshold) = (epochs_threshold \<le> epochs_stalled)"
| "signal_matches_condition (ValidatorMassOffline offline_count total_validators) (ValidatorParticipation min_percent) =
     (let online_percent = 100 - ucast (offline_count * 100 div max total_validators 1) :: u8
      in online_percent < min_percent)"
| "signal_matches_condition (SG_StateRootDivergence _) StateRootMismatch = True"
| "signal_matches_condition (SG_SlashingSpike events_count _) (BC_SlashingSpike max_events) = (max_events < events_count)"
| "signal_matches_condition (GovernanceQuorumFailure consecutive_failures _) (GovernanceDeadlock failed_proposals) =
     (failed_proposals \<le> consecutive_failures)"
| "signal_matches_condition _ _ = False"

fun trigger_each :: "string list \<Rightarrow> block_number \<Rightarrow> unit em_action" where
  "trigger_each [] b C = (Ok (), C)"
| "trigger_each (i # is) b C = andThen (trigger_breaker i b) (\<lambda>_. trigger_each is b) C"

definition check_breaker_conditions :: "(string list \<Rightarrow> string list) \<Rightarrow> failure_signal \<Rightarrow> block_number \<Rightarrow> unit em_action" where
  "check_breaker_conditions visit sg b C =
     trigger_each (breaker_ids_where visit (\<lambda>c. cb_enabled c \<and> \<not> cb_is_active c \<and> signal_matches_condition sg (cb_condition c)) C) b C"

definition recent_signals :: "block_number \<Rightarrow> emergency_contract \<Rightarrow> failure_signal list" where
  "recent_signals b C = map snd (filter (\<lambda>(at_block, _). sat_sub b at_block < 1000) (em_signals C))"

definition check_automatic_emergency :: "block_number \<Rightarrow> unit em_action" where
  "check_automatic_emergency b C =
     (if es_active (em_state C) then (Ok (), C)
      else
        let sgs = recent_signals b C
        in if MIN_SIGNALS_FOR_EMERGENCY \<le> length sgs \<and> MIN_SEVERITY_FOR_EMERGENCY \<le> sum_list (map signal_severity sgs)
           then declare_automatic_emergency (MultipleSignals sgs) b C
           else (Ok (), C))"

definition report_signal :: "(string list \<Rightarrow> string list) \<Rightarrow> failure_signal \<Rightarrow> block_number \<Rightarrow> unit em_action" where
  "report_signal visit sg b C =
     andThen (check_automatic_emergency b) (\<lambda>_. check_breaker_conditions visit sg b)
       (emit (SignalDetected b sg (signal_severity sg)) (C\<lparr>em_signals := em_signals C @ [(b, sg)]\<rparr>))"

definition prune_signals :: "block_number \<Rightarrow> emergency_contract \<Rightarrow> emergency_contract" where
  "prune_signals b C = C\<lparr>em_signals := filter (\<lambda>(at_block, _). sat_sub b at_block < 10000) (em_signals C)\<rparr>"

section \<open>Recovery and checkpoints\<close>

definition start_recovery :: "block_number option \<Rightarrow> u32 \<Rightarrow> block_number \<Rightarrow> unit em_action" where
  "start_recovery target required b C =
     (if em_recovery C \<noteq> None then (Err EE_RecoveryInProgress, C)
      else
        let cp = (case target of
                    Some t \<Rightarrow> find (\<lambda>c. cp_block_number c = t) (em_checkpoints C)
                  | None \<Rightarrow> if em_checkpoints C = [] then None else Some (last (em_checkpoints C)))
        in (Ok (), emit (EV_RecoveryStarted b (map_option cp_block_number cp))
              (C\<lparr>em_recovery := Some \<lparr>rp_current_step = RS_Halt, rp_started_at = b, rp_target_checkpoint = cp, rp_confirmations = {},
                   rp_required_confirmations = required\<rparr>\<rparr>)))"

fun next_step :: "recovery_step \<Rightarrow> recovery_step option" where
  "next_step RS_Halt = Some RS_StateAudit"
| "next_step RS_StateAudit = Some RS_ValidatorReconfirmation"
| "next_step RS_ValidatorReconfirmation = Some RS_ForkDecision"
| "next_step RS_ForkDecision = Some (RS_GradualRestart 1 5)"
| "next_step (RS_GradualRestart ph max_phases) =
     Some (if max_phases \<le> ph then RS_Complete else RS_GradualRestart (ph + 1) max_phases)"
| "next_step RS_Complete = None"

definition advance_recovery :: "block_number \<Rightarrow> recovery_step em_action" where
  "advance_recovery b C =
     (case em_recovery C of
        None \<Rightarrow> (Err EE_NoRecoveryInProgress, C)
      | Some r \<Rightarrow>
          (case next_step (rp_current_step r) of
             None \<Rightarrow> (Err EE_InvalidRecoveryStep, C)
           | Some st \<Rightarrow>
               let C' = emit (RecoveryStepCompleted b st) (C\<lparr>em_recovery := Some (r\<lparr>rp_current_step := st\<rparr>)\<rparr>)
               in (Ok st, if st = RS_Complete then C'\<lparr>em_recovery := None\<rparr> else C')))"

definition confirm_recovery :: "account_id \<Rightarrow> bool em_action" where
  "confirm_recovery a C =
     (case em_recovery C of
        None \<Rightarrow> (Err EE_NoRecoveryInProgress, C)
      | Some r \<Rightarrow>
          let cs = insert a (rp_confirmations r)
          in (Ok (rp_required_confirmations r \<le> of_nat (card cs)), C\<lparr>em_recovery := Some (r\<lparr>rp_confirmations := cs\<rparr>)\<rparr>))"

definition create_checkpoint :: "block_number \<Rightarrow> hash \<Rightarrow> hash \<Rightarrow> chain_id \<Rightarrow> emergency_contract \<Rightarrow> emergency_contract" where
  "create_checkpoint n state_rt vset cid C =
     (if n mod CHECKPOINT_INTERVAL \<noteq> 0 then C
      else
        let cs = em_checkpoints C @ [\<lparr>cp_block_number = n, cp_state_root = state_rt, cp_validator_set_hash = vset, cp_created_at = n, cp_chain_id = cid\<rparr>]
        in emit (CheckpointCreated n state_rt) (C\<lparr>em_checkpoints := drop (length cs - MAX_CHECKPOINTS) cs\<rparr>))"

definition get_checkpoint :: "block_number \<Rightarrow> emergency_contract \<Rightarrow> checkpoint option" where
  "get_checkpoint n C = find (\<lambda>c. cp_block_number c \<le> n) (rev (em_checkpoints C))"

definition drain_events :: "emergency_contract \<Rightarrow> emergency_event list \<times> emergency_contract" where
  "drain_events C = (em_events C, C\<lparr>em_events := []\<rparr>)"

definition action_type_matches :: "string \<Rightarrow> emergency_action \<Rightarrow> bool" where
  "action_type_matches t act =
     (case act of
        PauseBlockProduction _ _ \<Rightarrow> t = ''pause''
      | FreezeGovernance _ \<Rightarrow> t = ''freeze_governance''
      | HaltSlashing _ \<Rightarrow> t = ''halt_slashing''
      | HaltSidechainCreation \<Rightarrow> t = ''halt_sidechains''
      | _ \<Rightarrow> False)"

definition is_action_active :: "string \<Rightarrow> emergency_contract \<Rightarrow> bool" where
  "is_action_active t C = list_ex (action_type_matches t) (es_actions_taken (em_state C))"

section \<open>Emergencies are bounded and separated\<close>

text \<open>
  Two consecutive emergencies, in block numbers: the cooldown lies between the end of the first and
  the declaration of the second.
\<close>

definition separated :: "emergency_record \<Rightarrow> emergency_record \<Rightarrow> bool" where
  "separated r r' \<longleftrightarrow> unat (er_ended_at r) + unat EMERGENCY_COOLDOWN \<le> unat (er_declared_at r')"

definition actions_valid :: "emergency_action list \<Rightarrow> bool" where
  "actions_valid acts \<longleftrightarrow> (\<forall>a \<in> set acts. validate_action a = Ok ())"

definition last_end :: "emergency_record list \<Rightarrow> block_number option" where
  "last_end h = (if h = [] then None else Some (er_ended_at (last h)))"

definition emergency_ok :: "block_number \<Rightarrow> emergency_state \<Rightarrow> bool" where
  "emergency_ok b s \<longleftrightarrow>
     (if es_active s
      then \<exists>d tr. es_declared_at s = Some d \<and> es_trigger s = Some tr \<and> es_expires_at s = Some (d + EMERGENCY_MAX_DURATION) \<and> d \<le> b
      else es_declared_at s = None \<and> es_trigger s = None \<and> es_expires_at s = None \<and> es_actions_taken s = [])
     \<and> actions_valid (es_actions_taken s)"

definition history_ok :: "block_number \<Rightarrow> emergency_record list \<Rightarrow> bool" where
  "history_ok b h \<longleftrightarrow>
     sorted_wrt separated h \<and> (\<forall>r \<in> set h. er_declared_at r \<le> er_ended_at r \<and> er_ended_at r \<le> b \<and> actions_valid (er_actions r))"

definition cooled_down :: "emergency_contract \<Rightarrow> bool" where
  "cooled_down C \<longleftrightarrow>
     (\<forall>d e. es_declared_at (em_state C) = Some d \<longrightarrow> em_last_emergency_ended C = Some e \<longrightarrow>
        unat e + unat EMERGENCY_COOLDOWN \<le> unat d)"

definition em_ok :: "block_number \<Rightarrow> emergency_contract \<Rightarrow> bool" where
  "em_ok b C \<longleftrightarrow>
     unat b < 2 ^ 63 \<and> emergency_ok b (em_state C) \<and> history_ok b (em_history C)
     \<and> em_last_emergency_ended C = last_end (em_history C) \<and> cooled_down C"

text \<open>The parts of the state the invariant reads.\<close>

definition core :: "emergency_contract \<Rightarrow> _" where
  "core C = (es_active (em_state C), es_declared_at (em_state C), es_trigger (em_state C), es_expires_at (em_state C),
     es_actions_taken (em_state C), em_history C, em_last_emergency_ended C)"

lemma em_ok_core: "core C' = core C \<Longrightarrow> em_ok b C' = em_ok b C"
  by (simp add: core_def em_ok_def emergency_ok_def cooled_down_def)

lemma core_simps [simp]:
  "core (emit ev C) = core C" "core (update_total_power C) = core C" "core (C\<lparr>em_breakers := m\<rparr>) = core C"
  "core (C\<lparr>em_signals := sgs\<rparr>) = core C" "core (C\<lparr>em_recovery := r\<rparr>) = core C" "core (C\<lparr>em_checkpoints := cps\<rparr>) = core C"
  "core (C\<lparr>em_voting_power := vp\<rparr>) = core C" "core (C\<lparr>em_events := evs\<rparr>) = core C"
  by (simp_all add: core_def emit_def update_total_power_def)

lemma em_ok_later: "em_ok b C \<Longrightarrow> b \<le> b' \<Longrightarrow> unat b' < 2 ^ 63 \<Longrightarrow> em_ok b' C"
  unfolding em_ok_def emergency_ok_def history_ok_def by (auto split: if_splits)

lemma declare_ok:
  assumes ok: "em_ok b C" and cool: "in_cooldown b C = None"
  shows "em_ok b (snd (declare_emergency tr b C))"
proof (cases "es_active (em_state C)")
  case False
  let ?C = "C\<lparr>em_state := (em_state C)\<lparr>es_active := True, es_declared_at := Some b, es_trigger := Some tr,
    es_expires_at := Some (b + EMERGENCY_MAX_DURATION)\<rparr>\<rparr>"
  have "unat e + unat EMERGENCY_COOLDOWN \<le> unat b" if e: "em_last_emergency_ended C = Some e" for e
  proof -
    have "e \<le> b" using ok e by (auto simp: em_ok_def history_ok_def last_end_def split: if_splits)
    then have "unat e < 2 ^ 63" using ok by (simp add: em_ok_def word_le_nat_alt)
    then have "unat (e + EMERGENCY_COOLDOWN) = unat e + unat EMERGENCY_COOLDOWN"
      by (intro unat_add_fits) (simp add: const_defs)
    then show ?thesis using cool e by (simp add: in_cooldown_def word_less_nat_alt split: if_splits)
  qed
  then have "em_ok b ?C" using ok False by (simp add: em_ok_def emergency_ok_def cooled_down_def actions_valid_def)
  then show ?thesis using False by (simp add: declare_emergency_def Let_def em_ok_core [of "emit _ _"])
qed (simp add: declare_emergency_def ok)

lemma declare_automatic_ok: "em_ok b C \<Longrightarrow> em_ok b (snd (declare_automatic_emergency tr b C))"
  by (auto simp: declare_automatic_emergency_def declare_ok split: option.split)

lemma in_cooldown_core: "core C' = core C \<Longrightarrow> in_cooldown b C' = in_cooldown b C"
  by (simp add: core_def in_cooldown_def)

lemma em_vote_ok: "em_ok b C \<Longrightarrow> em_ok b (snd (vote_emergency a approve b C))"
proof -
  assume ok: "em_ok b C"
  have core: "core (emit ev (C\<lparr>em_state := (if approve then (em_state C)\<lparr>es_declaring_validators := X, es_approval_power := p\<rparr> else em_state C)\<rparr>)) = core C"
    for ev X p by (simp add: core_def emit_def)
  show ?thesis
    using ok em_ok_core [OF core] in_cooldown_core [OF core]
    by (auto simp: vote_emergency_def Let_def intro!: declare_ok split: option.split)
qed

lemma take_action_ok: "em_ok b C \<Longrightarrow> em_ok b (snd (take_action act b C))"
  by (auto simp: take_action_def em_ok_core [of "emit _ _"] split: sum.split)
     (auto simp: em_ok_def emergency_ok_def cooled_down_def actions_valid_def)

lemma end_ok: "em_ok b C \<Longrightarrow> em_ok b (snd (end_emergency outcome b C))"
proof (cases "es_active (em_state C)")
  case True
  assume ok: "em_ok b C"
  then obtain d tr where s: "es_declared_at (em_state C) = Some d" "es_trigger (em_state C) = Some tr" "d \<le> b"
    using True by (auto simp: em_ok_def emergency_ok_def)
  let ?r = "\<lparr>er_declared_at = d, er_ended_at = b, er_trigger = tr, er_actions = es_actions_taken (em_state C), er_outcome = outcome\<rparr>"
  have last: "unat (er_ended_at (last (em_history C))) + unat EMERGENCY_COOLDOWN \<le> unat d" if "em_history C \<noteq> []"
    using ok s that by (auto simp: em_ok_def cooled_down_def last_end_def)
  have "separated r ?r" if r: "r \<in> set (em_history C)" for r
  proof -
    obtain h l where h: "em_history C = h @ [l]" using r by (cases "em_history C" rule: rev_cases) auto
    then have "r = l \<or> separated r l" "er_declared_at l \<le> er_ended_at l"
      using ok r by (auto simp: em_ok_def history_ok_def sorted_wrt_append)
    then have "er_ended_at r \<le> er_ended_at (last (em_history C))"
      by (auto simp: h separated_def word_le_nat_alt)
    then show ?thesis using last r by (fastforce simp: separated_def word_le_nat_alt)
  qed
  then have "history_ok b (em_history C @ [?r])"
    using ok s by (auto simp: em_ok_def history_ok_def sorted_wrt_append emergency_ok_def)
  then show ?thesis
    using ok True s
    by (simp add: end_emergency_def Let_def em_ok_core [of "update_total_power _"])
       (simp add: em_ok_def emergency_ok_def emergency_state_new_def actions_valid_def cooled_down_def last_end_def emit_def)
qed (simp add: end_emergency_def)

lemma check_expiration_ok: "em_ok b C \<Longrightarrow> em_ok b (snd (check_expiration b C))"
  using end_ok [of b C EO_Expired]
  by (cases "end_emergency EO_Expired b C") (auto simp: check_expiration_def andThen_def ret_def split: sum.split)

lemma trigger_breaker_ok: "em_ok b C \<Longrightarrow> em_ok b (snd (trigger_breaker i b C))"
  by (auto simp: trigger_breaker_def Let_def em_ok_core [of "emit _ _"] intro!: declare_automatic_ok split: option.split)

lemma trigger_each_ok: "em_ok b C \<Longrightarrow> em_ok b (snd (trigger_each is b C))"
proof (induction "is" b C rule: trigger_each.induct)
  case (2 i "is" b C)
  then show ?case using trigger_breaker_ok [of b C i]
    by (cases "trigger_breaker i b C") (auto simp: andThen_def split: sum.split)
qed simp

lemma report_signal_ok:
  assumes "em_ok b C"
  shows "em_ok b (snd (report_signal visit sg b C))"
proof -
  let ?C = "emit (SignalDetected b sg (signal_severity sg)) (C\<lparr>em_signals := em_signals C @ [(b, sg)]\<rparr>)"
  have "em_ok b ?C" using assms by (simp add: em_ok_core [of "emit _ _"] em_ok_core [of "C\<lparr>em_signals := _\<rparr>"])
  then have "em_ok b (snd (check_automatic_emergency b ?C))"
    by (simp add: check_automatic_emergency_def Let_def declare_automatic_ok)
  then show ?thesis
    by (cases "check_automatic_emergency b ?C")
       (auto simp: report_signal_def andThen_def check_breaker_conditions_def trigger_each_ok split: sum.split)
qed

text \<open>
  Everything that can happen to the contract, at block numbers that do not decrease and stay below
  \<open>2 ^ 63\<close>; the index is the latest of them.
\<close>

inductive em_run :: "block_number \<Rightarrow> emergency_contract \<Rightarrow> bool" where
  start: "em_run 0 emergency_new"
| later: "em_run b C \<Longrightarrow> b \<le> b' \<Longrightarrow> unat b' < 2 ^ 63 \<Longrightarrow> em_run b' C"
| set_power: "em_run b C \<Longrightarrow> em_run b (em_set_voting_power a pow C)"
| vote: "em_run b C \<Longrightarrow> em_run b (snd (vote_emergency a approve b C))"
| automatic: "em_run b C \<Longrightarrow> em_run b (snd (declare_automatic_emergency tr b C))"
| act: "em_run b C \<Longrightarrow> em_run b (snd (take_action x b C))"
| finish: "em_run b C \<Longrightarrow> em_run b (snd (end_emergency outcome b C))"
| expiry: "em_run b C \<Longrightarrow> em_run b (snd (check_expiration b C))"
| register: "em_run b C \<Longrightarrow> em_run b (snd (register_breaker c C))"
| trigger: "em_run b C \<Longrightarrow> em_run b (snd (trigger_breaker i b C))"
| reset: "em_run b C \<Longrightarrow> em_run b (snd (reset_breaker i b C))"
| breakers: "em_run b C \<Longrightarrow> em_run b (check_breaker_expirations visit b C)"
| signal: "em_run b C \<Longrightarrow> em_run b (snd (report_signal visit sg b C))"
| prune: "em_run b C \<Longrightarrow> em_run b (prune_signals b C)"
| recover: "em_run b C \<Longrightarrow> em_run b (snd (start_recovery target need b C))"
| advance: "em_run b C \<Longrightarrow> em_run b (snd (advance_recovery b C))"
| confirm: "em_run b C \<Longrightarrow> em_run b (snd (confirm_recovery a C))"
| checkpoint: "em_run b C \<Longrightarrow> em_run b (create_checkpoint n rt vs cid C)"
| drain: "em_run b C \<Longrightarrow> em_run b (snd (drain_events C))"

lemma core_others [simp]:
  "core (em_set_voting_power a pow C) = core C" "core (snd (register_breaker c C)) = core C" "core (snd (reset_breaker i b C)) = core C"
  "core (prune_signals b C) = core C" "core (snd (start_recovery target need b C)) = core C" "core (snd (advance_recovery b C)) = core C"
  "core (snd (confirm_recovery a C)) = core C" "core (create_checkpoint n rt vs cid C) = core C" "core (snd (drain_events C)) = core C"
  by (simp_all add: em_set_voting_power_def register_breaker_def reset_breaker_def prune_signals_def start_recovery_def advance_recovery_def
      confirm_recovery_def create_checkpoint_def drain_events_def Let_def split: option.split)

lemma core_breakers [simp]: "core (check_breaker_expirations visit b C) = core C"
proof -
  have "core (foldl (\<lambda>C i. snd (reset_breaker i b C)) C ids) = core C" for ids
    by (induction ids arbitrary: C) simp_all
  then show ?thesis by (simp add: check_breaker_expirations_def)
qed

lemma em_run_ok: "em_run b C \<Longrightarrow> em_ok b C"
proof (induction rule: em_run.induct)
  case start
  show ?case by (simp add: em_ok_def emergency_new_def emergency_ok_def emergency_state_new_def history_ok_def cooled_down_def last_end_def actions_valid_def)
next
  case (later b C b')
  then show ?case by (blast intro: em_ok_later)
qed (simp_all add: em_vote_ok declare_automatic_ok take_action_ok end_ok check_expiration_ok trigger_breaker_ok report_signal_ok
      em_ok_core [OF core_others(1)] em_ok_core [OF core_others(2)] em_ok_core [OF core_others(3)] em_ok_core [OF core_others(4)]
      em_ok_core [OF core_others(5)] em_ok_core [OF core_others(6)] em_ok_core [OF core_others(7)] em_ok_core [OF core_others(8)]
      em_ok_core [OF core_others(9)] em_ok_core [OF core_breakers])

text \<open>
  C25: an emergency is temporary and emergencies do not pile up.  After any history, past
  emergencies are separated by the cooldown, and so is the current one from the last; a current emergency
  has an end exactly \<open>EMERGENCY_MAX_DURATION\<close> blocks after its declaration, its actions are within the
  constitutional limits, and the first expiry check from that block on ends it, with no action left.
\<close>

theorem emergency_bounded:
  assumes "em_run b C" and "b \<le> b'" and "unat b' < 2 ^ 63"
  defines "s \<equiv> em_state C" and "C' \<equiv> snd (check_expiration b' C)"
  shows "sorted_wrt (\<lambda>r r'. unat (er_ended_at r) + 14400 \<le> unat (er_declared_at r')) (em_history C)
    \<and> (\<forall>d e. es_declared_at s = Some d \<longrightarrow> em_last_emergency_ended C = Some e \<longrightarrow> unat e + 14400 \<le> unat d)
    \<and> (\<forall>a \<in> set (es_actions_taken s). validate_action a = Ok ())
    \<and> (es_active s \<longrightarrow> (\<exists>d. es_declared_at s = Some d \<and> es_expires_at s = Some (d + 100800)
        \<and> (unat d + 100800 \<le> unat b' \<longrightarrow> \<not> es_active (em_state C') \<and> es_actions_taken (em_state C') = [])))"
proof -
  have ok: "em_ok b C" using assms(1) by (rule em_run_ok)
  have "unat EMERGENCY_COOLDOWN = 14400" by (simp add: const_defs)
  then have past: "sorted_wrt (\<lambda>r r'. unat (er_ended_at r) + 14400 \<le> unat (er_declared_at r')) (em_history C)"
    "\<forall>d e. es_declared_at s = Some d \<longrightarrow> em_last_emergency_ended C = Some e \<longrightarrow> unat e + 14400 \<le> unat d"
    "\<forall>a \<in> set (es_actions_taken s). validate_action a = Ok ()"
    using ok by (simp_all add: em_ok_def history_ok_def separated_def [abs_def] cooled_down_def emergency_ok_def actions_valid_def s_def)
  moreover have "\<exists>d. es_declared_at s = Some d \<and> es_expires_at s = Some (d + 100800)
      \<and> (unat d + 100800 \<le> unat b' \<longrightarrow> \<not> es_active (em_state C') \<and> es_actions_taken (em_state C') = [])" if active: "es_active s"
  proof -
    obtain d where d: "es_declared_at s = Some d" "es_expires_at s = Some (d + 100800)" "d \<le> b"
      using ok active by (auto simp: em_ok_def emergency_ok_def s_def const_defs)
    have "unat d < 2 ^ 63" using d(3) ok by (simp add: em_ok_def word_le_nat_alt)
    then have "unat (d + 100800) = unat d + 100800" using unat_add_fits [of d 100800] by simp
    then have "emergency_is_expired b' s" if "unat d + 100800 \<le> unat b'"
      using d(2) that by (simp add: emergency_is_expired_def word_le_nat_alt)
    then have "\<not> es_active (em_state C') \<and> es_actions_taken (em_state C') = []" if "unat d + 100800 \<le> unat b'"
      using active that
      by (simp add: C'_def s_def check_expiration_def andThen_def end_emergency_def Let_def ret_def update_total_power_def emergency_state_new_def)
    with d show ?thesis by blast
  qed
  ultimately show ?thesis by blast
qed

text \<open>One validator with all the power declares an emergency; seven days later it ends.\<close>

theorem emergency_bounded_witness:
  "es_active (em_state (snd (vote_emergency 1 True 0 (em_set_voting_power 1 5 emergency_new))))
   \<and> \<not> es_active (em_state (snd (check_expiration 100800 (snd (vote_emergency 1 True 0 (em_set_voting_power 1 5 emergency_new))))))"
proof -
  let ?C = "snd (vote_emergency 1 True 0 (em_set_voting_power 1 5 emergency_new))"
  have run: "em_run 0 ?C" by (rule em_run.vote [OF em_run.set_power [OF em_run.start]])
  let ?P = "em_set_voting_power 1 5 emergency_new"
  have P: "em_voting_power ?P = [(1, 5)]" "em_state ?P = emergency_state_new\<lparr>es_total_power := 5\<rparr>" "in_cooldown 0 ?P = None"
    by (simp_all add: em_set_voting_power_def update_total_power_def emergency_new_def in_cooldown_def)
  have percent: "approval_percent (s\<lparr>es_approval_power := 5, es_total_power := 5\<rparr>) = 100" for s
    by (simp add: approval_percent_def)
  have active: "es_active (em_state ?C)" "es_declared_at (em_state ?C) = Some 0"
    using percent [of "emergency_state_new\<lparr>es_declaring_validators := {1}\<rparr>"]
    by (simp_all add: vote_emergency_def P Let_def const_defs declare_emergency_def emit_def emergency_state_new_def)
  show ?thesis using emergency_bounded [OF run, of 100800] active by simp
qed

section \<open>Recovery\<close>

fun advance_times :: "nat \<Rightarrow> block_number \<Rightarrow> emergency_contract \<Rightarrow> emergency_contract" where
  "advance_times 0 b C = C"
| "advance_times (Suc n) b C = advance_times n b (snd (advance_recovery b C))"

lemma advance_times_numeral [simp]: "advance_times (numeral k) b C = advance_times (pred_numeral k) b (snd (advance_recovery b C))"
  by (simp add: numeral_eq_Suc)

text \<open>A recovery is over after nine steps; no confirmation by a validator is asked for on the way.\<close>

lemma recovery_completes:
  assumes "em_recovery C = None"
  shows "em_recovery (advance_times 9 b (snd (start_recovery target need b C))) = None"
    and "em_recovery (advance_times 8 b (snd (start_recovery target need b C))) \<noteq> None"
  using assms by (simp_all add: start_recovery_def advance_recovery_def Let_def emit_def word_le_nat_alt)

section \<open>Behaviour that differs from the documentation\<close>

text \<open>
  Severities are added in eight bits: twenty-six failure signals of the highest severity add up to 4
  and declare no emergency.
\<close>

lemma many_signals_no_emergency:
  assumes "\<not> es_active (em_state C)" and "recent_signals b C = replicate 26 (ConsensusStall 11)"
  shows "check_automatic_emergency b C = (Ok (), C)"
  using assms by (simp add: check_automatic_emergency_def Let_def const_defs sum_list_replicate)

text \<open>
  During the cooldown a report whose severity asks for an emergency fails before the breakers are
  looked at: no circuit breaker is triggered.
\<close>

lemma cooldown_disables_breakers:
  assumes "\<not> es_active (em_state C)" and "in_cooldown b C = Some e" and "recent_signals b (C\<lparr>em_signals := em_signals C @ [(b, sg)]\<rparr>) = sgs"
    and "2 \<le> length sgs" and "15 \<le> sum_list (map signal_severity sgs)"
  shows "fst (report_signal visit sg b C) = Err (EE_InCooldown e)" and "em_breakers (snd (report_signal visit sg b C)) = em_breakers C"
  using assms
  by (simp_all add: report_signal_def andThen_def check_automatic_emergency_def Let_def emit_def const_defs recent_signals_def
      declare_automatic_emergency_def in_cooldown_def split: option.splits if_splits)

text \<open>
  The approval counts the power each voter had when voting and is cut to eight bits: after the other
  validators have left, an approval of 300 per cent reads as 44.
\<close>

lemma approval_wraps:
  "es_total_power s = 100 \<Longrightarrow> es_approval_power s = 300 \<Longrightarrow> approval_percent s = 44"
  by (simp add: approval_percent_def)

end
