(* ===== verification/Kratos_Identity.thy ===== *)
theory Kratos_Identity
  imports Kratos_Types Kratos_Maps
begin

text \<open>
  Identities (\<^verbatim>\<open>types/identity.rs\<close>, \<^verbatim>\<open>contracts/identity.rs\<close>): declaration, attestations,
  activation, renewal, revocation, expiry and the reputation derived from participation.  \<open>visit\<close> is
  the order in which the map of identities is walked.
\<close>

section \<open>Types\<close>

type_synonym identity_id = hash

definition DEFAULT_IDENTITY_EXPIRY :: block_number where [const_defs]: "DEFAULT_IDENTITY_EXPIRY = 2592000"
definition MIN_ATTESTATIONS_FOR_ACTIVE :: nat where [const_defs]: "MIN_ATTESTATIONS_FOR_ACTIVE = 3"
definition ATTESTATION_EXPIRY :: block_number where [const_defs]: "ATTESTATION_EXPIRY = 1296000"
definition MAX_ATTESTATIONS :: nat where [const_defs]: "MAX_ATTESTATIONS = 100"
definition REPUTATION_DECAY_INTERVAL :: block_number where [const_defs]: "REPUTATION_DECAY_INTERVAL = 100800"
definition REPUTATION_DECAY_PERCENT :: u8 where [const_defs]: "REPUTATION_DECAY_PERCENT = 1"
definition MAX_REPUTATION :: u32 where [const_defs]: "MAX_REPUTATION = 10000"
definition MAX_VC_BOOST_MULTIPLIER :: u32 where [const_defs]: "MAX_VC_BOOST_MULTIPLIER = 150"
definition IDENTITY_DEPOSIT :: balance where [const_defs]: "IDENTITY_DEPOSIT = 10"
definition REPUTATION_POINTS_GOVERNANCE :: u32 where [const_defs]: "REPUTATION_POINTS_GOVERNANCE = 10"
definition REPUTATION_POINTS_ARBITRATION :: u32 where [const_defs]: "REPUTATION_POINTS_ARBITRATION = 50"
definition REPUTATION_POINTS_ATTESTATION :: u32 where [const_defs]: "REPUTATION_POINTS_ATTESTATION = 5"

datatype identity_status = IS_Declared | IS_Attested | IS_Active | IS_Expired | IS_Revoked

definition can_receive_attestations :: "identity_status \<Rightarrow> bool" where
  "can_receive_attestations s = (s \<in> {IS_Declared, IS_Attested, IS_Active})"

definition status_can_participate :: "identity_status \<Rightarrow> bool" where
  "status_can_participate s = (s = IS_Active)"

record reputation_score =
  rs_score :: u32
  rs_governance_actions :: u32
  rs_arbitration_count :: u32
  rs_attestations_given :: u32
  rs_slash_count :: u32

definition reputation_score_new :: reputation_score where
  "reputation_score_new =
     \<lparr>rs_score = 0, rs_governance_actions = 0, rs_arbitration_count = 0, rs_attestations_given = 0, rs_slash_count = 0\<rparr>"

definition reputation_add :: "u32 \<Rightarrow> reputation_score \<Rightarrow> reputation_score" where
  "reputation_add points r = r\<lparr>rs_score := min (sat_add (rs_score r) points) MAX_REPUTATION\<rparr>"

definition reputation_subtract :: "u32 \<Rightarrow> reputation_score \<Rightarrow> reputation_score" where
  "reputation_subtract points r = r\<lparr>rs_score := sat_sub (rs_score r) points\<rparr>"

definition reputation_governance :: "u32 \<Rightarrow> reputation_score \<Rightarrow> reputation_score" where
  "reputation_governance points r = reputation_add points (r\<lparr>rs_governance_actions := rs_governance_actions r + 1\<rparr>)"

definition reputation_arbitration :: "u32 \<Rightarrow> reputation_score \<Rightarrow> reputation_score" where
  "reputation_arbitration points r = reputation_add points (r\<lparr>rs_arbitration_count := rs_arbitration_count r + 1\<rparr>)"

definition reputation_attestation :: "u32 \<Rightarrow> reputation_score \<Rightarrow> reputation_score" where
  "reputation_attestation points r = reputation_add points (r\<lparr>rs_attestations_given := rs_attestations_given r + 1\<rparr>)"

definition reputation_slash :: "u8 \<Rightarrow> reputation_score \<Rightarrow> reputation_score" where
  "reputation_slash penalty_percent r =
     (let penalty = (ucast (rs_score r) * ucast penalty_percent :: u64) div 100
      in reputation_subtract (ucast penalty) (r\<lparr>rs_slash_count := rs_slash_count r + 1\<rparr>))"

definition vc_boost :: "reputation_score \<Rightarrow> u32" where
  "vc_boost r = min (100 + rs_score r * 50 div MAX_REPUTATION) MAX_VC_BOOST_MULTIPLIER"

definition vote_weight :: "reputation_score \<Rightarrow> u32" where
  "vote_weight r = min (100 + rs_score r * 100 div MAX_REPUTATION) 200"

record identity_commitment =
  ic_identity_id :: identity_id
  ic_owner :: account_id
  ic_scope :: chain_id
  ic_commitment :: hash
  ic_display_name :: "string option"
  ic_declared_at :: block_number
  ic_expires_at :: block_number
  ic_status :: identity_status
  ic_reputation :: reputation_score
  ic_last_activity :: block_number

definition compute_identity_id :: "crypto \<Rightarrow> account_id \<Rightarrow> chain_id \<Rightarrow> hash \<Rightarrow> identity_id" where
  "compute_identity_id K owner scope commitment =
     blake3 K (account_bytes owner @ le_bytes 4 scope @ hash_bytes commitment)"

definition identity_new :: "crypto \<Rightarrow> account_id \<Rightarrow> chain_id \<Rightarrow> bytes \<Rightarrow> string option \<Rightarrow> block_number \<Rightarrow> identity_commitment" where
  "identity_new K owner scope commitment_data display_name created_at =
     (let commitment = blake3 K commitment_data
      in \<lparr>ic_identity_id = compute_identity_id K owner scope commitment, ic_owner = owner, ic_scope = scope, ic_commitment = commitment,
          ic_display_name = display_name, ic_declared_at = created_at, ic_expires_at = created_at + DEFAULT_IDENTITY_EXPIRY,
          ic_status = IS_Declared, ic_reputation = reputation_score_new, ic_last_activity = created_at\<rparr>)"

definition identity_is_expired :: "block_number \<Rightarrow> identity_commitment \<Rightarrow> bool" where
  "identity_is_expired b i = (ic_expires_at i < b)"

definition identity_is_active :: "block_number \<Rightarrow> identity_commitment \<Rightarrow> bool" where
  "identity_is_active b i = (ic_status i = IS_Active \<and> \<not> identity_is_expired b i)"

definition identity_renew :: "block_number \<Rightarrow> identity_commitment \<Rightarrow> identity_commitment" where
  "identity_renew b i = i\<lparr>ic_expires_at := b + DEFAULT_IDENTITY_EXPIRY\<rparr>"

definition identity_record_activity :: "block_number \<Rightarrow> identity_commitment \<Rightarrow> identity_commitment" where
  "identity_record_activity b i = i\<lparr>ic_last_activity := b\<rparr>"

definition identity_apply_decay :: "block_number \<Rightarrow> identity_commitment \<Rightarrow> identity_commitment" where
  "identity_apply_decay b i =
     (let decay_periods = sat_sub b (ic_last_activity i) div REPUTATION_DECAY_INTERVAL
      in if 0 < decay_periods
         then let r = ic_reputation i;
                  decay_amount = ucast (rs_score r) * decay_periods * ucast REPUTATION_DECAY_PERCENT div 100 :: u64
              in i\<lparr>ic_reputation := r\<lparr>rs_score := sat_sub (rs_score r) (ucast decay_amount)\<rparr>, ic_last_activity := b\<rparr>
         else i)"

record identity_attestation =
  at_attester :: account_id
  at_attester_identity :: identity_id
  at_target_identity :: identity_id
  at_claim_hash :: hash
  at_weight :: u8
  at_attested_at :: block_number
  at_expires_at :: block_number
  at_is_valid :: bool

definition attestation_new :: "crypto \<Rightarrow> account_id \<Rightarrow> identity_id \<Rightarrow> identity_id \<Rightarrow> bytes \<Rightarrow> u8 \<Rightarrow> block_number \<Rightarrow> identity_attestation" where
  "attestation_new K attester attester_identity target claim_data weight b =
     \<lparr>at_attester = attester, at_attester_identity = attester_identity, at_target_identity = target, at_claim_hash = blake3 K claim_data,
      at_weight = weight, at_attested_at = b, at_expires_at = b + ATTESTATION_EXPIRY, at_is_valid = True\<rparr>"

definition attestation_is_active :: "block_number \<Rightarrow> identity_attestation \<Rightarrow> bool" where
  "attestation_is_active b x = (at_is_valid x \<and> \<not> at_expires_at x < b)"

definition calculate_attestation_weight :: "u32 \<Rightarrow> u8" where
  "calculate_attestation_weight reputation = min (ucast (reputation div 1000) + 1) 10"

datatype revocation_reason = RR_Voluntary | RR_Misconduct | RR_FraudulentAttestations | RR_GovernanceAction

datatype identity_event =
    IdentityDeclared identity_id account_id chain_id
  | AttestationReceived identity_id account_id u8
  | IdentityActivated identity_id
  | IE_IdentityExpired identity_id
  | IE_IdentityRevoked identity_id revocation_reason
  | IdentityRenewed identity_id block_number
  | ReputationChanged identity_id u32 u32 string
  | IE_StatusChanged identity_id identity_status identity_status string

record anti_sybil_config =
  sy_max_voting_power_percent :: u8
  sy_min_attestations :: nat
  sy_enable_diminishing_returns :: bool
  sy_enable_reputation_decay :: bool

definition default_anti_sybil :: anti_sybil_config where
  "default_anti_sybil =
     \<lparr>sy_max_voting_power_percent = 5, sy_min_attestations = MIN_ATTESTATIONS_FOR_ACTIVE, sy_enable_diminishing_returns = True,
      sy_enable_reputation_decay = True\<rparr>"

datatype identity_error =
    IdentityAlreadyExists | IdentityNotFound | AttesterHasNoIdentity | AttesterNotActive | CannotSelfAttest | CannotReceiveAttestations
  | AlreadyAttested | MaxAttestationsReached | IdentityRevoked | IE_AlreadyRevoked

section \<open>The registry\<close>

record identity_registry =
  ir_chain_id :: chain_id
  ir_identities :: "(identity_id, identity_commitment) hmap"
  ir_owner_to_identity :: "(account_id, identity_id) hmap"
  ir_attestations :: "(identity_id, identity_attestation list) hmap"
  ir_attestation_pairs :: "(account_id \<times> identity_id) set"
  ir_config :: anti_sybil_config
  ir_events :: "identity_event list"
  ir_active_count :: u64

type_synonym 'a id_action = "(identity_registry, identity_error, 'a) action"

definition identity_registry_new :: "chain_id \<Rightarrow> identity_registry" where
  "identity_registry_new cid =
     \<lparr>ir_chain_id = cid, ir_identities = [], ir_owner_to_identity = [], ir_attestations = [], ir_attestation_pairs = {},
      ir_config = default_anti_sybil, ir_events = [], ir_active_count = 0\<rparr>"

definition identity_registry_with_config :: "chain_id \<Rightarrow> anti_sybil_config \<Rightarrow> identity_registry" where
  "identity_registry_with_config cid cfg = (identity_registry_new cid)\<lparr>ir_config := cfg\<rparr>"

definition update_config :: "anti_sybil_config \<Rightarrow> identity_registry \<Rightarrow> identity_registry" where
  "update_config cfg R = R\<lparr>ir_config := cfg\<rparr>"

definition ir_emit :: "identity_event \<Rightarrow> identity_registry \<Rightarrow> identity_registry" where
  "ir_emit ev R = R\<lparr>ir_events := ir_events R @ [ev]\<rparr>"

definition put_identity :: "identity_id \<Rightarrow> identity_commitment \<Rightarrow> identity_registry \<Rightarrow> identity_registry" where
  "put_identity k i R = R\<lparr>ir_identities := hm_insert k i (ir_identities R)\<rparr>"

definition declare_identity :: "crypto \<Rightarrow> account_id \<Rightarrow> bytes \<Rightarrow> string option \<Rightarrow> block_number \<Rightarrow> identity_id id_action" where
  "declare_identity K owner commitment_data display_name b R =
     (if hm_contains (ir_owner_to_identity R) owner then (Err IdentityAlreadyExists, R)
      else
        let i = identity_new K owner (ir_chain_id R) commitment_data display_name b; k = ic_identity_id i
        in (Ok k, ir_emit (IdentityDeclared k owner (ir_chain_id R))
              ((put_identity k i R)\<lparr>ir_owner_to_identity := hm_insert owner k (ir_owner_to_identity R),
                                    ir_attestations := hm_insert k [] (ir_attestations R)\<rparr>)))"

definition attestations_of :: "identity_registry \<Rightarrow> identity_id \<Rightarrow> identity_attestation list" where
  "attestations_of R k = (case hm_get (ir_attestations R) k of Some xs \<Rightarrow> xs | None \<Rightarrow> [])"

definition count_valid_attestations :: "identity_id \<Rightarrow> block_number \<Rightarrow> identity_registry \<Rightarrow> nat" where
  "count_valid_attestations k b R = length (filter (attestation_is_active b) (attestations_of R k))"

definition total_attestation_weight :: "identity_id \<Rightarrow> block_number \<Rightarrow> identity_registry \<Rightarrow> u32" where
  "total_attestation_weight k b R = sum_list (map (\<lambda>x. ucast (at_weight x)) (filter (attestation_is_active b) (attestations_of R k)))"

definition maybe_activate_identity :: "identity_id \<Rightarrow> block_number \<Rightarrow> unit id_action" where
  "maybe_activate_identity k b R =
     (let n = count_valid_attestations k b R; min_required = sy_min_attestations (ir_config R)
      in case hm_get (ir_identities R) k of
           None \<Rightarrow> (Err IdentityNotFound, R)
         | Some i \<Rightarrow>
             if ic_status i = IS_Declared \<and> 0 < n then (Ok (), put_identity k (i\<lparr>ic_status := IS_Attested\<rparr>) R)
             else if ic_status i \<in> {IS_Declared, IS_Attested} \<and> min_required \<le> n
             then (Ok (), ir_emit (IdentityActivated k)
                     ((put_identity k (i\<lparr>ic_status := IS_Active\<rparr>) R)\<lparr>ir_active_count := ir_active_count R + 1\<rparr>))
             else (Ok (), R))"

definition submit_attestation :: "crypto \<Rightarrow> account_id \<Rightarrow> identity_id \<Rightarrow> bytes \<Rightarrow> block_number \<Rightarrow> unit id_action" where
  "submit_attestation K attester target claim_data b R =
     (case hm_get (ir_owner_to_identity R) attester of
        None \<Rightarrow> (Err AttesterHasNoIdentity, R)
      | Some k \<Rightarrow>
          (case hm_get (ir_identities R) k of
             None \<Rightarrow> (Err IdentityNotFound, R)
           | Some i \<Rightarrow>
               if \<not> identity_is_active b i then (Err AttesterNotActive, R)
               else if k = target then (Err CannotSelfAttest, R)
               else case hm_get (ir_identities R) target of
                   None \<Rightarrow> (Err IdentityNotFound, R)
                 | Some t \<Rightarrow>
                     if \<not> can_receive_attestations (ic_status t) then (Err CannotReceiveAttestations, R)
                     else if (attester, target) \<in> ir_attestation_pairs R then (Err AlreadyAttested, R)
                     else if MAX_ATTESTATIONS \<le> length (attestations_of R target) then (Err MaxAttestationsReached, R)
                     else
                       let weight = calculate_attestation_weight (rs_score (ic_reputation i));
                           x = attestation_new K attester k target claim_data weight b;
                           R1 = R\<lparr>ir_attestations := hm_insert target (attestations_of R target @ [x]) (ir_attestations R),
                                  ir_attestation_pairs := insert (attester, target) (ir_attestation_pairs R)\<rparr>;
                           R2 = put_identity k (i\<lparr>ic_reputation := reputation_attestation REPUTATION_POINTS_ATTESTATION (ic_reputation i)\<rparr>) R1
                       in maybe_activate_identity target b (ir_emit (AttestationReceived target attester weight) R2)))"

definition get_identity_by_owner :: "identity_registry \<Rightarrow> account_id \<Rightarrow> identity_commitment option" where
  "get_identity_by_owner R owner = Option.bind (hm_get (ir_owner_to_identity R) owner) (hm_get (ir_identities R))"

definition registry_is_active :: "identity_id \<Rightarrow> block_number \<Rightarrow> identity_registry \<Rightarrow> bool" where
  "registry_is_active k b R = (case hm_get (ir_identities R) k of Some i \<Rightarrow> identity_is_active b i | None \<Rightarrow> False)"

definition owner_is_active :: "account_id \<Rightarrow> block_number \<Rightarrow> identity_registry \<Rightarrow> bool" where
  "owner_is_active owner b R = (case get_identity_by_owner R owner of Some i \<Rightarrow> identity_is_active b i | None \<Rightarrow> False)"

definition renew_identity :: "account_id \<Rightarrow> block_number \<Rightarrow> block_number id_action" where
  "renew_identity owner b R =
     (case hm_get (ir_owner_to_identity R) owner of
        None \<Rightarrow> (Err IdentityNotFound, R)
      | Some k \<Rightarrow>
          (case hm_get (ir_identities R) k of
             None \<Rightarrow> (Err IdentityNotFound, R)
           | Some i \<Rightarrow>
               if ic_status i = IS_Revoked then (Err IdentityRevoked, R)
               else
                 let n = count_valid_attestations k b R;
                     i' = identity_renew b i;
                     i'' = (if ic_status i = IS_Expired
                            then i'\<lparr>ic_status := (if sy_min_attestations (ir_config R) \<le> n then IS_Active
                                                 else if 0 < n then IS_Attested else IS_Declared)\<rparr>
                            else i')
                 in (Ok (ic_expires_at i''), ir_emit (IdentityRenewed k (ic_expires_at i'')) (put_identity k i'' R))))"

definition revoke_identity :: "identity_id \<Rightarrow> identity_commitment \<Rightarrow> identity_registry \<Rightarrow> identity_registry" where
  "revoke_identity k i R =
     (put_identity k (i\<lparr>ic_status := IS_Revoked\<rparr>) R)
       \<lparr>ir_active_count := (if ic_status i = IS_Active then sat_sub (ir_active_count R) 1 else ir_active_count R)\<rparr>"

definition revoke_own_identity :: "account_id \<Rightarrow> balance id_action" where
  "revoke_own_identity owner R =
     (case hm_get (ir_owner_to_identity R) owner of
        None \<Rightarrow> (Err IdentityNotFound, R)
      | Some k \<Rightarrow>
          (case hm_get (ir_identities R) k of
             None \<Rightarrow> (Err IdentityNotFound, R)
           | Some i \<Rightarrow>
               if ic_status i = IS_Revoked then (Err IE_AlreadyRevoked, R)
               else (Ok IDENTITY_DEPOSIT, ir_emit (IE_IdentityRevoked k RR_Voluntary) (revoke_identity k i R))))"

definition invalidate_attestations_from :: "account_id \<Rightarrow> identity_registry \<Rightarrow> identity_registry" where
  "invalidate_attestations_from attester R =
     R\<lparr>ir_attestations := map (\<lambda>(k, xs). (k, map (\<lambda>x. if at_attester x = attester then x\<lparr>at_is_valid := False\<rparr> else x) xs)) (ir_attestations R)\<rparr>"

definition force_revoke_identity :: "identity_id \<Rightarrow> revocation_reason \<Rightarrow> unit id_action" where
  "force_revoke_identity k reason R =
     (case hm_get (ir_identities R) k of
        None \<Rightarrow> (Err IdentityNotFound, R)
      | Some i \<Rightarrow>
          if ic_status i = IS_Revoked then (Err IE_AlreadyRevoked, R)
          else (Ok (), ir_emit (IE_IdentityRevoked k reason) (invalidate_attestations_from (ic_owner i) (revoke_identity k i R))))"

text \<open>
  One round of the loop of \<open>process_expirations\<close>: the attestation counts were collected before
  the loop, from the registry \<open>R0\<close>.
\<close>

definition expire_one ::
  "block_number \<Rightarrow> identity_registry \<Rightarrow> identity_registry \<times> identity_id list \<times> identity_id list \<Rightarrow> identity_id \<Rightarrow> identity_registry \<times> identity_id list \<times> identity_id list" where
  "expire_one b R0 = (\<lambda>(R, expired, downgraded) k.
     case hm_get (ir_identities R) k of
       None \<Rightarrow> (R, expired, downgraded)
     | Some i \<Rightarrow>
         if identity_is_expired b i \<and> ic_status i \<noteq> IS_Expired \<and> ic_status i \<noteq> IS_Revoked
         then ((put_identity k (i\<lparr>ic_status := IS_Expired\<rparr>) R)
                 \<lparr>ir_active_count := (if ic_status i = IS_Active then sat_sub (ir_active_count R) 1 else ir_active_count R)\<rparr>,
               expired @ [k], downgraded)
         else if ic_status i = IS_Active \<and> count_valid_attestations k b R0 = 0
         then ((put_identity k (i\<lparr>ic_status := IS_Attested\<rparr>) R)\<lparr>ir_active_count := sat_sub (ir_active_count R) 1\<rparr>,
               expired, downgraded @ [k])
         else (R, expired, downgraded))"

definition process_expirations :: "(identity_id list \<Rightarrow> identity_id list) \<Rightarrow> block_number \<Rightarrow> identity_registry \<Rightarrow> identity_id list \<times> identity_registry" where
  "process_expirations visit b R =
     (let (R', expired, downgraded) = foldl (expire_one b R) (R, [], []) (visit (hm_keys (ir_identities R)))
      in (expired, R'\<lparr>ir_events := ir_events R' @ map IE_IdentityExpired expired
            @ map (\<lambda>k. IE_StatusChanged k IS_Active IS_Attested ''All attestations expired'') downgraded\<rparr>))"

text \<open>The common shape of the operations that change the reputation of an owner's identity.\<close>

definition change_reputation ::
  "account_id \<Rightarrow> (identity_commitment \<Rightarrow> identity_commitment) \<Rightarrow> string \<Rightarrow> unit id_action" where
  "change_reputation owner f reason R =
     (case hm_get (ir_owner_to_identity R) owner of
        None \<Rightarrow> (Err IdentityNotFound, R)
      | Some k \<Rightarrow>
          (case hm_get (ir_identities R) k of
             None \<Rightarrow> (Err IdentityNotFound, R)
           | Some i \<Rightarrow>
               (Ok (), ir_emit (ReputationChanged k (rs_score (ic_reputation i)) (rs_score (ic_reputation (f i))) reason)
                  (put_identity k (f i) R))))"

definition record_governance_participation :: "account_id \<Rightarrow> block_number \<Rightarrow> unit id_action" where
  "record_governance_participation owner b =
     change_reputation owner
       (\<lambda>i. identity_record_activity b (i\<lparr>ic_reputation := reputation_governance REPUTATION_POINTS_GOVERNANCE (ic_reputation i)\<rparr>))
       ''governance participation''"

definition record_arbitration_participation :: "account_id \<Rightarrow> block_number \<Rightarrow> unit id_action" where
  "record_arbitration_participation owner b =
     change_reputation owner
       (\<lambda>i. identity_record_activity b (i\<lparr>ic_reputation := reputation_arbitration REPUTATION_POINTS_ARBITRATION (ic_reputation i)\<rparr>))
       ''arbitration service''"

text \<open>\<open>format!\<close> of an unsigned number.\<close>

fun decimal_string :: "nat \<Rightarrow> string" where
  "decimal_string n = (if n < 10 then [char_of (48 + n)] else decimal_string (n div 10) @ [char_of (48 + n mod 10)])"

declare decimal_string.simps [simp del]

definition slash_reputation :: "account_id \<Rightarrow> u8 \<Rightarrow> unit id_action" where
  "slash_reputation owner penalty_percent =
     change_reputation owner (\<lambda>i. i\<lparr>ic_reputation := reputation_slash penalty_percent (ic_reputation i)\<rparr>)
       (''slashed '' @ decimal_string (unat penalty_percent) @ ''%'')"

definition apply_reputation_decay :: "block_number \<Rightarrow> identity_registry \<Rightarrow> identity_registry" where
  "apply_reputation_decay b R =
     (if \<not> sy_enable_reputation_decay (ir_config R) then R
      else R\<lparr>ir_identities := map (\<lambda>(k, i). (k, if ic_status i = IS_Active then identity_apply_decay b i else i)) (ir_identities R)\<rparr>)"

definition get_vote_weight :: "account_id \<Rightarrow> balance \<Rightarrow> identity_registry \<Rightarrow> balance" where
  "get_vote_weight owner base R =
     (case get_identity_by_owner R owner of
        Some i \<Rightarrow> sat_mul base (ucast (vote_weight (ic_reputation i))) div 100
      | None \<Rightarrow> base)"

definition get_vc_boost :: "account_id \<Rightarrow> identity_registry \<Rightarrow> u32" where
  "get_vc_boost owner R = (case get_identity_by_owner R owner of Some i \<Rightarrow> vc_boost (ic_reputation i) | None \<Rightarrow> 100)"

definition ir_clear_events :: "identity_registry \<Rightarrow> identity_registry" where
  "ir_clear_events R = R\<lparr>ir_events := []\<rparr>"

section \<open>Reachable registries\<close>

text \<open>
  Everything that can happen to a registry whose configurations all ask for at least \<open>m\<close>
  attestations.
\<close>

inductive id_reachable :: "crypto \<Rightarrow> nat \<Rightarrow> identity_registry \<Rightarrow> bool" for K m where
  start: "m \<le> sy_min_attestations cfg \<Longrightarrow> id_reachable K m (identity_registry_with_config cid cfg)"
| config: "id_reachable K m R \<Longrightarrow> m \<le> sy_min_attestations cfg \<Longrightarrow> id_reachable K m (update_config cfg R)"
| declared: "id_reachable K m R \<Longrightarrow> id_reachable K m (snd (declare_identity K a bs nam b R))"
| attest: "id_reachable K m R \<Longrightarrow> id_reachable K m (snd (submit_attestation K a k bs b R))"
| renew: "id_reachable K m R \<Longrightarrow> id_reachable K m (snd (renew_identity a b R))"
| revoke: "id_reachable K m R \<Longrightarrow> id_reachable K m (snd (revoke_own_identity a R))"
| force: "id_reachable K m R \<Longrightarrow> id_reachable K m (snd (force_revoke_identity k reason R))"
| expirations: "id_reachable K m R \<Longrightarrow> id_reachable K m (snd (process_expirations visit b R))"
| governance: "id_reachable K m R \<Longrightarrow> id_reachable K m (snd (record_governance_participation a b R))"
| arbitration: "id_reachable K m R \<Longrightarrow> id_reachable K m (snd (record_arbitration_participation a b R))"
| slash: "id_reachable K m R \<Longrightarrow> id_reachable K m (snd (slash_reputation a pct R))"
| decay: "id_reachable K m R \<Longrightarrow> id_reachable K m (apply_reputation_decay b R)"
| clear: "id_reachable K m R \<Longrightarrow> id_reachable K m (ir_clear_events R)"

definition all_identities :: "(identity_commitment \<Rightarrow> bool) \<Rightarrow> identity_registry \<Rightarrow> bool" where
  "all_identities P R \<longleftrightarrow> (\<forall>k i. hm_get (ir_identities R) k = Some i \<longrightarrow> P i)"

lemma ir_emit_simps [simp]:
  "ir_identities (ir_emit ev R) = ir_identities R" "ir_attestations (ir_emit ev R) = ir_attestations R"
  "ir_config (ir_emit ev R) = ir_config R"
  by (simp_all add: ir_emit_def)

lemma put_identity_simps [simp]:
  "ir_attestations (put_identity k i R) = ir_attestations R" "ir_config (put_identity k i R) = ir_config R"
  "ir_identities (put_identity k i R) = hm_insert k i (ir_identities R)"
  by (simp_all add: put_identity_def)

lemma all_put: "all_identities P R \<Longrightarrow> P i \<Longrightarrow> all_identities P (put_identity k i R)"
  by (simp add: all_identities_def update_conv')

lemma all_same [simp]:
  "all_identities P (ir_emit ev R) = all_identities P R" "all_identities P (R\<lparr>ir_active_count := n\<rparr>) = all_identities P R"
  "all_identities P (R\<lparr>ir_attestations := xs\<rparr>) = all_identities P R" "all_identities P (R\<lparr>ir_attestation_pairs := ps\<rparr>) = all_identities P R"
  "all_identities P (R\<lparr>ir_owner_to_identity := om\<rparr>) = all_identities P R" "all_identities P (R\<lparr>ir_config := cfg\<rparr>) = all_identities P R"
  "all_identities P (R\<lparr>ir_events := evs\<rparr>) = all_identities P R"
  by (simp_all add: all_identities_def)

lemma allD: "all_identities P R \<Longrightarrow> hm_get (ir_identities R) k = Some i \<Longrightarrow> P i"
  by (simp add: all_identities_def)

lemma all_change_reputation:
  assumes "all_identities P R" and "\<And>i. P i \<Longrightarrow> P (f i)"
  shows "all_identities P (snd (change_reputation a f reason R))"
  using assms by (auto simp: change_reputation_def split: option.split intro!: all_put dest: allD)

lemma all_expirations:
  assumes P: "all_identities P R" and step: "\<And>i s. P i \<Longrightarrow> s \<in> {IS_Expired, IS_Attested} \<Longrightarrow> P (i\<lparr>ic_status := s\<rparr>)"
  shows "all_identities P (snd (process_expirations visit b R))"
proof -
  have "all_identities P (fst (foldl (expire_one b R0) (R, ex, dg) ks))" if "all_identities P R" for R0 R ex dg ks
    using that
  proof (induction ks arbitrary: R ex dg)
    case (Cons k ks)
    obtain R' ex' dg' where e: "expire_one b R0 (R, ex, dg) k = (R', ex', dg')" by (cases "expire_one b R0 (R, ex, dg) k") auto
    have "all_identities P (fst (expire_one b R0 (R, ex, dg) k))"
      unfolding expire_one_def using Cons.prems by (auto split: option.split intro!: all_put step dest: allD)
    then have "all_identities P R'" by (simp add: e)
    from Cons.IH [OF this] show ?case by (simp add: e)
  qed simp
  from this [OF P, of R "[]" "[]" "visit (hm_keys (ir_identities R))"] show ?thesis
    by (cases "foldl (expire_one b R) (R, [], []) (visit (hm_keys (ir_identities R)))") (simp add: process_expirations_def)
qed

section \<open>No identity is ever active\<close>

text \<open>
  Attesting takes an active identity and becoming active takes attestations; nothing else in the
  registry makes an identity active.
\<close>

definition dormant :: "identity_registry \<Rightarrow> bool" where
  "dormant R \<longleftrightarrow> all_identities (\<lambda>i. ic_status i \<noteq> IS_Active) R \<and> (\<forall>k. attestations_of R k = [])"

lemma dormantD: "dormant R \<Longrightarrow> hm_get (ir_identities R) k = Some i \<Longrightarrow> ic_status i \<noteq> IS_Active"
  by (auto simp: dormant_def dest: allD)

lemma attestations_simps [simp]:
  "attestations_of (ir_emit ev R) k = attestations_of R k" "attestations_of (put_identity j i R) k = attestations_of R k"
  "attestations_of (R\<lparr>ir_active_count := n\<rparr>) k = attestations_of R k" "attestations_of (R\<lparr>ir_events := evs\<rparr>) k = attestations_of R k"
  "attestations_of (R\<lparr>ir_config := cfg\<rparr>) k = attestations_of R k" "attestations_of (R\<lparr>ir_identities := im\<rparr>) k = attestations_of R k"
  "attestations_of (R\<lparr>ir_owner_to_identity := om\<rparr>) k = attestations_of R k"
  by (simp_all add: attestations_of_def)

lemma dormant_emit [simp]: "dormant (ir_emit ev R) = dormant R"
  by (simp add: dormant_def)

lemma dormant_attest: "dormant R \<Longrightarrow> snd (submit_attestation K a k bs b R) = R"
  using dormantD by (auto simp: submit_attestation_def identity_is_active_def split: option.split)

lemma dormant_expirations:
  assumes "dormant R"
  shows "dormant (snd (process_expirations visit b R))"
proof -
  have "ir_attestations (fst (foldl (expire_one b R0) (R, ex, dg) ks)) = ir_attestations R" for R0 R ex dg ks
  proof (induction ks arbitrary: R ex dg)
    case (Cons k ks)
    obtain R' ex' dg' where e: "expire_one b R0 (R, ex, dg) k = (R', ex', dg')" by (cases "expire_one b R0 (R, ex, dg) k") auto
    then have "ir_attestations R' = ir_attestations R" by (auto simp: expire_one_def split: option.splits if_splits)
    with Cons.IH [of R' ex' dg'] show ?case by (simp add: e)
  qed simp
  from this [of R R "[]" "[]" "visit (hm_keys (ir_identities R))"]
  have "attestations_of (snd (process_expirations visit b R)) k = attestations_of R k" for k
    by (cases "foldl (expire_one b R) (R, [], []) (visit (hm_keys (ir_identities R)))")
       (simp add: process_expirations_def attestations_of_def)
  moreover have "all_identities (\<lambda>i. ic_status i \<noteq> IS_Active) (snd (process_expirations visit b R))"
    using assms by (intro all_expirations) (auto simp: dormant_def)
  ultimately show ?thesis using assms by (simp add: dormant_def)
qed

lemma attestations_invalidate:
  "attestations_of (invalidate_attestations_from a R) k =
     map (\<lambda>x. if at_attester x = a then x\<lparr>at_is_valid := False\<rparr> else x) (attestations_of R k)"
  by (simp add: attestations_of_def invalidate_attestations_from_def map_of_map split: option.split)

lemma dormant_invalidate: "dormant R \<Longrightarrow> dormant (invalidate_attestations_from a R)"
  unfolding dormant_def attestations_invalidate by (simp add: invalidate_attestations_from_def)

lemma dormant_revoke: "dormant R \<Longrightarrow> dormant (revoke_identity k i R)"
  by (auto simp: dormant_def revoke_identity_def intro!: all_put)

lemma dormant_change: "dormant R \<Longrightarrow> (\<And>i. ic_status (f i) = ic_status i) \<Longrightarrow> dormant (snd (change_reputation a f reason R))"
  by (auto simp: dormant_def change_reputation_def split: option.split intro!: all_put dest: allD)

lemma decay_status [simp]: "ic_status (identity_apply_decay b i) = ic_status i"
  by (simp add: identity_apply_decay_def Let_def)

lemma dormant_decay: "dormant R \<Longrightarrow> dormant (apply_reputation_decay b R)"
  by (auto simp: dormant_def apply_reputation_decay_def all_identities_def map_of_map)

lemma dormant_renew: "dormant R \<Longrightarrow> 0 < sy_min_attestations (ir_config R) \<Longrightarrow> dormant (snd (renew_identity a b R))"
  by (auto simp: dormant_def renew_identity_def Let_def count_valid_attestations_def identity_renew_def split: option.split intro!: all_put dest: allD)

lemma dormant_declare: "dormant R \<Longrightarrow> dormant (snd (declare_identity K a bs nam b R))"
  by (auto simp: dormant_def declare_identity_def Let_def identity_new_def intro!: all_put)
     (simp add: attestations_of_def update_conv')

lemma config_kept [simp]:
  "ir_config (snd (submit_attestation K a k bs b R)) = ir_config R" "ir_config (snd (renew_identity a b R)) = ir_config R"
  "ir_config (snd (declare_identity K a bs nam b R)) = ir_config R" "ir_config (snd (change_reputation a f reason R)) = ir_config R"
  "ir_config (revoke_identity k i R) = ir_config R" "ir_config (invalidate_attestations_from a R) = ir_config R"
  "ir_config (apply_reputation_decay b R) = ir_config R"
  by (simp_all add: submit_attestation_def maybe_activate_identity_def renew_identity_def declare_identity_def change_reputation_def revoke_identity_def
      invalidate_attestations_from_def apply_reputation_decay_def Let_def split: option.split)

lemma config_expirations [simp]: "ir_config (snd (process_expirations visit b R)) = ir_config R"
proof -
  have "ir_config (fst (foldl (expire_one b R0) (R, ex, dg) ks)) = ir_config R" for R0 R ex dg ks
  proof (induction ks arbitrary: R ex dg)
    case (Cons k ks)
    obtain R' ex' dg' where e: "expire_one b R0 (R, ex, dg) k = (R', ex', dg')" by (cases "expire_one b R0 (R, ex, dg) k") auto
    then have "ir_config R' = ir_config R" by (auto simp: expire_one_def split: option.splits if_splits)
    with Cons.IH [of R' ex' dg'] show ?case by (simp add: e)
  qed simp
  from this [of R R "[]" "[]" "visit (hm_keys (ir_identities R))"] show ?thesis
    by (cases "foldl (expire_one b R) (R, [], []) (visit (hm_keys (ir_identities R)))") (simp add: process_expirations_def)
qed

lemma reachable_dormant:
  assumes "id_reachable K m R" and "0 < m"
  shows "dormant R \<and> m \<le> sy_min_attestations (ir_config R)"
  using assms(1)
proof (induction rule: id_reachable.induct)
  case (start cfg cid)
  then show ?case by (simp add: dormant_def all_identities_def identity_registry_with_config_def identity_registry_new_def attestations_of_def)
next
  case (renew R a b)
  then show ?case using assms(2) by (auto intro: dormant_renew)
next
  case (revoke R a)
  then show ?case by (auto simp: revoke_own_identity_def dormant_revoke split: option.split)
next
  case (force R k reason)
  then show ?case by (auto simp: force_revoke_identity_def dormant_revoke dormant_invalidate split: option.split)
qed (simp_all add: dormant_attest dormant_declare dormant_expirations dormant_change dormant_decay record_governance_participation_def
      record_arbitration_participation_def slash_reputation_def identity_record_activity_def,
    simp_all add: update_config_def ir_clear_events_def dormant_def)

text \<open>
  C37: starting from an empty registry whose configuration asks for at least one attestation (the
  default asks for three), no identity ever becomes active, whatever its users do: attestations are only
  accepted from active identities.
\<close>

theorem identity_never_active:
  assumes "id_reachable K m R" and "0 < m"
  shows "\<not> registry_is_active k b R \<and> fst (submit_attestation K a k bs b R) \<noteq> Ok ()"
proof -
  have "dormant R" using reachable_dormant assms by blast
  then show ?thesis using dormantD
    by (auto simp: registry_is_active_def identity_is_active_def submit_attestation_def split: option.split)
qed

theorem identity_never_active_witness:
  "\<not> registry_is_active 1 9 (snd (declare_identity demo_crypto 7 [1] None 0 (identity_registry_new 0)))"
proof -
  have "id_reachable demo_crypto 3 (identity_registry_with_config 0 default_anti_sybil)"
    by (rule id_reachable.start) (simp add: default_anti_sybil_def const_defs)
  moreover have "identity_registry_with_config 0 default_anti_sybil = identity_registry_new 0"
    by (simp add: identity_registry_with_config_def identity_registry_new_def)
  ultimately have "id_reachable demo_crypto 3 (snd (declare_identity demo_crypto 7 [1] None 0 (identity_registry_new 0)))"
    by (simp add: id_reachable.declared)
  from identity_never_active [OF this] show ?thesis by simp
qed

section \<open>Reputation stays within its limits\<close>

definition score_ok :: "identity_commitment \<Rightarrow> bool" where
  "score_ok i \<longleftrightarrow> rs_score (ic_reputation i) \<le> MAX_REPUTATION"

lemma score_ok_simps [simp]:
  "score_ok (i\<lparr>ic_status := st\<rparr>) = score_ok i" "score_ok (identity_renew b i) = score_ok i" "score_ok (identity_record_activity b i) = score_ok i"
  "score_ok (i\<lparr>ic_reputation := reputation_attestation pts r\<rparr>)" "score_ok (i\<lparr>ic_reputation := reputation_governance pts r\<rparr>)"
  "score_ok (i\<lparr>ic_reputation := reputation_arbitration pts r\<rparr>)" "score_ok (identity_new K a cid bs nam b)"
  by (simp_all add: score_ok_def identity_renew_def identity_record_activity_def reputation_attestation_def reputation_governance_def
      reputation_arbitration_def reputation_add_def identity_new_def reputation_score_new_def Let_def const_defs)

lemma score_ok_lower: "score_ok i \<Longrightarrow> rs_score (ic_reputation i') \<le> rs_score (ic_reputation i) \<Longrightarrow> score_ok i'"
  unfolding score_ok_def by (rule order_trans)

lemma score_ok_slash: "score_ok i \<Longrightarrow> score_ok (i\<lparr>ic_reputation := reputation_slash pct (ic_reputation i)\<rparr>)"
  by (rule score_ok_lower [of i]) (simp_all add: reputation_slash_def reputation_subtract_def Let_def sat_sub_le)

lemma score_ok_decay: "score_ok i \<Longrightarrow> score_ok (identity_apply_decay b i)"
  by (rule score_ok_lower [of i]) (simp_all add: identity_apply_decay_def Let_def sat_sub_le)

lemma scores_activate: "all_identities score_ok R \<Longrightarrow> all_identities score_ok (snd (maybe_activate_identity k b R))"
  by (auto simp: maybe_activate_identity_def Let_def split: option.split intro!: all_put dest: allD)

lemma scores_attest: "all_identities score_ok R \<Longrightarrow> all_identities score_ok (snd (submit_attestation K a k bs b R))"
  by (auto simp: submit_attestation_def Let_def split: option.split intro!: scores_activate all_put)

lemma reachable_scores: "id_reachable K m R \<Longrightarrow> all_identities score_ok R"
proof (induction rule: id_reachable.induct)
  case (decay R b)
  then show ?case by (auto simp: all_identities_def apply_reputation_decay_def map_of_map score_ok_decay)
next
  case (slash R a pct)
  then show ?case by (auto simp: slash_reputation_def score_ok_slash intro!: all_change_reputation)
next
  case (expirations R visit b)
  then show ?case by (auto intro: all_expirations)
next
  case (start cfg cid)
  show ?case by (simp add: all_identities_def identity_registry_with_config_def identity_registry_new_def)
qed (auto simp: scores_attest record_governance_participation_def record_arbitration_participation_def update_config_def ir_clear_events_def
      declare_identity_def renew_identity_def revoke_own_identity_def force_revoke_identity_def revoke_identity_def invalidate_attestations_from_def
      Let_def split: option.split intro!: all_put all_change_reputation dest: allD)

lemma multiplier_bounds:
  assumes "s \<le> MAX_REPUTATION" and "k \<le> 100"
  shows "unat (100 + s * of_nat k div MAX_REPUTATION) = 100 + unat s * k div 10000" and "unat s * k div 10000 \<le> k"
proof -
  have s: "unat s \<le> 10000" using assms(1) by (simp add: const_defs word_le_nat_alt)
  then have le: "unat s * k \<le> 10000 * k" by simp
  then show bound: "unat s * k div 10000 \<le> k" by (metis div_le_mono nonzero_mult_div_cancel_left zero_neq_numeral)
  have k: "unat (of_nat k :: u32) = k" using assms(2) by (simp add: unat_of_nat)
  have "unat s * k \<le> 1000000" using le assms(2) by linarith
  then have "unat (s * of_nat k :: u32) = unat s * k" using unat_mult_fits [of s "of_nat k"] k by simp
  then have "unat (s * of_nat k div MAX_REPUTATION) = unat s * k div 10000" by (simp add: unat_div const_defs)
  then show "unat (100 + s * of_nat k div MAX_REPUTATION) = 100 + unat s * k div 10000"
    using bound assms(2) unat_add_fits [of 100 "s * of_nat k div MAX_REPUTATION"] by simp
qed

lemma vc_boost_bounds:
  assumes "rs_score r \<le> MAX_REPUTATION"
  shows "100 \<le> vc_boost r \<and> vc_boost r \<le> 150"
  using multiplier_bounds [OF assms, of 50] by (simp add: vc_boost_def const_defs word_le_nat_alt min_def)

lemma vote_weight_bounds:
  assumes "rs_score r \<le> MAX_REPUTATION"
  shows "100 \<le> unat (vote_weight r)" and "unat (vote_weight r) \<le> 200"
  using multiplier_bounds [OF assms, of 100] by (simp_all add: vote_weight_def const_defs word_le_nat_alt min_def)

text \<open>
  An identity's influence is bounded: in every registry that can be reached the credit
  multiplier of an account lies between 100 and 150 per cent, and its vote counts at least once and at most
  twice (for base weights whose product with 200 fits into 128 bits).
\<close>

theorem identity_influence_bounded:
  assumes "id_reachable K m R" and "unat base * 200 < 2 ^ 128"
  shows "100 \<le> get_vc_boost a R \<and> get_vc_boost a R \<le> 150
    \<and> unat base \<le> unat (get_vote_weight a base R) \<and> unat (get_vote_weight a base R) \<le> 2 * unat base"
proof (cases "get_identity_by_owner R a")
  case (Some i)
  then have i: "rs_score (ic_reputation i) \<le> MAX_REPUTATION"
    using reachable_scores [OF assms(1)] by (auto simp: get_identity_by_owner_def all_identities_def score_ok_def split: bind_splits)
  let ?w = "unat (vote_weight (ic_reputation i))"
  note w = vote_weight_bounds [OF i]
  have "unat base * ?w \<le> unat base * 200" using w(2) by (rule mult_le_mono2)
  then have "unat base * ?w \<le> 2 ^ 128 - 1" using assms(2) by linarith
  then have "unat (sat_mul base (ucast (vote_weight (ic_reputation i)))) = unat base * ?w"
    by (simp add: unat_sat_mul)
  then have "unat (get_vote_weight a base R) = unat base * ?w div 100"
    using Some by (simp add: get_vote_weight_def unat_div)
  moreover have "unat base * 100 \<le> unat base * ?w" "unat base * ?w \<le> unat base * 200" using w by simp_all
  ultimately have "unat base \<le> unat (get_vote_weight a base R)" "unat (get_vote_weight a base R) \<le> 2 * unat base" by linarith+
  then show ?thesis using Some vc_boost_bounds [OF i] by (simp add: get_vc_boost_def)
qed (simp add: get_vc_boost_def get_vote_weight_def)

theorem identity_influence_bounded_witness:
  "unat (get_vote_weight 7 1000 (snd (record_governance_participation 7 5
     (snd (declare_identity demo_crypto 7 [1] None 0 (identity_registry_with_config 0 default_anti_sybil)))))) \<le> 2000"
proof -
  have "id_reachable demo_crypto 0 (snd (record_governance_participation 7 5
     (snd (declare_identity demo_crypto 7 [1] None 0 (identity_registry_with_config 0 default_anti_sybil)))))"
    by (intro id_reachable.governance id_reachable.declared id_reachable.start) simp
  from identity_influence_bounded [OF this, of 1000 7] show ?thesis by simp
qed

section \<open>Behaviour that differs from the documentation\<close>

text \<open>
  A revoked identity \<open>must create new identity\<close>, says the type; but the registry keeps the owner's
  entry, and a new declaration fails for ever.
\<close>

lemma revoked_owner_locked_out:
  assumes "hm_get (ir_owner_to_identity R) a = Some k" and "hm_get (ir_identities R) k = Some i" and "ic_status i \<noteq> IS_Revoked"
  shows "fst (declare_identity K a bs nam b (snd (revoke_own_identity a R))) = Err IdentityAlreadyExists"
  using assms by (simp add: revoke_own_identity_def declare_identity_def hm_contains_def ir_emit_def revoke_identity_def put_identity_def)

text \<open>Renewing an expired identity that is still attested makes it active without counting it.\<close>

lemma renewed_identity_not_counted:
  assumes "hm_get (ir_owner_to_identity R) a = Some k" and "hm_get (ir_identities R) k = Some i" and "ic_status i = IS_Expired"
    and "sy_min_attestations (ir_config R) \<le> count_valid_attestations k b R"
  shows "map_option ic_status (hm_get (ir_identities (snd (renew_identity a b R))) k) = Some IS_Active"
    and "ir_active_count (snd (renew_identity a b R)) = ir_active_count R"
  using assms by (simp_all add: renew_identity_def Let_def ir_emit_def put_identity_def update_conv')

end
