(* ===== verification/Kratos_Reputation.thy ===== *)
theory Kratos_Reputation
  imports Kratos_Tokenomics Kratos_Identity
begin

text \<open>
  Reputation in several domains (\<^verbatim>\<open>types/reputation.rs\<close>, \<^verbatim>\<open>contracts/reputation.rs\<close>):
  scores with decay and slashing, stakes that raise the effective score, imports from other chains and
  endorsements.
\<close>

section \<open>Domains and scores\<close>

definition MAX_DOMAIN_SCORE :: u32 where [const_defs]: "MAX_DOMAIN_SCORE = 10000"
definition REPUTATION_STAKE_LOCK :: block_number where [const_defs]: "REPUTATION_STAKE_LOCK = 1296000"
definition MIN_REPUTATION_STAKE :: balance where [const_defs]: "MIN_REPUTATION_STAKE = 100"
definition MAX_STAKE_MULTIPLIER :: u32 where [const_defs]: "MAX_STAKE_MULTIPLIER = 200"
definition DOMAIN_DECAY_RATE :: u8 where [const_defs]: "DOMAIN_DECAY_RATE = 2"
definition CROSS_CHAIN_DISCOUNT :: u32 where [const_defs]: "CROSS_CHAIN_DISCOUNT = 50"
definition MAX_ENDORSEMENTS_PER_DOMAIN :: nat where [const_defs]: "MAX_ENDORSEMENTS_PER_DOMAIN = 50"
definition BASE_ENDORSEMENT_POINTS :: u32 where [const_defs]: "BASE_ENDORSEMENT_POINTS = 10"

datatype reputation_domain = RD_Governance | RD_Technical | RD_Community | RD_Arbitration | RD_Economic | RD_Validation

definition reputation_domains :: "reputation_domain list" where
  "reputation_domains = [RD_Governance, RD_Technical, RD_Community, RD_Arbitration, RD_Economic, RD_Validation]"

fun domain_weight :: "reputation_domain \<Rightarrow> u32" where
  "domain_weight RD_Governance = 25"
| "domain_weight RD_Technical = 20"
| "domain_weight RD_Community = 20"
| "domain_weight RD_Arbitration = 15"
| "domain_weight RD_Economic = 10"
| "domain_weight RD_Validation = 10"

definition domain_decay_rate :: "reputation_domain \<Rightarrow> u8" where
  "domain_decay_rate d = (if d = RD_Validation then 1 else DOMAIN_DECAY_RATE)"

fun domain_tag :: "reputation_domain \<Rightarrow> u8" where
  "domain_tag RD_Governance = 0"
| "domain_tag RD_Technical = 1"
| "domain_tag RD_Community = 2"
| "domain_tag RD_Arbitration = 3"
| "domain_tag RD_Economic = 4"
| "domain_tag RD_Validation = 5"

record domain_reputation =
  dr_score :: u32
  dr_action_count :: u32
  dr_last_activity :: block_number
  dr_endorsement_count :: u32
  dr_endorsement_weight :: u32
  dr_slash_count :: u32

definition domain_reputation_new :: domain_reputation where
  "domain_reputation_new =
     \<lparr>dr_score = 0, dr_action_count = 0, dr_last_activity = 0, dr_endorsement_count = 0, dr_endorsement_weight = 0, dr_slash_count = 0\<rparr>"

definition domain_add :: "u32 \<Rightarrow> block_number \<Rightarrow> domain_reputation \<Rightarrow> domain_reputation" where
  "domain_add points b d =
     d\<lparr>dr_score := min (sat_add (dr_score d) points) MAX_DOMAIN_SCORE, dr_action_count := dr_action_count d + 1, dr_last_activity := b\<rparr>"

definition domain_apply_decay :: "block_number \<Rightarrow> u8 \<Rightarrow> domain_reputation \<Rightarrow> domain_reputation" where
  "domain_apply_decay b rate d =
     (let decay_periods = sat_sub b (dr_last_activity d) div REPUTATION_DECAY_INTERVAL
      in if 0 < decay_periods
         then let decay = sat_mul (sat_mul (ucast (dr_score d)) decay_periods) (ucast rate) div 100 :: u64
              in d\<lparr>dr_score := sat_sub (dr_score d) (ucast decay)\<rparr>
         else d)"

definition domain_slash :: "u8 \<Rightarrow> domain_reputation \<Rightarrow> domain_reputation" where
  "domain_slash penalty_percent d =
     (let penalty = sat_mul (ucast (dr_score d)) (ucast penalty_percent) div 100 :: u64
      in d\<lparr>dr_score := sat_sub (dr_score d) (ucast penalty), dr_slash_count := dr_slash_count d + 1\<rparr>)"

definition domain_add_endorsement :: "u32 \<Rightarrow> domain_reputation \<Rightarrow> domain_reputation" where
  "domain_add_endorsement weight d =
     d\<lparr>dr_endorsement_count := dr_endorsement_count d + 1, dr_endorsement_weight := dr_endorsement_weight d + weight,
       dr_score := min (sat_add (dr_score d) (weight * BASE_ENDORSEMENT_POINTS div 10)) MAX_DOMAIN_SCORE\<rparr>"

record reputation_profile =
  mr_identity_id :: identity_id
  mr_domains :: "(reputation_domain, domain_reputation) hmap"
  mr_overall_score :: u32
  mr_created_at :: block_number
  mr_updated_at :: block_number

definition profile_new :: "identity_id \<Rightarrow> block_number \<Rightarrow> reputation_profile" where
  "profile_new i b =
     \<lparr>mr_identity_id = i, mr_domains = map (\<lambda>d. (d, domain_reputation_new)) reputation_domains, mr_overall_score = 0, mr_created_at = b, mr_updated_at = b\<rparr>"

definition profile_domain :: "reputation_domain \<Rightarrow> reputation_profile \<Rightarrow> u32" where
  "profile_domain d r = (case hm_get (mr_domains r) d of Some x \<Rightarrow> dr_score x | None \<Rightarrow> 0)"

definition recalculate_overall :: "reputation_profile \<Rightarrow> reputation_profile" where
  "recalculate_overall r =
     (let weighted_sum = sum_list (map (\<lambda>(d, x). ucast (dr_score x) * ucast (domain_weight d)) (mr_domains r)) :: u64;
          total_weight = sum_list (map (\<lambda>(d, _). ucast (domain_weight d)) (mr_domains r)) :: u64
      in r\<lparr>mr_overall_score := (if 0 < total_weight then ucast (weighted_sum div total_weight) else 0)\<rparr>)"

definition change_domain :: "reputation_domain \<Rightarrow> (domain_reputation \<Rightarrow> domain_reputation) \<Rightarrow> reputation_profile \<Rightarrow> reputation_profile" where
  "change_domain d f r = (case hm_get (mr_domains r) d of Some x \<Rightarrow> r\<lparr>mr_domains := hm_insert d (f x) (mr_domains r)\<rparr> | None \<Rightarrow> r)"

definition add_domain_rep :: "reputation_domain \<Rightarrow> u32 \<Rightarrow> block_number \<Rightarrow> reputation_profile \<Rightarrow> reputation_profile" where
  "add_domain_rep d points b r = recalculate_overall ((change_domain d (domain_add points b) r)\<lparr>mr_updated_at := b\<rparr>)"

definition profile_apply_decay :: "block_number \<Rightarrow> reputation_profile \<Rightarrow> reputation_profile" where
  "profile_apply_decay b r =
     recalculate_overall (r\<lparr>mr_domains := map (\<lambda>(d, x). (d, domain_apply_decay b (domain_decay_rate d) x)) (mr_domains r)\<rparr>)"

definition slash_domain :: "reputation_domain \<Rightarrow> u8 \<Rightarrow> reputation_profile \<Rightarrow> reputation_profile" where
  "slash_domain d penalty_percent r = recalculate_overall (change_domain d (domain_slash penalty_percent) r)"

definition endorsement_weight :: "u32 \<Rightarrow> u32" where
  "endorsement_weight endorser_rep = min (max (endorser_rep div 1000) 1) 10"

definition profile_add_endorsement :: "reputation_domain \<Rightarrow> u32 \<Rightarrow> reputation_profile \<Rightarrow> bool \<times> reputation_profile" where
  "profile_add_endorsement d endorser_rep r =
     (case hm_get (mr_domains r) d of
        None \<Rightarrow> (False, r)
      | Some x \<Rightarrow>
          if of_nat MAX_ENDORSEMENTS_PER_DOMAIN \<le> dr_endorsement_count x then (False, r)
          else (True, recalculate_overall (change_domain d (domain_add_endorsement (endorsement_weight endorser_rep)) r)))"

section \<open>Stakes, imports and endorsements\<close>

record reputation_stake =
  sk_stake_id :: hash
  sk_staker :: account_id
  sk_identity_id :: identity_id
  sk_amount :: balance
  sk_staked_at :: block_number
  sk_locked_until :: block_number
  sk_domain :: "reputation_domain option"
  sk_multiplier :: u32
  sk_slashed :: bool

definition stake_compute_id :: "crypto \<Rightarrow> account_id \<Rightarrow> identity_id \<Rightarrow> block_number \<Rightarrow> hash" where
  "stake_compute_id K staker i b = blake3 K (account_bytes staker @ hash_bytes i @ le_bytes 8 b)"

definition calculate_multiplier :: "libm \<Rightarrow> balance \<Rightarrow> u32" where
  "calculate_multiplier L amount =
     (let ratio = fdiv (f64_of_word amount) (f64_of_word MIN_REPUTATION_STAKE);
          boost = f64_to_word (fmul (lm_sqrt L ratio) 10)
      in min (100 + boost) MAX_STAKE_MULTIPLIER)"

definition reputation_stake_new ::
  "libm \<Rightarrow> crypto \<Rightarrow> account_id \<Rightarrow> identity_id \<Rightarrow> balance \<Rightarrow> reputation_domain option \<Rightarrow> block_number \<Rightarrow> reputation_stake option" where
  "reputation_stake_new L K staker i amount dm b =
     (if amount < MIN_REPUTATION_STAKE then None
      else Some \<lparr>sk_stake_id = stake_compute_id K staker i b, sk_staker = staker, sk_identity_id = i, sk_amount = amount, sk_staked_at = b,
                 sk_locked_until = b + REPUTATION_STAKE_LOCK, sk_domain = dm, sk_multiplier = calculate_multiplier L amount,
                 sk_slashed = False\<rparr>)"

definition stake_can_withdraw :: "block_number \<Rightarrow> reputation_stake \<Rightarrow> bool" where
  "stake_can_withdraw b s = (\<not> b < sk_locked_until s \<and> \<not> sk_slashed s)"

definition stake_slash :: "u8 \<Rightarrow> reputation_stake \<Rightarrow> balance \<times> reputation_stake" where
  "stake_slash penalty_percent s =
     (if sk_slashed s then (0, s)
      else
        let penalty = sat_mul (ucast (sk_amount s)) (ucast penalty_percent) div 100 :: u64
        in (ucast penalty, s\<lparr>sk_amount := sat_sub (sk_amount s) (ucast penalty), sk_slashed := True, sk_multiplier := 100\<rparr>))"

record cross_chain_reputation =
  xr_source_chain :: chain_id
  xr_source_identity :: identity_id
  xr_target_chain :: chain_id
  xr_imported_score :: u32
  xr_domain_scores :: "(reputation_domain, u32) hmap"
  xr_imported_at :: block_number
  xr_proof_hash :: hash
  xr_verified :: bool

definition cross_chain_new ::
  "chain_id \<Rightarrow> identity_id \<Rightarrow> chain_id \<Rightarrow> u32 \<Rightarrow> (reputation_domain, u32) hmap \<Rightarrow> hash \<Rightarrow> block_number \<Rightarrow> cross_chain_reputation" where
  "cross_chain_new source_chain source_identity target_chain original_score domain_scores proof_hash b =
     \<lparr>xr_source_chain = source_chain, xr_source_identity = source_identity, xr_target_chain = target_chain,
      xr_imported_score = sat_mul original_score CROSS_CHAIN_DISCOUNT div 100,
      xr_domain_scores = map (\<lambda>(d, s). (d, sat_mul s CROSS_CHAIN_DISCOUNT div 100)) domain_scores,
      xr_imported_at = b, xr_proof_hash = proof_hash, xr_verified = False\<rparr>"

definition import_effective_score :: "cross_chain_reputation \<Rightarrow> u32" where
  "import_effective_score x = (if xr_verified x then xr_imported_score x else 0)"

record endorsement =
  en_endorsement_id :: hash
  en_endorser :: account_id
  en_endorser_identity :: identity_id
  en_target_identity :: identity_id
  en_domain :: reputation_domain
  en_weight :: u32
  en_endorsed_at :: block_number
  en_context :: "string option"
  en_active :: bool

definition endorsement_compute_id :: "crypto \<Rightarrow> identity_id \<Rightarrow> identity_id \<Rightarrow> reputation_domain \<Rightarrow> block_number \<Rightarrow> hash" where
  "endorsement_compute_id K endorser target d b = blake3 K (hash_bytes endorser @ hash_bytes target @ [domain_tag d] @ le_bytes 8 b)"

definition endorsement_new ::
  "crypto \<Rightarrow> account_id \<Rightarrow> identity_id \<Rightarrow> identity_id \<Rightarrow> reputation_domain \<Rightarrow> u32 \<Rightarrow> string option \<Rightarrow> block_number \<Rightarrow> endorsement" where
  "endorsement_new K endorser endorser_identity target d endorser_reputation ctxt b =
     \<lparr>en_endorsement_id = endorsement_compute_id K endorser_identity target d b, en_endorser = endorser,
      en_endorser_identity = endorser_identity, en_target_identity = target, en_domain = d, en_weight = endorsement_weight endorser_reputation,
      en_endorsed_at = b, en_context = ctxt, en_active = True\<rparr>"

datatype reputation_event =
    DomainReputationChanged identity_id reputation_domain u32 u32 string
  | StakeCreated hash account_id identity_id balance u32
  | StakeSlashed hash balance
  | StakeWithdrawn hash balance
  | ReputationImported chain_id chain_id identity_id u32
  | EndorsementGiven account_id identity_id reputation_domain u32
  | EndorsementRevoked hash

section \<open>The registry\<close>

record reputation_config =
  rc_staking_enabled :: bool
  rc_cross_chain_enabled :: bool
  rc_endorsements_enabled :: bool
  rc_min_rep_to_endorse :: u32
  rc_max_stakes_per_identity :: nat

definition default_reputation_config :: reputation_config where
  "default_reputation_config =
     \<lparr>rc_staking_enabled = True, rc_cross_chain_enabled = True, rc_endorsements_enabled = True, rc_min_rep_to_endorse = 100,
      rc_max_stakes_per_identity = 10\<rparr>"

datatype reputation_error =
    ReputationNotFound | StakingDisabled | TooManyStakes | StakeTooSmall | RE_StakeNotFound | NotStaker | StakeLocked | CrossChainDisabled
  | ImportAlreadyExists | ImportNotFound | EndorsementsDisabled | EndorserNotActive | CannotSelfEndorse | RE_InsufficientReputation
  | MaxEndorsementsReached | EndorsementNotFound | NotEndorser

record reputation_registry =
  rr_chain_id :: chain_id
  rr_reputations :: "(identity_id, reputation_profile) hmap"
  rr_stakes :: "(hash, reputation_stake) hmap"
  rr_stakes_by_staker :: "(account_id, hash list) hmap"
  rr_stakes_by_identity :: "(identity_id, hash list) hmap"
  rr_cross_chain_imports :: "(identity_id \<times> chain_id, cross_chain_reputation) hmap"
  rr_endorsements :: "(hash, endorsement) hmap"
  rr_endorsements_given :: "(identity_id, hash list) hmap"
  rr_endorsements_received :: "(identity_id, (reputation_domain, hash list) hmap) hmap"
  rr_total_staked :: balance
  rr_events :: "reputation_event list"
  rr_config :: reputation_config

type_synonym 'a rep_action = "(reputation_registry, reputation_error, 'a) action"

definition reputation_registry_with_config :: "chain_id \<Rightarrow> reputation_config \<Rightarrow> reputation_registry" where
  "reputation_registry_with_config cid cfg =
     \<lparr>rr_chain_id = cid, rr_reputations = [], rr_stakes = [], rr_stakes_by_staker = [], rr_stakes_by_identity = [], rr_cross_chain_imports = [],
      rr_endorsements = [], rr_endorsements_given = [], rr_endorsements_received = [], rr_total_staked = 0, rr_events = [], rr_config = cfg\<rparr>"

definition reputation_registry_new :: "chain_id \<Rightarrow> reputation_registry" where
  "reputation_registry_new cid = reputation_registry_with_config cid default_reputation_config"

definition rr_emit :: "reputation_event \<Rightarrow> reputation_registry \<Rightarrow> reputation_registry" where
  "rr_emit ev R = R\<lparr>rr_events := rr_events R @ [ev]\<rparr>"

definition entry_or_default :: "('k, 'v list) hmap \<Rightarrow> 'k \<Rightarrow> 'v list" where
  "entry_or_default m k = (case hm_get m k of Some xs \<Rightarrow> xs | None \<Rightarrow> [])"

definition append_entry :: "'k \<Rightarrow> 'v \<Rightarrow> ('k, 'v list) hmap \<Rightarrow> ('k, 'v list) hmap" where
  "append_entry k v m = hm_insert k (entry_or_default m k @ [v]) m"

definition initialize_reputation :: "identity_id \<Rightarrow> block_number \<Rightarrow> reputation_registry \<Rightarrow> reputation_registry" where
  "initialize_reputation i b R =
     (if \<not> hm_contains (rr_reputations R) i then R\<lparr>rr_reputations := hm_insert i (profile_new i b) (rr_reputations R)\<rparr> else R)"

definition get_domain_score :: "identity_id \<Rightarrow> reputation_domain \<Rightarrow> reputation_registry \<Rightarrow> u32" where
  "get_domain_score i d R = (case hm_get (rr_reputations R) i of Some r \<Rightarrow> profile_domain d r | None \<Rightarrow> 0)"

definition get_stake_multiplier :: "identity_id \<Rightarrow> reputation_registry \<Rightarrow> u32" where
  "get_stake_multiplier i R =
     (case hm_get (rr_stakes_by_identity R) i of
        None \<Rightarrow> 100
      | Some ids \<Rightarrow>
          let extras = map (\<lambda>s. sk_multiplier s - 100) (filter (\<lambda>s. \<not> sk_slashed s) (List.map_filter (hm_get (rr_stakes R)) ids))
          in if extras = [] then 100 else 100 + Max (set extras))"

definition get_total_staked :: "identity_id \<Rightarrow> reputation_registry \<Rightarrow> balance" where
  "get_total_staked i R =
     (case hm_get (rr_stakes_by_identity R) i of
        None \<Rightarrow> 0
      | Some ids \<Rightarrow> sum_list (map sk_amount (List.map_filter (hm_get (rr_stakes R)) ids)))"

definition get_effective_score :: "identity_id \<Rightarrow> reputation_registry \<Rightarrow> u32" where
  "get_effective_score i R =
     (let base_score = (case hm_get (rr_reputations R) i of Some r \<Rightarrow> mr_overall_score r | None \<Rightarrow> 0);
          cross_chain_bonus = sum_list (map (\<lambda>(_, x). import_effective_score x) (filter (\<lambda>((k, _), _). k = i) (rr_cross_chain_imports R)));
          combined = base_score + cross_chain_bonus div 2
      in ucast (ucast combined * ucast (get_stake_multiplier i R) div 100 :: u64))"

definition change_profile ::
  "identity_id \<Rightarrow> reputation_domain \<Rightarrow> (reputation_profile \<Rightarrow> reputation_profile) \<Rightarrow> string \<Rightarrow> unit rep_action" where
  "change_profile i d f reason R =
     (case hm_get (rr_reputations R) i of
        None \<Rightarrow> (Err ReputationNotFound, R)
      | Some r \<Rightarrow>
          (Ok (), rr_emit (DomainReputationChanged i d (profile_domain d r) (profile_domain d (f r)) reason)
             (R\<lparr>rr_reputations := hm_insert i (f r) (rr_reputations R)\<rparr>)))"

definition add_reputation :: "identity_id \<Rightarrow> reputation_domain \<Rightarrow> u32 \<Rightarrow> string \<Rightarrow> block_number \<Rightarrow> unit rep_action" where
  "add_reputation i d points reason b = change_profile i d (add_domain_rep d points b) reason"

definition slash_domain_reputation :: "identity_id \<Rightarrow> reputation_domain \<Rightarrow> u8 \<Rightarrow> string \<Rightarrow> unit rep_action" where
  "slash_domain_reputation i d penalty_percent reason = change_profile i d (slash_domain d penalty_percent) reason"

definition registry_apply_decay :: "block_number \<Rightarrow> reputation_registry \<Rightarrow> reputation_registry" where
  "registry_apply_decay b R = R\<lparr>rr_reputations := map (\<lambda>(i, r). (i, profile_apply_decay b r)) (rr_reputations R)\<rparr>"

definition create_stake ::
  "libm \<Rightarrow> crypto \<Rightarrow> account_id \<Rightarrow> identity_id \<Rightarrow> balance \<Rightarrow> reputation_domain option \<Rightarrow> block_number \<Rightarrow> hash rep_action" where
  "create_stake L K staker i amount dm b R =
     (if \<not> rc_staking_enabled (rr_config R) then (Err StakingDisabled, R)
      else if rc_max_stakes_per_identity (rr_config R) \<le> length (entry_or_default (rr_stakes_by_identity R) i) then (Err TooManyStakes, R)
      else case reputation_stake_new L K staker i amount dm b of
          None \<Rightarrow> (Err StakeTooSmall, R)
        | Some s \<Rightarrow>
            (Ok (sk_stake_id s), rr_emit (StakeCreated (sk_stake_id s) staker i amount (sk_multiplier s))
               (R\<lparr>rr_stakes := hm_insert (sk_stake_id s) s (rr_stakes R),
                  rr_stakes_by_staker := append_entry staker (sk_stake_id s) (rr_stakes_by_staker R),
                  rr_stakes_by_identity := append_entry i (sk_stake_id s) (rr_stakes_by_identity R),
                  rr_total_staked := rr_total_staked R + amount\<rparr>)))"

definition retain_entry :: "'k \<Rightarrow> 'v \<Rightarrow> ('k, 'v list) hmap \<Rightarrow> ('k, 'v list) hmap" where
  "retain_entry k v m = (case hm_get m k of Some xs \<Rightarrow> hm_insert k (filter (\<lambda>x. x \<noteq> v) xs) m | None \<Rightarrow> m)"

definition withdraw_stake :: "hash \<Rightarrow> account_id \<Rightarrow> block_number \<Rightarrow> balance rep_action" where
  "withdraw_stake sid withdrawer b R =
     (case hm_get (rr_stakes R) sid of
        None \<Rightarrow> (Err RE_StakeNotFound, R)
      | Some s \<Rightarrow>
          if sk_staker s \<noteq> withdrawer then (Err NotStaker, R)
          else if \<not> stake_can_withdraw b s then (Err StakeLocked, R)
          else (Ok (sk_amount s), rr_emit (StakeWithdrawn sid (sk_amount s))
                  (R\<lparr>rr_stakes_by_staker := retain_entry (sk_staker s) sid (rr_stakes_by_staker R),
                     rr_stakes_by_identity := retain_entry (sk_identity_id s) sid (rr_stakes_by_identity R),
                     rr_stakes := hm_remove sid (rr_stakes R),
                     rr_total_staked := sat_sub (rr_total_staked R) (sk_amount s)\<rparr>)))"

definition slash_stake :: "hash \<Rightarrow> u8 \<Rightarrow> balance rep_action" where
  "slash_stake sid penalty_percent R =
     (case hm_get (rr_stakes R) sid of
        None \<Rightarrow> (Err RE_StakeNotFound, R)
      | Some s \<Rightarrow>
          let (penalty, s') = stake_slash penalty_percent s
          in (Ok penalty, rr_emit (StakeSlashed sid penalty)
                (R\<lparr>rr_stakes := hm_insert sid s' (rr_stakes R), rr_total_staked := sat_sub (rr_total_staked R) penalty\<rparr>)))"

definition import_reputation ::
  "chain_id \<Rightarrow> identity_id \<Rightarrow> identity_id \<Rightarrow> u32 \<Rightarrow> (reputation_domain, u32) hmap \<Rightarrow> hash \<Rightarrow> block_number \<Rightarrow> unit rep_action" where
  "import_reputation source_chain source_identity target original_score domain_scores proof_hash b R =
     (if \<not> rc_cross_chain_enabled (rr_config R) then (Err CrossChainDisabled, R)
      else if hm_contains (rr_cross_chain_imports R) (target, source_chain) then (Err ImportAlreadyExists, R)
      else
        let x = cross_chain_new source_chain source_identity (rr_chain_id R) original_score domain_scores proof_hash b
        in (Ok (), rr_emit (ReputationImported source_chain (rr_chain_id R) target (xr_imported_score x))
              (R\<lparr>rr_cross_chain_imports := hm_insert (target, source_chain) x (rr_cross_chain_imports R)\<rparr>)))"

definition verify_import :: "identity_id \<Rightarrow> chain_id \<Rightarrow> unit rep_action" where
  "verify_import i source_chain R =
     (case hm_get (rr_cross_chain_imports R) (i, source_chain) of
        None \<Rightarrow> (Err ImportNotFound, R)
      | Some x \<Rightarrow> (Ok (), R\<lparr>rr_cross_chain_imports := hm_insert (i, source_chain) (x\<lparr>xr_verified := True\<rparr>) (rr_cross_chain_imports R)\<rparr>))"

definition received_in :: "reputation_registry \<Rightarrow> identity_id \<Rightarrow> reputation_domain \<Rightarrow> hash list" where
  "received_in R i d = (case hm_get (rr_endorsements_received R) i of Some m \<Rightarrow> entry_or_default m d | None \<Rightarrow> [])"

definition give_endorsement ::
  "crypto \<Rightarrow> account_id \<Rightarrow> identity_id \<Rightarrow> identity_id \<Rightarrow> reputation_domain \<Rightarrow> string option \<Rightarrow> block_number \<Rightarrow> identity_registry \<Rightarrow> hash rep_action" where
  "give_endorsement K endorser endorser_identity target d ctxt b I R =
     (if \<not> rc_endorsements_enabled (rr_config R) then (Err EndorsementsDisabled, R)
      else if \<not> owner_is_active endorser b I then (Err EndorserNotActive, R)
      else if endorser_identity = target then (Err CannotSelfEndorse, R)
      else
        let endorser_rep = get_effective_score endorser_identity R
        in if endorser_rep < rc_min_rep_to_endorse (rr_config R) then (Err RE_InsufficientReputation, R)
           else if MAX_ENDORSEMENTS_PER_DOMAIN \<le> length (received_in R target d) then (Err MaxEndorsementsReached, R)
           else
             let e = endorsement_new K endorser endorser_identity target d endorser_rep ctxt b; eid = en_endorsement_id e;
                 per_domain = (case hm_get (rr_endorsements_received R) target of Some m \<Rightarrow> m | None \<Rightarrow> []);
                 R1 = R\<lparr>rr_endorsements := hm_insert eid e (rr_endorsements R),
                        rr_endorsements_given := append_entry endorser_identity eid (rr_endorsements_given R),
                        rr_endorsements_received := hm_insert target (append_entry d eid per_domain) (rr_endorsements_received R)\<rparr>;
                 R2 = (case hm_get (rr_reputations R1) target of
                         Some r \<Rightarrow> R1\<lparr>rr_reputations := hm_insert target (snd (profile_add_endorsement d endorser_rep r)) (rr_reputations R1)\<rparr>
                       | None \<Rightarrow> R1)
             in (Ok eid, rr_emit (EndorsementGiven endorser target d (en_weight e)) R2))"

definition revoke_endorsement :: "hash \<Rightarrow> account_id \<Rightarrow> unit rep_action" where
  "revoke_endorsement eid revoker R =
     (case hm_get (rr_endorsements R) eid of
        None \<Rightarrow> (Err EndorsementNotFound, R)
      | Some e \<Rightarrow>
          if en_endorser e \<noteq> revoker then (Err NotEndorser, R)
          else (Ok (), rr_emit (EndorsementRevoked eid) (R\<lparr>rr_endorsements := hm_insert eid (e\<lparr>en_active := False\<rparr>) (rr_endorsements R)\<rparr>)))"

definition active_endorsements :: "reputation_registry \<Rightarrow> hash list \<Rightarrow> endorsement list" where
  "active_endorsements R ids = filter en_active (List.map_filter (hm_get (rr_endorsements R)) ids)"

definition get_endorsements_given :: "identity_id \<Rightarrow> reputation_registry \<Rightarrow> endorsement list" where
  "get_endorsements_given i R = active_endorsements R (entry_or_default (rr_endorsements_given R) i)"

definition get_endorsements_received :: "identity_id \<Rightarrow> reputation_domain \<Rightarrow> reputation_registry \<Rightarrow> endorsement list" where
  "get_endorsements_received i d R = active_endorsements R (received_in R i d)"

definition count_endorsements :: "identity_id \<Rightarrow> reputation_registry \<Rightarrow> u32" where
  "count_endorsements i R =
     (case hm_get (rr_endorsements_received R) i of
        None \<Rightarrow> 0
      | Some m \<Rightarrow> of_nat (length (active_endorsements R (concat (map snd m)))))"

definition rr_clear_events :: "reputation_registry \<Rightarrow> reputation_registry" where
  "rr_clear_events R = R\<lparr>rr_events := []\<rparr>"

section \<open>Scores stay within their range\<close>

definition profile_ok :: "reputation_profile \<Rightarrow> bool" where
  "profile_ok r \<longleftrightarrow>
     map fst (mr_domains r) = reputation_domains \<and> (\<forall>(d, x) \<in> set (mr_domains r). dr_score x \<le> MAX_DOMAIN_SCORE) \<and> mr_overall_score r \<le> MAX_DOMAIN_SCORE"

lemma six_domains:
  assumes "map fst m = reputation_domains"
  obtains a b c d e f where "m = [(RD_Governance, a), (RD_Technical, b), (RD_Community, c), (RD_Arbitration, d), (RD_Economic, e), (RD_Validation, f)]"
  using assms by (auto simp: reputation_domains_def map_eq_Cons_conv)

lemma unat_sum_list_fits:
  "sum_list (map unat ws) < 2 ^ LENGTH('a) \<Longrightarrow> unat (sum_list ws :: 'a::len word) = sum_list (map unat ws)"
proof (induction ws)
  case (Cons w ws)
  then have "unat (sum_list ws) = sum_list (map unat ws)" by simp
  then show ?case using Cons.prems by (simp add: unat_add_fits)
qed simp

lemma weighted_average:
  assumes "map fst m = reputation_domains" and "\<forall>(d, x) \<in> set m. dr_score x \<le> MAX_DOMAIN_SCORE"
  defines "w \<equiv> sum_list (map (\<lambda>(d, x). ucast (dr_score x) * ucast (domain_weight d)) m) :: u64"
  shows "sum_list (map (\<lambda>(d, _). ucast (domain_weight d)) m) = (100 :: u64)" and "unat (w div 100) \<le> 10000"
proof -
  obtain a b c d e f where m: "m = [(RD_Governance, a), (RD_Technical, b), (RD_Community, c), (RD_Arbitration, d), (RD_Economic, e), (RD_Validation, f)]"
    using assms(1) by (rule six_domains)
  show "sum_list (map (\<lambda>(d, _). ucast (domain_weight d)) m) = (100 :: u64)" by (simp add: m)
  have le: "unat (dr_score x) \<le> 10000" if "(k, x) \<in> set m" for k x
    using assms(2) that by (auto simp: const_defs word_le_nat_alt)
  have u32: "unat v < 2 ^ 32" for v :: u32 using unsigned_less [of v] by simp
  have product: "unat (ucast (dr_score x) * ucast (domain_weight k) :: u64) = unat (dr_score x) * unat (domain_weight k)" for k x
  proof -
    have "unat (dr_score x) * unat (domain_weight k) < 2 ^ 64"
      using mult_strict_mono [of "unat (dr_score x)" "2 ^ 32" "unat (domain_weight k)" "2 ^ 32"] u32 [of "dr_score x"] u32 [of "domain_weight k"]
      by simp
    then show ?thesis using unat_mult_fits [of "ucast (dr_score x) :: u64" "ucast (domain_weight k)"] by simp
  qed
  let ?t = "sum_list (map (\<lambda>y. unat (dr_score (snd y)) * unat (domain_weight (fst y))) m)"
  have "?t \<le> 1000000"
    using le [of RD_Governance a] le [of RD_Technical b] le [of RD_Community c] le [of RD_Arbitration d] le [of RD_Economic e] le [of RD_Validation f]
    by (simp add: m)
  then have "unat w = ?t"
    using unat_sum_list_fits [of "map (\<lambda>(d, x). ucast (dr_score x) * ucast (domain_weight d) :: u64) m"]
    by (simp add: w_def comp_def case_prod_beta product)
  with \<open>?t \<le> 1000000\<close> show "unat (w div 100) \<le> 10000" by (simp add: unat_div)
qed

lemma recalculate_ok:
  assumes "map fst (mr_domains r) = reputation_domains" and "\<forall>(d, x) \<in> set (mr_domains r). dr_score x \<le> MAX_DOMAIN_SCORE"
  shows "profile_ok (recalculate_overall r)"
proof -
  let ?w = "sum_list (map (\<lambda>(d, x). ucast (dr_score x) * ucast (domain_weight d)) (mr_domains r)) :: u64"
  have "unat (?w div 100) \<le> 10000" by (rule weighted_average(2) [OF assms])
  moreover have "unat (ucast v :: u32) \<le> unat v" for v :: u64 by (simp add: unsigned_ucast_eq unsigned_take_bit_eq)
  ultimately have "unat (ucast (?w div 100) :: u32) \<le> 10000" by (rule order_trans [rotated])
  then have "(ucast (?w div 100) :: u32) \<le> 10000" by (simp add: word_le_nat_alt)
  then show ?thesis using assms weighted_average(1) [OF assms]
    by (simp add: profile_ok_def recalculate_overall_def Let_def const_defs)
qed

lemma change_domain_ok:
  assumes "profile_ok r" and "\<And>x. dr_score x \<le> MAX_DOMAIN_SCORE \<Longrightarrow> dr_score (f x) \<le> MAX_DOMAIN_SCORE"
  shows "map fst (mr_domains (change_domain d f r)) = reputation_domains"
    and "\<forall>(e, x) \<in> set (mr_domains (change_domain d f r)). dr_score x \<le> MAX_DOMAIN_SCORE"
proof -
  have keys: "map fst (mr_domains r) = reputation_domains" and scores: "\<forall>(e, x) \<in> set (mr_domains r). dr_score x \<le> MAX_DOMAIN_SCORE"
    using assms(1) by (simp_all add: profile_ok_def)
  have listed: "d \<in> set reputation_domains" by (cases d) (simp_all add: reputation_domains_def)
  show "map fst (mr_domains (change_domain d f r)) = reputation_domains"
    using keys listed by (auto simp: change_domain_def update_keys split: option.split)
  have sub: "set (hm_insert d y m) \<subseteq> insert (d, y) (set m)" for y and m :: "(reputation_domain \<times> domain_reputation) list"
    by (induction m) auto
  show "\<forall>(e, x) \<in> set (mr_domains (change_domain d f r)). dr_score x \<le> MAX_DOMAIN_SCORE"
  proof (cases "hm_get (mr_domains r) d")
    case (Some x)
    then have "dr_score (f x) \<le> MAX_DOMAIN_SCORE" using scores map_of_SomeD [OF Some] assms(2) by auto
    then have "\<forall>(e, y) \<in> insert (d, f x) (set (mr_domains r)). dr_score y \<le> MAX_DOMAIN_SCORE" using scores by simp
    then show ?thesis using sub [of "f x" "mr_domains r"] Some by (auto simp: change_domain_def)
  qed (simp add: change_domain_def scores)
qed

lemma domain_scores [simp]:
  "dr_score (domain_add p b x) \<le> MAX_DOMAIN_SCORE" "dr_score (domain_add_endorsement w x) \<le> MAX_DOMAIN_SCORE"
  by (simp_all add: domain_add_def domain_add_endorsement_def)

lemma domain_scores_lower:
  "dr_score x \<le> MAX_DOMAIN_SCORE \<Longrightarrow> dr_score (domain_slash pct x) \<le> MAX_DOMAIN_SCORE"
  "dr_score x \<le> MAX_DOMAIN_SCORE \<Longrightarrow> dr_score (domain_apply_decay b rate x) \<le> MAX_DOMAIN_SCORE"
  by (auto simp: domain_slash_def domain_apply_decay_def Let_def intro: order_trans [OF sat_sub_le])

lemma profile_ops_ok:
  assumes "profile_ok r"
  shows "profile_ok (add_domain_rep d p b r)" and "profile_ok (slash_domain d pct r)" and "profile_ok (profile_apply_decay b r)"
    and "profile_ok (snd (profile_add_endorsement d rep r))"
proof -
  show "profile_ok (add_domain_rep d p b r)"
    unfolding add_domain_rep_def using change_domain_ok [OF assms, of "domain_add p b" d] by (intro recalculate_ok) simp_all
  show "profile_ok (slash_domain d pct r)"
    unfolding slash_domain_def using change_domain_ok [OF assms, of "domain_slash pct" d] domain_scores_lower by (intro recalculate_ok) simp_all
  show "profile_ok (snd (profile_add_endorsement d rep r))"
    using assms change_domain_ok [OF assms, of "domain_add_endorsement (endorsement_weight rep)" d]
    by (auto simp: profile_add_endorsement_def intro!: recalculate_ok split: option.split)
  show "profile_ok (profile_apply_decay b r)"
    unfolding profile_apply_decay_def using assms domain_scores_lower(2)
    by (intro recalculate_ok) (auto simp: profile_ok_def comp_def case_prod_beta)
qed

lemma profile_new_ok: "profile_ok (profile_new i b)"
  by (auto simp: profile_ok_def profile_new_def domain_reputation_new_def const_defs comp_def)

definition profiles_ok :: "reputation_registry \<Rightarrow> bool" where
  "profiles_ok R \<longleftrightarrow> (\<forall>i r. hm_get (rr_reputations R) i = Some r \<longrightarrow> profile_ok r)"

text \<open>
  Everything that can happen to a registry while the total stake fits 128 bits.  The number \<open>lost\<close> adds up
  the stakes that a later stake with the same identifier has replaced, and \<open>over\<close> what slashings of more than
  100 per cent have taken beyond the stake they hit.
\<close>

definition replaced :: "hash \<Rightarrow> reputation_registry \<Rightarrow> nat" where
  "replaced sid R = (case hm_get (rr_stakes R) sid of Some s \<Rightarrow> unat (sk_amount s) | None \<Rightarrow> 0)"

definition excess :: "(reputation_error, balance) result \<Rightarrow> hash \<Rightarrow> reputation_registry \<Rightarrow> nat" where
  "excess r sid R = (case r of Inr penalty \<Rightarrow> unat penalty - replaced sid R | Inl _ \<Rightarrow> 0)"

inductive rr_run :: "libm \<Rightarrow> crypto \<Rightarrow> nat \<Rightarrow> nat \<Rightarrow> reputation_registry \<Rightarrow> bool" for L K where
  start: "rr_run L K 0 0 (reputation_registry_with_config cid cfg)"
| initialize: "rr_run L K lost over R \<Longrightarrow> rr_run L K lost over (initialize_reputation i b R)"
| add: "rr_run L K lost over R \<Longrightarrow> rr_run L K lost over (snd (add_reputation i d p reason b R))"
| slash: "rr_run L K lost over R \<Longrightarrow> rr_run L K lost over (snd (slash_domain_reputation i d pct reason R))"
| decay: "rr_run L K lost over R \<Longrightarrow> rr_run L K lost over (registry_apply_decay b R)"
| stake: "rr_run L K lost over R \<Longrightarrow> unat (rr_total_staked R) + unat amount < 2 ^ 128 \<Longrightarrow> create_stake L K a i amount dm b R = (r, R') \<Longrightarrow>
    rr_run L K (lost + (if is_ok r then replaced (stake_compute_id K a i b) R else 0)) over R'"
| withdraw: "rr_run L K lost over R \<Longrightarrow> rr_run L K lost over (snd (withdraw_stake sid a b R))"
| slash_stake: "rr_run L K lost over R \<Longrightarrow> slash_stake sid pct R = (r, R') \<Longrightarrow> rr_run L K lost (over + excess r sid R) R'"
| imported: "rr_run L K lost over R \<Longrightarrow> rr_run L K lost over (snd (import_reputation src si ti sc ds ph b R))"
| verify: "rr_run L K lost over R \<Longrightarrow> rr_run L K lost over (snd (verify_import i src R))"
| endorse: "rr_run L K lost over R \<Longrightarrow> rr_run L K lost over (snd (give_endorsement K a ei ti d ctxt b I R))"
| revoke: "rr_run L K lost over R \<Longrightarrow> rr_run L K lost over (snd (revoke_endorsement eid a R))"
| clear: "rr_run L K lost over R \<Longrightarrow> rr_run L K lost over (rr_clear_events R)"

definition staked_sum :: "reputation_registry \<Rightarrow> nat" where
  "staked_sum R = hm.total (\<lambda>s. unat (sk_amount s)) (rr_stakes R)"

definition stakes_ok :: "nat \<Rightarrow> nat \<Rightarrow> reputation_registry \<Rightarrow> bool" where
  "stakes_ok lost over R \<longleftrightarrow>
     hm_inv (rr_stakes R) \<and> unat (rr_total_staked R) \<le> staked_sum R + lost \<and> staked_sum R + lost \<le> unat (rr_total_staked R) + over"

lemma rr_emit_simps [simp]:
  "rr_reputations (rr_emit ev R) = rr_reputations R" "rr_stakes (rr_emit ev R) = rr_stakes R" "rr_total_staked (rr_emit ev R) = rr_total_staked R"
  by (simp_all add: rr_emit_def)

lemma stakes_ok_cong:
  "rr_stakes R' = rr_stakes R \<Longrightarrow> rr_total_staked R' = rr_total_staked R \<Longrightarrow> stakes_ok lost over R' = stakes_ok lost over R"
  by (simp add: stakes_ok_def staked_sum_def)

lemma stakes_ok_emit [simp]: "stakes_ok lost over (rr_emit ev R) = stakes_ok lost over R"
  by (rule stakes_ok_cong) simp_all

lemma staked_put:
  assumes "hm_inv (rr_stakes R)"
  shows "hm.total (\<lambda>s. unat (sk_amount s)) (hm_insert sid s (rr_stakes R)) + replaced sid R = staked_sum R + unat (sk_amount s)"
    and "replaced sid R \<le> staked_sum R"
proof -
  show "hm.total (\<lambda>s. unat (sk_amount s)) (hm_insert sid s (rr_stakes R)) + replaced sid R = staked_sum R + unat (sk_amount s)"
    using hm.total_put [OF assms, of "\<lambda>s. unat (sk_amount s)" sid s]
    by (simp add: staked_sum_def replaced_def split: option.split)
  show "replaced sid R \<le> staked_sum R"
    using hm.get_le_total [OF assms, of sid _ "\<lambda>s. unat (sk_amount s)"] by (auto simp: staked_sum_def replaced_def split: option.split)
qed

lemma slash_penalty: "unat (sk_amount (snd (stake_slash pct s))) = unat (sk_amount s) - unat (fst (stake_slash pct s))"
  by (simp add: stake_slash_def Let_def unat_sat_sub)

lemma create_stake_ok:
  assumes ok: "stakes_ok lost over R" and fits: "unat (rr_total_staked R) + unat amount < 2 ^ 128" and run: "create_stake L K a i amount dm b R = (r, R')"
  shows "stakes_ok (lost + (if is_ok r then replaced (stake_compute_id K a i b) R else 0)) over R'"
proof (cases "is_ok r")
  case True
  then obtain s where new: "reputation_stake_new L K a i amount dm b = Some s"
    using run by (auto simp: create_stake_def split: if_splits option.splits)
  then have s: "sk_stake_id s = stake_compute_id K a i b" "sk_amount s = amount"
    by (auto simp: reputation_stake_new_def split: if_splits)
  have R': "rr_stakes R' = hm_insert (sk_stake_id s) s (rr_stakes R)" "rr_total_staked R' = rr_total_staked R + amount"
    using run True new by (auto simp: create_stake_def split: if_splits)
  show ?thesis
    using True ok staked_put(1) [of R "sk_stake_id s" s] staked_put(2) [of R "sk_stake_id s"] R' s unat_add_fits [of "rr_total_staked R" amount] fits
    by (auto simp: stakes_ok_def staked_sum_def hm.inv_put)
next
  case False
  then show ?thesis using run ok by (auto simp: create_stake_def split: if_splits option.splits)
qed

lemma withdraw_stake_ok: "stakes_ok lost over R \<Longrightarrow> stakes_ok lost over (snd (withdraw_stake sid a b R))"
proof (cases "hm_get (rr_stakes R) sid")
  case (Some s)
  assume ok: "stakes_ok lost over R"
  have "hm.total (\<lambda>s. unat (sk_amount s)) (hm_remove sid (rr_stakes R)) + unat (sk_amount s) = staked_sum R"
    using hm.total_del [of "rr_stakes R" "\<lambda>s. unat (sk_amount s)" sid] ok Some by (simp add: stakes_ok_def staked_sum_def)
  then have "stakes_ok lost over (R\<lparr>rr_stakes_by_staker := A, rr_stakes_by_identity := B, rr_stakes := hm_remove sid (rr_stakes R),
      rr_total_staked := sat_sub (rr_total_staked R) (sk_amount s)\<rparr>)" for A B
    using ok by (auto simp: stakes_ok_def staked_sum_def unat_sat_sub hm.inv_del)
  then show ?thesis using Some ok by (simp add: withdraw_stake_def)
qed (simp add: withdraw_stake_def)

lemma slash_stake_ok:
  assumes ok: "stakes_ok lost over R" and run: "slash_stake sid pct R = (r, R')"
  shows "stakes_ok lost (over + excess r sid R) R'"
proof (cases "hm_get (rr_stakes R) sid")
  case (Some s)
  obtain p s' where ps: "stake_slash pct s = (p, s')" by fastforce
  then have amount: "unat (sk_amount s') = unat (sk_amount s) - unat p" using slash_penalty [of pct s] by simp
  have R': "r = Ok p" "rr_stakes R' = hm_insert sid s' (rr_stakes R)" "rr_total_staked R' = sat_sub (rr_total_staked R) p"
    using run Some ps by (auto simp: slash_stake_def)
  have old: "replaced sid R = unat (sk_amount s)" by (simp add: replaced_def Some)
  show ?thesis
    using ok staked_put(1) [of R sid s'] staked_put(2) [of R sid] R' old amount by (auto simp: stakes_ok_def staked_sum_def unat_sat_sub hm.inv_put excess_def)
qed (use assms in \<open>auto simp: slash_stake_def excess_def\<close>)

lemma run_stakes_ok: "rr_run L K lost over R \<Longrightarrow> stakes_ok lost over R"
proof (induction rule: rr_run.induct)
  case (start cid cfg)
  show ?case by (simp add: stakes_ok_def staked_sum_def reputation_registry_with_config_def hm.total_def)
next
  case (stake lost over R amount a i dm b r R')
  then show ?case by (blast intro: create_stake_ok)
next
  case (slash_stake lost over R sid pct r R')
  then show ?case by (blast intro: slash_stake_ok)
next
  case (endorse lost over R a ei ti d ctxt b I)
  then show ?case
    by (simp add: give_endorsement_def Let_def) (auto simp: stakes_ok_def staked_sum_def split: option.split)
qed (simp_all add: withdraw_stake_ok, simp_all add: initialize_reputation_def add_reputation_def slash_domain_reputation_def change_profile_def
      registry_apply_decay_def import_reputation_def verify_import_def revoke_endorsement_def rr_clear_events_def stakes_ok_def staked_sum_def Let_def
      split: option.split)

lemma profiles_put: "profiles_ok R \<Longrightarrow> profile_ok r \<Longrightarrow> rr_reputations R' = hm_insert i r (rr_reputations R) \<Longrightarrow> profiles_ok R'"
  by (simp add: profiles_ok_def update_conv')

lemma run_profiles_ok: "rr_run L K lost over R \<Longrightarrow> profiles_ok R"
proof (induction rule: rr_run.induct)
  case (add lost over R i d p reason b)
  then show ?case
    by (auto simp: add_reputation_def change_profile_def profiles_ok_def update_conv' profile_ops_ok split: option.split)
next
  case (slash lost over R i d pct reason)
  then show ?case
    by (auto simp: slash_domain_reputation_def change_profile_def profiles_ok_def update_conv' profile_ops_ok split: option.split)
next
  case (decay lost over R b)
  then show ?case by (auto simp: registry_apply_decay_def profiles_ok_def map_of_map profile_ops_ok)
next
  case (endorse lost over R a ei ti d ctxt b I)
  have "profiles_ok (case hm_get (rr_reputations R1) ti of
      Some r \<Rightarrow> R1\<lparr>rr_reputations := hm_insert ti (snd (profile_add_endorsement d rep r)) (rr_reputations R1)\<rparr> | None \<Rightarrow> R1)"
    if "rr_reputations R1 = rr_reputations R" for R1 rep
    using endorse.IH that by (auto simp: profiles_ok_def update_conv' profile_ops_ok split: option.split)
  moreover have "profiles_ok (rr_emit ev R') = profiles_ok R'" for ev R' by (simp add: profiles_ok_def)
  ultimately show ?case using endorse.IH by (simp add: give_endorsement_def Let_def)
next
  case (stake lost over R amount a i dm b r R')
  then have "rr_reputations R' = rr_reputations R" by (auto simp: create_stake_def split: if_splits option.splits)
  then show ?case using stake.IH by (simp add: profiles_ok_def)
next
  case (slash_stake lost over R sid pct r R')
  then have "rr_reputations R' = rr_reputations R" by (auto simp: slash_stake_def split: option.splits prod.splits)
  then show ?case using slash_stake.IH by (simp add: profiles_ok_def)
qed (simp_all add: reputation_registry_with_config_def initialize_reputation_def withdraw_stake_def import_reputation_def
      verify_import_def revoke_endorsement_def rr_clear_events_def profiles_ok_def update_conv' profile_new_ok Let_def split: option.split prod.split)

text \<open>
  C36: the books of the reputation registry.  After any history in which the total stays below 2^128, the
  recorded total stake is at most the sum of the stakes that exist and of those that were overwritten by a
  later stake with the same identifier (of the same account for the same identity in the same block), and it is exactly that sum
  unless a stake was slashed by more than 100 per cent, when it falls short by at most the excess.  A
  withdrawal pays exactly one stake to its staker, after its lock, and removes it, and without such
  excess the total goes down by what was paid.  Every domain score and every overall score lies between 0 and 10000.
\<close>

theorem reputation_books_exact:
  assumes "rr_run L K lost over R"
  defines "existing \<equiv> hm.total (\<lambda>s. unat (sk_amount s)) (rr_stakes R)"
  shows "unat (rr_total_staked R) \<le> existing + lost \<and> existing + lost \<le> unat (rr_total_staked R) + over
    \<and> (\<forall>sid a b x. fst (withdraw_stake sid a b R) = Ok x \<longrightarrow>
         (\<exists>s. hm_get (rr_stakes R) sid = Some s \<and> sk_staker s = a \<and> sk_amount s = x \<and> sk_locked_until s \<le> b)
         \<and> hm_get (rr_stakes (snd (withdraw_stake sid a b R))) sid = None
         \<and> (over = 0 \<longrightarrow> unat (rr_total_staked (snd (withdraw_stake sid a b R))) + unat x = unat (rr_total_staked R)))
    \<and> (\<forall>i r d. hm_get (rr_reputations R) i = Some r \<longrightarrow> mr_overall_score r \<le> 10000 \<and> profile_domain d r \<le> 10000)"
proof (intro conjI allI impI)
  have stakes: "stakes_ok lost over R" using assms(1) by (rule run_stakes_ok)
  then show "unat (rr_total_staked R) \<le> existing + lost" "existing + lost \<le> unat (rr_total_staked R) + over"
    by (simp_all add: stakes_ok_def staked_sum_def existing_def)
  fix sid a b x assume paid: "fst (withdraw_stake sid a b R) = Ok x"
  then obtain s where s: "hm_get (rr_stakes R) sid = Some s" "sk_amount s = x" "sk_staker s = a" "stake_can_withdraw b s"
    by (auto simp: withdraw_stake_def split: option.splits if_splits)
  then show "\<exists>s. hm_get (rr_stakes R) sid = Some s \<and> sk_staker s = a \<and> sk_amount s = x \<and> sk_locked_until s \<le> b"
    by (auto simp: stake_can_withdraw_def)
  show "hm_get (rr_stakes (snd (withdraw_stake sid a b R))) sid = None"
    using s by (simp add: withdraw_stake_def delete_conv')
  have "unat x \<le> staked_sum R" using staked_put(2) [of R sid] s stakes by (simp add: stakes_ok_def replaced_def)
  then show "unat (rr_total_staked (snd (withdraw_stake sid a b R))) + unat x = unat (rr_total_staked R)" if "over = 0"
    using s that stakes by (simp add: withdraw_stake_def stakes_ok_def unat_sat_sub)
next
  fix i r d assume "hm_get (rr_reputations R) i = Some r"
  then have "profile_ok r" using run_profiles_ok [OF assms(1)] by (simp add: profiles_ok_def)
  then show "mr_overall_score r \<le> 10000" "profile_domain d r \<le> 10000"
    using map_of_SomeD [of "mr_domains r" d] by (fastforce simp: profile_ok_def profile_domain_def const_defs split: option.split)+
qed

text \<open>Two stakes of 500 and 300 in one block: the second replaces the first, and the total is still 800.\<close>

definition two_stakes :: "libm \<Rightarrow> crypto \<Rightarrow> reputation_registry" where
  "two_stakes L K = snd (create_stake L K 1 2 300 None 0 (snd (create_stake L K 1 2 500 None 0 (reputation_registry_new 0))))"

lemma two_stakes_run: "rr_run L K 500 0 (two_stakes L K)"
proof -
  let ?R = "snd (create_stake L K 1 2 500 None 0 (reputation_registry_new 0))"
  have ok: "fst (create_stake L K 1 2 500 None 0 (reputation_registry_new 0)) = Ok (stake_compute_id K 1 2 0)"
    "rr_total_staked ?R = 500" "replaced (stake_compute_id K 1 2 0) ?R = 500"
    "fst (create_stake L K 1 2 300 None 0 ?R) = Ok (stake_compute_id K 1 2 0)"
    by (simp_all add: reputation_registry_new_def reputation_registry_with_config_def create_stake_def reputation_stake_new_def
        default_reputation_config_def const_defs replaced_def rr_emit_def append_entry_def entry_or_default_def)
  have "rr_run L K 0 0 ?R"
    using rr_run.stake [OF rr_run.start [of L K 0 default_reputation_config], of 500 1 2 None 0 "fst (create_stake L K 1 2 500 None 0 (reputation_registry_new 0))" ?R]
    by (simp add: reputation_registry_new_def reputation_registry_with_config_def replaced_def cong: if_cong)
  moreover have "create_stake L K 1 2 300 None 0 ?R = (Ok (stake_compute_id K 1 2 0), two_stakes L K)"
    using ok(4) by (simp add: two_stakes_def prod_eq_iff)
  ultimately show ?thesis
    using rr_run.stake [of L K 0 0 ?R 300 1 2 None 0 "Ok (stake_compute_id K 1 2 0)" "two_stakes L K"] ok by (simp add: is_ok_def)
qed

theorem reputation_books_exact_witness:
  "\<forall>L K. unat (rr_total_staked (two_stakes L K)) = hm.total (\<lambda>s. unat (sk_amount s)) (rr_stakes (two_stakes L K)) + 500"
proof (intro allI)
  fix L K
  show "unat (rr_total_staked (two_stakes L K)) = hm.total (\<lambda>s. unat (sk_amount s)) (rr_stakes (two_stakes L K)) + 500"
    using reputation_books_exact [OF two_stakes_run, of L K] by simp
qed

section \<open>Behaviour that differs from the documentation\<close>

text \<open>
  A stake that has been slashed, by however little, can never be withdrawn: what is left of it stays
  in the registry.
\<close>

lemma slashed_stake_is_lost:
  assumes "hm_get (rr_stakes R) sid = Some s" and "\<not> sk_slashed s"
  shows "\<not> is_ok (fst (withdraw_stake sid a b (snd (slash_stake sid pct R))))"
  using assms by (simp add: slash_stake_def stake_slash_def withdraw_stake_def stake_can_withdraw_def Let_def update_conv' is_ok_def)

text \<open>
  Two stakes of one account for one identity in one block have the same identifier: the second
  replaces the first in the map, while the total counts both.
\<close>

lemma same_block_stake_is_lost:
  assumes "hm_get (rr_stakes R) (stake_compute_id K a i b) = Some s"
    and "fst (create_stake L K a i amount dm b R) = Ok sid"
  shows "sid = stake_compute_id K a i b"
    and "map_option sk_amount (hm_get (rr_stakes (snd (create_stake L K a i amount dm b R))) sid) = Some amount"
    and "rr_total_staked (snd (create_stake L K a i amount dm b R)) = rr_total_staked R + amount"
  using assms by (auto simp: create_stake_def reputation_stake_new_def update_conv' rr_emit_def split: if_splits)

text \<open>
  Decay does not move the time of the last activity: a score of 1000 that has been idle for ten weeks
  loses 200 the first time decay is applied and 160 more when it is applied again in the same block.
\<close>

lemma decay_applied_twice:
  "dr_score (domain_apply_decay 1008000 2 (domain_reputation_new\<lparr>dr_score := 1000\<rparr>)) = 800"
  "dr_score (domain_apply_decay 1008000 2 (domain_apply_decay 1008000 2 (domain_reputation_new\<lparr>dr_score := 1000\<rparr>))) = 640"
  by (simp_all add: domain_apply_decay_def domain_reputation_new_def const_defs Let_def sat_mul_def sat_sub_def)

text \<open>
  The endorser's identity is an argument that nobody compares with the endorser: any active account
  can endorse with the reputation of someone else's identity.
\<close>

lemma endorsement_with_foreign_identity:
  assumes "rc_endorsements_enabled (rr_config R)" and "owner_is_active a b I" and "other \<noteq> target"
    and "rc_min_rep_to_endorse (rr_config R) \<le> get_effective_score other R" and "received_in R target d = []"
  shows "is_ok (fst (give_endorsement K a other target d None b I R))"
  using assms by (simp add: give_endorsement_def Let_def is_ok_def const_defs)

end
