(* ===== verification/Kratos_Protocol.thy ===== *)
theory Kratos_Protocol
  imports Kratos_Types Kratos_Maps
begin

text \<open>
  Protocol evolution (\<^verbatim>\<open>types/protocol.rs\<close>, \<^verbatim>\<open>contracts/meta_governance.rs\<close>): the
  protocol parameters with their constitutional bounds, changes to them, and the contract through which
  upgrade proposals are signalled, voted on, delayed and executed.
\<close>

section \<open>Constitutional bounds\<close>

definition MIN_INFLATION_RATE :: u8 where [const_defs]: "MIN_INFLATION_RATE = 0"
definition MAX_INFLATION_RATE :: u8 where [const_defs]: "MAX_INFLATION_RATE = 5"
definition MIN_FEE_BURN_RATE :: u8 where [const_defs]: "MIN_FEE_BURN_RATE = 0"
definition MAX_FEE_BURN_RATE :: u8 where [const_defs]: "MAX_FEE_BURN_RATE = 100"
definition MIN_VALIDATORS :: u32 where [const_defs]: "MIN_VALIDATORS = 50"
definition MAX_VALIDATORS :: u32 where [const_defs]: "MAX_VALIDATORS = 101"
definition MIN_STANDARD_TIMELOCK :: block_number where [const_defs]: "MIN_STANDARD_TIMELOCK = 14400"
definition MAX_STANDARD_TIMELOCK :: block_number where [const_defs]: "MAX_STANDARD_TIMELOCK = 432000"
definition MIN_EXIT_TIMELOCK :: block_number where [const_defs]: "MIN_EXIT_TIMELOCK = 100800"
definition MAX_EXIT_TIMELOCK :: block_number where [const_defs]: "MAX_EXIT_TIMELOCK = 1296000"
definition MIN_QUORUM_BOUND :: u8 where [const_defs]: "MIN_QUORUM_BOUND = 10"
definition MAX_QUORUM_BOUND :: u8 where [const_defs]: "MAX_QUORUM_BOUND = 80"
definition MIN_SUPERMAJORITY :: u8 where [const_defs]: "MIN_SUPERMAJORITY = 66"
definition MAX_SUPERMAJORITY :: u8 where [const_defs]: "MAX_SUPERMAJORITY = 90"
definition MIN_VOTING_PERIOD :: block_number where [const_defs]: "MIN_VOTING_PERIOD = 14400"
definition MAX_VOTING_PERIOD :: block_number where [const_defs]: "MAX_VOTING_PERIOD = 432000"

record 'a bounded_value =
  bv_value :: 'a
  bv_min :: 'a
  bv_max :: 'a

definition bounded_new :: "'a::linorder \<Rightarrow> 'a \<Rightarrow> 'a \<Rightarrow> 'a bounded_value" where
  "bounded_new v lo hi = \<lparr>bv_value = (if v < lo then lo else if hi < v then hi else v), bv_min = lo, bv_max = hi\<rparr>"

definition bounded_is_valid :: "'a::linorder \<Rightarrow> 'a bounded_value \<Rightarrow> bool" where
  "bounded_is_valid v bv = (bv_min bv \<le> v \<and> v \<le> bv_max bv)"

definition try_set :: "'a::linorder \<Rightarrow> 'a bounded_value \<Rightarrow> bool \<times> 'a bounded_value" where
  "try_set v bv = (if bv_min bv \<le> v \<and> v \<le> bv_max bv then (True, bv\<lparr>bv_value := v\<rparr>) else (False, bv))"

section \<open>Parameters\<close>

record economics_parameters =
  ep_inflation_rate :: "u8 bounded_value"
  ep_fee_burn_rate :: "u8 bounded_value"
  ep_fee_validator_rate :: "u8 bounded_value"
  ep_min_validator_stake :: balance
  ep_stake_cap :: balance

definition default_economics_parameters :: economics_parameters where
  "default_economics_parameters =
     \<lparr>ep_inflation_rate = bounded_new 2 MIN_INFLATION_RATE MAX_INFLATION_RATE,
      ep_fee_burn_rate = bounded_new 50 MIN_FEE_BURN_RATE MAX_FEE_BURN_RATE,
      ep_fee_validator_rate = bounded_new 50 MIN_FEE_BURN_RATE MAX_FEE_BURN_RATE,
      ep_min_validator_stake = 10000, ep_stake_cap = 1000000\<rparr>"

record consensus_parameters =
  kp_target_validators :: "u32 bounded_value"
  kp_blocks_per_epoch :: block_number
  kp_slots_per_epoch :: u64
  kp_vc_decay_rate :: u8

definition default_consensus_parameters :: consensus_parameters where
  "default_consensus_parameters =
     \<lparr>kp_target_validators = bounded_new 51 MIN_VALIDATORS MAX_VALIDATORS, kp_blocks_per_epoch = 14400, kp_slots_per_epoch = 14400,
      kp_vc_decay_rate = 10\<rparr>"

record governance_parameters =
  gp_standard_timelock :: "block_number bounded_value"
  gp_exit_timelock :: "block_number bounded_value"
  gp_voting_period :: "block_number bounded_value"
  gp_min_quorum :: "u8 bounded_value"
  gp_supermajority_threshold :: "u8 bounded_value"
  gp_standard_threshold :: u8
  gp_grace_period :: block_number
  gp_proposal_deposit :: balance

definition default_governance_parameters :: governance_parameters where
  "default_governance_parameters =
     \<lparr>gp_standard_timelock = bounded_new 172800 MIN_STANDARD_TIMELOCK MAX_STANDARD_TIMELOCK,
      gp_exit_timelock = bounded_new 432000 MIN_EXIT_TIMELOCK MAX_EXIT_TIMELOCK,
      gp_voting_period = bounded_new 100800 MIN_VOTING_PERIOD MAX_VOTING_PERIOD,
      gp_min_quorum = bounded_new 30 MIN_QUORUM_BOUND MAX_QUORUM_BOUND,
      gp_supermajority_threshold = bounded_new 66 MIN_SUPERMAJORITY MAX_SUPERMAJORITY,
      gp_standard_threshold = 50, gp_grace_period = 28800, gp_proposal_deposit = 100\<rparr>"

record identity_parameters =
  ip_identity_deposit :: balance
  ip_identity_expiry :: block_number
  ip_min_attestations :: u8
  ip_attestation_expiry :: block_number
  ip_max_reputation :: u32
  ip_reputation_decay_interval :: block_number
  ip_reputation_decay_percent :: u8

definition default_identity_parameters :: identity_parameters where
  "default_identity_parameters =
     \<lparr>ip_identity_deposit = 10, ip_identity_expiry = 2592000, ip_min_attestations = 3, ip_attestation_expiry = 1296000,
      ip_max_reputation = 10000, ip_reputation_decay_interval = 100800, ip_reputation_decay_percent = 1\<rparr>"

record sidechain_parameters =
  sp_purge_withdrawal_window :: block_number
  sp_max_governance_failures :: u8
  sp_inactivity_purge_threshold :: block_number
  sp_fraud_purge_threshold :: u8

definition default_sidechain_parameters :: sidechain_parameters where
  "default_sidechain_parameters =
     \<lparr>sp_purge_withdrawal_window = 432000, sp_max_governance_failures = 3, sp_inactivity_purge_threshold = 1296000,
      sp_fraud_purge_threshold = 33\<rparr>"

record protocol_version =
  pv_major :: "16 word"
  pv_minor :: "16 word"
  pv_patch :: "16 word"

definition default_version :: protocol_version where
  "default_version = \<lparr>pv_major = 1, pv_minor = 0, pv_patch = 0\<rparr>"

definition is_compatible :: "protocol_version \<Rightarrow> protocol_version \<Rightarrow> bool" where
  "is_compatible v w = (pv_major v = pv_major w)"

definition is_newer :: "protocol_version \<Rightarrow> protocol_version \<Rightarrow> bool" where
  "is_newer v w =
     (if pv_major v \<noteq> pv_major w then pv_major w < pv_major v
      else if pv_minor v \<noteq> pv_minor w then pv_minor w < pv_minor v
      else pv_patch w < pv_patch v)"

record protocol_parameters =
  pp_version :: protocol_version
  pp_economics :: economics_parameters
  pp_consensus :: consensus_parameters
  pp_governance :: governance_parameters
  pp_identity :: identity_parameters
  pp_sidechains :: sidechain_parameters
  pp_active_since :: block_number
  pp_expires_at :: "block_number option"

definition genesis_parameters :: protocol_parameters where
  "genesis_parameters =
     \<lparr>pp_version = default_version, pp_economics = default_economics_parameters, pp_consensus = default_consensus_parameters,
      pp_governance = default_governance_parameters, pp_identity = default_identity_parameters,
      pp_sidechains = default_sidechain_parameters, pp_active_since = 0, pp_expires_at = None\<rparr>"

definition parameters_are_active :: "block_number \<Rightarrow> protocol_parameters \<Rightarrow> bool" where
  "parameters_are_active b p = (pp_active_since p \<le> b \<and> (case pp_expires_at p of None \<Rightarrow> True | Some e \<Rightarrow> b < e))"

definition validate_timelocks :: "protocol_parameters \<Rightarrow> bool" where
  "validate_timelocks p = (bv_value (gp_standard_timelock (pp_governance p)) \<le> bv_value (gp_exit_timelock (pp_governance p)))"

datatype constitutional_axiom =
    ExitAlwaysPossible | NoGlobalAuthority | FailureIsLocal | IdentityOptional | PowerAccumulatesSlowly | NoMandatoryLayer | ForkingLegitimate

datatype constitutional_prohibition =
    MandatoryIdentity | RemoveExitMechanism | GlobalAuthority | PermanentPrivileges | ForcedFederation | ConfiscationWithoutExit

datatype parameter_error =
    OutOfBounds | ExitTimelockTooShort | FeeRatesTooHigh | PE_ConstitutionalViolation constitutional_axiom
  | ProhibitedChange constitutional_prohibition | InvalidCombination | IncompatibleVersion

definition validate_parameters :: "protocol_parameters \<Rightarrow> (parameter_error, unit) result" where
  "validate_parameters p =
     (if bv_value (gp_exit_timelock (pp_governance p)) < bv_value (gp_standard_timelock (pp_governance p)) then Err ExitTimelockTooShort
      else
        let total_fees = ucast (bv_value (ep_fee_burn_rate (pp_economics p))) + ucast (bv_value (ep_fee_validator_rate (pp_economics p))) :: 16 word
        in if 100 < total_fees then Err FeeRatesTooHigh else Ok ())"

section \<open>Changes\<close>

datatype parameter_change =
    InflationRate u8
  | FeeBurnRate u8
  | TargetValidators u32
  | StandardTimelock block_number
  | ExitTimelock block_number
  | VotingPeriod block_number
  | MinQuorum u8
  | SupermajorityThreshold u8
  | ProposalDeposit balance
  | VcDecayRate u8
  | Batch "parameter_change list"

fun is_constitutional :: "protocol_parameters \<Rightarrow> parameter_change \<Rightarrow> bool" where
  "is_constitutional current (InflationRate v) = (MIN_INFLATION_RATE \<le> v \<and> v \<le> MAX_INFLATION_RATE)"
| "is_constitutional current (FeeBurnRate v) = (MIN_FEE_BURN_RATE \<le> v \<and> v \<le> MAX_FEE_BURN_RATE)"
| "is_constitutional current (TargetValidators v') = (MIN_VALIDATORS \<le> v' \<and> v' \<le> MAX_VALIDATORS)"
| "is_constitutional current (StandardTimelock t) = (MIN_STANDARD_TIMELOCK \<le> t \<and> t \<le> MAX_STANDARD_TIMELOCK)"
| "is_constitutional current (ExitTimelock t) =
     (MIN_EXIT_TIMELOCK \<le> t \<and> t \<le> MAX_EXIT_TIMELOCK \<and> bv_value (gp_standard_timelock (pp_governance current)) \<le> t)"
| "is_constitutional current (VotingPeriod t) = (MIN_VOTING_PERIOD \<le> t \<and> t \<le> MAX_VOTING_PERIOD)"
| "is_constitutional current (MinQuorum v) = (MIN_QUORUM_BOUND \<le> v \<and> v \<le> MAX_QUORUM_BOUND)"
| "is_constitutional current (SupermajorityThreshold v) = (MIN_SUPERMAJORITY \<le> v \<and> v \<le> MAX_SUPERMAJORITY)"
| "is_constitutional current (ProposalDeposit _) = True"
| "is_constitutional current (VcDecayRate v) = (v \<le> 50)"
| "is_constitutional current (Batch changes) = list_all (is_constitutional current) changes"

text \<open>
  \<open>ParameterChange::apply\<close> changes the parameters in place and validates them afterwards: a
  change that fails the validation has been made all the same.
\<close>

type_synonym 'a params_action = "(protocol_parameters, parameter_error, 'a) action"

definition set_bounded :: "'a::linorder \<Rightarrow> (protocol_parameters \<Rightarrow> 'a bounded_value) \<Rightarrow> ('a bounded_value \<Rightarrow> protocol_parameters \<Rightarrow> protocol_parameters) \<Rightarrow> unit params_action" where
  "set_bounded v sel upd p =
     (let (done, bv) = try_set v (sel p) in if done then (Ok (), upd bv p) else (Err OutOfBounds, p))"

abbreviation upd_economics :: "(economics_parameters \<Rightarrow> economics_parameters) \<Rightarrow> protocol_parameters \<Rightarrow> protocol_parameters" where
  "upd_economics f p \<equiv> p\<lparr>pp_economics := f (pp_economics p)\<rparr>"
abbreviation upd_consensus :: "(consensus_parameters \<Rightarrow> consensus_parameters) \<Rightarrow> protocol_parameters \<Rightarrow> protocol_parameters" where
  "upd_consensus f p \<equiv> p\<lparr>pp_consensus := f (pp_consensus p)\<rparr>"
abbreviation upd_governance :: "(governance_parameters \<Rightarrow> governance_parameters) \<Rightarrow> protocol_parameters \<Rightarrow> protocol_parameters" where
  "upd_governance f p \<equiv> p\<lparr>pp_governance := f (pp_governance p)\<rparr>"

definition validated :: "unit params_action \<Rightarrow> unit params_action" where
  "validated m = andThen m (\<lambda>_ p. (validate_parameters p, p))"

fun apply_change :: "parameter_change \<Rightarrow> unit params_action"
  and apply_changes :: "parameter_change list \<Rightarrow> unit params_action" where
  "apply_change (InflationRate v) p =
     validated (set_bounded v (\<lambda>p. ep_inflation_rate (pp_economics p)) (\<lambda>bv. upd_economics (\<lambda>e. e\<lparr>ep_inflation_rate := bv\<rparr>))) p"
| "apply_change (FeeBurnRate v) p =
     validated (set_bounded v (\<lambda>p. ep_fee_burn_rate (pp_economics p)) (\<lambda>bv. upd_economics (\<lambda>e. e\<lparr>ep_fee_burn_rate := bv\<rparr>))) p"
| "apply_change (TargetValidators v') p =
     validated (set_bounded v' (\<lambda>p. kp_target_validators (pp_consensus p)) (\<lambda>bv. upd_consensus (\<lambda>c. c\<lparr>kp_target_validators := bv\<rparr>))) p"
| "apply_change (StandardTimelock t) p =
     validated (set_bounded t (\<lambda>p. gp_standard_timelock (pp_governance p)) (\<lambda>bv. upd_governance (\<lambda>g. g\<lparr>gp_standard_timelock := bv\<rparr>))) p"
| "apply_change (ExitTimelock t) p =
     validated (set_bounded t (\<lambda>p. gp_exit_timelock (pp_governance p)) (\<lambda>bv. upd_governance (\<lambda>g. g\<lparr>gp_exit_timelock := bv\<rparr>))) p"
| "apply_change (VotingPeriod t) p =
     validated (set_bounded t (\<lambda>p. gp_voting_period (pp_governance p)) (\<lambda>bv. upd_governance (\<lambda>g. g\<lparr>gp_voting_period := bv\<rparr>))) p"
| "apply_change (MinQuorum v) p =
     validated (set_bounded v (\<lambda>p. gp_min_quorum (pp_governance p)) (\<lambda>bv. upd_governance (\<lambda>g. g\<lparr>gp_min_quorum := bv\<rparr>))) p"
| "apply_change (SupermajorityThreshold v) p =
     validated (set_bounded v (\<lambda>p. gp_supermajority_threshold (pp_governance p)) (\<lambda>bv. upd_governance (\<lambda>g. g\<lparr>gp_supermajority_threshold := bv\<rparr>))) p"
| "apply_change (ProposalDeposit d) p = validated (\<lambda>p. (Ok (), upd_governance (\<lambda>g. g\<lparr>gp_proposal_deposit := d\<rparr>) p)) p"
| "apply_change (VcDecayRate v) p =
     validated (\<lambda>p. if 50 < v then (Err OutOfBounds, p) else (Ok (), upd_consensus (\<lambda>c. c\<lparr>kp_vc_decay_rate := v\<rparr>) p)) p"
| "apply_change (Batch changes) p =
     (case apply_changes changes p of (Inl e, p') \<Rightarrow> (Err e, p') | (Inr _, p') \<Rightarrow> (validate_parameters p', p'))"
| "apply_changes [] p = (Ok (), p)"
| "apply_changes (c # cs) p =
     (case apply_change c p of (Inl e, p') \<Rightarrow> (Err e, p') | (Inr _, p') \<Rightarrow> apply_changes cs p')"

section \<open>Upgrade proposals\<close>

definition PROTOCOL_UPGRADE_THRESHOLD :: u8 where [const_defs]: "PROTOCOL_UPGRADE_THRESHOLD = 75"
definition PROTOCOL_UPGRADE_TIMELOCK :: block_number where [const_defs]: "PROTOCOL_UPGRADE_TIMELOCK = 864000"
definition SIGNALING_PERIOD :: block_number where [const_defs]: "SIGNALING_PERIOD = 201600"
definition CHAIN_ADOPTION_THRESHOLD :: u8 where [const_defs]: "CHAIN_ADOPTION_THRESHOLD = 66"
definition EMERGENCY_TIMELOCK :: block_number where [const_defs]: "EMERGENCY_TIMELOCK = 100800"
definition MAX_BATCH_SIZE :: nat where [const_defs]: "MAX_BATCH_SIZE = 10"

datatype upgrade_proposal_type =
    UP_ParameterChange "parameter_change list" string
  | VersionUpgrade protocol_version string bool
  | EmergencyChange "parameter_change list" string

fun upgrade_threshold :: "upgrade_proposal_type \<Rightarrow> u8" where
  "upgrade_threshold (UP_ParameterChange _ _) = PROTOCOL_UPGRADE_THRESHOLD"
| "upgrade_threshold (VersionUpgrade _ _ breaking) = (if breaking then 80 else PROTOCOL_UPGRADE_THRESHOLD)"
| "upgrade_threshold (EmergencyChange _ _) = 80"

fun upgrade_timelock :: "upgrade_proposal_type \<Rightarrow> block_number" where
  "upgrade_timelock (UP_ParameterChange _ _) = PROTOCOL_UPGRADE_TIMELOCK"
| "upgrade_timelock (VersionUpgrade _ _ _) = PROTOCOL_UPGRADE_TIMELOCK"
| "upgrade_timelock (EmergencyChange _ _) = EMERGENCY_TIMELOCK"

fun requires_signaling :: "upgrade_proposal_type \<Rightarrow> bool" where
  "requires_signaling (VersionUpgrade _ _ _) = True"
| "requires_signaling _ = False"

datatype upgrade_status =
    US_Signaling | US_Voting | US_Approved | US_ExecutionReady | US_Executed | US_Rejected | US_Cancelled | US_ConstitutionallyRejected

record chain_signal =
  cg_chain_id :: chain_id
  cg_supports :: bool
  cg_signaled_at :: block_number
  cg_validator_count :: u32

record impact_analysis =
  ia_affected_subsystems :: "string list"
  ia_backward_compatible :: bool
  ia_risk_level :: u8
  ia_rollback_difficulty :: u8
  ia_required_node_version :: "string option"
  ia_migration_steps :: "string list"
  ia_test_summary :: string

definition minimal_analysis :: "string \<Rightarrow> impact_analysis" where
  "minimal_analysis subsystem =
     \<lparr>ia_affected_subsystems = [subsystem], ia_backward_compatible = True, ia_risk_level = 1, ia_rollback_difficulty = 1,
      ia_required_node_version = None, ia_migration_steps = [], ia_test_summary = ''Standard parameter change''\<rparr>"

definition analysis_is_complete :: "impact_analysis \<Rightarrow> bool" where
  "analysis_is_complete a =
     (ia_affected_subsystems a \<noteq> [] \<and> 1 \<le> ia_risk_level a \<and> ia_risk_level a \<le> 5
      \<and> 1 \<le> ia_rollback_difficulty a \<and> ia_rollback_difficulty a \<le> 5 \<and> ia_test_summary a \<noteq> [])"

record upgrade_proposal =
  ug_id :: hash
  ug_proposer :: account_id
  ug_type :: upgrade_proposal_type
  ug_status :: upgrade_status
  ug_created_at :: block_number
  ug_voting_started :: "block_number option"
  ug_voting_ended :: "block_number option"
  ug_yes_votes :: balance
  ug_no_votes :: balance
  ug_voters :: "(account_id, bool) hmap"
  ug_chain_signals :: "(chain_id, chain_signal) hmap"
  ug_impact_analysis :: impact_analysis
  ug_deposit :: balance

definition upgrade_proposal_new ::
  "crypto \<Rightarrow> account_id \<Rightarrow> upgrade_proposal_type \<Rightarrow> impact_analysis \<Rightarrow> balance \<Rightarrow> block_number \<Rightarrow> upgrade_proposal" where
  "upgrade_proposal_new K proposer ty impact deposit b =
     \<lparr>ug_id = blake3 K (account_bytes proposer @ le_bytes 8 b @ le_bytes 16 deposit), ug_proposer = proposer, ug_type = ty,
      ug_status = (if requires_signaling ty then US_Signaling else US_Voting), ug_created_at = b,
      ug_voting_started = (if \<not> requires_signaling ty then Some b else None), ug_voting_ended = None,
      ug_yes_votes = 0, ug_no_votes = 0, ug_voters = [], ug_chain_signals = [], ug_impact_analysis = impact, ug_deposit = deposit\<rparr>"

definition upgrade_voting_open :: "block_number \<Rightarrow> block_number \<Rightarrow> upgrade_proposal \<Rightarrow> bool" where
  "upgrade_voting_open b voting_period p =
     (ug_status p = US_Voting \<and> (case ug_voting_started p of Some started \<Rightarrow> b < started + voting_period | None \<Rightarrow> False))"

definition upgrade_approval :: "upgrade_proposal \<Rightarrow> u8" where
  "upgrade_approval p =
     (let tot = ug_yes_votes p + ug_no_votes p in if tot = 0 then 0 else ucast (ug_yes_votes p * 100 div tot))"

definition upgrade_passed :: "upgrade_proposal \<Rightarrow> bool" where
  "upgrade_passed p = (upgrade_threshold (ug_type p) \<le> upgrade_approval p)"

definition timelock_elapsed :: "block_number \<Rightarrow> upgrade_proposal \<Rightarrow> bool" where
  "timelock_elapsed b p =
     (case ug_voting_ended p of Some ended \<Rightarrow> ended + upgrade_timelock (ug_type p) \<le> b | None \<Rightarrow> False)"

section \<open>The meta-governance contract\<close>

datatype meta_event =
    MG_ProposalCreated hash account_id string
  | ChainSignaled hash chain_id bool
  | VotingStarted hash
  | MG_VoteCast hash account_id bool balance
  | MG_ProposalApproved hash
  | MG_ProposalRejected hash string
  | MG_ProposalExecuted hash block_number
  | MG_ProposalCancelled hash

datatype meta_error =
    ME_NoVotingPower | ME_ProposalNotFound | BatchTooLarge | ConstitutionalViolation | InvalidVersion | IncompleteImpactAnalysis
  | ChainNotRegistered | NotInSignalingPhase | SignalingPeriodNotElapsed | InsufficientChainAdoption | ME_VotingNotOpen | ME_AlreadyVoted
  | NotInVotingPhase | VotingNotStarted | VotingPeriodNotElapsed | ME_NotApproved | TimelockNotElapsed | NotProposer | ME_AlreadyExecuted
  | ParameterError parameter_error

record signaling_chain =
  sg_chain_id :: chain_id
  sg_validator_count :: u32
  sg_last_signal :: block_number

record meta_governance =
  mg_parameters :: protocol_parameters
  mg_parameter_history :: "(block_number \<times> protocol_parameters) list"
  mg_proposals :: "(hash, upgrade_proposal) hmap"
  mg_executed_proposals :: "hash list"
  mg_registered_chains :: "(chain_id, signaling_chain) hmap"
  mg_voting_power :: "(account_id, balance) hmap"
  mg_total_voting_power :: balance
  mg_events :: "meta_event list"

type_synonym 'a meta_action = "(meta_governance, meta_error, 'a) action"

definition meta_governance_new :: meta_governance where
  "meta_governance_new =
     \<lparr>mg_parameters = genesis_parameters, mg_parameter_history = [], mg_proposals = [], mg_executed_proposals = [],
      mg_registered_chains = [], mg_voting_power = [], mg_total_voting_power = 0, mg_events = []\<rparr>"

definition mg_emit :: "meta_event \<Rightarrow> meta_governance \<Rightarrow> meta_governance" where
  "mg_emit ev M = M\<lparr>mg_events := mg_events M @ [ev]\<rparr>"

definition voting_power_of :: "meta_governance \<Rightarrow> account_id \<Rightarrow> balance" where
  "voting_power_of M a = (case hm_get (mg_voting_power M) a of Some pow \<Rightarrow> pow | None \<Rightarrow> 0)"

definition mg_set_voting_power :: "account_id \<Rightarrow> balance \<Rightarrow> meta_governance \<Rightarrow> meta_governance" where
  "mg_set_voting_power a pow M =
     M\<lparr>mg_total_voting_power := mg_total_voting_power M - voting_power_of M a + pow,
       mg_voting_power := (if 0 < pow then hm_insert a pow (mg_voting_power M) else hm_remove a (mg_voting_power M))\<rparr>"

definition register_chain :: "chain_id \<Rightarrow> u32 \<Rightarrow> block_number \<Rightarrow> meta_governance \<Rightarrow> meta_governance" where
  "register_chain cid n b M =
     M\<lparr>mg_registered_chains := hm_insert cid \<lparr>sg_chain_id = cid, sg_validator_count = n, sg_last_signal = b\<rparr> (mg_registered_chains M)\<rparr>"

definition put_upgrade :: "upgrade_proposal \<Rightarrow> meta_governance \<Rightarrow> meta_governance" where
  "put_upgrade p M = M\<lparr>mg_proposals := hm_insert (ug_id p) p (mg_proposals M)\<rparr>"

text \<open>Writing back the proposal that \<open>get_mut\<close> returned for a key.\<close>

definition set_upgrade :: "hash \<Rightarrow> upgrade_proposal \<Rightarrow> meta_governance \<Rightarrow> meta_governance" where
  "set_upgrade i p M = M\<lparr>mg_proposals := hm_insert i p (mg_proposals M)\<rparr>"

definition propose_parameter_change ::
  "crypto \<Rightarrow> account_id \<Rightarrow> parameter_change list \<Rightarrow> string \<Rightarrow> balance \<Rightarrow> block_number \<Rightarrow> hash meta_action" where
  "propose_parameter_change K proposer changes rationale deposit b M =
     (if voting_power_of M proposer = 0 then (Err ME_NoVotingPower, M)
      else if MAX_BATCH_SIZE < length changes then (Err BatchTooLarge, M)
      else if \<not> list_all (is_constitutional (mg_parameters M)) changes then (Err ConstitutionalViolation, M)
      else
        let p = upgrade_proposal_new K proposer (UP_ParameterChange changes rationale) (minimal_analysis ''parameters'') deposit b
        in (Ok (ug_id p), mg_emit (MG_ProposalCreated (ug_id p) proposer ''ParameterChange'') (put_upgrade p M)))"

definition propose_version_upgrade ::
  "crypto \<Rightarrow> account_id \<Rightarrow> protocol_version \<Rightarrow> string \<Rightarrow> bool \<Rightarrow> impact_analysis \<Rightarrow> balance \<Rightarrow> block_number \<Rightarrow> hash meta_action" where
  "propose_version_upgrade K proposer new_version changelog breaking impact deposit b M =
     (if voting_power_of M proposer = 0 then (Err ME_NoVotingPower, M)
      else if \<not> is_newer new_version (pp_version (mg_parameters M)) then (Err InvalidVersion, M)
      else if \<not> analysis_is_complete impact then (Err IncompleteImpactAnalysis, M)
      else
        let p = upgrade_proposal_new K proposer (VersionUpgrade new_version changelog breaking) impact deposit b
        in (Ok (ug_id p), mg_emit (MG_ProposalCreated (ug_id p) proposer ''VersionUpgrade'') (put_upgrade p M)))"

definition submit_chain_signal :: "hash \<Rightarrow> chain_id \<Rightarrow> bool \<Rightarrow> block_number \<Rightarrow> unit meta_action" where
  "submit_chain_signal i cid supports b M =
     (case hm_get (mg_proposals M) i of
        None \<Rightarrow> (Err ME_ProposalNotFound, M)
      | Some p \<Rightarrow>
          if ug_status p \<noteq> US_Signaling then (Err NotInSignalingPhase, M)
          else case hm_get (mg_registered_chains M) cid of
              None \<Rightarrow> (Err ChainNotRegistered, M)
            | Some info \<Rightarrow>
                let p' = p\<lparr>ug_chain_signals := hm_insert cid \<lparr>cg_chain_id = cid, cg_supports = supports, cg_signaled_at = b,
                             cg_validator_count = sg_validator_count info\<rparr> (ug_chain_signals p)\<rparr>
                in (Ok (), mg_emit (ChainSignaled i cid supports) (set_upgrade i p' M)))"

definition chain_adoption :: "meta_governance \<Rightarrow> upgrade_proposal \<Rightarrow> u8" where
  "chain_adoption M p =
     (let total_validators = sum_list (map (\<lambda>(_, c). sg_validator_count c) (mg_registered_chains M));
          supporting = sum_list (map (\<lambda>(_, s). cg_validator_count s) (filter (\<lambda>(_, s). cg_supports s) (ug_chain_signals p)))
      in if 0 < total_validators then ucast (supporting * 100 div total_validators) else 0)"

definition advance_to_voting :: "hash \<Rightarrow> block_number \<Rightarrow> unit meta_action" where
  "advance_to_voting i b M =
     (case hm_get (mg_proposals M) i of
        None \<Rightarrow> (Err ME_ProposalNotFound, M)
      | Some p \<Rightarrow>
          if ug_status p \<noteq> US_Signaling then (Err NotInSignalingPhase, M)
          else if b < ug_created_at p + SIGNALING_PERIOD then (Err SignalingPeriodNotElapsed, M)
          else if chain_adoption M p < CHAIN_ADOPTION_THRESHOLD
          then (Err InsufficientChainAdoption,
                mg_emit (MG_ProposalRejected i ''Insufficient chain adoption'') (set_upgrade i (p\<lparr>ug_status := US_Rejected\<rparr>) M))
          else (Ok (), mg_emit (VotingStarted i) (set_upgrade i (p\<lparr>ug_status := US_Voting, ug_voting_started := Some b\<rparr>) M)))"

definition upgrade_vote :: "hash \<Rightarrow> account_id \<Rightarrow> bool \<Rightarrow> block_number \<Rightarrow> unit meta_action" where
  "upgrade_vote i voter support b M =
     (let voting_period = bv_value (gp_voting_period (pp_governance (mg_parameters M))); pow = voting_power_of M voter
      in if pow = 0 then (Err ME_NoVotingPower, M)
         else case hm_get (mg_proposals M) i of
             None \<Rightarrow> (Err ME_ProposalNotFound, M)
           | Some p \<Rightarrow>
               if \<not> upgrade_voting_open b voting_period p then (Err ME_VotingNotOpen, M)
               else if hm_contains (ug_voters p) voter then (Err ME_AlreadyVoted, M)
               else
                 let p' = p\<lparr>ug_voters := hm_insert voter support (ug_voters p)\<rparr>;
                     p'' = (if support then p'\<lparr>ug_yes_votes := ug_yes_votes p' + pow\<rparr> else p'\<lparr>ug_no_votes := ug_no_votes p' + pow\<rparr>)
                 in (Ok (), mg_emit (MG_VoteCast i voter support pow) (set_upgrade i p'' M)))"

definition upgrade_finalize :: "hash \<Rightarrow> block_number \<Rightarrow> unit meta_action" where
  "upgrade_finalize i b M =
     (let voting_period = bv_value (gp_voting_period (pp_governance (mg_parameters M)))
      in case hm_get (mg_proposals M) i of
           None \<Rightarrow> (Err ME_ProposalNotFound, M)
         | Some p \<Rightarrow>
             if ug_status p \<noteq> US_Voting then (Err NotInVotingPhase, M)
             else case ug_voting_started p of
                 None \<Rightarrow> (Err VotingNotStarted, M)
               | Some started \<Rightarrow>
                   if b < started + voting_period then (Err VotingPeriodNotElapsed, M)
                   else
                     let p' = p\<lparr>ug_voting_ended := Some b\<rparr>
                     in if upgrade_passed p'
                        then (Ok (), mg_emit (MG_ProposalApproved i) (set_upgrade i (p'\<lparr>ug_status := US_Approved\<rparr>) M))
                        else (Ok (), mg_emit (MG_ProposalRejected i ''Did not reach threshold'') (set_upgrade i (p'\<lparr>ug_status := US_Rejected\<rparr>) M)))"

fun apply_proposal :: "upgrade_proposal_type \<Rightarrow> unit params_action" where
  "apply_proposal (UP_ParameterChange changes _) p = apply_changes changes p"
| "apply_proposal (VersionUpgrade new_version _ _) p = (Ok (), p\<lparr>pp_version := new_version\<rparr>)"
| "apply_proposal (EmergencyChange changes _) p = apply_changes changes p"

definition execute_proposal :: "hash \<Rightarrow> block_number \<Rightarrow> unit meta_action" where
  "execute_proposal i b M =
     (case hm_get (mg_proposals M) i of
        None \<Rightarrow> (Err ME_ProposalNotFound, M)
      | Some p \<Rightarrow>
          if ug_status p \<noteq> US_Approved then (Err ME_NotApproved, M)
          else if \<not> timelock_elapsed b p then (Err TimelockNotElapsed, M)
          else
            let M1 = M\<lparr>mg_parameter_history := mg_parameter_history M @ [(b, mg_parameters M)]\<rparr>;
                (r, ps) = apply_proposal (ug_type p) (mg_parameters M1);
                M2 = M1\<lparr>mg_parameters := ps\<rparr>
            in case r of
                 Inl e \<Rightarrow> (Err (ParameterError e), M2)
               | Inr _ \<Rightarrow>
                   (Ok (), mg_emit (MG_ProposalExecuted i b)
                      (set_upgrade i (p\<lparr>ug_status := US_Executed\<rparr>)
                        (M2\<lparr>mg_parameters := ps\<lparr>pp_active_since := b\<rparr>, mg_executed_proposals := mg_executed_proposals M2 @ [i]\<rparr>))))"

definition upgrade_cancel :: "hash \<Rightarrow> account_id \<Rightarrow> balance meta_action" where
  "upgrade_cancel i caller M =
     (case hm_get (mg_proposals M) i of
        None \<Rightarrow> (Err ME_ProposalNotFound, M)
      | Some p \<Rightarrow>
          if ug_proposer p \<noteq> caller then (Err NotProposer, M)
          else if ug_status p = US_Executed then (Err ME_AlreadyExecuted, M)
          else (Ok (ug_deposit p), mg_emit (MG_ProposalCancelled i) (set_upgrade i (p\<lparr>ug_status := US_Cancelled\<rparr>) M)))"

definition check_constitutional_compliance :: "parameter_change list \<Rightarrow> meta_governance \<Rightarrow> (meta_error, unit) result" where
  "check_constitutional_compliance changes M =
     (if list_all (is_constitutional (mg_parameters M)) changes then Ok () else Err ConstitutionalViolation)"

definition active_upgrades :: "(hash list \<Rightarrow> hash list) \<Rightarrow> meta_governance \<Rightarrow> upgrade_proposal list" where
  "active_upgrades visit M =
     filter (\<lambda>p. ug_status p \<notin> {US_Executed, US_Rejected, US_Cancelled, US_ConstitutionallyRejected})
       (List.map_filter (hm_get (mg_proposals M)) (visit (hm_keys (mg_proposals M))))"

definition clear_events :: "meta_governance \<Rightarrow> meta_governance" where
  "clear_events M = M\<lparr>mg_events := []\<rparr>"

section \<open>The bounds always hold\<close>

definition within :: "'a::linorder \<Rightarrow> 'a \<Rightarrow> 'a bounded_value \<Rightarrow> bool" where
  "within lo hi bv \<longleftrightarrow> bv_min bv = lo \<and> bv_max bv = hi \<and> lo \<le> bv_value bv \<and> bv_value bv \<le> hi"

definition params_ok :: "protocol_parameters \<Rightarrow> bool" where
  "params_ok p \<longleftrightarrow>
     within MIN_INFLATION_RATE MAX_INFLATION_RATE (ep_inflation_rate (pp_economics p))
     \<and> within MIN_FEE_BURN_RATE MAX_FEE_BURN_RATE (ep_fee_burn_rate (pp_economics p))
     \<and> within MIN_VALIDATORS MAX_VALIDATORS (kp_target_validators (pp_consensus p))
     \<and> within MIN_STANDARD_TIMELOCK MAX_STANDARD_TIMELOCK (gp_standard_timelock (pp_governance p))
     \<and> within MIN_EXIT_TIMELOCK MAX_EXIT_TIMELOCK (gp_exit_timelock (pp_governance p))
     \<and> within MIN_VOTING_PERIOD MAX_VOTING_PERIOD (gp_voting_period (pp_governance p))
     \<and> within MIN_QUORUM_BOUND MAX_QUORUM_BOUND (gp_min_quorum (pp_governance p))
     \<and> within MIN_SUPERMAJORITY MAX_SUPERMAJORITY (gp_supermajority_threshold (pp_governance p))
     \<and> kp_vc_decay_rate (pp_consensus p) \<le> 50"

lemma within_new: "lo \<le> hi \<Longrightarrow> within lo hi (bounded_new v lo hi)"
  by (auto simp: within_def bounded_new_def)

lemma within_try_set: "within lo hi bv \<Longrightarrow> within lo hi (snd (try_set v bv))"
  by (simp add: within_def try_set_def)

lemma snd_validated [simp]: "snd (validated m p) = snd (m p)"
  by (cases "m p") (simp add: validated_def andThen_def split: sum.split)

lemma set_bounded_cases: "snd (set_bounded v sel upd p) = p \<or> snd (set_bounded v sel upd p) = upd (snd (try_set v (sel p))) p"
  by (simp add: set_bounded_def split: prod.split)

lemma set_bounded_ok:
  assumes "params_ok p" and "\<And>bv. bv = snd (try_set v (sel p)) \<Longrightarrow> params_ok (upd bv p)"
  shows "params_ok (snd (set_bounded v sel upd p))"
  using assms set_bounded_cases [of v sel upd p] by auto

lemma genesis_ok: "params_ok genesis_parameters"
  unfolding params_ok_def genesis_parameters_def default_economics_parameters_def default_consensus_parameters_def default_governance_parameters_def
  by (simp add: within_new const_defs)

lemma apply_ok:
  "params_ok p \<Longrightarrow> params_ok (snd (apply_change c p))"
  "params_ok p \<Longrightarrow> params_ok (snd (apply_changes cs p))"
proof (induction c p and cs p rule: apply_change_apply_changes.induct)
  case (11 changes p)
  then show ?case by (cases "apply_changes changes p") (auto split: sum.split)
next
  case (13 c cs p)
  then show ?case by (cases "apply_change c p") (auto split: sum.split)
qed (auto intro!: set_bounded_ok, simp_all add: within_try_set params_ok_def)

lemma apply_proposal_ok: "params_ok p \<Longrightarrow> params_ok (snd (apply_proposal ty p))"
  by (cases ty) (simp_all add: apply_ok, simp add: params_ok_def)

section \<open>Reachable contracts\<close>

inductive mg_step :: "crypto \<Rightarrow> block_number \<Rightarrow> meta_governance \<Rightarrow> meta_governance \<Rightarrow> bool" for K b M where
  set_power: "mg_step K b M (mg_set_voting_power a pow M)"
| register: "mg_step K b M (register_chain cid n b M)"
| propose_change: "mg_step K b M (snd (propose_parameter_change K a cs reason dep b M))"
| propose_version: "mg_step K b M (snd (propose_version_upgrade K a ver notes brk imp dep b M))"
| signal: "mg_step K b M (snd (submit_chain_signal i cid yes b M))"
| advance: "mg_step K b M (snd (advance_to_voting i b M))"
| vote: "mg_step K b M (snd (upgrade_vote i a yes b M))"
| finalize: "mg_step K b M (snd (upgrade_finalize i b M))"
| execute: "mg_step K b M (snd (execute_proposal i b M))"
| cancel: "mg_step K b M (snd (upgrade_cancel i a M))"
| clear: "mg_step K b M (clear_events M)"

inductive mg_reachable :: "crypto \<Rightarrow> meta_governance \<Rightarrow> bool" for K where
  start: "mg_reachable K meta_governance_new"
| step: "mg_reachable K M \<Longrightarrow> mg_step K b M M' \<Longrightarrow> mg_reachable K M'"

text \<open>A proposal that has passed its vote keeps the votes it passed with.\<close>

definition approved_ok :: "upgrade_proposal \<Rightarrow> bool" where
  "approved_ok p \<longleftrightarrow> (ug_status p \<in> {US_Approved, US_Executed} \<longrightarrow> upgrade_passed p \<and> ug_voting_ended p \<noteq> None)"

definition upgrades_ok :: "meta_governance \<Rightarrow> bool" where
  "upgrades_ok M \<longleftrightarrow> (\<forall>i p. hm_get (mg_proposals M) i = Some p \<longrightarrow> approved_ok p)"

lemma mg_emit_simps [simp]:
  "mg_parameters (mg_emit ev M) = mg_parameters M" "mg_proposals (mg_emit ev M) = mg_proposals M"
  "mg_parameter_history (mg_emit ev M) = mg_parameter_history M"
  by (simp_all add: mg_emit_def)

lemma set_upgrade_simps [simp]:
  "mg_parameters (set_upgrade i p M) = mg_parameters M" "mg_parameter_history (set_upgrade i p M) = mg_parameter_history M"
  "mg_parameters (put_upgrade p M) = mg_parameters M" "mg_parameter_history (put_upgrade p M) = mg_parameter_history M"
  by (simp_all add: set_upgrade_def put_upgrade_def)





lemma passed_update [simp]:
  "upgrade_passed (p\<lparr>ug_status := st\<rparr>) = upgrade_passed p" "upgrade_passed (p\<lparr>ug_voting_ended := e\<rparr>) = upgrade_passed p"
  by (simp_all add: upgrade_passed_def upgrade_approval_def Let_def)

lemma upgrades_ok_update [simp]:
  "upgrades_ok (M\<lparr>mg_parameters := ps\<rparr>) = upgrades_ok M" "upgrades_ok (M\<lparr>mg_parameter_history := h\<rparr>) = upgrades_ok M"
  "upgrades_ok (M\<lparr>mg_executed_proposals := ids\<rparr>) = upgrades_ok M"
  by (simp_all add: upgrades_ok_def)



text \<open>Every step but an execution leaves the parameters and their history alone.\<close>

lemma step_parameters:
  "mg_step K b M M' \<Longrightarrow>
     mg_parameters M' = mg_parameters M \<and> mg_parameter_history M' = mg_parameter_history M
     \<or> (\<exists>i. M' = snd (execute_proposal i b M))"
proof (induction rule: mg_step.induct)
  case (execute i)
  then show ?case by blast
qed (simp_all add: mg_set_voting_power_def register_chain_def propose_parameter_change_def propose_version_upgrade_def submit_chain_signal_def
      advance_to_voting_def upgrade_vote_def upgrade_finalize_def upgrade_cancel_def clear_events_def Let_def split: option.split)

lemma execute_params_ok:
  assumes "params_ok (mg_parameters M)" and "\<forall>(_, q) \<in> set (mg_parameter_history M). params_ok q"
  shows "params_ok (mg_parameters (snd (execute_proposal i b M)))
    \<and> (\<forall>(_, q) \<in> set (mg_parameter_history (snd (execute_proposal i b M))). params_ok q)"
proof (cases "hm_get (mg_proposals M) i")
  case (Some p)
  have "params_ok (snd (apply_proposal (ug_type p) (mg_parameters M)))" using assms(1) by (rule apply_proposal_ok)
  moreover have "params_ok q \<Longrightarrow> params_ok (q\<lparr>pp_active_since := b\<rparr>)" for q by (simp add: params_ok_def)
  ultimately show ?thesis
    using assms Some by (cases "apply_proposal (ug_type p) (mg_parameters M)") (auto simp: execute_proposal_def Let_def split: sum.split)
qed (simp add: execute_proposal_def assms)

lemma reachable_params_ok:
  "mg_reachable K M \<Longrightarrow> params_ok (mg_parameters M) \<and> (\<forall>(_, q) \<in> set (mg_parameter_history M). params_ok q)"
proof (induction rule: mg_reachable.induct)
  case start
  show ?case by (simp add: meta_governance_new_def genesis_ok)
next
  case (step M b M')
  then show ?case using step_parameters [OF step.hyps(2)] execute_params_ok [of M _ b] by auto
qed


text \<open>
  C23: whatever is proposed, voted and executed, and even when an execution fails half way, every
  protocol parameter stays inside its constitutional bounds: inflation at most 5 per cent, 50 to 101
  validators, timelocks of 1 to 30 and 7 to 90 days, a vote of 1 to 30 days, a quorum of 10 to 80 per cent,
  a supermajority of 66 to 90 per cent.
\<close>

theorem constitution_holds:
  assumes "mg_reachable K M"
  defines "g \<equiv> pp_governance (mg_parameters M)"
  shows "bv_value (ep_inflation_rate (pp_economics (mg_parameters M))) \<le> 5
    \<and> bv_value (kp_target_validators (pp_consensus (mg_parameters M))) \<in> {50..101}
    \<and> bv_value (gp_standard_timelock g) \<in> {14400..432000} \<and> bv_value (gp_exit_timelock g) \<in> {100800..1296000}
    \<and> bv_value (gp_voting_period g) \<in> {14400..432000} \<and> bv_value (gp_min_quorum g) \<in> {10..80}
    \<and> bv_value (gp_supermajority_threshold g) \<in> {66..90} \<and> kp_vc_decay_rate (pp_consensus (mg_parameters M)) \<le> 50"
  using reachable_params_ok [OF assms(1)] unfolding params_ok_def within_def g_def by (simp add: const_defs)

theorem constitution_holds_witness:
  "bv_value (gp_supermajority_threshold (pp_governance (mg_parameters (mg_set_voting_power 1 100 meta_governance_new)))) \<in> {66..90}"
  using constitution_holds [of demo_crypto "mg_set_voting_power 1 100 meta_governance_new"]
    mg_reachable.step [OF mg_reachable.start mg_step.set_power] by blast

section \<open>The votes behind an approval\<close>

text \<open>
  The ballots accepted for each proposal, with the voting power the voter had at that moment, newest
  first: \<open>B i\<close> starts empty when a proposal with identifier \<open>i\<close> is created and grows with every accepted vote.
\<close>

type_synonym ballots = "(account_id \<times> bool \<times> balance) list"

inductive mg_voted :: "crypto \<Rightarrow> (hash \<Rightarrow> ballots) \<Rightarrow> meta_governance \<Rightarrow> bool" for K where
  start: "mg_voted K (\<lambda>_. []) meta_governance_new"
| vote: "mg_voted K B M \<Longrightarrow> upgrade_vote i a yes b M = (r, M') \<Longrightarrow>
    mg_voted K (if is_ok r then B(i := (a, yes, voting_power_of M a) # B i) else B) M'"
| propose: "mg_voted K B M \<Longrightarrow>
    (r, M') \<in> {propose_parameter_change K a cs reason dep b M, propose_version_upgrade K a ver notes brk imp dep b M} \<Longrightarrow>
    mg_voted K (case r of Inr i \<Rightarrow> B(i := []) | Inl _ \<Rightarrow> B) M'"
| other: "mg_voted K B M \<Longrightarrow>
    M' \<in> {mg_set_voting_power a pow M, register_chain cid n b M, snd (submit_chain_signal i cid yes b M), snd (advance_to_voting i b M),
      snd (upgrade_finalize i b M), snd (execute_proposal i b M), snd (upgrade_cancel i a M), clear_events M} \<Longrightarrow>
    mg_voted K B M'"

lemma mg_reachable_voted: "mg_reachable K M \<Longrightarrow> \<exists>B. mg_voted K B M"
proof (induction rule: mg_reachable.induct)
  case start
  then show ?case using mg_voted.start by blast
next
  case (step M b M')
  then obtain B where B: "mg_voted K B M" by blast
  from step.hyps(2) show ?case
  proof cases
    case (vote i a yes)
    then show ?thesis using mg_voted.vote [OF B, of i a yes b] by (metis prod.collapse)
  next
    case (propose_change a cs reason dep)
    then have "(fst (propose_parameter_change K a cs reason dep b M), M')
        \<in> {propose_parameter_change K a cs reason dep b M, propose_version_upgrade K a ver log brk imp dep b M}"
      for ver log brk imp by simp
    from mg_voted.propose [OF B this] show ?thesis by blast
  next
    case (propose_version a ver log brk imp dep)
    then have "(fst (propose_version_upgrade K a ver log brk imp dep b M), M')
        \<in> {propose_parameter_change K a cs reason dep b M, propose_version_upgrade K a ver log brk imp dep b M}"
      for cs reason by simp
    from mg_voted.propose [OF B this] show ?thesis by blast
  qed (use mg_voted.other [OF B] in blast)+
qed


text \<open>The voting power of the ballots on one side.\<close>

definition cast_for :: "bool \<Rightarrow> ballots \<Rightarrow> nat" where
  "cast_for side bs = (\<Sum>(a, yes, w) \<leftarrow> filter (\<lambda>(a, yes, w). yes = side) bs. unat w)"

definition tally_ok :: "ballots \<Rightarrow> upgrade_proposal \<Rightarrow> bool" where
  "tally_ok bs p \<longleftrightarrow>
     distinct (map fst bs) \<and> dom (hm_get (ug_voters p)) = fst ` set bs
     \<and> ug_yes_votes p = of_nat (cast_for True bs) \<and> ug_no_votes p = of_nat (cast_for False bs)"

lemma tally_ok_update [simp]:
  "tally_ok bs (p\<lparr>ug_status := st\<rparr>) = tally_ok bs p" "tally_ok bs (p\<lparr>ug_voting_started := x\<rparr>) = tally_ok bs p"
  "tally_ok bs (p\<lparr>ug_voting_ended := y\<rparr>) = tally_ok bs p" "tally_ok bs (p\<lparr>ug_chain_signals := z\<rparr>) = tally_ok bs p"
  by (simp_all add: tally_ok_def)

definition tallies_ok :: "(hash \<Rightarrow> ballots) \<Rightarrow> meta_governance \<Rightarrow> bool" where
  "tallies_ok B M \<longleftrightarrow> (\<forall>i p. hm_get (mg_proposals M) i = Some p \<longrightarrow> tally_ok (B i) p)"



lemma tallies_ok_frame [simp]:
  "tallies_ok B (M\<lparr>mg_parameters := ps\<rparr>) = tallies_ok B M" "tallies_ok B (M\<lparr>mg_parameter_history := h\<rparr>) = tallies_ok B M"
  "tallies_ok B (M\<lparr>mg_executed_proposals := ids\<rparr>) = tallies_ok B M"
  "tallies_ok B (mg_set_voting_power a pow M) = tallies_ok B M" "tallies_ok B (register_chain cid n b M) = tallies_ok B M"
  "tallies_ok B (clear_events M) = tallies_ok B M"
  by (simp_all add: tallies_ok_def mg_set_voting_power_def register_chain_def clear_events_def)






text \<open>
  A complete upgrade: account 1 holds all the voting power, proposes an inflation of 3 per cent,
  votes for it, and the change takes effect sixty days after the vote.
\<close>

definition demo_power :: meta_governance where
  "demo_power = mg_set_voting_power 1 100 meta_governance_new"

definition demo_upgrade :: upgrade_proposal where
  "demo_upgrade = upgrade_proposal_new demo_crypto 1 (UP_ParameterChange [InflationRate 3] []) (minimal_analysis ''parameters'') 100 0"

definition demo_approved :: meta_governance where
  "demo_approved =
     snd (upgrade_finalize (ug_id demo_upgrade) 100800
       (snd (upgrade_vote (ug_id demo_upgrade) 1 True 5
         (snd (propose_parameter_change demo_crypto 1 [InflationRate 3] [] 100 0 demo_power)))))"

lemma demo_approved_reachable: "mg_reachable demo_crypto demo_approved"
  unfolding demo_approved_def demo_power_def
  by (rule mg_reachable.step [OF mg_reachable.step [OF mg_reachable.step [OF mg_reachable.step [OF mg_reachable.start mg_step.set_power]
        mg_step.propose_change] mg_step.vote] mg_step.finalize])



lemma demo_upgrade_facts:
  "ug_status demo_upgrade = US_Voting" "ug_voting_started demo_upgrade = Some 0" "ug_voters demo_upgrade = []"
  "ug_yes_votes demo_upgrade = 0" "ug_no_votes demo_upgrade = 0" "ug_type demo_upgrade = UP_ParameterChange [InflationRate 3] []"
  by (simp_all add: demo_upgrade_def upgrade_proposal_new_def)





text \<open>
  Beyond that bound the percentage is not the share of the yes votes: three yes votes against \<open>2 ^ 128 - 1\<close> no votes
  add up to two, and the proposal passes.
\<close>

lemma wrapped_vote_passes:
  "upgrade_passed (demo_upgrade\<lparr>ug_yes_votes := 3, ug_no_votes := - 1\<rparr>)"
  by (simp add: upgrade_passed_def upgrade_approval_def demo_upgrade_facts const_defs)

section \<open>Behaviour that differs from the documentation\<close>

text \<open>
  A fee burn rate of 60 per cent is within its bounds, so it can be proposed; its execution fails in
  \<open>validate\<close> because the validators' share is 50 per cent, but the parameters keep the new rate: the
  shares then add up to 110 per cent.
\<close>

lemma failed_change_is_kept:
  "is_constitutional genesis_parameters (FeeBurnRate 60)"
  "fst (apply_change (FeeBurnRate 60) genesis_parameters) = Err FeeRatesTooHigh"
  "bv_value (ep_fee_burn_rate (pp_economics (snd (apply_change (FeeBurnRate 60) genesis_parameters)))) = 60"
  "bv_value (ep_fee_validator_rate (pp_economics (snd (apply_change (FeeBurnRate 60) genesis_parameters)))) = 50"
  by (simp_all add: const_defs validated_def set_bounded_def try_set_def andThen_def validate_parameters_def genesis_parameters_def
      default_economics_parameters_def default_governance_parameters_def bounded_new_def Let_def)

text \<open>
  In the same way the exit timelock can end up shorter than the standard timelock: raising the
  standard timelock is checked against its own bounds only.
\<close>

lemma exit_timelock_overtaken:
  assumes "bv_value (gp_exit_timelock (pp_governance p)) = 172800" and "within MIN_STANDARD_TIMELOCK MAX_STANDARD_TIMELOCK (gp_standard_timelock (pp_governance p))"
  shows "is_constitutional p (StandardTimelock 432000)" and "\<not> validate_timelocks (snd (apply_change (StandardTimelock 432000) p))"
  using assms by (simp_all add: const_defs within_def validated_def set_bounded_def try_set_def andThen_def validate_parameters_def validate_timelocks_def Let_def)

text \<open>
  The identifier of a proposal hashes the proposer, the block and the deposit only: a second proposal
  of the same account in the same block with the same deposit replaces the first, votes and all.
\<close>

lemma same_block_proposal_replaces:
  "ug_id (upgrade_proposal_new K a ty imp dep b) = ug_id (upgrade_proposal_new K a ty' imp' dep b)"
  by (simp add: upgrade_proposal_new_def)

end
