(* ===== verification/Kratos_Forks.thy ===== *)
theory Kratos_Forks
  imports Kratos_Reputation Kratos_Protocol
begin

text \<open>
  Forks (\<^verbatim>\<open>types/fork.rs\<close>, \<^verbatim>\<open>contracts/fork.rs\<close>): proposals, the support that declares
  them, the preparation period, snapshots, the alignment of sidechains, execution and the ossification of
  the protocol.  The order in which the proposals are listed is the argument \<open>visit\<close>.
\<close>

section \<open>Fork types\<close>

definition BLOCKS_PER_YEAR :: block_number where [const_defs]: "BLOCKS_PER_YEAR = 5256000"
definition FORK_VALIDATOR_THRESHOLD_PERCENT :: u8 where [const_defs]: "FORK_VALIDATOR_THRESHOLD_PERCENT = 33"
definition FORK_STAKE_THRESHOLD_PERCENT :: u8 where [const_defs]: "FORK_STAKE_THRESHOLD_PERCENT = 40"
definition FORK_SIDECHAIN_THRESHOLD :: nat where [const_defs]: "FORK_SIDECHAIN_THRESHOLD = 3"
definition OSSIFICATION_APPROVAL_THRESHOLD :: u8 where [const_defs]: "OSSIFICATION_APPROVAL_THRESHOLD = 90"
definition FORK_PROPOSAL_DEPOSIT :: balance where [const_defs]: "FORK_PROPOSAL_DEPOSIT = 100000"
definition SIDECHAIN_ALIGNMENT_DEADLINE :: block_number where [const_defs]: "SIDECHAIN_ALIGNMENT_DEADLINE = 7 * 14400"
definition MAX_CONCURRENT_FORKS :: nat where [const_defs]: "MAX_CONCURRENT_FORKS = 3"
definition FORK_COOLDOWN :: block_number where [const_defs]: "FORK_COOLDOWN = 30 * 14400"

datatype fork_type =
    FT_Technical protocol_version string
  | FT_Constitutional constitutional_axiom string
  | FT_Governance string u32
  | FT_Social string
  | FT_Survival string

fun min_preparation_period :: "fork_type \<Rightarrow> block_number" where
  "min_preparation_period (FT_Technical _ _) = 30 * 14400"
| "min_preparation_period (FT_Constitutional _ _) = 60 * 14400"
| "min_preparation_period (FT_Governance _ _) = 45 * 14400"
| "min_preparation_period (FT_Social _) = 60 * 14400"
| "min_preparation_period (FT_Survival _) = 30 * 14400"

definition max_preparation_period :: "fork_type \<Rightarrow> block_number" where
  "max_preparation_period ty = 90 * 14400"

datatype fork_declarant =
    FD_Validators u32 u32 u64
  | FD_Stake balance balance u8
  | FD_Sidechains "chain_id list"
  | FD_EmergencyEscalation u8

fun meets_threshold :: "fork_declarant \<Rightarrow> bool" where
  "meets_threshold (FD_Validators n total_validators _) = (max (total_validators * 33 div 100) 1 \<le> n)"
| "meets_threshold (FD_Stake _ _ percent) = (40 \<le> percent)"
| "meets_threshold (FD_Sidechains cs) = (3 \<le> length cs)"
| "meets_threshold (FD_EmergencyEscalation failed_recoveries) = (2 \<le> failed_recoveries)"

datatype fork_status = FS_Proposed | FS_Declared | FS_Ready | FS_Executed | FS_Cancelled | FS_Expired

record fork_declaration =
  fd_id :: hash
  fd_name :: string
  fd_fork_type :: fork_type
  fd_declared_by :: fork_declarant
  fd_declared_at :: block_number
  fd_preparation_ends :: block_number
  fd_fork_height :: block_number
  fd_supporting_validators :: "account_id set"
  fd_supporting_stake :: balance
  fd_supporting_sidechains :: "chain_id list"
  fd_status :: fork_status
  fd_new_chain_id :: "chain_id option"
  fd_description :: string

definition fork_declaration_new ::
  "crypto \<Rightarrow> (string \<Rightarrow> bytes) \<Rightarrow> string \<Rightarrow> fork_type \<Rightarrow> fork_declarant \<Rightarrow> block_number \<Rightarrow> string \<Rightarrow> fork_declaration" where
  "fork_declaration_new K utf8 nam ty declared_by declared_at description =
     (let preparation_ends = declared_at + min_preparation_period ty
      in \<lparr>fd_id = blake3 K (utf8 nam @ le_bytes 8 declared_at), fd_name = nam, fd_fork_type = ty, fd_declared_by = declared_by,
          fd_declared_at = declared_at, fd_preparation_ends = preparation_ends, fd_fork_height = preparation_ends + 14400,
          fd_supporting_validators = {}, fd_supporting_stake = 0, fd_supporting_sidechains = [], fd_status = FS_Proposed,
          fd_new_chain_id = None, fd_description = description\<rparr>)"

definition is_in_preparation :: "block_number \<Rightarrow> fork_declaration \<Rightarrow> bool" where
  "is_in_preparation b f = (fd_status f = FS_Declared \<and> b < fd_preparation_ends f)"

definition fork_is_ready :: "block_number \<Rightarrow> fork_declaration \<Rightarrow> bool" where
  "fork_is_ready b f = (fd_status f = FS_Ready \<or> fd_status f = FS_Declared \<and> fd_preparation_ends f \<le> b)"

definition support_percent :: "balance \<Rightarrow> fork_declaration \<Rightarrow> u8" where
  "support_percent total_stake f = (if total_stake = 0 then 0 else ucast (fd_supporting_stake f * 100 div total_stake))"

record validator_snapshot =
  vn_id :: account_id
  vn_stake :: balance
  vn_validator_credits :: u64
  vn_is_active :: bool

record fork_snapshot =
  fs_block_number :: block_number
  fs_state_root :: hash
  fs_validator_set :: "validator_snapshot list"
  fs_identity_merkle_root :: hash
  fs_reputation_merkle_root :: hash
  fs_sidechain_registry_root :: hash
  fs_total_supply :: balance
  fs_created_at :: block_number
  fs_fork_id :: hash

record identity_snapshot =
  in_identity_hash :: hash
  in_status :: identity_status
  in_attestation_count :: u32
  in_deposit :: balance
  in_registered_at :: block_number

record reputation_snapshot =
  rn_identity_hash :: hash
  rn_chain_id :: chain_id
  rn_domains :: "(reputation_domain, u64) hmap"
  rn_post_fork_decay_multiplier :: u8

definition apply_fork_decay :: "u64 \<Rightarrow> u64 \<Rightarrow> reputation_snapshot \<Rightarrow> u64" where
  "apply_fork_decay original_score epochs_since_fork r =
     sat_sub original_score (5 * ucast (rn_post_fork_decay_multiplier r) * epochs_since_fork)"

datatype fork_alignment = FollowA | FollowB | FA_Independent | Undecided

record sidechain_alignment =
  sl_chain_id :: chain_id
  sl_fork_id :: hash
  sl_alignment :: fork_alignment
  sl_decided_at :: "block_number option"
  sl_decided_by :: "hash option"

definition undecided_alignment :: "chain_id \<Rightarrow> hash \<Rightarrow> sidechain_alignment" where
  "undecided_alignment cid fid =
     \<lparr>sl_chain_id = cid, sl_fork_id = fid, sl_alignment = Undecided, sl_decided_at = None, sl_decided_by = None\<rparr>"

definition set_alignment :: "fork_alignment \<Rightarrow> block_number \<Rightarrow> hash \<Rightarrow> sidechain_alignment \<Rightarrow> sidechain_alignment" where
  "set_alignment al b proposal a = a\<lparr>sl_alignment := al, sl_decided_at := Some b, sl_decided_by := Some proposal\<rparr>"

record ossification_state =
  os_last_parameter_change :: block_number
  os_proposed :: bool
  os_proposed_at :: "block_number option"
  os_votes :: "(account_id, bool) hmap"
  os_approval_power :: u64
  os_rejection_power :: u64
  os_active :: bool
  os_activated_at :: "block_number option"

definition ossification_new :: ossification_state where
  "ossification_new =
     \<lparr>os_last_parameter_change = 0, os_proposed = False, os_proposed_at = None, os_votes = [], os_approval_power = 0,
      os_rejection_power = 0, os_active = False, os_activated_at = None\<rparr>"

definition can_trigger_ossification :: "block_number \<Rightarrow> ossification_state \<Rightarrow> bool" where
  "can_trigger_ossification b s = (\<not> os_active s \<and> 10 \<le> sat_sub b (os_last_parameter_change s) div BLOCKS_PER_YEAR)"

definition ossification_approval_percent :: "ossification_state \<Rightarrow> u8" where
  "ossification_approval_percent s =
     (let tot = os_approval_power s + os_rejection_power s in if tot = 0 then 0 else ucast (os_approval_power s * 100 div tot))"

definition record_parameter_change :: "block_number \<Rightarrow> ossification_state \<Rightarrow> ossification_state" where
  "record_parameter_change b s =
     (let s' = s\<lparr>os_last_parameter_change := b\<rparr>
      in if os_proposed s \<and> \<not> os_active s
         then s'\<lparr>os_proposed := False, os_proposed_at := None, os_votes := [], os_approval_power := 0, os_rejection_power := 0\<rparr>
         else s')"

record fork_continuity =
  fc_fork_id :: hash
  fc_fork_block :: block_number
  fc_balance_snapshot :: "(account_id, balance) hmap"
  fc_identity_snapshots :: "(hash, identity_snapshot) hmap"
  fc_reputation_snapshots :: "(chain_id \<times> hash, reputation_snapshot) hmap"
  fc_sidechain_alignments :: "(chain_id, fork_alignment) hmap"

definition continuity_new :: "hash \<Rightarrow> block_number \<Rightarrow> fork_continuity" where
  "continuity_new fid b =
     \<lparr>fc_fork_id = fid, fc_fork_block = b, fc_balance_snapshot = [], fc_identity_snapshots = [], fc_reputation_snapshots = [],
      fc_sidechain_alignments = []\<rparr>"

definition get_fork_balance :: "account_id \<Rightarrow> fork_continuity \<Rightarrow> balance" where
  "get_fork_balance a c = (case hm_get (fc_balance_snapshot c) a of Some x \<Rightarrow> x | None \<Rightarrow> 0)"

section \<open>The contract\<close>

datatype fork_event =
    ForkProposed hash string fork_type block_number
  | ForkDeclared hash block_number block_number
  | ValidatorSupport hash account_id u64
  | SidechainAligned hash chain_id fork_alignment
  | SnapshotCreated hash block_number hash
  | ForkExecuted hash block_number chain_id
  | ForkCancelled hash string
  | OssificationProposed block_number
  | OssificationVote account_id bool
  | OssificationActivated block_number

datatype fork_error =
    ForkAlreadyExists hash | ForkNotFound hash | TooManyConcurrentForks | ForkAlreadyDeclared | NotInPreparation | ForkNotReady
  | ForkInCooldown block_number | InsufficientSupport u8 u8 | FE_AlreadyVoted | FE_NoVotingPower | InvalidForkType string | PreparationNotMet
  | SidechainNotFound chain_id | AlignmentDeadlinePassed | SnapshotAlreadyExists | CannotOssifyDuringEmergency | OssificationNotEligible
  | AlreadyOssified | FE_InsufficientDeposit balance balance

record fork_contract =
  fk_proposals :: "(hash, fork_declaration) hmap"
  fk_executed_forks :: "fork_declaration list"
  fk_snapshots :: "(hash, fork_snapshot) hmap"
  fk_continuity :: "(hash, fork_continuity) hmap"
  fk_alignments :: "(hash \<times> chain_id, sidechain_alignment) hmap"
  fk_ossification :: ossification_state
  fk_voting_power :: "(account_id, u64) hmap"
  fk_total_power :: u64
  fk_total_stake :: balance
  fk_last_fork_executed :: "block_number option"
  fk_events :: "fork_event list"

type_synonym 'a fork_action = "(fork_contract, fork_error, 'a) action"

definition fork_contract_new :: fork_contract where
  "fork_contract_new =
     \<lparr>fk_proposals = [], fk_executed_forks = [], fk_snapshots = [], fk_continuity = [], fk_alignments = [], fk_ossification = ossification_new,
      fk_voting_power = [], fk_total_power = 0, fk_total_stake = 0, fk_last_fork_executed = None, fk_events = []\<rparr>"

definition fk_emit :: "fork_event \<Rightarrow> fork_contract \<Rightarrow> fork_contract" where
  "fk_emit ev C = C\<lparr>fk_events := fk_events C @ [ev]\<rparr>"

definition fk_set_voting_power :: "account_id \<Rightarrow> u64 \<Rightarrow> fork_contract \<Rightarrow> fork_contract" where
  "fk_set_voting_power a pow C =
     (let vp = (if 0 < pow then hm_insert a pow (fk_voting_power C) else hm_remove a (fk_voting_power C))
      in C\<lparr>fk_voting_power := vp, fk_total_power := sum_list (map snd vp)\<rparr>)"

definition set_total_stake :: "balance \<Rightarrow> fork_contract \<Rightarrow> fork_contract" where
  "set_total_stake stake C = C\<lparr>fk_total_stake := stake\<rparr>"

definition put_fork :: "hash \<Rightarrow> fork_declaration \<Rightarrow> fork_contract \<Rightarrow> fork_contract" where
  "put_fork i f C = C\<lparr>fk_proposals := hm_insert i f (fk_proposals C)\<rparr>"

definition fork_is_active :: "fork_declaration \<Rightarrow> bool" where
  "fork_is_active f = (fd_status f \<in> {FS_Proposed, FS_Declared, FS_Ready})"

definition active_fork_count :: "fork_contract \<Rightarrow> nat" where
  "active_fork_count C = length (filter (\<lambda>(_, f). fork_is_active f) (fk_proposals C))"

definition propose_fork ::
  "crypto \<Rightarrow> (string \<Rightarrow> bytes) \<Rightarrow> account_id \<Rightarrow> string \<Rightarrow> fork_type \<Rightarrow> string \<Rightarrow> balance \<Rightarrow> block_number \<Rightarrow> hash fork_action" where
  "propose_fork K utf8 proposer nam ty description deposit b C =
     (if deposit < FORK_PROPOSAL_DEPOSIT then (Err (FE_InsufficientDeposit deposit FORK_PROPOSAL_DEPOSIT), C)
      else if MAX_CONCURRENT_FORKS \<le> active_fork_count C then (Err TooManyConcurrentForks, C)
      else case (case fk_last_fork_executed C of
                   Some l \<Rightarrow> if b < l + FORK_COOLDOWN then Some (l + FORK_COOLDOWN) else None
                 | None \<Rightarrow> None) of
          Some ends \<Rightarrow> (Err (ForkInCooldown ends), C)
        | None \<Rightarrow>
            let declarant = FD_Validators 1 (of_nat (length (fk_voting_power C)))
                  (case hm_get (fk_voting_power C) proposer of Some pow \<Rightarrow> pow | None \<Rightarrow> 0);
                f = fork_declaration_new K utf8 nam ty declarant b description
            in if hm_contains (fk_proposals C) (fd_id f) then (Err (ForkAlreadyExists (fd_id f)), C)
               else (Ok (fd_id f), fk_emit (ForkProposed (fd_id f) nam ty b)
                       (put_fork (fd_id f) (f\<lparr>fd_supporting_validators := {proposer}\<rparr>) C)))"

definition validator_percent :: "fork_contract \<Rightarrow> fork_declaration \<Rightarrow> u32" where
  "validator_percent C f =
     (let total_validators = of_nat (length (fk_voting_power C)) :: u32
      in if 0 < total_validators then sat_mul (of_nat (card (fd_supporting_validators f))) 100 div total_validators else 0)"

definition stake_percent :: "fork_contract \<Rightarrow> fork_declaration \<Rightarrow> u8" where
  "stake_percent C f =
     (if 0 < fk_total_stake C then ucast (sat_mul (fd_supporting_stake f) 100 div fk_total_stake C) else 0)"

definition start_preparation :: "block_number \<Rightarrow> fork_declarant \<Rightarrow> fork_declaration \<Rightarrow> fork_declaration" where
  "start_preparation b declarant f =
     f\<lparr>fd_status := FS_Declared, fd_declared_by := declarant, fd_preparation_ends := b + min_preparation_period (fd_fork_type f),
       fd_fork_height := b + min_preparation_period (fd_fork_type f) + 14400\<rparr>"

definition check_declaration_threshold :: "hash \<Rightarrow> block_number \<Rightarrow> unit fork_action" where
  "check_declaration_threshold i b C =
     (case hm_get (fk_proposals C) i of
        None \<Rightarrow> (Err (ForkNotFound i), C)
      | Some f \<Rightarrow>
          if fd_status f \<noteq> FS_Proposed then (Ok (), C)
          else
            let meets_validators = ucast FORK_VALIDATOR_THRESHOLD_PERCENT \<le> validator_percent C f;
                meets_stake = FORK_STAKE_THRESHOLD_PERCENT \<le> stake_percent C f
            in if meets_validators \<or> meets_stake
               then let declarant = (if meets_validators
                          then FD_Validators (of_nat (card (fd_supporting_validators f))) (of_nat (length (fk_voting_power C)))
                                 (sum_list (map snd (filter (\<lambda>(a, _). a \<in> fd_supporting_validators f) (fk_voting_power C))))
                          else FD_Stake (fd_supporting_stake f) (fk_total_stake C) (stake_percent C f));
                        f' = start_preparation b declarant f
                    in (Ok (), fk_emit (ForkDeclared i b (fd_preparation_ends f')) (put_fork i f' C))
               else (Ok (), C))"

definition support_fork :: "hash \<Rightarrow> account_id \<Rightarrow> balance \<Rightarrow> block_number \<Rightarrow> unit fork_action" where
  "support_fork i supporter stake_amount b C =
     (case hm_get (fk_voting_power C) supporter of
        None \<Rightarrow> (Err FE_NoVotingPower, C)
      | Some pow \<Rightarrow>
          (case hm_get (fk_proposals C) i of
             None \<Rightarrow> (Err (ForkNotFound i), C)
           | Some f \<Rightarrow>
               if supporter \<in> fd_supporting_validators f then (Err FE_AlreadyVoted, C)
               else if fd_status f \<noteq> FS_Proposed then (Err ForkAlreadyDeclared, C)
               else check_declaration_threshold i b (fk_emit (ValidatorSupport i supporter pow)
                      (put_fork i (f\<lparr>fd_supporting_validators := insert supporter (fd_supporting_validators f),
                                     fd_supporting_stake := fd_supporting_stake f + stake_amount\<rparr>) C))))"

definition declare_fork_from_sidechains :: "hash \<Rightarrow> chain_id list \<Rightarrow> block_number \<Rightarrow> unit fork_action" where
  "declare_fork_from_sidechains i sidechains b C =
     (case hm_get (fk_proposals C) i of
        None \<Rightarrow> (Err (ForkNotFound i), C)
      | Some f \<Rightarrow>
          if fd_status f \<noteq> FS_Proposed then (Err ForkAlreadyDeclared, C)
          else
            let chs = foldl (\<lambda>cs c. if c \<in> set cs then cs else cs @ [c]) (fd_supporting_sidechains f) sidechains;
                f' = f\<lparr>fd_supporting_sidechains := chs\<rparr>
            in if FORK_SIDECHAIN_THRESHOLD \<le> length chs
               then let f'' = start_preparation b (FD_Sidechains chs) f'
                    in (Ok (), fk_emit (ForkDeclared i b (fd_preparation_ends f'')) (put_fork i f'' C))
               else (Ok (), put_fork i f' C))"

definition create_snapshot ::
  "hash \<Rightarrow> hash \<Rightarrow> validator_snapshot list \<Rightarrow> hash \<Rightarrow> hash \<Rightarrow> hash \<Rightarrow> balance \<Rightarrow> block_number \<Rightarrow> unit fork_action" where
  "create_snapshot i state_rt validators identity_rt reputation_rt sidechain_rt supply b C =
     (case hm_get (fk_proposals C) i of
        None \<Rightarrow> (Err (ForkNotFound i), C)
      | Some f \<Rightarrow>
          if fd_status f \<noteq> FS_Declared then (Err NotInPreparation, C)
          else if hm_contains (fk_snapshots C) i then (Err SnapshotAlreadyExists, C)
          else (Ok (), fk_emit (SnapshotCreated i b state_rt)
                  (C\<lparr>fk_snapshots := hm_insert i \<lparr>fs_block_number = b, fs_state_root = state_rt, fs_validator_set = validators,
                       fs_identity_merkle_root = identity_rt, fs_reputation_merkle_root = reputation_rt, fs_sidechain_registry_root = sidechain_rt,
                       fs_total_supply = supply, fs_created_at = b, fs_fork_id = i\<rparr> (fk_snapshots C),
                     fk_continuity := hm_insert i (continuity_new i b) (fk_continuity C)\<rparr>)))"

definition change_continuity :: "hash \<Rightarrow> (fork_continuity \<Rightarrow> fork_continuity) \<Rightarrow> unit fork_action" where
  "change_continuity i g C =
     (case hm_get (fk_continuity C) i of
        None \<Rightarrow> (Err (ForkNotFound i), C)
      | Some c \<Rightarrow> (Ok (), C\<lparr>fk_continuity := hm_insert i (g c) (fk_continuity C)\<rparr>))"

definition add_balance_to_snapshot :: "hash \<Rightarrow> account_id \<Rightarrow> balance \<Rightarrow> unit fork_action" where
  "add_balance_to_snapshot i a x = change_continuity i (\<lambda>c. c\<lparr>fc_balance_snapshot := hm_insert a x (fc_balance_snapshot c)\<rparr>)"

definition add_identity_to_snapshot :: "hash \<Rightarrow> identity_snapshot \<Rightarrow> unit fork_action" where
  "add_identity_to_snapshot i s =
     change_continuity i (\<lambda>c. c\<lparr>fc_identity_snapshots := hm_insert (in_identity_hash s) s (fc_identity_snapshots c)\<rparr>)"

definition add_reputation_to_snapshot :: "hash \<Rightarrow> reputation_snapshot \<Rightarrow> unit fork_action" where
  "add_reputation_to_snapshot i s =
     change_continuity i (\<lambda>c. c\<lparr>fc_reputation_snapshots := hm_insert (rn_chain_id s, rn_identity_hash s) s (fc_reputation_snapshots c)\<rparr>)"

definition note_alignment :: "hash \<Rightarrow> chain_id \<Rightarrow> fork_alignment \<Rightarrow> fork_contract \<Rightarrow> fork_contract" where
  "note_alignment i cid al C =
     snd (change_continuity i (\<lambda>c. c\<lparr>fc_sidechain_alignments := hm_insert cid al (fc_sidechain_alignments c)\<rparr>) C)"

definition set_sidechain_alignment :: "hash \<Rightarrow> chain_id \<Rightarrow> fork_alignment \<Rightarrow> hash \<Rightarrow> block_number \<Rightarrow> unit fork_action" where
  "set_sidechain_alignment i cid al proposal b C =
     (case hm_get (fk_proposals C) i of
        None \<Rightarrow> (Err (ForkNotFound i), C)
      | Some f \<Rightarrow>
          if sat_sub (fd_fork_height f) SIDECHAIN_ALIGNMENT_DEADLINE < b then (Err AlignmentDeadlinePassed, C)
          else
            let a = (case hm_get (fk_alignments C) (i, cid) of Some a \<Rightarrow> a | None \<Rightarrow> undecided_alignment cid i)
            in (Ok (), fk_emit (SidechainAligned i cid al)
                  (note_alignment i cid al (C\<lparr>fk_alignments := hm_insert (i, cid) (set_alignment al b proposal a) (fk_alignments C)\<rparr>))))"

definition get_alignment :: "hash \<Rightarrow> chain_id \<Rightarrow> fork_contract \<Rightarrow> fork_alignment" where
  "get_alignment i cid C = (case hm_get (fk_alignments C) (i, cid) of Some a \<Rightarrow> sl_alignment a | None \<Rightarrow> Undecided)"

definition apply_default_alignment :: "hash \<Rightarrow> block_number \<Rightarrow> fork_contract \<Rightarrow> chain_id \<Rightarrow> fork_contract" where
  "apply_default_alignment i b C cid =
     (if hm_contains (fk_alignments C) (i, cid) then C
      else note_alignment i cid FA_Independent
             (C\<lparr>fk_alignments := hm_insert (i, cid) ((undecided_alignment cid i)\<lparr>sl_alignment := FA_Independent, sl_decided_at := Some b\<rparr>)
                (fk_alignments C)\<rparr>))"

definition apply_default_alignments :: "hash \<Rightarrow> chain_id list \<Rightarrow> block_number \<Rightarrow> unit fork_action" where
  "apply_default_alignments i sidechains b C = (Ok (), foldl (apply_default_alignment i b) C sidechains)"

definition mark_ready :: "hash \<Rightarrow> block_number \<Rightarrow> unit fork_action" where
  "mark_ready i b C =
     (case hm_get (fk_proposals C) i of
        None \<Rightarrow> (Err (ForkNotFound i), C)
      | Some f \<Rightarrow>
          if fd_status f \<noteq> FS_Declared then (Err NotInPreparation, C)
          else if b < fd_preparation_ends f then (Err PreparationNotMet, C)
          else (Ok (), put_fork i (f\<lparr>fd_status := FS_Ready\<rparr>) C))"

definition execute_fork :: "hash \<Rightarrow> chain_id \<Rightarrow> block_number \<Rightarrow> unit fork_action" where
  "execute_fork i new_chain b C =
     (case hm_get (fk_proposals C) i of
        None \<Rightarrow> (Err (ForkNotFound i), C)
      | Some f \<Rightarrow>
          if fd_status f \<noteq> FS_Ready then (Err ForkNotReady, C)
          else if b < fd_fork_height f then (Err PreparationNotMet, C)
          else (Ok (), fk_emit (ForkExecuted i b new_chain)
                  (C\<lparr>fk_last_fork_executed := Some b, fk_proposals := hm_remove i (fk_proposals C),
                     fk_executed_forks := fk_executed_forks C @ [f\<lparr>fd_status := FS_Executed, fd_new_chain_id := Some new_chain\<rparr>]\<rparr>)))"

definition cancel_fork :: "hash \<Rightarrow> string \<Rightarrow> unit fork_action" where
  "cancel_fork i reason C =
     (case hm_get (fk_proposals C) i of
        None \<Rightarrow> (Err (ForkNotFound i), C)
      | Some f \<Rightarrow>
          if fd_status f = FS_Executed then (Err (ForkNotFound i), C)
          else (Ok (), fk_emit (ForkCancelled i reason) (put_fork i (f\<lparr>fd_status := FS_Cancelled\<rparr>) C)))"

section \<open>Ossification\<close>

definition propose_ossification :: "account_id \<Rightarrow> block_number \<Rightarrow> bool \<Rightarrow> unit fork_action" where
  "propose_ossification proposer b emergency_active C =
     (if emergency_active then (Err CannotOssifyDuringEmergency, C)
      else if os_active (fk_ossification C) then (Err AlreadyOssified, C)
      else if \<not> can_trigger_ossification b (fk_ossification C) then (Err OssificationNotEligible, C)
      else (Ok (), fk_emit (OssificationProposed b)
              (C\<lparr>fk_ossification := (fk_ossification C)\<lparr>os_proposed := True, os_proposed_at := Some b\<rparr>\<rparr>)))"

definition retract_vote :: "account_id \<Rightarrow> u64 \<Rightarrow> ossification_state \<Rightarrow> ossification_state" where
  "retract_vote voter pow s =
     (case hm_get (os_votes s) voter of
        Some True \<Rightarrow> s\<lparr>os_approval_power := os_approval_power s - pow\<rparr>
      | Some False \<Rightarrow> s\<lparr>os_rejection_power := os_rejection_power s - pow\<rparr>
      | None \<Rightarrow> s)"

definition vote_ossification :: "account_id \<Rightarrow> bool \<Rightarrow> block_number \<Rightarrow> unit fork_action" where
  "vote_ossification voter approve b C =
     (if \<not> os_proposed (fk_ossification C) then (Err OssificationNotEligible, C)
      else if os_active (fk_ossification C) then (Err AlreadyOssified, C)
      else case hm_get (fk_voting_power C) voter of
          None \<Rightarrow> (Err FE_NoVotingPower, C)
        | Some pow \<Rightarrow>
            let s = retract_vote voter pow (fk_ossification C);
                s1 = s\<lparr>os_votes := hm_insert voter approve (os_votes s)\<rparr>;
                s2 = (if approve then s1\<lparr>os_approval_power := os_approval_power s1 + pow\<rparr>
                      else s1\<lparr>os_rejection_power := os_rejection_power s1 + pow\<rparr>);
                C' = fk_emit (OssificationVote voter approve) (C\<lparr>fk_ossification := s2\<rparr>);
                approval = (if 0 < fk_total_power C then ucast (sat_mul (os_approval_power s2) 100 div fk_total_power C) else 0 :: u8)
            in if OSSIFICATION_APPROVAL_THRESHOLD \<le> approval
               then (Ok (), fk_emit (OssificationActivated b)
                       (C'\<lparr>fk_ossification := s2\<lparr>os_active := True, os_activated_at := Some b\<rparr>\<rparr>))
               else (Ok (), C'))"

definition active_forks :: "(hash list \<Rightarrow> hash list) \<Rightarrow> fork_contract \<Rightarrow> fork_declaration list" where
  "active_forks visit C = filter fork_is_active (List.map_filter (hm_get (fk_proposals C)) (visit (hm_keys (fk_proposals C))))"

definition fk_drain_events :: "fork_contract \<Rightarrow> fork_event list \<times> fork_contract" where
  "fk_drain_events C = (fk_events C, C\<lparr>fk_events := []\<rparr>)"

section \<open>Runs of the contract\<close>

text \<open>A call of the contract by its environment; the caller supplies the block at which it happens.\<close>

datatype fork_op =
    Op_power account_id u64
  | Op_total_stake balance
  | Op_propose account_id string fork_type string balance
  | Op_support hash account_id balance
  | Op_sidechains hash "chain_id list"
  | Op_snapshot hash hash "validator_snapshot list" hash hash hash balance
  | Op_balance hash account_id balance
  | Op_identity hash identity_snapshot
  | Op_reputation hash reputation_snapshot
  | Op_align hash chain_id fork_alignment hash
  | Op_default hash "chain_id list"
  | Op_ready hash
  | Op_execute hash chain_id
  | Op_cancel hash string
  | Op_ossify account_id bool
  | Op_vote account_id bool
  | Op_drain

fun fork_exec :: "crypto \<Rightarrow> (string \<Rightarrow> bytes) \<Rightarrow> block_number \<Rightarrow> fork_op \<Rightarrow> fork_contract \<Rightarrow> fork_contract" where
  "fork_exec K utf8 b (Op_power a pow) C = fk_set_voting_power a pow C"
| "fork_exec K utf8 b (Op_total_stake s) C = set_total_stake s C"
| "fork_exec K utf8 b (Op_propose a nam ty des dep) C = snd (propose_fork K utf8 a nam ty des dep b C)"
| "fork_exec K utf8 b (Op_support i a stake) C = snd (support_fork i a stake b C)"
| "fork_exec K utf8 b (Op_sidechains i cs) C = snd (declare_fork_from_sidechains i cs b C)"
| "fork_exec K utf8 b (Op_snapshot i sr vs ir rr cr supply) C = snd (create_snapshot i sr vs ir rr cr supply b C)"
| "fork_exec K utf8 b (Op_balance i a x) C = snd (add_balance_to_snapshot i a x C)"
| "fork_exec K utf8 b (Op_identity i s) C = snd (add_identity_to_snapshot i s C)"
| "fork_exec K utf8 b (Op_reputation i s) C = snd (add_reputation_to_snapshot i s C)"
| "fork_exec K utf8 b (Op_align i cid al p) C = snd (set_sidechain_alignment i cid al p b C)"
| "fork_exec K utf8 b (Op_default i cs) C = snd (apply_default_alignments i cs b C)"
| "fork_exec K utf8 b (Op_ready i) C = snd (mark_ready i b C)"
| "fork_exec K utf8 b (Op_execute i n) C = snd (execute_fork i n b C)"
| "fork_exec K utf8 b (Op_cancel i r) C = snd (cancel_fork i r C)"
| "fork_exec K utf8 b (Op_ossify a e) C = snd (propose_ossification a b e C)"
| "fork_exec K utf8 b (Op_vote a v) C = snd (vote_ossification a v b C)"
| "fork_exec K utf8 b Op_drain C = snd (fk_drain_events C)"

text \<open>
  What the calls have said about a proposal since it was made: who proposed it; the accepted calls of
  \<open>support_fork\<close>, each with the voting power of the supporter at that moment and the stake it claimed; how many
  accounts had voting power and what the total stake was at the last of them; and the sidechains named by
  accepted calls of \<open>declare_fork_from_sidechains\<close>.
\<close>

record fork_trail =
  ft_proposer :: account_id
  ft_backers :: "(account_id \<times> u64 \<times> balance) list"
  ft_validators :: nat
  ft_total_stake :: balance
  ft_chains :: "chain_id list"

definition trail_new :: "account_id \<Rightarrow> fork_trail" where
  "trail_new a = \<lparr>ft_proposer = a, ft_backers = [], ft_validators = 0, ft_total_stake = 0, ft_chains = []\<rparr>"

definition power_of :: "fork_contract \<Rightarrow> account_id \<Rightarrow> u64" where
  "power_of C a = (case hm_get (fk_voting_power C) a of Some pow \<Rightarrow> pow | None \<Rightarrow> 0)"

definition backed :: "account_id \<Rightarrow> balance \<Rightarrow> fork_contract \<Rightarrow> fork_trail \<Rightarrow> fork_trail" where
  "backed a stake C t =
     t\<lparr>ft_backers := (a, power_of C a, stake) # ft_backers t, ft_validators := length (fk_voting_power C),
       ft_total_stake := fk_total_stake C\<rparr>"

definition chains_named :: "chain_id list \<Rightarrow> fork_trail \<Rightarrow> fork_trail" where
  "chains_named cs t = t\<lparr>ft_chains := cs @ ft_chains t\<rparr>"

fun fork_note :: "crypto \<Rightarrow> (string \<Rightarrow> bytes) \<Rightarrow> block_number \<Rightarrow> fork_op \<Rightarrow> fork_contract \<Rightarrow> (hash \<Rightarrow> fork_trail) \<Rightarrow> hash \<Rightarrow> fork_trail" where
  "fork_note K utf8 b (Op_propose a nam ty des dep) C H =
     (case fst (propose_fork K utf8 a nam ty des dep b C) of Inr i \<Rightarrow> H(i := trail_new a) | Inl _ \<Rightarrow> H)"
| "fork_note K utf8 b (Op_support i a stake) C H =
     (if is_ok (fst (support_fork i a stake b C)) then H(i := backed a stake C (H i)) else H)"
| "fork_note K utf8 b (Op_sidechains i cs) C H =
     (if is_ok (fst (declare_fork_from_sidechains i cs b C)) then H(i := chains_named cs (H i)) else H)"
| "fork_note K utf8 b _ C H = H"

text \<open>Calls in the order of their blocks; the chain stays below block \<open>2\<^sup>63\<close>.\<close>

type_synonym fork_state = "fork_contract \<times> block_number \<times> (hash \<Rightarrow> fork_trail)"

inductive fork_run :: "crypto \<Rightarrow> (string \<Rightarrow> bytes) \<Rightarrow> fork_state \<Rightarrow> fork_state \<Rightarrow> bool"
  for K utf8 where
  fork_start: "fork_run K utf8 s s"
| fork_step: "\<lbrakk>fork_run K utf8 s (C, b, H); b \<le> b'; unat b' < 2 ^ 63\<rbrakk> \<Longrightarrow>
    fork_run K utf8 s (fork_exec K utf8 b' opn C, b', fork_note K utf8 b' opn C H)"

definition fork_declared :: "fork_declaration \<Rightarrow> bool" where
  "fork_declared f = (fd_status f \<in> {FS_Declared, FS_Ready})"

text \<open>What a proposal keeps from the block \<open>b0\<close> on at which it is not declared yet.\<close>

definition fork_fine :: "block_number \<Rightarrow> fork_declaration \<Rightarrow> bool" where
  "fork_fine b0 f = (fork_declared f \<longrightarrow> unat b0 + 31 * 14400 \<le> unat (fd_fork_height f))"

definition fork_at :: "(fork_declaration \<Rightarrow> bool) \<Rightarrow> hash \<Rightarrow> fork_contract \<Rightarrow> bool" where
  "fork_at P i C = (case hm_get (fk_proposals C) i of None \<Rightarrow> True | Some f \<Rightarrow> P f)"

lemma distinct_add_chains:
  "distinct cs \<Longrightarrow> distinct (foldl (\<lambda>cs c. if c \<in> set cs then cs else cs @ [c]) cs ds)"
  by (induction ds arbitrary: cs) auto

lemma min_preparation_cases:
  "min_preparation_period ty \<in> {30 * 14400, 45 * 14400, 60 * 14400}"
  by (cases ty) auto

lemma start_preparation_height:
  assumes "unat b < 2 ^ 63"
  shows "unat b + 31 * 14400 \<le> unat (fd_fork_height (start_preparation b d f))"
proof -
  have "unat (b + p + 14400) = unat b + unat p + 14400" if "p \<in> {30 * 14400, 45 * 14400, 60 * 14400}" for p :: block_number
    using that assms by (auto simp: unat_add_fits)
  from this [OF min_preparation_cases [of "fd_fork_type f"]] min_preparation_cases [of "fd_fork_type f"] show ?thesis
    by (auto simp: start_preparation_def)
qed

lemma start_preparation_fields:
  "fd_declared_by (start_preparation b d f) = d" "fd_status (start_preparation b d f) = FS_Declared"
  "fd_supporting_sidechains (start_preparation b d f) = fd_supporting_sidechains f"
  by (simp_all add: start_preparation_def)

lemma fork_fine_start:
  assumes "unat b0 \<le> unat b" and "unat b < 2 ^ 63"
  shows "fork_fine b0 (start_preparation b d f)"
  using start_preparation_height [OF assms(2), of d f] assms by (simp add: fork_fine_def)

lemma fork_at_same: "fk_proposals C' = fk_proposals C \<Longrightarrow> fork_at P i C' = fork_at P i C"
  by (simp add: fork_at_def)

lemma fork_at_put: "fork_at P i C \<Longrightarrow> (j = i \<Longrightarrow> P f) \<Longrightarrow> fork_at P i (put_fork j f C)"
  by (simp add: fork_at_def put_fork_def update_conv')

lemma fork_at_emit [simp]: "fork_at P i (fk_emit ev C) = fork_at P i C"
  by (simp add: fork_at_def fk_emit_def)

lemma fork_atD: "fork_at P i C \<Longrightarrow> hm_get (fk_proposals C) i = Some f \<Longrightarrow> P f"
  by (simp add: fork_at_def)

lemma propose_fine: "fork_at (fork_fine b0) i C \<Longrightarrow> fork_at (fork_fine b0) i (snd (propose_fork K utf8 a nam ty des dep b C))"
  by (auto simp: propose_fork_def Let_def fork_declaration_new_def fork_fine_def fork_declared_def
      split: option.split intro!: fork_at_put)

lemma check_fine:
  assumes "fork_at (fork_fine b0) i C" and "unat b0 \<le> unat b" and "unat b < 2 ^ 63"
  shows "fork_at (fork_fine b0) i (snd (check_declaration_threshold j b C))"
  using assms unfolding check_declaration_threshold_def Let_def
  by (auto split: option.split intro!: fork_at_put fork_fine_start)

lemma support_fine:
  assumes "fork_at (fork_fine b0) i C" and "unat b0 \<le> unat b" and "unat b < 2 ^ 63"
  shows "fork_at (fork_fine b0) i (snd (support_fork j a stake b C))"
proof -
  have "fork_at (fork_fine b0) i (put_fork j (f\<lparr>fd_supporting_validators := V, fd_supporting_stake := s\<rparr>) C)"
    if "hm_get (fk_proposals C) j = Some f" for f V s
    using assms(1) fork_atD [OF assms(1)] that by (auto simp: fork_fine_def fork_declared_def intro!: fork_at_put)
  then show ?thesis
    using assms by (auto simp: support_fork_def Let_def split: option.split intro!: check_fine)
qed

lemma sidechains_fine:
  assumes "fork_at (fork_fine b0) i C" and "unat b0 \<le> unat b" and "unat b < 2 ^ 63"
  shows "fork_at (fork_fine b0) i (snd (declare_fork_from_sidechains j cs b C))"
  using assms unfolding declare_fork_from_sidechains_def Let_def
  by (auto simp: fork_fine_def [of b0 "fd_supporting_sidechains_update _ _"] fork_declared_def
      split: option.split intro!: fork_at_put fork_fine_start)

lemma change_continuity_proposals [simp]: "fk_proposals (snd (change_continuity i g C)) = fk_proposals C"
  by (simp add: change_continuity_def split: option.split)

lemma note_alignment_proposals [simp]: "fk_proposals (note_alignment i cid al C) = fk_proposals C"
  by (simp add: note_alignment_def)

lemma apply_default_proposals [simp]: "fk_proposals (foldl (apply_default_alignment i b) C cs) = fk_proposals C"
  by (induction cs arbitrary: C) (simp_all add: apply_default_alignment_def)

lemma fk_emit_proposals [simp]: "fk_proposals (fk_emit ev C) = fk_proposals C"
  by (simp add: fk_emit_def)

lemma proposals_untouched:
  "fk_proposals (fk_set_voting_power a pow C) = fk_proposals C"
  "fk_proposals (set_total_stake s C) = fk_proposals C"
  "fk_proposals (snd (create_snapshot i sr vs ir rr cr supply b C)) = fk_proposals C"
  "fk_proposals (snd (add_balance_to_snapshot i a x C)) = fk_proposals C"
  "fk_proposals (snd (add_identity_to_snapshot i ids C)) = fk_proposals C"
  "fk_proposals (snd (add_reputation_to_snapshot i rs C)) = fk_proposals C"
  "fk_proposals (snd (set_sidechain_alignment i cid al p b C)) = fk_proposals C"
  "fk_proposals (snd (apply_default_alignments i cs b C)) = fk_proposals C"
  "fk_proposals (snd (propose_ossification a b e C)) = fk_proposals C"
  "fk_proposals (snd (vote_ossification a v b C)) = fk_proposals C"
  "fk_proposals (snd (fk_drain_events C)) = fk_proposals C"
  by (auto simp: fk_set_voting_power_def set_total_stake_def create_snapshot_def add_balance_to_snapshot_def add_identity_to_snapshot_def
      add_reputation_to_snapshot_def set_sidechain_alignment_def apply_default_alignments_def propose_ossification_def vote_ossification_def
      fk_drain_events_def Let_def split: option.split)

lemmas fork_at_untouched = proposals_untouched [THEN fork_at_same]

lemma ready_fine: "fork_at (fork_fine b0) i C \<Longrightarrow> fork_at (fork_fine b0) i (snd (mark_ready j b C))"
  by (auto simp: mark_ready_def fork_fine_def fork_declared_def split: option.split intro!: fork_at_put dest: fork_atD)

lemma execute_fine: "fork_at P i C \<Longrightarrow> fork_at P i (snd (execute_fork j n b C))"
  by (auto simp: execute_fork_def fork_at_def delete_conv' split: option.split)

lemma cancel_fine: "fork_at (fork_fine b0) i C \<Longrightarrow> fork_at (fork_fine b0) i (snd (cancel_fork j r C))"
  by (auto simp: cancel_fork_def fork_fine_def fork_declared_def split: option.split intro!: fork_at_put dest: fork_atD)

lemma fork_exec_fine:
  assumes "fork_at (fork_fine b0) i C" and "unat b0 \<le> unat b" and "unat b < 2 ^ 63"
  shows "fork_at (fork_fine b0) i (fork_exec K utf8 b opn C)"
  using assms
  by (cases opn) (simp_all add: fork_at_untouched propose_fine support_fine sidechains_fine ready_fine execute_fine cancel_fine)

lemma fork_run_fine:
  assumes "fork_run K utf8 s t" and "fork_at (fork_fine b0) i (fst s)" and "b0 \<le> fst (snd s)"
  shows "fork_at (fork_fine b0) i (fst t) \<and> b0 \<le> fst (snd t)"
  using assms
proof (induction rule: fork_run.induct)
  case (fork_step s C b H b' opn)
  then have "fork_at (fork_fine b0) i C" and "b0 \<le> b'" by auto
  with fork_exec_fine [of b0 i C b' K utf8 opn] fork_step.hyps(3) show ?case by (simp add: word_le_nat_alt)
qed simp

lemma fork_at_new: "fork_at P i fork_contract_new"
  by (simp add: fork_at_def fork_contract_new_def)

section \<open>The support behind a declaration\<close>

definition claimed_stake :: "fork_trail \<Rightarrow> nat" where
  "claimed_stake t = (\<Sum>(a, pow, stake) \<leftarrow> ft_backers t. unat stake)"

text \<open>
  The support a declaration rests on: the proposer and distinct further accounts that had voting power when they
  supported it, together at least 33 per cent of the accounts with voting power at the last support; or
  claims of at least 40 per cent of the total stake; or three different sidechains named by the callers.
  The counts are exact while they fit the 32 and 128 bits of the contract.
\<close>

definition support_reached :: "fork_trail \<Rightarrow> bool" where
  "support_reached t \<longleftrightarrow>
     (ft_validators t < 2 ^ 32 \<and> claimed_stake t < 2 ^ 128 \<longrightarrow>
        0 < ft_validators t \<and> 33 * ft_validators t \<le> 100 * (1 + length (ft_backers t))
        \<or> 0 < ft_total_stake t \<and> 40 * unat (ft_total_stake t) \<le> 100 * claimed_stake t
        \<or> 3 \<le> card (set (ft_chains t)))"

definition fork_supported :: "fork_trail \<Rightarrow> bool" where
  "fork_supported t \<longleftrightarrow>
     distinct (ft_proposer t # map fst (ft_backers t)) \<and> (\<forall>(a, pow, stake) \<in> set (ft_backers t). 0 < pow) \<and> support_reached t"

text \<open>How the stored proposal and the calls correspond.\<close>

definition trail_base :: "fork_trail \<Rightarrow> fork_declaration \<Rightarrow> bool" where
  "trail_base t f \<longleftrightarrow>
     distinct (ft_proposer t # map fst (ft_backers t)) \<and> (\<forall>(a, pow, stake) \<in> set (ft_backers t). 0 < pow)
     \<and> fd_supporting_validators f = insert (ft_proposer t) (fst ` set (ft_backers t))
     \<and> fd_supporting_stake f = of_nat (claimed_stake t)
     \<and> distinct (fd_supporting_sidechains f) \<and> set (fd_supporting_sidechains f) = set (ft_chains t)"

definition trail_ok :: "fork_trail \<Rightarrow> fork_declaration \<Rightarrow> bool" where
  "trail_ok t f \<longleftrightarrow> trail_base t f \<and> (fork_declared f \<longrightarrow> support_reached t)"

definition trails_ok :: "(hash \<Rightarrow> fork_trail) \<Rightarrow> fork_contract \<Rightarrow> bool" where
  "trails_ok H C \<longleftrightarrow>
     (\<forall>i f. hm_get (fk_proposals C) i = Some f \<longrightarrow> trail_ok (H i) f) \<and> (\<forall>a pow. hm_get (fk_voting_power C) a = Some pow \<longrightarrow> 0 < pow)"

lemma trail_base_update [simp]:
  "trail_base t (f\<lparr>fd_status := st\<rparr>) = trail_base t f" "trail_base t (start_preparation b d f) = trail_base t f"
  by (simp_all add: trail_base_def start_preparation_def)

lemma trail_card:
  assumes "trail_base t f"
  shows "card (fd_supporting_validators f) = 1 + length (ft_backers t)"
  using assms distinct_card [of "ft_proposer t # map fst (ft_backers t)"] by (simp add: trail_base_def)

lemma sat_mul_le: "unat (sat_mul a b) \<le> unat a * unat b"
  by (simp add: unat_sat_mul)

lemma validator_percent_reached:
  assumes "33 \<le> validator_percent C f" and "trail_base t f" and "ft_validators t = length (fk_voting_power C)"
  shows "support_reached t"
proof -
  let ?v = "length (fk_voting_power C)" and ?c = "card (fd_supporting_validators f)"
  have "33 * ?v \<le> 100 * ?c \<and> 0 < ?v" if "?v < 2 ^ 32"
  proof -
    have v: "unat (of_nat ?v :: u32) = ?v" using that by (simp add: unat_of_nat)
    have pos: "0 < (of_nat ?v :: u32)" and le: "33 \<le> sat_mul (of_nat ?c :: u32) 100 div of_nat ?v"
      using assms(1) by (auto simp: validator_percent_def Let_def split: if_splits)
    have "33 * ?v \<le> unat (sat_mul (of_nat ?c :: u32) 100) div ?v * ?v"
      using le v by (intro mult_le_mono1) (simp add: word_le_nat_alt unat_div_distrib)
    also have "\<dots> \<le> unat (of_nat ?c :: u32) * 100"
      using order_trans [OF div_times_less_eq_dividend sat_mul_le [of "of_nat ?c :: u32" 100]] by simp
    also have "\<dots> \<le> ?c * 100" by (simp add: unat_of_nat)
    finally show ?thesis using pos v by (simp add: word_less_nat_alt)
  qed
  then show ?thesis using assms(3) trail_card [OF assms(2)] unfolding support_reached_def by simp
qed

lemma stake_percent_reached:
  assumes "40 \<le> stake_percent C f" and "trail_base t f" and "ft_total_stake t = fk_total_stake C"
  shows "support_reached t"
proof -
  let ?T = "fk_total_stake C" and ?s = "fd_supporting_stake f"
  have pos: "0 < ?T" and le: "40 \<le> (ucast (sat_mul ?s 100 div ?T) :: u8)"
    using assms(1) by (auto simp: stake_percent_def split: if_splits)
  have "unat (ucast (sat_mul ?s 100 div ?T) :: u8) \<le> unat (sat_mul ?s 100) div unat ?T"
    by (simp add: unsigned_ucast_eq take_bit_eq_mod unat_div_distrib)
  then have "40 \<le> unat (sat_mul ?s 100) div unat ?T" using le by (simp add: word_le_nat_alt)
  then have "40 * unat ?T \<le> unat (sat_mul ?s 100) div unat ?T * unat ?T" by (rule mult_le_mono1)
  also have "\<dots> \<le> unat ?s * 100"
    using order_trans [OF div_times_less_eq_dividend sat_mul_le [of ?s 100]] by simp
  also have "unat ?s \<le> claimed_stake t" using assms(2) by (simp add: trail_base_def unat_of_nat)
  finally show ?thesis using assms(3) pos unfolding support_reached_def by auto
qed

lemma trails_put: "trails_ok H C \<Longrightarrow> trail_ok (H i) f \<Longrightarrow> trails_ok H (fk_emit ev (put_fork i f C))"
  by (auto simp: trails_ok_def put_fork_def fk_emit_def update_conv')

lemma check_trails:
  assumes "trails_ok H C" and "hm_get (fk_proposals C) i = Some f" and "ft_validators (H i) = length (fk_voting_power C)"
    and "ft_total_stake (H i) = fk_total_stake C"
  shows "trails_ok H (snd (check_declaration_threshold i b C))"
proof -
  have base: "trail_base (H i) f" using assms(1,2) by (simp add: trails_ok_def trail_ok_def)
  have "support_reached (H i)" if "ucast FORK_VALIDATOR_THRESHOLD_PERCENT \<le> validator_percent C f \<or> FORK_STAKE_THRESHOLD_PERCENT \<le> stake_percent C f"
    using that validator_percent_reached [OF _ base assms(3)] stake_percent_reached [OF _ base assms(4)] by (auto simp: const_defs)
  then show ?thesis
    using assms(1,2) base by (auto simp: check_declaration_threshold_def Let_def trail_ok_def intro!: trails_put)
qed

lemma check_ok: "hm_get (fk_proposals C) i = Some f \<Longrightarrow> fst (check_declaration_threshold i b C) = Ok ()"
  by (simp add: check_declaration_threshold_def Let_def)

lemma support_trails:
  assumes ok: "trails_ok H C"
  shows "trails_ok (if is_ok (fst (support_fork i a stake b C)) then H(i := backed a stake C (H i)) else H) (snd (support_fork i a stake b C))"
proof (cases "is_ok (fst (support_fork i a stake b C))")
  case True
  then obtain pow f where pow: "hm_get (fk_voting_power C) a = Some pow" and f: "hm_get (fk_proposals C) i = Some f"
      "a \<notin> fd_supporting_validators f" "fd_status f = FS_Proposed"
    by (auto simp: support_fork_def split: option.splits if_splits)
  define f' where "f' = f\<lparr>fd_supporting_validators := insert a (fd_supporting_validators f), fd_supporting_stake := fd_supporting_stake f + stake\<rparr>"
  define C' where "C' = fk_emit (ValidatorSupport i a pow) (put_fork i f' C)"
  let ?H = "H(i := backed a stake C (H i))"
  have run: "snd (support_fork i a stake b C) = snd (check_declaration_threshold i b C')"
    using pow f by (simp add: support_fork_def C'_def f'_def)
  have "trail_base (H i) f" "0 < pow" using ok pow f(1) by (auto simp: trails_ok_def trail_ok_def)
  then have "trail_ok (backed a stake C (H i)) f'"
    using f(2,3) pow by (auto simp: trail_ok_def trail_base_def backed_def f'_def claimed_stake_def power_of_def fork_declared_def)
  then have "trails_ok ?H C'" using ok by (auto simp: trails_ok_def C'_def put_fork_def fk_emit_def update_conv')
  then have "trails_ok ?H (snd (check_declaration_threshold i b C'))"
    by (rule check_trails [where f = f']) (simp_all add: C'_def put_fork_def fk_emit_def update_conv' backed_def)
  then show ?thesis using True run by simp
next
  case False
  then have "snd (support_fork i a stake b C) = C"
    by (auto simp: support_fork_def check_ok put_fork_def fk_emit_def update_conv' split: option.splits if_splits)
  then show ?thesis using False ok by simp
qed

lemma add_chains_set: "set (foldl (\<lambda>cs c. if c \<in> set cs then cs else cs @ [c]) cs ds) = set cs \<union> set ds"
  by (induction ds arbitrary: cs) auto

lemma sidechains_trails:
  assumes ok: "trails_ok H C"
  shows "trails_ok (if is_ok (fst (declare_fork_from_sidechains i cs b C)) then H(i := chains_named cs (H i)) else H)
    (snd (declare_fork_from_sidechains i cs b C))"
proof (cases "is_ok (fst (declare_fork_from_sidechains i cs b C))")
  case True
  then obtain f where f: "hm_get (fk_proposals C) i = Some f" "fd_status f = FS_Proposed"
    by (auto simp: declare_fork_from_sidechains_def split: option.splits if_splits)
  define chs where "chs = foldl (\<lambda>cs c. if c \<in> set cs then cs else cs @ [c]) (fd_supporting_sidechains f) cs"
  define f' where "f' = f\<lparr>fd_supporting_sidechains := chs\<rparr>"
  have old: "trail_base (H i) f" using ok f(1) by (auto simp: trails_ok_def trail_ok_def)
  have chs: "set chs = set cs \<union> set (ft_chains (H i))" "distinct chs"
    using old distinct_add_chains [of "fd_supporting_sidechains f" cs] by (auto simp: chs_def add_chains_set trail_base_def)
  have base: "trail_base (chains_named cs (H i)) f'"
    using old chs by (simp add: trail_base_def chains_named_def f'_def claimed_stake_def)
  have reached: "support_reached (chains_named cs (H i))" if "FORK_SIDECHAIN_THRESHOLD \<le> length chs"
    using that chs distinct_card [OF chs(2)] by (simp add: support_reached_def chains_named_def const_defs)
  have run: "snd (declare_fork_from_sidechains i cs b C) = (if FORK_SIDECHAIN_THRESHOLD \<le> length chs
      then fk_emit (ForkDeclared i b (fd_preparation_ends (start_preparation b (FD_Sidechains chs) f'))) (put_fork i (start_preparation b (FD_Sidechains chs) f') C)
      else put_fork i f' C)"
    using f by (simp add: declare_fork_from_sidechains_def Let_def chs_def f'_def)
  show ?thesis using ok base reached True f(2) unfolding run
    by (auto simp: trails_ok_def trail_ok_def put_fork_def fk_emit_def update_conv' fork_declared_def f'_def)
next
  case False
  then have "snd (declare_fork_from_sidechains i cs b C) = C"
    by (auto simp: declare_fork_from_sidechains_def Let_def split: option.splits if_splits)
  then show ?thesis using False ok by simp
qed

lemma propose_trails:
  assumes "trails_ok H C"
  shows "trails_ok (case fst (propose_fork K utf8 a nam ty des dep b C) of Inr i \<Rightarrow> H(i := trail_new a) | Inl _ \<Rightarrow> H)
    (snd (propose_fork K utf8 a nam ty des dep b C))"
  using assms by (auto simp: propose_fork_def Let_def fork_declaration_new_def trails_ok_def trail_ok_def trail_base_def trail_new_def
      claimed_stake_def fork_declared_def put_fork_def fk_emit_def update_conv' split: option.split)

lemma fk_emit_power [simp]: "fk_voting_power (fk_emit ev C) = fk_voting_power C"
  by (simp add: fk_emit_def)

lemma apply_default_power [simp]: "fk_voting_power (foldl (apply_default_alignment i b) C cs) = fk_voting_power C"
  by (induction cs arbitrary: C) (simp_all add: apply_default_alignment_def note_alignment_def change_continuity_def split: option.split)

lemma power_untouched:
  "fk_voting_power (set_total_stake s C) = fk_voting_power C"
  "fk_voting_power (snd (create_snapshot i sr vs ir rr cr supply b C)) = fk_voting_power C"
  "fk_voting_power (snd (add_balance_to_snapshot i a x C)) = fk_voting_power C"
  "fk_voting_power (snd (add_identity_to_snapshot i ids C)) = fk_voting_power C"
  "fk_voting_power (snd (add_reputation_to_snapshot i rs C)) = fk_voting_power C"
  "fk_voting_power (snd (set_sidechain_alignment i cid al p b C)) = fk_voting_power C"
  "fk_voting_power (snd (apply_default_alignments i cs b C)) = fk_voting_power C"
  "fk_voting_power (snd (propose_ossification a b e C)) = fk_voting_power C"
  "fk_voting_power (snd (vote_ossification a v b C)) = fk_voting_power C"
  "fk_voting_power (snd (fk_drain_events C)) = fk_voting_power C"
  by (auto simp: set_total_stake_def create_snapshot_def add_balance_to_snapshot_def add_identity_to_snapshot_def note_alignment_def
      change_continuity_def add_reputation_to_snapshot_def set_sidechain_alignment_def apply_default_alignments_def propose_ossification_def
      vote_ossification_def fk_drain_events_def Let_def split: option.split)

lemma trails_power:
  assumes "trails_ok H C"
  shows "trails_ok H (fk_set_voting_power a pow C)"
  using assms by (auto simp: trails_ok_def fk_set_voting_power_def Let_def update_conv' delete_conv' split: if_splits)

lemma trails_same:
  "trails_ok H C \<Longrightarrow> fk_proposals C' = fk_proposals C \<Longrightarrow> fk_voting_power C' = fk_voting_power C \<Longrightarrow> trails_ok H C'"
  by (simp add: trails_ok_def)

lemma status_trails:
  assumes "trails_ok H C"
  shows "trails_ok H (snd (mark_ready i b C))" "trails_ok H (snd (cancel_fork i r C))" "trails_ok H (snd (execute_fork i n b C))"
  using assms by (auto simp: mark_ready_def cancel_fork_def execute_fork_def trails_ok_def trail_ok_def put_fork_def fk_emit_def
      update_conv' delete_conv' fork_declared_def split: option.split)

lemma fork_exec_trails:
  assumes "trails_ok H C"
  shows "trails_ok (fork_note K utf8 b opn C H) (fork_exec K utf8 b opn C)"
  using assms propose_trails [OF assms] support_trails [OF assms] sidechains_trails [OF assms] status_trails [OF assms] trails_power [OF assms]
  by (cases opn) (simp_all add: trails_same [OF assms] proposals_untouched power_untouched)

lemma fork_run_trails:
  assumes "fork_run K utf8 s t" and "trails_ok (snd (snd s)) (fst s)"
  shows "trails_ok (snd (snd t)) (fst t)"
  using assms by (induction rule: fork_run.induct) (simp_all add: fork_exec_trails)

text \<open>
  C26: nobody is forked away by surprise.  In every sequence of calls of the contract, in blocks below 2^63, a
  fork that is executed at block b although it was unknown or not yet declared at the earlier block b0 has had
  its preparation period of at least thirty days and the further day before its fork height in between.
  Its supporters are the proposer, whose voting power is not checked, and distinct other accounts that had voting
  power when they supported it; and its declaration rests on these being at least 33 per cent of the
  number of accounts with voting power, or on stakes that the supporters claimed (nobody checks the claims)
  of at least 40 per cent of the total stake, or on three different sidechains named in calls; this last
  part for fewer than 2^32 accounts and claims that add up to less than 2^128.
\<close>

theorem fork_notice:
  assumes "fork_run K utf8 (fork_contract_new, 0, H) (C0, b0, H0)" and "fork_at (\<lambda>f. \<not> fork_declared f) i C0"
    and "fork_run K utf8 (C0, b0, H0) (C, b1, H1)" and "execute_fork i n b C = (Ok (), C')"
  shows "unat b0 + 31 * 14400 \<le> unat b \<and> fork_supported (H1 i)"
proof -
  have "fork_at (fork_fine b0) i C0"
    using assms(2) by (auto simp: fork_at_def fork_fine_def split: option.splits)
  with fork_run_fine [OF assms(3), of b0 i] have fine: "fork_at (fork_fine b0) i C" by simp
  have "trails_ok H fork_contract_new" by (simp add: trails_ok_def fork_contract_new_def)
  then have trails: "trails_ok H1 C" using fork_run_trails [OF assms(1)] fork_run_trails [OF assms(3)] by simp
  obtain f where f: "hm_get (fk_proposals C) i = Some f" and ready: "fd_status f = FS_Ready" and "fd_fork_height f \<le> b"
    using assms(4) by (auto simp: execute_fork_def linorder_not_less split: option.splits if_splits)
  moreover have "trail_ok (H1 i) f" using trails f by (simp add: trails_ok_def)
  ultimately show ?thesis
    using fork_atD [OF fine f] by (auto simp: fork_fine_def fork_declared_def word_le_nat_alt trail_ok_def trail_base_def fork_supported_def)
qed

text \<open>A fork that two of four validators declare at block 100, the proposer being one of them, and that is executed 31 days later.\<close>

definition no_utf8 :: "string \<Rightarrow> bytes" where "no_utf8 s = []"

definition demo_fork :: hash where "demo_fork = blake3 demo_crypto (no_utf8 [] @ le_bytes 8 (100 :: u64))"

fun fork_play :: "(block_number \<times> fork_op) list \<Rightarrow> fork_state \<Rightarrow> fork_state" where
  "fork_play [] s = s"
| "fork_play ((b, opn) # ops) (C, b0, H) =
     fork_play ops (fork_exec demo_crypto no_utf8 b opn C, b, fork_note demo_crypto no_utf8 b opn C H)"

lemma fork_play_run:
  assumes "fork_run demo_crypto no_utf8 s t" and "sorted (fst (snd t) # map fst ops)" and "\<forall>x \<in> set ops. unat (fst x) < 2 ^ 63"
  shows "fork_run demo_crypto no_utf8 s (fork_play ops t)"
  using assms
proof (induction ops t rule: fork_play.induct)
  case (2 b opn ops C b0 H)
  then have "fork_run demo_crypto no_utf8 s (fork_exec demo_crypto no_utf8 b opn C, b, fork_note demo_crypto no_utf8 b opn C H)"
    by (intro fork_step) auto
  with 2 show ?case by simp
qed simp

definition forks_start :: fork_state where
  "forks_start = (fork_contract_new, 0, \<lambda>_. trail_new 0)"

definition forks_proposed :: fork_state where
  "forks_proposed = fork_play [(90, Op_power 1 5), (90, Op_power 2 5), (90, Op_power 3 5), (90, Op_power 4 5),
     (100, Op_propose 1 [] (FT_Survival []) [] 100000)] forks_start"

definition forks_ready :: fork_state where
  "forks_ready = fork_play [(100, Op_support demo_fork 2 0), (446500, Op_ready demo_fork)] forks_proposed"

lemma forks_ready_runs:
  "fork_run demo_crypto no_utf8 forks_start forks_proposed" "fork_run demo_crypto no_utf8 forks_proposed forks_ready"
proof -
  show "fork_run demo_crypto no_utf8 forks_start forks_proposed"
    unfolding forks_proposed_def by (rule fork_play_run [OF fork_start]) (simp_all add: forks_start_def)
  show "fork_run demo_crypto no_utf8 forks_proposed forks_ready"
    unfolding forks_ready_def by (rule fork_play_run [OF fork_start]) (simp_all add: forks_proposed_def forks_start_def)
qed

lemma forks_proposed_eval:
  "hm_get (fk_proposals (fst forks_proposed)) demo_fork =
     Some ((fork_declaration_new demo_crypto no_utf8 [] (FT_Survival []) (FD_Validators 1 4 5) 100 [])\<lparr>fd_supporting_validators := {1}\<rparr>)"
  "fk_voting_power (fst forks_proposed) = [(1, 5), (2, 5), (3, 5), (4, 5)]"
  "snd (snd forks_proposed) demo_fork = trail_new 1" "fst (snd forks_proposed) = 100"
  by (simp_all add: forks_proposed_def forks_start_def propose_fork_def fork_contract_new_def fk_set_voting_power_def
      active_fork_count_def const_defs Let_def hm_contains_def put_fork_def fk_emit_def fork_declaration_new_def demo_fork_def)

lemma two_of_four:
  assumes "fk_voting_power C = [(1, 5), (2, 5), (3, 5), (4, 5)]" and "hm_get (fk_proposals C) i = Some f"
    and "fd_supporting_validators f = {1}" and "fd_status f = FS_Proposed"
  shows "fst (support_fork i 2 0 b C) = Ok ()"
    and "\<exists>d. hm_get (fk_proposals (snd (support_fork i 2 0 b C))) i = Some (start_preparation b d
      (f\<lparr>fd_supporting_validators := {1, 2}, fd_supporting_stake := fd_supporting_stake f + 0\<rparr>))"
proof -
  have two: "insert 2 {1} = {1, 2 :: account_id}" by auto
  have "validator_percent C' g = 50" if "fk_voting_power C' = fk_voting_power C" "fd_supporting_validators g = {1, 2}" for C' g
    using that assms(1) by (simp add: validator_percent_def sat_mul_def)
  then show "fst (support_fork i 2 0 b C) = Ok ()"
    and "\<exists>d. hm_get (fk_proposals (snd (support_fork i 2 0 b C))) i = Some (start_preparation b d
      (f\<lparr>fd_supporting_validators := {1, 2}, fd_supporting_stake := fd_supporting_stake f + 0\<rparr>))"
    using assms by (simp_all add: support_fork_def check_declaration_threshold_def two put_fork_def fk_emit_def update_conv' const_defs Let_def) blast
qed

lemma forks_ready_eval:
  "execute_fork demo_fork 7 446500 (fst forks_ready) = (Ok (), snd (execute_fork demo_fork 7 446500 (fst forks_ready)))"
  "ft_backers (snd (snd forks_ready) demo_fork) = [(2, 5, 0)]" "ft_validators (snd (snd forks_ready) demo_fork) = 4"
proof -
  obtain C H where p: "forks_proposed = (C, 100, H)" using forks_proposed_eval(4) by (metis prod.collapse)
  let ?f = "(fork_declaration_new demo_crypto no_utf8 [] (FT_Survival []) (FD_Validators 1 4 5) 100 [])\<lparr>fd_supporting_validators := {1}\<rparr>"
  have C: "hm_get (fk_proposals C) demo_fork = Some ?f" "fk_voting_power C = [(1, 5), (2, 5), (3, 5), (4, 5)]" "H demo_fork = trail_new 1"
    using forks_proposed_eval(1-3) unfolding p fst_conv snd_conv by blast+
  have f: "fd_supporting_validators ?f = {1}" "fd_status ?f = FS_Proposed" "fd_fork_type ?f = FT_Survival []"
    by (simp_all add: fork_declaration_new_def)
  note s = two_of_four [OF C(2,1) f(1,2), of 100]
  obtain d where d: "hm_get (fk_proposals (snd (support_fork demo_fork 2 0 100 C))) demo_fork = Some (start_preparation 100 d
      (?f\<lparr>fd_supporting_validators := {1, 2}, fd_supporting_stake := fd_supporting_stake ?f + 0\<rparr>))" using s(2) by blast
  have r: "forks_ready = (snd (mark_ready demo_fork 446500 (snd (support_fork demo_fork 2 0 100 C))), 446500, H(demo_fork := backed 2 0 C (H demo_fork)))"
    using s(1) by (simp add: forks_ready_def p)
  show "ft_backers (snd (snd forks_ready) demo_fork) = [(2, 5, 0)]" "ft_validators (snd (snd forks_ready) demo_fork) = 4"
    by (simp_all add: r backed_def C power_of_def trail_new_def)
  show "execute_fork demo_fork 7 446500 (fst forks_ready) = (Ok (), snd (execute_fork demo_fork 7 446500 (fst forks_ready)))"
    using d f(3) by (simp add: r mark_ready_def execute_fork_def put_fork_def update_conv' start_preparation_def)
qed

theorem fork_notice_witness:
  "unat (100 :: u64) + 31 * 14400 \<le> unat (446500 :: u64) \<and> fork_supported (snd (snd forks_ready) demo_fork)
   \<and> ft_backers (snd (snd forks_ready) demo_fork) = [(2, 5, 0)] \<and> ft_validators (snd (snd forks_ready) demo_fork) = 4"
proof -
  have runs: "fork_run demo_crypto no_utf8 (fork_contract_new, 0, \<lambda>_. trail_new 0) (fst forks_proposed, 100, snd (snd forks_proposed))"
    "fork_run demo_crypto no_utf8 (fst forks_proposed, 100, snd (snd forks_proposed)) (fst forks_ready, fst (snd forks_ready), snd (snd forks_ready))"
    using forks_ready_runs forks_proposed_eval(4) by (metis forks_start_def prod.collapse)+
  have "unat (100 :: u64) + 31 * 14400 \<le> unat (446500 :: u64) \<and> fork_supported (snd (snd forks_ready) demo_fork)"
    by (rule fork_notice [OF runs(1) _ runs(2) forks_ready_eval(1)])
      (simp add: fork_at_def forks_proposed_eval fork_declaration_new_def fork_declared_def)
  then show ?thesis using forks_ready_eval by simp
qed

section \<open>Behaviour that differs from the documentation\<close>

text \<open>
  The cooldown of thirty days after a fork is checked when a fork is proposed only: a fork that is ready
  as well is executed in the same block.
\<close>

lemma forks_back_to_back:
  assumes "hm_get (fk_proposals C) i = Some f" and "hm_get (fk_proposals C) j = Some g" and "i \<noteq> j"
    and "fd_status f = FS_Ready" and "fd_status g = FS_Ready" and "fd_fork_height f \<le> b" and "fd_fork_height g \<le> b"
  shows "fst (execute_fork j m b (snd (execute_fork i n b C))) = Ok ()"
  using assms by (simp add: execute_fork_def fk_emit_def delete_conv' linorder_not_less)

text \<open>Stake is what the supporter says it is: one validator alone declares a fork.\<close>

lemma claimed_stake_declares:
  assumes "hm_get (fk_voting_power C) a = Some pow" and "hm_get (fk_proposals C) i = Some f" and "a \<notin> fd_supporting_validators f"
    and "fd_status f = FS_Proposed" and "fd_supporting_stake f = 0" and "fk_total_stake C = 1000"
  shows "map_option fd_status (hm_get (fk_proposals (snd (support_fork i a 400 b C))) i) = Some FS_Declared"
proof -
  have s: "stake_percent C' g = 40" if "fk_total_stake C' = 1000" "fd_supporting_stake g = 400" for C' g
    using that by (simp add: stake_percent_def sat_mul_def)
  show ?thesis using assms
    by (simp add: support_fork_def check_declaration_threshold_def put_fork_def fk_emit_def update_conv' Let_def
        start_preparation_def s const_defs)
qed

text \<open>The proposer is counted as a supporting validator, with or without voting power.\<close>

lemma proposer_counts_without_power:
  assumes "fst (propose_fork K utf8 a nam ty des dep b C) = Ok i"
  shows "map_option fd_supporting_validators (hm_get (fk_proposals (snd (propose_fork K utf8 a nam ty des dep b C))) i) = Some {a}"
  using assms by (auto simp: propose_fork_def Let_def put_fork_def update_conv' split: if_splits option.splits)

text \<open>
  A changed vote on ossification is taken back with the power the voter has now: after the power of a
  voter grew from 1 to 3, changing a single approval to a rejection leaves an approval of \<open>2\<^sup>64 - 2\<close>,
  and the protocol is ossified by a vote against it.
\<close>

lemma retracted_vote_wraps:
  assumes "os_proposed (fk_ossification C)" and "\<not> os_active (fk_ossification C)" and "os_votes (fk_ossification C) = [(a, True)]"
    and "os_approval_power (fk_ossification C) = 1" and "hm_get (fk_voting_power C) a = Some 3" and "fk_total_power C = 4"
  shows "os_approval_power (fk_ossification (snd (vote_ossification a False b C))) = - 2"
    and "os_active (fk_ossification (snd (vote_ossification a False b C)))"
proof -
  have "(ucast (sat_mul (- 2 :: u64) 100 div 4) :: u8) = 255" by (simp add: sat_mul_def)
  then show "os_approval_power (fk_ossification (snd (vote_ossification a False b C))) = - 2"
    and "os_active (fk_ossification (snd (vote_ossification a False b C)))"
    using assms by (simp_all add: vote_ossification_def retract_vote_def Let_def fk_emit_def const_defs)
qed

end
