(* ===== verification/Kratos_Messaging.thy ===== *)
theory Kratos_Messaging
  imports Kratos_Merkle
begin

text \<open>
  Cross-chain messages (\<^verbatim>\<open>contracts/messaging.rs\<close>): sending with fees, nonces and a limit per
  block, relaying with a Merkle proof, verification and delivery, cancellation and expiry.  The order in
  which the message map is walked is the argument \<open>visit\<close>.
\<close>

section \<open>Messages\<close>

type_synonym message_id = u64

definition MAX_MESSAGES_PER_BLOCK :: nat where [const_defs]: "MAX_MESSAGES_PER_BLOCK = 100"
definition MESSAGE_EXPIRY :: block_number where [const_defs]: "MESSAGE_EXPIRY = 100800"
definition MAX_PAYLOAD_SIZE :: nat where [const_defs]: "MAX_PAYLOAD_SIZE = 65536"
definition BASE_MESSAGE_FEE :: balance where [const_defs]: "BASE_MESSAGE_FEE = 1"

datatype governance_notification_type = ExitInitiated | ChainPurged | NotifySlashed | ProposalPassed

datatype arbitration_action = DisputeRaised | EvidenceSubmitted | JurySelected | VerdictDelivered | EnforcementExecuted

datatype message_type =
    DataTransfer
  | AssetTransfer balance "hash option"
  | GovernanceNotification governance_notification_type
  | ArbitrationMessage u64 arbitration_action
  | StateRootCommitment block_number hash
  | ValidatorSetUpdate "account_id list" u32
  | CustomMessage string

datatype message_status = MS_Pending | MS_InOutbox | MS_Relayed | MS_Delivered | MS_Failed | MS_Expired | MS_Cancelled

record cross_chain_message =
  cm_id :: message_id
  cm_source_chain :: chain_id
  cm_target_chain :: chain_id
  cm_sender :: account_id
  cm_recipient :: "account_id option"
  cm_message_type :: message_type
  cm_payload_hash :: hash
  cm_payload :: bytes
  cm_source_state_root :: hash
  cm_inclusion_proof :: "merkle_proof option"
  cm_created_at :: block_number
  cm_expires_at :: block_number
  cm_status :: message_status
  cm_fee :: balance
  cm_nonce :: u64

record message_verification =
  mv_is_valid :: bool
  mv_message_id :: message_id
  mv_source_chain :: chain_id
  mv_error :: "string option"

datatype messaging_error =
    MessageNotFound | PayloadTooLarge | TooManyMessagesInBlock | InsufficientFee | CannotMessageSelf | InvalidMessageState
  | NoInclusionProof | NotSender | CannotCancel | VerificationFailed string

record messaging_contract =
  mc_messages :: "(message_id, cross_chain_message) hmap"
  mc_outbox :: "(chain_id, message_id list) hmap"
  mc_inbox :: "(chain_id, message_id list) hmap"
  mc_next_message_id :: message_id
  mc_nonces :: "(chain_id \<times> account_id, u64) hmap"
  mc_known_state_roots :: "(chain_id \<times> block_number, hash) hmap"
  mc_messages_per_block :: "(chain_id \<times> block_number, nat) hmap"

type_synonym 'a msg_action = "(messaging_contract, messaging_error, 'a) action"

definition messaging_new :: messaging_contract where
  "messaging_new =
     \<lparr>mc_messages = [], mc_outbox = [], mc_inbox = [], mc_next_message_id = 1, mc_nonces = [], mc_known_state_roots = [],
      mc_messages_per_block = []\<rparr>"

section \<open>Operations\<close>

definition register_state_root :: "chain_id \<Rightarrow> block_number \<Rightarrow> hash \<Rightarrow> messaging_contract \<Rightarrow> messaging_contract" where
  "register_state_root cid b r C = C\<lparr>mc_known_state_roots := hm_insert (cid, b) r (mc_known_state_roots C)\<rparr>"

definition get_nonce :: "chain_id \<Rightarrow> account_id \<Rightarrow> messaging_contract \<Rightarrow> u64" where
  "get_nonce cid a C = (case hm_get (mc_nonces C) (cid, a) of Some n \<Rightarrow> n | None \<Rightarrow> 0)"

definition msg_block_count :: "chain_id \<Rightarrow> block_number \<Rightarrow> messaging_contract \<Rightarrow> nat" where
  "msg_block_count cid b C = (case hm_get (mc_messages_per_block C) (cid, b) of Some n \<Rightarrow> n | None \<Rightarrow> 0)"

definition push_back :: "chain_id \<Rightarrow> message_id \<Rightarrow> (chain_id, message_id list) hmap \<Rightarrow> (chain_id, message_id list) hmap" where
  "push_back cid i q = hm_insert cid ((case hm_get q cid of Some l \<Rightarrow> l | None \<Rightarrow> []) @ [i]) q"

definition send_message ::
  "crypto \<Rightarrow> chain_id \<Rightarrow> chain_id \<Rightarrow> account_id \<Rightarrow> account_id option \<Rightarrow> message_type \<Rightarrow> bytes \<Rightarrow> hash \<Rightarrow> block_number \<Rightarrow> balance
     \<Rightarrow> message_id msg_action" where
  "send_message K source target sender recipient ty payload state_rt b fee C =
     (if MAX_PAYLOAD_SIZE < length payload then (Err PayloadTooLarge, C)
      else
        let n = msg_block_count source b C;
            C1 = C\<lparr>mc_messages_per_block := hm_insert (source, b) n (mc_messages_per_block C)\<rparr>
        in if MAX_MESSAGES_PER_BLOCK \<le> n then (Err TooManyMessagesInBlock, C1)
           else if fee < BASE_MESSAGE_FEE then (Err InsufficientFee, C1)
           else if source = target then (Err CannotMessageSelf, C1)
           else
             let nonce = get_nonce source sender C; i = mc_next_message_id C;
                 m = \<lparr>cm_id = i, cm_source_chain = source, cm_target_chain = target, cm_sender = sender, cm_recipient = recipient,
                      cm_message_type = ty, cm_payload_hash = blake3 K payload, cm_payload = payload, cm_source_state_root = state_rt,
                      cm_inclusion_proof = None, cm_created_at = b, cm_expires_at = b + MESSAGE_EXPIRY, cm_status = MS_Pending,
                      cm_fee = fee, cm_nonce = nonce\<rparr>
             in (Ok i, C1\<lparr>mc_nonces := hm_insert (source, sender) (nonce + 1) (mc_nonces C), mc_next_message_id := i + 1,
                          mc_messages := hm_insert i m (mc_messages C), mc_outbox := push_back source i (mc_outbox C),
                          mc_messages_per_block := hm_insert (source, b) (n + 1) (mc_messages_per_block C1)\<rparr>))"

definition put_message :: "cross_chain_message \<Rightarrow> message_id \<Rightarrow> messaging_contract \<Rightarrow> messaging_contract" where
  "put_message m i C = C\<lparr>mc_messages := hm_insert i m (mc_messages C)\<rparr>"

definition relay_message :: "message_id \<Rightarrow> merkle_proof \<Rightarrow> unit msg_action" where
  "relay_message i p C =
     (case hm_get (mc_messages C) i of
        None \<Rightarrow> (Err MessageNotFound, C)
      | Some m \<Rightarrow>
          if cm_status m \<noteq> MS_Pending \<and> cm_status m \<noteq> MS_InOutbox then (Err InvalidMessageState, C)
          else (Ok (), (put_message (m\<lparr>cm_inclusion_proof := Some p, cm_status := MS_Relayed\<rparr>) i C)
                  \<lparr>mc_inbox := push_back (cm_target_chain m) i (mc_inbox C)\<rparr>))"

definition verdict_on :: "cross_chain_message \<Rightarrow> message_id \<Rightarrow> string option \<Rightarrow> message_verification" where
  "verdict_on m i e = \<lparr>mv_is_valid = (e = None), mv_message_id = i, mv_source_chain = cm_source_chain m, mv_error = e\<rparr>"

definition verify_and_deliver :: "crypto \<Rightarrow> message_id \<Rightarrow> block_number \<Rightarrow> message_verification msg_action" where
  "verify_and_deliver K i b C =
     (case hm_get (mc_messages C) i of
        None \<Rightarrow> (Err MessageNotFound, C)
      | Some m \<Rightarrow>
          if cm_expires_at m < b
          then (Ok (verdict_on m i (Some ''Message expired'')), put_message (m\<lparr>cm_status := MS_Expired\<rparr>) i C)
          else if cm_status m \<noteq> MS_Relayed then (Err InvalidMessageState, C)
          else case cm_inclusion_proof m of
              None \<Rightarrow> (Err NoInclusionProof, C)
            | Some p \<Rightarrow>
                (case hm_get (mc_known_state_roots C) (cm_source_chain m, mp_block_number p) of
                   Some r \<Rightarrow>
                     if mp_root p \<noteq> r
                     then (Ok (verdict_on m i (Some ''State root mismatch'')), put_message (m\<lparr>cm_status := MS_Failed\<rparr>) i C)
                     else if \<not> merkle_verify K p
                     then (Ok (verdict_on m i (Some ''Invalid Merkle proof'')), put_message (m\<lparr>cm_status := MS_Failed\<rparr>) i C)
                     else (Ok (verdict_on m i None), put_message (m\<lparr>cm_status := MS_Delivered\<rparr>) i C)
                 | None \<Rightarrow>
                     if \<not> merkle_verify K p
                     then (Ok (verdict_on m i (Some ''Invalid Merkle proof'')), put_message (m\<lparr>cm_status := MS_Failed\<rparr>) i C)
                     else (Ok (verdict_on m i None), put_message (m\<lparr>cm_status := MS_Delivered\<rparr>) i C)))"

definition messages_in :: "message_id list option \<Rightarrow> message_status set \<Rightarrow> messaging_contract \<Rightarrow> cross_chain_message list" where
  "messages_in ids st C =
     (case ids of None \<Rightarrow> [] | Some l \<Rightarrow> filter (\<lambda>m. cm_status m \<in> st) (List.map_filter (hm_get (mc_messages C)) l))"

definition get_outbox :: "chain_id \<Rightarrow> messaging_contract \<Rightarrow> cross_chain_message list" where
  "get_outbox cid C = messages_in (hm_get (mc_outbox C) cid) {MS_Pending, MS_InOutbox} C"

definition get_inbox :: "chain_id \<Rightarrow> messaging_contract \<Rightarrow> cross_chain_message list" where
  "get_inbox cid C = messages_in (hm_get (mc_inbox C) cid) {MS_Relayed} C"

definition get_messages_between ::
  "(message_id list \<Rightarrow> message_id list) \<Rightarrow> chain_id \<Rightarrow> chain_id \<Rightarrow> messaging_contract \<Rightarrow> cross_chain_message list" where
  "get_messages_between visit source target C =
     filter (\<lambda>m. cm_source_chain m = source \<and> cm_target_chain m = target)
       (List.map_filter (hm_get (mc_messages C)) (visit (hm_keys (mc_messages C))))"

definition cancel_message :: "message_id \<Rightarrow> account_id \<Rightarrow> balance msg_action" where
  "cancel_message i caller C =
     (case hm_get (mc_messages C) i of
        None \<Rightarrow> (Err MessageNotFound, C)
      | Some m \<Rightarrow>
          if cm_sender m \<noteq> caller then (Err NotSender, C)
          else if cm_status m \<noteq> MS_Pending then (Err CannotCancel, C)
          else (Ok (cm_fee m), put_message (m\<lparr>cm_status := MS_Cancelled\<rparr>) i C))"

definition message_overdue :: "block_number \<Rightarrow> cross_chain_message \<Rightarrow> bool" where
  "message_overdue b m = (cm_expires_at m < b \<and> cm_status m \<in> {MS_Pending, MS_InOutbox, MS_Relayed})"

definition expire_old_messages ::
  "(message_id list \<Rightarrow> message_id list) \<Rightarrow> block_number \<Rightarrow> messaging_contract \<Rightarrow> message_id list \<times> messaging_contract" where
  "expire_old_messages visit b C =
     (filter (\<lambda>i. case hm_get (mc_messages C) i of Some m \<Rightarrow> message_overdue b m | None \<Rightarrow> False) (visit (hm_keys (mc_messages C))),
      C\<lparr>mc_messages := map (\<lambda>(i, m). (i, if message_overdue b m then m\<lparr>cm_status := MS_Expired\<rparr> else m)) (mc_messages C)\<rparr>)"

record message_stats =
  mt_sent :: u64
  mt_received :: u64
  mt_pending :: u64
  mt_delivered :: u64
  mt_failed :: u64
  mt_expired :: u64

definition count_message :: "chain_id \<Rightarrow> cross_chain_message \<Rightarrow> message_stats \<Rightarrow> message_stats" where
  "count_message cid m s =
     (let s1 = (if cm_source_chain m = cid
                then let s' = s\<lparr>mt_sent := mt_sent s + 1\<rparr> in
                     (case cm_status m of
                        MS_Delivered \<Rightarrow> s'\<lparr>mt_delivered := mt_delivered s' + 1\<rparr>
                      | MS_Failed \<Rightarrow> s'\<lparr>mt_failed := mt_failed s' + 1\<rparr>
                      | MS_Expired \<Rightarrow> s'\<lparr>mt_expired := mt_expired s' + 1\<rparr>
                      | _ \<Rightarrow> s'\<lparr>mt_pending := mt_pending s' + 1\<rparr>)
                else s)
      in if cm_target_chain m = cid then s1\<lparr>mt_received := mt_received s1 + 1\<rparr> else s1)"

definition get_message_stats :: "chain_id \<Rightarrow> messaging_contract \<Rightarrow> message_stats" where
  "get_message_stats cid C =
     foldl (\<lambda>s (_, m). count_message cid m s)
       \<lparr>mt_sent = 0, mt_received = 0, mt_pending = 0, mt_delivered = 0, mt_failed = 0, mt_expired = 0\<rparr> (mc_messages C)"

section \<open>Runs\<close>

datatype msg_op =
    Ms_root chain_id block_number hash
  | Ms_send chain_id chain_id account_id "account_id option" message_type bytes hash block_number balance
  | Ms_relay message_id merkle_proof
  | Ms_deliver message_id block_number
  | Ms_cancel message_id account_id
  | Ms_expire block_number

fun msg_exec :: "crypto \<Rightarrow> (message_id list \<Rightarrow> message_id list) \<Rightarrow> msg_op \<Rightarrow> messaging_contract \<Rightarrow> messaging_contract" where
  "msg_exec K visit (Ms_root cid b r) C = register_state_root cid b r C"
| "msg_exec K visit (Ms_send so tg a re ty pl rt b fee) C = snd (send_message K so tg a re ty pl rt b fee C)"
| "msg_exec K visit (Ms_relay i p) C = snd (relay_message i p C)"
| "msg_exec K visit (Ms_deliver i b) C = snd (verify_and_deliver K i b C)"
| "msg_exec K visit (Ms_cancel i a) C = snd (cancel_message i a C)"
| "msg_exec K visit (Ms_expire b) C = snd (expire_old_messages visit b C)"

text \<open>Any sequence of operations; fewer than \<open>2\<^sup>63\<close> messages are sent.\<close>

inductive msg_run :: "crypto \<Rightarrow> (message_id list \<Rightarrow> message_id list) \<Rightarrow> messaging_contract \<Rightarrow> messaging_contract \<Rightarrow> bool"
  for K visit where
  msg_start: "msg_run K visit C C"
| msg_step: "\<lbrakk>msg_run K visit C0 C; unat (mc_next_message_id C) < 2 ^ 63\<rbrakk> \<Longrightarrow> msg_run K visit C0 (msg_exec K visit opn C)"

text \<open>What later operations do not change of a message, and how its status advances.\<close>

definition msg_stat :: "cross_chain_message \<Rightarrow> cross_chain_message" where
  "msg_stat m = m\<lparr>cm_status := MS_Pending, cm_inclusion_proof := None\<rparr>"

definition msg_log :: "messaging_contract \<Rightarrow> message_id \<Rightarrow> cross_chain_message option" where
  "msg_log C i = map_option msg_stat (hm_get (mc_messages C) i)"

fun status_rank :: "message_status \<Rightarrow> nat" where
  "status_rank MS_Pending = 0"
| "status_rank MS_InOutbox = 0"
| "status_rank MS_Relayed = 1"
| "status_rank _ = 2"

definition msg_rank :: "messaging_contract \<Rightarrow> message_id \<Rightarrow> nat" where
  "msg_rank C i = (case hm_get (mc_messages C) i of None \<Rightarrow> 0 | Some m \<Rightarrow> status_rank (cm_status m))"

lemma status_rank_le: "status_rank s \<le> 2"
  by (cases s) simp_all

lemma map_of_map_values: "map_of (map (\<lambda>(i, m). (i, f m)) xs) k = map_option f (map_of xs k)"
  by (induction xs) auto

lemma log_put: "hm_get (mc_messages C) i = Some m \<Longrightarrow> msg_stat m' = msg_stat m \<Longrightarrow> msg_log (put_message m' i C) = msg_log C"
  by (auto simp: msg_log_def put_message_def update_conv' fun_eq_iff)

lemma rank_put: "msg_rank (put_message m' i C) j = (if j = i then status_rank (cm_status m') else msg_rank C j)"
  by (simp add: msg_rank_def put_message_def update_conv')

lemma put_message_rest [simp]:
  "mc_nonces (put_message m i C) = mc_nonces C" "mc_next_message_id (put_message m i C) = mc_next_message_id C"
  "mc_messages_per_block (put_message m i C) = mc_messages_per_block C"
  by (simp_all add: put_message_def)

text \<open>Everything but sending leaves the log, the nonces and the counters alone.\<close>

definition same_log :: "messaging_contract \<Rightarrow> messaging_contract \<Rightarrow> bool" where
  "same_log C' C = (msg_log C' = msg_log C \<and> mc_nonces C' = mc_nonces C \<and> mc_next_message_id C' = mc_next_message_id C
     \<and> (\<forall>cid b. msg_block_count cid b C' = msg_block_count cid b C))"

lemma msg_log_cong: "mc_messages C' = mc_messages C \<Longrightarrow> msg_log C' = msg_log C"
  by (simp add: msg_log_def fun_eq_iff)

lemma same_log_inbox: "same_log (C'\<lparr>mc_inbox := q\<rparr>) C = same_log C' C"
  using msg_log_cong [of "C'\<lparr>mc_inbox := q\<rparr>" C'] by (simp add: same_log_def msg_block_count_def)

lemma same_log_put: "hm_get (mc_messages C) i = Some m \<Longrightarrow> msg_stat m' = msg_stat m \<Longrightarrow> same_log (put_message m' i C) C"
  by (simp add: same_log_def log_put msg_block_count_def)

lemma same_log_refl [simp]: "same_log C C"
  by (simp add: same_log_def)

lemma same_log_ops:
  "same_log (register_state_root cid b r C) C"
  "same_log (snd (relay_message i p C)) C"
  "same_log (snd (verify_and_deliver K i b C)) C"
  "same_log (snd (cancel_message i a C)) C"
proof -
  show "same_log (register_state_root cid b r C) C"
    by (simp add: same_log_def register_state_root_def msg_log_def msg_block_count_def fun_eq_iff)
  show "same_log (snd (relay_message i p C)) C"
    by (auto simp: relay_message_def same_log_inbox msg_stat_def split: option.split intro!: same_log_put)
  show "same_log (snd (verify_and_deliver K i b C)) C"
    by (auto simp: verify_and_deliver_def msg_stat_def split: option.split intro!: same_log_put)
  show "same_log (snd (cancel_message i a C)) C"
    by (auto simp: cancel_message_def msg_stat_def split: option.split intro!: same_log_put)
qed

lemma same_log_expire: "same_log (snd (expire_old_messages visit b C)) C"
  by (auto simp: same_log_def expire_old_messages_def msg_block_count_def msg_log_def fun_eq_iff map_of_map_values option.map_comp msg_stat_def comp_def
      intro!: option.map_cong)

lemma send_cases:
  obtains "same_log (snd (send_message K so tg a re ty pl rt b fee C)) C"
  | m where "msg_log (snd (send_message K so tg a re ty pl rt b fee C)) = (msg_log C)(mc_next_message_id C \<mapsto> m)"
      and "cm_nonce m = get_nonce so a C" and "cm_source_chain m = so" and "cm_sender m = a" and "cm_created_at m = b"
      and "mc_next_message_id (snd (send_message K so tg a re ty pl rt b fee C)) = mc_next_message_id C + 1"
      and "\<And>cid a'. get_nonce cid a' (snd (send_message K so tg a re ty pl rt b fee C)) =
             (if cid = so \<and> a' = a then get_nonce so a C + 1 else get_nonce cid a' C)"
      and "\<And>cid b'. msg_block_count cid b' (snd (send_message K so tg a re ty pl rt b fee C)) =
             (if cid = so \<and> b' = b then msg_block_count so b C + 1 else msg_block_count cid b' C)"
      and "msg_block_count so b C < 100"
proof -
  consider i where "fst (send_message K so tg a re ty pl rt b fee C) = Ok i"
    | e where "fst (send_message K so tg a re ty pl rt b fee C) = Err e"
    by (cases "fst (send_message K so tg a re ty pl rt b fee C)") auto
  then show thesis
  proof cases
    case 1
    let ?m = "\<lparr>cm_id = mc_next_message_id C, cm_source_chain = so, cm_target_chain = tg, cm_sender = a, cm_recipient = re,
      cm_message_type = ty, cm_payload_hash = blake3 K pl, cm_payload = pl, cm_source_state_root = rt, cm_inclusion_proof = None,
      cm_created_at = b, cm_expires_at = b + MESSAGE_EXPIRY, cm_status = MS_Pending, cm_fee = fee, cm_nonce = get_nonce so a C\<rparr>"
    from 1 show thesis
      by (intro that(2) [of ?m])
        (auto simp: send_message_def Let_def msg_log_def msg_stat_def get_nonce_def msg_block_count_def update_conv' const_defs fun_eq_iff
          split: if_splits)
  next
    case 2
    then show thesis
      by (intro that(1)) (auto simp: send_message_def Let_def same_log_def msg_log_def msg_block_count_def update_conv' split: if_splits)
  qed
qed

text \<open>The log: identifiers and nonces grow together, and the counters count.\<close>

definition ids_below :: "messaging_contract \<Rightarrow> bool" where
  "ids_below C = (\<forall>i m. msg_log C i = Some m \<longrightarrow>
     i < mc_next_message_id C \<and> cm_nonce m < get_nonce (cm_source_chain m) (cm_sender m) C)"

definition nonces_below :: "messaging_contract \<Rightarrow> bool" where
  "nonces_below C = (\<forall>cid a. get_nonce cid a C < mc_next_message_id C)"

definition nonces_ordered :: "messaging_contract \<Rightarrow> bool" where
  "nonces_ordered C = (\<forall>i j m m'. msg_log C i = Some m \<longrightarrow> msg_log C j = Some m' \<longrightarrow> cm_source_chain m = cm_source_chain m'
     \<longrightarrow> cm_sender m = cm_sender m' \<longrightarrow> i < j \<longrightarrow> cm_nonce m < cm_nonce m')"

definition sent_in :: "chain_id \<Rightarrow> block_number \<Rightarrow> messaging_contract \<Rightarrow> message_id set" where
  "sent_in cid b C = {i. \<exists>m. msg_log C i = Some m \<and> cm_source_chain m = cid \<and> cm_created_at m = b}"

definition counts_exact :: "messaging_contract \<Rightarrow> bool" where
  "counts_exact C = (\<forall>cid b. card (sent_in cid b C) = msg_block_count cid b C \<and> msg_block_count cid b C \<le> 100)"

definition log_ok :: "messaging_contract \<Rightarrow> bool" where
  "log_ok C = (ids_below C \<and> nonces_below C \<and> nonces_ordered C \<and> counts_exact C)"

lemma log_ok_same: "same_log C' C \<Longrightarrow> log_ok C \<Longrightarrow> log_ok C'"
  by (simp add: same_log_def log_ok_def ids_below_def nonces_below_def nonces_ordered_def counts_exact_def sent_in_def get_nonce_def)

lemma sent_in_finite: "finite (sent_in cid b C)"
proof (rule finite_subset)
  show "sent_in cid b C \<subseteq> dom (hm_get (mc_messages C))" by (auto simp: sent_in_def msg_log_def)
qed (simp add: finite_dom_map_of)

lemma log_ok_send:
  assumes ok: "log_ok C" and small: "unat (mc_next_message_id C) < 2 ^ 63"
  shows "log_ok (snd (send_message K so tg a re ty pl rt b fee C))"
proof (cases rule: send_cases [of K so tg a re ty pl rt b fee C])
  case 1
  with ok show ?thesis by (rule log_ok_same [rotated])
next
  case (2 m)
  let ?C = "snd (send_message K so tg a re ty pl rt b fee C)" and ?n = "mc_next_message_id C"
  have below: "ids_below C" and nb: "nonces_below C" and ord: "nonces_ordered C" and cnt: "counts_exact C"
    using ok by (auto simp: log_ok_def)
  have n: "?n < ?n + 1" "\<And>x. x < ?n \<Longrightarrow> x < ?n + 1 \<and> x + 1 < ?n + 1"
    using small by (auto simp: word_less_nat_alt unat_add_fits)
  have nonce: "get_nonce so a C < ?n" using nb by (simp add: nonces_below_def)
  then have inc: "get_nonce so a C < get_nonce so a C + 1"
    using small by (simp add: word_less_nat_alt unat_add_fits)
  have "ids_below ?C"
    using below n inc unfolding ids_below_def 2(1,6,7)
    by (auto simp: 2(2,3,4) intro: less_trans)
  moreover have "nonces_below ?C"
    using nb n nonce unfolding nonces_below_def 2(6,7) by simp
  moreover have "nonces_ordered ?C"
    using ord below unfolding nonces_ordered_def ids_below_def 2(1) by (auto simp: 2(2,3,4) dest: less_asym)
  moreover have "counts_exact ?C"
  proof -
    have "?n \<notin> sent_in cid b' C" for cid b' using below by (auto simp: ids_below_def sent_in_def)
    moreover have "sent_in cid b' ?C = (if cid = so \<and> b' = b then insert ?n (sent_in cid b' C) else sent_in cid b' C)" for cid b'
      using calculation [of cid b'] by (auto simp: sent_in_def 2(1) 2(3) 2(5))
    ultimately show ?thesis
      using cnt 2(9) unfolding counts_exact_def 2(8) by (auto simp: sent_in_finite)
  qed
  ultimately show ?thesis by (simp add: log_ok_def)
qed

lemma log_ok_exec: "log_ok C \<Longrightarrow> unat (mc_next_message_id C) < 2 ^ 63 \<Longrightarrow> log_ok (msg_exec K visit opn C)"
  by (cases opn) (auto simp: log_ok_send intro: log_ok_same [OF same_log_expire] same_log_ops [THEN log_ok_same])

lemma log_ok_run: "msg_run K visit C0 C \<Longrightarrow> log_ok C0 \<Longrightarrow> log_ok C"
  by (induction rule: msg_run.induct) (simp_all add: log_ok_exec)

lemma log_ok_new: "log_ok messaging_new"
  by (simp add: log_ok_def ids_below_def nonces_below_def nonces_ordered_def counts_exact_def sent_in_def msg_log_def get_nonce_def
      msg_block_count_def messaging_new_def)

text \<open>
  The message log is ordered and rate limited.  After any history, two messages of one sender on one
  chain carry increasing nonces in the order in which they were sent, and no chain has sent more than a
  hundred messages in one block.
\<close>

theorem messages_ordered:
  assumes "msg_run K visit messaging_new C"
  shows "card {i. \<exists>m. hm_get (mc_messages C) i = Some m \<and> cm_source_chain m = cid \<and> cm_created_at m = b} \<le> MAX_MESSAGES_PER_BLOCK
    \<and> (\<forall>i j m m'. hm_get (mc_messages C) i = Some m \<and> hm_get (mc_messages C) j = Some m' \<and> i < j
         \<and> cm_source_chain m = cm_source_chain m' \<and> cm_sender m = cm_sender m' \<longrightarrow> cm_nonce m < cm_nonce m')"
proof -
  have ok: "log_ok C" using log_ok_run [OF assms log_ok_new] .
  have sent: "{i. \<exists>m. hm_get (mc_messages C) i = Some m \<and> cm_source_chain m = cid \<and> cm_created_at m = b} = sent_in cid b C"
    by (auto simp: sent_in_def msg_log_def msg_stat_def)
  from ok have "card {i. \<exists>m. hm_get (mc_messages C) i = Some m \<and> cm_source_chain m = cid \<and> cm_created_at m = b} \<le> 100"
    unfolding sent by (simp add: log_ok_def counts_exact_def)
  moreover have "cm_nonce m < cm_nonce m'"
    if "hm_get (mc_messages C) i = Some m \<and> hm_get (mc_messages C) j = Some m' \<and> i < j
        \<and> cm_source_chain m = cm_source_chain m' \<and> cm_sender m = cm_sender m'" for i j m m'
  proof -
    have "msg_log C i = Some (msg_stat m)" "msg_log C j = Some (msg_stat m')" using that by (simp_all add: msg_log_def)
    with ok that show ?thesis unfolding log_ok_def nonces_ordered_def by (fastforce simp: msg_stat_def)
  qed
  ultimately show ?thesis unfolding MAX_MESSAGES_PER_BLOCK_def by blast
qed

definition two_messages :: messaging_contract where
  "two_messages = msg_exec demo_crypto (\<lambda>l. l) (Ms_send 1 2 7 None DataTransfer [] 0 5 1)
     (msg_exec demo_crypto (\<lambda>l. l) (Ms_send 1 2 7 None DataTransfer [] 0 5 1) messaging_new)"

lemma two_messages_run: "msg_run demo_crypto (\<lambda>l. l) messaging_new two_messages"
  unfolding two_messages_def
  by (rule msg_step [OF msg_step [OF msg_start]])
    (simp_all add: messaging_new_def send_message_def Let_def msg_block_count_def const_defs)

theorem messages_ordered_witness:
  "card {i. \<exists>m. hm_get (mc_messages two_messages) i = Some m \<and> cm_source_chain m = 1 \<and> cm_created_at m = 5} \<le> MAX_MESSAGES_PER_BLOCK"
  using messages_ordered [OF two_messages_run, of 1 5] by simp

section \<open>Messages are settled once\<close>

lemma rank_exec:
  assumes "log_ok C"
  shows "msg_rank C i \<le> msg_rank (msg_exec K visit opn C) i"
proof (cases opn)
  case (Ms_send so tg a re ty pl rt b fee)
  have "msg_rank C (mc_next_message_id C) = 0"
    using assms by (auto simp: log_ok_def ids_below_def msg_log_def msg_rank_def split: option.split)
  then show ?thesis
    by (auto simp: Ms_send send_message_def Let_def msg_rank_def update_conv')
qed (auto simp: register_state_root_def relay_message_def verify_and_deliver_def cancel_message_def expire_old_messages_def
    rank_put msg_rank_def map_of_map_values message_overdue_def status_rank_le put_message_def update_conv' split: option.splits)

lemma rank_run: "msg_run K visit C0 C \<Longrightarrow> log_ok C0 \<Longrightarrow> msg_rank C0 i \<le> msg_rank C i \<and> log_ok C"
  by (induction rule: msg_run.induct) (auto simp: log_ok_exec intro: order_trans [OF _ rank_exec])

lemma deliver_valid:
  assumes "fst (verify_and_deliver K i b C) = Ok v" and "mv_is_valid v"
  shows "msg_rank (snd (verify_and_deliver K i b C)) i = 2"
    and "\<exists>m p. hm_get (mc_messages C) i = Some m \<and> cm_status m = MS_Relayed \<and> cm_inclusion_proof m = Some p \<and> merkle_verify K p
      \<and> (\<forall>r. hm_get (mc_known_state_roots C) (cm_source_chain m, mp_block_number p) = Some r \<longrightarrow> mp_root p = r)"
  using assms by (auto simp: verify_and_deliver_def verdict_on_def rank_put split: option.splits if_splits)

lemma cancel_pending:
  assumes "fst (cancel_message i a C) = Ok fee"
  shows "msg_rank C i = 0" and "msg_rank (snd (cancel_message i a C)) i = 2"
  using assms by (auto simp: cancel_message_def rank_put msg_rank_def put_message_def update_conv' split: option.splits if_splits)

text \<open>
  C20: a message is settled once.  When it is delivered it had been relayed with a Merkle proof that
  verifies and agrees with the state root known for its block; once it has been delivered, or cancelled
  with the fee paid back, no later operation delivers it (again) or pays the fee back (again).
\<close>

theorem message_settled_once:
  assumes "msg_run K visit messaging_new C"
    and "fst (verify_and_deliver K i b C) = Ok v \<and> mv_is_valid v \<and> C1 = snd (verify_and_deliver K i b C)
      \<or> fst (cancel_message i a C) = Ok fee \<and> C1 = snd (cancel_message i a C)"
    and "unat (mc_next_message_id C) < 2 ^ 63" and "msg_run K visit C1 C2"
  shows "(fst (verify_and_deliver K i b C) = Ok v \<and> mv_is_valid v \<longrightarrow>
        (\<exists>m p. hm_get (mc_messages C) i = Some m \<and> cm_inclusion_proof m = Some p \<and> merkle_verify K p
           \<and> (\<forall>r. hm_get (mc_known_state_roots C) (cm_source_chain m, mp_block_number p) = Some r \<longrightarrow> mp_root p = r)))
    \<and> \<not> (\<exists>w. fst (verify_and_deliver K i b' C2) = Ok w \<and> mv_is_valid w) \<and> \<not> (\<exists>x. fst (cancel_message i a' C2) = Ok x)"
proof -
  have ok: "log_ok C" using log_ok_run [OF assms(1) log_ok_new] .
  have settled: "msg_rank C1 i = 2" and ok1: "log_ok C1"
    using assms(2) cancel_pending(2) [of i a C fee] log_ok_same [OF same_log_ops(3) ok] log_ok_same [OF same_log_ops(4) ok]
      deliver_valid(1) [of K i b C v] by auto
  with rank_run [OF assms(4), of i] have "2 \<le> msg_rank C2 i" by simp
  then have "\<not> (\<exists>w. fst (verify_and_deliver K i b' C2) = Ok w \<and> mv_is_valid w)" and "\<not> (\<exists>x. fst (cancel_message i a' C2) = Ok x)"
    using cancel_pending(1) [of i a' C2] deliver_valid(2) [of K i b' C2] by (auto simp: msg_rank_def)
  moreover have "\<exists>m p. hm_get (mc_messages C) i = Some m \<and> cm_inclusion_proof m = Some p \<and> merkle_verify K p
      \<and> (\<forall>r. hm_get (mc_known_state_roots C) (cm_source_chain m, mp_block_number p) = Some r \<longrightarrow> mp_root p = r)"
    if "fst (verify_and_deliver K i b C) = Ok v \<and> mv_is_valid v"
    using that deliver_valid(2) [of K i b C v] by blast
  ultimately show ?thesis by blast
qed

lemma two_messages_cancel: "fst (cancel_message 1 7 two_messages) = Ok 1" "unat (mc_next_message_id two_messages) < 2 ^ 63"
  by (simp_all add: two_messages_def cancel_message_def messaging_new_def send_message_def Let_def msg_block_count_def const_defs update_conv')

theorem message_settled_once_witness:
  "\<not> (\<exists>x. fst (cancel_message 1 7 (snd (cancel_message 1 7 two_messages))) = Ok x)"
  using message_settled_once [OF two_messages_run _ two_messages_cancel(2) msg_start, of 1 0 _ "snd (cancel_message 1 7 two_messages)" 7 1 0 7]
    two_messages_cancel(1) by blast

section \<open>Behaviour that differs from the documentation\<close>

text \<open>
  The proof is not compared with the message: as long as no root of the proof's block is known, any
  proof that verifies by itself delivers any relayed message.
\<close>

lemma foreign_proof_delivers:
  assumes "hm_get (mc_messages C) i = Some m" and "cm_status m = MS_Pending" and "merkle_verify K p" and "b \<le> cm_expires_at m"
    and "hm_get (mc_known_state_roots C) (cm_source_chain m, mp_block_number p) = None"
  shows "\<exists>v. fst (verify_and_deliver K i b (snd (relay_message i p C))) = Ok v \<and> mv_is_valid v"
  using assms by (auto simp: relay_message_def verify_and_deliver_def put_message_def update_conv' verdict_on_def)

text \<open>Asking again for a message that was delivered in time marks it as expired.\<close>

lemma delivered_message_expires:
  assumes "hm_get (mc_messages C) i = Some m" and "cm_status m = MS_Delivered" and "cm_expires_at m < b"
  shows "map_option cm_status (hm_get (mc_messages (snd (verify_and_deliver K i b C))) i) = Some MS_Expired"
  using assms by (simp add: verify_and_deliver_def put_message_def update_conv')

end
