(* ===== verification/Kratos_Network.thy ===== *)
theory Kratos_Network
  imports Kratos_Blocks
begin

text \<open>
  The parts of the network layer that decide: the limits on messages of peers
  (\<^verbatim>\<open>network/rate_limit.rs\<close>) and on requests to the RPC server (\<^verbatim>\<open>rpc/rate_limit.rs\<close>), the
  scores of peers (\<^verbatim>\<open>network/peer.rs\<close>) and the download of missing blocks (\<^verbatim>\<open>network/sync.rs\<close>).
  An \<open>Instant\<close> is a natural number of milliseconds and the clock is read once per call, as the argument
  \<open>now\<close>; peers and internet addresses are byte strings.  Both limiters count in fixed windows; what that
  means for any stretch of time is proved once, in the locale \<open>window_limiter\<close>.
\<close>

type_synonym instant = nat
type_synonym peer_id = bytes

section \<open>Counting in fixed windows\<close>

text \<open>The number of times of a list in an interval, and from a time on.\<close>

definition passed_in :: "instant \<Rightarrow> instant \<Rightarrow> instant list \<Rightarrow> nat" where
  "passed_in a b A = length (filter (\<lambda>x. a \<le> x \<and> x < b) A)"

definition passed_since :: "instant \<Rightarrow> instant list \<Rightarrow> nat" where
  "passed_since a A = length (filter (\<lambda>x. a \<le> x) A)"

lemma passed_in_Cons: "passed_in a b (x # A) = of_bool (a \<le> x \<and> x < b) + passed_in a b A"
  by (simp add: passed_in_def)

lemma passed_since_Cons: "passed_since a (x # A) = of_bool (a \<le> x) + passed_since a A"
  by (simp add: passed_since_def)

lemma length_filter_mono: "(\<And>x. x \<in> set A \<Longrightarrow> P x \<Longrightarrow> Q x) \<Longrightarrow> length (filter P A) \<le> length (filter Q A)"
  by (induction A) (auto intro: le_SucI)

lemma passed_in_le_since: "a' \<le> a \<Longrightarrow> passed_in a b A \<le> passed_since a' A"
  unfolding passed_in_def passed_since_def by (rule length_filter_mono) simp

lemma passed_in_split: "passed_in a b A \<le> passed_in a c A + passed_since c A"
  by (induction A) (auto simp: passed_in_def passed_since_def)

lemma passed_in_mono: "a' \<le> a \<Longrightarrow> b \<le> b' \<Longrightarrow> passed_in a b A \<le> passed_in a' b' A"
  unfolding passed_in_def by (rule length_filter_mono) simp

lemma passed_since_zero: "\<forall>x \<in> set A. x < a \<Longrightarrow> passed_since a A = 0"
  by (auto simp: passed_since_def filter_empty_conv)

text \<open>
  A limiter is seen through \<open>view\<close>: the start of the present window and a count, or nothing when the
  limiter has no entry.  \<open>step now s acc s'\<close> is one call at time \<open>now\<close>, which admits a message when \<open>acc\<close>.
\<close>

locale window_limiter =
  fixes view :: "'s \<Rightarrow> (instant \<times> nat) option"
    and step :: "instant \<Rightarrow> 's \<Rightarrow> bool \<Rightarrow> 's \<Rightarrow> bool"
    and W :: nat and limit :: nat
  assumes W: "0 < W"
    and forgets: "step now s acc s' \<Longrightarrow> view s' = None \<Longrightarrow>
      \<not> acc \<and> (case view s of None \<Rightarrow> True | Some (w, _) \<Rightarrow> w + 2 * W \<le> now)"
    and counts: "step now s acc s' \<Longrightarrow> view s' = Some (w', n') \<Longrightarrow>
      (\<exists>n. view s = Some (w', n) \<and> n + of_bool acc \<le> n' \<and> (acc \<longrightarrow> now < w' + W))
      \<or> w' = now \<and> of_bool acc \<le> n' \<and> (case view s of None \<Rightarrow> True | Some (w, _) \<Rightarrow> w + W \<le> now)"
    and admits: "step now s True s' \<Longrightarrow> view s' = Some (w', n') \<Longrightarrow> n' \<le> limit"
begin

text \<open>What holds of the admitted times: in the present window and in the window's length before it.\<close>

definition window_ok :: "instant \<Rightarrow> instant list \<Rightarrow> 's \<Rightarrow> bool" where
  "window_ok t A s = ((\<forall>x \<in> set A. x \<le> t) \<and> (\<forall>a. passed_in a (a + W) A \<le> 2 * limit) \<and>
     (case view s of
        None \<Rightarrow> \<forall>x \<in> set A. x + W \<le> t
      | Some (w, n) \<Rightarrow> w \<le> t \<and> passed_since w A \<le> min n limit \<and> (\<forall>x \<in> set A. x < w + W) \<and> (\<forall>a. w < a + W \<longrightarrow> passed_in a w A \<le> limit)))"

lemma window_facts:
  assumes ok: "window_ok t A s" and "t \<le> now" and s: "step now s acc s'" and v: "view s' = Some (w', n')"
  shows "w' \<le> now \<and> passed_since w' A + of_bool acc \<le> n' \<and> passed_since w' A \<le> limit \<and> (\<forall>x \<in> set A. x < w' + W)
    \<and> (acc \<longrightarrow> now < w' + W) \<and> (\<forall>a. w' < a + W \<longrightarrow> passed_in a w' A \<le> limit)"
  using counts [OF s v]
proof (elim disjE exE conjE)
  fix n assume "view s = Some (w', n)" "n + of_bool acc \<le> n'" "acc \<longrightarrow> now < w' + W"
  then show ?thesis using ok \<open>t \<le> now\<close> by (auto simp: window_ok_def)
next
  assume *: "w' = now" "of_bool acc \<le> n'" "case view s of None \<Rightarrow> True | Some (w, _) \<Rightarrow> w + W \<le> now"
  have past: "\<forall>x \<in> set A. x < now"
    using ok * \<open>t \<le> now\<close> W by (fastforce simp: window_ok_def split: option.splits prod.splits)
  have "passed_in a now A \<le> limit" if a: "now < a + W" for a
  proof (cases "view s")
    case None
    with ok \<open>t \<le> now\<close> a have "\<forall>x \<in> set A. x < a" by (fastforce simp: window_ok_def)
    then have "passed_since a A = 0" by (rule passed_since_zero)
    with passed_in_le_since [of a a now A] show ?thesis by simp
  next
    case (Some wn)
    with ok * a have "fst wn \<le> a" "passed_since (fst wn) A \<le> limit" by (auto simp: window_ok_def split: prod.splits)
    with passed_in_le_since [of "fst wn" a now A] show ?thesis by simp
  qed
  with past * W passed_since_zero [OF past] show ?thesis by fastforce
qed

lemma window_ok_step:
  assumes ok: "window_ok t A s" and "t \<le> now" and s: "step now s acc s'"
  shows "window_ok now (if acc then now # A else A) s'"
proof (cases "view s'")
  case None
  with forgets [OF s] ok \<open>t \<le> now\<close> W show ?thesis
    by (fastforce simp: window_ok_def split: option.splits prod.splits)
next
  case (Some wn)
  obtain w' n' where v: "view s' = Some (w', n')" using Some by (cases wn) auto
  note f = window_facts [OF ok \<open>t \<le> now\<close> s v]
  have lim: "acc \<Longrightarrow> n' \<le> limit" using admits s v by auto
  have "passed_in a (a + W) (if acc then now # A else A) \<le> 2 * limit" for a
  proof (cases "acc \<and> a \<le> now \<and> now < a + W")
    case True
    with f have "passed_in a w' A \<le> limit" and "passed_since w' A + 1 \<le> limit" using lim by auto
    with passed_in_split [of a "a + W" A w'] True show ?thesis by (simp add: passed_in_Cons)
  next
    case False
    with ok show ?thesis by (auto simp: window_ok_def passed_in_Cons)
  qed
  moreover have "\<forall>x \<in> set A. x \<le> now" using ok \<open>t \<le> now\<close> by (auto simp: window_ok_def)
  ultimately show ?thesis
    using f lim v by (auto simp: window_ok_def passed_in_Cons passed_since_Cons)
qed

lemma window_ok_start: "view s = None \<Longrightarrow> window_ok t [] s"
  by (simp add: window_ok_def passed_in_def)

lemma sliding_bound: "window_ok t A s \<Longrightarrow> passed_in a (a + W) A \<le> 2 * limit"
  by (simp add: window_ok_def)

end

section \<open>Messages of peers\<close>

record rate_limit_config =
  rl_max_messages_per_window :: nat
  rl_window_duration :: nat
  rl_max_message_size :: nat
  rl_max_connections_per_peer :: nat
  rl_max_bandwidth_per_peer :: nat

definition default_rate_limit :: rate_limit_config where
  "default_rate_limit =
     \<lparr>rl_max_messages_per_window = 100, rl_window_duration = 10000, rl_max_message_size = 10 * 1024 * 1024,
      rl_max_connections_per_peer = 3, rl_max_bandwidth_per_peer = 1024 * 1024\<rparr>"

record peer_stats =
  ps_messages_in_window :: nat
  ps_window_start :: instant
  ps_bytes_in_window :: nat
  ps_violations :: nat
  ps_last_violation :: "instant option"

definition peer_stats_new :: "instant \<Rightarrow> peer_stats" where
  "peer_stats_new now =
     \<lparr>ps_messages_in_window = 0, ps_window_start = now, ps_bytes_in_window = 0, ps_violations = 0, ps_last_violation = None\<rparr>"

definition maybe_reset_window :: "instant \<Rightarrow> nat \<Rightarrow> peer_stats \<Rightarrow> peer_stats" where
  "maybe_reset_window now dur st =
     (if dur \<le> now - ps_window_start st
      then st\<lparr>ps_messages_in_window := 0, ps_bytes_in_window := 0, ps_window_start := now\<rparr> else st)"

definition stats_record_violation :: "instant \<Rightarrow> peer_stats \<Rightarrow> peer_stats" where
  "stats_record_violation now st = st\<lparr>ps_violations := ps_violations st + 1, ps_last_violation := Some now\<rparr>"

definition should_ban :: "peer_stats \<Rightarrow> bool" where
  "should_ban st = (5 \<le> ps_violations st)"

record network_rate_limiter =
  nl_config :: rate_limit_config
  nl_peer_stats :: "(peer_id, peer_stats) hmap"
  nl_banned_peers :: "(peer_id, instant) hmap"
  nl_ban_duration :: nat

definition network_limiter_new :: "rate_limit_config \<Rightarrow> network_rate_limiter" where
  "network_limiter_new cfg = \<lparr>nl_config = cfg, nl_peer_stats = [], nl_banned_peers = [], nl_ban_duration = 3600000\<rparr>"

datatype rate_limit_error = PeerBanned | MessageTooLarge nat nat | TooManyMessages nat nat | BandwidthExceeded

type_synonym 'a limiter_action = "(network_rate_limiter, rate_limit_error, 'a) action"

definition clear_violations :: "peer_id \<Rightarrow> network_rate_limiter \<Rightarrow> network_rate_limiter" where
  "clear_violations p L =
     (case hm_get (nl_peer_stats L) p of
        None \<Rightarrow> L
      | Some st \<Rightarrow> L\<lparr>nl_peer_stats := hm_insert p (st\<lparr>ps_violations := 0\<rparr>) (nl_peer_stats L)\<rparr>)"

definition unban_peer :: "peer_id \<Rightarrow> network_rate_limiter \<Rightarrow> network_rate_limiter" where
  "unban_peer p L = clear_violations p (L\<lparr>nl_banned_peers := hm_remove p (nl_banned_peers L)\<rparr>)"

definition limiter_is_banned :: "instant \<Rightarrow> peer_id \<Rightarrow> network_rate_limiter \<Rightarrow> bool \<times> network_rate_limiter" where
  "limiter_is_banned now p L =
     (case hm_get (nl_banned_peers L) p of
        None \<Rightarrow> (False, L)
      | Some t \<Rightarrow> if now - t < nl_ban_duration L then (True, L)
                  else (False, clear_violations p (L\<lparr>nl_banned_peers := hm_remove p (nl_banned_peers L)\<rparr>)))"

definition stats_or_new :: "instant \<Rightarrow> peer_id \<Rightarrow> network_rate_limiter \<Rightarrow> peer_stats" where
  "stats_or_new now p L = (case hm_get (nl_peer_stats L) p of Some st \<Rightarrow> st | None \<Rightarrow> peer_stats_new now)"

definition put_stats :: "peer_id \<Rightarrow> peer_stats \<Rightarrow> network_rate_limiter \<Rightarrow> network_rate_limiter" where
  "put_stats p st L = L\<lparr>nl_peer_stats := hm_insert p st (nl_peer_stats L)\<rparr>"

definition ban_network_peer :: "instant \<Rightarrow> peer_id \<Rightarrow> network_rate_limiter \<Rightarrow> network_rate_limiter" where
  "ban_network_peer now p L = L\<lparr>nl_banned_peers := hm_insert p now (nl_banned_peers L)\<rparr>"

definition limiter_record_violation :: "instant \<Rightarrow> peer_id \<Rightarrow> network_rate_limiter \<Rightarrow> network_rate_limiter" where
  "limiter_record_violation now p L =
     (let st = stats_record_violation now (stats_or_new now p L); L' = put_stats p st L
      in if should_ban st then ban_network_peer now p L' else L')"

definition check_message :: "instant \<Rightarrow> peer_id \<Rightarrow> nat \<Rightarrow> unit limiter_action" where
  "check_message now p message_size L0 =
     (let (banned, L) = limiter_is_banned now p L0; cfg = nl_config L
      in if banned then (Err PeerBanned, L)
         else if rl_max_message_size cfg < message_size
         then (Err (MessageTooLarge message_size (rl_max_message_size cfg)), limiter_record_violation now p L)
         else
           let st = maybe_reset_window now (rl_window_duration cfg) (stats_or_new now p L); L1 = put_stats p st L
           in if rl_max_messages_per_window cfg \<le> ps_messages_in_window st
              then (Err (TooManyMessages (ps_messages_in_window st) (rl_max_messages_per_window cfg)), limiter_record_violation now p L1)
              else if rl_max_bandwidth_per_peer cfg * (rl_window_duration cfg div 1000) < ps_bytes_in_window st + message_size
              then (Err BandwidthExceeded, limiter_record_violation now p L1)
              else (Ok (), put_stats p (st\<lparr>ps_messages_in_window := ps_messages_in_window st + 1,
                                           ps_bytes_in_window := ps_bytes_in_window st + message_size\<rparr>) L1))"

definition net_limiter_cleanup :: "instant \<Rightarrow> network_rate_limiter \<Rightarrow> network_rate_limiter" where
  "net_limiter_cleanup now L =
     L\<lparr>nl_peer_stats := hm_retain (\<lambda>_ st. now - ps_window_start st < 3600000) (nl_peer_stats L),
       nl_banned_peers := hm_retain (\<lambda>_ t. now - t < nl_ban_duration L) (nl_banned_peers L)\<rparr>"

text \<open>The calls on the limiter, as one peer \<open>p\<close> sees them.\<close>

datatype limiter_op = Op_check peer_id nat | Op_banned peer_id | Op_ban peer_id | Op_unban peer_id | Op_cleanup

fun limiter_exec :: "instant \<Rightarrow> limiter_op \<Rightarrow> network_rate_limiter \<Rightarrow> network_rate_limiter" where
  "limiter_exec now (Op_check q n) L = snd (check_message now q n L)"
| "limiter_exec now (Op_banned q) L = snd (limiter_is_banned now q L)"
| "limiter_exec now (Op_ban q) L = ban_network_peer now q L"
| "limiter_exec now (Op_unban q) L = unban_peer q L"
| "limiter_exec now Op_cleanup L = net_limiter_cleanup now L"

definition admits_message :: "instant \<Rightarrow> peer_id \<Rightarrow> limiter_op \<Rightarrow> network_rate_limiter \<Rightarrow> bool" where
  "admits_message now p opn L = (case opn of Op_check q n \<Rightarrow> q = p \<and> fst (check_message now q n L) = Ok () | _ \<Rightarrow> False)"

definition peer_view :: "peer_id \<Rightarrow> network_rate_limiter \<Rightarrow> (instant \<times> nat) option" where
  "peer_view p L = map_option (\<lambda>st. (ps_window_start st, ps_messages_in_window st)) (hm_get (nl_peer_stats L) p)"

definition limiter_step :: "peer_id \<Rightarrow> instant \<Rightarrow> network_rate_limiter \<Rightarrow> bool \<Rightarrow> network_rate_limiter \<Rightarrow> bool" where
  "limiter_step p now L acc L' = (nl_config L = default_rate_limit \<and> hm_inv (nl_peer_stats L) \<and>
     (\<exists>opn. acc = admits_message now p opn L \<and> L' = limiter_exec now opn L))"

lemma view_clear [simp]: "peer_view p (clear_violations q L) = peer_view p L"
  by (auto simp: peer_view_def clear_violations_def update_conv' split: option.split)

lemma view_bans [simp]: "peer_view p (L\<lparr>nl_banned_peers := B\<rparr>) = peer_view p L"
  by (simp add: peer_view_def)

lemma view_is_banned [simp]: "peer_view p (snd (limiter_is_banned now q L)) = peer_view p L"
  by (simp add: limiter_is_banned_def split: option.split)

lemma view_put: "peer_view p (put_stats q st L) =
    (if q = p then Some (ps_window_start st, ps_messages_in_window st) else peer_view p L)"
  by (simp add: peer_view_def put_stats_def update_conv')

lemma view_ban [simp]: "peer_view p (ban_network_peer now q L) = peer_view p L"
  by (simp add: ban_network_peer_def)

lemma view_violation: "peer_view p (limiter_record_violation now q L) =
    (if q = p then (case peer_view p L of None \<Rightarrow> Some (now, 0) | Some v \<Rightarrow> Some v) else peer_view p L)"
proof -
  have "peer_view p (limiter_record_violation now q L) = peer_view p (put_stats q (stats_record_violation now (stats_or_new now q L)) L)"
    by (simp add: limiter_record_violation_def Let_def)
  then show ?thesis unfolding view_put
    by (simp add: stats_or_new_def stats_record_violation_def peer_stats_new_def peer_view_def split: option.split)
qed

lemma config_is_banned: "nl_config (snd (limiter_is_banned now q L)) = nl_config L"
  by (simp add: limiter_is_banned_def clear_violations_def split: option.split)

lemma stats_view:
  "ps_window_start (stats_or_new now p L) = (case peer_view p L of None \<Rightarrow> now | Some (w, _) \<Rightarrow> w)"
  "ps_messages_in_window (stats_or_new now p L) = (case peer_view p L of None \<Rightarrow> 0 | Some (_, n) \<Rightarrow> n)"
  by (simp_all add: stats_or_new_def peer_view_def peer_stats_new_def split: option.split)

lemma check_other: "q \<noteq> p \<Longrightarrow> peer_view p (snd (check_message now q n L)) = peer_view p L"
  using view_is_banned [of p now q L]
  by (cases "limiter_is_banned now q L") (simp add: check_message_def Let_def view_put view_violation)

definition counted :: "instant \<Rightarrow> (instant \<times> nat) option \<Rightarrow> instant \<times> nat" where
  "counted now v = (case v of None \<Rightarrow> (now, 0) | Some (w, n) \<Rightarrow> if 10000 \<le> now - w then (now, 0) else (w, n))"

lemma reset_view:
  "ps_window_start (maybe_reset_window now 10000 (stats_or_new now p L)) = fst (counted now (peer_view p L))"
  "ps_messages_in_window (maybe_reset_window now 10000 (stats_or_new now p L)) = snd (counted now (peer_view p L))"
  by (auto simp: maybe_reset_window_def stats_view counted_def split: option.split)

lemma check_view:
  assumes "nl_config L = default_rate_limit"
  shows "fst (check_message now p n L) = Ok () \<and> snd (counted now (peer_view p L)) < 100
      \<and> peer_view p (snd (check_message now p n L)) = Some (fst (counted now (peer_view p L)), snd (counted now (peer_view p L)) + 1)
    \<or> fst (check_message now p n L) \<noteq> Ok ()
      \<and> peer_view p (snd (check_message now p n L)) \<in> {peer_view p L, Some (counted now (peer_view p L))}"
proof -
  obtain banned L1 where b: "limiter_is_banned now p L = (banned, L1)" by (cases "limiter_is_banned now p L")
  have v: "peer_view p L1 = peer_view p L" and c: "nl_config L1 = default_rate_limit"
    using view_is_banned [of p now p L] config_is_banned [of now p L] assms by (simp_all add: b)
  have d: "rl_window_duration default_rate_limit = 10000" "rl_max_messages_per_window default_rate_limit = 100"
    by (simp_all add: default_rate_limit_def)
  have vio: "(case peer_view p L of None \<Rightarrow> Some (now, 0) | Some x \<Rightarrow> Some x) \<in> {peer_view p L, Some (counted now (peer_view p L))}"
    by (simp add: counted_def split: option.split)
  show ?thesis
    using vio by (auto simp: check_message_def b Let_def c d v view_put view_violation reset_view linorder_not_le)
qed

lemma cleanup_view:
  assumes "hm_inv (nl_peer_stats L)"
  shows "peer_view p (net_limiter_cleanup now L) = peer_view p L
    \<or> peer_view p (net_limiter_cleanup now L) = None \<and> (\<forall>w n. peer_view p L = Some (w, n) \<longrightarrow> w + 20000 \<le> now)"
  using assms by (auto simp: peer_view_def net_limiter_cleanup_def hm_get_retain split: option.split)

lemma step_view:
  assumes "limiter_step p now L acc L'"
  shows "acc \<and> snd (counted now (peer_view p L)) < 100
      \<and> peer_view p L' = Some (fst (counted now (peer_view p L)), snd (counted now (peer_view p L)) + 1)
    \<or> \<not> acc \<and> (peer_view p L' \<in> {peer_view p L, Some (counted now (peer_view p L))}
      \<or> peer_view p L' = None \<and> (\<forall>w n. peer_view p L = Some (w, n) \<longrightarrow> w + 20000 \<le> now))"
proof -
  obtain opn where cfg: "nl_config L = default_rate_limit" and inv: "hm_inv (nl_peer_stats L)"
    and acc: "acc = admits_message now p opn L" and L': "L' = limiter_exec now opn L"
    using assms by (auto simp: limiter_step_def)
  show ?thesis
  proof (cases opn)
    case (Op_check q n)
    show ?thesis
    proof (cases "q = p")
      case True
      with check_view [OF cfg, of now p n] Op_check show ?thesis by (auto simp: acc L' admits_message_def)
    qed (use Op_check in \<open>simp add: acc L' admits_message_def check_other\<close>)
  next
    case Op_cleanup
    with cleanup_view [OF inv, of p now] show ?thesis by (auto simp: acc L' admits_message_def)
  qed (simp_all add: acc L' admits_message_def unban_peer_def)
qed

interpretation nl: window_limiter "peer_view p" "limiter_step p" 10000 100
proof
  fix now L acc L' w' n'
  assume s: "limiter_step p now L acc L'"
  show "peer_view p L' = None \<Longrightarrow> \<not> acc \<and> (case peer_view p L of None \<Rightarrow> True | Some (w, _) \<Rightarrow> w + 2 * 10000 \<le> now)"
    using step_view [OF s] by (auto split: option.split)
  show "peer_view p L' = Some (w', n') \<Longrightarrow>
      (\<exists>n. peer_view p L = Some (w', n) \<and> n + of_bool acc \<le> n' \<and> (acc \<longrightarrow> now < w' + 10000))
      \<or> w' = now \<and> of_bool acc \<le> n' \<and> (case peer_view p L of None \<Rightarrow> True | Some (w, _) \<Rightarrow> w + 10000 \<le> now)"
    using step_view [OF s] by (auto simp: counted_def split: option.splits if_splits)
next
  fix now L L' w' n'
  assume s: "limiter_step p now L True L'" and "peer_view p L' = Some (w', n')"
  then show "n' \<le> 100" using step_view [OF s] by auto
qed simp

definition limiter_inv :: "network_rate_limiter \<Rightarrow> bool" where
  "limiter_inv L = (nl_config L = default_rate_limit \<and> hm_inv (nl_peer_stats L))"

lemma limiter_inv_simps:
  "limiter_inv L \<Longrightarrow> limiter_inv (put_stats p st L)"
  "limiter_inv L \<Longrightarrow> limiter_inv (ban_network_peer now p L)"
  "limiter_inv L \<Longrightarrow> limiter_inv (L\<lparr>nl_banned_peers := B\<rparr>)"
  by (simp_all add: limiter_inv_def put_stats_def ban_network_peer_def hm.inv_put)

lemma limiter_inv_clear: "limiter_inv L \<Longrightarrow> limiter_inv (clear_violations p L)"
  by (simp add: limiter_inv_def clear_violations_def hm.inv_put split: option.split)

lemma limiter_inv_is_banned: "limiter_inv L \<Longrightarrow> limiter_inv (snd (limiter_is_banned now p L))"
  by (simp add: limiter_is_banned_def limiter_inv_simps limiter_inv_clear split: option.split)

lemma limiter_inv_violation: "limiter_inv L \<Longrightarrow> limiter_inv (limiter_record_violation now p L)"
  by (simp add: limiter_record_violation_def Let_def limiter_inv_simps)

lemma limiter_inv_exec: "limiter_inv L \<Longrightarrow> limiter_inv (limiter_exec now opn L)"
proof (cases opn)
  case (Op_check q n)
  assume "limiter_inv L"
  then have "limiter_inv (snd (limiter_is_banned now q L))" by (rule limiter_inv_is_banned)
  then show ?thesis
    by (auto simp: Op_check check_message_def Let_def limiter_inv_simps limiter_inv_violation split: prod.split)
next
  case Op_cleanup
  assume "limiter_inv L"
  then show ?thesis by (simp add: Op_cleanup net_limiter_cleanup_def limiter_inv_def)
qed (simp_all add: limiter_inv_is_banned limiter_inv_simps limiter_inv_clear unban_peer_def)

text \<open>A history of calls on the default limiter, with the times at which messages of \<open>p\<close> were admitted.\<close>

inductive limiter_run :: "peer_id \<Rightarrow> instant \<Rightarrow> instant list \<Rightarrow> network_rate_limiter \<Rightarrow> bool" for p where
  limiter_start: "limiter_run p t [] (network_limiter_new default_rate_limit)"
| limiter_call: "\<lbrakk>limiter_run p t A L; t \<le> now\<rbrakk> \<Longrightarrow>
    limiter_run p now (if admits_message now p opn L then now # A else A) (limiter_exec now opn L)"

lemma limiter_run_ok: "limiter_run p t A L \<Longrightarrow> nl.window_ok p t A L \<and> limiter_inv L"
proof (induction rule: limiter_run.induct)
  case (limiter_start t)
  have "peer_view p (network_limiter_new default_rate_limit) = None" by (simp add: peer_view_def network_limiter_new_def)
  then show ?case by (simp add: nl.window_ok_start) (simp add: network_limiter_new_def limiter_inv_def)
next
  case (limiter_call t A L now opn)
  then have "limiter_step p now L (admits_message now p opn L) (limiter_exec now opn L)"
    by (auto simp: limiter_step_def limiter_inv_def)
  with limiter_call.hyps(2) limiter_call.IH nl.window_ok_step [of p t A L now] show ?case
    by (simp only: limiter_inv_exec)
qed

text \<open>
  C30: a flooding peer is held back in every stretch of ten seconds, wherever it begins: whatever calls
  the limiter receives, in any order, it lets at most 200 messages of a peer pass in the ten seconds from \<open>a\<close> on,
  twice the limit of its fixed windows.
\<close>

theorem peer_messages_bounded:
  assumes "limiter_run p t A L"
  shows "passed_in a (a + 10000) A \<le> 200"
  using limiter_run_ok [OF assms] nl.sliding_bound [of p t A L a] by simp

theorem peer_messages_bounded_witness:
  "passed_in 5 10005 [7] \<le> 200 \<and> limiter_run [1] 7 [7] (limiter_exec 7 (Op_check [1] 100) (network_limiter_new default_rate_limit))"
proof -
  have "admits_message 7 [1] (Op_check [1] 100) (network_limiter_new default_rate_limit)"
    by (simp add: admits_message_def check_message_def limiter_is_banned_def network_limiter_new_def default_rate_limit_def Let_def
        stats_or_new_def maybe_reset_window_def peer_stats_new_def)
  then have run: "limiter_run [1] 7 [7] (limiter_exec 7 (Op_check [1] 100) (network_limiter_new default_rate_limit))"
    using limiter_call [OF limiter_start [of "[1]" 7], of 7 "Op_check [1] 100"] by simp
  with peer_messages_bounded [OF this, of 5] show ?thesis by simp
qed

text \<open>A ban lasts an hour, during which nothing of the peer is admitted.\<close>

lemma banned_peer_is_silent:
  assumes "hm_get (nl_banned_peers L) p = Some t" and "now - t < nl_ban_duration L"
  shows "check_message now p n L = (Err PeerBanned, L)"
  using assms by (simp add: check_message_def limiter_is_banned_def)

section \<open>Requests to the RPC server\<close>

record rpc_limit_config =
  rp_max_requests :: u32
  rp_window_duration :: nat
  rp_ban_duration :: nat
  rp_max_violations :: u32

definition default_rpc_limit :: rpc_limit_config where
  "default_rpc_limit = \<lparr>rp_max_requests = 100, rp_window_duration = 10000, rp_ban_duration = 300000, rp_max_violations = 3\<rparr>"

record rate_limit_entry =
  re_request_count :: u32
  re_window_start :: instant
  re_violations :: u32
  re_banned_until :: "instant option"

definition rate_limit_entry_new :: "instant \<Rightarrow> rate_limit_entry" where
  "rate_limit_entry_new now = \<lparr>re_request_count = 0, re_window_start = now, re_violations = 0, re_banned_until = None\<rparr>"

type_synonym rpc_entries = "(bytes, rate_limit_entry) hmap"

definition lift_ban :: "rate_limit_entry \<Rightarrow> rate_limit_entry" where
  "lift_ban e = (case re_banned_until e of None \<Rightarrow> e | Some _ \<Rightarrow> e\<lparr>re_banned_until := None, re_violations := 0\<rparr>)"

definition count_request :: "rpc_limit_config \<Rightarrow> instant \<Rightarrow> rate_limit_entry \<Rightarrow> (u64, unit) result \<times> rate_limit_entry" where
  "count_request cfg now e0 =
     (let e = (if rp_window_duration cfg \<le> now - re_window_start e0 then e0\<lparr>re_request_count := 0, re_window_start := now\<rparr> else e0);
          e1 = e\<lparr>re_request_count := re_request_count e + 1\<rparr>
      in if rp_max_requests cfg < re_request_count e1
         then let e2 = e1\<lparr>re_violations := re_violations e1 + 1\<rparr>
              in if rp_max_violations cfg \<le> re_violations e2
                 then (Err (of_nat (rp_ban_duration cfg div 1000)), e2\<lparr>re_banned_until := Some (now + rp_ban_duration cfg)\<rparr>)
                 else (Err (of_nat (max ((rp_window_duration cfg - (now - re_window_start e2)) div 1000) 1)), e2)
         else (Ok (), e1))"

definition check_rate_limit :: "rpc_limit_config \<Rightarrow> instant \<Rightarrow> bytes \<Rightarrow> rpc_entries \<Rightarrow> (u64, unit) result \<times> rpc_entries" where
  "check_rate_limit cfg now ip E =
     (let e = (case hm_get E ip of Some e \<Rightarrow> e | None \<Rightarrow> rate_limit_entry_new now)
      in case re_banned_until e of
           Some t \<Rightarrow> if now < t then (Err (of_nat ((t - now) div 1000)), hm_insert ip e E)
                     else let (r, e') = count_request cfg now (lift_ban e) in (r, hm_insert ip e' E)
         | None \<Rightarrow> let (r, e') = count_request cfg now e in (r, hm_insert ip e' E))"

definition rpc_cleanup :: "rpc_limit_config \<Rightarrow> instant \<Rightarrow> rpc_entries \<Rightarrow> rpc_entries" where
  "rpc_cleanup cfg now E =
     hm_retain (\<lambda>_ e. now - re_window_start e < rp_window_duration cfg * 10
       \<or> (case re_banned_until e of Some t \<Rightarrow> now < t | None \<Rightarrow> False)) E"

definition rpc_view :: "bytes \<Rightarrow> rpc_entries \<Rightarrow> (instant \<times> nat) option" where
  "rpc_view ip E = map_option (\<lambda>e. (re_window_start e, unat (re_request_count e))) (hm_get E ip)"

datatype rpc_op = Rpc_check bytes | Rpc_cleanup

fun rpc_exec :: "instant \<Rightarrow> rpc_op \<Rightarrow> rpc_entries \<Rightarrow> rpc_entries" where
  "rpc_exec now (Rpc_check ip) E = snd (check_rate_limit default_rpc_limit now ip E)"
| "rpc_exec now Rpc_cleanup E = rpc_cleanup default_rpc_limit now E"

fun admits_request :: "instant \<Rightarrow> bytes \<Rightarrow> rpc_op \<Rightarrow> rpc_entries \<Rightarrow> bool" where
  "admits_request now ip (Rpc_check ip') E = (ip' = ip \<and> fst (check_rate_limit default_rpc_limit now ip' E) = Ok ())"
| "admits_request now ip Rpc_cleanup E = False"

text \<open>The counter of requests has 32 bits; a window never sees that many.\<close>

definition rpc_quiet :: "bytes \<Rightarrow> rpc_entries \<Rightarrow> bool" where
  "rpc_quiet ip E = (\<forall>e. hm_get E ip = Some e \<longrightarrow> unat (re_request_count e) < 2 ^ 32 - 1)"

definition rpc_step :: "bytes \<Rightarrow> instant \<Rightarrow> rpc_entries \<Rightarrow> bool \<Rightarrow> rpc_entries \<Rightarrow> bool" where
  "rpc_step ip now E acc E' = (hm_inv E \<and> rpc_quiet ip E \<and> (\<exists>opn. acc = admits_request now ip opn E \<and> E' = rpc_exec now opn E))"

lemma count_request_view:
  assumes "unat (re_request_count e) < 2 ^ 32 - 1"
  shows "(re_window_start (snd (count_request default_rpc_limit now e)), unat (re_request_count (snd (count_request default_rpc_limit now e)))) =
      (let (w, n) = counted now (Some (re_window_start e, unat (re_request_count e))) in (w, n + 1))"
    and "fst (count_request default_rpc_limit now e) = Ok () \<Longrightarrow> snd (counted now (Some (re_window_start e, unat (re_request_count e)))) < 100"
  using assms
  by (auto simp: count_request_def Let_def default_rpc_limit_def counted_def unat_add_fits word_le_nat_alt word_less_nat_alt split: if_splits)

lemma counted_new: "counted now (Some (now, 0)) = counted now None"
  by (simp add: counted_def)

lemma lift_ban_fields [simp]: "re_window_start (lift_ban e) = re_window_start e" "re_request_count (lift_ban e) = re_request_count e"
  by (simp_all add: lift_ban_def split: option.split)

lemma rpc_check_view:
  assumes "rpc_quiet ip E"
  shows "rpc_view ip (snd (check_rate_limit default_rpc_limit now ip E)) = (let (w, n) = counted now (rpc_view ip E) in Some (w, n + 1))
      \<and> (fst (check_rate_limit default_rpc_limit now ip E) = Ok () \<longrightarrow> snd (counted now (rpc_view ip E)) < 100)
    \<or> fst (check_rate_limit default_rpc_limit now ip E) \<noteq> Ok ()
      \<and> rpc_view ip (snd (check_rate_limit default_rpc_limit now ip E)) = rpc_view ip E"
proof -
  define e where "e = (case hm_get E ip of Some e \<Rightarrow> e | None \<Rightarrow> rate_limit_entry_new now)"
  have small: "unat (re_request_count e) < 2 ^ 32 - 1"
    using assms by (auto simp: e_def rpc_quiet_def rate_limit_entry_new_def split: option.split)
  have c: "counted now (rpc_view ip E) = counted now (Some (re_window_start e, unat (re_request_count e)))"
    by (simp add: e_def rpc_view_def rate_limit_entry_new_def counted_new split: option.split)
  show ?thesis
  proof (cases "\<exists>t. re_banned_until e = Some t \<and> now < t")
    case True
    then have "hm_get E ip = Some e" by (auto simp: e_def rate_limit_entry_new_def split: option.splits)
    with True show ?thesis by (auto simp: check_rate_limit_def Let_def rpc_view_def update_conv')
  next
    case False
    then have "check_rate_limit default_rpc_limit now ip E =
        (let (r, e') = count_request default_rpc_limit now (lift_ban e) in (r, hm_insert ip e' E))"
      by (auto simp: check_rate_limit_def Let_def e_def [symmetric] lift_ban_def split: option.split)
    moreover have "rpc_view ip (hm_insert ip e' E) = Some (re_window_start e', unat (re_request_count e'))" for e'
      by (simp add: rpc_view_def update_conv')
    ultimately show ?thesis
      using count_request_view [of "lift_ban e" now] small by (auto simp: c Let_def split: prod.splits)
  qed
qed

lemma rpc_step_view:
  assumes "rpc_step ip now E acc E'"
  shows "acc \<and> snd (counted now (rpc_view ip E)) < 100 \<and> rpc_view ip E' = (let (w, n) = counted now (rpc_view ip E) in Some (w, n + 1))
    \<or> \<not> acc \<and> (rpc_view ip E' = rpc_view ip E \<or> rpc_view ip E' = (let (w, n) = counted now (rpc_view ip E) in Some (w, n + 1))
      \<or> rpc_view ip E' = None \<and> (\<forall>w n. rpc_view ip E = Some (w, n) \<longrightarrow> w + 20000 \<le> now))"
proof -
  obtain opn where q: "rpc_quiet ip E" and inv: "hm_inv E" and acc: "acc = admits_request now ip opn E" and E': "E' = rpc_exec now opn E"
    using assms by (auto simp: rpc_step_def)
  show ?thesis
  proof (cases opn)
    case (Rpc_check j)
    show ?thesis
    proof (cases "j = ip")
      case True
      with rpc_check_view [OF q, of now] Rpc_check show ?thesis by (auto simp: acc E' Let_def split: prod.splits)
    next
      case False
      with Rpc_check show ?thesis
        by (auto simp: acc E' rpc_view_def check_rate_limit_def Let_def update_conv' split: option.split prod.split)
    qed
  next
    case Rpc_cleanup
    with inv show ?thesis
      by (auto simp: acc E' rpc_view_def rpc_cleanup_def hm_get_retain default_rpc_limit_def split: option.split)
  qed
qed

interpretation rpc: window_limiter "rpc_view ip" "rpc_step ip" 10000 100
proof
  fix now E acc E' w' n'
  assume s: "rpc_step ip now E acc E'"
  show "rpc_view ip E' = None \<Longrightarrow> \<not> acc \<and> (case rpc_view ip E of None \<Rightarrow> True | Some (w, _) \<Rightarrow> w + 2 * 10000 \<le> now)"
    using rpc_step_view [OF s] by (auto simp: Let_def split: option.split prod.splits)
  show "rpc_view ip E' = Some (w', n') \<Longrightarrow>
      (\<exists>n. rpc_view ip E = Some (w', n) \<and> n + of_bool acc \<le> n' \<and> (acc \<longrightarrow> now < w' + 10000))
      \<or> w' = now \<and> of_bool acc \<le> n' \<and> (case rpc_view ip E of None \<Rightarrow> True | Some (w, _) \<Rightarrow> w + 10000 \<le> now)"
    using rpc_step_view [OF s] by (auto simp: counted_def Let_def split: option.splits if_splits prod.splits)
next
  fix now E E' w' n'
  assume s: "rpc_step ip now E True E'" and "rpc_view ip E' = Some (w', n')"
  then show "n' \<le> 100" using rpc_step_view [OF s] by (auto simp: Let_def split: prod.splits)
qed simp

inductive rpc_run :: "bytes \<Rightarrow> instant \<Rightarrow> instant list \<Rightarrow> rpc_entries \<Rightarrow> bool" for ip where
  rpc_start: "rpc_run ip t [] []"
| rpc_call: "\<lbrakk>rpc_run ip t A E; t \<le> now; rpc_quiet ip E\<rbrakk> \<Longrightarrow>
    rpc_run ip now (if admits_request now ip opn E then now # A else A) (rpc_exec now opn E)"

lemma rpc_inv_exec: "hm_inv E \<Longrightarrow> hm_inv (rpc_exec now opn E)"
  by (cases opn) (auto simp: check_rate_limit_def Let_def hm.inv_put rpc_cleanup_def split: option.split prod.split)

lemma rpc_run_ok: "rpc_run ip t A E \<Longrightarrow> rpc.window_ok ip t A E \<and> hm_inv E"
proof (induction rule: rpc_run.induct)
  case (rpc_start t)
  have "rpc_view ip [] = None" by (simp add: rpc_view_def)
  then show ?case by (simp add: rpc.window_ok_start)
next
  case (rpc_call t A E now opn)
  then have "rpc_step ip now E (admits_request now ip opn E) (rpc_exec now opn E)" by (auto simp: rpc_step_def)
  with rpc_call.hyps(2) rpc_call.IH rpc.window_ok_step [of ip t A E now] show ?case by (simp only: rpc_inv_exec)
qed

lemma rpc_requests_bounded: "rpc_run ip t A E \<Longrightarrow> passed_in a (a + 10000) A \<le> 200"
  using rpc_run_ok [of ip t A E] rpc.sliding_bound [of ip t A E a] by simp

text \<open>
  A ban that \<open>cleanup\<close> removes leaves the violations of the peer in place, unlike a ban that \<open>is_banned\<close>
  finds expired: the first violation afterwards bans the peer again.
\<close>

lemma cleanup_keeps_violations:
  assumes "hm_inv (nl_peer_stats L)" and "hm_get (nl_peer_stats L) p = Some st" and "ps_violations st = 5" and "now - ps_window_start st < 3600000"
  shows "hm_get (nl_banned_peers (limiter_record_violation now p (net_limiter_cleanup now L))) p = Some now"
  using assms by (simp add: net_limiter_cleanup_def limiter_record_violation_def stats_or_new_def hm_get_retain Let_def should_ban_def
      stats_record_violation_def put_stats_def ban_network_peer_def update_conv')

section \<open>Peers\<close>

definition MAX_PEERS :: nat where [const_defs]: "MAX_PEERS = 50"
definition MIN_PEERS :: nat where [const_defs]: "MIN_PEERS = 3"
definition PEER_TIMEOUT :: nat where [const_defs]: "PEER_TIMEOUT = 30000"
definition SCORE_DECAY_INTERVAL :: nat where [const_defs]: "SCORE_DECAY_INTERVAL = 60000"
definition INITIAL_SCORE :: int where [const_defs]: "INITIAL_SCORE = 100"
definition MIN_SCORE :: int where [const_defs]: "MIN_SCORE = - 100"
definition GOOD_BLOCK_SCORE :: int where [const_defs]: "GOOD_BLOCK_SCORE = 5"
definition BAD_BLOCK_SCORE :: int where [const_defs]: "BAD_BLOCK_SCORE = - 50"
definition GOOD_TX_SCORE :: int where [const_defs]: "GOOD_TX_SCORE = 1"
definition BAD_TX_SCORE :: int where [const_defs]: "BAD_TX_SCORE = - 10"
definition TIMEOUT_SCORE :: int where [const_defs]: "TIMEOUT_SCORE = - 20"

definition i32_clamp :: "int \<Rightarrow> int" where
  "i32_clamp x = max (- (2 ^ 31)) (min x (2 ^ 31 - 1))"

datatype peer_state = Connecting | Connected | Disconnected | Banned

record peer_info =
  pi_id :: peer_id
  pi_state :: peer_state
  pi_score :: int
  pi_best_height :: u64
  pi_first_seen :: instant
  pi_last_seen :: instant
  pi_blocks_received :: u64
  pi_transactions_received :: u64
  pi_failed_requests :: u32
  pi_invalid_messages :: u32
  pi_is_bootstrap :: bool
  pi_addresses :: "bytes list"
  pi_latency_ms :: "u32 option"

definition peer_info_new :: "instant \<Rightarrow> peer_id \<Rightarrow> peer_info" where
  "peer_info_new now p =
     \<lparr>pi_id = p, pi_state = Connecting, pi_score = INITIAL_SCORE, pi_best_height = 0, pi_first_seen = now, pi_last_seen = now,
      pi_blocks_received = 0, pi_transactions_received = 0, pi_failed_requests = 0, pi_invalid_messages = 0, pi_is_bootstrap = False,
      pi_addresses = [], pi_latency_ms = None\<rparr>"

definition peer_info_bootstrap :: "instant \<Rightarrow> peer_id \<Rightarrow> bytes \<Rightarrow> peer_info" where
  "peer_info_bootstrap now p addr = (peer_info_new now p)\<lparr>pi_is_bootstrap := True, pi_addresses := [addr]\<rparr>"

definition peer_touch :: "instant \<Rightarrow> peer_info \<Rightarrow> peer_info" where
  "peer_touch now i = i\<lparr>pi_last_seen := now\<rparr>"

definition peer_is_active :: "peer_info \<Rightarrow> bool" where
  "peer_is_active i = (pi_state i = Connected)"

definition should_disconnect :: "peer_info \<Rightarrow> bool" where
  "should_disconnect i = (pi_score i < MIN_SCORE \<or> pi_state i = Banned)"

definition peer_is_stale :: "instant \<Rightarrow> peer_info \<Rightarrow> bool" where
  "peer_is_stale now i = (PEER_TIMEOUT < now - pi_last_seen i)"

definition good_block :: "instant \<Rightarrow> peer_info \<Rightarrow> peer_info" where
  "good_block now i = peer_touch now
     (i\<lparr>pi_score := i32_clamp (pi_score i + GOOD_BLOCK_SCORE), pi_blocks_received := pi_blocks_received i + 1\<rparr>)"

definition bad_block :: "instant \<Rightarrow> peer_info \<Rightarrow> peer_info" where
  "bad_block now i = peer_touch now
     (i\<lparr>pi_score := i32_clamp (pi_score i - \<bar>BAD_BLOCK_SCORE\<bar>), pi_invalid_messages := pi_invalid_messages i + 1\<rparr>)"

definition good_transaction :: "instant \<Rightarrow> peer_info \<Rightarrow> peer_info" where
  "good_transaction now i = peer_touch now
     (i\<lparr>pi_score := i32_clamp (pi_score i + GOOD_TX_SCORE), pi_transactions_received := pi_transactions_received i + 1\<rparr>)"

definition bad_transaction :: "instant \<Rightarrow> peer_info \<Rightarrow> peer_info" where
  "bad_transaction now i = peer_touch now
     (i\<lparr>pi_score := i32_clamp (pi_score i - \<bar>BAD_TX_SCORE\<bar>), pi_invalid_messages := pi_invalid_messages i + 1\<rparr>)"

definition peer_timeout :: "peer_info \<Rightarrow> peer_info" where
  "peer_timeout i = i\<lparr>pi_score := i32_clamp (pi_score i - \<bar>TIMEOUT_SCORE\<bar>), pi_failed_requests := pi_failed_requests i + 1\<rparr>"

definition update_height :: "instant \<Rightarrow> u64 \<Rightarrow> peer_info \<Rightarrow> peer_info" where
  "update_height now h i = (if pi_best_height i < h then peer_touch now (i\<lparr>pi_best_height := h\<rparr>) else i)"

record peer_manager =
  pm_peers :: "(peer_id, peer_info) hmap"
  pm_bootstrap_nodes :: "(peer_id \<times> bytes) list"
  pm_max_peers :: nat
  pm_last_decay :: instant

definition peer_manager_new :: "instant \<Rightarrow> peer_manager" where
  "peer_manager_new now = \<lparr>pm_peers = [], pm_bootstrap_nodes = [], pm_max_peers = MAX_PEERS, pm_last_decay = now\<rparr>"

definition put_peer :: "peer_id \<Rightarrow> peer_info \<Rightarrow> peer_manager \<Rightarrow> peer_manager" where
  "put_peer p i M = M\<lparr>pm_peers := hm_insert p i (pm_peers M)\<rparr>"

definition change_peer :: "peer_id \<Rightarrow> (peer_info \<Rightarrow> peer_info) \<Rightarrow> peer_manager \<Rightarrow> peer_manager" where
  "change_peer p g M = (case hm_get (pm_peers M) p of Some i \<Rightarrow> put_peer p (g i) M | None \<Rightarrow> M)"

definition peer_or_new :: "instant \<Rightarrow> peer_id \<Rightarrow> peer_manager \<Rightarrow> peer_info" where
  "peer_or_new now p M = (case hm_get (pm_peers M) p of Some i \<Rightarrow> i | None \<Rightarrow> peer_info_new now p)"

fun add_bootstrap_nodes :: "instant \<Rightarrow> (peer_id \<times> bytes) list \<Rightarrow> peer_manager \<Rightarrow> peer_manager" where
  "add_bootstrap_nodes now [] M = M"
| "add_bootstrap_nodes now ((p, addr) # nodes) M =
     (let M1 = (if hm_contains (pm_peers M) p then M else put_peer p (peer_info_bootstrap now p addr) M)
      in add_bootstrap_nodes now nodes (M1\<lparr>pm_bootstrap_nodes := pm_bootstrap_nodes M1 @ [(p, addr)]\<rparr>))"

definition peer_connected :: "instant \<Rightarrow> peer_id \<Rightarrow> peer_manager \<Rightarrow> peer_manager" where
  "peer_connected now p M = put_peer p (peer_touch now ((peer_or_new now p M)\<lparr>pi_state := Connected\<rparr>)) M"

definition peer_disconnected :: "peer_id \<Rightarrow> peer_manager \<Rightarrow> peer_manager" where
  "peer_disconnected p = change_peer p (\<lambda>i. i\<lparr>pi_state := Disconnected\<rparr>)"

definition add_peer_address :: "instant \<Rightarrow> peer_id \<Rightarrow> bytes \<Rightarrow> peer_manager \<Rightarrow> peer_manager" where
  "add_peer_address now p addr M =
     (let i = peer_or_new now p M
      in put_peer p (if addr \<in> set (pi_addresses i) then i else i\<lparr>pi_addresses := pi_addresses i @ [addr]\<rparr>) M)"

definition peers_of :: "(peer_id list \<Rightarrow> peer_id list) \<Rightarrow> peer_manager \<Rightarrow> peer_info list" where
  "peers_of visit M = List.map_filter (hm_get (pm_peers M)) (visit (hm_keys (pm_peers M)))"

definition connected_peers :: "(peer_id list \<Rightarrow> peer_id list) \<Rightarrow> peer_manager \<Rightarrow> peer_info list" where
  "connected_peers visit M = filter peer_is_active (peers_of visit M)"

definition connected_count :: "peer_manager \<Rightarrow> nat" where
  "connected_count M = length (filter (\<lambda>(_, i). peer_is_active i) (pm_peers M))"

definition is_connected :: "peer_id \<Rightarrow> peer_manager \<Rightarrow> bool" where
  "is_connected p M = (case hm_get (pm_peers M) p of Some i \<Rightarrow> peer_is_active i | None \<Rightarrow> False)"

definition needs_more_peers :: "peer_manager \<Rightarrow> bool" where
  "needs_more_peers M = (connected_count M < MIN_PEERS)"

definition can_accept_peer :: "peer_manager \<Rightarrow> bool" where
  "can_accept_peer M = (connected_count M < pm_max_peers M)"

text \<open>\<open>max_by_key\<close> keeps the last of several maximal elements.\<close>

definition better_peer :: "peer_info \<Rightarrow> peer_info \<Rightarrow> peer_info" where
  "better_peer i j = (if pi_best_height j < pi_best_height i \<or> pi_best_height j = pi_best_height i \<and> pi_score j < pi_score i then i else j)"

definition best_sync_peer :: "(peer_id list \<Rightarrow> peer_id list) \<Rightarrow> peer_manager \<Rightarrow> peer_info option" where
  "best_sync_peer visit M =
     (case filter (\<lambda>i. peer_is_active i \<and> 0 < pi_best_height i) (peers_of visit M) of
        [] \<Rightarrow> None
      | i # is \<Rightarrow> Some (foldl better_peer i is))"

definition peers_to_disconnect :: "(peer_id list \<Rightarrow> peer_id list) \<Rightarrow> instant \<Rightarrow> peer_manager \<Rightarrow> peer_id list" where
  "peers_to_disconnect visit now M =
     map pi_id (filter (\<lambda>i. should_disconnect i \<or> peer_is_active i \<and> peer_is_stale now i) (peers_of visit M))"

definition ban_peer :: "peer_id \<Rightarrow> peer_manager \<Rightarrow> peer_manager" where
  "ban_peer p = change_peer p (\<lambda>i. i\<lparr>pi_state := Banned, pi_score := MIN_SCORE - 1\<rparr>)"

definition update_peer_height :: "instant \<Rightarrow> peer_id \<Rightarrow> u64 \<Rightarrow> peer_manager \<Rightarrow> peer_manager" where
  "update_peer_height now p h = change_peer p (update_height now h)"

definition record_good_block :: "instant \<Rightarrow> peer_id \<Rightarrow> peer_manager \<Rightarrow> peer_manager" where
  "record_good_block now p = change_peer p (good_block now)"

definition record_bad_block :: "instant \<Rightarrow> peer_id \<Rightarrow> peer_manager \<Rightarrow> peer_manager" where
  "record_bad_block now p = change_peer p (bad_block now)"

definition record_good_transaction :: "instant \<Rightarrow> peer_id \<Rightarrow> peer_manager \<Rightarrow> peer_manager" where
  "record_good_transaction now p = change_peer p (good_transaction now)"

definition record_bad_transaction :: "instant \<Rightarrow> peer_id \<Rightarrow> peer_manager \<Rightarrow> peer_manager" where
  "record_bad_transaction now p = change_peer p (bad_transaction now)"

definition decay_score :: "peer_info \<Rightarrow> peer_info" where
  "decay_score i =
     (if INITIAL_SCORE < pi_score i then i\<lparr>pi_score := pi_score i - 1\<rparr>
      else if pi_score i < INITIAL_SCORE then i\<lparr>pi_score := pi_score i + 1\<rparr> else i)"

definition decay_scores :: "peer_manager \<Rightarrow> peer_manager" where
  "decay_scores M = M\<lparr>pm_peers := map (\<lambda>(p, i). (p, decay_score i)) (pm_peers M)\<rparr>"

definition cleanup_stale_peers :: "instant \<Rightarrow> peer_manager \<Rightarrow> peer_manager" where
  "cleanup_stale_peers now M =
     M\<lparr>pm_peers := hm_retain (\<lambda>_ i. pi_is_bootstrap i \<or> pi_state i \<noteq> Disconnected \<or> now - pi_last_seen i \<le> 3600000) (pm_peers M)\<rparr>"

definition peers_tick :: "instant \<Rightarrow> peer_manager \<Rightarrow> peer_manager" where
  "peers_tick now M =
     cleanup_stale_peers now
       (if SCORE_DECAY_INTERVAL < now - pm_last_decay M then (decay_scores M)\<lparr>pm_last_decay := now\<rparr> else M)"

definition best_network_height :: "peer_manager \<Rightarrow> u64" where
  "best_network_height M = fold (\<lambda>(_, i) h. if peer_is_active i then max (pi_best_height i) h else h) (pm_peers M) 0"

text \<open>Scores move towards the baseline, one point for each decay, and stay there.\<close>

lemma decay_distance: "\<bar>pi_score ((decay_score ^^ n) i) - INITIAL_SCORE\<bar> = max 0 (\<bar>pi_score i - INITIAL_SCORE\<bar> - int n)"
proof (induction n)
  case (Suc n)
  have "\<bar>pi_score (decay_score j) - INITIAL_SCORE\<bar> = max 0 (\<bar>pi_score j - INITIAL_SCORE\<bar> - 1)" for j
    by (simp add: decay_score_def)
  with Suc show ?case by simp
qed simp

text \<open>
  \<open>Banned (will not reconnect)\<close>, says the type; but a banned peer that connects again is connected, and two
  score decays later nothing disconnects it any more.
\<close>

lemma banned_peer_reconnects:
  assumes "hm_get (pm_peers M) p = Some i"
  shows "\<exists>j. hm_get (pm_peers (peer_connected now p (ban_peer p M))) p = Some j \<and> peer_is_active j
    \<and> \<not> should_disconnect (decay_score (decay_score j))"
  using assms
  by (simp add: peer_connected_def ban_peer_def change_peer_def put_peer_def peer_or_new_def peer_touch_def update_conv' peer_is_active_def
      should_disconnect_def decay_score_def const_defs)

section \<open>Downloading blocks\<close>

datatype sync_state = Synced | Downloading | FarBehind | SyncIdle

record sync_manager =
  sy_state :: sync_state
  sy_local_height :: block_number
  sy_best_known_height :: block_number
  sy_pending_blocks :: "(block_number, block) hmap"
  sy_download_queue :: "block_number list"
  sy_batch_size :: u32
  sy_sync_threshold :: u64


definition sync_gap :: "sync_manager \<Rightarrow> u64" where
  "sync_gap S = sat_sub (sy_best_known_height S) (sy_local_height S)"

definition update_state :: "sync_manager \<Rightarrow> sync_manager" where
  "update_state S =
     (let gap = sync_gap S; threshold = (if sy_local_height S = 0 then 0 else sy_sync_threshold S)
      in S\<lparr>sy_state := (if gap = 0 then Synced else if 1000 < gap then FarBehind else if threshold < gap then Downloading else Synced)\<rparr>)"

definition update_local_height :: "block_number \<Rightarrow> sync_manager \<Rightarrow> sync_manager" where
  "update_local_height h S = update_state (S\<lparr>sy_local_height := h\<rparr>)"

definition peer_height_update :: "block_number \<Rightarrow> sync_manager \<Rightarrow> sync_manager" where
  "peer_height_update h S = update_state (if sy_best_known_height S < h then S\<lparr>sy_best_known_height := h\<rparr> else S)"

definition should_sync :: "sync_manager \<Rightarrow> bool" where
  "should_sync S = (sy_state S \<in> {Downloading, FarBehind})"

definition block_range :: "block_number \<Rightarrow> block_number \<Rightarrow> block_number list" where
  "block_range a b = map of_nat [unat a ..< unat b]"

definition fill_queue :: "sync_manager \<Rightarrow> block_number list" where
  "fill_queue S =
     (if sy_download_queue S = []
      then let first = sy_local_height S + 1; last = min (first + ucast (sy_batch_size S)) (sy_best_known_height S + 1)
           in filter (\<lambda>n. \<not> hm_contains (sy_pending_blocks S) n) (block_range first last)
      else sy_download_queue S)"

definition prepare_download :: "sync_manager \<Rightarrow> block_number list option \<times> sync_manager" where
  "prepare_download S =
     (if \<not> should_sync S then (None, S)
      else let q = fill_queue S
           in if q = [] then (None, S\<lparr>sy_download_queue := q\<rparr>)
              else (Some (take (unat (sy_batch_size S)) q), S\<lparr>sy_download_queue := drop (unat (sy_batch_size S)) q\<rparr>))"

definition add_downloaded_block :: "crypto \<Rightarrow> block \<Rightarrow> sync_manager \<Rightarrow> bool \<times> sync_manager" where
  "add_downloaded_block K b S =
     (let n = bh_number (bk_header b)
      in case validate_standalone K b of
           Inl _ \<Rightarrow> (False, S)
         | Inr _ \<Rightarrow>
             if n \<le> sy_local_height S then (False, S)
             else if sy_best_known_height S + 100 < n then (False, S)
             else (True, S\<lparr>sy_pending_blocks := hm_insert n b (sy_pending_blocks S)\<rparr>))"

definition next_block_to_import :: "sync_manager \<Rightarrow> block option \<times> sync_manager" where
  "next_block_to_import S =
     (let n = sy_local_height S + 1
      in (hm_get (sy_pending_blocks S) n, S\<lparr>sy_pending_blocks := hm_remove n (sy_pending_blocks S)\<rparr>))"

definition create_sync_request :: "sync_manager \<Rightarrow> (block_number \<times> u32) option \<times> sync_manager" where
  "create_sync_request S =
     (case prepare_download S of
        (Some (n # _), S') \<Rightarrow> (Some (n, sy_batch_size S'), S')
      | (_, S') \<Rightarrow> (None, S'))"

fun handle_sync_response :: "crypto \<Rightarrow> block list \<Rightarrow> sync_manager \<Rightarrow> nat \<times> sync_manager" where
  "handle_sync_response K [] S = (0, S)"
| "handle_sync_response K (b # bs) S =
     (let (ok, S1) = add_downloaded_block K b S; (n, S2) = handle_sync_response K bs S1 in (n + of_bool ok, S2))"

text \<open>The calls of the node on the synchronisation manager.\<close>

datatype sync_op = Sy_local block_number | Sy_peer block_number | Sy_request | Sy_block block | Sy_response "block list" | Sy_next

fun sync_exec :: "crypto \<Rightarrow> sync_op \<Rightarrow> sync_manager \<Rightarrow> sync_manager" where
  "sync_exec K (Sy_local h) S = update_local_height h S"
| "sync_exec K (Sy_peer h) S = peer_height_update h S"
| "sync_exec K Sy_request S = snd (create_sync_request S)"
| "sync_exec K (Sy_block b) S = snd (add_downloaded_block K b S)"
| "sync_exec K (Sy_response bs) S = snd (handle_sync_response K bs S)"
| "sync_exec K Sy_next S = snd (next_block_to_import S)"


definition sync_ok :: "crypto \<Rightarrow> sync_manager \<Rightarrow> bool" where
  "sync_ok K S = ((\<forall>n b. hm_get (sy_pending_blocks S) n = Some b \<longrightarrow> bh_number (bk_header b) = n \<and> validate_standalone K b = Ok ())
     \<and> sy_download_queue S = [] \<and> sy_batch_size S = 50 \<and> sy_sync_threshold S = 10
     \<and> should_sync S = ((if sy_local_height S = 0 then 0 else 10) < sync_gap S))"

lemma update_state_should:
  assumes "sy_sync_threshold S = 10"
  shows "should_sync (update_state S) = ((if sy_local_height S = 0 then 0 else 10) < sync_gap S)"
  using assms by (auto simp: should_sync_def update_state_def Let_def word_less_nat_alt unat_eq_0)

lemma update_state_fields [simp]:
  "sy_local_height (update_state S) = sy_local_height S" "sy_best_known_height (update_state S) = sy_best_known_height S"
  "sy_pending_blocks (update_state S) = sy_pending_blocks S" "sy_download_queue (update_state S) = sy_download_queue S"
  "sy_batch_size (update_state S) = sy_batch_size S" "sy_sync_threshold (update_state S) = sy_sync_threshold S"
  "sync_gap (update_state S) = sync_gap S"
  by (simp_all add: update_state_def Let_def sync_gap_def)

lemma update_state_ok:
  assumes "\<forall>n b. hm_get (sy_pending_blocks S) n = Some b \<longrightarrow> bh_number (bk_header b) = n \<and> validate_standalone K b = Ok ()"
    and "sy_download_queue S = []" "sy_batch_size S = 50" "sy_sync_threshold S = 10"
  shows "sync_ok K (update_state S)"
  using assms update_state_should [of S] by (simp add: sync_ok_def)

text \<open>Changes that leave the heights and the state alone.\<close>

lemma same_heights [simp]:
  "should_sync (S\<lparr>sy_pending_blocks := p\<rparr>) = should_sync S" "sync_gap (S\<lparr>sy_pending_blocks := p\<rparr>) = sync_gap S"
  "should_sync (S\<lparr>sy_download_queue := q\<rparr>) = should_sync S" "sync_gap (S\<lparr>sy_download_queue := q\<rparr>) = sync_gap S"
  by (simp_all add: should_sync_def sync_gap_def)

lemma unat_add_le: "unat (a + b :: 'a::len word) \<le> unat a + unat b"
  by (simp add: unat_word_ariths mod_less_eq_dividend)

lemma length_fill_queue:
  assumes "sync_ok K S"
  shows "length (fill_queue S) \<le> 50"
proof -
  let ?first = "sy_local_height S + 1" and ?n = "min (sy_local_height S + 1 + 50) (sy_best_known_height S + 1)"
  have "unat ?n \<le> unat ?first + 50"
    using unat_add_le [of ?first 50] by (simp add: min_def word_le_nat_alt del: unat_add_fits)
  then have "length (block_range ?first ?n) \<le> 50" by (simp add: block_range_def)
  moreover have "length (fill_queue S) \<le> length (block_range ?first ?n)"
    using assms by (simp add: fill_queue_def sync_ok_def Let_def)
  ultimately show ?thesis by linarith
qed

lemma prepare_fields:
  assumes "sync_ok K S"
  shows "sy_download_queue (snd (prepare_download S)) = []" and "sy_pending_blocks (snd (prepare_download S)) = sy_pending_blocks S"
    and "sy_batch_size (snd (prepare_download S)) = 50"
    and "fst (prepare_download S) = (if should_sync S \<and> fill_queue S \<noteq> [] then Some (fill_queue S) else None)"
    and "sy_local_height (snd (prepare_download S)) = sy_local_height S" "sync_gap (snd (prepare_download S)) = sync_gap S"
    and "should_sync (snd (prepare_download S)) = should_sync S" "sy_sync_threshold (snd (prepare_download S)) = sy_sync_threshold S"
  using assms length_fill_queue [OF assms] by (auto simp: prepare_download_def sync_ok_def Let_def)

lemma sync_ok_request: "sync_ok K S \<Longrightarrow> sync_ok K (snd (create_sync_request S))"
  using prepare_fields [of K S]
  by (auto simp: create_sync_request_def sync_ok_def split: prod.split option.split list.split)

lemma sync_ok_block: "sync_ok K S \<Longrightarrow> sync_ok K (snd (add_downloaded_block K b S))"
  by (auto simp: add_downloaded_block_def sync_ok_def Let_def update_conv' split: sum.split)

lemma sync_ok_response: "sync_ok K S \<Longrightarrow> sync_ok K (snd (handle_sync_response K bs S))"
proof (induction bs arbitrary: S)
  case (Cons b bs)
  obtain r S1 where a: "add_downloaded_block K b S = (r, S1)" by (cases "add_downloaded_block K b S")
  with sync_ok_block [OF Cons.prems, of b] have "sync_ok K S1" by simp
  from Cons.IH [OF this] show ?case by (cases "handle_sync_response K bs S1") (simp add: a Let_def)
qed simp

lemma sync_ok_exec: "sync_ok K S \<Longrightarrow> sync_ok K (sync_exec K opn S)"
proof (cases opn)
  case (Sy_response bs)
  assume "sync_ok K S"
  then show ?thesis by (simp add: Sy_response sync_ok_response)
next
  case (Sy_block b)
  assume "sync_ok K S"
  then show ?thesis by (simp add: Sy_block sync_ok_block)
next
  case Sy_request
  assume "sync_ok K S"
  then show ?thesis by (simp add: Sy_request sync_ok_request)
next
  case (Sy_local h)
  assume "sync_ok K S"
  then show ?thesis unfolding Sy_local sync_exec.simps update_local_height_def by (intro update_state_ok) (simp_all add: sync_ok_def)
next
  case (Sy_peer h)
  assume "sync_ok K S"
  then show ?thesis unfolding Sy_peer sync_exec.simps peer_height_update_def by (intro update_state_ok) (simp_all add: sync_ok_def)
next
  case Sy_next
  assume "sync_ok K S"
  then show ?thesis by (simp add: Sy_next sync_ok_def next_block_to_import_def Let_def delete_conv')
qed













text \<open>
  A peer that claims the height \<open>2\<^sup>64 - 1\<close> stops the synchronisation for good: the known height never goes down, one more
  than it is 0 in a release build, and no request is made any more.
\<close>

lemma claimed_height_stalls_sync:
  assumes "sync_ok K S" and "unat (sy_local_height S) < 2 ^ 63"
  shows "should_sync (peer_height_update (- 1) S)" and "fst (prepare_download (peer_height_update (- 1) S)) = None"
proof -
  let ?S = "peer_height_update (- 1) S"
  have best: "sy_best_known_height ?S = - 1"
    using word_order.not_eq_extremum [of "sy_best_known_height S"] by (auto simp: peer_height_update_def update_state_def Let_def)
  have ok: "sync_ok K ?S" using sync_ok_exec [OF assms(1), of "Sy_peer (- 1)"] by simp
  have "fill_queue ?S = []" using ok by (simp add: fill_queue_def sync_ok_def best Let_def block_range_def min_def)
  then show "fst (prepare_download ?S) = None" using prepare_fields(4) [OF ok] by simp
  have "1000 < unat (sync_gap ?S)"
    using assms(2) best by (simp add: sync_gap_def unat_sat_sub unat_minus_one_max peer_height_update_def update_state_def Let_def)
  then show "should_sync ?S"
    by (auto simp: should_sync_def peer_height_update_def update_state_def Let_def word_less_nat_alt sync_gap_def)
qed

end
