(* ===== verification/Kratos_Personhood.thy ===== *)
theory Kratos_Personhood
  imports Kratos_Identity Kratos_F64
begin

text \<open>
  Proof of personhood (\<^verbatim>\<open>types/personhood.rs\<close>, \<^verbatim>\<open>contracts/personhood.rs\<close>): challenges to an
  identity, the graph of attestations with its clusters, uniqueness commitments and the personhood score.
  The sets of a graph node are lists without repetition; the order in which a set or map is walked is the
  argument \<open>visit\<close>.  \<open>f32\<close> is treated like \<open>f64\<close>, with 24 significant bits.  Where an event carries the
  debug text of a challenge type, the model carries the type.
\<close>

section \<open>Challenges\<close>

definition CHALLENGE_PERIOD :: block_number where [const_defs]: "CHALLENGE_PERIOD = 100800"
definition CHALLENGE_GRACE_PERIOD :: block_number where [const_defs]: "CHALLENGE_GRACE_PERIOD = 43200"
definition MIN_CHALLENGE_INTERVAL :: block_number where [const_defs]: "MIN_CHALLENGE_INTERVAL = 432000"
definition CHALLENGE_DEPOSIT :: balance where [const_defs]: "CHALLENGE_DEPOSIT = 50"
definition CHALLENGE_FAILURE_PENALTY :: balance where [const_defs]: "CHALLENGE_FAILURE_PENALTY = 100"
definition MAX_CHALLENGES_PER_IDENTITY :: nat where [const_defs]: "MAX_CHALLENGES_PER_IDENTITY = 3"
definition MIN_CONNECTIVITY_SCORE :: u32 where [const_defs]: "MIN_CONNECTIVITY_SCORE = 100"

datatype challenge_type =
    Liveness hash
  | SocialVerification nat
  | UniquenessChallenge identity_id
  | StakeChallenge balance

fun challenge_difficulty :: "challenge_type \<Rightarrow> u8" where
  "challenge_difficulty (Liveness _) = 1"
| "challenge_difficulty (SocialVerification n) = min (of_nat n) 10"
| "challenge_difficulty (UniquenessChallenge _) = 5"
| "challenge_difficulty (StakeChallenge _) = 3"

datatype challenge_status = CH_Pending | CH_ResponseSubmitted | CH_Passed | CH_Failed | CH_Expired | CH_Cancelled

datatype challenge_response_data =
    LivenessProof hash
  | SocialProof "hash list"
  | UniquenessProof hash "account_id list"
  | StakeProof balance block_number

record challenge_response =
  cr_submitted_at :: block_number
  cr_response_data :: challenge_response_data

record personhood_challenge =
  ch_challenge_id :: hash
  ch_target_identity :: identity_id
  ch_challenger :: account_id
  ch_challenge_type :: challenge_type
  ch_issued_at :: block_number
  ch_expires_at :: block_number
  ch_deposit :: balance
  ch_status :: challenge_status
  ch_response :: "challenge_response option"

definition challenge_compute_id :: "crypto \<Rightarrow> identity_id \<Rightarrow> account_id \<Rightarrow> block_number \<Rightarrow> hash" where
  "challenge_compute_id K target challenger b = blake3 K (le_bytes 32 target @ le_bytes 32 challenger @ le_bytes 8 b)"

definition challenge_new :: "crypto \<Rightarrow> identity_id \<Rightarrow> account_id \<Rightarrow> challenge_type \<Rightarrow> balance \<Rightarrow> block_number \<Rightarrow> personhood_challenge" where
  "challenge_new K target challenger ty deposit b =
     \<lparr>ch_challenge_id = challenge_compute_id K target challenger b, ch_target_identity = target, ch_challenger = challenger,
      ch_challenge_type = ty, ch_issued_at = b, ch_expires_at = b + CHALLENGE_PERIOD, ch_deposit = deposit, ch_status = CH_Pending,
      ch_response = None\<rparr>"

definition challenge_is_expired :: "block_number \<Rightarrow> personhood_challenge \<Rightarrow> bool" where
  "challenge_is_expired b c = (ch_expires_at c < b)"

definition in_grace_period :: "block_number \<Rightarrow> personhood_challenge \<Rightarrow> bool" where
  "in_grace_period b c = (sat_sub (ch_expires_at c) CHALLENGE_GRACE_PERIOD \<le> b \<and> b \<le> ch_expires_at c)"

section \<open>The social graph\<close>

definition list_insert :: "'a \<Rightarrow> 'a list \<Rightarrow> 'a list" where
  "list_insert x xs = (if x \<in> set xs then xs else x # xs)"

lemma set_list_insert [simp]: "set (list_insert x xs) = insert x (set xs)"
  by (auto simp: list_insert_def)

record social_graph_node =
  gn_identity_id :: identity_id
  gn_connections :: "identity_id list"
  gn_incoming :: "identity_id list"
  gn_outgoing :: "identity_id list"
  gn_connectivity_score :: u32
  gn_cluster_id :: "u32 option"
  gn_trust_depth :: u8

definition graph_node_new :: "identity_id \<Rightarrow> social_graph_node" where
  "graph_node_new i =
     \<lparr>gn_identity_id = i, gn_connections = [], gn_incoming = [], gn_outgoing = [], gn_connectivity_score = 0, gn_cluster_id = None,
      gn_trust_depth = 255\<rparr>"

definition add_connection :: "identity_id \<Rightarrow> bool \<Rightarrow> social_graph_node \<Rightarrow> social_graph_node" where
  "add_connection other is_incoming n =
     (let n' = n\<lparr>gn_connections := list_insert other (gn_connections n)\<rparr>
      in if is_incoming then n'\<lparr>gn_incoming := list_insert other (gn_incoming n')\<rparr>
         else n'\<lparr>gn_outgoing := list_insert other (gn_outgoing n')\<rparr>)"

definition balance_ratio :: "u32 \<Rightarrow> u32 \<Rightarrow> u32" where
  "balance_ratio i out = (if i = 0 \<or> out = 0 then 0 else min (min i out * 100 div max i out) 100)"

definition calculate_connectivity :: "u64 \<Rightarrow> social_graph_node \<Rightarrow> social_graph_node" where
  "calculate_connectivity total_identities n =
     (let connection_count = of_nat (length (gn_connections n)) :: u32;
          base = connection_count * 10;
          balance_bonus = balance_ratio (of_nat (length (gn_incoming n))) (of_nat (length (gn_outgoing n))) div 2;
          depth_penalty = min (ucast (gn_trust_depth n) * 5) 50;
          network_share = (if 0 < total_identities then ucast (ucast connection_count * 100 div total_identities :: u64) else 0 :: u32)
      in n\<lparr>gn_connectivity_score := base + balance_bonus + network_share - depth_penalty\<rparr>)"

definition node_is_suspicious :: "social_graph_node \<Rightarrow> bool" where
  "node_is_suspicious n =
     (gn_incoming n = [] \<and> gn_outgoing n \<noteq> [] \<or> gn_connectivity_score n < MIN_CONNECTIVITY_SCORE \<and> gn_connections n \<noteq> [])"

type_synonym f32 = rat

definition rnd32 :: "rat \<Rightarrow> f32" where
  "rnd32 x = (if x \<le> 0 then 0 else let u = pow2 (expo x - 23) in of_int (round_even (x / u)) * u)"

record sybil_cluster =
  sc_cluster_id :: u32
  sc_members :: "identity_id set"
  sc_internal_density :: f32
  sc_external_connections :: u32
  sc_risk_score :: u8
  sc_flagged :: bool

definition cluster_new :: "u32 \<Rightarrow> sybil_cluster" where
  "cluster_new i =
     \<lparr>sc_cluster_id = i, sc_members = {}, sc_internal_density = 0, sc_external_connections = 0, sc_risk_score = 0, sc_flagged = False\<rparr>"

definition calculate_risk :: "sybil_cluster \<Rightarrow> sybil_cluster" where
  "calculate_risk c =
     (let n = card (sc_members c)
      in if n < 3 then c\<lparr>sc_risk_score := 0\<rparr>
         else let density_risk = f64_to_word (rnd32 (sc_internal_density c * 50)) :: u8;
                  isolation_risk = (if sc_external_connections c < of_nat n then 30 else 0);
                  size_risk = (if 10 < n then 20 else 0);
                  risk = min (density_risk + isolation_risk + size_risk) 100
              in c\<lparr>sc_risk_score := risk, sc_flagged := (70 < risk)\<rparr>)"

section \<open>Uniqueness and scores\<close>

record uniqueness_commitment =
  uc_identity_id :: identity_id
  uc_commitment :: hash
  uc_committed_at :: block_number
  uc_verified :: bool
  uc_witnesses :: "account_id list"

definition uniqueness_new :: "crypto \<Rightarrow> identity_id \<Rightarrow> bytes \<Rightarrow> block_number \<Rightarrow> uniqueness_commitment" where
  "uniqueness_new K i commitment_data b =
     \<lparr>uc_identity_id = i, uc_commitment = blake3 K commitment_data, uc_committed_at = b, uc_verified = False, uc_witnesses = []\<rparr>"

definition add_witness :: "account_id \<Rightarrow> uniqueness_commitment \<Rightarrow> bool \<times> uniqueness_commitment" where
  "add_witness w u =
     (if w \<in> set (uc_witnesses u) then (False, u)
      else let u' = u\<lparr>uc_witnesses := uc_witnesses u @ [w]\<rparr>
           in (True, if 3 \<le> length (uc_witnesses u') then u'\<lparr>uc_verified := True\<rparr> else u'))"

record personhood_score =
  pc_total :: u32
  pc_social_score :: u32
  pc_challenge_score :: u32
  pc_uniqueness_score :: u32
  pc_longevity_score :: u32
  pc_activity_score :: u32
  pc_challenges_passed :: u32
  pc_challenges_failed :: u32
  pc_last_verified :: block_number

definition personhood_score_new :: personhood_score where
  "personhood_score_new =
     \<lparr>pc_total = 0, pc_social_score = 0, pc_challenge_score = 0, pc_uniqueness_score = 0, pc_longevity_score = 0, pc_activity_score = 0,
      pc_challenges_passed = 0, pc_challenges_failed = 0, pc_last_verified = 0\<rparr>"

definition recalculate :: "personhood_score \<Rightarrow> personhood_score" where
  "recalculate s =
     s\<lparr>pc_total := pc_social_score s + pc_challenge_score s + pc_uniqueness_score s + pc_longevity_score s + pc_activity_score s\<rparr>"

definition update_social :: "u32 \<Rightarrow> personhood_score \<Rightarrow> personhood_score" where
  "update_social connectivity s = recalculate (s\<lparr>pc_social_score := min (connectivity div 5) 200\<rparr>)"

definition record_challenge_pass :: "block_number \<Rightarrow> personhood_score \<Rightarrow> personhood_score" where
  "record_challenge_pass b s =
     recalculate (s\<lparr>pc_challenges_passed := pc_challenges_passed s + 1,
                    pc_challenge_score := min ((pc_challenges_passed s + 1) * 20) 200, pc_last_verified := b\<rparr>)"

definition record_challenge_fail :: "personhood_score \<Rightarrow> personhood_score" where
  "record_challenge_fail s =
     recalculate (s\<lparr>pc_challenges_failed := pc_challenges_failed s + 1, pc_challenge_score := sat_sub (pc_challenge_score s) 50\<rparr>)"

definition update_uniqueness :: "bool \<Rightarrow> nat \<Rightarrow> personhood_score \<Rightarrow> personhood_score" where
  "update_uniqueness verified witness_count s =
     recalculate (s\<lparr>pc_uniqueness_score := (if verified then 100 + min (of_nat witness_count * 20) 100 else 0)\<rparr>)"

definition score_update_longevity :: "block_number \<Rightarrow> personhood_score \<Rightarrow> personhood_score" where
  "score_update_longevity age s = recalculate (s\<lparr>pc_longevity_score := min (ucast (age * 200 div 5256000)) 200\<rparr>)"

definition update_activity :: "u32 \<Rightarrow> personhood_score \<Rightarrow> personhood_score" where
  "update_activity actions s = recalculate (s\<lparr>pc_activity_score := min (actions * 10) 200\<rparr>)"

definition score_meets_threshold :: "u32 \<Rightarrow> personhood_score \<Rightarrow> bool" where
  "score_meets_threshold t s = (t \<le> pc_total s)"

definition score_is_verified :: "block_number \<Rightarrow> personhood_score \<Rightarrow> bool" where
  "score_is_verified b s = (500 \<le> pc_total s \<and> sat_sub b (pc_last_verified s) < 2628000)"

section \<open>The registry\<close>

datatype personhood_event =
    ChallengeIssued hash identity_id account_id challenge_type
  | ChallengeResponseSubmitted hash identity_id
  | ChallengeResolved hash identity_id bool
  | SybilClusterDetected u32 nat u8
  | UniquenessVerified identity_id nat
  | PersonhoodScoreUpdated identity_id u32 u32

datatype personhood_error =
    ChallengesDisabled | TargetNotActive | ChallengeCooldown | TooManyChallenges | PE_InsufficientDeposit | ChallengeNotFound
  | ResponderHasNoIdentity | NotChallengeTarget | ChallengeNotPending | ChallengeExpired | InvalidResponseType | ChallengeNotReady
  | NoResponse | NotChallenger | PE_IdentityNotFound | CommitmentExists | NoCommitment

record personhood_config =
  pf_challenges_enabled :: bool
  pf_social_analysis_enabled :: bool
  pf_min_score_for_privileges :: u32
  pf_allow_anonymous_challenges :: bool
  pf_challenge_cooldown_multiplier :: u32

definition default_personhood_config :: personhood_config where
  "default_personhood_config =
     \<lparr>pf_challenges_enabled = True, pf_social_analysis_enabled = True, pf_min_score_for_privileges = 500, pf_allow_anonymous_challenges = False,
      pf_challenge_cooldown_multiplier = 1\<rparr>"

record personhood_registry =
  pg_chain_id :: chain_id
  pg_challenges :: "(hash, personhood_challenge) hmap"
  pg_challenges_by_identity :: "(identity_id, hash list) hmap"
  pg_last_challenge_time :: "(identity_id, block_number) hmap"
  pg_social_graph :: "(identity_id, social_graph_node) hmap"
  pg_uniqueness_commitments :: "(identity_id, uniqueness_commitment) hmap"
  pg_personhood_scores :: "(identity_id, personhood_score) hmap"
  pg_sybil_clusters :: "sybil_cluster list"
  pg_next_cluster_id :: u32
  pg_events :: "personhood_event list"
  pg_config :: personhood_config

type_synonym 'a personhood_action = "(personhood_registry, personhood_error, 'a) action"

definition personhood_with_config :: "chain_id \<Rightarrow> personhood_config \<Rightarrow> personhood_registry" where
  "personhood_with_config cid cfg =
     \<lparr>pg_chain_id = cid, pg_challenges = [], pg_challenges_by_identity = [], pg_last_challenge_time = [], pg_social_graph = [],
      pg_uniqueness_commitments = [], pg_personhood_scores = [], pg_sybil_clusters = [], pg_next_cluster_id = 1, pg_events = [], pg_config = cfg\<rparr>"

definition personhood_new :: "chain_id \<Rightarrow> personhood_registry" where
  "personhood_new cid = personhood_with_config cid default_personhood_config"

definition pg_emit :: "personhood_event \<Rightarrow> personhood_registry \<Rightarrow> personhood_registry" where
  "pg_emit ev P = P\<lparr>pg_events := pg_events P @ [ev]\<rparr>"

definition challenges_of :: "identity_id \<Rightarrow> personhood_registry \<Rightarrow> hash list" where
  "challenges_of i P = (case hm_get (pg_challenges_by_identity P) i of Some l \<Rightarrow> l | None \<Rightarrow> [])"

definition issue_challenge ::
  "crypto \<Rightarrow> account_id \<Rightarrow> identity_id \<Rightarrow> challenge_type \<Rightarrow> balance \<Rightarrow> block_number \<Rightarrow> identity_registry \<Rightarrow> hash personhood_action" where
  "issue_challenge K challenger target ty deposit b I P =
     (if \<not> pf_challenges_enabled (pg_config P) then (Err ChallengesDisabled, P)
      else if \<not> registry_is_active target b I then (Err TargetNotActive, P)
      else if (case hm_get (pg_last_challenge_time P) target of
                 Some l \<Rightarrow> b < l + MIN_CHALLENGE_INTERVAL * ucast (pf_challenge_cooldown_multiplier (pg_config P)) | None \<Rightarrow> False)
      then (Err ChallengeCooldown, P)
      else if MAX_CHALLENGES_PER_IDENTITY \<le> length (challenges_of target P) then (Err TooManyChallenges, P)
      else if deposit < CHALLENGE_DEPOSIT then (Err PE_InsufficientDeposit, P)
      else let c = challenge_new K target challenger ty deposit b; i = ch_challenge_id c
           in (Ok i, pg_emit (ChallengeIssued i target challenger ty)
                 (P\<lparr>pg_challenges := hm_insert i c (pg_challenges P),
                    pg_challenges_by_identity := hm_insert target (challenges_of target P @ [i]) (pg_challenges_by_identity P),
                    pg_last_challenge_time := hm_insert target b (pg_last_challenge_time P)\<rparr>)))"

fun validate_response :: "challenge_type \<Rightarrow> challenge_response_data \<Rightarrow> (personhood_error, unit) result" where
  "validate_response (Liveness _) (LivenessProof _) = Ok ()"
| "validate_response (SocialVerification _) (SocialProof _) = Ok ()"
| "validate_response (UniquenessChallenge _) (UniquenessProof _ _) = Ok ()"
| "validate_response (StakeChallenge _) (StakeProof _ _) = Ok ()"
| "validate_response _ _ = Err InvalidResponseType"

definition put_challenge :: "hash \<Rightarrow> personhood_challenge \<Rightarrow> personhood_registry \<Rightarrow> personhood_registry" where
  "put_challenge i c P = P\<lparr>pg_challenges := hm_insert i c (pg_challenges P)\<rparr>"

definition respond_to_challenge ::
  "hash \<Rightarrow> account_id \<Rightarrow> challenge_response_data \<Rightarrow> block_number \<Rightarrow> identity_registry \<Rightarrow> unit personhood_action" where
  "respond_to_challenge i responder rdata b I P =
     (case hm_get (pg_challenges P) i of
        None \<Rightarrow> (Err ChallengeNotFound, P)
      | Some c \<Rightarrow>
          (case hm_get (ir_owner_to_identity I) responder of
             None \<Rightarrow> (Err ResponderHasNoIdentity, P)
           | Some k \<Rightarrow>
               if k \<noteq> ch_target_identity c then (Err NotChallengeTarget, P)
               else if ch_status c \<noteq> CH_Pending then (Err ChallengeNotPending, P)
               else if challenge_is_expired b c then (Err ChallengeExpired, P)
               else case validate_response (ch_challenge_type c) rdata of
                   Inl e \<Rightarrow> (Err e, P)
                 | Inr _ \<Rightarrow> (Ok (), pg_emit (ChallengeResponseSubmitted i (ch_target_identity c))
                     (put_challenge i (c\<lparr>ch_response := Some \<lparr>cr_submitted_at = b, cr_response_data = rdata\<rparr>,
                                         ch_status := CH_ResponseSubmitted\<rparr>) P))))"

definition verify_response :: "personhood_registry \<Rightarrow> personhood_challenge \<Rightarrow> (personhood_error, bool) result" where
  "verify_response P c =
     (case ch_response c of
        None \<Rightarrow> Err NoResponse
      | Some r \<Rightarrow>
          (case (ch_challenge_type c, cr_response_data r) of
             (Liveness _, LivenessProof signature) \<Rightarrow> Ok (signature \<noteq> 0)
           | (SocialVerification required, SocialProof ids) \<Rightarrow> Ok (required \<le> length ids)
           | (UniquenessChallenge suspect, UniquenessProof proof_hash witnesses) \<Rightarrow>
               Ok (proof_hash \<noteq> 0 \<and> 3 \<le> length witnesses
                   \<and> (case hm_get (pg_uniqueness_commitments P) suspect of Some u \<Rightarrow> proof_hash \<noteq> uc_commitment u | None \<Rightarrow> True))
           | (StakeChallenge required, StakeProof amount _) \<Rightarrow> Ok (required \<le> amount)
           | _ \<Rightarrow> Err InvalidResponseType))"

definition change_score :: "identity_id \<Rightarrow> (personhood_score \<Rightarrow> personhood_score) \<Rightarrow> personhood_registry \<Rightarrow> personhood_registry" where
  "change_score i g P =
     (case hm_get (pg_personhood_scores P) i of
        None \<Rightarrow> P
      | Some s \<Rightarrow> P\<lparr>pg_personhood_scores := hm_insert i (g s) (pg_personhood_scores P)\<rparr>)"

definition settle_challenge :: "hash \<Rightarrow> personhood_challenge \<Rightarrow> bool \<Rightarrow> block_number \<Rightarrow> (bool \<times> balance) personhood_action" where
  "settle_challenge i c passed b P =
     (let status = (if passed then CH_Passed
                    else if challenge_is_expired b c \<and> ch_status c \<noteq> CH_ResponseSubmitted then CH_Expired else CH_Failed);
          P1 = put_challenge i (c\<lparr>ch_status := status\<rparr>) P;
          P2 = change_score (ch_target_identity c) (if passed then record_challenge_pass b else record_challenge_fail) P1;
          payout = (if passed then ch_deposit c else ch_deposit c + CHALLENGE_FAILURE_PENALTY)
      in (Ok (passed, payout), pg_emit (ChallengeResolved i (ch_target_identity c) passed) P2))"

definition resolve_challenge :: "hash \<Rightarrow> block_number \<Rightarrow> (bool \<times> balance) personhood_action" where
  "resolve_challenge i b P =
     (case hm_get (pg_challenges P) i of
        None \<Rightarrow> (Err ChallengeNotFound, P)
      | Some c \<Rightarrow>
          if ch_status c = CH_ResponseSubmitted
          then (case verify_response P c of Inl e \<Rightarrow> (Err e, P) | Inr passed \<Rightarrow> settle_challenge i c passed b P)
          else if challenge_is_expired b c then settle_challenge i c False b P
          else (Err ChallengeNotReady, P))"

definition get_challenges :: "identity_id \<Rightarrow> personhood_registry \<Rightarrow> personhood_challenge list" where
  "get_challenges i P =
     filter (\<lambda>c. ch_status c \<in> {CH_Pending, CH_ResponseSubmitted}) (List.map_filter (hm_get (pg_challenges P)) (challenges_of i P))"

definition cancel_challenge :: "hash \<Rightarrow> account_id \<Rightarrow> balance personhood_action" where
  "cancel_challenge i canceller P =
     (case hm_get (pg_challenges P) i of
        None \<Rightarrow> (Err ChallengeNotFound, P)
      | Some c \<Rightarrow>
          if ch_challenger c \<noteq> canceller then (Err NotChallenger, P)
          else if ch_status c \<noteq> CH_Pending then (Err ChallengeNotPending, P)
          else (Ok (ch_deposit c), put_challenge i (c\<lparr>ch_status := CH_Cancelled\<rparr>) P))"

section \<open>Clusters\<close>

type_synonym social_graph = "(identity_id, social_graph_node) hmap"

definition node_or_new :: "identity_id \<Rightarrow> social_graph \<Rightarrow> social_graph_node" where
  "node_or_new i G = (case hm_get G i of Some n \<Rightarrow> n | None \<Rightarrow> graph_node_new i)"

definition connect_node :: "identity_id \<Rightarrow> identity_id \<Rightarrow> bool \<Rightarrow> social_graph \<Rightarrow> social_graph" where
  "connect_node i other is_incoming G = hm_insert i (add_connection other is_incoming (node_or_new i G)) G"

definition record_attestation :: "identity_id \<Rightarrow> identity_id \<Rightarrow> personhood_registry \<Rightarrow> personhood_registry" where
  "record_attestation attester target P =
     P\<lparr>pg_social_graph := connect_node target attester True (connect_node attester target False (pg_social_graph P))\<rparr>"

definition neighbours :: "social_graph \<Rightarrow> identity_id \<Rightarrow> identity_id list" where
  "neighbours G i = (case hm_get G i of Some n \<Rightarrow> gn_connections n | None \<Rightarrow> [])"

lemma card_unvisited: "c \<in> set ks \<Longrightarrow> c \<notin> V \<Longrightarrow> card (set ks - insert c V) < card (set ks - V)"
  by (rule psubset_card_mono) auto

lemma card_unvisited_le: "card (set ks - insert c V) \<le> card (set ks - V)"
  by (rule card_mono) auto

text \<open>
  The search for one cluster: a stack of identities, those visited and those of the cluster.  Every step
  visits a node of the graph or shortens the stack.
\<close>

function collect_cluster ::
  "(identity_id list \<Rightarrow> identity_id list) \<Rightarrow> social_graph \<Rightarrow> identity_id list \<Rightarrow> identity_id set \<Rightarrow> identity_id set
     \<Rightarrow> identity_id set \<times> identity_id set" where
  "collect_cluster visit G [] visited members = (visited, members)"
| "collect_cluster visit G (c # q) visited members =
     (if c \<in> visited then collect_cluster visit G q visited members
      else let ns = (case hm_get G c of
                       None \<Rightarrow> []
                     | Some n \<Rightarrow> filter (\<lambda>x. x \<notin> insert c visited) (visit (gn_connections n)))
           in collect_cluster visit G (rev ns @ q) (insert c visited) (insert c members))"
  by pat_completeness auto

termination
proof (relation "measures [\<lambda>(visit, G, q, visited, members). card (set (hm_keys G) - visited), \<lambda>(visit, G, q, visited, members). length q]",
    goal_cases)
  case (3 visit G c q visited members ns)
  have "c \<in> set (hm_keys G)" if "hm_get G c = Some n" for n
    using that by (force dest: map_of_SomeD)
  with 3 show ?case
    using card_unvisited [of c "hm_keys G" visited] card_unvisited_le [of "hm_keys G" c visited]
    by (cases "hm_get G c") (auto simp: le_less)
qed auto

definition cluster_edges :: "social_graph \<Rightarrow> identity_id set \<Rightarrow> (identity_id \<Rightarrow> bool) \<Rightarrow> u32" where
  "cluster_edges G M inside =
     of_nat (sum (\<lambda>i. length (filter inside (neighbours G i))) (M \<inter> set (hm_keys G)))"

definition assess_cluster :: "social_graph \<Rightarrow> sybil_cluster \<Rightarrow> sybil_cluster" where
  "assess_cluster G c =
     (let M = sc_members c; member_count = of_nat (card M) :: u32; max_edges = member_count * (member_count - 1);
          internal = cluster_edges G M (\<lambda>x. x \<in> M);
          density = (if 0 < max_edges then rnd32 (rnd32 (of_nat (unat internal)) / rnd32 (of_nat (unat max_edges))) else 0)
      in calculate_risk (c\<lparr>sc_internal_density := density, sc_external_connections := cluster_edges G M (\<lambda>x. x \<notin> M)\<rparr>))"

fun detect_loop ::
  "(identity_id list \<Rightarrow> identity_id list) \<Rightarrow> identity_id list \<Rightarrow> identity_id set \<Rightarrow> sybil_cluster list \<Rightarrow> personhood_registry
     \<Rightarrow> sybil_cluster list \<times> personhood_registry" where
  "detect_loop visit [] visited new_clusters P = (new_clusters, P)"
| "detect_loop visit (i # is) visited new_clusters P =
     (if i \<in> visited then detect_loop visit is visited new_clusters P
      else let (visited', members) = collect_cluster visit (pg_social_graph P) [i] visited {};
               cluster = (cluster_new (pg_next_cluster_id P))\<lparr>sc_members := members\<rparr>
           in if 3 \<le> card members
              then let cl = assess_cluster (pg_social_graph P) cluster;
                       P1 = (if sc_flagged cl then pg_emit (SybilClusterDetected (sc_cluster_id cl) (card members) (sc_risk_score cl)) P else P)
                   in detect_loop visit is visited' (new_clusters @ [cl]) (P1\<lparr>pg_next_cluster_id := pg_next_cluster_id P1 + 1\<rparr>)
              else detect_loop visit is visited' new_clusters P)"

definition detect_sybil_clusters ::
  "(identity_id list \<Rightarrow> identity_id list) \<Rightarrow> personhood_registry \<Rightarrow> personhood_registry" where
  "detect_sybil_clusters visit P =
     (let (cs, P') = detect_loop visit (visit (hm_keys (pg_social_graph P))) {} [] P in P'\<lparr>pg_sybil_clusters := cs\<rparr>)"

definition update_socials :: "social_graph \<Rightarrow> personhood_registry \<Rightarrow> personhood_registry" where
  "update_socials G P = fold (\<lambda>(i, n). change_score i (update_social (gn_connectivity_score n))) G P"

definition recalculate_social_graph ::
  "(identity_id list \<Rightarrow> identity_id list) \<Rightarrow> personhood_registry \<Rightarrow> personhood_registry" where
  "recalculate_social_graph visit P =
     (let G = map (\<lambda>(i, n). (i, calculate_connectivity (of_nat (length (pg_social_graph P))) n)) (pg_social_graph P);
          P1 = update_socials G (P\<lparr>pg_social_graph := G\<rparr>)
      in if pf_social_analysis_enabled (pg_config P1) then detect_sybil_clusters visit P1 else P1)"

definition is_in_suspicious_cluster :: "identity_id \<Rightarrow> personhood_registry \<Rightarrow> bool" where
  "is_in_suspicious_cluster i P = list_ex (\<lambda>c. sc_flagged c \<and> i \<in> sc_members c) (pg_sybil_clusters P)"

definition get_connectivity :: "identity_id \<Rightarrow> personhood_registry \<Rightarrow> u32" where
  "get_connectivity i P = (case hm_get (pg_social_graph P) i of Some n \<Rightarrow> gn_connectivity_score n | None \<Rightarrow> 0)"

section \<open>Uniqueness and score operations\<close>

definition submit_uniqueness_commitment ::
  "crypto \<Rightarrow> identity_id \<Rightarrow> bytes \<Rightarrow> block_number \<Rightarrow> identity_registry \<Rightarrow> unit personhood_action" where
  "submit_uniqueness_commitment K i commitment_data b I P =
     (if hm_get (ir_identities I) i = None then (Err PE_IdentityNotFound, P)
      else if hm_contains (pg_uniqueness_commitments P) i then (Err CommitmentExists, P)
      else (Ok (), P\<lparr>pg_uniqueness_commitments := hm_insert i (uniqueness_new K i commitment_data b) (pg_uniqueness_commitments P)\<rparr>))"

definition witness_uniqueness :: "identity_id \<Rightarrow> account_id \<Rightarrow> bool personhood_action" where
  "witness_uniqueness i w P =
     (case hm_get (pg_uniqueness_commitments P) i of
        None \<Rightarrow> (Err NoCommitment, P)
      | Some u \<Rightarrow>
          let (added, u') = add_witness w u;
              P1 = P\<lparr>pg_uniqueness_commitments := hm_insert i u' (pg_uniqueness_commitments P)\<rparr>
          in (Ok added, if uc_verified u'
                then pg_emit (UniquenessVerified i (length (uc_witnesses u'))) (change_score i (update_uniqueness True (length (uc_witnesses u'))) P1)
                else P1))"

definition is_unique_verified :: "identity_id \<Rightarrow> personhood_registry \<Rightarrow> bool" where
  "is_unique_verified i P = (case hm_get (pg_uniqueness_commitments P) i of Some u \<Rightarrow> uc_verified u | None \<Rightarrow> False)"

definition initialize_score :: "identity_id \<Rightarrow> personhood_registry \<Rightarrow> personhood_registry" where
  "initialize_score i P =
     (if hm_contains (pg_personhood_scores P) i then P
      else P\<lparr>pg_personhood_scores := hm_insert i personhood_score_new (pg_personhood_scores P)\<rparr>)"

definition rescore :: "identity_id \<Rightarrow> (personhood_score \<Rightarrow> personhood_score) \<Rightarrow> personhood_registry \<Rightarrow> personhood_registry" where
  "rescore i g P =
     (case hm_get (pg_personhood_scores P) i of
        None \<Rightarrow> P
      | Some s \<Rightarrow>
          let P1 = change_score i g P
          in if pc_total (g s) \<noteq> pc_total s then pg_emit (PersonhoodScoreUpdated i (pc_total s) (pc_total (g s))) P1 else P1)"

definition personhood_record_activity :: "identity_id \<Rightarrow> u32 \<Rightarrow> personhood_registry \<Rightarrow> personhood_registry" where
  "personhood_record_activity i actions = rescore i (update_activity actions)"

definition update_longevity :: "identity_id \<Rightarrow> block_number \<Rightarrow> personhood_registry \<Rightarrow> personhood_registry" where
  "update_longevity i age = rescore i (score_update_longevity age)"

definition personhood_meets_threshold :: "identity_id \<Rightarrow> personhood_registry \<Rightarrow> bool" where
  "personhood_meets_threshold i P =
     (case hm_get (pg_personhood_scores P) i of Some s \<Rightarrow> score_meets_threshold (pf_min_score_for_privileges (pg_config P)) s | None \<Rightarrow> False)"

definition personhood_is_verified :: "identity_id \<Rightarrow> block_number \<Rightarrow> personhood_registry \<Rightarrow> bool" where
  "personhood_is_verified i b P = (case hm_get (pg_personhood_scores P) i of Some s \<Rightarrow> score_is_verified b s | None \<Rightarrow> False)"

definition pg_clear_events :: "personhood_registry \<Rightarrow> personhood_registry" where
  "pg_clear_events P = P\<lparr>pg_events := []\<rparr>"

section \<open>Histories\<close>

inductive pg_run :: "crypto \<Rightarrow> (identity_id list \<Rightarrow> identity_id list) \<Rightarrow> personhood_registry \<Rightarrow> bool" for K visit where
  start: "pg_run K visit (personhood_with_config cid cfg)"
| issue: "pg_run K visit P \<Longrightarrow> pg_run K visit (snd (issue_challenge K a i ty dep b I P))"
| respond: "pg_run K visit P \<Longrightarrow> pg_run K visit (snd (respond_to_challenge ci a rd b I P))"
| resolve: "pg_run K visit P \<Longrightarrow> pg_run K visit (snd (resolve_challenge ci b P))"
| cancel: "pg_run K visit P \<Longrightarrow> pg_run K visit (snd (cancel_challenge ci a P))"
| attest: "pg_run K visit P \<Longrightarrow> pg_run K visit (record_attestation i j P)"
| social: "pg_run K visit P \<Longrightarrow> pg_run K visit (recalculate_social_graph visit P)"
| commit: "pg_run K visit P \<Longrightarrow> pg_run K visit (snd (submit_uniqueness_commitment K i bs b I P))"
| witness: "pg_run K visit P \<Longrightarrow> pg_run K visit (snd (witness_uniqueness i a P))"
| init: "pg_run K visit P \<Longrightarrow> pg_run K visit (initialize_score i P)"
| activity: "pg_run K visit P \<Longrightarrow> pg_run K visit (personhood_record_activity i n P)"
| longevity: "pg_run K visit P \<Longrightarrow> pg_run K visit (update_longevity i age P)"
| clear: "pg_run K visit P \<Longrightarrow> pg_run K visit (pg_clear_events P)"

lemmas pg_defs = issue_challenge_def respond_to_challenge_def resolve_challenge_def settle_challenge_def cancel_challenge_def
  submit_uniqueness_commitment_def witness_uniqueness_def initialize_score_def personhood_record_activity_def update_longevity_def
  pg_clear_events_def rescore_def put_challenge_def pg_emit_def Let_def

subsection \<open>The graph is symmetric\<close>

definition graph_edges :: "social_graph \<Rightarrow> (identity_id \<times> identity_id) set" where
  "graph_edges G = {(x, y). y \<in> set (neighbours G x)}"

lemma edges_connect: "graph_edges (connect_node i j inc G) = insert (i, j) (graph_edges G)"
  by (auto simp: graph_edges_def neighbours_def connect_node_def node_or_new_def add_connection_def graph_node_new_def Let_def update_conv'
      split: option.splits if_splits)

lemma edges_recalculated:
  "graph_edges (map (\<lambda>(i, n). (i, calculate_connectivity k n)) G) = graph_edges G"
proof -
  have "hm_get (map (\<lambda>(i, n). (i, calculate_connectivity k n)) G) x = map_option (calculate_connectivity k) (hm_get G x)" for x
    by (induction G) auto
  then show ?thesis
    by (auto simp: graph_edges_def neighbours_def calculate_connectivity_def Let_def split: option.splits)
qed

lemma change_score_graph [simp]:
  "pg_social_graph (change_score i g P) = pg_social_graph P" "pg_config (change_score i g P) = pg_config P"
  by (simp_all add: change_score_def split: option.split)

lemma update_socials_graph [simp]: "pg_social_graph (update_socials G P) = pg_social_graph P"
  unfolding update_socials_def by (induction G arbitrary: P) (simp_all add: case_prod_beta)

lemma detect_loop_graph [simp]: "pg_social_graph (snd (detect_loop visit is V cs P)) = pg_social_graph P"
  by (induction visit "is" V cs P rule: detect_loop.induct) (auto simp: pg_emit_def Let_def split: prod.split)

lemma detect_graph [simp]: "pg_social_graph (detect_sybil_clusters visit P) = pg_social_graph P"
  using detect_loop_graph [of visit "visit (hm_keys (pg_social_graph P))" "{}" "[]" P]
  by (simp add: detect_sybil_clusters_def case_prod_beta)

lemma run_sym: "pg_run K visit P \<Longrightarrow> sym (graph_edges (pg_social_graph P))"
proof (induction rule: pg_run.induct)
  case (attest P i j)
  then show ?case by (auto simp: record_attestation_def edges_connect sym_def)
next
  case (social P)
  then show ?case by (simp add: recalculate_social_graph_def Let_def edges_recalculated)
next
  case (start cid cfg)
  show ?case by (simp add: personhood_with_config_def graph_edges_def neighbours_def sym_def)
qed (simp_all add: pg_defs split: option.split sum.split prod.split)

subsection \<open>Clusters are components\<close>

lemma collect_spec:
  assumes "\<forall>c \<in> visited. set (neighbours G c) \<subseteq> visited \<union> set q" and "\<forall>l. set (visit l) = set l"
    and "collect_cluster visit G q visited members = (v, m)"
  shows "visited \<subseteq> v \<and> set q \<subseteq> v \<and> (\<forall>c \<in> v. set (neighbours G c) \<subseteq> v) \<and> v \<subseteq> visited \<union> (graph_edges G)\<^sup>* `` set q
    \<and> m = members \<union> (v - visited)"
  using assms
proof (induction visit G q visited members rule: collect_cluster.induct)
  case (2 visit G c q visited members)
  show ?case
  proof (cases "c \<in> visited")
    case True
    then have "\<forall>c \<in> visited. set (neighbours G c) \<subseteq> visited \<union> set q" using "2.prems"(1) by auto
    from "2.IH"(1) [OF True this "2.prems"(2)] "2.prems"(3) True show ?thesis by auto
  next
    case False
    define ns where "ns = (case hm_get G c of None \<Rightarrow> [] | Some n \<Rightarrow> filter (\<lambda>x. x \<notin> insert c visited) (visit (gn_connections n)))"
    have ns: "set ns = set (neighbours G c) - insert c visited"
      using "2.prems"(2) by (auto simp: ns_def neighbours_def split: option.split)
    have "collect_cluster visit G (rev ns @ q) (insert c visited) (insert c members) = (v, m)"
      using "2.prems"(3) False by (simp add: ns_def)
    moreover have "\<forall>d \<in> insert c visited. set (neighbours G d) \<subseteq> insert c visited \<union> set (rev ns @ q)"
      using "2.prems"(1) ns by auto
    ultimately have IH: "insert c visited \<subseteq> v \<and> set (rev ns @ q) \<subseteq> v \<and> (\<forall>c \<in> v. set (neighbours G c) \<subseteq> v)
        \<and> v \<subseteq> insert c visited \<union> (graph_edges G)\<^sup>* `` set (rev ns @ q) \<and> m = insert c members \<union> (v - insert c visited)"
      using "2.IH"(2) [OF False ns_def] "2.prems"(2) by blast
    have "(graph_edges G)\<^sup>* `` set (rev ns @ q) \<subseteq> (graph_edges G)\<^sup>* `` set (c # q)"
      using ns by (auto simp: graph_edges_def intro: converse_rtrancl_into_rtrancl)
    moreover have "c \<in> (graph_edges G)\<^sup>* `` set (c # q)" by auto
    ultimately have "v \<subseteq> visited \<union> (graph_edges G)\<^sup>* `` set (c # q)" using IH by blast
    moreover have "m = members \<union> (v - visited)" and "set (c # q) \<subseteq> v" using IH False by auto
    ultimately show ?thesis using IH by blast
  qed
qed auto

lemma closed_rtrancl: "\<forall>c \<in> V. set (neighbours G c) \<subseteq> V \<Longrightarrow> x \<in> V \<Longrightarrow> (x, y) \<in> (graph_edges G)\<^sup>* \<Longrightarrow> y \<in> V"
  by (rotate_tac 2, induction rule: rtrancl_induct) (auto simp: graph_edges_def)

lemma collect_component:
  assumes "sym (graph_edges G)" and closed: "\<forall>c \<in> visited. set (neighbours G c) \<subseteq> visited" and "i \<notin> visited"
    and "\<forall>l. set (visit l) = set l" and "collect_cluster visit G [i] visited {} = (v, m)"
  shows "m = (graph_edges G)\<^sup>* `` {i} \<and> v = visited \<union> m \<and> (\<forall>c \<in> v. set (neighbours G c) \<subseteq> v)"
proof -
  have spec: "visited \<subseteq> v" "i \<in> v" "\<forall>c \<in> v. set (neighbours G c) \<subseteq> v" "v \<subseteq> visited \<union> (graph_edges G)\<^sup>* `` {i}" "m = v - visited"
    using collect_spec [of visited G "[i]" visit "{}" v m] assms(4,5) closed by auto
  have "(graph_edges G)\<^sup>* `` {i} \<subseteq> v" using closed_rtrancl [OF spec(3,2)] by auto
  moreover have "y \<notin> visited" if "(i, y) \<in> (graph_edges G)\<^sup>*" for y
    using closed_rtrancl [OF closed, of y i] that assms(1,3) by (meson sym_rtrancl symD)
  ultimately show ?thesis using spec by auto
qed

definition component :: "social_graph \<Rightarrow> identity_id \<Rightarrow> identity_id set" where
  "component G i = (graph_edges G)\<^sup>* `` {i}"

lemma assess_members [simp]: "sc_members (assess_cluster G c) = sc_members c"
  by (simp add: assess_cluster_def calculate_risk_def Let_def)

lemma component_closed:
  assumes "sym (graph_edges G)" and "\<forall>c \<in> V. set (neighbours G c) \<subseteq> V" and "i \<in> V"
  shows "component G i \<subseteq> V"
  using closed_rtrancl [OF assms(2,3)] by (auto simp: component_def)

lemma component_self [simp]: "i \<in> component G i"
  by (simp add: component_def)

lemma component_eq:
  assumes "sym (graph_edges G)" and "j \<in> component G i"
  shows "component G j = component G i"
proof -
  have "sym ((graph_edges G)\<^sup>*)" using assms(1) by (rule sym_rtrancl)
  with assms(2) show ?thesis by (auto simp: component_def dest: symD intro: rtrancl_trans)
qed

lemma detect_loop_spec:
  assumes "sym (graph_edges G)" and perm: "\<forall>l. set (visit l) = set l"
  shows "\<forall>c \<in> V. set (neighbours G c) \<subseteq> V \<Longrightarrow> pg_social_graph P = G \<Longrightarrow>
    sc_members ` set (fst (detect_loop visit is V cs P)) =
    sc_members ` set cs \<union> {C. \<exists>i \<in> set is - V. C = component G i \<and> 3 \<le> card C}"
proof (induction "is" arbitrary: V cs P)
  case (Cons i "is")
  show ?case
  proof (cases "i \<in> V")
    case True
    with Cons show ?thesis by auto
  next
    case False
    obtain v m where vm: "collect_cluster visit G [i] V {} = (v, m)" by (cases "collect_cluster visit G [i] V {}")
    from collect_component [OF assms(1) Cons.prems(1) False perm vm]
    have m: "m = component G i" and v: "v = V \<union> component G i" and closed: "\<forall>c \<in> v. set (neighbours G c) \<subseteq> v"
      by (auto simp: component_def)
    have same: "component G j = component G i" if "j \<in> v - V" for j
      using component_eq [OF assms(1)] that by (auto simp: v)
    have split: "set (i # is) - V = insert i (set is \<inter> (v - V) \<union> (set is - v))" using False by (auto simp: v)
    have rest: "{C. \<exists>j \<in> set (i # is) - V. C = component G j \<and> 3 \<le> card C} =
        {C. C = component G i \<and> 3 \<le> card C} \<union> {C. \<exists>j \<in> set is - v. C = component G j \<and> 3 \<le> card C}"
      unfolding split using same by auto
    show ?thesis
    proof (cases "3 \<le> card m")
      case True
      define cl where "cl = assess_cluster G ((cluster_new (pg_next_cluster_id P))\<lparr>sc_members := m\<rparr>)"
      define P1 where "P1 = (if sc_flagged cl then pg_emit (SybilClusterDetected (sc_cluster_id cl) (card m) (sc_risk_score cl)) P else P)"
      let ?P = "P1\<lparr>pg_next_cluster_id := pg_next_cluster_id P1 + 1\<rparr>"
      have "detect_loop visit (i # is) V cs P = detect_loop visit is v (cs @ [cl]) ?P"
        using False True Cons.prems(2) by (simp add: vm Let_def cl_def P1_def del: collect_cluster.simps)
      moreover have "pg_social_graph ?P = G" using Cons.prems(2) by (simp add: P1_def pg_emit_def)
      ultimately show ?thesis
        using Cons.IH [OF closed, of ?P "cs @ [cl]"] True unfolding rest by (auto simp: m cl_def)
    next
      case small: False
      then have "detect_loop visit (i # is) V cs P = detect_loop visit is v cs P"
        using False Cons.prems(2) by (simp add: vm Let_def del: collect_cluster.simps)
      with Cons.IH [OF closed Cons.prems(2), of cs] small show ?thesis unfolding rest by (auto simp: m)
    qed
  qed
qed simp

text \<open>
  C35: the search for clusters finds the connected components.  In every registry that can be
  reached, and whatever the order in which maps and sets are walked, the clusters found are exactly the
  connected components of the graph of attestations that have at least three members.
\<close>

theorem clusters_are_components:
  assumes "pg_run K visit' P" and "\<forall>l. set (visit l) = set l"
  shows "sc_members ` set (pg_sybil_clusters (detect_sybil_clusters visit P)) =
    {C. \<exists>i \<in> set (hm_keys (pg_social_graph P)). C = component (pg_social_graph P) i \<and> 3 \<le> card C}"
  using detect_loop_spec [OF run_sym [OF assms(1)] assms(2), of "{}" P "visit (hm_keys (pg_social_graph P))" "[]"] assms(2)
  by (simp add: detect_sybil_clusters_def case_prod_beta)

definition three_friends :: personhood_registry where
  "three_friends = record_attestation 2 3 (record_attestation 1 2 (personhood_new 0))"

theorem clusters_are_components_witness:
  "sc_members ` set (pg_sybil_clusters (detect_sybil_clusters (\<lambda>l. l) three_friends)) =
    {C. \<exists>i \<in> set (hm_keys (pg_social_graph three_friends)). C = component (pg_social_graph three_friends) i \<and> 3 \<le> card C}"
  by (rule clusters_are_components [of demo_crypto "\<lambda>l. l"])
    (auto simp: three_friends_def personhood_new_def intro: pg_run.attest pg_run.start)

subsection \<open>Scores are bounded\<close>

definition score_fine :: "personhood_score \<Rightarrow> bool" where
  "score_fine s = (pc_social_score s \<le> 200 \<and> pc_challenge_score s \<le> 200 \<and> pc_uniqueness_score s \<le> 200 \<and> pc_longevity_score s \<le> 200
     \<and> pc_activity_score s \<le> 200
     \<and> pc_total s = pc_social_score s + pc_challenge_score s + pc_uniqueness_score s + pc_longevity_score s + pc_activity_score s)"

lemma uniqueness_le: "100 + min x 100 \<le> (200 :: u32)"
  by (simp add: min_def word_le_nat_alt unat_add_fits)

lemma score_fine_ops:
  "score_fine personhood_score_new"
  "score_fine s \<Longrightarrow> score_fine (update_social c s)"
  "score_fine s \<Longrightarrow> score_fine (record_challenge_pass b s)"
  "score_fine s \<Longrightarrow> score_fine (record_challenge_fail s)"
  "score_fine s \<Longrightarrow> score_fine (update_uniqueness ver n s)"
  "score_fine s \<Longrightarrow> score_fine (score_update_longevity age s)"
  "score_fine s \<Longrightarrow> score_fine (update_activity k s)"
  by (simp_all add: score_fine_def personhood_score_new_def update_social_def record_challenge_pass_def record_challenge_fail_def
      update_uniqueness_def score_update_longevity_def update_activity_def recalculate_def uniqueness_le order_trans [OF sat_sub_le])

lemma score_fine_total: "score_fine s \<Longrightarrow> unat (pc_total s) \<le> 1000"
  by (simp add: score_fine_def word_le_nat_alt unat_add_fits)

definition scores_fine :: "personhood_registry \<Rightarrow> bool" where
  "scores_fine P = (\<forall>i s. hm_get (pg_personhood_scores P) i = Some s \<longrightarrow> score_fine s)"

lemma scores_fine_change: "scores_fine P \<Longrightarrow> (\<And>s. score_fine s \<Longrightarrow> score_fine (g s)) \<Longrightarrow> scores_fine (change_score i g P)"
  by (auto simp: scores_fine_def change_score_def update_conv' split: option.split)

lemma scores_fine_cong: "pg_personhood_scores P' = pg_personhood_scores P \<Longrightarrow> scores_fine P' = scores_fine P"
  by (simp add: scores_fine_def)

lemma scores_fine_socials: "scores_fine P \<Longrightarrow> scores_fine (update_socials G P)"
  unfolding update_socials_def
  by (induction G arbitrary: P) (simp_all add: case_prod_beta scores_fine_change score_fine_ops)

lemma detect_loop_scores: "pg_personhood_scores (snd (detect_loop visit is V cs P)) = pg_personhood_scores P"
  by (induction visit "is" V cs P rule: detect_loop.induct) (auto simp: pg_emit_def Let_def split: prod.split)

lemma detect_scores: "pg_personhood_scores (detect_sybil_clusters visit P) = pg_personhood_scores P"
  using detect_loop_scores [of visit "visit (hm_keys (pg_social_graph P))" "{}" "[]" P]
  by (simp add: detect_sybil_clusters_def case_prod_beta)

lemma run_scores: "pg_run K visit P \<Longrightarrow> scores_fine P"
proof (induction rule: pg_run.induct)
  case (social P)
  then have "scores_fine (update_socials G (P\<lparr>pg_social_graph := H\<rparr>))" for G H
    by (intro scores_fine_socials) (simp add: scores_fine_def)
  then show ?case by (simp add: recalculate_social_graph_def Let_def scores_fine_cong [OF detect_scores])
next
  case (resolve P ci b)
  then have "scores_fine (change_score i g (put_challenge ci c P))" if "\<And>s. score_fine s \<Longrightarrow> score_fine (g s)" for i g c
    using that by (intro scores_fine_change) (simp_all add: scores_fine_def put_challenge_def)
  with resolve show ?case
    by (auto simp: resolve_challenge_def settle_challenge_def pg_emit_def Let_def score_fine_ops scores_fine_cong [of "pg_events_update _ _"]
        split: option.split sum.split)
next
  case (witness P i a)
  then have "scores_fine (change_score i (update_uniqueness True n) (P\<lparr>pg_uniqueness_commitments := u\<rparr>))" for n u
    by (intro scores_fine_change) (simp_all add: scores_fine_def score_fine_ops)
  with witness show ?case
    by (auto simp: witness_uniqueness_def pg_emit_def Let_def scores_fine_cong [of "pg_events_update _ _"]
        scores_fine_cong [of "pg_uniqueness_commitments_update _ _"] split: option.split prod.split)
next
  case (activity P i n)
  then have "scores_fine (change_score i (update_activity n) P)" by (simp add: scores_fine_change score_fine_ops)
  with activity show ?case by (auto simp: personhood_record_activity_def rescore_def pg_emit_def Let_def scores_fine_cong [of "pg_events_update _ _"] split: option.split)
next
  case (longevity P i age)
  then have "scores_fine (change_score i (score_update_longevity age) P)" by (simp add: scores_fine_change score_fine_ops)
  with longevity show ?case by (auto simp: update_longevity_def rescore_def pg_emit_def Let_def scores_fine_cong [of "pg_events_update _ _"] split: option.split)
next
  case (init P i)
  then show ?case by (auto simp: initialize_score_def scores_fine_def update_conv' score_fine_ops)
qed (auto simp: scores_fine_def personhood_with_config_def record_attestation_def pg_defs split: option.split sum.split)

text \<open>
  A personhood score is what its parts add up to and never exceeds 1000: after any history of
  challenges, attestations, witnesses and activity each of the five parts lies between 0 and 200 and their sum is the total.
\<close>

theorem personhood_score_bounded:
  assumes "pg_run K visit P" and "hm_get (pg_personhood_scores P) i = Some s"
  shows "unat (pc_total s) \<le> 1000 \<and> pc_challenge_score s \<le> 200 \<and> pc_social_score s \<le> 200
    \<and> pc_total s = pc_social_score s + pc_challenge_score s + pc_uniqueness_score s + pc_longevity_score s + pc_activity_score s"
proof -
  have "score_fine s" using run_scores [OF assms(1)] assms(2) by (simp add: scores_fine_def)
  then show ?thesis using score_fine_total [of s] by (simp add: score_fine_def)
qed

theorem personhood_score_bounded_witness:
  "unat (pc_total (update_activity 9 personhood_score_new)) \<le> 1000"
proof -
  let ?P = "personhood_record_activity 1 9 (initialize_score 1 (personhood_new 0))"
  have "pg_run demo_crypto (\<lambda>l. l) ?P"
    unfolding personhood_new_def by (intro pg_run.activity pg_run.init pg_run.start)
  moreover have "hm_get (pg_personhood_scores ?P) 1 = Some (update_activity 9 personhood_score_new)"
    by (simp add: personhood_record_activity_def rescore_def initialize_score_def personhood_new_def personhood_with_config_def hm_contains_def
        change_score_def pg_emit_def Let_def)
  ultimately show ?thesis using personhood_score_bounded by blast
qed

section \<open>Behaviour that differs from the documentation\<close>

text \<open>
  The penalty for trust depth is subtracted without a check, and the depth of a node is never set: it
  stays at 255, the largest penalty.  One attestation in a network of a hundred identities gives a connectivity of
  \<open>2\<^sup>32 - 39\<close>, and with it the full social score.
\<close>

lemma connectivity_wraps:
  "gn_connectivity_score (calculate_connectivity 100 (add_connection 2 True (graph_node_new 1))) = - 39"
  "pc_social_score (update_social (- 39) personhood_score_new) = 200"
  by (simp_all add: calculate_connectivity_def add_connection_def graph_node_new_def balance_ratio_def list_insert_def Let_def
      update_social_def recalculate_def personhood_score_new_def)

text \<open>
  Resolving looks at the status of a challenge only to see whether there is a response: a challenge that was passed
  and paid out is resolved and paid out again, as failed, once it has expired, and so on.
\<close>

lemma resolve_expired:
  assumes "hm_get (pg_challenges P) i = Some c" and "ch_status c \<noteq> CH_ResponseSubmitted" and "ch_expires_at c < b"
  shows "fst (resolve_challenge i b P) = Ok (False, ch_deposit c + CHALLENGE_FAILURE_PENALTY)"
    and "hm_get (pg_challenges (snd (resolve_challenge i b P))) i = Some (c\<lparr>ch_status := CH_Expired\<rparr>)"
  using assms
  by (simp_all add: resolve_challenge_def settle_challenge_def challenge_is_expired_def put_challenge_def pg_emit_def Let_def
      change_score_def update_conv' split: option.split)

lemma challenge_paid_again:
  assumes "hm_get (pg_challenges P) i = Some c" and "ch_status c = CH_Passed" and "ch_expires_at c < b"
  shows "fst (resolve_challenge i b P) = Ok (False, ch_deposit c + CHALLENGE_FAILURE_PENALTY)"
    and "fst (resolve_challenge i b (snd (resolve_challenge i b P))) = Ok (False, ch_deposit c + CHALLENGE_FAILURE_PENALTY)"
  using assms resolve_expired [of P i c b] resolve_expired [of "snd (resolve_challenge i b P)" i "c\<lparr>ch_status := CH_Expired\<rparr>" b]
  by simp_all

text \<open>The list of an identity's challenges is never shortened: after three challenges it can never be challenged again.\<close>

lemma challenges_run_out:
  assumes "pf_challenges_enabled (pg_config P)" and "registry_is_active target b I" and "length (challenges_of target P) = 3"
    and "hm_get (pg_last_challenge_time P) target = Some l"
    and "l + MIN_CHALLENGE_INTERVAL * ucast (pf_challenge_cooldown_multiplier (pg_config P)) \<le> b"
  shows "fst (issue_challenge K a target ty dep b I P) = Err TooManyChallenges"
  using assms by (simp add: issue_challenge_def MAX_CHALLENGES_PER_IDENTITY_def linorder_not_less)

end
