(* ===== verification/Kratos_Monitor.thy ===== *)
theory Kratos_Monitor
  imports Kratos_F64
begin

text \<open>
  Security monitoring (\<^verbatim>\<open>types/security.rs\<close>, \<^verbatim>\<open>contracts/security.rs\<close>): threats and their
  mitigations, the protocol's invariants and unacceptable failures as flags of a health state, the
  indicator of slow capture, threat levels, audits and review cycles.  Recommendations that the code
  formats as text are values of a datatype, and the violation event is kept without its text, which is a
  function of the invariant; the walk over the capture indicators is in the order of the argument \<open>visit\<close>.
  The two arguments of \<^verbatim>\<open>calculate_capture_indicator\<close> that its body does not read are left out.
\<close>

section \<open>Threats\<close>

datatype adversary_class = Economic | Social | Technical | Institutional | Temporal | Emergent

definition adversary_classes :: "adversary_class list" where
  "adversary_classes = [Economic, Social, Technical, Institutional, Temporal, Emergent]"

datatype actor_rationality = Rational | Irrational | Malicious

datatype non_assumption = HonestMajority | BenevolentGovernance | AlignedIncentives | StableIdeology | PermanentParticipation

definition non_assumptions :: "non_assumption list" where
  "non_assumptions = [HonestMajority, BenevolentGovernance, AlignedIncentives, StableIdeology, PermanentParticipation]"

datatype threat_layer = TL_Consensus | TL_Governance | TL_IdentityReputation | TL_Sidechain | TL_Emergency | TL_ForkingOssification

datatype threat_type =
    ValidatorCartelization | LongRangeAttack | VrfGrinding | ProposalSpam | VoterApathy | MajorityTyranny | SybilAccumulation
  | ReputationFarming | CrossChainLaundering | ZombieChains | GovernanceCapture | FederationAbuse | TT_EmergencyAbuse
  | PermanentExceptionalState | ForkSpam | OssificationAbuse | MinorityLockOut

fun threat_layer_of :: "threat_type \<Rightarrow> threat_layer" where
  "threat_layer_of ValidatorCartelization = TL_Consensus"
| "threat_layer_of LongRangeAttack = TL_Consensus"
| "threat_layer_of VrfGrinding = TL_Consensus"
| "threat_layer_of ProposalSpam = TL_Governance"
| "threat_layer_of VoterApathy = TL_Governance"
| "threat_layer_of MajorityTyranny = TL_Governance"
| "threat_layer_of SybilAccumulation = TL_IdentityReputation"
| "threat_layer_of ReputationFarming = TL_IdentityReputation"
| "threat_layer_of CrossChainLaundering = TL_IdentityReputation"
| "threat_layer_of ZombieChains = TL_Sidechain"
| "threat_layer_of GovernanceCapture = TL_Sidechain"
| "threat_layer_of FederationAbuse = TL_Sidechain"
| "threat_layer_of TT_EmergencyAbuse = TL_Emergency"
| "threat_layer_of PermanentExceptionalState = TL_Emergency"
| "threat_layer_of ForkSpam = TL_ForkingOssification"
| "threat_layer_of OssificationAbuse = TL_ForkingOssification"
| "threat_layer_of MinorityLockOut = TL_ForkingOssification"

datatype mitigation =
    MG_VcDecay | StakeCaps | MG_ForkNeutrality | EmergencySlowdown | QuorumBounds | Timelocks | MG_ReputationDecay | ExitGuarantee
  | ForkGuarantee | ScopedIdentity | ImportDiscount | SlashingViaArbitration | SidechainPurge | IndependenceDefault | ScopedSecurity
  | RevocableTreaties | HardDurationCaps | Cooldowns | ConstitutionalProhibitions | ForkAvailability | HighThresholds | NeutralForkRules
  | PostForkDecay | SurvivalForkException

fun mitigations :: "threat_type \<Rightarrow> mitigation list" where
  "mitigations ValidatorCartelization = [MG_VcDecay, StakeCaps, MG_ForkNeutrality]"
| "mitigations LongRangeAttack = [MG_VcDecay, EmergencySlowdown]"
| "mitigations VrfGrinding = [MG_VcDecay, StakeCaps]"
| "mitigations ProposalSpam = [QuorumBounds, Timelocks]"
| "mitigations VoterApathy = [QuorumBounds, MG_ReputationDecay]"
| "mitigations MajorityTyranny = [ExitGuarantee, ForkGuarantee, Timelocks]"
| "mitigations SybilAccumulation = [MG_ReputationDecay, ScopedIdentity, SlashingViaArbitration]"
| "mitigations ReputationFarming = [MG_ReputationDecay, ImportDiscount]"
| "mitigations CrossChainLaundering = [ImportDiscount, SlashingViaArbitration]"
| "mitigations ZombieChains = [SidechainPurge, ScopedSecurity]"
| "mitigations GovernanceCapture = [IndependenceDefault, RevocableTreaties]"
| "mitigations FederationAbuse = [ScopedSecurity, RevocableTreaties]"
| "mitigations TT_EmergencyAbuse = [HardDurationCaps, Cooldowns, ConstitutionalProhibitions]"
| "mitigations PermanentExceptionalState = [HardDurationCaps, ForkAvailability, ConstitutionalProhibitions]"
| "mitigations ForkSpam = [HighThresholds, PostForkDecay]"
| "mitigations OssificationAbuse = [NeutralForkRules, SurvivalForkException]"
| "mitigations MinorityLockOut = [NeutralForkRules, ExitGuarantee]"

section \<open>Slow capture\<close>

record slow_capture_indicator =
  ci_entity :: account_id
  ci_stake_accumulation_rate :: f64
  ci_vc_accumulation_rate :: f64
  ci_reputation_accumulation_rate :: f64
  ci_governance_influence_rate :: f64
  ci_monitoring_period :: u64
  ci_alert_threshold :: f64

definition capture_risk_score :: "slow_capture_indicator \<Rightarrow> f64" where
  "capture_risk_score s =
     fadd (fadd (fadd (fmul (ci_stake_accumulation_rate s) (rnd (3 / 10))) (fmul (ci_vc_accumulation_rate s) (rnd (25 / 100))))
        (fmul (ci_reputation_accumulation_rate s) (rnd (25 / 100)))) (fmul (ci_governance_influence_rate s) (rnd (2 / 10)))"

definition is_alert :: "slow_capture_indicator \<Rightarrow> bool" where
  "is_alert s = (ci_alert_threshold s < capture_risk_score s)"

datatype slow_capture_countermeasure = TimeWeightedPower | CM_VcDecay | CM_ReputationDecay | CM_ForkNeutrality | SidechainAutonomy

datatype acceptable_failure = MassExit | PeacefulFragmentation | ProtocolAbandonment | MultipleForks

section \<open>Health\<close>

record protocol_health_state =
  hs_checked_at :: block_number
  hs_exit_always_possible :: bool
  hs_fork_without_slashing :: bool
  hs_decay_active :: bool
  hs_failures_contained :: bool
  hs_emergency_duration_exceeded :: bool
  hs_exit_possible_when_ossified :: bool
  hs_has_frozen_assets :: bool
  hs_identity_exit_blocked :: bool
  hs_ideological_enforcement :: bool

definition health_state_new :: "block_number \<Rightarrow> protocol_health_state" where
  "health_state_new b =
     \<lparr>hs_checked_at = b, hs_exit_always_possible = True, hs_fork_without_slashing = True, hs_decay_active = True, hs_failures_contained = True,
      hs_emergency_duration_exceeded = False, hs_exit_possible_when_ossified = True, hs_has_frozen_assets = False,
      hs_identity_exit_blocked = False, hs_ideological_enforcement = False\<rparr>"

datatype unacceptable_failure = FrozenAssets | PermanentEmergency | IdentityLockIn | ForcedIdeology

definition unacceptable_failures :: "unacceptable_failure list" where
  "unacceptable_failures = [FrozenAssets, PermanentEmergency, IdentityLockIn, ForcedIdeology]"

fun failure_check :: "unacceptable_failure \<Rightarrow> protocol_health_state \<Rightarrow> bool" where
  "failure_check FrozenAssets h = hs_has_frozen_assets h"
| "failure_check PermanentEmergency h = hs_emergency_duration_exceeded h"
| "failure_check IdentityLockIn h = hs_identity_exit_blocked h"
| "failure_check ForcedIdeology h = hs_ideological_enforcement h"

datatype protocol_invariant =
    ExitWithoutPermission | ForkWithoutPunishment | PowerDecay | LocalFailureContainment | TemporaryEmergency | OssificationWithExit

definition protocol_invariants :: "protocol_invariant list" where
  "protocol_invariants =
     [ExitWithoutPermission, ForkWithoutPunishment, PowerDecay, LocalFailureContainment, TemporaryEmergency, OssificationWithExit]"

fun invariant_holds :: "protocol_invariant \<Rightarrow> protocol_health_state \<Rightarrow> bool" where
  "invariant_holds ExitWithoutPermission h = hs_exit_always_possible h"
| "invariant_holds ForkWithoutPunishment h = hs_fork_without_slashing h"
| "invariant_holds PowerDecay h = hs_decay_active h"
| "invariant_holds LocalFailureContainment h = hs_failures_contained h"
| "invariant_holds TemporaryEmergency h = (\<not> hs_emergency_duration_exceeded h)"
| "invariant_holds OssificationWithExit h = hs_exit_possible_when_ossified h"

record invariant_check_result =
  iv_invariant :: protocol_invariant
  iv_holds :: bool
  iv_checked_at :: block_number

definition invariant_check :: "protocol_health_state \<Rightarrow> protocol_invariant \<Rightarrow> invariant_check_result" where
  "invariant_check h i = \<lparr>iv_invariant = i, iv_holds = invariant_holds i h, iv_checked_at = hs_checked_at h\<rparr>"

definition check_all_invariants :: "protocol_health_state \<Rightarrow> invariant_check_result list" where
  "check_all_invariants h = map (invariant_check h) protocol_invariants"

definition failures_in :: "protocol_health_state \<Rightarrow> unacceptable_failure list" where
  "failures_in h = filter (\<lambda>f. failure_check f h) unacceptable_failures"

definition is_healthy :: "protocol_health_state \<Rightarrow> bool" where
  "is_healthy h = (list_all iv_holds (check_all_invariants h) \<and> failures_in h = [])"

section \<open>Audits and reviews\<close>

datatype audit_type = AU_Cryptography | AU_EconomicSimulation | AU_GovernanceStress | AU_ForkSimulation | AU_EmergencyAbuse

definition audit_types :: "audit_type list" where
  "audit_types = [AU_Cryptography, AU_EconomicSimulation, AU_GovernanceStress, AU_ForkSimulation, AU_EmergencyAbuse]"

record audit_record =
  au_audit_type :: audit_type
  au_auditor :: string
  au_performed_at :: block_number
  au_passed :: bool
  au_findings :: string
  au_report_hash :: hash

definition REVIEW_PERIOD_BLOCKS :: block_number where [const_defs]: "REVIEW_PERIOD_BLOCKS = 5 * 365 * 24 * 60 * 10"

record review_cycle =
  rv_cycle :: u32
  rv_started_at :: block_number
  rv_axiom_review_complete :: bool
  rv_fork_consideration_complete :: bool
  rv_ossification_review_complete :: bool
  rv_next_review_due :: block_number

definition review_cycle_new :: "u32 \<Rightarrow> block_number \<Rightarrow> review_cycle" where
  "review_cycle_new n b =
     \<lparr>rv_cycle = n, rv_started_at = b, rv_axiom_review_complete = False, rv_fork_consideration_complete = False,
      rv_ossification_review_complete = False, rv_next_review_due = b + REVIEW_PERIOD_BLOCKS\<rparr>"

definition cycle_is_complete :: "review_cycle \<Rightarrow> bool" where
  "cycle_is_complete c = (rv_axiom_review_complete c \<and> rv_fork_consideration_complete c \<and> rv_ossification_review_complete c)"

definition cycle_is_due :: "block_number \<Rightarrow> review_cycle \<Rightarrow> bool" where
  "cycle_is_due b c = (rv_next_review_due c \<le> b)"

datatype threat_severity = SV_Low | SV_Medium | SV_High | SV_Critical

fun severity_rank :: "threat_severity \<Rightarrow> nat" where
  "severity_rank SV_Low = 0"
| "severity_rank SV_Medium = 1"
| "severity_rank SV_High = 2"
| "severity_rank SV_Critical = 3"

datatype threat_level = LV_Normal | LV_Elevated | LV_High | LV_Critical | LV_Existential

record detected_threat =
  th_threat_type :: threat_type
  th_severity :: threat_severity
  th_evidence :: string
  th_detected_at :: block_number
  th_affected_entities :: "account_id list"

datatype recommendation = Restore_exit | Remove_fork_penalties | Enable_decay | End_emergency | Mitigate threat_type "mitigation list" | Watch account_id

record threat_assessment =
  ta_assessed_at :: block_number
  ta_active_threats :: "detected_threat list"
  ta_capture_indicators :: "slow_capture_indicator list"
  ta_threat_level :: threat_level
  ta_recommendations :: "recommendation list"

section \<open>The contract\<close>

record security_config =
  sf_health_check_interval :: block_number
  sf_capture_detection_window :: u64
  sf_capture_alert_threshold :: f64
  sf_max_threat_history :: nat
  sf_max_stake_history :: nat

definition default_security_config :: security_config where
  "default_security_config =
     \<lparr>sf_health_check_interval = 14400, sf_capture_detection_window = 100, sf_capture_alert_threshold = 1 / 4, sf_max_threat_history = 100,
      sf_max_stake_history = 365\<rparr>"

datatype security_event =
    InvariantViolation protocol_invariant block_number
  | UnacceptableFailureDetected unacceptable_failure block_number
  | ThreatDetected threat_type threat_severity block_number
  | SlowCaptureAlert account_id f64 block_number
  | HealthCheckPassed block_number
  | HealthCheckFailed block_number "protocol_invariant list"
  | AuditRecorded audit_type bool block_number
  | ReviewCycleStarted u32 block_number
  | ReviewCycleCompleted u32 block_number

record security_contract =
  sx_current_block :: block_number
  sx_health_state :: protocol_health_state
  sx_threat_assessments :: "threat_assessment list"
  sx_capture_indicators :: "(account_id, slow_capture_indicator) hmap"
  sx_stake_history :: "(account_id, (block_number \<times> balance) list) hmap"
  sx_vc_history :: "(account_id, (block_number \<times> u64) list) hmap"
  sx_audit_records :: "audit_record list"
  sx_review_cycles :: "review_cycle list"
  sx_current_review_cycle :: "review_cycle option"
  sx_active_threats :: "detected_threat list"
  sx_config :: security_config
  sx_events :: "security_event list"

definition security_new :: "security_config \<Rightarrow> security_contract" where
  "security_new cfg =
     \<lparr>sx_current_block = 0, sx_health_state = health_state_new 0, sx_threat_assessments = [], sx_capture_indicators = [], sx_stake_history = [],
      sx_vc_history = [], sx_audit_records = [], sx_review_cycles = [], sx_current_review_cycle = None, sx_active_threats = [], sx_config = cfg,
      sx_events = []\<rparr>"

definition security_set_block :: "block_number \<Rightarrow> security_contract \<Rightarrow> security_contract" where
  "security_set_block b C = C\<lparr>sx_current_block := b, sx_health_state := (sx_health_state C)\<lparr>hs_checked_at := b\<rparr>\<rparr>"

definition sx_emits :: "security_event list \<Rightarrow> security_contract \<Rightarrow> security_contract" where
  "sx_emits evs C = C\<lparr>sx_events := sx_events C @ evs\<rparr>"

definition verify_invariants :: "security_contract \<Rightarrow> invariant_check_result list \<times> security_contract" where
  "verify_invariants C =
     (let results = check_all_invariants (sx_health_state C)
      in (results, sx_emits (map (\<lambda>r. InvariantViolation (iv_invariant r) (sx_current_block C)) (filter (\<lambda>r. \<not> iv_holds r) results)) C))"

definition check_unacceptable_failures :: "security_contract \<Rightarrow> unacceptable_failure list \<times> security_contract" where
  "check_unacceptable_failures C =
     (let failures = failures_in (sx_health_state C)
      in (failures, sx_emits (map (\<lambda>f. UnacceptableFailureDetected f (sx_current_block C)) failures) C))"

definition update_health_state ::
  "bool \<Rightarrow> bool \<Rightarrow> bool \<Rightarrow> bool \<Rightarrow> bool \<Rightarrow> bool \<Rightarrow> bool \<Rightarrow> bool \<Rightarrow> bool \<Rightarrow> security_contract \<Rightarrow> security_contract" where
  "update_health_state exit_possible fork_without_slash decay contain_ok emergency_exceeded ossification_exit frozen identity_locked ideology C =
     C\<lparr>sx_health_state := (sx_health_state C)\<lparr>hs_exit_always_possible := exit_possible, hs_fork_without_slashing := fork_without_slash,
         hs_decay_active := decay, hs_failures_contained := contain_ok, hs_emergency_duration_exceeded := emergency_exceeded,
         hs_exit_possible_when_ossified := ossification_exit, hs_has_frozen_assets := frozen, hs_identity_exit_blocked := identity_locked,
         hs_ideological_enforcement := ideology\<rparr>\<rparr>"

definition run_health_check :: "security_contract \<Rightarrow> bool \<times> security_contract" where
  "run_health_check C =
     (if is_healthy (sx_health_state C) then (True, sx_emits [HealthCheckPassed (sx_current_block C)] C)
      else let (results, C1) = verify_invariants C;
               failed = map iv_invariant (filter (\<lambda>r. \<not> iv_holds r) results)
           in (False, sx_emits [HealthCheckFailed (sx_current_block C1) failed] C1))"

definition extend_history :: "nat \<Rightarrow> 'a \<Rightarrow> 'a list option \<Rightarrow> 'a list" where
  "extend_history limit x old = (let l = (case old of Some l \<Rightarrow> l | None \<Rightarrow> []) @ [x] in if limit < length l then tl l else l)"

definition record_stake_snapshot :: "account_id \<Rightarrow> balance \<Rightarrow> security_contract \<Rightarrow> security_contract" where
  "record_stake_snapshot a stake C =
     C\<lparr>sx_stake_history := hm_insert a (extend_history (sf_max_stake_history (sx_config C)) (sx_current_block C, stake)
         (hm_get (sx_stake_history C) a)) (sx_stake_history C)\<rparr>"

definition record_vc_snapshot :: "account_id \<Rightarrow> u64 \<Rightarrow> security_contract \<Rightarrow> security_contract" where
  "record_vc_snapshot a vc C =
     C\<lparr>sx_vc_history := hm_insert a (extend_history (sf_max_stake_history (sx_config C)) (sx_current_block C, vc)
         (hm_get (sx_vc_history C) a)) (sx_vc_history C)\<rparr>"

definition accumulation_rate :: "'a::len word \<Rightarrow> 'a word \<Rightarrow> 'a word \<Rightarrow> f64" where
  "accumulation_rate current old tot = (if 0 < tot then fdiv (f64_of_word (sat_sub current old)) (f64_of_word tot) else 0)"

definition calculate_capture_indicator ::
  "account_id \<Rightarrow> balance \<Rightarrow> u64 \<Rightarrow> balance \<Rightarrow> u64 \<Rightarrow> security_contract \<Rightarrow> slow_capture_indicator option \<times> security_contract" where
  "calculate_capture_indicator a current_stake current_vc total_stake total_vc C =
     (case (hm_get (sx_stake_history C) a, hm_get (sx_vc_history C) a) of
        (Some sh, Some vh) \<Rightarrow>
          if length sh < 2 \<or> length vh < 2 then (None, C)
          else let ind = \<lparr>ci_entity = a, ci_stake_accumulation_rate = accumulation_rate current_stake (snd (hd sh)) total_stake,
                          ci_vc_accumulation_rate = accumulation_rate current_vc (snd (hd vh)) total_vc, ci_reputation_accumulation_rate = 0,
                          ci_governance_influence_rate = 0, ci_monitoring_period = sf_capture_detection_window (sx_config C),
                          ci_alert_threshold = sf_capture_alert_threshold (sx_config C)\<rparr>;
                   C1 = (if is_alert ind then sx_emits [SlowCaptureAlert a (capture_risk_score ind) (sx_current_block C)] C else C)
               in (Some ind, C1\<lparr>sx_capture_indicators := hm_insert a ind (sx_capture_indicators C1)\<rparr>)
      | _ \<Rightarrow> (None, C))"

definition get_high_risk_entities :: "(account_id list \<Rightarrow> account_id list) \<Rightarrow> security_contract \<Rightarrow> (account_id \<times> f64) list" where
  "get_high_risk_entities visit C =
     List.map_filter (\<lambda>a. case hm_get (sx_capture_indicators C) a of
                           None \<Rightarrow> None
                         | Some ind \<Rightarrow> if is_alert ind then Some (a, capture_risk_score ind) else None)
       (visit (hm_keys (sx_capture_indicators C)))"

definition report_threat :: "threat_type \<Rightarrow> threat_severity \<Rightarrow> string \<Rightarrow> account_id list \<Rightarrow> security_contract \<Rightarrow> security_contract" where
  "report_threat ty sev evidence affected C =
     sx_emits [ThreatDetected ty sev (sx_current_block C)]
       (C\<lparr>sx_active_threats := sx_active_threats C @ [\<lparr>th_threat_type = ty, th_severity = sev, th_evidence = evidence,
            th_detected_at = sx_current_block C, th_affected_entities = affected\<rparr>]\<rparr>)"

definition resolve_threat :: "threat_type \<Rightarrow> security_contract \<Rightarrow> bool \<times> security_contract" where
  "resolve_threat ty C =
     (let rest = filter (\<lambda>t. th_threat_type t \<noteq> ty) (sx_active_threats C)
      in (length rest < length (sx_active_threats C), C\<lparr>sx_active_threats := rest\<rparr>))"

definition max_severity :: "detected_threat list \<Rightarrow> nat" where
  "max_severity ts = foldr (\<lambda>t. max (severity_rank (th_severity t))) ts 0"

definition calculate_threat_level :: "security_contract \<Rightarrow> threat_level" where
  "calculate_threat_level C =
     (if failures_in (sx_health_state C) \<noteq> [] then LV_Existential
      else if sx_active_threats C = [] then LV_Normal
      else let sev = max_severity (sx_active_threats C); n = length (sx_active_threats C)
           in if sev = 3 \<or> 5 < n then LV_Critical else if sev = 2 \<or> 3 < n then LV_High
              else if sev = 1 \<or> 1 < n then LV_Elevated else LV_Normal)"

definition generate_recommendations :: "(account_id list \<Rightarrow> account_id list) \<Rightarrow> security_contract \<Rightarrow> recommendation list" where
  "generate_recommendations visit C =
     (let h = sx_health_state C
      in (if \<not> hs_exit_always_possible h then [Restore_exit] else []) @ (if \<not> hs_fork_without_slashing h then [Remove_fork_penalties] else [])
       @ (if \<not> hs_decay_active h then [Enable_decay] else []) @ (if hs_emergency_duration_exceeded h then [End_emergency] else [])
       @ map (\<lambda>t. Mitigate (th_threat_type t) (mitigations (th_threat_type t))) (sx_active_threats C)
       @ map Watch (map fst (get_high_risk_entities visit C)))"

definition create_threat_assessment ::
  "(account_id list \<Rightarrow> account_id list) \<Rightarrow> security_contract \<Rightarrow> threat_assessment \<times> security_contract" where
  "create_threat_assessment visit C =
     (let a = \<lparr>ta_assessed_at = sx_current_block C, ta_active_threats = sx_active_threats C,
               ta_capture_indicators = List.map_filter (hm_get (sx_capture_indicators C)) (visit (hm_keys (sx_capture_indicators C))),
               ta_threat_level = calculate_threat_level C, ta_recommendations = generate_recommendations visit C\<rparr>
      in (a, C\<lparr>sx_threat_assessments := extend_history (sf_max_threat_history (sx_config C)) a (Some (sx_threat_assessments C))\<rparr>))"

definition record_audit :: "audit_type \<Rightarrow> string \<Rightarrow> bool \<Rightarrow> string \<Rightarrow> hash \<Rightarrow> security_contract \<Rightarrow> security_contract" where
  "record_audit ty auditor passed fnd h C =
     sx_emits [AuditRecorded ty passed (sx_current_block C)]
       (C\<lparr>sx_audit_records := sx_audit_records C @ [\<lparr>au_audit_type = ty, au_auditor = auditor, au_performed_at = sx_current_block C,
            au_passed = passed, au_findings = fnd, au_report_hash = h\<rparr>]\<rparr>)"

definition get_audits_by_type :: "audit_type \<Rightarrow> security_contract \<Rightarrow> audit_record list" where
  "get_audits_by_type ty C = filter (\<lambda>a. au_audit_type a = ty) (sx_audit_records C)"

definition all_audits_complete :: "security_contract \<Rightarrow> bool" where
  "all_audits_complete C = list_all (\<lambda>ty. let audits = get_audits_by_type ty C in audits \<noteq> [] \<and> list_ex au_passed audits) audit_types"

definition start_review_cycle :: "security_contract \<Rightarrow> security_contract" where
  "start_review_cycle C =
     (let n = of_nat (length (sx_review_cycles C)) + 1
      in (sx_emits [ReviewCycleStarted n (sx_current_block C)] C)\<lparr>sx_current_review_cycle := Some (review_cycle_new n (sx_current_block C))\<rparr>)"

definition check_cycle_completion :: "security_contract \<Rightarrow> security_contract" where
  "check_cycle_completion C =
     (case sx_current_review_cycle C of
        None \<Rightarrow> C
      | Some c \<Rightarrow>
          if cycle_is_complete c
          then (sx_emits [ReviewCycleCompleted (rv_cycle c) (sx_current_block C)] C)
                 \<lparr>sx_review_cycles := sx_review_cycles C @ [c], sx_current_review_cycle := None\<rparr>
          else C)"

definition mark_review :: "(review_cycle \<Rightarrow> review_cycle) \<Rightarrow> security_contract \<Rightarrow> security_contract" where
  "mark_review g C =
     (case sx_current_review_cycle C of
        None \<Rightarrow> C
      | Some c \<Rightarrow> check_cycle_completion (C\<lparr>sx_current_review_cycle := Some (g c)\<rparr>))"

definition complete_axiom_review :: "security_contract \<Rightarrow> security_contract" where
  "complete_axiom_review = mark_review (\<lambda>c. c\<lparr>rv_axiom_review_complete := True\<rparr>)"

definition complete_fork_consideration :: "security_contract \<Rightarrow> security_contract" where
  "complete_fork_consideration = mark_review (\<lambda>c. c\<lparr>rv_fork_consideration_complete := True\<rparr>)"

definition complete_ossification_review :: "security_contract \<Rightarrow> security_contract" where
  "complete_ossification_review = mark_review (\<lambda>c. c\<lparr>rv_ossification_review_complete := True\<rparr>)"

definition is_review_due :: "security_contract \<Rightarrow> bool" where
  "is_review_due C =
     (if sx_review_cycles C = [] then REVIEW_PERIOD_BLOCKS < sx_current_block C
      else cycle_is_due (sx_current_block C) (last (sx_review_cycles C)))"

definition verify_countermeasures :: "security_contract \<Rightarrow> (slow_capture_countermeasure \<times> bool) list" where
  "verify_countermeasures C =
     (let h = sx_health_state C
      in [(TimeWeightedPower, True), (CM_VcDecay, hs_decay_active h), (CM_ReputationDecay, hs_decay_active h),
          (CM_ForkNeutrality, hs_fork_without_slashing h), (SidechainAutonomy, hs_failures_contained h)])"

definition get_inactive_countermeasures :: "security_contract \<Rightarrow> slow_capture_countermeasure set" where
  "get_inactive_countermeasures C = {cm. (cm, False) \<in> set (verify_countermeasures C)}"

fun works_without :: "non_assumption \<Rightarrow> protocol_health_state \<Rightarrow> bool" where
  "works_without HonestMajority h = (hs_exit_always_possible h \<and> hs_fork_without_slashing h)"
| "works_without BenevolentGovernance h = hs_exit_always_possible h"
| "works_without AlignedIncentives h = hs_decay_active h"
| "works_without StableIdeology h = hs_fork_without_slashing h"
| "works_without PermanentParticipation h = hs_exit_always_possible h"

definition verify_non_assumptions :: "security_contract \<Rightarrow> (non_assumption \<times> bool) list" where
  "verify_non_assumptions C = map (\<lambda>a. (a, works_without a (sx_health_state C))) non_assumptions"

definition sx_drain_events :: "security_contract \<Rightarrow> security_event list \<times> security_contract" where
  "sx_drain_events C = (sx_events C, C\<lparr>sx_events := []\<rparr>)"

section \<open>Runs\<close>

inductive sx_run :: "(account_id list \<Rightarrow> account_id list) \<Rightarrow> security_contract \<Rightarrow> bool" for visit where
  start: "sx_run visit (security_new default_security_config)"
| set_block: "sx_run visit C \<Longrightarrow> sx_run visit (security_set_block b C)"
| verify: "sx_run visit C \<Longrightarrow> sx_run visit (snd (verify_invariants C))"
| failures: "sx_run visit C \<Longrightarrow> sx_run visit (snd (check_unacceptable_failures C))"
| update: "sx_run visit C \<Longrightarrow> sx_run visit (update_health_state f1 f2 f3 f4 f5 f6 f7 f8 f9 C)"
| health: "sx_run visit C \<Longrightarrow> sx_run visit (snd (run_health_check C))"
| stake: "sx_run visit C \<Longrightarrow> sx_run visit (record_stake_snapshot a x C)"
| vc: "sx_run visit C \<Longrightarrow> sx_run visit (record_vc_snapshot a v C)"
| capture: "sx_run visit C \<Longrightarrow> sx_run visit (snd (calculate_capture_indicator a x v ts tv C))"
| report: "sx_run visit C \<Longrightarrow> sx_run visit (report_threat ty sev ev as C)"
| resolve: "sx_run visit C \<Longrightarrow> sx_run visit (snd (resolve_threat ty C))"
| assess: "sx_run visit C \<Longrightarrow> sx_run visit (snd (create_threat_assessment visit C))"
| audit: "sx_run visit C \<Longrightarrow> sx_run visit (record_audit au who ok fnd h C)"
| review: "sx_run visit C \<Longrightarrow> length (sx_review_cycles C) < 2 ^ 32 - 1 \<Longrightarrow> sx_run visit (start_review_cycle C)"
| axiom: "sx_run visit C \<Longrightarrow> sx_run visit (complete_axiom_review C)"
| fork: "sx_run visit C \<Longrightarrow> sx_run visit (complete_fork_consideration C)"
| ossification: "sx_run visit C \<Longrightarrow> sx_run visit (complete_ossification_review C)"
| drain: "sx_run visit C \<Longrightarrow> sx_run visit (snd (sx_drain_events C))"


section \<open>Invariants of the records\<close>

text \<open>The completed cycles are numbered from one and complete; a cycle in progress bears the next number and
  is not complete; the bounded histories keep to their limits.\<close>

fun cycles_numbered :: "review_cycle list \<Rightarrow> u32 \<Rightarrow> bool" where
  "cycles_numbered [] n = True"
| "cycles_numbered (c # cs) n = (rv_cycle c = n \<and> cycle_is_complete c \<and> cycles_numbered cs (n + 1))"

definition current_cycle_ok :: "security_contract \<Rightarrow> bool" where
  "current_cycle_ok C =
     (case sx_current_review_cycle C of
        None \<Rightarrow> True
      | Some c \<Rightarrow> rv_cycle c = of_nat (length (sx_review_cycles C)) + 1 \<and> \<not> cycle_is_complete c)"

definition histories_bounded :: "security_contract \<Rightarrow> bool" where
  "histories_bounded C =
     (list_all (\<lambda>(_, l). length l \<le> 365) (sx_stake_history C) \<and> list_all (\<lambda>(_, l). length l \<le> 365) (sx_vc_history C)
      \<and> length (sx_threat_assessments C) \<le> 100)"

definition security_inv :: "security_contract \<Rightarrow> bool" where
  "security_inv C =
     (cycles_numbered (sx_review_cycles C) 1 \<and> current_cycle_ok C \<and> histories_bounded C \<and> sx_config C = default_security_config)"

lemma cycles_numbered_append:
  "cycles_numbered (cs @ [c]) n \<longleftrightarrow> cycles_numbered cs n \<and> rv_cycle c = n + of_nat (length cs) \<and> cycle_is_complete c"
  by (induction cs arbitrary: n) (auto simp: algebra_simps)

lemma extend_history_length:
  assumes "0 < limit" and "\<And>l. old = Some l \<Longrightarrow> length l \<le> limit"
  shows "length (extend_history limit x old) \<le> limit"
  using assms by (cases old) (auto simp: extend_history_def Let_def)

lemma hm_insert_bounded:
  assumes "list_all (\<lambda>(_, l). length l \<le> n) m" and "length l \<le> n"
  shows "list_all (\<lambda>(_, l). length l \<le> n) (hm_insert a l m)"
  using assms by (induction m) auto

lemma hm_get_bounded:
  assumes "list_all (\<lambda>(_, l). length l \<le> n) m" and "hm_get m a = Some l"
  shows "length l \<le> n"
  using assms map_of_SomeD[of m a l] by (auto simp: list_all_iff)

lemma security_inv_cong:
  assumes "security_inv C" and "sx_review_cycles D = sx_review_cycles C" and "sx_current_review_cycle D = sx_current_review_cycle C"
    and "sx_stake_history D = sx_stake_history C" and "sx_vc_history D = sx_vc_history C"
    and "sx_threat_assessments D = sx_threat_assessments C" and "sx_config D = sx_config C"
  shows "security_inv D"
  using assms by (simp add: security_inv_def current_cycle_ok_def histories_bounded_def split: option.splits)

lemma record_stake_snapshot_inv: "security_inv C \<Longrightarrow> security_inv (record_stake_snapshot a x C)"
  by (auto simp: security_inv_def record_stake_snapshot_def current_cycle_ok_def histories_bounded_def default_security_config_def
      intro!: hm_insert_bounded extend_history_length dest: hm_get_bounded split: option.splits)

lemma record_vc_snapshot_inv: "security_inv C \<Longrightarrow> security_inv (record_vc_snapshot a v C)"
  by (auto simp: security_inv_def record_vc_snapshot_def current_cycle_ok_def histories_bounded_def default_security_config_def
      intro!: hm_insert_bounded extend_history_length dest: hm_get_bounded split: option.splits)

lemma create_threat_assessment_inv: "security_inv C \<Longrightarrow> security_inv (snd (create_threat_assessment visit C))"
  by (auto simp: security_inv_def create_threat_assessment_def Let_def current_cycle_ok_def histories_bounded_def
      default_security_config_def intro!: extend_history_length split: option.splits)

lemma calculate_capture_indicator_inv:
  "security_inv C \<Longrightarrow> security_inv (snd (calculate_capture_indicator a x v ts tv C))"
  by (erule security_inv_cong)
     (auto simp: calculate_capture_indicator_def Let_def sx_emits_def split: option.splits)

lemma run_health_check_inv: "security_inv C \<Longrightarrow> security_inv (snd (run_health_check C))"
  by (erule security_inv_cong) (auto simp: run_health_check_def verify_invariants_def Let_def sx_emits_def)

lemma start_review_cycle_inv: "security_inv C \<Longrightarrow> security_inv (start_review_cycle C)"
  by (auto simp: security_inv_def start_review_cycle_def Let_def sx_emits_def current_cycle_ok_def histories_bounded_def
      review_cycle_new_def cycle_is_complete_def)

lemma mark_review_inv:
  assumes "security_inv C" and "\<And>c. rv_cycle (g c) = rv_cycle c"
  shows "security_inv (mark_review g C)"
proof (cases "sx_current_review_cycle C")
  case None
  with assms(1) show ?thesis by (simp add: mark_review_def)
next
  case (Some c)
  have "rv_cycle (g c) = of_nat (length (sx_review_cycles C)) + 1"
    using assms Some by (simp add: security_inv_def current_cycle_ok_def)
  then show ?thesis
    using assms(1) Some
    by (auto simp: mark_review_def check_cycle_completion_def sx_emits_def security_inv_def current_cycle_ok_def histories_bounded_def
        cycles_numbered_append)
qed

lemma security_plain_steps:
  assumes "security_inv C"
  shows "security_inv (security_set_block b C)" and "security_inv (snd (verify_invariants C))"
    and "security_inv (snd (check_unacceptable_failures C))"
    and "security_inv (update_health_state f1 f2 f3 f4 f5 f6 f7 f8 f9 C)"
    and "security_inv (report_threat ty sev ev affected C)" and "security_inv (snd (resolve_threat ty C))"
    and "security_inv (record_audit au who passed fnd h C)" and "security_inv (snd (sx_drain_events C))"
  by (rule security_inv_cong[OF assms];
      simp add: security_set_block_def verify_invariants_def check_unacceptable_failures_def update_health_state_def Let_def sx_emits_def
        report_threat_def resolve_threat_def record_audit_def sx_drain_events_def)+

text \<open>In every run of the security contract the completed review cycles are numbered from one without gaps
  and each has all three reviews, a cycle in progress bears the next number and lacks a review, and the histories
  kept for each account stay within 365 entries and the assessments within 100.\<close>

theorem security_records_kept: "sx_run visit C \<Longrightarrow> security_inv C"
proof (induction rule: sx_run.induct)
  case start
  show ?case by (simp add: security_inv_def security_new_def current_cycle_ok_def histories_bounded_def)
qed (simp_all add: security_plain_steps record_stake_snapshot_inv record_vc_snapshot_inv create_threat_assessment_inv
      calculate_capture_indicator_inv run_health_check_inv start_review_cycle_inv mark_review_inv
      complete_axiom_review_def complete_fork_consideration_def complete_ossification_review_def)

theorem security_records_kept_witness:
  "security_inv (complete_ossification_review (complete_fork_consideration (complete_axiom_review
     (start_review_cycle (security_new default_security_config)))))"
  by (rule security_records_kept[of "\<lambda>l. l"])
     (intro sx_run.ossification sx_run.fork sx_run.axiom sx_run.review sx_run.start, simp add: security_new_def)

section \<open>What the health check reports\<close>

text \<open>A health check answers yes exactly when all six invariants hold and none of the four failures is
  present; it then records that it passed, otherwise one violation for each invariant that fails and the list of
  them, in the order of the invariants, and it changes nothing else.\<close>

theorem health_check_exact:
  "run_health_check C =
     (let h = sx_health_state C; b = sx_current_block C; bad = filter (\<lambda>i. \<not> invariant_holds i h) protocol_invariants;
          good = ((\<forall>i. invariant_holds i h) \<and> (\<forall>f. \<not> failure_check f h))
      in (good, C\<lparr>sx_events := sx_events C @
                   (if good then [HealthCheckPassed b] else map (\<lambda>i. InvariantViolation i b) bad @ [HealthCheckFailed b bad])\<rparr>))"
proof -
  have inv: "i \<in> set protocol_invariants" for i by (cases i) (simp_all add: protocol_invariants_def)
  have fail: "f \<in> set unacceptable_failures" for f by (cases f) (simp_all add: unacceptable_failures_def)
  have "is_healthy h = ((\<forall>i. invariant_holds i h) \<and> (\<forall>f. \<not> failure_check f h))" for h
    using inv fail by (auto simp: is_healthy_def check_all_invariants_def invariant_check_def failures_in_def list_all_iff filter_empty_conv)
  moreover have "filter (\<lambda>r. \<not> iv_holds r) (check_all_invariants h) = map (invariant_check h) (filter (\<lambda>i. \<not> invariant_holds i h) protocol_invariants)"
    for h by (simp add: check_all_invariants_def filter_map comp_def invariant_check_def)
  ultimately show ?thesis
    by (simp add: run_health_check_def verify_invariants_def sx_emits_def Let_def comp_def invariant_check_def)
qed

section \<open>Departures\<close>

text \<open>A check that fails through frozen assets alone reports an empty list of failed invariants and names no failure.\<close>

lemma frozen_assets_unreported:
  "run_health_check (update_health_state True True True True False True True False False (security_new default_security_config))
     = (False, (update_health_state True True True True False True True False False (security_new default_security_config))
                 \<lparr>sx_events := [HealthCheckFailed 0 []]\<rparr>)"
  by (simp add: run_health_check_def verify_invariants_def update_health_state_def security_new_def is_healthy_def
      check_all_invariants_def protocol_invariants_def invariant_check_def failures_in_def unacceptable_failures_def sx_emits_def)

text \<open>A failed audit after a passed one of the same type leaves that type complete.\<close>

lemma failed_audit_ignored:
  "all_audits_complete C \<Longrightarrow> all_audits_complete (record_audit ty auditor False fnd h C)"
  by (auto simp: all_audits_complete_def record_audit_def sx_emits_def get_audits_by_type_def Let_def list_all_iff list_ex_iff)

end
