(* ===== verification/Kratos_Contributors.thy ===== *)
theory Kratos_Contributors
  imports Kratos_Roles
begin

text \<open>
  Applications for contributor roles and claims for payments of the treasury programs, the rest of
  \<^verbatim>\<open>types/contributor.rs\<close> beside the registries of \<open>Kratos_Roles\<close>.  Display names and the events, which no
  operation emits, are left out.
\<close>

section \<open>Kinds of roles\<close>

definition is_consensus_role :: "network_role \<Rightarrow> bool" where
  "is_consensus_role r = (r = RoleValidator \<or> r = RoleJuror)"

fun as_contributor :: "network_role \<Rightarrow> contributor_role option" where
  "as_contributor (RoleContributor c) = Some c"
| "as_contributor _ = None"

definition is_contributor_role :: "network_role \<Rightarrow> bool" where
  "is_contributor_role r = (case r of RoleContributor _ \<Rightarrow> True | _ \<Rightarrow> False)"

datatype role_registration_method = StakingTransaction | AutomaticVCBased | GovernanceProposal

fun registration_method :: "network_role \<Rightarrow> role_registration_method" where
  "registration_method RoleValidator = StakingTransaction"
| "registration_method RoleJuror = AutomaticVCBased"
| "registration_method (RoleContributor _) = GovernanceProposal"

section \<open>Applications\<close>

definition ROLE_APPLICATION_STAKE :: balance where [const_defs]: "ROLE_APPLICATION_STAKE = 10000000000000"

datatype application_status = AS_Submitted | AS_Voting | AS_Approved | AS_Rejected | AS_RejectedSpam | AS_Withdrawn

record role_application =
  ap_application_id :: hash
  ap_applicant :: account_id
  ap_role :: contributor_role
  ap_scope :: "chain_id option"
  ap_justification_hash :: hash
  ap_stake :: balance
  ap_submitted_at :: block_number
  ap_proposal_id :: "hash option"
  ap_status :: application_status
  ap_alias :: "string option"

definition application_compute_id :: "crypto \<Rightarrow> account_id \<Rightarrow> contributor_role \<Rightarrow> block_number \<Rightarrow> hash" where
  "application_compute_id K applicant role block =
     blake3 K (account_bytes applicant @ [role_as_u8 role] @ le_bytes 8 block @ ascii ''APPLICATION'')"

definition application_new ::
  "crypto \<Rightarrow> account_id \<Rightarrow> contributor_role \<Rightarrow> chain_id option \<Rightarrow> hash \<Rightarrow> balance \<Rightarrow> block_number \<Rightarrow> string option
     \<Rightarrow> role_application option" where
  "application_new K applicant role scope justification stake current_block als =
     (if stake < ROLE_APPLICATION_STAKE then None
      else Some \<lparr>ap_application_id = application_compute_id K applicant role current_block, ap_applicant = applicant, ap_role = role,
             ap_scope = scope, ap_justification_hash = justification, ap_stake = stake, ap_submitted_at = current_block,
             ap_proposal_id = None, ap_status = AS_Submitted, ap_alias = als\<rparr>)"

definition application_set_proposal :: "hash \<Rightarrow> role_application \<Rightarrow> role_application" where
  "application_set_proposal p a = a\<lparr>ap_proposal_id := Some p, ap_status := AS_Voting\<rparr>"

definition application_approve :: "role_application \<Rightarrow> role_application" where
  "application_approve a = a\<lparr>ap_status := AS_Approved\<rparr>"

definition application_reject :: "role_application \<Rightarrow> role_application" where
  "application_reject a = a\<lparr>ap_status := AS_Rejected\<rparr>"

definition application_reject_spam :: "role_application \<Rightarrow> role_application" where
  "application_reject_spam a = a\<lparr>ap_status := AS_RejectedSpam\<rparr>"

definition application_withdraw :: "role_application \<Rightarrow> bool \<times> role_application" where
  "application_withdraw a = (if ap_status a \<noteq> AS_Submitted then (False, a) else (True, a\<lparr>ap_status := AS_Withdrawn\<rparr>))"

section \<open>Claims\<close>

datatype claim_status = CS_Submitted | CS_UnderReview | CS_Approved | CS_Paid | CS_Rejected | CS_Disputed

datatype bug_severity = BS_Low | BS_Medium | BS_High | BS_Critical

fun reward_percent :: "bug_severity \<Rightarrow> u8" where
  "reward_percent BS_Low = 5"
| "reward_percent BS_Medium = 20"
| "reward_percent BS_High = 50"
| "reward_percent BS_Critical = 100"

record contribution_claim =
  cc_claim_id :: hash
  cc_contributor :: account_id
  cc_registration_id :: hash
  cc_program :: treasury_program
  cc_amount :: balance
  cc_evidence_hash :: hash
  cc_submitted_at :: block_number
  cc_status :: claim_status
  cc_proposal_id :: "hash option"
  cc_severity :: "bug_severity option"

definition claim_compute_id :: "crypto \<Rightarrow> account_id \<Rightarrow> hash \<Rightarrow> block_number \<Rightarrow> hash" where
  "claim_compute_id K contributor evidence block = blake3 K (account_bytes contributor @ hash_bytes evidence @ le_bytes 8 block)"

definition claim_new ::
  "crypto \<Rightarrow> account_id \<Rightarrow> hash \<Rightarrow> treasury_program \<Rightarrow> balance \<Rightarrow> hash \<Rightarrow> block_number \<Rightarrow> bug_severity option
     \<Rightarrow> contribution_claim option" where
  "claim_new K contributor registration program amount evidence current_block severity =
     (if max_payment_per_contribution program < amount then None
      else Some \<lparr>cc_claim_id = claim_compute_id K contributor evidence current_block, cc_contributor = contributor,
             cc_registration_id = registration, cc_program = program, cc_amount = amount, cc_evidence_hash = evidence,
             cc_submitted_at = current_block, cc_status = CS_Submitted, cc_proposal_id = None, cc_severity = severity\<rparr>)"

definition claim_set_proposal :: "hash \<Rightarrow> contribution_claim \<Rightarrow> contribution_claim" where
  "claim_set_proposal p c = c\<lparr>cc_proposal_id := Some p, cc_status := CS_UnderReview\<rparr>"

definition claim_approve :: "contribution_claim \<Rightarrow> contribution_claim" where
  "claim_approve c = c\<lparr>cc_status := CS_Approved\<rparr>"

definition claim_mark_paid :: "contribution_claim \<Rightarrow> contribution_claim" where
  "claim_mark_paid c = c\<lparr>cc_status := CS_Paid\<rparr>"

definition claim_reject :: "contribution_claim \<Rightarrow> contribution_claim" where
  "claim_reject c = c\<lparr>cc_status := CS_Rejected\<rparr>"

definition claim_dispute :: "contribution_claim \<Rightarrow> contribution_claim" where
  "claim_dispute c = c\<lparr>cc_status := CS_Disputed\<rparr>"

section \<open>Histories\<close>

inductive application_run :: "crypto \<Rightarrow> role_application \<Rightarrow> bool" for K where
  apply_for: "application_new K a r s j st b al = Some x \<Longrightarrow> application_run K x"
| set_proposal: "application_run K x \<Longrightarrow> application_run K (application_set_proposal p x)"
| approve: "application_run K x \<Longrightarrow> application_run K (application_approve x)"
| reject: "application_run K x \<Longrightarrow> application_run K (application_reject x)"
| reject_spam: "application_run K x \<Longrightarrow> application_run K (application_reject_spam x)"
| withdraw: "application_run K x \<Longrightarrow> application_run K (snd (application_withdraw x))"

inductive claim_run :: "crypto \<Rightarrow> contribution_claim \<Rightarrow> bool" for K where
  claim: "claim_new K a r p n e b sev = Some c \<Longrightarrow> claim_run K c"
| set_proposal: "claim_run K c \<Longrightarrow> claim_run K (claim_set_proposal q c)"
| approve: "claim_run K c \<Longrightarrow> claim_run K (claim_approve c)"
| mark_paid: "claim_run K c \<Longrightarrow> claim_run K (claim_mark_paid c)"
| reject: "claim_run K c \<Longrightarrow> claim_run K (claim_reject c)"
| dispute: "claim_run K c \<Longrightarrow> claim_run K (claim_dispute c)"

text \<open>Every application that ever existed carries the stake that keeps spam away, its identifier is the
  hash of who asked for what and when, and one that is being voted on names its proposal.\<close>

theorem application_staked:
  "application_run K x \<Longrightarrow>
     ROLE_APPLICATION_STAKE \<le> ap_stake x \<and> ap_application_id x = application_compute_id K (ap_applicant x) (ap_role x) (ap_submitted_at x)
     \<and> (ap_status x = AS_Voting \<longrightarrow> ap_proposal_id x \<noteq> None)"
  by (induction rule: application_run.induct)
     (auto simp: application_new_def application_set_proposal_def application_approve_def application_reject_def
      application_reject_spam_def application_withdraw_def split: if_splits)

text \<open>No claim, whatever happens to it, asks for more than its program pays for one contribution.\<close>

theorem claim_within_program:
  "claim_run K c \<Longrightarrow>
     cc_amount c \<le> max_payment_per_contribution (cc_program c)
     \<and> cc_claim_id c = claim_compute_id K (cc_contributor c) (cc_evidence_hash c) (cc_submitted_at c)"
  by (induction rule: claim_run.induct)
     (auto simp: claim_new_def claim_set_proposal_def claim_approve_def claim_mark_paid_def claim_reject_def claim_dispute_def
      split: if_splits)

section \<open>Departures\<close>

text \<open>Withdrawal is the only step with a guard: a rejected claim can be marked as paid, and a paid one as paid again.\<close>

lemma rejected_claim_paid:
  "cc_status (claim_mark_paid (claim_reject c)) = CS_Paid" and "claim_mark_paid (claim_mark_paid c) = claim_mark_paid c"
  by (simp_all add: claim_mark_paid_def claim_reject_def)

text \<open>The severity of a bug does not bound its reward: a report of low severity may claim the whole maximum.\<close>

lemma severity_not_enforced:
  "claim_new K a r BugBounty (max_payment_per_contribution BugBounty) e b (Some BS_Low) \<noteq> None"
  by (simp add: claim_new_def)

end
