(* ===== verification/Kratos_Validation.thy ===== *)
theory Kratos_Validation
  imports Kratos_Producer Kratos_Merkle
begin

text \<open>
  The block check of \<^verbatim>\<open>consensus/validation.rs\<close>, with the assignment of slots and the Merkle root of the
  transactions (\<^verbatim>\<open>types/block.rs\<close>).  The clock is an argument; the tree builder and the elementary functions
  of \<open>f64\<close> are the parameters of the theories this one imports.
\<close>

section \<open>The check\<close>

record validation_config =
  vf_timestamp_tolerance :: u64
  vf_verify_signatures :: bool
  vf_verify_merkle_roots :: bool
  vf_verify_slot_assignment :: bool

definition default_validation_config :: validation_config where
  "default_validation_config =
     \<lparr>vf_timestamp_tolerance = 60, vf_verify_signatures = True, vf_verify_merkle_roots = True, vf_verify_slot_assignment = True\<rparr>"

datatype consensus_error =
    CV_InvalidBlockNumber block_number block_number
  | CV_InvalidParentHash hash hash
  | CV_InvalidSignature account_id block_number
  | CV_UnauthorizedAuthor account_id block_number
  | CV_WrongSlotAuthor block_number slot_number account_id account_id
  | CV_TimestampTooOld u64 u64
  | CV_TimestampTooFarInFuture u64 u64 u64
  | CV_InvalidEpoch epoch_number epoch_number
  | CV_InvalidSlot slot_number slot_number
  | CV_InvalidTransactionsRoot block_number
  | CV_InvalidTransactionSignature block_number nat
  | CV_TransactionMissingHash block_number nat
  | CV_InvalidGenesisBlock
  | CV_AlreadySignedThisSlot

definition transactions_root :: "crypto \<Rightarrow> merkle_lib \<Rightarrow> block_body \<Rightarrow> hash" where
  "transactions_root K M body =
     (if bb_transactions body = [] then ZERO
      else state_tree_root K M (map (\<lambda>tx. hash_bytes (signed_hash K tx)) (bb_transactions body)))"

definition verify_body_root :: "crypto \<Rightarrow> merkle_lib \<Rightarrow> block \<Rightarrow> bool" where
  "verify_body_root K M b = (bh_transactions_root (bk_header b) = transactions_root K M (bk_body b))"

definition validate_basic_structure :: "crypto \<Rightarrow> block \<Rightarrow> block \<Rightarrow> (consensus_error, unit) result" where
  "validate_basic_structure K b parent =
     (let h = bk_header b; ph = bk_header parent
      in if bh_number h \<noteq> bh_number ph + 1 then Err (CV_InvalidBlockNumber (bh_number ph + 1) (bh_number h))
         else if bh_parent_hash h \<noteq> block_hash K parent then Err (CV_InvalidParentHash (block_hash K parent) (bh_parent_hash h))
         else if bh_epoch h < bh_epoch ph then Err (CV_InvalidEpoch (bh_epoch ph) (bh_epoch h))
         else if bh_epoch h = bh_epoch ph \<and> bh_slot h \<le> bh_slot ph then Err (CV_InvalidSlot (bh_slot ph) (bh_slot h))
         else Ok ())"

definition validate_signature :: "crypto \<Rightarrow> block \<Rightarrow> (consensus_error, unit) result" where
  "validate_signature K b =
     (if \<not> header_verify_signature K (bk_header b) then Err (CV_InvalidSignature (bh_author (bk_header b)) (bh_number (bk_header b)))
      else Ok ())"

definition slot_candidates :: "validator_set \<Rightarrow> (account_id \<times> balance \<times> u64) list" where
  "slot_candidates V = map (\<lambda>v. (vi_id v, vi_stake v, vi_blocks_produced v)) (active_validators V)"

definition validate_slot_assignment :: "libm \<Rightarrow> crypto \<Rightarrow> block \<Rightarrow> validator_set \<Rightarrow> (consensus_error, unit) result" where
  "validate_slot_assignment L K b V =
     (let h = bk_header b
      in if slot_candidates V = [] then Ok ()
         else case select_slot_leader L K (bh_slot h) (bh_epoch h) (slot_candidates V) of
                Inl _ \<Rightarrow> Ok ()
              | Inr selected \<Rightarrow>
                  if selected \<noteq> bh_author h then Err (CV_WrongSlotAuthor (bh_number h) (bh_slot h) selected (bh_author h)) else Ok ())"

definition validate_author_authorization ::
  "validation_config \<Rightarrow> libm \<Rightarrow> crypto \<Rightarrow> block \<Rightarrow> validator_set \<Rightarrow> (consensus_error, unit) result" where
  "validate_author_authorization cfg L K b V =
     (let h = bk_header b
      in if \<not> is_active V (bh_author h) then Err (CV_UnauthorizedAuthor (bh_author h) (bh_number h))
         else if vf_verify_slot_assignment cfg then validate_slot_assignment L K b V else Ok ())"

definition consensus_validate_timestamp :: "validation_config \<Rightarrow> u64 \<Rightarrow> block \<Rightarrow> block \<Rightarrow> (consensus_error, unit) result" where
  "consensus_validate_timestamp cfg now b parent =
     (let ts = bh_timestamp (bk_header b); pts = bh_timestamp (bk_header parent)
      in if ts \<le> pts then Err (CV_TimestampTooOld pts ts)
         else if now + vf_timestamp_tolerance cfg < ts then Err (CV_TimestampTooFarInFuture ts now (vf_timestamp_tolerance cfg))
         else Ok ())"

definition validate_merkle_roots :: "crypto \<Rightarrow> merkle_lib \<Rightarrow> block \<Rightarrow> (consensus_error, unit) result" where
  "validate_merkle_roots K M b =
     (if \<not> verify_body_root K M b then Err (CV_InvalidTransactionsRoot (bh_number (bk_header b))) else Ok ())"

fun validate_transactions :: "crypto \<Rightarrow> block_number \<Rightarrow> nat \<Rightarrow> signed_transaction list \<Rightarrow> (consensus_error, unit) result" where
  "validate_transactions K n i [] = Ok ()"
| "validate_transactions K n i (tx # txs) =
     (if \<not> signed_verify K tx then Err (CV_InvalidTransactionSignature n i)
      else if stx_hash tx = None then Err (CV_TransactionMissingHash n i)
      else validate_transactions K n (Suc i) txs)"

definition check_both :: "('e, unit) result \<Rightarrow> ('e, unit) result \<Rightarrow> ('e, unit) result" where
  "check_both r r' = (case r of Inl e \<Rightarrow> Err e | Inr _ \<Rightarrow> r')"

definition consensus_validate_block ::
  "validation_config \<Rightarrow> libm \<Rightarrow> crypto \<Rightarrow> merkle_lib \<Rightarrow> u64 \<Rightarrow> block \<Rightarrow> block \<Rightarrow> validator_set \<Rightarrow> (consensus_error, unit) result" where
  "consensus_validate_block cfg L K M now b parent V =
     check_both (validate_basic_structure K b parent)
    (check_both (if vf_verify_signatures cfg then validate_signature K b else Ok ())
    (check_both (validate_author_authorization cfg L K b V)
    (check_both (consensus_validate_timestamp cfg now b parent)
    (check_both (if vf_verify_merkle_roots cfg then validate_merkle_roots K M b else Ok ())
       (validate_transactions K (bh_number (bk_header b)) 0 (bb_transactions (bk_body b)))))))"

definition validate_genesis :: "block \<Rightarrow> (consensus_error, unit) result" where
  "validate_genesis b =
     (if bh_number (bk_header b) \<noteq> 0 then Err CV_InvalidGenesisBlock
      else if bh_parent_hash (bk_header b) \<noteq> ZERO then Err CV_InvalidGenesisBlock else Ok ())"

section \<open>What acceptance means\<close>

lemma check_both_Ok: "check_both r r' = Ok () \<longleftrightarrow> r = Ok () \<and> r' = Ok ()"
  by (cases r) (auto simp: check_both_def)

lemma validate_transactions_Ok:
  "validate_transactions K n i txs = Ok () \<longleftrightarrow> (\<forall>tx \<in> set txs. signed_verify K tx \<and> stx_hash tx \<noteq> None)"
  by (induction K n i txs rule: validate_transactions.induct) auto

lemma candidates_nonempty: "is_active V a \<Longrightarrow> slot_candidates V \<noteq> []"
  by (fastforce simp: is_active_def slot_candidates_def active_validators_def filter_empty_conv split: option.splits dest!: map_of_SomeD)

lemma select_slot_leader_total: "cs \<noteq> [] \<Longrightarrow> \<exists>a. select_slot_leader L K sl e cs = Ok a"
  by (auto simp: select_slot_leader_def Let_def split: list.splits dest: arg_cong[where f = length])

definition block_precedes :: "block \<Rightarrow> block \<Rightarrow> bool" where
  "block_precedes x y =
     (let h = bk_header x; h' = bk_header y
      in (bh_epoch h < bh_epoch h' \<or> bh_epoch h = bh_epoch h' \<and> bh_slot h < bh_slot h') \<and> bh_timestamp h < bh_timestamp h')"

text \<open>With the default configuration a block is accepted exactly when it follows its parent, carries its
  author's signature, is written by the active validator the slot is assigned to, is younger than the parent
  and not too far ahead of the clock, and its transactions are the ones of its root, signed and with their hash.
  The two cases in which the assignment of the slot is not looked at do not arise for an active author.\<close>

theorem consensus_validate_exact:
  "consensus_validate_block default_validation_config L K M now b parent V = Ok () \<longleftrightarrow>
     bh_number (bk_header b) = bh_number (bk_header parent) + 1 \<and> bh_parent_hash (bk_header b) = block_hash K parent
     \<and> block_precedes parent b \<and> header_verify_signature K (bk_header b) \<and> is_active V (bh_author (bk_header b))
     \<and> select_slot_leader L K (bh_slot (bk_header b)) (bh_epoch (bk_header b)) (slot_candidates V) = Ok (bh_author (bk_header b))
     \<and> bh_timestamp (bk_header b) \<le> now + 60 \<and> verify_body_root K M b
     \<and> (\<forall>tx \<in> set (bb_transactions (bk_body b)). signed_verify K tx \<and> stx_hash tx \<noteq> None)"
proof -
  let ?h = "bk_header b"
  have author: "validate_author_authorization default_validation_config L K b V = Ok () \<longleftrightarrow>
      is_active V (bh_author ?h) \<and> select_slot_leader L K (bh_slot ?h) (bh_epoch ?h) (slot_candidates V) = Ok (bh_author ?h)"
    using candidates_nonempty[of V "bh_author ?h"] select_slot_leader_total[of "slot_candidates V" L K "bh_slot ?h" "bh_epoch ?h"]
    by (auto simp: validate_author_authorization_def validate_slot_assignment_def default_validation_config_def Let_def split: sum.splits)
  have basic: "validate_basic_structure K b parent = Ok () \<and> consensus_validate_timestamp default_validation_config now b parent = Ok () \<longleftrightarrow>
      bh_number ?h = bh_number (bk_header parent) + 1 \<and> bh_parent_hash ?h = block_hash K parent
      \<and> block_precedes parent b \<and> bh_timestamp ?h \<le> now + 60"
    unfolding validate_basic_structure_def consensus_validate_timestamp_def block_precedes_def default_validation_config_def Let_def
    by (simp add: not_less not_le) (metis less_le not_le order.order_iff_strict)
  have sig: "validate_signature K b = Ok () \<longleftrightarrow> header_verify_signature K ?h"
    by (simp add: validate_signature_def)
  have mroot: "validate_merkle_roots K M b = Ok () \<longleftrightarrow> verify_body_root K M b"
    by (simp add: validate_merkle_roots_def)
  have on: "vf_verify_signatures default_validation_config" "vf_verify_merkle_roots default_validation_config"
    by (simp_all add: default_validation_config_def)
  show ?thesis
    unfolding consensus_validate_block_def check_both_Ok author validate_transactions_Ok using basic sig mroot by (simp add: on) blast
qed

section \<open>Chains of accepted blocks\<close>

fun validated_chain ::
  "libm \<Rightarrow> crypto \<Rightarrow> merkle_lib \<Rightarrow> block \<Rightarrow> (u64 \<times> validator_set \<times> block) list \<Rightarrow> bool" where
  "validated_chain L K M parent [] = True"
| "validated_chain L K M parent ((now, V, b) # bs) =
     (consensus_validate_block default_validation_config L K M now b parent V = Ok () \<and> validated_chain L K M b bs)"

lemma block_precedes_trans: "block_precedes x y \<Longrightarrow> block_precedes y z \<Longrightarrow> block_precedes x z"
  by (auto simp: block_precedes_def Let_def)

lemma validated_step: "consensus_validate_block default_validation_config L K M now b parent V = Ok () \<Longrightarrow> block_precedes parent b"
  by (simp add: consensus_validate_exact)

text \<open>In a chain of blocks each of which was accepted as the successor of the one before, at any times and with
  any validator sets, every block is in a later slot and younger than all its predecessors: no slot
  is used twice.\<close>

theorem validated_chain_ordered:
  "validated_chain L K M parent bs \<Longrightarrow> sorted_wrt block_precedes (parent # map (snd \<circ> snd) bs)"
proof (induction bs arbitrary: parent)
  case (Cons x bs)
  obtain now V b where x: "x = (now, V, b)" by (cases x)
  have step: "block_precedes parent b"
    using Cons.prems validated_step[of L K M now b parent V] by (simp add: x)
  have sorted: "sorted_wrt block_precedes (b # map (snd \<circ> snd) bs)"
    using Cons.IH[of b] Cons.prems by (simp add: x comp_def)
  show ?case
    using step sorted block_precedes_trans[OF step] by (simp add: x comp_def)
qed simp

lemma genesis_accepted: "validate_genesis (block_genesis r as) = Ok ()"
  by (simp add: validate_genesis_def block_genesis_def)

end
