(* ===== verification/Kratos_Genesis.thy ===== *)
theory Kratos_Genesis
  imports Kratos_Ledger Kratos_Validation Kratos_Tokenomics
begin

text \<open>
  The genesis of a chain (\<^verbatim>\<open>genesis/spec.rs\<close>, \<^verbatim>\<open>genesis/config.rs\<close>): the specification, the node that builds
  the first block from it and the node that joins and only applies it.  The texts of errors are constructors; the
  order in which the map of balances is walked is the argument \<open>visit\<close>; loading and saving JSON files is left
  out, as is the section of the configuration that only the network library reads.
\<close>

section \<open>Specifications\<close>

record genesis_validator =
  gv_account :: account_id
  gv_stake :: balance
  gv_is_bootstrap_validator :: bool

record genesis_spec =
  gs_timestamp :: u64
  gs_balances :: "(account_id, balance) hmap"
  gs_validators :: "genesis_validator list"
  gs_tokenomics :: tokenomics_state

definition GENESIS_TIMESTAMP :: u64 where [const_defs]: "GENESIS_TIMESTAMP = 1735689600"

definition genesis_with_validator :: "account_id \<Rightarrow> genesis_spec" where
  "genesis_with_validator a =
     \<lparr>gs_timestamp = GENESIS_TIMESTAMP, gs_balances = [],
      gs_validators = [\<lparr>gv_account = a, gv_stake = 0, gv_is_bootstrap_validator = True\<rparr>], gs_tokenomics = tokenomics_genesis\<rparr>"

definition genesis_mainnet :: genesis_spec where
  "genesis_mainnet =
     \<lparr>gs_timestamp = GENESIS_TIMESTAMP, gs_balances = [],
      gs_validators = [\<lparr>gv_account = 0x9a0c703c572e8d170c32ad0db9c953d2565efc3ed585ed57da9637655abf78b8,
                        gv_stake = 0, gv_is_bootstrap_validator = True\<rparr>],
      gs_tokenomics = tokenomics_genesis\<rparr>"

definition genesis_validator_info :: "genesis_validator \<Rightarrow> validator_info" where
  "genesis_validator_info v =
     (if gv_is_bootstrap_validator v then validator_new_bootstrap (gv_account v) 0 else validator_new (gv_account v) (gv_stake v) 0)"

definition build_validator_set :: "genesis_spec \<Rightarrow> validator_set" where
  "build_validator_set G = foldl (\<lambda>V v. snd (add_validator (genesis_validator_info v) V)) validator_set_new (gs_validators G)"

section \<open>Writing the state\<close>

datatype genesis_error =
    GE_SetAccount state_error
  | GE_GetAccount state_error
  | GE_AccountNotFound account_id
  | GE_CannotReserve account_error
  | GE_BootstrapVc state_error
  | GE_AddValidator validator_error
  | GE_StoreStateRoot state_error
  | GE_DriftTracker state_error

type_synonym ('d, 'a) genesis_action = "('d state_backend, genesis_error, 'a) action"

fun set_balances :: "'d storage_env \<Rightarrow> (account_id \<times> balance) list \<Rightarrow> ('d, unit) genesis_action" where
  "set_balances E [] = ret ()"
| "set_balances E ((a, b) # bs) =
     andThen (map_err GE_SetAccount (set_account E a (account_new\<lparr>ai_free := b\<rparr>))) (\<lambda>_. set_balances E bs)"

definition enter_validator :: "genesis_validator \<Rightarrow> validator_set \<Rightarrow> ('d, validator_set) genesis_action" where
  "enter_validator v V =
     (case add_validator (genesis_validator_info v) V of
        (Inl e, _) \<Rightarrow> throw (GE_AddValidator e)
      | (Inr _, V') \<Rightarrow> ret V')"

definition init_validator :: "'d storage_env \<Rightarrow> genesis_validator \<Rightarrow> validator_set \<Rightarrow> ('d, validator_set) genesis_action" where
  "init_validator E v V =
     (if gv_is_bootstrap_validator v
      then andThen (map_err GE_GetAccount (get_account E (gv_account v))) (\<lambda>r.
           andThen (map_err GE_SetAccount (set_account E (gv_account v) (case r of Some i \<Rightarrow> i | None \<Rightarrow> account_new))) (\<lambda>_.
           andThen (map_err GE_BootstrapVc (initialize_bootstrap_vc E (gv_account v) 0 0)) (\<lambda>_. enter_validator v V)))
      else andThen (map_err GE_GetAccount (get_account E (gv_account v))) (\<lambda>r.
           case r of
             None \<Rightarrow> throw (GE_AccountNotFound (gv_account v))
           | Some i \<Rightarrow>
               (case reserve (gv_stake v) i of
                  (Inl e, _) \<Rightarrow> throw (GE_CannotReserve e)
                | (Inr _, i') \<Rightarrow>
                    andThen (map_err GE_SetAccount (set_account E (gv_account v) i')) (\<lambda>_. enter_validator v V))))"

fun init_validators :: "'d storage_env \<Rightarrow> genesis_validator list \<Rightarrow> validator_set \<Rightarrow> ('d, validator_set) genesis_action" where
  "init_validators E [] V = ret V"
| "init_validators E (v # vs) V = andThen (init_validator E v V) (init_validators E vs)"

definition apply_to_state ::
  "'d storage_env \<Rightarrow> ((account_id \<times> balance) list \<Rightarrow> (account_id \<times> balance) list) \<Rightarrow> genesis_spec \<Rightarrow> ('d, validator_set) genesis_action" where
  "apply_to_state E visit G =
     andThen (set_balances E (visit (gs_balances G))) (\<lambda>_. init_validators E (gs_validators G) validator_set_new)"

definition genesis_block :: "u64 \<Rightarrow> state_root \<Rightarrow> block" where
  "genesis_block ts r =
     \<lparr>bk_header = \<lparr>bh_number = 0, bh_parent_hash = ZERO, bh_transactions_root = ZERO, bh_state_root = sr_root r, bh_timestamp = ts,
                    bh_epoch = 0, bh_slot = 0, bh_author = 0, bh_signature = 0\<rparr>,
      bk_body = \<lparr>bb_transactions = []\<rparr>\<rparr>"

definition genesis_build ::
  "'d storage_env \<Rightarrow> ((account_id \<times> balance) list \<Rightarrow> (account_id \<times> balance) list) \<Rightarrow> genesis_spec \<Rightarrow> ('d, block \<times> validator_set) genesis_action" where
  "genesis_build E visit G =
     andThen (set_balances E (visit (gs_balances G))) (\<lambda>_.
     andThen (init_validators E (gs_validators G) validator_set_new) (\<lambda>V s.
       let r = compute_state_root E 0 0 s
       in andThen (map_err GE_StoreStateRoot (store_state_root E 0 r)) (\<lambda>_.
          andThen (map_err GE_DriftTracker (init_drift_tracker E (gs_timestamp G))) (\<lambda>_.
            ret (genesis_block (gs_timestamp G) r, V))) s))"

section \<open>Configuration\<close>

record consensus_config =
  kc_epoch_duration :: u64
  kc_slot_duration :: u64
  kc_min_validators :: nat
  kc_max_validators :: nat

record tokenomics_config =
  kt_initial_supply :: balance
  kt_initial_emission_rate :: u32
  kt_initial_burn_rate :: u32

record chain_config =
  kf_chain_name :: string
  kf_chain_id :: u32
  kf_consensus :: consensus_config
  kf_tokenomics :: tokenomics_config

definition chain_config_mainnet :: chain_config where
  "chain_config_mainnet =
     \<lparr>kf_chain_name = ''KratOs'', kf_chain_id = 0,
      kf_consensus = \<lparr>kc_epoch_duration = EPOCH_DURATION_BLOCKS, kc_slot_duration = SLOT_DURATION_SECS, kc_min_validators = 10,
                      kc_max_validators = 1000\<rparr>,
      kf_tokenomics = \<lparr>kt_initial_supply = INITIAL_SUPPLY, kt_initial_emission_rate = INITIAL_EMISSION_RATE_BPS,
                       kt_initial_burn_rate = INITIAL_BURN_RATE_BPS\<rparr>\<rparr>"

section \<open>The validators of a genesis\<close>

lemma map_err_okE:
  assumes "map_err g m s = (Ok a, s')"
  obtains "m s = (Ok a, s')"
  using assms by (auto simp: map_err_def split: prod.splits sum.splits)

lemma enter_validator_ok: "enter_validator v V s = (Ok V', s') \<Longrightarrow> s' = s \<and> V' = snd (add_validator (genesis_validator_info v) V)"
  by (auto simp: enter_validator_def throw_def ret_def split: prod.splits sum.splits)

lemma init_validator_set:
  "init_validator E v V s = (Ok V', s') \<Longrightarrow> V' = snd (add_validator (genesis_validator_info v) V)"
  by (auto simp: init_validator_def throw_def split: if_splits option.splits prod.splits sum.splits elim!: andThen_okE
      dest: enter_validator_ok)

lemma init_validators_set:
  "init_validators E vs V s = (Ok V', s') \<Longrightarrow> V' = foldl (\<lambda>V v. snd (add_validator (genesis_validator_info v) V)) V vs"
  by (induction vs arbitrary: V s) (auto simp: ret_def elim!: andThen_okE dest: init_validator_set)

section \<open>The money of a genesis\<close>

definition held :: "account_info option \<Rightarrow> nat" where
  "held r = (case r of Some i \<Rightarrow> unat (ai_free i) + unat (ai_reserved i) | None \<Rightarrow> 0)"

lemma reserve_held: "reserve x i = (Ok u, i') \<Longrightarrow> unat (ai_free i) + unat (ai_reserved i) < 2 ^ 128 \<Longrightarrow> held (Some i') = held (Some i)"
  by (auto simp: reserve_def held_def unat_sat_sub unat_sat_add word_less_nat_alt not_less split: if_splits)

lemma set_balances_ok:
  assumes "state_ok E content s" and "set_balances E bs s = (Ok u, s')"
  shows "state_ok E content s' \<and> accounts E content s' = accounts E content s ++ map_of (rev (map (\<lambda>(a, b). (a, account_new\<lparr>ai_free := b\<rparr>)) bs))"
  using assms
proof (induction bs arbitrary: s)
  case Nil
  then show ?case by (simp add: ret_def)
next
  case (Cons x bs)
  obtain a b where x: "x = (a, b)" by (cases x)
  obtain s1 where s1: "set_account E a (account_new\<lparr>ai_free := b\<rparr>) s = (Ok (), s1)" "set_balances E bs s1 = (Ok u, s')"
    using Cons.prems(2) by (auto simp: x elim!: andThen_okE map_err_okE)
  from set_account_ok[OF Cons.prems(1) s1(1)] Cons.IH[OF _ s1(2)] show ?case
    by (auto simp: x map_add_def fun_eq_iff split: option.splits)
qed

text \<open>What one validator of the specification does to the accounts.\<close>

definition genesis_step :: "(account_id \<rightharpoonup> account_info) \<Rightarrow> genesis_validator \<Rightarrow> (account_id \<rightharpoonup> account_info)" where
  "genesis_step m v =
     (if gv_is_bootstrap_validator v then m(gv_account v \<mapsto> (case m (gv_account v) of Some i \<Rightarrow> i | None \<Rightarrow> account_new))
      else case m (gv_account v) of
             None \<Rightarrow> m
           | Some i \<Rightarrow> if ai_free i < gv_stake v then m else m(gv_account v \<mapsto> snd (reserve (gv_stake v) i)))"

lemma bootstrap_vc_frame:
  assumes "state_ok E content s" and "initialize_bootstrap_vc E a n e s = (Ok u, s')"
  shows "state_ok E content s' \<and> accounts E content s' = accounts E content s"
  using plain_update_ok[OF assms(1) _ laws_codecs(6)[OF state_ok_laws[OF assms(1)]] inj_keys(1) account_key_neq(1)] assms(2)
  by (auto simp: initialize_bootstrap_vc_def set_vc_record_def)

lemma init_validator_accounts:
  assumes "state_ok E content s" and "init_validator E v V s = (Ok V', s')"
  shows "state_ok E content s' \<and> accounts E content s' = genesis_step (accounts E content s) v"
proof -
  obtain r s1 where g: "get_account E (gv_account v) s = (Ok r, s1)"
    using assms(2) by (auto simp: init_validator_def split: if_splits elim!: andThen_okE map_err_okE)
  from get_account_ok[OF assms(1) g] have s1: "state_ok E content s1" "accounts E content s1 = accounts E content s"
      "r = accounts E content s (gv_account v)" by auto
  show ?thesis
  proof (cases "gv_is_bootstrap_validator v")
    case True
    then obtain s2 s3 where "set_account E (gv_account v) (case r of Some i \<Rightarrow> i | None \<Rightarrow> account_new) s1 = (Ok (), s2)"
        and "initialize_bootstrap_vc E (gv_account v) 0 0 s2 = (Ok (), s3)" and "enter_validator v V s3 = (Ok V', s')"
      using assms(2) g by (auto simp: init_validator_def elim!: andThen_okE map_err_okE)
    with set_account_ok[OF s1(1)] bootstrap_vc_frame[of E content s2] enter_validator_ok[of v V s3] True s1 show ?thesis
      by (fastforce simp: genesis_step_def)
  next
    case False
    then obtain i i' s2 where "r = Some i" "reserve (gv_stake v) i = (Ok (), i')" "set_account E (gv_account v) i' s1 = (Ok (), s2)"
        "enter_validator v V s2 = (Ok V', s')"
      using assms(2) g
      by (auto simp: init_validator_def throw_def split: option.splits prod.splits sum.splits elim!: andThen_okE map_err_okE)
    with set_account_ok[OF s1(1)] enter_validator_ok[of v V s2] False s1 show ?thesis
      by (fastforce simp: genesis_step_def reserve_def split: if_splits)
  qed
qed

lemma init_validators_accounts:
  assumes "state_ok E content s" and "init_validators E vs V s = (Ok V', s')"
  shows "state_ok E content s' \<and> accounts E content s' = foldl genesis_step (accounts E content s) vs"
  using assms
proof (induction vs arbitrary: V s)
  case Nil
  then show ?case by (simp add: ret_def)
next
  case (Cons v vs)
  obtain V1 s1 where "init_validator E v V s = (Ok V1, s1)" "init_validators E vs V1 s1 = (Ok V', s')"
    using Cons.prems(2) by (auto elim!: andThen_okE)
  with init_validator_accounts[OF Cons.prems(1)] Cons.IH show ?case by fastforce
qed

lemma genesis_step_held:
  assumes "\<And>a. held (m a) < 2 ^ 128"
  shows "held (genesis_step m v a) = held (m a)"
  using assms[of "gv_account v"] reserve_held[of "gv_stake v"]
  by (auto simp: genesis_step_def held_def[of None] held_def[of "Some account_new"] account_new_def reserve_def split: option.splits)
     (auto simp: held_def unat_sat_sub unat_sat_add word_less_nat_alt not_less)

lemma genesis_steps_held:
  assumes "\<And>a. held (m a) < 2 ^ 128"
  shows "held (foldl genesis_step m vs a) = held (m a)"
  using assms by (induction vs arbitrary: m) (simp_all add: genesis_step_held)

section \<open>Both ways to a genesis\<close>

text \<open>The accounts of a specification before its validators are entered.\<close>

definition genesis_balances :: "genesis_spec \<Rightarrow> account_id \<rightharpoonup> account_info" where
  "genesis_balances G a = map_option (\<lambda>b. account_new\<lparr>ai_free := b\<rparr>) (hm_get (gs_balances G) a)"

definition genesis_accounts :: "genesis_spec \<Rightarrow> account_id \<rightharpoonup> account_info" where
  "genesis_accounts G = foldl genesis_step (genesis_balances G) (gs_validators G)"

lemma visited_balances:
  assumes "hm_inv (gs_balances G)" and "mset xs = mset (gs_balances G)"
  shows "map_of (rev (map (\<lambda>(a, b). (a, account_new\<lparr>ai_free := b\<rparr>)) xs)) = genesis_balances G"
proof -
  have d: "distinct (map fst xs)" and st: "set xs = set (gs_balances G)"
    using assms mset_eq_imp_distinct_iff[of "map fst xs" "map fst (gs_balances G)"] mset_eq_setD[OF assms(2)]
    by (simp_all add: hm_inv_def)
  have "map_of (rev xs) = map_of (gs_balances G)"
    using d st assms(1) by (simp add: map_of_inject_set hm_inv_def flip: rev_map)
  moreover have "map_of (rev (map (\<lambda>(a, b). (a, account_new\<lparr>ai_free := b\<rparr>)) xs)) a = map_option (\<lambda>b. account_new\<lparr>ai_free := b\<rparr>) (map_of (rev xs) a)" for a
    by (simp add: rev_map map_of_map)
  ultimately show ?thesis by (auto simp: genesis_balances_def fun_eq_iff)
qed

lemma genesis_writes:
  assumes "state_ok E content s" and "accounts E content s = Map.empty" and "hm_inv (gs_balances G)"
    and "mset (visit (gs_balances G)) = mset (gs_balances G)" and "apply_to_state E visit G s = (Ok V, s')"
  shows "state_ok E content s' \<and> accounts E content s' = genesis_accounts G \<and> V = build_validator_set G"
proof -
  obtain s1 where s1: "set_balances E (visit (gs_balances G)) s = (Ok (), s1)" "init_validators E (gs_validators G) validator_set_new s1 = (Ok V, s')"
    using assms(5) by (auto simp: apply_to_state_def elim!: andThen_okE)
  have "state_ok E content s1" "accounts E content s1 = genesis_balances G"
    using set_balances_ok[OF assms(1) s1(1)] visited_balances[OF assms(3,4)] assms(2) by simp_all
  with init_validators_accounts[OF _ s1(2)] init_validators_set[OF s1(2)] show ?thesis
    by (simp add: genesis_accounts_def build_validator_set_def)
qed

lemma root_and_drift_frame:
  assumes "state_ok E content s" and "store_state_root E n r s = (Ok u, s1)" and "init_drift_tracker E ts s1 = (Ok t, s')"
  shows "accounts E content s' = accounts E content s"
proof -
  note L = state_ok_laws[OF assms(1)]
  have keys: "account_key i \<noteq> state_root_key n" "account_key i \<noteq> KEY_DRIFT_TRACKER" for i
    using key_bytes_eq[of "KAccount i" "KStateRoot n"] key_bytes_eq[of "KAccount i" KDriftTracker] by auto
  have "set_drift_tracker E (drift_tracker_new ts) s1 = (Ok (), s')"
    using assms(3) by (auto simp: init_drift_tracker_def Let_def ret_def elim!: andThen_okE)
  from save_ok[OF L laws_codecs(4)[OF L] this[unfolded set_drift_tracker_def]]
    save_ok[OF L laws_codecs(5)[OF L] assms(2)[unfolded store_state_root_def]] keys
  show ?thesis by (auto simp: fun_eq_iff accounts_def stored_def)
qed

lemma genesis_build_apply:
  assumes "genesis_build E visit G s = (Ok (b, V), s')"
  obtains s1 s2 t where "apply_to_state E visit G s = (Ok V, s1)" and "b = genesis_block (gs_timestamp G) (compute_state_root E 0 0 s1)"
    and "store_state_root E 0 (compute_state_root E 0 0 s1) s1 = (Ok (), s2)" and "init_drift_tracker E (gs_timestamp G) s2 = (Ok t, s')"
  using assms unfolding genesis_build_def
  by (elim andThen_okE) (auto simp: apply_to_state_def Let_def ret_def andThen_def[of "set_balances E (visit (gs_balances G))"] elim!: andThen_okE map_err_okE)

text \<open>C19: the node that builds the genesis block and a node that joins later and only applies the specification
  end with the same accounts and the same validators, whatever order their maps of balances are walked in, and
  the joining node could have computed the validators without the state.  Every account then holds, free and reserved
  together, exactly its balance of the specification, and the block is accepted as a genesis block.\<close>

theorem genesis_nodes_agree:
  assumes "state_ok E content s" and "accounts E content s = Map.empty" and "state_ok F content' t" and "accounts F content' t = Map.empty"
    and "hm_inv (gs_balances G)"
    and "mset (visit (gs_balances G)) = mset (gs_balances G)" and "mset (visit' (gs_balances G)) = mset (gs_balances G)"
    and "genesis_build E visit G s = (Ok (b, V), s')" and "apply_to_state F visit' G t = (Ok V', t')"
  shows "accounts E content s' = accounts F content' t' \<and> V = V' \<and> V = build_validator_set G \<and> validate_genesis b = Ok ()
    \<and> (\<forall>a. held (accounts E content s' a) = (case hm_get (gs_balances G) a of Some x \<Rightarrow> unat x | None \<Rightarrow> 0))"
proof -
  obtain s1 s2 u where build: "apply_to_state E visit G s = (Ok V, s1)" "b = genesis_block (gs_timestamp G) (compute_state_root E 0 0 s1)"
      "store_state_root E 0 (compute_state_root E 0 0 s1) s1 = (Ok (), s2)" "init_drift_tracker E (gs_timestamp G) s2 = (Ok u, s')"
    using genesis_build_apply[OF assms(8)] by blast
  note one = genesis_writes[OF assms(1,2,5,6) build(1)] and two = genesis_writes[OF assms(3,4,5,7,9)]
  have acc: "accounts E content s' = genesis_accounts G"
    using root_and_drift_frame[OF _ build(3,4)] one by simp
  have bal: "held (genesis_balances G a) = (case hm_get (gs_balances G) a of Some x \<Rightarrow> unat x | None \<Rightarrow> 0)" for a
    by (simp add: genesis_balances_def held_def account_new_def split: option.split)
  have "held (genesis_balances G a) < 2 ^ 128" for a
    using unat_lt128 by (auto simp: bal split: option.split)
  then have "held (genesis_accounts G a) = held (genesis_balances G a)" for a
    unfolding genesis_accounts_def by (rule genesis_steps_held)
  then show ?thesis
    using acc one two bal by (simp add: build(2) validate_genesis_def genesis_block_def)
qed

text \<open>A database in memory that can store what a genesis writes.\<close>

definition once_codec :: "'a \<Rightarrow> 'a codec" where
  "once_codec x = \<lparr>serialize = \<lambda>y. if y = x then Ok [1] else Err ''unsupported'', deserialize = \<lambda>_. Ok x\<rparr>"

definition genesis_root_codec :: "state_root codec" where
  "genesis_root_codec =
     \<lparr>serialize = \<lambda>r. if r = state_root_new (sr_root r) 0 0 then Ok (hash_bytes (sr_root r)) else Err ''unsupported'',
      deserialize = \<lambda>bs. Ok (state_root_new (hash_of_bytes bs) 0 0)\<rparr>"

definition birth_env :: "(bytes \<rightharpoonup> bytes) storage_env" where
  "birth_env = mem_env\<lparr>bc_vc := once_codec ((vc_new 0 0)\<lparr>vc_uptime_credits := 100\<rparr>), bc_drift := once_codec (drift_tracker_new 5),
     bc_state_root := genesis_root_codec\<rparr>"

definition birth_spec :: genesis_spec where
  "birth_spec = \<lparr>gs_timestamp = 5, gs_balances = [(1, 100), (3, 7)],
     gs_validators = [\<lparr>gv_account = 2, gv_stake = 0, gv_is_bootstrap_validator = True\<rparr>], gs_tokenomics = tokenomics_genesis\<rparr>"

lemma birth_env_laws: "storage_laws birth_env (\<lambda>d. d)"
  using mem_env_laws by (auto simp: storage_laws_def birth_env_def codec_ok_def once_codec_def genesis_root_codec_def mem_env_def state_root_new_def)

lemma birth_env_simps [simp]:
  "rk_put birth_env k v d = (Ok (), d(k \<mapsto> v))" "rk_get birth_env k d = Ok (d k)" "bc_account birth_env = account_codec"
  "bc_vc birth_env = once_codec ((vc_new 0 0)\<lparr>vc_uptime_credits := 100\<rparr>)" "bc_drift birth_env = once_codec (drift_tracker_new 5)"
  "bc_state_root birth_env = genesis_root_codec"
  by (simp_all add: birth_env_def mem_env_def)

lemma birth_state: "state_ok birth_env (\<lambda>d. d) (backend_new (\<lambda>_. None))" "accounts birth_env (\<lambda>d. d) (backend_new (\<lambda>_. None)) = Map.empty"
  by (simp_all add: state_ok_def birth_env_laws backend_new_def accounts_def stored_def fun_eq_iff)

lemma computed_root_plain: "compute_state_root E 0 0 s = state_root_new (sr_root (compute_state_root E 0 0 s)) 0 0"
  by (simp add: compute_state_root_def Let_def state_root_new_def state_root_zero_def)

lemma save_birth: "serialize C x = Ok bs \<Longrightarrow> save birth_env C key x s = (Ok (), s\<lparr>sb_db := (sb_db s)(key \<mapsto> bs)\<rparr>)"
  by (simp add: save_def st_put_def database_put_def map_err_def)

definition info_bytes :: "account_info \<Rightarrow> bytes" where
  "info_bytes i = le_bytes 8 (ai_nonce i) @ le_bytes 16 (ai_free i) @ le_bytes 16 (ai_reserved i) @ hash_bytes (ai_last_modified i)"

lemma birth_set_account:
  "set_account birth_env a i s =
     (Ok (), s\<lparr>sb_db := (sb_db s)(account_key a \<mapsto> info_bytes i), sb_account_cache := hm_insert a i (sb_account_cache s)\<rparr>)"
  by (simp add: set_account_def andThen_def save_birth account_codec_def info_bytes_def)

lemma birth_get_account:
  "hm_get (sb_account_cache s) a = None \<Longrightarrow> sb_db s (account_key a) = None \<Longrightarrow> get_account birth_env a s = (Ok None, s)"
  by (simp add: get_account_def load_def andThen_def st_get_def database_get_def ret_def)

lemma birth_vc: "\<exists>s'. initialize_bootstrap_vc birth_env a 0 0 s = (Ok (), s')"
  by (simp add: initialize_bootstrap_vc_def set_vc_record_def save_birth once_codec_def)

lemma birth_enter: "\<exists>V. enter_validator \<lparr>gv_account = 2, gv_stake = 0, gv_is_bootstrap_validator = True\<rparr> validator_set_new s = (Ok V, s)"
  by (simp add: enter_validator_def genesis_validator_info_def add_validator_def validator_set_new_def validator_new_bootstrap_def
      register_validator_def registry_new_def ret_def Let_def can_participate_def is_validator_def)

lemma birth_validators:
  assumes "hm_get (sb_account_cache s) 2 = None" and "sb_db s (account_key 2) = None"
  shows "\<exists>V s'. init_validators birth_env (gs_validators birth_spec) validator_set_new s = (Ok V, s')"
proof -
  define t where "t = s\<lparr>sb_db := (sb_db s)(account_key 2 \<mapsto> info_bytes account_new), sb_account_cache := hm_insert 2 account_new (sb_account_cache s)\<rparr>"
  obtain s' where vc: "initialize_bootstrap_vc birth_env 2 0 0 t = (Ok (), s')" using birth_vc by blast
  obtain V where "enter_validator \<lparr>gv_account = 2, gv_stake = 0, gv_is_bootstrap_validator = True\<rparr> validator_set_new s' = (Ok V, s')"
    using birth_enter by blast
  then show ?thesis
    by (simp add: birth_spec_def init_validator_def andThen_def map_err_def birth_get_account[OF assms] birth_set_account ret_def vc flip: t_def)
qed

lemma birth_balances:
  assumes "bs = [(1, 100), (3, 7)] \<or> bs = [(3, 7), (1, 100)]"
  shows "\<exists>s. set_balances birth_env bs (backend_new (\<lambda>_. None)) = (Ok (), s) \<and> hm_get (sb_account_cache s) 2 = None \<and> sb_db s (account_key 2) = None"
  using assms by (auto simp: andThen_def map_err_def birth_set_account ret_def update_conv' backend_new_def)

lemma birth_applied:
  assumes "visit (gs_balances birth_spec) = [(1, 100), (3, 7)] \<or> visit (gs_balances birth_spec) = [(3, 7), (1, 100)]"
  shows "\<exists>s0 V s'. set_balances birth_env (visit (gs_balances birth_spec)) (backend_new (\<lambda>_. None)) = (Ok (), s0)
    \<and> init_validators birth_env (gs_validators birth_spec) validator_set_new s0 = (Ok V, s')"
  using birth_balances[OF assms] birth_validators by blast

lemma birth_built: "\<exists>b V s'. genesis_build birth_env (\<lambda>l. l) birth_spec (backend_new (\<lambda>_. None)) = (Ok (b, V), s')"
proof -
  obtain s0 V s1 where s0: "set_balances birth_env (gs_balances birth_spec) (backend_new (\<lambda>_. None)) = (Ok (), s0)"
      "init_validators birth_env (gs_validators birth_spec) validator_set_new s0 = (Ok V, s1)"
    using birth_applied[of "\<lambda>l. l"] by (auto simp: birth_spec_def)
  have "serialize genesis_root_codec (compute_state_root birth_env 0 0 s1) = Ok (hash_bytes (sr_root (compute_state_root birth_env 0 0 s1)))"
    using computed_root_plain[of birth_env s1] by (simp add: genesis_root_codec_def)
  moreover have "gs_timestamp birth_spec = 5" by (simp add: birth_spec_def)
  ultimately show ?thesis
    by (simp add: genesis_build_def andThen_def s0 Let_def map_err_def store_state_root_def save_birth init_drift_tracker_def
        set_drift_tracker_def once_codec_def ret_def)
qed

theorem genesis_nodes_agree_witness:
  "\<exists>b V s' V' t'. genesis_build birth_env (\<lambda>l. l) birth_spec (backend_new (\<lambda>_. None)) = (Ok (b, V), s')
     \<and> apply_to_state birth_env rev birth_spec (backend_new (\<lambda>_. None)) = (Ok V', t')
     \<and> accounts birth_env (\<lambda>d. d) s' = accounts birth_env (\<lambda>d. d) t' \<and> V = V' \<and> held (accounts birth_env (\<lambda>d. d) s' 1) = 100"
proof -
  obtain b V s' where build: "genesis_build birth_env (\<lambda>l. l) birth_spec (backend_new (\<lambda>_. None)) = (Ok (b, V), s')"
    using birth_built by blast
  obtain V' t' where join: "apply_to_state birth_env rev birth_spec (backend_new (\<lambda>_. None)) = (Ok V', t')"
    using birth_applied[of rev] by (auto simp: birth_spec_def apply_to_state_def andThen_def)
  have "hm_inv (gs_balances birth_spec)" "hm_get (gs_balances birth_spec) 1 = Some 100" by (simp_all add: birth_spec_def hm_inv_def)
  with genesis_nodes_agree[OF birth_state birth_state _ _ _ build join] build join show ?thesis by fastforce
qed

section \<open>Departures\<close>

text \<open>The genesis of the main network announces the initial supply but gives it to nobody.\<close>

lemma mainnet_supply_unallocated:
  "tk_total_supply (gs_tokenomics genesis_mainnet) = INITIAL_SUPPLY" and "sum_list (map (unat \<circ> snd) (gs_balances genesis_mainnet)) = 0"
  by (simp_all add: genesis_mainnet_def tokenomics_genesis_def)

end
