(* ===== verification/Kratos_Warp.thy ===== *)
theory Kratos_Warp
  imports Kratos_Merkle
begin

text \<open>
  State snapshots for nodes far behind (\<^verbatim>\<open>network/warp_sync.rs\<close>): a snapshot cuts the accounts into chunks, each
  with a Merkle proof over the hashes of all chunks; the manager collects chunks from peers, checks every proof and
  puts the snapshot together.  The clock and the size of an account entry in memory are arguments.  The path from a
  chunk to the root is computed as for the proofs of \<open>Kratos_Merkle\<close>.
\<close>

section \<open>Chunks\<close>

type_synonym account_entry = "account_id \<times> account_info"

record state_chunk =
  wc_index :: u32
  wc_accounts :: "account_entry list"
  wc_proof :: "hash list"
  wc_chunk_hash :: hash

definition account_entry_bytes :: "account_entry \<Rightarrow> bytes" where
  "account_entry_bytes e =
     (case e of (a, i) \<Rightarrow>
        account_bytes a @ le_bytes 8 (ai_nonce i) @ le_bytes 16 (ai_free i) @ le_bytes 16 (ai_reserved i) @ hash_bytes (ai_last_modified i))"

definition accounts_hash :: "crypto \<Rightarrow> account_entry list \<Rightarrow> hash" where
  "accounts_hash K es = blake3 K (concat (map account_entry_bytes es))"

definition chunk_compute_hash :: "crypto \<Rightarrow> state_chunk \<Rightarrow> hash" where
  "chunk_compute_hash K c = accounts_hash K (wc_accounts c)"

definition chunk_verify_hash :: "crypto \<Rightarrow> state_chunk \<Rightarrow> bool" where
  "chunk_verify_hash K c = (wc_chunk_hash c = chunk_compute_hash K c)"

text \<open>\<^verbatim>\<open>(total_chunks as f64).log2().ceil() as usize\<close>: for numbers below 2^32 the logarithm in double precision is
  exact on powers of two and further from the next integer than its error elsewhere, so its ceiling is the number of
  halvings, rounding up, that lead to one.\<close>

fun ceil_log2 :: "nat \<Rightarrow> nat" where
  "ceil_log2 n = (if n \<le> 1 then 0 else Suc (ceil_log2 ((n + 1) div 2)))"

declare ceil_log2.simps [simp del]

definition verify_merkle_proof :: "crypto \<Rightarrow> hash \<Rightarrow> u32 \<Rightarrow> state_chunk \<Rightarrow> bool" where
  "verify_merkle_proof K expected_root total_chunks c =
     (if \<not> chunk_verify_hash K c then False
      else if wc_proof c = [] then total_chunks = 1 \<and> wc_chunk_hash c = expected_root
      else if length (wc_proof c) \<noteq> ceil_log2 (unat total_chunks) then False
      else compute_root_from_proof K (unat (wc_index c)) (wc_proof c) (wc_chunk_hash c) = expected_root)"

section \<open>Snapshots\<close>

record snapshot_header =
  wh_block_number :: block_number
  wh_block_hash :: hash
  wh_state_root :: state_root
  wh_total_chunks :: u32
  wh_total_size :: u64
  wh_created_at :: u64

record state_snapshot =
  ws_header :: snapshot_header
  ws_chunks :: "state_chunk list"

fun next_level :: "crypto \<Rightarrow> hash list \<Rightarrow> hash list" where
  "next_level K [] = []"
| "next_level K [x] = [blake3 K (hash_bytes x @ hash_bytes x)]"
| "next_level K (x # y # zs) = blake3 K (hash_bytes x @ hash_bytes y) # next_level K zs"

lemma length_next_level [simp]: "length (next_level K l) = (length l + 1) div 2"
  by (induction K l rule: next_level.induct) auto

function root_loop :: "crypto \<Rightarrow> hash list \<Rightarrow> hash list" where
  "root_loop K l = (if length l \<le> 1 then l else root_loop K (next_level K l))"
  by auto
termination by (relation "measure (\<lambda>(K, l). length l)") auto

declare root_loop.simps [simp del]

definition compute_merkle_root :: "crypto \<Rightarrow> hash list \<Rightarrow> hash" where
  "compute_merkle_root K leaves =
     (if leaves = [] then ZERO else if length leaves = 1 then hd leaves else hd (root_loop K leaves))"

function proof_loop :: "crypto \<Rightarrow> hash list \<Rightarrow> nat \<Rightarrow> hash list" where
  "proof_loop K l i =
     (if length l \<le> 1 then []
      else let sibling = (if i mod 2 = 0 then i + 1 else i - 1)
           in (if sibling < length l then l ! sibling else l ! i) # proof_loop K (next_level K l) (i div 2))"
  by auto
termination by (relation "measure (\<lambda>(K, l, i). length l)") auto

declare proof_loop.simps [simp del]

definition generate_merkle_proof :: "crypto \<Rightarrow> hash list \<Rightarrow> nat \<Rightarrow> hash list" where
  "generate_merkle_proof K leaves leaf_index = (if length leaves \<le> 1 then [] else proof_loop K leaves leaf_index)"

function chunks_of :: "nat \<Rightarrow> 'a list \<Rightarrow> 'a list list" where
  "chunks_of n xs = (if n = 0 \<or> xs = [] then [] else take n xs # chunks_of n (drop n xs))"
  by auto
termination by (relation "measure (\<lambda>(n, xs). length xs)") auto

declare chunks_of.simps [simp del]

definition snapshot_chunk :: "crypto \<Rightarrow> hash list \<Rightarrow> nat \<times> account_entry list \<Rightarrow> state_chunk" where
  "snapshot_chunk K hashes p =
     (case p of (i, es) \<Rightarrow>
        \<lparr>wc_index = of_nat i, wc_accounts = es, wc_proof = generate_merkle_proof K hashes i, wc_chunk_hash = accounts_hash K es\<rparr>)"

definition snapshot_new ::
  "crypto \<Rightarrow> nat \<Rightarrow> u64 \<Rightarrow> block_number \<Rightarrow> hash \<Rightarrow> state_root \<Rightarrow> account_entry list \<Rightarrow> nat \<Rightarrow> state_snapshot" where
  "snapshot_new K entry_size now block_number hash_of_block sroot es chunk_size =
     (let parts = chunks_of chunk_size es; hashes = map (accounts_hash K) parts
      in \<lparr>ws_header = \<lparr>wh_block_number = block_number, wh_block_hash = hash_of_block,
            wh_state_root = state_root_new (compute_merkle_root K hashes) block_number (sr_chain_id sroot),
            wh_total_chunks = of_nat (length parts), wh_total_size = of_nat (length es * entry_size), wh_created_at = now\<rparr>,
          ws_chunks = map (snapshot_chunk K hashes) (List.enumerate 0 parts)\<rparr>)"

definition snapshot_verify :: "crypto \<Rightarrow> state_snapshot \<Rightarrow> bool" where
  "snapshot_verify K S =
     (if of_nat (length (ws_chunks S)) \<noteq> wh_total_chunks (ws_header S) then False
      else if \<not> list_all (\<lambda>(i, c). wc_index c = of_nat i) (List.enumerate 0 (ws_chunks S)) then False
      else list_all (verify_merkle_proof K (sr_root (wh_state_root (ws_header S))) (wh_total_chunks (ws_header S))) (ws_chunks S))"

definition snapshot_accounts :: "state_snapshot \<Rightarrow> account_entry list" where
  "snapshot_accounts S = concat (map wc_accounts (ws_chunks S))"

definition account_count :: "state_snapshot \<Rightarrow> nat" where
  "account_count S = sum_list (map (length \<circ> wc_accounts) (ws_chunks S))"

section \<open>The manager\<close>

datatype warp_error = WE_NoPeers | WE_InvalidStateRoot | WE_SnapshotTooOld | WE_Timeout | WE_InvalidChunk | WE_InvalidMerkleProof

datatype warp_state =
    W_Inactive
  | W_RequestingSnapshot
  | W_DownloadingState u32 u32
  | W_VerifyingState
  | W_DownloadingHeaders block_number block_number
  | W_Complete
  | W_Failed warp_error

record warp_manager =
  wm_state :: warp_state
  wm_local_height :: block_number
  wm_network_height :: block_number
  wm_warp_threshold :: u64
  wm_snapshot_header :: "snapshot_header option"
  wm_received_chunks :: "(u32, state_chunk) hmap"
  wm_max_snapshot_age :: u64

type_synonym 'a warp_action = "(warp_manager, warp_error, 'a) action"

definition warp_new :: "block_number \<Rightarrow> warp_manager" where
  "warp_new height =
     \<lparr>wm_state = W_Inactive, wm_local_height = height, wm_network_height = height, wm_warp_threshold = 1000, wm_snapshot_header = None,
      wm_received_chunks = [], wm_max_snapshot_age = 10000\<rparr>"

definition check_warp_needed :: "warp_manager \<Rightarrow> warp_manager" where
  "check_warp_needed W =
     (let gap = sat_sub (wm_network_height W) (wm_local_height W)
      in if wm_state W = W_Inactive \<and> wm_warp_threshold W < gap then W\<lparr>wm_state := W_RequestingSnapshot\<rparr> else W)"

definition warp_update_local_height :: "block_number \<Rightarrow> warp_manager \<Rightarrow> warp_manager" where
  "warp_update_local_height height W = check_warp_needed (W\<lparr>wm_local_height := height\<rparr>)"

definition warp_peer_height_update :: "block_number \<Rightarrow> warp_manager \<Rightarrow> warp_manager" where
  "warp_peer_height_update height W =
     (if wm_network_height W < height then check_warp_needed (W\<lparr>wm_network_height := height\<rparr>) else W)"

definition warp_is_active :: "warp_manager \<Rightarrow> bool" where
  "warp_is_active W = (case wm_state W of W_Inactive \<Rightarrow> False | W_Complete \<Rightarrow> False | W_Failed _ \<Rightarrow> False | _ \<Rightarrow> True)"

definition should_warp_sync :: "warp_manager \<Rightarrow> bool" where
  "should_warp_sync W = (wm_state W = W_RequestingSnapshot)"

definition handle_snapshot_header :: "snapshot_header \<Rightarrow> unit warp_action" where
  "handle_snapshot_header h W =
     (if wm_max_snapshot_age W < sat_sub (wm_network_height W) (wh_block_number h) then (Err WE_SnapshotTooOld, W)
      else (Ok (), W\<lparr>wm_snapshot_header := Some h, wm_received_chunks := [], wm_state := W_DownloadingState (wh_total_chunks h) 0\<rparr>))"

definition handle_state_chunk :: "crypto \<Rightarrow> state_chunk \<Rightarrow> unit warp_action" where
  "handle_state_chunk K c W =
     (case wm_snapshot_header W of
        None \<Rightarrow> (Err WE_InvalidChunk, W)
      | Some h \<Rightarrow>
          if wh_total_chunks h \<le> wc_index c then (Err WE_InvalidChunk, W)
          else if \<not> verify_merkle_proof K (sr_root (wh_state_root h)) (wh_total_chunks h) c then (Err WE_InvalidMerkleProof, W)
          else let m = hm_insert (wc_index c) c (wm_received_chunks W); received = of_nat (length m)
               in (Ok (), W\<lparr>wm_received_chunks := m,
                            wm_state := (if received = wh_total_chunks h then W_VerifyingState
                                         else W_DownloadingState (wh_total_chunks h) received)\<rparr>))"

fun take_chunks :: "u32 list \<Rightarrow> (u32, state_chunk) hmap \<Rightarrow> state_chunk list option \<times> (u32, state_chunk) hmap" where
  "take_chunks [] m = (Some [], m)"
| "take_chunks (i # is) m =
     (case hm_get m i of
        None \<Rightarrow> (None, m)
      | Some c \<Rightarrow> let (r, m') = take_chunks is (hm_remove i m) in (map_option ((#) c) r, m'))"

definition chunk_indices :: "u32 \<Rightarrow> u32 list" where
  "chunk_indices n = map of_nat [0..<unat n]"

definition verify_state :: "crypto \<Rightarrow> state_snapshot warp_action" where
  "verify_state K W =
     (case wm_snapshot_header W of
        None \<Rightarrow> (Err WE_InvalidStateRoot, W)
      | Some h \<Rightarrow>
          (case take_chunks (chunk_indices (wh_total_chunks h)) (wm_received_chunks W) of
             (None, m) \<Rightarrow> (Err WE_InvalidChunk, W\<lparr>wm_snapshot_header := None, wm_received_chunks := m\<rparr>)
           | (Some cs, m) \<Rightarrow>
               let S = \<lparr>ws_header = h, ws_chunks = cs\<rparr>; W1 = W\<lparr>wm_snapshot_header := None, wm_received_chunks := m\<rparr>
               in if \<not> snapshot_verify K S then (Err WE_InvalidStateRoot, W1\<lparr>wm_state := W_Failed WE_InvalidStateRoot\<rparr>)
                  else (Ok S, W1\<lparr>wm_state := W_DownloadingHeaders (wh_block_number h) (wm_network_height W)\<rparr>)))"

definition warp_complete :: "warp_manager \<Rightarrow> warp_manager" where
  "warp_complete W = W\<lparr>wm_state := W_Complete\<rparr>"

definition warp_fail :: "warp_error \<Rightarrow> warp_manager \<Rightarrow> warp_manager" where
  "warp_fail e W = W\<lparr>wm_state := W_Failed e\<rparr>"

definition chunks_needed :: "warp_manager \<Rightarrow> u32 list" where
  "chunks_needed W =
     (case wm_snapshot_header W of
        None \<Rightarrow> []
      | Some h \<Rightarrow> filter (\<lambda>i. \<not> hm_contains (wm_received_chunks W) i) (chunk_indices (wh_total_chunks h)))"

section \<open>Proofs of an honest tree\<close>

lemma nth_next_level:
  "i < length (next_level K l) \<Longrightarrow>
     next_level K l ! i = blake3 K (hash_bytes (l ! (2 * i)) @ hash_bytes (l ! (if 2 * i + 1 < length l then 2 * i + 1 else 2 * i)))"
proof (induction K l arbitrary: i rule: next_level.induct)
  case (3 K x y zs)
  then show ?case by (cases i) auto
qed auto

lemma next_level_pair:
  assumes "i < length l"
  defines "s \<equiv> (if i mod 2 = 0 then i + 1 else i - 1)"
  shows "blake3 K (merkle_pair i (l ! i) (if s < length l then l ! s else l ! i)) = next_level K l ! (i div 2)"
proof -
  have "i div 2 < length (next_level K l)" using assms(1) by simp
  then show ?thesis
    using assms(1) by (cases "i mod 2 = 0") (auto simp: s_def nth_next_level merkle_pair_def elim!: evenE oddE simp flip: even_iff_mod_2_eq_zero)
qed

lemma proof_loop_root: "i < length l \<Longrightarrow> compute_root_from_proof K i (proof_loop K l i) (l ! i) = hd (root_loop K l)"
proof (induction K l i rule: proof_loop.induct)
  case (1 K l i)
  show ?case
  proof (cases "length l \<le> 1")
    case True
    with 1(2) have "i = 0" and "length l = 1" by auto
    then show ?thesis by (cases l) (auto simp: proof_loop.simps root_loop.simps)
  next
    case False
    have "i div 2 < length (next_level K l)" using 1(2) by simp
    then have "compute_root_from_proof K (i div 2) (proof_loop K (next_level K l) (i div 2)) (next_level K l ! (i div 2))
        = hd (root_loop K (next_level K l))"
      using 1(1) False by simp
    then show ?thesis
      using False next_level_pair[OF 1(2), of K] by (simp add: proof_loop.simps[of K l i] root_loop.simps[of K l] Let_def)
  qed
qed

lemma length_proof_loop: "length (proof_loop K l i) = ceil_log2 (length l)"
proof (induction K l i rule: proof_loop.induct)
  case (1 K l i)
  then show ?case by (subst proof_loop.simps, subst ceil_log2.simps) (simp add: Let_def)
qed

lemma ceil_log2_eq_0: "ceil_log2 n = 0 \<longleftrightarrow> n \<le> 1"
  by (subst ceil_log2.simps) simp

lemma ceil_log2_bounds: "1 < n \<Longrightarrow> 2 ^ (ceil_log2 n - 1) < n \<and> n \<le> 2 ^ ceil_log2 n"
proof (induction n rule: ceil_log2.induct)
  case (1 n)
  show ?case
  proof (cases "n = 2")
    case True
    then show ?thesis by (simp add: ceil_log2.simps)
  next
    case False
    with 1 have IH: "2 ^ (ceil_log2 ((n + 1) div 2) - 1) < (n + 1) div 2" "(n + 1) div 2 \<le> 2 ^ ceil_log2 ((n + 1) div 2)"
      by (auto simp: not_le)
    have pos: "ceil_log2 ((n + 1) div 2) \<noteq> 0" using 1(2) False by (simp add: ceil_log2_eq_0)
    have eq: "ceil_log2 n = Suc (ceil_log2 ((n + 1) div 2))" using 1(2) by (subst ceil_log2.simps) simp
    obtain k where k: "ceil_log2 ((n + 1) div 2) = Suc k" using pos by (cases "ceil_log2 ((n + 1) div 2)") auto
    show ?thesis using IH unfolding eq k by auto
  qed
qed

lemma generated_proof_verifies:
  assumes "i < length parts" and "length parts < 2 ^ 32" and "hashes = map (accounts_hash K) parts"
  shows "verify_merkle_proof K (compute_merkle_root K hashes) (of_nat (length parts)) (snapshot_chunk K hashes (i, parts ! i))"
proof (cases "length parts = 1")
  case True
  with assms show ?thesis
    by (cases parts) (auto simp: verify_merkle_proof_def snapshot_chunk_def chunk_verify_hash_def chunk_compute_hash_def
        generate_merkle_proof_def compute_merkle_root_def)
next
  case False
  with assms have n: "1 < length hashes" by auto
  have len: "unat (of_nat (length parts) :: u32) = length parts" "unat (of_nat i :: u32) = i"
    using assms by (simp_all add: unat_of_nat take_bit_nat_eq_self)
  have "compute_root_from_proof K i (proof_loop K hashes i) (accounts_hash K (parts ! i)) = hd (root_loop K hashes)"
    using proof_loop_root[of i hashes K] assms by simp
  moreover have "proof_loop K hashes i \<noteq> []"
    using length_proof_loop[of K hashes i] ceil_log2_eq_0[of "length hashes"] n by auto
  ultimately show ?thesis
    using n assms(3) len length_proof_loop[of K hashes i]
    by (auto simp: verify_merkle_proof_def snapshot_chunk_def chunk_verify_hash_def chunk_compute_hash_def generate_merkle_proof_def
        compute_merkle_root_def)
qed

lemma concat_chunks_of: "0 < n \<Longrightarrow> concat (chunks_of n xs) = xs"
proof (induction n xs rule: chunks_of.induct)
  case (1 n xs)
  then show ?case by (subst chunks_of.simps) auto
qed

lemma length_chunks_of: "length (chunks_of n xs) \<le> length xs"
proof (induction n xs rule: chunks_of.induct)
  case (1 n xs)
  then show ?case by (subst chunks_of.simps) (auto simp: Suc_le_eq neq_Nil_conv dest: le_less_trans)
qed

text \<open>What \<open>snapshot_new\<close> makes, chunk by chunk.\<close>

lemma snapshot_new_chunks:
  assumes "S = snapshot_new K sz now bn hb sr es n"
  shows "length (ws_chunks S) = length (chunks_of n es)"
    and "i < length (chunks_of n es) \<Longrightarrow> ws_chunks S ! i = snapshot_chunk K (map (accounts_hash K) (chunks_of n es)) (i, chunks_of n es ! i)"
    and "wh_total_chunks (ws_header S) = of_nat (length (chunks_of n es))"
    and "sr_root (wh_state_root (ws_header S)) = compute_merkle_root K (map (accounts_hash K) (chunks_of n es))"
    and "wh_block_number (ws_header S) = bn"
  by (simp_all add: assms snapshot_new_def Let_def nth_enumerate_eq state_root_new_def)

lemma snapshot_chunk_index [simp]: "wc_index (snapshot_chunk K hs (i, es)) = of_nat i"
  by (simp add: snapshot_chunk_def)

lemma snapshot_new_verifies:
  assumes "length (chunks_of n es) < 2 ^ 32"
  shows "snapshot_verify K (snapshot_new K sz now bn hb sr es n)"
proof -
  define S where "S = snapshot_new K sz now bn hb sr es n"
  note S = snapshot_new_chunks[OF S_def]
  have "list_all (\<lambda>(i, c). wc_index c = of_nat i) (List.enumerate 0 (ws_chunks S))"
    by (auto simp: list_all_length nth_enumerate_eq S)
  moreover have "list_all (verify_merkle_proof K (sr_root (wh_state_root (ws_header S))) (wh_total_chunks (ws_header S))) (ws_chunks S)"
    using generated_proof_verifies[OF _ assms refl] by (auto simp: list_all_length S)
  ultimately show ?thesis by (simp add: snapshot_verify_def S flip: S_def)
qed

lemma snapshot_new_accounts: "0 < n \<Longrightarrow> snapshot_accounts (snapshot_new K sz now bn hb sr es n) = es"
proof -
  assume "0 < n"
  have "map wc_accounts (ws_chunks (snapshot_new K sz now bn hb sr es n)) = chunks_of n es"
    by (rule nth_equalityI) (simp_all add: snapshot_new_chunks[OF refl] snapshot_chunk_def)
  with \<open>0 < n\<close> show ?thesis by (simp add: snapshot_accounts_def concat_chunks_of)
qed

section \<open>Downloads\<close>

definition handle_chunks :: "crypto \<Rightarrow> state_chunk list \<Rightarrow> warp_manager \<Rightarrow> warp_manager" where
  "handle_chunks K cs = fold (\<lambda>c W. snd (handle_state_chunk K c W)) cs"

text \<open>The manager holds, of the snapshot \<open>S\<close>, exactly the chunks of \<open>X\<close>.\<close>

definition holds_chunks :: "state_snapshot \<Rightarrow> state_chunk set \<Rightarrow> warp_manager \<Rightarrow> bool" where
  "holds_chunks S X W =
     (wm_snapshot_header W = Some (ws_header S)
      \<and> (\<forall>i < length (ws_chunks S). hm_get (wm_received_chunks W) (of_nat i) = (if ws_chunks S ! i \<in> X then Some (ws_chunks S ! i) else None)))"

lemma of_nat_u32_eq: "i < 2 ^ 32 \<Longrightarrow> j < 2 ^ 32 \<Longrightarrow> (of_nat i :: u32) = of_nat j \<longleftrightarrow> i = j"
  by (simp add: of_nat_eq_iff take_bit_nat_eq_self word_of_nat_eq_iff)

lemma verified_total: "snapshot_verify K S \<Longrightarrow> wh_total_chunks (ws_header S) = of_nat (length (ws_chunks S))"
  by (simp add: snapshot_verify_def split: if_splits)

lemma verified_chunk_at:
  assumes "snapshot_verify K S" and "i < length (ws_chunks S)"
  shows "wc_index (ws_chunks S ! i) = of_nat i"
    and "verify_merkle_proof K (sr_root (wh_state_root (ws_header S))) (wh_total_chunks (ws_header S)) (ws_chunks S ! i)"
  using assms by (auto simp: snapshot_verify_def list_all_length nth_enumerate_eq split: if_splits)

lemma handle_state_chunk_holds:
  assumes ok: "snapshot_verify K S" and small: "length (ws_chunks S) < 2 ^ 32" and W: "holds_chunks S X W" and c: "c \<in> set (ws_chunks S)"
  shows "fst (handle_state_chunk K c W) = Ok () \<and> holds_chunks S (insert c X) (snd (handle_state_chunk K c W))
    \<and> wm_network_height (snd (handle_state_chunk K c W)) = wm_network_height W"
proof -
  obtain i where i: "i < length (ws_chunks S)" "c = ws_chunks S ! i" using c by (auto simp: in_set_conv_nth)
  note at = verified_chunk_at[OF ok i(1), folded i(2)]
  note tot = verified_total[OF ok]
  have le: "wc_index c < wh_total_chunks (ws_header S)"
    using i(1) small by (simp add: at tot word_less_nat_alt unat_of_nat take_bit_nat_eq_self)
  have ne: "(ws_chunks S ! j = c) = (j = i)" if "j < length (ws_chunks S)" for j
    using verified_chunk_at(1)[OF ok that] at(1) of_nat_u32_eq[of j i] that i small by auto
  have eq: "((of_nat j :: u32) = of_nat i) = (j = i)" if "j < length (ws_chunks S)" for j
    using of_nat_u32_eq[of j i] that i small by simp
  show ?thesis
    using W le at(2) by (auto simp: handle_state_chunk_def holds_chunks_def Let_def update_conv' at(1) ne eq i(2)[symmetric] not_le)
qed

lemma handle_chunks_holds:
  assumes "snapshot_verify K S" and "length (ws_chunks S) < 2 ^ 32" and "holds_chunks S X W" and "set cs \<subseteq> set (ws_chunks S)"
  shows "holds_chunks S (X \<union> set cs) (handle_chunks K cs W) \<and> wm_network_height (handle_chunks K cs W) = wm_network_height W"
  using assms(3,4)
proof (induction cs arbitrary: X W)
  case (Cons c cs)
  have step: "holds_chunks S (insert c X) (snd (handle_state_chunk K c W))"
      "wm_network_height (snd (handle_state_chunk K c W)) = wm_network_height W"
    using handle_state_chunk_holds[OF assms(1,2) Cons.prems(1)] Cons.prems(2) by auto
  show ?case using Cons.IH[OF step(1)] Cons.prems(2) step(2) by (simp add: handle_chunks_def)
qed (simp add: handle_chunks_def)

lemma take_chunks_all:
  assumes "length is = length cs" and "distinct is" and "\<And>j. j < length cs \<Longrightarrow> hm_get m (is ! j) = Some (cs ! j)"
  shows "fst (take_chunks is m) = Some cs"
  using assms
proof (induction "is" cs arbitrary: m rule: list_induct2)
  case (Cons i "is" c cs)
  have "fst (take_chunks is (hm_remove i m)) = Some cs"
  proof (rule Cons.IH)
    fix j assume j: "j < length cs"
    then have "is ! j \<noteq> i" using Cons.prems(1) Cons.hyps by (metis distinct.simps(2) nth_mem)
    then show "hm_get (hm_remove i m) (is ! j) = Some (cs ! j)"
      using Cons.prems(2)[of "Suc j"] j by (simp add: delete_conv')
  qed (use Cons.prems in simp)
  then show ?case using Cons.prems(2)[of 0] by (simp add: case_prod_beta Let_def)
qed simp

lemma snapshot_eta [simp]: "\<lparr>ws_header = ws_header S, ws_chunks = ws_chunks S\<rparr> = S"
  by (cases S) simp

lemma verify_state_complete:
  assumes ok: "snapshot_verify K S" and small: "length (ws_chunks S) < 2 ^ 32" and W: "holds_chunks S X W" and all: "set (ws_chunks S) \<subseteq> X"
  shows "fst (verify_state K W) = Ok S"
    and "wm_state (snd (verify_state K W)) = W_DownloadingHeaders (wh_block_number (ws_header S)) (wm_network_height W)"
proof -
  have tot: "unat (wh_total_chunks (ws_header S)) = length (ws_chunks S)"
    using small by (simp add: verified_total[OF ok] unat_of_nat take_bit_nat_eq_self)
  have "distinct (chunk_indices (wh_total_chunks (ws_header S)))"
    using small of_nat_u32_eq by (auto simp: chunk_indices_def distinct_map inj_on_def tot)
  then have "fst (take_chunks (chunk_indices (wh_total_chunks (ws_header S))) (wm_received_chunks W)) = Some (ws_chunks S)"
    using W all by (intro take_chunks_all) (auto simp: chunk_indices_def tot holds_chunks_def)
  then obtain m where "take_chunks (chunk_indices (wh_total_chunks (ws_header S))) (wm_received_chunks W) = (Some (ws_chunks S), m)"
    by (metis prod.collapse)
  then show "fst (verify_state K W) = Ok S"
    and "wm_state (snd (verify_state K W)) = W_DownloadingHeaders (wh_block_number (ws_header S)) (wm_network_height W)"
    using W ok by (simp_all add: verify_state_def holds_chunks_def Let_def)
qed

text \<open>C17: a snapshot survives the way through the network.  For any accounts, cut into chunks of any size, let a
  manager accept the header and then receive the chunks in any order, any of them any number of times: the
  state it then verifies is the snapshot, with the accounts it was made of in their order, and the manager
  goes on to the headers after the snapshot's block.\<close>

theorem warp_sync_delivers:
  assumes "0 < n" and "length es < 2 ^ 32"
    and "S = snapshot_new K sz now bn hb sr es n"
    and "handle_snapshot_header (ws_header S) W = (Ok (), W1)"
    and "set cs = set (ws_chunks S)"
  shows "fst (verify_state K (handle_chunks K cs W1)) = Ok S \<and> snapshot_accounts S = es
    \<and> wm_state (snd (verify_state K (handle_chunks K cs W1))) = W_DownloadingHeaders bn (wm_network_height W)"
proof -
  have few: "length (chunks_of n es) < 2 ^ 32" using length_chunks_of[of n es] assms(2) by simp
  have ok: "snapshot_verify K S" and small: "length (ws_chunks S) < 2 ^ 32"
    using snapshot_new_verifies[OF few] few by (simp_all add: assms(3) snapshot_new_chunks[OF refl])
  have W1: "holds_chunks S {} W1" "wm_network_height W1 = wm_network_height W"
    using assms(4) by (auto simp: handle_snapshot_header_def holds_chunks_def split: if_splits)
  have W2: "holds_chunks S (set cs) (handle_chunks K cs W1)" "wm_network_height (handle_chunks K cs W1) = wm_network_height W"
    using handle_chunks_holds[OF ok small W1(1), of cs] assms(5) W1(2) by simp_all
  have "wh_block_number (ws_header S) = bn" by (simp add: assms(3) snapshot_new_chunks[OF refl])
  with verify_state_complete[OF ok small W2(1)] W2(2) assms(5) show ?thesis
    by (simp add: assms(3) snapshot_new_accounts[OF assms(1)])
qed

definition demo_entries :: "account_entry list" where
  "demo_entries = [(1, account_new), (2, account_new), (3, account_new)]"

definition demo_snapshot :: state_snapshot where
  "demo_snapshot = snapshot_new demo_crypto 112 0 500 7 (state_root_zero 0) demo_entries 2"

theorem warp_sync_delivers_witness:
  "fst (verify_state demo_crypto (handle_chunks demo_crypto (rev (ws_chunks demo_snapshot))
     (snd (handle_snapshot_header (ws_header demo_snapshot) (warp_new 600))))) = Ok demo_snapshot"
proof -
  have "handle_snapshot_header (ws_header demo_snapshot) (warp_new 600) =
      (Ok (), snd (handle_snapshot_header (ws_header demo_snapshot) (warp_new 600)))"
    by (simp add: handle_snapshot_header_def warp_new_def demo_snapshot_def snapshot_new_chunks(5)[OF refl] sat_sub_def)
  from warp_sync_delivers[OF _ _ demo_snapshot_def this, of "rev (ws_chunks demo_snapshot)"] show ?thesis
    by (simp add: demo_entries_def)
qed

section \<open>What a verified snapshot is bound to\<close>

text \<open>The byte strings that the verification of a snapshot hashes.\<close>

definition chunk_inputs :: "crypto \<Rightarrow> state_chunk \<Rightarrow> bytes set" where
  "chunk_inputs K c =
     insert (concat (map account_entry_bytes (wc_accounts c))) (set (path_inputs K (unat (wc_index c)) (wc_proof c) (wc_chunk_hash c)))"

definition snapshot_inputs :: "crypto \<Rightarrow> state_snapshot \<Rightarrow> bytes set" where
  "snapshot_inputs K S = (\<Union>c \<in> set (ws_chunks S). chunk_inputs K c)"

lemma length_account_bytes: "length (account_bytes a) = 32"
  by (simp add: account_bytes_def)

lemma length_account_entry_bytes [simp]: "length (account_entry_bytes e) = 104"
  by (simp add: account_entry_bytes_def length_account_bytes split: prod.split)

lemma account_entry_bytes_inject: "account_entry_bytes e = account_entry_bytes f \<longleftrightarrow> e = f"
proof
  assume eq: "account_entry_bytes e = account_entry_bytes f"
  obtain a i b j where ef: "e = (a, i)" "f = (b, j)" by (cases e, cases f)
  have "account_bytes a = account_bytes b" "le_bytes 8 (ai_nonce i) = le_bytes 8 (ai_nonce j)"
    "le_bytes 16 (ai_free i) = le_bytes 16 (ai_free j)" "le_bytes 16 (ai_reserved i) = le_bytes 16 (ai_reserved j)"
    "hash_bytes (ai_last_modified i) = hash_bytes (ai_last_modified j)"
    using eq by (simp_all add: ef account_entry_bytes_def append_eq_append_conv length_account_bytes)
  then show "e = f"
    using le_bytes_inject[of 8 "ai_nonce i" "ai_nonce j"] le_bytes_inject[of 16 "ai_free i" "ai_free j"]
      le_bytes_inject[of 16 "ai_reserved i" "ai_reserved j"] by (simp add: ef)
qed simp

lemma entries_bytes_inject: "concat (map account_entry_bytes es) = concat (map account_entry_bytes fs) \<Longrightarrow> es = fs"
proof (induction es arbitrary: fs)
  case Nil
  then show ?case by (cases fs) (auto dest: arg_cong[where f = length])
next
  case (Cons e es)
  then obtain f fs' where "fs = f # fs'" by (cases fs) (auto dest: arg_cong[where f = length])
  with Cons show ?case by (auto simp: append_eq_append_conv account_entry_bytes_inject)
qed

lemma verify_merkle_proof_path:
  assumes "verify_merkle_proof K r t c"
  shows "length (wc_proof c) = ceil_log2 (unat t)" and "wc_chunk_hash c = blake3 K (concat (map account_entry_bytes (wc_accounts c)))"
    and "compute_root_from_proof K (unat (wc_index c)) (wc_proof c) (wc_chunk_hash c) = r"
  using assms by (auto simp: verify_merkle_proof_def chunk_verify_hash_def chunk_compute_hash_def accounts_hash_def ceil_log2.simps[of "Suc 0"]
      split: if_splits)

lemma verified_chunk_binding:
  assumes "verify_merkle_proof K r t c" and "verify_merkle_proof K r t d" and "wc_index c = wc_index d"
    and no: "\<And>x y. x \<in> chunk_inputs K c \<Longrightarrow> y \<in> chunk_inputs K d \<Longrightarrow> blake3 K x = blake3 K y \<Longrightarrow> x = y"
  shows "wc_accounts c = wc_accounts d"
proof -
  note c = verify_merkle_proof_path[OF assms(1)] and d = verify_merkle_proof_path[OF assms(2)]
  have "wc_chunk_hash c = wc_chunk_hash d \<and> wc_proof c = wc_proof d"
  proof (rule compute_root_binding)
    show "length (wc_proof c) = length (wc_proof d)" by (simp add: c(1) d(1))
    show "compute_root_from_proof K (unat (wc_index c)) (wc_proof c) (wc_chunk_hash c) =
        compute_root_from_proof K (unat (wc_index c)) (wc_proof d) (wc_chunk_hash d)"
      using c(3) d(3) assms(3) by simp
  qed (use no assms(3) in \<open>auto simp: chunk_inputs_def\<close>)
  then have "concat (map account_entry_bytes (wc_accounts c)) = concat (map account_entry_bytes (wc_accounts d))"
    using no[of "concat (map account_entry_bytes (wc_accounts c))" "concat (map account_entry_bytes (wc_accounts d))"] c(2) d(2)
    by (simp add: chunk_inputs_def)
  then show ?thesis by (rule entries_bytes_inject)
qed

text \<open>C18: a root determines the accounts.  When two snapshots of fewer than 2^32 chunks both verify against the
  same root and number of chunks but hold different accounts, then among the strings that the two verifications
  hash there are two different ones with the same blake3 value: a peer that serves false chunks of an honest
  header has to find a collision.\<close>

theorem snapshot_binding:
  assumes "snapshot_verify K S" and "snapshot_verify K T"
    and "sr_root (wh_state_root (ws_header S)) = sr_root (wh_state_root (ws_header T))"
    and "wh_total_chunks (ws_header S) = wh_total_chunks (ws_header T)"
    and "length (ws_chunks S) < 2 ^ 32" and "length (ws_chunks T) < 2 ^ 32"
    and "snapshot_accounts S \<noteq> snapshot_accounts T"
  shows "\<exists>x \<in> snapshot_inputs K S. \<exists>y \<in> snapshot_inputs K T. x \<noteq> y \<and> blake3 K x = blake3 K y"
proof (rule ccontr)
  assume no: "\<not> ?thesis"
  have len: "length (ws_chunks S) = length (ws_chunks T)"
    using verified_total[OF assms(1)] verified_total[OF assms(2)] assms(4-6) of_nat_u32_eq by auto
  have "wc_accounts (ws_chunks S ! i) = wc_accounts (ws_chunks T ! i)" if i: "i < length (ws_chunks S)" for i
  proof (rule verified_chunk_binding)
    have j: "i < length (ws_chunks T)" using i len by simp
    show "verify_merkle_proof K (sr_root (wh_state_root (ws_header S))) (wh_total_chunks (ws_header S)) (ws_chunks S ! i)"
      by (rule verified_chunk_at(2)[OF assms(1) i])
    show "verify_merkle_proof K (sr_root (wh_state_root (ws_header S))) (wh_total_chunks (ws_header S)) (ws_chunks T ! i)"
      using verified_chunk_at(2)[OF assms(2) j] by (simp add: assms(3,4))
    show "wc_index (ws_chunks S ! i) = wc_index (ws_chunks T ! i)"
      using verified_chunk_at(1)[OF assms(1) i] verified_chunk_at(1)[OF assms(2) j] by simp
    show "x = y" if "x \<in> chunk_inputs K (ws_chunks S ! i)" "y \<in> chunk_inputs K (ws_chunks T ! i)" "blake3 K x = blake3 K y" for x y
      using no that nth_mem[OF i] nth_mem[OF j] unfolding snapshot_inputs_def by blast
  qed
  then have "map wc_accounts (ws_chunks S) = map wc_accounts (ws_chunks T)" by (intro nth_equalityI) (simp_all add: len)
  with assms(7) show False by (simp add: snapshot_accounts_def)
qed

text \<open>With the toy hash of the examples, the length of the input, every two snapshots of the same shape collide.\<close>

definition demo_snapshot2 :: state_snapshot where
  "demo_snapshot2 = snapshot_new demo_crypto 112 0 500 7 (state_root_zero 0) [(4, account_new), (5, account_new), (6, account_new)] 2"

theorem snapshot_binding_witness:
  "\<exists>x \<in> snapshot_inputs demo_crypto demo_snapshot. \<exists>y \<in> snapshot_inputs demo_crypto demo_snapshot2.
     x \<noteq> y \<and> blake3 demo_crypto x = blake3 demo_crypto y"
proof (rule snapshot_binding)
  show "snapshot_verify demo_crypto demo_snapshot" "snapshot_verify demo_crypto demo_snapshot2"
    unfolding demo_snapshot_def demo_snapshot2_def by (rule snapshot_new_verifies, simp add: demo_entries_def chunks_of.simps)+
  show "snapshot_accounts demo_snapshot \<noteq> snapshot_accounts demo_snapshot2"
    by (simp add: demo_snapshot_def demo_snapshot2_def snapshot_new_accounts demo_entries_def)
qed (simp_all add: demo_snapshot_def demo_snapshot2_def snapshot_new_chunks[OF refl] demo_entries_def chunks_of.simps
      compute_merkle_root_def accounts_hash_def demo_crypto_def)

section \<open>Departures\<close>

text \<open>The root in the header is computed from the chunks themselves and never compared with the state root of the
  block: whatever accounts a peer makes up, their snapshot verifies.\<close>

lemma forged_snapshot_verifies:
  "length es < 2 ^ 32 \<Longrightarrow> snapshot_verify K (snapshot_new K sz now bn hb sr es n)"
  using length_chunks_of[of n es] by (intro snapshot_new_verifies) simp

text \<open>A header that announces no chunks needs none: the empty state is verified at once.\<close>

lemma empty_snapshot_verified:
  assumes "wh_total_chunks h = 0" and "handle_snapshot_header h W = (Ok (), W1)"
  shows "fst (verify_state K W1) = Ok \<lparr>ws_header = h, ws_chunks = []\<rparr>"
  using assms by (auto simp: handle_snapshot_header_def verify_state_def chunk_indices_def snapshot_verify_def split: if_splits)

text \<open>Verifying too early forgets the header, so that no further chunk is accepted or asked for, while the
  manager still reports that it is downloading.\<close>

lemma early_verify_forgets_header:
  assumes "wm_snapshot_header W = Some h" and "take_chunks (chunk_indices (wh_total_chunks h)) (wm_received_chunks W) = (None, m)"
  shows "wm_state (snd (verify_state K W)) = wm_state W" and "chunks_needed (snd (verify_state K W)) = []"
    and "fst (handle_state_chunk K c (snd (verify_state K W))) = Err WE_InvalidChunk"
  using assms by (simp_all add: verify_state_def chunks_needed_def handle_state_chunk_def)

end
