(* ===== verification/Spec2Isabelle.thy ===== *)
theory Spec2Isabelle
  imports Kratos_Gas Kratos_Staking Kratos_Selection Kratos_Slashing Kratos_Executor Kratos_Finality Kratos_Mempool Kratos_Production
    Kratos_Purge Kratos_Security Kratos_Governance Kratos_Arbitration Kratos_Emergency Kratos_Forks Kratos_Messaging Kratos_Network Kratos_Personhood
    Kratos_Monitor Kratos_Contributors Kratos_Genesis Kratos_Warp
begin

text \<open>
  \<^bold>\<open>Verification of the KratOs node.\<close>

  KratOs (\<^verbatim>\<open>src/rust/kratos-core\<close>) is a proof-of-stake block chain node with sidechains and a set of
  on-chain contracts.  A node keeps accounts, validator credits and blocks in a database
  (\<^verbatim>\<open>storage\<close>); transactions wait in a pool (\<^verbatim>\<open>node/mempool.rs\<close>) until the producer of a slot
  (\<^verbatim>\<open>consensus/pos.rs\<close>, \<^verbatim>\<open>vrf_selection.rs\<close>) executes them into a block (\<^verbatim>\<open>node/producer.rs\<close>),
  which the other nodes re-execute and import (\<^verbatim>\<open>node/service.rs\<close>) and the finality gadget
  (\<^verbatim>\<open>consensus/finality\<close>) makes final by two rounds of votes.  Fees, emission, slashing and the
  security state of the network are in \<^verbatim>\<open>consensus/economics.rs\<close>, \<^verbatim>\<open>slashing.rs\<close> and
  \<^verbatim>\<open>contracts/krat.rs\<close>.  The contracts keep their own state: staking, sidechains, governance,
  arbitration, messages between chains, emergency powers, protocol upgrades, forks, identities,
  reputation, proofs of personhood and the monitoring of the protocol's own invariants.

  \<^bold>\<open>Theories and what they model.\<close>  Every operation of the source is one definition with the name of
  the function (prefixed where the name is taken); structs are records whose fields carry a prefix of
  two letters, enums are datatypes, the mapping of definitions to lines is in the manifest.

  \<^item> \<open>Kratos_Prelude\<close>, \<open>Kratos_Maps\<close>: Rust's integers as words, \<open>saturating_*\<close> and \<open>checked_*\<close>, \<open>Result\<close>
    as a sum, \<open>&mut self\<close> methods as actions from a state to a result and a state; \<open>HashMap\<close> and
    \<open>BTreeMap\<close> as association lists behind the locale \<open>kv_map\<close>, which carries the laws of lookup, insertion and
    removal and the sums over a map.
  \<^item> \<open>Kratos_Types\<close>, \<open>Kratos_F64\<close>: \<^verbatim>\<open>types/primitives.rs\<close>, \<^verbatim>\<open>account.rs\<close>, \<^verbatim>\<open>signature.rs\<close>,
    \<^verbatim>\<open>transaction.rs\<close>; the rounding of \<open>f64\<close> operations the fee and emission code relies on.
  \<^item> \<open>Kratos_Gas\<close>: \<^verbatim>\<open>execution/gas.rs\<close>; both meters interpret the locale \<open>bounded_meter\<close>.
  \<^item> \<open>Kratos_Roles\<close>, \<open>Kratos_Validators\<close>, \<open>Kratos_Staking\<close>, \<open>Kratos_Selection\<close>: \<^verbatim>\<open>types/contributor.rs\<close>,
    \<^verbatim>\<open>consensus/validator.rs\<close>, \<^verbatim>\<open>contracts/staking.rs\<close>, \<^verbatim>\<open>consensus/pos.rs\<close>; the registry of roles
    interprets \<open>validator_registry\<close>, which the validator set relies on.
  \<^item> \<open>Kratos_Tokenomics\<close>, \<open>Kratos_Economics\<close>, \<open>Kratos_Security\<close>: \<^verbatim>\<open>contracts/krat.rs\<close> and
    \<^verbatim>\<open>consensus/economics.rs\<close> (fee distribution, inflation, stake requirements, the security state machine).
  \<^item> \<open>Kratos_Credits\<close>, \<open>Kratos_Slashing\<close>: \<^verbatim>\<open>consensus/validator_credits.rs\<close>, \<^verbatim>\<open>vc_decay.rs\<close>, \<^verbatim>\<open>slashing.rs\<close>.
  \<^item> \<open>Kratos_Blocks\<close>, \<open>Kratos_Merkle\<close>, \<open>Kratos_Drift\<close>, \<open>Kratos_Clock\<close>: \<^verbatim>\<open>types/block.rs\<close>,
    \<^verbatim>\<open>types/merkle.rs\<close>, the block checks of \<^verbatim>\<open>node/producer.rs\<close>, the timestamp drift tracker and
    \<^verbatim>\<open>consensus/clock_health.rs\<close>.
  \<^item> \<open>Kratos_Database\<close>, \<open>Kratos_State\<close>, \<open>Kratos_Ledger\<close>: \<^verbatim>\<open>storage/db.rs\<close>, \<^verbatim>\<open>storage/state.rs\<close>; the locale
    \<open>record_store\<close> (and \<open>total_store\<close> on a database that never fails) is the contract of the state backend and is
    interpreted for accounts, credits, unbonding requests and clock records.
  \<^item> \<open>Kratos_Mempool\<close>, \<open>Kratos_Executor\<close>, \<open>Kratos_Sync\<close>, \<open>Kratos_Producer\<close>, \<open>Kratos_Node\<close>, \<open>Kratos_Agreement\<close>,
    \<open>Kratos_Exchange\<close>, \<open>Kratos_Production\<close>: the pool, the transaction executor, block production and import;
    \<open>Kratos_Sync\<close> and \<open>Kratos_Agreement\<close> compare the two paths through a block, \<open>Kratos_Exchange\<close> runs two example nodes.
  \<^item> \<open>Kratos_Votes\<close>, \<open>Kratos_Finality\<close>: \<^verbatim>\<open>consensus/finality\<close> and \<^verbatim>\<open>node/finality_integration.rs\<close>.
  \<^item> \<open>Kratos_Chains\<close>, \<open>Kratos_Purge\<close>, \<open>Kratos_Messaging\<close>: \<^verbatim>\<open>types/chain.rs\<close>, \<^verbatim>\<open>types/fraud.rs\<close>,
    \<^verbatim>\<open>contracts/sidechains.rs\<close>, \<^verbatim>\<open>contracts/messaging.rs\<close>.
  \<^item> \<open>Kratos_Governance\<close>, \<open>Kratos_Arbitration\<close>, \<open>Kratos_Emergency\<close>, \<open>Kratos_Protocol\<close>, \<open>Kratos_Forks\<close>,
    \<open>Kratos_Identity\<close>, \<open>Kratos_Reputation\<close>, \<open>Kratos_Personhood\<close>, \<open>Kratos_Monitor\<close>: the contracts of these
    names with their types (\<open>Kratos_Protocol\<close> is \<^verbatim>\<open>contracts/meta_governance.rs\<close>, \<open>Kratos_Monitor\<close> is
    \<^verbatim>\<open>contracts/security.rs\<close>).
  \<^item> \<open>Kratos_Network\<close>: \<^verbatim>\<open>network/rate_limit.rs\<close>, \<^verbatim>\<open>rpc/rate_limit.rs\<close>, \<^verbatim>\<open>network/peer.rs\<close>,
    \<^verbatim>\<open>network/sync.rs\<close>; both limiters interpret \<open>window_limiter\<close>.
  \<^item> \<open>Kratos_Warp\<close>, \<open>Kratos_Validation\<close>, \<open>Kratos_Genesis\<close>, \<open>Kratos_Contributors\<close>: \<^verbatim>\<open>network/warp_sync.rs\<close>,
    \<^verbatim>\<open>consensus/validation.rs\<close>, \<^verbatim>\<open>genesis/spec.rs\<close> and the applications and claims of \<^verbatim>\<open>types/contributor.rs\<close>.

  \<^bold>\<open>What is shown.\<close>  Money: executing a transaction takes from the supply exactly what it charges and cannot be replayed;
  the storage transfer refines a transfer on a map of balances; stakes and reputation stakes never pay out more
  than was paid in; an account withdraws from a purged chain at most once.  Agreement: a produced block is accepted by every
  synchronised node and leaves it synchronised; a node that builds the genesis and one that joins agree; a validator signs one block per slot; two finalized blocks of
  one round convict 32 per cent of the validators; a justification carries precommits of 66 per cent of a validator set the gadget was given.  Pool: its indexes agree with each other after
  every history, selected transactions execute in order, every outcome of an admission is accounted for.  State machines:
  purge, arbitration, governance, upgrades, emergencies, forks, clock exclusion and recovery of the network
  take their steps only after the notice, votes and streaks they promise, by rule induction over all
  histories of calls.  Liveness: recovery, expiry of disputes, progress of selection.  Network: in any stretch of time
  as long as the window at most twice the limit is admitted; a state snapshot arrives complete whatever the order of its
  chunks, and its root determines its accounts up to a collision of the hash.  Personhood: the clusters the search for Sybil groups
  reports are the connected components of the attestation graph.

  \<^bold>\<open>Parameters.\<close>  Code outside the repository is an argument: BLAKE3 and ed25519 (\<open>crypto\<close>), RocksDB with bincode
  (\<open>storage_env\<close>, with its laws as hypotheses that \<open>Kratos_Exchange\<close> discharges on a database in memory), JSON codecs,
  \<open>ln\<close>, \<open>exp\<close> and \<open>sqrt\<close> of \<open>f64\<close> (\<open>libm\<close>), the tree builder of rs\_merkle, clocks and the gossip network.
  The iteration order of a \<open>HashMap\<close> is an argument \<open>visit\<close> wherever it can be observed.  \<open>usize\<close> counters that
  are bounded by the code are natural numbers; additions on words wrap, as in a release build.

  \<^bold>\<open>Bounds and fuel.\<close>  No definition uses fuel: loops are structural recursions or folds, and the loops
  that run until nothing changes have termination theorems (\<open>purge_loop_settles\<close>), the others a measure.  Runs of the contracts assume block
  numbers below \<open>2\<^sup>63\<close>, so that deadlines do not wrap; at six seconds a block this is far beyond any run.

  \<^bold>\<open>Not modelled.\<close>  libp2p, DNS, HTTP, JSON-RPC methods, the command line, the wallet and the DNS seed server: they are
  input and output around libraries.  Of the node service the tasks and channels of the asynchronous runtime; of the
  types serialisation and display.  Theorems about behaviour that differs from the documentation stand in a section of that
  name at the end of the theory of the component and are listed as findings in the manifest.
\<close>

end
